(* ===== verification/Base.thy ===== *)
theory Base
  imports Complex_Main "HOL-Library.AList" "HOL-Library.Sublist"
begin

text \<open>
  The prelude of the development: Go's maps, strings, runes and errors as the modelled packages
  use them, the lemma collections of the development, and the generic lemmas on lists and
  association lists that the component theories share.

  A Go string is a sequence of bytes, so \<^typ>\<open>string\<close> (a list of 8-bit characters) is its exact
  model: \<^const>\<open>length\<close> is Go's \<^verbatim>\<open>len\<close>, and text outside ASCII is written as its UTF-8 bytes.

  A Go map with string keys is an association list. Its keys are distinct in every map the code
  builds; the order of the list stands for the order in which Go happens to range over the map,
  so a statement about every association list covers every iteration order.
\<close>

named_theorems gomap_simps \<open>lookup, update and deletion on Go maps\<close>
named_theorems str_simps \<open>evaluation of the string functions\<close>

section \<open>Go maps\<close>

type_synonym 'v gomap = "(string \<times> 'v) list"

definition gm_get :: "'v \<Rightarrow> 'v gomap \<Rightarrow> string \<Rightarrow> 'v" where
  "gm_get zero m k = (case map_of m k of None \<Rightarrow> zero | Some v \<Rightarrow> v)"

definition gm_has :: "'v gomap \<Rightarrow> string \<Rightarrow> bool" where
  "gm_has m k = (map_of m k \<noteq> None)"

definition gm_keys :: "'v gomap \<Rightarrow> string list" where
  "gm_keys m = map fst m"

definition gm_ok :: "'v gomap \<Rightarrow> bool" where
  "gm_ok m = distinct (map fst m)"

lemma gm_has_iff [gomap_simps]: "gm_has m k \<longleftrightarrow> k \<in> fst ` set m"
  by (simp add: gm_has_def map_of_eq_None_iff)

lemma gm_get_update [gomap_simps]:
  "gm_get z (AList.update k v m) k' = (if k' = k then v else gm_get z m k')"
  by (simp add: gm_get_def update_conv)

lemma gm_has_update [gomap_simps]: "gm_has (AList.update k v m) k' \<longleftrightarrow> k' = k \<or> gm_has m k'"
  by (simp add: gm_has_def update_conv)

lemma gm_get_delete [gomap_simps]:
  "gm_get z (AList.delete k m) k' = (if k' = k then z else gm_get z m k')"
  by (simp add: gm_get_def delete_conv')

lemma gm_ok_update [gomap_simps]: "gm_ok m \<Longrightarrow> gm_ok (AList.update k v m)"
  by (simp add: gm_ok_def distinct_update)

lemma gm_ok_delete [gomap_simps]: "gm_ok m \<Longrightarrow> gm_ok (AList.delete k m)"
  by (simp add: gm_ok_def distinct_delete)

lemma gm_ok_Nil [simp]: "gm_ok []"
  by (simp add: gm_ok_def)

section \<open>Strings\<close>

definition nl :: string where "nl = [CHR 0x0A]"
definition dquote :: string where "dquote = [CHR 0x22]"

text \<open>The non-ASCII signs the prompts use, as UTF-8: the warning sign, the right arrow.\<close>

definition warn_sign :: string where
  "warn_sign = [CHR 0xE2, CHR 0x9A, CHR 0xA0, CHR 0xEF, CHR 0xB8, CHR 0x8F]"
definition arrow_sign :: string where
  "arrow_sign = [CHR 0xE2, CHR 0x86, CHR 0x92]"

fun nat_str :: "nat \<Rightarrow> string" where
  "nat_str n = (if n < 10 then [char_of (48 + n)] else nat_str (n div 10) @ [char_of (48 + n mod 10)])"

declare nat_str.simps [simp del]

definition int_str :: "int \<Rightarrow> string" where
  "int_str i = (if i < 0 then ''-'' @ nat_str (nat (- i)) else nat_str (nat i))"

definition has_prefix :: "string \<Rightarrow> string \<Rightarrow> bool" where
  "has_prefix s p = prefix p s"

definition has_suffix :: "string \<Rightarrow> string \<Rightarrow> bool" where
  "has_suffix s p = suffix p s"

definition trim_prefix :: "string \<Rightarrow> string \<Rightarrow> string" where
  "trim_prefix s p = (if prefix p s then drop (length p) s else s)"

definition trim_suffix :: "string \<Rightarrow> string \<Rightarrow> string" where
  "trim_suffix s p = (if suffix p s then take (length s - length p) s else s)"

text \<open>\<^verbatim>\<open>strings.TrimSpace\<close>, on ASCII white space.\<close>

definition is_space :: "char \<Rightarrow> bool" where
  "is_space c = (c \<in> {CHR 0x20, CHR 0x09, CHR 0x0A, CHR 0x0B, CHR 0x0C, CHR 0x0D})"

definition trim_space :: "string \<Rightarrow> string" where
  "trim_space s = rev (dropWhile is_space (rev (dropWhile is_space s)))"

text \<open>\<^verbatim>\<open>strings.Index\<close> and \<^verbatim>\<open>strings.LastIndex\<close>: the least and the greatest position, if any.\<close>

fun str_index :: "string \<Rightarrow> string \<Rightarrow> nat option" where
  "str_index [] p = (if p = [] then Some 0 else None)"
| "str_index (c # s) p = (if prefix p (c # s) then Some 0 else map_option Suc (str_index s p))"

fun str_last_index :: "string \<Rightarrow> string \<Rightarrow> nat option" where
  "str_last_index [] p = (if p = [] then Some 0 else None)"
| "str_last_index (c # s) p =
     (case str_last_index s p of
        Some i \<Rightarrow> Some (Suc i)
      | None \<Rightarrow> if prefix p (c # s) then Some 0 else None)"

definition str_contains :: "string \<Rightarrow> string \<Rightarrow> bool" where
  "str_contains s p = (str_index s p \<noteq> None)"

fun str_join :: "string list \<Rightarrow> string \<Rightarrow> string" where
  "str_join [] sep = []"
| "str_join [s] sep = s"
| "str_join (s # ss) sep = s @ sep @ str_join ss sep"

definition to_lower_char :: "char \<Rightarrow> char" where
  "to_lower_char c = (let n = (of_char c :: nat) in if 65 \<le> n \<and> n \<le> 90 then char_of (n + 32) else c)"

definition to_lower :: "string \<Rightarrow> string" where
  "to_lower = map to_lower_char"

text \<open>
  \<^verbatim>\<open>%q\<close>: a double-quoted string with Go escapes. Bytes from 128 up are kept, as Go does for
  printable runes in valid UTF-8.
\<close>

definition hex_digit :: "nat \<Rightarrow> char" where
  "hex_digit n = (if n < 10 then char_of (48 + n) else char_of (87 + n))"

definition quote_char :: "char \<Rightarrow> string" where
  "quote_char c =
     (if c = CHR 0x22 then [CHR 0x5C, CHR 0x22]
      else if c = CHR 0x5C then [CHR 0x5C, CHR 0x5C]
      else if c = CHR 0x07 then [CHR 0x5C, CHR ''a'']
      else if c = CHR 0x08 then [CHR 0x5C, CHR ''b'']
      else if c = CHR 0x0C then [CHR 0x5C, CHR ''f'']
      else if c = CHR 0x0A then [CHR 0x5C, CHR ''n'']
      else if c = CHR 0x0D then [CHR 0x5C, CHR ''r'']
      else if c = CHR 0x09 then [CHR 0x5C, CHR ''t'']
      else if c = CHR 0x0B then [CHR 0x5C, CHR ''v'']
      else let n = (of_char c :: nat) in
        if n < 32 \<or> n = 127
        then [CHR 0x5C, CHR ''x'', hex_digit (n div 16), hex_digit (n mod 16)]
        else [c])"

definition go_quote :: "string \<Rightarrow> string" where
  "go_quote s = dquote @ concat (map quote_char s) @ dquote"

lemma has_prefix_simps [str_simps]:
  "has_prefix s []" "has_prefix [] (c # p) = False"
  "has_prefix (d # s) (c # p) = (c = d \<and> has_prefix s p)"
  by (auto simp: has_prefix_def)

lemma has_prefix_append [str_simps]: "has_prefix (p @ s) p"
  by (simp add: has_prefix_def)

section \<open>Runes\<close>

text \<open>
  \<^verbatim>\<open>[]rune(s)\<close> decodes UTF-8; a byte that starts no valid encoding is one rune U+FFFD.
  A rune is represented by the UTF-8 bytes that \<^verbatim>\<open>string(r)\<close> gives back.
\<close>

definition in_range :: "nat \<Rightarrow> nat \<Rightarrow> char \<Rightarrow> bool" where
  "in_range lo hi c = (let n = (of_char c :: nat) in lo \<le> n \<and> n \<le> hi)"

abbreviation is_cont :: "char \<Rightarrow> bool" where
  "is_cont \<equiv> in_range 0x80 0xBF"

definition rune_error :: string where
  "rune_error = [CHR 0xEF, CHR 0xBF, CHR 0xBD]"

definition starts2 :: "string \<Rightarrow> bool" where
  "starts2 s = (case s of b0 # b1 # _ \<Rightarrow> in_range 0xC2 0xDF b0 \<and> is_cont b1 | _ \<Rightarrow> False)"

definition starts3 :: "string \<Rightarrow> bool" where
  "starts3 s = (case s of b0 # b1 # b2 # _ \<Rightarrow>
      is_cont b2 \<and>
      (in_range 0xE0 0xE0 b0 \<and> in_range 0xA0 0xBF b1 \<or>
       in_range 0xED 0xED b0 \<and> in_range 0x80 0x9F b1 \<or>
       (in_range 0xE1 0xEC b0 \<or> in_range 0xEE 0xEF b0) \<and> is_cont b1)
    | _ \<Rightarrow> False)"

definition starts4 :: "string \<Rightarrow> bool" where
  "starts4 s = (case s of b0 # b1 # b2 # b3 # _ \<Rightarrow>
      is_cont b2 \<and> is_cont b3 \<and>
      (in_range 0xF0 0xF0 b0 \<and> in_range 0x90 0xBF b1 \<or>
       in_range 0xF4 0xF4 b0 \<and> in_range 0x80 0x8F b1 \<or>
       in_range 0xF1 0xF3 b0 \<and> is_cont b1)
    | _ \<Rightarrow> False)"

text \<open>The number of bytes of the first rune and the rune itself, for a non-empty string.\<close>

definition rune_size :: "string \<Rightarrow> nat" where
  "rune_size s = (if starts2 s then 2 else if starts3 s then 3 else if starts4 s then 4 else 1)"

definition first_rune :: "string \<Rightarrow> string" where
  "first_rune s =
     (if in_range 0 0x7F (hd s) then [hd s]
      else if rune_size s = 1 then rune_error
      else take (rune_size s) s)"

lemma rune_size_pos [simp]: "0 < rune_size s"
  by (simp add: rune_size_def)

function go_runes :: "string \<Rightarrow> string list" where
  "go_runes s = (if s = [] then [] else first_rune s # go_runes (drop (rune_size s) s))"
  by pat_completeness auto
termination
  by (relation "measure length") auto

declare go_runes.simps [simp del]

lemma go_runes_Nil [simp]: "go_runes [] = []"
  by (subst go_runes.simps) simp

lemma go_runes_length: "length (go_runes s) \<le> length s"
proof (induction s rule: go_runes.induct)
  case (1 s)
  show ?case
  proof (cases "s = []")
    case False
    then have "length (go_runes (drop (rune_size s) s)) \<le> length s - rune_size s"
      using 1 by simp
    moreover have "0 < rune_size s" by simp
    moreover have "0 < length s" using False by simp
    ultimately have "Suc (length (go_runes (drop (rune_size s) s))) \<le> length s" by linarith
    then show ?thesis using False by (subst go_runes.simps) simp
  qed simp
qed

section \<open>Errors\<close>

text \<open>
  Go errors: a plain text (\<^verbatim>\<open>errors.New\<close>, \<^verbatim>\<open>fmt.Errorf\<close> without \<^verbatim>\<open>%w\<close>), a wrapped error
  with the text around it, the two context errors, and \<^verbatim>\<open>RetryableError\<close> with its delay in
  nanoseconds.
\<close>

datatype go_err =
    ErrText string
  | ErrWrap string go_err string
  | Canceled
  | DeadlineExceeded
  | Retryable go_err int

primrec err_text :: "go_err \<Rightarrow> string" where
  "err_text (ErrText s) = s"
| "err_text (ErrWrap pre e suf) = pre @ err_text e @ suf"
| "err_text Canceled = ''context canceled''"
| "err_text DeadlineExceeded = ''context deadline exceeded''"
| "err_text (Retryable e d) = err_text e"

text \<open>\<^verbatim>\<open>errors.Is(err, context.Canceled) || errors.Is(err, context.DeadlineExceeded)\<close>.\<close>

primrec err_is_ctx :: "go_err \<Rightarrow> bool" where
  "err_is_ctx (ErrText s) = False"
| "err_is_ctx (ErrWrap pre e suf) = err_is_ctx e"
| "err_is_ctx Canceled = True"
| "err_is_ctx DeadlineExceeded = True"
| "err_is_ctx (Retryable e d) = err_is_ctx e"

text \<open>\<^verbatim>\<open>errors.As(err, &re)\<close> for \<^verbatim>\<open>*RetryableError\<close>: the delay of the outermost one.\<close>

primrec err_as_retryable :: "go_err \<Rightarrow> int option" where
  "err_as_retryable (ErrText s) = None"
| "err_as_retryable (ErrWrap pre e suf) = err_as_retryable e"
| "err_as_retryable Canceled = None"
| "err_as_retryable DeadlineExceeded = None"
| "err_as_retryable (Retryable e d) = Some d"

text \<open>A call of foreign code that returns, or that panics with a printed value.\<close>

datatype 'a go_ret = Returns 'a | Panics string

section \<open>Generic lemmas\<close>

lemma length_filter_remove1:
  "x \<in> set xs \<Longrightarrow> P x \<Longrightarrow> length (filter P (remove1 x xs)) < length (filter P xs)"
proof (induction xs)
  case Nil
  then show ?case by simp
next
  case (Cons y ys)
  then show ?case by (cases "x = y") auto
qed

lemma distinct_set_eq_length:
  "distinct xs \<Longrightarrow> distinct ys \<Longrightarrow> set xs \<subseteq> set ys \<Longrightarrow> length xs = length ys \<Longrightarrow> set xs = set ys"
  by (metis List.finite_set card_subset_eq distinct_card)

end
