(* ===== verification/Messages.thy ===== *)
theory Messages
  imports Base
begin

text \<open>
  The data types of the root package: messages and tool calls (\<^verbatim>\<open>message.go\<close>), the model
  interface (\<^verbatim>\<open>model.go\<close>), tools (\<^verbatim>\<open>tool.go\<close>), sessions (\<^verbatim>\<open>session.go\<close>), the memory interface
  (\<^verbatim>\<open>memory.go\<close>), run results and stream events (\<^verbatim>\<open>agent.go\<close>), and
  \<^verbatim>\<open>SafeCompressionBoundary\<close>.

  Code the repository calls through an interface (a model provider, a tool, a memory backend, a
  guard) is a record of functions over a world \<open>'w\<close>: every call receives the world and returns
  it changed, so an implementation may keep any state of its own. Time stamps, and fields that
  nothing in the modelled code reads, are left out.
\<close>

section \<open>message.go\<close>

text \<open>\<^verbatim>\<open>Role\<close> is a string type; any text but the four constants is \<open>RoleOther\<close>.\<close>

datatype role = RoleSystem | RoleUser | RoleAssistant | RoleTool | RoleOther string

fun role_text :: "role \<Rightarrow> string" where
  "role_text RoleSystem = ''system''"
| "role_text RoleUser = ''user''"
| "role_text RoleAssistant = ''assistant''"
| "role_text RoleTool = ''tool''"
| "role_text (RoleOther s) = s"

record tool_call_function =
  tcf_name :: string
  tcf_args :: string

record tool_call =
  tc_id :: string
  tc_type :: string
  tc_function :: tool_call_function

abbreviation tc_name :: "tool_call \<Rightarrow> string" where
  "tc_name c \<equiv> tcf_name (tc_function c)"

abbreviation tc_args :: "tool_call \<Rightarrow> string" where
  "tc_args c \<equiv> tcf_args (tc_function c)"

record image_url =
  iu_url :: string
  iu_detail :: string

record input_audio =
  ia_data :: string
  ia_format :: string

record content_part =
  cp_type :: string
  cp_text :: string
  cp_image_url :: "image_url option"
  cp_input_audio :: "input_audio option"

record message =
  msg_role :: role
  msg_content :: string
  msg_content_parts :: "content_part list"
  msg_reasoning :: string
  msg_name :: string
  msg_tool_calls :: "tool_call list"
  msg_tool_call_id :: string
  msg_transient :: bool
  msg_index :: int

definition empty_message :: message where
  "empty_message = \<lparr>msg_role = RoleOther '''', msg_content = '''', msg_content_parts = [],
     msg_reasoning = '''', msg_name = '''', msg_tool_calls = [], msg_tool_call_id = '''',
     msg_transient = False, msg_index = 0\<rparr>"

definition role_message :: "role \<Rightarrow> string \<Rightarrow> message" where
  "role_message r c = empty_message\<lparr>msg_role := r, msg_content := c\<rparr>"

definition is_multimodal :: "message \<Rightarrow> bool" where
  "is_multimodal m = (0 < length (msg_content_parts m))"

definition text_part :: "string \<Rightarrow> content_part" where
  "text_part t = \<lparr>cp_type = ''text'', cp_text = t, cp_image_url = None, cp_input_audio = None\<rparr>"

definition image_part :: "string \<Rightarrow> content_part" where
  "image_part u = \<lparr>cp_type = ''image_url'', cp_text = '''',
     cp_image_url = Some \<lparr>iu_url = u, iu_detail = ''''\<rparr>, cp_input_audio = None\<rparr>"

definition user_message :: "string \<Rightarrow> message" where
  "user_message c = role_message RoleUser c"

definition user_message_with_image :: "string \<Rightarrow> string \<Rightarrow> message" where
  "user_message_with_image t u =
     empty_message\<lparr>msg_role := RoleUser, msg_content_parts := [text_part t, image_part u]\<rparr>"

text \<open>The literal \<^verbatim>\<open>Message{Role: RoleTool, ToolCallID: id, Content: c}\<close>, used throughout the runner.\<close>

definition tool_message :: "string \<Rightarrow> string \<Rightarrow> message" where
  "tool_message cid c = (role_message RoleTool c)\<lparr>msg_tool_call_id := cid\<rparr>"

lemma role_message_sel [simp]:
  "msg_role (role_message r c) = r"
  "msg_content (role_message r c) = c"
  "msg_tool_calls (role_message r c) = []"
  "msg_transient (role_message r c) = False"
  "msg_tool_call_id (role_message r c) = ''''"
  by (simp_all add: role_message_def empty_message_def)

lemma user_message_sel [simp]:
  "msg_role (user_message c) = RoleUser"
  "msg_content (user_message c) = c"
  "msg_tool_calls (user_message c) = []"
  "msg_transient (user_message c) = False"
  by (simp_all add: user_message_def)

lemma tool_message_sel [simp]:
  "msg_role (tool_message i c) = RoleTool"
  "msg_content (tool_message i c) = c"
  "msg_tool_call_id (tool_message i c) = i"
  "msg_tool_calls (tool_message i c) = []"
  by (simp_all add: tool_message_def)

section \<open>model.go\<close>

record function_def =
  fd_name :: string
  fd_description :: string
  fd_parameters :: string
  fd_end_turn :: bool

record usage =
  us_prompt :: int
  us_completion :: int
  us_total :: int

definition zero_usage :: usage where
  "zero_usage = \<lparr>us_prompt = 0, us_completion = 0, us_total = 0\<rparr>"

definition add_usage :: "usage \<Rightarrow> usage \<Rightarrow> usage" where
  "add_usage a b = \<lparr>us_prompt = us_prompt a + us_prompt b,
     us_completion = us_completion a + us_completion b, us_total = us_total a + us_total b\<rparr>"

lemma add_usage_zero [simp]: "add_usage zero_usage u = u" "add_usage u zero_usage = u"
  by (simp_all add: add_usage_def zero_usage_def)

lemma add_usage_assoc: "add_usage (add_usage a b) c = add_usage a (add_usage b c)"
  by (simp add: add_usage_def)

record choice =
  ch_index :: int
  ch_message :: message
  ch_finish_reason :: string

record chat_response =
  resp_choices :: "choice list"
  resp_usage :: usage

record chat_request =
  req_model :: string
  req_messages :: "message list"
  req_tools :: "function_def list"
  req_temperature :: "real option"
  req_max_tokens :: int

record function_delta =
  fdl_name :: string
  fdl_args :: string

record tool_call_delta =
  tcd_index :: int
  tcd_id :: string
  tcd_type :: string
  tcd_function :: function_delta

record stream_delta =
  sd_content :: string
  sd_reasoning :: string
  sd_tool_calls :: "tool_call_delta list"
  sd_finish_reason :: string

record stream_chunk =
  sc_choices :: "stream_delta list"
  sc_usage :: "usage option"

text \<open>
  A \<^verbatim>\<open>StreamReader\<close>: the chunks that \<^verbatim>\<open>Next\<close>/\<^verbatim>\<open>Current\<close> deliver and the error that
  \<^verbatim>\<open>Err\<close> reports after the last one.
\<close>

record stream_reader =
  rd_chunks :: "stream_chunk list"
  rd_err :: "go_err option"

text \<open>
  \<^verbatim>\<open>Model\<close>, with the optional \<^verbatim>\<open>TokenizerModeler\<close> as an option.
  \<open>m_stream\<close> gives \<open>Inr None\<close> for Go's \<^verbatim>\<open>nil, nil\<close> (streaming not supported).
\<close>

record 'w chat_model =
  m_chat :: "chat_request \<Rightarrow> 'w \<Rightarrow> (go_err + chat_response) \<times> 'w"
  m_stream :: "chat_request \<Rightarrow> 'w \<Rightarrow> (go_err + stream_reader option) \<times> 'w"
  m_context_window :: int
  m_tokenizer_model :: "string option"

section \<open>session.go\<close>

record 'w session =
  ses_id :: string
  ses_model_id :: string
  ses_model :: "'w chat_model option"
  ses_temperature :: "real option"
  ses_max_tokens :: int
  ses_user_profile :: string
  ses_project_context :: string
  ses_turn :: int

definition new_session :: "string \<Rightarrow> 'w session" where
  "new_session i = \<lparr>ses_id = i, ses_model_id = '''', ses_model = None, ses_temperature = None,
     ses_max_tokens = 0, ses_user_profile = '''', ses_project_context = '''', ses_turn = 0\<rparr>"

section \<open>tool.go\<close>

record tool_chunk =
  tk_content :: string
  tk_error :: "go_err option"

text \<open>
  \<^verbatim>\<open>Tool\<close>, with the optional interfaces \<^verbatim>\<open>SelfApproving\<close> and \<^verbatim>\<open>StreamExecutor\<close>. The session is
  the one the runner attaches to the tool's context. \<open>t_is_agent\<close> marks the concrete type
  \<^verbatim>\<open>*subAgentTool\<close>, which the code tests with a type assertion. A tool may panic.
\<close>

record 'w tool =
  t_def :: function_def
  t_execute :: "'w session \<Rightarrow> string \<Rightarrow> 'w \<Rightarrow> (string \<times> go_err option) go_ret \<times> 'w"
  t_stream :: "('w session \<Rightarrow> string \<Rightarrow> 'w \<Rightarrow> (tool_chunk list) go_ret \<times> 'w) option"
  t_self_approve :: "(string \<Rightarrow> 'w \<Rightarrow> bool) option"
  t_is_agent :: bool

section \<open>memory.go and prompt.go\<close>

record retrieval_hint =
  rh_description :: string
  rh_query :: string

record compressed_context =
  cc_summary :: string
  cc_hints :: "retrieval_hint list"
  cc_through_index :: int

record search_result =
  sr_message :: message
  sr_score :: real

record 'w memory_if =
  mem_recent :: "string \<Rightarrow> int \<Rightarrow> int \<Rightarrow> 'w \<Rightarrow> (go_err + message list) \<times> 'w"
  mem_count :: "string \<Rightarrow> 'w \<Rightarrow> (go_err + int) \<times> 'w"
  mem_compact :: "string \<Rightarrow> int \<Rightarrow> message list option \<Rightarrow> 'w \<Rightarrow> go_err option \<times> 'w"
  mem_compressed :: "string \<Rightarrow> 'w \<Rightarrow> (go_err + compressed_context option) \<times> 'w"
  mem_search :: "string \<Rightarrow> string \<Rightarrow> int \<Rightarrow> 'w \<Rightarrow> (go_err + search_result list) \<times> 'w"
  mem_append :: "string \<Rightarrow> message \<Rightarrow> 'w \<Rightarrow> go_err option \<times> 'w"
  mem_delete :: "string \<Rightarrow> 'w \<Rightarrow> go_err option \<times> 'w"

text \<open>The loop of \<^verbatim>\<open>SafeCompressionBoundary\<close>: extend over consecutive tool results.\<close>

fun extend_over_tools :: "message list \<Rightarrow> nat \<Rightarrow> nat" where
  "extend_over_tools [] overflow = overflow"
| "extend_over_tools (m # ms) overflow =
     (if msg_role m = RoleTool then extend_over_tools ms (overflow + 1) else overflow)"

definition safe_compression_boundary :: "message list \<Rightarrow> int \<Rightarrow> int" where
  "safe_compression_boundary all overflow =
     (if overflow \<le> 0 \<or> int (length all) \<le> overflow then overflow
      else
        let lastCompressed = all ! nat (overflow - 1) in
        if msg_role lastCompressed = RoleAssistant \<and> 0 < length (msg_tool_calls lastCompressed)
        then int (extend_over_tools (drop (nat overflow) all) (nat overflow))
        else overflow)"

lemma extend_over_tools_eq:
  "extend_over_tools ms n = n + length (takeWhile (\<lambda>m. msg_role m = RoleTool) ms)"
  by (induction ms arbitrary: n) auto

section \<open>guard.go, approver.go, hooks.go, observer.go, skill.go\<close>

record guard_result =
  gr_allowed :: bool
  gr_reason :: string
  gr_tripwire :: bool

text \<open>The check gets the session, the message under test and the history.\<close>

type_synonym 'w guard = "'w session \<Rightarrow> message \<Rightarrow> message list \<Rightarrow> 'w \<Rightarrow> guard_result \<times> 'w"

type_synonym 'w approver =
  "tool_call \<Rightarrow> function_def \<Rightarrow> 'w session \<Rightarrow> 'w \<Rightarrow> (bool \<times> string) \<times> 'w"

text \<open>
  \<^verbatim>\<open>RunHooks\<close>. The opaque state a start hook hands to its end hook is a number chosen by the
  hook. \<^verbatim>\<open>OnToolEnd\<close> gets the result and the error by reference, so it returns both.
\<close>

record 'w run_hooks =
  h_agent_start :: "chat_request \<Rightarrow> 'w \<Rightarrow> nat \<times> 'w"
  h_agent_end :: "chat_request option \<Rightarrow> chat_response option \<Rightarrow> go_err option \<Rightarrow> nat \<Rightarrow> 'w \<Rightarrow> 'w"
  h_tool_start :: "function_def \<Rightarrow> string \<Rightarrow> 'w \<Rightarrow> nat \<times> 'w"
  h_tool_end :: "function_def \<Rightarrow> string \<Rightarrow> string \<Rightarrow> go_err option \<Rightarrow> nat \<Rightarrow> 'w
                  \<Rightarrow> (string \<times> go_err option) \<times> 'w"

datatype detail = DText string | DInt int

datatype phase = Enter | Leave

record stage_event =
  se_name :: string
  se_phase :: phase
  se_detail :: "(string \<times> detail) list"
  se_err :: "go_err option"

record skill_info =
  sk_name :: string
  sk_description :: string
  sk_frontmatter :: "(string \<times> string) list"
  sk_path :: string

record 'w skill_loader =
  sl_discover :: "'w \<Rightarrow> (go_err + skill_info list) \<times> 'w"
  sl_load :: "skill_info \<Rightarrow> 'w \<Rightarrow> (go_err + string) \<times> 'w"

section \<open>Run results and stream events (agent.go)\<close>

record run_result =
  rr_messages :: "message list"
  rr_final_output :: string
  rr_turn_count :: int
  rr_usage :: usage
  rr_context_window :: int
  rr_stop_reason :: string

definition empty_run_result :: run_result where
  "empty_run_result = \<lparr>rr_messages = [], rr_final_output = '''', rr_turn_count = 0,
     rr_usage = zero_usage, rr_context_window = 0, rr_stop_reason = ''''\<rparr>"

text \<open>
  \<^verbatim>\<open>StreamEvent\<close>: one constructor per \<^verbatim>\<open>StreamEventType\<close>, with the fields that the senders of
  that type set. Every sender of the three error events sets a non-nil error; the result of a
  \<open>StreamDone\<close> may be a nil pointer.
\<close>

datatype stream_event =
    StreamThought string
  | StreamTextDelta string
  | StreamToolCall message
  | StreamToolProgress string string
  | StreamToolResult message
  | StreamRetrying go_err
  | StreamDone "run_result option"
  | StreamError go_err
  | StreamAborted go_err

fun is_terminal :: "stream_event \<Rightarrow> bool" where
  "is_terminal (StreamDone r) = True"
| "is_terminal (StreamError e) = True"
| "is_terminal (StreamAborted e) = True"
| "is_terminal _ = False"

end
