(* ===== verification/PlanTypes.thy ===== *)
theory PlanTypes
  imports Messages
begin

text \<open>
  The data of the plan package (\<^verbatim>\<open>plan/types.go\<close>): step and plan definitions, step results, the
  plan state, the configuration and the events. Time stamps are left out.
\<close>

datatype plan_status =
  PlanPlanning | PlanApproved | PlanRunning | PlanDone | PlanFailed | PlanCancelled

datatype step_status = StepPending | StepRunning | StepDone | StepFailed | StepSkipped

record step_def =
  sd_id :: string
  sd_agent :: string
  sd_task :: string
  sd_depends_on :: "string list"
  sd_final :: bool
  sd_gate :: bool
  sd_max_retries :: int

text \<open>The Go zero value \<^verbatim>\<open>StepDef{}\<close>.\<close>

definition empty_step :: step_def where
  "empty_step = \<lparr>sd_id = '''', sd_agent = '''', sd_task = '''', sd_depends_on = [],
     sd_final = False, sd_gate = False, sd_max_retries = 0\<rparr>"

record plan_def =
  pd_goal :: string
  pd_steps :: "step_def list"

record step_result =
  srs_status :: step_status
  srs_summary :: string
  srs_final_output :: string
  srs_error :: string
  srs_retries :: int
  srs_usage :: usage

definition new_result :: "step_status \<Rightarrow> string \<Rightarrow> step_result" where
  "new_result st e = \<lparr>srs_status = st, srs_summary = '''', srs_final_output = '''',
     srs_error = e, srs_retries = 0, srs_usage = zero_usage\<rparr>"

lemma new_result_sel [simp]:
  "srs_status (new_result st e) = st" "srs_error (new_result st e) = e"
  "srs_usage (new_result st e) = zero_usage"
  by (simp_all add: new_result_def)

text \<open>\<^verbatim>\<open>PlanState\<close>; the results map holds no nil pointers (a nil entry is an absent one).\<close>

record plan_state =
  ps_id :: string
  ps_goal :: string
  ps_status :: plan_status
  ps_steps :: "step_def list"
  ps_results :: "step_result gomap"
  ps_replan_count :: int

record plan_result =
  pr_goal :: string
  pr_final_output :: string
  pr_steps :: "step_result list"
  pr_usage :: usage
  pr_replan_count :: int

record dep_result =
  dr_step_id :: string
  dr_agent_name :: string
  dr_task :: string
  dr_summary :: string
  dr_output :: string
  dr_success :: bool
  dr_error :: string

record step_context =
  stc_goal :: string
  stc_task :: string
  stc_dependencies :: "dep_result list"

record plan_config =
  pc_step_timeout :: int
  pc_max_replans :: int
  pc_max_steps :: int
  pc_max_concurrency :: int
  pc_auto_replan :: bool

text \<open>Durations are nanoseconds.\<close>

definition default_plan_config :: plan_config where
  "default_plan_config = \<lparr>pc_step_timeout = 5 * 60 * 1000000000, pc_max_replans = 3,
     pc_max_steps = 20, pc_max_concurrency = 8, pc_auto_replan = True\<rparr>"

text \<open>
  \<^verbatim>\<open>PlanEvent\<close>: one constructor per event type, with the fields its senders set.
  \<open>PEToolCall step id name args\<close>.
\<close>

datatype plan_event =
    PEGenerated string plan_def
  | PEApproved
  | PEStepStart string string
  | PETextDelta string string
  | PEToolCall string string string string
  | PEToolProgress string string
  | PEToolResult string string
  | PEStepDone string string step_result
  | PEStepFailed string string step_result string
  | PEReplanning string
  | PEWaitingRetry string string
  | PEDone string
  | PEError string

record replan_done_step =
  rd_id :: string
  rd_agent :: string
  rd_summary :: string

record agent_info =
  ai_name :: string
  ai_description :: string
  ai_internal :: bool

record replan_input =
  ri_goal :: string
  ri_failed_step_id :: string
  ri_failure_error :: string
  ri_feedback :: string
  ri_done_steps :: "replan_done_step list"
  ri_affected :: "step_def list"
  ri_agents :: "agent_info list"
  ri_surviving_ids :: "string list"

text \<open>
  \<^verbatim>\<open>openagent.AgentRunner\<close> as the executor uses it: the session id, the prefix, the input and
  the error state of the context it is given (\<open>None\<close> for a live one). The streaming variant is
  the sequence of events the channel delivers.
\<close>

record 'w plan_agent =
  pa_run :: "string \<Rightarrow> message list \<Rightarrow> message \<Rightarrow> 'w \<Rightarrow> (go_err + run_result) \<times> 'w"
  pa_stream :: "string \<Rightarrow> message list \<Rightarrow> message \<Rightarrow> 'w \<Rightarrow> stream_event list \<times> 'w"

abbreviation step_ids :: "step_def list \<Rightarrow> string list" where
  "step_ids steps \<equiv> map sd_id steps"

end
