(* ===== verification/PlanValidate.thy ===== *)
theory PlanValidate
  imports PlanTypes
begin

text \<open>
  \<^verbatim>\<open>plan/validate.go\<close>: the structural checks of a plan and the cycle detection by Kahn's
  algorithm, with the proof that \<open>validate\<close> accepts a plan exactly when it is well formed:
  at least one step, distinct non-empty ids, known agents, known and distinct dependencies and
  an acyclic dependency relation.
\<close>

section \<open>Model\<close>

text \<open>One constructor per message that \<^verbatim>\<open>Validate\<close> appends to its error list.\<close>

datatype vmsg =
    NoSteps
  | EmptyStepId
  | DuplicateStepId string
  | AgentRequired string
  | AgentNotFound string string
  | SelfDependency string
  | EmptyDependency string
  | UnknownDependency string string
  | DuplicateDependency string string
  | CircularDependency "string list"
  | NotReachable string

fun vmsg_text :: "vmsg \<Rightarrow> string" where
  "vmsg_text NoSteps = ''plan must have at least one step''"
| "vmsg_text EmptyStepId = ''step has empty id''"
| "vmsg_text (DuplicateStepId i) = ''duplicate step id '' @ go_quote i"
| "vmsg_text (AgentRequired i) = ''step '' @ go_quote i @ '': agent is required''"
| "vmsg_text (AgentNotFound i a) =
     ''step '' @ go_quote i @ '': agent '' @ go_quote a @ '' not found in available agents''"
| "vmsg_text (SelfDependency i) = ''step '' @ go_quote i @ '': self-dependency is not allowed''"
| "vmsg_text (EmptyDependency i) = ''step '' @ go_quote i @ '': dependency id is empty''"
| "vmsg_text (UnknownDependency i d) =
     ''step '' @ go_quote i @ '': depends on unknown step '' @ go_quote d"
| "vmsg_text (DuplicateDependency i d) =
     ''step '' @ go_quote i @ '': duplicate dependency '' @ go_quote d"
| "vmsg_text (CircularDependency ns) =
     ''circular dependency detected involving: '' @ str_join ns '', ''"
| "vmsg_text (NotReachable i) =
     ''step '' @ go_quote i @ '' is not reachable from any entry point (this is a bug '' @
     [CHR 0xE2, CHR 0x80, CHR 0x94] @ '' Kahn should have caught it)''"

text \<open>\<^verbatim>\<open>ValidateError.Error\<close>.\<close>

definition validate_error :: "vmsg list \<Rightarrow> go_err" where
  "validate_error es = ErrText (''plan validation failed:'' @ nl @ ''  - '' @
     str_join (map vmsg_text es) (nl @ ''  - ''))"

text \<open>The first loop: ids, with the set \<^verbatim>\<open>stepIDs\<close>.\<close>

fun check_ids :: "step_def list \<Rightarrow> string set \<Rightarrow> vmsg list \<times> string set" where
  "check_ids [] ids = ([], ids)"
| "check_ids (s # ss) ids =
     (if sd_id s = '''' then (let (es, ids') = check_ids ss ids in (EmptyStepId # es, ids'))
      else let (es, ids') = check_ids ss (insert (sd_id s) ids)
           in ((if sd_id s \<in> ids then [DuplicateStepId (sd_id s)] else []) @ es, ids'))"

text \<open>The loop over the dependencies of one step, with the set \<^verbatim>\<open>seenDeps\<close>.\<close>

fun check_deps :: "string \<Rightarrow> string set \<Rightarrow> string set \<Rightarrow> string list \<Rightarrow> vmsg list" where
  "check_deps i ids seen [] = []"
| "check_deps i ids seen (d # ds) =
     (if d = i then [SelfDependency i] else []) @
     (if d = '''' then EmptyDependency i # check_deps i ids seen ds
      else (if d \<notin> ids then [UnknownDependency i d] else []) @
           (if d \<in> seen then [DuplicateDependency i d] else []) @
           check_deps i ids (insert d seen) ds)"

text \<open>The second loop: agent references and dependencies.\<close>

definition check_step :: "string set \<Rightarrow> string set \<Rightarrow> step_def \<Rightarrow> vmsg list" where
  "check_step agentNames ids s =
     (if sd_id s = '''' then []
      else (if sd_agent s = '''' then [AgentRequired (sd_id s)]
            else if agentNames \<noteq> {} \<and> sd_agent s \<notin> agentNames
            then [AgentNotFound (sd_id s) (sd_agent s)] else []) @
           check_deps (sd_id s) ids {} (sd_depends_on s))"

text \<open>
  \<^verbatim>\<open>inDegree\<close> and \<^verbatim>\<open>adj\<close>: the first is written once per step, the second gets the step appended
  under each of its dependencies.
\<close>

fun add_adj :: "string \<Rightarrow> string list \<Rightarrow> string list gomap \<Rightarrow> string list gomap" where
  "add_adj i [] adj = adj"
| "add_adj i (d # ds) adj = add_adj i ds (AList.update d (gm_get [] adj d @ [i]) adj)"

fun build_graph :: "step_def list \<Rightarrow> int gomap \<Rightarrow> string list gomap
                     \<Rightarrow> int gomap \<times> string list gomap" where
  "build_graph [] deg adj = (deg, adj)"
| "build_graph (s # ss) deg adj =
     build_graph ss (AList.update (sd_id s) (int (length (sd_depends_on s))) deg)
       (add_adj (sd_id s) (sd_depends_on s) adj)"

text \<open>The inner loop of Kahn's algorithm: decrement, and enqueue at zero.\<close>

fun relax :: "string list \<Rightarrow> int gomap \<Rightarrow> string list \<Rightarrow> int gomap \<times> string list" where
  "relax [] deg queue = (deg, queue)"
| "relax (n # ns) deg queue =
     (let deg' = AList.update n (gm_get 0 deg n - 1) deg
      in relax ns deg' (if gm_get 0 deg' n = 0 then queue @ [n] else queue))"

definition positive :: "int gomap \<Rightarrow> string set" where
  "positive deg = {k. 0 < gm_get 0 deg k}"

lemma finite_positive [simp]: "finite (positive deg)"
proof -
  have "positive deg \<subseteq> fst ` set deg"
    by (auto simp: positive_def gm_get_def split: option.splits)
       (metis image_eqI map_of_SomeD fst_conv)
  then show ?thesis by (rule finite_subset) simp
qed

lemma relax_measure:
  "relax ns deg queue = (deg', queue') \<Longrightarrow>
     card (positive deg') + length queue' \<le> card (positive deg) + length queue"
proof (induction ns arbitrary: deg queue)
  case Nil
  then show ?case by simp
next
  case (Cons n ns)
  let ?d = "AList.update n (gm_get 0 deg n - 1) deg"
  let ?q = "if gm_get 0 ?d n = 0 then queue @ [n] else queue"
  have IH: "card (positive deg') + length queue' \<le> card (positive ?d) + length ?q"
    using Cons.prems by (intro Cons.IH) (simp add: Let_def)
  have sub: "positive ?d \<subseteq> positive deg"
    by (auto simp: positive_def gomap_simps split: if_splits)
  have "card (positive ?d) + length ?q \<le> card (positive deg) + length queue"
  proof (cases "gm_get 0 ?d n = 0")
    case True
    then have "n \<in> positive deg" "n \<notin> positive ?d"
      by (simp_all add: positive_def gomap_simps)
    with sub have "card (positive ?d) < card (positive deg)"
      by (intro psubset_card_mono) auto
    with True show ?thesis by simp
  next
    case False
    with sub show ?thesis by (simp add: card_mono)
  qed
  with IH show ?case by simp
qed

function kahn :: "string list gomap \<Rightarrow> string list \<Rightarrow> int gomap \<Rightarrow> string list
                   \<Rightarrow> string list \<times> int gomap" where
  "kahn adj [] deg srt = (srt, deg)"
| "kahn adj (node # queue) deg srt =
     (let (deg', queue') = relax (gm_get [] adj node) deg queue
      in kahn adj queue' deg' (srt @ [node]))"
  by pat_completeness auto
termination
proof (relation "measure (\<lambda>(adj, queue, deg, srt). card (positive deg) + length queue)", goal_cases)
  case 1
  show ?case by simp
next
  case (2 adj node queue deg srt x deg' queue')
  then have "relax (gm_get [] adj node) deg queue = (deg', queue')" by simp
  from relax_measure [OF this] show ?case by simp
qed

definition initial_queue :: "step_def list \<Rightarrow> int gomap \<Rightarrow> string list" where
  "initial_queue steps deg = [sd_id s. s \<leftarrow> steps, gm_get 0 deg (sd_id s) = 0]"

text \<open>\<^verbatim>\<open>Validate\<close>: the list of messages is empty for nil.\<close>

definition validate_errors :: "plan_def \<Rightarrow> string set \<Rightarrow> vmsg list" where
  "validate_errors def agentNames =
     (let steps = pd_steps def in
      if length steps = 0 then [NoSteps]
      else
        let (es1, ids) = check_ids steps {};
            errs = es1 @ concat (map (check_step agentNames ids) steps)
        in
        if errs \<noteq> [] then errs
        else
          let (deg0, adj) = build_graph steps [] [];
              (srt, deg) = kahn adj (initial_queue steps deg0) deg0 [];
              cycleNodes = [sd_id s. s \<leftarrow> steps, 0 < gm_get 0 deg (sd_id s)];
              es2 = (if length srt \<noteq> length steps then [CircularDependency cycleNodes] else [])
          in es2 @ [NotReachable (sd_id s). s \<leftarrow> steps, sd_id s \<notin> set srt])"

definition validate :: "plan_def \<Rightarrow> string set \<Rightarrow> go_err option" where
  "validate def agentNames =
     (let errs = validate_errors def agentNames
      in if errs = [] then None else Some (validate_error errs))"

section \<open>Specification\<close>

text \<open>The dependency edges: \<open>(d, i)\<close> when step \<open>i\<close> depends on \<open>d\<close>.\<close>

definition dep_edges :: "step_def list \<Rightarrow> (string \<times> string) set" where
  "dep_edges steps = {(d, i). \<exists>s\<in>set steps. sd_id s = i \<and> d \<in> set (sd_depends_on s)}"

definition deps_closed :: "step_def list \<Rightarrow> bool" where
  "deps_closed steps = (\<forall>s\<in>set steps. set (sd_depends_on s) \<subseteq> set (step_ids steps))"

text \<open>\<open>xs\<close> lists step ids so that every dependency of a listed step is listed before it.\<close>

definition dep_ordered :: "step_def list \<Rightarrow> string list \<Rightarrow> bool" where
  "dep_ordered steps xs = (\<forall>ys z zs. xs = ys @ z # zs \<longrightarrow>
     (\<forall>s\<in>set steps. sd_id s = z \<longrightarrow> set (sd_depends_on s) \<subseteq> set ys))"

definition well_formed_plan :: "plan_def \<Rightarrow> string set \<Rightarrow> bool" where
  "well_formed_plan def agentNames =
     (let steps = pd_steps def in
      steps \<noteq> [] \<and> '''' \<notin> set (step_ids steps) \<and> distinct (step_ids steps) \<and>
      (\<forall>s\<in>set steps. sd_agent s \<noteq> '''' \<and> (agentNames = {} \<or> sd_agent s \<in> agentNames) \<and>
         distinct (sd_depends_on s)) \<and>
      deps_closed steps \<and> acyclic (dep_edges steps))"

section \<open>Orders and acyclicity\<close>

lemma dep_ordered_Nil [simp]: "dep_ordered steps []"
  by (simp add: dep_ordered_def)

lemma dep_ordered_snoc:
  "dep_ordered steps (xs @ [x]) \<longleftrightarrow>
     dep_ordered steps xs \<and> (\<forall>s\<in>set steps. sd_id s = x \<longrightarrow> set (sd_depends_on s) \<subseteq> set xs)"
  (is "?l \<longleftrightarrow> ?r")
proof
  assume l: ?l
  show ?r unfolding dep_ordered_def
  proof (intro conjI allI impI ballI)
    fix ys z zs s assume "xs = ys @ z # zs" "s \<in> set steps" "sd_id s = z"
    then show "set (sd_depends_on s) \<subseteq> set ys"
      using l unfolding dep_ordered_def by (metis append_Cons append_assoc)
  next
    fix s assume "s \<in> set steps" "sd_id s = x"
    then show "set (sd_depends_on s) \<subseteq> set xs"
      using l unfolding dep_ordered_def by metis
  qed
next
  assume r: ?r
  show ?l unfolding dep_ordered_def
  proof (intro allI impI ballI)
    fix ys z zs s assume e: "xs @ [x] = ys @ z # zs" and s: "s \<in> set steps" "sd_id s = z"
    show "set (sd_depends_on s) \<subseteq> set ys"
    proof (cases zs rule: rev_cases)
      case Nil
      then show ?thesis using e s r by auto
    next
      case (snoc zs' z')
      then have "xs = ys @ z # zs'" using e by simp
      then show ?thesis using r s unfolding dep_ordered_def by blast
    qed
  qed
qed

lemma dep_ordered_acyclic:
  assumes ord: "dep_ordered steps xs" and dist: "distinct xs"
    and cover: "set (step_ids steps) \<subseteq> set xs"
  shows "acyclic (dep_edges steps)"
proof (rule acyclicI_order [where f = "\<lambda>x. - int (length (takeWhile (\<lambda>y. y \<noteq> x) xs))"])
  fix d i assume "(d, i) \<in> dep_edges steps"
  then obtain s where s: "s \<in> set steps" "sd_id s = i" "d \<in> set (sd_depends_on s)"
    by (auto simp: dep_edges_def)
  then have "i \<in> set xs" using cover by auto
  then obtain ys zs where xs: "xs = ys @ i # zs" by (meson split_list)
  have d: "d \<in> set ys" using ord s xs unfolding dep_ordered_def by blast
  have "i \<notin> set ys" using dist xs by auto
  then have "takeWhile (\<lambda>y. y \<noteq> i) (ys @ i # zs) = ys"
    by (subst takeWhile_append2) auto
  moreover have "length (takeWhile (\<lambda>y. y \<noteq> d) (ys @ i # zs)) < length ys"
    using d by (induction ys) auto
  ultimately show "- int (length (takeWhile (\<lambda>y. y \<noteq> i) xs))
      < - int (length (takeWhile (\<lambda>y. y \<noteq> d) xs))"
    using xs by simp
qed

lemma finite_dep_edges [simp]: "finite (dep_edges steps)"
proof -
  have "dep_edges steps \<subseteq> (\<Union>s\<in>set steps. set (sd_depends_on s) \<times> {sd_id s})"
    by (auto simp: dep_edges_def)
  then show ?thesis by (rule finite_subset) auto
qed

text \<open>
  In an acyclic plan a set of ids that contains every step whose dependencies it contains
  contains every step.
\<close>

lemma acyclic_dep_induct:
  assumes acyc: "acyclic (dep_edges steps)" and clos: "deps_closed steps"
    and step: "\<And>s. s \<in> set steps \<Longrightarrow> set (sd_depends_on s) \<subseteq> A \<Longrightarrow> sd_id s \<in> A"
  shows "set (step_ids steps) \<subseteq> A"
proof
  have wf: "wf (dep_edges steps)" using acyc by (simp add: finite_acyclic_wf)
  fix i assume "i \<in> set (step_ids steps)"
  with wf show "i \<in> A"
  proof (induction i rule: wf_induct_rule)
    case (less i)
    then obtain s where s: "s \<in> set steps" "sd_id s = i" by auto
    have "d \<in> A" if "d \<in> set (sd_depends_on s)" for d
    proof (rule less.IH)
      show "(d, i) \<in> dep_edges steps" using s that by (auto simp: dep_edges_def)
      show "d \<in> set (step_ids steps)" using s that clos by (auto simp: deps_closed_def)
    qed
    then show ?case using step s by blast
  qed
qed

section \<open>Kahn's algorithm\<close>

definition good_steps :: "step_def list \<Rightarrow> bool" where
  "good_steps steps = (distinct (step_ids steps) \<and> deps_closed steps \<and>
     (\<forall>s\<in>set steps. distinct (sd_depends_on s)))"

definition dependents_of :: "step_def list \<Rightarrow> string \<Rightarrow> string list" where
  "dependents_of steps d = [sd_id s. s \<leftarrow> steps, d \<in> set (sd_depends_on s)]"

lemma add_adj_get:
  "distinct ds \<Longrightarrow> gm_get [] (add_adj i ds adj) d = gm_get [] adj d @ (if d \<in> set ds then [i] else [])"
  by (induction ds arbitrary: adj) (auto simp: gomap_simps)

lemma build_graph_adj:
  "build_graph steps deg adj = (deg', adj') \<Longrightarrow> \<forall>s\<in>set steps. distinct (sd_depends_on s) \<Longrightarrow>
     gm_get [] adj' d = gm_get [] adj d @ dependents_of steps d"
  by (induction steps arbitrary: deg adj) (auto simp: add_adj_get dependents_of_def)

lemma build_graph_deg:
  "build_graph steps deg adj = (deg', adj') \<Longrightarrow> distinct (step_ids steps) \<Longrightarrow>
     (\<forall>s\<in>set steps. gm_get 0 deg' (sd_id s) = int (length (sd_depends_on s))) \<and>
     (\<forall>k. k \<notin> set (step_ids steps) \<longrightarrow> gm_get 0 deg' k = gm_get 0 deg k)"
proof (induction steps arbitrary: deg adj)
  case (Cons s ss)
  then have "build_graph ss (AList.update (sd_id s) (int (length (sd_depends_on s))) deg)
       (add_adj (sd_id s) (sd_depends_on s) adj) = (deg', adj')" by simp
  from Cons.IH [OF this] Cons.prems(2) show ?case by (auto simp: gomap_simps)
qed simp

lemma relax_spec:
  "relax ns deg queue = (deg', queue') \<Longrightarrow> distinct ns \<Longrightarrow>
     (\<forall>k. gm_get 0 deg' k = gm_get 0 deg k - (if k \<in> set ns then 1 else 0)) \<and>
     queue' = queue @ filter (\<lambda>n. gm_get 0 deg n = 1) ns"
proof (induction ns arbitrary: deg queue)
  case (Cons n ns)
  let ?d = "AList.update n (gm_get 0 deg n - 1) deg"
  let ?q = "if gm_get 0 ?d n = 0 then queue @ [n] else queue"
  have r: "relax ns ?d ?q = (deg', queue')" using Cons.prems by (simp add: Let_def)
  have eq: "filter (\<lambda>m. gm_get 0 ?d m = 1) ns = filter (\<lambda>m. gm_get 0 deg m = 1) ns"
    using Cons.prems(2) by (intro filter_cong) (auto simp: gomap_simps)
  from Cons.IH [OF r] Cons.prems(2) eq show ?case by (auto simp: gomap_simps)
qed simp

lemma dependents_distinct: "distinct (step_ids steps) \<Longrightarrow> distinct (dependents_of steps d)"
  by (induction steps) (auto simp: dependents_of_def)

lemma dependents_set:
  "set (dependents_of steps d) = {sd_id s | s. s \<in> set steps \<and> d \<in> set (sd_depends_on s)}"
  by (auto simp: dependents_of_def)

lemma same_id: "distinct (step_ids steps) \<Longrightarrow> s \<in> set steps \<Longrightarrow> t \<in> set steps \<Longrightarrow>
    sd_id s = sd_id t \<Longrightarrow> s = t"
  by (metis distinct_map inj_onD)

text \<open>The invariant of the main loop.\<close>

definition kahn_inv :: "step_def list \<Rightarrow> string list \<Rightarrow> int gomap \<Rightarrow> string list \<Rightarrow> bool" where
  "kahn_inv steps queue deg srt = (
     distinct (srt @ queue) \<and> set (srt @ queue) \<subseteq> set (step_ids steps) \<and>
     dep_ordered steps srt \<and>
     (\<forall>s\<in>set steps.
        gm_get 0 deg (sd_id s) = int (card (set (sd_depends_on s) - set srt)) \<and>
        (sd_id s \<in> set (srt @ queue) \<longleftrightarrow> set (sd_depends_on s) \<subseteq> set srt)))"

lemma kahn_step:
  assumes good: "good_steps steps" and inv: "kahn_inv steps (node # queue) deg srt"
    and r: "relax (dependents_of steps node) deg queue = (deg', queue')"
  shows "kahn_inv steps queue' deg' (srt @ [node])"
proof -
  have dist: "distinct (step_ids steps)" using good by (simp add: good_steps_def)
  have node: "node \<notin> set srt" "node \<notin> set queue" using inv by (auto simp: kahn_inv_def)
  have spec: "\<And>k. gm_get 0 deg' k = gm_get 0 deg k - (if k \<in> set (dependents_of steps node) then 1 else 0)"
    and q: "queue' = queue @ filter (\<lambda>n. gm_get 0 deg n = 1) (dependents_of steps node)"
    using relax_spec [OF r dependents_distinct [OF dist]] by auto
  have dep: "sd_id s \<in> set (dependents_of steps node) \<longleftrightarrow> node \<in> set (sd_depends_on s)"
    if "s \<in> set steps" for s
    using that same_id [OF dist] by (auto simp: dependents_set)
  have deg: "gm_get 0 deg' (sd_id s) = int (card (set (sd_depends_on s) - set (srt @ [node])))"
    if s: "s \<in> set steps" for s
  proof -
    have "gm_get 0 deg (sd_id s) = int (card (set (sd_depends_on s) - set srt))"
      using inv s by (simp add: kahn_inv_def)
    moreover have "set (sd_depends_on s) - set (srt @ [node])
        = (set (sd_depends_on s) - set srt) - {node}" by auto
    moreover have "int (card (A - {node})) = int (card A) - (if node \<in> A then 1 else 0)"
      if "finite A" for A :: "string set"
      using that card_Suc_Diff1 [of A node] by (cases "node \<in> A") auto
    ultimately show ?thesis using node dep [OF s] by (simp add: spec)
  qed
  have mem: "sd_id s \<in> set (srt @ [node] @ queue') \<longleftrightarrow> set (sd_depends_on s) \<subseteq> set (srt @ [node])"
    if s: "s \<in> set steps" for s
  proof -
    let ?D = "set (sd_depends_on s)"
    have old: "sd_id s \<in> set (srt @ node # queue) \<longleftrightarrow> ?D \<subseteq> set srt"
      and d: "gm_get 0 deg (sd_id s) = int (card (?D - set srt))"
      using inv s by (auto simp: kahn_inv_def)
    have new: "sd_id s \<in> set (srt @ [node] @ queue') \<longleftrightarrow>
        ?D \<subseteq> set srt \<or> (node \<in> ?D \<and> card (?D - set srt) = 1)"
      using old d dep [OF s] by (auto simp: q)
    have "?D \<subseteq> set (srt @ [node]) \<longleftrightarrow> ?D - set srt \<subseteq> {node}" by auto
    moreover have "card (?D - set srt) = 1 \<longleftrightarrow> ?D - set srt \<subseteq> {node}" if "node \<in> ?D"
    proof -
      have "?D - set srt \<subseteq> {node} \<longleftrightarrow> ?D - set srt = {node}" using that node by auto
      moreover have "A = {node} \<longleftrightarrow> card A = 1" if "node \<in> A" for A
        using that by (metis card_1_singletonE is_singletonI is_singleton_altdef singletonD)
      ultimately show ?thesis using that node by simp
    qed
    ultimately show ?thesis using new node by auto
  qed
  have srt: "dep_ordered steps (srt @ [node])"
    using inv by (auto simp: kahn_inv_def dep_ordered_snoc)
  have fresh: "n \<notin> set (srt @ node # queue)"
    if n: "n \<in> set (dependents_of steps node)" "gm_get 0 deg n = 1" for n
  proof -
    obtain s where s: "s \<in> set steps" "sd_id s = n" "node \<in> set (sd_depends_on s)"
      using n by (auto simp: dependents_set)
    then show ?thesis using inv node by (auto simp: kahn_inv_def)
  qed
  have "set (dependents_of steps node) \<subseteq> set (step_ids steps)" by (auto simp: dependents_set)
  then have sub: "set ((srt @ [node]) @ queue') \<subseteq> set (step_ids steps)"
    using inv by (auto simp: kahn_inv_def q)
  have "distinct ((srt @ [node]) @ queue')"
    using inv fresh dependents_distinct [OF dist, of node] by (auto simp: kahn_inv_def q)
  then show ?thesis using sub srt deg mem by (simp add: kahn_inv_def)
qed

lemma kahn_final:
  "kahn adj queue deg srt = (srt', deg') \<Longrightarrow> good_steps steps \<Longrightarrow>
     (\<And>d. gm_get [] adj d = dependents_of steps d) \<Longrightarrow> kahn_inv steps queue deg srt \<Longrightarrow>
     kahn_inv steps [] deg' srt'"
proof (induction adj queue deg srt rule: kahn.induct)
  case (2 adj node queue deg srt)
  obtain deg1 queue1 where r: "relax (gm_get [] adj node) deg queue = (deg1, queue1)"
    by fastforce
  then have "kahn_inv steps queue1 deg1 (srt @ [node])"
    using 2 by (intro kahn_step) auto
  then show ?case using 2 r by simp
qed simp

lemma kahn_inv_init:
  assumes "good_steps steps" "build_graph steps [] [] = (deg, adj)"
  shows "kahn_inv steps (initial_queue steps deg) deg []"
proof -
  have dist: "distinct (step_ids steps)" using assms by (simp add: good_steps_def)
  have deg: "\<forall>s\<in>set steps. gm_get 0 deg (sd_id s) = int (length (sd_depends_on s))"
    using build_graph_deg [OF assms(2) dist] by blast
  have q: "initial_queue steps deg = filter (\<lambda>i. gm_get 0 deg i = 0) (step_ids steps)"
    unfolding initial_queue_def by (induction steps) auto
  show ?thesis unfolding kahn_inv_def
  proof (intro conjI ballI)
    show "distinct ([] @ initial_queue steps deg)" using dist by (simp add: q)
    show "set ([] @ initial_queue steps deg) \<subseteq> set (step_ids steps)" by (auto simp: q)
    show "dep_ordered steps []" by simp
  next
    fix s assume s: "s \<in> set steps"
    then have "distinct (sd_depends_on s)" using assms by (simp add: good_steps_def)
    then show "gm_get 0 deg (sd_id s) = int (card (set (sd_depends_on s) - set []))"
      using deg s by (simp add: distinct_card)
    show "(sd_id s \<in> set ([] @ initial_queue steps deg)) = (set (sd_depends_on s) \<subseteq> set [])"
      using deg s by (auto simp: q)
  qed
qed

lemma kahn_covers:
  assumes "good_steps steps" "kahn_inv steps [] deg srt"
  shows "set (step_ids steps) \<subseteq> set srt \<longleftrightarrow> acyclic (dep_edges steps)"
proof
  assume "set (step_ids steps) \<subseteq> set srt"
  then show "acyclic (dep_edges steps)"
    using assms by (auto intro!: dep_ordered_acyclic [of steps srt] simp: kahn_inv_def)
next
  assume "acyclic (dep_edges steps)"
  then show "set (step_ids steps) \<subseteq> set srt"
    using assms by (intro acyclic_dep_induct) (auto simp: kahn_inv_def good_steps_def)
qed

section \<open>What the checks accept\<close>

lemma check_ids_spec:
  "check_ids ss ids = (es, ids') \<Longrightarrow>
     (es = [] \<longleftrightarrow> '''' \<notin> set (step_ids ss) \<and> distinct (step_ids ss) \<and> set (step_ids ss) \<inter> ids = {}) \<and>
     ids' = ids \<union> (set (step_ids ss) - {''''})"
proof (induction ss arbitrary: ids es ids')
  case (Cons s ss)
  show ?case
  proof (cases "sd_id s = ''''")
    case True
    obtain es1 ids1 where r: "check_ids ss ids = (es1, ids1)" by fastforce
    from Cons.IH [OF r] show ?thesis using Cons.prems True r by auto
  next
    case False
    obtain es1 ids1 where r: "check_ids ss (insert (sd_id s) ids) = (es1, ids1)" by fastforce
    from Cons.IH [OF r] show ?thesis using Cons.prems False r by auto
  qed
qed auto

lemma check_deps_Nil_iff:
  "check_deps i ids seen ds = [] \<longleftrightarrow>
     i \<notin> set ds \<and> '''' \<notin> set ds \<and> set ds \<subseteq> ids \<and> distinct ds \<and> set ds \<inter> seen = {}"
  by (induction ds arbitrary: seen) auto

lemma check_step_Nil_iff:
  "sd_id s \<noteq> '''' \<Longrightarrow> check_step agentNames ids s = [] \<longleftrightarrow>
     sd_agent s \<noteq> '''' \<and> (agentNames = {} \<or> sd_agent s \<in> agentNames) \<and>
     sd_id s \<notin> set (sd_depends_on s) \<and> '''' \<notin> set (sd_depends_on s) \<and>
     set (sd_depends_on s) \<subseteq> ids \<and> distinct (sd_depends_on s)"
  by (auto simp: check_step_def check_deps_Nil_iff)

text \<open>The plans that pass the two loops before the cycle detection.\<close>

definition structurally_ok :: "plan_def \<Rightarrow> string set \<Rightarrow> bool" where
  "structurally_ok def agentNames =
     (let steps = pd_steps def in
      steps \<noteq> [] \<and> '''' \<notin> set (step_ids steps) \<and> good_steps steps \<and>
      (\<forall>s\<in>set steps. sd_agent s \<noteq> '''' \<and> (agentNames = {} \<or> sd_agent s \<in> agentNames) \<and>
         sd_id s \<notin> set (sd_depends_on s)))"

lemma structural_errors:
  assumes "check_ids steps {} = (es1, ids)"
  shows "es1 @ concat (map (check_step agentNames ids) steps) = [] \<longleftrightarrow>
     '''' \<notin> set (step_ids steps) \<and> good_steps steps \<and>
     (\<forall>s\<in>set steps. sd_agent s \<noteq> '''' \<and> (agentNames = {} \<or> sd_agent s \<in> agentNames) \<and>
         sd_id s \<notin> set (sd_depends_on s))"
proof -
  from check_ids_spec [OF assms]
  have es: "es1 = [] \<longleftrightarrow> '''' \<notin> set (step_ids steps) \<and> distinct (step_ids steps)"
    and ids: "ids = set (step_ids steps) - {''''}" by auto
  show ?thesis
  proof (cases "'''' \<in> set (step_ids steps)")
    case True
    then show ?thesis using es by simp
  next
    case False
    then have ne: "s \<in> set steps \<Longrightarrow> sd_id s \<noteq> ''''" for s by force
    have "concat (map (check_step agentNames ids) steps) = [] \<longleftrightarrow>
        (\<forall>s\<in>set steps. check_step agentNames ids s = [])" by simp
    also have "\<dots> \<longleftrightarrow> (\<forall>s\<in>set steps.
        sd_agent s \<noteq> '''' \<and> (agentNames = {} \<or> sd_agent s \<in> agentNames) \<and>
        sd_id s \<notin> set (sd_depends_on s) \<and>
        set (sd_depends_on s) \<subseteq> set (step_ids steps) \<and> distinct (sd_depends_on s))"
      using ne False by (intro ball_cong) (auto simp: check_step_Nil_iff ids)
    finally show ?thesis using es False unfolding good_steps_def deps_closed_def by blast
  qed
qed

text \<open>The steps that lie on a dependency cycle or depend on one.\<close>

definition cyclic_ids :: "step_def list \<Rightarrow> string set" where
  "cyclic_ids steps = {i. \<exists>j. (j, j) \<in> (dep_edges steps)\<^sup>+ \<and> (j, i) \<in> (dep_edges steps)\<^sup>*}"

lemma acyclic_iff_cyclic_ids: "acyclic (dep_edges steps) \<longleftrightarrow> cyclic_ids steps = {}"
  by (auto simp: acyclic_def cyclic_ids_def)

lemma dep_ordered_no_cycle:
  "dep_ordered steps xs \<Longrightarrow> distinct xs \<Longrightarrow> set xs \<inter> cyclic_ids steps = {}"
proof (induction xs rule: rev_induct)
  case (snoc x xs)
  have closed: "d \<in> set xs" if "(d, x) \<in> dep_edges steps" for d
    using that snoc.prems by (auto simp: dep_edges_def dep_ordered_snoc)
  have "x \<notin> cyclic_ids steps"
  proof
    assume "x \<in> cyclic_ids steps"
    then obtain j where j: "(j, j) \<in> (dep_edges steps)\<^sup>+" "(j, x) \<in> (dep_edges steps)\<^sup>*"
      by (auto simp: cyclic_ids_def)
    then have "(j, x) \<in> (dep_edges steps)\<^sup>+"
      by (metis rtranclD)
    then obtain d where d: "(j, d) \<in> (dep_edges steps)\<^sup>*" "(d, x) \<in> dep_edges steps"
      by (meson tranclD2)
    then have "d \<in> cyclic_ids steps" using j by (auto simp: cyclic_ids_def)
    moreover have "d \<in> set xs" using closed d by blast
    ultimately show False using snoc by (auto simp: dep_ordered_snoc)
  qed
  then show ?case using snoc by (auto simp: dep_ordered_snoc)
qed simp

lemma unsorted_cyclic:
  assumes good: "good_steps steps" and inv: "kahn_inv steps [] deg srt"
    and i: "i \<in> set (step_ids steps)" "i \<notin> set srt"
  shows "i \<in> cyclic_ids steps"
proof (rule ccontr)
  assume nc: "i \<notin> cyclic_ids steps"
  define B where "B = {k. (k, i) \<in> (dep_edges steps)\<^sup>* \<and> k \<notin> set srt \<and> k \<in> set (step_ids steps)}"
  define R where "R = dep_edges steps \<inter> B \<times> B"
  have "acyclic R"
  proof (rule acyclicI, safe)
    fix k assume k: "(k, k) \<in> R\<^sup>+"
    then have "k \<in> B" by (auto simp: R_def dest: tranclD)
    moreover have "(k, k) \<in> (dep_edges steps)\<^sup>+"
      using k by (rule trancl_mono) (auto simp: R_def)
    ultimately show False using nc by (auto simp: B_def cyclic_ids_def)
  qed
  moreover have "finite R" by (auto simp: R_def)
  ultimately have "wf R" by (rule finite_acyclic_wf [rotated])
  moreover have "i \<in> B" using i by (simp add: B_def)
  ultimately obtain m where m: "m \<in> B" "\<And>d. (d, m) \<in> R \<Longrightarrow> d \<notin> B"
    by (meson wfE_min)
  then obtain s where s: "s \<in> set steps" "sd_id s = m" by (auto simp: B_def)
  have "\<not> set (sd_depends_on s) \<subseteq> set srt"
    using inv s m(1) by (auto simp: kahn_inv_def B_def)
  then obtain d where d: "d \<in> set (sd_depends_on s)" "d \<notin> set srt" by auto
  then have "(d, m) \<in> dep_edges steps" using s by (auto simp: dep_edges_def)
  moreover have "d \<in> set (step_ids steps)"
    using good s d by (auto simp: good_steps_def deps_closed_def)
  ultimately have "d \<in> B" "(d, m) \<in> R"
    using d m(1) by (auto simp: B_def R_def intro: converse_rtrancl_into_rtrancl)
  then show False using m(2) by blast
qed

lemma filter_comprehension: "[sd_id s. s \<leftarrow> steps, P (sd_id s)] = filter P (step_ids steps)"
  by (induction steps) auto

lemma not_reachable_list:
  "[NotReachable (sd_id s). s \<leftarrow> steps, sd_id s \<notin> A]
     = map NotReachable (filter (\<lambda>i. i \<notin> A) (step_ids steps))"
  by (induction steps) auto

lemma kahn_result:
  assumes good: "good_steps steps" and b: "build_graph steps [] [] = (deg0, adj)"
    and k: "kahn adj (initial_queue steps deg0) deg0 [] = (srt, deg)"
  shows "kahn_inv steps [] deg srt"
    and "\<And>i. i \<in> set (step_ids steps) \<Longrightarrow> i \<notin> set srt \<longleftrightarrow> i \<in> cyclic_ids steps"
    and "\<And>i. i \<in> set (step_ids steps) \<Longrightarrow> 0 < gm_get 0 deg i \<longleftrightarrow> i \<in> cyclic_ids steps"
    and "length srt = length steps \<longleftrightarrow> acyclic (dep_edges steps)"
proof -
  have "\<And>d. gm_get [] adj d = dependents_of steps d"
    using build_graph_adj [OF b] good by (auto simp: good_steps_def gm_get_def)
  then show inv: "kahn_inv steps [] deg srt"
    using kahn_final [OF k good] kahn_inv_init [OF good b] by blast
  then show un: "i \<notin> set srt \<longleftrightarrow> i \<in> cyclic_ids steps" if "i \<in> set (step_ids steps)" for i
    using that unsorted_cyclic [OF good inv] dep_ordered_no_cycle [of steps srt]
    by (auto simp: kahn_inv_def)
  show "0 < gm_get 0 deg i \<longleftrightarrow> i \<in> cyclic_ids steps" if i: "i \<in> set (step_ids steps)" for i
  proof -
    obtain s where s: "s \<in> set steps" "sd_id s = i" using i by auto
    then have "0 < gm_get 0 deg i \<longleftrightarrow> \<not> set (sd_depends_on s) \<subseteq> set srt"
      using inv by (auto simp: kahn_inv_def card_gt_0_iff)
    also have "\<dots> \<longleftrightarrow> i \<notin> set srt" using inv s by (auto simp: kahn_inv_def)
    finally show ?thesis using un [OF i] by simp
  qed
  have "length srt = length (step_ids steps) \<longleftrightarrow> set (step_ids steps) \<subseteq> set srt"
    using inv good distinct_set_eq_length [of srt "step_ids steps"]
    by (auto simp: kahn_inv_def good_steps_def)
       (metis distinct_card distinct_map length_map list.set_map subset_antisym)
  then show "length srt = length steps \<longleftrightarrow> acyclic (dep_edges steps)"
    using kahn_covers [OF good inv] by simp
qed

lemma validate_errors_cases:
  "validate_errors def agentNames =
     (if structurally_ok def agentNames then
        (let ns = filter (\<lambda>i. i \<in> cyclic_ids (pd_steps def)) (step_ids (pd_steps def))
         in if ns = [] then [] else CircularDependency ns # map NotReachable ns)
      else validate_errors def agentNames)"
  and validate_errors_bad: "\<not> structurally_ok def agentNames \<Longrightarrow> validate_errors def agentNames \<noteq> []"
proof -
  obtain es1 ids where c: "check_ids (pd_steps def) {} = (es1, ids)" by fastforce
  obtain deg0 adj where b: "build_graph (pd_steps def) [] [] = (deg0, adj)" by fastforce
  obtain srt deg where k: "kahn adj (initial_queue (pd_steps def) deg0) deg0 [] = (srt, deg)"
    by fastforce
  let ?steps = "pd_steps def"
  let ?ns = "filter (\<lambda>i. i \<in> cyclic_ids ?steps) (step_ids ?steps)"
  show "\<not> structurally_ok def agentNames \<Longrightarrow> validate_errors def agentNames \<noteq> []"
    using structural_errors [OF c, of agentNames]
    by (auto simp: validate_errors_def structurally_ok_def Let_def c split: prod.splits)
  have "validate_errors def agentNames =
      (if ?ns = [] then [] else CircularDependency ?ns # map NotReachable ?ns)"
    if ok: "structurally_ok def agentNames"
  proof -
    have good: "good_steps ?steps" and ne: "?steps \<noteq> []"
      using ok by (auto simp: structurally_ok_def Let_def)
    note res = kahn_result [OF good b k]
    have e: "es1 @ concat (map (check_step agentNames ids) ?steps) = []"
      using structural_errors [OF c, of agentNames] ok by (auto simp: structurally_ok_def Let_def)
    have n1: "[sd_id s. s \<leftarrow> ?steps, 0 < gm_get 0 deg (sd_id s)] = ?ns"
      unfolding filter_comprehension [of "\<lambda>i. 0 < gm_get 0 deg i"] using res(3) by (intro filter_cong) auto
    have n2: "[NotReachable (sd_id s). s \<leftarrow> ?steps, sd_id s \<notin> set srt]
        = map NotReachable (filter (\<lambda>i. i \<notin> set srt) (step_ids ?steps))"
      by (rule not_reachable_list)
    have n3: "filter (\<lambda>i. i \<notin> set srt) (step_ids ?steps) = ?ns"
      using res(2) by (intro filter_cong) auto
    have n4: "length srt = length ?steps \<longleftrightarrow> ?ns = []"
      using res(1,2,4) kahn_covers [OF good res(1)] by (auto simp: filter_empty_conv)
    show ?thesis
      using ne e unfolding validate_errors_def Let_def c b prod.case k n1 n2 n3
      by (auto simp: n4)
  qed
  then show "validate_errors def agentNames =
     (if structurally_ok def agentNames then
        (let ns = filter (\<lambda>i. i \<in> cyclic_ids (pd_steps def)) (step_ids (pd_steps def))
         in if ns = [] then [] else CircularDependency ns # map NotReachable ns)
      else validate_errors def agentNames)" by (simp add: Let_def)
qed

lemma validate_None_iff: "validate def agentNames = None \<longleftrightarrow> validate_errors def agentNames = []"
  by (simp add: validate_def Let_def)

lemma not_acyclic_self: "acyclic (dep_edges steps) \<Longrightarrow> s \<in> set steps \<Longrightarrow> sd_id s \<notin> set (sd_depends_on s)"
  by (auto simp: acyclic_def dep_edges_def)

lemma structurally_ok_well_formed:
  "structurally_ok def agentNames \<and> acyclic (dep_edges (pd_steps def)) \<longleftrightarrow>
     well_formed_plan def agentNames"
  using not_acyclic_self
  by (auto simp: structurally_ok_def well_formed_plan_def good_steps_def Let_def)

lemma no_cyclic_ids:
  "good_steps steps \<Longrightarrow>
     filter (\<lambda>i. i \<in> cyclic_ids steps) (step_ids steps) = [] \<longleftrightarrow> acyclic (dep_edges steps)"
proof -
  assume good: "good_steps steps"
  obtain deg0 adj where b: "build_graph steps [] [] = (deg0, adj)" by fastforce
  obtain srt deg where k: "kahn adj (initial_queue steps deg0) deg0 [] = (srt, deg)"
    by fastforce
  note res = kahn_result [OF good b k]
  show ?thesis using res(2) kahn_covers [OF good res(1)] by (auto simp: filter_empty_conv)
qed

lemma validate_errors_Nil_iff:
  "validate_errors def agentNames = [] \<longleftrightarrow> well_formed_plan def agentNames"
proof (cases "structurally_ok def agentNames")
  case True
  then have "good_steps (pd_steps def)" by (simp add: structurally_ok_def Let_def)
  from no_cyclic_ids [OF this] show ?thesis
    using True validate_errors_cases [of def agentNames] structurally_ok_well_formed [of def agentNames]
    by (simp add: Let_def del: filter_empty_conv)
next
  case False
  then show ?thesis
    using validate_errors_bad structurally_ok_well_formed by blast
qed

section \<open>Properties\<close>

text \<open>
  C1: \<^verbatim>\<open>Validate\<close> returns nil exactly for the well-formed plans: at least one step, distinct
  non-empty step ids, a known agent for each step, known and distinct dependencies, and an
  acyclic dependency relation. So Kahn's algorithm is sound and complete on this input.
\<close>

theorem validate_iff_well_formed:
  "validate def agentNames = None \<longleftrightarrow> well_formed_plan def agentNames"
  by (simp add: validate_None_iff validate_errors_Nil_iff)

text \<open>
  On a plan that passes the structural checks but has a cycle, \<^verbatim>\<open>Validate\<close> reports one
  circular-dependency error that names exactly the steps on a cycle or depending on one, in plan
  order, and then one "not reachable (this is a bug)" error for each of these steps.
\<close>

theorem validate_reports_cycle:
  assumes "structurally_ok def agentNames" and "\<not> acyclic (dep_edges (pd_steps def))"
  shows "validate_errors def agentNames =
    (let ns = filter (\<lambda>i. i \<in> cyclic_ids (pd_steps def)) (step_ids (pd_steps def))
     in CircularDependency ns # map NotReachable ns)"
proof -
  have "good_steps (pd_steps def)" using assms by (simp add: structurally_ok_def Let_def)
  from no_cyclic_ids [OF this] assms validate_errors_cases [of def agentNames]
  show ?thesis by (simp add: Let_def del: filter_empty_conv)
qed

definition cyclic_example :: plan_def where
  "cyclic_example = \<lparr>pd_goal = ''g'', pd_steps =
     [empty_step\<lparr>sd_id := ''a'', sd_agent := ''w'', sd_depends_on := [''b'']\<rparr>,
      empty_step\<lparr>sd_id := ''b'', sd_agent := ''w'', sd_depends_on := [''a'']\<rparr>]\<rparr>"

lemma cyclic_example_edges: "dep_edges (pd_steps cyclic_example) = {(''b'', ''a''), (''a'', ''b'')}"
  by (auto simp: dep_edges_def cyclic_example_def)

lemma cyclic_example_ids: "''a'' \<in> cyclic_ids (pd_steps cyclic_example)"
    "''b'' \<in> cyclic_ids (pd_steps cyclic_example)"
proof -
  have "(''a'', ''a'') \<in> (dep_edges (pd_steps cyclic_example))\<^sup>+"
    "(''b'', ''b'') \<in> (dep_edges (pd_steps cyclic_example))\<^sup>+"
    by (auto simp: cyclic_example_edges intro: trancl_into_trancl)
  then show "''a'' \<in> cyclic_ids (pd_steps cyclic_example)"
    "''b'' \<in> cyclic_ids (pd_steps cyclic_example)" by (auto simp: cyclic_ids_def)
qed

lemma validate_reports_cycle_witness:
  "structurally_ok cyclic_example {''w''} \<and>
   validate_errors cyclic_example {''w''} =
     [CircularDependency [''a'', ''b''], NotReachable ''a'', NotReachable ''b'']"
proof -
  have ok: "structurally_ok cyclic_example {''w''}"
    by (simp add: structurally_ok_def good_steps_def deps_closed_def cyclic_example_def empty_step_def)
  have "\<not> acyclic (dep_edges (pd_steps cyclic_example))"
    using cyclic_example_ids acyclic_iff_cyclic_ids by blast
  from validate_reports_cycle [OF ok this] ok cyclic_example_ids show ?thesis
    by (simp add: cyclic_example_def empty_step_def Let_def)
qed

end
