(* ===== verification/PlanDag.thy ===== *)
theory PlanDag
  imports PlanValidate
begin

text \<open>
  The DAG helpers of \<^verbatim>\<open>plan/executor.go\<close>: \<^verbatim>\<open>topoSortPending\<close>, which cuts the pending steps
  into batches, and \<^verbatim>\<open>affectedSteps\<close>, which finds what a failed step takes down. The first is
  shown equal to the greedy layering of the pending dependency relation, the second to the set of
  transitive dependents.
\<close>

section \<open>Model\<close>

text \<open>
  \<^verbatim>\<open>topoSortPending\<close>. The maps \<^verbatim>\<open>pending\<close> and \<^verbatim>\<open>inDegree\<close> are ranged over in list order.
\<close>

fun topo_deps :: "step_def gomap \<Rightarrow> string \<Rightarrow> string list \<Rightarrow> int gomap \<Rightarrow> string list gomap
                    \<Rightarrow> int gomap \<times> string list gomap" where
  "topo_deps pending i [] deg adj = (deg, adj)"
| "topo_deps pending i (d # ds) deg adj =
     (if gm_has pending d
      then topo_deps pending i ds (AList.update i (gm_get 0 deg i + 1) deg)
             (AList.update d (gm_get [] adj d @ [i]) adj)
      else topo_deps pending i ds deg adj)"

fun topo_graph :: "step_def gomap \<Rightarrow> step_def gomap \<Rightarrow> int gomap \<Rightarrow> string list gomap
                     \<Rightarrow> int gomap \<times> string list gomap" where
  "topo_graph pending [] deg adj = (deg, adj)"
| "topo_graph pending ((i, s) # rest) deg adj =
     (let (deg', adj') = topo_deps pending i (sd_depends_on s) deg adj
      in topo_graph pending rest deg' adj')"

fun dec_all :: "string list \<Rightarrow> int gomap \<Rightarrow> int gomap" where
  "dec_all [] deg = deg"
| "dec_all (n # ns) deg =
     dec_all ns (if gm_has deg n then AList.update n (gm_get 0 deg n - 1) deg else deg)"

fun remove_batch :: "string list gomap \<Rightarrow> string list \<Rightarrow> int gomap \<Rightarrow> int gomap" where
  "remove_batch adj [] deg = deg"
| "remove_batch adj (i # is) deg =
     remove_batch adj is (dec_all (gm_get [] adj i) (AList.delete i deg))"

definition zero_degree :: "int gomap \<Rightarrow> string list" where
  "zero_degree deg = map fst (filter (\<lambda>(i, d). d = 0) deg)"

lemma dec_all_keys: "map fst (dec_all ns deg) = map fst deg"
  by (induction ns arbitrary: deg) (auto simp: gm_has_iff update_keys)

lemma length_dec_all [simp]: "length (dec_all ns deg) = length deg"
  using dec_all_keys by (metis length_map)

lemma length_remove_batch: "length (remove_batch adj is deg) \<le> length deg"
proof (induction "is" arbitrary: deg)
  case (Cons i "is")
  then show ?case
    by simp (metis (no_types, lifting) le_trans length_dec_all length_delete_le)
qed simp

lemma length_remove_batch_less:
  assumes "zero_degree deg = i # is"
  shows "length (remove_batch adj (i # is) deg) < length deg"
proof -
  have "i \<in> fst ` set deg" using assms unfolding zero_degree_def
    by (metis (no_types, lifting) filter_is_subset image_mono list.set_intros(1) list.set_map subsetD)
  then have "length (AList.delete i deg) < length deg"
    by (auto simp: AList.delete_eq intro!: length_filter_less)
  then show ?thesis
    using length_remove_batch [of adj "is" "dec_all (gm_get [] adj i) (AList.delete i deg)"] by simp
qed

function topo_loop :: "string list gomap \<Rightarrow> int gomap \<Rightarrow> string list list" where
  "topo_loop adj deg =
     (if deg = [] then []
      else case zero_degree deg of
        [] \<Rightarrow> []
      | i # is \<Rightarrow> (i # is) # topo_loop adj (remove_batch adj (i # is) deg))"
  by pat_completeness auto
termination
  by (relation "measure (\<lambda>(adj, deg). length deg)")
     (auto simp del: remove_batch.simps intro: length_remove_batch_less)

declare topo_loop.simps [simp del]

definition topo_sort_pending :: "step_def gomap \<Rightarrow> string list list" where
  "topo_sort_pending pending =
     (let (deg, adj) = topo_graph pending pending (map (\<lambda>(i, s). (i, 0)) pending) []
      in topo_loop adj deg)"

text \<open>
  \<^verbatim>\<open>affectedSteps\<close>: \<open>visit\<close> is the loop over the dependents of one step, \<open>bfs\<close> the queue loop.
  Its set \<^verbatim>\<open>affected\<close> is a set here; the number of ids that are keys of the graph bounds the loop.
\<close>

fun visit :: "string list \<Rightarrow> string set \<Rightarrow> string list \<Rightarrow> string set \<times> string list" where
  "visit [] seen queue = (seen, queue)"
| "visit (n # ns) seen queue =
     (if n \<in> seen then visit ns seen queue else visit ns (insert n seen) (queue @ [n]))"

fun dependents_graph :: "step_def list \<Rightarrow> string list gomap \<Rightarrow> string list gomap" where
  "dependents_graph [] g = g"
| "dependents_graph (s # ss) g = dependents_graph ss (add_adj (sd_id s) (sd_depends_on s) g)"

definition targets :: "string list gomap \<Rightarrow> string set" where
  "targets g = (\<Union>(k, ns)\<in>set g. set ns)"

lemma finite_targets [simp]: "finite (targets g)"
  by (auto simp: targets_def)

lemma gm_get_targets: "set (gm_get [] g k) \<subseteq> targets g"
proof (cases "map_of g k")
  case (Some ns)
  then have "(k, ns) \<in> set g" by (rule map_of_SomeD)
  then show ?thesis using Some by (auto simp: gm_get_def targets_def)
qed (simp add: gm_get_def)

lemma visit_measure:
  "visit ns seen queue = (seen', queue') \<Longrightarrow> set ns \<subseteq> T \<Longrightarrow> finite T \<Longrightarrow>
     card (T - seen') + length queue' \<le> card (T - seen) + length queue"
proof (induction ns arbitrary: seen queue)
  case (Cons n ns)
  show ?case
  proof (cases "n \<in> seen")
    case True
    then show ?thesis using Cons by simp
  next
    case False
    then have r: "visit ns (insert n seen) (queue @ [n]) = (seen', queue')" using Cons.prems by simp
    have "n \<in> T - seen" "finite (T - seen)" using Cons.prems False by simp_all
    then have "Suc (card (T - seen - {n})) = card (T - seen)" by (rule card_Suc_Diff1 [rotated])
    moreover have "T - seen - {n} = T - insert n seen" by blast
    ultimately have "Suc (card (T - insert n seen)) = card (T - seen)" by simp
    moreover have "card (T - seen') + length queue' \<le> card (T - insert n seen) + length (queue @ [n])"
      using Cons.prems(2,3) Cons.IH [OF r] by simp
    ultimately show ?thesis by simp
  qed
qed simp

function bfs :: "string list gomap \<Rightarrow> string list \<Rightarrow> string set \<Rightarrow> string set" where
  "bfs g [] seen = seen"
| "bfs g (current # queue) seen =
     (let (seen', queue') = visit (gm_get [] g current) seen queue in bfs g queue' seen')"
  by pat_completeness auto
termination
proof (relation "measure (\<lambda>(g, queue, seen). card (targets g - seen) + length queue)", goal_cases)
  case 1
  show ?case by simp
next
  case (2 g current queue seen x seen' queue')
  then have "visit (gm_get [] g current) seen queue = (seen', queue')" by simp
  from visit_measure [OF this gm_get_targets finite_targets] show ?case by simp
qed

definition affected_steps :: "plan_def \<Rightarrow> string \<Rightarrow> string set" where
  "affected_steps def startID = bfs (dependents_graph (pd_steps def) []) [startID] {startID}"

text \<open>
  The steps both replanning routines keep (the loop \<^verbatim>\<open>if !affected[s.ID]\<close>) and the ones they
  hand to the model.
\<close>

definition surviving_steps :: "plan_def \<Rightarrow> string \<Rightarrow> step_def list" where
  "surviving_steps def i = filter (\<lambda>s. sd_id s \<notin> affected_steps def i) (pd_steps def)"

definition affected_list :: "plan_def \<Rightarrow> string \<Rightarrow> step_def list" where
  "affected_list def i = filter (\<lambda>s. sd_id s \<in> affected_steps def i) (pd_steps def)"

section \<open>Batches\<close>

text \<open>
  The specification of \<^verbatim>\<open>topoSortPending\<close>: each batch lists, in some order, exactly the remaining
  steps none of whose dependencies remains; the last batch leaves no such step.
\<close>

definition pending_deps :: "step_def gomap \<Rightarrow> string \<Rightarrow> string list" where
  "pending_deps pending i = sd_depends_on (gm_get empty_step pending i)"

definition ready :: "step_def gomap \<Rightarrow> string set \<Rightarrow> string set" where
  "ready pending R = {i \<in> R. set (pending_deps pending i) \<inter> R = {}}"

fun layered :: "step_def gomap \<Rightarrow> string set \<Rightarrow> string list list \<Rightarrow> bool" where
  "layered pending R [] = (ready pending R = {})"
| "layered pending R (b # bs) =
     (b \<noteq> [] \<and> distinct b \<and> set b = ready pending R \<and> layered pending (R - set b) bs)"

text \<open>The state of the loop: the degrees count the remaining dependencies.\<close>

definition topo_inv :: "step_def gomap \<Rightarrow> string list gomap \<Rightarrow> int gomap \<Rightarrow> bool" where
  "topo_inv pending adj deg = (
     gm_ok deg \<and> set (map fst deg) \<subseteq> set (map fst pending) \<and>
     (\<forall>k\<in>set (map fst deg). gm_get 0 deg k =
        int (length (filter (\<lambda>d. d \<in> set (map fst deg)) (pending_deps pending k)))) \<and>
     (\<forall>d\<in>set (map fst pending). \<forall>k\<in>set (map fst pending).
        count_list (gm_get [] adj d) k = count_list (pending_deps pending k) d))"

lemma count_list_length_filter: "count_list xs x = length (filter (\<lambda>y. y = x) xs)"
  by (induction xs) auto

lemma gm_keys_update: "set (map fst (AList.update k v m)) = insert k (set (map fst m))"
  by (simp add: update_keys) (induction m; auto)

lemma topo_deps_spec:
  "topo_deps pending i ds deg adj = (deg', adj') \<Longrightarrow>
     gm_get 0 deg' k = gm_get 0 deg k +
        (if k = i then int (length (filter (gm_has pending) ds)) else 0) \<and>
     count_list (gm_get [] adj' d) k = count_list (gm_get [] adj d) k +
        (if k = i \<and> gm_has pending d then count_list ds d else 0) \<and>
     (i \<in> set (map fst deg) \<longrightarrow> map fst deg' = map fst deg)"
proof (induction ds arbitrary: deg adj)
  case (Cons e ds)
  show ?case
  proof (cases "gm_has pending e")
    case True
    from Cons.prems True
    have r: "topo_deps pending i ds (AList.update i (gm_get 0 deg i + 1) deg)
        (AList.update e (gm_get [] adj e @ [i]) adj) = (deg', adj')" by simp
    from Cons.IH [OF r] show ?thesis using True
      by (auto simp: gomap_simps update_keys simp del: gm_has_iff)
  next
    case False
    then show ?thesis using Cons by auto
  qed
qed auto

lemma topo_graph_spec:
  "topo_graph pending rest deg adj = (deg', adj') \<Longrightarrow> distinct (map fst rest) \<Longrightarrow>
   set (map fst rest) \<subseteq> set (map fst deg) \<Longrightarrow>
     map fst deg' = map fst deg \<and>
     gm_get 0 deg' k = gm_get 0 deg k +
        int (length (filter (gm_has pending) (pending_deps rest k))) \<and>
     count_list (gm_get [] adj' d) k = count_list (gm_get [] adj d) k +
        (if gm_has pending d then count_list (pending_deps rest k) d else 0)"
proof (induction rest arbitrary: deg adj)
  case (Cons p rest)
  obtain i s where p: "p = (i, s)" by fastforce
  obtain deg1 adj1 where t: "topo_deps pending i (sd_depends_on s) deg adj = (deg1, adj1)"
    by fastforce
  note spec = topo_deps_spec [OF t, of k d]
  have keys: "map fst deg1 = map fst deg" using spec Cons.prems p by simp
  have "topo_graph pending rest deg1 adj1 = (deg', adj')" using Cons.prems t p by simp
  from Cons.IH [OF this] Cons.prems(2,3) p keys
  have IH: "map fst deg' = map fst deg" "gm_get 0 deg' k = gm_get 0 deg1 k +
        int (length (filter (gm_has pending) (pending_deps rest k)))"
     "count_list (gm_get [] adj' d) k = count_list (gm_get [] adj1 d) k +
        (if gm_has pending d then count_list (pending_deps rest k) d else 0)"
    by auto
  have "k = i \<Longrightarrow> pending_deps rest k = []" using Cons.prems(2) p
    by (auto simp: pending_deps_def gm_get_def empty_step_def split: option.splits dest: map_of_SomeD)
       (metis fst_conv image_eqI map_of_SomeD)
  moreover have "pending_deps (p # rest) k = (if k = i then sd_depends_on s else pending_deps rest k)"
    by (simp add: p pending_deps_def gm_get_def)
  ultimately show ?case using IH spec by auto
qed (auto simp: pending_deps_def gm_get_def empty_step_def)

lemma dec_all_get:
  "gm_get 0 (dec_all ns deg) k =
     gm_get 0 deg k - (if k \<in> set (map fst deg) then int (count_list ns k) else 0)"
proof (induction ns arbitrary: deg)
  case (Cons n ns)
  show ?case
  proof (cases "gm_has deg n")
    case True
    then have "set (map fst (AList.update n (gm_get 0 deg n - 1) deg)) = set (map fst deg)"
      by (simp only: gm_keys_update) (auto simp: gm_has_iff)
    moreover have "n \<in> set (map fst deg)" using True by (simp add: gm_has_iff)
    moreover have "dec_all (n # ns) deg = dec_all ns (AList.update n (gm_get 0 deg n - 1) deg)"
      using True by simp
    ultimately show ?thesis
      using Cons.IH [of "AList.update n (gm_get 0 deg n - 1) deg"]
      unfolding gm_get_update by (cases "k = n") simp_all
  next
    case False
    then have "n \<notin> set (map fst deg)" by (simp add: gm_has_iff)
    then show ?thesis using False Cons.IH [of deg] by (cases "k = n") simp_all
  qed
qed simp

lemma delete_keys: "set (map fst (AList.delete i deg)) = set (map fst deg) - {i}"
  by (simp only: AList.delete_keys set_removeAll)

lemma filter_remove_count:
  "i \<in> K \<Longrightarrow> length (filter (\<lambda>d. d \<in> K - {i}) ds) + count_list ds i = length (filter (\<lambda>d. d \<in> K) ds)"
  by (induction ds) auto

lemma topo_remove_one:
  assumes inv: "topo_inv pending adj deg" and i: "i \<in> set (map fst deg)"
  defines "deg' \<equiv> dec_all (gm_get [] adj i) (AList.delete i deg)"
  shows "topo_inv pending adj deg' \<and> set (map fst deg') = set (map fst deg) - {i}"
proof -
  let ?K = "set (map fst deg)"
  have keys: "set (map fst deg') = ?K - {i}"
    by (simp only: deg'_def dec_all_keys delete_keys)
  have ok: "gm_ok deg'"
    using inv unfolding deg'_def gm_ok_def dec_all_keys topo_inv_def
    by (simp add: distinct_delete)
  have "gm_get 0 deg' k =
      int (length (filter (\<lambda>d. d \<in> ?K - {i}) (pending_deps pending k)))" if k: "k \<in> ?K - {i}" for k
  proof -
    have K: "?K \<subseteq> set (map fst pending)" using inv by (simp add: topo_inv_def)
    have a: "gm_get 0 deg k = int (length (filter (\<lambda>d. d \<in> ?K) (pending_deps pending k)))"
      using inv k unfolding topo_inv_def by blast
    have b: "count_list (gm_get [] adj i) k = count_list (pending_deps pending k) i"
      using inv i k K unfolding topo_inv_def by blast
    have c: "k \<in> set (map fst (AList.delete i deg))" using k by (simp only: delete_keys)
    have "gm_get 0 deg' k = gm_get 0 deg k - int (count_list (gm_get [] adj i) k)"
      using k c unfolding deg'_def dec_all_get by (simp add: gomap_simps)
    then show ?thesis using a b filter_remove_count [OF i, of "pending_deps pending k"] by linarith
  qed
  then have "topo_inv pending adj deg'"
    using inv ok unfolding topo_inv_def keys by blast
  then show ?thesis using keys by blast
qed

lemma topo_remove_batch:
  "topo_inv pending adj deg \<Longrightarrow> distinct is \<Longrightarrow> set is \<subseteq> set (map fst deg) \<Longrightarrow>
     topo_inv pending adj (remove_batch adj is deg) \<and>
     set (map fst (remove_batch adj is deg)) = set (map fst deg) - set is"
proof (induction "is" arbitrary: deg)
  case (Cons i "is")
  let ?d = "dec_all (gm_get [] adj i) (AList.delete i deg)"
  have "i \<in> set (map fst deg)" using Cons.prems by simp
  from topo_remove_one [OF Cons.prems(1) this]
  have d: "topo_inv pending adj ?d" "set (map fst ?d) = set (map fst deg) - {i}" by auto
  moreover have "set is \<subseteq> set (map fst ?d)" using Cons.prems d(2) by auto
  ultimately show ?case using Cons.IH [of ?d] Cons.prems(2) by auto
qed simp

lemma zero_degree_ready:
  assumes inv: "topo_inv pending adj deg"
  shows "set (zero_degree deg) = ready pending (set (map fst deg))" "distinct (zero_degree deg)"
proof -
  have ok: "distinct (map fst deg)" using inv by (simp add: topo_inv_def gm_ok_def)
  then show "distinct (zero_degree deg)"
    unfolding zero_degree_def by (simp add: distinct_map_filter)
  have mem: "(i, d) \<in> set deg \<longleftrightarrow> i \<in> set (map fst deg) \<and> gm_get 0 deg i = d" for i d
    using Some_eq_map_of_iff [OF ok, of d i]
    by (cases "map_of deg i") (auto simp: gm_get_def map_of_eq_None_iff intro: rev_image_eqI dest: map_of_SomeD)
  have "i \<in> set (zero_degree deg) \<longleftrightarrow> (i, 0) \<in> set deg" for i
    by (auto simp: zero_degree_def image_iff)
  moreover have "(i, 0) \<in> set deg \<longleftrightarrow> i \<in> ready pending (set (map fst deg))" for i
  proof (cases "i \<in> set (map fst deg)")
    case True
    then have "gm_get 0 deg i =
        int (length (filter (\<lambda>d. d \<in> set (map fst deg)) (pending_deps pending i)))"
      using inv unfolding topo_inv_def by blast
    then have "gm_get 0 deg i = 0 \<longleftrightarrow> set (pending_deps pending i) \<inter> set (map fst deg) = {}"
      by (auto simp: filter_empty_conv)
    then show ?thesis unfolding mem ready_def using True by blast
  next
    case False
    then show ?thesis unfolding mem ready_def by blast
  qed
  ultimately show "set (zero_degree deg) = ready pending (set (map fst deg))" by blast
qed

lemma topo_loop_layered:
  "topo_inv pending adj deg \<Longrightarrow> layered pending (set (map fst deg)) (topo_loop adj deg)"
proof (induction adj deg rule: topo_loop.induct)
  case (1 adj deg)
  note z = zero_degree_ready [OF 1(2)]
  show ?case
  proof (cases "deg = [] \<or> zero_degree deg = []")
    case True
    then have "topo_loop adj deg = []" by (subst topo_loop.simps) auto
    moreover have "ready pending (set (map fst deg)) = {}"
      using True z by (auto simp: ready_def)
    ultimately show ?thesis by simp
  next
    case False
    then obtain i "is" where b: "zero_degree deg = i # is" "deg \<noteq> []" by (cases "zero_degree deg") auto
    have sub: "set (zero_degree deg) \<subseteq> set (map fst deg)" using z by (auto simp: ready_def)
    note r = topo_remove_batch [OF 1(2) z(2) sub, unfolded b]
    have "layered pending (set (map fst (remove_batch adj (i # is) deg)))
        (topo_loop adj (remove_batch adj (i # is) deg))"
      using 1(1) [OF b(2) b(1)] r by blast
    moreover have "topo_loop adj deg = (i # is) # topo_loop adj (remove_batch adj (i # is) deg)"
      using b by (subst topo_loop.simps) simp
    ultimately show ?thesis using z r b by (metis layered.simps(2) list.distinct(1))
  qed
qed

lemma topo_sort_layered:
  assumes "gm_ok pending"
  shows "layered pending (set (map fst pending)) (topo_sort_pending pending)"
proof -
  let ?d0 = "map (\<lambda>(i, s). (i, 0 :: int)) pending"
  obtain deg adj where t: "topo_graph pending pending ?d0 [] = (deg, adj)" by fastforce
  have keys: "map fst ?d0 = map fst pending" by (induction pending) auto
  have z: "gm_get 0 ?d0 k = 0" for k
    by (auto simp: gm_get_def split: option.splits dest!: map_of_SomeD)
  note spec = topo_graph_spec [OF t] 
  have k1: "map fst deg = map fst pending" using spec assms keys by (simp add: gm_ok_def)
  have "topo_inv pending adj deg"
    unfolding topo_inv_def
  proof (intro conjI ballI)
    show "gm_ok deg" "set (map fst deg) \<subseteq> set (map fst pending)"
      using assms k1 by (simp_all add: gm_ok_def)
    have e: "gm_has pending = (\<lambda>d. d \<in> set (map fst deg))" by (rule ext) (simp add: gm_has_iff k1)
    show "gm_get 0 deg k = int (length (filter (\<lambda>d. d \<in> set (map fst deg)) (pending_deps pending k)))" for k
      using spec [of k] assms keys z unfolding e [symmetric] by (simp add: gm_ok_def)
    show "count_list (gm_get [] adj d) k = count_list (pending_deps pending k) d"
      if "d \<in> set (map fst pending)" for d k
      using spec [of k d] assms keys that by (simp add: gm_ok_def gm_has_iff gm_get_def)
  qed
  from topo_loop_layered [OF this] show ?thesis
    by (simp only: topo_sort_pending_def t Let_def prod.case k1)
qed

section \<open>Consequences of the layering\<close>

definition pending_edges :: "step_def gomap \<Rightarrow> (string \<times> string) set" where
  "pending_edges pending =
     {(d, i). i \<in> set (map fst pending) \<and> d \<in> set (map fst pending) \<and> d \<in> set (pending_deps pending i)}"

text \<open>Every pending dependency of a step of a batch is in an earlier batch.\<close>

fun batches_ordered :: "step_def gomap \<Rightarrow> string set \<Rightarrow> string list list \<Rightarrow> bool" where
  "batches_ordered pending earlier [] = True"
| "batches_ordered pending earlier (b # bs) =
     ((\<forall>i\<in>set b. \<forall>d\<in>set (pending_deps pending i). gm_has pending d \<longrightarrow> d \<in> earlier) \<and>
      batches_ordered pending (earlier \<union> set b) bs)"

lemma layered_ordered:
  "layered pending R bs \<Longrightarrow> set (map fst pending) - R \<subseteq> earlier \<Longrightarrow> batches_ordered pending earlier bs"
proof (induction bs arbitrary: R earlier)
  case (Cons b bs)
  have "batches_ordered pending (earlier \<union> set b) bs"
    using Cons.prems by (intro Cons.IH [of "R - set b"]) auto
  then show ?case using Cons.prems by (auto simp: ready_def gm_has_iff)
qed simp

lemma layered_distinct: "layered pending R bs \<Longrightarrow> distinct (concat bs) \<and> set (concat bs) \<subseteq> R"
proof (induction bs arbitrary: R)
  case (Cons b bs)
  then have b: "distinct b" "set b \<subseteq> R" and l: "layered pending (R - set b) bs"
    by (auto simp: ready_def)
  from Cons.IH [OF l] b show ?case by auto
qed simp

lemma layered_complete:
  assumes wf: "acyclic (pending_edges pending)" and "layered pending R bs" "R \<subseteq> set (map fst pending)"
  shows "set (concat bs) = R"
  using assms(2,3)
proof (induction bs arbitrary: R)
  case Nil
  have "finite (pending_edges pending)"
    by (rule finite_subset [of _ "set (map fst pending) \<times> set (map fst pending)"])
       (auto simp: pending_edges_def)
  then have "wf (pending_edges pending)" using wf by (simp add: finite_acyclic_wf)
  have "R = {}"
  proof (rule ccontr)
    assume "R \<noteq> {}"
    then obtain m where "m \<in> R" "\<And>d. (d, m) \<in> pending_edges pending \<Longrightarrow> d \<notin> R"
      using \<open>wf (pending_edges pending)\<close> by (metis wfE_min ex_in_conv)
    then have "set (pending_deps pending m) \<inter> R = {}"
      using Nil.prems(2) by (fastforce simp: pending_edges_def)
    then have "m \<in> ready pending R" using \<open>m \<in> R\<close> by (simp add: ready_def)
    then show False using Nil.prems by simp
  qed
  then show ?case by simp
next
  case (Cons b bs)
  then have "set (concat bs) = R - set b" by (intro Cons.IH) auto
  moreover have "set b \<subseteq> R" using Cons.prems by (auto simp: ready_def)
  ultimately show ?case by auto
qed

section \<open>The affected steps\<close>

lemma dependents_graph_get:
  "set (gm_get [] (dependents_graph steps g) d) =
     set (gm_get [] g d) \<union> {i. (d, i) \<in> dep_edges steps}"
proof (induction steps arbitrary: g)
  case (Cons s ss)
  have "set (gm_get [] (add_adj i ds g) d) = set (gm_get [] g d) \<union> (if d \<in> set ds then {i} else {})"
    for i ds by (induction ds arbitrary: g) (auto simp: gomap_simps)
  then show ?case by (auto simp: Cons dep_edges_def)
qed (simp add: dep_edges_def)

lemma visit_spec:
  "visit ns seen queue = (seen', queue') \<Longrightarrow>
     seen' = seen \<union> set ns \<and> set queue' = set queue \<union> (set ns - seen)"
proof (induction ns arbitrary: seen queue)
  case (Cons n ns)
  show ?case
  proof (cases "n \<in> seen")
    case True
    then show ?thesis using Cons.IH [of seen queue] Cons.prems by auto
  next
    case False
    then show ?thesis using Cons.IH [of "insert n seen" "queue @ [n]"] Cons.prems by auto
  qed
qed simp

lemma bfs_sound:
  "start \<in> seen \<Longrightarrow> set queue \<subseteq> seen \<Longrightarrow> \<forall>x\<in>seen. (start, x) \<in> R\<^sup>* \<Longrightarrow>
   \<forall>x\<in>seen. x \<in> set queue \<or> R `` {x} \<subseteq> seen \<Longrightarrow>
   (\<And>x. set (gm_get [] g x) = R `` {x}) \<Longrightarrow> bfs g queue seen = R\<^sup>* `` {start}"
proof (induction g queue seen rule: bfs.induct)
  case (1 g seen)
  have "x \<in> seen" if "(start, x) \<in> R\<^sup>*" for x
    using that 1 by (induction rule: rtrancl_induct) auto
  then show ?case using 1 by auto
next
  case (2 g current queue seen)
  obtain seen' queue' where v: "visit (gm_get [] g current) seen queue = (seen', queue')" by fastforce
  have s': "seen' = seen \<union> R `` {current}" "set queue' = set queue \<union> (R `` {current} - seen)"
    using visit_spec [OF v] 2(6) by auto
  have cur: "(start, current) \<in> R\<^sup>*" using 2 by auto
  have "bfs g queue' seen' = R\<^sup>* `` {start}"
  proof (rule 2(1) [OF v [symmetric] refl])
    show "start \<in> seen'" "set queue' \<subseteq> seen'" using 2(2,3) s' by auto
    show "\<forall>x\<in>seen'. (start, x) \<in> R\<^sup>*"
      using 2(4) s' cur by (auto intro: rtrancl_into_rtrancl)
    show "\<forall>x\<in>seen'. x \<in> set queue' \<or> R `` {x} \<subseteq> seen'"
      using 2(5) s' by (auto; blast)
  qed (rule 2(6))
  then show ?case using v by simp
qed

lemma affected_steps_eq: "affected_steps def startID = (dep_edges (pd_steps def))\<^sup>* `` {startID}"
  unfolding affected_steps_def
proof (rule bfs_sound)
  show "set (gm_get [] (dependents_graph (pd_steps def) []) x) = dep_edges (pd_steps def) `` {x}" for x
    unfolding dependents_graph_get by (auto simp: gm_get_def)
qed auto

section \<open>Properties\<close>

text \<open>
  C17: \<^verbatim>\<open>topoSortPending\<close> computes the greedy layering: each batch holds exactly the remaining
  steps whose pending dependencies all lie in earlier batches, no step occurs twice, and when the
  pending dependencies are acyclic every pending step is in a batch.
\<close>

theorem topo_sort_pending_layers:
  assumes "gm_ok pending"
  shows "layered pending (set (map fst pending)) (topo_sort_pending pending) \<and>
    batches_ordered pending {} (topo_sort_pending pending) \<and>
    distinct (concat (topo_sort_pending pending)) \<and>
    (acyclic (pending_edges pending) \<longrightarrow>
       set (concat (topo_sort_pending pending)) = set (map fst pending))"
proof -
  note lay = topo_sort_layered [OF assms]
  show ?thesis
    using lay layered_ordered [OF lay, of "{}"] layered_distinct [OF lay]
      layered_complete [OF _ lay subset_refl] by simp
qed

definition pending_example :: "step_def gomap" where
  "pending_example = [(''b'', empty_step\<lparr>sd_id := ''b'', sd_depends_on := [''a'', ''x'']\<rparr>),
     (''a'', empty_step\<lparr>sd_id := ''a''\<rparr>), (''c'', empty_step\<lparr>sd_id := ''c''\<rparr>)]"

lemma pending_example_batches: "topo_sort_pending pending_example = [[''a'', ''c''], [''b'']]"
  by code_simp

lemma topo_sort_pending_layers_witness:
  "gm_ok pending_example \<and> topo_sort_pending pending_example = [[''a'', ''c''], [''b'']] \<and>
   layered pending_example {''a'', ''b'', ''c''} [[''a'', ''c''], [''b'']]"
proof -
  have ok: "gm_ok pending_example" by (simp add: gm_ok_def pending_example_def)
  have "set (map fst pending_example) = {''a'', ''b'', ''c''}"
    by (auto simp: pending_example_def)
  with topo_sort_pending_layers [OF ok] ok show ?thesis
    by (simp only: pending_example_batches simp_thms)
qed

text \<open>
  \<^verbatim>\<open>affectedSteps\<close> is the failed step with all its transitive dependents, so no step that
  survives a replan depends on a step that was removed.
\<close>

theorem affected_steps_closure:
  "affected_steps def startID = (dep_edges (pd_steps def))\<^sup>* `` {startID} \<and>
   (\<Union>s\<in>set (surviving_steps def startID). set (sd_depends_on s)) \<inter> affected_steps def startID = {}"
proof -
  have "set (sd_depends_on s) \<inter> affected_steps def startID = {}"
    if s: "s \<in> set (surviving_steps def startID)" for s
  proof (rule ccontr)
    assume "set (sd_depends_on s) \<inter> affected_steps def startID \<noteq> {}"
    then obtain d where "d \<in> set (sd_depends_on s)" "(startID, d) \<in> (dep_edges (pd_steps def))\<^sup>*"
      by (auto simp: affected_steps_eq)
    moreover from this s have "(d, sd_id s) \<in> dep_edges (pd_steps def)"
      by (auto simp: dep_edges_def surviving_steps_def)
    ultimately have "sd_id s \<in> affected_steps def startID"
      by (auto simp: affected_steps_eq intro: rtrancl_into_rtrancl)
    then show False using s by (simp add: surviving_steps_def)
  qed
  then show ?thesis by (auto simp: affected_steps_eq)
qed

end
