(* ===== verification/PlanContext.thy ===== *)
theory PlanContext
  imports PlanDag
begin

text \<open>
  What the plan executor hands to a step and to the planner: rune-wise truncation
  (\<^verbatim>\<open>truncateStr\<close>), the step context assembled from dependency results, the summary of an
  output, the prompts of the planner, and the parsing of its reply (\<^verbatim>\<open>plan/planner.go\<close> and the
  context part of \<^verbatim>\<open>plan/executor.go\<close>). \<^verbatim>\<open>json.Unmarshal\<close> is a parameter.
\<close>

section \<open>Truncation\<close>

definition truncate_str :: "string \<Rightarrow> nat \<Rightarrow> string" where
  "truncate_str s n =
     (let runes = go_runes s
      in if length runes \<le> n then s else concat (take n runes) @ ''...'')"

section \<open>Step context\<close>

fun find_step :: "step_def list \<Rightarrow> string \<Rightarrow> step_def option" where
  "find_step [] i = None"
| "find_step (s # ss) i = (if sd_id s = i then Some s else find_step ss i)"

definition step_or_empty :: "step_def list \<Rightarrow> string \<Rightarrow> step_def" where
  "step_or_empty steps i = (case find_step steps i of None \<Rightarrow> empty_step | Some s \<Rightarrow> s)"

definition dep_result_of :: "step_def list \<Rightarrow> string \<Rightarrow> step_result \<Rightarrow> dep_result" where
  "dep_result_of steps depID sr =
     (let depStep = step_or_empty steps depID;
          output = (if 2000 < length (srs_final_output sr)
                    then truncate_str (srs_final_output sr) 2000 else srs_final_output sr)
      in \<lparr>dr_step_id = depID, dr_agent_name = sd_agent depStep, dr_task = sd_task depStep,
          dr_summary = srs_summary sr, dr_output = output,
          dr_success = (srs_status sr = StepDone), dr_error = srs_error sr\<rparr>)"

fun collect_deps :: "step_def list \<Rightarrow> step_result gomap \<Rightarrow> string list \<Rightarrow> dep_result list" where
  "collect_deps steps results [] = []"
| "collect_deps steps results (d # ds) =
     (case map_of results d of
        None \<Rightarrow> collect_deps steps results ds
      | Some sr \<Rightarrow> dep_result_of steps d sr # collect_deps steps results ds)"

definition build_step_context :: "step_def list \<Rightarrow> step_result gomap \<Rightarrow> string \<Rightarrow> step_context" where
  "build_step_context steps results stepID =
     (let self = step_or_empty steps stepID
      in \<lparr>stc_goal = '''', stc_task = sd_task self,
          stc_dependencies = collect_deps steps results (sd_depends_on self)\<rparr>)"

definition format_dep :: "dep_result \<Rightarrow> string" where
  "format_dep dr =
     ''### Step '' @ go_quote (dr_step_id dr) @ '' ('' @ dr_agent_name dr @ '')'' @ nl @
     ''Task: '' @ dr_task dr @ nl @
     (if dr_success dr
      then ''Result: '' @ dr_summary dr @ nl @
           (if dr_output dr \<noteq> '''' \<and> dr_output dr \<noteq> dr_summary dr
            then nl @ ''Full output:'' @ nl @ dr_output dr @ nl else '''')
      else warn_sign @ '' This step failed: '' @ dr_error dr @ nl) @
     nl"

definition format_step_context :: "step_context \<Rightarrow> string" where
  "format_step_context sc =
     ''## Plan Context'' @ nl @ nl @
     (if stc_goal sc \<noteq> '''' then ''**Goal:** '' @ stc_goal sc @ nl @ nl else '''') @
     ''**Your task:** '' @ stc_task sc @ nl @
     (if 0 < length (stc_dependencies sc)
      then nl @ ''## Results from Previous Steps'' @ nl @ nl @
           concat (map format_dep (stc_dependencies sc))
      else '''') @
     ''---'' @ nl @ nl @ ''Complete your task and produce your final answer.''"

section \<open>Model calls and summaries\<close>

definition plan_request :: "message list \<Rightarrow> chat_request" where
  "plan_request ms = \<lparr>req_model = '''', req_messages = ms, req_tools = [],
     req_temperature = None, req_max_tokens = 0\<rparr>"

definition model_sync_call :: "'w chat_model \<Rightarrow> message list \<Rightarrow> 'w \<Rightarrow> (go_err + string) \<times> 'w" where
  "model_sync_call mdl ms w =
     (case m_chat mdl (plan_request ms) w of
        (Inl e, w') \<Rightarrow> (Inl e, w')
      | (Inr resp, w') \<Rightarrow>
          (case resp_choices resp of
             [] \<Rightarrow> (Inl (ErrText ''model returned no choices''), w')
           | c # cs \<Rightarrow> (Inr (msg_content (ch_message c)), w')))"

text \<open>The text of a stream and the chunks it hands to \<^verbatim>\<open>onChunk\<close>.\<close>

definition delta_chunks :: "stream_delta \<Rightarrow> string list" where
  "delta_chunks d = (if sd_reasoning d \<noteq> '''' then [sd_reasoning d] else []) @
     (if sd_content d \<noteq> '''' then [sd_content d] else [])"

definition stream_text :: "stream_chunk list \<Rightarrow> string" where
  "stream_text cs = concat (map (\<lambda>c. concat (map sd_content (sc_choices c))) cs)"

definition stream_chunks :: "stream_chunk list \<Rightarrow> string list" where
  "stream_chunks cs = concat (map (\<lambda>c. concat (map delta_chunks (sc_choices c))) cs)"

text \<open>
  \<^verbatim>\<open>modelStreamCall\<close>: falls back to the synchronous call on an error; a nil reader makes
  \<^verbatim>\<open>reader.Close\<close> panic. The second component lists the chunks passed on.
\<close>

definition model_stream_call ::
  "'w chat_model \<Rightarrow> message list \<Rightarrow> 'w \<Rightarrow> (go_err + string) go_ret \<times> string list \<times> 'w" where
  "model_stream_call mdl ms w =
     (case m_stream mdl (plan_request ms) w of
        (Inl e, w') \<Rightarrow>
          (case model_sync_call mdl ms w' of (r, w'') \<Rightarrow> (Returns r, [], w''))
      | (Inr None, w') \<Rightarrow> (Panics ''nil pointer dereference'', [], w')
      | (Inr (Some rd), w') \<Rightarrow>
          (Returns (case rd_err rd of
             Some e \<Rightarrow> Inl e
           | None \<Rightarrow> Inr (stream_text (rd_chunks rd))), stream_chunks (rd_chunks rd), w'))"

definition summary_prompt :: "step_def \<Rightarrow> string \<Rightarrow> string" where
  "summary_prompt step output =
     ''Summarize the following agent output in 2-3 sentences. '' @
     ''Focus on key decisions, results, and outputs produced.'' @ nl @ nl @
     ''Agent: '' @ sd_agent step @ nl @ ''Task: '' @ sd_task step @ nl @ nl @
     ''Output:'' @ nl @ output"

definition summary_request :: "step_def \<Rightarrow> string \<Rightarrow> chat_request" where
  "summary_request step output = \<lparr>req_model = '''',
     req_messages =
       [role_message RoleSystem ''You are a concise summarizer. Return only the summary, no preamble.'',
        role_message RoleUser (summary_prompt step output)],
     req_tools = [], req_temperature = None, req_max_tokens = 300\<rparr>"

definition summarize ::
  "'w chat_model option \<Rightarrow> step_def \<Rightarrow> string \<Rightarrow> 'w \<Rightarrow> (go_err + string) \<times> 'w" where
  "summarize mdl step output w =
     (case mdl of
        None \<Rightarrow> (Inr (truncate_str output 500), w)
      | Some m \<Rightarrow>
          if length output < 500 then (Inr output, w)
          else (case m_chat m (summary_request step output) w of
              (Inl e, w') \<Rightarrow> (Inl e, w')
            | (Inr resp, w') \<Rightarrow>
                (case resp_choices resp of
                   [] \<Rightarrow> (Inr (truncate_str output 500), w')
                 | c # cs \<Rightarrow> (Inr (trim_space (msg_content (ch_message c))), w'))))"

section \<open>Truncation counts runes\<close>

lemma in_range_disjoint: "in_range a b c \<Longrightarrow> b < a' \<Longrightarrow> \<not> in_range a' b' c"
  by (simp add: in_range_def Let_def)

lemma ascii_no_start:
  "in_range 0 0x7F c \<Longrightarrow> \<not> starts2 (c # t) \<and> \<not> starts3 (c # t) \<and> \<not> starts4 (c # t)"
  by (auto simp: starts2_def starts3_def starts4_def in_range_def Let_def split: list.splits)

lemma starts2_form: "starts2 s \<Longrightarrow> \<exists>a b r. s = a # b # r"
  by (auto simp: starts2_def split: list.splits)

lemma starts3_form: "starts3 s \<Longrightarrow> \<exists>a b c r. s = a # b # c # r"
  by (auto simp: starts3_def split: list.splits)

lemma starts4_form: "starts4 s \<Longrightarrow> \<exists>a b c d r. s = a # b # c # d # r"
  by (auto simp: starts4_def split: list.splits)

lemma starts2_app: "starts2 s \<Longrightarrow> starts2 (take 2 s @ t)"
  using starts2_form [of s] by (auto simp: starts2_def)

lemma starts3_app: "starts3 s \<Longrightarrow> starts3 (take 3 s @ t) \<and> \<not> starts2 (take 3 s @ t)"
  using starts3_form [of s]
  by (auto simp: starts3_def starts2_def numeral_3_eq_3 dest: in_range_disjoint)
     (simp_all add: in_range_def Let_def)

lemma starts4_app:
  "starts4 s \<Longrightarrow> starts4 (take 4 s @ t) \<and> \<not> starts2 (take 4 s @ t) \<and> \<not> starts3 (take 4 s @ t)"
  using starts4_form [of s]
  by (auto simp: starts4_def starts3_def starts2_def eval_nat_numeral)
     (simp_all add: in_range_def Let_def)

lemma multi_not_ascii:
  assumes "starts2 s \<or> starts3 s \<or> starts4 s"
  shows "\<not> in_range 0 0x7F (hd s) \<and> rune_size s \<le> length s"
proof -
  have "\<not> in_range 0 0x7F (hd s)"
    using assms ascii_no_start [of "hd s" "tl s"] starts2_form [of s] starts3_form [of s] starts4_form [of s]
    by auto
  moreover have "rune_size s \<le> length s"
    using assms starts2_form [of s] starts3_form [of s] starts4_form [of s]
    by (auto simp: rune_size_def)
  ultimately show ?thesis ..
qed

lemma first_rune_app:
  assumes "s \<noteq> []"
  shows "first_rune (first_rune s @ t) = first_rune s \<and> rune_size (first_rune s @ t) = length (first_rune s)"
proof -
  consider (ascii) "in_range 0 0x7F (hd s)"
    | (multi) "\<not> in_range 0 0x7F (hd s)" "starts2 s \<or> starts3 s \<or> starts4 s"
    | (bad) "\<not> in_range 0 0x7F (hd s)" "\<not> (starts2 s \<or> starts3 s \<or> starts4 s)" by blast
  then show ?thesis
  proof cases
    case ascii
    then show ?thesis by (simp add: first_rune_def rune_size_def ascii_no_start)
  next
    case multi
    let ?k = "rune_size s"
    have k: "?k \<le> length s" "?k \<noteq> 1" using multi multi_not_ascii [of s]
      by (auto simp: rune_size_def)
    then have fr: "first_rune s = take ?k s" "length (take ?k s) = ?k"
      using multi by (simp_all add: first_rune_def)
    have "rune_size (take ?k s @ t) = ?k"
      using multi(2) starts2_app [of s t] starts3_app [of s t] starts4_app [of s t]
      by (auto simp: rune_size_def)
    moreover have "hd (take ?k s @ t) = hd s" using assms rune_size_pos [of s]
      by (metis append_is_Nil_conv gr_implies_not0 hd_append2 hd_take take_eq_Nil)
    ultimately show ?thesis using multi k fr by (simp add: first_rune_def)
  next
    case bad
    then have "first_rune s = rune_error" by (simp add: first_rune_def rune_size_def)
    moreover have "starts3 (rune_error @ t)" "\<not> starts2 (rune_error @ t)"
      by (simp_all add: rune_error_def starts3_def starts2_def in_range_def)
    ultimately show ?thesis
      by (simp add: first_rune_def rune_size_def rune_error_def in_range_def)
  qed
qed

lemma first_rune_nonempty: "s \<noteq> [] \<Longrightarrow> first_rune s \<noteq> []"
  by (simp add: first_rune_def rune_error_def)

lemma go_runes_chunk: "s \<noteq> [] \<Longrightarrow> go_runes (first_rune s @ t) = first_rune s # go_runes t"
  using first_rune_app [of s t] first_rune_nonempty [of s] by (subst go_runes.simps) simp

lemma go_runes_concat_take: "go_runes (concat (take n (go_runes s)) @ t) = take n (go_runes s) @ go_runes t"
proof (induction s arbitrary: n rule: go_runes.induct)
  case (1 s)
  show ?case
  proof (cases "s = [] \<or> n = 0")
    case False
    then obtain m where n: "n = Suc m" by (cases n) auto
    have "go_runes s = first_rune s # go_runes (drop (rune_size s) s)"
      using False by (subst go_runes.simps) simp
    then show ?thesis using False 1 n by (simp add: go_runes_chunk)
  qed auto
qed

lemma go_runes_dots: "go_runes ''...'' = [''.'', ''.'', ''.'']"
  by (simp add: go_runes.simps first_rune_def rune_size_def in_range_def starts2_def starts3_def starts4_def)

text \<open>
  \<^verbatim>\<open>truncateStr\<close> keeps whole runes: a text of at most \<open>n\<close> runes is returned unchanged,
  a longer one is cut after \<open>n\<close> runes and gets the three dots on top, so the result has
  \<open>n + 3\<close> runes, not at most \<open>n\<close> as its comment says.
\<close>

theorem truncate_str_runes:
  "go_runes (truncate_str s n) =
     (if length (go_runes s) \<le> n then go_runes s else take n (go_runes s) @ [''.'', ''.'', ''.''])"
  by (simp add: truncate_str_def Let_def go_runes_concat_take go_runes_dots)

end
