(* ===== verification/Planner.thy ===== *)
theory Planner
  imports PlanContext
begin

text \<open>
  \<^verbatim>\<open>plan/planner.go\<close>: the LLM planner. It prompts the model, parses the JSON reply, validates
  the plan and asks again with the error text, a bounded number of times. The JSON decoder is a
  parameter: \<open>unplan\<close> and \<open>unsteps\<close> are \<^verbatim>\<open>json.Unmarshal\<close> at the two types it is used at.
\<close>

section \<open>Prompts\<close>

definition planner_system_prompt :: string where
  \<open>planner_system_prompt =
     ''You are an expert planner. Decompose a goal into a DAG of steps that maximizes parallel execution.'' @ nl @
     nl @
     ''Output ONLY a JSON object:'' @ nl @
     ''{'' @ nl @
     ''  "goal": "the original goal",'' @ nl @
     ''  "steps": ['' @ nl @
     ''    {'' @ nl @
     ''      "id": "unique_descriptive_id",'' @ nl @
     ''      "agent": "agent_name",'' @ nl @
     ''      "task": "specific task for this step only",'' @ nl @
     ''      "depends_on": ["step_ids_this_must_wait_for"],'' @ nl @
     ''      "final": false,'' @ nl @
     ''      "gate": false'' @ nl @
     ''    }'' @ nl @
     ''  ]'' @ nl @
     ''}'' @ nl @
     nl @
     ''Rules:'' @ nl @
     ''- Every step that can run independently MUST run in parallel (no unnecessary depends_on).'' @ nl @
     ''- agent must be from the available agents list.'' @ nl @
     ''- final: true only for the last answer-producing step(s).'' @ nl @
     ''- gate: true when this step requires human approval before proceeding. Use gate=true for steps'' @ nl @
     ''  where the agent's description mentions "approval", "requires approval", "review", "gate",'' @ nl @
     ''  or "approval gate". After a gate step completes, execution pauses so a human can review its'' @ nl @
     ''  output before continuing.'' @ nl @
     nl @
     ''Reply with ONLY the JSON object. No markdown fences, no explanation.''\<close>

definition history_line :: "message \<Rightarrow> string" where
  "history_line m = ''['' @ role_text (msg_role m) @ '']: '' @ truncate_str (msg_content m) 500 @ nl"

definition agent_line :: "agent_info \<Rightarrow> string" where
  "agent_line a = ''- **'' @ ai_name a @ ''**: '' @
     (if ai_description a = '''' then ''No description provided.'' else ai_description a) @ nl"

definition build_planner_prompt :: "string \<Rightarrow> agent_info list \<Rightarrow> message list \<Rightarrow> string" where
  "build_planner_prompt goal agents history =
     ''## Available Agents'' @ nl @ nl @ concat (map agent_line agents) @
     nl @ ''## Goal'' @ nl @ nl @ goal @
     (if 0 < length history
      then nl @ nl @ ''## Conversation History'' @ nl @ nl @ concat (map history_line history)
      else '''') @
     nl @ nl @ ''Generate the execution plan as JSON.''"

definition replan_example :: string where
  \<open>replan_example =
     ''[{"id": "...", "agent": "...", "task": "...", "depends_on": [...], "final": false}]''\<close>

definition build_replan_prompt :: "replan_input \<Rightarrow> string" where
  "build_replan_prompt inp =
     ''## Replanning with User Feedback'' @ nl @ nl @
     ''**Original goal:** '' @ ri_goal inp @ nl @ nl @
     (if ri_failure_error inp \<noteq> ''''
      then ''**Failure:** Step '' @ go_quote (ri_failed_step_id inp) @ '' failed: '' @
           ri_failure_error inp @ nl @ nl
      else '''') @
     ''**User feedback:** '' @ ri_feedback inp @ nl @ nl @
     (if 0 < length (ri_done_steps inp)
      then ''## Completed Steps (do not regenerate these)'' @ nl @ nl @
           concat (map (\<lambda>s. ''- **'' @ rd_id s @ ''** ('' @ rd_agent s @ ''): '' @ rd_summary s @ nl)
             (ri_done_steps inp)) @ nl
      else '''') @
     ''## Steps that Need Replanning'' @ nl @ nl @
     concat (map (\<lambda>s. ''- '' @ sd_id s @ '' (agent: '' @ sd_agent s @ '', task: '' @ sd_task s @ '')'' @ nl)
       (ri_affected inp)) @
     (if 0 < length (ri_surviving_ids inp)
      then nl @ ''## Surviving Step IDs (DO NOT reuse these)'' @ nl @
           str_join (ri_surviving_ids inp) '', '' @ nl
      else '''') @
     nl @ ''**IMPORTANT**: The user has provided feedback above. Use it to guide your replanning '' @
     [CHR 0xE2, CHR 0x80, CHR 0x94] @ '' '' @
     ''choose different agents, rephrase tasks, or restructure the approach based on their suggestions.'' @
     nl @ nl @
     ''Generate a replacement plan for only the failed and affected steps. '' @
     ''Return ONLY the replacement steps as a JSON array:'' @ nl @ replan_example"

section \<open>Parsing the reply\<close>

definition fence :: string where "fence = replicate 3 (CHR 0x60)"

definition strip_fences :: "string \<Rightarrow> string" where
  "strip_fences raw0 =
     (let raw = trim_space raw0 in
      if has_prefix raw fence then
        let raw = trim_prefix (trim_prefix raw (fence @ ''json'')) fence;
            raw = (case str_last_index raw fence of Some i \<Rightarrow> take i raw | None \<Rightarrow> raw)
        in trim_space raw
      else raw)"

definition parse_steps_json ::
  "(string \<Rightarrow> go_err + step_def list) \<Rightarrow> string \<Rightarrow> go_err + step_def list" where
  "parse_steps_json unsteps raw0 =
     (let raw = strip_fences raw0 in
      case unsteps raw of
        Inl e \<Rightarrow> Inl (ErrWrap ''failed to parse steps JSON: '' e
                   (nl @ ''Raw:'' @ nl @ truncate_str raw 500))
      | Inr steps \<Rightarrow>
          if length steps = 0 then Inl (ErrText ''no replacement steps generated'') else Inr steps)"

definition parse_plan_json :: "(string \<Rightarrow> go_err + plan_def) \<Rightarrow> string \<Rightarrow> go_err + plan_def" where
  "parse_plan_json unplan raw0 =
     (let raw = strip_fences raw0 in
      case unplan raw of
        Inl e \<Rightarrow> Inl (ErrWrap ''failed to parse plan JSON: '' e
                   (nl @ ''Raw response:'' @ nl @ truncate_str raw 500))
      | Inr def \<Rightarrow>
          if pd_goal def = '''' then Inl (ErrText ''plan has no goal'')
          else if length (pd_steps def) = 0 then Inl (ErrText ''plan has no steps'')
          else Inr def)"

section \<open>LLMPlanner\<close>

definition agent_names :: "agent_info list \<Rightarrow> string set" where
  "agent_names agents = set (map ai_name agents)"

text \<open>The messages of one attempt, with the error of the last one.\<close>

definition attempt_messages :: "string \<Rightarrow> int \<Rightarrow> go_err option \<Rightarrow> message list" where
  "attempt_messages prompt attempt lastErr =
     [role_message RoleSystem planner_system_prompt, role_message RoleUser prompt] @
     (case lastErr of
        Some e \<Rightarrow>
          if 0 < attempt
          then [role_message RoleUser
                  (''Your previous plan was invalid. Please fix these issues:'' @ nl @ err_text e @
                   nl @ nl @ ''Generate a corrected plan.'')]
          else []
      | None \<Rightarrow> [])"

definition model_call ::
  "'w chat_model \<Rightarrow> bool \<Rightarrow> message list \<Rightarrow> 'w \<Rightarrow> (go_err + string) go_ret \<times> string list \<times> 'w" where
  "model_call mdl streaming ms w =
     (if streaming then model_stream_call mdl ms w
      else case model_sync_call mdl ms w of (r, w') \<Rightarrow> (Returns r, [], w'))"

definition attempts_error :: "int \<Rightarrow> go_err option \<Rightarrow> go_err" where
  "attempts_error maxRetries lastErr =
     (let pre = ''planner: failed to generate a valid plan after '' @ int_str (maxRetries + 1) @ '' attempts: ''
      in case lastErr of Some e \<Rightarrow> ErrWrap pre e '''' | None \<Rightarrow> ErrText (pre @ ''%!w(<nil>)''))"

text \<open>The attempt loop; the list holds the attempt numbers that are left.\<close>

fun plan_attempts ::
  "(string \<Rightarrow> go_err + plan_def) \<Rightarrow> 'w chat_model \<Rightarrow> int \<Rightarrow> bool \<Rightarrow> string set \<Rightarrow> string
     \<Rightarrow> int list \<Rightarrow> go_err option \<Rightarrow> string list \<Rightarrow> 'w
     \<Rightarrow> (go_err + plan_def) go_ret \<times> string list \<times> 'w" where
  "plan_attempts unplan mdl maxRetries streaming names prompt [] lastErr out w =
     (Returns (Inl (attempts_error maxRetries lastErr)), out, w)"
| "plan_attempts unplan mdl maxRetries streaming names prompt (a # as) lastErr out w =
     (case model_call mdl streaming (attempt_messages prompt a lastErr) w of
        (Panics p, out', w') \<Rightarrow> (Panics p, out @ out', w')
      | (Returns (Inl e), out', w') \<Rightarrow>
          (Returns (Inl (ErrWrap ''planner: model call failed: '' e '''')), out @ out', w')
      | (Returns (Inr fullText), out', w') \<Rightarrow>
          (case parse_plan_json unplan fullText of
             Inl e \<Rightarrow> plan_attempts unplan mdl maxRetries streaming names prompt as (Some e) (out @ out') w'
           | Inr def \<Rightarrow>
               (case validate def names of
                  Some e \<Rightarrow>
                    plan_attempts unplan mdl maxRetries streaming names prompt as (Some e) (out @ out') w'
                | None \<Rightarrow> (Returns (Inr def), out @ out', w'))))"

definition plan_with_model ::
  "(string \<Rightarrow> go_err + plan_def) \<Rightarrow> 'w chat_model \<Rightarrow> int \<Rightarrow> string \<Rightarrow> agent_info list
     \<Rightarrow> message list \<Rightarrow> bool \<Rightarrow> 'w \<Rightarrow> (go_err + plan_def) go_ret \<times> string list \<times> 'w" where
  "plan_with_model unplan mdl maxRetries goal agents history streaming w =
     plan_attempts unplan mdl maxRetries streaming (agent_names agents)
       (build_planner_prompt goal agents history) [0..maxRetries] None [] w"

definition llm_replan ::
  "(string \<Rightarrow> go_err + step_def list) \<Rightarrow> 'w chat_model \<Rightarrow> replan_input \<Rightarrow> bool \<Rightarrow> 'w
     \<Rightarrow> (go_err + step_def list) go_ret \<times> string list \<times> 'w" where
  "llm_replan unsteps mdl inp chunked w =
     (let ms = [role_message RoleSystem planner_system_prompt,
                role_message RoleUser (build_replan_prompt inp)] in
      case model_call mdl chunked ms w of
        (Panics p, out, w') \<Rightarrow> (Panics p, out, w')
      | (Returns (Inl e), out, w') \<Rightarrow>
          (Returns (Inl (ErrWrap ''replan: model call failed: '' e '''')), out, w')
      | (Returns (Inr fullText), out, w') \<Rightarrow>
          (case parse_steps_json unsteps fullText of
             Inl e \<Rightarrow> (Returns (Inl (ErrWrap ''replan: '' e '''')), out, w')
           | Inr steps \<Rightarrow>
               (case validate \<lparr>pd_goal = ri_goal inp, pd_steps = steps\<rparr> (agent_names (ri_agents inp)) of
                  Some e \<Rightarrow> (Returns (Inl (ErrWrap ''replan validation failed: '' e '''')), out, w')
                | None \<Rightarrow> (Returns (Inr steps), out, w'))))"

section \<open>Removing the fences\<close>

lemma str_last_index_bound: "str_last_index s p = Some i \<Longrightarrow> i + length p \<le> length s"
proof (induction s arbitrary: i)
  case (Cons c s)
  then show ?case
    by (auto split: option.splits if_splits dest: prefix_length_le)
qed (auto split: if_splits)

lemma str_last_index_self: "p \<noteq> [] \<Longrightarrow> str_last_index p p = Some 0"
proof -
  assume "p \<noteq> []"
  then obtain c q where p: "p = c # q" by (cases p) auto
  have "str_last_index q p = None"
    using str_last_index_bound [of q p] p by (cases "str_last_index q p") auto
  then show ?thesis by (simp add: p)
qed

lemma str_last_index_end: "p \<noteq> [] \<Longrightarrow> str_last_index (s @ p) p = Some (length s)"
  by (induction s) (simp_all add: str_last_index_self)

text \<open>A text \<^verbatim>\<open>strings.TrimSpace\<close> leaves alone.\<close>

definition trimmed :: "string \<Rightarrow> bool" where
  "trimmed s = (s \<noteq> [] \<and> \<not> is_space (hd s) \<and> \<not> is_space (last s))"

lemma dropWhile_hd: "s \<noteq> [] \<Longrightarrow> \<not> P (hd s) \<Longrightarrow> dropWhile P s = s"
  by (cases s) auto

lemma trim_space_trimmed: "trimmed s \<Longrightarrow> trim_space s = s"
  by (simp add: trimmed_def trim_space_def dropWhile_hd hd_rev)

lemma trim_space_pad:
  assumes "trimmed s" "\<forall>c\<in>set a. is_space c" "\<forall>c\<in>set b. is_space c"
  shows "trim_space (a @ s @ b) = s"
proof -
  have "dropWhile is_space (a @ s @ b) = s @ b"
    using assms by (simp add: dropWhile_append2 dropWhile_hd trimmed_def)
  moreover have "dropWhile is_space (rev b @ rev s) = dropWhile is_space (rev s)"
    using assms(3) by (intro dropWhile_append2) auto
  moreover have "dropWhile is_space (rev s) = rev s"
    using assms(1) by (intro dropWhile_hd) (simp_all add: trimmed_def hd_rev)
  ultimately show ?thesis by (simp add: trim_space_def)
qed

lemma fence_facts: "fence \<noteq> []" "hd fence = CHR 0x60" "last fence = CHR 0x60" "\<not> is_space (CHR 0x60)"
  by (simp_all add: fence_def is_space_def)

text \<open>
  The reply parsers see the JSON body itself, whether the model sends it bare or inside a
  markdown fence, with or without the \<^verbatim>\<open>json\<close> tag.
\<close>

theorem strip_fences_body:
  assumes "trimmed body" and "\<not> has_prefix body fence"
  shows "strip_fences body = body \<and>
    strip_fences (fence @ nl @ body @ nl @ fence) = body \<and>
    strip_fences (fence @ ''json'' @ nl @ body @ nl @ fence) = body"
proof -
  have pad: "trim_space (nl @ body @ nl) = body"
    using assms by (intro trim_space_pad) (auto simp: nl_def is_space_def)
  have tr: "trimmed (fence @ x @ fence)" for x
    by (simp add: trimmed_def fence_facts)
  have cut: "str_last_index (nl @ body @ nl @ fence) fence = Some (length (nl @ body @ nl))"
    using str_last_index_end [OF fence_facts(1), of "nl @ body @ nl"] by simp
  have tk: "take (length (nl @ body @ nl)) (nl @ body @ nl @ fence) = nl @ body @ nl" by simp
  have p1: "trim_prefix (fence @ nl @ x) (fence @ ''json'') = fence @ nl @ x" for x
    by (simp add: trim_prefix_def nl_def)
  have p2: "trim_prefix (fence @ x) fence = x" for x by (simp add: trim_prefix_def)
  have p3: "trim_prefix (fence @ ''json'' @ x) (fence @ ''json'') = x" for x
    by (simp add: trim_prefix_def)
  have p4: "trim_prefix (nl @ x) fence = nl @ x" for x
    by (simp add: trim_prefix_def nl_def fence_def numeral_3_eq_3)
  have a: "strip_fences body = body"
    using assms by (simp add: strip_fences_def trim_space_trimmed)
  have b: "strip_fences (fence @ nl @ body @ nl @ fence) = body"
    using tr [of "nl @ body @ nl"] cut pad
    by (simp add: strip_fences_def trim_space_trimmed str_simps p1 p2 Let_def)
  have c: "strip_fences (fence @ ''json'' @ nl @ body @ nl @ fence) = body"
    using tr [of "''json'' @ nl @ body @ nl"] cut pad p3
    by (simp add: strip_fences_def trim_space_trimmed str_simps p4 Let_def)
  from a b c show ?thesis by blast
qed

lemma strip_fences_body_witness: "strip_fences (fence @ ''json'' @ nl @ ''[]'' @ nl @ fence) = ''[]''"
proof -
  have "trimmed ''[]''" "\<not> has_prefix ''[]'' fence"
    by (simp_all add: trimmed_def is_space_def fence_def has_prefix_def numeral_3_eq_3)
  then show ?thesis using strip_fences_body by blast
qed

section \<open>The attempt loop\<close>

text \<open>A model that counts the calls made to it.\<close>

definition counting :: "'w chat_model \<Rightarrow> ('w \<times> nat) chat_model" where
  "counting mdl = \<lparr>
     m_chat = (\<lambda>req (w, n). case m_chat mdl req w of (r, w') \<Rightarrow> (r, (w', Suc n))),
     m_stream = (\<lambda>req (w, n). case m_stream mdl req w of (r, w') \<Rightarrow> (r, (w', Suc n))),
     m_context_window = m_context_window mdl, m_tokenizer_model = m_tokenizer_model mdl\<rparr>"

definition calls_per_attempt :: "bool \<Rightarrow> nat" where
  "calls_per_attempt streaming = (if streaming then 2 else 1)"

lemma counting_sync:
  "model_sync_call (counting mdl) ms (w, n) = (r, (w', n')) \<Longrightarrow> n' = Suc n"
  by (auto simp: model_sync_call_def counting_def split: prod.splits sum.splits list.splits)

lemma counting_call:
  assumes "model_call (counting mdl) streaming ms (w, n) = (r, out, (w', n'))"
  shows "n' \<le> n + calls_per_attempt streaming"
proof (cases streaming)
  case False
  then show ?thesis using assms
    by (auto simp: model_call_def calls_per_attempt_def split: prod.splits dest: counting_sync)
next
  case True
  obtain r1 w1 n1 where m: "m_stream (counting mdl) (plan_request ms) (w, n) = (r1, (w1, n1))"
    by (metis prod.exhaust)
  then have "n1 = Suc n" by (auto simp: counting_def split: prod.splits)
  then show ?thesis using assms True m
    by (auto simp: model_call_def model_stream_call_def calls_per_attempt_def
        split: prod.splits sum.splits option.splits dest: counting_sync)
qed

lemma plan_attempts_calls:
  "plan_attempts unplan (counting mdl) maxRetries streaming names prompt as lastErr out (w, n)
     = (r, out', (w', n')) \<Longrightarrow> n' \<le> n + length as * calls_per_attempt streaming"
proof (induction "as" arbitrary: lastErr out w n)
  case (Cons a "as")
  obtain r1 out1 w1 n1 where m:
    "model_call (counting mdl) streaming (attempt_messages prompt a lastErr) (w, n) = (r1, out1, (w1, n1))"
    by (metis prod.exhaust)
  have n1: "n1 \<le> n + calls_per_attempt streaming" by (rule counting_call [OF m])
  have rest: "n' \<le> n1 + length as * calls_per_attempt streaming"
    if "plan_attempts unplan (counting mdl) maxRetries streaming names prompt as e o1 (w1, n1)
          = (r, out', (w', n'))" for e o1
    using Cons.IH [OF that] .
  have "n' = n1 \<or> n' \<le> n1 + length as * calls_per_attempt streaming"
    using Cons.prems rest
    by (auto simp: m split: go_ret.splits sum.splits option.splits)
  then show ?case using n1 by auto
qed simp

lemma plan_attempts_sound:
  "fst (plan_attempts unplan mdl maxRetries streaming names prompt as lastErr out w)
     = Returns (Inr def) \<Longrightarrow> well_formed_plan def names \<and> pd_goal def \<noteq> ''''"
proof (induction "as" arbitrary: lastErr out w)
  case (Cons a "as")
  then show ?case
    by (auto simp: parse_plan_json_def Let_def validate_None_iff validate_errors_Nil_iff
        split: prod.splits go_ret.splits sum.splits option.splits if_splits)
qed simp

text \<open>A reply that parses and validates ends the loop with that plan.\<close>

lemma plan_attempts_accept:
  "model_call mdl streaming (attempt_messages prompt a lastErr) w = (Returns (Inr reply), out1, w1) \<Longrightarrow>
   parse_plan_json unplan reply = Inr def \<Longrightarrow> well_formed_plan def names \<Longrightarrow>
     plan_attempts unplan mdl maxRetries streaming names prompt (a # as) lastErr out w
       = (Returns (Inr def), out @ out1, w1)"
  using validate_None_iff [of def names] validate_errors_Nil_iff [of def names] by simp

text \<open>
  Whatever the model answers, a plan the LLM planner returns is well formed for the agents it
  was given and has a goal.
\<close>

theorem plan_with_model_sound:
  assumes "fst (plan_with_model unplan mdl maxRetries goal agents history streaming w) = Returns (Inr def)"
  shows "well_formed_plan def (agent_names agents) \<and> pd_goal def \<noteq> ''''"
  using assms unfolding plan_with_model_def by (rule plan_attempts_sound)

definition planner_example_model :: "unit chat_model" where
  "planner_example_model = \<lparr>
     m_chat = (\<lambda>req w. (Inr \<lparr>resp_choices = [\<lparr>ch_index = 0,
        ch_message = role_message RoleAssistant ''x'', ch_finish_reason = ''stop''\<rparr>],
        resp_usage = zero_usage\<rparr>, w)),
     m_stream = (\<lambda>req w. (Inr None, w)), m_context_window = 0, m_tokenizer_model = None\<rparr>"

definition planner_example_plan :: plan_def where
  "planner_example_plan =
     \<lparr>pd_goal = ''g'', pd_steps = [empty_step\<lparr>sd_id := ''a'', sd_agent := ''w''\<rparr>]\<rparr>"

definition planner_example_agents :: "agent_info list" where
  "planner_example_agents = [\<lparr>ai_name = ''w'', ai_description = '''', ai_internal = True\<rparr>]"

lemma planner_example_wf: "well_formed_plan planner_example_plan (agent_names planner_example_agents)"
  by (simp add: well_formed_plan_def planner_example_plan_def planner_example_agents_def
      agent_names_def empty_step_def deps_closed_def dep_edges_def acyclic_def)

lemma planner_example_run:
  "plan_with_model (\<lambda>s. Inr planner_example_plan) planner_example_model 3 ''g''
     planner_example_agents [] False () = (Returns (Inr planner_example_plan), [], ())"
proof -
  have up: "[0..3 :: int] = 0 # [1..3]" by (simp add: upto.simps)
  show ?thesis unfolding plan_with_model_def up
    by (subst plan_attempts_accept [OF _ _ planner_example_wf, where reply = "''x''"])
       (auto simp: model_call_def model_sync_call_def planner_example_model_def parse_plan_json_def
          planner_example_plan_def empty_step_def)
qed

lemma plan_with_model_sound_witness:
  "well_formed_plan planner_example_plan (agent_names planner_example_agents) \<and>
   pd_goal planner_example_plan \<noteq> ''''"
  using plan_with_model_sound [where unplan = "\<lambda>s. Inr planner_example_plan"
      and mdl = planner_example_model and maxRetries = 3 and goal = "''g''" and history = "[]"
      and agents = planner_example_agents and streaming = False and w = "()"]
  by (simp only: planner_example_run fst_conv simp_thms)

text \<open>
  Planning ends: it makes at most \<^verbatim>\<open>maxRetries + 1\<close> attempts, each with one model call, or
  two when a stream cannot be opened and the planner falls back to the plain call.
\<close>

theorem plan_with_model_calls:
  "snd (snd (snd (plan_with_model unplan (counting mdl) maxRetries goal agents history streaming (w, 0))))
     \<le> nat (maxRetries + 1) * calls_per_attempt streaming"
proof -
  obtain r out w' n where p: "plan_with_model unplan (counting mdl) maxRetries goal agents history
      streaming (w, 0) = (r, out, (w', n))" by (metis prod.exhaust)
  from plan_attempts_calls [OF p [unfolded plan_with_model_def]] p show ?thesis by simp
qed

end
