(* ===== verification/PlanExecutor.thy ===== *)
theory PlanExecutor
  imports Planner
begin

text \<open>
  \<^verbatim>\<open>plan/executor.go\<close>: the executor of a plan. A step runs on its agent with retries, a batch
  of independent steps runs as one group, the batches run in topological order, and a failed step
  makes the executor replan the affected part, a bounded number of times.

  The goroutines of one batch read the results of earlier batches only and write one result each,
  so a batch is modelled as its goroutine bodies run one after the other, in any order: the order
  is a parameter (\<open>ex_sched\<close>), and so is the order of the batch itself, which comes from ranging
  over a Go map (\<open>ex_range\<close>). The group context is cancelled as soon as one body returns an
  error; a sibling that is cancelled while it runs is a body whose agent returns the context
  error. The concurrency limit does not change the set of these runs. The parent context is a
  function of the world (\<open>ex_ctx\<close>). The event channel is the list of the events sent; a sender
  that blocks is not modelled.
\<close>

section \<open>State\<close>

record 'w exec_env =
  ex_config :: plan_config
  ex_agents :: "'w plan_agent gomap"
  ex_agent_infos :: "agent_info list"
  ex_model :: "'w chat_model option"
  ex_session_id :: string
  ex_ctx :: "'w \<Rightarrow> go_err option"
  ex_stream :: bool
  ex_range :: "string list \<Rightarrow> 'w \<Rightarrow> string list"
  ex_sched :: "string list \<Rightarrow> 'w \<Rightarrow> string list"
  ex_unsteps :: "string \<Rightarrow> go_err + step_def list"

record 'w exec_state =
  xs_plan :: plan_state
  xs_events :: "plan_event list"
  xs_world :: 'w

abbreviation xs_results :: "'w exec_state \<Rightarrow> step_result gomap" where
  "xs_results x \<equiv> ps_results (xs_plan x)"

definition emit :: "'w exec_env \<Rightarrow> plan_event \<Rightarrow> 'w exec_state \<Rightarrow> 'w exec_state" where
  "emit env e x = (if ex_stream env then x\<lparr>xs_events := xs_events x @ [e]\<rparr> else x)"

definition pending_result :: step_result where
  "pending_result = new_result StepPending ''''"

text \<open>A write through the pointer \<^verbatim>\<open>sr\<close>, which is the entry of the results map.\<close>

definition modify_result ::
  "string \<Rightarrow> (step_result \<Rightarrow> step_result) \<Rightarrow> 'w exec_state \<Rightarrow> 'w exec_state" where
  "modify_result i f x =
     x\<lparr>xs_plan := (xs_plan x)\<lparr>ps_results :=
         AList.update i (f (gm_get pending_result (xs_results x) i)) (xs_results x)\<rparr>\<rparr>"

abbreviation result_of :: "'w exec_state \<Rightarrow> string \<Rightarrow> step_result" where
  "result_of x i \<equiv> gm_get pending_result (xs_results x) i"

abbreviation status_of :: "'w exec_state \<Rightarrow> string \<Rightarrow> step_status" where
  "status_of x i \<equiv> srs_status (result_of x i)"

definition set_status :: "plan_status \<Rightarrow> 'w exec_state \<Rightarrow> 'w exec_state" where
  "set_status st x = x\<lparr>xs_plan := (xs_plan x)\<lparr>ps_status := st\<rparr>\<rparr>"

section \<open>One step\<close>

text \<open>\<^verbatim>\<open>runStepStreaming\<close>: the loop over the agent's events, with the result seen so far.\<close>

fun forward_events ::
  "string \<Rightarrow> stream_event list \<Rightarrow> run_result option \<Rightarrow> plan_event list \<times> (go_err + run_result)" where
  "forward_events i [] result =
     ([], case result of Some r \<Rightarrow> Inr r
        | None \<Rightarrow> Inl (ErrText (''step '' @ go_quote i @ '' stream ended without result'')))"
| "forward_events i (e # es) result =
     (case e of
        StreamThought t \<Rightarrow>
          (case forward_events i es result of (pes, r) \<Rightarrow> (PETextDelta i t # pes, r))
      | StreamTextDelta t \<Rightarrow>
          (case forward_events i es result of (pes, r) \<Rightarrow> (PETextDelta i t # pes, r))
      | StreamToolCall m \<Rightarrow>
          (let pe = (case msg_tool_calls m of
               [] \<Rightarrow> PEToolCall i '''' '''' ''''
             | tc # tcs \<Rightarrow> PEToolCall i (tc_id tc) (tc_name tc) (tc_args tc))
           in case forward_events i es result of (pes, r) \<Rightarrow> (pe # pes, r))
      | StreamToolProgress name t \<Rightarrow>
          (case forward_events i es result of (pes, r) \<Rightarrow> (PEToolProgress i t # pes, r))
      | StreamToolResult m \<Rightarrow>
          (case forward_events i es result of (pes, r) \<Rightarrow> (PEToolResult i (msg_content m) # pes, r))
      | StreamRetrying err \<Rightarrow> forward_events i es result
      | StreamDone r \<Rightarrow> forward_events i es r
      | StreamError err \<Rightarrow> ([], Inl err)
      | StreamAborted err \<Rightarrow> ([], Inl (ErrWrap (''step '' @ go_quote i @ '' aborted: '') err '''')))"

definition is_permanent_error :: "go_err \<Rightarrow> bool" where
  "is_permanent_error e = (err_is_ctx e \<or> err_as_retryable e = None)"

definition step_session :: "'w exec_env \<Rightarrow> string \<Rightarrow> string" where
  "step_session env i = ex_session_id env @ ''/steps/'' @ i"

text \<open>The agent call of one attempt, streaming or not.\<close>

definition call_agent ::
  "'w exec_env \<Rightarrow> 'w plan_agent \<Rightarrow> string \<Rightarrow> message list \<Rightarrow> message \<Rightarrow> 'w exec_state
     \<Rightarrow> (go_err + run_result) \<times> 'w exec_state" where
  "call_agent env runner i pfx inp x =
     (if ex_stream env then
        (case pa_stream runner (step_session env i) pfx inp (xs_world x) of (evs, w) \<Rightarrow>
           case forward_events i evs None of (pes, r) \<Rightarrow>
             (r, x\<lparr>xs_events := xs_events x @ pes, xs_world := w\<rparr>))
      else
        (case pa_run runner (step_session env i) pfx inp (xs_world x) of (r, w) \<Rightarrow>
           (r, x\<lparr>xs_world := w\<rparr>)))"

definition start_attempt :: "'w exec_env \<Rightarrow> step_def \<Rightarrow> int \<Rightarrow> 'w exec_state \<Rightarrow> 'w exec_state" where
  "start_attempt env step r x =
     emit env (PEStepStart (sd_id step) (sd_agent step))
       (modify_result (sd_id step) (\<lambda>sr. sr\<lparr>srs_retries := r, srs_status := StepRunning\<rparr>) x)"

definition step_input :: message where
  "step_input = user_message ''Complete your task as described above.''"

definition attempt_step ::
  "'w exec_env \<Rightarrow> step_def \<Rightarrow> 'w plan_agent \<Rightarrow> int \<Rightarrow> 'w exec_state
     \<Rightarrow> (go_err + run_result) \<times> 'w exec_state" where
  "attempt_step env step runner r x0 =
     (let x = start_attempt env step r x0;
          ctx = build_step_context (ps_steps (xs_plan x)) (xs_results x) (sd_id step);
          pfx = [role_message RoleSystem (format_step_context ctx)]
      in call_agent env runner (sd_id step) pfx step_input x)"

definition step_failed_event :: "step_def \<Rightarrow> 'w exec_state \<Rightarrow> plan_event" where
  "step_failed_event step x =
     (let sr = result_of x (sd_id step)
      in PEStepFailed (sd_id step) (sd_agent step) sr (srs_error sr))"

definition fail_attempt ::
  "'w exec_env \<Rightarrow> step_def \<Rightarrow> go_err \<Rightarrow> 'w exec_state \<Rightarrow> 'w exec_state" where
  "fail_attempt env step err x0 =
     (let x = modify_result (sd_id step)
            (\<lambda>sr. sr\<lparr>srs_status := StepFailed, srs_error := err_text err\<rparr>) x0
      in emit env (step_failed_event step x) x)"

definition finish_step ::
  "'w exec_env \<Rightarrow> step_def \<Rightarrow> run_result \<Rightarrow> 'w exec_state \<Rightarrow> 'w exec_state" where
  "finish_step env step res x0 =
     (let out = rr_final_output res in
      case summarize (ex_model env) step out (xs_world x0) of (s, w) \<Rightarrow>
        let x1 = x0\<lparr>xs_world := w\<rparr>;
            (summary, x2) =
              (case s of
                 Inl e \<Rightarrow> (truncate_str out 500,
                   emit env (PETextDelta (sd_id step)
                     (''[warning: summarization failed ('' @ err_text e @ ''), using truncated output]'')) x1)
               | Inr t \<Rightarrow> (t, x1));
            x3 = modify_result (sd_id step)
              (\<lambda>sr. sr\<lparr>srs_status := StepDone, srs_summary := summary, srs_final_output := out,
                   srs_usage := rr_usage res, srs_error := ''''\<rparr>) x2
        in emit env (PEStepDone (sd_id step) (sd_agent step) (result_of x3 (sd_id step))) x3)"

definition exhaust_step :: "'w exec_env \<Rightarrow> step_def \<Rightarrow> 'w exec_state \<Rightarrow> 'w exec_state" where
  "exhaust_step env step x0 =
     (let x = modify_result (sd_id step) (\<lambda>sr. sr\<lparr>srs_status := StepFailed\<rparr>) x0
      in emit env (step_failed_event step x) x)"

text \<open>The retry loop; the list holds the retry numbers that are left.\<close>

fun step_loop ::
  "'w exec_env \<Rightarrow> step_def \<Rightarrow> 'w plan_agent \<Rightarrow> int list \<Rightarrow> 'w exec_state
     \<Rightarrow> step_result \<times> 'w exec_state" where
  "step_loop env step runner [] x =
     (let x' = exhaust_step env step x in (result_of x' (sd_id step), x'))"
| "step_loop env step runner (r # rs) x =
     (case attempt_step env step runner r x of
        (Inl err, x1) \<Rightarrow>
          (let x2 = fail_attempt env step err x1 in
           if is_permanent_error err then (result_of x2 (sd_id step), x2)
           else step_loop env step runner rs x2)
      | (Inr res, x1) \<Rightarrow>
          (let x2 = finish_step env step res x1 in (result_of x2 (sd_id step), x2)))"

definition step_retries :: "step_def \<Rightarrow> int" where
  "step_retries step = (if sd_max_retries step \<le> 0 then 3 else sd_max_retries step)"

definition execute_step ::
  "'w exec_env \<Rightarrow> string \<Rightarrow> 'w exec_state \<Rightarrow> step_result \<times> 'w exec_state" where
  "execute_step env stepID x =
     (case find_step (ps_steps (xs_plan x)) stepID of
        None \<Rightarrow> (new_result StepFailed (''step '' @ go_quote stepID @ '' not found''), x)
      | Some step \<Rightarrow>
          (case map_of (ex_agents env) (sd_agent step) of
             None \<Rightarrow> (new_result StepFailed (''agent '' @ go_quote (sd_agent step) @ '' not found''), x)
           | Some runner \<Rightarrow>
               step_loop env step runner [0..step_retries step]
                 (modify_result stepID (\<lambda>sr. sr) x)))"

section \<open>One batch\<close>

text \<open>
  The bodies of the group: the accumulated usage, the failed flag, and whether some body returned
  an error (which cancels the group context).
\<close>

fun run_group ::
  "'w exec_env \<Rightarrow> string list \<Rightarrow> usage \<Rightarrow> bool \<Rightarrow> bool \<Rightarrow> 'w exec_state
     \<Rightarrow> (usage \<times> bool \<times> bool) \<times> 'w exec_state" where
  "run_group env [] usage failed cancelled x = ((usage, failed, cancelled), x)"
| "run_group env (i # is) usage failed cancelled x =
     (if cancelled \<or> ex_ctx env (xs_world x) \<noteq> None
      then run_group env is usage failed True x
      else case execute_step env i x of (sr, x') \<Rightarrow>
        let bad = (srs_status sr = StepFailed)
        in run_group env is (add_usage usage (srs_usage sr)) (failed \<or> bad) bad x')"

definition run_batch ::
  "'w exec_env \<Rightarrow> string list \<Rightarrow> 'w exec_state \<Rightarrow> (go_err + usage \<times> bool) \<times> 'w exec_state" where
  "run_batch env batch x =
     (case run_group env (ex_sched env batch (xs_world x)) zero_usage False False x of
        ((usage, failed, cancelled), x') \<Rightarrow>
          (if cancelled then
             (case ex_ctx env (xs_world x') of
                Some e \<Rightarrow> (Inl e, x')
              | None \<Rightarrow> (Inr (usage, failed), x'))
           else (Inr (usage, failed), x')))"

text \<open>The first gate of the batch that completed.\<close>

fun find_gate :: "step_def gomap \<Rightarrow> 'w exec_state \<Rightarrow> string list \<Rightarrow> string option" where
  "find_gate pending x [] = None"
| "find_gate pending x (i # is) =
     (case map_of pending i of
        None \<Rightarrow> find_gate pending x is
      | Some s \<Rightarrow>
          if \<not> sd_gate s then find_gate pending x is
          else if status_of x i = StepDone then Some i else find_gate pending x is)"

text \<open>
  The loop over the batches. The result is the gate step that completed (\<^verbatim>\<open>""\<close> for none) and the
  updated total usage; the usage of the returned \<^verbatim>\<open>PlanResult\<close> is always that total.
\<close>

fun run_batches ::
  "'w exec_env \<Rightarrow> step_def gomap \<Rightarrow> string list list \<Rightarrow> usage \<Rightarrow> 'w exec_state
     \<Rightarrow> (go_err + string) \<times> usage \<times> 'w exec_state" where
  "run_batches env pending [] tot x = (Inr '''', tot, x)"
| "run_batches env pending (b # bs) tot x =
     (case ex_ctx env (xs_world x) of
        Some e \<Rightarrow> (Inl e, tot, x)
      | None \<Rightarrow>
          let batch = ex_range env b (xs_world x) in
          case run_batch env batch x of
            (Inl e, x') \<Rightarrow> (Inl e, tot, x')
          | (Inr (usage, failed), x') \<Rightarrow>
              let tot' = add_usage tot usage in
              if failed then (Inr '''', tot', x')
              else case find_gate pending x' batch of
                  Some i \<Rightarrow> (Inr i, tot', x')
                | None \<Rightarrow> run_batches env pending bs tot' x')"

definition is_pending :: "'w exec_state \<Rightarrow> step_def \<Rightarrow> bool" where
  "is_pending x s = (status_of x (sd_id s) \<in> {StepPending, StepFailed})"

fun pending_steps :: "'w exec_state \<Rightarrow> step_def list \<Rightarrow> step_def gomap \<Rightarrow> step_def gomap" where
  "pending_steps x [] m = m"
| "pending_steps x (s # ss) m =
     pending_steps x ss (if is_pending x s then AList.update (sd_id s) s m else m)"

definition execute_batches ::
  "'w exec_env \<Rightarrow> plan_def \<Rightarrow> usage \<Rightarrow> 'w exec_state \<Rightarrow> (go_err + string) \<times> usage \<times> 'w exec_state" where
  "execute_batches env def tot x =
     (let pending = pending_steps x (pd_steps def) [] in
      if length pending = 0 then (Inr '''', tot, x)
      else run_batches env pending (topo_sort_pending pending) tot x)"

section \<open>Replanning\<close>

definition success_line :: "'w exec_state \<Rightarrow> step_def \<Rightarrow> string" where
  "success_line x s = ''Step '' @ go_quote (sd_id s) @ '' ('' @ sd_agent s @ ''): '' @
     srs_summary (result_of x (sd_id s))"

definition replan_prompt :: "plan_def \<Rightarrow> string \<Rightarrow> 'w exec_state \<Rightarrow> string" where
  "replan_prompt def failedID x =
     (let successContext = map (success_line x)
            (filter (\<lambda>s. status_of x (sd_id s) = StepDone) (surviving_steps def failedID));
          failureInfo = ''Step '' @ go_quote failedID @ '' failed: '' @ srs_error (result_of x failedID);
          survivingIDs = step_ids (surviving_steps def failedID)
      in ''## Replanning'' @ nl @ nl @
         ''**Original goal:** '' @ pd_goal def @ nl @ nl @
         ''**Failure:** '' @ failureInfo @ nl @ nl @
         (if 0 < length successContext
          then ''## Completed Steps (do not regenerate these)'' @ nl @ nl @
               concat (map (\<lambda>sc. ''- '' @ sc @ nl) successContext) @ nl
          else '''') @
         ''## Steps that Need Replanning'' @ nl @ nl @
         concat (map (\<lambda>s. ''- '' @ sd_id s @ '' (agent: '' @ sd_agent s @ '', original task: '' @
             sd_task s @ '')'' @ nl) (affected_list def failedID)) @
         (if 0 < length survivingIDs
          then nl @ ''## Surviving Step IDs (DO NOT reuse these)'' @ nl @
               str_join survivingIDs '', '' @ nl
          else '''') @
         nl @ ''Generate a replacement plan for only the failed and affected steps. '' @
         ''Use NEW unique step IDs '' @ [CHR 0xE2, CHR 0x80, CHR 0x94] @
         '' do NOT reuse any surviving IDs listed above. '' @
         ''The replacement steps should accomplish the same goal as the original affected steps. '' @
         ''Return ONLY the replacement steps as a JSON array (not a full plan):'' @ nl @ replan_example)"

text \<open>Deleting the results of a set of steps from the map.\<close>

definition drop_results :: "string set \<Rightarrow> 'w exec_state \<Rightarrow> 'w exec_state" where
  "drop_results ids x =
     x\<lparr>xs_plan := (xs_plan x)\<lparr>ps_results := filter (\<lambda>(i, r). i \<notin> ids) (xs_results x)\<rparr>\<rparr>"

definition merge_steps :: "plan_def \<Rightarrow> string \<Rightarrow> step_def list \<Rightarrow> plan_def" where
  "merge_steps def failedID newSteps =
     \<lparr>pd_goal = pd_goal def, pd_steps = surviving_steps def failedID @ newSteps\<rparr>"

text \<open>\<^verbatim>\<open>replanAfterFailure\<close>: with no model configured the call is a nil pointer dereference.\<close>

definition replan_after_failure ::
  "'w exec_env \<Rightarrow> plan_def \<Rightarrow> string \<Rightarrow> 'w exec_state \<Rightarrow> (go_err + plan_def) go_ret \<times> 'w exec_state" where
  "replan_after_failure env def failedID x =
     (case ex_model env of
        None \<Rightarrow> (Panics ''invalid memory address or nil pointer dereference'', x)
      | Some m \<Rightarrow>
          (case model_sync_call m
              [role_message RoleSystem planner_system_prompt,
               role_message RoleUser (replan_prompt def failedID x)] (xs_world x) of
             (Inl e, w) \<Rightarrow>
               (Returns (Inl (ErrWrap ''replan model call failed: '' e '''')), x\<lparr>xs_world := w\<rparr>)
           | (Inr fullText, w) \<Rightarrow>
               let x' = x\<lparr>xs_world := w\<rparr> in
               (case parse_steps_json (ex_unsteps env) fullText of
                  Inl e \<Rightarrow> (Returns (Inl (ErrWrap ''replan: '' e '''')), x')
                | Inr newSteps \<Rightarrow>
                    let newDef = merge_steps def failedID newSteps in
                    (case validate newDef (agent_names (ex_agent_infos env)) of
                       Some e \<Rightarrow>
                         (Returns (Inl (ErrWrap ''replan validation failed: '' e '''')), x')
                     | None \<Rightarrow>
                         (Returns (Inr newDef), drop_results (affected_steps def failedID) x')))))"

section \<open>The plan\<close>

fun find_failed :: "'w exec_state \<Rightarrow> step_def list \<Rightarrow> string" where
  "find_failed x [] = ''''"
| "find_failed x (s # ss) =
     (if status_of x (sd_id s) = StepFailed then sd_id s else find_failed x ss)"

definition is_final_step :: "plan_def \<Rightarrow> step_def \<Rightarrow> bool" where
  "is_final_step def s =
     (sd_final s \<or> \<not> (\<exists>t\<in>set (pd_steps def). sd_id s \<in> set (sd_depends_on t)))"

definition build_result :: "plan_def \<Rightarrow> 'w exec_state \<Rightarrow> usage \<Rightarrow> plan_result" where
  "build_result def x tot =
     (let outputs = [srs_final_output (result_of x (sd_id s)). s \<leftarrow> pd_steps def,
            status_of x (sd_id s) = StepDone, is_final_step def s,
            srs_final_output (result_of x (sd_id s)) \<noteq> '''']
      in \<lparr>pr_goal = pd_goal def, pr_final_output = str_join outputs (nl @ nl),
          pr_steps = [result_of x (sd_id s). s \<leftarrow> pd_steps def, gm_has (xs_results x) (sd_id s)],
          pr_usage = tot, pr_replan_count = ps_replan_count (xs_plan x)\<rparr>)"

text \<open>The loop that creates a pending result for each step without one.\<close>

fun reset_results :: "step_def list \<Rightarrow> 'w exec_state \<Rightarrow> 'w exec_state" where
  "reset_results [] x = x"
| "reset_results (s # ss) x = reset_results ss (modify_result (sd_id s) (\<lambda>sr. sr) x)"

definition max_replans :: "'w exec_env \<Rightarrow> int" where
  "max_replans env =
     (if pc_max_replans (ex_config env) \<le> 0 then 3 else pc_max_replans (ex_config env))"

text \<open>
  One turn of the replan loop: it ends the execution (with a result, with \<^verbatim>\<open>nil, nil\<close> for a
  pause, with an error, or with a panic) or goes round again with a new plan.
\<close>

datatype round_outcome =
    Finished "(go_err + plan_result option) go_ret"
  | Again plan_def usage

definition paused_result :: "usage \<Rightarrow> plan_result" where
  "paused_result tot = \<lparr>pr_goal = '''', pr_final_output = '''', pr_steps = [],
     pr_usage = tot, pr_replan_count = 0\<rparr>"

definition replan_round ::
  "'w exec_env \<Rightarrow> plan_def \<Rightarrow> string \<Rightarrow> usage \<Rightarrow> 'w exec_state \<Rightarrow> round_outcome \<times> 'w exec_state" where
  "replan_round env def failedID tot x0 =
     (let x = x0\<lparr>xs_plan := (xs_plan x0)\<lparr>ps_replan_count := ps_replan_count (xs_plan x0) + 1\<rparr>\<rparr> in
      if max_replans env < ps_replan_count (xs_plan x)
      then (Finished (Returns (Inl (ErrText (''max replans exceeded ('' @ int_str (max_replans env) @ '')'')))),
            set_status PlanFailed x)
      else case replan_after_failure env def failedID (emit env (PEReplanning failedID) x) of
          (Panics p, x') \<Rightarrow> (Finished (Panics p), x')
        | (Returns (Inl e), x') \<Rightarrow>
            (Finished (Returns (Inl (ErrWrap ''replan failed: '' e ''''))), set_status PlanFailed x')
        | (Returns (Inr newDef), x') \<Rightarrow>
            (Again newDef tot, x'\<lparr>xs_plan := (xs_plan x')\<lparr>ps_steps := pd_steps newDef\<rparr>\<rparr>))"

definition after_batches ::
  "'w exec_env \<Rightarrow> plan_def \<Rightarrow> string \<Rightarrow> usage \<Rightarrow> 'w exec_state \<Rightarrow> round_outcome \<times> 'w exec_state" where
  "after_batches env def gateStepID tot x =
     (if gateStepID \<noteq> '''' then
        (Finished (Returns (Inr (Some (paused_result tot)))),
         emit env (PEWaitingRetry gateStepID '''') x)
      else
        let failedID = find_failed x (pd_steps def) in
        if failedID = '''' then
          let x1 = set_status PlanDone x; res = build_result def x1 tot
          in (Finished (Returns (Inr (Some res))), emit env (PEDone (pr_final_output res)) x1)
        else if \<not> pc_auto_replan (ex_config env) then
          (Finished (Returns (Inr None)),
           emit env (PEWaitingRetry failedID (srs_error (result_of x failedID))) x)
        else replan_round env def failedID tot x)"

definition exec_round ::
  "'w exec_env \<Rightarrow> plan_def \<Rightarrow> usage \<Rightarrow> 'w exec_state \<Rightarrow> round_outcome \<times> 'w exec_state" where
  "exec_round env def tot x =
     (case ex_ctx env (xs_world x) of
        Some e \<Rightarrow>
          (Finished (Returns (Inl e)), emit env (PEError (err_text e)) (set_status PlanCancelled x))
      | None \<Rightarrow>
          (case execute_batches env def tot (reset_results (pd_steps def) x) of
             (Inl e, tot', x') \<Rightarrow> (Finished (Returns (Inl e)), set_status PlanFailed x')
           | (Inr gate, tot', x') \<Rightarrow> after_batches env def gate tot' x'))"

section \<open>What the operations change\<close>

text \<open>Only the results of the steps in \<open>A\<close> change; the rest of the plan state stays.\<close>

definition touches :: "string set \<Rightarrow> 'w exec_state \<Rightarrow> 'w exec_state \<Rightarrow> bool" where
  "touches A x y = ((xs_plan y)\<lparr>ps_results := []\<rparr> = (xs_plan x)\<lparr>ps_results := []\<rparr> \<and>
     (\<forall>j. j \<notin> A \<longrightarrow> map_of (xs_results y) j = map_of (xs_results x) j) \<and>
     (\<forall>j. map_of (xs_results x) j \<noteq> None \<longrightarrow> map_of (xs_results y) j \<noteq> None) \<and>
     (\<exists>evs. xs_events y = xs_events x @ evs))"

named_theorems touches_intros

lemma touches_refl [touches_intros]: "touches A x x"
  by (simp add: touches_def)

lemma touches_trans: "touches A x y \<Longrightarrow> touches A y z \<Longrightarrow> touches A x z"
  unfolding touches_def by (metis append_assoc)

lemma touches_mono: "touches A x y \<Longrightarrow> A \<subseteq> B \<Longrightarrow> touches B x y"
  unfolding touches_def by blast

lemma emit_sel [simp]: "xs_plan (emit env e x) = xs_plan x" "xs_world (emit env e x) = xs_world x"
  by (simp_all add: emit_def)

lemma touches_emit [touches_intros]: "touches A x y \<Longrightarrow> touches A x (emit env e y)"
  by (auto simp: touches_def emit_def)

lemma touches_world [touches_intros]: "touches A x y \<Longrightarrow> touches A x (y\<lparr>xs_world := w\<rparr>)"
  by (simp add: touches_def)

lemma touches_events [touches_intros]:
  "touches A x y \<Longrightarrow> touches A x (y\<lparr>xs_events := xs_events y @ evs, xs_world := w\<rparr>)"
  by (auto simp: touches_def)

lemma touches_modify [touches_intros]:
  "touches A x y \<Longrightarrow> i \<in> A \<Longrightarrow> touches A x (modify_result i f y)"
  by (auto simp: touches_def modify_result_def update_conv)

lemma result_modify [simp]:
  "result_of (modify_result i f x) j = (if j = i then f (result_of x i) else result_of x j)"
  by (simp add: modify_result_def gm_get_update)

lemma modify_sel [simp]:
  "xs_world (modify_result i f x) = xs_world x" "xs_events (modify_result i f x) = xs_events x"
  "ps_steps (xs_plan (modify_result i f x)) = ps_steps (xs_plan x)"
  by (simp_all add: modify_result_def)

lemma touches_result: "touches A x y \<Longrightarrow> j \<notin> A \<Longrightarrow> result_of y j = result_of x j"
  by (simp add: touches_def gm_get_def)

lemma touches_plan:
  assumes "touches A x y"
  shows "ps_steps (xs_plan y) = ps_steps (xs_plan x)"
    "ps_replan_count (xs_plan y) = ps_replan_count (xs_plan x)"
    "ps_status (xs_plan y) = ps_status (xs_plan x)"
    "ps_id (xs_plan y) = ps_id (xs_plan x)" "ps_goal (xs_plan y) = ps_goal (xs_plan x)"
proof -
  have "(xs_plan y)\<lparr>ps_results := []\<rparr> = (xs_plan x)\<lparr>ps_results := []\<rparr>"
    using assms by (simp add: touches_def)
  then show "ps_steps (xs_plan y) = ps_steps (xs_plan x)"
    "ps_replan_count (xs_plan y) = ps_replan_count (xs_plan x)"
    "ps_status (xs_plan y) = ps_status (xs_plan x)"
    "ps_id (xs_plan y) = ps_id (xs_plan x)" "ps_goal (xs_plan y) = ps_goal (xs_plan x)"
    by (cases "xs_plan y"; cases "xs_plan x"; simp)+
qed

lemma call_agent_touches:
  "call_agent env runner i pfx inp y = (r, z) \<Longrightarrow> touches A x y \<Longrightarrow> touches A x z"
  by (auto simp: call_agent_def intro!: touches_intros split: if_splits prod.splits)

lemma attempt_touches:
  "attempt_step env step runner r x = (res, y) \<Longrightarrow> touches {sd_id step} x y"
  unfolding attempt_step_def Let_def start_attempt_def
  by (erule call_agent_touches) (auto intro!: touches_intros)

lemma fail_touches: "touches {sd_id step} x (fail_attempt env step err x)"
  by (auto simp: fail_attempt_def Let_def intro!: touches_intros)

lemma finish_touches: "touches {sd_id step} x (finish_step env step res x)"
  by (auto simp: finish_step_def Let_def intro!: touches_intros split: prod.splits sum.splits)

lemma exhaust_touches: "touches {sd_id step} x (exhaust_step env step x)"
  by (auto simp: exhaust_step_def Let_def intro!: touches_intros)

lemma step_loop_touches: "touches {sd_id step} x (snd (step_loop env step runner rs x))"
proof (induction rs arbitrary: x)
  case Nil
  then show ?case by (simp add: Let_def exhaust_touches)
next
  case (Cons r rs)
  obtain res y where a: "attempt_step env step runner r x = (res, y)" by fastforce
  note xy = attempt_touches [OF a]
  show ?case
  proof (cases res)
    case (Inl err)
    have "touches {sd_id step} x (fail_attempt env step err y)"
      by (rule touches_trans [OF xy fail_touches])
    then show ?thesis using Cons.IH [of "fail_attempt env step err y"] a Inl
      by (auto simp: Let_def intro: touches_trans)
  next
    case (Inr r)
    then show ?thesis using a touches_trans [OF xy finish_touches] by (simp add: Let_def)
  qed
qed

lemma find_step_id: "find_step steps i = Some s \<Longrightarrow> sd_id s = i \<and> s \<in> set steps"
  by (induction steps) (auto split: if_splits)

lemma execute_step_touches: "touches {i} x (snd (execute_step env i x))"
proof (cases "find_step (ps_steps (xs_plan x)) i")
  case (Some step)
  then have "sd_id step = i" using find_step_id by blast
  moreover have "touches {i} x (modify_result i (\<lambda>sr. sr) x)" by (auto intro!: touches_intros)
  ultimately show ?thesis
    using Some step_loop_touches [of step "modify_result i (\<lambda>sr. sr) x" env]
    by (auto simp: execute_step_def touches_refl split: option.splits intro: touches_trans)
qed (simp add: execute_step_def touches_refl)

lemma run_group_touches:
  "set is \<subseteq> A \<Longrightarrow> touches A x (snd (run_group env is usage failed cancelled x))"
proof (induction "is" arbitrary: usage failed cancelled x)
  case (Cons i "is")
  obtain sr y where e: "execute_step env i x = (sr, y)" by fastforce
  have "touches A x y" using execute_step_touches [of i x env] e Cons.prems
    by (auto intro: touches_mono)
  then show ?case using Cons e by (auto simp: Let_def intro: touches_trans)
qed (simp add: touches_refl)

lemma run_batch_touches: "touches UNIV x (snd (run_batch env b x))"
  using run_group_touches [of "ex_sched env b (xs_world x)" UNIV x env zero_usage False False]
  by (auto simp: run_batch_def split: prod.splits option.splits)

lemma run_batches_touches: "touches UNIV x (snd (snd (run_batches env pending bs tot x)))"
proof (induction bs arbitrary: tot x)
  case (Cons b bs)
  have "touches UNIV x (snd (run_batch env (ex_range env b (xs_world x)) x))"
    by (rule run_batch_touches)
  then show ?case using Cons.IH
    by (auto simp: Let_def touches_refl split: option.splits prod.splits sum.splits
        intro: touches_trans)
qed (simp add: touches_refl)

lemma execute_batches_touches: "touches UNIV x (snd (snd (execute_batches env def tot x)))"
  by (simp add: execute_batches_def Let_def touches_refl run_batches_touches)

lemma reset_touches: "touches (set (step_ids ss)) x (reset_results ss x)"
proof (induction ss arbitrary: x)
  case (Cons s ss)
  have "touches (set (step_ids (s # ss))) x (modify_result (sd_id s) (\<lambda>sr. sr) x)"
    by (auto intro!: touches_intros)
  moreover have "touches (set (step_ids (s # ss))) (modify_result (sd_id s) (\<lambda>sr. sr) x)
      (reset_results (s # ss) x)"
    using Cons [of "modify_result (sd_id s) (\<lambda>sr. sr) x"] by (auto intro: touches_mono)
  ultimately show ?case by (rule touches_trans)
qed (simp add: touches_refl)

section \<open>The replan loop\<close>

lemma drop_results_sel [simp]:
  "ps_steps (xs_plan (drop_results A x)) = ps_steps (xs_plan x)"
  "ps_replan_count (xs_plan (drop_results A x)) = ps_replan_count (xs_plan x)"
  by (simp_all add: drop_results_def)

lemma replan_frame:
  "replan_after_failure env def i x = (r, x') \<Longrightarrow>
     ps_replan_count (xs_plan x') = ps_replan_count (xs_plan x) \<and>
     ps_steps (xs_plan x') = ps_steps (xs_plan x)"
  by (auto simp: replan_after_failure_def Let_def
      split: option.splits prod.splits sum.splits)

lemma set_status_sel [simp]:
  "ps_replan_count (xs_plan (set_status st x)) = ps_replan_count (xs_plan x)"
  "ps_steps (xs_plan (set_status st x)) = ps_steps (xs_plan x)"
  "xs_results (set_status st x) = xs_results x" "xs_world (set_status st x) = xs_world x"
  "ps_status (xs_plan (set_status st x)) = st"
  by (simp_all add: set_status_def)

lemma replan_round_count:
  assumes "replan_round env def i tot x = (out, x')"
  shows "ps_replan_count (xs_plan x') = ps_replan_count (xs_plan x) + 1 \<and>
    (\<forall>d u. out = Again d u \<longrightarrow> ps_replan_count (xs_plan x) < max_replans env)"
proof (cases "max_replans env < ps_replan_count (xs_plan x) + 1")
  case True
  then show ?thesis using assms by (auto simp: replan_round_def Let_def)
next
  case False
  let ?x = "x\<lparr>xs_plan := (xs_plan x)\<lparr>ps_replan_count := ps_replan_count (xs_plan x) + 1\<rparr>\<rparr>"
  obtain r y where r: "replan_after_failure env def i (emit env (PEReplanning i) ?x) = (r, y)"
    by fastforce
  have "ps_replan_count (xs_plan y) = ps_replan_count (xs_plan x) + 1"
    using replan_frame [OF r] by simp
  then show ?thesis using assms False r
    by (auto simp: replan_round_def Let_def split: go_ret.splits sum.splits)
qed

lemma after_batches_count:
  assumes "after_batches env def gate tot x = (out, x')"
  shows "(ps_replan_count (xs_plan x') = ps_replan_count (xs_plan x) \<and> (\<exists>r. out = Finished r)) \<or>
    (ps_replan_count (xs_plan x') = ps_replan_count (xs_plan x) + 1 \<and>
     (\<forall>d u. out = Again d u \<longrightarrow> ps_replan_count (xs_plan x) < max_replans env))"
  using assms replan_round_count [of env def "find_failed x (pd_steps def)" tot x out x']
  unfolding after_batches_def Let_def by (auto split: if_splits)

lemma exec_round_count:
  assumes "exec_round env def tot x = (out, x')"
  shows "(ps_replan_count (xs_plan x') = ps_replan_count (xs_plan x) \<and> (\<exists>r. out = Finished r)) \<or>
    (ps_replan_count (xs_plan x') = ps_replan_count (xs_plan x) + 1 \<and>
     (\<forall>d u. out = Again d u \<longrightarrow> ps_replan_count (xs_plan x) < max_replans env))"
proof (cases "ex_ctx env (xs_world x)")
  case None
  let ?x0 = "reset_results (pd_steps def) x"
  obtain r u y where b: "execute_batches env def tot ?x0 = (r, u, y)" by (metis prod.exhaust)
  have "ps_replan_count (xs_plan y) = ps_replan_count (xs_plan x)"
    using touches_plan(2) [OF execute_batches_touches [of ?x0 env def tot]] b
      touches_plan(2) [OF reset_touches [of "pd_steps def" x]] by simp
  then show ?thesis using assms None b after_batches_count [of env def _ u y out x']
    by (cases r) (auto simp: exec_round_def)
qed (use assms in \<open>auto simp: exec_round_def\<close>)

function exec_loop ::
  "'w exec_env \<Rightarrow> plan_def \<Rightarrow> usage \<Rightarrow> 'w exec_state
     \<Rightarrow> (go_err + plan_result option) go_ret \<times> 'w exec_state" where
  "exec_loop env def tot x =
     (case exec_round env def tot x of
        (Finished r, x') \<Rightarrow> (r, x')
      | (Again newDef tot', x') \<Rightarrow> exec_loop env newDef tot' x')"
  by pat_completeness auto
termination
proof (relation "measure (\<lambda>(env, def, tot, x). nat (max_replans env - ps_replan_count (xs_plan x)))",
    goal_cases)
  case (2 env def tot x out x' newDef tot')
  then show ?case using exec_round_count [of env def tot x "Again newDef tot'" x'] by auto
qed simp

declare exec_loop.simps [simp del]

text \<open>\<^verbatim>\<open>executor.execute\<close>.\<close>

definition exec_plan ::
  "'w exec_env \<Rightarrow> plan_def \<Rightarrow> 'w exec_state
     \<Rightarrow> (go_err + plan_result option) go_ret \<times> 'w exec_state" where
  "exec_plan env def x = exec_loop env def zero_usage (set_status PlanRunning x)"

lemma exec_loop_count:
  "exec_loop env def tot x = (r, x') \<Longrightarrow>
     ps_replan_count (xs_plan x) \<le> ps_replan_count (xs_plan x') \<and>
     ps_replan_count (xs_plan x') \<le> max (ps_replan_count (xs_plan x)) (max_replans env) + 1"
proof (induction env def tot x rule: exec_loop.induct)
  case (1 env def tot x)
  obtain out y where e: "exec_round env def tot x = (out, y)" by fastforce
  note c = exec_round_count [OF e]
  show ?case
  proof (cases out)
    case (Finished r')
    then have "x' = y" using 1(2) e by (subst (asm) exec_loop.simps) simp
    then show ?thesis using c by auto
  next
    case (Again d u)
    then have "exec_loop env d u y = (r, x')" using 1(2) e by (subst (asm) exec_loop.simps) simp
    from 1(1) [OF e [symmetric] Again this] c Again show ?thesis by auto
  qed
qed

section \<open>The log of a round\<close>

definition started :: "plan_event list \<Rightarrow> string set" where
  "started evs = {i. \<exists>a. PEStepStart i a \<in> set evs}"

definition finished :: "plan_event list \<Rightarrow> string set" where
  "finished evs = {i. \<exists>a r. PEStepDone i a r \<in> set evs}"

lemma started_simps [simp]:
  "started [] = {}" "started (es @ fs) = started es \<union> started fs"
  "started (e # es) = (case e of PEStepStart i a \<Rightarrow> {i} | _ \<Rightarrow> {}) \<union> started es"
  by (auto simp: started_def split: plan_event.splits)

lemma finished_simps [simp]:
  "finished [] = {}" "finished (es @ fs) = finished es \<union> finished fs"
  "finished (e # es) = (case e of PEStepDone i a r \<Rightarrow> {i} | _ \<Rightarrow> {}) \<union> finished es"
  by (auto simp: finished_def split: plan_event.splits)

text \<open>
  The order contract of the event stream: with the steps in \<open>D\<close> done before, every step starts
  after its dependencies have finished.
\<close>

fun log_ok :: "(string \<Rightarrow> string list) \<Rightarrow> string set \<Rightarrow> plan_event list \<Rightarrow> bool" where
  "log_ok deps D [] = True"
| "log_ok deps D (e # es) =
     (case e of
        PEStepStart i a \<Rightarrow> set (deps i) \<subseteq> D \<and> log_ok deps D es
      | PEStepDone i a r \<Rightarrow> log_ok deps (insert i D) es
      | _ \<Rightarrow> log_ok deps D es)"

lemma log_ok_append: "log_ok deps D (es @ fs) \<longleftrightarrow> log_ok deps D es \<and> log_ok deps (D \<union> finished es) fs"
proof (induction es arbitrary: D)
  case (Cons e es)
  then show ?case by (cases e) simp_all
qed simp

lemma log_ok_mono: "log_ok deps D es \<Longrightarrow> D \<subseteq> E \<Longrightarrow> log_ok deps E es"
proof (induction es arbitrary: D E)
  case (Cons e es)
  then show ?case by (cases e) (auto; blast)+
qed simp

lemma log_ok_started: "\<forall>i\<in>started es. set (deps i) \<subseteq> D \<Longrightarrow> log_ok deps D es"
proof (induction es arbitrary: D)
  case (Cons e es)
  have st: "started es \<subseteq> started (e # es)" by (auto simp: started_def)
  have hd: "e = PEStepStart i a \<Longrightarrow> i \<in> started (e # es)" for i a by (auto simp: started_def)
  have "log_ok deps D es" using Cons st by blast
  then show ?case using hd Cons.prems by (cases e) (auto intro: log_ok_mono)
qed simp

definition new_events :: "'w exec_state \<Rightarrow> 'w exec_state \<Rightarrow> plan_event list" where
  "new_events x y = drop (length (xs_events x)) (xs_events y)"

lemma new_events_self [simp]: "new_events x x = []"
  by (simp add: new_events_def)

lemma new_events_trans:
  "touches A x y \<Longrightarrow> touches B y z \<Longrightarrow> new_events x z = new_events x y @ new_events y z"
  by (auto simp: touches_def new_events_def)

lemma forward_events_plain:
  "started (fst (forward_events i es r)) = {} \<and> finished (fst (forward_events i es r)) = {}"
proof (induction es arbitrary: r)
  case (Cons e es)
  show ?case
    by (cases e) (auto simp: Cons Let_def split_beta split: list.splits)
qed simp

lemma attempt_events:
  assumes "attempt_step env step runner r x = (res, y)" "ex_stream env"
  shows "started (new_events x y) = {sd_id step} \<and> finished (new_events x y) = {}"
proof -
  have "\<exists>evs. new_events x y = PEStepStart (sd_id step) (sd_agent step)
      # fst (forward_events (sd_id step) evs None)"
    using assms unfolding attempt_step_def start_attempt_def call_agent_def Let_def
    by (auto simp: emit_def new_events_def split: prod.splits) (metis fst_conv)
  then show ?thesis using forward_events_plain by force
qed

lemma fail_events:
  "started (new_events x (fail_attempt env step err x)) = {} \<and>
   finished (new_events x (fail_attempt env step err x)) = {}"
  by (simp add: fail_attempt_def Let_def emit_def new_events_def step_failed_event_def)

lemma exhaust_events:
  "started (new_events x (exhaust_step env step x)) = {} \<and>
   finished (new_events x (exhaust_step env step x)) = {}"
  by (simp add: exhaust_step_def Let_def emit_def new_events_def step_failed_event_def)

lemma finish_events:
  "started (new_events x (finish_step env step res x)) = {} \<and>
   (ex_stream env \<longrightarrow> finished (new_events x (finish_step env step res x)) = {sd_id step})"
  by (auto simp: finish_step_def Let_def emit_def new_events_def split: prod.splits sum.splits)

lemma fail_result [simp]:
  "result_of (fail_attempt env step err x) (sd_id step) =
     (result_of x (sd_id step))\<lparr>srs_status := StepFailed, srs_error := err_text err\<rparr>"
  by (simp add: fail_attempt_def Let_def)

lemma finish_status [simp]: "status_of (finish_step env step res x) (sd_id step) = StepDone"
  by (simp add: finish_step_def Let_def split: prod.splits)

lemma exhaust_status [simp]: "status_of (exhaust_step env step x) (sd_id step) = StepFailed"
  by (simp add: exhaust_step_def Let_def)

lemma step_loop_spec:
  "step_loop env step runner rs x = (sr, y) \<Longrightarrow>
     sr = result_of y (sd_id step) \<and> srs_status sr \<in> {StepDone, StepFailed} \<and>
     (ex_stream env \<longrightarrow> started (new_events x y) \<subseteq> {sd_id step} \<and>
        finished (new_events x y) = (if srs_status sr = StepDone then {sd_id step} else {}))"
proof (induction rs arbitrary: x)
  case Nil
  then show ?case using exhaust_events [of x env step] by (auto simp: Let_def)
next
  case (Cons r rs)
  obtain res z where a: "attempt_step env step runner r x = (res, z)" by fastforce
  note az = attempt_touches [OF a]
  show ?case
  proof (cases res)
    case (Inr rr)
    have y: "y = finish_step env step rr z" "sr = result_of y (sd_id step)"
      using Cons.prems a Inr by (auto simp: Let_def)
    have "new_events x y = new_events x z @ new_events z y"
      using new_events_trans [OF az finish_touches] y by simp
    then show ?thesis using y finish_events [of z env step rr] attempt_events [OF a] by auto
  next
    case (Inl err)
    let ?f = "fail_attempt env step err z"
    have t: "touches {sd_id step} x ?f" by (rule touches_trans [OF az fail_touches])
    have e: "new_events x ?f = new_events x z @ new_events z ?f"
      by (rule new_events_trans [OF az fail_touches])
    show ?thesis
    proof (cases "is_permanent_error err")
      case True
      then have "y = ?f" "sr = result_of ?f (sd_id step)" using Cons.prems a Inl by (auto simp: Let_def)
      then show ?thesis using e fail_events [of z env step err] attempt_events [OF a] by auto
    next
      case False
      then have l: "step_loop env step runner rs ?f = (sr, y)"
        using Cons.prems a Inl by (simp add: Let_def)
      have "touches {sd_id step} ?f y" using step_loop_touches [of step ?f env runner rs] l by simp
      then have "new_events x y = new_events x z @ new_events z ?f @ new_events ?f y"
        using new_events_trans [OF t] e by simp
      then show ?thesis using Cons.IH [OF l] fail_events [of z env step err] attempt_events [OF a]
        by auto
    qed
  qed
qed

section \<open>Steps and groups\<close>

text \<open>The step is in the plan and its agent is registered.\<close>

definition known_step :: "'w exec_env \<Rightarrow> 'w exec_state \<Rightarrow> string \<Rightarrow> bool" where
  "known_step env x i =
     (case find_step (ps_steps (xs_plan x)) i of
        None \<Rightarrow> False | Some s \<Rightarrow> gm_has (ex_agents env) (sd_agent s))"

text \<open>
  The context stays done once it is done: no call that gets the world back from a foreign
  function revives it (Go's contexts promise this).
\<close>

definition ctx_sticky :: "'w exec_env \<Rightarrow> bool" where
  "ctx_sticky env =
     ((\<forall>runner\<in>snd ` set (ex_agents env). \<forall>s p m w. ex_ctx env w \<noteq> None \<longrightarrow>
         ex_ctx env (snd (pa_run runner s p m w)) \<noteq> None \<and>
         ex_ctx env (snd (pa_stream runner s p m w)) \<noteq> None) \<and>
      (\<forall>mdl req w. ex_model env = Some mdl \<longrightarrow> ex_ctx env w \<noteq> None \<longrightarrow>
         ex_ctx env (snd (m_chat mdl req w)) \<noteq> None))"

text \<open>Map iteration and the scheduler permute what they are given.\<close>

definition fair_env :: "'w exec_env \<Rightarrow> bool" where
  "fair_env env = (\<forall>b w. (distinct b \<longrightarrow> distinct (ex_range env b w) \<and> distinct (ex_sched env b w)) \<and>
     set (ex_range env b w) = set b \<and> set (ex_sched env b w) = set b)"

lemma execute_step_spec:
  assumes "execute_step env i x = (sr, y)"
  shows "srs_status sr \<in> {StepDone, StepFailed} \<and>
    (srs_status sr = StepDone \<longrightarrow> status_of y i = StepDone) \<and>
    (known_step env x i \<longrightarrow> sr = result_of y i) \<and>
    status_of y i \<in> {status_of x i, StepDone, StepFailed} \<and>
    (ex_stream env \<longrightarrow> started (new_events x y) \<subseteq> {i} \<and>
       (srs_status sr = StepDone \<longrightarrow> i \<in> finished (new_events x y)))"
proof (cases "find_step (ps_steps (xs_plan x)) i")
  case None
  then show ?thesis using assms by (auto simp: execute_step_def known_step_def)
next
  case (Some step)
  then have id: "sd_id step = i" using find_step_id by blast
  show ?thesis
  proof (cases "map_of (ex_agents env) (sd_agent step)")
    case None
    then show ?thesis using assms Some by (auto simp: execute_step_def known_step_def gm_has_def)
  next
    case (Some runner)
    then have l: "step_loop env step runner [0..step_retries step] (modify_result i (\<lambda>sr. sr) x) = (sr, y)"
      using assms \<open>find_step _ _ = Some step\<close> by (simp add: execute_step_def)
    have "new_events (modify_result i (\<lambda>sr. sr) x) y = new_events x y"
      by (simp add: new_events_def)
    with step_loop_spec [OF l] show ?thesis using id by auto
  qed
qed

lemma call_agent_sticky:
  assumes "call_agent env runner i p m x = (r, y)" "ctx_sticky env" "runner \<in> snd ` set (ex_agents env)"
    "ex_ctx env (xs_world x) \<noteq> None"
  shows "ex_ctx env (xs_world y) \<noteq> None"
proof -
  have "ex_ctx env (snd (pa_run runner s p m (xs_world x))) \<noteq> None \<and>
      ex_ctx env (snd (pa_stream runner s p m (xs_world x))) \<noteq> None" for s
    using assms(2-4) unfolding ctx_sticky_def by blast
  then show ?thesis using assms(1)
    by (auto simp: call_agent_def split: if_splits prod.splits) (metis snd_conv option.distinct(1))+
qed

lemma finish_sticky:
  assumes "ctx_sticky env" "ex_ctx env (xs_world x) \<noteq> None"
  shows "ex_ctx env (xs_world (finish_step env step res x)) \<noteq> None"
proof -
  have "ex_ctx env (snd (summarize (ex_model env) step t (xs_world x))) \<noteq> None" for t
  proof (cases "ex_model env")
    case (Some m)
    then have "ex_ctx env (snd (m_chat m req (xs_world x))) \<noteq> None" for req
      using assms unfolding ctx_sticky_def by blast
    then show ?thesis using Some assms(2)
      by (auto simp: summarize_def split: prod.splits sum.splits list.splits)
         (metis snd_conv option.distinct(1))+
  qed (use assms(2) in \<open>simp add: summarize_def\<close>)
  then show ?thesis
    by (auto simp: finish_step_def Let_def split: prod.splits sum.splits) (metis snd_conv option.distinct(1))+
qed

lemma start_world [simp]: "xs_world (start_attempt env step r x) = xs_world x"
  by (simp add: start_attempt_def)

lemma fail_world [simp]: "xs_world (fail_attempt env step err x) = xs_world x"
  by (simp add: fail_attempt_def Let_def)

lemma exhaust_world [simp]: "xs_world (exhaust_step env step x) = xs_world x"
  by (simp add: exhaust_step_def Let_def)

lemma step_loop_sticky:
  assumes "ctx_sticky env" "runner \<in> snd ` set (ex_agents env)"
  shows "ex_ctx env (xs_world x) \<noteq> None \<Longrightarrow>
    ex_ctx env (xs_world (snd (step_loop env step runner rs x))) \<noteq> None"
proof (induction rs arbitrary: x)
  case (Cons r rs)
  obtain res z where a: "attempt_step env step runner r x = (res, z)" by fastforce
  have z: "ex_ctx env (xs_world z) \<noteq> None"
    by (rule call_agent_sticky [OF a [unfolded attempt_step_def Let_def] assms])
       (simp only: start_world Cons.prems not_False_eq_True)
  show ?case
    using Cons.IH [of "fail_attempt env step err z" for err] z finish_sticky [OF assms(1) z]
    by (cases res) (simp_all add: a Let_def)
qed (simp add: Let_def)

lemma execute_step_sticky:
  assumes "ctx_sticky env" "ex_ctx env (xs_world x) \<noteq> None"
  shows "ex_ctx env (xs_world (snd (execute_step env i x))) \<noteq> None"
proof -
  have "runner \<in> snd ` set (ex_agents env)" if "map_of (ex_agents env) a = Some runner" for a runner
    using map_of_SomeD [OF that] by force
  then show ?thesis
    using assms step_loop_sticky [OF assms(1), of _ "modify_result i (\<lambda>sr. sr) x"]
    by (auto simp: execute_step_def simp del: not_None_eq split: option.splits)
qed

lemma known_touches: "touches A x y \<Longrightarrow> known_step env y i = known_step env x i"
  by (simp add: known_step_def touches_plan(1))

lemma run_group_spec:
  "run_group env is usage f c x = ((u', f', c'), y) \<Longrightarrow> distinct is \<Longrightarrow> ctx_sticky env \<Longrightarrow>
   (c \<Longrightarrow> f \<or> ex_ctx env (xs_world x) \<noteq> None) \<Longrightarrow>
     (f \<longrightarrow> f') \<and> (c \<longrightarrow> c') \<and> (c' \<longrightarrow> f' \<or> ex_ctx env (xs_world y) \<noteq> None) \<and>
     (ex_stream env \<longrightarrow> started (new_events x y) \<subseteq> set is) \<and>
     (\<forall>i. status_of y i \<in> {status_of x i, StepDone, StepFailed}) \<and>
     (\<not> f' \<and> \<not> c' \<longrightarrow> (\<forall>i\<in>set is. status_of y i = StepDone) \<and>
        (ex_stream env \<longrightarrow> set is \<subseteq> finished (new_events x y))) \<and>
     (f' \<and> (\<forall>i\<in>set is. known_step env x i) \<longrightarrow> f \<or> (\<exists>i\<in>set is. status_of y i = StepFailed))"
proof (induction "is" arbitrary: usage f c x)
  case (Cons i "is")
  show ?case
  proof (cases "c \<or> ex_ctx env (xs_world x) \<noteq> None")
    case True
    then have r: "run_group env is usage f True x = ((u', f', c'), y)" using Cons.prems(1) by auto
    have "True \<Longrightarrow> f \<or> ex_ctx env (xs_world x) \<noteq> None" using True Cons.prems(4) by blast
    from Cons.IH [OF r _ Cons.prems(3) this] Cons.prems(2) show ?thesis by auto
  next
    case False
    obtain sr z where e: "execute_step env i x = (sr, z)" by fastforce
    let ?bad = "srs_status sr = StepFailed"
    have r: "run_group env is (add_usage usage (srs_usage sr)) (f \<or> ?bad) ?bad z = ((u', f', c'), y)"
      using Cons.prems(1) False e by (simp add: Let_def)
    have d: "distinct is" "i \<notin> set is" using Cons.prems(2) by auto
    note es = execute_step_spec [OF e]
    note IH = Cons.IH [OF r d(1) Cons.prems(3)]
    have t1: "touches {i} x z" using execute_step_touches [of i x env] e by simp
    have t2: "touches (set is) z y"
      using run_group_touches [OF subset_refl, of "is" z env "add_usage usage (srs_usage sr)" "f \<or> ?bad" ?bad] r
      by simp
    have ev: "new_events x y = new_events x z @ new_events z y"
      by (rule new_events_trans [OF t1 t2])
    have same: "status_of y i = status_of z i" using touches_result [OF t2 d(2)] by simp
    have kn: "known_step env z j = known_step env x j" for j using known_touches [OF t1] .
    have st: "status_of z j \<in> {status_of x j, StepDone, StepFailed}" for j
      using es touches_result [OF t1, of j] by (cases "j = i") auto
    have st2: "status_of y j \<in> {status_of x j, StepDone, StepFailed}" for j
      using IH st [of j] by (smt (verit) insert_iff)
    show ?thesis
    proof (cases ?bad)
      case True
      then have "f'" using IH by blast
      moreover have "known_step env x i \<Longrightarrow> status_of y i = StepFailed" using es True same by simp
      ultimately show ?thesis using IH st2 es ev True by auto
    next
      case False
      then have "srs_status sr = StepDone" using es by auto
      then have "status_of y i = StepDone" "ex_stream env \<longrightarrow> i \<in> finished (new_events x z)"
        using es same by auto
      moreover have I: "(f \<longrightarrow> f')" "(c' \<longrightarrow> f' \<or> ex_ctx env (xs_world y) \<noteq> None)"
        "ex_stream env \<longrightarrow> started (new_events z y) \<subseteq> set is"
        "\<not> f' \<and> \<not> c' \<longrightarrow> (\<forall>i\<in>set is. status_of y i = StepDone) \<and>
           (ex_stream env \<longrightarrow> set is \<subseteq> finished (new_events z y))"
        "f' \<and> (\<forall>i\<in>set is. known_step env z i) \<longrightarrow> f \<or> (\<exists>i\<in>set is. status_of y i = StepFailed)"
        using IH False by simp_all
      moreover have "started (new_events x y) \<subseteq> set (i # is)" if "ex_stream env"
        using I(3) es ev that by auto
      ultimately show ?thesis using st2 ev \<open>\<not> (c \<or> _)\<close> kn
        by (intro conjI impI allI) (simp_all, blast+)
    qed
  qed
qed auto

lemma run_batch_spec:
  assumes "run_batch env b x = (r, y)" "distinct b" "ctx_sticky env" "fair_env env"
  shows "(ex_stream env \<longrightarrow> started (new_events x y) \<subseteq> set b) \<and>
     (\<forall>i. status_of y i \<in> {status_of x i, StepDone, StepFailed}) \<and>
     (\<forall>u. r = Inr (u, False) \<longrightarrow> (\<forall>i\<in>set b. status_of y i = StepDone) \<and>
        (ex_stream env \<longrightarrow> set b \<subseteq> finished (new_events x y))) \<and>
     (\<forall>u. r = Inr (u, True) \<longrightarrow> (\<forall>i\<in>set b. known_step env x i) \<longrightarrow>
        (\<exists>i\<in>set b. status_of y i = StepFailed))"
proof -
  let ?o = "ex_sched env b (xs_world x)"
  obtain u f c z where g: "run_group env ?o zero_usage False False x = ((u, f, c), z)"
    by (metis prod.exhaust)
  have o: "set ?o = set b" "distinct ?o" using assms(2,4) by (auto simp: fair_env_def)
  note s = run_group_spec [OF g o(2) assms(3), unfolded o(1), simplified]
  have yz: "y = z" using assms(1) g by (auto simp: run_batch_def split: if_splits option.splits)
  have r: "r = (if c then (case ex_ctx env (xs_world z) of Some e \<Rightarrow> Inl e | None \<Rightarrow> Inr (u, f)) else Inr (u, f))"
    using assms(1) g by (auto simp: run_batch_def split: if_splits option.splits)
  have "r = Inr (u', False) \<Longrightarrow> \<not> f \<and> \<not> c" for u'
    using r s by (auto split: if_splits option.splits)
  moreover have "r = Inr (u', True) \<Longrightarrow> f" for u'
    using r by (auto split: if_splits option.splits)
  ultimately show ?thesis using s unfolding yz by blast
qed

end
