(* ===== verification/PlanExec.thy ===== *)
theory PlanExec
  imports PlanExecutor
begin

text \<open>
  The properties of the plan executor: one round starts every step after its dependencies, an
  execution that ends in the status \<^verbatim>\<open>done\<close> has completed every step, replanning keeps the plan
  well formed and the results of the surviving steps, and the number of replans is bounded.
\<close>

section \<open>The batches of a round\<close>

lemma find_gate_spec:
  "find_gate pending x is = Some i \<Longrightarrow>
     i \<in> set is \<and> status_of x i = StepDone \<and> (\<exists>s. map_of pending i = Some s \<and> sd_gate s)"
  by (induction "is") (auto split: option.splits if_splits)

text \<open>
  What running batches with the steps \<open>ids\<close> leaves: no step started before its pending dependencies
  outside \<open>D\<close>, every status kept, done or failed; without an error or a gate all are done or one has
  failed, and a gate is a gate step among them.
\<close>

definition batches_post ::
  "'w exec_env \<Rightarrow> step_def gomap \<Rightarrow> string set \<Rightarrow> string list \<Rightarrow> 'w exec_state \<Rightarrow> go_err + string \<Rightarrow> 'w exec_state \<Rightarrow> bool" where
  "batches_post env pending D ids x r y =
     ((ex_stream env \<longrightarrow> log_ok (pending_deps pending) D (new_events x y) \<and> started (new_events x y) \<subseteq> set ids) \<and>
      (\<forall>i. status_of y i \<in> {status_of x i, StepDone, StepFailed}) \<and>
      (r = Inr '''' \<longrightarrow> (\<forall>i\<in>set ids. known_step env x i \<and> i \<noteq> '''') \<longrightarrow>
         (\<forall>i\<in>set ids. status_of y i = StepDone) \<or> (\<exists>i\<in>set ids. status_of y i = StepFailed)) \<and>
      (\<forall>g. r = Inr g \<longrightarrow> g \<noteq> '''' \<longrightarrow> g \<in> set ids \<and> (\<exists>s. map_of pending g = Some s \<and> sd_gate s)))"

text \<open>A finished batch and the batches behind it.\<close>

lemma batches_post_more:
  assumes t: "touches UNIV x z" "touches UNIV z y"
    and log: "ex_stream env \<Longrightarrow> log_ok (pending_deps pending) D (new_events x z)"
    and sub: "ex_stream env \<longrightarrow> started (new_events x z) \<subseteq> set (concat (b # bs))"
    and st: "\<forall>i. status_of z i \<in> {status_of x i, StepDone, StepFailed}"
    and dn: "\<forall>i\<in>set b. status_of z i = StepDone" "ex_stream env \<longrightarrow> set b \<subseteq> finished (new_events x z)"
    and IH: "batches_post env pending (D \<union> set b) (concat bs) z r y"
  shows "batches_post env pending D (concat (b # bs)) x r y"
proof -
  note IH = IH [unfolded batches_post_def]
  have kn: "known_step env z i = known_step env x i" for i using known_touches [OF t(1)] .
  have ev: "new_events x y = new_events x z @ new_events z y" by (rule new_events_trans [OF t])
  have "log_ok (pending_deps pending) D (new_events x y)" if "ex_stream env"
    unfolding ev log_ok_append using log IH dn(2) that by (auto intro: log_ok_mono)
  moreover have "status_of y i \<in> {status_of x i, StepDone, StepFailed}" for i
    using IH st by (smt (verit) insert_iff)
  moreover have "\<forall>i\<in>set b. status_of y i \<in> {StepDone, StepFailed}"
    using IH dn(1) by (smt (verit) insert_iff empty_iff)
  moreover have "started (new_events x y) \<subseteq> set (concat (b # bs))" if "ex_stream env"
    using IH sub that unfolding ev by auto
  moreover have "(\<forall>i\<in>set (concat (b # bs)). status_of y i = StepDone) \<or>
      (\<exists>i\<in>set (concat (b # bs)). status_of y i = StepFailed)"
    if "r = Inr ''''" "\<forall>i\<in>set (concat (b # bs)). known_step env x i \<and> i \<noteq> ''''"
  proof -
    have "(\<forall>i\<in>set (concat bs). status_of y i = StepDone) \<or> (\<exists>i\<in>set (concat bs). status_of y i = StepFailed)"
      using IH that kn by simp
    then show ?thesis using calculation(3) by auto
  qed
  moreover have "g \<in> set (concat (b # bs)) \<and> (\<exists>s. map_of pending g = Some s \<and> sd_gate s)"
    if "r = Inr g" "g \<noteq> ''''" for g
    using IH that by simp
  ultimately show ?thesis unfolding batches_post_def by blast
qed

text \<open>The steps of a batch start after their dependencies.\<close>

lemma batch_log_ok:
  assumes s: "started es \<subseteq> set b" and o: "\<forall>i\<in>set b. \<forall>d\<in>set (pending_deps pending i). gm_has pending d \<longrightarrow> d \<in> E"
    and e: "E \<subseteq> D" and c: "\<forall>i\<in>set b. \<forall>d\<in>set (pending_deps pending i). gm_has pending d \<or> d \<in> D"
  shows "log_ok (pending_deps pending) D es"
proof (rule log_ok_started, rule ballI)
  fix i assume "i \<in> started es"
  then have "i \<in> set b" using s by blast
  then show "set (pending_deps pending i) \<subseteq> D" using o e c by blast
qed

lemma run_batches_spec:
  "run_batches env pending bs tot x = (r, tot', y) \<Longrightarrow> ctx_sticky env \<Longrightarrow> fair_env env \<Longrightarrow>
   distinct (concat bs) \<Longrightarrow> batches_ordered pending E bs \<Longrightarrow> E \<subseteq> D \<Longrightarrow>
   \<forall>i\<in>set (concat bs). \<forall>d\<in>set (pending_deps pending i). gm_has pending d \<or> d \<in> D \<Longrightarrow>
     batches_post env pending D (concat bs) x r y"
proof (induction bs arbitrary: x tot D E)
  case Nil
  then show ?case by (auto simp: batches_post_def)
next
  case (Cons b bs)
  show ?case
  proof (cases "ex_ctx env (xs_world x)")
    case (Some e)
    then have "r = Inl e" "y = x" using Cons.prems(1) by auto
    then show ?thesis by (simp add: batches_post_def)
  next
    case None
    let ?b = "ex_range env b (xs_world x)"
    have b: "set ?b = set b" "distinct ?b" using Cons.prems(3,4) by (auto simp: fair_env_def)
    obtain rb z where rb: "run_batch env ?b x = (rb, z)" by fastforce
    note bs = run_batch_spec [OF rb b(2) Cons.prems(2,3), unfolded b(1)]
    have t1: "touches UNIV x z" using run_batch_touches [of x env ?b] rb by simp
    have sub: "ex_stream env \<longrightarrow> started (new_events x z) \<subseteq> set (concat (b # bs))" using bs by auto
    have log1: "log_ok (pending_deps pending) D (new_events x z)" if "ex_stream env"
      by (rule batch_log_ok [of _ b _ E]) (use bs that Cons.prems(5,6,7) in auto)
    have st: "\<forall>i. status_of z i \<in> {status_of x i, StepDone, StepFailed}" using bs by blast
    consider (err) e where "rb = Inl e" | (failed) u where "rb = Inr (u, True)"
      | (ok) u where "rb = Inr (u, False)" by (metis (full_types) sum.exhaust surj_pair)
    then show ?thesis
    proof cases
      case err
      then have "r = Inl e" "y = z" using Cons.prems(1) None rb by (auto simp: Let_def)
      then show ?thesis using log1 st sub by (simp add: batches_post_def)
    next
      case failed
      then have r: "r = Inr ''''" "y = z" using Cons.prems(1) None rb by (auto simp: Let_def)
      have "(\<forall>i\<in>set b. known_step env x i) \<longrightarrow> (\<exists>i\<in>set b. status_of z i = StepFailed)"
        using bs failed by blast
      then show ?thesis using log1 st r sub by (auto simp: batches_post_def)
    next
      case ok
      then have dn: "\<forall>i\<in>set b. status_of z i = StepDone"
        "ex_stream env \<longrightarrow> set b \<subseteq> finished (new_events x z)" using bs by blast+
      show ?thesis
      proof (cases "find_gate pending z ?b")
        case (Some g)
        then have r: "r = Inr g" "y = z" using Cons.prems(1) None rb ok by (auto simp: Let_def)
        then show ?thesis using log1 st sub find_gate_spec [OF Some] b(1) dn(1) by (auto simp: batches_post_def)
      next
        case None': None
        have rest: "run_batches env pending bs (add_usage tot u) z = (r, tot', y)"
          using Cons.prems(1) None rb ok None' by (simp add: Let_def)
        have t2: "touches UNIV z y" using run_batches_touches [of z env pending bs "add_usage tot u"] rest by simp
        have post: "batches_post env pending (D \<union> set b) (concat bs) z r y"
          by (rule Cons.IH [OF rest Cons.prems(2,3), of "E \<union> set b"]) (use Cons.prems(4-7) in auto)
        show ?thesis by (rule batches_post_more [OF t1 t2 _ sub st dn post]) (rule log1)
      qed
    qed
  qed
qed

lemma run_batch_only:
  assumes "fair_env env"
  shows "touches (set b) x (snd (run_batch env b x))"
proof -
  have "set (ex_sched env b (xs_world x)) \<subseteq> set b" using assms by (simp add: fair_env_def)
  from run_group_touches [OF this, of x env zero_usage False False] show ?thesis
    by (auto simp: run_batch_def split: prod.splits option.splits)
qed

lemma run_batches_only:
  assumes "fair_env env"
  shows "touches (set (concat bs)) x (snd (snd (run_batches env pending bs tot x)))"
proof (induction bs arbitrary: tot x)
  case (Cons b bs)
  let ?b = "ex_range env b (xs_world x)"
  have t: "touches (set (concat (b # bs))) x (snd (run_batch env ?b x))"
    using run_batch_only [OF assms, of ?b x] assms by (auto simp: fair_env_def intro: touches_mono)
  have "touches (set (concat (b # bs))) z (snd (snd (run_batches env pending bs u z)))" for u z
    using Cons.IH [of z u] by (auto intro: touches_mono)
  then show ?case using t
    by (auto simp: Let_def touches_refl split: option.splits prod.splits sum.splits
        intro: touches_trans)
qed (simp add: touches_refl)

section \<open>One round\<close>

definition plan_deps :: "step_def list \<Rightarrow> string \<Rightarrow> string list" where
  "plan_deps steps i = sd_depends_on (step_or_empty steps i)"

definition settled :: "'w exec_state \<Rightarrow> bool" where
  "settled x = (\<forall>i. status_of x i \<in> {StepPending, StepDone, StepFailed})"

definition done_ids :: "'w exec_state \<Rightarrow> step_def list \<Rightarrow> string set" where
  "done_ids x steps = {sd_id s | s. s \<in> set steps \<and> status_of x (sd_id s) = StepDone}"

lemma find_step_distinct:
  "distinct (step_ids steps) \<Longrightarrow> s \<in> set steps \<Longrightarrow> find_step steps (sd_id s) = Some s"
proof (induction steps)
  case (Cons a steps)
  then show ?case by (cases "s = a") (auto simp: rev_image_eqI)
qed simp

lemma pending_steps_spec:
  "distinct (step_ids ss) \<Longrightarrow> gm_ok m \<Longrightarrow>
     gm_ok (pending_steps x ss m) \<and>
     map_of (pending_steps x ss m) i =
       (case find_step ss i of
          Some s \<Rightarrow> if is_pending x s then Some s else map_of m i
        | None \<Rightarrow> map_of m i)"
proof (induction ss arbitrary: m)
  case (Cons s ss)
  have "find_step ss (sd_id s) = None"
  proof (cases "find_step ss (sd_id s)")
    case (Some t)
    then have "sd_id t = sd_id s" "t \<in> set ss" using find_step_id by blast+
    then show ?thesis using Cons.prems(1) by (metis distinct.simps(2) image_eqI list.simps(9) set_map)
  qed
  let ?m = "if is_pending x s then AList.update (sd_id s) s m else m"
  have IH: "gm_ok (pending_steps x ss ?m)" "map_of (pending_steps x ss ?m) i =
       (case find_step ss i of Some s \<Rightarrow> if is_pending x s then Some s else map_of ?m i
        | None \<Rightarrow> map_of ?m i)"
    using Cons.IH [of ?m] Cons.prems by (simp_all add: gm_ok_update)
  show ?case
  proof (cases "sd_id s = i")
    case True
    then have "find_step ss i = None" using \<open>find_step ss (sd_id s) = None\<close> by simp
    then show ?thesis using IH True by (simp add: update_conv)
  next
    case False
    then have m: "map_of ?m i = map_of m i" by (simp add: update_conv)
    have "pending_steps x (s # ss) m = pending_steps x ss ?m" by simp
    moreover have "find_step (s # ss) i = find_step ss i" using False by simp
    ultimately show ?thesis using IH unfolding m by simp
  qed
qed simp

lemma log_ok_cong:
  "log_ok deps D es \<Longrightarrow> \<forall>i\<in>started es. deps' i = deps i \<Longrightarrow> log_ok deps' D es"
proof (induction es arbitrary: D)
  case (Cons e es)
  then show ?case by (cases e) auto
qed simp

text \<open>The pending steps of a plan in a settled state.\<close>

lemma pending_plan:
  assumes steps: "good_steps steps" and set_x: "settled x"
  shows "s \<in> set steps \<Longrightarrow> map_of (pending_steps x steps []) (sd_id s) = (if is_pending x s then Some s else None)"
    and "\<not> is_pending x s \<Longrightarrow> status_of x (sd_id s) = StepDone"
    and "i \<in> set (map fst (pending_steps x steps [])) \<Longrightarrow>
      \<exists>s\<in>set steps. sd_id s = i \<and> is_pending x s \<and> map_of (pending_steps x steps []) i = Some s"
    and "i \<in> set (map fst (pending_steps x steps [])) \<Longrightarrow> pending_deps (pending_steps x steps []) i = plan_deps steps i"
    and "i \<in> set (map fst (pending_steps x steps [])) \<Longrightarrow> d \<in> set (pending_deps (pending_steps x steps []) i) \<Longrightarrow>
      gm_has (pending_steps x steps []) d \<or> d \<in> done_ids x steps"
proof -
  let ?p = "pending_steps x steps []"
  have dist: "distinct (step_ids steps)" using steps by (simp add: good_steps_def)
  note ps = pending_steps_spec [OF dist gm_ok_Nil, of x]
  have mem: "map_of ?p (sd_id s) = (if is_pending x s then Some s else None)" if "s \<in> set steps" for s
    using ps find_step_distinct [OF dist that] by simp
  have nonp: "status_of x (sd_id s) = StepDone" if "\<not> is_pending x s" for s
    using that set_x by (auto simp: settled_def is_pending_def)
  have keys: "\<exists>s\<in>set steps. sd_id s = i \<and> is_pending x s \<and> map_of ?p i = Some s" if "i \<in> set (map fst ?p)" for i
  proof -
    have "map_of ?p i \<noteq> None" using that by (simp add: map_of_eq_None_iff)
    then show ?thesis using ps [of i] find_step_id [of steps i] by (auto split: option.splits if_splits)
  qed
  show "gm_has ?p d \<or> d \<in> done_ids x steps" if i: "i \<in> set (map fst ?p)" and d: "d \<in> set (pending_deps ?p i)" for i d
  proof -
    obtain s where s: "s \<in> set steps" "sd_id s = i" "map_of ?p i = Some s" using keys [OF i] by blast
    then have "d \<in> set (sd_depends_on s)" using d by (simp add: pending_deps_def gm_get_def)
    then obtain t where t: "t \<in> set steps" "sd_id t = d"
      using steps s(1) by (force simp: good_steps_def deps_closed_def)
    then show ?thesis using mem [of t] nonp [of t] by (auto simp: gm_has_def done_ids_def)
  qed
  show "pending_deps ?p i = plan_deps steps i" if "i \<in> set (map fst ?p)" for i
    using keys [OF that] find_step_distinct [OF dist]
    by (auto simp: pending_deps_def plan_deps_def gm_get_def step_or_empty_def)
  show "s \<in> set steps \<Longrightarrow> map_of ?p (sd_id s) = (if is_pending x s then Some s else None)" by (rule mem)
  show "\<not> is_pending x s \<Longrightarrow> status_of x (sd_id s) = StepDone" by (rule nonp)
  show "i \<in> set (map fst ?p) \<Longrightarrow> \<exists>s\<in>set steps. sd_id s = i \<and> is_pending x s \<and> map_of ?p i = Some s" by (rule keys)
qed

text \<open>On an acyclic plan the batches cover the pending steps, so all steps end one way or the other.\<close>

lemma pending_covered:
  assumes steps: "good_steps steps" "settled x" and acyc: "acyclic (dep_edges steps)" and ok: "gm_ok (pending_steps x steps [])"
  shows "set (concat (topo_sort_pending (pending_steps x steps []))) = set (map fst (pending_steps x steps []))"
proof -
  let ?p = "pending_steps x steps []"
  have "pending_edges ?p \<subseteq> dep_edges steps"
    using pending_plan(3) [OF steps] by (force simp: pending_edges_def dep_edges_def pending_deps_def gm_get_def)
  then have "acyclic (pending_edges ?p)" using acyc acyclic_subset by blast
  then show ?thesis using layered_complete [OF _ topo_sort_layered [OF ok] subset_refl] by blast
qed

lemma execute_batches_spec:
  assumes e: "execute_batches env def tot x = (r, tot', y)"
    and env: "ctx_sticky env" "fair_env env"
    and steps: "good_steps (pd_steps def)" and set_x: "settled x"
  shows "(ex_stream env \<longrightarrow> log_ok (plan_deps (pd_steps def)) (done_ids x (pd_steps def)) (new_events x y)) \<and>
     settled y \<and>
     (acyclic (dep_edges (pd_steps def)) \<and>
      (\<forall>s\<in>set (pd_steps def). known_step env x (sd_id s) \<and> sd_id s \<noteq> '''') \<longrightarrow> r = Inr '''' \<longrightarrow>
        (\<forall>s\<in>set (pd_steps def). status_of y (sd_id s) = StepDone) \<or>
        (\<exists>s\<in>set (pd_steps def). status_of y (sd_id s) = StepFailed))"
proof (cases "pending_steps x (pd_steps def) [] = []")
  case True
  note pp = pending_plan [OF steps set_x]
  have "r = Inr ''''" "y = x" using True e by (auto simp: execute_batches_def)
  moreover have "\<forall>s\<in>set (pd_steps def). status_of x (sd_id s) = StepDone"
    using True pp(1,2) by (metis map_of.simps(1) option.distinct(1))
  ultimately show ?thesis using set_x by simp
next
  case False
  let ?steps = "pd_steps def" and ?p = "pending_steps x (pd_steps def) []"
  let ?bs = "topo_sort_pending ?p" and ?D = "done_ids x ?steps"
  note pp = pending_plan [OF steps set_x]
  have "distinct (step_ids ?steps)" using steps by (simp add: good_steps_def)
  then have ok: "gm_ok ?p" using pending_steps_spec [OF _ gm_ok_Nil, of ?steps x] by blast
  note lay = topo_sort_layered [OF ok]
  have r: "run_batches env ?p ?bs tot x = (r, tot', y)" using e False by (simp add: execute_batches_def Let_def)
  have sub: "set (concat ?bs) \<subseteq> set (map fst ?p)" and dcon: "distinct (concat ?bs)"
    using layered_distinct [OF lay] by auto
  have closed: "\<forall>i\<in>set (concat ?bs). \<forall>d\<in>set (pending_deps ?p i). gm_has ?p d \<or> d \<in> ?D"
    using pp(5) sub by blast
  have ord: "batches_ordered ?p {} ?bs" by (rule layered_ordered [OF lay]) simp
  note spec = run_batches_spec [OF r env dcon ord _ closed, unfolded batches_post_def, OF empty_subsetI]
  have "log_ok (plan_deps ?steps) ?D (new_events x y)" if "ex_stream env"
  proof (rule log_ok_cong)
    show "log_ok (pending_deps ?p) ?D (new_events x y)" using spec that by simp
    have "started (new_events x y) \<subseteq> set (concat ?bs)" using spec that by simp
    then show "\<forall>i\<in>started (new_events x y). plan_deps ?steps i = pending_deps ?p i"
      using sub pp(4) by (metis subsetD)
  qed
  moreover have "settled y" unfolding settled_def
  proof
    fix i
    have "status_of y i \<in> {status_of x i, StepDone, StepFailed}" using spec by blast
    moreover have "status_of x i \<in> {StepPending, StepDone, StepFailed}" using set_x unfolding settled_def by blast
    ultimately show "status_of y i \<in> {StepPending, StepDone, StepFailed}" by auto
  qed
  moreover have "(\<forall>s\<in>set ?steps. status_of y (sd_id s) = StepDone) \<or> (\<exists>s\<in>set ?steps. status_of y (sd_id s) = StepFailed)"
    if acyc: "acyclic (dep_edges ?steps)"
      and kn: "\<forall>s\<in>set ?steps. known_step env x (sd_id s) \<and> sd_id s \<noteq> ''''" and rr: "r = Inr ''''"
  proof -
    note cover = pending_covered [OF steps set_x acyc ok]
    have "\<forall>i\<in>set (concat ?bs). known_step env x i \<and> i \<noteq> ''''" using kn pp(3) cover by metis
    then consider "\<forall>i\<in>set (concat ?bs). status_of y i = StepDone"
      | i where "i \<in> set (concat ?bs)" "status_of y i = StepFailed" using spec rr by auto
    then show ?thesis
    proof cases
      case 1
      have "status_of y (sd_id s) = StepDone" if s: "s \<in> set ?steps" for s
      proof (cases "sd_id s \<in> set (concat ?bs)")
        case False
        then have n: "\<not> is_pending x s" using pp(1) [OF s] cover by (metis map_of_eq_None_iff option.distinct(1) set_map)
        have "status_of y (sd_id s) = status_of x (sd_id s)"
          using touches_result [OF run_batches_only [OF env(2), of ?bs x ?p tot]] r False by simp
        then show ?thesis using pp(2) [OF n] by simp
      qed (use 1 in blast)
      then show ?thesis by blast
    next
      case 2
      then show ?thesis using pp(3) sub by blast
    qed
  qed
  ultimately show ?thesis by blast
qed

section \<open>The whole execution\<close>

definition registered :: "'w exec_env \<Rightarrow> bool" where
  "registered env = (agent_names (ex_agent_infos env) \<noteq> {} \<and>
     (\<forall>a\<in>agent_names (ex_agent_infos env). gm_has (ex_agents env) a))"

text \<open>Every step of the plan the state holds is done.\<close>

definition all_steps_done :: "'w exec_state \<Rightarrow> bool" where
  "all_steps_done x = (\<forall>s\<in>set (ps_steps (xs_plan x)). status_of x (sd_id s) = StepDone)"

definition loop_inv :: "'w exec_env \<Rightarrow> plan_def \<Rightarrow> 'w exec_state \<Rightarrow> bool" where
  "loop_inv env def x = (well_formed_plan def (agent_names (ex_agent_infos env)) \<and>
     ps_steps (xs_plan x) = pd_steps def \<and> settled x \<and> ps_status (xs_plan x) = PlanRunning)"

lemma loop_inv_known:
  assumes "loop_inv env def x" "registered env" "s \<in> set (pd_steps def)"
  shows "known_step env x (sd_id s) \<and> sd_id s \<noteq> ''''"
proof -
  have "find_step (pd_steps def) (sd_id s) = Some s"
    using assms by (intro find_step_distinct) (auto simp: loop_inv_def well_formed_plan_def Let_def)
  moreover have "gm_has (ex_agents env) (sd_agent s)"
    using assms unfolding loop_inv_def well_formed_plan_def Let_def registered_def by blast
  moreover have "sd_id s \<noteq> ''''"
    using assms(1,3) unfolding loop_inv_def well_formed_plan_def Let_def by (metis image_eqI set_map)
  ultimately show ?thesis using assms(1) by (simp add: known_step_def loop_inv_def)
qed

lemma reset_result [simp]: "result_of (reset_results ss x) i = result_of x i"
  by (induction ss arbitrary: x) simp_all

lemma find_failed_spec:
  "find_failed x ss = '''' \<Longrightarrow> \<forall>s\<in>set ss. sd_id s \<noteq> '''' \<Longrightarrow>
     \<forall>s\<in>set ss. status_of x (sd_id s) \<noteq> StepFailed"
  by (induction ss) (auto split: if_splits)

lemma pending_status [simp]: "srs_status pending_result = StepPending"
  by (simp add: pending_result_def)

lemma result_drop [simp]:
  "result_of (drop_results A x) i = (if i \<in> A then pending_result else result_of x i)"
proof -
  have "map_of (filter (\<lambda>(j, r). j \<notin> A) m) i = (if i \<in> A then None else map_of m i)"
    for m :: "step_result gomap" by (induction m) auto
  then show ?thesis by (simp add: drop_results_def gm_get_def)
qed

lemma settled_drop: "settled x \<Longrightarrow> settled (drop_results A x)"
  by (simp add: settled_def)

lemma replan_returns:
  assumes "replan_after_failure env def i x = (Returns (Inr nd), y)"
  shows "\<exists>newSteps w. nd = merge_steps def i newSteps \<and> y = drop_results (affected_steps def i) (x\<lparr>xs_world := w\<rparr>)
    \<and> well_formed_plan nd (agent_names (ex_agent_infos env))"
proof (cases "ex_model env")
  case (Some m)
  let ?ms = "[role_message RoleSystem planner_system_prompt, role_message RoleUser (replan_prompt def i x)]"
  obtain r w where c: "model_sync_call m ?ms (xs_world x) = (r, w)" by fastforce
  then obtain reply where "r = Inr reply"
    using assms Some by (cases r) (auto simp: replan_after_failure_def)
  moreover from this c obtain steps where "parse_steps_json (ex_unsteps env) reply = Inr steps"
    using assms Some by (cases "parse_steps_json (ex_unsteps env) reply")
      (auto simp: replan_after_failure_def Let_def)
  ultimately show ?thesis
    using assms Some c validate_None_iff [of "merge_steps def i steps"] validate_errors_Nil_iff [of "merge_steps def i steps"]
    by (auto simp: replan_after_failure_def Let_def split: option.splits)
qed (use assms in \<open>simp add: replan_after_failure_def\<close>)

lemma replan_status:
  "replan_after_failure env def i x = (r, y) \<Longrightarrow> ps_status (xs_plan y) = ps_status (xs_plan x)"
  by (auto simp: replan_after_failure_def Let_def drop_results_def
      split: option.splits prod.splits sum.splits)

lemma replan_round_spec:
  assumes "replan_round env def i tot x = (out, y)" "loop_inv env def x"
  shows "(\<forall>nd u. out = Again nd u \<longrightarrow> loop_inv env nd y) \<and> (\<forall>r. out = Finished r \<longrightarrow> ps_status (xs_plan y) \<noteq> PlanDone)"
proof -
  let ?x = "emit env (PEReplanning i) (x\<lparr>xs_plan := (xs_plan x)\<lparr>ps_replan_count := ps_replan_count (xs_plan x) + 1\<rparr>\<rparr>)"
  obtain r z where r: "replan_after_failure env def i ?x = (r, z)" by fastforce
  have sz: "ps_status (xs_plan z) = PlanRunning"
    using replan_status [OF r] assms(2) by (simp add: loop_inv_def)
  show ?thesis
  proof (cases "\<exists>nd. r = Returns (Inr nd) \<and> \<not> max_replans env < ps_replan_count (xs_plan x) + 1")
    case True
    then obtain nd where nd: "r = Returns (Inr nd)" "\<not> max_replans env < ps_replan_count (xs_plan x) + 1" by blast
    then have out: "out = Again nd tot" "y = z\<lparr>xs_plan := (xs_plan z)\<lparr>ps_steps := pd_steps nd\<rparr>\<rparr>"
      using assms(1) r by (auto simp: replan_round_def Let_def)
    obtain w where z: "z = drop_results (affected_steps def i) (?x\<lparr>xs_world := w\<rparr>)"
      and wf: "well_formed_plan nd (agent_names (ex_agent_infos env))"
      using replan_returns r nd by blast
    have "settled ?x" using assms(2) by (simp add: loop_inv_def settled_def)
    then have "settled (?x\<lparr>xs_world := w\<rparr>)" by (simp add: settled_def)
    then have "settled z" unfolding z by (rule settled_drop)
    then have "settled y" using out by (simp add: settled_def)
    then show ?thesis using out wf sz by (simp add: loop_inv_def)
  next
    case False
    then show ?thesis using assms(1) r sz
      by (auto simp: replan_round_def Let_def split: if_splits go_ret.splits sum.splits)
  qed
qed

lemma exec_round_spec:
  assumes r: "exec_round env def tot x = (out, y)" and inv: "loop_inv env def x"
    and env: "registered env" "ctx_sticky env" "fair_env env"
  shows "(\<forall>nd u. out = Again nd u \<longrightarrow> loop_inv env nd y) \<and>
    (\<forall>res. out = Finished res \<longrightarrow> ps_status (xs_plan y) = PlanDone \<longrightarrow>
       (\<forall>s\<in>set (ps_steps (xs_plan y)). status_of y (sd_id s) = StepDone) \<and>
       (\<exists>pr. res = Returns (Inr (Some pr))))"
proof (cases "ex_ctx env (xs_world x)")
  case (Some e)
  then show ?thesis using r by (auto simp: exec_round_def)
next
  case None
  let ?x0 = "reset_results (pd_steps def) x"
  obtain b u z where b: "execute_batches env def tot ?x0 = (b, u, z)" by (metis prod.exhaust)
  have good: "good_steps (pd_steps def)" and acyc: "acyclic (dep_edges (pd_steps def))"
    using inv by (auto simp: loop_inv_def well_formed_plan_def good_steps_def Let_def)
  have tx: "touches UNIV x ?x0" using reset_touches by (rule touches_mono) simp
  have tz: "touches UNIV ?x0 z" using execute_batches_touches [of ?x0 env def tot] b by simp
  have s0: "settled ?x0" using inv by (simp add: loop_inv_def settled_def)
  have kn: "\<forall>s\<in>set (pd_steps def). known_step env ?x0 (sd_id s) \<and> sd_id s \<noteq> ''''"
    using loop_inv_known [OF inv env(1)] known_touches [OF tx] by blast
  note spec = execute_batches_spec [OF b env(2,3) good s0]
  have z: "loop_inv env def z"
    using inv spec touches_plan(1,3) [OF tz] touches_plan(1,3) [OF tx] by (simp add: loop_inv_def)
  show ?thesis
  proof (cases b)
    case (Inl e)
    then show ?thesis using r None b by (auto simp: exec_round_def)
  next
    case (Inr gate)
    have a: "after_batches env def gate u z = (out, y)" using r None b Inr by (simp add: exec_round_def)
    show ?thesis
    proof (cases "gate = '''' \<and> find_failed z (pd_steps def) = ''''")
      case True
      then have y: "y = emit env (PEDone (pr_final_output (build_result def (set_status PlanDone z) u))) (set_status PlanDone z)"
        "out = Finished (Returns (Inr (Some (build_result def (set_status PlanDone z) u))))"
        using a by (auto simp: after_batches_def Let_def)
      have "\<forall>s\<in>set (pd_steps def). status_of z (sd_id s) \<noteq> StepFailed"
        using True kn by (intro find_failed_spec) auto
      then have "\<forall>s\<in>set (pd_steps def). status_of z (sd_id s) = StepDone"
        using spec acyc kn True Inr by blast
      then show ?thesis using y z by (simp add: loop_inv_def)
    next
      case False
      have "out = Finished res \<Longrightarrow> ps_status (xs_plan y) \<noteq> PlanDone" for res
        using a False z replan_round_spec [OF _ z, of "find_failed z (pd_steps def)" u out y]
        by (auto simp: after_batches_def Let_def loop_inv_def split: if_splits)
      moreover have "out = Again nd t \<Longrightarrow> loop_inv env nd y" for nd t
        using a False replan_round_spec [OF _ z, of "find_failed z (pd_steps def)" u out y]
        by (auto simp: after_batches_def Let_def split: if_splits)
      ultimately show ?thesis by blast
    qed
  qed
qed

lemma exec_loop_done:
  "loop_inv env def x \<Longrightarrow> registered env \<Longrightarrow> ctx_sticky env \<Longrightarrow> fair_env env \<Longrightarrow>
   exec_loop env def tot x = (res, y) \<Longrightarrow> ps_status (xs_plan y) = PlanDone \<Longrightarrow>
     (\<forall>s\<in>set (ps_steps (xs_plan y)). status_of y (sd_id s) = StepDone) \<and>
     (\<exists>pr. res = Returns (Inr (Some pr)))"
proof (induction env def tot x rule: exec_loop.induct)
  case (1 env def tot x)
  obtain out z where e: "exec_round env def tot x = (out, z)" by fastforce
  note spec = exec_round_spec [OF e 1(2-5)]
  show ?case
  proof (cases out)
    case (Finished r')
    then have "res = r'" "y = z" using 1(6) e by (auto simp: exec_loop.simps [of env def tot x])
    then show ?thesis using spec Finished 1(7) by blast
  next
    case (Again d u)
    then have l: "exec_loop env d u z = (res, y)" using 1(6) e by (simp add: exec_loop.simps [of env def tot x])
    have "loop_inv env d z" using spec Again by blast
    from 1(1) [OF e [symmetric] Again this 1(3-5) l 1(7)] show ?thesis .
  qed
qed

lemma replan_no_panic: "ex_model env \<noteq> None \<Longrightarrow> fst (replan_after_failure env def i x) \<noteq> Panics p"
  by (auto simp: replan_after_failure_def Let_def split: prod.splits sum.splits option.splits)

lemma exec_loop_no_panic:
  "ex_model env \<noteq> None \<Longrightarrow> fst (exec_loop env def tot x) \<noteq> Panics p"
proof (induction env def tot x rule: exec_loop.induct)
  case (1 env def tot x)
  obtain out z where e: "exec_round env def tot x = (out, z)" by fastforce
  have "out \<noteq> Finished (Panics p)"
  proof
    assume "out = Finished (Panics p)"
    then have "\<exists>i y. fst (replan_after_failure env def i y) = Panics p"
      using e unfolding exec_round_def after_batches_def replan_round_def Let_def
      by (auto split: option.splits prod.splits sum.splits if_splits go_ret.splits) (metis fst_conv)+
    then show False using replan_no_panic [OF 1(2)] by blast
  qed
  then show ?case using 1 e by (cases out) (auto simp: exec_loop.simps [of env def tot x])
qed

section \<open>Replanning keeps what survives\<close>

lemma replan_keeps:
  assumes r: "replan_after_failure env def i x = (Returns (Inr nd), y)"
    and dom: "fst ` set (xs_results x) \<subseteq> set (step_ids (pd_steps def))"
  shows "well_formed_plan nd (agent_names (ex_agent_infos env)) \<and>
    (\<exists>newSteps. pd_steps nd = surviving_steps def i @ newSteps \<and>
       (\<forall>s\<in>set newSteps. result_of y (sd_id s) = pending_result)) \<and>
    (\<forall>s\<in>set (surviving_steps def i). result_of y (sd_id s) = result_of x (sd_id s))"
proof -
  obtain new w where nd: "nd = merge_steps def i new"
    and y: "y = drop_results (affected_steps def i) (x\<lparr>xs_world := w\<rparr>)"
    and wf: "well_formed_plan nd (agent_names (ex_agent_infos env))"
    using replan_returns [OF r] by blast
  have steps: "pd_steps nd = surviving_steps def i @ new" by (simp add: nd merge_steps_def)
  have res: "result_of y j = (if j \<in> affected_steps def i then pending_result else result_of x j)" for j
    by (simp add: y)
  have new: "result_of y (sd_id s) = pending_result" if s: "s \<in> set new" for s
  proof (cases "sd_id s \<in> affected_steps def i")
    case False
    have "distinct (step_ids (pd_steps nd))" using wf by (simp add: well_formed_plan_def Let_def)
    then have "sd_id s \<notin> set (step_ids (surviving_steps def i))" using s steps by auto
    then have "sd_id s \<notin> set (step_ids (pd_steps def))" using False by (auto simp: surviving_steps_def)
    then have "map_of (xs_results x) (sd_id s) = None" using dom by (auto simp: map_of_eq_None_iff)
    then show ?thesis using res False by (simp add: gm_get_def)
  qed (simp add: res)
  have "result_of y (sd_id s) = result_of x (sd_id s)" if "s \<in> set (surviving_steps def i)" for s
    using that res by (simp add: surviving_steps_def)
  then show ?thesis using wf steps new by blast
qed

section \<open>Attempts\<close>

definition starts :: "plan_event list \<Rightarrow> nat" where
  "starts evs = length (filter (\<lambda>e. case e of PEStepStart i a \<Rightarrow> True | _ \<Rightarrow> False) evs)"

definition failures :: "plan_event list \<Rightarrow> nat" where
  "failures evs = length (filter (\<lambda>e. case e of PEStepFailed i a r t \<Rightarrow> True | _ \<Rightarrow> False) evs)"

lemma starts_simps [simp]:
  "starts [] = 0" "starts (es @ fs) = starts es + starts fs"
  "starts (e # es) = (case e of PEStepStart i a \<Rightarrow> 1 | _ \<Rightarrow> 0) + starts es"
  by (auto simp: starts_def split: plan_event.splits)

lemma failures_simps [simp]:
  "failures [] = 0" "failures (es @ fs) = failures es + failures fs"
  "failures (e # es) = (case e of PEStepFailed i a r t \<Rightarrow> 1 | _ \<Rightarrow> 0) + failures es"
  by (auto simp: failures_def split: plan_event.splits)

lemma forward_events_counts:
  "starts (fst (forward_events i es r)) = 0 \<and> failures (fst (forward_events i es r)) = 0"
proof (induction es arbitrary: r)
  case (Cons e es)
  show ?case by (cases e) (auto simp: Cons Let_def split_beta split: list.splits)
qed simp

lemma attempt_counts:
  assumes "attempt_step env step runner r x = (res, y)" "ex_stream env"
  shows "starts (new_events x y) = 1 \<and> failures (new_events x y) = 0"
proof -
  have "\<exists>evs. new_events x y = PEStepStart (sd_id step) (sd_agent step)
      # fst (forward_events (sd_id step) evs None)"
    using assms unfolding attempt_step_def start_attempt_def call_agent_def Let_def
    by (auto simp: emit_def new_events_def split: prod.splits) (metis fst_conv)
  then show ?thesis using forward_events_counts by force
qed

lemma finish_counts: "starts (new_events x (finish_step env step res x)) = 0"
  by (auto simp: finish_step_def Let_def emit_def new_events_def split: prod.splits sum.splits)

lemma fail_counts: "ex_stream env \<Longrightarrow> starts (new_events x (fail_attempt env step err x)) = 0 \<and>
    failures (new_events x (fail_attempt env step err x)) = 1"
  by (simp add: fail_attempt_def Let_def emit_def new_events_def step_failed_event_def)

lemma exhaust_counts: "ex_stream env \<Longrightarrow> starts (new_events x (exhaust_step env step x)) = 0 \<and>
    failures (new_events x (exhaust_step env step x)) = 1"
  by (simp add: exhaust_step_def Let_def emit_def new_events_def step_failed_event_def)

text \<open>The agent fails every call with an error worth retrying.\<close>

definition always_retryable :: "'w plan_agent \<Rightarrow> bool" where
  "always_retryable runner = (\<forall>s p m w. \<exists>err. fst (pa_stream runner s p m w) = [StreamError err] \<and>
     \<not> is_permanent_error err)"

lemma step_loop_counts:
  assumes "ex_stream env"
  shows "step_loop env step runner rs x = (sr, y) \<Longrightarrow>
    starts (new_events x y) \<le> length rs \<and>
    (always_retryable runner \<longrightarrow> srs_status sr = StepFailed \<and>
       starts (new_events x y) = length rs \<and> failures (new_events x y) = length rs + 1)"
proof (induction rs arbitrary: x)
  case Nil
  then show ?case using exhaust_counts [OF assms, of x step] by (auto simp: Let_def)
next
  case (Cons r rs)
  obtain res z where a: "attempt_step env step runner r x = (res, z)" by fastforce
  note ac = attempt_counts [OF a assms]
  note az = attempt_touches [OF a]
  have retry: "\<exists>err. res = Inl err \<and> \<not> is_permanent_error err" if al: "always_retryable runner"
  proof -
    define x1 where "x1 = start_attempt env step r x"
    obtain err where "fst (pa_stream runner (step_session env (sd_id step))
        [role_message RoleSystem (format_step_context (build_step_context (ps_steps (xs_plan x1))
           (xs_results x1) (sd_id step)))] step_input (xs_world x1)) = [StreamError err]"
      "\<not> is_permanent_error err" using al unfolding always_retryable_def by blast
    then show ?thesis using a assms
      by (auto simp: attempt_step_def Let_def call_agent_def x1_def split: prod.splits)
  qed
  show ?case
  proof (cases res)
    case (Inr rr)
    have "y = finish_step env step rr z" using Cons.prems a Inr by (auto simp: Let_def)
    then have "new_events x y = new_events x z @ new_events z y"
      using new_events_trans [OF az finish_touches] by simp
    then show ?thesis using ac finish_counts [of z env step rr] retry Inr \<open>y = _\<close> by auto
  next
    case (Inl err)
    let ?f = "fail_attempt env step err z"
    have e: "new_events x ?f = new_events x z @ new_events z ?f"
      by (rule new_events_trans [OF az fail_touches])
    note fc = fail_counts [OF assms, of z step err]
    show ?thesis
    proof (cases "is_permanent_error err")
      case True
      then have "y = ?f" using Cons.prems a Inl by (auto simp: Let_def)
      then show ?thesis using e fc ac retry Inl True by auto
    next
      case False
      then have l: "step_loop env step runner rs ?f = (sr, y)"
        using Cons.prems a Inl by (simp add: Let_def)
      have t: "touches {sd_id step} x ?f" by (rule touches_trans [OF az fail_touches])
      have "touches {sd_id step} ?f y" using step_loop_touches [of step ?f env runner rs] l by simp
      then have "new_events x y = new_events x z @ new_events z ?f @ new_events ?f y"
        using new_events_trans [OF t] e by simp
      then show ?thesis using Cons.IH [OF l] fc ac by auto
    qed
  qed
qed

section \<open>A concrete run\<close>

text \<open>One agent that always answers, no deadline, two steps, the second after the first.\<close>

definition ok_agent :: "unit plan_agent" where
  "ok_agent = \<lparr>pa_run = (\<lambda>s p m w. (Inr (empty_run_result\<lparr>rr_final_output := ''ok''\<rparr>), w)),
     pa_stream = (\<lambda>s p m w. ([StreamDone (Some (empty_run_result\<lparr>rr_final_output := ''ok''\<rparr>))], w))\<rparr>"

definition ok_env :: "unit exec_env" where
  "ok_env = \<lparr>ex_config = default_plan_config, ex_agents = [(''w'', ok_agent)],
     ex_agent_infos = [\<lparr>ai_name = ''w'', ai_description = '''', ai_internal = True\<rparr>],
     ex_model = None, ex_session_id = ''s'', ex_ctx = (\<lambda>w. None), ex_stream = True,
     ex_range = (\<lambda>b w. b), ex_sched = (\<lambda>b w. b), ex_unsteps = (\<lambda>t. Inl (ErrText ''bad json''))\<rparr>"

definition chain_plan :: plan_def where
  "chain_plan = \<lparr>pd_goal = ''g'', pd_steps =
     [empty_step\<lparr>sd_id := ''b'', sd_agent := ''w'', sd_depends_on := [''a'']\<rparr>,
      empty_step\<lparr>sd_id := ''a'', sd_agent := ''w''\<rparr>]\<rparr>"

definition fresh_exec :: "plan_def \<Rightarrow> unit exec_state" where
  "fresh_exec def = \<lparr>xs_plan = \<lparr>ps_id = ''s/plan'', ps_goal = pd_goal def, ps_status = PlanApproved,
     ps_steps = pd_steps def, ps_results = [], ps_replan_count = 0\<rparr>, xs_events = [], xs_world = ()\<rparr>"

lemma ok_env_facts: "registered ok_env" "ctx_sticky ok_env" "fair_env ok_env"
  by (auto simp: registered_def ctx_sticky_def fair_env_def ok_env_def agent_names_def gm_has_def)

lemma chain_plan_wf: "well_formed_plan chain_plan (agent_names (ex_agent_infos ok_env))"
proof -
  have "dep_edges (pd_steps chain_plan) = {(''a'', ''b'')}"
    by (auto simp: dep_edges_def chain_plan_def empty_step_def)
  moreover have "acyclic {(''a'', ''b'')}"
    by (auto simp: acyclic_def trancl_insert)
  ultimately show ?thesis
    by (simp add: well_formed_plan_def chain_plan_def empty_step_def deps_closed_def ok_env_def
        agent_names_def)
qed

lemma fresh_settled: "settled (fresh_exec def)"
  by (simp add: settled_def fresh_exec_def gm_get_def)

text \<open>An agent whose every call fails with an error worth retrying.\<close>

definition flaky_agent :: "unit plan_agent" where
  "flaky_agent = \<lparr>pa_run = (\<lambda>s p m w. (Inl (Retryable (ErrText ''busy'') 0), w)),
     pa_stream = (\<lambda>s p m w. ([StreamError (Retryable (ErrText ''busy'') 0)], w))\<rparr>"

definition flaky_env :: "unit exec_env" where
  "flaky_env = ok_env\<lparr>ex_agents := [(''w'', flaky_agent)]\<rparr>"

text \<open>An agent whose every call fails for good.\<close>

definition broken_agent :: "unit plan_agent" where
  "broken_agent = \<lparr>pa_run = (\<lambda>s p m w. (Inl (ErrText ''no''), w)),
     pa_stream = (\<lambda>s p m w. ([StreamError (ErrText ''no'')], w))\<rparr>"

definition broken_env :: "unit exec_env" where
  "broken_env = ok_env\<lparr>ex_agents := [(''w'', broken_agent)]\<rparr>"

definition single_plan :: plan_def where
  "single_plan = \<lparr>pd_goal = ''g'', pd_steps = [empty_step\<lparr>sd_id := ''a'', sd_agent := ''w''\<rparr>]\<rparr>"

section \<open>Properties\<close>

text \<open>
  C3: an execution of a well-formed plan that ends in the status \<^verbatim>\<open>done\<close> has completed every step
  of the plan it ended with, replanned or not, and returns a result.
\<close>

theorem exec_plan_done_all_done:
  assumes "well_formed_plan def (agent_names (ex_agent_infos env))"
    and "ps_steps (xs_plan x) = pd_steps def" and "settled x"
    and "registered env" and "ctx_sticky env" and "fair_env env"
    and "ps_status (xs_plan (snd (exec_plan env def x))) = PlanDone"
  shows "all_steps_done (snd (exec_plan env def x)) \<and>
    (\<exists>pr. fst (exec_plan env def x) = Returns (Inr (Some pr)))"
proof -
  have inv: "loop_inv env def (set_status PlanRunning x)"
    using assms(1-3) by (simp add: loop_inv_def settled_def)
  from exec_loop_done [OF inv assms(4-6), of zero_usage] assms(7) show ?thesis
    unfolding exec_plan_def all_steps_done_def by (metis prod.collapse)
qed

lemma exec_plan_done_all_done_witness:
  "ps_status (xs_plan (snd (exec_plan ok_env chain_plan (fresh_exec chain_plan)))) = PlanDone \<and>
   all_steps_done (snd (exec_plan ok_env chain_plan (fresh_exec chain_plan)))"
proof -
  have run: "ps_status (xs_plan (snd (exec_plan ok_env chain_plan (fresh_exec chain_plan)))) = PlanDone"
    by code_simp
  have "ps_steps (xs_plan (fresh_exec chain_plan)) = pd_steps chain_plan" by (simp add: fresh_exec_def)
  from exec_plan_done_all_done [OF chain_plan_wf this fresh_settled ok_env_facts run] run
  show ?thesis by blast
qed

text \<open>
  C6: within one round no step starts before its dependencies have finished: in the event stream
  every step-start event of a step comes after a step-done event of each dependency that was not
  done before the round.
\<close>

theorem round_starts_after_dependencies:
  assumes "good_steps (pd_steps def)" and "settled x"
    and "ctx_sticky env" and "fair_env env" and "ex_stream env"
  shows "log_ok (plan_deps (pd_steps def)) (done_ids x (pd_steps def))
    (new_events x (snd (snd (execute_batches env def tot x))))"
proof -
  obtain r u y where "execute_batches env def tot x = (r, u, y)" by (metis prod.exhaust)
  from execute_batches_spec [OF this assms(3,4,1,2)] this assms(5) show ?thesis by simp
qed

lemma round_starts_after_dependencies_witness:
  "log_ok (plan_deps (pd_steps chain_plan)) {}
     (xs_events (snd (snd (execute_batches ok_env chain_plan zero_usage (fresh_exec chain_plan)))))"
proof -
  have "good_steps (pd_steps chain_plan)"
    by (simp add: good_steps_def deps_closed_def chain_plan_def empty_step_def)
  moreover have "done_ids (fresh_exec chain_plan) (pd_steps chain_plan) = {}"
    by (simp add: done_ids_def fresh_exec_def gm_get_def)
  moreover have "ex_stream ok_env" by (simp add: ok_env_def)
  ultimately show ?thesis
    using round_starts_after_dependencies [OF _ fresh_settled ok_env_facts(2,3), of chain_plan chain_plan zero_usage]
    by (simp add: new_events_def fresh_exec_def)
qed

text \<open>
  The replan loop ends: the number of replans never exceeds the limit by more than the one
  attempt that is refused.
\<close>

theorem exec_plan_replans_bounded:
  "ps_replan_count (xs_plan (snd (exec_plan env def x)))
     \<le> max (ps_replan_count (xs_plan x)) (max_replans env) + 1"
proof -
  obtain r y where "exec_loop env def zero_usage (set_status PlanRunning x) = (r, y)" by fastforce
  from exec_loop_count [OF this] this show ?thesis by (simp add: exec_plan_def)
qed

text \<open>
  The executor crashes only when it has to replan without a model (which \<^verbatim>\<open>NewPlan\<close> allows):
  a plan with a model never panics.
\<close>

theorem exec_plan_panics_without_model:
  assumes "fst (exec_plan env def x) = Panics p"
  shows "ex_model env = None"
  using assms exec_loop_no_panic unfolding exec_plan_def by blast

lemma exec_plan_panics_without_model_witness:
  "fst (exec_plan broken_env single_plan (fresh_exec single_plan))
     = Panics ''invalid memory address or nil pointer dereference'' \<and> ex_model broken_env = None"
proof -
  have "fst (exec_plan broken_env single_plan (fresh_exec single_plan))
     = Panics ''invalid memory address or nil pointer dereference''" by code_simp
  from exec_plan_panics_without_model [OF this] this show ?thesis by blast
qed

text \<open>
  C22: a successful replan gives a well-formed plan that starts with the surviving steps; their
  results are untouched and every replacement step starts out pending.
\<close>

theorem replan_keeps_survivors:
  assumes "replan_after_failure env def i x = (Returns (Inr nd), y)"
    and "fst ` set (xs_results x) \<subseteq> set (step_ids (pd_steps def))"
  shows "well_formed_plan nd (agent_names (ex_agent_infos env)) \<and>
    (\<exists>newSteps. pd_steps nd = surviving_steps def i @ newSteps \<and>
       (\<forall>s\<in>set newSteps. result_of y (sd_id s) = pending_result)) \<and>
    (\<forall>s\<in>set (surviving_steps def i). result_of y (sd_id s) = result_of x (sd_id s))"
  using assms by (rule replan_keeps)

definition replan_env :: "unit exec_env" where
  "replan_env = ok_env\<lparr>ex_model := Some planner_example_model,
     ex_unsteps := (\<lambda>t. Inr [empty_step\<lparr>sd_id := ''c'', sd_agent := ''w''\<rparr>])\<rparr>"

lemma replan_keeps_survivors_witness:
  "well_formed_plan \<lparr>pd_goal = ''g'', pd_steps =
      [empty_step\<lparr>sd_id := ''a'', sd_agent := ''w''\<rparr>, empty_step\<lparr>sd_id := ''c'', sd_agent := ''w''\<rparr>]\<rparr> {''w''}"
proof -
  let ?nd = "\<lparr>pd_goal = ''g'', pd_steps =
      [empty_step\<lparr>sd_id := ''a'', sd_agent := ''w''\<rparr>, empty_step\<lparr>sd_id := ''c'', sd_agent := ''w''\<rparr>]\<rparr>"
  let ?y = "snd (replan_after_failure replan_env chain_plan ''b'' (fresh_exec chain_plan))"
  have "affected_steps chain_plan ''b'' = {''b''}" by code_simp
  then have "merge_steps chain_plan ''b'' [empty_step\<lparr>sd_id := ''c'', sd_agent := ''w''\<rparr>] = ?nd"
    by (simp add: merge_steps_def surviving_steps_def chain_plan_def empty_step_def)
  moreover have "validate ?nd (agent_names (ex_agent_infos replan_env)) = None" by code_simp
  ultimately have "replan_after_failure replan_env chain_plan ''b'' (fresh_exec chain_plan)
      = (Returns (Inr ?nd), ?y)"
    by (simp add: replan_after_failure_def replan_env_def model_sync_call_def planner_example_model_def
        parse_steps_json_def Let_def)
  from replan_keeps_survivors [OF this] show ?thesis
    by (simp add: fresh_exec_def replan_env_def ok_env_def agent_names_def)
qed

text \<open>
  A step makes at most one attempt more than its retries allow; when its agent keeps failing
  with a retryable error it makes exactly that many, ends as failed, and reports one failure more
  than it made attempts.
\<close>

theorem execute_step_attempts:
  assumes "find_step (ps_steps (xs_plan x)) i = Some step"
    and "map_of (ex_agents env) (sd_agent step) = Some runner" and "ex_stream env"
    and "execute_step env i x = (sr, y)"
  shows "int (starts (new_events x y)) \<le> step_retries step + 1 \<and>
    (always_retryable runner \<longrightarrow> srs_status sr = StepFailed \<and>
       int (starts (new_events x y)) = step_retries step + 1 \<and>
       int (failures (new_events x y)) = step_retries step + 2)"
proof -
  have l: "step_loop env step runner [0..step_retries step] (modify_result i (\<lambda>sr. sr) x) = (sr, y)"
    using assms by (simp add: execute_step_def)
  have "new_events (modify_result i (\<lambda>sr. sr) x) y = new_events x y" by (simp add: new_events_def)
  moreover have "0 \<le> step_retries step" by (simp add: step_retries_def)
  moreover have "int (length [0..step_retries step]) = step_retries step + 1"
    using calculation(2) by simp
  ultimately show ?thesis using step_loop_counts [OF assms(3) l] by (auto simp del: length_upto)
qed

lemma execute_step_attempts_witness:
  "starts (xs_events (snd (execute_step flaky_env ''a'' (fresh_exec single_plan)))) = 4 \<and>
   failures (xs_events (snd (execute_step flaky_env ''a'' (fresh_exec single_plan)))) = 5"
proof -
  let ?x = "fresh_exec single_plan"
  obtain sr y where e: "execute_step flaky_env ''a'' ?x = (sr, y)" by fastforce
  let ?s = "empty_step\<lparr>sd_id := ''a'', sd_agent := ''w''\<rparr>"
  have "find_step (ps_steps (xs_plan ?x)) ''a'' = Some ?s"
    by (simp add: fresh_exec_def single_plan_def empty_step_def)
  moreover have "map_of (ex_agents flaky_env) (sd_agent ?s) = Some flaky_agent"
    by (simp add: flaky_env_def empty_step_def)
  moreover have "ex_stream flaky_env" by (simp add: flaky_env_def ok_env_def)
  moreover have "always_retryable flaky_agent"
    by (simp add: always_retryable_def flaky_agent_def is_permanent_error_def)
  moreover have "step_retries ?s = 3" by (simp add: step_retries_def empty_step_def)
  moreover have "new_events ?x y = xs_events y" by (simp add: new_events_def fresh_exec_def)
  ultimately show ?thesis using execute_step_attempts [OF _ _ _ e, of ?s flaky_agent] e by simp
qed

text \<open>
  A step whose agent is not registered fails without a recorded result, so the execution of an
  unvalidated plan reports \<^verbatim>\<open>done\<close> with the step still pending.
\<close>

lemma unknown_agent_reported_done:
  "ps_status (xs_plan (snd (exec_plan (ok_env\<lparr>ex_agents := []\<rparr>) single_plan (fresh_exec single_plan)))) = PlanDone \<and>
   status_of (snd (exec_plan (ok_env\<lparr>ex_agents := []\<rparr>) single_plan (fresh_exec single_plan))) ''a'' = StepPending"
  by code_simp

end
