(* ===== verification/PlanApi.thy ===== *)
theory PlanApi
  imports PlanExec
begin

text \<open>
  \<^verbatim>\<open>plan/plan.go\<close>: the \<^verbatim>\<open>Plan\<close> object, its options, and its operations: generating a plan,
  executing it with or without events, resuming a paused execution and replanning with feedback.
  The planner is a parameter (the LLM planner of the theory \<open>Planner\<close> is one instance). The
  streaming operations return the list of events they send and the way they end.
\<close>

section \<open>The Plan object\<close>

text \<open>
  \<^verbatim>\<open>Planner\<close>, with the optional streaming variant. The flag of \<open>pl_replan\<close> tells whether a chunk
  callback is passed; the string lists are the chunks handed to the callback.
\<close>

record 'w planner =
  pl_plan :: "string \<Rightarrow> agent_info list \<Rightarrow> message list \<Rightarrow> 'w \<Rightarrow> (go_err + plan_def) go_ret \<times> 'w"
  pl_stream :: "(string \<Rightarrow> agent_info list \<Rightarrow> message list \<Rightarrow> 'w
                   \<Rightarrow> (go_err + plan_def) go_ret \<times> string list \<times> 'w) option"
  pl_replan :: "replan_input \<Rightarrow> bool \<Rightarrow> 'w \<Rightarrow> (go_err + step_def list) go_ret \<times> string list \<times> 'w"

type_synonym 'w plan_approver = "plan_def \<Rightarrow> 'w \<Rightarrow> (bool \<times> string) \<times> 'w"

record 'w plan_obj =
  po_planner :: "'w planner option"
  po_agents :: "'w plan_agent gomap"
  po_infos :: "agent_info list"
  po_model :: "'w chat_model option"
  po_config :: plan_config
  po_approver :: "'w plan_approver option"

datatype 'w plan_option =
    WithPlanner "'w planner"
  | WithAgent string string bool "'w plan_agent"
  | WithModel "'w chat_model"
  | WithConfig plan_config
  | WithMaxConcurrency int
  | WithStepTimeout int
  | WithAutoReplan bool
  | WithPlanApprover "'w plan_approver"

text \<open>The flag of \<open>WithAgent\<close> says whether the runner is an \<^verbatim>\<open>*openagent.Agent\<close>.\<close>

fun apply_option :: "'w plan_obj \<Rightarrow> 'w plan_option \<Rightarrow> 'w plan_obj" where
  "apply_option p (WithPlanner pl) = p\<lparr>po_planner := Some pl\<rparr>"
| "apply_option p (WithAgent name desc internal runner) =
     p\<lparr>po_agents := AList.update name runner (po_agents p),
       po_infos := po_infos p @ [\<lparr>ai_name = name, ai_description = desc, ai_internal = internal\<rparr>]\<rparr>"
| "apply_option p (WithModel m) = p\<lparr>po_model := Some m\<rparr>"
| "apply_option p (WithConfig c) = p\<lparr>po_config := c\<rparr>"
| "apply_option p (WithMaxConcurrency n) = p\<lparr>po_config := (po_config p)\<lparr>pc_max_concurrency := n\<rparr>\<rparr>"
| "apply_option p (WithStepTimeout d) = p\<lparr>po_config := (po_config p)\<lparr>pc_step_timeout := d\<rparr>\<rparr>"
| "apply_option p (WithAutoReplan b) = p\<lparr>po_config := (po_config p)\<lparr>pc_auto_replan := b\<rparr>\<rparr>"
| "apply_option p (WithPlanApprover a) = p\<lparr>po_approver := Some a\<rparr>"

definition new_plan :: "'w plan_option list \<Rightarrow> 'w plan_obj" where
  "new_plan opts = foldl apply_option
     \<lparr>po_planner = None, po_agents = [], po_infos = [], po_model = None,
      po_config = default_plan_config, po_approver = None\<rparr> opts"

text \<open>What comes from outside: the context, the schedulers and the JSON decoder.\<close>

record 'w plan_runtime =
  rt_ctx :: "'w \<Rightarrow> go_err option"
  rt_range :: "string list \<Rightarrow> 'w \<Rightarrow> string list"
  rt_sched :: "string list \<Rightarrow> 'w \<Rightarrow> string list"
  rt_unsteps :: "string \<Rightarrow> go_err + step_def list"

definition plan_env :: "'w plan_obj \<Rightarrow> 'w plan_runtime \<Rightarrow> string \<Rightarrow> bool \<Rightarrow> 'w exec_env" where
  "plan_env p rt sid streaming = \<lparr>ex_config = po_config p, ex_agents = po_agents p,
     ex_agent_infos = po_infos p, ex_model = po_model p, ex_session_id = sid,
     ex_ctx = rt_ctx rt, ex_stream = streaming, ex_range = rt_range rt, ex_sched = rt_sched rt,
     ex_unsteps = rt_unsteps rt\<rparr>"

section \<open>Generating a plan\<close>

text \<open>The checks after the planner has returned: agent references, then the step limit.\<close>

definition check_generated :: "'w plan_obj \<Rightarrow> plan_def \<Rightarrow> go_err + plan_def" where
  "check_generated p def =
     (case validate def (agent_names (po_infos p)) of
        Some e \<Rightarrow> Inl (ErrWrap ''planner produced invalid plan: '' e '''')
      | None \<Rightarrow>
          if pc_max_steps (po_config p) < int (length (pd_steps def))
          then Inl (ErrText (''plan has '' @ int_str (int (length (pd_steps def))) @ '' steps, max is '' @
                 int_str (pc_max_steps (po_config p))))
          else Inr def)"

definition plan_plan ::
  "'w plan_obj \<Rightarrow> string \<Rightarrow> message list \<Rightarrow> 'w \<Rightarrow> (go_err + plan_def) go_ret \<times> 'w" where
  "plan_plan p goal history w =
     (case po_planner p of
        None \<Rightarrow> (Returns (Inl (ErrText ''plan: no Planner configured'')), w)
      | Some pl \<Rightarrow>
          if length (po_agents p) = 0 then (Returns (Inl (ErrText ''plan: no agents configured'')), w)
          else case pl_plan pl goal (po_infos p) history w of
              (Panics s, w') \<Rightarrow> (Panics s, w')
            | (Returns (Inl e), w') \<Rightarrow> (Returns (Inl e), w')
            | (Returns (Inr def), w') \<Rightarrow> (Returns (check_generated p def), w'))"

definition plan_stream ::
  "'w plan_obj \<Rightarrow> string \<Rightarrow> message list \<Rightarrow> 'w \<Rightarrow> (go_err + plan_def) go_ret \<times> string list \<times> 'w" where
  "plan_stream p goal history w =
     (case po_planner p of
        None \<Rightarrow> (Returns (Inl (ErrText ''plan: no Planner configured'')), [], w)
      | Some pl \<Rightarrow>
          if length (po_agents p) = 0 then (Returns (Inl (ErrText ''plan: no agents configured'')), [], w)
          else case pl_stream pl of
              Some sp \<Rightarrow>
                (case sp goal (po_infos p) history w of
                   (Panics s, out, w') \<Rightarrow> (Panics s, out, w')
                 | (Returns (Inl e), out, w') \<Rightarrow> (Returns (Inl e), out, w')
                 | (Returns (Inr def), out, w') \<Rightarrow> (Returns (check_generated p def), out, w'))
            | None \<Rightarrow> (case plan_plan p goal history w of (r, w') \<Rightarrow> (r, [], w')))"

section \<open>Executing a plan\<close>

definition fresh_state :: "string \<Rightarrow> plan_def \<Rightarrow> 'w \<Rightarrow> 'w exec_state" where
  "fresh_state sid def w = \<lparr>xs_plan = \<lparr>ps_id = sid @ ''/plan'', ps_goal = pd_goal def,
     ps_status = PlanApproved, ps_steps = pd_steps def, ps_results = [], ps_replan_count = 0\<rparr>,
     xs_events = [], xs_world = w\<rparr>"

definition run_executor ::
  "'w plan_obj \<Rightarrow> 'w plan_runtime \<Rightarrow> string \<Rightarrow> plan_def \<Rightarrow> bool \<Rightarrow> 'w
     \<Rightarrow> (go_err + plan_result option) go_ret \<times> 'w exec_state" where
  "run_executor p rt sid def streaming w =
     exec_plan (plan_env p rt sid streaming) def (fresh_state sid def w)"

definition ask_approver :: "'w plan_obj \<Rightarrow> plan_def \<Rightarrow> 'w \<Rightarrow> (bool \<times> string) option \<times> 'w" where
  "ask_approver p def w =
     (case po_approver p of
        None \<Rightarrow> (None, w)
      | Some a \<Rightarrow> (case a def w of (r, w') \<Rightarrow> (Some r, w')))"

definition plan_execute ::
  "'w plan_obj \<Rightarrow> 'w plan_runtime \<Rightarrow> string \<Rightarrow> plan_def \<Rightarrow> 'w
     \<Rightarrow> (go_err + plan_result option) go_ret \<times> 'w" where
  "plan_execute p rt sid def w =
     (case ask_approver p def w of
        (Some (False, reason), w') \<Rightarrow> (Returns (Inl (ErrText (''plan rejected: '' @ reason))), w')
      | (_, w') \<Rightarrow> (case run_executor p rt sid def False w' of (r, x) \<Rightarrow> (r, xs_world x)))"

text \<open>The events of a streaming execution, closed by the error event of a failed one.\<close>

definition stream_outcome ::
  "plan_event list \<Rightarrow> (go_err + plan_result option) go_ret \<Rightarrow> plan_event list go_ret" where
  "stream_outcome evs r =
     (case r of
        Panics s \<Rightarrow> Panics s
      | Returns (Inl e) \<Rightarrow> Returns (evs @ [PEError (err_text e)])
      | Returns (Inr pr) \<Rightarrow> Returns evs)"

definition execute_approved ::
  "'w plan_obj \<Rightarrow> 'w plan_runtime \<Rightarrow> string \<Rightarrow> plan_def \<Rightarrow> plan_event list \<Rightarrow> 'w
     \<Rightarrow> plan_event list go_ret \<times> 'w" where
  "execute_approved p rt sid def before w =
     (case ask_approver p def w of
        (Some (False, reason), w') \<Rightarrow> (Returns (before @ [PEError (''plan rejected: '' @ reason)]), w')
      | (a, w') \<Rightarrow>
          let evs = before @ (if a = None then [] else [PEApproved]) in
          case run_executor p rt sid def True w' of
            (r, x) \<Rightarrow> (stream_outcome (evs @ xs_events x) r, xs_world x))"

definition execute_stream ::
  "'w plan_obj \<Rightarrow> 'w plan_runtime \<Rightarrow> string \<Rightarrow> plan_def \<Rightarrow> 'w \<Rightarrow> plan_event list go_ret \<times> 'w" where
  "execute_stream p rt sid def w = execute_approved p rt sid def [] w"

text \<open>Resuming from a state the caller kept.\<close>

definition execute_with_state ::
  "'w plan_obj \<Rightarrow> 'w plan_runtime \<Rightarrow> string \<Rightarrow> plan_def \<Rightarrow> plan_state \<Rightarrow> 'w
     \<Rightarrow> plan_event list go_ret \<times> 'w exec_state" where
  "execute_with_state p rt sid def st w =
     (case exec_plan (plan_env p rt sid True) def \<lparr>xs_plan = st, xs_events = [], xs_world = w\<rparr> of
        (r, x) \<Rightarrow> (stream_outcome (xs_events x) r, x))"

definition plan_run ::
  "'w plan_obj \<Rightarrow> 'w plan_runtime \<Rightarrow> string \<Rightarrow> string \<Rightarrow> message list \<Rightarrow> 'w
     \<Rightarrow> (go_err + plan_result option) go_ret \<times> 'w" where
  "plan_run p rt sid goal history w =
     (case plan_plan p goal history w of
        (Panics s, w') \<Rightarrow> (Panics s, w')
      | (Returns (Inl e), w') \<Rightarrow> (Returns (Inl (ErrWrap ''plan: '' e '''')), w')
      | (Returns (Inr def), w') \<Rightarrow> plan_execute p rt sid def w')"

definition plan_run_stream ::
  "'w plan_obj \<Rightarrow> 'w plan_runtime \<Rightarrow> string \<Rightarrow> string \<Rightarrow> message list \<Rightarrow> 'w
     \<Rightarrow> plan_event list go_ret \<times> 'w" where
  "plan_run_stream p rt sid goal history w =
     (case plan_plan p goal history w of
        (Panics s, w') \<Rightarrow> (Panics s, w')
      | (Returns (Inl e), w') \<Rightarrow> (Returns [PEError (''plan: '' @ err_text e)], w')
      | (Returns (Inr def), w') \<Rightarrow>
          execute_approved p rt sid def [PEGenerated (pd_goal def) def] w')"

section \<open>Replanning with feedback\<close>

definition replan_done_steps :: "plan_def \<Rightarrow> step_result gomap \<Rightarrow> string \<Rightarrow> replan_done_step list" where
  "replan_done_steps def results failedID =
     [\<lparr>rd_id = sd_id s, rd_agent = sd_agent s, rd_summary = srs_summary (gm_get pending_result results (sd_id s))\<rparr>.
        s \<leftarrow> surviving_steps def failedID, srs_status (gm_get pending_result results (sd_id s)) = StepDone]"

definition feedback_input ::
  "'w plan_obj \<Rightarrow> plan_def \<Rightarrow> plan_state \<Rightarrow> string \<Rightarrow> string \<Rightarrow> replan_input" where
  "feedback_input p def st failedID feedback = \<lparr>
     ri_goal = pd_goal def, ri_failed_step_id = failedID,
     ri_failure_error = srs_error (gm_get pending_result (ps_results st) failedID),
     ri_feedback = feedback, ri_done_steps = replan_done_steps def (ps_results st) failedID,
     ri_affected = affected_list def failedID, ri_agents = po_infos p,
     ri_surviving_ids = step_ids (surviving_steps def failedID)\<rparr>"

text \<open>Returns the merged plan and deletes the affected results from the caller's state.\<close>

definition replan_with_feedback_stream ::
  "'w plan_obj \<Rightarrow> plan_def \<Rightarrow> plan_state \<Rightarrow> string \<Rightarrow> string \<Rightarrow> bool \<Rightarrow> 'w
     \<Rightarrow> (go_err + plan_def) go_ret \<times> string list \<times> plan_state \<times> 'w" where
  "replan_with_feedback_stream p def st failedID feedback chunked w =
     (case po_planner p of
        None \<Rightarrow> (Returns (Inl (ErrText ''plan: no Planner configured'')), [], st, w)
      | Some pl \<Rightarrow>
          (case pl_replan pl (feedback_input p def st failedID feedback) chunked w of
             (Panics s, out, w') \<Rightarrow> (Panics s, out, st, w')
           | (Returns (Inl e), out, w') \<Rightarrow> (Returns (Inl e), out, st, w')
           | (Returns (Inr newSteps), out, w') \<Rightarrow>
               (Returns (Inr (merge_steps def failedID newSteps)), out,
                st\<lparr>ps_results := filter (\<lambda>(i, r). i \<notin> affected_steps def failedID) (ps_results st)\<rparr>, w')))"

definition replan_with_feedback ::
  "'w plan_obj \<Rightarrow> plan_def \<Rightarrow> plan_state \<Rightarrow> string \<Rightarrow> string \<Rightarrow> 'w
     \<Rightarrow> (go_err + plan_def) go_ret \<times> string list \<times> plan_state \<times> 'w" where
  "replan_with_feedback p def st failedID feedback w =
     replan_with_feedback_stream p def st failedID feedback False w"

section \<open>The agent registry\<close>

definition registry_ok :: "'w plan_obj \<Rightarrow> bool" where
  "registry_ok p = (agent_names (po_infos p) = fst ` set (po_agents p))"

lemma registry_step: "registry_ok p \<Longrightarrow> registry_ok (apply_option p opt)"
  by (cases opt) (auto simp: registry_ok_def agent_names_def dom_update)

lemma registry_new_plan: "registry_ok (new_plan opts)"
proof -
  have "registry_ok p \<Longrightarrow> registry_ok (foldl apply_option p opts)" for p :: "'a plan_obj"
    by (induction opts arbitrary: p) (auto intro: registry_step)
  then show ?thesis by (simp add: new_plan_def registry_ok_def agent_names_def)
qed

lemma registry_registered:
  "registry_ok p \<Longrightarrow> po_agents p \<noteq> [] \<Longrightarrow> registered (plan_env p rt sid streaming)"
  by (auto simp: registry_ok_def registered_def plan_env_def gm_has_iff)

lemma check_generated_ok:
  "check_generated p def = Inr d \<Longrightarrow> d = def \<and> well_formed_plan def (agent_names (po_infos p)) \<and>
     int (length (pd_steps def)) \<le> pc_max_steps (po_config p)"
  by (auto simp: check_generated_def validate_None_iff validate_errors_Nil_iff
      split: option.splits if_splits)

lemma plan_plan_ok:
  assumes "plan_plan p goal history w = (Returns (Inr def), w')"
  shows "well_formed_plan def (agent_names (po_infos p)) \<and>
    int (length (pd_steps def)) \<le> pc_max_steps (po_config p) \<and> po_agents p \<noteq> []"
  using assms check_generated_ok [of p _ def]
  by (auto simp: plan_plan_def split: option.splits if_splits prod.splits go_ret.splits sum.splits)

section \<open>How an event stream ends\<close>

fun closing :: "plan_event \<Rightarrow> bool" where
  "closing (PEDone t) = True"
| "closing (PEError t) = True"
| "closing (PEWaitingRetry i t) = True"
| "closing _ = False"

definition ends_closed :: "plan_event list go_ret \<Rightarrow> bool" where
  "ends_closed r = (case r of Panics s \<Rightarrow> True | Returns evs \<Rightarrow> evs \<noteq> [] \<and> closing (last evs))"

lemma exec_round_closed:
  assumes "exec_round env def tot x = (Finished (Returns (Inr pr)), y)" "ex_stream env"
  shows "xs_events y \<noteq> [] \<and> closing (last (xs_events y))"
  using assms
  by (auto simp: exec_round_def after_batches_def replan_round_def Let_def emit_def
      split: option.splits prod.splits sum.splits if_splits go_ret.splits)

lemma exec_loop_closed:
  "ex_stream env \<Longrightarrow> exec_loop env def tot x = (Returns (Inr pr), y) \<Longrightarrow>
     xs_events y \<noteq> [] \<and> closing (last (xs_events y))"
proof (induction env def tot x rule: exec_loop.induct)
  case (1 env def tot x)
  obtain out z where e: "exec_round env def tot x = (out, z)" by fastforce
  show ?case
  proof (cases out)
    case (Finished r)
    then show ?thesis using 1(2,3) e exec_round_closed [of env def tot x pr y]
      by (simp add: exec_loop.simps [of env def tot x])
  next
    case (Again d u)
    then show ?thesis using 1(1) [OF e [symmetric] Again 1(2)] 1(3) e
      by (simp add: exec_loop.simps [of env def tot x])
  qed
qed

lemma stream_outcome_closed:
  assumes "exec_plan env def x = (r, y)" "ex_stream env"
  shows "ends_closed (stream_outcome (before @ xs_events y) r)"
  using assms exec_loop_closed [of env def zero_usage "set_status PlanRunning x" _ y]
  by (auto simp: stream_outcome_def ends_closed_def exec_plan_def split: go_ret.splits sum.splits)

lemma plan_env_stream [simp]: "ex_stream (plan_env p rt sid b) = b"
  by (simp add: plan_env_def)

lemma execute_approved_closed: "ends_closed (fst (execute_approved p rt sid def before w))"
proof -
  obtain a w1 where a: "ask_approver p def w = (a, w1)" by fastforce
  obtain r x where r: "run_executor p rt sid def True w1 = (r, x)" by fastforce
  have "ends_closed (stream_outcome (b @ xs_events x) r)" for b
    using stream_outcome_closed [OF r [unfolded run_executor_def], of b] by simp
  from this [of before] this [of "before @ [PEApproved]"]
  have out: "ends_closed (stream_outcome (before @ xs_events x) r)"
    "ends_closed (stream_outcome (before @ PEApproved # xs_events x) r)" by simp_all
  show ?thesis
  proof (cases a)
    case None
    then show ?thesis using a r out by (simp add: execute_approved_def Let_def)
  next
    case (Some v)
    obtain ok reason where "v = (ok, reason)" by fastforce
    then show ?thesis using Some a r out
      by (cases ok) (simp_all add: execute_approved_def Let_def ends_closed_def)
  qed
qed

section \<open>Properties\<close>

text \<open>
  What \<^verbatim>\<open>Plan.Plan\<close> returns is well formed for the registered agents and within the step
  limit, whatever planner is configured; and executing it with the same plan object, if the
  execution ends in the status \<^verbatim>\<open>done\<close>, has completed every step.
\<close>

theorem planned_execution_completes:
  assumes "plan_plan (new_plan opts) goal history w = (Returns (Inr def), w')"
    and "ctx_sticky (plan_env (new_plan opts) rt sid streaming)"
    and "fair_env (plan_env (new_plan opts) rt sid streaming)"
    and "run_executor (new_plan opts) rt sid def streaming v = (r, x)"
  shows "well_formed_plan def (agent_names (po_infos (new_plan opts))) \<and>
    int (length (pd_steps def)) \<le> pc_max_steps (po_config (new_plan opts)) \<and>
    (ps_status (xs_plan x) = PlanDone \<longrightarrow> all_steps_done x)"
proof -
  note ok = plan_plan_ok [OF assms(1)]
  let ?env = "plan_env (new_plan opts) rt sid streaming"
  have inv: "loop_inv ?env def (set_status PlanRunning (fresh_state sid def v))"
    using ok by (simp add: loop_inv_def settled_def fresh_state_def gm_get_def plan_env_def)
  have reg: "registered ?env" using ok registry_registered [OF registry_new_plan] by blast
  have run: "exec_loop ?env def zero_usage (set_status PlanRunning (fresh_state sid def v)) = (r, x)"
    using assms(4) by (simp add: run_executor_def exec_plan_def)
  show ?thesis using ok exec_loop_done [OF inv reg assms(2,3) run] unfolding all_steps_done_def by blast
qed

definition fixed_planner :: "plan_def \<Rightarrow> step_def list \<Rightarrow> unit planner" where
  "fixed_planner def new = \<lparr>pl_plan = (\<lambda>g a h w. (Returns (Inr def), w)), pl_stream = None,
     pl_replan = (\<lambda>inp c w. (Returns (Inr new), [], w))\<rparr>"

definition ok_runtime :: "unit plan_runtime" where
  "ok_runtime = \<lparr>rt_ctx = (\<lambda>w. None), rt_range = (\<lambda>b w. b), rt_sched = (\<lambda>b w. b),
     rt_unsteps = (\<lambda>t. Inl (ErrText ''bad''))\<rparr>"

definition ok_options :: "unit plan_option list" where
  "ok_options = [WithPlanner (fixed_planner chain_plan []), WithAgent ''w'' '''' True ok_agent]"

lemma planned_execution_completes_witness:
  "well_formed_plan chain_plan {''w''} \<and>
   all_steps_done (snd (run_executor (new_plan ok_options) ok_runtime ''s'' chain_plan True ()))"
proof -
  let ?p = "new_plan ok_options"
  let ?x = "snd (run_executor ?p ok_runtime ''s'' chain_plan True ())"
  have names: "agent_names (po_infos ?p) = {''w''}"
    by (simp add: new_plan_def ok_options_def agent_names_def)
  have "validate chain_plan {''w''} = None"
    using chain_plan_wf by (simp add: validate_None_iff validate_errors_Nil_iff ok_env_def agent_names_def)
  then have plan: "plan_plan ?p ''g'' [] () = (Returns (Inr chain_plan), ())"
    by (simp add: plan_plan_def new_plan_def ok_options_def fixed_planner_def check_generated_def
        agent_names_def chain_plan_def default_plan_config_def)
  have "ctx_sticky (plan_env ?p ok_runtime ''s'' True)" "fair_env (plan_env ?p ok_runtime ''s'' True)"
    by (simp_all add: ctx_sticky_def fair_env_def plan_env_def ok_runtime_def)
  moreover have "run_executor ?p ok_runtime ''s'' chain_plan True () =
     (fst (run_executor ?p ok_runtime ''s'' chain_plan True ()), ?x)" by simp
  moreover have "ps_status (xs_plan ?x) = PlanDone" by code_simp
  moreover note names
  ultimately show ?thesis
    using planned_execution_completes [OF plan, of ok_runtime "''s''" True "()" "fst (run_executor ?p ok_runtime ''s'' chain_plan True ())" ?x]
    by presburger
qed

text \<open>
  A streaming execution never just stops: its last event is done, error or waiting for the
  user (unless the executor panics).
\<close>

theorem execute_stream_closed:
  "ends_closed (fst (execute_stream p rt sid def w)) \<and>
   ends_closed (fst (plan_run_stream p rt sid goal history w))"
proof -
  obtain g w1 where g: "plan_plan p goal history w = (g, w1)" by fastforce
  have "ends_closed (fst (plan_run_stream p rt sid goal history w))"
  proof (cases g)
    case (Returns r)
    then show ?thesis using g execute_approved_closed [of p rt sid _ _ w1]
      by (cases r) (simp_all add: plan_run_stream_def, simp add: ends_closed_def)
  qed (use g in \<open>simp add: plan_run_stream_def ends_closed_def\<close>)
  then show ?thesis using execute_approved_closed by (simp add: execute_stream_def)
qed

text \<open>
  Replanning with feedback does not validate the merged plan: a planner that reuses the id of a
  surviving step gives a plan that \<^verbatim>\<open>Validate\<close> refuses.
\<close>

lemma feedback_merge_unvalidated:
  "\<exists>nd st' w'. replan_with_feedback
       (new_plan [WithPlanner (fixed_planner chain_plan [empty_step\<lparr>sd_id := ''a'', sd_agent := ''w''\<rparr>]),
          WithAgent ''w'' '''' True ok_agent])
       chain_plan (xs_plan (fresh_exec chain_plan)) ''b'' ''retry'' () = (Returns (Inr nd), [], st', w') \<and>
     \<not> well_formed_plan nd {''w''}"
proof -
  have "affected_steps chain_plan ''b'' = {''b''}" by code_simp
  then show ?thesis
    by (simp add: replan_with_feedback_def replan_with_feedback_stream_def new_plan_def fixed_planner_def
        merge_steps_def surviving_steps_def chain_plan_def empty_step_def well_formed_plan_def)
qed

end
