(* ===== verification/RunTypes.thy ===== *)
theory RunTypes
  imports Messages
begin

text \<open>
  The agent (\<^verbatim>\<open>agent.go\<close>), the state of one run (\<^verbatim>\<open>runner.go\<close>), and what a run takes from
  outside: the context, the clock, the tokenizer, the JSON decoders of the built-in tools and the
  scheduler of concurrent tool calls.
\<close>

section \<open>The agent\<close>

record prompt_input =
  pi_description :: string
  pi_instructions :: string
  pi_working :: "message list"
  pi_compressed :: "compressed_context option"
  pi_tools :: "function_def list"
  pi_skills :: "skill_info list"
  pi_loaded :: "string gomap"
  pi_user_profile :: string
  pi_project_context :: string

text \<open>
  \<^verbatim>\<open>Agent\<close>; a nil module is \<open>None\<close>. The observer is only notified: the stage events it gets are
  logged in the run state, so the agent just says whether it has one.
\<close>

record 'w agent =
  ag_name :: string
  ag_description :: string
  ag_instructions :: string
  ag_model :: "'w chat_model option"
  ag_tools :: "'w tool list"
  ag_memory :: "'w memory_if option"
  ag_prompt :: "(prompt_input \<Rightarrow> 'w \<Rightarrow> (go_err + message list) \<times> 'w) option"
  ag_in_guard :: "'w guard option"
  ag_out_guard :: "'w guard option"
  ag_approver :: "'w approver option"
  ag_hooks :: "'w run_hooks option"
  ag_observed :: bool
  ag_skill_loader :: "'w skill_loader option"
  ag_max_turns :: int
  ag_max_working_tokens :: int
  ag_no_spawn :: bool

text \<open>\<^verbatim>\<open>NewAgent\<close> before the options are applied.\<close>

definition base_agent :: "string \<Rightarrow> 'w agent" where
  "base_agent name = \<lparr>ag_name = name, ag_description = '''', ag_instructions = '''',
     ag_model = None, ag_tools = [], ag_memory = None, ag_prompt = None, ag_in_guard = None,
     ag_out_guard = None, ag_approver = None, ag_hooks = None, ag_observed = False,
     ag_skill_loader = None, ag_max_turns = 20, ag_max_working_tokens = 0, ag_no_spawn = False\<rparr>"

section \<open>The outside\<close>

record subagent_args =
  sa_name :: string
  sa_description :: string
  sa_prompt :: string
  sa_task :: string

text \<open>
  \<open>rt_sleep\<close> waits for a backoff of the given nanoseconds and reports the context error if the
  context ends first; \<open>rt_fresh\<close> gives a session id for a sub-agent from its name (clock and
  sequence number); \<open>rt_count\<close> is \<^verbatim>\<open>tokenizer.Count\<close> for a non-empty text; the decoders are
  \<^verbatim>\<open>json.Unmarshal\<close> into the argument structs; \<open>rt_order\<close> is the order in which the goroutines
  of concurrent tool calls run, a permutation of their indices; \<open>rt_score\<close> is the \<^verbatim>\<open>%.2f\<close>
  formatting of a relevance score.
\<close>

record 'w runtime =
  rt_ctx :: "'w \<Rightarrow> go_err option"
  rt_sleep :: "int \<Rightarrow> 'w \<Rightarrow> go_err option \<times> 'w"
  rt_fresh :: "string \<Rightarrow> 'w \<Rightarrow> string \<times> 'w"
  rt_count :: "string \<Rightarrow> string \<Rightarrow> nat"
  rt_dec_name :: "string \<Rightarrow> go_err + string"
  rt_dec_query :: "string \<Rightarrow> go_err + string"
  rt_dec_subagent :: "string \<Rightarrow> go_err + subagent_args"
  rt_order :: "nat list \<Rightarrow> 'w \<Rightarrow> nat list"
  rt_score :: "real \<Rightarrow> string"

section \<open>The state of a run\<close>

text \<open>
  The fields of \<^verbatim>\<open>runner\<close>, the events sent on the stream channel (when there is one), the
  stage events reported to the observer, the world, and the messages that reached the memory
  backend's \<^verbatim>\<open>Append\<close> (a ghost: the code does not keep them).
\<close>

record 'w run_state =
  rs_agent :: "'w agent"
  rs_model :: "'w chat_model"
  rs_streaming :: bool
  rs_skills :: "skill_info list"
  rs_loaded :: "string gomap option"
  rs_builtin :: "function_def list"
  rs_compressed :: "compressed_context option"
  rs_events :: "stream_event list"
  rs_stages :: "stage_event list"
  rs_stored :: "message list"
  rs_world :: 'w

definition send :: "stream_event \<Rightarrow> 'w run_state \<Rightarrow> 'w run_state" where
  "send e s = (if rs_streaming s then s\<lparr>rs_events := rs_events s @ [e]\<rparr> else s)"

definition observe ::
  "string \<Rightarrow> phase \<Rightarrow> (string \<times> detail) list \<Rightarrow> go_err option \<Rightarrow> 'w run_state \<Rightarrow> 'w run_state" where
  "observe name ph det err s =
     (if ag_observed (rs_agent s)
      then s\<lparr>rs_stages := rs_stages s @ [\<lparr>se_name = name, se_phase = ph, se_detail = det, se_err = err\<rparr>]\<rparr>
      else s)"

text \<open>A call of a foreign function on the world of the run.\<close>

definition on_world :: "('w \<Rightarrow> 'a \<times> 'w) \<Rightarrow> 'w run_state \<Rightarrow> 'a \<times> 'w run_state" where
  "on_world f s = (case f (rs_world s) of (a, w) \<Rightarrow> (a, s\<lparr>rs_world := w\<rparr>))"

lemma on_world_sel [simp]:
  "on_world f s = (a, s') \<Longrightarrow> rs_events s' = rs_events s"
  "on_world f s = (a, s') \<Longrightarrow> rs_stored s' = rs_stored s"
  "on_world f s = (a, s') \<Longrightarrow> rs_agent s' = rs_agent s"
  "on_world f s = (a, s') \<Longrightarrow> rs_streaming s' = rs_streaming s"
  "on_world f s = (a, s') \<Longrightarrow> rs_model s' = rs_model s"
  "on_world f s = (a, s') \<Longrightarrow> rs_loaded s' = rs_loaded s"
  "on_world f s = (a, s') \<Longrightarrow> rs_skills s' = rs_skills s"
  by (auto simp: on_world_def split: prod.splits)

lemma on_world_fst: "on_world f s = (a, s') \<Longrightarrow> fst (f (rs_world s)) = a"
  by (cases "f (rs_world s)") (simp add: on_world_def)

lemma send_sel [simp]:
  "rs_stored (send e s) = rs_stored s" "rs_world (send e s) = rs_world s"
  "rs_agent (send e s) = rs_agent s" "rs_streaming (send e s) = rs_streaming s"
  "rs_model (send e s) = rs_model s" "rs_loaded (send e s) = rs_loaded s"
  "rs_skills (send e s) = rs_skills s" "rs_builtin (send e s) = rs_builtin s"
  "rs_compressed (send e s) = rs_compressed s" "rs_stages (send e s) = rs_stages s"
  "rs_events (send e s) = rs_events s @ (if rs_streaming s then [e] else [])"
  by (simp_all add: send_def)

lemma observe_sel [simp]:
  "rs_stored (observe n p d e s) = rs_stored s" "rs_world (observe n p d e s) = rs_world s"
  "rs_agent (observe n p d e s) = rs_agent s" "rs_streaming (observe n p d e s) = rs_streaming s"
  "rs_model (observe n p d e s) = rs_model s" "rs_loaded (observe n p d e s) = rs_loaded s"
  "rs_skills (observe n p d e s) = rs_skills s" "rs_builtin (observe n p d e s) = rs_builtin s"
  "rs_compressed (observe n p d e s) = rs_compressed s" "rs_events (observe n p d e s) = rs_events s"
  by (simp_all add: observe_def)

definition stage_memory_fetch :: string where "stage_memory_fetch = ''memory.fetch''"
definition stage_guard_in :: string where "stage_guard_in = ''guard.in''"
definition stage_prompt_build :: string where "stage_prompt_build = ''prompt.build''"
definition stage_model_call :: string where "stage_model_call = ''model.call''"
definition stage_guard_out :: string where "stage_guard_out = ''guard.out''"
definition stage_tool_execute :: string where "stage_tool_execute = ''tool.execute''"
definition stage_memory_append :: string where "stage_memory_append = ''memory.append''"

text \<open>\<^verbatim>\<open>appendMemory\<close>.\<close>

definition append_memory :: "'w session \<Rightarrow> message \<Rightarrow> 'w run_state \<Rightarrow> 'w run_state" where
  "append_memory ses m s =
     (if msg_transient m then s
      else case ag_memory (rs_agent s) of
          None \<Rightarrow> s
        | Some mem \<Rightarrow>
            let s1 = observe stage_memory_append Enter [] None s in
            case on_world (mem_append mem (ses_id ses) m) s1 of (err, s2) \<Rightarrow>
              observe stage_memory_append Leave [] err (s2\<lparr>rs_stored := rs_stored s2 @ [m]\<rparr>))"

section \<open>What an operation may change\<close>

text \<open>
  The operations below the loop send no terminal event, keep the model, the streaming flag and
  the agent up to its tools, and store nothing in the memory.
\<close>

definition same_agent :: "'w agent \<Rightarrow> 'w agent \<Rightarrow> bool" where
  "same_agent a b = (a\<lparr>ag_tools := []\<rparr> = b\<lparr>ag_tools := []\<rparr>)"

lemma same_agent_refl [simp]: "same_agent a a"
  by (simp add: same_agent_def)

lemma same_agent_tools [simp]: "same_agent a (b\<lparr>ag_tools := ts\<rparr>) = same_agent a b"
  by (simp add: same_agent_def)

lemma same_agent_trans: "same_agent a b \<Longrightarrow> same_agent b c \<Longrightarrow> same_agent a c"
  by (simp add: same_agent_def)

lemma same_agent_sel:
  assumes "same_agent a b"
  shows "ag_memory b = ag_memory a" "ag_out_guard b = ag_out_guard a" "ag_in_guard b = ag_in_guard a"
    "ag_name b = ag_name a" "ag_hooks b = ag_hooks a" "ag_prompt b = ag_prompt a"
proof -
  have "f (a\<lparr>ag_tools := []\<rparr>) = f (b\<lparr>ag_tools := []\<rparr>)" for f :: "'a agent \<Rightarrow> 'b"
    using assms by (simp add: same_agent_def)
  from this [of ag_memory] this [of ag_out_guard] this [of ag_in_guard]
    this [of ag_name] this [of ag_hooks] this [of ag_prompt]
  show "ag_memory b = ag_memory a" "ag_out_guard b = ag_out_guard a" "ag_in_guard b = ag_in_guard a"
    "ag_name b = ag_name a" "ag_hooks b = ag_hooks a" "ag_prompt b = ag_prompt a" by simp_all
qed

definition quiet :: "'w run_state \<Rightarrow> 'w run_state \<Rightarrow> bool" where
  "quiet s t = (rs_streaming t = rs_streaming s \<and> rs_model t = rs_model s \<and>
     rs_stored t = rs_stored s \<and> same_agent (rs_agent s) (rs_agent t) \<and>
     (\<exists>es. rs_events t = rs_events s @ es \<and> (\<forall>e\<in>set es. \<not> is_terminal e) \<and>
        (\<not> rs_streaming s \<longrightarrow> es = [])))"

named_theorems quiet_intros

lemma quiet_refl [quiet_intros]: "quiet s s"
  by (simp add: quiet_def)

lemma quiet_trans: "quiet s t \<Longrightarrow> quiet t u \<Longrightarrow> quiet s u"
  unfolding quiet_def by (elim conjE exE) (auto simp: ball_Un intro: same_agent_trans)

lemma quiet_send [quiet_intros]: "quiet s t \<Longrightarrow> \<not> is_terminal e \<Longrightarrow> quiet s (send e t)"
  by (auto simp: quiet_def)

lemma quiet_observe [quiet_intros]: "quiet s t \<Longrightarrow> quiet s (observe n p d e t)"
  by (simp add: quiet_def)

lemma quiet_on_world: "on_world f t = (a, u) \<Longrightarrow> quiet s t \<Longrightarrow> quiet s u"
  unfolding quiet_def by (metis on_world_sel(1,2,3,4,5))

lemma quiet_fields [quiet_intros]:
  "quiet s t \<Longrightarrow> quiet s (t\<lparr>rs_loaded := l\<rparr>)" "quiet s t \<Longrightarrow> quiet s (t\<lparr>rs_skills := k\<rparr>)"
  "quiet s t \<Longrightarrow> same_agent (rs_agent s) a \<Longrightarrow> quiet s (t\<lparr>rs_agent := a\<rparr>)"
  "quiet s t \<Longrightarrow> quiet s (t\<lparr>rs_builtin := b\<rparr>)"
  "quiet s t \<Longrightarrow> quiet s (t\<lparr>rs_compressed := c\<rparr>)" "quiet s t \<Longrightarrow> quiet s (t\<lparr>rs_world := w\<rparr>)"
  by (simp_all add: quiet_def)

end
