(* ===== verification/Router.thy ===== *)
theory Router
  imports PlanTypes RunTypes
begin

text \<open>
  \<^verbatim>\<open>router.go\<close>: the router interface, \<^verbatim>\<open>FirstAgentRouter\<close> and \<^verbatim>\<open>LLMRouter\<close>.
\<close>

record route_result =
  rte_agent :: string
  rte_fallback :: bool
  rte_reason :: string

record handoff_entry =
  he_from :: string
  he_to :: string
  he_message :: string

record 'w router =
  ro_route :: "message \<Rightarrow> agent_info list \<Rightarrow> 'w \<Rightarrow> (go_err + route_result) \<times> 'w"
  ro_can_handoff :: "handoff_entry \<Rightarrow> handoff_entry list \<Rightarrow> 'w session \<Rightarrow> 'w \<Rightarrow> go_err option \<times> 'w"

definition sure_route :: "string \<Rightarrow> route_result" where
  "sure_route n = \<lparr>rte_agent = n, rte_fallback = False, rte_reason = ''''\<rparr>"

definition fallback_route :: "string \<Rightarrow> string \<Rightarrow> route_result" where
  "fallback_route n reason = \<lparr>rte_agent = n, rte_fallback = True, rte_reason = reason\<rparr>"

definition no_agents_error :: go_err where
  "no_agents_error = ErrText ''team has no agents''"

definition first_route :: "message \<Rightarrow> agent_info list \<Rightarrow> 'w \<Rightarrow> (go_err + route_result) \<times> 'w" where
  "first_route input agents w =
     (case agents of [] \<Rightarrow> (Inl no_agents_error, w) | a # as \<Rightarrow> (Inr (sure_route (ai_name a)), w))"

definition never_veto :: "handoff_entry \<Rightarrow> handoff_entry list \<Rightarrow> 'w session \<Rightarrow> 'w \<Rightarrow> go_err option \<times> 'w" where
  "never_veto entry chain ses w = (None, w)"

definition first_agent_router :: "'w router" where
  "first_agent_router = \<lparr>ro_route = first_route, ro_can_handoff = never_veto\<rparr>"

definition build_router_prompt :: "agent_info list \<Rightarrow> string" where
  "build_router_prompt agents =
     ''You are a router. Given a user message, pick the best agent.'' @ nl @ nl @ ''Agents:'' @ nl @
     concat (map (\<lambda>a. ''- '' @ ai_name a @ '': '' @ ai_description a @ nl) agents) @
     nl @ ''Reply with ONLY the agent name (one word).''"

definition contains_word :: "string \<Rightarrow> string \<Rightarrow> bool" where
  "contains_word s word = str_contains s word"

text \<open>The first agent the loop stops at.\<close>

definition first_with :: "(string \<Rightarrow> bool) \<Rightarrow> agent_info list \<Rightarrow> string option" where
  "first_with p agents = map_option ai_name (List.find (\<lambda>a. p (ai_name a)) agents)"

text \<open>The decision from the model's reply.\<close>

definition route_reply :: "agent_info list \<Rightarrow> string \<Rightarrow> route_result" where
  "route_reply agents chosen =
     (case first_with (\<lambda>n. n = chosen) agents of
        Some n \<Rightarrow> sure_route n
      | None \<Rightarrow>
          (case first_with (contains_word chosen) agents of
             Some n \<Rightarrow> fallback_route n
               (''fuzzy matched '' @ go_quote n @ '' from response '' @ go_quote chosen)
           | None \<Rightarrow> fallback_route (ai_name (hd agents)) (''unrecognized response '' @ go_quote chosen)))"

definition route_request :: "message \<Rightarrow> agent_info list \<Rightarrow> chat_request" where
  "route_request input agents =
     \<lparr>req_model = '''', req_messages = [role_message RoleSystem (build_router_prompt agents),
        role_message RoleUser (msg_content input)], req_tools = [], req_temperature = None,
      req_max_tokens = 64\<rparr>"

definition llm_route ::
  "'w chat_model \<Rightarrow> message \<Rightarrow> agent_info list \<Rightarrow> 'w \<Rightarrow> (go_err + route_result) \<times> 'w" where
  "llm_route mdl input agents w =
     (case agents of
        [] \<Rightarrow> (Inl no_agents_error, w)
      | [a] \<Rightarrow> (Inr (sure_route (ai_name a)), w)
      | a # as \<Rightarrow>
          (case m_chat mdl (route_request input agents) w of
             (Inl e, w1) \<Rightarrow> (Inr (fallback_route (ai_name a) (''model error: '' @ err_text e)), w1)
           | (Inr resp, w1) \<Rightarrow>
               (case resp_choices resp of
                  [] \<Rightarrow> (Inr (fallback_route (ai_name a) ''model returned no choices''), w1)
                | c # cs \<Rightarrow> (Inr (route_reply agents (msg_content (ch_message c))), w1))))"

definition llm_router :: "'w chat_model \<Rightarrow> 'w router" where
  "llm_router mdl = \<lparr>ro_route = llm_route mdl, ro_can_handoff = never_veto\<rparr>"

lemma first_with_member: "first_with p agents = Some n \<Longrightarrow> n \<in> ai_name ` set agents \<and> p n"
  by (auto simp: first_with_def find_Some_iff)

lemma first_with_None: "first_with p agents = None \<longleftrightarrow> {a \<in> set agents. p (ai_name a)} = {}"
  by (auto simp: first_with_def find_None_iff)

lemma route_reply_member: "agents \<noteq> [] \<Longrightarrow> rte_agent (route_reply agents c) \<in> ai_name ` set agents"
  by (cases agents) (auto simp: route_reply_def sure_route_def fallback_route_def
      split: option.splits dest!: first_with_member)

text \<open>
  The LLM router never fails on a non-empty team and always names a member of it, whatever the
  model does; when the model answers with the name of a member it is that member, without
  fallback.
\<close>

theorem llm_route_names_member:
  assumes "agents \<noteq> []"
  shows "\<exists>r w'. llm_route mdl input agents w = (Inr r, w') \<and> rte_agent r \<in> ai_name ` set agents \<and>
    (\<forall>resp c cs. 1 < length agents \<and> fst (m_chat mdl (route_request input agents) w) = Inr resp \<and>
       resp_choices resp = c # cs \<and> msg_content (ch_message c) \<in> ai_name ` set agents \<longrightarrow>
       r = sure_route (msg_content (ch_message c)))"
proof -
  have exact: "route_reply agents n = sure_route n" if "n \<in> ai_name ` set agents" for n
    using that first_with_member [of "\<lambda>x. x = n" agents]
    by (auto simp: route_reply_def first_with_None split: option.splits)
  obtain a as where a: "agents = a # as" using assms by (cases agents) auto
  obtain m w1 where m: "m_chat mdl (route_request input agents) w = (m, w1)" by fastforce
  note mem = route_reply_member [OF assms]
  show ?thesis
  proof (cases as)
    case Nil
    then show ?thesis using a by (simp add: llm_route_def sure_route_def)
  next
    case (Cons b bs)
    show ?thesis
    proof (cases m)
      case (Inl e)
      then show ?thesis using a Cons m by (simp add: llm_route_def fallback_route_def)
    next
      case (Inr resp)
      then show ?thesis using a Cons m mem exact
        by (cases "resp_choices resp") (auto simp: llm_route_def fallback_route_def)
    qed
  qed
qed

definition two_infos :: "agent_info list" where
  "two_infos = [\<lparr>ai_name = ''a'', ai_description = '''', ai_internal = True\<rparr>,
     \<lparr>ai_name = ''b'', ai_description = '''', ai_internal = False\<rparr>]"

definition fuzzy_model :: "nat chat_model" where
  "fuzzy_model = \<lparr>m_chat = (\<lambda>req n. (Inr \<lparr>resp_choices = [\<lparr>ch_index = 0,
        ch_message = role_message RoleAssistant ''use b'', ch_finish_reason = ''stop''\<rparr>],
        resp_usage = zero_usage\<rparr>, n + 1)),
     m_stream = (\<lambda>req n. (Inr None, n)), m_context_window = 0, m_tokenizer_model = None\<rparr>"

lemma llm_route_names_member_witness:
  "\<exists>r w'. llm_route fuzzy_model (user_message ''x'') two_infos 0 = (Inr r, w') \<and>
     rte_agent r \<in> {''a'', ''b''}"
  using llm_route_names_member [of two_infos fuzzy_model "user_message ''x''" 0]
  by (auto simp: two_infos_def)

end
