(* ===== verification/Tokens.thy ===== *)
theory Tokens
  imports RunTypes
begin

text \<open>
  The token budget of \<^verbatim>\<open>runner.go\<close>: counting, the working budget, fetching the working set with
  compaction, and the last-resort truncation to the context window.
\<close>

section \<open>Counting\<close>

definition tok_count :: "'w runtime \<Rightarrow> string \<Rightarrow> string \<Rightarrow> int" where
  "tok_count rt mid t = (if t = '''' then 0 else int (rt_count rt mid t))"

definition tokenizer_model_id :: "'w chat_model \<Rightarrow> string" where
  "tokenizer_model_id mdl =
     (case m_tokenizer_model mdl of Some name \<Rightarrow> if name \<noteq> '''' then name else ''gpt-4'' | None \<Rightarrow> ''gpt-4'')"

definition count_message_tokens :: "'w runtime \<Rightarrow> string \<Rightarrow> message \<Rightarrow> int" where
  "count_message_tokens rt mid m =
     tok_count rt mid (msg_content m) + tok_count rt mid (msg_reasoning m) +
     sum_list (map (\<lambda>c. tok_count rt mid (tc_name c) + tok_count rt mid (tc_args c)) (msg_tool_calls m)) + 4"

definition count_messages :: "'w runtime \<Rightarrow> string \<Rightarrow> message list \<Rightarrow> int" where
  "count_messages rt mid ms = sum_list (map (count_message_tokens rt mid) ms)"

lemma tok_count_nonneg [simp]: "0 \<le> tok_count rt mid t"
  by (simp add: tok_count_def)

lemma count_message_pos: "4 \<le> count_message_tokens rt mid m"
proof -
  have "0 \<le> sum_list (map (\<lambda>c. tok_count rt mid (tc_name c) + tok_count rt mid (tc_args c)) cs)" for cs
    by (induction cs) simp_all
  then show ?thesis by (simp add: count_message_tokens_def)
qed

lemma count_messages_nonneg: "0 \<le> count_messages rt mid ms"
proof (induction ms)
  case (Cons m ms)
  then show ?case using count_message_pos [of rt mid m] by (simp add: count_messages_def)
qed (simp add: count_messages_def)

definition working_token_budget :: "'w run_state \<Rightarrow> int" where
  "working_token_budget s =
     (if 0 < ag_max_working_tokens (rs_agent s) then ag_max_working_tokens (rs_agent s)
      else if 0 < m_context_window (rs_model s) then m_context_window (rs_model s) * 7 div 10
      else 20000)"

section \<open>The working set\<close>

text \<open>
  The backward loop of \<^verbatim>\<open>prepareMemory\<close>: \<open>overflow_loop budget counts i tokens\<close> with the counts of
  the messages from index \<open>i - 1\<close> down; \<open>None\<close> when it ends without a break.
\<close>

fun overflow_loop :: "int \<Rightarrow> int list \<Rightarrow> int \<Rightarrow> nat option" where
  "overflow_loop budget [] tokens = None"
| "overflow_loop budget (c # cs) tokens =
     (if budget < tokens + c then Some (length cs + 1) else overflow_loop budget cs (tokens + c))"

definition overflow_index :: "int \<Rightarrow> int list \<Rightarrow> nat" where
  "overflow_index budget counts =
     (case overflow_loop budget (rev counts) 0 of Some i \<Rightarrow> i | None \<Rightarrow> length counts)"

record compaction_info =
  ci_err :: "go_err option"
  ci_count :: int
  ci_from :: int
  ci_to :: int

definition no_compaction :: compaction_info where
  "no_compaction = \<lparr>ci_err = None, ci_count = 0, ci_from = 0, ci_to = 0\<rparr>"

text \<open>\<^verbatim>\<open>cc.ThroughIndex\<close> of the stored context, 0 without one (errors ignored).\<close>

definition through_index :: "'w memory_if \<Rightarrow> string \<Rightarrow> 'w run_state \<Rightarrow> int option \<times> 'w run_state" where
  "through_index mem sid s =
     (case on_world (mem_compressed mem sid) s of
        (Inr (Some cc), s') \<Rightarrow> (Some (cc_through_index cc), s')
      | (_, s') \<Rightarrow> (None, s'))"

definition compact_overflow ::
  "'w memory_if \<Rightarrow> string \<Rightarrow> int \<Rightarrow> int \<Rightarrow> message list \<Rightarrow> 'w run_state \<Rightarrow> compaction_info \<times> 'w run_state" where
  "compact_overflow mem sid globalOffset overflow msgs s =
     (case through_index mem sid s of (old, s1) \<Rightarrow>
        let oldTI = (case old of Some i \<Rightarrow> i | None \<Rightarrow> 0) in
        case on_world (mem_compact mem sid (globalOffset + overflow) (Some msgs)) s1 of
          (Some e, s2) \<Rightarrow> (no_compaction\<lparr>ci_err := Some e\<rparr>, s2)
        | (None, s2) \<Rightarrow>
            (case through_index mem sid s2 of
               (Some ti, s3) \<Rightarrow>
                 (if oldTI < ti
                  then no_compaction\<lparr>ci_count := ti - oldTI, ci_from := globalOffset + oldTI,
                         ci_to := globalOffset + ti\<rparr>
                  else no_compaction, s3)
             | (None, s3) \<Rightarrow> (no_compaction, s3)))"

definition prepare_memory ::
  "'w runtime \<Rightarrow> 'w session \<Rightarrow> 'w run_state \<Rightarrow> (message list \<times> compaction_info) \<times> 'w run_state" where
  "prepare_memory rt ses s =
     (case ag_memory (rs_agent s) of
        None \<Rightarrow> (([], no_compaction), s)
      | Some mem \<Rightarrow>
          let sid = ses_id ses; budget = working_token_budget s in
          case on_world (mem_count mem sid) s of
            (Inl e, s1) \<Rightarrow>
              (([], no_compaction), observe stage_memory_fetch Leave [(''error'', DText (err_text e))] (Some e) s1)
          | (Inr totalCount, s1) \<Rightarrow>
              if totalCount = 0 then (([], no_compaction), s1)
              else
                let fetchN = (if 5000 < totalCount then 5000 else totalCount) in
                case on_world (mem_recent mem sid fetchN 0) s1 of
                  (Inl e, s2) \<Rightarrow> (([], no_compaction), s2)
                | (Inr msgs, s2) \<Rightarrow>
                    if msgs = [] then (([], no_compaction), s2)
                    else
                      let globalOffset = totalCount - int (length msgs);
                          counts = map (count_message_tokens rt (tokenizer_model_id (rs_model s))) msgs;
                          overflow = overflow_index budget counts
                      in if length msgs \<le> overflow then ((msgs, no_compaction), s2)
                         else
                           let overflow' = safe_compression_boundary msgs (int overflow) in
                           case compact_overflow mem sid globalOffset overflow' msgs s2 of (ci, s3) \<Rightarrow>
                             ((if int (length msgs) \<le> overflow' then msgs else drop (nat overflow') msgs, ci), s3))"

section \<open>The last resort\<close>

abbreviation is_tool_msg :: "message \<Rightarrow> bool" where
  "is_tool_msg m \<equiv> msg_role m = RoleTool"

text \<open>The loop that drops the oldest message and the orphaned tool results behind it.\<close>

function trim_loop :: "'w runtime \<Rightarrow> string \<Rightarrow> int \<Rightarrow> message list \<Rightarrow> message list" where
  "trim_loop rt mid budget rest =
     (if 2 < length rest \<and> budget < count_messages rt mid rest
      then trim_loop rt mid budget (dropWhile is_tool_msg (tl rest)) else rest)"
  by pat_completeness auto
termination
  by (relation "measure (\<lambda>(rt, mid, budget, rest). length rest)")
     (auto intro: le_less_trans [OF length_dropWhile_le])

declare trim_loop.simps [simp del]

text \<open>The loop that makes the first message a user message.\<close>

function user_front :: "message list \<Rightarrow> message list" where
  "user_front [] = []"
| "user_front (m # rest) =
     (if msg_role m = RoleUser then m # rest
      else if msg_role m = RoleAssistant \<and> 0 < length (msg_tool_calls m)
      then user_front (dropWhile is_tool_msg rest)
      else user_front rest)"
  by pat_completeness auto
termination
  by (relation "measure length") (auto intro: le_less_trans [OF length_dropWhile_le])

definition trim_budget :: "'w runtime \<Rightarrow> string \<Rightarrow> message list \<Rightarrow> int \<Rightarrow> int" where
  "trim_budget rt mid sys window =
     (let budget = window * 95 div 100 - count_messages rt mid sys
      in if budget \<le> 0 then window div 4 else budget)"

definition is_system :: "message \<Rightarrow> bool" where
  "is_system m = (msg_role m = RoleSystem)"

definition trim_to_context_window :: "'w runtime \<Rightarrow> string \<Rightarrow> message list \<Rightarrow> int \<Rightarrow> message list" where
  "trim_to_context_window rt mid messages window =
     (if window \<le> 0 \<or> length messages = 0 then messages
      else
        let sys = filter is_system messages;
            rest = filter (\<lambda>m. \<not> is_system m) messages
        in sys @ user_front (trim_loop rt mid (trim_budget rt mid sys window) rest))"

section \<open>Lemmas\<close>

lemma dropWhile_suffix: "suffix (dropWhile P xs) xs"
  by (metis suffix_def takeWhile_dropWhile_id)

lemma suffix_tl_dropWhile: "suffix (dropWhile P (tl xs)) xs"
  using dropWhile_suffix [of P "tl xs"] suffix_order.trans suffix_tl by blast

lemma trim_loop_suffix: "suffix (trim_loop rt mid b rest) rest"
proof (induction rt mid b rest rule: trim_loop.induct)
  case (1 rt mid b rest)
  show ?case
  proof (cases "2 < length rest \<and> b < count_messages rt mid rest")
    case True
    then have "trim_loop rt mid b rest = trim_loop rt mid b (dropWhile is_tool_msg (tl rest))"
      by (subst trim_loop.simps) simp
    then show ?thesis using 1 [OF True] suffix_tl_dropWhile suffix_order.trans by metis
  next
    case False
    then show ?thesis by (subst trim_loop.simps) auto
  qed
qed

lemma trim_loop_fits:
  "count_messages rt mid (trim_loop rt mid b rest) \<le> b \<or> length (trim_loop rt mid b rest) \<le> 2"
proof (induction rt mid b rest rule: trim_loop.induct)
  case (1 rt mid b rest)
  show ?case
  proof (cases "2 < length rest \<and> b < count_messages rt mid rest")
    case True
    then have "trim_loop rt mid b rest = trim_loop rt mid b (dropWhile is_tool_msg (tl rest))"
      by (subst trim_loop.simps) simp
    then show ?thesis using 1 [OF True] by simp
  next
    case False
    then have "trim_loop rt mid b rest = rest" by (subst trim_loop.simps) auto
    then show ?thesis using False by auto
  qed
qed

lemma user_front_suffix: "suffix (user_front rest) rest"
proof (induction rest rule: user_front.induct)
  case (2 m rest)
  have "suffix (user_front (dropWhile is_tool_msg rest)) rest"
    if "msg_role m \<noteq> RoleUser" "msg_role m = RoleAssistant \<and> 0 < length (msg_tool_calls m)"
    using 2(1) [OF that] dropWhile_suffix suffix_order.trans by blast
  then show ?case using 2(2) by (auto simp: suffix_ConsI)
qed simp

lemma user_front_user: "user_front rest \<noteq> [] \<Longrightarrow> msg_role (hd (user_front rest)) = RoleUser"
  by (induction rest rule: user_front.induct) auto

lemma count_messages_suffix:
  assumes "suffix xs ys"
  shows "count_messages rt mid xs \<le> count_messages rt mid ys"
proof -
  obtain zs where "ys = zs @ xs" using assms by (auto simp: suffix_def)
  then show ?thesis using count_messages_nonneg [of rt mid zs] by (simp add: count_messages_def)
qed

lemma overflow_loop_spec:
  "overflow_loop b cs t = Some n \<Longrightarrow> t \<le> b \<Longrightarrow>
     n \<le> length cs \<and> 0 < n \<and> t + sum_list (take (length cs - n) cs) \<le> b"
proof (induction cs arbitrary: t)
  case (Cons c cs)
  show ?case
  proof (cases "b < t + c")
    case True
    then show ?thesis using Cons.prems by simp
  next
    case False
    then have "n \<le> length cs \<and> 0 < n \<and> (t + c) + sum_list (take (length cs - n) cs) \<le> b"
      using Cons by simp
    then show ?thesis by (simp add: Suc_diff_le)
  qed
qed simp

lemma overflow_loop_None: "overflow_loop b cs t = None \<Longrightarrow> t \<le> b \<Longrightarrow> t + sum_list cs \<le> b"
  by (induction cs arbitrary: t) (auto split: if_splits simp: add.assoc [symmetric])

lemma overflow_index_fits:
  assumes "0 \<le> b"
  shows "overflow_index b counts = length counts \<or> sum_list (drop (overflow_index b counts) counts) \<le> b"
proof (cases "overflow_loop b (rev counts) 0")
  case (Some n)
  then have n: "n \<le> length counts" "sum_list (take (length counts - n) (rev counts)) \<le> b"
    using overflow_loop_spec [OF Some assms] by auto
  have "take (length counts - n) (rev counts) = rev (drop n counts)"
    using n by (simp add: rev_drop)
  then show ?thesis using n Some by (simp add: overflow_index_def)
qed (simp add: overflow_index_def)

lemma overflow_index_le: "0 \<le> b \<Longrightarrow> overflow_index b counts \<le> length counts"
  using overflow_loop_spec [of b "rev counts" 0] by (auto simp: overflow_index_def split: option.splits)

lemma length_takeWhile_drop: "length (takeWhile P (drop n xs)) \<le> length xs - n"
  by (metis length_drop length_takeWhile_le)

lemma boundary_bounds:
  assumes "0 \<le> n"
  shows "n \<le> safe_compression_boundary all n \<and> safe_compression_boundary all n \<le> max n (int (length all))"
proof (cases "n \<le> 0 \<or> int (length all) \<le> n")
  case False
  have "length (takeWhile is_tool_msg (drop (nat n) all)) \<le> length all - nat n"
    by (rule length_takeWhile_drop)
  then have "n + int (length (takeWhile is_tool_msg (drop (nat n) all))) \<le> int (length all)"
    using False by linarith
  then show ?thesis using False
    by (simp add: safe_compression_boundary_def Let_def extend_over_tools_eq)
qed (auto simp: safe_compression_boundary_def)

lemma count_drop_mono: "i \<le> j \<Longrightarrow> count_messages rt mid (drop j ms) \<le> count_messages rt mid (drop i ms)"
proof (rule count_messages_suffix)
  assume "i \<le> j"
  then have "drop j ms = drop (j - i) (drop i ms)" by simp
  then show "suffix (drop j ms) (drop i ms)" by (simp only: suffix_drop)
qed

lemma budget_nonneg: "0 \<le> working_token_budget s"
  by (auto simp: working_token_budget_def intro!: pos_imp_zdiv_nonneg_iff [THEN iffD2])

section \<open>Properties\<close>

definition assistant_calls :: "message \<Rightarrow> bool" where
  "assistant_calls m = (msg_role m = RoleAssistant \<and> msg_tool_calls m \<noteq> [])"

text \<open>
  The compaction boundary never moves back nor past the end, and a cut right behind an
  assistant message with tool calls takes all the tool results that follow it, so the kept part
  does not start with one of them.
\<close>

theorem safe_boundary_keeps_pairs:
  assumes "0 < n" and "n < length all" and "assistant_calls (all ! (n - 1))"
  shows "\<exists>r. safe_compression_boundary all (int n) = int r \<and> n \<le> r \<and> r \<le> length all \<and>
    (\<forall>k. n \<le> k \<and> k < r \<longrightarrow> is_tool_msg (all ! k)) \<and> (r < length all \<longrightarrow> \<not> is_tool_msg (all ! r))"
proof -
  let ?t = "length (takeWhile is_tool_msg (drop n all))"
  have "safe_compression_boundary all (int n) = int (n + ?t)"
    using assms by (simp add: safe_compression_boundary_def assistant_calls_def Let_def
        extend_over_tools_eq nat_diff_distrib)
  moreover have "?t \<le> length all - n" by (rule length_takeWhile_drop)
  moreover have "is_tool_msg (all ! k)" if "n \<le> k" "k < n + ?t" for k
  proof -
    have "k - n < ?t" using that by linarith
    then have "is_tool_msg (takeWhile is_tool_msg (drop n all) ! (k - n))"
      by (rule set_takeWhileD [OF nth_mem, THEN conjunct2])
    then show ?thesis using that \<open>k - n < ?t\<close> assms(2)
      by (simp add: takeWhile_nth)
  qed
  moreover have "\<not> is_tool_msg (all ! (n + ?t))" if "n + ?t < length all"
  proof -
    have "?t < length (drop n all)" using that by simp
    then have "\<not> is_tool_msg (drop n all ! ?t)" by (rule nth_length_takeWhile)
    then show ?thesis using assms(2) by simp
  qed
  ultimately show ?thesis using assms(2) by (intro exI [of _ "n + ?t"]) auto
qed

definition calls_message :: "string \<Rightarrow> message" where
  "calls_message i = (role_message RoleAssistant '''')\<lparr>msg_tool_calls :=
     [\<lparr>tc_id = i, tc_type = ''function'', tc_function = \<lparr>tcf_name = ''f'', tcf_args = ''x''\<rparr>\<rparr>]\<rparr>"

definition paired_history :: "message list" where
  "paired_history = [user_message ''a'', calls_message ''1'', tool_message ''1'' ''r'',
     tool_message ''2'' ''r'', user_message ''b'']"

lemma safe_boundary_keeps_pairs_witness:
  "\<exists>r. safe_compression_boundary paired_history 2 = int r \<and> 2 \<le> r \<and> r \<le> 5"
proof -
  have "paired_history ! 1 = calls_message ''1''" "length paired_history = 5"
    by (simp_all add: paired_history_def)
  moreover have "assistant_calls (calls_message ''1'')"
    by (simp add: assistant_calls_def calls_message_def)
  ultimately have "\<exists>r. safe_compression_boundary paired_history (int 2) = int r \<and> 2 \<le> r \<and> r \<le> 5"
    using safe_boundary_keeps_pairs [of 2 paired_history] by force
  then show ?thesis by simp
qed

text \<open>A cut between two results of one group of calls is not extended: the kept part then starts
  with a tool result.\<close>

lemma boundary_splits_group:
  "safe_compression_boundary paired_history 3 = 3 \<and> is_tool_msg (paired_history ! 3)"
  by (simp add: safe_compression_boundary_def paired_history_def)

text \<open>
  The working set that \<^verbatim>\<open>prepareMemory\<close> returns is empty or a suffix of the messages the
  memory returned (at most the newest 5000), and it fits the working budget unless it is all of
  them.
\<close>

theorem prepare_memory_working_set:
  assumes "ag_memory (rs_agent s) = Some mem"
    and "prepare_memory rt ses s = ((ms, ci), s')"
  shows "ms = [] \<or>
    (\<exists>n w msgs. fst (mem_recent mem (ses_id ses) n 0 w) = Inr msgs \<and> n \<le> 5000 \<and> suffix ms msgs \<and>
       (ms = msgs \<or> count_messages rt (tokenizer_model_id (rs_model s)) ms \<le> working_token_budget s))"
proof (cases "ms = []")
  case False
  let ?b = "working_token_budget s" and ?mid = "tokenizer_model_id (rs_model s)"
  obtain tc s1 where c: "on_world (mem_count mem (ses_id ses)) s = (Inr tc, s1)" "tc \<noteq> 0"
    using assms False by (auto simp: prepare_memory_def Let_def split: prod.splits sum.splits if_splits)
  let ?n = "if 5000 < tc then 5000 else tc"
  obtain msgs s2 where r: "on_world (mem_recent mem (ses_id ses) ?n 0) s1 = (Inr msgs, s2)" "msgs \<noteq> []"
    using assms c False by (auto simp: prepare_memory_def Let_def split: prod.splits sum.splits if_splits)
  have rec: "fst (mem_recent mem (ses_id ses) ?n 0 (rs_world s1)) = Inr msgs"
    by (rule on_world_fst [OF r(1)])
  have mdl: "rs_model s2 = rs_model s" using on_world_sel(5) [OF c(1)] on_world_sel(5) [OF r(1)] by simp
  let ?o = "overflow_index ?b (map (count_message_tokens rt ?mid) msgs)"
  let ?k = "safe_compression_boundary msgs (int ?o)"
  have eq: "prepare_memory rt ses s = (if length msgs \<le> ?o then ((msgs, no_compaction), s2)
      else case compact_overflow mem (ses_id ses) (tc - int (length msgs)) ?k msgs s2 of (ci, s3) \<Rightarrow>
        ((if int (length msgs) \<le> ?k then msgs else drop (nat ?k) msgs, ci), s3))"
    using c(2) r(2) unfolding prepare_memory_def Let_def assms(1) option.case c(1) prod.case sum.case
    by (simp only: if_False r(1) prod.case sum.case mdl)
  have "suffix ms msgs \<and> (ms = msgs \<or> count_messages rt ?mid ms \<le> ?b)"
  proof (cases "length msgs \<le> ?o")
    case True
    then have "ms = msgs" using assms(2) unfolding eq by simp
    then show ?thesis by simp
  next
    case False
    have "ms = (if int (length msgs) \<le> ?k then msgs else drop (nat ?k) msgs)"
      using assms(2) False unfolding eq by (auto split: prod.splits)
    moreover have "?o \<le> nat ?k" using boundary_bounds [of "int ?o" msgs] by linarith
    then have "count_messages rt ?mid (drop (nat ?k) msgs) \<le> count_messages rt ?mid (drop ?o msgs)"
      by (rule count_drop_mono)
    moreover have "count_messages rt ?mid (drop ?o msgs) \<le> ?b"
      using overflow_index_fits [OF budget_nonneg, of s "map (count_message_tokens rt ?mid) msgs"] False
      by (simp add: count_messages_def drop_map)
    ultimately show ?thesis using suffix_drop [of "nat ?k" msgs] by auto
  qed
  then show ?thesis using rec by (intro disjI2 exI [of _ ?n] exI [of _ "rs_world s1"] exI [of _ msgs]) auto
qed simp

text \<open>When the newest message alone exceeds the budget nothing is compacted or cut.\<close>

lemma newest_over_budget:
  "counts \<noteq> [] \<Longrightarrow> budget < last counts \<Longrightarrow> overflow_index budget counts = length counts"
  by (cases counts rule: rev_cases) (simp_all add: overflow_index_def)

text \<open>
  The last-resort truncation keeps every system message and a suffix of the others that is
  empty or starts with a user message, and that fits the budget or has at most two messages.
\<close>

theorem trim_keeps_system_and_recent:
  assumes "0 < window" and "messages \<noteq> []"
  shows "\<exists>kept. trim_to_context_window rt mid messages window = filter is_system messages @ kept \<and>
    suffix kept (filter (\<lambda>m. \<not> is_system m) messages) \<and>
    (kept = [] \<or> msg_role (hd kept) = RoleUser) \<and>
    (count_messages rt mid kept \<le> trim_budget rt mid (filter is_system messages) window \<or> length kept \<le> 2)"
proof -
  let ?b = "trim_budget rt mid (filter is_system messages) window"
  let ?rest = "filter (\<lambda>m. \<not> is_system m) messages"
  let ?l = "trim_loop rt mid ?b ?rest"
  have suf: "suffix (user_front ?l) ?l" by (rule user_front_suffix)
  have "count_messages rt mid (user_front ?l) \<le> ?b \<or> length (user_front ?l) \<le> 2"
    using trim_loop_fits [of rt mid ?b ?rest] count_messages_suffix [OF suf, of rt mid]
      suffix_length_le [OF suf] by linarith
  moreover have "trim_to_context_window rt mid messages window = filter is_system messages @ user_front ?l"
    using assms by (simp add: trim_to_context_window_def Let_def)
  moreover have "suffix (user_front ?l) ?rest"
    using suf trim_loop_suffix suffix_order.trans by blast
  ultimately show ?thesis using user_front_user [of ?l] by blast
qed

definition unit_runtime :: "unit runtime" where
  "unit_runtime = \<lparr>rt_ctx = (\<lambda>w. None), rt_sleep = (\<lambda>d w. (None, w)), rt_fresh = (\<lambda>n w. (n, w)),
     rt_count = (\<lambda>m t. length t), rt_dec_name = Inr, rt_dec_query = Inr,
     rt_dec_subagent = (\<lambda>t. Inl (ErrText ''bad'')), rt_order = (\<lambda>is w. is), rt_score = (\<lambda>r. ''0.00'')\<rparr>"

lemma trim_keeps_system_and_recent_witness:
  "\<exists>kept. trim_to_context_window unit_runtime ''m'' paired_history 10 = kept \<and>
     suffix kept paired_history \<and> length kept \<le> 5"
  using trim_keeps_system_and_recent [of 10 paired_history unit_runtime "''m''"]
  by (auto simp: paired_history_def is_system_def calls_message_def dest: suffix_length_le)

definition unit_memory :: "unit memory_if" where
  "unit_memory = \<lparr>mem_recent = (\<lambda>i n b w. (Inr paired_history, w)), mem_count = (\<lambda>i w. (Inr 5, w)),
     mem_compact = (\<lambda>i c ms w. (None, w)), mem_compressed = (\<lambda>i w. (Inr None, w)),
     mem_search = (\<lambda>i q n w. (Inr [], w)), mem_append = (\<lambda>i m w. (None, w)), mem_delete = (\<lambda>i w. (None, w))\<rparr>"

definition unit_run :: "unit run_state" where
  "unit_run = \<lparr>rs_agent = (base_agent ''a'')\<lparr>ag_memory := Some unit_memory, ag_max_working_tokens := 12\<rparr>,
     rs_model = \<lparr>m_chat = (\<lambda>req w. (Inl (ErrText ''no''), w)), m_stream = (\<lambda>req w. (Inr None, w)),
       m_context_window = 0, m_tokenizer_model = None\<rparr>, rs_streaming = True, rs_skills = [],
     rs_loaded = None, rs_builtin = [], rs_compressed = None, rs_events = [], rs_stages = [],
     rs_stored = [], rs_world = ()\<rparr>"

lemma unit_run_working_set:
  "fst (fst (prepare_memory unit_runtime (new_session ''s'') unit_run))
     = [tool_message ''2'' ''r'', user_message ''b'']"
  by code_simp

lemma prepare_memory_working_set_witness:
  "count_messages unit_runtime ''gpt-4'' [tool_message ''2'' ''r'', user_message ''b''] \<le> 12 \<or>
   suffix [tool_message ''2'' ''r'', user_message ''b''] paired_history"
proof -
  obtain ms ci s' where p: "prepare_memory unit_runtime (new_session ''s'') unit_run = ((ms, ci), s')"
    by (metis prod.exhaust)
  have "ag_memory (rs_agent unit_run) = Some unit_memory" by (simp add: unit_run_def)
  from prepare_memory_working_set [OF this p] unit_run_working_set p
  show ?thesis by (auto simp: unit_memory_def)
qed

end
