(* ===== verification/Streaming.thy ===== *)
theory Streaming
  imports Tokens
begin

text \<open>
  Model calls of \<^verbatim>\<open>runner.go\<close>: assembling a streamed response (\<^verbatim>\<open>accumulateStream\<close>), one call
  with the non-streaming fallback (\<^verbatim>\<open>callModelOnce\<close>) and the retry loop (\<^verbatim>\<open>callModel\<close>).
\<close>

section \<open>Assembling a stream\<close>

record stream_acc =
  sa_content :: string
  sa_reasoning :: string
  sa_finish :: string
  sa_usage :: usage
  sa_tools :: "(int \<times> tool_call) list"

definition empty_call :: tool_call where
  "empty_call = \<lparr>tc_id = '''', tc_type = '''', tc_function = \<lparr>tcf_name = '''', tcf_args = ''''\<rparr>\<rparr>"

definition empty_acc :: stream_acc where
  "empty_acc = \<lparr>sa_content = '''', sa_reasoning = '''', sa_finish = '''', sa_usage = zero_usage, sa_tools = []\<rparr>"

text \<open>One delta of a tool call merged into the accumulated call of its index.\<close>

definition merge_call :: "tool_call \<Rightarrow> tool_call_delta \<Rightarrow> tool_call" where
  "merge_call c d = \<lparr>
     tc_id = (if tcd_id d \<noteq> '''' then tcd_id d else tc_id c),
     tc_type = (if tcd_type d \<noteq> '''' then tcd_type d else tc_type c),
     tc_function = \<lparr>
       tcf_name = (if fdl_name (tcd_function d) \<noteq> '''' then fdl_name (tcd_function d) else tc_name c),
       tcf_args = tc_args c @ fdl_args (tcd_function d)\<rparr>\<rparr>"

definition acc_tool :: "(int \<times> tool_call) list \<Rightarrow> tool_call_delta \<Rightarrow> (int \<times> tool_call) list" where
  "acc_tool m d =
     AList.update (tcd_index d)
       (merge_call (case map_of m (tcd_index d) of Some c \<Rightarrow> c | None \<Rightarrow> empty_call) d) m"

definition acc_delta :: "stream_acc \<Rightarrow> stream_delta \<Rightarrow> stream_acc" where
  "acc_delta a d = a\<lparr>
     sa_content := sa_content a @ sd_content d,
     sa_reasoning := sa_reasoning a @ sd_reasoning d,
     sa_finish := (if sd_finish_reason d \<noteq> '''' then sd_finish_reason d else sa_finish a),
     sa_tools := foldl acc_tool (sa_tools a) (sd_tool_calls d)\<rparr>"

definition acc_chunk :: "stream_acc \<Rightarrow> stream_chunk \<Rightarrow> stream_acc" where
  "acc_chunk a c =
     foldl acc_delta (case sc_usage c of Some u \<Rightarrow> a\<lparr>sa_usage := u\<rparr> | None \<Rightarrow> a) (sc_choices c)"

definition delta_events :: "stream_delta \<Rightarrow> stream_event list" where
  "delta_events d =
     (if sd_reasoning d \<noteq> '''' then [StreamThought (sd_reasoning d)] else []) @
     (if sd_content d \<noteq> '''' then [StreamTextDelta (sd_content d)] else [])"

definition chunk_deltas :: "stream_chunk list \<Rightarrow> stream_delta list" where
  "chunk_deltas cs = concat (map sc_choices cs)"

text \<open>The loop over \<^verbatim>\<open>i < len(toolAcc)\<close>: an index that is missing is skipped.\<close>

definition collect_calls :: "(int \<times> tool_call) list \<Rightarrow> tool_call list" where
  "collect_calls m =
     concat (map (\<lambda>i. case map_of m i of Some c \<Rightarrow> [c] | None \<Rightarrow> []) [0..int (length m) - 1])"

definition acc_response :: "stream_acc \<Rightarrow> chat_response" where
  "acc_response a = \<lparr>resp_choices = [\<lparr>ch_index = 0,
       ch_message = (role_message RoleAssistant (sa_content a))\<lparr>msg_reasoning := sa_reasoning a,
         msg_tool_calls := collect_calls (sa_tools a)\<rparr>,
       ch_finish_reason = sa_finish a\<rparr>],
     resp_usage = sa_usage a\<rparr>"

definition send_all :: "stream_event list \<Rightarrow> 'w run_state \<Rightarrow> 'w run_state" where
  "send_all es s = (if rs_streaming s then s\<lparr>rs_events := rs_events s @ es\<rparr> else s)"

definition accumulate_stream ::
  "stream_reader \<Rightarrow> 'w run_state \<Rightarrow> (go_err + chat_response) \<times> 'w run_state" where
  "accumulate_stream rd s =
     (let a = foldl acc_chunk empty_acc (rd_chunks rd);
          s' = send_all (concat (map delta_events (chunk_deltas (rd_chunks rd)))) s
      in (case rd_err rd of Some e \<Rightarrow> Inl e | None \<Rightarrow> Inr (acc_response a), s'))"

section \<open>Calling the model\<close>

definition call_model_once ::
  "chat_request \<Rightarrow> 'w run_state \<Rightarrow> (go_err + chat_response) \<times> 'w run_state" where
  "call_model_once req s =
     (case on_world (m_stream (rs_model s) req) s of
        (Inl e, s1) \<Rightarrow> (Inl e, s1)
      | (Inr (Some rd), s1) \<Rightarrow> accumulate_stream rd s1
      | (Inr None, s1) \<Rightarrow>
          (case on_world (m_chat (rs_model s1) req) s1 of
             (Inl e, s2) \<Rightarrow> (Inl e, s2)
           | (Inr resp, s2) \<Rightarrow>
               (Inr resp,
                case resp_choices resp of
                  [] \<Rightarrow> s2
                | c # cs \<Rightarrow> send_all
                    ((if msg_reasoning (ch_message c) \<noteq> '''' then [StreamThought (msg_reasoning (ch_message c))] else []) @
                     (if msg_content (ch_message c) \<noteq> '''' then [StreamTextDelta (msg_content (ch_message c))] else []))
                    s2)))"

text \<open>The backoff before an attempt, in nanoseconds: exponential, or what the error asks for.\<close>

definition backoff :: "int \<Rightarrow> go_err \<Rightarrow> int" where
  "backoff attempt err =
     (case err_as_retryable err of
        Some d \<Rightarrow> if 0 < d then d else 2 ^ nat (attempt - 1) * 1000000000
      | None \<Rightarrow> 2 ^ nat (attempt - 1) * 1000000000)"

text \<open>The wait before attempt \<open>attempt > 0\<close>.\<close>

definition retry_wait ::
  "'w runtime \<Rightarrow> int \<Rightarrow> go_err option \<Rightarrow> 'w run_state \<Rightarrow> go_err option \<times> 'w run_state" where
  "retry_wait rt attempt lastErr s =
     (case lastErr of
        Some e \<Rightarrow>
          if 0 < attempt then on_world (rt_sleep rt (backoff attempt e)) (send (StreamRetrying e) s)
          else (None, s)
      | None \<Rightarrow> (None, s))"

fun call_model_loop ::
  "'w runtime \<Rightarrow> chat_request \<Rightarrow> int list \<Rightarrow> go_err option \<Rightarrow> 'w run_state
     \<Rightarrow> (go_err + chat_response) \<times> 'w run_state" where
  "call_model_loop rt req [] lastErr s =
     (case lastErr of
        Some e \<Rightarrow> (Inl (ErrWrap ''max retries exceeded: '' e ''''), s)
      | None \<Rightarrow> (Inl (ErrText ''max retries exceeded: %!w(<nil>)''), s))"
| "call_model_loop rt req (a # as) lastErr s =
     (case retry_wait rt a lastErr s of
        (Some e, s1) \<Rightarrow> (Inl e, s1)
      | (None, s1) \<Rightarrow>
          (case call_model_once req s1 of
             (Inr resp, s2) \<Rightarrow> (Inr resp, s2)
           | (Inl e, s2) \<Rightarrow>
               (case err_as_retryable e of
                  None \<Rightarrow> (Inl e, s2)
                | Some d \<Rightarrow> call_model_loop rt req as (Some e) s2)))"

definition call_model ::
  "'w runtime \<Rightarrow> chat_request \<Rightarrow> 'w run_state \<Rightarrow> (go_err + chat_response) \<times> 'w run_state" where
  "call_model rt req s = call_model_loop rt req [0..3] None s"

section \<open>What the assembly computes\<close>

lemma foldl_acc_delta:
  "sa_content (foldl acc_delta a ds) = sa_content a @ concat (map sd_content ds) \<and>
   sa_reasoning (foldl acc_delta a ds) = sa_reasoning a @ concat (map sd_reasoning ds) \<and>
   sa_tools (foldl acc_delta a ds) = foldl acc_tool (sa_tools a) (concat (map sd_tool_calls ds))"
  by (induction ds arbitrary: a) (auto simp: acc_delta_def)

lemma foldl_acc_chunk:
  "sa_content (foldl acc_chunk a cs) = sa_content a @ concat (map sd_content (chunk_deltas cs)) \<and>
   sa_reasoning (foldl acc_chunk a cs) = sa_reasoning a @ concat (map sd_reasoning (chunk_deltas cs)) \<and>
   sa_tools (foldl acc_chunk a cs) =
     foldl acc_tool (sa_tools a) (concat (map sd_tool_calls (chunk_deltas cs)))"
proof (induction cs arbitrary: a)
  case (Cons c cs)
  have "sa_content (acc_chunk a c) = sa_content a @ concat (map sd_content (sc_choices c))"
    "sa_reasoning (acc_chunk a c) = sa_reasoning a @ concat (map sd_reasoning (sc_choices c))"
    "sa_tools (acc_chunk a c) = foldl acc_tool (sa_tools a) (concat (map sd_tool_calls (sc_choices c)))"
    by (auto simp: acc_chunk_def foldl_acc_delta split: option.splits)
  then show ?case by (simp add: Cons chunk_deltas_def)
qed (simp add: chunk_deltas_def)

definition deltas_at :: "int \<Rightarrow> tool_call_delta list \<Rightarrow> tool_call_delta list" where
  "deltas_at i ds = filter (\<lambda>d. tcd_index d = i) ds"

lemma acc_tools_get:
  "map_of (foldl acc_tool m ds) i =
     (if deltas_at i ds = [] then map_of m i
      else Some (foldl merge_call (case map_of m i of Some c \<Rightarrow> c | None \<Rightarrow> empty_call) (deltas_at i ds)))"
  by (induction ds arbitrary: m) (auto simp: deltas_at_def acc_tool_def update_conv split: option.splits)

lemma acc_tools_keys:
  "distinct (map fst m) \<Longrightarrow> distinct (map fst (foldl acc_tool m ds)) \<and>
     fst ` set (foldl acc_tool m ds) = fst ` set m \<union> tcd_index ` set ds"
  by (induction ds arbitrary: m) (auto simp: acc_tool_def distinct_update dom_update)

text \<open>The text and the thought events of a list of events.\<close>

definition text_of :: "stream_event list \<Rightarrow> string" where
  "text_of es = concat (map (\<lambda>e. case e of StreamTextDelta t \<Rightarrow> t | _ \<Rightarrow> '''') es)"

definition thought_of :: "stream_event list \<Rightarrow> string" where
  "thought_of es = concat (map (\<lambda>e. case e of StreamThought t \<Rightarrow> t | _ \<Rightarrow> '''') es)"

lemma delta_events_text:
  "text_of (concat (map delta_events ds)) = concat (map sd_content ds)"
  "thought_of (concat (map delta_events ds)) = concat (map sd_reasoning ds)"
  by (induction ds) (auto simp: text_of_def thought_of_def delta_events_def)

definition send_all_quiet_ok :: "stream_event list \<Rightarrow> bool" where
  "send_all_quiet_ok es = (\<forall>e\<in>set es. \<not> is_terminal e)"

lemma quiet_send_all: "quiet s t \<Longrightarrow> \<forall>e\<in>set es. \<not> is_terminal e \<Longrightarrow> quiet s (send_all es t)"
  by (auto simp: quiet_def send_all_def)

lemma delta_events_plain: "\<forall>e\<in>set (concat (map delta_events ds)). \<not> is_terminal e"
  by (auto simp: delta_events_def)

lemma accumulate_quiet: "quiet s (snd (accumulate_stream rd s))"
  by (simp add: accumulate_stream_def Let_def quiet_send_all quiet_refl delta_events_plain del: set_concat set_map)

lemma call_model_once_quiet: "quiet s (snd (call_model_once req s))"
proof -
  obtain r s1 where a: "on_world (m_stream (rs_model s) req) s = (r, s1)" by fastforce
  have q1: "quiet s s1" by (rule quiet_on_world [OF a quiet_refl])
  obtain r2 s2 where b: "on_world (m_chat (rs_model s1) req) s1 = (r2, s2)" by fastforce
  have q2: "quiet s s2" by (rule quiet_on_world [OF b q1])
  show ?thesis
    using q1 q2 quiet_trans [OF q1 accumulate_quiet]
    by (auto simp: call_model_once_def a b intro!: quiet_send_all split: sum.splits option.splits list.splits)
qed

lemma retry_wait_quiet: "quiet s (snd (retry_wait rt a e s))"
  by (auto simp: retry_wait_def on_world_def intro!: quiet_intros split: option.splits prod.splits)

lemma call_model_loop_quiet: "quiet s (snd (call_model_loop rt req as e s))"
proof (induction "as" arbitrary: e s)
  case (Cons a "as")
  obtain w s1 where a: "retry_wait rt a e s = (w, s1)" by fastforce
  obtain r s2 where b: "call_model_once req s1 = (r, s2)" by fastforce
  have "quiet s s1" "quiet s1 s2"
    using retry_wait_quiet [of s rt a e] call_model_once_quiet [of s1 req] a b by simp_all
  then have q: "quiet s s1" "quiet s s2" by (auto intro: quiet_trans)
  then show ?case using quiet_trans [OF q(2) Cons.IH]
    by (auto simp: a b split: option.splits sum.splits)
qed (auto simp: quiet_refl split: option.splits)

lemma call_model_quiet: "quiet s (snd (call_model rt req s))"
  by (simp add: call_model_def call_model_loop_quiet)

text \<open>The retry notifications among the new events.\<close>

definition new_ev :: "'w run_state \<Rightarrow> 'w run_state \<Rightarrow> stream_event list" where
  "new_ev s t = drop (length (rs_events s)) (rs_events t)"

definition retryings :: "stream_event list \<Rightarrow> go_err list" where
  "retryings es = concat (map (\<lambda>e. case e of StreamRetrying x \<Rightarrow> [x] | _ \<Rightarrow> []) es)"

lemma new_ev_trans: "quiet s t \<Longrightarrow> quiet t u \<Longrightarrow> new_ev s u = new_ev s t @ new_ev t u"
  by (auto simp: quiet_def new_ev_def)

lemma new_ev_on_world: "on_world f s = (a, t) \<Longrightarrow> new_ev s t = []"
  by (simp add: new_ev_def)

lemma retryings_simps [simp]:
  "retryings [] = []" "retryings (es @ fs) = retryings es @ retryings fs"
  "retryings (e # es) = (case e of StreamRetrying x \<Rightarrow> [x] | _ \<Rightarrow> []) @ retryings es"
  by (simp_all add: retryings_def)

lemma retryings_delta: "retryings (concat (map delta_events ds)) = []"
  by (induction ds) (auto simp: delta_events_def)

lemma new_ev_send_all: "new_ev s (send_all es s) = (if rs_streaming s then es else [])"
  by (simp add: new_ev_def send_all_def)

lemma call_model_once_no_retrying: "retryings (new_ev s (snd (call_model_once req s))) = []"
proof -
  obtain r s1 where a: "on_world (m_stream (rs_model s) req) s = (r, s1)" by fastforce
  obtain r2 s2 where b: "on_world (m_chat (rs_model s1) req) s1 = (r2, s2)" by fastforce
  have e: "rs_events s1 = rs_events s" "rs_events s2 = rs_events s" using a b by simp_all
  have [simp]: "new_ev s (send_all es s1) = new_ev s1 (send_all es s1)"
    "new_ev s (send_all es s2) = new_ev s2 (send_all es s2)" "new_ev s s1 = []" "new_ev s s2 = []" for es
    using e by (simp_all add: new_ev_def)
  show ?thesis
    by (auto simp: call_model_once_def a b accumulate_stream_def Let_def new_ev_send_all retryings_delta
        split: sum.splits option.splits list.splits)
qed

lemma retry_wait_events:
  "new_ev s (snd (retry_wait rt a e s)) =
     (if rs_streaming s \<and> e \<noteq> None \<and> 0 < a then [StreamRetrying (the e)] else [])"
proof (cases "e \<noteq> None \<and> 0 < a")
  case True
  then obtain x where e: "e = Some x" by auto
  obtain r t where o: "on_world (rt_sleep rt (backoff a x)) (send (StreamRetrying x) s) = (r, t)" by fastforce
  have "rs_events t = rs_events s @ (if rs_streaming s then [StreamRetrying x] else [])"
    using on_world_sel(1) [OF o] by simp
  then show ?thesis using True e o by (simp add: retry_wait_def new_ev_def)
qed (auto simp: retry_wait_def new_ev_def split: option.splits)

lemma call_model_loop_retries:
  "e \<noteq> None \<longrightarrow> err_as_retryable (the e) \<noteq> None \<Longrightarrow>
     length (retryings (new_ev s (snd (call_model_loop rt req as e s)))) \<le> length (filter (\<lambda>a. 0 < a) as) \<and>
     (\<forall>x\<in>set (retryings (new_ev s (snd (call_model_loop rt req as e s)))). err_as_retryable x \<noteq> None)"
proof (induction "as" arbitrary: e s)
  case Nil
  then show ?case by (auto simp: new_ev_def retryings_def split: option.splits)
next
  case (Cons a "as")
  obtain w s1 where a: "retry_wait rt a e s = (w, s1)" by fastforce
  obtain r s2 where b: "call_model_once req s1 = (r, s2)" by fastforce
  have q: "quiet s s1" "quiet s1 s2"
    using retry_wait_quiet [of s rt a e] call_model_once_quiet [of s1 req] a b by simp_all
  have r1: "length (retryings (new_ev s s1)) \<le> (if 0 < a then 1 else 0) \<and>
      (\<forall>x\<in>set (retryings (new_ev s s1)). err_as_retryable x \<noteq> None)"
  proof (cases "rs_streaming s \<and> e \<noteq> None \<and> 0 < a")
    case True
    then have "new_ev s s1 = [StreamRetrying (the e)]" using retry_wait_events [of s rt a e] a by simp
    then show ?thesis using Cons.prems True by simp
  next
    case False
    then have "new_ev s s1 = []" using retry_wait_events [of s rt a e] a by simp
    then show ?thesis by simp
  qed
  have r2: "retryings (new_ev s1 s2) = []" using call_model_once_no_retrying [of s1 req] b by simp
  have n12: "new_ev s s2 = new_ev s s1 @ new_ev s1 s2" by (rule new_ev_trans [OF q])
  show ?case
  proof (cases "w = None \<and> (\<exists>x d. r = Inl x \<and> err_as_retryable x = Some d)")
    case True
    then obtain x d where x: "w = None" "r = Inl x" "err_as_retryable x = Some d" by blast
    let ?u = "snd (call_model_loop rt req as (Some x) s2)"
    have "new_ev s ?u = new_ev s s2 @ new_ev s2 ?u"
      by (rule new_ev_trans [OF quiet_trans [OF q] call_model_loop_quiet])
    then show ?thesis using r1 r2 n12 a b x Cons.IH [of "Some x" s2] by auto
  next
    case False
    then have "snd (call_model_loop rt req (a # as) e s) \<in> {s1, s2}"
      by (auto simp: a b split: option.splits sum.splits)
    then have "retryings (new_ev s (snd (call_model_loop rt req (a # as) e s))) = retryings (new_ev s s1)"
      using r2 n12 by auto
    then show ?thesis using r1 by auto
  qed
qed

section \<open>Properties\<close>

text \<open>
  C31: a streamed response is assembled faithfully: its text and its reasoning are the
  concatenation of the deltas and of the events that were forwarded, and when the tool-call
  indices are \<open>0, ..., n-1\<close> there is one call per index, in index order, built from the deltas of
  that index however they were interleaved.
\<close>

theorem accumulate_stream_assembles:
  assumes "rd_err rd = None" and "rs_streaming s"
    and "tcd_index ` set (concat (map sd_tool_calls (chunk_deltas (rd_chunks rd)))) = {0..<int n}"
  shows "\<exists>resp t c m. accumulate_stream rd s = (Inr resp, t) \<and>
    resp_choices resp = [c] \<and> m = ch_message c \<and>
    msg_content m = concat (map sd_content (chunk_deltas (rd_chunks rd))) \<and>
    msg_content m = text_of (new_ev s t) \<and> msg_reasoning m = thought_of (new_ev s t) \<and>
    msg_tool_calls m =
      map (\<lambda>i. foldl merge_call empty_call
          (deltas_at i (concat (map sd_tool_calls (chunk_deltas (rd_chunks rd)))))) [0..int n - 1]"
proof -
  let ?D = "concat (map sd_tool_calls (chunk_deltas (rd_chunks rd)))"
  let ?m = "foldl acc_tool [] ?D"
  have k: "distinct (map fst ?m)" "fst ` set ?m = {0..<int n}"
    using acc_tools_keys [of "[]" ?D] assms(3) by simp_all
  have "length ?m = card (fst ` set ?m)" using distinct_card [OF k(1)] by simp
  then have len: "length ?m = n" using k(2) by simp
  have at: "deltas_at i ?D \<noteq> []" if "0 \<le> i" "i < int n" for i
  proof -
    have "i \<in> tcd_index ` set ?D" using assms(3) that by simp
    then show ?thesis by (auto simp: deltas_at_def filter_empty_conv)
  qed
  have "collect_calls ?m = concat (map (\<lambda>i. [foldl merge_call empty_call (deltas_at i ?D)]) [0..int n - 1])"
    unfolding collect_calls_def len
    by (intro arg_cong [where f = concat] map_cong) (auto simp: acc_tools_get at)
  then have calls: "collect_calls ?m = map (\<lambda>i. foldl merge_call empty_call (deltas_at i ?D)) [0..int n - 1]"
    by (simp add: concat_map_singleton)
  show ?thesis
    using assms(1,2) foldl_acc_chunk [of empty_acc "rd_chunks rd"] calls
    by (auto simp: accumulate_stream_def Let_def acc_response_def new_ev_send_all delta_events_text empty_acc_def)
qed

definition call_delta :: "int \<Rightarrow> string \<Rightarrow> string \<Rightarrow> string \<Rightarrow> tool_call_delta" where
  "call_delta i cid name args =
     \<lparr>tcd_index = i, tcd_id = cid, tcd_type = '''', tcd_function = \<lparr>fdl_name = name, fdl_args = args\<rparr>\<rparr>"

definition two_calls_reader :: stream_reader where
  "two_calls_reader = \<lparr>rd_chunks =
     [\<lparr>sc_choices = [\<lparr>sd_content = ''hi'', sd_reasoning = '''', sd_tool_calls =
          [call_delta 1 ''b'' ''g'' ''y'', call_delta 0 ''a'' ''f'' ''x''], sd_finish_reason = ''''\<rparr>], sc_usage = None\<rparr>,
      \<lparr>sc_choices = [\<lparr>sd_content = '''', sd_reasoning = '''', sd_tool_calls =
          [call_delta 0 '''' '''' ''z''], sd_finish_reason = ''tool_calls''\<rparr>], sc_usage = None\<rparr>], rd_err = None\<rparr>"

lemma accumulate_stream_assembles_witness:
  "\<exists>resp t c. accumulate_stream two_calls_reader unit_run = (Inr resp, t) \<and> resp_choices resp = [c] \<and>
     msg_content (ch_message c) = ''hi'' \<and>
     map tc_args (msg_tool_calls (ch_message c)) = [''xz'', ''y'']"
proof -
  have "tcd_index ` set (concat (map sd_tool_calls (chunk_deltas (rd_chunks two_calls_reader)))) = {0..<int 2}"
    by (auto simp: two_calls_reader_def chunk_deltas_def call_delta_def)
  moreover have "rd_err two_calls_reader = None" "rs_streaming unit_run"
    by (simp_all add: two_calls_reader_def unit_run_def)
  moreover have "[0..int 2 - 1] = [0, 1]" by (simp add: upto.simps)
  ultimately show ?thesis
    using accumulate_stream_assembles [of two_calls_reader unit_run 2]
    by (auto simp: two_calls_reader_def chunk_deltas_def call_delta_def deltas_at_def merge_call_def empty_call_def)
qed

text \<open>With a gap in the indices calls are lost: the loop stops at the number of calls.\<close>

lemma gap_loses_call:
  "collect_calls (foldl acc_tool [] [call_delta 1 ''b'' ''g'' ''y'']) = []"
  by (simp add: collect_calls_def acc_tool_def call_delta_def upto.simps)

text \<open>
  \<^verbatim>\<open>callModel\<close> retries at most three times, announces each retry with an error that asked for
  one, and sends no terminal event.
\<close>

theorem call_model_retries:
  "length (retryings (new_ev s (snd (call_model rt req s)))) \<le> 3 \<and>
   {x \<in> set (retryings (new_ev s (snd (call_model rt req s)))). err_as_retryable x = None} = {} \<and>
   {e \<in> set (new_ev s (snd (call_model rt req s))). is_terminal e} = {}"
proof -
  have up: "filter (\<lambda>a. 0 < a) [0..3 :: int] = [1, 2, 3]" by (simp add: upto.simps)
  have "{e \<in> set (new_ev s (snd (call_model rt req s))). is_terminal e} = {}"
    using call_model_quiet [of s rt req] by (auto simp: quiet_def new_ev_def)
  then show ?thesis
    using call_model_loop_retries [of None s rt req "[0..3]"] unfolding call_model_def up by auto
qed

end
