(* ===== verification/Tools.thy ===== *)
theory Tools
  imports Streaming
begin

text \<open>
  Tool calls of \<^verbatim>\<open>runner.go\<close>: resolving a name, the built-in tools (\<^verbatim>\<open>use_skill\<close>,
  \<^verbatim>\<open>reload_skills\<close>, \<^verbatim>\<open>recall_memory\<close>, \<^verbatim>\<open>subagent\<close>), one call with its hooks and stage events,
  and the two phases of \<^verbatim>\<open>executeTools\<close>: approvals one after the other, then the approved calls
  concurrently. The goroutines of the second phase run one after the other in the order
  \<open>rt_order\<close>, each writing the slot of its index; a panic of a tool is recovered there.
\<close>

section \<open>Built-in definitions\<close>

definition tab :: char where "tab = CHR 0x09"
definition em_dash :: string where "em_dash = [CHR 0xE2, CHR 0x80, CHR 0x94]"

definition builtin_use_skill_def :: function_def where
  \<open>builtin_use_skill_def = \<lparr>fd_name = ''use_skill'',
     fd_description = ''Load a skill's full instructions from its SKILL.md. Use when you need detailed guidance on a specific topic.'',
     fd_parameters = ''{"type":"object","properties":{"name":{"type":"string","description":"Name of the skill to load"}},"required":["name"]}'',
     fd_end_turn = False\<rparr>\<close>

definition builtin_reload_skills_def :: function_def where
  \<open>builtin_reload_skills_def = \<lparr>fd_name = ''reload_skills'',
     fd_description = ''Rescan the skills directory for newly installed or removed skills. Use after installing or uninstalling a skill.'',
     fd_parameters = ''{"type":"object","properties":{}}'',
     fd_end_turn = False\<rparr>\<close>

definition builtin_recall_def :: function_def where
  \<open>builtin_recall_def = \<lparr>fd_name = ''recall_memory'',
     fd_description = ''Search past conversation history for relevant information. Use this when you need to remember previously discussed facts, user preferences, decisions, or context that may not be in the current conversation window. Returns ranked results with relevance scores.'',
     fd_parameters = ''{"type":"object","properties":{"query":{"type":"string","description":"Search query to find relevant memories (e.g. 'user favourite colour', 'database version', 'project deadline')"}},"required":["query"]}'',
     fd_end_turn = False\<rparr>\<close>

definition builtin_subagent_def :: function_def where
  \<open>builtin_subagent_def = \<lparr>fd_name = ''subagent'',
     fd_description = ''Create a temporary sub-agent to handle a task in parallel. The sub-agent runs in an isolated context '' @ em_dash @ '' no memory of the current conversation. It has the same tools available as you.'',
     fd_parameters = ''{'' @
       nl @
       replicate 2 tab @
       ''"type": "object",'' @
       nl @
       replicate 2 tab @
       ''"properties": {'' @
       nl @
       replicate 3 tab @
       ''"name": {'' @
       nl @
       replicate 4 tab @
       ''"type": "string",'' @
       nl @
       replicate 4 tab @
       ''"description": "A short name for the sub-agent."'' @
       nl @
       replicate 3 tab @
       ''},'' @
       nl @
       replicate 3 tab @
       ''"description": {'' @
       nl @
       replicate 4 tab @
       ''"type": "string",'' @
       nl @
       replicate 4 tab @
       ''"description": "One-line description of what this sub-agent does."'' @
       nl @
       replicate 3 tab @
       ''},'' @
       nl @
       replicate 3 tab @
       ''"prompt": {'' @
       nl @
       replicate 4 tab @
       ''"type": "string",'' @
       nl @
       replicate 4 tab @
       ''"description": "System prompt for the sub-agent '' @ em_dash @ '' defines its role and how to approach the task."'' @
       nl @
       replicate 3 tab @
       ''},'' @
       nl @
       replicate 3 tab @
       ''"task": {'' @
       nl @
       replicate 4 tab @
       ''"type": "string",'' @
       nl @
       replicate 4 tab @
       ''"description": "The task to complete '' @ em_dash @ '' passed as the user message."'' @
       nl @
       replicate 3 tab @
       ''}'' @
       nl @
       replicate 2 tab @
       ''},'' @
       nl @
       replicate 2 tab @
       ''"required": ["name", "prompt", "task"]'' @
       nl @
       replicate 1 tab @
       ''}'',
     fd_end_turn = False\<rparr>\<close>

definition builtin_skill_tool_defs :: "function_def list" where
  "builtin_skill_tool_defs = [builtin_use_skill_def, builtin_reload_skills_def]"

section \<open>Resolving a name\<close>

fun find_tool :: "'w tool list \<Rightarrow> string \<Rightarrow> 'w tool option" where
  "find_tool [] name = None"
| "find_tool (t # ts) name = (if fd_name (t_def t) = name then Some t else find_tool ts name)"

definition tool_def :: "'w run_state \<Rightarrow> string \<Rightarrow> function_def option" where
  "tool_def s name =
     (if name = ''use_skill'' then Some builtin_use_skill_def
      else if name = ''reload_skills'' then Some builtin_reload_skills_def
      else if name = ''recall_memory'' then Some builtin_recall_def
      else if name = ''subagent'' then Some builtin_subagent_def
      else map_option t_def (find_tool (ag_tools (rs_agent s)) name))"

definition tool_definitions :: "'w tool list \<Rightarrow> function_def list" where
  "tool_definitions tools = map t_def tools"

section \<open>Skills\<close>

fun find_skill :: "skill_info list \<Rightarrow> string \<Rightarrow> skill_info option" where
  "find_skill [] name = None"
| "find_skill (k # ks) name = (if sk_name k = name then Some k else find_skill ks name)"

definition loaded_skills :: "'w run_state \<Rightarrow> string gomap" where
  "loaded_skills s = (case rs_loaded s of Some m \<Rightarrow> m | None \<Rightarrow> [])"

text \<open>A write to the nil map and a call of a nil loader panic.\<close>

definition nil_map_panic :: string where "nil_map_panic = ''assignment to entry in nil map''"
definition nil_deref :: string where
  "nil_deref = ''runtime error: invalid memory address or nil pointer dereference''"

definition execute_use_skill ::
  "'w runtime \<Rightarrow> tool_call \<Rightarrow> 'w run_state \<Rightarrow> message go_ret \<times> 'w run_state" where
  "execute_use_skill rt call s =
     (case rt_dec_name rt (tc_args call) of
        Inl e \<Rightarrow> (Returns (tool_message (tc_id call) (''use_skill: invalid arguments: '' @ err_text e)), s)
      | Inr name \<Rightarrow>
          if name = '''' then (Returns (tool_message (tc_id call) ''use_skill: name is required''), s)
          else case map_of (loaded_skills s) name of
              Some body \<Rightarrow> (Returns (tool_message (tc_id call) body), s)
            | None \<Rightarrow>
                (case find_skill (rs_skills s) name of
                   None \<Rightarrow> (Returns (tool_message (tc_id call) (''skill '' @ go_quote name @
                       '' not found in catalog. Use reload_skills to refresh.'')), s)
                 | Some info \<Rightarrow>
                     (case ag_skill_loader (rs_agent s) of
                        None \<Rightarrow> (Panics nil_deref, s)
                      | Some ld \<Rightarrow>
                          (case on_world (sl_load ld info) s of
                             (Inl e, s1) \<Rightarrow>
                               (Returns (tool_message (tc_id call)
                                  (''failed to load skill '' @ go_quote name @ '': '' @ err_text e)), s1)
                           | (Inr body, s1) \<Rightarrow>
                               let full = ''**Directory:** '' @ sk_path info @ nl @ nl @ body in
                               (case rs_loaded s1 of
                                  None \<Rightarrow> (Panics nil_map_panic, s1)
                                | Some m \<Rightarrow>
                                    (Returns (tool_message (tc_id call) full),
                                     s1\<lparr>rs_loaded := Some (AList.update name full m)\<rparr>))))))"

definition reload_summary :: "skill_info list \<Rightarrow> string gomap \<Rightarrow> string" where
  "reload_summary skills loaded =
     int_str (int (length skills)) @ '' skills available'' @
     (if 0 < length loaded
      then '', '' @ int_str (int (length loaded)) @ '' loaded: ['' @ str_join (gm_keys loaded) '' '' @ '']''
      else '''')"

definition execute_reload_skills ::
  "tool_call \<Rightarrow> 'w run_state \<Rightarrow> message go_ret \<times> 'w run_state" where
  "execute_reload_skills call s =
     (case ag_skill_loader (rs_agent s) of
        None \<Rightarrow> (Panics nil_deref, s)
      | Some ld \<Rightarrow>
          (case on_world (sl_discover ld) s of
             (Inl e, s1) \<Rightarrow>
               (Returns (tool_message (tc_id call) (''reload_skills failed: '' @ err_text e)), s1)
           | (Inr skills, s1) \<Rightarrow>
               let prune = filter (\<lambda>(n, b). n \<in> set (map sk_name skills));
                   s2 = s1\<lparr>rs_skills := skills, rs_loaded := map_option prune (rs_loaded s1)\<rparr>
               in (Returns (tool_message (tc_id call) (reload_summary skills (loaded_skills s2))), s2)))"

section \<open>Recall\<close>

fun recall_lines :: "'w runtime \<Rightarrow> int \<Rightarrow> search_result list \<Rightarrow> string" where
  "recall_lines rt i [] = ''''"
| "recall_lines rt i (r # rs) =
     int_str i @ (if 0 < sr_score r then ''. [score: '' @ rt_score rt (sr_score r) @ ''] '' else ''. '') @
     msg_content (sr_message r) @ nl @ recall_lines rt (i + 1) rs"

definition execute_recall ::
  "'w runtime \<Rightarrow> 'w session \<Rightarrow> tool_call \<Rightarrow> 'w run_state \<Rightarrow> message go_ret \<times> 'w run_state" where
  "execute_recall rt ses call s =
     (let reply = (\<lambda>t. Returns (tool_message (tc_id call) t)) in
      case rt_dec_query rt (tc_args call) of
        Inl e \<Rightarrow> (reply (''recall_memory: a non-empty '' @ [CHR 0x27] @ ''query'' @ [CHR 0x27] @ '' is required''), s)
      | Inr query \<Rightarrow>
          if query = '''' then
            (reply (''recall_memory: a non-empty '' @ [CHR 0x27] @ ''query'' @ [CHR 0x27] @ '' is required''), s)
          else case ag_memory (rs_agent s) of
              None \<Rightarrow> (reply ''recall_memory: memory is not configured'', s)
            | Some mem \<Rightarrow>
                (case on_world (mem_search mem (ses_id ses) query 5) s of
                   (Inl e, s1) \<Rightarrow> (reply (''recall_memory: search failed: '' @ err_text e), s1)
                 | (Inr results, s1) \<Rightarrow>
                     if length results = 0
                     then (reply (''recall_memory: no results found for '' @ go_quote query), s1)
                     else (reply (''Found '' @ int_str (int (length results)) @ '' relevant memories for '' @
                             go_quote query @ '':'' @ nl @ nl @ recall_lines rt 1 results), s1)))"

section \<open>Sub-agents\<close>

text \<open>
  A run of another agent: it gets the agent, the session, the input, whether it streams, and the
  world; it gives the events it sent, its result and the world.
\<close>

type_synonym 'w sub_runner =
  "'w agent \<Rightarrow> 'w session \<Rightarrow> message \<Rightarrow> bool \<Rightarrow> 'w
     \<Rightarrow> (stream_event list \<times> (go_err + run_result)) \<times> 'w"

text \<open>
  \<^verbatim>\<open>stripAgentTools\<close> filters in place (\<^verbatim>\<open>out := tools[:0]\<close>): it returns the tools that wrap no
  agent, and leaves the caller's slice with these at the front and its old tail behind them.
\<close>

definition strip_agent_tools :: "'w tool list \<Rightarrow> 'w tool list \<times> 'w tool list" where
  "strip_agent_tools tools =
     (let out = filter (\<lambda>t. \<not> t_is_agent t) tools in (out, out @ drop (length out) tools))"

text \<open>The loop over the events of a streaming sub-agent: progress to forward, and the reply.\<close>

fun sub_events :: "string \<Rightarrow> stream_event list \<Rightarrow> string \<Rightarrow> string \<Rightarrow> stream_event list \<times> string" where
  "sub_events cid [] buf final =
     ([], if buf \<noteq> '''' then buf else if final = '''' then ''(completed, no output)'' else final)"
| "sub_events cid (e # es) buf final =
     (case e of
        StreamThought t \<Rightarrow>
          (case sub_events cid es buf final of (ps, r) \<Rightarrow> (StreamToolProgress cid t # ps, r))
      | StreamTextDelta t \<Rightarrow>
          (case sub_events cid es (buf @ t) final of (ps, r) \<Rightarrow> (StreamToolProgress cid t # ps, r))
      | StreamError err \<Rightarrow> ([], ''subagent: '' @ err_text err)
      | StreamAborted err \<Rightarrow> ([], buf)
      | StreamDone (Some r) \<Rightarrow>
          sub_events cid es buf (if rr_final_output r \<noteq> '''' then rr_final_output r else final)
      | _ \<Rightarrow> sub_events cid es buf final)"

definition sub_agent :: "subagent_args \<Rightarrow> 'w chat_model \<Rightarrow> 'w tool list \<Rightarrow> 'w agent" where
  "sub_agent args mdl tools =
     (base_agent (sa_name args))\<lparr>
       ag_description := (if sa_description args \<noteq> '''' then sa_description args
          else if 80 < length (sa_task args) then take 77 (sa_task args) @ ''...'' else sa_task args),
       ag_instructions := sa_prompt args, ag_model := Some mdl, ag_tools := tools,
       ag_max_turns := 3, ag_no_spawn := True\<rparr>"

definition execute_sub_agent ::
  "'w runtime \<Rightarrow> 'w sub_runner \<Rightarrow> tool_call \<Rightarrow> 'w run_state \<Rightarrow> message go_ret \<times> 'w run_state" where
  "execute_sub_agent rt sub call s =
     (let reply = (\<lambda>t. Returns (tool_message (tc_id call) t));
          missing = reply ''subagent: name, prompt, and task are required'' in
      case rt_dec_subagent rt (tc_args call) of
        Inl e \<Rightarrow> (missing, s)
      | Inr args \<Rightarrow>
          if sa_name args = '''' \<or> sa_prompt args = '''' \<or> sa_task args = '''' then (missing, s)
          else
            let (stripped, left) = strip_agent_tools (ag_tools (rs_agent s));
                s1 = s\<lparr>rs_agent := (rs_agent s)\<lparr>ag_tools := left\<rparr>\<rparr>;
                child = sub_agent args (rs_model s) stripped
            in case on_world (rt_fresh rt (sa_name args)) s1 of (sid, s2) \<Rightarrow>
                 (case on_world (sub child (new_session sid) (user_message (sa_task args)) (rs_streaming s)) s2 of
                    ((evs, res), s3) \<Rightarrow>
                      if rs_streaming s then
                        (case sub_events (tc_id call) evs '''' '''' of (ps, r) \<Rightarrow> (reply r, send_all ps s3))
                      else
                        (case res of
                           Inl e \<Rightarrow> (reply (''subagent error: '' @ err_text e), s3)
                         | Inr r \<Rightarrow> (reply (rr_final_output r), s3))))"

section \<open>One call\<close>

definition tool_detail :: "string \<Rightarrow> (string \<times> detail) list" where
  "tool_detail name = [(''tool'', DText name)]"

text \<open>\<^verbatim>\<open>fireToolHooks\<close> and \<^verbatim>\<open>fireToolHooksEnd\<close>: for a built-in tool the hook cannot change the reply.\<close>

definition start_hook ::
  "function_def \<Rightarrow> string \<Rightarrow> 'w run_state \<Rightarrow> nat option \<times> 'w run_state" where
  "start_hook def args s =
     (case ag_hooks (rs_agent s) of
        None \<Rightarrow> (None, s)
      | Some h \<Rightarrow> (case on_world (h_tool_start h def args) s of (st, s') \<Rightarrow> (Some st, s')))"

definition end_hook ::
  "function_def \<Rightarrow> string \<Rightarrow> string \<times> go_err option \<Rightarrow> nat option \<Rightarrow> 'w run_state
     \<Rightarrow> (string \<times> go_err option) \<times> 'w run_state" where
  "end_hook def args out st s =
     (case (ag_hooks (rs_agent s), st) of
        (Some h, Some n) \<Rightarrow> on_world (h_tool_end h def args (fst out) (snd out) n) s
      | _ \<Rightarrow> (out, s))"

definition run_builtin ::
  "function_def \<Rightarrow> tool_call \<Rightarrow> ('w run_state \<Rightarrow> message go_ret \<times> 'w run_state) \<Rightarrow> 'w run_state
     \<Rightarrow> message go_ret \<times> 'w run_state" where
  "run_builtin def call body s =
     (case start_hook def (tc_args call) s of (st, s1) \<Rightarrow>
        case body (observe stage_tool_execute Enter (tool_detail (fd_name def)) None s1) of
          (Panics p, s2) \<Rightarrow> (Panics p, s2)
        | (Returns m, s2) \<Rightarrow>
            let s3 = observe stage_tool_execute Leave (tool_detail (fd_name def)) None s2 in
            (Returns m, snd (end_hook def (tc_args call) (msg_content m, None) st s3)))"

text \<open>The loop over the chunks of a streaming tool: output, error, progress events.\<close>

fun tool_chunks :: "string \<Rightarrow> tool_chunk list \<Rightarrow> string \<times> go_err option \<times> stream_event list" where
  "tool_chunks cid [] = ('''', None, [])"
| "tool_chunks cid (k # ks) =
     (case tk_error k of
        Some e \<Rightarrow> ('''', Some e, [])
      | None \<Rightarrow>
          (case tool_chunks cid ks of (out, err, evs) \<Rightarrow>
             (tk_content k @ out, err, StreamToolProgress cid (tk_content k) # evs)))"

definition invoke_tool ::
  "'w tool \<Rightarrow> 'w session \<Rightarrow> tool_call \<Rightarrow> 'w run_state \<Rightarrow> (string \<times> go_err option) go_ret \<times> 'w run_state" where
  "invoke_tool t ses call s =
     (case t_stream t of
        Some f \<Rightarrow>
          (case on_world (f ses (tc_args call)) s of
             (Panics p, s1) \<Rightarrow> (Panics p, s1)
           | (Returns ks, s1) \<Rightarrow>
               (case tool_chunks (tc_id call) ks of (out, err, evs) \<Rightarrow>
                  (Returns (out, err), send_all evs s1)))
      | None \<Rightarrow> on_world (t_execute t ses (tc_args call)) s)"

definition run_registered ::
  "function_def \<Rightarrow> 'w tool \<Rightarrow> 'w session \<Rightarrow> tool_call \<Rightarrow> 'w run_state \<Rightarrow> message go_ret \<times> 'w run_state" where
  "run_registered def t ses call s =
     (case start_hook def (tc_args call) s of (st, s1) \<Rightarrow>
        case invoke_tool t ses call
            (observe stage_tool_execute Enter (tool_detail (tc_name call)) None s1) of
          (Panics p, s2) \<Rightarrow> (Panics p, s2)
        | (Returns (out, err), s2) \<Rightarrow>
            let s3 = observe stage_tool_execute Leave (tool_detail (tc_name call)) err s2 in
            (case end_hook def (tc_args call) (out, err) st s3 of ((out', err'), s4) \<Rightarrow>
               (Returns (tool_message (tc_id call)
                  (case err' of Some e \<Rightarrow> ''error: '' @ err_text e | None \<Rightarrow> out')), s4)))"

definition not_found_message :: "tool_call \<Rightarrow> message" where
  "not_found_message call =
     tool_message (tc_id call) (''tool '' @ go_quote (tc_name call) @ '' not found'')"

definition execute_one_tool ::
  "'w runtime \<Rightarrow> 'w sub_runner \<Rightarrow> 'w session \<Rightarrow> tool_call \<Rightarrow> 'w run_state
     \<Rightarrow> message go_ret \<times> 'w run_state" where
  "execute_one_tool rt sub ses call s =
     (case tool_def s (tc_name call) of
        None \<Rightarrow> (Returns (not_found_message call), s)
      | Some def \<Rightarrow>
          if tc_name call = ''use_skill'' then run_builtin def call (execute_use_skill rt call) s
          else if tc_name call = ''reload_skills'' then run_builtin def call (execute_reload_skills call) s
          else if tc_name call = ''recall_memory'' then run_builtin def call (execute_recall rt ses call) s
          else if tc_name call = ''subagent'' then run_builtin def call (execute_sub_agent rt sub call) s
          else case find_tool (ag_tools (rs_agent s)) (tc_name call) of
              None \<Rightarrow> (Panics nil_deref, s)
            | Some t \<Rightarrow> run_registered def t ses call s)"

text \<open>The deferred recover of the goroutine.\<close>

definition recovered :: "tool_call \<Rightarrow> message go_ret \<Rightarrow> message" where
  "recovered call r =
     (case r of Returns m \<Rightarrow> m | Panics p \<Rightarrow> tool_message (tc_id call) (''tool panic: '' @ p))"

section \<open>All calls of a turn\<close>

text \<open>
  Phase 1. The verdict of a call: \<open>Some m\<close> when the reply is already known (no such tool, or
  rejected), \<open>None\<close> when the call is approved.
\<close>

definition self_approves :: "'w run_state \<Rightarrow> tool_call \<Rightarrow> bool" where
  "self_approves s call =
     (case find_tool (ag_tools (rs_agent s)) (tc_name call) of
        None \<Rightarrow> False
      | Some t \<Rightarrow> (case t_self_approve t of None \<Rightarrow> False | Some f \<Rightarrow> f (tc_args call) (rs_world s)))"

definition is_transfer :: "tool_call \<Rightarrow> bool" where
  "is_transfer call = has_prefix (tc_name call) ''transfer_to_''"

definition rejected_message :: "tool_call \<Rightarrow> string \<Rightarrow> message" where
  "rejected_message call reason =
     tool_message (tc_id call) (''tool '' @ go_quote (tc_name call) @ '' rejected: '' @ reason)"

definition approve_call ::
  "'w approver \<Rightarrow> 'w session \<Rightarrow> tool_call \<Rightarrow> 'w run_state \<Rightarrow> message option \<times> 'w run_state" where
  "approve_call ap ses call s =
     (case tool_def s (tc_name call) of
        None \<Rightarrow> (Some (not_found_message call), s)
      | Some def \<Rightarrow>
          if is_transfer call \<or> self_approves s call then (None, s)
          else case on_world (ap call def ses) s of
              ((True, reason), s') \<Rightarrow> (None, s')
            | ((False, reason), s') \<Rightarrow>
                (Some (rejected_message call reason), s'))"

fun approve_calls ::
  "'w approver \<Rightarrow> 'w session \<Rightarrow> tool_call list \<Rightarrow> 'w run_state \<Rightarrow> message option list \<times> 'w run_state" where
  "approve_calls ap ses [] s = ([], s)"
| "approve_calls ap ses (c # cs) s =
     (case approve_call ap ses c s of (v, s1) \<Rightarrow>
        case approve_calls ap ses cs s1 of (vs, s2) \<Rightarrow> (v # vs, s2))"

text \<open>Phase 2: the goroutines, each writing the slot of its index.\<close>

fun run_calls ::
  "'w runtime \<Rightarrow> 'w sub_runner \<Rightarrow> 'w session \<Rightarrow> tool_call list \<Rightarrow> nat list
     \<Rightarrow> message list \<Rightarrow> 'w run_state \<Rightarrow> message list \<times> 'w run_state" where
  "run_calls rt sub ses calls [] results s = (results, s)"
| "run_calls rt sub ses calls (i # is) results s =
     (case execute_one_tool rt sub ses (calls ! i) s of (r, s') \<Rightarrow>
        run_calls rt sub ses calls is (results[i := recovered (calls ! i) r]) s')"

definition verdict_slots :: "message option list \<Rightarrow> message list" where
  "verdict_slots vs = map (\<lambda>v. case v of Some m \<Rightarrow> m | None \<Rightarrow> empty_message) vs"

definition approved_indices :: "message option list \<Rightarrow> nat list" where
  "approved_indices vs = filter (\<lambda>i. vs ! i = None) [0..<length vs]"

definition execute_tools ::
  "'w runtime \<Rightarrow> 'w sub_runner \<Rightarrow> 'w session \<Rightarrow> tool_call list \<Rightarrow> 'w run_state
     \<Rightarrow> message list \<times> 'w run_state" where
  "execute_tools rt sub ses calls s =
     (if length calls = 0 then ([], s)
      else case (case ag_approver (rs_agent s) of
               None \<Rightarrow> (replicate (length calls) None, s)
             | Some ap \<Rightarrow> approve_calls ap ses calls s) of
          (vs, s1) \<Rightarrow>
            run_calls rt sub ses calls (rt_order rt (approved_indices vs) (rs_world s1)) (verdict_slots vs) s1)"

section \<open>Nothing terminal is sent\<close>

lemma quiet_start_hook: "start_hook def a t = (st, u) \<Longrightarrow> quiet s t \<Longrightarrow> quiet s u"
  by (auto simp: start_hook_def split: option.splits prod.splits intro: quiet_on_world)

lemma quiet_end_hook: "end_hook def a out st t = (r, u) \<Longrightarrow> quiet s t \<Longrightarrow> quiet s u"
  by (auto simp: end_hook_def split: option.splits prod.splits intro: quiet_on_world)

lemma tool_chunks_plain: "tool_chunks cid ks = (out, err, evs) \<Longrightarrow> \<forall>e\<in>set evs. \<not> is_terminal e"
  by (induction ks arbitrary: out err evs) (auto split: option.splits prod.splits)

lemma sub_events_plain: "\<forall>e\<in>set (fst (sub_events cid es buf final)). \<not> is_terminal e"
  by (induction cid es buf final rule: sub_events.induct)
     (auto split: stream_event.splits option.splits prod.splits)

lemma quiet_invoke:
  assumes "invoke_tool t ses call s = (r, u)"
  shows "quiet s u"
proof (cases "t_stream t")
  case None
  then show ?thesis using assms by (simp add: invoke_tool_def quiet_on_world [OF _ quiet_refl])
next
  case (Some f)
  obtain k s1 where o: "on_world (f ses (tc_args call)) s = (k, s1)" by fastforce
  have q: "quiet s s1" by (rule quiet_on_world [OF o quiet_refl])
  show ?thesis
  proof (cases k)
    case (Returns ks)
    obtain out err evs where c: "tool_chunks (tc_id call) ks = (out, err, evs)" by (metis prod.exhaust)
    then have "quiet s (send_all evs s1)" using q by (simp add: quiet_send_all tool_chunks_plain)
    then show ?thesis using assms Some o Returns c by (simp add: invoke_tool_def)
  qed (use assms Some o q in \<open>simp add: invoke_tool_def\<close>)
qed

lemma quiet_use_skill: "quiet s (snd (execute_use_skill rt call s))"
  by (auto simp: execute_use_skill_def Let_def quiet_refl intro!: quiet_fields
      intro: quiet_on_world [OF _ quiet_refl] split: sum.splits option.splits prod.splits)

lemma quiet_reload: "quiet s (snd (execute_reload_skills call s))"
proof (cases "ag_skill_loader (rs_agent s)")
  case (Some ld)
  obtain r t where o: "on_world (sl_discover ld) s = (r, t)" by fastforce
  have "quiet s t" by (rule quiet_on_world [OF o quiet_refl])
  then show ?thesis using Some o
    by (cases r) (simp_all add: execute_reload_skills_def Let_def quiet_def)
qed (simp add: execute_reload_skills_def quiet_refl)

lemma quiet_recall: "quiet s (snd (execute_recall rt ses call s))"
  by (auto simp: execute_recall_def Let_def quiet_refl
      intro: quiet_on_world [OF _ quiet_refl] split: sum.splits option.splits prod.splits)

lemma quiet_sub_agent: "quiet s (snd (execute_sub_agent rt sub call s))"
proof (cases "rt_dec_subagent rt (tc_args call)")
  case (Inr args)
  let ?s1 = "s\<lparr>rs_agent := (rs_agent s)\<lparr>ag_tools := snd (strip_agent_tools (ag_tools (rs_agent s)))\<rparr>\<rparr>"
  obtain sid s2 where a: "on_world (rt_fresh rt (sa_name args)) ?s1 = (sid, s2)" by fastforce
  obtain evs res s3 where b: "on_world (sub (sub_agent args (rs_model s) (fst (strip_agent_tools (ag_tools (rs_agent s)))))
      (new_session sid) (user_message (sa_task args)) (rs_streaming s)) s2 = ((evs, res), s3)"
    by (metis prod.exhaust)
  have "quiet s ?s1" by (simp add: quiet_def)
  then have "quiet s s3" using a b by (blast intro: quiet_on_world)
  moreover obtain ps r where c: "sub_events (tc_id call) evs '''' '''' = (ps, r)" by fastforce
  then have "\<forall>e\<in>set ps. \<not> is_terminal e" using sub_events_plain [of "tc_id call" evs "''''" "''''"] by simp
  ultimately show ?thesis using Inr a b
    by (auto simp: execute_sub_agent_def Let_def split_beta c quiet_refl
        intro: quiet_send_all split: sum.splits)
qed (simp add: execute_sub_agent_def Let_def quiet_refl)

lemma quiet_builtin:
  assumes "\<And>t. quiet t (snd (body t))"
  shows "quiet s (snd (run_builtin def call body s))"
proof -
  obtain st s1 where a: "start_hook def (tc_args call) s = (st, s1)" by fastforce
  let ?s1 = "observe stage_tool_execute Enter (tool_detail (fd_name def)) None s1"
  obtain r s2 where b: "body ?s1 = (r, s2)" by fastforce
  have "quiet s ?s1" using quiet_start_hook [OF a quiet_refl] by (rule quiet_observe)
  moreover have "quiet ?s1 s2" using assms [of ?s1] b by simp
  ultimately have q: "quiet s s2" by (rule quiet_trans)
  let ?s3 = "observe stage_tool_execute Leave (tool_detail (fd_name def)) None s2"
  have "quiet s (snd (end_hook def (tc_args call) out st ?s3))" for out
    using quiet_end_hook [OF _ quiet_observe [OF q]] by (metis surjective_pairing)
  then show ?thesis using a b q by (cases r) (simp_all add: run_builtin_def Let_def)
qed

lemma quiet_registered: "quiet s (snd (run_registered def t ses call s))"
proof -
  obtain st s1 where a: "start_hook def (tc_args call) s = (st, s1)" by fastforce
  let ?s1 = "observe stage_tool_execute Enter (tool_detail (tc_name call)) None s1"
  obtain r s2 where b: "invoke_tool t ses call ?s1 = (r, s2)" by fastforce
  have "quiet s ?s1" using quiet_start_hook [OF a quiet_refl] by (rule quiet_observe)
  then have q: "quiet s s2" using quiet_invoke [OF b] by (rule quiet_trans)
  show ?thesis
  proof (cases r)
    case (Returns oe)
    let ?s3 = "observe stage_tool_execute Leave (tool_detail (tc_name call)) (snd oe) s2"
    obtain o' u where c: "end_hook def (tc_args call) oe st ?s3 = (o', u)" by fastforce
    have "quiet s u" by (rule quiet_end_hook [OF c quiet_observe [OF q]])
    then show ?thesis using a b Returns c by (auto simp: run_registered_def Let_def split_beta)
  qed (use a b q in \<open>simp add: run_registered_def\<close>)
qed

lemma quiet_one_tool: "quiet s (snd (execute_one_tool rt sub ses call s))"
  by (auto simp: execute_one_tool_def quiet_refl quiet_registered
      intro!: quiet_builtin quiet_use_skill quiet_reload quiet_recall quiet_sub_agent split: option.splits)

lemma quiet_approve: "quiet s (snd (approve_call ap ses call s))"
  by (auto simp: approve_call_def quiet_refl intro: quiet_on_world [OF _ quiet_refl]
      split: option.splits prod.splits bool.splits)

lemma quiet_approve_calls: "quiet s (snd (approve_calls ap ses cs s))"
proof (induction cs arbitrary: s)
  case (Cons c cs)
  obtain v s1 where a: "approve_call ap ses c s = (v, s1)" by fastforce
  have "quiet s s1" using quiet_approve [of s ap ses c] a by simp
  then have "quiet s (snd (approve_calls ap ses cs s1))" using Cons.IH by (rule quiet_trans)
  then show ?case by (simp add: a split_beta)
qed (simp add: quiet_refl)

lemma quiet_run_calls: "quiet s (snd (run_calls rt sub ses calls is results s))"
proof (induction "is" arbitrary: results s)
  case (Cons i "is")
  obtain r s1 where a: "execute_one_tool rt sub ses (calls ! i) s = (r, s1)" by fastforce
  have "quiet s s1" using quiet_one_tool [of s rt sub ses "calls ! i"] a by simp
  from quiet_trans [OF this Cons.IH] show ?case by (simp add: a)
qed (simp add: quiet_refl)

lemma quiet_execute_tools: "quiet s (snd (execute_tools rt sub ses calls s))"
proof -
  obtain vs s1 where a: "(case ag_approver (rs_agent s) of None \<Rightarrow> (replicate (length calls) None, s)
      | Some ap \<Rightarrow> approve_calls ap ses calls s) = (vs, s1)" by (metis prod.exhaust)
  have "quiet s s1"
  proof (cases "ag_approver (rs_agent s)")
    case (Some ap)
    then show ?thesis using quiet_approve_calls [of s ap ses calls] a by simp
  qed (use a in \<open>simp add: quiet_refl\<close>)
  from quiet_trans [OF this quiet_run_calls] show ?thesis
    by (simp add: execute_tools_def a quiet_refl)
qed

section \<open>Every call is answered\<close>

text \<open>A reply of the call: a tool message that carries its id and makes no call itself.\<close>

definition answers :: "tool_call \<Rightarrow> message \<Rightarrow> bool" where
  "answers c m = (msg_role m = RoleTool \<and> msg_tool_call_id m = tc_id c \<and> msg_tool_calls m = [])"

lemma answers_tool_message [simp]: "answers c (tool_message (tc_id c) t)"
  by (simp add: answers_def)

lemma answers_skill: "execute_use_skill rt call s = (Returns m, t) \<Longrightarrow> answers call m"
  by (auto simp: execute_use_skill_def Let_def split: sum.splits option.splits prod.splits if_splits)

lemma answers_reload: "execute_reload_skills call s = (Returns m, t) \<Longrightarrow> answers call m"
  by (auto simp: execute_reload_skills_def Let_def split: sum.splits option.splits prod.splits)

lemma answers_recall: "execute_recall rt ses call s = (Returns m, t) \<Longrightarrow> answers call m"
  by (auto simp: execute_recall_def Let_def split: sum.splits option.splits prod.splits if_splits)

lemma answers_sub_agent: "execute_sub_agent rt sub call s = (Returns m, t) \<Longrightarrow> answers call m"
  by (auto simp: execute_sub_agent_def Let_def split: sum.splits option.splits prod.splits if_splits)

lemma answers_builtin:
  assumes "run_builtin def call body s = (Returns m, u)" "\<And>t. body s' = (Returns m, t) \<Longrightarrow> answers call m"
    and "s' = observe stage_tool_execute Enter (tool_detail (fd_name def)) None (snd (start_hook def (tc_args call) s))"
  shows "answers call m"
  using assms by (auto simp: run_builtin_def Let_def split: prod.splits go_ret.splits)

lemma answers_registered: "run_registered def t ses call s = (Returns m, u) \<Longrightarrow> answers call m"
  by (auto simp: run_registered_def Let_def split: prod.splits go_ret.splits)

lemma answers_one_tool: "execute_one_tool rt sub ses call s = (Returns m, u) \<Longrightarrow> answers call m"
  by (auto simp: execute_one_tool_def not_found_message_def split: option.splits if_splits
      elim: answers_registered answers_builtin [OF _ answers_skill] answers_builtin [OF _ answers_reload]
        answers_builtin [OF _ answers_recall] answers_builtin [OF _ answers_sub_agent])

lemma answers_recovered:
  assumes "execute_one_tool rt sub ses call s = (r, u)"
  shows "answers call (recovered call r)"
  using assms answers_one_tool [of rt sub ses call s] by (cases r) (auto simp: recovered_def)

lemma answers_verdict: "approve_call ap ses call s = (Some m, t) \<Longrightarrow> answers call m"
  by (auto simp: approve_call_def not_found_message_def rejected_message_def split: option.splits prod.splits bool.splits if_splits)

lemma approve_calls_answer:
  "approve_calls ap ses cs s = (vs, t) \<Longrightarrow>
     length vs = length cs \<and> (\<forall>i<length cs. \<forall>m. vs ! i = Some m \<longrightarrow> answers (cs ! i) m)"
proof (induction cs arbitrary: s vs)
  case (Cons c cs)
  obtain v s1 where a: "approve_call ap ses c s = (v, s1)" by fastforce
  obtain vs' where b: "approve_calls ap ses cs s1 = (vs', t)" "vs = v # vs'"
    using Cons.prems a by (auto split: prod.splits)
  show ?case using Cons.IH [OF b(1)] b(2) answers_verdict [OF _] a
    by (auto simp: nth_Cons split: nat.split)
qed simp

text \<open>The slots after the goroutines: those that ran hold an answer, the others are untouched.\<close>

lemma run_calls_slots:
  "length results = length calls \<Longrightarrow> set is \<subseteq> {..<length calls} \<Longrightarrow>
   run_calls rt sub ses calls is results s = (out, t) \<Longrightarrow>
   length out = length calls \<and>
   (\<forall>i<length calls. (i \<in> set is \<longrightarrow> answers (calls ! i) (out ! i)) \<and>
      (i \<notin> set is \<longrightarrow> out ! i = results ! i))"
proof (induction "is" arbitrary: results s)
  case (Cons j "is")
  obtain r s1 where a: "execute_one_tool rt sub ses (calls ! j) s = (r, s1)" by fastforce
  let ?res = "results[j := recovered (calls ! j) r]"
  have j: "j < length results" using Cons.prems by simp
  have b: "run_calls rt sub ses calls is ?res s1 = (out, t)" using Cons.prems(3) a by simp
  have ih: "length out = length calls \<and> (\<forall>i<length calls. (i \<in> set is \<longrightarrow> answers (calls ! i) (out ! i)) \<and>
      (i \<notin> set is \<longrightarrow> out ! i = ?res ! i))"
    using Cons.IH [OF _ _ b] Cons.prems(1,2) by simp
  have ans: "answers (calls ! j) (?res ! j)" using answers_recovered [OF a] j by simp
  show ?case
  proof (intro conjI allI impI)
    show "length out = length calls" using ih by simp
  next
    fix i assume "i < length calls" "i \<in> set (j # is)"
    then show "answers (calls ! i) (out ! i)" using ih ans by (cases "i \<in> set is") auto
  next
    fix i assume i: "i < length calls" "i \<notin> set (j # is)"
    then have "out ! i = ?res ! i" using ih by simp
    then show "out ! i = results ! i" using i by simp
  qed
qed simp

text \<open>An invariant of the goroutines, with what each of them puts into its slot.\<close>

lemma run_calls_invariant:
  assumes step: "\<And>i s r s'. i \<in> I \<Longrightarrow> Inv s \<Longrightarrow> execute_one_tool rt sub ses (calls ! i) s = (r, s') \<Longrightarrow>
      Inv s' \<and> Q i (recovered (calls ! i) r)"
  shows "set is \<subseteq> I \<Longrightarrow> I \<subseteq> {..<length results} \<Longrightarrow> Inv s \<Longrightarrow> run_calls rt sub ses calls is results s = (out, t) \<Longrightarrow>
    Inv t \<and> (\<forall>i\<in>I. i \<in> set is \<or> Q i (results ! i) \<longrightarrow> Q i (out ! i))"
proof (induction "is" arbitrary: results s)
  case (Cons j "is")
  obtain r s1 where a: "execute_one_tool rt sub ses (calls ! j) s = (r, s1)" by fastforce
  have j: "j \<in> I" "j < length results" using Cons.prems(1,2) by auto
  from step [OF j(1) Cons.prems(3) a] have q: "Inv s1" "Q j (recovered (calls ! j) r)" by simp_all
  let ?res = "results[j := recovered (calls ! j) r]"
  have "Inv t \<and> (\<forall>i\<in>I. i \<in> set is \<or> Q i (?res ! i) \<longrightarrow> Q i (out ! i))"
    using Cons.IH [of ?res s1] Cons.prems q(1) a by simp
  moreover have "Q i (?res ! i)" if "i = j \<or> Q i (results ! i)" for i
    using q(2) j(2) that by (cases "i = j") auto
  ultimately show ?case by auto
qed auto

text \<open>Phase 1 of \<^verbatim>\<open>executeTools\<close>; without an approver every call is approved.\<close>

definition verdicts ::
  "'w session \<Rightarrow> tool_call list \<Rightarrow> 'w run_state \<Rightarrow> message option list \<times> 'w run_state" where
  "verdicts ses calls s =
     (case ag_approver (rs_agent s) of
        None \<Rightarrow> (replicate (length calls) None, s)
      | Some ap \<Rightarrow> approve_calls ap ses calls s)"

lemma verdicts_answer:
  assumes "verdicts ses calls s = (vs, t)"
  shows "length vs = length calls" "\<forall>i<length calls. \<forall>m. vs ! i = Some m \<longrightarrow> answers (calls ! i) m"
proof -
  have "length vs = length calls \<and> (\<forall>i<length calls. \<forall>m. vs ! i = Some m \<longrightarrow> answers (calls ! i) m)"
  proof (cases "ag_approver (rs_agent s)")
    case (Some ap)
    then show ?thesis using assms approve_calls_answer [of ap ses calls s vs t] by (simp add: verdicts_def)
  qed (use assms in \<open>auto simp: verdicts_def\<close>)
  then show "length vs = length calls" "\<forall>i<length calls. \<forall>m. vs ! i = Some m \<longrightarrow> answers (calls ! i) m"
    by simp_all
qed

lemma execute_tools_unfold:
  assumes "verdicts ses calls s = (vs, s1)" "calls \<noteq> []"
  shows "execute_tools rt sub ses calls s =
    run_calls rt sub ses calls (rt_order rt (approved_indices vs) (rs_world s1)) (verdict_slots vs) s1"
  using assms by (simp add: execute_tools_def verdicts_def)

text \<open>The scheduler runs exactly the goroutines that were started.\<close>

definition fair_order :: "'w runtime \<Rightarrow> bool" where
  "fair_order rt = (\<forall>is w. distinct is \<longrightarrow> distinct (rt_order rt is w) \<and> set (rt_order rt is w) = set is)"

lemma fair_order_approved:
  assumes "fair_order rt"
  shows "set (rt_order rt (approved_indices vs) w) = {i. i < length vs \<and> vs ! i = None}"
  using assms by (auto simp: fair_order_def approved_indices_def)

lemma execute_tools_slots:
  assumes fair: "fair_order rt" and v: "verdicts ses calls s = (vs, s1)"
  shows "length (fst (execute_tools rt sub ses calls s)) = length calls" (is ?L)
    and "i < length calls \<Longrightarrow> answers (calls ! i) (fst (execute_tools rt sub ses calls s) ! i)"
    and "i < length calls \<Longrightarrow> vs ! i = Some m \<Longrightarrow> fst (execute_tools rt sub ses calls s) ! i = m"
proof -
  note len = verdicts_answer(1) [OF v] and ans = verdicts_answer(2) [OF v]
  let ?is = "rt_order rt (approved_indices vs) (rs_world s1)"
  have "?L \<and> (\<forall>i<length calls. answers (calls ! i) (fst (execute_tools rt sub ses calls s) ! i) \<and>
      (\<forall>m. vs ! i = Some m \<longrightarrow> fst (execute_tools rt sub ses calls s) ! i = m))"
  proof (cases "calls = []")
    case False
    obtain out t where r: "run_calls rt sub ses calls ?is (verdict_slots vs) s1 = (out, t)" by fastforce
    have is_set: "set ?is = {i. i < length vs \<and> vs ! i = None}" by (rule fair_order_approved [OF fair])
    have out: "length out = length calls \<and> (\<forall>i<length calls. (i \<in> set ?is \<longrightarrow> answers (calls ! i) (out ! i)) \<and>
        (i \<notin> set ?is \<longrightarrow> out ! i = verdict_slots vs ! i))"
      by (rule run_calls_slots [OF _ _ r]) (auto simp: is_set len verdict_slots_def)
    have slot: "vs ! i = Some m \<Longrightarrow> i < length calls \<Longrightarrow> out ! i = m" for i m
      using out is_set len by (simp add: verdict_slots_def)
    have "answers (calls ! i) (out ! i)" if "i < length calls" for i
      using out is_set len ans slot that by (cases "vs ! i") auto
    then show ?thesis using out slot by (simp add: execute_tools_unfold [OF v False] r)
  qed (simp add: execute_tools_def)
  then show ?L "i < length calls \<Longrightarrow> answers (calls ! i) (fst (execute_tools rt sub ses calls s) ! i)"
    "i < length calls \<Longrightarrow> vs ! i = Some m \<Longrightarrow> fst (execute_tools rt sub ses calls s) ! i = m"
    by simp_all
qed

lemma execute_tools_answers:
  assumes "fair_order rt"
  shows "list_all2 answers calls (fst (execute_tools rt sub ses calls s))"
proof -
  obtain vs s1 where v: "verdicts ses calls s = (vs, s1)" by fastforce
  show ?thesis using execute_tools_slots(1,2) [OF assms v, where sub=sub] by (simp add: list_all2_conv_all_nth)
qed

text \<open>
  C4: whatever the order in which the goroutines run, and whichever tools panic, fail, are unknown
  or are rejected, \<^verbatim>\<open>executeTools\<close> answers every call with one tool message, in the order of
  the calls, each carrying the id of its call.
\<close>

theorem tool_results_answer_calls:
  assumes "fair_order rt"
  shows "list_all2 answers calls (fst (execute_tools rt sub ses calls s))"
  using assms by (rule execute_tools_answers)

definition plain_call :: "string \<Rightarrow> string \<Rightarrow> string \<Rightarrow> tool_call" where
  "plain_call i n a = \<lparr>tc_id = i, tc_type = ''function'', tc_function = \<lparr>tcf_name = n, tcf_args = a\<rparr>\<rparr>"

definition no_sub_runner :: "'w sub_runner" where
  "no_sub_runner ag ses m st w = (([], Inl (ErrText ''no'')), w)"

definition panicking_tool :: "unit tool" where
  "panicking_tool = \<lparr>t_def = \<lparr>fd_name = ''p'', fd_description = '''', fd_parameters = '''', fd_end_turn = False\<rparr>,
     t_execute = (\<lambda>ses a w. (Panics ''boom'', w)), t_stream = None, t_self_approve = None, t_is_agent = False\<rparr>"

definition tool_run :: "unit run_state" where
  "tool_run = unit_run\<lparr>rs_agent := (rs_agent unit_run)\<lparr>ag_tools := [panicking_tool]\<rparr>\<rparr>"

lemma fair_unit_runtime [simp]: "fair_order (unit_runtime\<lparr>rt_order := (\<lambda>is w. rev is)\<rparr>)"
  by (simp add: fair_order_def)

lemma tool_results_answer_calls_witness:
  "list_all2 answers [plain_call ''1'' ''p'' '''', plain_call ''2'' ''q'' '''']
     (fst (execute_tools (unit_runtime\<lparr>rt_order := (\<lambda>is w. rev is)\<rparr>) no_sub_runner (new_session ''s'')
        [plain_call ''1'' ''p'' '''', plain_call ''2'' ''q'' ''''] tool_run))"
  by (rule tool_results_answer_calls) simp

section \<open>What the approver refuses does not run\<close>

text \<open>The calls that skip the approver: a transfer, or a tool that approves itself.\<close>

definition skips_approver :: "'w run_state \<Rightarrow> tool_call \<Rightarrow> bool" where
  "skips_approver s c = (is_transfer c \<or> self_approves s c)"

lemma fst_on_world: "fst (on_world f s) = fst (f (rs_world s))"
  by (simp add: on_world_def split_beta)

lemma approve_call_verdict:
  assumes "tool_def s (tc_name c) = Some def"
  shows "fst (approve_call ap ses c s) = None \<longleftrightarrow>
     skips_approver s c \<or> fst (fst (ap c def ses (rs_world s)))"
proof (cases "skips_approver s c")
  case False
  obtain ok reason t where o: "on_world (ap c def ses) s = ((ok, reason), t)" by (metis prod.exhaust)
  have "fst (fst (ap c def ses (rs_world s))) = ok"
    using fst_on_world [of "ap c def ses" s] unfolding o by (metis fst_conv)
  then show ?thesis using assms False o
    by (cases ok) (auto simp: approve_call_def skips_approver_def)
qed (use assms in \<open>auto simp: approve_call_def skips_approver_def\<close>)

definition denies :: "'w approver \<Rightarrow> bool" where
  "denies ap = (\<forall>c def ses w. \<not> fst (fst (ap c def ses w)))"

definition refusal :: "'w run_state \<Rightarrow> tool_call \<Rightarrow> message \<Rightarrow> bool" where
  "refusal s c m =
     (if tool_def s (tc_name c) = None then m = not_found_message c
      else \<exists>reason. m = rejected_message c reason)"

definition with_world :: "'w run_state \<Rightarrow> 'w \<Rightarrow> 'w run_state" where
  "with_world s w = s\<lparr>rs_world := w\<rparr>"

lemma with_world_same: "with_world s (rs_world s) = s"
  by (simp add: with_world_def)

lemma tool_def_with_world: "tool_def (with_world s w) n = tool_def s n"
  by (simp add: tool_def_def with_world_def)

lemma refusal_with_world: "refusal (with_world s w) c m = refusal s c m"
  by (simp add: refusal_def tool_def_with_world)

text \<open>A call that is executed although the approver denies everything, and the state in which a call of a turn is judged.\<close>

definition passes :: "'w run_state \<Rightarrow> tool_call \<Rightarrow> bool" where
  "passes s c = (tool_def s (tc_name c) \<noteq> None \<and> skips_approver s c)"

definition at_approval :: "'w approver \<Rightarrow> 'w session \<Rightarrow> tool_call list \<Rightarrow> nat \<Rightarrow> 'w run_state \<Rightarrow> 'w run_state" where
  "at_approval ap ses calls i s = snd (approve_calls ap ses (take i calls) s)"

lemma approve_call_denied:
  assumes "denies ap"
  shows "\<exists>w. snd (approve_call ap ses c s) = with_world s w \<and>
    (if passes s c then fst (approve_call ap ses c s) = None \<and> w = rs_world s
     else \<exists>m. fst (approve_call ap ses c s) = Some m \<and> refusal s c m)"
proof (cases "tool_def s (tc_name c)")
  case None
  then have "approve_call ap ses c s = (Some (not_found_message c), with_world s (rs_world s))"
    by (simp add: approve_call_def with_world_same)
  then show ?thesis using None by (auto simp: refusal_def passes_def)
next
  case (Some def)
  show ?thesis
  proof (cases "skips_approver s c")
    case True
    then have "approve_call ap ses c s = (None, with_world s (rs_world s))" "passes s c"
      using Some by (simp_all add: approve_call_def with_world_same skips_approver_def passes_def)
    then show ?thesis by auto
  next
    case False
    obtain ok reason w where a: "ap c def ses (rs_world s) = ((ok, reason), w)" by (metis prod.exhaust)
    then have "\<not> ok" using assms(1) unfolding denies_def by (metis fst_conv)
    then have "approve_call ap ses c s = (Some (rejected_message c reason), with_world s w)" "\<not> passes s c"
      using Some False a by (simp_all add: approve_call_def on_world_def with_world_def skips_approver_def passes_def)
    then show ?thesis using Some by (auto simp: refusal_def)
  qed
qed

lemma approve_calls_denied:
  assumes "denies ap"
  shows "\<exists>w. snd (approve_calls ap ses cs s) = with_world s w \<and> length (fst (approve_calls ap ses cs s)) = length cs \<and>
    (\<forall>i<length cs. if passes (at_approval ap ses cs i s) (cs ! i) then fst (approve_calls ap ses cs s) ! i = None
       else \<exists>m. fst (approve_calls ap ses cs s) ! i = Some m \<and> refusal s (cs ! i) m)"
proof (induction cs arbitrary: s)
  case Nil
  show ?case by (auto simp: with_world_same intro!: exI [of _ "rs_world s"])
next
  case (Cons c cs)
  obtain v s1 where a: "approve_call ap ses c s = (v, s1)" by fastforce
  obtain w1 where w1: "s1 = with_world s w1" and v: "if passes s c then v = None else \<exists>m. v = Some m \<and> refusal s c m"
    using approve_call_denied [OF assms, of ses c s] by (auto simp: a split: if_splits)
  obtain vs s2 where b: "approve_calls ap ses cs s1 = (vs, s2)" by fastforce
  obtain w2 where w2: "s2 = with_world s1 w2" "length vs = length cs" and
    vs: "\<forall>i<length cs. if passes (at_approval ap ses cs i s1) (cs ! i) then vs ! i = None
       else \<exists>m. vs ! i = Some m \<and> refusal s1 (cs ! i) m"
    using Cons.IH [of s1] unfolding b fst_conv snd_conv by blast
  have state: "at_approval ap ses (c # cs) (Suc i) s = at_approval ap ses cs i s1" for i
    by (simp add: at_approval_def a split_beta)
  have r: "refusal s1 d m = refusal s d m" for d m by (simp add: w1 refusal_with_world)
  have "\<forall>i<length (c # cs). if passes (at_approval ap ses (c # cs) i s) ((c # cs) ! i) then (v # vs) ! i = None
       else \<exists>m. (v # vs) ! i = Some m \<and> refusal s ((c # cs) ! i) m"
  proof (intro allI impI)
    fix i assume i: "i < length (c # cs)"
    show "if passes (at_approval ap ses (c # cs) i s) ((c # cs) ! i) then (v # vs) ! i = None
       else \<exists>m. (v # vs) ! i = Some m \<and> refusal s ((c # cs) ! i) m"
    proof (cases i)
      case 0
      then show ?thesis using v by (simp add: at_approval_def)
    next
      case (Suc j)
      then have "j < length cs" using i by simp
      from vs [rule_format, OF this] show ?thesis unfolding Suc state by (auto simp: r split: if_splits)
    qed
  qed
  moreover have "s2 = with_world s w2" by (simp add: w1 w2(1) with_world_def)
  ultimately show ?case using a b w2(2) by auto
qed

lemma execute_tools_denied:
  assumes "ag_approver (rs_agent s) = Some ap" "denies ap" "fair_order rt"
  shows "\<exists>started slots w. execute_tools rt sub ses calls s = run_calls rt sub ses calls started slots (s\<lparr>rs_world := w\<rparr>) \<and>
    length slots = length calls \<and> s\<lparr>rs_world := w\<rparr> = snd (approve_calls ap ses calls s) \<and> distinct started \<and> set started = {i. i < length calls \<and> passes (at_approval ap ses calls i s) (calls ! i)} \<and>
    (\<forall>i<length calls. i \<notin> set started \<longrightarrow> refusal s (calls ! i) (fst (execute_tools rt sub ses calls s) ! i)) \<and>
    (started = [] \<longrightarrow> snd (execute_tools rt sub ses calls s) = s\<lparr>rs_world := w\<rparr>)"
proof (cases "calls = []")
  case False
  obtain w where w: "snd (approve_calls ap ses calls s) = with_world s w" "length (fst (approve_calls ap ses calls s)) = length calls"
    and vs: "\<forall>i<length calls. if passes (at_approval ap ses calls i s) (calls ! i) then fst (approve_calls ap ses calls s) ! i = None
       else \<exists>m. fst (approve_calls ap ses calls s) ! i = Some m \<and> refusal s (calls ! i) m"
    using approve_calls_denied [OF assms(2), of ses calls s] by blast
  let ?vs = "fst (approve_calls ap ses calls s)"
  have v: "verdicts ses calls s = (?vs, with_world s w)" using assms(1) by (simp add: verdicts_def flip: w(1))
  let ?is = "rt_order rt (approved_indices ?vs) (rs_world (with_world s w))"
  have none: "?vs ! i = None \<longleftrightarrow> passes (at_approval ap ses calls i s) (calls ! i)" if "i < length calls" for i
    using vs [rule_format, OF that] by (auto split: if_splits)
  have "set ?is = {i. i < length calls \<and> passes (at_approval ap ses calls i s) (calls ! i)}"
    using fair_order_approved [OF assms(3), of ?vs] w(2) none by auto
  moreover have "distinct ?is" using assms(3) by (simp add: fair_order_def approved_indices_def)
  moreover have "execute_tools rt sub ses calls s = run_calls rt sub ses calls ?is (verdict_slots ?vs) (s\<lparr>rs_world := w\<rparr>)"
    using execute_tools_unfold [OF v False] by (simp add: with_world_def)
  moreover have "refusal s (calls ! i) (fst (execute_tools rt sub ses calls s) ! i)"
    if i: "i < length calls" and np: "\<not> passes (at_approval ap ses calls i s) (calls ! i)" for i
  proof -
    obtain m where "?vs ! i = Some m" "refusal s (calls ! i) m" using vs [rule_format, OF i] np by (auto split: if_splits)
    then show ?thesis using execute_tools_slots(3) [OF assms(3) v i] by simp
  qed
  moreover have "length (verdict_slots ?vs) = length calls" "s\<lparr>rs_world := w\<rparr> = snd (approve_calls ap ses calls s)"
    using w by (simp_all add: verdict_slots_def with_world_def)
  ultimately show ?thesis by (intro exI [of _ ?is] exI [of _ "verdict_slots ?vs"] exI [of _ w]) auto
next
  case True
  have "execute_tools rt sub ses calls s = ([], s\<lparr>rs_world := rs_world s\<rparr>)" using True by (simp add: execute_tools_def)
  then show ?thesis using True
    by (intro exI [of _ "[]"] exI [of _ "[]"] exI [of _ "rs_world s"]) simp
qed

text \<open>
  C13: with an approver that denies every call, \<^verbatim>\<open>executeTools\<close> executes exactly the calls that the
  runner does not put to it: transfers to other agents, and calls that their tool approves itself in
  the state in which their turn comes to be approved. All the others are answered by the rejection,
  or by the message that there is no such tool. So without transfers and self-approved calls nothing
  is executed, and the run is left as it was, up to what the approver itself did to the world.
\<close>

theorem denied_calls_do_nothing:
  assumes "ag_approver (rs_agent s) = Some ap" "denies ap" "fair_order rt"
  shows "\<exists>started slots w. execute_tools rt sub ses calls s = run_calls rt sub ses calls started slots (s\<lparr>rs_world := w\<rparr>) \<and>
    distinct started \<and> set started = {i. i < length calls \<and> passes (at_approval ap ses calls i s) (calls ! i)} \<and>
    (\<forall>i<length calls. i \<notin> set started \<longrightarrow> refusal s (calls ! i) (fst (execute_tools rt sub ses calls s) ! i)) \<and>
    (started = [] \<longrightarrow> snd (execute_tools rt sub ses calls s) = s\<lparr>rs_world := w\<rparr>)"
  using execute_tools_denied [OF assms, of sub ses calls] by blast

definition deny_all :: "'w approver" where
  "deny_all call def ses w = ((False, ''denied''), w)"

definition denied_run :: "unit run_state" where
  "denied_run = tool_run\<lparr>rs_agent := (rs_agent tool_run)\<lparr>ag_approver := Some deny_all\<rparr>\<rparr>"

definition two_plain_calls :: "tool_call list" where
  "two_plain_calls = [plain_call ''1'' ''p'' '''', plain_call ''2'' ''q'' '''']"

theorem denied_calls_do_nothing_witness:
  "\<exists>started w. set started = {i. i < length two_plain_calls \<and>
       passes (at_approval deny_all (new_session ''s'') two_plain_calls i denied_run) (two_plain_calls ! i)} \<and>
     (\<forall>i<length two_plain_calls. i \<notin> set started \<longrightarrow> refusal denied_run (two_plain_calls ! i)
       (fst (execute_tools (unit_runtime\<lparr>rt_order := (\<lambda>is w. rev is)\<rparr>) no_sub_runner (new_session ''s'') two_plain_calls denied_run) ! i))"
proof -
  have a: "ag_approver (rs_agent denied_run) = Some deny_all" by (simp add: denied_run_def)
  have b: "denies deny_all" by (simp add: denies_def deny_all_def)
  from denied_calls_do_nothing [OF a b fair_unit_runtime, of no_sub_runner "new_session ''s''" two_plain_calls]
  show ?thesis by blast
qed

section \<open>Skills are loaded once\<close>

lemma loaded_skills_update [simp]:
  "rs_loaded s = Some m \<Longrightarrow> loaded_skills (s\<lparr>rs_loaded := Some (AList.update k v m)\<rparr>) = AList.update k v m"
  by (simp add: loaded_skills_def)

text \<open>
  Once \<^verbatim>\<open>use_skill\<close> has put a skill into the loaded set, the same call is answered again
  with the same message from that set: the loader is not asked and the run does not change.
\<close>

theorem use_skill_idempotent:
  assumes run: "execute_use_skill rt call s = (Returns m, s1)"
    and name: "rt_dec_name rt (tc_args call) = Inr name" "name \<noteq> ''''"
    and loaded: "gm_has (loaded_skills s1) name"
  shows "execute_use_skill rt call s1 = (Returns m, s1)"
proof -
  obtain body where b: "map_of (loaded_skills s1) name = Some body"
    using loaded unfolding gm_has_def by blast
  have "m = tool_message (tc_id call) body"
  proof (cases "map_of (loaded_skills s) name")
    case None
    then show ?thesis using run name b
      by (auto simp: execute_use_skill_def Let_def loaded_skills_def update_conv on_world_sel(6)
          split: sum.splits option.splits prod.splits)
  qed (use run name b in \<open>simp add: execute_use_skill_def\<close>)
  then show ?thesis using name b by (simp add: execute_use_skill_def)
qed

definition one_skill :: skill_info where
  "one_skill = \<lparr>sk_name = ''k'', sk_description = ''d'', sk_frontmatter = [], sk_path = ''/k''\<rparr>"

definition one_skill_loader :: "unit skill_loader" where
  "one_skill_loader = \<lparr>sl_discover = (\<lambda>w. (Inr [one_skill], w)), sl_load = (\<lambda>i w. (Inr ''body'', w))\<rparr>"

definition skill_run :: "unit run_state" where
  "skill_run = unit_run\<lparr>rs_agent := (rs_agent unit_run)\<lparr>ag_skill_loader := Some one_skill_loader\<rparr>,
     rs_skills := [one_skill], rs_loaded := Some []\<rparr>"

lemma use_skill_idempotent_witness:
  "execute_use_skill unit_runtime (plain_call ''1'' ''use_skill'' ''k'')
     (snd (execute_use_skill unit_runtime (plain_call ''1'' ''use_skill'' ''k'') skill_run)) =
   execute_use_skill unit_runtime (plain_call ''1'' ''use_skill'' ''k'') skill_run"
proof -
  let ?c = "plain_call ''1'' ''use_skill'' ''k''"
  obtain r s1 where r: "execute_use_skill unit_runtime ?c skill_run = (r, s1)" by fastforce
  have "gm_has (loaded_skills (snd (execute_use_skill unit_runtime ?c skill_run))) ''k'' \<and>
      (case fst (execute_use_skill unit_runtime ?c skill_run) of Returns m \<Rightarrow> True | Panics p \<Rightarrow> False)"
    by code_simp
  then obtain m where m: "r = Returns m" "gm_has (loaded_skills s1) ''k''" using r by (cases r) auto
  have "execute_use_skill unit_runtime ?c s1 = (Returns m, s1)"
    by (rule use_skill_idempotent [where name = "''k''", OF r [unfolded m(1)] _ _ m(2)])
       (simp_all add: unit_runtime_def plain_call_def)
  then show ?thesis using r m by simp
qed

section \<open>The in-place filter\<close>

text \<open>
  A sub-agent call filters the parent's own slice in place: an agent tool in front of a plain one
  is overwritten, and the parent cannot call it any more.
\<close>

lemma strip_overwrites:
  assumes "t_is_agent a" "\<not> t_is_agent p"
  shows "snd (strip_agent_tools [a, p]) = [p, p]"
    and "fd_name (t_def a) \<noteq> fd_name (t_def p) \<Longrightarrow> find_tool (snd (strip_agent_tools [a, p])) (fd_name (t_def a)) = None"
  using assms by (simp_all add: strip_agent_tools_def Let_def)

text \<open>Without agent tools nothing is moved.\<close>

lemma strip_plain: "filter t_is_agent ts = [] \<Longrightarrow> strip_agent_tools ts = (ts, ts)"
  by (simp add: strip_agent_tools_def filter_empty_conv filter_id_conv [THEN iffD2])

end
