(* ===== verification/Prompts.thy ===== *)
theory Prompts
  imports Tools
begin

text \<open>
  The messages and the request of one model call: \<^verbatim>\<open>buildPrompt\<close>, \<^verbatim>\<open>defaultBuildPrompt\<close> and
  \<^verbatim>\<open>buildModelRequest\<close> of \<^verbatim>\<open>runner.go\<close>.
\<close>

definition system_message :: "string \<Rightarrow> message" where
  "system_message c = role_message RoleSystem c"

fun hint_lines :: "int \<Rightarrow> retrieval_hint list \<Rightarrow> string" where
  "hint_lines i [] = ''''"
| "hint_lines i (h # hs) =
     int_str i @ ''. '' @ rh_description h @ '' (query: '' @ rh_query h @ '')'' @ nl @ hint_lines (i + 1) hs"

definition summary_text :: "compressed_context \<Rightarrow> string" where
  "summary_text cc =
     ''## Conversation Summary'' @ nl @ cc_summary cc @
     (if 0 < length (cc_hints cc)
      then nl @ nl @ ''### Retrieval Hints'' @ nl @ hint_lines 1 (cc_hints cc) else '''')"

definition skill_entry :: "skill_info \<Rightarrow> string" where
  "skill_entry s = nl @ ''### '' @ sk_name s @ nl @
     concat (map (\<lambda>(k, v). k @ '': '' @ v @ nl) (sk_frontmatter s))"

definition default_build_prompt :: "prompt_input \<Rightarrow> message list" where
  "default_build_prompt inp =
     (let system = (if pi_description inp \<noteq> ''''
                    then pi_description inp @ nl @ nl @ pi_instructions inp else pi_instructions inp)
      in [system_message system] @
         (if pi_project_context inp \<noteq> '''' then [system_message (pi_project_context inp)] else []) @
         (case pi_compressed inp of
            None \<Rightarrow> []
          | Some cc \<Rightarrow> if cc_summary cc \<noteq> '''' then [system_message (summary_text cc)] else []) @
         (if 0 < length (pi_skills inp)
          then [system_message (''## Available Skills'' @ nl @ concat (map skill_entry (pi_skills inp)))]
          else []) @
         map (\<lambda>(n, b). system_message (''## Loaded Skill: '' @ n @ nl @ nl @ b)) (pi_loaded inp) @
         pi_working inp)"

definition prompt_of :: "'w session \<Rightarrow> message list \<Rightarrow> 'w run_state \<Rightarrow> prompt_input" where
  "prompt_of ses working s =
     \<lparr>pi_description = ag_description (rs_agent s), pi_instructions = ag_instructions (rs_agent s),
      pi_working = working, pi_compressed = rs_compressed s,
      pi_tools = tool_definitions (ag_tools (rs_agent s)), pi_skills = rs_skills s,
      pi_loaded = loaded_skills s, pi_user_profile = ses_user_profile ses,
      pi_project_context = ses_project_context ses\<rparr>"

definition build_prompt ::
  "'w session \<Rightarrow> message list \<Rightarrow> 'w run_state \<Rightarrow> message list \<times> 'w run_state" where
  "build_prompt ses working s =
     (let inp = prompt_of ses working s in
      case ag_prompt (rs_agent s) of
        None \<Rightarrow> (default_build_prompt inp, s)
      | Some f \<Rightarrow>
          (case on_world (f inp) s of
             (Inr msgs, s1) \<Rightarrow> (msgs, s1)
           | (Inl e, s1) \<Rightarrow> (default_build_prompt inp, s1)))"

definition build_model_request :: "'w session \<Rightarrow> message list \<Rightarrow> 'w run_state \<Rightarrow> chat_request" where
  "build_model_request ses msgs s =
     \<lparr>req_model = ses_model_id ses, req_messages = msgs,
      req_tools = tool_definitions (ag_tools (rs_agent s)) @ rs_builtin s,
      req_temperature = ses_temperature ses, req_max_tokens = ses_max_tokens ses\<rparr>"

lemma system_message_role [simp]: "msg_role (system_message c) = RoleSystem"
  by (simp add: system_message_def)

lemma quiet_build_prompt: "quiet s (snd (build_prompt ses working s))"
  by (auto simp: build_prompt_def Let_def quiet_refl intro: quiet_on_world [OF _ quiet_refl]
      split: option.splits prod.splits sum.splits)

lemma build_prompt_keeps:
  "build_prompt ses working s = (ms, t) \<Longrightarrow> rs_agent t = rs_agent s"
  by (auto simp: build_prompt_def Let_def split: option.splits prod.splits sum.splits)

text \<open>
  The default prompt is system messages, the first with the agent's instructions, followed by
  exactly the working messages.
\<close>

theorem default_prompt_shape:
  "\<exists>sys. default_build_prompt inp = sys @ pi_working inp \<and> sys \<noteq> [] \<and>
     filter is_system sys = sys \<and> suffix (pi_instructions inp) (msg_content (hd sys))"
proof -
  let ?sys = "take (length (default_build_prompt inp) - length (pi_working inp)) (default_build_prompt inp)"
  have e: "default_build_prompt inp = ?sys @ pi_working inp"
    by (simp add: default_build_prompt_def Let_def)
  have "\<forall>m\<in>set ?sys. is_system m"
    by (auto simp: default_build_prompt_def Let_def is_system_def split: option.splits if_splits)
  then have f: "filter is_system ?sys = ?sys" by (simp only: filter_id_conv)
  have h: "?sys \<noteq> []" "suffix (pi_instructions inp) (msg_content (hd ?sys))"
    by (auto simp: default_build_prompt_def Let_def system_message_def suffix_def)
  from e f h show ?thesis by (intro exI conjI)
qed

end
