(* ===== verification/Runner.thy ===== *)
theory Runner
  imports Prompts
begin

text \<open>
  The main loop of \<^verbatim>\<open>runner.go\<close>: \<^verbatim>\<open>run\<close>, cut at its eight nodes into one definition per
  node. A turn ends the loop with an error, ends it normally (\<^verbatim>\<open>break\<close>), or asks for the next
  turn. The first component of a run's result is what the code returns beside the error.
\<close>

section \<open>Set-up\<close>

definition run_max_turns :: "'w agent \<Rightarrow> int" where
  "run_max_turns a = (if ag_max_turns a \<le> 0 then 20 else ag_max_turns a)"

text \<open>\<^verbatim>\<open>&runner{agent: a}\<close> for an agent with a model.\<close>

definition new_run :: "'w agent \<Rightarrow> 'w chat_model \<Rightarrow> bool \<Rightarrow> 'w \<Rightarrow> 'w run_state" where
  "new_run a mdl streaming w = \<lparr>rs_agent = a, rs_model = mdl, rs_streaming = streaming, rs_skills = [],
     rs_loaded = None, rs_builtin = [], rs_compressed = None, rs_events = [], rs_stages = [],
     rs_stored = [], rs_world = w\<rparr>"

text \<open>The model of the run, the skill catalogue (an error of \<^verbatim>\<open>Discover\<close> leaves it empty) and the
  built-in tools.\<close>

definition init_runner :: "'w session \<Rightarrow> 'w run_state \<Rightarrow> 'w run_state" where
  "init_runner ses s =
     (let s1 = (case ses_model ses of Some m \<Rightarrow> s\<lparr>rs_model := m\<rparr> | None \<Rightarrow> s);
          s2 = (case ag_skill_loader (rs_agent s1) of
                  None \<Rightarrow> s1
                | Some ld \<Rightarrow>
                    (case on_world (sl_discover ld) s1 of (r, t) \<Rightarrow>
                       t\<lparr>rs_skills := (case r of Inr skills \<Rightarrow> skills | Inl e \<Rightarrow> []),
                         rs_loaded := Some [], rs_builtin := builtin_skill_tool_defs\<rparr>));
          s3 = (if ag_memory (rs_agent s2) = None then s2
                else s2\<lparr>rs_builtin := rs_builtin s2 @ [builtin_recall_def]\<rparr>)
      in if ag_no_spawn (rs_agent s3) then s3
         else s3\<lparr>rs_builtin := rs_builtin s3 @ [builtin_subagent_def]\<rparr>)"

definition start_request :: "'w session \<Rightarrow> message \<Rightarrow> 'w run_state \<Rightarrow> chat_request" where
  "start_request ses input s =
     \<lparr>req_model = ses_model_id ses, req_messages = [input],
      req_tools = tool_definitions (ag_tools (rs_agent s)) @ rs_builtin s,
      req_temperature = None, req_max_tokens = 0\<rparr>"

definition agent_start_hook ::
  "'w session \<Rightarrow> message \<Rightarrow> 'w run_state \<Rightarrow> nat option \<times> 'w run_state" where
  "agent_start_hook ses input s =
     (case ag_hooks (rs_agent s) of
        None \<Rightarrow> (None, s)
      | Some h \<Rightarrow> (case on_world (h_agent_start h (start_request ses input s)) s of (n, s1) \<Rightarrow> (Some n, s1)))"

definition empty_response :: chat_response where
  "empty_response = \<lparr>resp_choices = [], resp_usage = zero_usage\<rparr>"

text \<open>The deferred \<^verbatim>\<open>OnAgentEnd\<close>.\<close>

definition agent_end_hook ::
  "chat_request option \<Rightarrow> chat_response option \<Rightarrow> go_err option \<Rightarrow> nat option \<Rightarrow> 'w run_state \<Rightarrow> 'w run_state" where
  "agent_end_hook req resp err st s =
     (case (ag_hooks (rs_agent s), st) of
        (Some h, Some n) \<Rightarrow>
          s\<lparr>rs_world := h_agent_end h req
             (Some (case resp of Some r \<Rightarrow> r | None \<Rightarrow> empty_response)) err n (rs_world s)\<rparr>
      | _ \<Rightarrow> s)"

section \<open>The state of the loop\<close>

text \<open>The local variables of \<^verbatim>\<open>run\<close> that live across turns; no request or response yet is \<open>None\<close>.\<close>

record run_vars =
  rv_working :: "message list"
  rv_result :: run_result
  rv_req :: "chat_request option"
  rv_resp :: "chat_response option"

definition init_vars :: run_vars where
  "init_vars = \<lparr>rv_working = [], rv_result = empty_run_result, rv_req = None, rv_resp = None\<rparr>"

datatype turn_end = NextTurn | BreakLoop | FailRun go_err

section \<open>Node 1: memory fetch and the input guard\<close>

definition strip_input :: "message list \<Rightarrow> message list" where
  "strip_input history =
     (if 0 < length history \<and> msg_role (last history) = RoleUser then butlast history else history)"

definition fetch_detail ::
  "go_err option \<Rightarrow> compaction_info \<Rightarrow> compressed_context option \<Rightarrow> (string \<times> detail) list" where
  "fetch_detail cerr ci cc =
     (case cerr of Some e \<Rightarrow> [(''compressed_error'', DText (err_text e))] | None \<Rightarrow> []) @
     (case ci_err ci of
        Some e \<Rightarrow> [(''compaction_error'', DText (err_text e))]
      | None \<Rightarrow>
          if 0 < ci_count ci then
            [(''compacted_count'', DInt (ci_count ci)), (''compacted_from'', DInt (ci_from ci)),
             (''compacted_to'', DInt (ci_to ci))] @
            (case cc of
               Some c \<Rightarrow> if cc_summary c \<noteq> '''' then [(''compacted_summary'', DText (cc_summary c))] else []
             | None \<Rightarrow> [])
          else [])"

definition fetch_history ::
  "'w runtime \<Rightarrow> 'w session \<Rightarrow> 'w run_state \<Rightarrow> (message list \<times> compaction_info \<times> go_err option) \<times> 'w run_state" where
  "fetch_history rt ses s =
     (case ag_memory (rs_agent s) of
        None \<Rightarrow> (([], no_compaction, None), s)
      | Some mem \<Rightarrow>
          (case prepare_memory rt ses s of ((history, ci), s1) \<Rightarrow>
             case on_world (mem_compressed mem (ses_id ses)) s1 of
               (Inr cc, s2) \<Rightarrow> ((strip_input history, ci, None), s2\<lparr>rs_compressed := cc\<rparr>)
             | (Inl e, s2) \<Rightarrow> ((strip_input history, ci, Some e), s2)))"

definition guard_verdict :: "string \<Rightarrow> guard_result \<Rightarrow> go_err option" where
  "guard_verdict what gr =
     (if \<not> gr_allowed gr then Some (ErrText (what @ '' blocked: '' @ gr_reason gr))
      else if gr_tripwire gr then Some (ErrText (what @ '' tripwire: '' @ gr_reason gr))
      else None)"

definition check_input ::
  "'w session \<Rightarrow> message \<Rightarrow> message list \<Rightarrow> 'w run_state \<Rightarrow> go_err option \<times> 'w run_state" where
  "check_input ses input working s =
     (let s1 = observe stage_guard_in Enter [] None s in
      case ag_in_guard (rs_agent s) of
        None \<Rightarrow> (None, observe stage_guard_in Leave [] None s1)
      | Some g \<Rightarrow>
          (case on_world (g ses input working) s1 of (gr, s2) \<Rightarrow>
             case guard_verdict ''input guard'' gr of
               Some e \<Rightarrow> (Some e, send (StreamError e) (observe stage_guard_in Leave [] (Some e) s2))
             | None \<Rightarrow> (None, observe stage_guard_in Leave [] None s2)))"

definition first_turn ::
  "'w runtime \<Rightarrow> 'w session \<Rightarrow> message list \<Rightarrow> message \<Rightarrow> 'w run_state
     \<Rightarrow> (go_err option \<times> message list) \<times> 'w run_state" where
  "first_turn rt ses pre input s =
     (case fetch_history rt ses (observe stage_memory_fetch Enter [] None s) of
        ((history, ci, cerr), s1) \<Rightarrow>
          let working = history @ pre @ [input];
              s2 = observe stage_memory_fetch Leave (fetch_detail cerr ci (rs_compressed s1)) None s1
          in case check_input ses input working s2 of (e, s3) \<Rightarrow> ((e, working), s3))"

section \<open>Nodes 2 and 4: prompt, last-resort trimming, model call\<close>

text \<open>The request, the working messages kept, and the number of messages trimmed.\<close>

definition fit_request ::
  "'w runtime \<Rightarrow> 'w session \<Rightarrow> message list \<Rightarrow> message list \<Rightarrow> 'w run_state
     \<Rightarrow> (chat_request \<times> message list) \<times> 'w run_state" where
  "fit_request rt ses messages working s =
     (let cw = m_context_window (rs_model s);
          mid = tokenizer_model_id (rs_model s);
          est = count_messages rt mid messages
      in if 0 < cw \<and> cw < est then
           let msgs' = trim_to_context_window rt mid messages cw;
               trimmed = int (length messages) - int (length msgs');
               working' = (if ag_prompt (rs_agent s) = None \<and> 0 < trimmed \<and> trimmed \<le> int (length working)
                           then drop (nat trimmed) working else working)
           in ((build_model_request ses msgs' s, working'),
               observe stage_model_call Enter
                 [(''warning'', DText (''context window exceeded '' @ em_dash @ '' messages trimmed'')),
                  (''estimated_tokens'', DInt est), (''window'', DInt cw), (''trimmed'', DInt trimmed)] None s)
         else ((build_model_request ses messages s, working), s))"

definition model_error_event :: "go_err \<Rightarrow> stream_event" where
  "model_error_event e = (if err_is_ctx e then StreamAborted e else StreamError e)"

text \<open>From the prompt to the model's first choice; the failure has sent its event.\<close>

definition ask_model ::
  "'w runtime \<Rightarrow> 'w session \<Rightarrow> int \<Rightarrow> int \<Rightarrow> run_vars \<Rightarrow> 'w run_state
     \<Rightarrow> ((go_err + choice \<times> usage) \<times> run_vars) \<times> 'w run_state" where
  "ask_model rt ses maxTurns turn rv s =
     (case build_prompt ses (rv_working rv) (observe stage_prompt_build Enter [] None s) of (messages, s1) \<Rightarrow>
        case fit_request rt ses messages (rv_working rv) (observe stage_prompt_build Leave [] None s1) of
          ((req, working), s2) \<Rightarrow>
            let rv1 = rv\<lparr>rv_working := working, rv_req := Some req\<rparr>;
                s3 = observe stage_model_call Enter [(''turn'', DInt turn), (''maxTurns'', DInt maxTurns)] None s2
            in case call_model rt req s3 of
                 (Inl e, s4) \<Rightarrow>
                   ((Inl (ErrWrap ''model call: '' e ''''), rv1),
                    send (model_error_event e) (observe stage_model_call Leave [] (Some e) s4))
               | (Inr resp, s4) \<Rightarrow>
                   let s5 = observe stage_model_call Leave
                        [(''tokens_prompt'', DInt (us_prompt (resp_usage resp))),
                         (''tokens_completion'', DInt (us_completion (resp_usage resp)))] None s4;
                       rv2 = rv1\<lparr>rv_resp := Some resp\<rparr>
                   in case resp_choices resp of
                        [] \<Rightarrow> let e = ErrText ''model returned no choices'' in
                              ((Inl e, rv2), send (StreamError e) s5)
                      | c # cs \<Rightarrow> ((Inr (c, resp_usage resp), rv2), s5))"

section \<open>Node 5: the response and the output guard\<close>

definition tool_call_events :: "tool_call list \<Rightarrow> stream_event list" where
  "tool_call_events = map (\<lambda>c. StreamToolCall (empty_message\<lparr>msg_tool_calls := [c]\<rparr>))"

definition add_result :: "message \<Rightarrow> run_vars \<Rightarrow> run_vars" where
  "add_result m rv = rv\<lparr>rv_result := (rv_result rv)\<lparr>rr_messages := rr_messages (rv_result rv) @ [m]\<rparr>\<rparr>"

definition add_working :: "message \<Rightarrow> run_vars \<Rightarrow> run_vars" where
  "add_working m rv = rv\<lparr>rv_working := rv_working rv @ [m]\<rparr>"

definition stamp_name :: "string \<Rightarrow> message \<Rightarrow> message" where
  "stamp_name n m = (if msg_name m = '''' then m\<lparr>msg_name := n\<rparr> else m)"

text \<open>Usage and output of the response, the tool call events, the working set and the memory.\<close>

definition take_response ::
  "'w session \<Rightarrow> choice \<Rightarrow> usage \<Rightarrow> run_vars \<Rightarrow> 'w run_state \<Rightarrow> run_vars \<times> 'w run_state" where
  "take_response ses c u rv s =
     (let m = ch_message c;
          res = (rv_result rv)\<lparr>rr_usage := add_usage (rr_usage (rv_result rv)) u, rr_final_output := msg_content m\<rparr>;
          rv1 = add_result m (rv\<lparr>rv_result := res\<rparr>);
          m' = stamp_name (ag_name (rs_agent s)) m
      in (add_working m' rv1, append_memory ses m' (send_all (tool_call_events (msg_tool_calls m)) s)))"

text \<open>The check of the model output; the \<^verbatim>\<open>leave\<close> event of a passed check comes later.\<close>

definition check_output ::
  "'w session \<Rightarrow> message \<Rightarrow> message list \<Rightarrow> 'w run_state \<Rightarrow> go_err option \<times> 'w run_state" where
  "check_output ses m working s =
     (case ag_out_guard (rs_agent s) of
        None \<Rightarrow> (None, s)
      | Some g \<Rightarrow>
          (case on_world (g ses m working) (observe stage_guard_out Enter [] None s) of (gr, s1) \<Rightarrow>
             case guard_verdict ''output guard'' gr of
               Some e \<Rightarrow> (Some e, send (StreamError e) (observe stage_guard_out Leave [] (Some e) s1))
             | None \<Rightarrow> (None, s1)))"

definition leave_guard_out :: "'w run_state \<Rightarrow> 'w run_state" where
  "leave_guard_out s =
     (if ag_out_guard (rs_agent s) = None then s else observe stage_guard_out Leave [] None s)"

section \<open>Nodes 6 to 8: tools, their guard, memory\<close>

definition blocked_text :: "string \<Rightarrow> string" where
  "blocked_text reason = ''[blocked: '' @ reason @ '']''"

text \<open>The guard on one tool result: the error that ends the run, or the message to keep.\<close>

definition screen_result ::
  "'w session \<Rightarrow> message list \<Rightarrow> message \<Rightarrow> 'w run_state \<Rightarrow> (go_err + message) \<times> 'w run_state" where
  "screen_result ses working tr s =
     (case ag_out_guard (rs_agent s) of
        None \<Rightarrow> (Inr tr, s)
      | Some g \<Rightarrow>
          (case on_world (g ses tr working) s of (gr, s1) \<Rightarrow>
             if gr_tripwire gr then
               let e = ErrText (''output guard tripwire on tool result: '' @ gr_reason gr) in
               (Inl e, send (StreamError e) (observe stage_guard_out Leave [] (Some e) s1))
             else (Inr (if gr_allowed gr then tr else tr\<lparr>msg_content := blocked_text (gr_reason gr)\<rparr>), s1)))"

fun keep_results ::
  "'w session \<Rightarrow> message list \<Rightarrow> run_vars \<Rightarrow> 'w run_state \<Rightarrow> (go_err option \<times> run_vars) \<times> 'w run_state" where
  "keep_results ses [] rv s = ((None, rv), s)"
| "keep_results ses (tr # trs) rv s =
     (case screen_result ses (rv_working rv) tr s of
        (Inl e, s1) \<Rightarrow> ((Some e, rv), s1)
      | (Inr m, s1) \<Rightarrow>
          keep_results ses trs (add_working m (add_result m rv))
            (append_memory ses m (send (StreamToolResult m) s1)))"

definition ends_turn :: "'w run_state \<Rightarrow> tool_call \<Rightarrow> bool" where
  "ends_turn s c = (case tool_def s (tc_name c) of None \<Rightarrow> False | Some d \<Rightarrow> fd_end_turn d)"

definition tools_turn ::
  "'w runtime \<Rightarrow> 'w sub_runner \<Rightarrow> 'w session \<Rightarrow> tool_call list \<Rightarrow> run_vars \<Rightarrow> 'w run_state
     \<Rightarrow> (turn_end \<times> run_vars) \<times> 'w run_state" where
  "tools_turn rt sub ses calls rv s =
     (case execute_tools rt sub ses calls s of (results, s1) \<Rightarrow>
        case keep_results ses results rv s1 of
          ((Some e, rv1), s2) \<Rightarrow> ((FailRun e, rv1), s2)
        | ((None, rv1), s2) \<Rightarrow>
            let s3 = leave_guard_out s2 in
            if list_ex (ends_turn s3) calls
            then ((BreakLoop, rv1\<lparr>rv_result := (rv_result rv1)\<lparr>rr_stop_reason := ''handoff''\<rparr>\<rparr>), s3)
            else ((NextTurn, rv1), s3))"

definition abnormal_message :: "string \<Rightarrow> message" where
  "abnormal_message fr = system_message (''[run ended: finish_reason='' @ fr @ '']'')"

definition after_response ::
  "'w runtime \<Rightarrow> 'w sub_runner \<Rightarrow> 'w session \<Rightarrow> choice \<Rightarrow> run_vars \<Rightarrow> 'w run_state
     \<Rightarrow> (turn_end \<times> run_vars) \<times> 'w run_state" where
  "after_response rt sub ses c rv s =
     (let m = stamp_name (ag_name (rs_agent s)) (ch_message c) in
      case check_output ses m (rv_working rv) s of
        (Some e, s1) \<Rightarrow> ((FailRun e, rv), s1)
      | (None, s1) \<Rightarrow>
          if msg_tool_calls m = [] then
            ((BreakLoop,
              if ch_finish_reason c \<noteq> '''' \<and> ch_finish_reason c \<noteq> ''stop''
              then add_result (abnormal_message (ch_finish_reason c)) rv else rv),
             leave_guard_out s1)
          else tools_turn rt sub ses (msg_tool_calls m) rv s1)"

section \<open>The loop\<close>

definition run_turn ::
  "'w runtime \<Rightarrow> 'w sub_runner \<Rightarrow> 'w session \<Rightarrow> message list \<Rightarrow> message \<Rightarrow> int \<Rightarrow> int \<Rightarrow> run_vars
     \<Rightarrow> 'w run_state \<Rightarrow> (turn_end \<times> run_vars) \<times> 'w run_state" where
  "run_turn rt sub ses0 pre input maxTurns turn rv s =
     (case rt_ctx rt (rs_world s) of
        Some e \<Rightarrow> ((FailRun e, rv), send (StreamAborted e) s)
      | None \<Rightarrow>
          let ses = ses0\<lparr>ses_turn := turn\<rparr> in
          case (if turn = 1 then first_turn rt ses pre input s else ((None, rv_working rv), s)) of
            ((Some e, working), s1) \<Rightarrow> ((FailRun e, rv\<lparr>rv_working := working\<rparr>), s1)
          | ((None, working), s1) \<Rightarrow>
              (case ask_model rt ses maxTurns turn (rv\<lparr>rv_working := working\<rparr>) s1 of
                 ((Inl e, rv1), s2) \<Rightarrow> ((FailRun e, rv1), s2)
               | ((Inr (c, u), rv1), s2) \<Rightarrow>
                   (case take_response ses c u rv1 s2 of (rv2, s3) \<Rightarrow>
                      after_response rt sub ses c rv2 s3)))"

text \<open>
  \<open>n\<close> counts the turns left: the loop runs while \<^verbatim>\<open>turn <= maxTurns\<close>, so \<open>n = maxTurns - turn + 1\<close>.
  The result is the error, if any, and the value of \<^verbatim>\<open>turn\<close> behind the loop.
\<close>

fun run_turns ::
  "'w runtime \<Rightarrow> 'w sub_runner \<Rightarrow> 'w session \<Rightarrow> message list \<Rightarrow> message \<Rightarrow> int \<Rightarrow> nat \<Rightarrow> int \<Rightarrow> run_vars
     \<Rightarrow> 'w run_state \<Rightarrow> (go_err option \<times> int \<times> run_vars) \<times> 'w run_state" where
  "run_turns rt sub ses pre input maxTurns 0 turn rv s = ((None, turn, rv), s)"
| "run_turns rt sub ses pre input maxTurns (Suc n) turn rv s =
     (case run_turn rt sub ses pre input maxTurns turn rv s of
        ((FailRun e, rv1), s1) \<Rightarrow> ((Some e, turn, rv1), s1)
      | ((BreakLoop, rv1), s1) \<Rightarrow> ((None, turn, rv1), s1)
      | ((NextTurn, rv1), s1) \<Rightarrow> run_turns rt sub ses pre input maxTurns n (turn + 1) rv1 s1)"

definition close_run :: "(go_err option \<times> int \<times> run_vars) \<times> 'w run_state \<Rightarrow> run_result \<times> 'w run_state" where
  "close_run r =
     (case r of ((err, turn, rv), s) \<Rightarrow>
        case err of
          Some e \<Rightarrow> (rv_result rv, s)
        | None \<Rightarrow>
            let res = (rv_result rv)\<lparr>rr_turn_count := turn, rr_context_window := m_context_window (rs_model s)\<rparr>
            in (res, send (StreamDone (Some res)) s))"

definition run ::
  "'w runtime \<Rightarrow> 'w sub_runner \<Rightarrow> 'w session \<Rightarrow> message list \<Rightarrow> message \<Rightarrow> 'w run_state
     \<Rightarrow> (run_result \<times> go_err option) \<times> 'w run_state" where
  "run rt sub ses pre input s =
     (let maxTurns = run_max_turns (rs_agent s);
          s1 = append_memory ses input (init_runner ses s)
      in case agent_start_hook ses input s1 of (st, s2) \<Rightarrow>
         case run_turns rt sub ses pre input maxTurns (nat maxTurns) 1 init_vars s2 of
           ((err, turn, rv), s3) \<Rightarrow>
             case close_run ((err, turn, rv), s3) of (res, s4) \<Rightarrow>
               ((res, err), agent_end_hook (rv_req rv) (rv_resp rv) err st s4))"

end
