(* ===== verification/RunFacts.thy ===== *)
theory RunFacts
  imports Runner
begin

text \<open>
  What the main loop guarantees: one terminal event, a bounded number of turns, answered tool
  calls, and which messages reach the memory and the model behind the guards.
\<close>

section \<open>What the parts of a turn send\<close>

text \<open>
  The memory fetch is \<open>hush\<close>: quiet, and it neither sends any event nor reports a model call.
\<close>

definition model_stages :: "'w run_state \<Rightarrow> stage_event list" where
  "model_stages s = filter (\<lambda>e. se_name e = stage_model_call) (rs_stages s)"

definition hush :: "'w run_state \<Rightarrow> 'w run_state \<Rightarrow> bool" where
  "hush s t = (quiet s t \<and> rs_events t = rs_events s \<and> model_stages t = model_stages s)"

lemma hush_refl: "hush s s"
  by (simp add: hush_def quiet_refl)

lemma hush_trans: "hush s t \<Longrightarrow> hush t u \<Longrightarrow> hush s u"
  unfolding hush_def using quiet_trans by metis

lemma model_stages_on_world: "on_world f t = (a, u) \<Longrightarrow> model_stages u = model_stages t"
  by (auto simp: on_world_def model_stages_def split_beta simp del: on_world_sel)

lemma hush_on_world: "on_world f t = (a, u) \<Longrightarrow> hush s t \<Longrightarrow> hush s u"
  unfolding hush_def by (metis quiet_on_world on_world_sel(1) model_stages_on_world)

lemma model_stages_observe [simp]:
  "n \<noteq> stage_model_call \<Longrightarrow> model_stages (observe n p d e t) = model_stages t"
  by (simp add: observe_def model_stages_def)

lemma stage_distinct [simp]: "stage_memory_fetch \<noteq> stage_model_call" "stage_guard_in \<noteq> stage_model_call"
  "stage_memory_append \<noteq> stage_model_call"
  by (simp_all add: stage_memory_fetch_def stage_guard_in_def stage_memory_append_def stage_model_call_def)

lemma hush_observe: "hush s t \<Longrightarrow> n \<noteq> stage_model_call \<Longrightarrow> hush s (observe n p d e t)"
  by (simp add: hush_def quiet_observe)

lemma hush_quiet: "hush s t \<Longrightarrow> quiet s t"
  by (simp add: hush_def)

lemma hush_compressed: "hush s t \<Longrightarrow> hush s (t\<lparr>rs_compressed := c\<rparr>)"
  by (simp add: hush_def quiet_fields(5) model_stages_def)

lemma hush_through_index: "through_index mem sid s = (r, t) \<Longrightarrow> hush s t"
  by (auto simp: through_index_def intro: hush_on_world [OF _ hush_refl]
      split: prod.splits sum.splits option.splits)

lemma hush_compact: "compact_overflow mem sid off ov msgs s = (ci, t) \<Longrightarrow> hush s t"
proof -
  assume c: "compact_overflow mem sid off ov msgs s = (ci, t)"
  obtain old s1 where a: "through_index mem sid s = (old, s1)" by fastforce
  obtain e s2 where b: "on_world (mem_compact mem sid (off + ov) (Some msgs)) s1 = (e, s2)" by fastforce
  obtain ti s3 where d: "through_index mem sid s2 = (ti, s3)" by fastforce
  have q: "hush s s2" by (rule hush_on_world [OF b hush_through_index [OF a]])
  have q': "hush s s3" by (rule hush_trans [OF q hush_through_index [OF d]])
  show "hush s t" using c a b d q q'
    by (cases e; cases ti) (auto simp: compact_overflow_def Let_def split: if_splits)
qed

lemma hush_prepare_memory: "hush s (snd (prepare_memory rt ses s))"
proof (cases "ag_memory (rs_agent s)")
  case (Some mem)
  let ?sid = "ses_id ses"
  obtain r s1 where a: "on_world (mem_count mem ?sid) s = (r, s1)" by fastforce
  have q1: "hush s s1" by (rule hush_on_world [OF a hush_refl])
  show ?thesis
  proof (cases r)
    case (Inl e)
    then show ?thesis using Some a q1 by (simp add: prepare_memory_def Let_def hush_observe)
  next
    case (Inr total)
    obtain r2 s2 where b: "on_world (mem_recent mem ?sid (if 5000 < total then 5000 else total) 0) s1 = (r2, s2)"
      by fastforce
    have q2: "hush s s2" by (rule hush_on_world [OF b q1])
    show ?thesis
    proof (cases r2)
      case (Inl e)
      then show ?thesis using Some a b Inr q1 q2 by (simp add: prepare_memory_def Let_def)
    next
      case r2: (Inr msgs)
      have "hush s (snd (compact_overflow mem ?sid off ov ms s2))" for off ov ms
        using hush_trans [OF q2 hush_compact] by (metis surjective_pairing)
      then show ?thesis using Some a b Inr r2 q1 q2
        by (simp add: prepare_memory_def Let_def split_beta)
    qed
  qed
qed (simp add: prepare_memory_def hush_refl)

lemma hush_fetch_history: "hush s (snd (fetch_history rt ses s))"
proof (cases "ag_memory (rs_agent s)")
  case (Some mem)
  obtain h s1 where a: "prepare_memory rt ses s = (h, s1)" by fastforce
  obtain r s2 where b: "on_world (mem_compressed mem (ses_id ses)) s1 = (r, s2)" by fastforce
  have "hush s s1" using hush_prepare_memory [of s rt ses] a by simp
  then have "hush s s2" by (rule hush_on_world [OF b])
  then show ?thesis using Some a b
    by (cases r) (auto simp: fetch_history_def split_beta intro: hush_compressed)
qed (simp add: fetch_history_def hush_refl)

text \<open>As \<^const>\<open>quiet\<close>, but messages may be stored: \<open>ms\<close> are the new ones.\<close>

definition grows :: "message list \<Rightarrow> 'w run_state \<Rightarrow> 'w run_state \<Rightarrow> bool" where
  "grows ms s t = (rs_streaming t = rs_streaming s \<and> rs_model t = rs_model s \<and>
     rs_stored t = rs_stored s @ ms \<and> same_agent (rs_agent s) (rs_agent t) \<and>
     (\<exists>es. rs_events t = rs_events s @ es \<and> (\<forall>e\<in>set es. \<not> is_terminal e) \<and>
        (\<not> rs_streaming s \<longrightarrow> es = [])))"

lemma grows_quiet: "quiet s t \<Longrightarrow> grows [] s t"
  by (simp add: grows_def quiet_def)

lemma quiet_grows: "grows [] s t \<Longrightarrow> quiet s t"
  by (simp add: grows_def quiet_def)

lemma grows_trans: "grows ms s t \<Longrightarrow> grows ms' t u \<Longrightarrow> grows (ms @ ms') s u"
  unfolding grows_def by (elim conjE exE) (auto simp: ball_Un intro: same_agent_trans)

lemma grows_then_quiet: "grows ms s t \<Longrightarrow> quiet t u \<Longrightarrow> grows ms s u"
  using grows_trans [of ms s t "[]" u] grows_quiet by fastforce

lemma quiet_then_grows: "quiet s t \<Longrightarrow> grows ms t u \<Longrightarrow> grows ms s u"
  using grows_trans [of "[]" s t ms u] grows_quiet by fastforce

text \<open>What \<^verbatim>\<open>appendMemory\<close> stores of a message.\<close>

definition remembered :: "'w agent \<Rightarrow> message \<Rightarrow> message list" where
  "remembered a m = (if msg_transient m \<or> ag_memory a = None then [] else [m])"

lemma append_memory_grows: "grows (remembered (rs_agent s) m) s (append_memory ses m s)"
proof (cases "msg_transient m \<or> ag_memory (rs_agent s) = None")
  case True
  then have "append_memory ses m s = s" by (auto simp: append_memory_def)
  then show ?thesis using True by (simp add: remembered_def grows_quiet quiet_refl)
next
  case False
  then obtain mem where m: "ag_memory (rs_agent s) = Some mem" by auto
  let ?s1 = "observe stage_memory_append Enter [] None s"
  obtain e s2 where o: "on_world (mem_append mem (ses_id ses) m) ?s1 = (e, s2)" by fastforce
  have "quiet s s2" by (rule quiet_on_world [OF o quiet_observe [OF quiet_refl]])
  then have "grows [m] s (s2\<lparr>rs_stored := rs_stored s2 @ [m]\<rparr>)" by (simp add: quiet_def grows_def)
  moreover have "quiet t (observe stage_memory_append Leave [] e t)" for t :: "'a run_state"
    by (rule quiet_observe [OF quiet_refl])
  ultimately have "grows [m] s (observe stage_memory_append Leave [] e (s2\<lparr>rs_stored := rs_stored s2 @ [m]\<rparr>))"
    by (rule grows_then_quiet)
  then show ?thesis using False m o by (simp add: append_memory_def remembered_def)
qed

section \<open>Ending with a terminal event\<close>

definition is_failure :: "stream_event \<Rightarrow> bool" where
  "is_failure e = (case e of StreamError x \<Rightarrow> True | StreamAborted x \<Rightarrow> True | _ \<Rightarrow> False)"

lemma failure_sel [simp]: "is_failure (StreamError e)" "is_failure (StreamAborted e)"
  "is_failure (model_error_event e)"
  by (simp_all add: is_failure_def model_error_event_def)

definition ends_with :: "stream_event \<Rightarrow> message list \<Rightarrow> 'w run_state \<Rightarrow> 'w run_state \<Rightarrow> bool" where
  "ends_with x ms s t = (\<exists>u. grows ms s u \<and> t = send x u)"

lemma ends_withI: "grows ms s u \<Longrightarrow> ends_with x ms s (send x u)"
  by (auto simp: ends_with_def)

lemma ends_with_trans: "grows ms s t \<Longrightarrow> ends_with x ms' t u \<Longrightarrow> ends_with x (ms @ ms') s u"
  unfolding ends_with_def using grows_trans by blast

lemma ends_with_events:
  "ends_with x ms s t \<Longrightarrow> rs_streaming s \<Longrightarrow>
     \<exists>es. rs_events t = rs_events s @ es @ [x] \<and> (\<forall>e\<in>set es. \<not> is_terminal e)"
  by (auto simp: ends_with_def grows_def)

lemma ends_with_silent: "ends_with x ms s t \<Longrightarrow> \<not> rs_streaming s \<Longrightarrow> rs_events t = rs_events s"
  by (auto simp: ends_with_def grows_def)

lemma ends_with_sel:
  "ends_with x ms s t \<Longrightarrow> rs_stored t = rs_stored s @ ms"
  "ends_with x ms s t \<Longrightarrow> same_agent (rs_agent s) (rs_agent t)"
  by (auto simp: ends_with_def grows_def)

text \<open>
  A step of a turn with an optional error: without one it grows the run, with one it also sends
  the failure event as its last.
\<close>

definition goes :: "bool \<Rightarrow> message list \<Rightarrow> 'w run_state \<Rightarrow> 'w run_state \<Rightarrow> bool" where
  "goes failed ms s t = (if failed then \<exists>x. is_failure x \<and> ends_with x ms s t else grows ms s t)"

lemma goes_trans: "grows ms s t \<Longrightarrow> goes f ms' t u \<Longrightarrow> goes f (ms @ ms') s u"
  unfolding goes_def using ends_with_trans grows_trans by (metis (full_types))

lemma quiet_then_goes: "quiet s t \<Longrightarrow> goes f ms t u \<Longrightarrow> goes f ms s u"
  using goes_trans [of "[]" s t f ms u] grows_quiet by fastforce

lemma goes_fail: "grows ms s t \<Longrightarrow> is_failure x \<Longrightarrow> goes True ms s (send x t)"
  using ends_withI [of ms s t x] by (auto simp: goes_def)

lemma goes_ok: "grows ms s t \<Longrightarrow> goes False ms s t"
  by (simp add: goes_def)

section \<open>The nodes of a turn\<close>

lemma check_input_goes:
  assumes "check_input ses input working s = (e, t)"
  shows "goes (e \<noteq> None) [] s t"
proof (cases "ag_in_guard (rs_agent s)")
  case None
  then show ?thesis using assms
    by (auto simp: check_input_def Let_def intro!: goes_ok grows_quiet quiet_observe quiet_refl)
next
  case (Some g)
  obtain gr s2 where o: "on_world (g ses input working) (observe stage_guard_in Enter [] None s) = (gr, s2)"
    by fastforce
  have q: "quiet s s2" by (rule quiet_on_world [OF o quiet_observe [OF quiet_refl]])
  have qo: "grows [] s (observe stage_guard_in Leave [] x s2)" for x
    by (rule grows_quiet [OF quiet_observe [OF q]])
  show ?thesis
  proof (cases "guard_verdict ''input guard'' gr")
    case None
    then show ?thesis using assms Some o goes_ok [OF qo] by (auto simp: check_input_def Let_def)
  next
    case (Some er)
    have "goes True [] s (send (StreamError er) (observe stage_guard_in Leave [] (Some er) s2))"
      by (rule goes_fail [OF qo]) simp
    moreover have "check_input ses input working s =
        (Some er, send (StreamError er) (observe stage_guard_in Leave [] (Some er) s2))"
      using Some \<open>ag_in_guard (rs_agent s) = Some g\<close> o by (simp add: check_input_def Let_def)
    ultimately show ?thesis using assms by simp
  qed
qed

lemma first_turn_goes:
  assumes "first_turn rt ses pre input s = ((e, w), t)"
  shows "goes (e \<noteq> None) [] s t"
proof -
  let ?s0 = "observe stage_memory_fetch Enter [] None s"
  obtain h ci cerr s1 where a: "fetch_history rt ses ?s0 = ((h, ci, cerr), s1)" by (metis prod.exhaust)
  let ?s2 = "observe stage_memory_fetch Leave (fetch_detail cerr ci (rs_compressed s1)) None s1"
  have c: "check_input ses input (h @ pre @ [input]) ?s2 = (e, t)"
    using assms a by (simp add: first_turn_def Let_def split: prod.splits)
  have "quiet s s1" using quiet_trans [OF quiet_observe [OF quiet_refl] hush_quiet [OF hush_fetch_history [of ?s0 rt ses]]] a
    by simp
  then have "quiet s ?s2" by (rule quiet_observe)
  then show ?thesis using check_input_goes [OF c] by (rule quiet_then_goes)
qed

lemma quiet_fit_request: "quiet s (snd (fit_request rt ses ms w s))"
  by (simp add: fit_request_def Let_def quiet_observe quiet_refl)

lemma ask_model_goes:
  assumes "ask_model rt ses maxTurns turn rv s = ((r, rv'), t)"
  shows "goes (isl r) [] s t" "rv_result rv' = rv_result rv"
proof -
  obtain ms s1 where a: "build_prompt ses (rv_working rv) (observe stage_prompt_build Enter [] None s) = (ms, s1)"
    by fastforce
  obtain req w s2 where b: "fit_request rt ses ms (rv_working rv) (observe stage_prompt_build Leave [] None s1) = ((req, w), s2)"
    by (metis prod.exhaust)
  let ?s3 = "observe stage_model_call Enter [(''turn'', DInt turn), (''maxTurns'', DInt maxTurns)] None s2"
  obtain m s4 where c: "call_model rt req ?s3 = (m, s4)" by fastforce
  have "quiet s s1"
    using quiet_trans [OF quiet_observe [OF quiet_refl] quiet_build_prompt [of _ ses "rv_working rv"]] a
    by (metis snd_conv)
  then have "quiet s (observe stage_prompt_build Leave [] None s1)" by (rule quiet_observe)
  then have "quiet s s2" using quiet_trans [OF _ quiet_fit_request [of _ rt ses ms "rv_working rv"]] b
    by (metis snd_conv)
  then have "quiet s ?s3" by (rule quiet_observe)
  then have q4: "quiet s s4" using quiet_trans [OF _ call_model_quiet [of ?s3 rt req]] c by (metis snd_conv)
  have g4: "grows [] s (observe n p d e s4)" for n p d e by (rule grows_quiet [OF quiet_observe [OF q4]])
  have fail: "goes True [] s (send x (observe n p d e s4))" if "is_failure x" for x n p d e
    by (rule goes_fail [OF g4 that])
  show "goes (isl r) [] s t" "rv_result rv' = rv_result rv"
    using assms a b c fail goes_ok [OF g4]
    by (auto simp: ask_model_def Let_def split: sum.splits list.splits)
qed

lemma tool_call_events_plain: "\<forall>e\<in>set (tool_call_events cs). \<not> is_terminal e"
  by (simp add: tool_call_events_def)

definition new_messages :: "run_vars \<Rightarrow> message list" where
  "new_messages rv = rr_messages (rv_result rv)"

lemma new_messages_sel [simp]:
  "new_messages (add_result m rv) = new_messages rv @ [m]"
  "new_messages (add_working m rv) = new_messages rv"
  "new_messages (rv\<lparr>rv_working := w\<rparr>) = new_messages rv"
  "new_messages (rv\<lparr>rv_result := (rv_result rv)\<lparr>rr_stop_reason := x\<rparr>\<rparr>) = new_messages rv"
  by (simp_all add: new_messages_def add_result_def add_working_def)

lemma take_response_grows:
  assumes "take_response ses c u rv s = (rv', t)"
  shows "grows (remembered (rs_agent s) (stamp_name (ag_name (rs_agent s)) (ch_message c))) s t"
    and "new_messages rv' = new_messages rv @ [ch_message c]"
proof -
  let ?m = "stamp_name (ag_name (rs_agent s)) (ch_message c)"
  let ?s1 = "send_all (tool_call_events (msg_tool_calls (ch_message c))) s"
  have q: "quiet s ?s1" by (rule quiet_send_all [OF quiet_refl tool_call_events_plain])
  have "rs_agent ?s1 = rs_agent s" by (simp add: send_all_def)
  then have "grows (remembered (rs_agent s) ?m) ?s1 (append_memory ses ?m ?s1)"
    using append_memory_grows [of ?s1 ?m ses] by simp
  with q have "grows (remembered (rs_agent s) ?m) s (append_memory ses ?m ?s1)" by (rule quiet_then_grows)
  then show "grows (remembered (rs_agent s) ?m) s t"
    using assms by (simp add: take_response_def Let_def)
  show "new_messages rv' = new_messages rv @ [ch_message c]"
    using assms by (auto simp: take_response_def Let_def new_messages_def add_result_def add_working_def)
qed

lemma check_output_goes:
  assumes "check_output ses m working s = (e, t)"
  shows "goes (e \<noteq> None) [] s t"
proof (cases "ag_out_guard (rs_agent s)")
  case None
  then show ?thesis using assms by (auto simp: check_output_def intro!: goes_ok grows_quiet quiet_refl)
next
  case g: (Some g)
  obtain gr s1 where o: "on_world (g ses m working) (observe stage_guard_out Enter [] None s) = (gr, s1)"
    by fastforce
  have q: "quiet s s1" by (rule quiet_on_world [OF o quiet_observe [OF quiet_refl]])
  show ?thesis
  proof (cases "guard_verdict ''output guard'' gr")
    case None
    then show ?thesis using assms g o goes_ok [OF grows_quiet [OF q]] by (auto simp: check_output_def)
  next
    case (Some er)
    have "goes True [] s (send (StreamError er) (observe stage_guard_out Leave [] (Some er) s1))"
      by (rule goes_fail [OF grows_quiet [OF quiet_observe [OF q]]]) simp
    moreover have "check_output ses m working s =
        (Some er, send (StreamError er) (observe stage_guard_out Leave [] (Some er) s1))"
      using g Some o by (simp add: check_output_def)
    ultimately show ?thesis using assms by simp
  qed
qed

lemma quiet_leave_guard_out: "quiet s (leave_guard_out s)"
  by (simp add: leave_guard_out_def quiet_observe quiet_refl)

text \<open>A tool result as it is kept: itself, or with its content replaced by the block notice.\<close>

definition kept_as :: "message \<Rightarrow> message \<Rightarrow> bool" where
  "kept_as tr k = (k = tr \<or> (\<exists>r. k = tr\<lparr>msg_content := blocked_text r\<rparr>))"

lemma kept_as_answers: "kept_as tr k \<Longrightarrow> answers c tr \<Longrightarrow> answers c k"
  by (auto simp: kept_as_def answers_def)

lemma kept_as_calls: "kept_as tr k \<Longrightarrow> msg_tool_calls k = msg_tool_calls tr"
  by (auto simp: kept_as_def)

lemma screen_result_goes:
  assumes "screen_result ses working tr s = (r, t)"
  shows "goes (isl r) [] s t" "r = Inr k \<Longrightarrow> kept_as tr k"
proof -
  have "goes (isl r) [] s t \<and> (\<forall>k. r = Inr k \<longrightarrow> kept_as tr k)"
  proof (cases "ag_out_guard (rs_agent s)")
    case None
    then show ?thesis using assms
      by (auto simp: screen_result_def kept_as_def intro!: goes_ok grows_quiet quiet_refl)
  next
    case (Some g)
    obtain gr s1 where o: "on_world (g ses tr working) s = (gr, s1)" by fastforce
    have q: "quiet s s1" by (rule quiet_on_world [OF o quiet_refl])
    have f: "goes True [] s (send (StreamError e) (observe stage_guard_out Leave [] (Some e) s1))" for e
      by (rule goes_fail [OF grows_quiet [OF quiet_observe [OF q]]]) simp
    show ?thesis using assms Some o f goes_ok [OF grows_quiet [OF q]]
      by (auto simp: screen_result_def Let_def kept_as_def split: if_splits)
  qed
  then show "goes (isl r) [] s t" "r = Inr k \<Longrightarrow> kept_as tr k" by auto
qed

section \<open>One turn\<close>

lemma remembered_same: "same_agent a b \<Longrightarrow> remembered b m = remembered a m"
  by (simp add: remembered_def same_agent_sel)

text \<open>The stored messages of a list of kept ones.\<close>

definition memo :: "'w agent \<Rightarrow> message list \<Rightarrow> message list" where
  "memo a ms = concat (map (remembered a) ms)"

lemma memo_simps [simp]: "memo a [] = []" "memo a (m # ms) = remembered a m @ memo a ms"
  "memo a (ms @ ms') = memo a ms @ memo a ms'"
  by (simp_all add: memo_def)

lemma memo_same: "same_agent a b \<Longrightarrow> memo b ms = memo a ms"
proof -
  assume "same_agent a b"
  then have "remembered b = remembered a" by (intro ext remembered_same)
  then show "memo b ms = memo a ms" by (simp add: memo_def)
qed

lemma grows_same_agent: "grows ms s t \<Longrightarrow> same_agent (rs_agent s) (rs_agent t)"
  by (simp add: grows_def)

lemma keep_results_goes:
  "keep_results ses trs rv s = ((e, rv'), t) \<Longrightarrow>
   \<exists>ks. goes (e \<noteq> None) (memo (rs_agent s) ks) s t \<and> new_messages rv' = new_messages rv @ ks \<and>
     list_all2 kept_as (take (length ks) trs) ks \<and> (e = None \<longrightarrow> length ks = length trs)"
proof (induction trs arbitrary: rv s)
  case Nil
  then have "goes (e \<noteq> None) (memo (rs_agent s) []) s t \<and> new_messages rv' = new_messages rv @ []"
    by (auto intro!: goes_ok grows_quiet quiet_refl)
  then show ?case by (intro exI [of _ "[]"]) simp
next
  case (Cons tr trs)
  obtain r s1 where a: "screen_result ses (rv_working rv) tr s = (r, s1)" by fastforce
  show ?case
  proof (cases r)
    case (Inl er)
    then have "goes (e \<noteq> None) (memo (rs_agent s) []) s t \<and> new_messages rv' = new_messages rv @ []"
      using Cons.prems a screen_result_goes(1) [OF a] by auto
    then show ?thesis using Inl Cons.prems a by (intro exI [of _ "[]"]) auto
  next
    case (Inr k)
    have k: "kept_as tr k" by (rule screen_result_goes(2) [OF a Inr])
    let ?s2 = "send (StreamToolResult k) s1"
    let ?s3 = "append_memory ses k ?s2"
    have g1: "grows [] s s1" using screen_result_goes(1) [OF a] Inr by (simp add: goes_def)
    have ag: "same_agent (rs_agent s) (rs_agent s1)" by (rule grows_same_agent [OF g1])
    have "quiet s1 ?s2" by (rule quiet_send [OF quiet_refl]) simp
    then have "grows [] s ?s2" by (rule grows_then_quiet [OF g1])
    from grows_trans [OF this append_memory_grows [of ?s2 k ses]]
    have g3: "grows (remembered (rs_agent s) k) s ?s3" by (simp add: remembered_same [OF ag])
    have "keep_results ses trs (add_working k (add_result k rv)) ?s3 = ((e, rv'), t)"
      using Cons.prems a Inr by simp
    from Cons.IH [OF this] obtain ks where ks:
      "goes (e \<noteq> None) (memo (rs_agent ?s3) ks) ?s3 t" "new_messages rv' = new_messages rv @ k # ks"
      "list_all2 kept_as (take (length ks) trs) ks" "e = None \<longrightarrow> length ks = length trs" by auto
    have "goes (e \<noteq> None) (memo (rs_agent s) (k # ks)) s t"
      using goes_trans [OF g3 ks(1)] memo_same [OF grows_same_agent [OF g3]] by simp
    moreover have "list_all2 kept_as (take (length (k # ks)) (tr # trs)) (k # ks)" using k ks(3) by simp
    ultimately show ?thesis using ks(2,4) by (intro exI [of _ "k # ks"]) simp
  qed
qed

text \<open>
  A conversation in which every message with tool calls is followed by the answers to exactly
  these calls, in their order.
\<close>

function answered :: "message list \<Rightarrow> bool" where
  "answered [] = True"
| "answered (m # ms) =
     (let n = length (msg_tool_calls m) in
      list_all2 answers (msg_tool_calls m) (take n ms) \<and> answered (drop n ms))"
  by pat_completeness auto
termination
  by (relation "measure length") auto

lemma answered_append: "answered xs \<Longrightarrow> answered ys \<Longrightarrow> answered (xs @ ys)"
proof (induction xs rule: answered.induct)
  case (2 m ms)
  let ?n = "length (msg_tool_calls m)"
  have a: "list_all2 answers (msg_tool_calls m) (take ?n ms)" "answered (drop ?n ms)"
    using 2(2) by (simp_all add: Let_def)
  have "?n \<le> length ms" using list_all2_lengthD [OF a(1)] by simp
  then show ?case using 2(1) [OF refl a(2) 2(3)] a(1) by (simp add: Let_def)
qed simp

lemma answered_plain: "\<forall>m\<in>set ms. msg_tool_calls m = [] \<Longrightarrow> answered ms"
  by (induction ms) auto

lemma answered_group:
  assumes "list_all2 answers (msg_tool_calls m) ks" "\<forall>k\<in>set ks. msg_tool_calls k = []"
  shows "answered (m # ks)"
  using assms list_all2_lengthD [OF assms(1)] by (simp add: Let_def)

definition failed :: "turn_end \<Rightarrow> bool" where
  "failed te = (case te of FailRun e \<Rightarrow> True | _ \<Rightarrow> False)"

lemma failed_simps [simp]: "failed (FailRun e)" "\<not> failed NextTurn" "\<not> failed BreakLoop"
  by (simp_all add: failed_def)

lemma kept_answers:
  "list_all2 answers calls trs \<Longrightarrow> list_all2 kept_as trs ks \<Longrightarrow> list_all2 answers calls ks"
  by (rule list_all2_trans [of answers kept_as answers]) (auto intro: kept_as_answers)

lemma tools_turn_goes:
  assumes fair: "fair_order rt" and run: "tools_turn rt sub ses calls rv s = ((te, rv'), t)"
  shows "\<exists>ks. goes (failed te) (memo (rs_agent s) ks) s t \<and> new_messages rv' = new_messages rv @ ks \<and>
     (\<not> failed te \<longrightarrow> list_all2 answers calls ks)"
proof -
  obtain trs s1 where a: "execute_tools rt sub ses calls s = (trs, s1)" by fastforce
  obtain e rv1 s2 where b: "keep_results ses trs rv s1 = ((e, rv1), s2)" by (metis prod.exhaust)
  have q: "quiet s s1" using quiet_execute_tools [of s rt sub ses calls] a by simp
  have ag: "same_agent (rs_agent s) (rs_agent s1)" by (rule grows_same_agent [OF grows_quiet [OF q]])
  obtain ks where ks: "goes (e \<noteq> None) (memo (rs_agent s1) ks) s1 s2" "new_messages rv1 = new_messages rv @ ks"
    "list_all2 kept_as (take (length ks) trs) ks" "e = None \<longrightarrow> length ks = length trs"
    using keep_results_goes [OF b] by blast
  have g: "goes (e \<noteq> None) (memo (rs_agent s) ks) s s2"
    using quiet_then_goes [OF q ks(1)] memo_same [OF ag] by simp
  show ?thesis
  proof (cases e)
    case (Some er)
    then show ?thesis using run a b g ks(2) by (intro exI [of _ ks]) (auto simp: tools_turn_def)
  next
    case None
    have "list_all2 answers calls trs" using execute_tools_answers [OF fair, of calls sub ses s] a by simp
    then have ans: "list_all2 answers calls ks" using kept_answers ks(3,4) None by fastforce
    have "grows (memo (rs_agent s) ks) s (leave_guard_out s2)"
      using g None grows_then_quiet [OF _ quiet_leave_guard_out] by (simp add: goes_def)
    then show ?thesis using run a b None ks(2) ans
      by (intro exI [of _ ks]) (auto simp: tools_turn_def Let_def goes_def split: if_splits)
  qed
qed

lemma stamp_sel [simp]: "msg_tool_calls (stamp_name n m) = msg_tool_calls m"
  "msg_transient (stamp_name n m) = msg_transient m"
  by (simp_all add: stamp_name_def)

text \<open>The marker of an abnormal finish: in the result only, neither stored nor sent.\<close>

definition end_marker :: "turn_end \<Rightarrow> message list \<Rightarrow> bool" where
  "end_marker te tail = (tail = [] \<or> te = BreakLoop \<and> (\<exists>fr. tail = [abnormal_message fr]))"

lemma after_response_goes:
  assumes fair: "fair_order rt" and run: "after_response rt sub ses c rv s = ((te, rv'), t)"
  shows "\<exists>ks tail. goes (failed te) (memo (rs_agent s) ks) s t \<and>
     new_messages rv' = new_messages rv @ ks @ tail \<and> end_marker te tail \<and>
     (\<not> failed te \<longrightarrow> list_all2 answers (msg_tool_calls (ch_message c)) ks)"
proof -
  let ?m = "stamp_name (ag_name (rs_agent s)) (ch_message c)"
  obtain e s1 where a: "check_output ses ?m (rv_working rv) s = (e, s1)" by fastforce
  have g: "goes (e \<noteq> None) [] s s1" by (rule check_output_goes [OF a])
  show ?thesis
  proof (cases e)
    case (Some er)
    then have "goes (failed te) (memo (rs_agent s) []) s t" "new_messages rv' = new_messages rv" "failed te"
      using run a g by (auto simp: after_response_def Let_def)
    then show ?thesis by (intro exI [of _ "[]"]) (simp add: end_marker_def)
  next
    case e: None
    have q: "quiet s s1" using g e by (simp add: goes_def quiet_grows)
    have ag: "same_agent (rs_agent s) (rs_agent s1)" by (rule grows_same_agent [OF grows_quiet [OF q]])
    show ?thesis
    proof (cases "msg_tool_calls ?m = []")
      case True
      let ?tail = "if ch_finish_reason c \<noteq> '''' \<and> ch_finish_reason c \<noteq> ''stop''
        then [abnormal_message (ch_finish_reason c)] else []"
      have r: "te = BreakLoop" "t = leave_guard_out s1" "new_messages rv' = new_messages rv @ [] @ ?tail"
        using run a e True by (auto simp: after_response_def Let_def)
      have "goes (failed te) (memo (rs_agent s) []) s t"
        using r goes_ok [OF grows_quiet [OF quiet_trans [OF q quiet_leave_guard_out]]] by simp
      moreover have "end_marker te ?tail" using r(1) by (auto simp: end_marker_def)
      moreover have "list_all2 answers (msg_tool_calls (ch_message c)) []" using True by simp
      ultimately show ?thesis using r(3) by blast
    next
      case False
      have run': "tools_turn rt sub ses (msg_tool_calls (ch_message c)) rv s1 = ((te, rv'), t)"
        using run a e False by (simp add: after_response_def Let_def)
      obtain ks where ks: "goes (failed te) (memo (rs_agent s1) ks) s1 t" "new_messages rv' = new_messages rv @ ks"
        "\<not> failed te \<longrightarrow> list_all2 answers (msg_tool_calls (ch_message c)) ks"
        using tools_turn_goes [OF fair run'] by blast
      have "goes (failed te) (memo (rs_agent s) ks) s t"
        using quiet_then_goes [OF q ks(1)] memo_same [OF ag] by simp
      moreover have "end_marker te []" by (simp add: end_marker_def)
      moreover have "new_messages rv' = new_messages rv @ ks @ []" using ks(2) by simp
      ultimately show ?thesis using ks(3) by blast
    qed
  qed
qed

text \<open>Messages up to the agent name that the run stamps on the model's replies.\<close>

definition unnamed :: "message \<Rightarrow> message" where
  "unnamed m = m\<lparr>msg_name := ''''\<rparr>"

lemma unnamed_stamp [simp]: "unnamed (stamp_name n m) = unnamed m"
  by (simp add: unnamed_def stamp_name_def)

lemma remembered_stamp: "map unnamed (remembered a (stamp_name n m)) = map unnamed (remembered a m)"
  by (simp add: remembered_def)

text \<open>
  What a turn adds: the model's reply and the answers to its calls, all of them stored, and
  possibly the end marker.
\<close>

definition turn_adds :: "'w agent \<Rightarrow> turn_end \<Rightarrow> message list \<Rightarrow> message list \<Rightarrow> message list \<Rightarrow> bool" where
  "turn_adds a te ms ks tail =
     (map unnamed ms = map unnamed (memo a ks) \<and> end_marker te tail \<and> (\<not> failed te \<longrightarrow> answered ks))"

lemma response_goes:
  assumes fair: "fair_order rt" and d: "take_response ses c u rv s = (rv1, s1)"
    and f: "after_response rt sub ses c rv1 s1 = ((te, rv'), t)"
  shows "\<exists>ms ks tail. goes (failed te) ms s t \<and> new_messages rv' = new_messages rv @ ks @ tail \<and>
     turn_adds (rs_agent s) te ms ks tail"
proof -
  let ?st = "stamp_name (ag_name (rs_agent s)) (ch_message c)"
  have g: "grows (remembered (rs_agent s) ?st) s s1" by (rule take_response_grows(1) [OF d])
  obtain ks tail where ks: "goes (failed te) (memo (rs_agent s1) ks) s1 t"
    "new_messages rv' = new_messages rv1 @ ks @ tail" "end_marker te tail"
    "\<not> failed te \<longrightarrow> list_all2 answers (msg_tool_calls (ch_message c)) ks"
    using after_response_goes [OF fair f] by blast
  let ?ms = "remembered (rs_agent s) ?st @ memo (rs_agent s) ks"
  have "goes (failed te) ?ms s t"
    using goes_trans [OF g ks(1)] memo_same [OF grows_same_agent [OF g]] by simp
  moreover have "new_messages rv' = new_messages rv @ (ch_message c # ks) @ tail"
    using ks(2) take_response_grows(2) [OF d] by simp
  moreover have "turn_adds (rs_agent s) te ?ms (ch_message c # ks) tail"
    using ks(3,4) answered_group [of "ch_message c" ks]
    by (auto simp: turn_adds_def remembered_stamp answers_def list_all2_conv_all_nth in_set_conv_nth)
  ultimately show ?thesis by blast
qed

lemma turn_adds_same: "same_agent a b \<Longrightarrow> turn_adds b te ms ks tail = turn_adds a te ms ks tail"
  by (simp add: turn_adds_def memo_same)

lemma run_turn_goes:
  assumes fair: "fair_order rt"
    and run: "run_turn rt sub ses0 pre input maxTurns turn rv s = ((te, rv'), t)"
  shows "\<exists>ms ks tail. goes (failed te) ms s t \<and> new_messages rv' = new_messages rv @ ks @ tail \<and>
     turn_adds (rs_agent s) te ms ks tail"
proof (cases "rt_ctx rt (rs_world s)")
  let ?ses = "ses0\<lparr>ses_turn := turn\<rparr>"
  have early: ?thesis if "failed te" "goes True [] s t" "new_messages rv' = new_messages rv"
    using that by (intro exI [of _ "[]"]) (simp add: turn_adds_def end_marker_def)
  {
    case (Some e)
    have "goes True [] s (send (StreamAborted e) s)"
      by (rule goes_fail [OF grows_quiet [OF quiet_refl]]) simp
    then show ?thesis using run Some early by (auto simp: run_turn_def)
  next
    case ctx: None
    obtain e w s1 where a: "(if turn = 1 then first_turn rt ?ses pre input s else ((None, rv_working rv), s)) = ((e, w), s1)"
      by (metis prod.exhaust)
    have g1: "goes (e \<noteq> None) [] s s1"
      using a first_turn_goes [of rt ?ses pre input s e w s1] goes_ok [OF grows_quiet [OF quiet_refl]]
      by (auto split: if_splits)
    show ?thesis
    proof (cases e)
      case (Some er)
      then have "te = FailRun er" "t = s1" "rv' = rv\<lparr>rv_working := w\<rparr>"
        using run ctx a by (auto simp: run_turn_def Let_def)
      then show ?thesis using early g1 Some by simp
    next
      case e: None
      have q1: "quiet s s1" using g1 e by (simp add: goes_def quiet_grows)
      obtain r rv1 s2 where b: "ask_model rt ?ses maxTurns turn (rv\<lparr>rv_working := w\<rparr>) s1 = ((r, rv1), s2)"
        by (metis prod.exhaust)
      have g2: "goes (isl r) [] s s2" by (rule quiet_then_goes [OF q1 ask_model_goes(1) [OF b]])
      have nm: "new_messages rv1 = new_messages rv" using ask_model_goes(2) [OF b] by (simp add: new_messages_def)
      show ?thesis
      proof (cases r)
        case (Inl er)
        then have "te = FailRun er" "t = s2" "rv' = rv1"
          using run ctx a b e by (auto simp: run_turn_def Let_def)
        then show ?thesis using early g2 Inl nm by simp
      next
        case (Inr cu)
        obtain c u rv2 s3 where d: "cu = (c, u)" "take_response ?ses c u rv1 s2 = (rv2, s3)" by fastforce
        have f: "after_response rt sub ?ses c rv2 s3 = ((te, rv'), t)"
          using run ctx a b d e Inr by (simp add: run_turn_def Let_def)
        have q2: "quiet s s2" using g2 Inr by (simp add: goes_def quiet_grows)
        show ?thesis using response_goes [OF fair d(2) f] quiet_then_goes [OF q2] nm
            turn_adds_same [OF grows_same_agent [OF grows_quiet [OF q2]]] by metis
      qed
    qed
  }
qed

section \<open>The whole run\<close>

text \<open>What a run adds, by the error it ends with.\<close>

definition run_adds :: "'w agent \<Rightarrow> go_err option \<Rightarrow> message list \<Rightarrow> message list \<Rightarrow> message list \<Rightarrow> bool" where
  "run_adds a err ms ks tail =
     (map unnamed ms = map unnamed (memo a ks) \<and>
      (if err = None then answered ks \<and> end_marker BreakLoop tail else tail = []))"

lemma run_adds_step:
  assumes "turn_adds a NextTurn ms ks tail" "run_adds a err ms' ks' tail'"
  shows "tail = []" "run_adds a err (ms @ ms') (ks @ ks') tail'"
  using assms by (auto simp: turn_adds_def run_adds_def end_marker_def answered_append split: if_splits)

lemma run_turns_goes:
  assumes fair: "fair_order rt"
  shows "run_turns rt sub ses pre input maxTurns n turn rv s = ((err, turn', rv'), t) \<Longrightarrow>
    (\<exists>ms ks tail. goes (err \<noteq> None) ms s t \<and> new_messages rv' = new_messages rv @ ks @ tail \<and>
       run_adds (rs_agent s) err ms ks tail) \<and> turn \<le> turn' \<and> turn' \<le> turn + int n"
proof (induction n arbitrary: turn rv s)
  case 0
  then have "err = None" "t = s" "rv' = rv" "turn' = turn" by auto
  moreover have "goes False [] s s" by (rule goes_ok [OF grows_quiet [OF quiet_refl]])
  ultimately show ?case
    by (intro conjI exI [of _ "[]"]) (simp_all add: run_adds_def end_marker_def)
next
  case (Suc n)
  obtain te rv1 s1 where a: "run_turn rt sub ses pre input maxTurns turn rv s = ((te, rv1), s1)"
    by (metis prod.exhaust)
  obtain ms ks tail where t1: "goes (failed te) ms s s1" "new_messages rv1 = new_messages rv @ ks @ tail"
    "turn_adds (rs_agent s) te ms ks tail" using run_turn_goes [OF fair a] by blast
  show ?case
  proof (cases te)
    case (FailRun e)
    then have r: "err = Some e" "turn' = turn" "rv' = rv1" "t = s1" using Suc.prems a by auto
    have "run_adds (rs_agent s) err ms ks tail"
      using t1(3) FailRun r by (auto simp: run_adds_def turn_adds_def end_marker_def)
    then show ?thesis using t1 FailRun r by (intro conjI exI) (assumption | simp)+
  next
    case BreakLoop
    then have r: "err = None" "turn' = turn" "rv' = rv1" "t = s1" using Suc.prems a by auto
    have "run_adds (rs_agent s) err ms ks tail"
      using t1(3) BreakLoop r by (auto simp: run_adds_def turn_adds_def)
    then show ?thesis using t1 BreakLoop r by (intro conjI exI) (assumption | simp)+
  next
    case NextTurn
    have g: "grows ms s s1" using t1(1) NextTurn by (simp add: goes_def)
    have "run_turns rt sub ses pre input maxTurns n (turn + 1) rv1 s1 = ((err, turn', rv'), t)"
      using Suc.prems a NextTurn by simp
    from Suc.IH [OF this] obtain ms' ks' tail' where t2: "goes (err \<noteq> None) ms' s1 t"
      "new_messages rv' = new_messages rv1 @ ks' @ tail'" "run_adds (rs_agent s1) err ms' ks' tail'"
      and b: "turn + 1 \<le> turn'" "turn' \<le> turn + 1 + int n" by blast
    have "run_adds (rs_agent s) err ms' ks' tail'"
      using t2(3) memo_same [OF grows_same_agent [OF g]] by (simp add: run_adds_def)
    then have "tail = []" "run_adds (rs_agent s) err (ms @ ms') (ks @ ks') tail'"
      using run_adds_step t1(3) NextTurn by blast+
    then have "goes (err \<noteq> None) (ms @ ms') s t \<and> new_messages rv' = new_messages rv @ (ks @ ks') @ tail' \<and>
        run_adds (rs_agent s) err (ms @ ms') (ks @ ks') tail'"
      using goes_trans [OF g t2(1)] t1(2) t2(2) by simp
    then show ?thesis using b by (intro conjI) (blast, simp_all)
  qed
qed

lemma on_world_snd [simp]:
  "rs_events (snd (on_world f s)) = rs_events s" "rs_streaming (snd (on_world f s)) = rs_streaming s"
  "rs_stored (snd (on_world f s)) = rs_stored s" "rs_agent (snd (on_world f s)) = rs_agent s"
  by (simp_all add: on_world_def split_beta del: on_world_sel)

lemma init_runner_quiet:
  "rs_events (init_runner ses s) = rs_events s" "rs_streaming (init_runner ses s) = rs_streaming s"
  "rs_stored (init_runner ses s) = rs_stored s" "rs_agent (init_runner ses s) = rs_agent s"
  by (cases "ses_model ses"; cases "ag_skill_loader (rs_agent s)"; simp add: init_runner_def Let_def split_beta del: on_world_sel)+

lemma quiet_agent_start: "agent_start_hook ses input s = (st, t) \<Longrightarrow> quiet s t"
  by (auto simp: agent_start_hook_def quiet_refl intro: quiet_on_world [OF _ quiet_refl]
      split: option.splits prod.splits)

lemma agent_end_sel [simp]: "rs_events (agent_end_hook req resp err st s) = rs_events s"
  "rs_stored (agent_end_hook req resp err st s) = rs_stored s"
  by (auto simp: agent_end_hook_def split: option.splits)

text \<open>The run as one step: the events it sends, what it stores and what it returns.\<close>

lemma run_summary:
  assumes fair: "fair_order rt"
    and run: "run rt sub ses pre input s = ((res, err), t)"
  obtains u x ms ks tail where
    "grows (remembered (rs_agent s) input @ ms) (init_runner ses s) u"
    "if err = None then x = StreamDone (Some res) else is_failure x"
    "rs_events t = rs_events (send x u)" "rs_stored t = rs_stored u"
    "run_adds (rs_agent s) err ms ks tail" "rr_messages res = ks @ tail"
    "err = None \<longrightarrow> 1 \<le> rr_turn_count res \<and> rr_turn_count res \<le> run_max_turns (rs_agent s) + 1"
proof -
  let ?mt = "run_max_turns (rs_agent s)" and ?s0 = "init_runner ses s"
  have mt: "0 \<le> ?mt" by (simp add: run_max_turns_def)
  obtain st s2 where a: "agent_start_hook ses input (append_memory ses input ?s0) = (st, s2)" by fastforce
  obtain err' turn rv s3 where b: "run_turns rt sub ses pre input ?mt (nat ?mt) 1 init_vars s2 = ((err', turn, rv), s3)"
    by (metis prod.exhaust)
  obtain res' s4 where c: "close_run ((err', turn, rv), s3) = (res', s4)" by fastforce
  have r: "err' = err" "res' = res" "t = agent_end_hook (rv_req rv) (rv_resp rv) err st s4"
    using run a b c by (auto simp: run_def Let_def)
  have g0: "grows (remembered (rs_agent s) input) ?s0 s2"
    using grows_then_quiet [OF append_memory_grows quiet_agent_start [OF a]] by (simp add: init_runner_quiet)
  obtain ms ks tail where k: "goes (err \<noteq> None) ms s2 s3" "new_messages rv = ks @ tail"
    "run_adds (rs_agent s2) err ms ks tail" and turn: "1 \<le> turn" "turn \<le> 1 + int (nat ?mt)"
    using run_turns_goes [OF fair b] r(1) by (auto simp: new_messages_def init_vars_def empty_run_result_def)
  have ad: "run_adds (rs_agent s) err ms ks tail"
    using k(3) memo_same [OF grows_same_agent [OF g0]] by (simp add: run_adds_def init_runner_quiet)
  have g: "goes (err \<noteq> None) (remembered (rs_agent s) input @ ms) ?s0 s3" by (rule goes_trans [OF g0 k(1)])
  show ?thesis
  proof (cases err)
    case None
    then have "s4 = send (StreamDone (Some res)) s3" "rr_messages res = ks @ tail" "rr_turn_count res = turn"
      using c r k(2) by (auto simp: close_run_def Let_def new_messages_def)
    moreover have "grows (remembered (rs_agent s) input @ ms) ?s0 s3" using g None by (simp add: goes_def)
    ultimately show ?thesis using ad turn mt None r by (intro that [of ms s3 "StreamDone (Some res)" ks tail]) auto
  next
    case (Some e)
    then have "s4 = s3" "rr_messages res = ks @ tail"
      using c r k(2) by (auto simp: close_run_def new_messages_def)
    moreover obtain x u where "is_failure x" "grows (remembered (rs_agent s) input @ ms) ?s0 u" "s3 = send x u"
      using g Some by (auto simp: goes_def ends_with_def)
    ultimately show ?thesis using ad Some r by (intro that [of ms u x ks tail]) auto
  qed
qed

section \<open>The guarantees\<close>

lemma new_run_sel [simp]: "rs_agent (new_run a mdl st w) = a" "rs_events (new_run a mdl st w) = []"
  "rs_stored (new_run a mdl st w) = []" "rs_streaming (new_run a mdl st w) = st"
  by (simp_all add: new_run_def)

text \<open>The events of a stream: no terminal event but the last, which tells how the run ended.\<close>

definition one_terminal :: "stream_event list \<Rightarrow> run_result \<Rightarrow> go_err option \<Rightarrow> bool" where
  "one_terminal evs res err =
     (evs \<noteq> [] \<and> filter is_terminal (butlast evs) = [] \<and>
      (case err of None \<Rightarrow> last evs = StreamDone (Some res) | Some e \<Rightarrow> is_failure (last evs)))"

lemma run_one_terminal:
  assumes "fair_order rt"
  shows "case run rt sub ses pre input (new_run a mdl True w) of
    ((res, err), t) \<Rightarrow> one_terminal (rs_events t) res err"
proof -
  obtain res err t where r: "run rt sub ses pre input (new_run a mdl True w) = ((res, err), t)"
    by (metis prod.exhaust)
  obtain u x ms where u: "grows (remembered a input @ ms) (init_runner ses (new_run a mdl True w)) u"
    "rs_events t = rs_events (send x u)" "if err = None then x = StreamDone (Some res) else is_failure x"
    by (rule run_summary [OF assms r, unfolded new_run_sel]) blast
  have "rs_events t = rs_events u @ [x]" "filter is_terminal (rs_events u) = []"
    using u(1,2) by (auto simp: grows_def init_runner_quiet new_run_def filter_empty_conv)
  then show ?thesis using r u(3) by (auto simp: one_terminal_def split: option.splits)
qed

text \<open>
  C2: a streaming run sends exactly one terminal event and sends it last: the result when
  \<^verbatim>\<open>run\<close> returns no error, an error or abort event when it returns one. So a consumer that reads
  up to the terminal event has read everything, and never waits for one in vain.
\<close>

theorem run_one_terminal_event:
  assumes "fair_order rt"
  shows "case run rt sub ses pre input (new_run a mdl True w) of
    ((res, err), t) \<Rightarrow> one_terminal (rs_events t) res err"
  using assms by (rule run_one_terminal)

text \<open>A model that asks for the tool \<open>f\<close> on its first call (the world counts the calls).\<close>

definition asking_model :: "nat chat_model" where
  "asking_model = \<lparr>m_chat = (\<lambda>req n. (Inr \<lparr>resp_choices = [\<lparr>ch_index = 0,
        ch_message = (if n = 0 then (role_message RoleAssistant ''hm'')\<lparr>msg_tool_calls := [plain_call ''1'' ''f'' '''']\<rparr>
                      else role_message RoleAssistant ''ok''), ch_finish_reason = ''stop''\<rparr>],
        resp_usage = \<lparr>us_prompt = 3, us_completion = 2, us_total = 5\<rparr>\<rparr>, n + 1)),
     m_stream = (\<lambda>req n. (Inr None, n)), m_context_window = 0, m_tokenizer_model = None\<rparr>"

definition nat_runtime :: "nat runtime" where
  "nat_runtime = \<lparr>rt_ctx = (\<lambda>w. None), rt_sleep = (\<lambda>d w. (None, w)), rt_fresh = (\<lambda>n w. (n, w)),
     rt_count = (\<lambda>m t. length t), rt_dec_name = Inr, rt_dec_query = Inr,
     rt_dec_subagent = (\<lambda>t. Inl (ErrText ''bad'')), rt_order = (\<lambda>is w. rev is), rt_score = (\<lambda>r. ''0.00'')\<rparr>"

lemma fair_nat_runtime [simp]: "fair_order nat_runtime"
  by (simp add: fair_order_def nat_runtime_def)

definition demo_run :: "nat run_state \<Rightarrow> (run_result \<times> go_err option) \<times> nat run_state" where
  "demo_run = run nat_runtime no_sub_runner (new_session ''s'') [] (user_message ''hi'')"

lemma run_one_terminal_event_witness:
  "case demo_run (new_run (base_agent ''a'') asking_model True 0) of
     ((res, err), t) \<Rightarrow> one_terminal (rs_events t) res err"
  unfolding demo_run_def by (rule run_one_terminal_event) simp

text \<open>
  C5: in the messages of a successful run every message with tool calls is followed by the
  answers to exactly these calls, in the order of the calls, whatever the tools did; so the
  history the next model call sees is well formed.
\<close>

theorem run_messages_answered:
  assumes "fair_order rt" "snd (fst (run rt sub ses pre input (new_run a mdl st w))) = None"
  shows "answered (rr_messages (fst (fst (run rt sub ses pre input (new_run a mdl st w)))))"
proof -
  obtain res err t where r: "run rt sub ses pre input (new_run a mdl st w) = ((res, err), t)"
    by (metis prod.exhaust)
  obtain ms ks tail where k: "run_adds a err ms ks tail" "rr_messages res = ks @ tail"
    by (rule run_summary [OF assms(1) r, unfolded new_run_sel]) blast
  have e: "err = None" using assms(2) r by simp
  have "answered tail" using k(1) e
    by (auto simp: run_adds_def end_marker_def abnormal_message_def system_message_def)
  then show ?thesis using k e r answered_append by (simp add: run_adds_def)
qed

lemma run_messages_answered_witness:
  "answered (rr_messages (fst (fst (demo_run (new_run (base_agent ''a'') asking_model False 0)))))"
proof -
  have "case snd (fst (demo_run (new_run (base_agent ''a'') asking_model False 0))) of None \<Rightarrow> True | Some e \<Rightarrow> False"
    by code_simp
  then have "snd (fst (demo_run (new_run (base_agent ''a'') asking_model False 0))) = None"
    by (simp split: option.splits)
  then show ?thesis unfolding demo_run_def by (rule run_messages_answered [rotated]) simp
qed

text \<open>
  The memory backend is given exactly the conversation of the run: the input and then, in
  order, every message of the result except the marker of an abnormal finish (transient messages
  and runs without a memory apart); only the agent name is stamped on the model's replies. This
  holds for failed runs too, up to the failure.
\<close>

theorem run_stores_its_messages:
  assumes "fair_order rt"
  shows "case run rt sub ses pre input (new_run a mdl st w) of ((res, err), t) \<Rightarrow>
    \<exists>ks tail. rr_messages res = ks @ tail \<and> end_marker BreakLoop tail \<and>
      map unnamed (rs_stored t) = map unnamed (memo a (input # ks))"
proof -
  let ?s = "new_run a mdl st w"
  obtain res err t where r: "run rt sub ses pre input ?s = ((res, err), t)"
    by (metis prod.exhaust)
  obtain u ms' ks tail where k: "grows (remembered a input @ ms') (init_runner ses ?s) u" "rs_stored t = rs_stored u"
    "run_adds a err ms' ks tail" "rr_messages res = ks @ tail"
    by (rule run_summary [OF assms r, unfolded new_run_sel]) blast
  have "rs_stored t = remembered a input @ ms'"
    using k(1,2) by (simp add: grows_def init_runner_quiet new_run_def)
  then have "map unnamed (rs_stored t) = map unnamed (memo a (input # ks))"
    using k(3) by (simp add: run_adds_def)
  moreover have "end_marker BreakLoop tail" using k(3) by (auto simp: run_adds_def end_marker_def split: if_splits)
  ultimately show ?thesis using r k(4) by auto
qed

definition blank_memory :: "nat memory_if" where
  "blank_memory = \<lparr>mem_recent = (\<lambda>i n b w. (Inr [], w)), mem_count = (\<lambda>i w. (Inr 0, w)),
     mem_compact = (\<lambda>i c ms w. (None, w)), mem_compressed = (\<lambda>i w. (Inr None, w)),
     mem_search = (\<lambda>i q n w. (Inr [], w)), mem_append = (\<lambda>i m w. (None, w)), mem_delete = (\<lambda>i w. (None, w))\<rparr>"

definition keeping_agent :: "nat agent" where
  "keeping_agent = (base_agent ''a'')\<lparr>ag_memory := Some blank_memory\<rparr>"

lemma run_stores_its_messages_witness:
  "case demo_run (new_run keeping_agent asking_model True 0) of ((res, err), t) \<Rightarrow>
    \<exists>ks tail. rr_messages res = ks @ tail \<and> end_marker BreakLoop tail \<and>
      map unnamed (rs_stored t) = map unnamed (memo keeping_agent (user_message ''hi'' # ks))"
  unfolding demo_run_def by (rule run_stores_its_messages) simp

section \<open>A refused input\<close>

definition refuses :: "'w guard \<Rightarrow> bool" where
  "refuses g = (\<forall>ses m h w. \<not> gr_allowed (fst (g ses m h w)) \<or> gr_tripwire (fst (g ses m h w)))"

lemma refuses_verdict: "refuses g \<Longrightarrow> guard_verdict x (fst (g ses m h w)) \<noteq> None"
  by (auto simp: refuses_def guard_verdict_def)

text \<open>The run has failed: one failure event sent, no model call reported.\<close>

definition cut_off :: "'w run_state \<Rightarrow> 'w run_state \<Rightarrow> bool" where
  "cut_off s t = (\<exists>u x. hush s u \<and> is_failure x \<and> t = send x u)"

lemma cut_offI: "hush s u \<Longrightarrow> is_failure x \<Longrightarrow> cut_off s (send x u)"
  by (auto simp: cut_off_def)

lemma model_stages_send [simp]: "model_stages (send x u) = model_stages u"
  by (simp add: model_stages_def)

lemma check_input_refused:
  assumes g: "ag_in_guard (rs_agent s) = Some g" "refuses g" and c: "check_input ses input working s = (e, t)"
  shows "e \<noteq> None \<and> cut_off s t"
proof -
  obtain gr s2 where o: "on_world (g ses input working) (observe stage_guard_in Enter [] None s) = (gr, s2)"
    by fastforce
  have q: "hush s s2" by (rule hush_on_world [OF o hush_observe [OF hush_refl]]) simp
  have "guard_verdict ''input guard'' gr \<noteq> None"
    using refuses_verdict [OF g(2)] on_world_fst [OF o] by metis
  then obtain er where er: "guard_verdict ''input guard'' gr = Some er" by blast
  have "hush s (observe stage_guard_in Leave [] (Some er) s2)" by (rule hush_observe [OF q]) simp
  moreover have "check_input ses input working s =
      (Some er, send (StreamError er) (observe stage_guard_in Leave [] (Some er) s2))"
    using g(1) o er by (simp add: check_input_def Let_def)
  then have "e = Some er" "t = send (StreamError er) (observe stage_guard_in Leave [] (Some er) s2)"
    using c by simp_all
  ultimately show ?thesis by (simp add: cut_offI)
qed

lemma first_turn_refused:
  assumes g: "ag_in_guard (rs_agent s) = Some g" "refuses g"
    and f: "first_turn rt ses pre input s = ((e, w), t)"
  shows "e \<noteq> None \<and> cut_off s t"
proof -
  let ?s0 = "observe stage_memory_fetch Enter [] None s"
  obtain h ci cerr s1 where a: "fetch_history rt ses ?s0 = ((h, ci, cerr), s1)" by (metis prod.exhaust)
  let ?s2 = "observe stage_memory_fetch Leave (fetch_detail cerr ci (rs_compressed s1)) None s1"
  have "hush s ?s0" by (rule hush_observe [OF hush_refl]) simp
  from hush_trans [OF this hush_fetch_history [of ?s0 rt ses]] have "hush s s1" using a by simp
  then have q: "hush s ?s2" by (rule hush_observe) simp
  have "ag_in_guard (rs_agent ?s2) = Some g"
    using same_agent_sel(3) [OF grows_same_agent [OF grows_quiet [OF hush_quiet [OF q]]]] g(1) by simp
  moreover have "check_input ses input (h @ pre @ [input]) ?s2 = (e, t)"
    using f a by (simp add: first_turn_def Let_def split: prod.splits)
  ultimately have c: "e \<noteq> None" "cut_off ?s2 t" using check_input_refused [OF _ g(2)] by blast+
  have "cut_off s t" using c(2) hush_trans [OF q] unfolding cut_off_def by blast
  then show ?thesis using c(1) by simp
qed

lemma run_turns_refused:
  assumes g: "ag_in_guard (rs_agent s) = Some g" "refuses g" and n: "0 < n"
    and r: "run_turns rt sub ses pre input maxTurns n 1 rv s = ((err, turn, rv'), t)"
  shows "err \<noteq> None \<and> cut_off s t \<and> rv_result rv' = rv_result rv \<and> rv_req rv' = rv_req rv"
proof -
  obtain m where m: "n = Suc m" using n gr0_conv_Suc by blast
  show ?thesis
  proof (cases "rt_ctx rt (rs_world s)")
    case (Some e)
    then have "err = Some e" "t = send (StreamAborted e) s" "rv' = rv" using r m by (auto simp: run_turn_def)
    moreover have "cut_off s (send (StreamAborted e) s)"
      by (rule cut_offI [OF hush_refl]) simp
    ultimately show ?thesis by simp
  next
    case None
    obtain e w t' where f: "first_turn rt (ses\<lparr>ses_turn := 1\<rparr>) pre input s = ((e, w), t')"
      by (metis prod.exhaust)
    have c: "e \<noteq> None" "cut_off s t'" using first_turn_refused [OF g f] by blast+
    then obtain er where "e = Some er" by blast
    then have "err = Some er" "t = t'" "rv' = rv\<lparr>rv_working := w\<rparr>"
      using r m None f by (auto simp: run_turn_def Let_def)
    then show ?thesis using c by simp
  qed
qed

lemma append_memory_silent:
  "rs_events (append_memory ses m s) = rs_events s" "model_stages (append_memory ses m s) = model_stages s"
proof -
  have "rs_events (append_memory ses m s) = rs_events s \<and> model_stages (append_memory ses m s) = model_stages s"
  proof (cases "msg_transient m \<or> ag_memory (rs_agent s) = None")
    case False
    then obtain mem where mem: "ag_memory (rs_agent s) = Some mem" by auto
    obtain e s2 where o: "on_world (mem_append mem (ses_id ses) m) (observe stage_memory_append Enter [] None s) = (e, s2)"
      by fastforce
    have "hush s s2" by (rule hush_on_world [OF o hush_observe [OF hush_refl]]) simp
    moreover have "append_memory ses m s =
        observe stage_memory_append Leave [] e (s2\<lparr>rs_stored := rs_stored s2 @ [m]\<rparr>)"
      using False mem o by (simp add: append_memory_def)
    ultimately show ?thesis by (simp add: hush_def) (simp add: model_stages_def)
  qed (auto simp: append_memory_def)
  then show "rs_events (append_memory ses m s) = rs_events s" "model_stages (append_memory ses m s) = model_stages s"
    by simp_all
qed

lemma run_start_hush:
  assumes "agent_start_hook ses input (append_memory ses input (init_runner ses s)) = (st, t)"
  shows "rs_events t = rs_events s" "model_stages t = model_stages s"
proof -
  have i: "rs_events (init_runner ses s) = rs_events s" "model_stages (init_runner ses s) = model_stages s"
    by (simp_all add: init_runner_quiet(1))
      (cases "ses_model ses"; cases "ag_skill_loader (rs_agent s)";
        simp add: init_runner_def Let_def split_beta model_stages_def on_world_def del: on_world_sel)
  have "rs_events (snd (agent_start_hook ses input u)) = rs_events u \<and>
      model_stages (snd (agent_start_hook ses input u)) = model_stages u" for u :: "'a run_state"
    by (cases "ag_hooks (rs_agent u)")
      (simp_all add: agent_start_hook_def split_beta on_world_def model_stages_def del: on_world_sel)
  from this [of "append_memory ses input (init_runner ses s)"] show "rs_events t = rs_events s" "model_stages t = model_stages s"
    unfolding assms by (simp_all add: i append_memory_silent)
qed

text \<open>
  C14: when the input guard refuses the input (blocks it, or trips), the run fails before the
  prompt is built: the result is empty, the only event is the failure, no model call is reported
  to the observer, and the memory has received the input at most. (The input itself is stored
  before the guard sees it.)
\<close>

theorem refused_input_stops_run:
  assumes "ag_in_guard a = Some g" "refuses g"
  shows "case run rt sub ses pre input (new_run a mdl True w) of ((res, err), t) \<Rightarrow>
    res = empty_run_result \<and> err \<noteq> None \<and> model_stages t = [] \<and> rs_stored t = remembered a input \<and>
    (\<exists>x. rs_events t = [x] \<and> is_failure x)"
proof -
  let ?s = "new_run a mdl True w" and ?mt = "run_max_turns a"
  obtain st s2 where st: "agent_start_hook ses input (append_memory ses input (init_runner ses ?s)) = (st, s2)"
    by fastforce
  obtain err turn rv s3 where b: "run_turns rt sub ses pre input ?mt (nat ?mt) 1 init_vars s2 = ((err, turn, rv), s3)"
    by (metis prod.exhaust)
  have g: "grows (remembered a input) (init_runner ses ?s) s2"
    using grows_then_quiet [OF append_memory_grows quiet_agent_start [OF st]] by (simp add: init_runner_quiet)
  have ig: "ag_in_guard (rs_agent s2) = Some g"
    using same_agent_sel(3) [OF grows_same_agent [OF g]] assms(1) by (simp add: init_runner_quiet)
  have c: "err \<noteq> None" "cut_off s2 s3" "rv_result rv = empty_run_result"
    using run_turns_refused [OF ig assms(2) _ b] by (auto simp: run_max_turns_def init_vars_def)
  obtain u x where u: "hush s2 u" "is_failure x" "s3 = send x u" using c(2) by (auto simp: cut_off_def)
  have "rs_stored s2 = remembered a input" "rs_streaming s2" using g by (simp_all add: grows_def init_runner_quiet)
  then have k: "rs_stored s3 = remembered a input" "rs_events s3 = [x]" "model_stages s3 = []"
    using u run_start_hush [OF st] by (simp_all add: hush_def quiet_def model_stages_def new_run_def)
  obtain e where e: "err = Some e" using c(1) by blast
  have "run rt sub ses pre input ?s = ((empty_run_result, err), agent_end_hook (rv_req rv) (rv_resp rv) err st s3)"
    using st b c(3) e by (simp add: run_def Let_def close_run_def)
  moreover have "model_stages (agent_end_hook (rv_req rv) (rv_resp rv) err st s3) = model_stages s3"
    by (auto simp: agent_end_hook_def model_stages_def split: option.splits)
  ultimately show ?thesis using k u(2) e by simp
qed

definition no_guard :: "nat guard" where
  "no_guard ses m h w = (\<lparr>gr_allowed = False, gr_reason = ''no'', gr_tripwire = False\<rparr>, w)"

definition guarded_agent :: "nat agent" where
  "guarded_agent = keeping_agent\<lparr>ag_in_guard := Some no_guard, ag_observed := True\<rparr>"

lemma refused_input_stops_run_witness:
  "case demo_run (new_run guarded_agent asking_model True 0) of ((res, err), t) \<Rightarrow>
    res = empty_run_result \<and> err \<noteq> None \<and> model_stages t = [] \<and>
    rs_stored t = remembered guarded_agent (user_message ''hi'') \<and>
    (\<exists>x. rs_events t = [x] \<and> is_failure x)"
  unfolding demo_run_def
  by (rule refused_input_stops_run [of guarded_agent no_guard])
    (simp_all add: guarded_agent_def refuses_def no_guard_def)

section \<open>How many turns\<close>

text \<open>
  A run without error counts at least one turn and at most one more than the limit; the
  limit is 20 when none is set. (A run that used up its turns returns no error either; it is the
  one that counts the extra turn, see \<open>exhausted_run_counts_one_more\<close>.)
\<close>

theorem run_turn_count_bounded:
  assumes "fair_order rt" "snd (fst (run rt sub ses pre input (new_run a mdl st w))) = None"
  shows "1 \<le> rr_turn_count (fst (fst (run rt sub ses pre input (new_run a mdl st w)))) \<and>
    rr_turn_count (fst (fst (run rt sub ses pre input (new_run a mdl st w)))) \<le> run_max_turns a + 1"
proof -
  obtain res err t where r: "run rt sub ses pre input (new_run a mdl st w) = ((res, err), t)"
    by (metis prod.exhaust)
  have "err = None \<longrightarrow> 1 \<le> rr_turn_count res \<and> rr_turn_count res \<le> run_max_turns a + 1"
    by (rule run_summary [OF assms(1) r, unfolded new_run_sel]) blast
  then show ?thesis using assms(2) r by simp
qed

definition one_turn_agent :: "nat agent" where
  "one_turn_agent = (base_agent ''a'')\<lparr>ag_max_turns := 1\<rparr>"

lemma one_turn_no_error: "snd (fst (demo_run (new_run one_turn_agent asking_model False 0))) = None"
proof -
  have "case snd (fst (demo_run (new_run one_turn_agent asking_model False 0))) of None \<Rightarrow> True | Some e \<Rightarrow> False"
    by code_simp
  then show ?thesis by (simp split: option.splits)
qed

lemma run_turn_count_bounded_witness:
  "1 \<le> rr_turn_count (fst (fst (demo_run (new_run one_turn_agent asking_model False 0)))) \<and>
   rr_turn_count (fst (fst (demo_run (new_run one_turn_agent asking_model False 0)))) \<le> run_max_turns one_turn_agent + 1"
  unfolding demo_run_def
  by (rule run_turn_count_bounded [OF _ one_turn_no_error [unfolded demo_run_def]]) simp

text \<open>The limit of one turn, one model call, and a turn count of two.\<close>

lemma exhausted_run_counts_one_more:
  "rr_turn_count (fst (fst (demo_run (new_run one_turn_agent asking_model False 0)))) = 2"
  "rs_world (snd (demo_run (new_run one_turn_agent asking_model False 0))) = 1"
  by code_simp+

section \<open>What the output guard keeps out of the memory\<close>

text \<open>The guard refuses every bad message; the block notice is not bad.\<close>

definition screens :: "'w guard \<Rightarrow> (message \<Rightarrow> bool) \<Rightarrow> bool" where
  "screens g bad = ((\<forall>ses m h w. bad m \<longrightarrow> \<not> gr_allowed (fst (g ses m h w)) \<or> gr_tripwire (fst (g ses m h w))) \<and>
     (\<forall>m r. \<not> bad (m\<lparr>msg_content := blocked_text r\<rparr>)))"

definition clean :: "(message \<Rightarrow> bool) \<Rightarrow> message list \<Rightarrow> 'w run_state \<Rightarrow> bool" where
  "clean bad known s = (\<forall>m\<in>set (rs_stored s). m \<in> set known \<or> \<not> bad m)"

lemma clean_quiet: "clean bad known s \<Longrightarrow> quiet s t \<Longrightarrow> clean bad known t"
  by (simp add: clean_def quiet_def)

lemma clean_append: "clean bad known s \<Longrightarrow> m \<in> set known \<or> \<not> bad m \<Longrightarrow> clean bad known (append_memory ses m s)"
  using append_memory_grows [of s m ses] by (auto simp: clean_def grows_def remembered_def)

lemma screen_result_clean:
  assumes "screen_result ses working tr s = (Inr k, t)" "ag_out_guard (rs_agent s) = Some g" "screens g bad"
  shows "\<not> bad k"
proof -
  obtain gr s1 where o: "on_world (g ses tr working) s = (gr, s1)" by fastforce
  then have "gr = fst (g ses tr working (rs_world s))" using on_world_fst [OF o] by simp
  then show ?thesis using assms o by (auto simp: screen_result_def screens_def Let_def split: if_splits)
qed

lemma keep_results_clean:
  assumes "screens g bad"
  shows "keep_results ses trs rv s = ((e, rv'), t) \<Longrightarrow> ag_out_guard (rs_agent s) = Some g \<Longrightarrow>
    clean bad known s \<Longrightarrow> e = None \<Longrightarrow> clean bad known t"
proof (induction trs arbitrary: rv s)
  case (Cons tr trs)
  obtain r s1 where a: "screen_result ses (rv_working rv) tr s = (r, s1)" by fastforce
  obtain k where k: "r = Inr k" using Cons.prems(1,4) a by (cases r) auto
  let ?s3 = "append_memory ses k (send (StreamToolResult k) s1)"
  have q: "quiet s s1" using screen_result_goes(1) [OF a] k by (simp add: goes_def quiet_grows)
  have q2: "quiet s (send (StreamToolResult k) s1)" by (rule quiet_send [OF q]) simp
  have "clean bad known ?s3"
    using clean_append [OF clean_quiet [OF Cons.prems(3) q2]] screen_result_clean [OF a [unfolded k] Cons.prems(2) assms]
    by blast
  moreover have "same_agent (rs_agent s) (rs_agent ?s3)"
    using grows_same_agent [OF grows_trans [OF grows_quiet [OF q2] append_memory_grows]] .
  then have "ag_out_guard (rs_agent ?s3) = Some g" using Cons.prems(2) same_agent_sel(2) by metis
  moreover have "keep_results ses trs (add_working k (add_result k rv)) ?s3 = ((e, rv'), t)"
    using Cons.prems(1) a k by simp
  ultimately show ?case using Cons.IH Cons.prems(4) by blast
qed auto

lemma tools_turn_clean:
  assumes g: "screens g bad" "ag_out_guard (rs_agent s) = Some g" and c: "clean bad known s"
    and run: "tools_turn rt sub ses calls rv s = ((te, rv'), t)" "\<not> failed te"
  shows "clean bad known t"
proof -
  obtain trs s1 where a: "execute_tools rt sub ses calls s = (trs, s1)" by fastforce
  obtain e rv1 s2 where b: "keep_results ses trs rv s1 = ((e, rv1), s2)" by (metis prod.exhaust)
  have q: "quiet s s1" using quiet_execute_tools [of s rt sub ses calls] a by simp
  have "ag_out_guard (rs_agent s1) = Some g"
    using same_agent_sel(2) [OF grows_same_agent [OF grows_quiet [OF q]]] g(2) by simp
  moreover have e: "e = None" using run a b by (auto simp: tools_turn_def split: option.splits)
  ultimately have "clean bad known s2" using keep_results_clean [OF g(1) b] clean_quiet [OF c q] by blast
  moreover have "t = leave_guard_out s2" using run a b e by (auto simp: tools_turn_def Let_def split: if_splits)
  ultimately show ?thesis using clean_quiet quiet_leave_guard_out by blast
qed

lemma check_output_passes:
  assumes "check_output ses m working s = (None, t)" "ag_out_guard (rs_agent s) = Some g" "screens g bad"
  shows "\<not> bad m"
proof -
  obtain gr s1 where o: "on_world (g ses m working) (observe stage_guard_out Enter [] None s) = (gr, s1)"
    by fastforce
  have "guard_verdict ''output guard'' gr = None" using assms(1,2) o by (auto simp: check_output_def split: option.splits)
  then have "gr_allowed gr \<and> \<not> gr_tripwire gr" by (auto simp: guard_verdict_def split: if_splits)
  then show ?thesis using on_world_fst [OF o] assms(3) unfolding screens_def by metis
qed

lemma after_response_clean:
  assumes g: "screens g bad" "ag_out_guard (rs_agent s) = Some g"
    and c: "clean bad (stamp_name (ag_name (rs_agent s)) (ch_message ch) # known) s"
    and run: "after_response rt sub ses ch rv s = ((te, rv'), t)" "\<not> failed te"
  shows "clean bad known t"
proof -
  let ?m = "stamp_name (ag_name (rs_agent s)) (ch_message ch)"
  obtain e s1 where a: "check_output ses ?m (rv_working rv) s = (e, s1)" by fastforce
  have e: "e = None" using run a by (auto simp: after_response_def Let_def split: option.splits)
  have q: "quiet s s1" using check_output_goes [OF a] e by (simp add: goes_def quiet_grows)
  have "\<not> bad ?m" by (rule check_output_passes [OF a [unfolded e] g(2,1)])
  then have "clean bad known s" using c by (auto simp: clean_def)
  then have c1: "clean bad known s1" using clean_quiet q by blast
  have g1: "ag_out_guard (rs_agent s1) = Some g"
    using same_agent_sel(2) [OF grows_same_agent [OF grows_quiet [OF q]]] g(2) by simp
  show ?thesis
  proof (cases "msg_tool_calls ?m = []")
    case True
    then have "t = leave_guard_out s1" using run a e by (simp add: after_response_def Let_def)
    then show ?thesis using clean_quiet [OF c1] quiet_leave_guard_out by blast
  next
    case False
    have "tools_turn rt sub ses (msg_tool_calls ?m) rv s1 = ((te, rv'), t)"
      using run a e False by (simp add: after_response_def Let_def)
    from tools_turn_clean [OF g(1) g1 c1 this run(2)] show ?thesis .
  qed
qed

lemma response_clean:
  assumes g: "screens g bad" "ag_out_guard (rs_agent s) = Some g" and c: "clean bad known s"
    and d: "take_response ses ch u rv s = (rv1, s1)"
    and f: "after_response rt sub ses ch rv1 s1 = ((te, rv'), t)" "\<not> failed te"
  shows "clean bad known t"
proof -
  note gr = take_response_grows(1) [OF d] note ag = grows_same_agent [OF gr]
  have "clean bad (stamp_name (ag_name (rs_agent s1)) (ch_message ch) # known) s1"
    using c gr same_agent_sel(4) [OF ag] by (auto simp: clean_def grows_def remembered_def)
  moreover have "ag_out_guard (rs_agent s1) = Some g" using same_agent_sel(2) [OF ag] g(2) by simp
  ultimately show ?thesis using after_response_clean [OF g(1) _ _ f] by blast
qed

lemma run_turn_clean:
  assumes g: "screens g bad" "ag_out_guard (rs_agent s) = Some g" and c: "clean bad known s"
    and run: "run_turn rt sub ses0 pre input maxTurns turn rv s = ((te, rv'), t)" "\<not> failed te"
  shows "clean bad known t"
proof -
  let ?ses = "ses0\<lparr>ses_turn := turn\<rparr>"
  have ctx: "rt_ctx rt (rs_world s) = None" using run by (auto simp: run_turn_def split: option.splits)
  obtain e w s1 where a: "(if turn = 1 then first_turn rt ?ses pre input s else ((None, rv_working rv), s)) = ((e, w), s1)"
    by (metis prod.exhaust)
  have e: "e = None" using run ctx a by (auto simp: run_turn_def Let_def split: option.splits)
  have "goes (e \<noteq> None) [] s s1"
    using a first_turn_goes [of rt ?ses pre input s e w s1] goes_ok [OF grows_quiet [OF quiet_refl]]
    by (auto split: if_splits)
  then have q1: "quiet s s1" using e by (simp add: goes_def quiet_grows)
  obtain r rv1 s2 where b: "ask_model rt ?ses maxTurns turn (rv\<lparr>rv_working := w\<rparr>) s1 = ((r, rv1), s2)"
    by (metis prod.exhaust)
  obtain ch u where r: "r = Inr (ch, u)" using run ctx a b e by (cases r) (auto simp: run_turn_def Let_def)
  have q2: "quiet s s2"
    using quiet_then_goes [OF q1 ask_model_goes(1) [OF b]] r by (simp add: goes_def quiet_grows)
  obtain rv2 s3 where d: "take_response ?ses ch u rv1 s2 = (rv2, s3)" by fastforce
  have "after_response rt sub ?ses ch rv2 s3 = ((te, rv'), t)"
    using run ctx a b d e r by (simp add: run_turn_def Let_def)
  moreover have "ag_out_guard (rs_agent s2) = Some g"
    using same_agent_sel(2) [OF grows_same_agent [OF grows_quiet [OF q2]]] g(2) by simp
  ultimately show ?thesis using response_clean [OF g(1) _ clean_quiet [OF c q2] d _ run(2)] by blast
qed

lemma run_turn_agent:
  assumes "fair_order rt" "run_turn rt sub ses pre input maxTurns turn rv s = ((te, rv'), t)"
  shows "same_agent (rs_agent s) (rs_agent t)"
  using run_turn_goes [OF assms] by (auto simp: goes_def ends_with_sel(2) grows_same_agent split: if_splits)

lemma run_turns_clean:
  assumes fair: "fair_order rt" and g: "screens g bad"
  shows "run_turns rt sub ses pre input maxTurns n turn rv s = ((err, turn', rv'), t) \<Longrightarrow> err = None \<Longrightarrow>
    ag_out_guard (rs_agent s) = Some g \<Longrightarrow> clean bad known s \<Longrightarrow> clean bad known t"
proof (induction n arbitrary: turn rv s)
  case (Suc n)
  obtain te rv1 s1 where a: "run_turn rt sub ses pre input maxTurns turn rv s = ((te, rv1), s1)"
    by (metis prod.exhaust)
  have nf: "\<not> failed te" using Suc.prems(1,2) a by (cases te) auto
  have c: "clean bad known s1" by (rule run_turn_clean [OF g Suc.prems(3,4) a nf])
  have o: "ag_out_guard (rs_agent s1) = Some g"
    using same_agent_sel(2) [OF run_turn_agent [OF fair a]] Suc.prems(3) by simp
  show ?case
  proof (cases te)
    case NextTurn
    then have "run_turns rt sub ses pre input maxTurns n (turn + 1) rv1 s1 = ((err, turn', rv'), t)"
      using Suc.prems(1) a by simp
    then show ?thesis using Suc.IH Suc.prems(2) o c by blast
  qed (use Suc.prems(1) a nf c in auto)
qed simp

text \<open>
  C12: after a successful run of an agent with an output guard, nothing the guard refuses has
  reached the memory, the input apart: a refused tool result is stored as the block notice, and a
  refused model reply fails the run.
\<close>

theorem output_guard_screens_memory:
  assumes "fair_order rt" "ag_out_guard a = Some g" "screens g bad"
    and "snd (fst (run rt sub ses pre input (new_run a mdl st w))) = None"
  shows "filter bad (removeAll input (rs_stored (snd (run rt sub ses pre input (new_run a mdl st w))))) = []"
proof -
  let ?s = "new_run a mdl st w" and ?mt = "run_max_turns a"
  obtain hs s2 where st: "agent_start_hook ses input (append_memory ses input (init_runner ses ?s)) = (hs, s2)"
    by fastforce
  obtain err turn rv s3 where b: "run_turns rt sub ses pre input ?mt (nat ?mt) 1 init_vars s2 = ((err, turn, rv), s3)"
    by (metis prod.exhaust)
  have g2: "grows (remembered a input) (init_runner ses ?s) s2"
    using grows_then_quiet [OF append_memory_grows quiet_agent_start [OF st]] by (simp add: init_runner_quiet)
  have e: "err = None" using assms(4) st b by (simp add: run_def Let_def split: prod.splits)
  have o: "ag_out_guard (rs_agent s2) = Some g"
    using same_agent_sel(2) [OF grows_same_agent [OF g2]] assms(2) by (simp add: init_runner_quiet)
  have "clean bad [input] s2" using g2 by (auto simp: clean_def grows_def init_runner_quiet remembered_def)
  then have "clean bad [input] s3" by (rule run_turns_clean [OF assms(1,3) b e o])
  moreover have "rs_stored (snd (run rt sub ses pre input ?s)) = rs_stored s3"
    using st b e by (simp add: run_def Let_def close_run_def split: prod.splits)
  ultimately show ?thesis by (auto simp: clean_def filter_empty_conv)
qed

definition missing_f :: "message \<Rightarrow> bool" where
  "missing_f m = (msg_content m = ''tool '' @ go_quote ''f'' @ '' not found'')"

definition missing_guard :: "nat guard" where
  "missing_guard ses m h w = (\<lparr>gr_allowed = \<not> missing_f m, gr_reason = ''internal'', gr_tripwire = False\<rparr>, w)"

definition screened_agent :: "nat agent" where
  "screened_agent = keeping_agent\<lparr>ag_out_guard := Some missing_guard\<rparr>"

lemma screened_agent_no_error: "snd (fst (demo_run (new_run screened_agent asking_model False 0))) = None"
proof -
  have "case snd (fst (demo_run (new_run screened_agent asking_model False 0))) of None \<Rightarrow> True | Some e \<Rightarrow> False"
    by code_simp
  then show ?thesis by (simp split: option.splits)
qed

lemma output_guard_screens_memory_witness:
  "filter missing_f (removeAll (user_message ''hi'')
     (rs_stored (snd (demo_run (new_run screened_agent asking_model False 0))))) = []"
  unfolding demo_run_def
  by (rule output_guard_screens_memory [of _ _ missing_guard, OF _ _ _ screened_agent_no_error [unfolded demo_run_def]])
    (simp_all add: screened_agent_def screens_def missing_guard_def missing_f_def blocked_text_def)

text \<open>
  The guard sees a model reply after the memory has stored it: a refused reply fails the run, and
  stays in the history of the next one.
\<close>

definition deny_output :: "nat guard" where
  "deny_output ses m h w = (\<lparr>gr_allowed = False, gr_reason = ''no'', gr_tripwire = False\<rparr>, w)"

lemma refused_reply_is_stored:
  "map msg_content (rs_stored (snd (demo_run (new_run (keeping_agent\<lparr>ag_out_guard := Some deny_output\<rparr>) asking_model False 0))))
     = [''hi'', ''hm'']"
  by code_simp

end
