(* ===== verification/Agents.thy ===== *)
theory Agents
  imports RunFacts
begin

text \<open>
  \<^verbatim>\<open>agent.go\<close> and \<^verbatim>\<open>options.go\<close>: building an agent, its entry points (\<^verbatim>\<open>Run\<close>, \<^verbatim>\<open>RunStream\<close>, their
  variants with a prefix, the goal mode), the preparation for a team, and the agent as a tool.
\<close>

section \<open>Building an agent\<close>

text \<open>
  The options. \<^verbatim>\<open>MaxCompressedTokens\<close> is left out of the agent: nothing reads it.
\<close>

datatype 'w agent_option =
    WithModel "'w chat_model option"
  | WithDescription string
  | WithInstructions string
  | WithTools "'w tool list"
  | WithMemory "'w memory_if option"
  | WithPrompt "(prompt_input \<Rightarrow> 'w \<Rightarrow> (go_err + message list) \<times> 'w) option"
  | WithInputGuard "'w guard option"
  | WithOutputGuard "'w guard option"
  | WithApprover "'w approver option"
  | WithRunHooks "'w run_hooks option"
  | WithRunObserver bool
  | WithSkillLoader "'w skill_loader option"
  | WithMaxTurns int
  | WithMaxWorkingTokens int
  | WithMaxCompressedTokens int

fun apply_agent_option :: "'w agent_option \<Rightarrow> 'w agent \<Rightarrow> 'w agent" where
  "apply_agent_option (WithModel m) a = a\<lparr>ag_model := m\<rparr>"
| "apply_agent_option (WithDescription d) a = a\<lparr>ag_description := d\<rparr>"
| "apply_agent_option (WithInstructions i) a = a\<lparr>ag_instructions := i\<rparr>"
| "apply_agent_option (WithTools ts) a = a\<lparr>ag_tools := ag_tools a @ ts\<rparr>"
| "apply_agent_option (WithMemory m) a = a\<lparr>ag_memory := m\<rparr>"
| "apply_agent_option (WithPrompt p) a = a\<lparr>ag_prompt := p\<rparr>"
| "apply_agent_option (WithInputGuard g) a = a\<lparr>ag_in_guard := g\<rparr>"
| "apply_agent_option (WithOutputGuard g) a = a\<lparr>ag_out_guard := g\<rparr>"
| "apply_agent_option (WithApprover ap) a = a\<lparr>ag_approver := ap\<rparr>"
| "apply_agent_option (WithRunHooks h) a = a\<lparr>ag_hooks := h\<rparr>"
| "apply_agent_option (WithRunObserver b) a = a\<lparr>ag_observed := b\<rparr>"
| "apply_agent_option (WithSkillLoader sl) a = a\<lparr>ag_skill_loader := sl\<rparr>"
| "apply_agent_option (WithMaxTurns n) a = a\<lparr>ag_max_turns := n\<rparr>"
| "apply_agent_option (WithMaxWorkingTokens n) a = a\<lparr>ag_max_working_tokens := n\<rparr>"
| "apply_agent_option (WithMaxCompressedTokens n) a = a"

definition new_agent :: "string \<Rightarrow> 'w agent_option list \<Rightarrow> 'w agent" where
  "new_agent name opts = fold apply_agent_option opts (base_agent name)"

text \<open>
  \<^verbatim>\<open>Clone\<close> copies the struct and gives the tools a backing array of their own, so as a value the
  clone is the agent; what is written to it never shows in the original.
\<close>

definition clone :: "'w agent \<Rightarrow> 'w agent" where
  "clone a = a\<lparr>ag_tools := ag_tools a\<rparr>"

lemma clone_same [simp]: "clone a = a"
  by (simp add: clone_def)

section \<open>Entry points\<close>

definition no_model_error :: "'w agent \<Rightarrow> go_err" where
  "no_model_error a = ErrText (''agent '' @ go_quote (ag_name a) @ '' has no Model'')"

text \<open>
  \<^verbatim>\<open>RunWithPrefix\<close> (not streaming) and \<^verbatim>\<open>RunStreamWithPrefix\<close> (streaming): the events of the
  stream, what \<^verbatim>\<open>run\<close> returned, and the world. \<open>sub\<close> runs the sub-agents of the built-in tool.
\<close>

definition run_agent ::
  "'w runtime \<Rightarrow> 'w sub_runner \<Rightarrow> 'w agent \<Rightarrow> 'w session \<Rightarrow> message list \<Rightarrow> message \<Rightarrow> bool \<Rightarrow> 'w
     \<Rightarrow> (stream_event list \<times> (go_err + run_result)) \<times> 'w" where
  "run_agent rt sub a ses pre input streaming w =
     (case ag_model a of
        None \<Rightarrow> ((if streaming then [StreamError (no_model_error a)] else [], Inl (no_model_error a)), w)
      | Some mdl \<Rightarrow>
          (case run rt sub ses pre input (new_run a mdl streaming w) of
             ((res, err), s) \<Rightarrow>
               ((rs_events s, case err of Some e \<Rightarrow> Inl e | None \<Rightarrow> Inr res), rs_world s)))"

text \<open>\<^verbatim>\<open>Run\<close> and \<^verbatim>\<open>RunStream\<close>.\<close>

definition run_plain ::
  "'w runtime \<Rightarrow> 'w sub_runner \<Rightarrow> 'w sub_runner" where
  "run_plain rt sub a ses input streaming w = run_agent rt sub a ses [] input streaming w"

text \<open>
  The knot: sub-agents run sub-agents. \<open>d\<close> bounds the nesting; the code has no bound, and at the
  bound the model gives an error of its own. The theorems about runs hold for every \<open>sub\<close>.
\<close>

primrec nested_run :: "nat \<Rightarrow> 'w runtime \<Rightarrow> 'w sub_runner" where
  "nested_run 0 rt = (\<lambda>a ses input streaming w.
     (([StreamError (ErrText ''nesting bound'')], Inl (ErrText ''nesting bound'')), w))"
| "nested_run (Suc d) rt = run_plain rt (nested_run d rt)"

section \<open>Goal mode\<close>

definition build_goal_instructions :: "string \<Rightarrow> string \<Rightarrow> int \<Rightarrow> string" where
  "build_goal_instructions original goal maxTurns =
     ''## Goal'' @ nl @ nl @ goal @ nl @ nl @ ''---'' @ nl @ nl @
     ''You are in autonomous goal mode. You must work toward this goal without further user input.'' @ nl @ nl @
     ''**Rules:**'' @ nl @
     ''- Plan your approach, then execute step by step'' @ nl @
     ''- After each action, evaluate progress: what'' @ [CHR 0x27] @ ''s done, what remains'' @ nl @
     ''- If a step fails, diagnose and fix it yourself '' @ em_dash @ '' do not give up'' @ nl @
     (if 0 < maxTurns then ''- You have up to '' @ int_str maxTurns @ '' iterations to complete this goal'' @ nl else '''') @
     ''- When the goal is fully achieved, respond with a summary of what was done'' @ nl @
     ''- If you determine the goal is impossible, explain why and stop'' @ nl @
     nl @ ''---'' @ nl @ nl @ ''## Instructions'' @ nl @ nl @ original"

definition with_goal_instructions :: "'w agent \<Rightarrow> string \<Rightarrow> 'w agent" where
  "with_goal_instructions a goal =
     (clone a)\<lparr>ag_instructions := build_goal_instructions (ag_instructions a) goal (ag_max_turns a)\<rparr>"

text \<open>\<^verbatim>\<open>RunGoal\<close> and \<^verbatim>\<open>RunGoalStream\<close>.\<close>

definition run_goal ::
  "'w runtime \<Rightarrow> 'w sub_runner \<Rightarrow> 'w agent \<Rightarrow> 'w session \<Rightarrow> string \<Rightarrow> bool \<Rightarrow> 'w
     \<Rightarrow> (stream_event list \<times> (go_err + run_result)) \<times> 'w" where
  "run_goal rt sub a ses goal streaming w =
     (if ag_model a = None then run_agent rt sub a ses [] (user_message goal) streaming w
      else run_agent rt sub (with_goal_instructions a goal) ses [] (user_message goal) streaming w)"

section \<open>The agent as a tool\<close>

definition wrench :: string where
  "wrench = [CHR 0xF0, CHR 0x9F, CHR 0x94, CHR 0xA7]"

text \<open>\<^verbatim>\<open>truncateStr\<close> of this package cuts bytes.\<close>

definition trunc_bytes :: "string \<Rightarrow> nat \<Rightarrow> string" where
  "trunc_bytes s n = (if length s \<le> n then s else take n s @ ''...'')"

definition text_chunk :: "string \<Rightarrow> tool_chunk" where
  "text_chunk t = \<lparr>tk_content = t, tk_error = None\<rparr>"

definition error_chunk :: "go_err \<Rightarrow> tool_chunk" where
  "error_chunk e = \<lparr>tk_content = '''', tk_error = Some e\<rparr>"

fun sub_tool_chunks :: "stream_event list \<Rightarrow> tool_chunk list" where
  "sub_tool_chunks [] = []"
| "sub_tool_chunks (e # es) =
     (case e of
        StreamThought t \<Rightarrow> text_chunk t # sub_tool_chunks es
      | StreamTextDelta t \<Rightarrow> text_chunk t # sub_tool_chunks es
      | StreamToolCall m \<Rightarrow>
          (case msg_tool_calls m of
             [] \<Rightarrow> sub_tool_chunks es
           | c # cs \<Rightarrow> text_chunk (nl @ wrench @ '' '' @ tc_name c @ ''('' @ trunc_bytes (tc_args c) 200 @ '')'' @ nl)
                        # sub_tool_chunks es)
      | StreamToolResult m \<Rightarrow>
          text_chunk (arrow_sign @ '' '' @ trunc_bytes (msg_content m) 500 @ nl) # sub_tool_chunks es
      | StreamError err \<Rightarrow> [error_chunk err]
      | StreamAborted err \<Rightarrow> [error_chunk err]
      | _ \<Rightarrow> sub_tool_chunks es)"

definition sub_tool_stream ::
  "'w runtime \<Rightarrow> 'w sub_runner \<Rightarrow> (string \<Rightarrow> go_err + string) \<Rightarrow> 'w agent \<Rightarrow> string \<Rightarrow> 'w
     \<Rightarrow> tool_chunk list go_ret \<times> 'w" where
  "sub_tool_stream rt sub dec a args w =
     (case dec args of
        Inl e \<Rightarrow> (Returns [error_chunk (ErrWrap (''agent tool '' @ go_quote (ag_name a) @ '': '') e '''')], w)
      | Inr task \<Rightarrow>
          if task = '''' then
            (Returns [error_chunk (ErrText (''agent tool '' @ go_quote (ag_name a) @ '': task is required''))], w)
          else case rt_fresh rt (ag_name a) w of (sid, w1) \<Rightarrow>
            case run_agent rt sub a (new_session sid) [] (user_message task) True w1 of ((evs, r), w2) \<Rightarrow>
              (Returns (sub_tool_chunks evs), w2))"

text \<open>\<^verbatim>\<open>Execute\<close> drains the stream: the text up to the first error.\<close>

fun drain_chunks :: "tool_chunk list \<Rightarrow> string \<Rightarrow> string \<times> go_err option" where
  "drain_chunks [] buf = (buf, None)"
| "drain_chunks (k # ks) buf =
     (case tk_error k of Some e \<Rightarrow> (buf, Some e) | None \<Rightarrow> drain_chunks ks (buf @ tk_content k))"

definition sub_tool_execute ::
  "'w runtime \<Rightarrow> 'w sub_runner \<Rightarrow> (string \<Rightarrow> go_err + string) \<Rightarrow> 'w agent \<Rightarrow> string \<Rightarrow> 'w
     \<Rightarrow> (string \<times> go_err option) go_ret \<times> 'w" where
  "sub_tool_execute rt sub dec a args w =
     (case sub_tool_stream rt sub dec a args w of
        (Panics p, w1) \<Rightarrow> (Panics p, w1)
      | (Returns ks, w1) \<Rightarrow> (Returns (drain_chunks ks ''''), w1))"

definition sub_tool_def :: "'w agent \<Rightarrow> function_def" where
  \<open>sub_tool_def a =
     (let desc = (if ag_description a = '''' then ''Handle a task delegated by the coordinator.'' else ag_description a)
      in \<lparr>fd_name = ag_name a,
          fd_description = ''Delegate a task to the '' @ ag_name a @ '' agent. '' @ desc @
            '' It runs in an isolated context with no access to the current conversation history.'',
          fd_parameters = ''{'' @ nl @ replicate 3 tab @ ''"type": "object",'' @ nl @
            replicate 3 tab @ ''"properties": {'' @ nl @
            replicate 4 tab @ ''"task": {'' @ nl @
            replicate 5 tab @ ''"type": "string",'' @ nl @
            replicate 5 tab @ ''"description": "The task to complete."'' @ nl @
            replicate 4 tab @ ''}'' @ nl @
            replicate 3 tab @ ''},'' @ nl @
            replicate 3 tab @ ''"required": ["task"]'' @ nl @
            replicate 2 tab @ ''}'',
          fd_end_turn = False\<rparr>)\<close>

definition sub_agent_tool ::
  "'w runtime \<Rightarrow> 'w sub_runner \<Rightarrow> (string \<Rightarrow> go_err + string) \<Rightarrow> 'w agent \<Rightarrow> 'w tool" where
  "sub_agent_tool rt sub dec a =
     \<lparr>t_def = sub_tool_def a, t_execute = (\<lambda>ses. sub_tool_execute rt sub dec a),
      t_stream = Some (\<lambda>ses. sub_tool_stream rt sub dec a), t_self_approve = None, t_is_agent = True\<rparr>"

text \<open>The agent that \<^verbatim>\<open>AsTool\<close> wraps.\<close>

definition delegate_of :: "'w agent \<Rightarrow> 'w agent" where
  "delegate_of a =
     (clone a)\<lparr>ag_max_turns := 3, ag_approver := None, ag_memory := None, ag_no_spawn := True,
        ag_tools := fst (strip_agent_tools (ag_tools (clone a)))\<rparr>"

definition as_tool ::
  "'w runtime \<Rightarrow> 'w sub_runner \<Rightarrow> (string \<Rightarrow> go_err + string) \<Rightarrow> 'w agent \<Rightarrow> 'w tool" where
  "as_tool rt sub dec a = sub_agent_tool rt sub dec (delegate_of a)"

section \<open>What the callers can rely on\<close>

lemma run_agent_stream:
  assumes "fair_order rt" "run_agent rt sub a ses pre input True w = ((evs, r), w')"
  shows "\<exists>es x. evs = es @ [x] \<and> filter is_terminal es = [] \<and>
    (case r of Inr res \<Rightarrow> x = StreamDone (Some res) | Inl e \<Rightarrow> is_failure x)"
proof (cases "ag_model a")
  case None
  then show ?thesis using assms(2) by (auto simp: run_agent_def)
next
  case (Some mdl)
  obtain res err t where r: "run rt sub ses pre input (new_run a mdl True w) = ((res, err), t)"
    by (metis prod.exhaust)
  have o: "one_terminal (rs_events t) res err"
    using run_one_terminal [OF assms(1), of sub ses pre input a mdl w] r by simp
  have e: "evs = rs_events t" "r = (case err of Some e \<Rightarrow> Inl e | None \<Rightarrow> Inr res)"
    using assms(2) Some r by (auto simp: run_agent_def)
  have "evs = butlast evs @ [last evs]" using o e by (simp add: one_terminal_def)
  moreover have "case r of Inr res \<Rightarrow> last evs = StreamDone (Some res) | Inl e \<Rightarrow> is_failure (last evs)"
    using o e by (auto simp: one_terminal_def split: option.splits)
  moreover have "filter is_terminal (butlast evs) = []" using o e by (simp add: one_terminal_def)
  ultimately show ?thesis by blast
qed

lemma drain_append_ok:
  "drain_chunks ks buf = (out, None) \<Longrightarrow> drain_chunks (ks @ ks') buf = drain_chunks ks' out"
  by (induction ks arbitrary: buf) (auto split: option.splits)

lemma sub_chunks_append:
  "filter is_terminal es = [] \<Longrightarrow> sub_tool_chunks (es @ fs) = sub_tool_chunks es @ sub_tool_chunks fs"
  by (induction es) (auto split: stream_event.splits list.splits if_splits)

lemma sub_chunks_plain: "filter is_terminal es = [] \<Longrightarrow> snd (drain_chunks (sub_tool_chunks es) buf) = None"
  by (induction es arbitrary: buf)
    (auto simp: text_chunk_def split: stream_event.splits list.splits if_splits)

lemma failure_chunks: "is_failure x \<Longrightarrow> \<exists>e. sub_tool_chunks [x] = [error_chunk e]"
  by (auto simp: is_failure_def split: stream_event.splits)

text \<open>
  An agent used as a tool reports a failure exactly when the delegated run failed; its output
  is then what was forwarded before the failure. A delegated run never fails silently.
\<close>

theorem sub_tool_reports_failure:
  assumes "fair_order rt" "dec args = Inr task" "task \<noteq> ''''"
    and "rt_fresh rt (ag_name a) w = (sid, w1)"
    and "run_agent rt sub a (new_session sid) [] (user_message task) True w1 = ((evs, r), w2)"
  shows "\<exists>out err. sub_tool_execute rt sub dec a args w = (Returns (out, err), w2) \<and>
    (err = None) = (\<not> isl r)"
proof -
  obtain es x where x: "evs = es @ [x]" "filter is_terminal es = []"
    "case r of Inr res \<Rightarrow> x = StreamDone (Some res) | Inl e \<Rightarrow> is_failure x"
    using run_agent_stream [OF assms(1,5)] by blast
  obtain buf where b: "drain_chunks (sub_tool_chunks es) '''' = (buf, None)"
    using sub_chunks_plain [OF x(2)] by (metis prod.collapse)
  have d: "drain_chunks (sub_tool_chunks evs) '''' = drain_chunks (sub_tool_chunks [x]) buf"
    unfolding x(1) sub_chunks_append [OF x(2)] by (rule drain_append_ok [OF b])
  have ex: "sub_tool_execute rt sub dec a args w = (Returns (drain_chunks (sub_tool_chunks evs) ''''), w2)"
    using assms by (simp add: sub_tool_execute_def sub_tool_stream_def)
  show ?thesis
  proof (cases r)
    case (Inl e)
    then obtain er where "sub_tool_chunks [x] = [error_chunk er]" using x(3) failure_chunks by auto
    then show ?thesis using ex d Inl by (simp add: error_chunk_def)
  next
    case (Inr res)
    then show ?thesis using ex d x(3) by simp
  qed
qed

definition helper_agent :: "nat agent" where
  "helper_agent = delegate_of (new_agent ''h'' [WithModel (Some asking_model), WithMaxTurns 9])"

lemma sub_tool_reports_failure_witness:
  "\<exists>out err. sub_tool_execute nat_runtime no_sub_runner Inr helper_agent ''do it'' 0 =
      (Returns (out, err), snd (run_agent nat_runtime no_sub_runner helper_agent (new_session ''h'') []
         (user_message ''do it'') True 0)) \<and>
    (err = None) = (\<not> isl (snd (fst (run_agent nat_runtime no_sub_runner helper_agent (new_session ''h'') []
         (user_message ''do it'') True 0))))"
proof -
  obtain evs r w2 where "run_agent nat_runtime no_sub_runner helper_agent (new_session ''h'') []
      (user_message ''do it'') True 0 = ((evs, r), w2)" by (metis prod.exhaust)
  moreover have "rt_fresh nat_runtime (ag_name helper_agent) 0 = (''h'', 0)"
    by (simp add: nat_runtime_def helper_agent_def delegate_of_def new_agent_def base_agent_def)
  ultimately show ?thesis
    using sub_tool_reports_failure [of nat_runtime Inr "''do it''" "''do it''" helper_agent 0] by simp
qed

text \<open>
  The delegate has no approver, no memory and no agent tools, and at most three turns; the agent
  it was made from keeps its own tools (the clone has a backing array of its own).
\<close>

lemma delegate_is_confined:
  "ag_approver (delegate_of a) = None" "ag_memory (delegate_of a) = None"
  "filter t_is_agent (ag_tools (delegate_of a)) = []" "run_max_turns (delegate_of a) = 3"
  by (simp_all add: delegate_of_def strip_agent_tools_def run_max_turns_def Let_def)

end
