(* ===== verification/Team.thy ===== *)
theory Team
  imports Router Agents
begin

text \<open>
  \<^verbatim>\<open>team.go\<close>: the members of a team and their changes, the context a member gets before its
  run, and the handoff loop of \<^verbatim>\<open>teamRunner.run\<close>.

  The handoff queue of a run is part of the world the members' tools act on
  (\<open>tw_pending\<close>): a handoff tool appends to it, the loop takes it. Membership may change while a
  member runs: \<open>te_churn\<close> gives the members and their order as others have left them.
\<close>

section \<open>Members\<close>

record handoff_request =
  hr_target :: string
  hr_message :: string

record 'w team_world =
  tw_pending :: "handoff_request list"
  tw_outer :: 'w

record 'v team_context =
  tmc_my_name :: string
  tmc_members :: "agent_info list"
  tmc_history :: "handoff_entry list"
  tmc_force_final :: bool
  tmc_prompt :: string
  tmc_tools :: "'v tool list"

text \<open>
  An external runner (\<^verbatim>\<open>AgentRunner\<close> other than \<^verbatim>\<open>*Agent\<close>), with the optional interfaces
  \<^verbatim>\<open>TeamPreparable\<close> (it keeps the context for itself), \<^verbatim>\<open>Closer\<close> and \<^verbatim>\<open>MembershipNotifiable\<close>.
\<close>

record 'v external =
  ex_run :: "'v session \<Rightarrow> message list \<Rightarrow> message \<Rightarrow> 'v \<Rightarrow> (go_err + run_result) \<times> 'v"
  ex_stream :: "'v session \<Rightarrow> message list \<Rightarrow> message \<Rightarrow> 'v \<Rightarrow> stream_event list \<times> 'v"
  ex_prepare :: "('v team_context \<Rightarrow> 'v \<Rightarrow> 'v) option"
  ex_close :: "('v \<Rightarrow> 'v) option"
  ex_notify :: "(string \<Rightarrow> agent_info list \<Rightarrow> 'v \<Rightarrow> 'v) option"

datatype 'v member = InProcess "'v agent" | ExternalRunner "'v external"

record 'v agent_entry =
  ae_member :: "'v member"
  ae_internal :: bool
  ae_description :: string

record 'v team =
  tm_agents :: "'v agent_entry gomap"
  tm_order :: "string list"
  tm_router :: "'v router option"
  tm_max_handoffs :: int
  tm_observed :: bool

definition is_in_process :: "'v member \<Rightarrow> bool" where
  "is_in_process m = (case m of InProcess a \<Rightarrow> True | ExternalRunner e \<Rightarrow> False)"

text \<open>
  The infos of the members in order. A name in the order without an entry is a nil dereference,
  the value \<open>None\<close>.
\<close>

definition info_of :: "'v team \<Rightarrow> string \<Rightarrow> agent_info option" where
  "info_of t n =
     map_option (\<lambda>e. \<lparr>ai_name = n, ai_description = ae_description e, ai_internal = ae_internal e\<rparr>)
       (map_of (tm_agents t) n)"

fun all_some :: "'a option list \<Rightarrow> 'a list option" where
  "all_some [] = Some []"
| "all_some (None # xs) = None"
| "all_some (Some x # xs) = map_option ((#) x) (all_some xs)"

definition agent_infos :: "'v team \<Rightarrow> agent_info list option" where
  "agent_infos t = all_some (map (info_of t) (tm_order t))"

definition other_infos :: "'v team \<Rightarrow> string \<Rightarrow> agent_info list option" where
  "other_infos t me = all_some (map (info_of t) (filter (\<lambda>n. n \<noteq> me) (tm_order t)))"

text \<open>\<^verbatim>\<open>collectObserverNotifications\<close>: the callback, the name and the other members.\<close>

definition notifiable :: "'v member \<Rightarrow> (string \<Rightarrow> agent_info list \<Rightarrow> 'v \<Rightarrow> 'v) option" where
  "notifiable m = (case m of InProcess a \<Rightarrow> None | ExternalRunner e \<Rightarrow> ex_notify e)"

fun collect_notifications ::
  "'v team \<Rightarrow> 'v agent_entry gomap \<Rightarrow> ((string \<Rightarrow> agent_info list \<Rightarrow> 'v \<Rightarrow> 'v) \<times> string \<times> agent_info list) list option" where
  "collect_notifications t [] = Some []"
| "collect_notifications t ((n, e) # rest) =
     (case notifiable (ae_member e) of
        None \<Rightarrow> collect_notifications t rest
      | Some f \<Rightarrow>
          (case (other_infos t n, collect_notifications t rest) of
             (Some ms, Some ns) \<Rightarrow> Some ((f, n, ms) # ns)
           | _ \<Rightarrow> None))"

definition notify_members :: "'v team \<Rightarrow> 'v \<Rightarrow> 'v go_ret" where
  "notify_members t w =
     (case collect_notifications t (tm_agents t) of
        None \<Rightarrow> Panics nil_deref
      | Some ns \<Rightarrow> Returns (fold (\<lambda>(f, n, ms). f n ms) ns w))"

section \<open>Building a team\<close>

datatype 'v team_option =
    WithTeamAgent string string "'v agent"
  | WithTeamRouter "'v router option"
  | WithTeamMaxHandoffs int
  | WithTeamObserver bool

fun apply_team_option :: "'v team_option \<Rightarrow> 'v team \<Rightarrow> 'v team" where
  "apply_team_option (WithTeamAgent name desc a) t =
     t\<lparr>tm_agents := AList.update name \<lparr>ae_member = InProcess a, ae_internal = True, ae_description = desc\<rparr> (tm_agents t),
       tm_order := tm_order t @ [name]\<rparr>"
| "apply_team_option (WithTeamRouter r) t = t\<lparr>tm_router := r\<rparr>"
| "apply_team_option (WithTeamMaxHandoffs n) t = t\<lparr>tm_max_handoffs := n\<rparr>"
| "apply_team_option (WithTeamObserver b) t = t\<lparr>tm_observed := b\<rparr>"

definition empty_team :: "'v team" where
  "empty_team = \<lparr>tm_agents = [], tm_order = [], tm_router = None, tm_max_handoffs = 10, tm_observed = False\<rparr>"

definition new_team :: "'v team_option list \<Rightarrow> 'v \<Rightarrow> ('v team \<times> 'v) go_ret" where
  "new_team opts w =
     (let t = fold apply_team_option opts empty_team;
          t' = (if tm_router t = None then t\<lparr>tm_router := Some first_agent_router\<rparr> else t)
      in case notify_members t' w of Panics p \<Rightarrow> Panics p | Returns w' \<Rightarrow> Returns (t', w'))"

text \<open>\<^verbatim>\<open>AddAgent\<close> and \<^verbatim>\<open>RemoveAgent\<close>: the error, the team and the world.\<close>

definition add_agent ::
  "string \<Rightarrow> string \<Rightarrow> 'v member \<Rightarrow> 'v team \<Rightarrow> 'v \<Rightarrow> (go_err option \<times> 'v team \<times> 'v) go_ret" where
  "add_agent name desc m t w =
     (if gm_has (tm_agents t) name
      then Returns (Some (ErrText (''team: agent '' @ go_quote name @ '' already exists'')), t, w)
      else
        let t' = t\<lparr>tm_agents := AList.update name \<lparr>ae_member = m, ae_internal = is_in_process m, ae_description = desc\<rparr> (tm_agents t),
                   tm_order := tm_order t @ [name]\<rparr>
        in case notify_members t' w of Panics p \<Rightarrow> Panics p | Returns w' \<Rightarrow> Returns (None, t', w'))"

definition close_member :: "'v member \<Rightarrow> 'v \<Rightarrow> 'v" where
  "close_member m w =
     (case m of
        InProcess a \<Rightarrow> w
      | ExternalRunner e \<Rightarrow> (case ex_close e of None \<Rightarrow> w | Some f \<Rightarrow> f w))"

definition remove_agent :: "string \<Rightarrow> 'v team \<Rightarrow> 'v \<Rightarrow> ('v team \<times> 'v) go_ret" where
  "remove_agent name t w =
     (case map_of (tm_agents t) name of
        None \<Rightarrow> Returns (t, w)
      | Some e \<Rightarrow>
          let t' = t\<lparr>tm_agents := AList.delete name (tm_agents t), tm_order := remove1 name (tm_order t)\<rparr>
          in case notify_members t' w of
               Panics p \<Rightarrow> Panics p
             | Returns w' \<Rightarrow> Returns (t', close_member (ae_member e) w'))"

section \<open>The membership invariant\<close>

definition team_ok :: "'v team \<Rightarrow> bool" where
  "team_ok t = (gm_ok (tm_agents t) \<and> distinct (tm_order t) \<and> set (tm_order t) = set (gm_keys (tm_agents t)))"

lemma all_some_map: "(\<forall>x\<in>set xs. f x \<noteq> None) \<Longrightarrow> all_some (map f xs) = Some (map (the \<circ> f) xs)"
  by (induction xs) auto

lemma info_of_member: "team_ok t \<Longrightarrow> n \<in> set (tm_order t) \<Longrightarrow> info_of t n \<noteq> None"
  by (auto simp: team_ok_def info_of_def gm_keys_def map_of_eq_None_iff)

lemma agent_infos_ok: "team_ok t \<Longrightarrow> agent_infos t = Some (map (the \<circ> info_of t) (tm_order t))"
  unfolding agent_infos_def by (rule all_some_map) (auto dest: info_of_member)

lemma other_infos_ok:
  "team_ok t \<Longrightarrow> other_infos t me = Some (map (the \<circ> info_of t) (filter (\<lambda>n. n \<noteq> me) (tm_order t)))"
  unfolding other_infos_def by (rule all_some_map) (auto dest: info_of_member)

lemma info_of_name: "info_of t n = Some i \<Longrightarrow> ai_name i = n"
  by (auto simp: info_of_def)

lemma infos_names:
  "(\<And>n. n \<in> set ns \<Longrightarrow> info_of t n \<noteq> None) \<Longrightarrow> map ai_name (map (the \<circ> info_of t) ns) = ns"
proof (induction ns)
  case (Cons n ns)
  obtain i where "info_of t n = Some i" using Cons.prems by fastforce
  then show ?case using Cons info_of_name by simp
qed simp

lemma collect_ok: "team_ok t \<Longrightarrow> collect_notifications t es \<noteq> None"
  by (induction es) (auto simp: other_infos_ok split: option.splits)

lemma notify_ok: "team_ok t \<Longrightarrow> \<exists>w'. notify_members t w = Returns w'"
  using collect_ok [of t "tm_agents t"] by (auto simp: notify_members_def)

lemma team_ok_insert:
  "team_ok t \<Longrightarrow> name \<notin> set (tm_order t) \<Longrightarrow>
   team_ok (t\<lparr>tm_agents := AList.update name e (tm_agents t), tm_order := tm_order t @ [name]\<rparr>)"
  by (auto simp: team_ok_def gomap_simps gm_keys_def dom_update)

lemma team_ok_delete:
  "team_ok t \<Longrightarrow> team_ok (t\<lparr>tm_agents := AList.delete name (tm_agents t), tm_order := remove1 name (tm_order t)\<rparr>)"
  by (auto simp: team_ok_def gomap_simps gm_keys_def set_remove1_eq delete_keys)

lemma team_ok_has: "team_ok t \<Longrightarrow> gm_has (tm_agents t) n \<longleftrightarrow> n \<in> set (tm_order t)"
  by (auto simp: team_ok_def gm_has_def gm_keys_def map_of_eq_None_iff)

text \<open>
  On a team whose order lists each of its members exactly once, \<^verbatim>\<open>AddAgent\<close> and \<^verbatim>\<open>RemoveAgent\<close>
  never panic and keep it so: adding appends a new name and refuses an existing one without any
  change, removing takes the name out; the infos that routing and prompts use exist for every
  member, in the order.
\<close>

theorem team_membership_kept:
  assumes "team_ok t"
  shows "\<exists>err t1 w1 t2 w2 infos.
    add_agent name desc m t w = Returns (err, t1, w1) \<and> team_ok t1 \<and>
    (if name \<in> set (tm_order t) then err \<noteq> None \<and> t1 = t \<and> w1 = w
     else err = None \<and> tm_order t1 = tm_order t @ [name]) \<and>
    remove_agent name t w = Returns (t2, w2) \<and> team_ok t2 \<and> tm_order t2 = remove1 name (tm_order t) \<and>
    agent_infos t = Some infos \<and> map ai_name infos = tm_order t"
proof -
  have add: "\<exists>err t1 w1. add_agent name desc m t w = Returns (err, t1, w1) \<and> team_ok t1 \<and>
    (if name \<in> set (tm_order t) then err \<noteq> None \<and> t1 = t \<and> w1 = w
     else err = None \<and> tm_order t1 = tm_order t @ [name])"
  proof (cases "name \<in> set (tm_order t)")
    case True
    then show ?thesis using assms team_ok_has [OF assms] by (simp add: add_agent_def)
  next
    case False
    let ?e = "\<lparr>ae_member = m, ae_internal = is_in_process m, ae_description = desc\<rparr>"
    let ?t = "t\<lparr>tm_agents := AList.update name ?e (tm_agents t), tm_order := tm_order t @ [name]\<rparr>"
    have ok: "team_ok ?t" by (rule team_ok_insert [OF assms False])
    obtain w' where "notify_members ?t w = Returns w'" using notify_ok [OF ok] by blast
    then have "add_agent name desc m t w = Returns (None, ?t, w')"
      using False team_ok_has [OF assms] by (simp add: add_agent_def Let_def)
    then show ?thesis using ok False by simp
  qed
  have rem: "\<exists>t2 w2. remove_agent name t w = Returns (t2, w2) \<and> team_ok t2 \<and> tm_order t2 = remove1 name (tm_order t)"
  proof (cases "map_of (tm_agents t) name")
    case None
    then have "name \<notin> set (tm_order t)" using team_ok_has [OF assms, of name] by (simp add: gm_has_def)
    then show ?thesis using None assms by (simp add: remove_agent_def remove1_idem)
  next
    case (Some e)
    let ?t = "t\<lparr>tm_agents := AList.delete name (tm_agents t), tm_order := remove1 name (tm_order t)\<rparr>"
    have ok: "team_ok ?t" by (rule team_ok_delete [OF assms])
    obtain w' where "notify_members ?t w = Returns w'" using notify_ok [OF ok] by blast
    then have "remove_agent name t w = Returns (?t, close_member (ae_member e) w')"
      using Some by (simp add: remove_agent_def Let_def)
    then show ?thesis using ok by simp
  qed
  have "map ai_name (map (the \<circ> info_of t) (tm_order t)) = tm_order t"
    by (rule infos_names) (use info_of_member [OF assms] in blast)
  then have inf: "\<exists>infos. agent_infos t = Some infos \<and> map ai_name infos = tm_order t"
    using agent_infos_ok [OF assms] by blast
  from add rem inf show ?thesis by blast
qed

definition plain_external :: "nat external" where
  "plain_external = \<lparr>ex_run = (\<lambda>ses pre input w. (Inr empty_run_result, w)), ex_stream = (\<lambda>ses pre input w. ([], w)),
     ex_prepare = None, ex_close = Some Suc, ex_notify = Some (\<lambda>n ms w. w + length ms)\<rparr>"

definition small_team :: "nat team" where
  "small_team = \<lparr>tm_agents = [(''a'', \<lparr>ae_member = ExternalRunner plain_external, ae_internal = False, ae_description = ''A''\<rparr>)],
     tm_order = [''a''], tm_router = Some first_agent_router, tm_max_handoffs = 10, tm_observed = False\<rparr>"

lemma small_team_ok: "team_ok small_team"
  by (simp add: team_ok_def small_team_def gm_ok_def gm_keys_def)

lemma team_membership_kept_witness:
  "\<exists>err t1 w1 t2 w2 infos.
    add_agent ''b'' ''B'' (ExternalRunner plain_external) small_team 0 = Returns (err, t1, w1) \<and> team_ok t1 \<and>
    (if ''b'' \<in> set (tm_order small_team) then err \<noteq> None \<and> t1 = small_team \<and> w1 = 0
     else err = None \<and> tm_order t1 = tm_order small_team @ [''b'']) \<and>
    remove_agent ''b'' small_team 0 = Returns (t2, w2) \<and> team_ok t2 \<and>
    tm_order t2 = remove1 ''b'' (tm_order small_team) \<and>
    agent_infos small_team = Some infos \<and> map ai_name infos = tm_order small_team"
  by (rule team_membership_kept [OF small_team_ok])

text \<open>
  \<^verbatim>\<open>WithTeamAgent\<close> does not check the name: given twice, the order lists it twice, and after
  \<^verbatim>\<open>RemoveAgent\<close> the infos dereference a missing entry.
\<close>

lemma duplicate_option_panics:
  "case new_team [WithTeamAgent ''x'' ''d'' (base_agent ''x''), WithTeamAgent ''x'' ''d'' (base_agent ''x'')] () of
     Panics p \<Rightarrow> False
   | Returns (t, w) \<Rightarrow> (case remove_agent ''x'' t w of
        Panics p \<Rightarrow> False | Returns (t', w') \<Rightarrow> agent_infos t' = None)"
  by code_simp

section \<open>The context of a member\<close>

record 'w team_env =
  te_rt :: "'w team_world runtime"
  te_sub :: "'w team_world sub_runner"
  te_dec :: "string \<Rightarrow> go_err + string"
  te_churn :: "'w team_world \<Rightarrow> 'w team_world agent_entry gomap \<times> string list
    \<Rightarrow> 'w team_world agent_entry gomap \<times> string list"
  te_ctx_at :: "nat \<Rightarrow> 'w team_world \<Rightarrow> go_err option"
  te_range :: "(string \<times> nat) list \<Rightarrow> (string \<times> nat) list"

text \<open>
  \<open>te_dec\<close> is \<^verbatim>\<open>json.Unmarshal\<close> of a handoff message, \<open>te_ctx_at i\<close> the context error seen before
  the \<open>i\<close>-th event of a member's stream, and \<open>te_range\<close> the order in which Go ranges over a map.

  The handoff tool, and the callback that records the request.
\<close>

definition record_handoff :: "string \<Rightarrow> string \<Rightarrow> 'w team_world \<Rightarrow> 'w team_world" where
  "record_handoff target msg w = w\<lparr>tw_pending := tw_pending w @ [\<lparr>hr_target = target, hr_message = msg\<rparr>]\<rparr>"

definition handoff_execute ::
  "(string \<Rightarrow> go_err + string) \<Rightarrow> string \<Rightarrow> string \<Rightarrow> 'w team_world
     \<Rightarrow> (string \<times> go_err option) go_ret \<times> 'w team_world" where
  "handoff_execute dec target args w =
     (case dec args of
        Inl e \<Rightarrow> (Returns ('''', Some (ErrWrap (''transfer_to_'' @ target @ '': '') e '''')), w)
      | Inr msg \<Rightarrow> (Returns (''Transferred to '' @ target @ ''.'', None), record_handoff target msg w))"

definition handoff_def :: "string \<Rightarrow> string \<Rightarrow> function_def" where
  \<open>handoff_def target desc =
     \<lparr>fd_name = ''transfer_to_'' @ target,
      fd_description = ''Hand off to the '' @ target @ '' agent. '' @ desc @ ''. Include a clear message about what you need.'',
      fd_parameters = ''{'' @ nl @ replicate 3 tab @ ''"type": "object",'' @ nl @
        replicate 3 tab @ ''"properties": {'' @ nl @
        replicate 4 tab @ ''"message": {'' @ nl @
        replicate 5 tab @ ''"type": "string",'' @ nl @
        replicate 5 tab @ ''"description": "What you need from the other agent. Be specific."'' @ nl @
        replicate 4 tab @ ''}'' @ nl @
        replicate 3 tab @ ''},'' @ nl @
        replicate 3 tab @ ''"required": ["message"]'' @ nl @
        replicate 2 tab @ ''}'',
      fd_end_turn = True\<rparr>\<close>

definition handoff_tool ::
  "(string \<Rightarrow> go_err + string) \<Rightarrow> string \<Rightarrow> string \<Rightarrow> 'w team_world tool" where
  "handoff_tool dec target desc =
     \<lparr>t_def = handoff_def target desc, t_execute = (\<lambda>ses. handoff_execute dec target), t_stream = None,
      t_self_approve = None, t_is_agent = False\<rparr>"

definition type_text :: "bool \<Rightarrow> string" where
  "type_text internal = (if internal then ''internal'' else ''external'')"

definition member_line :: "agent_info \<Rightarrow> string" where
  "member_line i = ''- **'' @ ai_name i @ ''** ['' @ type_text (ai_internal i) @ '']: '' @ ai_description i @ nl"

fun history_lines :: "int \<Rightarrow> handoff_entry list \<Rightarrow> string" where
  "history_lines i [] = ''''"
| "history_lines i (e # es) =
     int_str i @ ''. '' @ he_from e @ '' '' @ arrow_sign @ '' '' @ he_to e @ '': '' @
     trunc_bytes (he_message e) 120 @ nl @ history_lines (i + 1) es"

definition build_team_prompt :: "string \<Rightarrow> bool \<Rightarrow> agent_info list \<Rightarrow> handoff_entry list \<Rightarrow> string" where
  "build_team_prompt myName forceFinal members chain =
     ''## Team Context'' @ nl @
     ''You are '' @ go_quote myName @ '' in a multi-agent team.'' @ nl @ nl @
     ''Other team members you can hand off to:'' @ nl @
     concat (map member_line members) @
     (if forceFinal then
        nl @ warn_sign @ '' NO HANDOFFS: You have been instructed to produce a final answer yourself.'' @ nl
      else
        nl @ ''## Handoff Rules'' @ nl @
        ''- When your work should be continued by another team member, call transfer_to_<name>.'' @ nl @
        ''  You can explain your findings to the user first, then call the transfer tool in the same turn.'' @ nl @
        ''- If your task is self-contained and no teammate needs to continue, respond directly '' @ em_dash @ '' no transfer.'' @ nl) @
     (if 0 < length chain then nl @ ''## Handoff History'' @ nl @ history_lines 1 chain else '''')"

definition build_team_context ::
  "(string \<Rightarrow> go_err + string) \<Rightarrow> bool \<Rightarrow> handoff_entry list \<Rightarrow> 'w team_world team \<Rightarrow> string
     \<Rightarrow> 'w team_world team_context option" where
  "build_team_context dec forceFinal chain t myName =
     (case other_infos t myName of
        None \<Rightarrow> None
      | Some members \<Rightarrow> Some
          \<lparr>tmc_my_name = myName, tmc_members = members, tmc_history = chain, tmc_force_final = forceFinal,
           tmc_prompt = build_team_prompt myName forceFinal members chain,
           tmc_tools = (if forceFinal then []
             else map (\<lambda>m. handoff_tool dec (ai_name m) (ai_description m)) members)\<rparr>)"

text \<open>\<^verbatim>\<open>PrepareForTeam\<close> of an \<^verbatim>\<open>*Agent\<close>.\<close>

definition prepare_for_team :: "'v team_context \<Rightarrow> 'v agent \<Rightarrow> 'v agent" where
  "prepare_for_team tc a =
     (let c = clone a;
          c1 = (if tmc_force_final tc then c else c\<lparr>ag_tools := ag_tools c @ tmc_tools tc\<rparr>)
      in c1\<lparr>ag_instructions := tmc_prompt tc @ nl @ nl @ ag_instructions a\<rparr>)"

end
