(* ===== verification/TeamRun.thy ===== *)
theory TeamRun
  imports Team
begin

text \<open>
  \<^verbatim>\<open>teamRunner\<close> of \<^verbatim>\<open>team.go\<close>: one member run after the other, along the handoffs the members
  record, until one finishes without handing off, the handoff limit is reached, or a loop or an
  error stops the run. The loop of \<^verbatim>\<open>run\<close> is unbounded when the router keeps vetoing, so it has
  fuel; \<open>team_run_ends\<close> says how much is enough when it does not.
\<close>

section \<open>State and events\<close>

record team_result =
  tres_output :: string
  tres_chain :: "handoff_entry list"
  tres_turns :: int
  tres_usage :: usage

datatype team_event =
    TeamAgentStart string
  | TeamAgentEnd string "go_err option"
  | TeamHandoff string string string
  | TeamThought string string
  | TeamTextDelta string string
  | TeamToolCall string tool_call
  | TeamToolProgress string string string
  | TeamToolResult string string string
  | TeamRetrying string go_err
  | TeamDone team_result
  | TeamError go_err

record 'w team_run =
  tr_chain :: "handoff_entry list"
  tr_messages :: "message list"
  tr_turns :: int
  tr_usage :: usage
  tr_force_final :: bool
  tr_current :: string
  tr_streaming :: bool
  tr_events :: "team_event list"
  tr_stages :: "stage_event list"
  tr_team :: "'w team_world team"
  tr_world :: "'w team_world"

definition team_send :: "team_event \<Rightarrow> 'w team_run \<Rightarrow> 'w team_run" where
  "team_send e tr = (if tr_streaming tr then tr\<lparr>tr_events := tr_events tr @ [e]\<rparr> else tr)"

definition team_observe ::
  "string \<Rightarrow> phase \<Rightarrow> (string \<times> detail) list \<Rightarrow> go_err option \<Rightarrow> 'w team_run \<Rightarrow> 'w team_run" where
  "team_observe name ph det err tr =
     (if tm_observed (tr_team tr)
      then tr\<lparr>tr_stages := tr_stages tr @ [\<lparr>se_name = name, se_phase = ph, se_detail = det, se_err = err\<rparr>]\<rparr>
      else tr)"

definition stage_team_agent :: string where "stage_team_agent = ''team.agent''"
definition stage_team_route :: string where "stage_team_route = ''team.route''"

section \<open>One member\<close>

text \<open>\<^verbatim>\<open>prepareRunner\<close>; a member that has left is \<open>Returns None\<close>.\<close>

definition prepare_runner ::
  "'w team_env \<Rightarrow> 'w team_run \<Rightarrow> 'w team_world member option go_ret \<times> 'w team_run" where
  "prepare_runner env tr =
     (case map_of (tm_agents (tr_team tr)) (tr_current tr) of
        None \<Rightarrow> (Returns None, tr)
      | Some e \<Rightarrow>
          let ctx = build_team_context (te_dec env) (tr_force_final tr) (tr_chain tr) (tr_team tr) (tr_current tr) in
          (case ae_member e of
             InProcess a \<Rightarrow>
               (case ctx of
                  None \<Rightarrow> (Panics nil_deref, tr)
                | Some tc \<Rightarrow> (Returns (Some (InProcess (prepare_for_team tc a))), tr))
           | ExternalRunner x \<Rightarrow>
               (case ex_prepare x of
                  None \<Rightarrow> (Returns (Some (ExternalRunner x)), tr)
                | Some f \<Rightarrow>
                    (case ctx of
                       None \<Rightarrow> (Panics nil_deref, tr)
                     | Some tc \<Rightarrow> (Returns (Some (ExternalRunner x)), tr\<lparr>tr_world := f tc (tr_world tr)\<rparr>)))))"

text \<open>The loop of \<^verbatim>\<open>runAgentStreaming\<close> over the events of a member.\<close>

fun forward_member ::
  "(nat \<Rightarrow> go_err option) \<Rightarrow> string \<Rightarrow> nat \<Rightarrow> string gomap \<Rightarrow> run_result option \<Rightarrow> stream_event list
     \<Rightarrow> team_event list \<times> (go_err + run_result)" where
  "forward_member ctx me i names res [] =
     ([], case res of Some r \<Rightarrow> Inr r
          | None \<Rightarrow> Inl (ErrText (''agent '' @ go_quote me @ '' stream ended without result'')))"
| "forward_member ctx me i names res (e # es) =
     (case ctx i of
        Some err \<Rightarrow> ([], Inl err)
      | None \<Rightarrow>
          (let go_on = (\<lambda>ns r t. case forward_member ctx me (Suc i) ns r es of (ts, out) \<Rightarrow> (t @ ts, out)) in
           case e of
             StreamThought t \<Rightarrow> go_on names res [TeamThought me t]
           | StreamTextDelta t \<Rightarrow> go_on names res [TeamTextDelta me t]
           | StreamToolCall m \<Rightarrow>
               (case msg_tool_calls m of
                  [] \<Rightarrow> go_on names res []
                | c # cs \<Rightarrow> go_on (AList.update (tc_id c) (tc_name c) names) res
                    (if has_prefix (tc_name c) ''transfer_to_'' then [] else [TeamToolCall me c]))
           | StreamToolProgress cid t \<Rightarrow> go_on names res [TeamToolProgress me cid t]
           | StreamToolResult m \<Rightarrow> go_on names res
               (if has_prefix (gm_get '''' names (msg_tool_call_id m)) ''transfer_to_'' then []
                else [TeamToolResult me (msg_tool_call_id m) (msg_content m)])
           | StreamRetrying er \<Rightarrow> go_on names res [TeamRetrying me er]
           | StreamDone r \<Rightarrow> go_on names r []
           | StreamError er \<Rightarrow> ([], Inl er)
           | StreamAborted er \<Rightarrow> ([], Inl (ErrWrap (''agent '' @ go_quote me @ '' aborted: '') er ''''))))"

definition member_stream ::
  "'w team_env \<Rightarrow> 'w team_world member \<Rightarrow> 'w team_world session \<Rightarrow> message list \<Rightarrow> message
     \<Rightarrow> 'w team_world \<Rightarrow> stream_event list \<times> 'w team_world" where
  "member_stream env m ses pre input w =
     (case m of
        InProcess a \<Rightarrow>
          (case run_agent (te_rt env) (te_sub env) a ses pre input True w of ((evs, r), w1) \<Rightarrow> (evs, w1))
      | ExternalRunner e \<Rightarrow> ex_stream e ses pre input w)"

definition member_run ::
  "'w team_env \<Rightarrow> 'w team_world member \<Rightarrow> 'w team_world session \<Rightarrow> message list \<Rightarrow> message
     \<Rightarrow> 'w team_world \<Rightarrow> (go_err + run_result) \<times> 'w team_world" where
  "member_run env m ses pre input w =
     (case m of
        InProcess a \<Rightarrow>
          (case run_agent (te_rt env) (te_sub env) a ses pre input False w of ((evs, r), w1) \<Rightarrow> (r, w1))
      | ExternalRunner e \<Rightarrow> ex_run e ses pre input w)"

definition run_member ::
  "'w team_env \<Rightarrow> 'w team_world session \<Rightarrow> 'w team_world member \<Rightarrow> message \<Rightarrow> 'w team_run
     \<Rightarrow> (go_err + run_result) \<times> 'w team_run" where
  "run_member env ses m input tr =
     (if tr_streaming tr then
        (case member_stream env m ses (tr_messages tr) input (tr_world tr) of (evs, w1) \<Rightarrow>
           case forward_member (\<lambda>i. te_ctx_at env i w1) (tr_current tr) 0 [] None evs of (tes, r) \<Rightarrow>
             (r, tr\<lparr>tr_world := w1, tr_events := tr_events tr @ tes\<rparr>))
      else
        (case member_run env m ses (tr_messages tr) input (tr_world tr) of (r, w1) \<Rightarrow>
           (r, tr\<lparr>tr_world := w1\<rparr>)))"

section \<open>Between two members\<close>

text \<open>The cap on the messages carried over, with the clean-up of its front.\<close>

lemma dropWhile_shorter [termination_simp]: "length (dropWhile P xs) < Suc (length xs)"
  by (simp add: le_imp_less_Suc length_dropWhile_le)

fun drop_call_groups :: "message list \<Rightarrow> message list" where
  "drop_call_groups [] = []"
| "drop_call_groups (m # ms) =
     (if msg_role m = RoleAssistant \<and> 0 < length (msg_tool_calls m)
      then drop_call_groups (dropWhile is_tool_msg ms) else m # ms)"

definition cap_messages :: "message list \<Rightarrow> message list" where
  "cap_messages ms =
     (if 128 < length ms
      then drop_call_groups (dropWhile is_tool_msg (drop (length ms - 128) ms)) else ms)"

text \<open>\<^verbatim>\<open>detectLoop\<close>: the hint, empty for no loop.\<close>

definition ping_pong :: "handoff_entry list \<Rightarrow> bool" where
  "ping_pong chain =
     (let n = length chain in
      4 \<le> n \<and>
      (let a = chain ! (n - 4); b = chain ! (n - 3); c = chain ! (n - 2); d = chain ! (n - 1) in
       he_from a = he_from c \<and> he_to a = he_to c \<and> he_from b = he_from d \<and> he_to b = he_to d))"

definition ping_pong_text :: "handoff_entry list \<Rightarrow> string" where
  "ping_pong_text chain =
     (let n = length chain; a = chain ! (n - 4); c = chain ! (n - 2); arrow = '' '' @ arrow_sign @ '' '' in
      ''Loop detected: '' @ he_from a @ arrow @ he_to a @ arrow @ he_from c @ arrow @ he_to c @
      ''. You are stuck in a ping-pong.'')"

definition bump :: "string \<Rightarrow> (string \<times> nat) list \<Rightarrow> (string \<times> nat) list" where
  "bump k m = AList.update k (gm_get 0 m k + 1) m"

definition agent_counts :: "handoff_entry list \<Rightarrow> (string \<times> nat) list" where
  "agent_counts chain = fold (\<lambda>e m. bump (he_to e) (bump (he_from e) m)) chain []"

fun frequency_hint :: "(string \<times> nat) list \<Rightarrow> string" where
  "frequency_hint [] = ''''"
| "frequency_hint ((name, c) # cs) =
     (if 3 \<le> c then ''Agent '' @ go_quote name @ '' has been called '' @ int_str (int c) @
        '' times. This may indicate a loop.'' else frequency_hint cs)"

definition detect_loop :: "((string \<times> nat) list \<Rightarrow> (string \<times> nat) list) \<Rightarrow> handoff_entry list \<Rightarrow> string" where
  "detect_loop rng chain =
     (if length chain < 2 then ''''
      else if ping_pong chain then ping_pong_text chain
      else frequency_hint (rng (agent_counts chain)))"

definition is_return_handoff :: "handoff_entry list \<Rightarrow> string \<Rightarrow> string \<Rightarrow> bool" where
  "is_return_handoff chain from to = list_ex (\<lambda>e. he_from e = to \<and> he_to e = from) chain"

section \<open>The inputs the team writes\<close>

definition transient_user :: "string \<Rightarrow> message" where
  "transient_user c = (role_message RoleUser c)\<lparr>msg_transient := True\<rparr>"

definition veto_input :: "go_err \<Rightarrow> string \<Rightarrow> message" where
  "veto_input e msg = transient_user (warn_sign @ '' Handoff blocked: '' @ err_text e @ nl @ nl @
     ''Your last request was: '' @ msg @ nl @ ''Please handle this yourself.'')"

definition loop_input :: "string \<Rightarrow> string \<Rightarrow> message" where
  "loop_input hint msg = transient_user (warn_sign @ '' '' @ hint @ nl @ nl @ ''Last handoff: '' @ msg @ nl @ nl @
     ''You must now produce a final answer yourself. Do not hand off again.'')"

definition return_input :: "string \<Rightarrow> string \<Rightarrow> message" where
  "return_input me msg = transient_user (warn_sign @ '' Return handoff from '' @ me @ '' (asking a follow-up). '' @
     ''Answer their question concisely, then hand off back to '' @ me @ '' with your answer.'' @ nl @ nl @
     ''Message: '' @ msg)"

definition join_output :: "string \<Rightarrow> string \<Rightarrow> string" where
  "join_output out msg = (if out \<noteq> '''' then (if msg \<noteq> '''' then out @ nl @ msg else out) else msg)"

section \<open>The loop\<close>

text \<open>What \<^verbatim>\<open>AddAgent\<close> and \<^verbatim>\<open>RemoveAgent\<close> calls from elsewhere have done meanwhile.\<close>

definition churn :: "'w team_env \<Rightarrow> 'w team_run \<Rightarrow> 'w team_run" where
  "churn env tr =
     (case te_churn env (tr_world tr) (tm_agents (tr_team tr), tm_order (tr_team tr)) of
        (as, ns) \<Rightarrow> tr\<lparr>tr_team := (tr_team tr)\<lparr>tm_agents := as, tm_order := ns\<rparr>\<rparr>)"

datatype loop_out = StopTeam "go_err + team_result" | CrashTeam string | NextMember message

definition finalize :: "string \<Rightarrow> 'w team_run \<Rightarrow> team_result \<times> 'w team_run" where
  "finalize out tr =
     (let r = \<lparr>tres_output = out, tres_chain = tr_chain tr, tres_turns = tr_turns tr, tres_usage = tr_usage tr\<rparr>
      in (r, team_send (TeamDone r) tr))"

definition agent_left_error :: "string \<Rightarrow> go_err" where
  "agent_left_error n = ErrText (''agent '' @ go_quote n @ '' was removed from the team during execution'')"

text \<open>The totals and the messages of a finished member.\<close>

definition add_totals :: "run_result \<Rightarrow> 'w team_run \<Rightarrow> 'w team_run" where
  "add_totals r tr =
     tr\<lparr>tr_turns := tr_turns tr + rr_turn_count r, tr_usage := add_usage (tr_usage tr) (rr_usage r),
        tr_messages := cap_messages (tr_messages tr @ rr_messages r)\<rparr>"

definition take_pending :: "'w team_run \<Rightarrow> handoff_request list \<times> 'w team_run" where
  "take_pending tr = (tw_pending (tr_world tr), tr\<lparr>tr_world := (tr_world tr)\<lparr>tw_pending := []\<rparr>\<rparr>)"

definition end_member :: "go_err option \<Rightarrow> 'w team_run \<Rightarrow> 'w team_run" where
  "end_member e tr =
     team_send (TeamAgentEnd (tr_current tr) e)
       (team_observe stage_team_agent Leave [(''agent'', DText (tr_current tr))] e tr)"

text \<open>The handoff: target check, policy, chain, loop detection and the next input.\<close>

definition accept_handoff ::
  "'w team_env \<Rightarrow> handoff_request \<Rightarrow> 'w team_run \<Rightarrow> loop_out \<times> 'w team_run" where
  "accept_handoff env req tr =
     (let entry = \<lparr>he_from = tr_current tr, he_to = hr_target req, he_message = hr_message req\<rparr>;
          tr1 = tr\<lparr>tr_chain := tr_chain tr @ [entry]\<rparr>;
          hint = detect_loop (te_range env) (tr_chain tr1);
          go = (\<lambda>ff input. (NextMember input,
            (team_send (TeamHandoff (tr_current tr) (hr_target req) (hr_message req)) (tr1\<lparr>tr_force_final := ff\<rparr>))
              \<lparr>tr_current := hr_target req\<rparr>))
      in if hint \<noteq> '''' then
           (if tr_force_final tr1 then (StopTeam (Inl (ErrText (''handoff loop detected: '' @ hint))), tr1)
            else go True (loop_input hint (hr_message req)))
         else go False
           (if is_return_handoff (tr_chain tr1) (tr_current tr) (hr_target req)
            then return_input (tr_current tr) (hr_message req) else transient_user (hr_message req)))"

definition hand_off ::
  "'w team_env \<Rightarrow> 'w team_world session \<Rightarrow> handoff_request \<Rightarrow> 'w team_run \<Rightarrow> loop_out \<times> 'w team_run" where
  "hand_off env ses req tr =
     (if \<not> gm_has (tm_agents (tr_team tr)) (hr_target req) then
        (StopTeam (Inl (ErrText (''agent '' @ go_quote (tr_current tr) @ '' tried to hand off to unknown agent '' @
           go_quote (hr_target req)))), tr)
      else case tm_router (tr_team tr) of
          None \<Rightarrow> (CrashTeam nil_deref, tr)
        | Some ro \<Rightarrow>
            (case ro_can_handoff ro \<lparr>he_from = tr_current tr, he_to = hr_target req, he_message = hr_message req\<rparr>
                    (tr_chain tr) ses (tr_world tr) of
               (Some e, w1) \<Rightarrow>
                 (NextMember (veto_input e (hr_message req)), tr\<lparr>tr_world := w1, tr_force_final := True\<rparr>)
             | (None, w1) \<Rightarrow> accept_handoff env req (tr\<lparr>tr_world := w1\<rparr>)))"

definition after_member ::
  "'w team_env \<Rightarrow> 'w team_world session \<Rightarrow> run_result \<Rightarrow> 'w team_run \<Rightarrow> loop_out \<times> 'w team_run" where
  "after_member env ses result tr =
     (case take_pending (add_totals result tr) of (handoffs, tr1) \<Rightarrow>
        let tr2 = end_member None tr1 in
        case handoffs of
          [] \<Rightarrow> (case finalize (rr_final_output result) tr2 of (r, tr3) \<Rightarrow> (StopTeam (Inr r), tr3))
        | req # rest \<Rightarrow>
            hand_off env ses (req\<lparr>hr_message := join_output (rr_final_output result) (hr_message req)\<rparr>)
              (churn env tr2))"

definition team_turn ::
  "'w team_env \<Rightarrow> 'w team_world session \<Rightarrow> message \<Rightarrow> 'w team_run \<Rightarrow> loop_out \<times> 'w team_run" where
  "team_turn env ses input tr0 =
     (let tr = churn env tr0; mx = tm_max_handoffs (tr_team tr) in
      if mx \<le> int (length (tr_chain tr))
      then (StopTeam (Inl (ErrText (''handoff limit reached ('' @ int_str mx @ '')''))), tr)
      else case prepare_runner env tr of
          (Panics p, tr1) \<Rightarrow> (CrashTeam p, tr1)
        | (Returns None, tr1) \<Rightarrow> (StopTeam (Inl (agent_left_error (tr_current tr))), tr1)
        | (Returns (Some m), tr1) \<Rightarrow>
            let tr2 = team_observe stage_team_agent Enter
                  [(''agent'', DText (tr_current tr1)), (''handoff_index'', DInt (int (length (tr_chain tr1))))] None
                  (team_send (TeamAgentStart (tr_current tr1)) tr1)
            in case run_member env ses m input tr2 of
                 (Inl e, tr3) \<Rightarrow>
                   (StopTeam (Inl (ErrWrap (''agent '' @ go_quote (tr_current tr3) @ '': '') e '''')),
                    end_member (Some e) tr3)
               | (Inr result, tr3) \<Rightarrow> after_member env ses result tr3)"

fun team_loop ::
  "nat \<Rightarrow> 'w team_env \<Rightarrow> 'w team_world session \<Rightarrow> message \<Rightarrow> 'w team_run
     \<Rightarrow> ((go_err + team_result) go_ret \<times> 'w team_run) option" where
  "team_loop 0 env ses input tr = None"
| "team_loop (Suc n) env ses input tr =
     (case team_turn env ses input tr of
        (StopTeam r, tr1) \<Rightarrow> Some (Returns r, tr1)
      | (CrashTeam p, tr1) \<Rightarrow> Some (Panics p, tr1)
      | (NextMember m, tr1) \<Rightarrow> team_loop n env ses m tr1)"

definition start_team_run :: "'w team_world team \<Rightarrow> bool \<Rightarrow> 'w team_world \<Rightarrow> 'w team_run" where
  "start_team_run t streaming w =
     \<lparr>tr_chain = [], tr_messages = [], tr_turns = 0, tr_usage = zero_usage, tr_force_final = False,
      tr_current = '''', tr_streaming = streaming, tr_events = [], tr_stages = [], tr_team = t, tr_world = w\<rparr>"

text \<open>\<^verbatim>\<open>teamRunner.run\<close>: routing, then the loop.\<close>

definition run_team ::
  "nat \<Rightarrow> 'w team_env \<Rightarrow> 'w team_world session \<Rightarrow> message \<Rightarrow> 'w team_run
     \<Rightarrow> ((go_err + team_result) go_ret \<times> 'w team_run) option" where
  "run_team n env ses input tr =
     (case (agent_infos (tr_team tr), tm_router (tr_team tr)) of
        (Some infos, Some ro) \<Rightarrow>
          (case ro_route ro input infos (tr_world tr) of
             (Inl e, w1) \<Rightarrow> Some (Returns (Inl (ErrWrap ''router: '' e '''')), tr\<lparr>tr_world := w1\<rparr>)
           | (Inr rr, w1) \<Rightarrow>
               let tr1 = tr\<lparr>tr_world := w1\<rparr>;
                   tr2 = (if rte_fallback rr then team_observe stage_team_route Leave
                            [(''agent'', DText (rte_agent rr)), (''fallback'', DText (rte_reason rr))] None tr1 else tr1)
               in if \<not> gm_has (tm_agents (tr_team tr2)) (rte_agent rr)
                  then Some (Returns (Inl (ErrText (''router returned unknown agent '' @ go_quote (rte_agent rr)))), tr2)
                  else team_loop n env ses input (tr2\<lparr>tr_current := rte_agent rr\<rparr>))
      | _ \<Rightarrow> Some (Panics nil_deref, tr))"

text \<open>\<^verbatim>\<open>Team.Run\<close> and \<^verbatim>\<open>Team.RunStream\<close>.\<close>

definition team_run_plain ::
  "nat \<Rightarrow> 'w team_env \<Rightarrow> 'w team_world team \<Rightarrow> 'w team_world session \<Rightarrow> message \<Rightarrow> 'w team_world
     \<Rightarrow> ((go_err + team_result) go_ret \<times> 'w team_run) option" where
  "team_run_plain n env t ses input w =
     (if tm_agents t = [] then Some (Returns (Inl no_agents_error), start_team_run t False w)
      else run_team n env ses input (start_team_run t False w))"

definition team_run_stream ::
  "nat \<Rightarrow> 'w team_env \<Rightarrow> 'w team_world team \<Rightarrow> 'w team_world session \<Rightarrow> message \<Rightarrow> 'w team_world
     \<Rightarrow> (team_event list go_ret \<times> 'w team_run) option" where
  "team_run_stream n env t ses input w =
     (let tr = start_team_run t True w in
      if tm_agents t = [] then Some (Returns [TeamError no_agents_error], tr)
      else case run_team n env ses input tr of
          None \<Rightarrow> None
        | Some (Panics p, tr1) \<Rightarrow> Some (Panics p, tr1)
        | Some (Returns (Inl e), tr1) \<Rightarrow> Some (Returns (tr_events tr1 @ [TeamError e]), tr1)
        | Some (Returns (Inr r), tr1) \<Rightarrow> Some (Returns (tr_events tr1), tr1))"

end
