(* ===== verification/TeamFacts.thy ===== *)
theory TeamFacts
  imports TeamRun
begin

text \<open>
  What a team run guarantees: the handoff chain links the routed agent to the one that answered,
  it stays below the limit, the run ends, and the event stream is closed by one final event.
\<close>

section \<open>What the parts of a turn keep\<close>

definition is_team_end :: "team_event \<Rightarrow> bool" where
  "is_team_end e = (case e of TeamDone r \<Rightarrow> True | TeamError x \<Rightarrow> True | _ \<Rightarrow> False)"

text \<open>Chain, current member, configuration kept; only ordinary events sent.\<close>

definition calm :: "'w team_run \<Rightarrow> 'w team_run \<Rightarrow> bool" where
  "calm s t = (tr_chain t = tr_chain s \<and> tr_current t = tr_current s \<and> tr_streaming t = tr_streaming s \<and>
     tm_max_handoffs (tr_team t) = tm_max_handoffs (tr_team s) \<and> tm_router (tr_team t) = tm_router (tr_team s) \<and>
     (\<exists>es. tr_events t = tr_events s @ es \<and> (\<forall>e\<in>set es. \<not> is_team_end e)))"

lemma calm_refl: "calm s s"
  by (simp add: calm_def)

lemma calm_trans: "calm s t \<Longrightarrow> calm t u \<Longrightarrow> calm s u"
  unfolding calm_def by (elim conjE exE) (auto simp: ball_Un)

lemma calm_send: "calm s t \<Longrightarrow> \<not> is_team_end e \<Longrightarrow> calm s (team_send e t)"
  by (auto simp: calm_def team_send_def)

lemma calm_observe: "calm s t \<Longrightarrow> calm s (team_observe n p d e t)"
  by (simp add: calm_def team_observe_def)

lemma calm_fields:
  "calm s t \<Longrightarrow> calm s (t\<lparr>tr_world := w\<rparr>)" "calm s t \<Longrightarrow> calm s (t\<lparr>tr_force_final := b\<rparr>)"
  by (simp_all add: calm_def)

lemma calm_churn: "calm s t \<Longrightarrow> calm s (churn env t)"
  by (simp add: calm_def churn_def split_beta)

lemma calm_prepare: "prepare_runner env s = (r, t) \<Longrightarrow> calm s t"
  by (auto simp: prepare_runner_def Let_def calm_refl calm_fields split: option.splits member.splits)

lemma forward_member_plain:
  "\<forall>e\<in>set (fst (forward_member ctx me i names res es)). \<not> is_team_end e"
proof (induction es arbitrary: i names res)
  case (Cons e es)
  have p: "x \<in> set (fst (forward_member ctx me (Suc i) ns r es)) \<Longrightarrow> \<not> is_team_end x" for x ns r
    using Cons.IH by blast
  show ?case
    by (cases "ctx i"; cases e) (auto simp: Let_def split_beta is_team_end_def split: list.splits
        dest: p [unfolded is_team_end_def])
qed simp

lemma calm_run_member: "calm s (snd (run_member env ses m input s))"
proof (cases "tr_streaming s")
  case True
  obtain evs w1 where a: "member_stream env m ses (tr_messages s) input (tr_world s) = (evs, w1)" by fastforce
  obtain tes r where b: "forward_member (\<lambda>i. te_ctx_at env i w1) (tr_current s) 0 [] None evs = (tes, r)" by fastforce
  have "\<forall>e\<in>set tes. \<not> is_team_end e"
    using forward_member_plain [of "\<lambda>i. te_ctx_at env i w1" "tr_current s" 0 "[]" None evs] b by simp
  then show ?thesis using True a b by (simp add: run_member_def calm_def)
qed (simp add: run_member_def calm_refl calm_fields split_beta)

lemma calm_end_member: "calm s t \<Longrightarrow> calm s (end_member e t)"
  unfolding end_member_def by (intro calm_send calm_observe) (simp_all add: is_team_end_def)

lemma calm_take: "calm s (snd (take_pending (add_totals r s)))"
  by (simp add: take_pending_def add_totals_def calm_def)

section \<open>A turn\<close>

text \<open>The chain of a handoff from one member to the next.\<close>

definition extends :: "'w team_run \<Rightarrow> 'w team_run \<Rightarrow> bool" where
  "extends s t = (\<exists>e. tr_chain t = tr_chain s @ [e] \<and> he_from e = tr_current s \<and> he_to e = tr_current t \<and>
     tr_streaming t = tr_streaming s \<and>
     tm_max_handoffs (tr_team t) = tm_max_handoffs (tr_team s) \<and> tm_router (tr_team t) = tm_router (tr_team s) \<and>
     (\<exists>es. tr_events t = tr_events s @ es \<and> (\<forall>e\<in>set es. \<not> is_team_end e)))"

lemma extends_calm: "calm s t \<Longrightarrow> extends t u \<Longrightarrow> extends s u"
  unfolding calm_def extends_def by (elim conjE exE) (auto simp: ball_Un)

text \<open>The outcomes of a turn.\<close>

definition outcome_ok :: "loop_out \<Rightarrow> 'w team_run \<Rightarrow> 'w team_run \<Rightarrow> bool" where
  "outcome_ok out s t =
     (case out of
        StopTeam (Inr r) \<Rightarrow> tres_chain r = tr_chain s \<and> int (length (tr_chain s)) < tm_max_handoffs (tr_team s) \<and>
          (\<exists>u. calm s u \<and> t = team_send (TeamDone r) u)
      | StopTeam (Inl e) \<Rightarrow> \<exists>es. tr_events t = tr_events s @ es \<and> (\<forall>e\<in>set es. \<not> is_team_end e)
      | CrashTeam p \<Rightarrow> True
      | NextMember m \<Rightarrow> calm s t \<or> extends s t)"

lemma calm_events: "calm s t \<Longrightarrow> \<exists>es. tr_events t = tr_events s @ es \<and> (\<forall>e\<in>set es. \<not> is_team_end e)"
  by (simp add: calm_def)

lemma accept_handoff_outcome:
  assumes "accept_handoff env req s = (out, t)"
  shows "(\<exists>m. out = NextMember m \<and> extends s t) \<or> (\<exists>e. out = StopTeam (Inl e) \<and> tr_events t = tr_events s)"
proof -
  let ?entry = "\<lparr>he_from = tr_current s, he_to = hr_target req, he_message = hr_message req\<rparr>"
  let ?s1 = "s\<lparr>tr_chain := tr_chain s @ [?entry]\<rparr>"
  have x: "extends s ((team_send (TeamHandoff (tr_current s) (hr_target req) (hr_message req)) (?s1\<lparr>tr_force_final := ff\<rparr>))
      \<lparr>tr_current := hr_target req\<rparr>)" for ff
    by (simp add: extends_def team_send_def is_team_end_def)
  show ?thesis using assms x by (auto simp: accept_handoff_def Let_def split: if_splits)
qed

lemma hand_off_outcome:
  assumes h: "hand_off env ses req s = (out, t)"
  shows "outcome_ok out s t"
    and "tm_router (tr_team s) = Some ro \<Longrightarrow> ro_can_handoff ro = never_veto \<Longrightarrow> out = NextMember m \<Longrightarrow> extends s t"
proof -
  have "outcome_ok out s t \<and>
    (\<forall>ro m. tm_router (tr_team s) = Some ro \<and> ro_can_handoff ro = never_veto \<and> out = NextMember m \<longrightarrow> extends s t)"
  proof (cases "gm_has (tm_agents (tr_team s)) (hr_target req)")
    case False
    then have "t = s" "\<exists>e. out = StopTeam (Inl e)" using h by (auto simp: hand_off_def)
    then show ?thesis by (auto simp: outcome_ok_def)
  next
    case True
    show ?thesis
    proof (cases "tm_router (tr_team s)")
      case None
      then show ?thesis using h True by (auto simp: hand_off_def outcome_ok_def)
    next
      case (Some ro)
      obtain v w1 where v: "ro_can_handoff ro \<lparr>he_from = tr_current s, he_to = hr_target req, he_message = hr_message req\<rparr>
          (tr_chain s) ses (tr_world s) = (v, w1)" by fastforce
      let ?s1 = "s\<lparr>tr_world := w1\<rparr>"
      have c: "calm s ?s1" by (rule calm_fields(1) [OF calm_refl])
      show ?thesis
      proof (cases v)
        case None
        then have a: "accept_handoff env req ?s1 = (out, t)" using h True Some v by (simp add: hand_off_def)
        show ?thesis using accept_handoff_outcome [OF a] extends_calm [OF c]
          by (auto simp: outcome_ok_def)
      next
        case (Some e)
        then have "out = NextMember (veto_input e (hr_message req))" "t = ?s1\<lparr>tr_force_final := True\<rparr>"
          using h True \<open>tm_router (tr_team s) = Some ro\<close> v by (auto simp: hand_off_def)
        moreover have "ro_can_handoff ro \<noteq> never_veto" using v Some by (auto simp: never_veto_def)
        ultimately show ?thesis using calm_fields(2) [OF c] \<open>tm_router (tr_team s) = Some ro\<close>
          by (auto simp: outcome_ok_def)
      qed
    qed
  qed
  then show "outcome_ok out s t"
    and "tm_router (tr_team s) = Some ro \<Longrightarrow> ro_can_handoff ro = never_veto \<Longrightarrow> out = NextMember m \<Longrightarrow> extends s t"
    by blast+
qed

lemma outcome_ok_calm:
  assumes c: "calm s t" and o: "outcome_ok out t u"
    and lim: "int (length (tr_chain s)) < tm_max_handoffs (tr_team s)"
  shows "outcome_ok out s u"
proof (cases out)
  case (StopTeam r)
  show ?thesis
  proof (cases r)
    case (Inl e)
    then have "\<exists>es. tr_events u = tr_events t @ es \<and> (\<forall>e\<in>set es. \<not> is_team_end e)"
      using o StopTeam by (simp add: outcome_ok_def)
    with calm_events [OF c] have "\<exists>es. tr_events u = tr_events s @ es \<and> (\<forall>e\<in>set es. \<not> is_team_end e)"
      by (elim exE conjE) (auto simp: ball_Un)
    then show ?thesis using StopTeam Inl by (simp add: outcome_ok_def)
  next
    case (Inr res)
    then show ?thesis using o StopTeam c lim calm_trans [OF c] by (auto simp: outcome_ok_def calm_def [of s t])
  qed
next
  case (NextMember m)
  then show ?thesis using o calm_trans [OF c] extends_calm [OF c] by (auto simp: outcome_ok_def)
qed (simp add: outcome_ok_def)

lemma after_member_outcome:
  assumes a: "after_member env ses result s = (out, t)"
    and lim: "int (length (tr_chain s)) < tm_max_handoffs (tr_team s)"
  shows "outcome_ok out s t"
    and "tm_router (tr_team s) = Some ro \<Longrightarrow> ro_can_handoff ro = never_veto \<Longrightarrow> out = NextMember m \<Longrightarrow> extends s t"
proof -
  obtain hs s1 where p: "take_pending (add_totals result s) = (hs, s1)" by fastforce
  have c1: "calm s s1" using calm_take [of s result] p by simp
  let ?s2 = "end_member None s1"
  have c2: "calm s ?s2" by (rule calm_end_member [OF c1])
  have "outcome_ok out s t \<and>
    (\<forall>ro m. tm_router (tr_team s) = Some ro \<and> ro_can_handoff ro = never_veto \<and> out = NextMember m \<longrightarrow> extends s t)"
  proof (cases hs)
    case Nil
    obtain r s3 where f: "finalize (rr_final_output result) ?s2 = (r, s3)" by fastforce
    then have "out = StopTeam (Inr r)" "t = team_send (TeamDone r) ?s2" "tres_chain r = tr_chain s"
      using a p Nil c2 by (auto simp: after_member_def finalize_def Let_def calm_def)
    then show ?thesis using c2 lim by (auto simp: outcome_ok_def)
  next
    case (Cons req rest)
    let ?s3 = "churn env ?s2"
    let ?req = "req\<lparr>hr_message := join_output (rr_final_output result) (hr_message req)\<rparr>"
    have h: "hand_off env ses ?req ?s3 = (out, t)" using a p Cons by (simp add: after_member_def Let_def)
    have c3: "calm s ?s3" by (rule calm_churn [OF c2])
    then have "tm_router (tr_team ?s3) = tm_router (tr_team s)" by (simp add: calm_def)
    then show ?thesis
      using outcome_ok_calm [OF c3 hand_off_outcome(1) [OF h] lim] hand_off_outcome(2) [OF h] extends_calm [OF c3]
      by auto
  qed
  then show "outcome_ok out s t"
    and "tm_router (tr_team s) = Some ro \<Longrightarrow> ro_can_handoff ro = never_veto \<Longrightarrow> out = NextMember m \<Longrightarrow> extends s t"
    by blast+
qed

text \<open>
  A turn that goes on has run a member and come to \<open>after_member\<close>; before that nothing but calm
  steps has happened, and a turn that stops before it has failed.
\<close>

lemma team_turn_cases:
  assumes r: "team_turn env ses input s = (out, t)"
  obtains (failed) u where "calm s t" "out = StopTeam (Inl u)"
  | (crashed) p where "out = CrashTeam p"
  | (ran) result u where "calm s u" "int (length (tr_chain s)) < tm_max_handoffs (tr_team s)"
      "after_member env ses result u = (out, t)"
proof -
  let ?s0 = "churn env s" and ?mx = "tm_max_handoffs (tr_team s)"
  have c0: "calm s ?s0" by (rule calm_churn [OF calm_refl])
  have mx: "tm_max_handoffs (tr_team ?s0) = ?mx" "tr_chain ?s0 = tr_chain s" using c0 by (simp_all add: calm_def)
  show ?thesis
  proof (cases "?mx \<le> int (length (tr_chain s))")
    case True
    then show ?thesis using r mx c0 failed by (auto simp: team_turn_def Let_def)
  next
    case lim: False
    obtain pr s1 where p: "prepare_runner env ?s0 = (pr, s1)" by fastforce
    have c1: "calm s s1" by (rule calm_trans [OF c0 calm_prepare [OF p]])
    consider x where "pr = Panics x" | "pr = Returns None" | mem where "pr = Returns (Some mem)"
      by (metis go_ret.exhaust option.exhaust)
    then show ?thesis
    proof cases
      case 1
      then show ?thesis using r mx lim p crashed by (auto simp: team_turn_def Let_def)
    next
      case 2
      then show ?thesis using r mx lim p c1 failed by (auto simp: team_turn_def Let_def)
    next
      case (3 mem)
      let ?s2 = "team_observe stage_team_agent Enter
          [(''agent'', DText (tr_current s1)), (''handoff_index'', DInt (int (length (tr_chain s1))))] None
          (team_send (TeamAgentStart (tr_current s1)) s1)"
      obtain res s3 where b: "run_member env ses mem input ?s2 = (res, s3)" by fastforce
      have "calm s ?s2" by (intro calm_observe calm_send c1) (simp add: is_team_end_def)
      from calm_trans [OF this calm_run_member [of ?s2 env ses mem input]] have c3: "calm s s3" unfolding b by simp
      have st: "team_turn env ses input s = (case res of
          Inl e \<Rightarrow> (StopTeam (Inl (ErrWrap (''agent '' @ go_quote (tr_current s3) @ '': '') e '''')), end_member (Some e) s3)
        | Inr result \<Rightarrow> after_member env ses result s3)"
        using mx lim p 3 b by (simp add: team_turn_def Let_def)
      show ?thesis
      proof (cases res)
        case (Inl e)
        then show ?thesis using r st calm_end_member [OF c3] failed by auto
      next
        case (Inr result)
        then show ?thesis using r st c3 lim ran by simp
      qed
    qed
  qed
qed

lemma team_turn_outcome:
  assumes r: "team_turn env ses input s = (out, t)"
  shows "outcome_ok out s t"
    and "tm_router (tr_team s) = Some ro \<Longrightarrow> ro_can_handoff ro = never_veto \<Longrightarrow> out = NextMember m \<Longrightarrow> extends s t"
    and "out = NextMember m \<Longrightarrow> int (length (tr_chain s)) < tm_max_handoffs (tr_team s)"
proof -
  from r have "outcome_ok out s t \<and>
    (\<forall>ro m. tm_router (tr_team s) = Some ro \<and> ro_can_handoff ro = never_veto \<and> out = NextMember m \<longrightarrow> extends s t) \<and>
    (\<forall>m. out = NextMember m \<longrightarrow> int (length (tr_chain s)) < tm_max_handoffs (tr_team s))"
  proof (cases rule: team_turn_cases)
    case (failed u)
    then show ?thesis using calm_events [OF failed(1)] by (auto simp: outcome_ok_def)
  next
    case (crashed p)
    then show ?thesis by (simp add: outcome_ok_def)
  next
    case (ran result u)
    have k: "tm_router (tr_team u) = tm_router (tr_team s)" "tr_chain u = tr_chain s"
      "tm_max_handoffs (tr_team u) = tm_max_handoffs (tr_team s)" using ran(1) by (simp_all add: calm_def)
    have l: "int (length (tr_chain u)) < tm_max_handoffs (tr_team u)" by (simp add: k ran(2))
    have "outcome_ok out s t"
      by (rule outcome_ok_calm [OF ran(1) after_member_outcome(1) [OF ran(3) l] ran(2)])
    moreover have "extends s t" if "tm_router (tr_team s) = Some ro" "ro_can_handoff ro = never_veto" "out = NextMember m" for ro m
      by (rule extends_calm [OF ran(1) after_member_outcome(2) [OF ran(3) l]]) (use that k in simp_all)
    ultimately show ?thesis using ran(2) by blast
  qed
  then show "outcome_ok out s t"
    and "tm_router (tr_team s) = Some ro \<Longrightarrow> ro_can_handoff ro = never_veto \<Longrightarrow> out = NextMember m \<Longrightarrow> extends s t"
    and "out = NextMember m \<Longrightarrow> int (length (tr_chain s)) < tm_max_handoffs (tr_team s)"
    by blast+
qed

section \<open>The loop\<close>




lemma kept_step:
  "calm s t \<or> extends s t \<Longrightarrow> tr_streaming t = tr_streaming s \<and>
     tm_max_handoffs (tr_team t) = tm_max_handoffs (tr_team s) \<and> tm_router (tr_team t) = tm_router (tr_team s) \<and>
     (\<exists>es. tr_events t = tr_events s @ es \<and> (\<forall>e\<in>set es. \<not> is_team_end e))"
  by (auto simp: calm_def extends_def)






lemma team_loop_ends:
  assumes "ro_can_handoff ro = never_veto"
  shows "tm_router (tr_team s) = Some ro \<Longrightarrow> tm_max_handoffs (tr_team s) < int (length (tr_chain s)) + int n \<Longrightarrow> 0 < n \<Longrightarrow>
    team_loop n env ses input s \<noteq> None"
proof (induction n arbitrary: input s)
  case (Suc n)
  obtain out u where a: "team_turn env ses input s = (out, u)" by fastforce
  show ?case
  proof (cases out)
    case (NextMember m)
    have x: "extends s u" by (rule team_turn_outcome(2) [OF a Suc.prems(1) assms NextMember])
    then have "int (length (tr_chain u)) = int (length (tr_chain s)) + 1" by (auto simp: extends_def)
    moreover have "tm_router (tr_team u) = Some ro" "tm_max_handoffs (tr_team u) = tm_max_handoffs (tr_team s)"
      using kept_step [of s u] x Suc.prems(1) by auto
    moreover have "0 < n" using team_turn_outcome(3) [OF a NextMember] Suc.prems(2) by (cases n) auto
    ultimately have "team_loop n env ses m u \<noteq> None" using Suc.IH Suc.prems(2) by simp
    then show ?thesis using a NextMember by simp
  qed (use a in simp_all)
qed simp

definition stream_of :: "bool \<Rightarrow> go_err + team_result \<Rightarrow> team_event list" where
  "stream_of streaming r = (case r of Inr x \<Rightarrow> if streaming then [TeamDone x] else [] | Inl e \<Rightarrow> [])"

lemma team_loop_events:
  "team_loop n env ses input s = Some (Returns r, t) \<Longrightarrow>
   \<exists>es. tr_events t = tr_events s @ es @ stream_of (tr_streaming s) r \<and> (\<forall>e\<in>set es. \<not> is_team_end e)"
proof (induction n arbitrary: input s)
  case (Suc n)
  obtain out u where a: "team_turn env ses input s = (out, u)" by fastforce
  note o = team_turn_outcome(1) [OF a]
  show ?case
  proof (cases out)
    case (StopTeam x)
    then have "x = r" "t = u" using Suc.prems a by auto
    then show ?thesis using o StopTeam
      by (cases r) (auto simp: outcome_ok_def stream_of_def calm_def team_send_def)
  next
    case (CrashTeam p)
    then show ?thesis using Suc.prems a by simp
  next
    case (NextMember m)
    then have st: "calm s u \<or> extends s u" using o by (simp add: outcome_ok_def)
    have "team_loop n env ses m u = Some (Returns r, t)" using Suc.prems a NextMember by simp
    from Suc.IH [OF this] obtain es where es: "tr_events t = tr_events u @ es @ stream_of (tr_streaming u) r"
      "\<forall>e\<in>set es. \<not> is_team_end e" by blast
    obtain fs where fs: "tr_events u = tr_events s @ fs" "\<forall>e\<in>set fs. \<not> is_team_end e" "tr_streaming u = tr_streaming s"
      using kept_step [OF st] by blast
    have "tr_events t = tr_events s @ (fs @ es) @ stream_of (tr_streaming s) r" using es(1) fs by simp
    moreover have "\<forall>e\<in>set (fs @ es). \<not> is_team_end e" using es(2) fs(2) by (simp add: ball_Un)
    ultimately show ?thesis by blast
  qed
qed simp

section \<open>The guarantees\<close>

lemma start_team_run_sel [simp]: "tr_chain (start_team_run t st w) = []" "tr_events (start_team_run t st w) = []"
  "tr_team (start_team_run t st w) = t" "tr_streaming (start_team_run t st w) = st"
  "tr_world (start_team_run t st w) = w"
  by (simp_all add: start_team_run_def)

lemma team_observe_sel [simp]: "tr_chain (team_observe n p d e tr) = tr_chain tr"
  "tr_events (team_observe n p d e tr) = tr_events tr" "tr_team (team_observe n p d e tr) = tr_team tr"
  "tr_streaming (team_observe n p d e tr) = tr_streaming tr"
  by (simp_all add: team_observe_def)

text \<open>Routing either fails at once, or starts the loop at the member that the router named, with an empty chain.\<close>

lemma run_team_start:
  assumes "run_team n env ses input tr = Some (Returns r, t)"
  shows "(\<exists>e. r = Inl e \<and> tr_events t = tr_events tr) \<or>
    (\<exists>tr1 infos ro rr. agent_infos (tr_team tr) = Some infos \<and> tm_router (tr_team tr) = Some ro \<and>
       fst (ro_route ro input infos (tr_world tr)) = Inr rr \<and>
       team_loop n env ses input tr1 = Some (Returns r, t) \<and> tr_current tr1 = rte_agent rr \<and>
       gm_has (tm_agents (tr_team tr)) (rte_agent rr) \<and> tr_chain tr1 = tr_chain tr \<and> tr_events tr1 = tr_events tr \<and>
       tr_team tr1 = tr_team tr \<and> tr_streaming tr1 = tr_streaming tr)"
proof -
  obtain infos ro where i: "agent_infos (tr_team tr) = Some infos" "tm_router (tr_team tr) = Some ro"
    using assms by (auto simp: run_team_def split: option.splits)
  obtain d w1 where d: "ro_route ro input infos (tr_world tr) = (d, w1)" by fastforce
  show ?thesis
  proof (cases d)
    case (Inl e)
    then show ?thesis using assms i d by (auto simp: run_team_def)
  next
    case (Inr rr)
    then show ?thesis using assms i d
      by (cases "gm_has (tm_agents (tr_team tr)) (rte_agent rr)"; cases "rte_fallback rr")
        (auto simp: run_team_def Let_def intro!: exI)
  qed
qed


definition handing_external :: "string \<Rightarrow> unit team_world external" where
  "handing_external target = \<lparr>ex_run = (\<lambda>ses pre input w. (Inr (empty_run_result\<lparr>rr_final_output := ''see''\<rparr>),
       record_handoff target ''go'' w)),
     ex_stream = (\<lambda>ses pre input w. ([StreamTextDelta ''see'', StreamDone (Some empty_run_result)], record_handoff target ''go'' w)),
     ex_prepare = None, ex_close = None, ex_notify = None\<rparr>"

definition ending_external :: "unit team_world external" where
  "ending_external = \<lparr>ex_run = (\<lambda>ses pre input w. (Inr (empty_run_result\<lparr>rr_final_output := ''done''\<rparr>), w)),
     ex_stream = (\<lambda>ses pre input w. ([StreamDone (Some empty_run_result)], w)),
     ex_prepare = None, ex_close = None, ex_notify = None\<rparr>"

definition relay_team :: "unit team_world team" where
  "relay_team = \<lparr>tm_agents = [(''a'', \<lparr>ae_member = ExternalRunner (handing_external ''b''), ae_internal = False, ae_description = ''A''\<rparr>),
       (''b'', \<lparr>ae_member = ExternalRunner ending_external, ae_internal = False, ae_description = ''B''\<rparr>)],
     tm_order = [''a'', ''b''], tm_router = Some first_agent_router, tm_max_handoffs = 3, tm_observed = False\<rparr>"

definition relay_env :: "unit team_env" where
  "relay_env = \<lparr>te_rt = \<lparr>rt_ctx = (\<lambda>w. None), rt_sleep = (\<lambda>d w. (None, w)), rt_fresh = (\<lambda>n w. (n, w)),
       rt_count = (\<lambda>m t. length t), rt_dec_name = Inr, rt_dec_query = Inr,
       rt_dec_subagent = (\<lambda>t. Inl (ErrText ''bad'')), rt_order = (\<lambda>is w. is), rt_score = (\<lambda>r. '''')\<rparr>,
     te_sub = no_sub_runner, te_dec = Inr, te_churn = (\<lambda>w ms. ms), te_ctx_at = (\<lambda>i w. None), te_range = (\<lambda>cs. cs)\<rparr>"

definition idle_world :: "unit team_world" where
  "idle_world = \<lparr>tw_pending = [], tw_outer = ()\<rparr>"




text \<open>
  C11: with a router that never vetoes a handoff, as \<^verbatim>\<open>FirstAgentRouter\<close> and \<^verbatim>\<open>LLMRouter\<close> are, the
  handoff loop ends after at most one member run more than the limit, whatever the members do.
\<close>

theorem team_run_ends:
  assumes "tm_router t = Some ro" "ro_can_handoff ro = never_veto" "nat (tm_max_handoffs t) < n"
  shows "team_run_plain n env t ses input w \<noteq> None"
proof -
  have "run_team n env ses input (start_team_run t False w) \<noteq> None"
  proof (cases "agent_infos t")
    case (Some infos)
    obtain d w1 where d: "ro_route ro input infos w = (d, w1)" by fastforce
    have l: "\<exists>x. team_loop n env ses input tr = Some x" if "tr_team tr = t" "tr_chain tr = []" for tr
      using team_loop_ends [OF assms(2), of tr n env ses input] assms(1,3) that by auto
    show ?thesis
    proof (cases d)
      case (Inr rr)
      let ?tr = "(if rte_fallback rr then team_observe stage_team_route Leave
          [(''agent'', DText (rte_agent rr)), (''fallback'', DText (rte_reason rr))] None
          (start_team_run t False w\<lparr>tr_world := w1\<rparr>) else start_team_run t False w\<lparr>tr_world := w1\<rparr>)
          \<lparr>tr_current := rte_agent rr\<rparr>"
      have "\<exists>x. team_loop n env ses input ?tr = Some x" by (rule l) simp_all
      then show ?thesis using Some assms(1) d Inr by (auto simp: run_team_def Let_def)
    qed (use Some assms(1) d in \<open>simp add: run_team_def\<close>)
  qed (simp add: run_team_def)
  then show ?thesis by (simp add: team_run_plain_def)
qed

lemma team_run_ends_witness: "team_run_plain 4 relay_env relay_team (new_session ''s'') (user_message ''hi'') idle_world \<noteq> None"
  by (rule team_run_ends [of _ first_agent_router]) (simp_all add: relay_team_def first_agent_router_def)

text \<open>
  The event stream of a team run is closed by exactly one final event, the result or the
  error, and it is the last one.
\<close>

theorem team_stream_closed:
  assumes "team_run_stream n env t ses input w = Some (Returns evs, tr)"
  shows "\<exists>es x. evs = es @ [x] \<and> is_team_end x \<and> filter is_team_end es = []"
proof (cases "tm_agents t = []")
  case True
  then show ?thesis using assms by (auto simp: team_run_stream_def Let_def is_team_end_def)
next
  case False
  let ?tr = "start_team_run t True w"
  obtain r u where r: "run_team n env ses input ?tr = Some (Returns r, u)"
    "evs = tr_events u @ (case r of Inl e \<Rightarrow> [TeamError e] | Inr x \<Rightarrow> [])"
    using assms False by (auto simp: team_run_stream_def Let_def split: option.splits go_ret.splits sum.splits)
  have "\<exists>es. tr_events u = es @ stream_of True r \<and> (\<forall>e\<in>set es. \<not> is_team_end e)"
    using run_team_start [OF r(1)]
  proof (elim disjE exE conjE)
    fix e assume "r = Inl e" "tr_events u = tr_events ?tr"
    then show ?thesis by (simp add: stream_of_def)
  next
    fix tr1 infos ro rr
    assume "team_loop n env ses input tr1 = Some (Returns r, u)" "tr_events tr1 = tr_events ?tr"
      "tr_streaming tr1 = tr_streaming ?tr"
    then show ?thesis using team_loop_events [of n env ses input tr1 r u] by simp
  qed
  then obtain es where "tr_events u = es @ stream_of True r" "\<forall>e\<in>set es. \<not> is_team_end e" by blast
  then show ?thesis using r(2)
    by (cases r) (auto simp: stream_of_def is_team_end_def filter_empty_conv)
qed

text \<open>
  The frequency check counts both ends of every handoff, so the third handoff between two members
  is reported as a loop: a question, its answer and one more question.
\<close>

lemma short_consultation_is_a_loop:
  "detect_loop (\<lambda>cs. cs) [\<lparr>he_from = ''a'', he_to = ''b'', he_message = ''''\<rparr>, \<lparr>he_from = ''b'', he_to = ''a'', he_message = ''''\<rparr>,
     \<lparr>he_from = ''a'', he_to = ''b'', he_message = ''''\<rparr>] \<noteq> ''''"
  by code_simp

end
