(* ===== verification/EventBus.thy ===== *)
theory EventBus
  imports Base
begin

text \<open>
  \<^verbatim>\<open>eventbus/bus.go\<close>. Topics and subscriptions are pointers in the code: here they are indices
  into a list of topics and a list of subscriptions, so that a publisher can hold a topic that has
  left the session map. A channel is its buffer of at most 64 events and whether it is closed
  (\<open>sb_closed\<close>); \<open>sb_done\<close> is the atomic flag \<^verbatim>\<open>closed\<close> of the subscription.

  A call that takes locks one after the other is cut into its critical sections; the calls of the
  first part run them back to back, the step relation of the second part interleaves them.
\<close>

section \<open>State\<close>

record 'e topic =
  tp_subs :: "nat list"
  tp_history :: "'e list"
  tp_max :: int

record 'e subscription =
  sb_topic :: nat
  sb_buffer :: "'e list"
  sb_done :: bool
  sb_closed :: bool

record 'e bus =
  bus_sessions :: "nat gomap"
  bus_max :: int
  bus_topics :: "'e topic list"
  bus_subs :: "'e subscription list"

definition chan_capacity :: nat where "chan_capacity = 64"

definition new_bus :: "int \<Rightarrow> 'e bus" where
  "new_bus maxHistory = \<lparr>bus_sessions = [], bus_max = (if maxHistory < 0 then 0 else maxHistory),
     bus_topics = [], bus_subs = []\<rparr>"

section \<open>Topics\<close>

definition new_topic :: "int \<Rightarrow> 'e topic" where
  "new_topic mx = \<lparr>tp_subs = [], tp_history = [], tp_max = mx\<rparr>"

text \<open>A non-blocking send on an open channel: dropped when the buffer is full.\<close>

definition try_send :: "'e \<Rightarrow> 'e list \<Rightarrow> 'e list" where
  "try_send e buf = (if length buf < chan_capacity then buf @ [e] else buf)"

definition topic_subscribe :: "bool \<Rightarrow> nat \<Rightarrow> 'e bus \<Rightarrow> nat \<times> 'e bus" where
  "topic_subscribe replay t b =
     (let tp = bus_topics b ! t; k = length (bus_subs b);
          sub = \<lparr>sb_topic = t, sb_buffer = (if replay then fold try_send (tp_history tp) [] else []), sb_done = False, sb_closed = False\<rparr>
      in (k, b\<lparr>bus_subs := bus_subs b @ [sub], bus_topics := (bus_topics b)[t := tp\<lparr>tp_subs := tp_subs tp @ [k]\<rparr>]\<rparr>))"

definition topic_remove :: "nat \<Rightarrow> 'e bus \<Rightarrow> 'e bus" where
  "topic_remove k b =
     (let t = sb_topic (bus_subs b ! k); tp = bus_topics b ! t
      in b\<lparr>bus_topics := (bus_topics b)[t := tp\<lparr>tp_subs := remove1 k (tp_subs tp)\<rparr>]\<rparr>)"

definition cap_history :: "int \<Rightarrow> 'e list \<Rightarrow> 'e list" where
  "cap_history mx h = (if mx < int (length h) then drop (length h - nat mx) h else h)"

definition add_history :: "'e \<Rightarrow> 'e topic \<Rightarrow> 'e topic" where
  "add_history e tp =
     (if 0 < tp_max tp then tp\<lparr>tp_history := cap_history (tp_max tp) (tp_history tp @ [e])\<rparr> else tp)"

text \<open>The fan-out; a send on a closed channel panics.\<close>

fun fan_out :: "'e \<Rightarrow> nat list \<Rightarrow> 'e subscription list \<Rightarrow> 'e subscription list go_ret" where
  "fan_out e [] subs = Returns subs"
| "fan_out e (k # ks) subs =
     (if sb_closed (subs ! k) then Panics ''send on closed channel''
      else fan_out e ks (subs[k := (subs ! k)\<lparr>sb_buffer := try_send e (sb_buffer (subs ! k))\<rparr>]))"

definition topic_publish :: "'e \<Rightarrow> nat \<Rightarrow> 'e bus \<Rightarrow> 'e bus go_ret" where
  "topic_publish e t b =
     (let tp = add_history e (bus_topics b ! t) in
      case fan_out e (tp_subs tp) (bus_subs b) of
        Panics p \<Rightarrow> Panics p
      | Returns subs \<Rightarrow> Returns (b\<lparr>bus_topics := (bus_topics b)[t := tp], bus_subs := subs\<rparr>))"

section \<open>The calls of the bus\<close>

text \<open>The topic of a session, created when there is none.\<close>

definition get_topic :: "string \<Rightarrow> 'e bus \<Rightarrow> nat \<times> 'e bus" where
  "get_topic sid b =
     (case map_of (bus_sessions b) sid of
        Some t \<Rightarrow> (t, b)
      | None \<Rightarrow> (length (bus_topics b),
          b\<lparr>bus_topics := bus_topics b @ [new_topic (bus_max b)],
             bus_sessions := AList.update sid (length (bus_topics b)) (bus_sessions b)\<rparr>))"

definition subscribe :: "bool \<Rightarrow> string \<Rightarrow> 'e bus \<Rightarrow> nat \<times> 'e bus" where
  "subscribe replay sid b = (case get_topic sid b of (t, b1) \<Rightarrow> topic_subscribe replay t b1)"

definition set_done :: "nat \<Rightarrow> 'e bus \<Rightarrow> 'e bus" where
  "set_done k b = b\<lparr>bus_subs := (bus_subs b)[k := (bus_subs b ! k)\<lparr>sb_done := True\<rparr>]\<rparr>"

definition close_chan :: "nat \<Rightarrow> 'e bus \<Rightarrow> 'e bus" where
  "close_chan k b = b\<lparr>bus_subs := (bus_subs b)[k := (bus_subs b ! k)\<lparr>sb_closed := True\<rparr>]\<rparr>"

definition close_sub :: "nat \<Rightarrow> 'e bus \<Rightarrow> 'e bus" where
  "close_sub k b = (if sb_done (bus_subs b ! k) then b else close_chan k (set_done k b))"

definition close_topic :: "nat \<Rightarrow> 'e bus \<Rightarrow> 'e bus" where
  "close_topic t b = fold close_sub (tp_subs (bus_topics b ! t)) b"

definition forget_session :: "string \<Rightarrow> 'e bus \<Rightarrow> 'e bus" where
  "forget_session sid b = b\<lparr>bus_sessions := AList.delete sid (bus_sessions b)\<rparr>"

definition remove_topic :: "string \<Rightarrow> 'e bus \<Rightarrow> 'e bus" where
  "remove_topic sid b =
     (case map_of (bus_sessions b) sid of
        None \<Rightarrow> b
      | Some t \<Rightarrow> close_topic t (forget_session sid b))"

definition unsubscribe :: "nat \<Rightarrow> 'e bus \<Rightarrow> 'e bus" where
  "unsubscribe k b = (if sb_done (bus_subs b ! k) then b else close_chan k (topic_remove k (set_done k b)))"

definition history_len :: "string \<Rightarrow> 'e bus \<Rightarrow> nat" where
  "history_len sid b =
     (case map_of (bus_sessions b) sid of None \<Rightarrow> 0 | Some t \<Rightarrow> length (tp_history (bus_topics b ! t)))"

definition publish :: "string \<Rightarrow> 'e \<Rightarrow> 'e bus \<Rightarrow> 'e bus go_ret" where
  "publish sid e b = (case get_topic sid b of (t, b1) \<Rightarrow> topic_publish e t b1)"

text \<open>The reader of a subscription takes the next buffered event.\<close>

definition receive :: "nat \<Rightarrow> 'e bus \<Rightarrow> 'e option \<times> 'e bus" where
  "receive k b =
     (case sb_buffer (bus_subs b ! k) of
        [] \<Rightarrow> (None, b)
      | e # es \<Rightarrow> (Some e, b\<lparr>bus_subs := (bus_subs b)[k := (bus_subs b ! k)\<lparr>sb_buffer := es\<rparr>]\<rparr>))"

section \<open>Calls one after the other\<close>

datatype 'e call = Subscribe bool string | Unsubscribe nat | RemoveTopic string | Publish string 'e | Receive nat

text \<open>A call on a subscription the bus has not given out is not possible.\<close>

definition call_ok :: "'e bus \<Rightarrow> 'e call \<Rightarrow> bool" where
  "call_ok b c =
     (case c of Unsubscribe k \<Rightarrow> k < length (bus_subs b) | Receive k \<Rightarrow> k < length (bus_subs b) | _ \<Rightarrow> True)"

definition do_call :: "'e call \<Rightarrow> 'e bus \<Rightarrow> 'e bus go_ret" where
  "do_call c b =
     (if \<not> call_ok b c then Returns b
      else case c of
          Subscribe replay sid \<Rightarrow> Returns (snd (subscribe replay sid b))
        | Unsubscribe k \<Rightarrow> Returns (unsubscribe k b)
        | RemoveTopic sid \<Rightarrow> Returns (remove_topic sid b)
        | Publish sid e \<Rightarrow> publish sid e b
        | Receive k \<Rightarrow> Returns (snd (receive k b)))"

fun do_calls :: "'e call list \<Rightarrow> 'e bus \<Rightarrow> 'e bus go_ret" where
  "do_calls [] b = Returns b"
| "do_calls (c # cs) b = (case do_call c b of Panics p \<Rightarrow> Panics p | Returns b' \<Rightarrow> do_calls cs b')"

text \<open>The specification of the history: what was published to the session since it was removed.\<close>

fun published :: "string \<Rightarrow> 'e call list \<Rightarrow> 'e list \<Rightarrow> 'e list" where
  "published sid [] acc = acc"
| "published sid (c # cs) acc =
     published sid cs (case c of
        Publish s e \<Rightarrow> if s = sid then acc @ [e] else acc
      | RemoveTopic s \<Rightarrow> if s = sid then [] else acc
      | _ \<Rightarrow> acc)"

definition last_events :: "int \<Rightarrow> 'e list \<Rightarrow> 'e list" where
  "last_events mx es = drop (length es - nat mx) es"

definition history_of :: "'e bus \<Rightarrow> string \<Rightarrow> 'e list" where
  "history_of b sid = (case map_of (bus_sessions b) sid of None \<Rightarrow> [] | Some t \<Rightarrow> tp_history (bus_topics b ! t))"

text \<open>
  The invariant: sessions have topics of their own, topics list open subscriptions of their own,
  each once, and their histories respect the cap.
\<close>

definition live_topic :: "'e bus \<Rightarrow> nat \<Rightarrow> bool" where
  "live_topic b t = (t < length (bus_topics b) \<and> tp_max (bus_topics b ! t) = bus_max b \<and>
     distinct (tp_subs (bus_topics b ! t)) \<and>
     (\<forall>k\<in>set (tp_subs (bus_topics b ! t)). k < length (bus_subs b) \<and>
        sb_topic (bus_subs b ! k) = t \<and> \<not> sb_closed (bus_subs b ! k)))"

definition bus_ok :: "'e bus \<Rightarrow> bool" where
  "bus_ok b = (0 \<le> bus_max b \<and>
     (\<forall>s t. map_of (bus_sessions b) s = Some t \<longrightarrow> live_topic b t) \<and>
     (\<forall>k<length (bus_subs b). sb_closed (bus_subs b ! k) \<longrightarrow> sb_done (bus_subs b ! k)) \<and>
     (\<forall>k<length (bus_subs b). sb_topic (bus_subs b ! k) < length (bus_topics b)) \<and>
     (\<forall>s s' t. map_of (bus_sessions b) s = Some t \<and> map_of (bus_sessions b) s' = Some t \<longrightarrow> s = s'))"

section \<open>The invariant is kept\<close>

lemma nth_update_if: "xs[i := x] ! j = (if i = j \<and> i < length xs then x else xs ! j)"
  by (cases "i < length xs") (auto simp: list_update_beyond)

lemma bus_okD:
  assumes "bus_ok b" "map_of (bus_sessions b) s = Some t"
  shows "live_topic b t" "map_of (bus_sessions b) s' = Some t \<Longrightarrow> s' = s"
  using assms unfolding bus_ok_def by blast+

lemma bus_ok_new: "bus_ok (new_bus mx)"
  by (simp add: bus_ok_def new_bus_def)

lemma get_topic_ok:
  assumes b: "bus_ok b" and g: "get_topic sid b = (t, b1)"
  shows "bus_ok b1" "map_of (bus_sessions b1) sid = Some t" "bus_subs b1 = bus_subs b"
    "history_of b1 s = history_of b s" "bus_max b1 = bus_max b"
    "s \<noteq> sid \<Longrightarrow> map_of (bus_sessions b1) s = map_of (bus_sessions b) s"
proof -
  have "bus_ok b1 \<and> map_of (bus_sessions b1) sid = Some t \<and> bus_subs b1 = bus_subs b \<and>
    (\<forall>s. history_of b1 s = history_of b s) \<and> bus_max b1 = bus_max b \<and>
    (\<forall>s. s \<noteq> sid \<longrightarrow> map_of (bus_sessions b1) s = map_of (bus_sessions b) s)"
  proof (cases "map_of (bus_sessions b) sid")
    case (Some u)
    then show ?thesis using b g by (simp add: get_topic_def)
  next
    case None
    let ?n = "length (bus_topics b)"
    have d: "t = ?n" "b1 = b\<lparr>bus_topics := bus_topics b @ [new_topic (bus_max b)],
        bus_sessions := AList.update sid ?n (bus_sessions b)\<rparr>"
      using g None by (auto simp: get_topic_def)
    have m: "map_of (bus_sessions b1) s = (if s = sid then Some ?n else map_of (bus_sessions b) s)" for s
      by (simp add: d update_conv)
    have lt: "u < ?n" if "map_of (bus_sessions b) s = Some u" for s u
      using bus_okD(1) [OF b that] by (simp add: live_topic_def)
    have live: "live_topic b1 u" if "live_topic b u" for u
      using that by (auto simp: live_topic_def d nth_append)
    have new: "live_topic b1 ?n" by (simp add: live_topic_def d new_topic_def)
    have "bus_ok b1"
      unfolding bus_ok_def m
    proof (intro conjI allI impI)
      fix s u assume "(if s = sid then Some ?n else map_of (bus_sessions b) s) = Some u"
      then show "live_topic b1 u" using live new bus_okD(1) [OF b] by (auto split: if_splits)
    qed (use b lt in \<open>auto simp: bus_ok_def d split: if_splits intro: less_SucI\<close>)
    moreover have "history_of b1 s = history_of b s" for s
      using None lt unfolding history_of_def m by (auto simp: d nth_append new_topic_def split: option.split)
    ultimately show ?thesis using m by (auto simp: d(1) simp del: update_conv') (simp_all add: d(2))
  qed
  then show "bus_ok b1" "map_of (bus_sessions b1) sid = Some t" "bus_subs b1 = bus_subs b"
    "history_of b1 s = history_of b s" "bus_max b1 = bus_max b"
    "s \<noteq> sid \<Longrightarrow> map_of (bus_sessions b1) s = map_of (bus_sessions b) s" by blast+
qed

text \<open>The subscriptions after a change of one: what the invariant reads is kept.\<close>

definition same_subs :: "'e subscription list \<Rightarrow> 'e subscription list \<Rightarrow> bool" where
  "same_subs ss ts = (length ts = length ss \<and>
     (\<forall>k<length ss. sb_topic (ts ! k) = sb_topic (ss ! k) \<and> sb_closed (ts ! k) = sb_closed (ss ! k) \<and>
        sb_done (ts ! k) = sb_done (ss ! k)))"

lemma fan_out_ok:
  "\<forall>k\<in>set ks. k < length ss \<and> \<not> sb_closed (ss ! k) \<Longrightarrow>
   \<exists>ts. fan_out e ks ss = Returns ts \<and> same_subs ss ts"
proof (induction ks arbitrary: ss)
  case (Cons k ks)
  let ?ss = "ss[k := (ss ! k)\<lparr>sb_buffer := try_send e (sb_buffer (ss ! k))\<rparr>]"
  have s: "same_subs ss ?ss" using Cons.prems by (auto simp: same_subs_def nth_list_update)
  then have "\<forall>k\<in>set ks. k < length ?ss \<and> \<not> sb_closed (?ss ! k)"
    using Cons.prems by (auto simp: same_subs_def)
  from Cons.IH [OF this] obtain ts where "fan_out e ks ?ss = Returns ts" "same_subs ?ss ts" by blast
  moreover have "same_subs ss ts" using s \<open>same_subs ?ss ts\<close> by (simp add: same_subs_def)
  ultimately show ?case using Cons.prems by simp
qed (simp add: same_subs_def)

lemma topic_publish_ok:
  assumes b: "bus_ok b" and t: "map_of (bus_sessions b) sid = Some t"
  shows "\<exists>b'. topic_publish e t b = Returns b' \<and> bus_ok b' \<and> bus_sessions b' = bus_sessions b \<and> bus_max b' = bus_max b \<and>
    bus_topics b' = (bus_topics b)[t := add_history e (bus_topics b ! t)]"
proof -
  let ?tp = "add_history e (bus_topics b ! t)"
  have live: "live_topic b t" by (rule bus_okD(1) [OF b t])
  have tp: "tp_subs ?tp = tp_subs (bus_topics b ! t)" "tp_max ?tp = tp_max (bus_topics b ! t)"
    by (simp_all add: add_history_def)
  obtain ts where ts: "fan_out e (tp_subs ?tp) (bus_subs b) = Returns ts" "same_subs (bus_subs b) ts"
    using fan_out_ok [of "tp_subs ?tp" "bus_subs b" e] live tp by (auto simp: live_topic_def)
  let ?b = "b\<lparr>bus_topics := (bus_topics b)[t := ?tp], bus_subs := ts\<rparr>"
  have "live_topic ?b u" if "live_topic b u" for u
    using that ts(2) live tp by (auto simp: live_topic_def same_subs_def nth_list_update)
  then have "bus_ok ?b" using b ts(2) by (auto simp: bus_ok_def same_subs_def)
  then show ?thesis using ts by (simp add: topic_publish_def Let_def)
qed

lemma topic_subscribe_ok:
  assumes b: "bus_ok b" and t: "map_of (bus_sessions b) sid = Some t" and s: "topic_subscribe replay t b = (k, b')"
  shows "bus_ok b'" "history_of b' s = history_of b s" "bus_max b' = bus_max b"
proof -
  let ?tp = "bus_topics b ! t" and ?k = "length (bus_subs b)"
  let ?sub = "\<lparr>sb_topic = t, sb_buffer = (if replay then fold try_send (tp_history ?tp) [] else []),
      sb_done = False, sb_closed = False\<rparr>"
  let ?b = "b\<lparr>bus_subs := bus_subs b @ [?sub], bus_topics := (bus_topics b)[t := ?tp\<lparr>tp_subs := tp_subs ?tp @ [?k]\<rparr>]\<rparr>"
  have e: "b' = ?b" using s unfolding topic_subscribe_def Let_def prod.inject by (rule sym [OF conjunct2])
  have live: "live_topic b t" by (rule bus_okD(1) [OF b t])
  have tl: "t < length (bus_topics b)" using live by (simp add: live_topic_def)
  have lv: "live_topic ?b u" if "live_topic b u" for u
  proof (cases "u = t")
    case True
    then show ?thesis using that by (auto simp: live_topic_def nth_append)
  next
    case False
    then show ?thesis using that by (auto simp: live_topic_def nth_append)
  qed
  show "bus_ok b'" unfolding e bus_ok_def
  proof (intro conjI allI impI)
    fix s u assume "map_of (bus_sessions ?b) s = Some u"
    then show "live_topic ?b u" using lv bus_okD(1) [OF b] by simp
  qed (use b tl in \<open>auto simp: bus_ok_def nth_append less_Suc_eq\<close>)
  have "t < length (bus_topics b)" using live by (simp add: live_topic_def)
  then show "history_of b' s = history_of b s" unfolding e
    by (auto simp: history_of_def nth_list_update split: option.split)
  show "bus_max b' = bus_max b" unfolding e by simp
qed

text \<open>Closing and unsubscribing.\<close>

lemma set_done_ok: "bus_ok b \<Longrightarrow> bus_ok (set_done k b)"
proof -
  assume b: "bus_ok b"
  have "live_topic (set_done k b) u" if "live_topic b u" for u
    using that by (auto simp: live_topic_def set_done_def nth_update_if)
  then show ?thesis using b by (auto simp: bus_ok_def set_done_def nth_update_if)
qed

lemma topic_remove_ok:
  assumes b: "bus_ok b" and k: "k < length (bus_subs b)"
  shows "bus_ok (topic_remove k b)" "s' = s \<Longrightarrow> history_of (topic_remove k b) s = history_of b s'"
    "\<And>s t. map_of (bus_sessions b) s = Some t \<Longrightarrow> k \<notin> set (tp_subs (bus_topics (topic_remove k b) ! t))"
proof -
  let ?t = "sb_topic (bus_subs b ! k)"
  let ?tp = "bus_topics b ! ?t"
  let ?b = "b\<lparr>bus_topics := (bus_topics b)[?t := ?tp\<lparr>tp_subs := remove1 k (tp_subs ?tp)\<rparr>]\<rparr>"
  have e: "topic_remove k b = ?b" by (simp add: topic_remove_def Let_def)
  have tl: "?t < length (bus_topics b)" using b k by (simp add: bus_ok_def)
  have live: "live_topic ?b u" if "live_topic b u" for u
    using that by (cases "u = ?t") (auto simp: live_topic_def dest: notin_set_remove1)
  then show "bus_ok (topic_remove k b)" unfolding e using b by (auto simp: bus_ok_def)
  show "s' = s \<Longrightarrow> history_of (topic_remove k b) s = history_of b s'" unfolding e using tl
    by (auto simp: history_of_def nth_list_update split: option.split)
  fix s t assume m: "map_of (bus_sessions b) s = Some t"
  have l: "live_topic b t" by (rule bus_okD(1) [OF b m])
  show "k \<notin> set (tp_subs (bus_topics (topic_remove k b) ! t))"
  proof (cases "t = ?t")
    case True
    then show ?thesis unfolding e using tl l by (simp add: live_topic_def)
  next
    case False
    then show ?thesis unfolding e using l by (auto simp: live_topic_def)
  qed
qed

lemma close_chan_ok:
  assumes b: "bus_ok b" and d: "k < length (bus_subs b) \<Longrightarrow> sb_done (bus_subs b ! k)"
    and n: "\<And>s t. map_of (bus_sessions b) s = Some t \<Longrightarrow> k \<notin> set (tp_subs (bus_topics b ! t))"
  shows "bus_ok (close_chan k b)"
proof -
  have "live_topic (close_chan k b) u" if "live_topic b u" "k \<notin> set (tp_subs (bus_topics b ! u))" for u
    using that by (auto simp: live_topic_def close_chan_def nth_update_if)
  then show ?thesis using b d n by (auto simp: bus_ok_def close_chan_def nth_update_if)
qed

lemma bus_same [simp]:
  "bus_sessions (set_done k b) = bus_sessions b" "bus_topics (set_done k b) = bus_topics b"
  "bus_sessions (close_chan k b) = bus_sessions b" "bus_topics (close_chan k b) = bus_topics b"
  "bus_sessions (topic_remove k b) = bus_sessions b" "bus_subs (topic_remove k b) = bus_subs b"
  "length (bus_subs (set_done k b)) = length (bus_subs b)" "length (bus_subs (close_chan k b)) = length (bus_subs b)"
  "bus_max (set_done k b) = bus_max b" "bus_max (close_chan k b) = bus_max b" "bus_max (topic_remove k b) = bus_max b"
  "history_of (set_done k b) s = history_of b s" "history_of (close_chan k b) s = history_of b s"
  by (simp_all add: set_done_def close_chan_def topic_remove_def Let_def history_of_def split: option.split)

lemma unsubscribe_ok:
  assumes b: "bus_ok b" and k: "k < length (bus_subs b)"
  shows "bus_ok (unsubscribe k b)" "history_of (unsubscribe k b) s = history_of b s" "bus_max (unsubscribe k b) = bus_max b"
proof -
  let ?b1 = "set_done k b"
  have k1: "k < length (bus_subs ?b1)" using k by simp
  have d: "sb_done (bus_subs ?b1 ! k)" using k by (simp add: set_done_def)
  note r = topic_remove_ok [OF set_done_ok [OF b] k1]
  have "bus_ok (close_chan k (topic_remove k ?b1))"
    by (rule close_chan_ok [OF r(1)]) (use d r(3) in auto)
  then show "bus_ok (unsubscribe k b)" using b by (simp add: unsubscribe_def)
  show "history_of (unsubscribe k b) s = history_of b s" using r(2) [OF refl] by (simp add: unsubscribe_def)
  show "bus_max (unsubscribe k b) = bus_max b" by (simp add: unsubscribe_def)
qed

lemma close_sub_same: "bus_sessions (close_sub k b) = bus_sessions b" "bus_topics (close_sub k b) = bus_topics b"
  "length (bus_subs (close_sub k b)) = length (bus_subs b)" "bus_max (close_sub k b) = bus_max b"
  "history_of (close_sub k b) s = history_of b s"
  by (simp_all add: close_sub_def)

lemma close_sub_ok:
  assumes b: "bus_ok b" and n: "\<And>s t. map_of (bus_sessions b) s = Some t \<Longrightarrow> k \<notin> set (tp_subs (bus_topics b ! t))"
  shows "bus_ok (close_sub k b)"
proof (cases "sb_done (bus_subs b ! k)")
  case False
  have "bus_ok (close_chan k (set_done k b))"
    by (rule close_chan_ok [OF set_done_ok [OF b]]) (use n in \<open>auto simp: set_done_def\<close>)
  then show ?thesis using False by (simp add: close_sub_def)
qed (use b in \<open>simp add: close_sub_def\<close>)

lemma fold_close_ok:
  "bus_ok b \<Longrightarrow> (\<And>k s t. k \<in> set ks \<Longrightarrow> map_of (bus_sessions b) s = Some t \<Longrightarrow> k \<notin> set (tp_subs (bus_topics b ! t))) \<Longrightarrow>
   bus_ok (fold close_sub ks b) \<and> bus_max (fold close_sub ks b) = bus_max b \<and>
   (\<forall>s. history_of (fold close_sub ks b) s = history_of b s)"
proof (induction ks arbitrary: b)
  case (Cons k ks)
  have "bus_ok (close_sub k b)" by (rule close_sub_ok [OF Cons.prems(1)]) (use Cons.prems(2) in auto)
  from Cons.IH [OF this] Cons.prems(2) show ?case by (auto simp: close_sub_same)
qed simp

lemma remove_topic_ok:
  assumes b: "bus_ok b"
  shows "bus_ok (remove_topic sid b)" "bus_max (remove_topic sid b) = bus_max b"
    "history_of (remove_topic sid b) s = (if s = sid then [] else history_of b s)"
proof -
  have "bus_ok (remove_topic sid b) \<and> bus_max (remove_topic sid b) = bus_max b \<and>
    (\<forall>s. history_of (remove_topic sid b) s = (if s = sid then [] else history_of b s))"
  proof (cases "map_of (bus_sessions b) sid")
    case None
    then show ?thesis using b by (simp add: remove_topic_def history_of_def)
  next
    case (Some t)
    let ?f = "forget_session sid b"
    have m: "map_of (bus_sessions ?f) s = (if s = sid then None else map_of (bus_sessions b) s)" for s
      by (simp add: forget_session_def delete_conv')
    have "live_topic ?f u = live_topic b u" for u by (simp add: live_topic_def forget_session_def)
    then have f: "bus_ok ?f" using b unfolding bus_ok_def m by (auto simp: forget_session_def split: if_splits)
    have h: "history_of ?f s = (if s = sid then [] else history_of b s)" for s
      unfolding history_of_def m by (simp add: forget_session_def split: option.split)
    have own: "k \<notin> set (tp_subs (bus_topics ?f ! u))"
      if k: "k \<in> set (tp_subs (bus_topics ?f ! t))" and u: "map_of (bus_sessions ?f) s = Some u" for k s u
    proof
      assume "k \<in> set (tp_subs (bus_topics ?f ! u))"
      moreover have "live_topic b t" "live_topic b u" "u \<noteq> t"
        using u bus_okD [OF b] Some by (auto simp: m split: if_splits)
      ultimately show False using k by (auto simp: live_topic_def forget_session_def)
    qed
    from fold_close_ok [OF f own] have "bus_ok (close_topic t ?f) \<and> bus_max (close_topic t ?f) = bus_max b \<and>
        (\<forall>s. history_of (close_topic t ?f) s = history_of ?f s)"
      unfolding close_topic_def by (auto simp: forget_session_def)
    then show ?thesis using Some h by (simp add: remove_topic_def)
  qed
  then show "bus_ok (remove_topic sid b)" "bus_max (remove_topic sid b) = bus_max b"
    "history_of (remove_topic sid b) s = (if s = sid then [] else history_of b s)" by simp_all
qed

lemma receive_ok:
  assumes "bus_ok b" "receive k b = (e, b')"
  shows "bus_ok b'" "history_of b' s = history_of b s" "bus_max b' = bus_max b"
proof -
  have "bus_ok b' \<and> history_of b' s = history_of b s \<and> bus_max b' = bus_max b"
  proof (cases "sb_buffer (bus_subs b ! k)")
    case (Cons x xs)
    then have e: "b' = b\<lparr>bus_subs := (bus_subs b)[k := (bus_subs b ! k)\<lparr>sb_buffer := xs\<rparr>]\<rparr>"
      using assms(2) by (simp add: receive_def)
    have "live_topic b' u" if "live_topic b u" for u
      using that by (auto simp: live_topic_def e nth_update_if)
    then have "bus_ok b'" using assms(1) by (auto simp: bus_ok_def e nth_update_if)
    then show ?thesis by (simp add: e history_of_def split: option.split)
  qed (use assms in \<open>simp add: receive_def\<close>)
  then show "bus_ok b'" "history_of b' s = history_of b s" "bus_max b' = bus_max b" by simp_all
qed

lemma publish_ok:
  assumes b: "bus_ok b"
  shows "\<exists>b'. publish sid e b = Returns b' \<and> bus_ok b' \<and> bus_max b' = bus_max b \<and>
    (\<forall>s. history_of b' s = (if s = sid \<and> 0 < bus_max b then cap_history (bus_max b) (history_of b s @ [e]) else history_of b s))"
proof -
  obtain t b1 where g: "get_topic sid b = (t, b1)" by force
  note g' = get_topic_ok [OF b g]
  obtain b' where b': "topic_publish e t b1 = Returns b'" "bus_ok b'" "bus_sessions b' = bus_sessions b1" "bus_max b' = bus_max b1"
      "bus_topics b' = (bus_topics b1)[t := add_history e (bus_topics b1 ! t)]"
    using topic_publish_ok [OF g'(1,2)] by blast
  have live: "t < length (bus_topics b1)" "tp_max (bus_topics b1 ! t) = bus_max b1"
    using bus_okD(1) [OF g'(1,2)] by (simp_all add: live_topic_def)
  have "history_of b' s = (if s = sid \<and> 0 < bus_max b then cap_history (bus_max b) (history_of b s @ [e]) else history_of b s)" for s
  proof (cases "map_of (bus_sessions b1) s")
    case None
    then have "s \<noteq> sid" using g'(2) by (cases "s = sid") simp_all
    moreover have "history_of b1 s = []" "history_of b' s = []" using None b'(3) by (simp_all add: history_of_def)
    ultimately show ?thesis using g'(4) [of s] by simp
  next
    case (Some u)
    have "u = t \<longleftrightarrow> s = sid"
    proof
      assume "u = t"
      then show "s = sid" using bus_okD(2) [OF g'(1) Some, of sid] g'(2) by simp
    qed (use Some g'(2) in simp)
    then have "history_of b' s = (if s = sid \<and> 0 < bus_max b1 then cap_history (bus_max b1) (history_of b1 s @ [e]) else history_of b1 s)"
      using Some b'(3,5) live by (auto simp: history_of_def add_history_def nth_list_update)
    then show ?thesis by (simp add: g'(4,5))
  qed
  then show ?thesis using b' g'(5) by (auto simp: publish_def g)
qed

section \<open>Calls in sequence refine the specification\<close>

lemma cap_last_events: "0 < mx \<Longrightarrow> cap_history mx (last_events mx es @ [e]) = last_events mx (es @ [e])"
proof -
  assume mx: "0 < mx"
  show ?thesis
  proof (cases "length es < nat mx")
    case True
    then show ?thesis using mx by (auto simp: cap_history_def last_events_def)
  next
    case False
    then have "Suc (length es - nat mx) = Suc (length es) - nat mx" using mx by linarith
    then show ?thesis using mx False by (auto simp: cap_history_def last_events_def)
  qed
qed

lemma do_call_ok:
  assumes b: "bus_ok b"
  shows "\<exists>b'. do_call c b = Returns b' \<and> bus_ok b' \<and> bus_max b' = bus_max b \<and>
    (\<forall>s es. history_of b s = last_events (bus_max b) es \<longrightarrow>
       history_of b' s = last_events (bus_max b) (case c of
          Publish s' e \<Rightarrow> if s' = s then es @ [e] else es | RemoveTopic s' \<Rightarrow> if s' = s then [] else es | _ \<Rightarrow> es))"
proof (cases c)
  case (Subscribe replay sid)
  obtain t b1 where g: "get_topic sid b = (t, b1)" by force
  obtain k b' where s: "topic_subscribe replay t b1 = (k, b')" by force
  note g' = get_topic_ok [OF b g]
  note s' = topic_subscribe_ok [OF g'(1,2) s]
  have "do_call c b = Returns b'" by (simp add: Subscribe do_call_def call_ok_def subscribe_def g s)
  then show ?thesis using s' g'(4,5) Subscribe by simp
next
  case (Unsubscribe k)
  show ?thesis
  proof (cases "k < length (bus_subs b)")
    case True
    then show ?thesis using unsubscribe_ok [OF b True] Unsubscribe by (simp add: do_call_def call_ok_def)
  qed (use b Unsubscribe in \<open>simp add: do_call_def call_ok_def\<close>)
next
  case (RemoveTopic sid)
  then show ?thesis using remove_topic_ok [OF b, of sid] by (simp add: do_call_def call_ok_def last_events_def)
next
  case (Publish sid e)
  obtain b' where b': "publish sid e b = Returns b'" "bus_ok b'" "bus_max b' = bus_max b"
    and h: "\<And>s. history_of b' s = (if s = sid \<and> 0 < bus_max b then cap_history (bus_max b) (history_of b s @ [e]) else history_of b s)"
    using publish_ok [OF b, of sid e] by blast
  have "history_of b' s = last_events (bus_max b) (if sid = s then es @ [e] else es)"
    if "history_of b s = last_events (bus_max b) es" for s es
  proof (cases "sid = s \<and> 0 < bus_max b")
    case True
    then show ?thesis using that h by (simp add: cap_last_events)
  next
    case False
    then show ?thesis using that h by (auto simp: last_events_def)
  qed
  then show ?thesis using b' Publish by (simp add: do_call_def call_ok_def)
next
  case (Receive k)
  obtain e b' where "receive k b = (e, b')" by force
  with receive_ok [OF b this] show ?thesis using b Receive by (simp add: do_call_def call_ok_def)
qed

lemma do_calls_ok:
  "bus_ok b \<Longrightarrow> (\<And>s. history_of b s = last_events (bus_max b) (f s)) \<Longrightarrow>
   \<exists>b'. do_calls cs b = Returns b' \<and> bus_ok b' \<and> (\<forall>s. history_of b' s = last_events (bus_max b) (published s cs (f s)))"
proof (induction cs arbitrary: b f)
  case (Cons c cs)
  obtain b1 where b1: "do_call c b = Returns b1" "bus_ok b1" "bus_max b1 = bus_max b"
    and h: "\<And>s es. history_of b s = last_events (bus_max b) es \<Longrightarrow> history_of b1 s = last_events (bus_max b) (case c of
          Publish s' e \<Rightarrow> if s' = s then es @ [e] else es | RemoveTopic s' \<Rightarrow> if s' = s then [] else es | _ \<Rightarrow> es)"
    using do_call_ok [OF Cons.prems(1), of c] by blast
  from Cons.IH [OF b1(2), unfolded b1(3), OF h [OF Cons.prems(2)]] show ?case
    by (simp add: b1(1))
qed simp

text \<open>
  C7: Calls one after the other never panic, keep the invariant of the bus, and the history of a
  session is always the last \<open>maxHistory\<close> events published to it since its topic was removed.
\<close>

theorem bus_history_is_last_events:
  "\<exists>b. do_calls cs (new_bus mx) = Returns b \<and> bus_ok b \<and>
     (\<forall>s. history_of b s = last_events mx (published s cs []) \<and> history_len s b = length (history_of b s))"
proof -
  have "history_of (new_bus mx) s = last_events (bus_max (new_bus mx)) []" for s
    by (simp add: history_of_def new_bus_def last_events_def)
  then obtain b where b: "do_calls cs (new_bus mx) = Returns b" "bus_ok b"
    and h: "\<And>s. history_of b s = last_events (bus_max (new_bus mx :: 'a bus)) (published s cs [])"
    using do_calls_ok [OF bus_ok_new, of mx "\<lambda>_. []" cs] by blast
  have "last_events (bus_max (new_bus mx :: 'a bus)) es = last_events mx es" for es :: "'a list"
    by (simp add: new_bus_def last_events_def)
  moreover have "history_len s b = length (history_of b s)" for s
    by (simp add: history_len_def history_of_def split: option.split)
  ultimately show ?thesis using b h by simp
qed

section \<open>Interleaved calls\<close>

text \<open>
  What a goroutine still has to do between two critical sections. \<^verbatim>\<open>Publish\<close>, \<^verbatim>\<open>Subscribe\<close> and
  \<^verbatim>\<open>RemoveTopic\<close> give up the lock of the bus before they take the one of the topic; \<^verbatim>\<open>Unsubscribe\<close>
  wins the flag, then takes the topic lock, then closes the channel.
\<close>

datatype 'e pending = SubscribeTo bool nat | PublishTo nat 'e | CloseTopic nat | RemoveSub nat | CloseChan nat

type_synonym 'e bus_state = "'e bus \<times> 'e pending list"

definition start_call :: "'e call \<Rightarrow> 'e bus \<Rightarrow> 'e bus_state" where
  "start_call c b =
     (case c of
        Subscribe replay sid \<Rightarrow> (case get_topic sid b of (t, b') \<Rightarrow> (b', [SubscribeTo replay t]))
      | Publish sid e \<Rightarrow> (case get_topic sid b of (t, b') \<Rightarrow> (b', [PublishTo t e]))
      | RemoveTopic sid \<Rightarrow> (case map_of (bus_sessions b) sid of
            None \<Rightarrow> (b, []) | Some t \<Rightarrow> (forget_session sid b, [CloseTopic t]))
      | Unsubscribe k \<Rightarrow> (if sb_done (bus_subs b ! k) then (b, []) else (set_done k b, [RemoveSub k]))
      | Receive k \<Rightarrow> (snd (receive k b), []))"

definition advance :: "'e pending \<Rightarrow> 'e bus \<Rightarrow> 'e bus_state go_ret" where
  "advance p b =
     (case p of
        SubscribeTo replay t \<Rightarrow> Returns (snd (topic_subscribe replay t b), [])
      | PublishTo t e \<Rightarrow> (case topic_publish e t b of Panics m \<Rightarrow> Panics m | Returns b' \<Rightarrow> Returns (b', []))
      | CloseTopic t \<Rightarrow> Returns (close_topic t b, [])
      | RemoveSub k \<Rightarrow> Returns (topic_remove k b, [CloseChan k])
      | CloseChan k \<Rightarrow>
          (if sb_closed (bus_subs b ! k) then Panics ''close of closed channel'' else Returns (close_chan k b, [])))"

text \<open>The calls start in order; any goroutine may advance at any time.\<close>

inductive interleaved :: "'e call list \<Rightarrow> 'e bus_state \<Rightarrow> 'e bus_state go_ret \<Rightarrow> bool" where
  all_started: "interleaved [] s (Returns s)"
| starts: "call_ok b c \<Longrightarrow> start_call c b = (b', qs) \<Longrightarrow> interleaved cs (b', ps @ qs) r \<Longrightarrow> interleaved (c # cs) (b, ps) r"
| advances: "advance p b = Returns (b', qs) \<Longrightarrow> interleaved cs (b', xs @ qs @ ys) r \<Longrightarrow> interleaved cs (b, xs @ p # ys) r"
| panics: "advance p b = Panics m \<Longrightarrow> interleaved cs (b, xs @ p # ys) (Panics m)"

inductive_simps interleaved_done: "interleaved [] (b, []) r"

text \<open>A schedule: \<open>None\<close> starts the next call, \<open>Some i\<close> advances the goroutine at \<open>i\<close>.\<close>

fun play :: "nat option list \<Rightarrow> 'e call list \<Rightarrow> 'e bus_state \<Rightarrow> 'e bus_state go_ret option" where
  "play [] [] s = Some (Returns s)"
| "play [] (c # cs) s = None"
| "play (None # sched) [] s = None"
| "play (None # sched) (c # cs) (b, ps) =
     (if call_ok b c then case start_call c b of (b', qs) \<Rightarrow> play sched cs (b', ps @ qs) else None)"
| "play (Some i # sched) cs (b, ps) =
     (if i < length ps then case advance (ps ! i) b of
          Panics m \<Rightarrow> Some (Panics m)
        | Returns (b', qs) \<Rightarrow> play sched cs (b', take i ps @ qs @ drop (Suc i) ps)
      else None)"

lemma play_interleaved: "play sched cs s = Some r \<Longrightarrow> interleaved cs s r"
proof (induction sched cs s rule: play.induct)
  case (5 i sched cs b ps)
  then have i: "i < length ps" by (simp split: if_splits)
  have "interleaved cs (b, take i ps @ ps ! i # drop (Suc i) ps) r"
  proof (cases "advance (ps ! i) b")
    case (Returns s')
    obtain b' qs where s': "s' = (b', qs)" by force
    have "play sched cs (b', take i ps @ qs @ drop (Suc i) ps) = Some r" using 5(2) Returns s' i by simp
    from 5(1) [OF i Returns s' [symmetric] this] show ?thesis using Returns s' by (auto intro: advances)
  next
    case (Panics m)
    then have "r = Panics m" using 5(2) i by simp
    then show ?thesis using Panics by (simp add: panics)
  qed
  then show ?case using i by (simp add: id_take_nth_drop [symmetric])
qed (auto intro: all_started starts split: if_splits prod.splits)

text \<open>Without \<^verbatim>\<open>RemoveTopic\<close>: topics list open channels, and who is to close a channel is alone.\<close>

fun to_close :: "'e pending \<Rightarrow> nat list" where
  "to_close (RemoveSub k) = [k]"
| "to_close (CloseChan k) = [k]"
| "to_close _ = []"

definition pending_ok :: "'e bus \<Rightarrow> 'e pending \<Rightarrow> bool" where
  "pending_ok b p =
     (case p of
        SubscribeTo replay t \<Rightarrow> t < length (bus_topics b)
      | PublishTo t e \<Rightarrow> t < length (bus_topics b)
      | CloseTopic t \<Rightarrow> False
      | RemoveSub k \<Rightarrow> True
      | CloseChan k \<Rightarrow> (\<forall>t<length (bus_topics b). k \<notin> set (tp_subs (bus_topics b ! t))))"

definition conc_ok :: "'e bus_state \<Rightarrow> bool" where
  "conc_ok s = (case s of (b, ps) \<Rightarrow>
     (\<forall>sid t. map_of (bus_sessions b) sid = Some t \<longrightarrow> t < length (bus_topics b)) \<and>
     (\<forall>t<length (bus_topics b). distinct (tp_subs (bus_topics b ! t)) \<and> (\<forall>k\<in>set (tp_subs (bus_topics b ! t)).
        k < length (bus_subs b) \<and> sb_topic (bus_subs b ! k) = t \<and> \<not> sb_closed (bus_subs b ! k))) \<and>
     (\<forall>k<length (bus_subs b). sb_topic (bus_subs b ! k) < length (bus_topics b) \<and>
        (sb_closed (bus_subs b ! k) \<longrightarrow> sb_done (bus_subs b ! k))) \<and>
     (\<forall>p\<in>set ps. pending_ok b p) \<and>
     distinct (concat (map to_close ps)) \<and>
     (\<forall>k\<in>set (concat (map to_close ps)). k < length (bus_subs b) \<and> sb_done (bus_subs b ! k) \<and> \<not> sb_closed (bus_subs b ! k)))"

lemma conc_okD:
  assumes "conc_ok (b, ps)"
  shows "map_of (bus_sessions b) sid = Some t \<Longrightarrow> t < length (bus_topics b)"
    "t < length (bus_topics b) \<Longrightarrow> distinct (tp_subs (bus_topics b ! t))"
    "t < length (bus_topics b) \<Longrightarrow> k \<in> set (tp_subs (bus_topics b ! t)) \<Longrightarrow>
       k < length (bus_subs b) \<and> sb_topic (bus_subs b ! k) = t \<and> \<not> sb_closed (bus_subs b ! k)"
    "k < length (bus_subs b) \<Longrightarrow> sb_topic (bus_subs b ! k) < length (bus_topics b)"
    "k < length (bus_subs b) \<Longrightarrow> sb_closed (bus_subs b ! k) \<Longrightarrow> sb_done (bus_subs b ! k)"
    "p \<in> set ps \<Longrightarrow> pending_ok b p" "distinct (concat (map to_close ps))"
    "k \<in> set (concat (map to_close ps)) \<Longrightarrow> k < length (bus_subs b) \<and> sb_done (bus_subs b ! k) \<and> \<not> sb_closed (bus_subs b ! k)"
  using assms unfolding conc_ok_def prod.case by blast+

lemma conc_okI:
  assumes "\<And>sid t. map_of (bus_sessions b) sid = Some t \<Longrightarrow> t < length (bus_topics b)"
    "\<And>t. t < length (bus_topics b) \<Longrightarrow> distinct (tp_subs (bus_topics b ! t))"
    "\<And>t k. t < length (bus_topics b) \<Longrightarrow> k \<in> set (tp_subs (bus_topics b ! t)) \<Longrightarrow>
       k < length (bus_subs b) \<and> sb_topic (bus_subs b ! k) = t \<and> \<not> sb_closed (bus_subs b ! k)"
    "\<And>k. k < length (bus_subs b) \<Longrightarrow> sb_topic (bus_subs b ! k) < length (bus_topics b)"
    "\<And>k. k < length (bus_subs b) \<Longrightarrow> sb_closed (bus_subs b ! k) \<Longrightarrow> sb_done (bus_subs b ! k)"
    "\<And>p. p \<in> set ps \<Longrightarrow> pending_ok b p" "distinct (concat (map to_close ps))"
    "\<And>k. k \<in> set (concat (map to_close ps)) \<Longrightarrow> k < length (bus_subs b) \<and> sb_done (bus_subs b ! k) \<and> \<not> sb_closed (bus_subs b ! k)"
  shows "conc_ok (b, ps)"
  using assms unfolding conc_ok_def prod.case by blast

text \<open>A step that keeps what the invariant reads of the subscriptions, and only shrinks or extends the topics.\<close>

lemma get_topic_conc:
  assumes c: "conc_ok (b, ps)" and g: "get_topic sid b = (t, b')"
  shows "conc_ok (b', ps)" "t < length (bus_topics b')" "bus_subs b' = bus_subs b"
proof -
  note d = conc_okD [OF c]
  have "conc_ok (b', ps) \<and> t < length (bus_topics b') \<and> bus_subs b' = bus_subs b"
  proof (cases "map_of (bus_sessions b) sid")
    case (Some u)
    then show ?thesis using c g d(1) [OF Some] by (simp add: get_topic_def)
  next
    case None
    let ?n = "length (bus_topics b)"
    let ?b = "b\<lparr>bus_topics := bus_topics b @ [new_topic (bus_max b)], bus_sessions := AList.update sid ?n (bus_sessions b)\<rparr>"
    have e: "t = ?n" "b' = ?b" using g None by (auto simp: get_topic_def)
    have tp: "bus_topics ?b ! u = (if u = ?n then new_topic (bus_max b) else bus_topics b ! u)" if "u < Suc ?n" for u
      using that by (auto simp: nth_append)
    have "conc_ok (?b, ps)"
    proof (rule conc_okI)
      show "u < length (bus_topics ?b)" if "map_of (bus_sessions ?b) s = Some u" for s u
        using that d(1) by (auto simp: update_conv split: if_splits intro: less_SucI)
      show "distinct (tp_subs (bus_topics ?b ! u))" if "u < length (bus_topics ?b)" for u
        using that tp [of u] d(2) [of u] by (auto simp: new_topic_def less_Suc_eq)
      show "k < length (bus_subs ?b) \<and> sb_topic (bus_subs ?b ! k) = u \<and> \<not> sb_closed (bus_subs ?b ! k)"
        if "u < length (bus_topics ?b)" "k \<in> set (tp_subs (bus_topics ?b ! u))" for u k
        using that tp [of u] d(3) [of u k] by (auto simp: new_topic_def less_Suc_eq)
      show "pending_ok ?b p" if "p \<in> set ps" for p
        using d(6) [OF that] tp by (auto simp: pending_ok_def new_topic_def less_Suc_eq split: pending.splits)
    qed (use d(4,5,7,8) in \<open>auto intro: less_SucI\<close>)
    then show ?thesis using e by simp
  qed
  then show "conc_ok (b', ps)" "t < length (bus_topics b')" "bus_subs b' = bus_subs b" by simp_all
qed

lemma conc_ok_same:
  assumes c: "conc_ok (b, ps)" and s: "same_subs (bus_subs b) (bus_subs b')" and
    m: "bus_sessions b' = bus_sessions b" "length (bus_topics b') = length (bus_topics b)" and
    t: "\<And>t. t < length (bus_topics b) \<Longrightarrow> tp_subs (bus_topics b' ! t) = tp_subs (bus_topics b ! t)"
  shows "conc_ok (b', ps)"
proof -
  note d = conc_okD [OF c]
  have sub: "length (bus_subs b') = length (bus_subs b)" "\<And>k. k < length (bus_subs b) \<Longrightarrow>
     sb_topic (bus_subs b' ! k) = sb_topic (bus_subs b ! k) \<and> sb_closed (bus_subs b' ! k) = sb_closed (bus_subs b ! k) \<and>
     sb_done (bus_subs b' ! k) = sb_done (bus_subs b ! k)"
    using s by (auto simp: same_subs_def)
  show ?thesis
  proof (rule conc_okI)
    show "k < length (bus_subs b') \<and> sb_topic (bus_subs b' ! k) = u \<and> \<not> sb_closed (bus_subs b' ! k)"
      if "u < length (bus_topics b')" "k \<in> set (tp_subs (bus_topics b' ! u))" for u k
      using that d(3) [of u k] t [of u] sub(1) sub(2) [of k] by (auto simp: m)
    show "pending_ok b' p" if "p \<in> set ps" for p
      using d(6) [OF that] t by (auto simp: pending_ok_def m split: pending.splits)
    show "k < length (bus_subs b') \<and> sb_done (bus_subs b' ! k) \<and> \<not> sb_closed (bus_subs b' ! k)"
      if "k \<in> set (concat (map to_close ps))" for k
      using d(8) [OF that] sub by auto
  qed (use d(1,2,4,5,7) sub t in \<open>auto simp: m\<close>)
qed

lemma conc_ok_pending:
  "conc_ok (b, xs @ p # ys) \<Longrightarrow> conc_ok (b, xs @ ys)"
  unfolding conc_ok_def prod.case by (elim conjE, intro conjI) auto

lemma distinct_insert_mid:
  "distinct p \<Longrightarrow> distinct (a @ b) \<Longrightarrow> set p \<inter> set (a @ b) = {} \<Longrightarrow> distinct (a @ p @ b)"
  by auto

lemma conc_ok_add:
  assumes c: "conc_ok (b, xs @ ys)" and p: "pending_ok b p"
    and k: "\<And>k. k \<in> set (to_close p) \<Longrightarrow> k < length (bus_subs b) \<and> sb_done (bus_subs b ! k) \<and>
      \<not> sb_closed (bus_subs b ! k) \<and> k \<notin> set (concat (map to_close (xs @ ys)))"
  shows "conc_ok (b, xs @ p # ys)"
proof (rule conc_okI)
  note d = conc_okD [OF c]
  let ?A = "concat (map to_close xs)" and ?B = "concat (map to_close ys)"
  have "distinct (to_close p)" by (cases p) simp_all
  moreover have "distinct (?A @ ?B)" using d(7) by simp
  moreover have "j \<notin> set (?A @ ?B)" if "j \<in> set (to_close p)" for j using k [OF that] by simp
  then have "set (to_close p) \<inter> set (?A @ ?B) = {}" by blast
  ultimately have "distinct (?A @ to_close p @ ?B)" by (rule distinct_insert_mid)
  then show "distinct (concat (map to_close (xs @ p # ys)))" by simp
  show "j < length (bus_subs b) \<and> sb_done (bus_subs b ! j) \<and> \<not> sb_closed (bus_subs b ! j)"
    if "j \<in> set (concat (map to_close (xs @ p # ys)))" for j
  proof (cases "j \<in> set (to_close p)")
    case True
    then show ?thesis using k [OF True] by blast
  next
    case False
    then have "j \<in> set (concat (map to_close (xs @ ys)))" using that by simp
    then show ?thesis by (rule d(8))
  qed
  show "pending_ok b q" if "q \<in> set (xs @ p # ys)" for q using that d(6) [of q] p by auto
qed (use conc_okD(1-5) [OF c] in blast)+

lemma topic_subscribe_conc:
  assumes c: "conc_ok (b, ps)" and t: "t < length (bus_topics b)"
  shows "conc_ok (snd (topic_subscribe replay t b), ps)"
proof -
  let ?tp = "bus_topics b ! t" and ?k = "length (bus_subs b)"
  let ?sub = "\<lparr>sb_topic = t, sb_buffer = (if replay then fold try_send (tp_history ?tp) [] else []),
      sb_done = False, sb_closed = False\<rparr>"
  let ?b = "b\<lparr>bus_subs := bus_subs b @ [?sub], bus_topics := (bus_topics b)[t := ?tp\<lparr>tp_subs := tp_subs ?tp @ [?k]\<rparr>]\<rparr>"
  note d = conc_okD [OF c]
  have e: "snd (topic_subscribe replay t b) = ?b" by (simp add: topic_subscribe_def Let_def)
  have tp: "tp_subs (bus_topics ?b ! u) = tp_subs (bus_topics b ! u) @ (if u = t then [?k] else [])"
    if "u < length (bus_topics b)" for u using t by (auto simp: nth_list_update)
  have fresh: "?k \<notin> set (tp_subs (bus_topics b ! u))" if "u < length (bus_topics b)" for u
    using d(3) [OF that] by blast
  have old: "bus_subs ?b ! k = bus_subs b ! k" if "k < ?k" for k using that by (simp add: nth_append)
  show ?thesis unfolding e
  proof (rule conc_okI)
    show "distinct (tp_subs (bus_topics ?b ! u))" if "u < length (bus_topics ?b)" for u
      using that tp [of u] d(2) [of u] fresh [of u] by auto
    show "k < length (bus_subs ?b) \<and> sb_topic (bus_subs ?b ! k) = u \<and> \<not> sb_closed (bus_subs ?b ! k)"
      if "u < length (bus_topics ?b)" "k \<in> set (tp_subs (bus_topics ?b ! u))" for u k
    proof -
      have "k \<in> set (tp_subs (bus_topics b ! u)) \<or> (u = t \<and> k = ?k)" using that tp [of u] by (auto split: if_splits)
      then show ?thesis using that(1) d(3) [of u k] by (auto simp: nth_append)
    qed
    show "pending_ok ?b p" if p: "p \<in> set ps" for p
    proof (cases p)
      case (CloseChan k)
      then have "k < ?k" using d(8) [of k] p by force
      then show ?thesis using d(6) [OF p] CloseChan tp by (auto simp: pending_ok_def)
    qed (use d(6) [OF p] in \<open>simp_all add: pending_ok_def\<close>)
    show "k < length (bus_subs ?b) \<and> sb_done (bus_subs ?b ! k) \<and> \<not> sb_closed (bus_subs ?b ! k)"
      if "k \<in> set (concat (map to_close ps))" for k
      using d(8) [OF that] by (simp add: nth_append)
  qed (use d(1,4,5,7) t in \<open>auto simp: nth_append less_Suc_eq\<close>)
qed

lemma topic_publish_conc:
  assumes c: "conc_ok (b, ps)" and t: "t < length (bus_topics b)"
  shows "\<exists>b'. topic_publish e t b = Returns b' \<and> conc_ok (b', ps)"
proof -
  let ?tp = "add_history e (bus_topics b ! t)"
  note d = conc_okD [OF c]
  have tp: "tp_subs ?tp = tp_subs (bus_topics b ! t)" by (simp add: add_history_def)
  obtain ts where ts: "fan_out e (tp_subs ?tp) (bus_subs b) = Returns ts" "same_subs (bus_subs b) ts"
    using fan_out_ok [of "tp_subs ?tp" "bus_subs b" e] d(3) [OF t] tp by auto
  let ?b = "b\<lparr>bus_topics := (bus_topics b)[t := ?tp], bus_subs := ts\<rparr>"
  have "conc_ok (?b, ps)"
    by (rule conc_ok_same [OF c]) (use ts(2) tp t in \<open>auto simp: nth_list_update\<close>)
  then show ?thesis using ts by (simp add: topic_publish_def Let_def)
qed

lemma topic_remove_conc:
  assumes c: "conc_ok (b, ps)" and k: "k < length (bus_subs b)"
  shows "conc_ok (topic_remove k b, ps)"
    "t < length (bus_topics b) \<Longrightarrow> k \<notin> set (tp_subs (bus_topics (topic_remove k b) ! t))"
    "length (bus_topics (topic_remove k b)) = length (bus_topics b)"
proof -
  let ?t = "sb_topic (bus_subs b ! k)"
  let ?tp = "bus_topics b ! ?t"
  let ?b = "b\<lparr>bus_topics := (bus_topics b)[?t := ?tp\<lparr>tp_subs := remove1 k (tp_subs ?tp)\<rparr>]\<rparr>"
  note d = conc_okD [OF c]
  have e: "topic_remove k b = ?b" by (simp add: topic_remove_def Let_def)
  have tp: "tp_subs (bus_topics ?b ! u) = remove1 k (tp_subs (bus_topics b ! u))" if "u < length (bus_topics b)" for u
  proof (cases "u = ?t")
    case False
    then have "k \<notin> set (tp_subs (bus_topics b ! u))" using d(3) [OF that, of k] by auto
    then show ?thesis using False that by (simp add: remove1_idem)
  qed (use that in simp)
  have set_tp: "set (tp_subs (bus_topics ?b ! u)) = set (tp_subs (bus_topics b ! u)) - {k}" if "u < length (bus_topics b)" for u
    using tp [OF that] d(2) [OF that] by simp
  show "length (bus_topics (topic_remove k b)) = length (bus_topics b)" unfolding e by simp
  show "t < length (bus_topics b) \<Longrightarrow> k \<notin> set (tp_subs (bus_topics (topic_remove k b) ! t))"
    unfolding e using set_tp [of t] by auto
  show "conc_ok (topic_remove k b, ps)" unfolding e
  proof (rule conc_okI)
    show "distinct (tp_subs (bus_topics ?b ! u))" if "u < length (bus_topics ?b)" for u
      using that tp [of u] d(2) [of u] by simp
    show "j < length (bus_subs ?b) \<and> sb_topic (bus_subs ?b ! j) = u \<and> \<not> sb_closed (bus_subs ?b ! j)"
      if "u < length (bus_topics ?b)" "j \<in> set (tp_subs (bus_topics ?b ! u))" for u j
      using that set_tp [of u] d(3) [of u j] by simp
    show "pending_ok ?b p" if "p \<in> set ps" for p
      using d(6) [OF that] set_tp by (auto simp: pending_ok_def split: pending.splits)
  qed (use d(1,4,5,7,8) in auto)
qed

lemma set_done_conc:
  assumes c: "conc_ok (b, ps)" and k: "k < length (bus_subs b)" and f: "\<not> sb_done (bus_subs b ! k)"
  shows "conc_ok (set_done k b, ps @ [RemoveSub k])"
proof -
  note d = conc_okD [OF c]
  have fresh: "k \<notin> set (concat (map to_close ps))" using d(8) f by blast
  have s: "bus_subs (set_done k b) ! j = (if j = k then (bus_subs b ! k)\<lparr>sb_done := True\<rparr> else bus_subs b ! j)" for j
    using k by (auto simp: set_done_def nth_update_if)
  have "conc_ok (set_done k b, ps)"
  proof (rule conc_okI)
    show "j < length (bus_subs (set_done k b)) \<and> sb_done (bus_subs (set_done k b) ! j) \<and> \<not> sb_closed (bus_subs (set_done k b) ! j)"
      if "j \<in> set (concat (map to_close ps))" for j using d(8) [OF that] s by auto
    show "pending_ok (set_done k b) p" if "p \<in> set ps" for p
      using d(6) [OF that] by (simp add: pending_ok_def split: pending.splits)
    show "j < length (bus_subs (set_done k b)) \<and> sb_topic (bus_subs (set_done k b) ! j) = u \<and> \<not> sb_closed (bus_subs (set_done k b) ! j)"
      if "u < length (bus_topics (set_done k b))" "j \<in> set (tp_subs (bus_topics (set_done k b) ! u))" for u j
      using d(3) [of u j] that s by auto
  qed (use d(1,2,4,5,7) s in \<open>auto\<close>)
  then have c': "conc_ok (set_done k b, ps @ [])" by simp
  have "\<not> sb_closed (bus_subs b ! k)" using d(5) [OF k] f by blast
  then show ?thesis using conc_ok_add [OF c', of "RemoveSub k"] k s fresh by (simp add: pending_ok_def)
qed

lemma close_chan_conc:
  assumes c: "conc_ok (b, xs @ CloseChan k # ys)"
  shows "conc_ok (close_chan k b, xs @ ys)"
proof -
  note d = conc_okD [OF c] and d' = conc_okD [OF conc_ok_pending [OF c]]
  have k: "k < length (bus_subs b)" "sb_done (bus_subs b ! k)" using d(8) [of k] by simp_all
  have out: "k \<notin> set (tp_subs (bus_topics b ! t))" if "t < length (bus_topics b)" for t
    using d(6) [of "CloseChan k"] that by (simp add: pending_ok_def)
  have "concat (map to_close (xs @ CloseChan k # ys)) = concat (map to_close xs) @ k # concat (map to_close ys)" by simp
  with d(7) have alone: "k \<notin> set (concat (map to_close (xs @ ys)))" by auto
  have s: "bus_subs (close_chan k b) ! j = (if j = k then (bus_subs b ! k)\<lparr>sb_closed := True\<rparr> else bus_subs b ! j)" for j
    using k by (auto simp: close_chan_def nth_update_if)
  show ?thesis
  proof (rule conc_okI)
    show "j < length (bus_subs (close_chan k b)) \<and> sb_done (bus_subs (close_chan k b) ! j) \<and> \<not> sb_closed (bus_subs (close_chan k b) ! j)"
      if "j \<in> set (concat (map to_close (xs @ ys)))" for j
    proof -
      have "j \<noteq> k" using that alone by blast
      then show ?thesis using d'(8) [OF that] s by simp
    qed
    show "pending_ok (close_chan k b) p" if "p \<in> set (xs @ ys)" for p
      using d'(6) [OF that] by (simp add: pending_ok_def split: pending.splits)
    show "j < length (bus_subs (close_chan k b)) \<and> sb_topic (bus_subs (close_chan k b) ! j) = u \<and> \<not> sb_closed (bus_subs (close_chan k b) ! j)"
      if "u < length (bus_topics (close_chan k b))" "j \<in> set (tp_subs (bus_topics (close_chan k b) ! u))" for u j
      using d(3) [of u j] that s out [of u] by auto
  qed (use d'(1,2,4,5,7) s k in \<open>auto\<close>)
qed

definition removes :: "'e call \<Rightarrow> bool" where
  "removes c = (case c of RemoveTopic s \<Rightarrow> True | _ \<Rightarrow> False)"

lemma start_conc:
  assumes c: "conc_ok (b, ps)" and o: "call_ok b c" and n: "\<not> removes c" and s: "start_call c b = (b', qs)"
  shows "conc_ok (b', ps @ qs)"
proof (cases c)
  case (Subscribe replay sid)
  obtain t b1 where g: "get_topic sid b = (t, b1)" by force
  note g' = get_topic_conc [OF c g]
  have "conc_ok (b1, ps @ [SubscribeTo replay t])"
    by (rule conc_ok_add) (use g' in \<open>simp_all add: pending_ok_def\<close>)
  then show ?thesis using s Subscribe g by (simp add: start_call_def)
next
  case (Publish sid e)
  obtain t b1 where g: "get_topic sid b = (t, b1)" by force
  note g' = get_topic_conc [OF c g]
  have "conc_ok (b1, ps @ [PublishTo t e])"
    by (rule conc_ok_add) (use g' in \<open>simp_all add: pending_ok_def\<close>)
  then show ?thesis using s Publish g by (simp add: start_call_def)
next
  case (Unsubscribe k)
  then show ?thesis using s o c set_done_conc [OF c, of k]
    by (auto simp: start_call_def call_ok_def split: if_splits)
next
  case (Receive k)
  have r: "bus_sessions (snd (receive k b)) = bus_sessions b" "bus_topics (snd (receive k b)) = bus_topics b"
    by (simp_all add: receive_def split: list.split)
  have "same_subs (bus_subs b) (bus_subs (snd (receive k b)))"
    by (auto simp: receive_def same_subs_def nth_update_if split: list.split)
  then have "conc_ok (snd (receive k b), ps)" by (rule conc_ok_same [OF c]) (simp_all add: r)
  then show ?thesis using s Receive by (auto simp: start_call_def)
qed (use n in \<open>simp add: removes_def\<close>)

lemma advance_conc:
  assumes c: "conc_ok (b, xs @ p # ys)"
  shows "\<exists>b' qs. advance p b = Returns (b', qs) \<and> conc_ok (b', xs @ qs @ ys)"
proof (cases p)
  case (SubscribeTo replay t)
  have "t < length (bus_topics b)" using conc_okD(6) [OF c, of p] SubscribeTo by (simp add: pending_ok_def)
  from topic_subscribe_conc [OF conc_ok_pending [OF c] this] show ?thesis using SubscribeTo by (simp add: advance_def)
next
  case (PublishTo t e)
  have "t < length (bus_topics b)" using conc_okD(6) [OF c, of p] PublishTo by (simp add: pending_ok_def)
  from topic_publish_conc [OF conc_ok_pending [OF c] this, of e] show ?thesis using PublishTo by (auto simp: advance_def)
next
  case (CloseTopic t)
  then show ?thesis using conc_okD(6) [OF c, of p] by (simp add: pending_ok_def)
next
  case (RemoveSub k)
  have k: "k < length (bus_subs b)" "sb_done (bus_subs b ! k)" "\<not> sb_closed (bus_subs b ! k)"
    using conc_okD(8) [OF c, of k] RemoveSub by simp_all
  have "concat (map to_close (xs @ RemoveSub k # ys)) = concat (map to_close xs) @ k # concat (map to_close ys)" by simp
  with conc_okD(7) [OF c] RemoveSub have alone: "k \<notin> set (concat (map to_close (xs @ ys)))" by auto
  note r = topic_remove_conc [OF conc_ok_pending [OF c] k(1)]
  have "conc_ok (topic_remove k b, xs @ CloseChan k # ys)"
    by (rule conc_ok_add [OF r(1)]) (use r(2,3) k alone in \<open>simp_all add: pending_ok_def\<close>)
  then show ?thesis using RemoveSub by (simp add: advance_def)
next
  case (CloseChan k)
  have "\<not> sb_closed (bus_subs b ! k)" using conc_okD(8) [OF c, of k] CloseChan by simp
  then show ?thesis using close_chan_conc c CloseChan by (simp add: advance_def)
qed

lemma interleaved_safe:
  assumes "interleaved cs s r" "conc_ok s" "list_all (\<lambda>c. \<not> removes c) cs"
  shows "\<exists>s'. r = Returns s' \<and> conc_ok s'"
  using assms
proof (induction rule: interleaved.induct)
  case (starts b c b' qs cs ps r)
  have "conc_ok (b', ps @ qs)" by (rule start_conc [OF starts.prems(1) starts.hyps(1) _ starts.hyps(2)]) (use starts.prems(2) in simp)
  then show ?case using starts.IH starts.prems(2) by simp
next
  case (advances p b b' qs cs xs ys r)
  from advance_conc [OF advances.prems(1)] advances show ?case by auto
next
  case (panics p b m cs xs ys)
  from advance_conc [OF panics.prems(1)] panics show ?case by auto
qed simp

text \<open>
  C8: Whatever the interleaving of publishers, subscribers, readers and \<^verbatim>\<open>Unsubscribe\<close> calls, no
  goroutine sends on or closes a closed channel, as long as no topic is removed meanwhile.
\<close>

theorem unsubscribe_races_safely:
  assumes "interleaved cs (new_bus mx, []) r" "list_all (\<lambda>c. \<not> removes c) cs"
  shows "\<exists>b ps. r = Returns (b, ps) \<and>
    (\<forall>t<length (bus_topics b). \<forall>k\<in>set (tp_subs (bus_topics b ! t)). \<not> sb_closed (bus_subs b ! k))"
proof -
  have "conc_ok (new_bus mx :: 'a bus, [])" by (simp add: conc_ok_def new_bus_def)
  from interleaved_safe [OF assms(1) this assms(2)] obtain b ps where r: "r = Returns (b, ps)" "conc_ok (b, ps)" by auto
  then show ?thesis using conc_okD(3) [OF r(2)] by blast
qed

theorem unsubscribe_races_safely_witness:
  "let cs = [Subscribe True ''s'', Publish ''s'' (1::int), Unsubscribe 0] in
   (\<exists>r. interleaved cs (new_bus 1, []) r) \<and> (\<forall>r. interleaved cs (new_bus 1, []) r \<longrightarrow> (\<exists>b ps. r = Returns (b, ps)))"
proof -
  let ?cs = "[Subscribe True ''s'', Publish ''s'' (1::int), Unsubscribe 0]"
  have "list_all (\<lambda>c. \<not> removes c) ?cs" by (simp add: removes_def)
  then have "\<exists>b ps. r = Returns (b, ps)" if "interleaved ?cs (new_bus 1, []) r" for r
    using unsubscribe_races_safely [OF that] by blast
  moreover have "case play [None, Some 0, None, Some 0, None, Some 0, Some 0] ?cs (new_bus 1, []) of None \<Rightarrow> False | Some r \<Rightarrow> True"
    by code_simp
  then obtain r where "play [None, Some 0, None, Some 0, None, Some 0, Some 0] ?cs (new_bus 1, []) = Some r"
    unfolding option.case_eq_if by (metis option.collapse)
  then have "\<exists>r. interleaved ?cs (new_bus 1, []) r" using play_interleaved by blast
  ultimately show ?thesis by (simp add: Let_def)
qed

text \<open>
  With \<^verbatim>\<open>RemoveTopic\<close> there is a race: a publisher that has looked up the topic sends to the
  channel the removal has closed.
\<close>

lemma remove_topic_races:
  "interleaved [Subscribe True ''s'', Publish ''s'' (1::int), RemoveTopic ''s''] (new_bus 1, []) (Panics ''send on closed channel'')"
proof (rule play_interleaved)
  show "play [None, Some 0, None, None, Some 1, Some 0]
      [Subscribe True ''s'', Publish ''s'' (1::int), RemoveTopic ''s''] (new_bus 1, []) = Some (Panics ''send on closed channel'')"
    by code_simp
qed

end
