(* ===== verification/SessionStore.thy ===== *)
theory SessionStore
  imports Base "HOL-Library.Char_ord" "HOL-Library.List_Lexorder" "HOL-Library.Multiset"
begin

text \<open>
  Session metadata and where it is kept: \<^verbatim>\<open>SessionInfo\<close> of \<^verbatim>\<open>rest/types.go\<close>, the interface of
  \<^verbatim>\<open>rest/session_store.go\<close> as a locale, and its two implementations, \<^verbatim>\<open>rest/sessionstore/file\<close> and
  \<^verbatim>\<open>rest/sessionstore/sqlite\<close>. A time is its number of nanoseconds.
\<close>

section \<open>Session metadata\<close>

record session_info =
  si_id :: string
  si_title :: string
  si_kind :: string
  si_model :: string
  si_provider :: string
  si_created :: int
  si_updated :: int

section \<open>The contract of a store\<close>

text \<open>A client: saves (\<open>Inl\<close>) and deletions (\<open>Inr\<close>), and what they leave of the sessions.\<close>

fun store_work ::
  "(session_info \<Rightarrow> 's \<Rightarrow> go_err option \<times> 's) \<Rightarrow> (string \<Rightarrow> 's \<Rightarrow> go_err option \<times> 's) \<Rightarrow>
   (session_info + string) list \<Rightarrow> 's \<Rightarrow> 's" where
  "store_work sav rm [] s = s"
| "store_work sav rm (Inl i # ops) s = store_work sav rm ops (snd (sav i s))"
| "store_work sav rm (Inr sid # ops) s = store_work sav rm ops (snd (rm sid s))"

fun stored :: "(session_info \<Rightarrow> session_info) \<Rightarrow> (session_info + string) list \<Rightarrow> (string \<Rightarrow> session_info option) \<Rightarrow> string \<Rightarrow> session_info option" where
  "stored keep [] f = f"
| "stored keep (Inl i # ops) f = stored keep ops (f(si_id i := Some (keep i)))"
| "stored keep (Inr sid # ops) f = stored keep ops (f(sid := None))"

text \<open>\<open>keep\<close> is what the store keeps of the metadata it is given.\<close>

locale session_store =
  fixes good :: "'s \<Rightarrow> bool"
    and sessions :: "'s \<Rightarrow> string \<Rightarrow> session_info option"
    and keep :: "session_info \<Rightarrow> session_info"
    and sav :: "session_info \<Rightarrow> 's \<Rightarrow> go_err option \<times> 's"
    and fetch :: "string \<Rightarrow> 's \<Rightarrow> go_err + session_info option"
    and listing :: "string \<Rightarrow> 's \<Rightarrow> go_err + session_info list"
    and rm :: "string \<Rightarrow> 's \<Rightarrow> go_err option \<times> 's"
  assumes keep_id: "si_id (keep i) = si_id i" and keep_kind: "si_kind (keep i) = si_kind i"
    and save_ok: "good s \<Longrightarrow> sav i s = (e, s') \<Longrightarrow> e = None \<and> good s' \<and> sessions s' = (sessions s)(si_id i := Some (keep i))"
    and fetch_ok: "good s \<Longrightarrow> fetch sid s = Inr (sessions s sid)"
    and listing_ok: "good s \<Longrightarrow> \<exists>l. listing kind s = Inr l \<and> distinct (map si_id l) \<and> set l = {i. sessions s (si_id i) = Some i \<and> si_kind i = kind}"
    and rm_ok: "good s \<Longrightarrow> rm sid s = (e, s') \<Longrightarrow> e = None \<and> good s' \<and> sessions s' = (sessions s)(sid := None)"
begin

lemma store_work_ok:
  "good s \<Longrightarrow> good (store_work sav rm ops s) \<and> sessions (store_work sav rm ops s) = stored keep ops (sessions s)"
proof (induction ops arbitrary: s)
  case (Cons op ops)
  show ?case
  proof (cases op)
    case (Inl i)
    obtain e s' where "sav i s = (e, s')" by force
    with save_ok [OF Cons.prems this] Cons.IH [of s'] Inl show ?thesis by (simp add: fun_upd_def)
  next
    case (Inr sid)
    obtain e s' where "rm sid s = (e, s')" by force
    with rm_ok [OF Cons.prems this] Cons.IH [of s'] Inr show ?thesis by (simp add: fun_upd_def)
  qed
qed simp

lemma work_fetch: "good s \<Longrightarrow> fetch sid (store_work sav rm ops s) = Inr (stored keep ops (sessions s) sid)"
  using store_work_ok fetch_ok by metis

lemma work_listing:
  assumes "good s"
  shows "\<exists>l. listing kind (store_work sav rm ops s) = Inr l \<and> distinct (map si_id l) \<and>
    set l = {i. stored keep ops (sessions s) (si_id i) = Some i \<and> si_kind i = kind}"
proof -
  have w: "good (store_work sav rm ops s)" "sessions (store_work sav rm ops s) = stored keep ops (sessions s)"
    using store_work_ok [OF assms, of ops] by auto
  show ?thesis using listing_ok [OF w(1), of kind] unfolding w(2) .
qed

end

section \<open>The file store\<close>

text \<open>
  The metadata is in memory, and every change writes it all to a temporary file that is then
  renamed. Parameters: \<^verbatim>\<open>encoding/json\<close> on the map (\<open>dec_infos\<close> is the map after \<^verbatim>\<open>json.Unmarshal\<close> into
  an empty one, whose error the code drops), the failures of the disk, and the order in which Go
  ranges over the map.
\<close>

record store_io =
  enc_infos :: "session_info gomap \<Rightarrow> go_err + string"
  dec_infos :: "string \<Rightarrow> session_info gomap"
  mkdir_err :: "go_err option"
  read_fails :: "string \<Rightarrow> bool"
  tmp_err :: "string \<Rightarrow> (nat \<times> go_err) option"
  rename_err :: "string \<Rightarrow> go_err option"
  range_order :: "session_info list \<Rightarrow> session_info list"

record file_store =
  fs_path :: string
  fs_sessions :: "session_info gomap"
  fs_disk :: "string gomap"

definition open_file_store :: "store_io \<Rightarrow> string \<Rightarrow> string gomap \<Rightarrow> go_err + file_store" where
  "open_file_store io dir disk =
     (case mkdir_err io of
        Some e \<Rightarrow> Inl (ErrWrap ''file sessionstore: '' e '''')
      | None \<Rightarrow>
          let path = dir @ ''/sessions.json'' in
          Inr \<lparr>fs_path = path,
            fs_sessions =
              (if read_fails io path then [] else case map_of disk path of None \<Rightarrow> [] | Some data \<Rightarrow> dec_infos io data),
            fs_disk = disk\<rparr>)"

text \<open>A write that fails leaves the part of the data it has written.\<close>

definition flush_store :: "store_io \<Rightarrow> file_store \<Rightarrow> go_err option \<times> file_store" where
  "flush_store io s =
     (case enc_infos io (fs_sessions s) of
        Inl e \<Rightarrow> (Some e, s)
      | Inr data \<Rightarrow>
          let tmp = fs_path s @ ''.tmp'' in
          (case tmp_err io tmp of
             Some (n, e) \<Rightarrow> (Some e, s\<lparr>fs_disk := AList.update tmp (take n data) (fs_disk s)\<rparr>)
           | None \<Rightarrow>
               (case rename_err io tmp of
                  Some e \<Rightarrow> (Some e, s\<lparr>fs_disk := AList.update tmp data (fs_disk s)\<rparr>)
                | None \<Rightarrow> (None, s\<lparr>fs_disk := AList.update (fs_path s) data (AList.delete tmp (fs_disk s))\<rparr>))))"

definition file_save :: "store_io \<Rightarrow> session_info \<Rightarrow> file_store \<Rightarrow> go_err option \<times> file_store" where
  "file_save io info s = flush_store io (s\<lparr>fs_sessions := AList.update (si_id info) info (fs_sessions s)\<rparr>)"

definition file_get :: "string \<Rightarrow> file_store \<Rightarrow> go_err + session_info option" where
  "file_get sid s = Inr (map_of (fs_sessions s) sid)"

text \<open>\<^verbatim>\<open>sort.Slice\<close>, newest first; the order it leaves among equal times is the one of the range.\<close>

definition file_list :: "store_io \<Rightarrow> string \<Rightarrow> file_store \<Rightarrow> go_err + session_info list" where
  "file_list io kind s =
     Inr (sort_key (\<lambda>i. - si_updated i) (filter (\<lambda>i. si_kind i = kind) (range_order io (map snd (fs_sessions s)))))"

definition file_remove :: "store_io \<Rightarrow> string \<Rightarrow> file_store \<Rightarrow> go_err option \<times> file_store" where
  "file_remove io sid s = flush_store io (s\<lparr>fs_sessions := AList.delete sid (fs_sessions s)\<rparr>)"

section \<open>The SQLite store\<close>

text \<open>
  The table is a list of rows. \<^verbatim>\<open>time.Format\<close> and \<^verbatim>\<open>time.Parse\<close> with \<^verbatim>\<open>RFC3339\<close> are parameters, as are
  the failures of the statements, by name, and the order of rows with equal keys (\<open>tie_order\<close>).
\<close>

record session_row =
  sr_id :: string
  sr_kind :: string
  sr_title :: string
  sr_model :: string
  sr_provider :: string
  sr_created :: string
  sr_updated :: string

record session_db =
  stmt_err :: "string \<Rightarrow> go_err option"
  time_format :: "int \<Rightarrow> string"
  time_parse :: "string \<Rightarrow> go_err + int"
  tie_order :: "session_row list \<Rightarrow> session_row list"

text \<open>\<^verbatim>\<open>time.Time{}\<close>, which \<^verbatim>\<open>time.Parse\<close> returns beside an error: the start of the year 1.\<close>

definition zero_time :: int where "zero_time = - 62135596800000000000"

definition open_session_db :: "session_db \<Rightarrow> session_row list \<Rightarrow> go_err + session_row list" where
  "open_session_db env rows =
     (case stmt_err env ''migrate'' of
        Some e \<Rightarrow> Inl (ErrWrap ''sqlite sessionstore: migrate: '' e '''')
      | None \<Rightarrow> Inr rows)"

definition info_row :: "session_db \<Rightarrow> session_info \<Rightarrow> session_row" where
  "info_row env i = \<lparr>sr_id = si_id i, sr_kind = si_kind i, sr_title = si_title i, sr_model = si_model i,
     sr_provider = si_provider i, sr_created = time_format env (si_created i), sr_updated = time_format env (si_updated i)\<rparr>"

definition parse_time :: "session_db \<Rightarrow> string \<Rightarrow> int" where
  "parse_time env s = (case time_parse env s of Inl e \<Rightarrow> zero_time | Inr t \<Rightarrow> t)"

definition scan_info :: "session_db \<Rightarrow> session_row \<Rightarrow> session_info" where
  "scan_info env r = \<lparr>si_id = sr_id r, si_title = sr_title r, si_kind = sr_kind r, si_model = sr_model r,
     si_provider = sr_provider r, si_created = parse_time env (sr_created r), si_updated = parse_time env (sr_updated r)\<rparr>"

definition db_save :: "session_db \<Rightarrow> session_info \<Rightarrow> session_row list \<Rightarrow> go_err option \<times> session_row list" where
  "db_save env info rows =
     (case stmt_err env ''save'' of
        Some e \<Rightarrow> (Some e, rows)
      | None \<Rightarrow> (None, filter (\<lambda>r. sr_id r \<noteq> si_id info) rows @ [info_row env info]))"

definition db_get :: "session_db \<Rightarrow> string \<Rightarrow> session_row list \<Rightarrow> go_err + session_info option" where
  "db_get env sid rows =
     (case stmt_err env ''get'' of
        Some e \<Rightarrow> Inl e
      | None \<Rightarrow> Inr (map_option (scan_info env) (find (\<lambda>r. sr_id r = sid) rows)))"

definition db_list :: "session_db \<Rightarrow> string \<Rightarrow> session_row list \<Rightarrow> go_err + session_info list" where
  "db_list env kind rows =
     (case stmt_err env ''list'' of
        Some e \<Rightarrow> Inl e
      | None \<Rightarrow>
          (case stmt_err env ''scan'' of
             Some e \<Rightarrow> Inl e
           | None \<Rightarrow>
               (case stmt_err env ''rows'' of
                  Some e \<Rightarrow> Inl e
                | None \<Rightarrow>
                    Inr (map (scan_info env)
                      (rev (sort_key sr_updated (tie_order env (filter (\<lambda>r. sr_kind r = kind) rows))))))))"

definition db_remove :: "session_db \<Rightarrow> string \<Rightarrow> session_row list \<Rightarrow> go_err option \<times> session_row list" where
  "db_remove env sid rows =
     (case stmt_err env ''delete'' of
        Some e \<Rightarrow> (Some e, rows)
      | None \<Rightarrow> (None, filter (\<lambda>r. sr_id r \<noteq> sid) rows))"

section \<open>Both implement the contract\<close>

text \<open>A disk without failures, and a range in some order.\<close>

definition sound_io ::
  "(session_info gomap \<Rightarrow> string) \<Rightarrow> (string \<Rightarrow> session_info gomap) \<Rightarrow> (session_info list \<Rightarrow> session_info list) \<Rightarrow> store_io" where
  "sound_io enc dec ord = \<lparr>enc_infos = (\<lambda>m. Inr (enc m)), dec_infos = dec, mkdir_err = None, read_fails = (\<lambda>_. False),
     tmp_err = (\<lambda>_. None), rename_err = (\<lambda>_. None), range_order = (\<lambda>l. if mset (ord l) = mset l then ord l else l)\<rparr>"

definition keyed :: "session_info gomap \<Rightarrow> bool" where
  "keyed m = (gm_ok m \<and> list_all (\<lambda>(k, i). si_id i = k) m)"

lemma keyed_Nil: "keyed []"
  by (simp add: keyed_def)

lemma keyed_update: "keyed m \<Longrightarrow> keyed (AList.update (si_id i) i m)"
proof -
  have "list_all (\<lambda>(k, i). si_id i = k) m \<Longrightarrow> list_all (\<lambda>(k, i). si_id i = k) (AList.update (si_id i) i m)"
    by (induction m) auto
  then show "keyed m \<Longrightarrow> keyed (AList.update (si_id i) i m)" by (simp add: keyed_def gm_ok_update)
qed

lemma keyed_delete: "keyed m \<Longrightarrow> keyed (AList.delete k m)"
  by (simp add: keyed_def gm_ok_delete) (auto simp: AList.delete_eq list_all_iff)

lemma keyed_lookup: "keyed m \<Longrightarrow> map_of m k = Some i \<Longrightarrow> si_id i = k"
  by (auto simp: keyed_def list_all_iff dest: map_of_SomeD)

lemma keyed_ids: "keyed m \<Longrightarrow> map si_id (map snd m) = map fst m"
  by (auto simp: keyed_def list_all_iff)

lemma keyed_infos: "keyed m \<Longrightarrow> set (map snd m) = {i. map_of m (si_id i) = Some i}"
  by (force simp: keyed_def gm_ok_def list_all_iff dest: map_of_SomeD)

text \<open>The file, if there is one, holds the metadata in memory.\<close>

definition file_store_good :: "(session_info gomap \<Rightarrow> string) \<Rightarrow> file_store \<Rightarrow> bool" where
  "file_store_good enc s = (keyed (fs_sessions s) \<and>
     (case map_of (fs_disk s) (fs_path s) of None \<Rightarrow> fs_sessions s = [] | Some d \<Rightarrow> d = enc (fs_sessions s)))"

lemma flush_store_sound:
  "flush_store (sound_io enc dec ord) s = (None, s\<lparr>fs_disk := AList.update (fs_path s) (enc (fs_sessions s))
     (AList.delete (fs_path s @ ''.tmp'') (fs_disk s))\<rparr>)"
  by (simp add: flush_store_def sound_io_def Let_def)

lemma flush_store_good:
  "keyed (fs_sessions s) \<Longrightarrow> file_store_good enc (snd (flush_store (sound_io enc dec ord) s))"
  by (simp add: flush_store_sound file_store_good_def update_conv)

lemma distinct_map_mset: "mset xs = mset ys \<Longrightarrow> distinct (map f ys) \<Longrightarrow> distinct (map f xs)"
  by (metis mset_eq_imp_distinct_iff mset_map)

lemma file_list_ok:
  assumes "keyed (fs_sessions s)"
  shows "\<exists>l. file_list (sound_io enc dec ord) kind s = Inr l \<and> distinct (map si_id l) \<and> sorted_wrt (\<lambda>i j. si_updated j \<le> si_updated i) l \<and>
    set l = {i. map_of (fs_sessions s) (si_id i) = Some i \<and> si_kind i = kind}"
proof -
  define r where "r = range_order (sound_io enc dec ord) (map snd (fs_sessions s))"
  have r: "mset r = mset (map snd (fs_sessions s))" by (simp add: r_def sound_io_def)
  have "distinct (map si_id (map snd (fs_sessions s)))"
    unfolding keyed_ids [OF assms] using assms by (simp add: keyed_def gm_ok_def)
  then have "distinct (map si_id r)" by (rule distinct_map_mset [OF r])
  then have "distinct (map si_id (filter (\<lambda>i. si_kind i = kind) r))" by (rule distinct_map_filter)
  then have d: "distinct (map si_id (sort_key (\<lambda>i. - si_updated i) (filter (\<lambda>i. si_kind i = kind) r)))"
    by (rule distinct_map_mset [rotated]) (rule mset_sort)
  have "sorted_wrt (\<lambda>i j. si_updated j \<le> si_updated i) (sort_key (\<lambda>i. - si_updated i) (filter (\<lambda>i. si_kind i = kind) r))"
    using sorted_sort_key [of "\<lambda>i. - si_updated i" "filter (\<lambda>i. si_kind i = kind) r"] by (simp add: sorted_wrt_map)
  moreover have "set r = {i. map_of (fs_sessions s) (si_id i) = Some i}"
    unfolding keyed_infos [OF assms, symmetric] using r by (rule mset_eq_setD)
  then have "set (sort_key (\<lambda>i. - si_updated i) (filter (\<lambda>i. si_kind i = kind) r)) =
      {i. map_of (fs_sessions s) (si_id i) = Some i \<and> si_kind i = kind}"
    by (simp only: set_sort set_filter mem_Collect_eq)
  ultimately show ?thesis using d
    unfolding file_list_def r_def [symmetric] by (intro exI conjI) (rule refl, assumption+)
qed

interpretation file_sessions: session_store "file_store_good enc" "\<lambda>s. map_of (fs_sessions s)" "\<lambda>i. i"
  "file_save (sound_io enc dec ord)" file_get "file_list (sound_io enc dec ord)" "file_remove (sound_io enc dec ord)"
  for enc dec ord
proof
  fix s sid
  show "file_get sid s = Inr (map_of (fs_sessions s) sid)" by (simp add: file_get_def)
next
  fix s :: file_store and kind
  assume "file_store_good enc s"
  then have "keyed (fs_sessions s)" by (simp add: file_store_good_def)
  from file_list_ok [OF this, of enc dec ord kind]
  show "\<exists>l. file_list (sound_io enc dec ord) kind s = Inr l \<and> distinct (map si_id l) \<and>
      set l = {i. map_of (fs_sessions s) (si_id i) = Some i \<and> si_kind i = kind}" by blast
next
  fix s i e s'
  assume g: "file_store_good enc s" and f: "file_save (sound_io enc dec ord) i s = (e, s')"
  have "keyed (AList.update (si_id i) i (fs_sessions s))" using g keyed_update by (simp add: file_store_good_def)
  from flush_store_good [of "s\<lparr>fs_sessions := AList.update (si_id i) i (fs_sessions s)\<rparr>" enc dec ord] this f
  show "e = None \<and> file_store_good enc s' \<and> map_of (fs_sessions s') = (map_of (fs_sessions s))(si_id i \<mapsto> i)"
    by (auto simp: file_save_def flush_store_sound update_conv)
next
  fix s sid e s'
  assume g: "file_store_good enc s" and f: "file_remove (sound_io enc dec ord) sid s = (e, s')"
  have "keyed (AList.delete sid (fs_sessions s))" using g keyed_delete by (simp add: file_store_good_def)
  from flush_store_good [of "s\<lparr>fs_sessions := AList.delete sid (fs_sessions s)\<rparr>" enc dec ord] this f
  show "e = None \<and> file_store_good enc s' \<and> map_of (fs_sessions s') = (map_of (fs_sessions s))(sid := None)"
    by (auto simp: file_remove_def flush_store_sound delete_conv)
qed auto

text \<open>The SQLite store keeps of a time what survives its text.\<close>

definition sound_session_db ::
  "(int \<Rightarrow> string) \<Rightarrow> (string \<Rightarrow> go_err + int) \<Rightarrow> (session_row list \<Rightarrow> session_row list) \<Rightarrow> session_db" where
  "sound_session_db fmt prs ord = \<lparr>stmt_err = (\<lambda>_. None), time_format = fmt, time_parse = prs,
     tie_order = (\<lambda>l. if mset (ord l) = mset l then ord l else l)\<rparr>"

definition row_time :: "session_db \<Rightarrow> session_info \<Rightarrow> session_info" where
  "row_time env i = i\<lparr>si_created := parse_time env (time_format env (si_created i)),
     si_updated := parse_time env (time_format env (si_updated i))\<rparr>"

definition db_sessions :: "session_db \<Rightarrow> session_row list \<Rightarrow> string \<Rightarrow> session_info option" where
  "db_sessions env rows sid = map_option (scan_info env) (find (\<lambda>r. sr_id r = sid) rows)"

lemma scan_info_row: "scan_info env (info_row env i) = row_time env i"
  by (simp add: scan_info_def info_row_def row_time_def)

lemma find_filter_ne: "find (\<lambda>r. sr_id r = sid) (filter (\<lambda>r. sr_id r \<noteq> k) rows) = (if sid = k then None else find (\<lambda>r. sr_id r = sid) rows)"
  by (induction rows) auto

lemma find_append: "find P (xs @ ys) = (case find P xs of None \<Rightarrow> find P ys | Some x \<Rightarrow> Some x)"
  by (induction xs) auto

lemma find_distinct:
  "distinct (map sr_id rows) \<Longrightarrow> r \<in> set rows \<Longrightarrow> find (\<lambda>q. sr_id q = sr_id r) rows = Some r"
  by (induction rows) auto

lemma db_sessions_set:
  assumes "distinct (map sr_id rows)"
  shows "scan_info env ` {r \<in> set rows. sr_kind r = kind} = {i. db_sessions env rows (si_id i) = Some i \<and> si_kind i = kind}"
proof (intro equalityI subsetI)
  fix i assume "i \<in> scan_info env ` {r \<in> set rows. sr_kind r = kind}"
  then show "i \<in> {i. db_sessions env rows (si_id i) = Some i \<and> si_kind i = kind}"
    using find_distinct [OF assms] by (auto simp: db_sessions_def) (simp_all add: scan_info_def)
next
  fix i assume "i \<in> {i. db_sessions env rows (si_id i) = Some i \<and> si_kind i = kind}"
  then obtain r where r: "find (\<lambda>r. sr_id r = si_id i) rows = Some r" "scan_info env r = i" "si_kind i = kind"
    by (auto simp: db_sessions_def)
  then have "r \<in> set rows" "sr_kind r = kind" by (auto simp: find_Some_iff scan_info_def)
  with r(2) show "i \<in> scan_info env ` {r \<in> set rows. sr_kind r = kind}" by blast
qed

lemma db_list_ok:
  assumes "distinct (map sr_id rows)" and env: "env = sound_session_db fmt prs ord"
  shows "\<exists>l. db_list env kind rows = Inr l \<and> distinct (map si_id l) \<and> set l = {i. db_sessions env rows (si_id i) = Some i \<and> si_kind i = kind}"
proof -
  let ?f = "filter (\<lambda>r. sr_kind r = kind) rows"
  define l where "l = rev (sort_key sr_updated (tie_order env ?f))"
  have m: "mset l = mset ?f" by (simp add: l_def env sound_session_db_def)
  have "distinct (map sr_id ?f)" using assms(1) by (rule distinct_map_filter)
  then have "distinct (map sr_id l)" by (rule distinct_map_mset [OF m])
  then have "distinct (map si_id (map (scan_info env) l))" by (simp add: o_def scan_info_def)
  moreover have "set (map (scan_info env) l) = {i. db_sessions env rows (si_id i) = Some i \<and> si_kind i = kind}"
    unfolding db_sessions_set [OF assms(1), symmetric] using mset_eq_setD [OF m] by simp
  moreover have "db_list env kind rows = Inr (map (scan_info env) l)"
    by (simp add: db_list_def l_def) (simp add: env sound_session_db_def)
  ultimately show ?thesis by blast
qed

interpretation db_store: session_store "\<lambda>rows. distinct (map sr_id rows)" "db_sessions (sound_session_db fmt prs ord)"
  "row_time (sound_session_db fmt prs ord)" "db_save (sound_session_db fmt prs ord)" "db_get (sound_session_db fmt prs ord)"
  "db_list (sound_session_db fmt prs ord)" "db_remove (sound_session_db fmt prs ord)"
  for fmt prs ord
proof
  fix rows i e rows'
  assume d: "distinct (map sr_id rows)" and f: "db_save (sound_session_db fmt prs ord) i rows = (e, rows')"
  have rows': "e = None" "rows' = filter (\<lambda>r. sr_id r \<noteq> si_id i) rows @ [info_row (sound_session_db fmt prs ord) i]"
    using f by (auto simp: db_save_def sound_session_db_def)
  have "distinct (map sr_id rows')" using d by (auto simp: rows' info_row_def distinct_map_filter)
  moreover have "db_sessions (sound_session_db fmt prs ord) rows' =
      (db_sessions (sound_session_db fmt prs ord) rows)(si_id i \<mapsto> row_time (sound_session_db fmt prs ord) i)"
  proof
    fix sid
    show "db_sessions (sound_session_db fmt prs ord) rows' sid =
      ((db_sessions (sound_session_db fmt prs ord) rows)(si_id i \<mapsto> row_time (sound_session_db fmt prs ord) i)) sid"
      by (auto simp: db_sessions_def rows' find_append find_filter_ne scan_info_row [symmetric] split: option.splits)
        (simp_all add: info_row_def)
  qed
  ultimately show "e = None \<and> distinct (map sr_id rows') \<and> db_sessions (sound_session_db fmt prs ord) rows' =
      (db_sessions (sound_session_db fmt prs ord) rows)(si_id i \<mapsto> row_time (sound_session_db fmt prs ord) i)"
    using rows'(1) by blast
next
  fix rows sid e rows'
  assume "distinct (map sr_id rows)" "db_remove (sound_session_db fmt prs ord) sid rows = (e, rows')"
  then show "e = None \<and> distinct (map sr_id rows') \<and>
      db_sessions (sound_session_db fmt prs ord) rows' = (db_sessions (sound_session_db fmt prs ord) rows)(sid := None)"
    by (auto simp: db_remove_def sound_session_db_def db_sessions_def find_filter_ne distinct_map_filter fun_eq_iff)
next
  fix rows :: "session_row list" and kind
  assume d: "distinct (map sr_id rows)"
  show "\<exists>l. db_list (sound_session_db fmt prs ord) kind rows = Inr l \<and> distinct (map si_id l) \<and>
      set l = {i. db_sessions (sound_session_db fmt prs ord) rows (si_id i) = Some i \<and> si_kind i = kind}"
    by (rule db_list_ok [OF d refl])
qed (simp_all add: row_time_def db_get_def db_sessions_def sound_session_db_def)

section \<open>What the stores serve\<close>

definition fresh_file_store :: "string \<Rightarrow> file_store" where
  "fresh_file_store dir = \<lparr>fs_path = dir @ ''/sessions.json'', fs_sessions = [], fs_disk = []\<rparr>"

lemma open_fresh: "open_file_store (sound_io enc dec ord) dir [] = Inr (fresh_file_store dir)"
  by (simp add: open_file_store_def sound_io_def fresh_file_store_def Let_def)

lemma fresh_store_good: "file_store_good enc (fresh_file_store dir)"
  by (simp add: file_store_good_def fresh_file_store_def keyed_def)

text \<open>
  C37: after any saves and deletions, from an empty store on, and on a disk and a database that do
  not fail, both stores return for every id the metadata saved last, unless it was deleted since, and list exactly the metadata of a kind, each
  session once; the file store lists the newest first. The SQLite store keeps of the times what
  their text keeps.
\<close>

theorem session_stores_serve_saves:
  "(\<exists>s0. open_file_store (sound_io enc dec ord) dir [] = Inr s0 \<and>
     (let io = sound_io enc dec ord; s = store_work (file_save io) (file_remove io) ops s0; f = stored (\<lambda>i. i) ops (\<lambda>_. None) in
        file_get sid s = Inr (f sid) \<and>
        (\<exists>l. file_list io kind s = Inr l \<and> distinct (map si_id l) \<and> sorted_wrt (\<lambda>i j. si_updated j \<le> si_updated i) l \<and>
           set l = {i. f (si_id i) = Some i \<and> si_kind i = kind}))) \<and>
   (let env = sound_session_db fmt prs ord'; rows = store_work (db_save env) (db_remove env) ops []; f = stored (row_time env) ops (\<lambda>_. None) in
     db_get env sid rows = Inr (f sid) \<and>
     (\<exists>l. db_list env kind rows = Inr l \<and> distinct (map si_id l) \<and> set l = {i. f (si_id i) = Some i \<and> si_kind i = kind}))"
proof (rule conjI)
  let ?io = "sound_io enc dec ord"
  let ?s = "store_work (file_save ?io) (file_remove ?io) ops (fresh_file_store dir)"
  have e: "map_of (fs_sessions (fresh_file_store dir)) = (\<lambda>_. None)" by (simp add: fresh_file_store_def)
  have w: "file_store_good enc ?s" "map_of (fs_sessions ?s) = stored (\<lambda>i. i) ops (\<lambda>_. None)"
    using file_sessions.store_work_ok [OF fresh_store_good [of enc dir], of dec ord ops] unfolding e by auto
  have "keyed (fs_sessions ?s)" using w(1) by (simp add: file_store_good_def)
  from file_list_ok [OF this, of enc dec ord kind] w(2)
  show "\<exists>s0. open_file_store (sound_io enc dec ord) dir [] = Inr s0 \<and>
     (let io = sound_io enc dec ord; s = store_work (file_save io) (file_remove io) ops s0; f = stored (\<lambda>i. i) ops (\<lambda>_. None) in
        file_get sid s = Inr (f sid) \<and>
        (\<exists>l. file_list io kind s = Inr l \<and> distinct (map si_id l) \<and> sorted_wrt (\<lambda>i j. si_updated j \<le> si_updated i) l \<and>
           set l = {i. f (si_id i) = Some i \<and> si_kind i = kind}))"
    by (simp add: open_fresh file_get_def Let_def)
next
  have "db_sessions (sound_session_db fmt prs ord') [] = (\<lambda>_. None)" by (simp add: db_sessions_def fun_eq_iff)
  with db_store.work_fetch [of "[]" fmt prs ord' sid ops] db_store.work_listing [of "[]" fmt prs ord' kind ops]
  show "let env = sound_session_db fmt prs ord'; rows = store_work (db_save env) (db_remove env) ops []; f = stored (row_time env) ops (\<lambda>_. None) in
     db_get env sid rows = Inr (f sid) \<and>
     (\<exists>l. db_list env kind rows = Inr l \<and> distinct (map si_id l) \<and> set l = {i. f (si_id i) = Some i \<and> si_kind i = kind})"
    unfolding Let_def by simp
qed

text \<open>The sessions a store finds that is opened on the disk of another.\<close>

definition reopened :: "store_io \<Rightarrow> string \<Rightarrow> file_store \<Rightarrow> string \<Rightarrow> session_info option" where
  "reopened io dir s =
     (case open_file_store (io\<lparr>mkdir_err := None, read_fails := (\<lambda>_. False)\<rparr>) dir (fs_disk s) of
        Inl e \<Rightarrow> (\<lambda>_. None)
      | Inr t \<Rightarrow> map_of (fs_sessions t))"

lemma reopened_eq:
  "reopened io dir s =
     map_of (case map_of (fs_disk s) (dir @ ''/sessions.json'') of None \<Rightarrow> [] | Some data \<Rightarrow> dec_infos io data)"
  by (simp add: reopened_def open_file_store_def Let_def split: option.splits)

lemma flush_store_atomic:
  assumes "fs_path s = dir @ ''/sessions.json''" and "flush_store io s = (e, s')"
    and "\<And>d. enc_infos io (fs_sessions s) = Inr d \<Longrightarrow> map_of (dec_infos io d) = map_of (fs_sessions s)"
  shows "fs_sessions s' = fs_sessions s \<and> reopened io dir s' = (if e = None then map_of (fs_sessions s) else reopened io dir s)"
  using assms by (auto simp: flush_store_def reopened_eq Let_def update_conv split: sum.splits option.splits prod.splits)

text \<open>
  C33: Saving and deleting in the file store is all or nothing on the disk, whatever fails: after
  success a restarted store finds exactly the metadata in memory, after an error exactly what it
  would have found before, while the running store shows the change in both cases.
\<close>

theorem file_store_writes_atomically:
  assumes path: "fs_path s = dir @ ''/sessions.json''" and k: "keyed (fs_sessions s)"
    and codec: "\<And>m d. keyed m \<Longrightarrow> enc_infos io m = Inr d \<Longrightarrow> map_of (dec_infos io d) = map_of m"
  shows "(\<forall>i e s'. file_save io i s = (e, s') \<longrightarrow>
      map_of (fs_sessions s') = (map_of (fs_sessions s))(si_id i := Some i) \<and>
      reopened io dir s' = (if e = None then map_of (fs_sessions s') else reopened io dir s)) \<and>
    (\<forall>sid e s'. file_remove io sid s = (e, s') \<longrightarrow>
      map_of (fs_sessions s') = (map_of (fs_sessions s))(sid := None) \<and>
      reopened io dir s' = (if e = None then map_of (fs_sessions s') else reopened io dir s))"
proof (intro conjI allI impI)
  fix i e s'
  let ?t = "s\<lparr>fs_sessions := AList.update (si_id i) i (fs_sessions s)\<rparr>"
  assume f: "file_save io i s = (e, s')"
  have "fs_sessions s' = fs_sessions ?t \<and> reopened io dir s' = (if e = None then map_of (fs_sessions ?t) else reopened io dir ?t)"
    by (rule flush_store_atomic) (use f path codec keyed_update [OF k] in \<open>simp_all add: file_save_def\<close>)
  then show "map_of (fs_sessions s') = (map_of (fs_sessions s))(si_id i := Some i)"
    "reopened io dir s' = (if e = None then map_of (fs_sessions s') else reopened io dir s)"
    by (simp_all add: update_conv' reopened_eq)
next
  fix sid e s'
  let ?t = "s\<lparr>fs_sessions := AList.delete sid (fs_sessions s)\<rparr>"
  assume f: "file_remove io sid s = (e, s')"
  have "fs_sessions s' = fs_sessions ?t \<and> reopened io dir s' = (if e = None then map_of (fs_sessions ?t) else reopened io dir ?t)"
    by (rule flush_store_atomic) (use f path codec keyed_delete [OF k] in \<open>simp_all add: file_remove_def\<close>)
  then show "map_of (fs_sessions s') = (map_of (fs_sessions s))(sid := None)"
    "reopened io dir s' = (if e = None then map_of (fs_sessions s') else reopened io dir s)"
    by (simp_all add: delete_conv' reopened_eq)
qed

text \<open>
  A codec for the witness: numbers in unary, strings behind their length; a decoder returns the
  value and the rest of the text.
\<close>

definition put_nat :: "nat \<Rightarrow> string" where "put_nat n = replicate n CHR ''1'' @ ''0''"

fun take_nat :: "string \<Rightarrow> nat \<times> string" where
  "take_nat [] = (0, [])"
| "take_nat (c # s) = (if c = CHR ''1'' then case take_nat s of (n, r) \<Rightarrow> (Suc n, r) else (0, s))"

definition put_str :: "string \<Rightarrow> string" where "put_str s = put_nat (length s) @ s"
definition take_str :: "string \<Rightarrow> string \<times> string" where
  "take_str s = (case take_nat s of (n, r) \<Rightarrow> (take n r, drop n r))"

definition put_int :: "int \<Rightarrow> string" where
  "put_int i = put_nat (nat i) @ put_nat (nat (- i))"
definition take_int :: "string \<Rightarrow> int \<times> string" where
  "take_int s = (case take_nat s of (n, r) \<Rightarrow> case take_nat r of (m, q) \<Rightarrow> (int n - int m, q))"

definition put_info :: "session_info \<Rightarrow> string" where
  "put_info i = put_str (si_id i) @ put_str (si_title i) @ put_str (si_kind i) @ put_str (si_model i) @
     put_str (si_provider i) @ put_int (si_created i) @ put_int (si_updated i)"

definition take_info :: "string \<Rightarrow> session_info \<times> string" where
  "take_info s0 =
     (case take_str s0 of (a, s1) \<Rightarrow> case take_str s1 of (b, s2) \<Rightarrow> case take_str s2 of (c, s3) \<Rightarrow>
      case take_str s3 of (d, s4) \<Rightarrow> case take_str s4 of (e, s5) \<Rightarrow> case take_int s5 of (f, s6) \<Rightarrow>
      case take_int s6 of (g, s7) \<Rightarrow>
        (\<lparr>si_id = a, si_title = b, si_kind = c, si_model = d, si_provider = e, si_created = f, si_updated = g\<rparr>, s7))"

definition put_infos :: "session_info gomap \<Rightarrow> string" where
  "put_infos m = put_nat (length m) @ concat (map (put_info \<circ> snd) m)"

fun take_infos :: "nat \<Rightarrow> string \<Rightarrow> session_info gomap" where
  "take_infos 0 s = []"
| "take_infos (Suc n) s = (case take_info s of (i, r) \<Rightarrow> (si_id i, i) # take_infos n r)"

definition read_infos :: "string \<Rightarrow> session_info gomap" where
  "read_infos s = (case take_nat s of (n, r) \<Rightarrow> take_infos n r)"

lemma take_nat_put: "take_nat (put_nat n @ r) = (n, r)"
  by (induction n) (simp_all add: put_nat_def)

lemma take_str_put: "take_str (put_str s @ r) = (s, r)"
  by (simp add: take_str_def put_str_def take_nat_put)

lemma take_int_put: "take_int (put_int i @ r) = (i, r)"
  by (simp add: take_int_def put_int_def take_nat_put)

lemma take_info_put: "take_info (put_info i @ r) = (i, r)"
  by (simp add: take_info_def put_info_def take_str_put take_int_put)

lemma take_infos_put: "list_all (\<lambda>(k, i). si_id i = k) m \<Longrightarrow> take_infos (length m) (concat (map (put_info \<circ> snd) m)) = m"
  by (induction m) (auto simp: take_info_put)

lemma read_infos_put: "keyed m \<Longrightarrow> read_infos (put_infos m) = m"
  by (simp add: read_infos_def put_infos_def take_nat_put take_infos_put keyed_def)

definition full_disk :: store_io where
  "full_disk = (sound_io put_infos read_infos (\<lambda>l. l))\<lparr>tmp_err := (\<lambda>_. Some (0, ErrText ''no space left''))\<rparr>"

definition a_session :: session_info where
  "a_session = \<lparr>si_id = ''a'', si_title = ''t'', si_kind = ''single'', si_model = [], si_provider = [], si_created = 1, si_updated = 2\<rparr>"

theorem file_store_writes_atomically_witness:
  "let s = snd (file_save (sound_io put_infos read_infos (\<lambda>l. l)) a_session (fresh_file_store ''d''));
       t = snd (file_remove full_disk ''a'' s) in
   map_of (fs_sessions t) ''a'' = None \<and> reopened full_disk ''d'' t ''a'' = Some a_session"
proof -
  let ?ok = "sound_io put_infos read_infos (\<lambda>l. l)"
  obtain e s where s: "file_save ?ok a_session (fresh_file_store ''d'') = (e, s)" by force
  obtain e' t where t: "file_remove full_disk ''a'' s = (e', t)" by force
  have e: "e = None" "fs_path s = ''d'' @ ''/sessions.json''" "fs_sessions s = [(''a'', a_session)]"
    using s by (auto simp: file_save_def flush_store_sound fresh_file_store_def a_session_def)
  have ok: "enc_infos ?ok = (\<lambda>m. Inr (put_infos m))" "dec_infos ?ok = read_infos" by (simp_all add: sound_io_def)
  have full: "enc_infos full_disk = (\<lambda>m. Inr (put_infos m))" "dec_infos full_disk = read_infos"
    by (simp_all add: full_disk_def ok)
  have k: "keyed (fs_sessions s)" by (simp add: e keyed_def gm_ok_def a_session_def)
  have "e' \<noteq> None" using t by (auto simp: file_remove_def full_disk_def flush_store_def sound_io_def)
  moreover have "map_of (fs_sessions t) = (map_of (fs_sessions s))(''a'' := None) \<and>
      reopened full_disk ''d'' t = (if e' = None then map_of (fs_sessions t) else reopened full_disk ''d'' s)"
    by (rule file_store_writes_atomically [THEN conjunct2, rule_format, OF e(2) k _ t]) (auto simp: full read_infos_put)
  moreover have "reopened ?ok ''d'' s = (if e = None then map_of (fs_sessions s) else reopened ?ok ''d'' (fresh_file_store ''d''))"
    by (rule file_store_writes_atomically [THEN conjunct1, rule_format, THEN conjunct2, OF _ _ _ s])
      (auto simp: fresh_file_store_def ok read_infos_put keyed_Nil)
  moreover have "reopened full_disk ''d'' s = reopened ?ok ''d'' s" by (simp only: reopened_eq full ok)
  ultimately show ?thesis using e by (simp add: s t)
qed

end
