(* ===== verification/SessionManager.thy ===== *)
theory SessionManager
  imports SessionStore EventBus Messages
begin

text \<open>
  \<^verbatim>\<open>rest/session_manager.go\<close>: the registry of sessions each of the three REST handlers owns. An entry
  is a pointer in the code; here it is an index into a list of entries, so that a handler can hold
  an entry that has left the map. The type of the entries, what the handler does with them, the
  store and the memory are parameters (\<open>manager_env\<close>). A \<^verbatim>\<open>go\<close> statement that saves metadata puts it
  among the saves under way, and \<open>finish_save\<close> lets one of them happen. \<open>clk i\<close> is what the clock
  shows when a call reads it for the \<open>i\<close>th time.
\<close>

section \<open>State\<close>

record ('e, 's, 'm) manager_env =
  sh_kind :: string
  sh_new :: "session_info \<Rightarrow> 'e"
  sh_info :: "'e \<Rightarrow> session_info"
  sh_write :: "(session_info \<Rightarrow> session_info) \<Rightarrow> 'e \<Rightarrow> 'e"
  sh_active :: "'e \<Rightarrow> bool"
  sh_window :: "'e \<Rightarrow> int option"
  sh_on_delete :: "'e \<Rightarrow> 'm \<Rightarrow> 'm"
  st_save :: "session_info \<Rightarrow> 's \<Rightarrow> go_err option \<times> 's"
  st_get :: "string \<Rightarrow> 's \<Rightarrow> go_err + session_info option"
  st_list :: "string \<Rightarrow> 's \<Rightarrow> go_err + session_info list"
  st_delete :: "string \<Rightarrow> 's \<Rightarrow> go_err option \<times> 's"
  me_count :: "string \<Rightarrow> 'm \<Rightarrow> go_err + int"
  me_recent :: "string \<Rightarrow> int \<Rightarrow> int \<Rightarrow> 'm \<Rightarrow> go_err + message list"
  me_delete :: "string \<Rightarrow> 'm \<Rightarrow> go_err option \<times> 'm"

record ('e, 's, 'm, 'x) manager =
  sm_store :: "'s option"
  sm_memory :: "'m option"
  sm_bus :: "'x bus"
  sm_heap :: "'e list"
  sm_entries :: "nat gomap"
  sm_access :: "int gomap"
  sm_saving :: "session_info list"

definition new_manager :: "'s option \<Rightarrow> 'm option \<Rightarrow> 'x bus \<Rightarrow> ('e, 's, 'm, 'x) manager" where
  "new_manager st mem b = \<lparr>sm_store = st, sm_memory = mem, sm_bus = b, sm_heap = [], sm_entries = [],
     sm_access = [], sm_saving = []\<rparr>"

text \<open>\<^verbatim>\<open>SessionDetail\<close>, and what an HTTP handler answers: a status and a body.\<close>

record session_detail =
  sd_info :: session_info
  sd_window :: int
  sd_count :: int

datatype reply_body =
    BodyInfo session_info
  | BodyInfos "session_info list"
  | BodyDetail session_detail
  | BodyMessages "message list"
  | BodyError string
  | BodyStatus string
  | NoBody

datatype reply = Reply int reply_body

section \<open>Access to an entry\<close>

definition exists_session :: "string \<Rightarrow> ('e, 's, 'm, 'x) manager \<Rightarrow> bool" where
  "exists_session sid r = (map_of (sm_entries r) sid \<noteq> None)"

definition touch :: "int \<Rightarrow> string \<Rightarrow> ('e, 's, 'm, 'x) manager \<Rightarrow> ('e, 's, 'm, 'x) manager" where
  "touch now sid r = r\<lparr>sm_access := AList.update sid now (sm_access r)\<rparr>"

definition write_info ::
  "('e, 's, 'm) manager_env \<Rightarrow> nat \<Rightarrow> (session_info \<Rightarrow> session_info) \<Rightarrow> ('e, 's, 'm, 'x) manager \<Rightarrow> ('e, 's, 'm, 'x) manager" where
  "write_info env k f r = r\<lparr>sm_heap := (sm_heap r)[k := sh_write env f (sm_heap r ! k)]\<rparr>"

definition with_meta ::
  "('e, 's, 'm) manager_env \<Rightarrow> int \<Rightarrow> string \<Rightarrow> (session_info \<Rightarrow> session_info) \<Rightarrow> ('e, 's, 'm, 'x) manager
     \<Rightarrow> session_info option \<times> ('e, 's, 'm, 'x) manager" where
  "with_meta env now sid f r =
     (case map_of (sm_entries r) sid of
        None \<Rightarrow> (None, r)
      | Some k \<Rightarrow>
          let r1 = write_info env k f r
          in (Some (sh_info env (sm_heap r1 ! k)), touch now sid r1))"

text \<open>\<^verbatim>\<open>syncMeta\<close> starts a save; a save under way is finished at any later time, its error is logged.\<close>

definition sync_meta :: "session_info \<Rightarrow> ('e, 's, 'm, 'x) manager \<Rightarrow> ('e, 's, 'm, 'x) manager" where
  "sync_meta sinf r = (case sm_store r of None \<Rightarrow> r | Some st \<Rightarrow> r\<lparr>sm_saving := sm_saving r @ [sinf]\<rparr>)"

definition finish_save ::
  "('e, 's, 'm) manager_env \<Rightarrow> nat \<Rightarrow> ('e, 's, 'm, 'x) manager \<Rightarrow> ('e, 's, 'm, 'x) manager" where
  "finish_save env i r =
     (if i < length (sm_saving r) then
        let r1 = r\<lparr>sm_saving := take i (sm_saving r) @ drop (Suc i) (sm_saving r)\<rparr>
        in case sm_store r of
             None \<Rightarrow> r1
           | Some st \<Rightarrow> r1\<lparr>sm_store := Some (snd (st_save env (sm_saving r ! i) st))\<rparr>
      else r)"

text \<open>A new entry, in the map under its id.\<close>

definition add_entry ::
  "('e, 's, 'm) manager_env \<Rightarrow> string \<Rightarrow> session_info \<Rightarrow> ('e, 's, 'm, 'x) manager \<Rightarrow> ('e, 's, 'm, 'x) manager" where
  "add_entry env sid info r =
     r\<lparr>sm_heap := sm_heap r @ [sh_new env info], sm_entries := AList.update sid (length (sm_heap r)) (sm_entries r)\<rparr>"

section \<open>The critical sections of \<^verbatim>\<open>getOrCreate\<close>\<close>

definition lookup_entry :: "int \<Rightarrow> string \<Rightarrow> ('e, 's, 'm, 'x) manager \<Rightarrow> nat option \<times> ('e, 's, 'm, 'x) manager" where
  "lookup_entry now sid r =
     (case map_of (sm_entries r) sid of
        Some k \<Rightarrow> (Some k, touch now sid r)
      | None \<Rightarrow> (None, r))"

definition fetch_stored :: "('e, 's, 'm) manager_env \<Rightarrow> string \<Rightarrow> ('e, 's, 'm, 'x) manager \<Rightarrow> session_info option" where
  "fetch_stored env sid r =
     (case sm_store r of
        None \<Rightarrow> None
      | Some st \<Rightarrow> (case st_get env sid st of Inl e \<Rightarrow> None | Inr found \<Rightarrow> found))"

definition blank_info :: "('e, 's, 'm) manager_env \<Rightarrow> string \<Rightarrow> int \<Rightarrow> int \<Rightarrow> session_info" where
  "blank_info env sid t u = \<lparr>si_id = sid, si_title = [], si_kind = sh_kind env, si_model = [],
     si_provider = [], si_created = t, si_updated = u\<rparr>"

definition insert_entry ::
  "('e, 's, 'm) manager_env \<Rightarrow> (nat \<Rightarrow> int) \<Rightarrow> string \<Rightarrow> session_info option \<Rightarrow> ('e, 's, 'm, 'x) manager
     \<Rightarrow> nat \<times> ('e, 's, 'm, 'x) manager" where
  "insert_entry env clk sid found r =
     (let info = (case found of Some i \<Rightarrow> i | None \<Rightarrow> blank_info env sid (clk 0) (clk 1)) in
      case map_of (sm_entries r) sid of
        Some k \<Rightarrow> (k, r)
      | None \<Rightarrow>
          let r1 = touch (clk 2) sid (add_entry env sid info r)
          in (length (sm_heap r), if found = None \<and> sm_store r \<noteq> None then sync_meta info r1 else r1))"

definition get_or_create ::
  "('e, 's, 'm) manager_env \<Rightarrow> (nat \<Rightarrow> int) \<Rightarrow> string \<Rightarrow> ('e, 's, 'm, 'x) manager \<Rightarrow> nat \<times> ('e, 's, 'm, 'x) manager" where
  "get_or_create env clk sid r =
     (case lookup_entry (clk 0) sid r of
        (Some k, r1) \<Rightarrow> (k, r1)
      | (None, r1) \<Rightarrow> insert_entry env clk sid (fetch_stored env sid r1) r1)"

section \<open>The HTTP handlers\<close>

record create_request =
  cr_title :: string
  cr_model :: string
  cr_provider :: string

text \<open>\<open>sid\<close> is the result of \<^verbatim>\<open>generateID\<close>: the hexadecimal form of 16 random bytes.\<close>

definition create_session ::
  "('e, 's, 'm) manager_env \<Rightarrow> int \<Rightarrow> string \<Rightarrow> create_request \<Rightarrow> ('e, 's, 'm, 'x) manager \<Rightarrow> reply \<times> ('e, 's, 'm, 'x) manager" where
  "create_session env now sid req r =
     (let info = \<lparr>si_id = sid, si_title = cr_title req, si_kind = sh_kind env, si_model = cr_model req,
                   si_provider = cr_provider req, si_created = now, si_updated = now\<rparr>
      in (Reply 201 (BodyInfo info), sync_meta info (add_entry env sid info r)))"

definition list_sessions :: "('e, 's, 'm) manager_env \<Rightarrow> ('e, 's, 'm, 'x) manager \<Rightarrow> reply" where
  "list_sessions env r =
     (case sm_store r of
        Some st \<Rightarrow>
          (case st_list env (sh_kind env) st of
             Inl e \<Rightarrow> Reply 500 (BodyError ''failed to list sessions'')
           | Inr l \<Rightarrow> Reply 200 (BodyInfos l))
      | None \<Rightarrow> Reply 200 (BodyInfos (map (\<lambda>(sid, k). sh_info env (sm_heap r ! k)) (sm_entries r))))"

text \<open>The count of the memory is shown when it is positive; its error is dropped.\<close>

definition count_shown :: "('e, 's, 'm) manager_env \<Rightarrow> string \<Rightarrow> ('e, 's, 'm, 'x) manager \<Rightarrow> int" where
  "count_shown env sid r =
     (case sm_memory r of
        None \<Rightarrow> 0
      | Some m \<Rightarrow> (case me_count env sid m of Inl e \<Rightarrow> 0 | Inr n \<Rightarrow> if 0 < n then n else 0))"

definition get_session :: "('e, 's, 'm) manager_env \<Rightarrow> string \<Rightarrow> ('e, 's, 'm, 'x) manager \<Rightarrow> reply" where
  "get_session env sid r =
     (case map_of (sm_entries r) sid of
        Some k \<Rightarrow>
          Reply 200 (BodyDetail \<lparr>sd_info = sh_info env (sm_heap r ! k),
            sd_window = (case sh_window env (sm_heap r ! k) of Some n \<Rightarrow> n | None \<Rightarrow> 0), sd_count = count_shown env sid r\<rparr>)
      | None \<Rightarrow>
          (case sm_store r of
             None \<Rightarrow> Reply 404 (BodyError ''session not found'')
           | Some st \<Rightarrow>
               (case st_get env sid st of
                  Inl e \<Rightarrow> Reply 500 (BodyError ''failed to get session'')
                | Inr None \<Rightarrow> Reply 404 (BodyError ''session not found'')
                | Inr (Some i) \<Rightarrow> Reply 200 (BodyDetail \<lparr>sd_info = i, sd_window = 0, sd_count = count_shown env sid r\<rparr>))))"

definition set_title :: "int \<Rightarrow> string \<Rightarrow> session_info \<Rightarrow> session_info" where
  "set_title now title i =
     (let j = i\<lparr>si_title := title\<rparr> in if title \<noteq> [] then j\<lparr>si_updated := now\<rparr> else j)"

text \<open>A session that is only in the store comes back into the map first.\<close>

definition restore_stored ::
  "('e, 's, 'm) manager_env \<Rightarrow> (nat \<Rightarrow> int) \<Rightarrow> string \<Rightarrow> ('e, 's, 'm, 'x) manager \<Rightarrow> ('e, 's, 'm, 'x) manager" where
  "restore_stored env clk sid r = (if fetch_stored env sid r \<noteq> None then snd (get_or_create env clk sid r) else r)"

definition write_title ::
  "('e, 's, 'm) manager_env \<Rightarrow> (nat \<Rightarrow> int) \<Rightarrow> string \<Rightarrow> string \<Rightarrow> ('e, 's, 'm, 'x) manager \<Rightarrow> reply \<times> ('e, 's, 'm, 'x) manager" where
  "write_title env clk sid title r =
     (case with_meta env (clk 4) sid (set_title (clk 3) title) r of
        (None, r1) \<Rightarrow> (Reply 404 (BodyError ''session not found''), r1)
      | (Some sinf, r1) \<Rightarrow> (Reply 200 (BodyInfo sinf), sync_meta sinf r1))"

text \<open>\<open>body\<close> is the title of the request, \<open>None\<close> when the body does not decode.\<close>

definition update_session ::
  "('e, 's, 'm) manager_env \<Rightarrow> (nat \<Rightarrow> int) \<Rightarrow> string \<Rightarrow> string option \<Rightarrow> ('e, 's, 'm, 'x) manager \<Rightarrow> reply \<times> ('e, 's, 'm, 'x) manager" where
  "update_session env clk sid body r =
     (case body of
        None \<Rightarrow> (Reply 400 (BodyError ''invalid body''), r)
      | Some title \<Rightarrow> write_title env clk sid title (restore_stored env clk sid r))"

text \<open>The parameters \<^verbatim>\<open>limit\<close> and \<^verbatim>\<open>before\<close> as they parse, clamped by \<^verbatim>\<open>parseIntParam\<close>.\<close>

definition clamp_param :: "int \<Rightarrow> int \<Rightarrow> int option \<Rightarrow> int option" where
  "clamp_param lo hi v = map_option (\<lambda>n. let m = (if n < lo then lo else n) in if hi < m then hi else m) v"

definition param_or :: "int \<Rightarrow> int option \<Rightarrow> int" where
  "param_or d v = (case v of Some n \<Rightarrow> n | None \<Rightarrow> d)"

definition list_messages ::
  "('e, 's, 'm) manager_env \<Rightarrow> string \<Rightarrow> int option \<Rightarrow> int option \<Rightarrow> ('e, 's, 'm, 'x) manager \<Rightarrow> reply" where
  "list_messages env sid limit before r =
     (case sm_memory r of
        None \<Rightarrow> Reply 200 (BodyMessages [])
      | Some m \<Rightarrow>
          (case me_recent env sid (param_or 50 (clamp_param 1 200 limit)) (param_or 0 (clamp_param 0 100000 before)) m of
             Inl e \<Rightarrow> Reply 500 (BodyError ''failed to fetch messages'')
           | Inr msgs \<Rightarrow> Reply 200 (BodyMessages msgs)))"

definition forget_entry :: "('e, 's, 'm) manager_env \<Rightarrow> string \<Rightarrow> ('e, 's, 'm, 'x) manager \<Rightarrow> ('e, 's, 'm, 'x) manager" where
  "forget_entry env sid r =
     (let mem = (case map_of (sm_entries r) sid of
                   None \<Rightarrow> sm_memory r
                 | Some k \<Rightarrow> map_option (sh_on_delete env (sm_heap r ! k)) (sm_memory r))
      in r\<lparr>sm_memory := mem, sm_entries := AList.delete sid (sm_entries r), sm_access := AList.delete sid (sm_access r)\<rparr>)"

definition delete_session :: "('e, 's, 'm) manager_env \<Rightarrow> string \<Rightarrow> ('e, 's, 'm, 'x) manager \<Rightarrow> reply \<times> ('e, 's, 'm, 'x) manager" where
  "delete_session env sid r =
     (let r1 = r\<lparr>sm_store := map_option (\<lambda>st. snd (st_delete env sid st)) (sm_store r)\<rparr>;
          r2 = r1\<lparr>sm_memory := map_option (\<lambda>m. snd (me_delete env sid m)) (sm_memory r1)\<rparr>;
          r3 = forget_entry env sid r2
      in (Reply 204 NoBody, r3\<lparr>sm_bus := remove_topic sid (sm_bus r3)\<rparr>))"

section \<open>Idle eviction\<close>

definition evict_one ::
  "('e, 's, 'm) manager_env \<Rightarrow> int \<Rightarrow> int \<Rightarrow> string \<times> nat \<Rightarrow> ('e, 's, 'm, 'x) manager \<Rightarrow> ('e, 's, 'm, 'x) manager" where
  "evict_one env now maxIdle p r =
     (case p of (sid, k) \<Rightarrow>
        case map_of (sm_access r) sid of
          None \<Rightarrow> r
        | Some seen \<Rightarrow>
            if now - seen < maxIdle then r
            else if sh_active env (sm_heap r ! k) then r
            else
              let r1 = sync_meta ((sh_info env (sm_heap r ! k))\<lparr>si_updated := now\<rparr>) r
              in r1\<lparr>sm_entries := AList.delete sid (sm_entries r1), sm_access := AList.delete sid (sm_access r1)\<rparr>)"

definition evict_idle ::
  "('e, 's, 'm) manager_env \<Rightarrow> int \<Rightarrow> int \<Rightarrow> ('e, 's, 'm, 'x) manager \<Rightarrow> ('e, 's, 'm, 'x) manager" where
  "evict_idle env now maxIdle r = fold (evict_one env now maxIdle) (sm_entries r) r"

section \<open>What holds of every registry\<close>

text \<open>The calls of the registry that change it, one after the other.\<close>

datatype manager_call =
    CallCreate int string create_request
  | CallUse "nat \<Rightarrow> int" string
  | CallMeta int string "session_info \<Rightarrow> session_info"
  | CallUpdate "nat \<Rightarrow> int" string "string option"
  | CallSync session_info
  | CallSaved nat
  | CallDelete string
  | CallEvict int int

fun do_manager_call ::
  "('e, 's, 'm) manager_env \<Rightarrow> manager_call \<Rightarrow> ('e, 's, 'm, 'x) manager \<Rightarrow> ('e, 's, 'm, 'x) manager" where
  "do_manager_call env (CallCreate now sid req) r = snd (create_session env now sid req r)"
| "do_manager_call env (CallUse clk sid) r = snd (get_or_create env clk sid r)"
| "do_manager_call env (CallMeta now sid f) r = snd (with_meta env now sid f r)"
| "do_manager_call env (CallUpdate clk sid body) r = snd (update_session env clk sid body r)"
| "do_manager_call env (CallSync sinf) r = sync_meta sinf r"
| "do_manager_call env (CallSaved i) r = finish_save env i r"
| "do_manager_call env (CallDelete sid) r = snd (delete_session env sid r)"
| "do_manager_call env (CallEvict now maxIdle) r = evict_idle env now maxIdle r"

text \<open>A handler changes what it may of the metadata: never the id.\<close>

fun fair_call :: "manager_call \<Rightarrow> bool" where
  "fair_call (CallMeta now sid f) = (\<forall>i. si_id (f i) = si_id i)"
| "fair_call _ = True"

definition map_ok :: "('e \<Rightarrow> session_info) \<Rightarrow> 'e list \<Rightarrow> nat gomap \<Rightarrow> bool" where
  "map_ok sinf h m = (gm_ok m \<and> distinct (map snd m) \<and> list_all (\<lambda>(sid, k). k < length h \<and> si_id (sinf (h ! k)) = sid) m)"

definition entries_ok :: "('e, 's, 'm) manager_env \<Rightarrow> ('e, 's, 'm, 'x) manager \<Rightarrow> bool" where
  "entries_ok env r = (map_ok (sh_info env) (sm_heap r) (sm_entries r) \<and> fst ` set (sm_access r) \<subseteq> fst ` set (sm_entries r))"

lemma map_ok_lookup: "map_ok sinf h m \<Longrightarrow> map_of m sid = Some k \<Longrightarrow> k < length h \<and> si_id (sinf (h ! k)) = sid"
  by (auto simp: map_ok_def list_all_iff dest: map_of_SomeD)

lemma map_ok_add:
  assumes "map_ok sinf h m" "si_id (sinf e) = sid"
  shows "map_ok sinf (h @ [e]) (AList.update sid (length h) m)"
proof -
  have "list_all (\<lambda>(sid, k). k < length (h @ [e]) \<and> si_id (sinf ((h @ [e]) ! k)) = sid) m"
    using assms(1) by (auto simp: map_ok_def list_all_iff nth_append)
  then have "list_all (\<lambda>(sid, k). k < length (h @ [e]) \<and> si_id (sinf ((h @ [e]) ! k)) = sid) (AList.update sid (length h) m)"
    by (induction m) (auto simp: assms(2))
  moreover have "distinct (map snd m)" "length h \<notin> set (map snd m)" using assms(1) by (auto simp: map_ok_def list_all_iff)
  then have "distinct (map snd (AList.update sid (length h) m)) \<and> set (map snd (AList.update sid (length h) m)) \<subseteq> insert (length h) (set (map snd m))"
    by (induction m) auto
  ultimately show ?thesis using assms(1) by (simp add: map_ok_def gm_ok_update)
qed

lemma map_ok_write:
  assumes m: "map_ok sinf h m" and e: "k < length h \<Longrightarrow> si_id (sinf e) = si_id (sinf (h ! k))"
  shows "map_ok sinf (h[k := e]) m"
proof -
  have "si_id (sinf (h[k := e] ! j)) = si_id (sinf (h ! j))" if "j < length h" for j
    using that e by (cases "j = k") simp_all
  then show ?thesis using m by (auto simp: map_ok_def list_all_iff)
qed

lemma map_ok_delete: "map_ok sinf h m \<Longrightarrow> map_ok sinf h (AList.delete sid m)"
  by (simp add: map_ok_def gm_ok_delete) (auto simp: AList.delete_eq list_all_iff intro: distinct_map_filter)

lemma map_ok_inj: "map_ok sinf h m \<Longrightarrow> map_of m a = Some k \<Longrightarrow> map_of m b = Some k \<Longrightarrow> a = b"
  by (metis map_ok_lookup)

lemma keys_update: "fst ` set (AList.update k v m) = insert k (fst ` set m)"
  using dom_update [of k v m] by (simp add: dom_map_of_conv_image_fst)

lemma keys_delete: "fst ` set (AList.delete k m) = fst ` set m - {k}"
  by (auto simp: AList.delete_eq image_iff)

lemma lookup_key: "map_of m k = Some v \<Longrightarrow> k \<in> fst ` set m"
  by (metis map_of_eq_None_iff option.distinct(1))

locale session_entries =
  fixes env :: "('e, 's, 'm) manager_env"
  assumes info_new: "sh_info env (sh_new env i) = i"
    and info_write: "sh_info env (sh_write env f e) = f (sh_info env e)"
begin

lemma entries_touch: "entries_ok env r \<Longrightarrow> sid \<in> fst ` set (sm_entries r) \<Longrightarrow> entries_ok env (touch now sid r)"
  by (simp add: entries_ok_def touch_def keys_update)

lemma entries_sync: "entries_ok env (sync_meta i r) = entries_ok env r"
  by (simp add: entries_ok_def sync_meta_def split: option.splits)

lemma entries_saved: "entries_ok env (finish_save env i r) = entries_ok env r"
  by (simp add: entries_ok_def finish_save_def Let_def split: option.splits)

lemma entries_add: "entries_ok env r \<Longrightarrow> si_id i = sid \<Longrightarrow> entries_ok env (add_entry env sid i r)"
  by (auto simp: entries_ok_def add_entry_def keys_update intro!: map_ok_add simp: info_new)

lemma entries_meta:
  assumes "entries_ok env r" "\<And>i. si_id (f i) = si_id i"
  shows "entries_ok env (snd (with_meta env now sid f r))"
proof (cases "map_of (sm_entries r) sid")
  case (Some k)
  have "entries_ok env (write_info env k f r)"
    using assms by (simp add: entries_ok_def write_info_def map_ok_write info_write)
  then show ?thesis
    using Some lookup_key [OF Some] by (simp add: with_meta_def Let_def entries_touch write_info_def)
qed (use assms in \<open>simp add: with_meta_def\<close>)

lemma entries_delete: "entries_ok env r \<Longrightarrow> entries_ok env (snd (delete_session env sid r))"
  by (auto simp: delete_session_def forget_entry_def Let_def entries_ok_def map_ok_delete keys_delete)

lemma entries_evict_one: "entries_ok env r \<Longrightarrow> entries_ok env (evict_one env now maxIdle p r)"
  using entries_sync [of "(sh_info env (sm_heap r ! snd p))\<lparr>si_updated := now\<rparr>" r]
  by (cases p) (auto simp: evict_one_def Let_def entries_ok_def map_ok_delete keys_delete split: option.splits)

lemma entries_evict: "entries_ok env r \<Longrightarrow> entries_ok env (evict_idle env now maxIdle r)"
proof -
  have "entries_ok env r \<Longrightarrow> entries_ok env (fold (evict_one env now maxIdle) ps r)" for ps
    by (induction ps arbitrary: r) (simp_all add: entries_evict_one)
  then show "entries_ok env r \<Longrightarrow> entries_ok env (evict_idle env now maxIdle r)" by (simp add: evict_idle_def)
qed

lemma entries_insert:
  assumes "entries_ok env r" "\<And>i. found = Some i \<Longrightarrow> si_id i = sid"
  shows "entries_ok env (snd (insert_entry env clk sid found r))"
proof -
  let ?i = "case found of Some i \<Rightarrow> i | None \<Rightarrow> blank_info env sid (clk 0) (clk 1)"
  have "si_id ?i = sid" using assms(2) by (cases found) (simp_all add: blank_info_def)
  from entries_touch [OF entries_add [OF assms(1) this], of sid "clk 2"]
  have "entries_ok env (touch (clk 2) sid (add_entry env sid ?i r))" by (simp add: add_entry_def keys_update)
  then show ?thesis using assms(1)
    by (auto simp: insert_entry_def Let_def entries_sync split: option.splits)
qed

lemma entries_use:
  assumes "entries_ok env r" "\<And>i. fetch_stored env sid r = Some i \<Longrightarrow> si_id i = sid"
  shows "entries_ok env (snd (get_or_create env clk sid r))"
proof (cases "map_of (sm_entries r) sid")
  case None
  then show ?thesis using entries_insert [OF assms] by (simp add: get_or_create_def lookup_entry_def)
next
  case (Some k)
  then show ?thesis using entries_touch [OF assms(1) lookup_key [OF Some]] by (simp add: get_or_create_def lookup_entry_def)
qed

end

definition manager_ok ::
  "('s \<Rightarrow> bool) \<Rightarrow> ('s \<Rightarrow> string \<Rightarrow> session_info option) \<Rightarrow> ('e, 's, 'm) manager_env \<Rightarrow> ('e, 's, 'm, 'x) manager \<Rightarrow> bool" where
  "manager_ok good sessions env r = (entries_ok env r \<and>
     (case sm_store r of None \<Rightarrow> True | Some st \<Rightarrow> good st \<and> (\<forall>sid i. sessions st sid = Some i \<longrightarrow> si_id i = sid)))"

text \<open>A registry over a store that honours the contract.\<close>

locale session_registry = session_entries env + store: session_store good sessions keep "st_save env" "st_get env" "st_list env" "st_delete env"
  for env :: "('e, 's, 'm) manager_env" and good sessions keep
begin

lemma manager_entries: "manager_ok good sessions env r \<Longrightarrow> entries_ok env r"
  by (simp add: manager_ok_def)

lemma fetch_stored_eq:
  "manager_ok good sessions env r \<Longrightarrow> fetch_stored env sid r = (case sm_store r of None \<Rightarrow> None | Some st \<Rightarrow> sessions st sid)"
  by (auto simp: manager_ok_def fetch_stored_def store.fetch_ok split: option.splits)

lemma fetched_id: "manager_ok good sessions env r \<Longrightarrow> fetch_stored env sid r = Some i \<Longrightarrow> si_id i = sid"
  by (auto simp: fetch_stored_eq manager_ok_def split: option.splits)

text \<open>Only finished saves and deletions change the store.\<close>

lemma store_sync [simp]: "sm_store (sync_meta i r) = sm_store r"
  by (simp add: sync_meta_def split: option.splits)

lemma store_insert [simp]: "sm_store (snd (insert_entry env clk sid found r)) = sm_store r"
  by (simp add: insert_entry_def Let_def touch_def add_entry_def split: option.splits)

lemma store_use [simp]: "sm_store (snd (get_or_create env clk sid r)) = sm_store r"
  by (simp add: get_or_create_def lookup_entry_def touch_def split: option.splits)

lemma store_meta [simp]: "sm_store (snd (with_meta env now sid f r)) = sm_store r"
  by (simp add: with_meta_def Let_def touch_def write_info_def split: option.splits)

lemma store_evict [simp]: "sm_store (evict_idle env now maxIdle r) = sm_store r"
proof -
  have one: "sm_store (evict_one env now maxIdle p r) = sm_store r" for p and r :: "('e, 's, 'm, 'x) manager"
    by (cases p) (simp add: evict_one_def Let_def split: option.splits)
  have "sm_store (fold (evict_one env now maxIdle) ps r) = sm_store r" for ps
    by (induction ps arbitrary: r) (simp_all add: one)
  then show ?thesis by (simp add: evict_idle_def)
qed

lemma manager_same_store: "manager_ok good sessions env r \<Longrightarrow> entries_ok env r' \<Longrightarrow> sm_store r' = sm_store r \<Longrightarrow> manager_ok good sessions env r'"
  by (simp add: manager_ok_def)

lemma manager_use: "manager_ok good sessions env r \<Longrightarrow> manager_ok good sessions env (snd (get_or_create env clk sid r))"
  by (rule manager_same_store) (auto intro: entries_use manager_entries fetched_id)

lemma manager_saved:
  assumes "manager_ok good sessions env r"
  shows "manager_ok good sessions env (finish_save env i r)"
proof (cases "sm_store r")
  case None
  then show ?thesis using assms by (simp add: manager_ok_def entries_saved) (simp add: finish_save_def Let_def)
next
  case (Some st)
  obtain e st' where s: "st_save env (sm_saving r ! i) st = (e, st')" by force
  have g: "good st" "\<forall>sid i. sessions st sid = Some i \<longrightarrow> si_id i = sid" using assms Some by (simp_all add: manager_ok_def)
  have "good st' \<and> (\<forall>sid i. sessions st' sid = Some i \<longrightarrow> si_id i = sid)"
    using store.save_ok [OF g(1) s] g(2) store.keep_id by auto
  then show ?thesis using assms Some s
    by (simp add: manager_ok_def entries_saved) (simp add: finish_save_def Let_def)
qed

lemma manager_delete:
  assumes "manager_ok good sessions env r"
  shows "manager_ok good sessions env (snd (delete_session env sid r))"
proof (cases "sm_store r")
  case None
  then show ?thesis using assms entries_delete [of r sid]
    by (simp add: manager_ok_def) (simp add: delete_session_def forget_entry_def Let_def)
next
  case (Some st)
  obtain e st' where s: "st_delete env sid st = (e, st')" by force
  have g: "good st" "\<forall>sid i. sessions st sid = Some i \<longrightarrow> si_id i = sid" using assms Some by (simp_all add: manager_ok_def)
  have "sm_store (snd (delete_session env sid r)) = Some st'" by (simp add: delete_session_def forget_entry_def Let_def Some s)
  then show ?thesis using assms entries_delete [of r sid] store.rm_ok [OF g(1) s] g(2) by (simp add: manager_ok_def)
qed

lemma manager_title:
  assumes ok: "manager_ok good sessions env r"
  shows "manager_ok good sessions env (snd (write_title env clk sid title r))"
proof -
  obtain out r1 where w: "with_meta env (clk 4) sid (set_title (clk 3) title) r = (out, r1)" by force
  have "entries_ok env (snd (with_meta env (clk 4) sid (set_title (clk 3) title) r))"
    by (rule entries_meta [OF manager_entries [OF ok]]) (simp add: set_title_def Let_def)
  from manager_same_store [OF ok this store_meta] have "manager_ok good sessions env r1" by (simp add: w)
  then show ?thesis by (cases out) (simp_all add: write_title_def w manager_ok_def entries_sync)
qed

lemma manager_call:
  assumes ok: "manager_ok good sessions env r" and f: "fair_call c"
  shows "manager_ok good sessions env (do_manager_call env c r)"
proof (cases c)
  case (CallCreate now sid req)
  have "entries_ok env (snd (create_session env now sid req r))"
    by (simp add: create_session_def Let_def entries_sync entries_add manager_entries [OF ok])
  moreover have "sm_store (snd (create_session env now sid req r)) = sm_store r"
    by (simp add: create_session_def Let_def) (simp add: add_entry_def)
  ultimately show ?thesis using manager_same_store [OF ok] by (simp add: CallCreate)
next
  case (CallMeta now sid f)
  with f have "entries_ok env (snd (with_meta env now sid f r))" by (auto intro: entries_meta manager_entries [OF ok])
  from manager_same_store [OF ok this] CallMeta show ?thesis by simp
next
  case (CallUpdate clk sid body)
  show ?thesis
    by (cases body) (simp_all add: CallUpdate update_session_def restore_stored_def manager_use manager_title ok)
next
  case (CallEvict now mx)
  with manager_same_store [OF ok entries_evict [OF manager_entries [OF ok]] store_evict] show ?thesis by simp
next
  case (CallSync i)
  then show ?thesis using manager_same_store [OF ok, of "sync_meta i r"] by (simp add: entries_sync manager_entries [OF ok])
qed (simp_all add: manager_use manager_saved manager_delete ok)

lemma manager_calls: "manager_ok good sessions env r \<Longrightarrow> list_all fair_call cs \<Longrightarrow> manager_ok good sessions env (fold (do_manager_call env) cs r)"
  by (induction cs arbitrary: r) (simp_all add: manager_call)

lemma deleted_not_found:
  assumes ok: "manager_ok good sessions env r"
  shows "get_session env sid (snd (delete_session env sid r)) = Reply 404 (BodyError ''session not found'')"
proof -
  have e: "map_of (sm_entries (snd (delete_session env sid r))) sid = None"
    by (simp add: delete_session_def forget_entry_def Let_def delete_conv)
  show ?thesis
  proof (cases "sm_store r")
    case None
    then show ?thesis using e by (simp add: get_session_def) (simp add: delete_session_def forget_entry_def Let_def)
  next
    case (Some st)
    obtain err st' where d: "st_delete env sid st = (err, st')" by force
    have "good st" using ok Some by (simp add: manager_ok_def)
    from store.rm_ok [OF this d] have "st_get env sid st' = Inr None" by (simp add: store.fetch_ok)
    moreover have "sm_store (snd (delete_session env sid r)) = Some st'" by (simp add: delete_session_def forget_entry_def Let_def Some d)
    ultimately show ?thesis using e by (simp add: get_session_def)
  qed
qed

text \<open>What a session becomes that is evicted, saved and asked for again.\<close>

lemma evict_other:
  assumes "list_all (\<lambda>(s, j). s \<noteq> sid \<and> si_id (sh_info env (sm_heap r ! j)) = s) ps"
  shows "let r' = fold (evict_one env now maxIdle) ps r in
    sm_heap r' = sm_heap r \<and> sm_store r' = sm_store r \<and> map_of (sm_entries r') sid = map_of (sm_entries r) sid \<and>
    map_of (sm_access r') sid = map_of (sm_access r) sid \<and>
    filter (\<lambda>i. si_id i = sid) (sm_saving r') = filter (\<lambda>i. si_id i = sid) (sm_saving r)"
  using assms
proof (induction ps arbitrary: r)
  case (Cons p ps)
  obtain s j where p: "p = (s, j)" by force
  let ?r = "evict_one env now maxIdle p r"
  have "sm_heap ?r = sm_heap r \<and> sm_store ?r = sm_store r \<and> map_of (sm_entries ?r) sid = map_of (sm_entries r) sid \<and>
    map_of (sm_access ?r) sid = map_of (sm_access r) sid \<and>
    filter (\<lambda>i. si_id i = sid) (sm_saving ?r) = filter (\<lambda>i. si_id i = sid) (sm_saving r)"
    using Cons.prems by (auto simp: p evict_one_def sync_meta_def Let_def delete_conv split: option.splits)
  with Cons.IH [of ?r] Cons.prems show ?case by (simp add: Let_def)
qed (simp add: Let_def)

lemma evict_idle_session:
  assumes ok: "entries_ok env r" and st: "sm_store r = Some st" and k: "map_of (sm_entries r) sid = Some k"
    and idle: "map_of (sm_access r) sid = Some seen" "maxIdle \<le> now - seen" "\<not> sh_active env (sm_heap r ! k)"
  shows "let r' = evict_idle env now maxIdle r in
    map_of (sm_entries r') sid = None \<and> sm_heap r' = sm_heap r \<and>
    filter (\<lambda>i. si_id i = sid) (sm_saving r') =
      filter (\<lambda>i. si_id i = sid) (sm_saving r) @ [(sh_info env (sm_heap r ! k))\<lparr>si_updated := now\<rparr>]"
proof -
  have m: "map_ok (sh_info env) (sm_heap r) (sm_entries r)" using ok by (simp add: entries_ok_def)
  obtain ps qs where s: "sm_entries r = ps @ (sid, k) # qs" using map_of_SomeD [OF k] by (meson split_list)
  have keys: "sid \<notin> fst ` set ps" "sid \<notin> fst ` set qs" using m by (auto simp: s map_ok_def gm_ok_def)
  have "list_all (\<lambda>(s, j). j < length (sm_heap r) \<and> si_id (sh_info env (sm_heap r ! j)) = s) (ps @ (sid, k) # qs)"
    using m unfolding map_ok_def s by blast
  then have apart: "list_all (\<lambda>(s, j). s \<noteq> sid \<and> si_id (sh_info env (sm_heap r ! j)) = s) ps"
    "list_all (\<lambda>(s, j). s \<noteq> sid \<and> si_id (sh_info env (sm_heap r ! j)) = s) qs"
    using keys unfolding list_all_append list.pred_inject
    by (auto elim!: list.pred_mono_strong simp: image_iff)
  define r1 where "r1 = fold (evict_one env now maxIdle) ps r"
  note one = evict_other [OF apart(1), of now maxIdle, folded r1_def, unfolded Let_def]
  define r2 where "r2 = evict_one env now maxIdle (sid, k) r1"
  have two: "sm_heap r2 = sm_heap r" "map_of (sm_entries r2) sid = None"
    "filter (\<lambda>i. si_id i = sid) (sm_saving r2) = filter (\<lambda>i. si_id i = sid) (sm_saving r) @ [(sh_info env (sm_heap r ! k))\<lparr>si_updated := now\<rparr>]"
    using one idle st map_ok_lookup [OF m k] by (auto simp: r2_def evict_one_def sync_meta_def Let_def delete_conv)
  have "list_all (\<lambda>(s, j). s \<noteq> sid \<and> si_id (sh_info env (sm_heap r2 ! j)) = s) qs" using apart(2) two(1) by simp
  from evict_other [OF this, of now maxIdle] two show ?thesis
    by (simp add: evict_idle_def s r1_def [symmetric] r2_def [symmetric] Let_def)
qed

definition settles :: "string \<Rightarrow> session_info \<Rightarrow> ('e, 's, 'm, 'x) manager \<Rightarrow> bool" where
  "settles sid sinf r = (\<exists>st. sm_store r = Some st \<and>
     (filter (\<lambda>i. si_id i = sid) (sm_saving r) = [sinf] \<or>
      filter (\<lambda>i. si_id i = sid) (sm_saving r) = [] \<and> sessions st sid = Some (keep sinf)))"

lemma settles_saved:
  assumes ok: "manager_ok good sessions env r" and s: "settles sid sinf r"
  shows "settles sid sinf (finish_save env i r)"
proof (cases "i < length (sm_saving r)")
  case True
  obtain st where st: "sm_store r = Some st" using s by (auto simp: settles_def)
  let ?x = "sm_saving r ! i"
  obtain e st' where sv: "st_save env ?x st = (e, st')" by force
  have "good st" using ok st by (simp add: manager_ok_def)
  from store.save_ok [OF this sv] have st': "sessions st' = (sessions st)(si_id ?x := Some (keep ?x))" by blast
  have "filter (\<lambda>i. si_id i = sid) (sm_saving r) = filter (\<lambda>i. si_id i = sid) (take i (sm_saving r)) @
      (if si_id ?x = sid then [?x] else []) @ filter (\<lambda>i. si_id i = sid) (drop (Suc i) (sm_saving r))"
    using arg_cong [OF id_take_nth_drop [OF True], of "filter (\<lambda>i. si_id i = sid)"] by simp
  then show ?thesis using s True
    by (auto simp: settles_def finish_save_def Let_def st sv st' append_eq_Cons_conv split: if_splits)
qed (use s in \<open>simp add: finish_save_def\<close>)

lemma settles_all:
  "manager_ok good sessions env r \<Longrightarrow> settles sid sinf r \<Longrightarrow> settles sid sinf (fold (finish_save env) is r)"
  by (induction "is" arbitrary: r) (simp_all add: settles_saved manager_saved)

lemma kept_saved: "sm_heap (fold (finish_save env) is r) = sm_heap r \<and> sm_entries (fold (finish_save env) is r) = sm_entries r"
  by (induction "is" arbitrary: r) (simp_all add: finish_save_def Let_def split: option.splits)

lemma evicted_restored:
  assumes ok: "manager_ok good sessions env r" and st: "sm_store r = Some st" and k: "map_of (sm_entries r) sid = Some k"
    and none: "filter (\<lambda>i. si_id i = sid) (sm_saving r) = []"
    and idle: "map_of (sm_access r) sid = Some seen" "maxIdle \<le> now - seen" "\<not> sh_active env (sm_heap r ! k)"
    and saved: "sm_saving (fold (finish_save env) is (evict_idle env now maxIdle r)) = []"
  shows "\<exists>k' r'. get_or_create env clk sid (fold (finish_save env) is (evict_idle env now maxIdle r)) = (k', r') \<and>
    map_of (sm_entries r') sid = Some k' \<and>
    sh_info env (sm_heap r' ! k') = keep ((sh_info env (sm_heap r ! k))\<lparr>si_updated := now\<rparr>)"
proof -
  let ?i = "(sh_info env (sm_heap r ! k))\<lparr>si_updated := now\<rparr>"
  let ?r1 = "evict_idle env now maxIdle r"
  define r2 where "r2 = fold (finish_save env) is ?r1"
  note ev = evict_idle_session [OF manager_entries [OF ok] st k idle, unfolded Let_def none]
  have "settles sid ?i ?r1" using ev st by (simp add: settles_def)
  moreover have ok1: "manager_ok good sessions env ?r1" using manager_call [OF ok, of "CallEvict now maxIdle"] by simp
  ultimately have "settles sid ?i r2" unfolding r2_def by (rule settles_all [rotated])
  moreover have "sm_saving r2 = []" using saved by (simp add: r2_def)
  ultimately obtain st2 where st2: "sm_store r2 = Some st2" "sessions st2 sid = Some (keep ?i)" by (auto simp: settles_def)
  have ok2: "manager_ok good sessions env r2"
    using ok1 unfolding r2_def by (induction "is" arbitrary: r rule: rev_induct) (simp_all add: manager_saved)
  have "fetch_stored env sid r2 = Some (keep ?i)" using ok2 st2 by (simp add: fetch_stored_eq)
  moreover have "map_of (sm_entries r2) sid = None" using ev kept_saved [of "is" ?r1] by (simp add: r2_def)
  ultimately show ?thesis
    unfolding r2_def [symmetric]
    by (simp add: get_or_create_def lookup_entry_def insert_entry_def add_entry_def touch_def update_conv info_new)
qed

end

section \<open>Requests that run at the same time\<close>

text \<open>
  \<^verbatim>\<open>getOrCreate\<close> gives up its lock to ask the store. A request is where it stands between its
  critical sections; \<open>use_step\<close> runs the next one.
\<close>

datatype use_phase = UseStart | UseMissed | UseFetched "session_info option" | UseGot nat

fun use_step ::
  "('e, 's, 'm) manager_env \<Rightarrow> (nat \<Rightarrow> int) \<Rightarrow> string \<Rightarrow> use_phase \<Rightarrow> ('e, 's, 'm, 'x) manager \<Rightarrow> use_phase \<times> ('e, 's, 'm, 'x) manager" where
  "use_step env clk sid UseStart r =
     (case lookup_entry (clk 0) sid r of (Some k, r1) \<Rightarrow> (UseGot k, r1) | (None, r1) \<Rightarrow> (UseMissed, r1))"
| "use_step env clk sid UseMissed r = (UseFetched (fetch_stored env sid r), r)"
| "use_step env clk sid (UseFetched found) r = (case insert_entry env clk sid found r of (k, r1) \<Rightarrow> (UseGot k, r1))"
| "use_step env clk sid (UseGot k) r = (UseGot k, r)"

text \<open>Without interruption the sections are \<^verbatim>\<open>getOrCreate\<close>.\<close>

lemma use_steps_sequential:
  "(case use_step env clk sid UseStart r of (p, r1) \<Rightarrow> case use_step env clk sid p r1 of (q, r2) \<Rightarrow> use_step env clk sid q r2) =
   (case get_or_create env clk sid r of (k, r') \<Rightarrow> (UseGot k, r'))"
  by (simp add: get_or_create_def split: prod.splits option.splits)

text \<open>Calls that take no session out of the map; \<^verbatim>\<open>create\<close> draws an id that is not in use.\<close>

fun keeps_sessions :: "('e, 's, 'm, 'x) manager \<Rightarrow> manager_call \<Rightarrow> bool" where
  "keeps_sessions r (CallCreate now sid req) = (\<not> exists_session sid r)"
| "keeps_sessions r (CallDelete sid) = False"
| "keeps_sessions r (CallEvict now mx) = False"
| "keeps_sessions r c = True"

inductive requests :: "('e, 's, 'm) manager_env \<Rightarrow> (string \<times> use_phase) list \<Rightarrow> ('e, 's, 'm, 'x) manager \<Rightarrow> bool"
  for env :: "('e, 's, 'm) manager_env" where
  idle: "requests env [] r"
| arrive: "requests env ts r \<Longrightarrow> requests env (ts @ [(sid, UseStart)]) r"
| advance: "requests env ts r \<Longrightarrow> i < length ts \<Longrightarrow> ts ! i = (sid, p) \<Longrightarrow> use_step env clk sid p r = (p', r')
    \<Longrightarrow> requests env (ts[i := (sid, p')]) r'"
| other: "requests env ts r \<Longrightarrow> keeps_sessions r c \<Longrightarrow> requests env ts (do_manager_call env c r)"

lemma entries_le_insert: "map_of (sm_entries r) \<subseteq>\<^sub>m map_of (sm_entries (snd (insert_entry env clk sid found r)))"
  by (auto simp: map_le_def insert_entry_def add_entry_def touch_def sync_meta_def Let_def update_conv dom_def split: option.splits)

lemma insert_entry_maps: "insert_entry env clk sid found r = (k, r') \<Longrightarrow> map_of (sm_entries r') sid = Some k"
  by (auto simp: insert_entry_def add_entry_def touch_def sync_meta_def Let_def update_conv split: option.splits if_splits)

lemma entries_le_use: "map_of (sm_entries r) \<subseteq>\<^sub>m map_of (sm_entries (snd (get_or_create env clk sid r)))"
  using entries_le_insert [of r env clk sid "fetch_stored env sid r"]
  by (auto simp: get_or_create_def lookup_entry_def touch_def split: option.splits)

lemma entries_meta_same: "sm_entries (snd (with_meta env now sid f r)) = sm_entries r"
  by (simp add: with_meta_def write_info_def touch_def Let_def split: option.splits)

lemma entries_sync_same: "sm_entries (sync_meta i r) = sm_entries r"
  by (simp add: sync_meta_def split: option.splits)

lemma entries_title_same: "sm_entries (snd (write_title env clk sid title r)) = sm_entries r"
  using entries_meta_same [of env "clk 4" sid "set_title (clk 3) title" r]
  by (auto simp: write_title_def entries_sync_same split: prod.splits option.splits)

lemma entries_le_call:
  assumes "keeps_sessions r c"
  shows "map_of (sm_entries r) \<subseteq>\<^sub>m map_of (sm_entries (do_manager_call env c r))"
proof (cases c)
  case (CallCreate now sid req)
  then show ?thesis using assms
    by (auto simp: create_session_def Let_def entries_sync_same add_entry_def map_le_def update_conv exists_session_def dom_def)
next
  case (CallUpdate clk sid body)
  then show ?thesis
    by (cases body) (simp_all add: update_session_def entries_title_same restore_stored_def entries_le_use)
next
  case (CallSaved i)
  then show ?thesis by (simp add: finish_save_def Let_def split: option.splits)
qed (use assms in \<open>simp_all add: entries_le_use entries_meta_same entries_sync_same\<close>)

lemma use_step_entries:
  assumes "use_step env clk sid p r = (p', r')"
  shows "map_of (sm_entries r) \<subseteq>\<^sub>m map_of (sm_entries r')"
  using assms entries_le_insert [of r env clk sid]
  by (cases p) (auto simp: lookup_entry_def touch_def split: option.splits prod.splits, metis snd_conv)

lemma use_step_got:
  assumes "use_step env clk sid p r = (UseGot k, r')" "\<And>j. p = UseGot j \<Longrightarrow> map_of (sm_entries r) sid = Some j"
  shows "map_of (sm_entries r') sid = Some k"
  using assms by (cases p) (auto simp: lookup_entry_def touch_def dest: insert_entry_maps split: option.splits prod.splits)

definition got_mapped :: "(string \<times> use_phase) list \<Rightarrow> ('e, 's, 'm, 'x) manager \<Rightarrow> bool" where
  "got_mapped ts r = (\<forall>sid k. (sid, UseGot k) \<in> set ts \<longrightarrow> map_of (sm_entries r) sid = Some k)"

lemma requests_mapped: "requests env ts r \<Longrightarrow> got_mapped ts r"
proof (induction rule: requests.induct)
  case (advance ts r i sid p clk p' r')
  have le: "map_of (sm_entries r) \<subseteq>\<^sub>m map_of (sm_entries r')" using use_step_entries [OF advance.hyps(4)] .
  have "map_of (sm_entries r') s = Some k" if m: "(s, UseGot k) \<in> set (ts[i := (sid, p')])" for s k
  proof (cases "(s, UseGot k) \<in> set ts")
    case True
    then show ?thesis using advance.IH le by (force simp: got_mapped_def map_le_def)
  next
    case False
    with m have "s = sid" "p' = UseGot k" using set_update_subset_insert [of ts i "(sid, p')"] by auto
    moreover have "map_of (sm_entries r) sid = Some j" if "p = UseGot j" for j
      using advance.IH nth_mem [OF advance.hyps(2)] that unfolding advance.hyps(3) got_mapped_def by blast
    ultimately show ?thesis using use_step_got [of env clk sid p r k r'] advance.hyps(4) by blast
  qed
  then show ?case by (simp add: got_mapped_def)
next
  case (other ts r c)
  then show ?case using entries_le_call [OF other.hyps(2), of env] by (force simp: got_mapped_def map_le_def)
qed (auto simp: got_mapped_def)

text \<open>
  C34: Requests for one session that run at the same time all get the same entry, the one in the
  map, whatever the order of their critical sections and of the other calls, as long as no call
  takes the session away.
\<close>

theorem concurrent_requests_share_entry:
  assumes "requests env ts r" and "(sid, UseGot k) \<in> set ts" and "(sid, UseGot k') \<in> set ts"
  shows "k = k' \<and> map_of (sm_entries r) sid = Some k"
  using requests_mapped [OF assms(1)] assms(2,3) unfolding got_mapped_def by (metis option.inject)

text \<open>Two requests that both miss the map and both ask the store, by a schedule of their sections.\<close>

fun play_requests ::
  "('e, 's, 'm) manager_env \<Rightarrow> (nat \<Rightarrow> int) \<Rightarrow> nat list \<Rightarrow> (string \<times> use_phase) list \<Rightarrow> ('e, 's, 'm, 'x) manager
     \<Rightarrow> (string \<times> use_phase) list \<times> ('e, 's, 'm, 'x) manager" where
  "play_requests env clk [] ts r = (ts, r)"
| "play_requests env clk (i # is) ts r =
     (if i < length ts then
        case ts ! i of (sid, p) \<Rightarrow> case use_step env clk sid p r of (p', r') \<Rightarrow> play_requests env clk is (ts[i := (sid, p')]) r'
      else (ts, r))"

lemma play_requests_reach: "requests env ts r \<Longrightarrow> play_requests env clk is ts r = (ts', r') \<Longrightarrow> requests env ts' r'"
  by (induction env clk "is" ts r rule: play_requests.induct)
    (auto split: prod.splits if_splits dest: requests.advance)

definition info_env :: "(session_info, unit, unit) manager_env" where
  "info_env = \<lparr>sh_kind = ''single'', sh_new = (\<lambda>i. i), sh_info = (\<lambda>i. i), sh_write = (\<lambda>f i. f i), sh_active = (\<lambda>_. False),
     sh_window = (\<lambda>_. None), sh_on_delete = (\<lambda>_ m. m), st_save = (\<lambda>_ s. (None, s)), st_get = (\<lambda>_ _. Inr None),
     st_list = (\<lambda>_ _. Inr []), st_delete = (\<lambda>_ s. (None, s)), me_count = (\<lambda>_ _. Inr 0), me_recent = (\<lambda>_ _ _ _. Inr []),
     me_delete = (\<lambda>_ m. (None, m))\<rparr>"

definition empty_registry :: "(session_info, unit, unit, unit) manager" where
  "empty_registry = new_manager (Some ()) None (new_bus 0)"

theorem concurrent_requests_share_entry_witness:
  "\<exists>r. requests info_env [(''s'', UseGot 0), (''s'', UseGot 0)] (r :: (session_info, unit, unit, unit) manager) \<and>
     map_of (sm_entries r) ''s'' = Some 0"
proof -
  have "requests info_env ([] @ [(''s'', UseStart)]) empty_registry" by (intro requests.intros)
  then have "requests info_env (([] @ [(''s'', UseStart)]) @ [(''s'', UseStart)]) empty_registry" by (rule requests.arrive)
  then have start: "requests info_env [(''s'', UseStart), (''s'', UseStart)] empty_registry" by simp
  have "fst (play_requests info_env (\<lambda>_. 0) [0, 1, 0, 1, 1, 0] [(''s'', UseStart), (''s'', UseStart)] empty_registry)
      = [(''s'', UseGot 0), (''s'', UseGot 0)]" by code_simp
  then obtain r where "play_requests info_env (\<lambda>_. 0) [0, 1, 0, 1, 1, 0] [(''s'', UseStart), (''s'', UseStart)] empty_registry
      = ([(''s'', UseGot 0), (''s'', UseGot 0)], r)" by (metis prod.collapse)
  from play_requests_reach [OF start this] have q: "requests info_env [(''s'', UseGot 0), (''s'', UseGot 0)] r" .
  from concurrent_requests_share_entry [OF q, of "''s''" 0 0] q show ?thesis by auto
qed

section \<open>Limits\<close>

text \<open>
  A save that is still under way when the session is deleted brings it back: the next request for
  it finds it in the store. \<open>note_store\<close> is the plainest store of one session.
\<close>

definition note_env :: "(session_info, session_info option, unit) manager_env" where
  "note_env = \<lparr>sh_kind = ''single'', sh_new = (\<lambda>i. i), sh_info = (\<lambda>i. i), sh_write = (\<lambda>f i. f i), sh_active = (\<lambda>_. False),
     sh_window = (\<lambda>_. None), sh_on_delete = (\<lambda>_ m. m), st_save = (\<lambda>i s. (None, Some i)),
     st_get = (\<lambda>sid s. Inr (case s of Some i \<Rightarrow> if si_id i = sid then Some i else None | None \<Rightarrow> None)),
     st_list = (\<lambda>_ _. Inr []), st_delete = (\<lambda>_ s. (None, None)), me_count = (\<lambda>_ _. Inr 0), me_recent = (\<lambda>_ _ _ _. Inr []),
     me_delete = (\<lambda>_ m. (None, m))\<rparr>"

definition one_created :: "(session_info, session_info option, unit, unit) manager" where
  "one_created = snd (create_session note_env 7 ''s'' \<lparr>cr_title = ''t'', cr_model = [], cr_provider = []\<rparr> (new_manager (Some None) None (new_bus 0)))"

lemma deleted_session_returns:
  "get_session note_env ''s'' (snd (delete_session note_env ''s'' one_created)) = Reply 404 (BodyError ''session not found'')"
  "get_session note_env ''s'' (finish_save note_env 0 (snd (delete_session note_env ''s'' one_created))) =
     Reply 200 (BodyDetail \<lparr>sd_info = \<lparr>si_id = ''s'', si_title = ''t'', si_kind = ''single'', si_model = [], si_provider = [],
        si_created = 7, si_updated = 7\<rparr>, sd_window = 0, sd_count = 0\<rparr>)"
  by code_simp+

text \<open>A session that was created and never used has no time of access, and no eviction takes it.\<close>

lemma unused_session_stays: "evict_idle note_env now maxIdle one_created = one_created"
  by (simp add: evict_idle_def one_created_def create_session_def sync_meta_def add_entry_def new_manager_def Let_def evict_one_def)

end
