(* ===== verification/SseEvents.thy ===== *)
theory SseEvents
  imports TeamRun PlanTypes EventBus
begin

text \<open>
  \<^verbatim>\<open>rest/sse.go\<close>, the event type of \<^verbatim>\<open>rest/types.go\<close> and the three conversions of the REST handlers:
  what a client reads of a run, of a team run and of a plan, one JSON frame per event. A response is
  the list of frames written to it; \<open>enc\<close> is \<^verbatim>\<open>json.Marshal\<close> on events, \<open>broken fr\<close> is the error of a
  write behind the frames \<open>fr\<close>.
\<close>

section \<open>Events\<close>

record sse_call =
  sc_id :: string
  sc_name :: string
  sc_args :: string

record sse_event =
  se_type :: string
  se_text :: string
  se_tool_call :: "sse_call option"
  se_call_id :: string
  se_final_output :: string
  se_prompt_tokens :: int
  se_context_window :: int
  se_agent :: string
  se_handoff :: string
  se_step :: string
  se_error :: string
  se_stage :: "string option"

definition sse :: "string \<Rightarrow> sse_event" where
  "sse ty = \<lparr>se_type = ty, se_text = [], se_tool_call = None, se_call_id = [], se_final_output = [],
     se_prompt_tokens = 0, se_context_window = 0, se_agent = [], se_handoff = [], se_step = [], se_error = [], se_stage = None\<rparr>"

definition sse_text :: "string \<Rightarrow> string \<Rightarrow> sse_event" where
  "sse_text ty t = (sse ty)\<lparr>se_text := t\<rparr>"

definition sse_call_of :: "tool_call \<Rightarrow> sse_call" where
  "sse_call_of c = \<lparr>sc_id = tc_id c, sc_name = tc_name c, sc_args = tc_args c\<rparr>"

section \<open>Conversions\<close>

text \<open>\<^verbatim>\<open>streamToSSE\<close> indexes the calls of a tool call event.\<close>

fun stream_to_sse :: "stream_event \<Rightarrow> sse_event go_ret" where
  "stream_to_sse (StreamThought t) = Returns (sse_text ''thought'' t)"
| "stream_to_sse (StreamTextDelta t) = Returns (sse_text ''text_delta'' t)"
| "stream_to_sse (StreamToolCall m) =
     (case msg_tool_calls m of
        [] \<Rightarrow> Panics ''index out of range''
      | c # cs \<Rightarrow> Returns ((sse ''tool_call'')\<lparr>se_tool_call := Some (sse_call_of c)\<rparr>))"
| "stream_to_sse (StreamToolResult m) = Returns ((sse_text ''tool_result'' (msg_content m))\<lparr>se_call_id := msg_tool_call_id m\<rparr>)"
| "stream_to_sse (StreamRetrying e) = Returns (sse_text ''retrying'' (err_text e))"
| "stream_to_sse (StreamToolProgress call t) = Returns ((sse_text ''tool_progress'' t)\<lparr>se_call_id := call\<rparr>)"
| "stream_to_sse (StreamAborted e) = Returns (sse_text ''aborted'' (err_text e))"
| "stream_to_sse (StreamDone res) = Returns
     (case res of
        None \<Rightarrow> sse ''done''
      | Some r \<Rightarrow> (sse ''done'')\<lparr>se_final_output := rr_final_output r, se_prompt_tokens := us_prompt (rr_usage r),
                    se_context_window := rr_context_window r\<rparr>)"
| "stream_to_sse (StreamError e) = Returns (sse_text ''error'' (err_text e))"

fun team_event_to_sse :: "team_event \<Rightarrow> sse_event" where
  "team_event_to_sse (TeamAgentStart a) = (sse ''agent_start'')\<lparr>se_agent := a\<rparr>"
| "team_event_to_sse (TeamAgentEnd a err) =
     (let e = (sse ''agent_end'')\<lparr>se_agent := a\<rparr> in case err of None \<Rightarrow> e | Some x \<Rightarrow> e\<lparr>se_error := err_text x\<rparr>)"
| "team_event_to_sse (TeamThought a t) = (sse_text ''thought'' t)\<lparr>se_agent := a\<rparr>"
| "team_event_to_sse (TeamTextDelta a t) = (sse_text ''text_delta'' t)\<lparr>se_agent := a\<rparr>"
| "team_event_to_sse (TeamToolCall a c) = (sse ''tool_call'')\<lparr>se_agent := a, se_tool_call := Some (sse_call_of c)\<rparr>"
| "team_event_to_sse (TeamToolProgress a call t) = (sse_text ''tool_progress'' t)\<lparr>se_agent := a, se_call_id := call\<rparr>"
| "team_event_to_sse (TeamToolResult a call t) = (sse_text ''tool_result'' t)\<lparr>se_agent := a, se_call_id := call\<rparr>"
| "team_event_to_sse (TeamRetrying a e) = (sse_text ''retrying'' (err_text e))\<lparr>se_agent := a\<rparr>"
| "team_event_to_sse (TeamHandoff a target reason) = (sse ''handoff'')\<lparr>se_agent := a, se_handoff := target\<rparr>"
| "team_event_to_sse (TeamDone r) =
     (sse ''done'')\<lparr>se_final_output := tres_output r, se_prompt_tokens := us_prompt (tres_usage r)\<rparr>"
| "team_event_to_sse (TeamError e) = sse_text ''error'' (err_text e)"

text \<open>\<open>enc\<close> is \<^verbatim>\<open>json.Marshal\<close> on plans; its error is dropped.\<close>

fun plan_event_to_sse :: "(plan_def \<Rightarrow> string) \<Rightarrow> plan_event \<Rightarrow> sse_event" where
  "plan_event_to_sse enc (PEGenerated goal def) = sse_text ''plan_generated'' (enc def)"
| "plan_event_to_sse enc PEApproved = sse ''plan_approved''"
| "plan_event_to_sse enc (PEStepStart s a) = (sse ''step_start'')\<lparr>se_step := s, se_agent := a\<rparr>"
| "plan_event_to_sse enc (PETextDelta s t) = (sse_text ''step_text_delta'' t)\<lparr>se_step := s\<rparr>"
| "plan_event_to_sse enc (PEToolCall s i n a) =
     (sse ''step_tool_call'')\<lparr>se_step := s, se_tool_call := Some \<lparr>sc_id = i, sc_name = n, sc_args = a\<rparr>\<rparr>"
| "plan_event_to_sse enc (PEToolProgress s t) = (sse_text ''step_tool_progress'' t)\<lparr>se_step := s\<rparr>"
| "plan_event_to_sse enc (PEToolResult s t) = (sse_text ''step_tool_result'' t)\<lparr>se_step := s\<rparr>"
| "plan_event_to_sse enc (PEStepDone s a r) = (sse_text ''step_done'' (srs_summary r))\<lparr>se_step := s, se_agent := a\<rparr>"
| "plan_event_to_sse enc (PEStepFailed s a r e) = (sse ''step_failed'')\<lparr>se_step := s, se_agent := a, se_error := e\<rparr>"
| "plan_event_to_sse enc (PEReplanning s) = (sse ''replanning'')\<lparr>se_step := s\<rparr>"
| "plan_event_to_sse enc (PEWaitingRetry s e) = (sse ''plan_waiting_retry'')\<lparr>se_step := s, se_error := e\<rparr>"
| "plan_event_to_sse enc (PEDone t) = (sse ''plan_done'')\<lparr>se_final_output := t\<rparr>"
| "plan_event_to_sse enc (PEError e) = (sse ''plan_error'')\<lparr>se_error := e\<rparr>"

section \<open>Frames\<close>

definition frame :: "string \<Rightarrow> string" where
  "frame b = ''data: '' @ b @ nl @ nl"

definition write_sse ::
  "(sse_event \<Rightarrow> go_err + string) \<Rightarrow> (string list \<Rightarrow> go_err option) \<Rightarrow> sse_event \<Rightarrow> string list \<Rightarrow> go_err option \<times> string list" where
  "write_sse enc broken e fr =
     (case enc e of
        Inl err \<Rightarrow> (Some err, fr)
      | Inr b \<Rightarrow> (case broken fr of Some err \<Rightarrow> (Some err, fr) | None \<Rightarrow> (None, fr @ [frame b])))"

text \<open>
  The loop of a streaming response over what its subscription delivers, until it writes an event
  that \<open>closes\<close>. The flag tells whether the handler has returned; if not it waits for more events.
\<close>

fun relay ::
  "(sse_event \<Rightarrow> bool) \<Rightarrow> (sse_event \<Rightarrow> go_err + string) \<Rightarrow> (string list \<Rightarrow> go_err option) \<Rightarrow> sse_event list \<Rightarrow> string list
     \<Rightarrow> bool \<times> string list" where
  "relay closes enc broken [] fr = (False, fr)"
| "relay closes enc broken (e # es) fr =
     (case write_sse enc broken e fr of
        (Some err, fr') \<Rightarrow> (True, fr')
      | (None, fr') \<Rightarrow> if closes e then (True, fr') else relay closes enc broken es fr')"

definition chat_closes :: "sse_event \<Rightarrow> bool" where
  "chat_closes e = (se_type e = ''done'' \<or> se_type e = ''error'')"

definition plan_closes :: "sse_event \<Rightarrow> bool" where
  "plan_closes e = (se_type e = ''plan_done'' \<or> se_type e = ''plan_error'' \<or> se_type e = ''plan_cancelled'')"

section \<open>From the bus to the response\<close>

text \<open>Events published to a session while the reader \<open>k\<close> takes each before the next is published.\<close>

fun pump :: "string \<Rightarrow> nat \<Rightarrow> 'e list \<Rightarrow> 'e bus \<Rightarrow> ('e list \<times> 'e bus) go_ret" where
  "pump sid k [] b = Returns ([], b)"
| "pump sid k (e # es) b =
     (case publish sid e b of
        Panics p \<Rightarrow> Panics p
      | Returns b1 \<Rightarrow>
          (case receive k b1 of (got, b2) \<Rightarrow>
             case pump sid k es b2 of
               Panics p \<Rightarrow> Panics p
             | Returns (out, b3) \<Rightarrow> Returns ((case got of None \<Rightarrow> [] | Some x \<Rightarrow> [x]) @ out, b3)))"

definition listening :: "string \<Rightarrow> nat \<Rightarrow> 'e bus \<Rightarrow> bool" where
  "listening sid k b = (bus_ok b \<and> k < length (bus_subs b) \<and> sb_buffer (bus_subs b ! k) = [] \<and>
     (\<exists>t. map_of (bus_sessions b) sid = Some t \<and> k \<in> set (tp_subs (bus_topics b ! t))))"

lemma fan_out_other: "fan_out e ks ss = Returns ts \<Longrightarrow> k \<notin> set ks \<Longrightarrow> ts ! k = ss ! k \<and> length ts = length ss"
  by (induction ks arbitrary: ss) (auto split: if_splits)

lemma fan_out_buffer:
  "fan_out e ks ss = Returns ts \<Longrightarrow> distinct ks \<Longrightarrow> k \<in> set ks \<Longrightarrow> k < length ss \<Longrightarrow>
   length ts = length ss \<and> sb_buffer (ts ! k) = try_send e (sb_buffer (ss ! k))"
proof (induction ks arbitrary: ss)
  case (Cons j ks)
  let ?ss = "ss[j := (ss ! j)\<lparr>sb_buffer := try_send e (sb_buffer (ss ! j))\<rparr>]"
  have f: "fan_out e ks ?ss = Returns ts" using Cons.prems(1) by (auto split: if_splits)
  show ?case
  proof (cases "k = j")
    case True
    then show ?thesis using fan_out_other [OF f, of k] Cons.prems(2,4) by simp
  next
    case False
    then show ?thesis using Cons.IH [OF f] Cons.prems by simp
  qed
qed simp

lemma publish_delivers:
  assumes l: "listening sid k b"
  shows "\<exists>b1 b2. publish sid e b = Returns b1 \<and> receive k b1 = (Some e, b2) \<and> listening sid k b2"
proof -
  obtain t where t: "map_of (bus_sessions b) sid = Some t" "k \<in> set (tp_subs (bus_topics b ! t))" using l by (auto simp: listening_def)
  have ok: "bus_ok b" "k < length (bus_subs b)" "sb_buffer (bus_subs b ! k) = []" using l by (simp_all add: listening_def)
  have live: "live_topic b t" by (rule bus_okD(1) [OF ok(1) t(1)])
  obtain b1 where b1: "topic_publish e t b = Returns b1" "bus_ok b1" "bus_sessions b1 = bus_sessions b"
      "bus_topics b1 = (bus_topics b)[t := add_history e (bus_topics b ! t)]"
    using topic_publish_ok [OF ok(1) t(1)] by blast
  have tp: "tp_subs (add_history e (bus_topics b ! t)) = tp_subs (bus_topics b ! t)" by (simp add: add_history_def)
  obtain ts where ts: "fan_out e (tp_subs (bus_topics b ! t)) (bus_subs b) = Returns ts" "bus_subs b1 = ts"
    using b1(1) by (auto simp: topic_publish_def Let_def tp split: go_ret.splits)
  have buf: "length ts = length (bus_subs b)" "sb_buffer (ts ! k) = [e]"
    using fan_out_buffer [OF ts(1) _ t(2) ok(2)] live ok(3) by (simp_all add: live_topic_def try_send_def chan_capacity_def)
  define b2 where "b2 = b1\<lparr>bus_subs := (bus_subs b1)[k := (bus_subs b1 ! k)\<lparr>sb_buffer := []\<rparr>]\<rparr>"
  have r: "receive k b1 = (Some e, b2)" by (simp add: receive_def buf ts(2) b2_def)
  have "k \<in> set (tp_subs (bus_topics b2 ! t))"
    using t(2) live by (simp add: b2_def b1(4) tp live_topic_def)
  then have "listening sid k b2"
    using receive_ok(1) [OF b1(2) r] t(1) b1(3) ok(2) buf(1) ts(2) by (auto simp: listening_def b2_def)
  then show ?thesis using b1(1) r t(1) by (auto simp: publish_def get_topic_def)
qed

lemma pump_delivers: "listening sid k b \<Longrightarrow> \<exists>b'. pump sid k es b = Returns (es, b') \<and> listening sid k b'"
proof (induction es arbitrary: b)
  case (Cons e es)
  obtain b1 b2 where p: "publish sid e b = Returns b1" "receive k b1 = (Some e, b2)" "listening sid k b2"
    using publish_delivers [OF Cons.prems] by blast
  from Cons.IH [OF p(3)] p(1,2) show ?case by auto
qed auto

lemma subscribe_listens:
  assumes "bus_ok b" "subscribe False sid b = (k, b')"
  shows "listening sid k b'"
proof -
  obtain t b1 where g: "get_topic sid b = (t, b1)" by force
  note g' = get_topic_ok [OF assms(1) g]
  have s: "topic_subscribe False t b1 = (k, b')" using assms(2) by (simp add: subscribe_def g)
  have "t < length (bus_topics b1)" using bus_okD(1) [OF g'(1,2)] by (simp add: live_topic_def)
  then show ?thesis
    using topic_subscribe_ok(1) [OF g'(1,2) s] s g'(2) by (auto simp: topic_subscribe_def Let_def listening_def nth_append)
qed

text \<open>What a response writes when every write succeeds: everything up to the first closing event.\<close>

definition upto_close :: "(sse_event \<Rightarrow> bool) \<Rightarrow> sse_event list \<Rightarrow> sse_event list" where
  "upto_close closes es = takeWhile (\<lambda>e. \<not> closes e) es @ take 1 (dropWhile (\<lambda>e. \<not> closes e) es)"

lemma relay_total:
  assumes "\<And>e. enc e = Inr (render e)"
  shows "relay closes enc (\<lambda>_. None) es fr = (\<exists>e\<in>set es. closes e, fr @ map (\<lambda>e. frame (render e)) (upto_close closes es))"
  by (induction es arbitrary: fr) (auto simp: write_sse_def assms upto_close_def)

lemma stream_to_sse_closes:
  "stream_to_sse e = Returns se \<Longrightarrow> chat_closes se \<longleftrightarrow> is_terminal e \<and> (\<forall>x. e \<noteq> StreamAborted x)"
  by (cases e) (auto simp: chat_closes_def sse_def sse_text_def split: list.splits option.splits)

end
