(* ===== verification/Approvals.thy ===== *)
theory Approvals
  imports SessionManager SseEvents
begin

text \<open>
  What the session entries of the three REST handlers share (\<^verbatim>\<open>rest/handler.go\<close>): the metadata,
  whether a run is under way, and the tool call that waits for the user. A response channel, of
  capacity one, is an index into the list of channels; a channel is the list of responses in it.
\<close>

section \<open>Entries\<close>

record rest_entry =
  re_info :: session_info
  re_running :: bool
  re_pending :: "nat option"

definition new_rest_entry :: "session_info \<Rightarrow> rest_entry" where
  "new_rest_entry i = \<lparr>re_info = i, re_running = False, re_pending = None\<rparr>"

definition is_active :: "'a rest_entry_scheme \<Rightarrow> bool" where
  "is_active e = (re_running e \<or> re_pending e \<noteq> None)"

definition write_entry_info :: "(session_info \<Rightarrow> session_info) \<Rightarrow> 'a rest_entry_scheme \<Rightarrow> 'a rest_entry_scheme" where
  "write_entry_info f e = e\<lparr>re_info := f (re_info e)\<rparr>"

record ('e, 's, 'm) server =
  sv_manager :: "('e, 's, 'm, sse_event) manager"
  sv_channels :: "(bool \<times> string) list list"

definition at_entry :: "nat \<Rightarrow> ('e \<Rightarrow> 'e) \<Rightarrow> ('e, 's, 'm) server \<Rightarrow> ('e, 's, 'm) server" where
  "at_entry k f sv = (let r = sv_manager sv in sv\<lparr>sv_manager := r\<lparr>sm_heap := (sm_heap r)[k := f (sm_heap r ! k)]\<rparr>\<rparr>)"

definition entry_at :: "('e, 's, 'm) server \<Rightarrow> nat \<Rightarrow> 'e" where
  "entry_at sv k = sm_heap (sv_manager sv) ! k"

text \<open>The entry a request works on.\<close>

definition open_entry :: "('e, 's, 'm) manager_env \<Rightarrow> (nat \<Rightarrow> int) \<Rightarrow> string \<Rightarrow> ('e, 's, 'm) server \<Rightarrow> nat \<times> ('e, 's, 'm) server" where
  "open_entry env clk sid sv = (case get_or_create env clk sid (sv_manager sv) of (k, r) \<Rightarrow> (k, sv\<lparr>sv_manager := r\<rparr>))"

definition publish_event :: "string \<Rightarrow> sse_event \<Rightarrow> ('e, 's, 'm) server \<Rightarrow> ('e, 's, 'm) server go_ret" where
  "publish_event sid e sv =
     (let r = sv_manager sv in
      case publish sid e (sm_bus r) of
        Panics p \<Rightarrow> Panics p
      | Returns b \<Rightarrow> Returns (sv\<lparr>sv_manager := r\<lparr>sm_bus := b\<rparr>\<rparr>))"

section \<open>The approval bridge\<close>

definition approval_event :: "tool_call \<Rightarrow> sse_event" where
  "approval_event call = (sse ''tool_approval'')\<lparr>se_tool_call := Some (sse_call_of call)\<rparr>"

text \<open>\<^verbatim>\<open>restApprover.Approve\<close> opens a channel, submits it and waits; \<open>submit_call\<close> is both first steps.\<close>

definition submit_call :: "nat \<Rightarrow> tool_call \<Rightarrow> ('a rest_entry_scheme, 's, 'm) server \<Rightarrow> (nat \<times> ('a rest_entry_scheme, 's, 'm) server) go_ret" where
  "submit_call k call sv =
     (let c = length (sv_channels sv);
          sv1 = at_entry k (re_pending_update (\<lambda>_. Some c)) (sv\<lparr>sv_channels := sv_channels sv @ [[]]\<rparr>)
      in case publish_event (si_id (re_info (entry_at sv1 k))) (approval_event call) sv1 of
           Panics p \<Rightarrow> Panics p
         | Returns sv2 \<Rightarrow> Returns (c, sv2))"

text \<open>
  The wait: \<open>None\<close> while there is neither a response nor the end of the context. When both are
  there, \<^verbatim>\<open>select\<close> takes either (\<open>prefers\<close>).
\<close>

definition await_call :: "bool \<Rightarrow> bool \<Rightarrow> nat \<Rightarrow> ('e, 's, 'm) server \<Rightarrow> (bool \<times> string) option" where
  "await_call cancelled prefers c sv =
     (case sv_channels sv ! c of
        [] \<Rightarrow> if cancelled then Some (False, ''cancelled'') else None
      | resp # rs \<Rightarrow> if cancelled \<and> prefers then Some (False, ''cancelled'') else Some resp)"

definition approval_reason :: "bool \<Rightarrow> string \<Rightarrow> string" where
  "approval_reason allowed feedback =
     (let reason = (if feedback \<noteq> [] then ''denied: '' @ feedback else ''denied'')
      in if allowed then ''approved'' else reason)"

text \<open>\<open>body\<close> is the decoded \<^verbatim>\<open>ApproveRequest\<close>.\<close>

definition approve_request ::
  "('a rest_entry_scheme, 's, 'm) manager_env \<Rightarrow> (nat \<Rightarrow> int) \<Rightarrow> string \<Rightarrow> (bool \<times> string) option \<Rightarrow>
   ('a rest_entry_scheme, 's, 'm) server \<Rightarrow> reply \<times> ('a rest_entry_scheme, 's, 'm) server" where
  "approve_request env clk sid body sv =
     (case body of
        None \<Rightarrow> (Reply 400 (BodyError ''allowed is required''), sv)
      | Some (allowed, feedback) \<Rightarrow>
          (case open_entry env clk sid sv of
             (k, sv1) \<Rightarrow>
               let p = re_pending (entry_at sv1 k); sv2 = at_entry k (re_pending_update (\<lambda>_. None)) sv1 in
               case p of
                 None \<Rightarrow> (Reply 400 (BodyError ''no pending approval''), sv2)
               | Some c \<Rightarrow>
                   let reason = approval_reason allowed feedback in
                   (Reply 200 (BodyStatus reason),
                    sv2\<lparr>sv_channels := (sv_channels sv2)[c := sv_channels sv2 ! c @ [(allowed, reason)]]\<rparr>)))"

text \<open>The start and the end of a run.\<close>

definition begin_run :: "nat \<Rightarrow> ('a rest_entry_scheme, 's, 'm) server \<Rightarrow> ('a rest_entry_scheme, 's, 'm) server" where
  "begin_run k sv = at_entry k (\<lambda>e. e\<lparr>re_running := True, re_pending := None\<rparr>) sv"

definition end_run :: "nat \<Rightarrow> ('a rest_entry_scheme, 's, 'm) server \<Rightarrow> ('a rest_entry_scheme, 's, 'm) server" where
  "end_run k sv = at_entry k (\<lambda>e. e\<lparr>re_running := False, re_pending := None\<rparr>) sv"

section \<open>A response is sent at most once\<close>

datatype bridge_call =
    SubmitCall nat tool_call
  | ApproveCall "nat \<Rightarrow> int" string "(bool \<times> string) option"
  | BeginRun nat
  | EndRun nat

definition do_bridge_call ::
  "('a rest_entry_scheme, 's, 'm) manager_env \<Rightarrow> bridge_call \<Rightarrow> ('a rest_entry_scheme, 's, 'm) server \<Rightarrow> ('a rest_entry_scheme, 's, 'm) server" where
  "do_bridge_call env c sv =
     (case c of
        SubmitCall k call \<Rightarrow>
          if k < length (sm_heap (sv_manager sv))
          then (case submit_call k call sv of Panics p \<Rightarrow> sv | Returns (ch, sv') \<Rightarrow> sv') else sv
      | ApproveCall clk sid body \<Rightarrow> snd (approve_request env clk sid body sv)
      | BeginRun k \<Rightarrow> begin_run k sv
      | EndRun k \<Rightarrow> end_run k sv)"

text \<open>
  The calls the entries wait for, and the channels: a channel that waits is empty and waits at one
  entry only, and no channel holds two responses.
\<close>

definition waits_ok :: "nat option list \<Rightarrow> 'r list list \<Rightarrow> bool" where
  "waits_ok ps chs =
     ((\<forall>k c. k < length ps \<longrightarrow> ps ! k = Some c \<longrightarrow> c < length chs \<and> chs ! c = []) \<and>
      (\<forall>j k c. j < length ps \<longrightarrow> k < length ps \<longrightarrow> ps ! j = Some c \<longrightarrow> ps ! k = Some c \<longrightarrow> j = k) \<and>
      list_all (\<lambda>rs. length rs \<le> 1) chs)"

lemma waits_okD:
  assumes "waits_ok ps chs" "k < length ps" "ps ! k = Some c"
  shows "c < length chs" "chs ! c = []" "j < length ps \<Longrightarrow> ps ! j = Some c \<Longrightarrow> j = k"
proof -
  have one: "\<And>k c. k < length ps \<Longrightarrow> ps ! k = Some c \<Longrightarrow> c < length chs \<and> chs ! c = []"
    and two: "\<And>j k c. j < length ps \<Longrightarrow> k < length ps \<Longrightarrow> ps ! j = Some c \<Longrightarrow> ps ! k = Some c \<Longrightarrow> j = k"
    using assms(1) by (simp_all add: waits_ok_def)
  show "c < length chs" "chs ! c = []" using one [OF assms(2,3)] by simp_all
  show "j < length ps \<Longrightarrow> ps ! j = Some c \<Longrightarrow> j = k" using two [OF _ assms(2) _ assms(3)] .
qed

lemma waits_okI:
  assumes "\<And>k c. k < length ps \<Longrightarrow> ps ! k = Some c \<Longrightarrow> c < length chs \<and> chs ! c = []"
    and "\<And>j k c. j < length ps \<Longrightarrow> k < length ps \<Longrightarrow> ps ! j = Some c \<Longrightarrow> ps ! k = Some c \<Longrightarrow> j = k"
    and "list_all (\<lambda>rs. length rs \<le> 1) chs"
  shows "waits_ok ps chs"
  using assms by (simp add: waits_ok_def)

lemma waits_sub:
  assumes w: "waits_ok ps chs" and s: "\<And>k c. k < length qs \<Longrightarrow> qs ! k = Some c \<Longrightarrow> k < length ps \<and> ps ! k = Some c"
  shows "waits_ok qs chs"
proof (rule waits_okI)
  fix j k c assume "j < length qs" "k < length qs" "qs ! j = Some c" "qs ! k = Some c"
  then show "j = k" using waits_okD(3) [OF w, of k c j] s by blast
next
  fix k c assume "k < length qs" "qs ! k = Some c"
  then have "k < length ps" "ps ! k = Some c" using s by blast+
  then show "c < length chs \<and> chs ! c = []" using waits_okD(1,2) [OF w] by blast
qed (use w in \<open>simp add: waits_ok_def\<close>)

lemma waits_clear: "waits_ok ps chs \<Longrightarrow> waits_ok (ps[k := None]) chs"
  by (rule waits_sub) (auto simp: nth_update_if split: if_splits)

lemma waits_more: "waits_ok ps chs \<Longrightarrow> waits_ok (ps @ [None]) chs"
  by (rule waits_sub) (auto simp: nth_append less_Suc_eq split: if_splits)

lemma waits_submit:
  assumes w: "waits_ok ps chs"
  shows "waits_ok (ps[k := Some (length chs)]) (chs @ [[]])"
proof (rule waits_okI)
  fix j c assume j: "j < length (ps[k := Some (length chs)])" "ps[k := Some (length chs)] ! j = Some c"
  have "c = length chs \<or> c < length chs \<and> chs ! c = []"
    using j waits_okD(1,2) [OF w, of j c] by (auto simp: nth_update_if split: if_splits)
  then show "c < length (chs @ [[]]) \<and> (chs @ [[]]) ! c = []" by (auto simp: nth_append)
next
  fix i j c
  assume ij: "i < length (ps[k := Some (length chs)])" "j < length (ps[k := Some (length chs)])"
    "ps[k := Some (length chs)] ! i = Some c" "ps[k := Some (length chs)] ! j = Some c"
  have new: "ps ! l \<noteq> Some (length chs)" if "l < length ps" for l using waits_okD(1) [OF w that] by blast
  show "i = j"
  proof (cases "c = length chs")
    case True
    then show ?thesis using ij new by (auto simp: nth_update_if split: if_splits)
  next
    case False
    then have "i < length ps" "j < length ps" "ps ! i = Some c" "ps ! j = Some c"
      using ij by (auto simp: nth_update_if split: if_splits)
    then show ?thesis using waits_okD(3) [OF w] by blast
  qed
next
  show "list_all (\<lambda>rs. length rs \<le> 1) (chs @ [[]])" using w by (simp add: waits_ok_def)
qed

lemma waits_answer:
  assumes w: "waits_ok ps chs" and k: "k < length ps" "ps ! k = Some c"
  shows "waits_ok (ps[k := None]) (chs[c := chs ! c @ [x]])"
proof (rule waits_okI)
  fix j d assume j: "j < length (ps[k := None])" "ps[k := None] ! j = Some d"
  then have d: "j \<noteq> k" "j < length ps" "ps ! j = Some d" by (auto simp: nth_update_if split: if_splits)
  have "d \<noteq> c" using waits_okD(3) [OF w k d(2)] d(1,3) by blast
  with waits_okD(1,2) [OF w d(2,3)] show "d < length (chs[c := chs ! c @ [x]]) \<and> chs[c := chs ! c @ [x]] ! d = []" by simp
next
  fix i j d
  assume "i < length (ps[k := None])" "j < length (ps[k := None])" "ps[k := None] ! i = Some d" "ps[k := None] ! j = Some d"
  then show "i = j" using waits_okD(3) [OF w, of j d i] by (auto simp: nth_update_if split: if_splits)
next
  have "chs ! c = []" using waits_okD(2) [OF w k] .
  moreover have "list_all (\<lambda>rs. length rs \<le> 1) chs" using w by (simp add: waits_ok_def)
  ultimately show "list_all (\<lambda>rs. length rs \<le> 1) (chs[c := chs ! c @ [x]])" by (simp add: list_all_length nth_update_if)
qed

definition waiting :: "('a rest_entry_scheme, 's, 'm) server \<Rightarrow> nat option list" where
  "waiting sv = map re_pending (sm_heap (sv_manager sv))"

definition bridge_ok :: "('a rest_entry_scheme, 's, 'm) server \<Rightarrow> bool" where
  "bridge_ok sv = (waits_ok (waiting sv) (sv_channels sv) \<and>
     list_all (\<lambda>(sid, k). k < length (waiting sv)) (sm_entries (sv_manager sv)))"

lemma waiting_at: "waiting (at_entry k f sv) = (if k < length (waiting sv) then (waiting sv)[k := re_pending (f (entry_at sv k))] else waiting sv)"
  by (simp add: waiting_def at_entry_def entry_at_def Let_def map_update list_update_beyond)

lemma at_entry_same: "sv_channels (at_entry k f sv) = sv_channels sv" "sm_entries (sv_manager (at_entry k f sv)) = sm_entries (sv_manager sv)"
  by (simp_all add: at_entry_def Let_def)

lemma bridge_clear: "bridge_ok sv \<Longrightarrow> (\<And>e. re_pending (f e) = None) \<Longrightarrow> bridge_ok (at_entry k f sv)"
  by (simp add: bridge_ok_def waiting_at at_entry_same waits_clear)

lemma bridge_publish: "publish_event sid e sv = Returns sv' \<Longrightarrow> bridge_ok sv' = bridge_ok sv"
  by (auto simp: publish_event_def bridge_ok_def waiting_def Let_def split: go_ret.splits)

lemma bridge_submit:
  assumes ok: "bridge_ok sv" and k: "k < length (sm_heap (sv_manager sv))" and s: "submit_call k call sv = Returns (c, sv')"
  shows "bridge_ok sv'"
proof -
  let ?sv = "at_entry k (re_pending_update (\<lambda>_. Some (length (sv_channels sv)))) (sv\<lparr>sv_channels := sv_channels sv @ [[]]\<rparr>)"
  have w: "waiting (sv\<lparr>sv_channels := sv_channels sv @ [[]]\<rparr>) = waiting sv" by (simp add: waiting_def)
  have "bridge_ok ?sv"
    using ok waits_submit [of "waiting sv" "sv_channels sv" k] k
    by (simp add: bridge_ok_def waiting_at at_entry_same w) (simp add: waiting_def)
  moreover obtain id where "publish_event id (approval_event call) ?sv = Returns sv'"
    using s by (auto simp: submit_call_def Let_def split: go_ret.splits)
  ultimately show ?thesis using bridge_publish by blast
qed

lemma update_in_range: "list_all (\<lambda>(sid, k). k < n) m \<Longrightarrow> x < n \<Longrightarrow> list_all (\<lambda>(sid, k). k < n) (AList.update sid x m)"
  for n :: nat
  by (induction m) auto

text \<open>A call that no entry waits for is never answered.\<close>

definition lost :: "nat \<Rightarrow> ('a rest_entry_scheme, 's, 'm) server \<Rightarrow> bool" where
  "lost c sv = (c < length (sv_channels sv) \<and> sv_channels sv ! c = [] \<and> Some c \<notin> set (waiting sv))"

text \<open>A handler whose new entries wait for nothing.\<close>

locale idle_entries =
  fixes env :: "('a rest_entry_scheme, 's, 'm) manager_env"
  assumes new_idle: "re_pending (sh_new env i) = None"
begin

lemma open_entry_cases:
  assumes "open_entry env clk sid sv = (k, sv')"
  obtains "sv_channels sv' = sv_channels sv" "sm_heap (sv_manager sv') = sm_heap (sv_manager sv)"
      "sm_entries (sv_manager sv') = sm_entries (sv_manager sv)" "map_of (sm_entries (sv_manager sv)) sid = Some k"
  | i where "sv_channels sv' = sv_channels sv" "sm_heap (sv_manager sv') = sm_heap (sv_manager sv) @ [sh_new env i]"
      "sm_entries (sv_manager sv') = AList.update sid (length (sm_heap (sv_manager sv))) (sm_entries (sv_manager sv))"
      "k = length (sm_heap (sv_manager sv))"
proof (cases "map_of (sm_entries (sv_manager sv)) sid")
  case (Some j)
  with assms that(1) show thesis by (auto simp: open_entry_def get_or_create_def lookup_entry_def touch_def)
next
  case None
  define i where "i = (case fetch_stored env sid (sv_manager sv) of Some i \<Rightarrow> i | None \<Rightarrow> blank_info env sid (clk 0) (clk 1))"
  from None assms have "sv' = sv\<lparr>sv_manager := snd (insert_entry env clk sid (fetch_stored env sid (sv_manager sv)) (sv_manager sv))\<rparr>"
      "k = length (sm_heap (sv_manager sv))"
    by (auto simp: open_entry_def get_or_create_def lookup_entry_def insert_entry_def Let_def)
  moreover have "sm_heap (sync_meta x r) = sm_heap r" "sm_entries (sync_meta x r) = sm_entries r" for x and r :: "('a rest_entry_scheme, 's, 'm, sse_event) manager"
    by (simp_all add: sync_meta_def split: option.splits)
  ultimately show thesis
    by (intro that(2) [of i]) (simp_all add: insert_entry_def None Let_def add_entry_def touch_def i_def)
qed

lemma bridge_open:
  assumes ok: "bridge_ok sv" and o: "open_entry env clk sid sv = (k, sv')"
  shows "bridge_ok sv'" "k < length (waiting sv')"
proof -
  let ?h = "sm_heap (sv_manager sv)" and ?m = "sm_entries (sv_manager sv)"
  have "bridge_ok sv' \<and> k < length (waiting sv')"
  proof (rule open_entry_cases [OF o])
    assume e: "sv_channels sv' = sv_channels sv" "sm_heap (sv_manager sv') = ?h" "sm_entries (sv_manager sv') = ?m" "map_of ?m sid = Some k"
    then show ?thesis using ok map_of_SomeD [OF e(4)] by (auto simp: bridge_ok_def waiting_def list_all_iff)
  next
    fix i
    assume e: "sv_channels sv' = sv_channels sv" "sm_heap (sv_manager sv') = ?h @ [sh_new env i]"
      "sm_entries (sv_manager sv') = AList.update sid (length ?h) ?m" "k = length ?h"
    have "list_all (\<lambda>(sid, k). k < Suc (length ?h)) ?m"
      using ok by (auto simp: bridge_ok_def waiting_def elim!: list.pred_mono_strong)
    then have "list_all (\<lambda>(sid, k). k < Suc (length ?h)) (AList.update sid (length ?h) ?m)" by (rule update_in_range) simp
    then show ?thesis using ok waits_more [of "waiting sv" "sv_channels sv"] by (simp add: bridge_ok_def waiting_def e new_idle)
  qed
  then show "bridge_ok sv'" "k < length (waiting sv')" by simp_all
qed

lemma bridge_approve:
  assumes ok: "bridge_ok sv"
  shows "bridge_ok (snd (approve_request env clk sid body sv))"
proof (cases body)
  case (Some b)
  obtain allowed feedback where b: "b = (allowed, feedback)" by force
  obtain k sv1 where o: "open_entry env clk sid sv = (k, sv1)" by force
  note ok1 = bridge_open [OF ok o]
  let ?sv2 = "at_entry k (re_pending_update (\<lambda>_. None)) sv1"
  have ok2: "bridge_ok ?sv2" by (rule bridge_clear [OF ok1(1)]) simp
  have e: "entry_at sv1 k = sm_heap (sv_manager sv1) ! k" by (simp add: entry_at_def)
  show ?thesis
  proof (cases "re_pending (entry_at sv1 k)")
    case None
    then show ?thesis using ok2 by (simp add: approve_request_def Some b o Let_def)
  next
    case p: (Some c)
    have "waiting sv1 ! k = Some c" using p ok1(2) by (simp add: waiting_def entry_at_def)
    then have "waits_ok ((waiting sv1)[k := None]) ((sv_channels sv1)[c := sv_channels sv1 ! c @ [x]])" for x
      using waits_answer [of "waiting sv1" "sv_channels sv1" k c x] ok1 by (simp add: bridge_ok_def)
    then have "waits_ok (waiting ?sv2) ((sv_channels ?sv2)[c := sv_channels ?sv2 ! c @ [x]])" for x
      using ok1(2) by (simp add: waiting_at at_entry_same)
    then have "bridge_ok (?sv2\<lparr>sv_channels := (sv_channels ?sv2)[c := sv_channels ?sv2 ! c @ [x]]\<rparr>)" for x
      using ok2 by (simp add: bridge_ok_def waiting_def)
    then show ?thesis by (simp add: approve_request_def Some b o p Let_def)
  qed
qed (use ok in \<open>simp add: approve_request_def\<close>)

lemma bridge_call: "bridge_ok sv \<Longrightarrow> bridge_ok (do_bridge_call env c sv)"
  by (auto simp: do_bridge_call_def begin_run_def end_run_def bridge_clear bridge_approve
      split: bridge_call.splits go_ret.splits intro: bridge_submit)

lemma bridge_calls: "bridge_ok sv \<Longrightarrow> bridge_ok (fold (do_bridge_call env) cs sv)"
  by (induction cs arbitrary: sv) (simp_all add: bridge_call)

lemma lost_clear: "lost c sv \<Longrightarrow> (\<And>e. re_pending (f e) = None) \<Longrightarrow> lost c (at_entry k f sv)"
  using set_update_subset_insert [of "waiting sv" k None] by (auto simp: lost_def waiting_at at_entry_same)

lemma lost_submit:
  assumes l: "lost c sv" and s: "submit_call k call sv = Returns (d, sv')"
  shows "lost c sv'"
proof -
  let ?n = "length (sv_channels sv)"
  let ?sv = "at_entry k (re_pending_update (\<lambda>_. Some ?n)) (sv\<lparr>sv_channels := sv_channels sv @ [[]]\<rparr>)"
  have w: "waiting (sv\<lparr>sv_channels := sv_channels sv @ [[]]\<rparr>) = waiting sv" by (simp add: waiting_def)
  have "lost c ?sv"
    using l set_update_subset_insert [of "waiting sv" k "Some ?n"] by (auto simp: lost_def waiting_at at_entry_same w nth_append)
  moreover obtain id where "publish_event id (approval_event call) ?sv = Returns sv'"
    using s by (auto simp: submit_call_def Let_def split: go_ret.splits)
  ultimately show ?thesis by (auto simp: publish_event_def lost_def waiting_def Let_def split: go_ret.splits)
qed

lemma lost_approve:
  assumes ok: "bridge_ok sv" and l: "lost c sv"
  shows "lost c (snd (approve_request env clk sid body sv))"
proof (cases body)
  case (Some b)
  obtain allowed feedback where b: "b = (allowed, feedback)" by force
  obtain k sv1 where o: "open_entry env clk sid sv = (k, sv1)" by force
  have l1: "lost c sv1" using l by (cases rule: open_entry_cases [OF o]) (auto simp: lost_def waiting_def new_idle)
  let ?sv2 = "at_entry k (re_pending_update (\<lambda>_. None)) sv1"
  have l2: "lost c ?sv2" by (rule lost_clear [OF l1]) simp
  show ?thesis
  proof (cases "re_pending (entry_at sv1 k)")
    case None
    then show ?thesis using l2 by (simp add: approve_request_def Some b o Let_def)
  next
    case p: (Some d)
    have "k < length (waiting sv1)" by (rule bridge_open(2) [OF ok o])
    then have "Some d \<in> set (waiting sv1)" using p
      by (auto simp: waiting_def entry_at_def image_iff intro!: bexI [OF _ nth_mem])
    then have "d \<noteq> c" using l1 by (auto simp: lost_def)
    then show ?thesis using l2 by (simp add: approve_request_def Some b o p Let_def lost_def waiting_def)
  qed
qed (use l in \<open>simp add: approve_request_def\<close>)

lemma lost_call: "bridge_ok sv \<Longrightarrow> lost c sv \<Longrightarrow> lost c (do_bridge_call env call sv)"
  by (auto simp: do_bridge_call_def begin_run_def end_run_def lost_clear lost_approve
      split: bridge_call.splits go_ret.splits intro: lost_submit)

lemma lost_forever: "bridge_ok sv \<Longrightarrow> lost c sv \<Longrightarrow> lost c (fold (do_bridge_call env) cs sv)"
  by (induction cs arbitrary: sv) (simp_all add: lost_call bridge_call)

end

end
