(* ===== verification/ChatHandler.thy ===== *)
theory ChatHandler
  imports Approvals Agents
begin

text \<open>
  \<^verbatim>\<open>rest/handler.go\<close>: the REST handler of one agent. A chat request opens the session, subscribes to
  its events, picks the model and starts a run; the run's events go over the bus to the response.
  \<open>memif\<close> is the memory as the agent sees it, \<open>bridge\<close> the approver that a session's agent gets, and
  \<open>base\<close> holds the operations of the store and of the memory.
\<close>

section \<open>The handler\<close>

record model_info =
  mi_id :: string
  mi_provider :: string

record 'w chat_handler =
  ch_default :: "'w chat_model option"
  ch_models :: "'w chat_model gomap"
  ch_model_list :: "model_info list"
  ch_tools :: "'w tool list"
  ch_instructions :: string
  ch_name :: string
  ch_max_turns :: int

record 'w chat_entry = rest_entry +
  ce_agent :: "'w agent"

definition new_chat_handler :: "'w agent \<Rightarrow> 'w chat_handler" where
  "new_chat_handler a = \<lparr>ch_default = ag_model a, ch_models = [], ch_model_list = [], ch_tools = ag_tools a,
     ch_instructions = ag_instructions a, ch_name = ag_name a, ch_max_turns = ag_max_turns a\<rparr>"

definition register_model :: "string \<Rightarrow> 'w chat_model \<Rightarrow> string \<Rightarrow> 'w chat_handler \<Rightarrow> 'w chat_handler" where
  "register_model mid m provider h = h\<lparr>ch_models := AList.update (provider @ '':'' @ mid) m (ch_models h),
     ch_model_list := ch_model_list h @ [\<lparr>mi_id = mid, mi_provider = provider\<rparr>]\<rparr>"

text \<open>Without a provider the first match in the order Go ranges over the map.\<close>

definition lookup_model :: "'w chat_handler \<Rightarrow> string \<Rightarrow> string \<Rightarrow> 'w chat_model option" where
  "lookup_model h provider mid =
     (if provider \<noteq> [] then map_of (ch_models h) (provider @ '':'' @ mid)
      else map_option snd (find (\<lambda>(key, m). key \<noteq> ''default'' \<and> has_suffix key ('':'' @ mid)) (ch_models h)))"

definition list_models :: "'w chat_handler \<Rightarrow> model_info list" where
  "list_models h = ch_model_list h"

section \<open>Entries\<close>

definition new_chat_entry ::
  "'w chat_handler \<Rightarrow> 'w memory_if option \<Rightarrow> (string \<Rightarrow> 'w approver) \<Rightarrow> session_info \<Rightarrow> 'w chat_entry" where
  "new_chat_entry h memif bridge i = \<lparr>re_info = i, re_running = False, re_pending = None,
     ce_agent = new_agent (ch_name h)
       [WithModel (ch_default h), WithMemory memif, WithTools (ch_tools h), WithInstructions (ch_instructions h),
        WithMaxTurns (ch_max_turns h), WithRunObserver True, WithApprover (Some (bridge (si_id i)))]\<rparr>"

definition fill_detail :: "'w chat_entry \<Rightarrow> int option" where
  "fill_detail e = (case ag_model (ce_agent e) of None \<Rightarrow> None | Some m \<Rightarrow> Some (m_context_window m))"

definition chat_env ::
  "'w chat_handler \<Rightarrow> 'w memory_if option \<Rightarrow> (string \<Rightarrow> 'w approver) \<Rightarrow> ('w chat_entry, 's, 'm) manager_env
     \<Rightarrow> ('w chat_entry, 's, 'm) manager_env" where
  "chat_env h memif bridge base = base\<lparr>sh_kind := ''single'', sh_new := new_chat_entry h memif bridge, sh_info := re_info,
     sh_write := write_entry_info, sh_active := is_active, sh_window := fill_detail, sh_on_delete := (\<lambda>_ m. m)\<rparr>"

text \<open>\<^verbatim>\<open>NewHandler\<close> has a bus that keeps the last 500 events, and no store until it gets one.\<close>

definition new_chat_server :: "'s option \<Rightarrow> 'm option \<Rightarrow> ('e, 's, 'm) server" where
  "new_chat_server st mem = \<lparr>sv_manager = new_manager st mem (new_bus 500), sv_channels = []\<rparr>"

interpretation chat_entries: session_entries "chat_env h memif bridge base" for h memif bridge base
  by unfold_locales (simp_all add: chat_env_def new_chat_entry_def write_entry_info_def)

interpretation chat_idle: idle_entries "chat_env h memif bridge base" for h memif bridge base
  by unfold_locales (simp add: chat_env_def new_chat_entry_def)

text \<open>With the file store.\<close>

definition file_backed ::
  "(session_info gomap \<Rightarrow> string) \<Rightarrow> (string \<Rightarrow> session_info gomap) \<Rightarrow> (session_info list \<Rightarrow> session_info list)
     \<Rightarrow> ('e, file_store, 'm) manager_env \<Rightarrow> ('e, file_store, 'm) manager_env" where
  "file_backed enc dec ord base = base\<lparr>st_save := file_save (sound_io enc dec ord), st_get := file_get,
     st_list := file_list (sound_io enc dec ord), st_delete := file_remove (sound_io enc dec ord)\<rparr>"

interpretation chat_registry: session_registry "chat_env h memif bridge (file_backed enc dec ord base)"
  "file_store_good enc" "\<lambda>s. map_of (fs_sessions s)" "\<lambda>i. i"
  for h memif bridge enc dec ord base
proof -
  have ops: "st_save (chat_env h memif bridge (file_backed enc dec ord base)) = file_save (sound_io enc dec ord)"
    "st_get (chat_env h memif bridge (file_backed enc dec ord base)) = file_get"
    "st_list (chat_env h memif bridge (file_backed enc dec ord base)) = file_list (sound_io enc dec ord)"
    "st_delete (chat_env h memif bridge (file_backed enc dec ord base)) = file_remove (sound_io enc dec ord)"
    by (simp_all add: chat_env_def file_backed_def)
  show "session_registry (chat_env h memif bridge (file_backed enc dec ord base)) (file_store_good enc) (\<lambda>s. map_of (fs_sessions s)) (\<lambda>i. i)"
    unfolding session_registry_def ops by (intro conjI chat_entries.session_entries_axioms file_sessions.session_store_axioms)
qed

section \<open>A chat request\<close>

record chat_body =
  cb_message :: string
  cb_model :: string
  cb_provider :: string

record 'w chat_job =
  cj_entry :: nat
  cj_sub :: nat
  cj_session :: "'w session"
  cj_input :: message

text \<open>The provider and the model of the request, or else those of the session.\<close>

definition pick_model ::
  "('w chat_entry, 's, 'm) manager_env \<Rightarrow> int \<Rightarrow> string \<Rightarrow> chat_body \<Rightarrow> ('w chat_entry, 's, 'm) server
     \<Rightarrow> (string \<times> string) \<times> ('w chat_entry, 's, 'm) server" where
  "pick_model env now sid b sv =
     (if cb_provider b = [] \<and> cb_model b = [] then
        case with_meta env now sid (\<lambda>i. i) (sv_manager sv) of
          (None, r) \<Rightarrow> (([], []), sv\<lparr>sv_manager := r\<rparr>)
        | (Some i, r) \<Rightarrow> ((si_provider i, si_model i), sv\<lparr>sv_manager := r\<rparr>)
      else ((cb_provider b, cb_model b), sv))"

definition keep_model ::
  "('w chat_entry, 's, 'm) manager_env \<Rightarrow> int \<Rightarrow> string \<Rightarrow> string \<Rightarrow> string \<Rightarrow> ('w chat_entry, 's, 'm) server
     \<Rightarrow> ('w chat_entry, 's, 'm) server" where
  "keep_model env now sid provider mid sv =
     (case with_meta env now sid (\<lambda>i. i\<lparr>si_model := mid, si_provider := provider\<rparr>) (sv_manager sv) of
        (None, r) \<Rightarrow> sv\<lparr>sv_manager := r\<rparr>
      | (Some i, r) \<Rightarrow> sv\<lparr>sv_manager := sync_meta i r\<rparr>)"

definition subscribe_live :: "string \<Rightarrow> ('e, 's, 'm) server \<Rightarrow> nat \<times> ('e, 's, 'm) server" where
  "subscribe_live sid sv =
     (case subscribe False sid (sm_bus (sv_manager sv)) of (k, b) \<Rightarrow> (k, sv\<lparr>sv_manager := (sv_manager sv)\<lparr>sm_bus := b\<rparr>\<rparr>))"

text \<open>\<open>body\<close> is the decoded request, \<open>flushable\<close> whether the response can be flushed.\<close>

definition start_chat ::
  "'w chat_handler \<Rightarrow> ('w chat_entry, 's, 'm) manager_env \<Rightarrow> (nat \<Rightarrow> int) \<Rightarrow> string \<Rightarrow> chat_body option \<Rightarrow> bool
     \<Rightarrow> ('w chat_entry, 's, 'm) server \<Rightarrow> (reply + 'w chat_job) \<times> ('w chat_entry, 's, 'm) server" where
  "start_chat h env clk sid body flushable sv =
     (case body of
        None \<Rightarrow> (Inl (Reply 400 (BodyError ''message is required'')), sv)
      | Some b \<Rightarrow>
          if cb_message b = [] then (Inl (Reply 400 (BodyError ''message is required'')), sv)
          else case open_entry env clk sid sv of
            (k, sv1) \<Rightarrow>
              let sv2 = begin_run k sv1 in
              if \<not> flushable then (Inl (Reply 500 (BodyError ''streaming not supported'')), sv2)
              else case subscribe_live sid sv2 of
                (sub, sv3) \<Rightarrow>
                  (case pick_model env (clk 3) sid b sv3 of
                     ((provider, mid), sv4) \<Rightarrow>
                       let model = (case lookup_model h provider mid of None \<Rightarrow> ch_default h | Some m \<Rightarrow> Some m)
                       in (Inr \<lparr>cj_entry = k, cj_sub = sub,
                             cj_session = (new_session sid)\<lparr>ses_model_id := mid, ses_model := model\<rparr>,
                             cj_input = user_message (cb_message b)\<rparr>,
                           keep_model env (clk 4) sid provider mid sv4)))"

text \<open>
  The goroutine: every event of the run is published, until the client is found to be gone (\<open>gone n\<close>
  before the \<open>n\<close>th event). Then the run counts as over.
\<close>

fun forward_chat ::
  "(nat \<Rightarrow> bool) \<Rightarrow> string \<Rightarrow> nat \<Rightarrow> stream_event list \<Rightarrow> ('e, 's, 'm) server \<Rightarrow> ('e, 's, 'm) server go_ret" where
  "forward_chat gone sid n [] sv = Returns sv"
| "forward_chat gone sid n (e # es) sv =
     (case stream_to_sse e of
        Panics p \<Rightarrow> Panics p
      | Returns se \<Rightarrow>
          if gone n then Returns sv
          else case publish_event sid se sv of
            Panics p \<Rightarrow> Panics p
          | Returns sv1 \<Rightarrow> forward_chat gone sid (Suc n) es sv1)"

definition run_chat ::
  "'w runtime \<Rightarrow> 'w sub_runner \<Rightarrow> (nat \<Rightarrow> bool) \<Rightarrow> string \<Rightarrow> 'w chat_job \<Rightarrow> ('w chat_entry, 's, 'm) server \<Rightarrow> 'w
     \<Rightarrow> ('w chat_entry, 's, 'm) server go_ret \<times> 'w" where
  "run_chat rt sub gone sid job sv w =
     (case run_agent rt sub (ce_agent (entry_at sv (cj_entry job))) (cj_session job) [] (cj_input job) True w of
        ((es, r), w') \<Rightarrow>
          ((case forward_chat gone sid 0 es sv of Panics p \<Rightarrow> Panics p | Returns sv1 \<Rightarrow> Returns (end_run (cj_entry job) sv1)), w'))"

text \<open>The response: the frames of what the subscription delivers, up to the end of the run.\<close>

definition chat_response ::
  "(sse_event \<Rightarrow> go_err + string) \<Rightarrow> (string list \<Rightarrow> go_err option) \<Rightarrow> sse_event list \<Rightarrow> bool \<times> string list" where
  "chat_response enc broken es = relay chat_closes enc broken es []"

definition chat_approve ::
  "('w chat_entry, 's, 'm) manager_env \<Rightarrow> (nat \<Rightarrow> int) \<Rightarrow> string \<Rightarrow> (bool \<times> string) option \<Rightarrow> ('w chat_entry, 's, 'm) server
     \<Rightarrow> reply \<times> ('w chat_entry, 's, 'm) server" where
  "chat_approve env clk sid body sv = approve_request env clk sid body sv"

text \<open>
  \<^verbatim>\<open>stageObserver\<close>: \<open>enc\<close> is \<^verbatim>\<open>json.Marshal\<close> on what it makes of a stage event; a stage that does not
  marshal is published as an error.
\<close>

definition stage_to_sse :: "('stage \<Rightarrow> go_err + string) \<Rightarrow> 'stage \<Rightarrow> sse_event" where
  "stage_to_sse enc st =
     (case enc st of
        Inl e \<Rightarrow> sse_text ''error'' (''stage marshal failed: '' @ err_text e)
      | Inr b \<Rightarrow> (sse ''stage'')\<lparr>se_stage := Some b\<rparr>)"

section \<open>What a chat request shows\<close>

lemma converted_closes:
  assumes "map Returns xs = map stream_to_sse es"
  shows "(\<exists>e\<in>set xs. chat_closes e) \<longleftrightarrow> (\<exists>e\<in>set es. is_terminal e \<and> (\<forall>x. e \<noteq> StreamAborted x))"
  using assms
proof (induction es arbitrary: xs)
  case (Cons e es)
  then obtain x ys where xs: "xs = x # ys" "stream_to_sse e = Returns x" "map Returns ys = map stream_to_sse es" by (cases xs) auto
  then show ?case using Cons.IH [OF xs(3)] stream_to_sse_closes [OF xs(2)] by simp
qed simp

lemma failure_terminal: "is_failure x \<Longrightarrow> is_terminal x"
  by (cases x) (simp_all add: is_failure_def)

text \<open>
  A reader that keeps up with the run gets, over the bus, every event of a streaming run and of
  its stages in order, and its response ends if and only if the run was not aborted: then it has
  written the frame of every event up to the final one. After an abort the response stays open.
\<close>

theorem chat_response_ends:
  assumes fair: "fair_order rt" and run: "run_agent rt sub a ses pre input True w = ((es, r), w')"
    and bus: "bus_ok b" "subscribe False sid b = (k, b1)"
    and events: "map Returns (filter (\<lambda>e. se_type e \<noteq> ''stage'') sent) = map stream_to_sse es"
    and enc: "\<And>e. enc e = Inr (render e)"
  shows "(\<exists>b2. pump sid k sent b1 = Returns (sent, b2)) \<and>
    chat_response enc (\<lambda>_. None) sent =
      (\<forall>e. last es \<noteq> StreamAborted e, map (\<lambda>e. frame (render e)) (upto_close chat_closes sent))"
proof -
  obtain es' x where e: "es = es' @ [x]" "filter is_terminal es' = []" "is_terminal x"
    using run_agent_stream [OF fair run] failure_terminal
    by (cases r) auto
  have stage: "\<not> chat_closes e" if "se_type e = ''stage''" for e using that by (simp add: chat_closes_def)
  have "(\<exists>e\<in>set sent. chat_closes e) \<longleftrightarrow> (\<exists>e\<in>set (filter (\<lambda>e. se_type e \<noteq> ''stage'') sent). chat_closes e)"
    using stage by auto
  also have "\<dots> \<longleftrightarrow> (\<exists>e\<in>set es. is_terminal e \<and> (\<forall>x. e \<noteq> StreamAborted x))" by (rule converted_closes [OF events])
  also have "\<dots> \<longleftrightarrow> (\<forall>e. last es \<noteq> StreamAborted e)" using e by (auto simp: filter_empty_conv)
  finally show ?thesis
    using pump_delivers [OF subscribe_listens [OF bus], of sent] relay_total [of enc render chat_closes sent "[]", OF enc]
    by (auto simp: chat_response_def)
qed

theorem chat_response_ends_witness:
  "fst (chat_response (\<lambda>e. Inr (se_type e)) (\<lambda>_. None)
     [(sse ''stage'')\<lparr>se_stage := Some ''x''\<rparr>, sse_text ''error'' (err_text (no_model_error (base_agent ''a'' :: nat agent)))])"
proof -
  let ?es = "[StreamError (no_model_error (base_agent ''a'' :: nat agent))]"
  let ?evs = "[(sse ''stage'')\<lparr>se_stage := Some ''x''\<rparr>, sse_text ''error'' (err_text (no_model_error (base_agent ''a'' :: nat agent)))]"
  have run: "run_agent nat_runtime no_sub_runner (base_agent ''a'') (new_session ''s'') [] (user_message ''hi'') True 0 =
      ((?es, Inl (no_model_error (base_agent ''a''))), 0)"
    by (simp add: run_agent_def base_agent_def no_model_error_def)
  obtain k b1 where s: "subscribe False ''s'' (new_bus 500 :: sse_event bus) = (k, b1)" by force
  have ev: "map Returns (filter (\<lambda>e. se_type e \<noteq> ''stage'') ?evs) = map stream_to_sse ?es"
    by (simp add: sse_def sse_text_def no_model_error_def base_agent_def)
  from chat_response_ends [OF fair_nat_runtime run bus_ok_new s ev refl] show ?thesis by simp
qed

text \<open>
  C35: Whatever the order of submitted tool calls, approvals, and starts and ends of runs, in any
  sessions, the handler sends at most one response to a call: the channel of a call never holds
  two, so no send on it blocks, and a call of which a later one took the place gets no answer.
\<close>

theorem approvals_answered_once:
  fixes sv :: "('w chat_entry, 's, 'm) server"
  assumes "sv = fold (do_bridge_call (chat_env h memif bridge base)) cs (new_chat_server st mem)"
  shows "list_all (\<lambda>rs. length rs \<le> 1) (sv_channels sv) \<and>
    (\<forall>c < length (sv_channels sv). sv_channels sv ! c = [] \<and> Some c \<notin> set (waiting sv) \<longrightarrow>
       (\<forall>ds. sv_channels (fold (do_bridge_call (chat_env h memif bridge base)) ds sv) ! c = []))"
proof -
  have "bridge_ok (new_chat_server st mem :: ('w chat_entry, 's, 'm) server)"
    by (simp add: bridge_ok_def waits_ok_def waiting_def new_chat_server_def new_manager_def)
  from chat_idle.bridge_calls [OF this, of h memif bridge base cs] have ok: "bridge_ok sv" by (simp add: assms)
  have "sv_channels (fold (do_bridge_call (chat_env h memif bridge base)) ds sv) ! c = []"
    if "c < length (sv_channels sv)" "sv_channels sv ! c = []" "Some c \<notin> set (waiting sv)" for c ds
  proof -
    have "lost c sv" using that by (simp add: lost_def)
    from chat_idle.lost_forever [OF ok this, of h memif bridge base ds] show ?thesis by (simp add: lost_def)
  qed
  moreover have "list_all (\<lambda>rs. length rs \<le> 1) (sv_channels sv)" using ok by (simp add: bridge_ok_def waits_ok_def)
  ultimately show ?thesis by blast
qed

section \<open>Eviction\<close>

lemma store_title:
  "sm_store (snd (write_title (chat_env h memif bridge (file_backed enc dec ord base)) clk sid title r)) = sm_store r"
proof -
  obtain out r1 where w: "with_meta (chat_env h memif bridge (file_backed enc dec ord base)) (clk 4) sid (set_title (clk 3) title) r = (out, r1)"
    by force
  then have "sm_store r1 = sm_store r" using chat_registry.store_meta by (metis snd_conv)
  then show ?thesis by (cases out) (simp_all add: write_title_def w)
qed

lemma store_kept:
  assumes "sm_store r \<noteq> None"
  shows "sm_store (do_manager_call (chat_env h memif bridge (file_backed enc dec ord base)) c r) \<noteq> None"
proof (cases c)
  case (CallUpdate clk sid body)
  then show ?thesis using assms by (cases body) (simp_all add: update_session_def store_title restore_stored_def)
qed (use assms in \<open>auto simp: create_session_def add_entry_def Let_def finish_save_def delete_session_def forget_entry_def\<close>)

lemma store_kept_all: "sm_store r \<noteq> None \<Longrightarrow>
    sm_store (fold (do_manager_call (chat_env h memif bridge (file_backed enc dec ord base))) cs r) \<noteq> None"
proof (induction cs arbitrary: r)
  case (Cons c cs)
  show ?case using Cons.IH [OF store_kept [OF Cons.prems]] by simp
qed simp

text \<open>
  C36: A session that was evicted because nobody used it is found again as it was: after any calls
  of the handler, if its entry is idle and none of its saves is under way, then once the saves the
  eviction started have happened, in whatever order, the next request for it gets an entry with
  the metadata it had, only the time of the update being that of the eviction.
\<close>

theorem eviction_restores:
  fixes mem :: "'m option" and h :: "'w chat_handler"
  assumes env: "env = chat_env h memif bridge (file_backed enc dec ord base)"
    and r: "r = fold (do_manager_call env) cs (new_manager (Some (fresh_file_store dir)) mem (new_bus 500 :: sse_event bus))" "list_all fair_call cs"
    and k: "map_of (sm_entries r) sid = Some k" and none: "filter (\<lambda>i. si_id i = sid) (sm_saving r) = []"
    and idle: "map_of (sm_access r) sid = Some seen" "maxIdle \<le> now - seen" "\<not> is_active (sm_heap r ! k)"
    and saved: "sm_saving (fold (finish_save env) is (evict_idle env now maxIdle r)) = []"
  shows "\<exists>k' r'. get_or_create env clk sid (fold (finish_save env) is (evict_idle env now maxIdle r)) = (k', r') \<and>
    map_of (sm_entries r') sid = Some k' \<and> re_info (sm_heap r' ! k') = (re_info (sm_heap r ! k))\<lparr>si_updated := now\<rparr>"
proof -
  let ?r0 = "new_manager (Some (fresh_file_store dir)) mem (new_bus 500 :: sse_event bus)"
  have e: "sh_info env = re_info" "sh_active env = is_active" by (simp_all add: env chat_env_def)
  have "manager_ok (file_store_good enc) (\<lambda>s. map_of (fs_sessions s)) env ?r0"
    using fresh_store_good [of enc dir]
    by (simp add: manager_ok_def entries_ok_def map_ok_def new_manager_def) (simp add: fresh_file_store_def)
  from chat_registry.manager_calls [OF this [unfolded env] r(2)]
  have ok: "manager_ok (file_store_good enc) (\<lambda>s. map_of (fs_sessions s)) env r" by (simp add: r(1) env)
  have "sm_store r \<noteq> None" unfolding r(1) env by (rule store_kept_all) (simp add: new_manager_def)
  then obtain st where st: "sm_store r = Some st" by blast
  show ?thesis
    using chat_registry.evicted_restored [OF ok [unfolded env] st k none idle(1,2) _ saved [unfolded env]] idle(3)
    unfolding env [symmetric] e by blast
qed

definition plain_chat :: "nat chat_handler" where
  "plain_chat = new_chat_handler (base_agent ''a'')"

definition no_memory :: "(nat chat_entry, file_store, unit) manager_env" where
  "no_memory = \<lparr>sh_kind = [], sh_new = new_chat_entry plain_chat None (\<lambda>_ _ _ _ w. ((True, []), w)), sh_info = re_info,
     sh_write = write_entry_info, sh_active = is_active, sh_window = fill_detail, sh_on_delete = (\<lambda>_ m. m),
     st_save = (\<lambda>_ s. (None, s)), st_get = (\<lambda>_ _. Inr None), st_list = (\<lambda>_ _. Inr []), st_delete = (\<lambda>_ s. (None, s)),
     me_count = (\<lambda>_ _. Inr 0), me_recent = (\<lambda>_ _ _ _. Inr []), me_delete = (\<lambda>_ m. (None, m))\<rparr>"

definition plain_env :: "(nat chat_entry, file_store, unit) manager_env" where
  "plain_env = chat_env plain_chat None (\<lambda>_ _ _ _ w. ((True, []), w)) (file_backed put_infos read_infos (\<lambda>l. l) no_memory)"

definition used_once :: "(nat chat_entry, file_store, unit, sse_event) manager" where
  "used_once = fold (do_manager_call plain_env) [CallUse (\<lambda>i. 3) ''s'', CallSaved 0]
     (new_manager (Some (fresh_file_store ''d'')) None (new_bus 500))"

theorem eviction_restores_witness:
  "\<exists>k' r'. get_or_create plain_env (\<lambda>_. 99) ''s'' (finish_save plain_env 0 (evict_idle plain_env 50 10 used_once)) = (k', r') \<and>
     re_info (sm_heap r' ! k') = \<lparr>si_id = ''s'', si_title = [], si_kind = ''single'', si_model = [], si_provider = [],
       si_created = 3, si_updated = 50\<rparr>"
proof -
  have k: "map_of (sm_entries used_once) ''s'' = Some 0" by code_simp
  have none: "filter (\<lambda>i. si_id i = ''s'') (sm_saving used_once) = []" by code_simp
  have idle: "map_of (sm_access used_once) ''s'' = Some 3" "(10::int) \<le> 50 - 3" "\<not> is_active (sm_heap used_once ! 0)" by code_simp+
  have saved: "sm_saving (fold (finish_save plain_env) [0] (evict_idle plain_env 50 10 used_once)) = []" by code_simp
  have i: "re_info (sm_heap used_once ! 0) = \<lparr>si_id = ''s'', si_title = [], si_kind = ''single'', si_model = [], si_provider = [],
       si_created = 3, si_updated = 3\<rparr>" by code_simp
  show ?thesis
    using eviction_restores [OF plain_env_def used_once_def _ k none idle saved, of "\<lambda>_. 99"] i by auto
qed

section \<open>Limits\<close>

text \<open>
  A response that cannot be streamed leaves the entry running for good. A second call that is
  submitted takes the place of the first, which \<open>approvals_answered_once\<close> leaves without an answer.
  A reader that is 64 events behind does not get the event that would end its response.
\<close>

definition plain_server :: "(nat chat_entry, file_store, unit) server" where
  "plain_server = new_chat_server (Some (fresh_file_store ''d'')) None"

lemma unflushable_chat_stays_active:
  "case start_chat plain_chat plain_env (\<lambda>_. 3) ''s'' (Some \<lparr>cb_message = ''hi'', cb_model = [], cb_provider = []\<rparr>) False plain_server of
     (out, sv) \<Rightarrow> isl out \<and> is_active (entry_at sv 0)"
  by code_simp

definition two_submits :: "bridge_call list" where
  "two_submits = [ApproveCall (\<lambda>_. 3) ''s'' (Some (True, [])), SubmitCall 0 (plain_call ''1'' ''f'' []), SubmitCall 0 (plain_call ''2'' ''g'' [])]"

lemma second_submit_takes_place:
  "waiting (fold (do_bridge_call plain_env) two_submits plain_server) = [Some 1]"
  by code_simp

lemma slow_reader_misses_end:
  "try_send (sse ''done'') (fold try_send (replicate 64 (sse ''text_delta'')) []) = replicate 64 (sse ''text_delta'')"
  by code_simp

theorem approvals_answered_once_witness:
  "\<forall>ds. sv_channels (fold (do_bridge_call plain_env) ds (fold (do_bridge_call plain_env) two_submits plain_server)) ! 0 = []"
proof -
  let ?sv = "fold (do_bridge_call plain_env) two_submits plain_server"
  have sv: "?sv = fold (do_bridge_call (chat_env plain_chat None (\<lambda>_ _ _ _ w. ((True, []), w))
      (file_backed put_infos read_infos (\<lambda>l. l) no_memory))) two_submits (new_chat_server (Some (fresh_file_store ''d'')) None)"
    by (simp add: plain_env_def plain_server_def)
  have f: "0 < length (sv_channels ?sv)" "sv_channels ?sv ! 0 = []" "Some 0 \<notin> set (waiting ?sv)" by code_simp+
  show ?thesis using approvals_answered_once [OF sv] f unfolding plain_env_def [symmetric] by blast
qed

end
