(* ===== verification/MemoryContract.thy ===== *)
theory MemoryContract
  imports Messages "HOL-Library.Sublist"
begin

text \<open>
  The contract of \<^verbatim>\<open>Memory\<close> in \<^verbatim>\<open>memory.go\<close>, as far as the runner and the tools rely on it: the
  history of a session is the list of what was appended to it, \<^verbatim>\<open>Recent\<close> returns an end of it,
  \<^verbatim>\<open>Count\<close> its length, \<^verbatim>\<open>DeleteSession\<close> empties it, and sessions are apart. A backend numbers the
  messages it stores and may drop fields; \<open>kept\<close> is what it keeps of a message.
\<close>

definition newest :: "int \<Rightarrow> 'a list \<Rightarrow> 'a list" where
  "newest n xs = drop (length xs - nat n) xs"

lemma newest_map: "newest n (map f xs) = map f (newest n xs)"
  by (simp add: newest_def drop_map)

lemma suffix_newest: "suffix (newest n xs) xs"
  by (simp add: newest_def suffix_drop)

lemma length_newest: "length (newest n xs) \<le> nat n"
  by (simp add: newest_def)

text \<open>A client: appends (\<open>Some\<close>) and deletions (\<open>None\<close>) on sessions, and what they leave.\<close>

fun work ::
  "(string \<Rightarrow> message \<Rightarrow> 'm \<Rightarrow> go_err option \<times> 'm) \<Rightarrow> (string \<Rightarrow> 'm \<Rightarrow> go_err option \<times> 'm) \<Rightarrow>
   (string \<times> message option) list \<Rightarrow> 'm \<Rightarrow> 'm" where
  "work store wipe [] m = m"
| "work store wipe ((sid, Some x) # ops) m = work store wipe ops (snd (store sid x m))"
| "work store wipe ((sid, None) # ops) m = work store wipe ops (snd (wipe sid m))"

fun written :: "(message \<Rightarrow> message) \<Rightarrow> string \<Rightarrow> (string \<times> message option) list \<Rightarrow> message list \<Rightarrow> message list" where
  "written kept sid [] acc = acc"
| "written kept sid ((s, x) # ops) acc =
     written kept sid ops (if s \<noteq> sid then acc else case x of None \<Rightarrow> [] | Some y \<Rightarrow> acc @ [kept y])"

text \<open>What is appended can be stored, and the other sessions are apart from \<open>sid\<close>.\<close>

definition fit ::
  "(message \<Rightarrow> bool) \<Rightarrow> (string \<Rightarrow> string \<Rightarrow> bool) \<Rightarrow> string \<Rightarrow> (string \<times> message option) list \<Rightarrow> bool" where
  "fit storable apart sid ops =
     list_all (\<lambda>(s, x). (s = sid \<or> apart s sid) \<and> (case x of None \<Rightarrow> True | Some y \<Rightarrow> storable y)) ops"

locale memory_backend =
  fixes good :: "'m \<Rightarrow> bool"
    and log :: "string \<Rightarrow> 'm \<Rightarrow> message list"
    and kept :: "message \<Rightarrow> message"
    and storable :: "message \<Rightarrow> bool"
    and apart :: "string \<Rightarrow> string \<Rightarrow> bool"
    and store :: "string \<Rightarrow> message \<Rightarrow> 'm \<Rightarrow> go_err option \<times> 'm"
    and recent :: "string \<Rightarrow> int \<Rightarrow> 'm \<Rightarrow> go_err + message list"
    and count :: "string \<Rightarrow> 'm \<Rightarrow> go_err + int"
    and wipe :: "string \<Rightarrow> 'm \<Rightarrow> go_err option \<times> 'm"
  assumes append_ok: "good m \<Longrightarrow> storable x \<Longrightarrow> store sid x m = (e, m') \<Longrightarrow>
      e = None \<and> good m' \<and> map kept (log sid m') = map kept (log sid m) @ [kept x]"
    and append_apart: "good m \<Longrightarrow> storable x \<Longrightarrow> store sid x m = (e, m') \<Longrightarrow> apart sid sid' \<Longrightarrow> log sid' m' = log sid' m"
    and recent_ok: "good m \<Longrightarrow> 0 < n \<Longrightarrow> \<exists>ms. recent sid n m = Inr ms \<and> suffix ms (log sid m) \<and> int (length ms) \<le> n"
    and count_ok: "good m \<Longrightarrow> count sid m = Inr (int (length (log sid m)))"
    and delete_ok: "good m \<Longrightarrow> wipe sid m = (e, m') \<Longrightarrow> e = None \<and> good m' \<and> log sid m' = []"
    and delete_apart: "good m \<Longrightarrow> wipe sid m = (e, m') \<Longrightarrow> apart sid sid' \<Longrightarrow> log sid' m' = log sid' m"
begin

lemma work_log:
  "good m \<Longrightarrow> fit storable apart sid ops \<Longrightarrow> map kept (log sid m) = acc \<Longrightarrow>
   good (work store wipe ops m) \<and> map kept (log sid (work store wipe ops m)) = written kept sid ops acc"
proof (induction ops arbitrary: m acc)
  case (Cons op ops)
  obtain s x where op: "op = (s, x)" by force
  have fit: "fit storable apart sid ops" "s = sid \<or> apart s sid" using Cons.prems(2) by (auto simp: fit_def op)
  show ?case
  proof (cases x)
    case None
    obtain e m' where d: "wipe s m = (e, m')" by force
    note ok = delete_ok [OF Cons.prems(1) d] and ap = delete_apart [OF Cons.prems(1) d]
    have "map kept (log sid m') = (if s \<noteq> sid then acc else [])" using fit(2) ok ap Cons.prems(3) by auto
    from Cons.IH [OF _ fit(1) this] ok show ?thesis by (simp add: op None d)
  next
    case (Some y)
    obtain e m' where a: "store s y m = (e, m')" by force
    have y: "storable y" using Cons.prems(2) by (simp add: fit_def op Some)
    note ok = append_ok [OF Cons.prems(1) y a] and ap = append_apart [OF Cons.prems(1) y a]
    have "map kept (log sid m') = (if s \<noteq> sid then acc else acc @ [kept y])" using fit(2) ok ap Cons.prems(3) by auto
    from Cons.IH [OF _ fit(1) this] ok show ?thesis by (simp add: op Some a)
  qed
qed simp

lemma work_count:
  assumes "good m" "fit storable apart sid ops" "log sid m = []"
  shows "count sid (work store wipe ops m) = Inr (int (length (written kept sid ops [])))"
proof -
  have w: "good (work store wipe ops m)" "map kept (log sid (work store wipe ops m)) = written kept sid ops []"
    using work_log [OF assms(1,2)] assms(3) by auto
  show ?thesis using count_ok [OF w(1)] by (simp add: w(2) [symmetric])
qed

lemma work_recent_suffix:
  assumes "good m" "fit storable apart sid ops" "log sid m = []" "0 < n"
  shows "\<exists>ms. recent sid n (work store wipe ops m) = Inr ms \<and> suffix (map kept ms) (written kept sid ops []) \<and> int (length ms) \<le> n"
proof -
  have w: "good (work store wipe ops m)" "map kept (log sid (work store wipe ops m)) = written kept sid ops []"
    using work_log [OF assms(1,2)] assms(3) by auto
  obtain ms where "recent sid n (work store wipe ops m) = Inr ms" "suffix ms (log sid (work store wipe ops m))" "int (length ms) \<le> n"
    using recent_ok [OF w(1) assms(4)] by blast
  then show ?thesis using w(2) map_mono_suffix [of ms _ kept] by metis
qed

end

text \<open>A backend whose \<^verbatim>\<open>Recent\<close> returns as much as it is asked for.\<close>

locale exact_memory = memory_backend +
  assumes recent_exact: "good m \<Longrightarrow> 0 < n \<Longrightarrow> recent sid n m = Inr (newest n (log sid m))"
begin

lemma work_recent:
  assumes "good m" "fit storable apart sid ops" "log sid m = []" "0 < n"
  shows "\<exists>ms. recent sid n (work store wipe ops m) = Inr ms \<and> map kept ms = newest n (written kept sid ops [])"
proof -
  have w: "good (work store wipe ops m)" "map kept (log sid (work store wipe ops m)) = written kept sid ops []"
    using work_log [OF assms(1,2)] assms(3) by auto
  then show ?thesis using recent_exact [OF w(1) assms(4)] w(2) by (simp add: newest_map [symmetric])
qed

end

end
