(* ===== verification/FileMemory.thy ===== *)
theory FileMemory
  imports MemoryContract "HOL-Library.Multiset"
begin

text \<open>
  \<^verbatim>\<open>memory/file/memory.go\<close>. The disk is a map from paths to contents. \<^verbatim>\<open>encoding/json\<close> on
  messages and compressed contexts is a parameter (\<open>codec\<close>), and so are the failures of the file
  system and of the context (\<open>faults\<close>): \<open>ctx_err i\<close> is what the context answers when it is asked for
  the \<open>i\<close>th time in a call. The locks make every operation atomic.
\<close>

section \<open>Parameters and state\<close>

record codec =
  enc_msg :: "message \<Rightarrow> go_err + string"
  dec_msg :: "string \<Rightarrow> message option"
  enc_cc :: "compressed_context \<Rightarrow> go_err + string"
  dec_cc :: "string \<Rightarrow> compressed_context option"

record faults =
  ctx_err :: "nat \<Rightarrow> go_err option"
  open_err :: "string \<Rightarrow> go_err option"
  scan_err :: "string \<Rightarrow> go_err option"
  create_err :: "string \<Rightarrow> go_err option"
  write_err :: "string \<Rightarrow> (nat \<times> go_err) option"
  remove_fails :: "string \<Rightarrow> bool"

definition no_faults :: faults where
  "no_faults = \<lparr>ctx_err = (\<lambda>_. None), open_err = (\<lambda>_. None), scan_err = (\<lambda>_. None), create_err = (\<lambda>_. None),
     write_err = (\<lambda>_. None), remove_fails = (\<lambda>_. False)\<rparr>"

type_synonym summarizer = "message list \<Rightarrow> compressed_context option \<Rightarrow> go_err + compressed_context option"

record file_memory =
  fm_dir :: string
  fm_sep :: char
  fm_summarizer :: "summarizer option"
  fm_next :: "int gomap"
  fm_disk :: "string gomap"

text \<open>\<^verbatim>\<open>New\<close> on a directory that exists or can be made.\<close>

definition open_memory :: "string \<Rightarrow> char \<Rightarrow> string gomap \<Rightarrow> file_memory" where
  "open_memory dir sep disk = \<lparr>fm_dir = dir, fm_sep = sep, fm_summarizer = None, fm_next = [], fm_disk = disk\<rparr>"

definition with_summarizer :: "summarizer option \<Rightarrow> file_memory \<Rightarrow> file_memory" where
  "with_summarizer s m = m\<lparr>fm_summarizer := s\<rparr>"

section \<open>Paths\<close>

definition safe_name :: "char \<Rightarrow> string \<Rightarrow> string" where
  "safe_name sep sid =
     map (\<lambda>c. if c = sep then CHR ''_'' else c) (map (\<lambda>c. if c = CHR ''/'' then CHR ''_'' else c) sid)"

definition session_path :: "file_memory \<Rightarrow> string \<Rightarrow> string" where
  "session_path m sid = fm_dir m @ [fm_sep m] @ safe_name (fm_sep m) sid @ ''.jsonl''"

definition compressed_path :: "file_memory \<Rightarrow> string \<Rightarrow> string" where
  "compressed_path m sid = fm_dir m @ [fm_sep m] @ safe_name (fm_sep m) sid @ ''.compressed.json''"

section \<open>Lines\<close>

text \<open>
  \<^verbatim>\<open>bufio.Scanner\<close> with \<^verbatim>\<open>ScanLines\<close>: a line of \<open>limit\<close> bytes or more does not fit its buffer and
  ends the scan with an error; a carriage return before the newline is dropped.
\<close>

definition newline :: char where "newline = CHR 0x0A"

definition drop_cr :: "string \<Rightarrow> string" where
  "drop_cr l = (if l \<noteq> [] \<and> last l = CHR 0x0D then butlast l else l)"

function scan_lines :: "int \<Rightarrow> string \<Rightarrow> string list \<times> bool" where
  "scan_lines limit s =
     (if s = [] then ([], False)
      else let l = takeWhile (\<lambda>c. c \<noteq> newline) s in
        if limit \<le> int (length l) then ([], True)
        else case dropWhile (\<lambda>c. c \<noteq> newline) s of
            [] \<Rightarrow> ([drop_cr l], False)
          | _ # rest \<Rightarrow> (case scan_lines limit rest of (ls, tooLong) \<Rightarrow> (drop_cr l # ls, tooLong)))"
  by pat_completeness auto
termination
proof (relation "measure (\<lambda>(limit, s). length s)")
  fix limit :: int and s l :: string and c rest
  assume "dropWhile (\<lambda>c. c \<noteq> newline) s = c # rest"
  then have "length (c # rest) \<le> length s" by (metis length_dropWhile_le)
  then show "((limit, rest), limit, s) \<in> measure (\<lambda>(limit, s). length s)" by simp
qed simp

declare scan_lines.simps [simp del]

definition read_limit :: int where "read_limit = 1024 * 1024"
definition count_limit :: int where "count_limit = 64 * 1024"

definition too_long :: go_err where "too_long = ErrText ''bufio.Scanner: token too long''"

text \<open>The scan of a file: its lines, and the error of the scanner.\<close>

definition scan_file :: "faults \<Rightarrow> int \<Rightarrow> string \<Rightarrow> string \<Rightarrow> string list \<times> go_err option" where
  "scan_file io limit path content =
     (case scan_lines limit content of (ls, long) \<Rightarrow>
        (ls, case scan_err io path of Some e \<Rightarrow> Some e | None \<Rightarrow> if long then Some too_long else None))"

text \<open>The loop of \<^verbatim>\<open>readAllLocked\<close>: lines that do not decode are skipped.\<close>

fun read_lines :: "codec \<Rightarrow> faults \<Rightarrow> nat \<Rightarrow> int \<Rightarrow> message list \<Rightarrow> string list \<Rightarrow> go_err + message list" where
  "read_lines cd io asked fallback msgs [] = Inr msgs"
| "read_lines cd io asked fallback msgs (l # ls) =
     (let due = length msgs mod 100 = 0 in
      case (if due then ctx_err io asked else None) of
        Some e \<Rightarrow> Inl e
      | None \<Rightarrow>
          let asked' = (if due then Suc asked else asked) in
          case dec_msg cd l of
            None \<Rightarrow> read_lines cd io asked' (fallback + 1) msgs ls
          | Some msg \<Rightarrow>
              read_lines cd io asked' (fallback + 1)
                (msgs @ [if msg_index msg = 0 then msg\<lparr>msg_index := fallback + 1\<rparr> else msg]) ls)"

definition read_all :: "codec \<Rightarrow> faults \<Rightarrow> string \<Rightarrow> file_memory \<Rightarrow> go_err + message list" where
  "read_all cd io sid m =
     (let p = session_path m sid in
      case open_err io p of
        Some e \<Rightarrow> Inl (ErrWrap ''file memory read: '' e '''')
      | None \<Rightarrow>
          (case map_of (fm_disk m) p of
             None \<Rightarrow> Inr []
           | Some content \<Rightarrow>
               (case scan_file io read_limit p content of (ls, err) \<Rightarrow>
                  case read_lines cd io 1 0 [] ls of
                    Inl e \<Rightarrow> Inl e
                  | Inr msgs \<Rightarrow> (case err of Some e \<Rightarrow> Inl e | None \<Rightarrow> Inr msgs))))"

definition count_lines :: "faults \<Rightarrow> string \<Rightarrow> file_memory \<Rightarrow> go_err + int" where
  "count_lines io sid m =
     (let p = session_path m sid in
      case open_err io p of
        Some e \<Rightarrow> Inl e
      | None \<Rightarrow>
          (case map_of (fm_disk m) p of
             None \<Rightarrow> Inr 0
           | Some content \<Rightarrow>
               (case scan_file io count_limit p content of (ls, err) \<Rightarrow>
                  case err of Some e \<Rightarrow> Inl e | None \<Rightarrow> Inr (int (length ls)))))"

section \<open>The operations\<close>

definition file_count :: "codec \<Rightarrow> faults \<Rightarrow> string \<Rightarrow> file_memory \<Rightarrow> go_err + int" where
  "file_count cd io sid m =
     (case ctx_err io 0 of
        Some e \<Rightarrow> Inl e
      | None \<Rightarrow> (case read_all cd io sid m of Inl e \<Rightarrow> Inl e | Inr msgs \<Rightarrow> Inr (int (length msgs))))"

text \<open>\<^verbatim>\<open>Recent\<close>: a negative \<open>n\<close> makes the slice expression panic.\<close>

definition file_recent ::
  "codec \<Rightarrow> faults \<Rightarrow> string \<Rightarrow> int \<Rightarrow> int \<Rightarrow> file_memory \<Rightarrow> (go_err + message list) go_ret" where
  "file_recent cd io sid n offset m =
     (case ctx_err io 0 of
        Some e \<Rightarrow> Returns (Inl e)
      | None \<Rightarrow>
          (case read_all cd io sid m of
             Inl e \<Rightarrow> Returns (Inl e)
           | Inr msgs \<Rightarrow>
               if 0 < offset \<and> int (length msgs) \<le> offset then Returns (Inr [])
               else let msgs' = (if 0 < offset then take (length msgs - nat offset) msgs else msgs) in
                 if int (length msgs') \<le> n then Returns (Inr msgs')
                 else if n < 0 then Panics ''slice bounds out of range''
                 else Returns (Inr (drop (length msgs' - nat n) msgs'))))"

text \<open>The counter is an \<^verbatim>\<open>int64\<close>.\<close>

definition wrap64 :: "int \<Rightarrow> int" where
  "wrap64 x = signed_take_bit 63 x"

definition put_file :: "string \<Rightarrow> string \<Rightarrow> file_memory \<Rightarrow> file_memory" where
  "put_file p content m = m\<lparr>fm_disk := AList.update p content (fm_disk m)\<rparr>"

text \<open>The index of the next message: counted from the file at the first append of a session.\<close>

definition seed_index :: "faults \<Rightarrow> string \<Rightarrow> file_memory \<Rightarrow> go_err + file_memory" where
  "seed_index io sid m =
     (if gm_get 0 (fm_next m) sid = 0 then
        case count_lines io sid m of
          Inl e \<Rightarrow> Inl e
        | Inr n \<Rightarrow> Inr (m\<lparr>fm_next := AList.update sid (wrap64 (n + 1)) (fm_next m)\<rparr>)
      else Inr m)"

definition append_err :: "go_err \<Rightarrow> go_err" where
  "append_err e = ErrWrap ''file memory append: '' e ''''"

definition append_line :: "codec \<Rightarrow> faults \<Rightarrow> string \<Rightarrow> message \<Rightarrow> file_memory \<Rightarrow> go_err option \<times> file_memory" where
  "append_line cd io sid msg m =
     (let p = session_path m sid in
      case create_err io p of
        Some e \<Rightarrow> (Some (append_err e), m)
      | None \<Rightarrow>
          let old = gm_get [] (fm_disk m) p; m1 = put_file p old m in
          case enc_msg cd msg of
            Inl e \<Rightarrow> (Some (append_err e), m1)
          | Inr b \<Rightarrow>
              (case write_err io p of
                 Some (n, e) \<Rightarrow> (Some (append_err e), put_file p (old @ take n (b @ [newline])) m1)
               | None \<Rightarrow> (None, put_file p (old @ b @ [newline]) m1)))"

definition file_append :: "codec \<Rightarrow> faults \<Rightarrow> string \<Rightarrow> message \<Rightarrow> file_memory \<Rightarrow> go_err option \<times> file_memory" where
  "file_append cd io sid msg m =
     (case ctx_err io 0 of
        Some e \<Rightarrow> (Some e, m)
      | None \<Rightarrow>
          (case seed_index io sid m of
             Inl e \<Rightarrow> (Some (append_err e), m)
           | Inr m1 \<Rightarrow>
               let i = gm_get 0 (fm_next m1) sid in
               append_line cd io sid (msg\<lparr>msg_index := i\<rparr>)
                 (m1\<lparr>fm_next := AList.update sid (wrap64 (i + 1)) (fm_next m1)\<rparr>)))"

definition remove_file :: "faults \<Rightarrow> string \<Rightarrow> file_memory \<Rightarrow> file_memory" where
  "remove_file io p m = (if remove_fails io p then m else m\<lparr>fm_disk := AList.delete p (fm_disk m)\<rparr>)"

definition file_delete :: "faults \<Rightarrow> string \<Rightarrow> file_memory \<Rightarrow> go_err option \<times> file_memory" where
  "file_delete io sid m =
     (ctx_err io 0, remove_file io (compressed_path m sid) (remove_file io (session_path m sid) m))"

section \<open>Compaction\<close>

definition read_compressed :: "codec \<Rightarrow> faults \<Rightarrow> string \<Rightarrow> file_memory \<Rightarrow> go_err + compressed_context option" where
  "read_compressed cd io sid m =
     (let p = compressed_path m sid in
      case open_err io p of
        Some e \<Rightarrow> Inl (ErrWrap ''file memory compressed read: '' e '''')
      | None \<Rightarrow> Inr (Option.bind (map_of (fm_disk m) p) (dec_cc cd)))"

definition write_compressed :: "codec \<Rightarrow> faults \<Rightarrow> string \<Rightarrow> compressed_context \<Rightarrow> file_memory \<Rightarrow> file_memory" where
  "write_compressed cd io sid cc m =
     (let p = compressed_path m sid in
      case enc_cc cd cc of
        Inl e \<Rightarrow> m
      | Inr b \<Rightarrow>
          if create_err io p \<noteq> None then m
          else put_file p (case write_err io p of Some (n, e) \<Rightarrow> take n b | None \<Rightarrow> b) m)"

definition file_compressed :: "codec \<Rightarrow> faults \<Rightarrow> string \<Rightarrow> file_memory \<Rightarrow> go_err + compressed_context option" where
  "file_compressed cd io sid m =
     (case ctx_err io 0 of Some e \<Rightarrow> Inl e | None \<Rightarrow> read_compressed cd io sid m)"

text \<open>The messages \<^verbatim>\<open>Compact\<close> works on: those it is given unless they are too few.\<close>

definition compact_messages ::
  "codec \<Rightarrow> faults \<Rightarrow> string \<Rightarrow> int \<Rightarrow> message list option \<Rightarrow> file_memory \<Rightarrow> go_err + message list" where
  "compact_messages cd io sid through messages m =
     (case messages of
        Some ms \<Rightarrow> if int (length ms) < through then read_all cd io sid m else Inr ms
      | None \<Rightarrow> read_all cd io sid m)"

text \<open>The summary of the newly overflowed messages; its errors are swallowed.\<close>

definition summarize_new ::
  "codec \<Rightarrow> faults \<Rightarrow> summarizer \<Rightarrow> string \<Rightarrow> int \<Rightarrow> message list \<Rightarrow> file_memory \<Rightarrow> file_memory go_ret" where
  "summarize_new cd io summarize sid safeIdx all m =
     (let prev = (case read_compressed cd io sid m of Inl e \<Rightarrow> None | Inr p \<Rightarrow> p);
          lastIdx = (case prev of None \<Rightarrow> 0 | Some p \<Rightarrow> cc_through_index p)
      in if safeIdx \<le> lastIdx then Returns m
         else if lastIdx < 0 then Panics ''slice bounds out of range''
         else case summarize (take (nat (safeIdx - lastIdx)) (drop (nat lastIdx) all)) prev of
             Inr (Some cc) \<Rightarrow> Returns (write_compressed cd io sid (cc\<lparr>cc_through_index := safeIdx\<rparr>) m)
           | _ \<Rightarrow> Returns m)"

definition file_compact ::
  "codec \<Rightarrow> faults \<Rightarrow> string \<Rightarrow> int \<Rightarrow> message list option \<Rightarrow> file_memory \<Rightarrow> (go_err option \<times> file_memory) go_ret" where
  "file_compact cd io sid through messages m =
     (case fm_summarizer m of
        None \<Rightarrow> Returns (None, m)
      | Some summarize \<Rightarrow>
          (case ctx_err io 0 of
             Some e \<Rightarrow> Returns (Some e, m)
           | None \<Rightarrow>
               (case compact_messages cd io sid through messages m of
                  Inl e \<Rightarrow> Returns (Some e, m)
                | Inr all \<Rightarrow>
                    if all = [] \<or> through \<le> 0 \<or> int (length all) < through then Returns (None, m)
                    else let safeIdx = safe_compression_boundary all through in
                      if safeIdx \<le> 0 then Returns (None, m)
                      else case summarize_new cd io summarize sid safeIdx all m of
                          Panics p \<Rightarrow> Panics p
                        | Returns m' \<Rightarrow> Returns (None, m'))))"

section \<open>Search\<close>

text \<open>A match: the position in the history and the position of the query; the exchange sort.\<close>

fun find_matches :: "string \<Rightarrow> nat \<Rightarrow> message list \<Rightarrow> (nat \<times> real) list" where
  "find_matches q i [] = []"
| "find_matches q i (msg # msgs) =
     (case str_index (to_lower (msg_content msg)) q of
        None \<Rightarrow> find_matches q (Suc i) msgs
      | Some pos \<Rightarrow> (i, 1 / (1 + real pos)) # find_matches q (Suc i) msgs)"

text \<open>One pass of the outer loop: the first element is exchanged with every better one.\<close>

fun exchange_pass :: "nat \<times> real \<Rightarrow> (nat \<times> real) list \<Rightarrow> (nat \<times> real) \<times> (nat \<times> real) list" where
  "exchange_pass x [] = (x, [])"
| "exchange_pass x (y # ys) =
     (if snd x < snd y then case exchange_pass y ys of (z, zs) \<Rightarrow> (z, x # zs)
      else case exchange_pass x ys of (z, zs) \<Rightarrow> (z, y # zs))"

lemma exchange_pass_length: "exchange_pass x ys = (z, zs) \<Longrightarrow> length zs = length ys"
  by (induction x ys arbitrary: z zs rule: exchange_pass.induct) (auto split: if_splits prod.splits)

function exchange_sort :: "(nat \<times> real) list \<Rightarrow> (nat \<times> real) list" where
  "exchange_sort [] = []"
| "exchange_sort (x # ys) = (case exchange_pass x ys of (z, zs) \<Rightarrow> z # exchange_sort zs)"
  by pat_completeness auto
termination
  by (relation "measure length") (auto dest: exchange_pass_length [OF sym])

definition file_search ::
  "codec \<Rightarrow> faults \<Rightarrow> string \<Rightarrow> string \<Rightarrow> int \<Rightarrow> file_memory \<Rightarrow> (go_err + search_result list) go_ret" where
  "file_search cd io sid query limit m =
     (case ctx_err io 0 of
        Some e \<Rightarrow> Returns (Inl e)
      | None \<Rightarrow>
          (case read_all cd io sid m of
             Inl e \<Rightarrow> Returns (Inl e)
           | Inr all \<Rightarrow>
               let matches = exchange_sort (find_matches (to_lower query) 0 all);
                   limit' = min limit (int (length matches))
               in if limit' < 0 then Panics ''makeslice: len out of range''
                  else Returns (Inr (map (\<lambda>(i, score). \<lparr>sr_message = all ! i, sr_score = score\<rparr>) (take (nat limit') matches)))))"

section \<open>The file memory keeps the contract\<close>

text \<open>A line the scanner of either limit returns as it is, and a file of such lines.\<close>

definition line_ok :: "codec \<Rightarrow> string \<Rightarrow> bool" where
  "line_ok cd l = (newline \<notin> set l \<and> int (length l) < count_limit \<and> drop_cr l = l \<and> dec_msg cd l \<noteq> None)"

definition file_of :: "string list \<Rightarrow> string" where
  "file_of ls = concat (map (\<lambda>l. l @ [newline]) ls)"

definition in64 :: "int \<Rightarrow> bool" where
  "in64 i = (- (2 ^ 63) \<le> i \<and> i < 2 ^ 63)"

definition file_good :: "codec \<Rightarrow> char \<Rightarrow> file_memory \<Rightarrow> bool" where
  "file_good cd sep m = (fm_sep m = sep \<and> (\<forall>sid. in64 (gm_get 0 (fm_next m) sid)) \<and>
     (\<forall>sid content. map_of (fm_disk m) (session_path m sid) = Some content \<longrightarrow>
        (\<exists>ls. content = file_of ls \<and> list_all (line_ok cd) ls)))"

definition file_log :: "codec \<Rightarrow> string \<Rightarrow> file_memory \<Rightarrow> message list" where
  "file_log cd sid m = (case read_all cd no_faults sid m of Inl e \<Rightarrow> [] | Inr msgs \<Rightarrow> msgs)"

definition unnumbered :: "message \<Rightarrow> message" where
  "unnumbered x = x\<lparr>msg_index := 0\<rparr>"

text \<open>A message whose line, under any number, is short, is one line, and decodes to the message.\<close>

definition file_storable :: "codec \<Rightarrow> message \<Rightarrow> bool" where
  "file_storable cd x = (\<forall>i. in64 i \<longrightarrow> (\<exists>b. enc_msg cd (x\<lparr>msg_index := i\<rparr>) = Inr b \<and> line_ok cd b \<and>
     (\<exists>y. dec_msg cd b = Some y \<and> unnumbered y = unnumbered x)))"

definition apart_names :: "char \<Rightarrow> string \<Rightarrow> string \<Rightarrow> bool" where
  "apart_names sep sid sid' = (safe_name sep sid \<noteq> safe_name sep sid')"

text \<open>\<^verbatim>\<open>Recent\<close> without an offset.\<close>

definition latest :: "codec \<Rightarrow> string \<Rightarrow> int \<Rightarrow> file_memory \<Rightarrow> go_err + message list" where
  "latest cd sid n m = (case file_recent cd no_faults sid n 0 m of Returns r \<Rightarrow> r | Panics p \<Rightarrow> Inl (ErrText p))"

lemma no_faults_sel [simp]:
  "ctx_err no_faults i = None" "open_err no_faults p = None" "scan_err no_faults p = None"
  "create_err no_faults p = None" "write_err no_faults p = None" "remove_fails no_faults p = False"
  by (simp_all add: no_faults_def)

lemma wrap64_in64 [simp]: "in64 (wrap64 x)"
  using signed_take_bit_int_greater_eq_minus_exp [of 63 x] signed_take_bit_int_less_exp [of 63 x]
  by (simp add: in64_def wrap64_def)

lemma scan_file_of:
  "list_all (line_ok cd) ls \<Longrightarrow> count_limit \<le> limit \<Longrightarrow> scan_lines limit (file_of ls) = (ls, False)"
proof (induction ls)
  case Nil
  then show ?case by (simp add: file_of_def scan_lines.simps)
next
  case (Cons l ls)
  have l: "newline \<notin> set l" "int (length l) < limit" "drop_cr l = l" using Cons.prems by (auto simp: line_ok_def)
  have t: "takeWhile (\<lambda>c. c \<noteq> newline) (l @ newline # r) = l" for r using l(1) by (subst takeWhile_append2) auto
  have d: "dropWhile (\<lambda>c. c \<noteq> newline) (l @ newline # r) = newline # r" for r using l(1) by (subst dropWhile_append2) auto
  have f: "file_of (l # ls) = l @ newline # file_of ls" by (simp add: file_of_def)
  have "scan_lines limit (file_of ls) = (ls, False)" using Cons by simp
  then show ?case unfolding f by (subst scan_lines.simps) (use l in \<open>simp add: t d\<close>)
qed

lemma read_lines_ok:
  "list_all (line_ok cd) ls \<Longrightarrow> \<exists>msgs. (\<forall>a acc. read_lines cd no_faults a k acc ls = Inr (acc @ msgs)) \<and>
     map unnumbered msgs = map (\<lambda>l. unnumbered (the (dec_msg cd l))) ls"
proof (induction ls arbitrary: k)
  case (Cons l ls)
  obtain y where y: "dec_msg cd l = Some y" using Cons.prems by (auto simp: line_ok_def)
  obtain msgs where m: "\<forall>a acc. read_lines cd no_faults a (k + 1) acc ls = Inr (acc @ msgs)"
      "map unnumbered msgs = map (\<lambda>l. unnumbered (the (dec_msg cd l))) ls"
    using Cons.IH [of "k + 1"] Cons.prems by auto
  let ?y = "if msg_index y = 0 then y\<lparr>msg_index := k + 1\<rparr> else y"
  have "unnumbered ?y = unnumbered y" by (simp add: unnumbered_def)
  then show ?case using m y by (intro exI [of _ "?y # msgs"]) (simp add: Let_def)
qed simp

lemma read_all_ok:
  assumes "file_good cd sep m"
  shows "\<exists>msgs. read_all cd no_faults sid m = Inr msgs \<and>
     (\<forall>ls. map_of (fm_disk m) (session_path m sid) = Some (file_of ls) \<longrightarrow> list_all (line_ok cd) ls \<longrightarrow>
        map unnumbered msgs = map (\<lambda>l. unnumbered (the (dec_msg cd l))) ls)"
proof (cases "map_of (fm_disk m) (session_path m sid)")
  case None
  then show ?thesis by (simp add: read_all_def Let_def)
next
  case (Some c)
  then obtain ls where ls: "c = file_of ls" "list_all (line_ok cd) ls" using assms unfolding file_good_def by blast
  have big: "count_limit \<le> read_limit" by (simp add: count_limit_def read_limit_def)
  obtain msgs where m: "\<forall>a acc. read_lines cd no_faults a 0 acc ls = Inr (acc @ msgs)"
      "map unnumbered msgs = map (\<lambda>l. unnumbered (the (dec_msg cd l))) ls"
    using read_lines_ok [OF ls(2)] by blast
  have "read_all cd no_faults sid m = Inr msgs"
    using Some m(1) scan_file_of [OF ls(2) big] ls(1) by (simp add: read_all_def Let_def scan_file_def)
  moreover have "ls' = ls" if "c = file_of ls'" "list_all (line_ok cd) ls'" for ls'
    using scan_file_of [OF that(2) big] scan_file_of [OF ls(2) big] that(1) ls(1) by simp
  ultimately show ?thesis using m(2) Some by auto
qed

lemma file_log_lines:
  assumes "file_good cd sep m" "map_of (fm_disk m) (session_path m sid) = Some (file_of ls)" "list_all (line_ok cd) ls"
  shows "map unnumbered (file_log cd sid m) = map (\<lambda>l. unnumbered (the (dec_msg cd l))) ls"
  using read_all_ok [OF assms(1), of sid] assms(2,3) by (auto simp: file_log_def)

lemma file_log_none: "map_of (fm_disk m) (session_path m sid) = None \<Longrightarrow> file_log cd sid m = []"
  by (simp add: file_log_def read_all_def Let_def)

lemma read_all_log: "file_good cd sep m \<Longrightarrow> read_all cd no_faults sid m = Inr (file_log cd sid m)"
  using read_all_ok [of cd sep m sid] by (auto simp: file_log_def)

text \<open>The log depends on the file of the session alone.\<close>

lemma file_log_cong:
  "map_of (fm_disk m') (session_path m' sid) = map_of (fm_disk m) (session_path m sid) \<Longrightarrow>
   file_log cd sid m' = file_log cd sid m"
  by (cases "map_of (fm_disk m) (session_path m sid)") (simp_all add: file_log_def read_all_def Let_def scan_file_def)

lemma session_path_inj: "session_path m s = session_path m s' \<longleftrightarrow> safe_name (fm_sep m) s = safe_name (fm_sep m) s'"
  by (simp add: session_path_def)

lemma compressed_not_session: "compressed_path m s \<noteq> session_path m s'"
proof
  assume "compressed_path m s = session_path m s'"
  then have "last (compressed_path m s) = last (session_path m s')" by simp
  then show False by (simp add: compressed_path_def session_path_def)
qed

lemma path_same [simp]:
  "session_path (put_file p c m) sid = session_path m sid" "compressed_path (put_file p c m) sid = compressed_path m sid"
  "session_path (m\<lparr>fm_next := n\<rparr>) sid = session_path m sid" "compressed_path (m\<lparr>fm_next := n\<rparr>) sid = compressed_path m sid"
  "session_path (m\<lparr>fm_disk := d\<rparr>) sid = session_path m sid" "compressed_path (m\<lparr>fm_disk := d\<rparr>) sid = compressed_path m sid"
  by (simp_all add: session_path_def compressed_path_def put_file_def)

lemma put_file_sel [simp]:
  "fm_next (put_file p c m) = fm_next m" "fm_sep (put_file p c m) = fm_sep m"
  "map_of (fm_disk (put_file p c m)) q = (if q = p then Some c else map_of (fm_disk m) q)"
  by (simp_all add: put_file_def update_conv')

lemma count_lines_ok:
  assumes "file_good cd sep m"
  shows "\<exists>n. count_lines no_faults sid m = Inr n"
proof (cases "map_of (fm_disk m) (session_path m sid)")
  case (Some c)
  then obtain ls where "c = file_of ls" "list_all (line_ok cd) ls" using assms unfolding file_good_def by blast
  then show ?thesis using Some scan_file_of [of cd ls count_limit] by (simp add: count_lines_def Let_def scan_file_def)
qed (simp add: count_lines_def Let_def)

lemma seed_index_ok:
  assumes "file_good cd sep m"
  obtains nx where "seed_index no_faults sid m = Inr (m\<lparr>fm_next := nx\<rparr>)" "\<And>s. in64 (gm_get 0 nx s)"
proof (cases "gm_get 0 (fm_next m) sid = 0")
  case True
  obtain n where "count_lines no_faults sid m = Inr n" using count_lines_ok [OF assms] by blast
  then show ?thesis using True assms
    by (intro that [of "AList.update sid (wrap64 (n + 1)) (fm_next m)"]) (auto simp: seed_index_def file_good_def gomap_simps)
next
  case False
  then show ?thesis using assms by (intro that [of "fm_next m"]) (auto simp: seed_index_def file_good_def)
qed

lemma file_append_ok:
  assumes g: "file_good cd sep m" and x: "file_storable cd x" and a: "file_append cd no_faults sid x m = (e, m')"
  shows "e = None" "file_good cd sep m'"
    "map unnumbered (file_log cd sid m') = map unnumbered (file_log cd sid m) @ [unnumbered x]"
    "apart_names sep sid sid' \<Longrightarrow> file_log cd sid' m' = file_log cd sid' m"
proof -
  obtain nx where s: "seed_index no_faults sid m = Inr (m\<lparr>fm_next := nx\<rparr>)" "\<And>s. in64 (gm_get 0 nx s)"
    using seed_index_ok [OF g] by blast
  let ?i = "gm_get 0 nx sid" and ?p = "session_path m sid"
  obtain b y where b: "enc_msg cd (x\<lparr>msg_index := ?i\<rparr>) = Inr b" "line_ok cd b"
    and y: "dec_msg cd b = Some y" "unnumbered y = unnumbered x"
    using x s(2) [of sid] unfolding file_storable_def by blast
  let ?old = "gm_get [] (fm_disk m) ?p"
  let ?m1 = "m\<lparr>fm_next := AList.update sid (wrap64 (?i + 1)) nx\<rparr>"
  have m': "e = None" "m' = put_file ?p (?old @ b @ [newline]) (put_file ?p ?old ?m1)"
    using a b(1) by (auto simp: file_append_def s(1) append_line_def Let_def)
  obtain ls where ls: "?old = file_of ls" "list_all (line_ok cd) ls"
    "map_of (fm_disk m) ?p = None \<and> ls = [] \<or> map_of (fm_disk m) ?p = Some (file_of ls)"
  proof (cases "map_of (fm_disk m) ?p")
    case None
    then show ?thesis by (intro that [of "[]"]) (simp_all add: gm_get_def file_of_def)
  next
    case (Some c)
    then obtain ls where "c = file_of ls" "list_all (line_ok cd) ls" using g unfolding file_good_def by blast
    then show ?thesis using Some by (intro that [of ls]) (simp_all add: gm_get_def)
  qed
  have fl: "?old @ b @ [newline] = file_of (ls @ [b])" "list_all (line_ok cd) (ls @ [b])"
    using ls(1,2) b(2) by (simp_all add: file_of_def)
  have disk: "map_of (fm_disk m') q = (if q = ?p then Some (file_of (ls @ [b])) else map_of (fm_disk m) q)" for q
    unfolding m'(2) fl(1) [symmetric] by simp
  have path: "session_path m' s = session_path m s" for s by (simp add: m'(2))
  show g': "file_good cd sep m'" unfolding file_good_def
  proof (intro conjI allI impI)
    show "fm_sep m' = sep" using g by (simp add: m'(2) file_good_def)
    show "in64 (gm_get 0 (fm_next m') s)" for s using s(2) by (simp add: m'(2) gomap_simps)
    show "\<exists>ls. c = file_of ls \<and> list_all (line_ok cd) ls"
      if "map_of (fm_disk m') (session_path m' s) = Some c" for s c
      using that g fl(2) unfolding disk path file_good_def by (auto split: if_splits)
  qed
  show "e = None" by (rule m'(1))
  have "map_of (fm_disk m') (session_path m' sid) = Some (file_of (ls @ [b]))" by (simp add: disk path)
  from file_log_lines [OF g' this fl(2)] y
  have new: "map unnumbered (file_log cd sid m') = map (\<lambda>l. unnumbered (the (dec_msg cd l))) ls @ [unnumbered x]" by simp
  have "map unnumbered (file_log cd sid m) = map (\<lambda>l. unnumbered (the (dec_msg cd l))) ls"
    using ls(3) file_log_lines [OF g _ ls(2)] file_log_none by fastforce
  with new show "map unnumbered (file_log cd sid m') = map unnumbered (file_log cd sid m) @ [unnumbered x]" by simp
  show "apart_names sep sid sid' \<Longrightarrow> file_log cd sid' m' = file_log cd sid' m"
    by (rule file_log_cong) (use g in \<open>auto simp: disk path session_path_inj apart_names_def file_good_def\<close>)
qed

lemma file_delete_ok:
  assumes g: "file_good cd sep m" and d: "file_delete no_faults sid m = (e, m')"
  shows "e = None" "file_good cd sep m'" "file_log cd sid m' = []"
    "apart_names sep sid sid' \<Longrightarrow> file_log cd sid' m' = file_log cd sid' m"
proof -
  have m': "e = None" "m' = m\<lparr>fm_disk := AList.delete (compressed_path m sid) (AList.delete (session_path m sid) (fm_disk m))\<rparr>"
    using d by (auto simp: file_delete_def remove_file_def)
  have disk: "map_of (fm_disk m') q = (if q = session_path m sid \<or> q = compressed_path m sid then None else map_of (fm_disk m) q)" for q
    by (simp add: m'(2) delete_conv')
  have path: "session_path m' s = session_path m s" for s by (simp add: m'(2))
  show "e = None" by (rule m'(1))
  show "file_good cd sep m'" using g unfolding file_good_def disk path by (auto simp: m'(2) split: if_splits)
  show "file_log cd sid m' = []" by (rule file_log_none) (simp add: disk path)
  show "apart_names sep sid sid' \<Longrightarrow> file_log cd sid' m' = file_log cd sid' m"
    by (rule file_log_cong)
      (use g compressed_not_session [of m sid sid'] in \<open>auto simp: disk path session_path_inj apart_names_def file_good_def\<close>)
qed

interpretation file_store: exact_memory "file_good cd sep" "file_log cd" unnumbered "file_storable cd" "apart_names sep"
  "file_append cd no_faults" "latest cd" "file_count cd no_faults" "file_delete no_faults"
  for cd sep
proof unfold_locales
  fix m n sid assume g: "file_good cd sep m" and n: "(0::int) < n"
  show exact: "latest cd sid n m = Inr (newest n (file_log cd sid m))"
    using read_all_log [OF g, of sid] n by (auto simp: latest_def file_recent_def Let_def newest_def)
  show "\<exists>ms. latest cd sid n m = Inr ms \<and> suffix ms (file_log cd sid m) \<and> int (length ms) \<le> n"
    using exact suffix_newest [of n "file_log cd sid m"] length_newest [of n "file_log cd sid m"] n by auto
next
  fix m sid assume "file_good cd sep m"
  then show "file_count cd no_faults sid m = Inr (int (length (file_log cd sid m)))"
    by (simp add: file_count_def read_all_log)
qed (blast dest: file_append_ok file_delete_ok)+

lemma put_file_dir [simp]: "fm_dir (put_file p c m) = fm_dir m"
  by (simp add: put_file_def)

lemma append_line_dir:
  "fm_dir (snd (append_line cd io sid x m)) = fm_dir m \<and> fm_sep (snd (append_line cd io sid x m)) = fm_sep m"
  by (simp add: append_line_def Let_def split: option.split sum.split)

lemma seed_index_dir: "seed_index io sid m = Inr m' \<Longrightarrow> fm_dir m' = fm_dir m \<and> fm_sep m' = fm_sep m"
  by (auto simp: seed_index_def split: sum.splits if_splits)

lemma append_dir:
  "fm_dir (snd (file_append cd io sid x m)) = fm_dir m \<and> fm_sep (snd (file_append cd io sid x m)) = fm_sep m"
proof (cases "seed_index io sid m")
  case (Inr m1)
  then show ?thesis using seed_index_dir [OF Inr] by (simp add: file_append_def append_line_dir Let_def split: option.split)
qed (simp add: file_append_def split: option.split)

lemma delete_dir: "fm_dir (snd (file_delete io sid m)) = fm_dir m \<and> fm_sep (snd (file_delete io sid m)) = fm_sep m"
  by (simp add: file_delete_def remove_file_def)

lemma work_dir:
  "fm_dir (work (file_append cd io) (file_delete io) ops m) = fm_dir m \<and>
   fm_sep (work (file_append cd io) (file_delete io) ops m) = fm_sep m"
  by (induction "file_append cd io" "file_delete io" ops m rule: work.induct) (simp_all add: append_dir delete_dir)

text \<open>A restart opens the directory again and forgets the counters.\<close>

definition restart :: "file_memory \<Rightarrow> file_memory" where
  "restart m = open_memory (fm_dir m) (fm_sep m) (fm_disk m)"

lemma restart_ok:
  assumes "file_good cd sep m"
  shows "file_good cd sep (restart m)" "file_log cd sid (restart m) = file_log cd sid m"
proof -
  have p: "session_path (restart m) s = session_path m s" for s
    by (simp add: restart_def open_memory_def session_path_def)
  show "file_good cd sep (restart m)" using assms unfolding file_good_def p
    by (auto simp: restart_def open_memory_def gm_get_def in64_def)
  show "file_log cd sid (restart m) = file_log cd sid m"
    by (rule file_log_cong) (simp add: p, simp add: restart_def open_memory_def)
qed

lemma fresh_good: "file_good cd sep (open_memory dir sep [])" "file_log cd sid (open_memory dir sep []) = []"
  by (simp_all add: file_good_def open_memory_def gm_get_def in64_def file_log_none)

text \<open>
  C9: Over any appends and deletions in sessions whose file names differ, \<^verbatim>\<open>Recent\<close> of the file
  memory returns the newest messages of the session that were appended since it was last deleted,
  and \<^verbatim>\<open>Count\<close> their number, also after a restart of the process.
\<close>

theorem file_memory_serves_history:
  assumes "fit (file_storable cd) (apart_names sep) sid ops" "0 < n"
  shows "let m = work (file_append cd no_faults) (file_delete no_faults) ops (open_memory dir sep []) in
    (\<exists>ms. latest cd sid n m = Inr ms \<and> latest cd sid n (restart m) = Inr ms \<and>
       map unnumbered ms = newest n (written unnumbered sid ops [])) \<and>
    file_count cd no_faults sid m = Inr (int (length (written unnumbered sid ops [])))"
proof -
  let ?m = "work (file_append cd no_faults) (file_delete no_faults) ops (open_memory dir sep [])"
  have good: "file_good cd sep ?m" using file_store.work_log [OF fresh_good(1) assms(1)] by blast
  obtain ms where ms: "latest cd sid n ?m = Inr ms" "map unnumbered ms = newest n (written unnumbered sid ops [])"
    using file_store.work_recent [OF fresh_good(1) assms(1) fresh_good(2) assms(2)] by blast
  have "latest cd sid n (restart ?m) = Inr ms"
    using ms(1) file_store.recent_exact [OF good assms(2)] file_store.recent_exact [OF restart_ok(1) [OF good] assms(2)]
    by (simp add: restart_ok(2) [OF good])
  then show ?thesis
    using ms file_store.work_count [OF fresh_good(1) assms(1) fresh_good(2)] by (simp add: Let_def)
qed

text \<open>A codec for user messages: the bits of the index, then the content.\<close>

definition bit_char :: "bool \<Rightarrow> char" where
  "bit_char b = (if b then CHR ''1'' else CHR ''0'')"

definition toy_message :: "int \<Rightarrow> string \<Rightarrow> message" where
  "toy_message i s = empty_message\<lparr>msg_role := RoleUser, msg_content := s, msg_index := i\<rparr>"

definition toy_codec :: codec where
  "toy_codec = \<lparr>enc_msg = (\<lambda>x. Inr (map (\<lambda>k. bit_char (bit (msg_index x) k)) [0..<64] @ msg_content x)),
     dec_msg = (\<lambda>l. Some (toy_message (wrap64 (horner_sum of_bool 2 (map (\<lambda>c. c = CHR ''1'') (take 64 l)))) (drop 64 l))),
     enc_cc = (\<lambda>cc. if cc_summary cc = '''' \<and> cc_hints cc = [] \<and> in64 (cc_through_index cc)
       then Inr (map (\<lambda>k. bit_char (bit (cc_through_index cc) k)) [0..<64]) else Inl (ErrText ''unsupported'')),
     dec_cc = (\<lambda>l. Some \<lparr>cc_summary = '''', cc_hints = [],
        cc_through_index = wrap64 (horner_sum of_bool 2 (map (\<lambda>c. c = CHR ''1'') (take 64 l)))\<rparr>)\<rparr>"

lemma toy_bits:
  "in64 i \<Longrightarrow> wrap64 (horner_sum of_bool 2 (map (\<lambda>c. c = CHR ''1'') (map (\<lambda>k. bit_char (bit i k)) [0..<64]))) = i"
proof -
  assume i: "in64 i"
  have "map (\<lambda>c. c = CHR ''1'') (map (\<lambda>k. bit_char (bit i k)) [0..<64]) = map (bit i) [0..<64]"
    by (simp add: bit_char_def comp_def)
  then have "horner_sum of_bool 2 (map (\<lambda>c. c = CHR ''1'') (map (\<lambda>k. bit_char (bit i k)) [0..<64])) = take_bit 64 i"
    by (simp only: horner_sum_bit_eq_take_bit)
  moreover have "wrap64 (take_bit 64 i) = i"
    using i signed_take_bit_int_eq_self [of 63 i] by (simp add: wrap64_def signed_take_bit_take_bit in64_def)
  ultimately show ?thesis by simp
qed

lemma toy_storable:
  assumes "newline \<notin> set s" "CHR 0x0D \<notin> set s" "length s < 1000"
  shows "file_storable toy_codec (toy_message 0 s)"
  unfolding file_storable_def
proof (intro allI impI)
  fix i :: int assume i: "in64 i"
  let ?b = "map (\<lambda>k. bit_char (bit i k)) [0..<64] @ s"
  have "newline \<notin> set ?b" "CHR 0x0D \<notin> set ?b" using assms(1,2) by (auto simp: bit_char_def newline_def)
  then have "drop_cr ?b = ?b" unfolding drop_cr_def using last_in_set by metis
  moreover have "int (length ?b) < count_limit" using assms(3) by (simp add: count_limit_def)
  moreover have "dec_msg toy_codec ?b = Some (toy_message i s)" using toy_bits [OF i] by (simp add: toy_codec_def)
  ultimately show "\<exists>b. enc_msg toy_codec (toy_message 0 s\<lparr>msg_index := i\<rparr>) = Inr b \<and> line_ok toy_codec b \<and>
      (\<exists>y. dec_msg toy_codec b = Some y \<and> unnumbered y = unnumbered (toy_message 0 s))"
    using \<open>newline \<notin> set ?b\<close>
    by (intro exI [of _ ?b]) (simp add: line_ok_def toy_message_def unnumbered_def, simp add: toy_codec_def)
qed

theorem file_memory_serves_history_witness:
  "let ops = [(''s'', Some (toy_message 0 ''a'')), (''t'', Some (toy_message 0 ''x'')), (''s'', Some (toy_message 0 ''b''))];
       m = work (file_append toy_codec no_faults) (file_delete no_faults) ops (open_memory ''d'' CHR ''/'' []) in
   map_sum id (map msg_content) (latest toy_codec ''s'' 1 m) = Inr [''b''] \<and> file_count toy_codec no_faults ''s'' m = Inr 2"
proof -
  let ?ops = "[(''s'', Some (toy_message 0 ''a'')), (''t'', Some (toy_message 0 ''x'')), (''s'', Some (toy_message 0 ''b''))]"
  have f: "fit (file_storable toy_codec) (apart_names CHR ''/'') ''s'' ?ops"
    by (simp add: fit_def toy_storable newline_def apart_names_def safe_name_def)
  have w: "written unnumbered ''s'' ?ops [] = [unnumbered (toy_message 0 ''a''), unnumbered (toy_message 0 ''b'')]" by simp
  let ?m = "work (file_append toy_codec no_faults) (file_delete no_faults) ?ops (open_memory ''d'' CHR ''/'' [])"
  obtain ms where ms: "latest toy_codec ''s'' 1 ?m = Inr ms" "map unnumbered ms = [unnumbered (toy_message 0 ''b'')]"
      and c: "file_count toy_codec no_faults ''s'' ?m = Inr 2"
    using file_memory_serves_history [OF f, of 1 "''d''"] unfolding Let_def w by (auto simp: newest_def)
  have "map msg_content (map unnumbered ms) = map msg_content ms" by (simp add: unnumbered_def)
  then have "map msg_content ms = [''b'']" unfolding ms(2) by (simp add: unnumbered_def toy_message_def)
  then show ?thesis using ms(1) c by (simp add: Let_def)
qed

section \<open>Search\<close>

lemma exchange_pass_ok:
  "exchange_pass x ys = (z, zs) \<Longrightarrow> mset (z # zs) = mset (x # ys) \<and> (\<forall>y\<in>set (x # ys). snd y \<le> snd z)"
proof (induction x ys arbitrary: z zs rule: exchange_pass.induct)
  case (2 x y ys)
  show ?case
  proof (cases "snd x < snd y")
    case True
    obtain u us where u: "exchange_pass y ys = (u, us)" by (cases "exchange_pass y ys")
    then show ?thesis using 2(1) [OF True u] 2(3) True by (auto simp: add_mset_commute)
  next
    case False
    obtain u us where u: "exchange_pass x ys = (u, us)" by (cases "exchange_pass x ys")
    then show ?thesis using 2(2) [OF False u] 2(3) False by (auto simp: add_mset_commute)
  qed
qed simp

lemma exchange_sort_ok:
  "mset (exchange_sort xs) = mset xs \<and> sorted_wrt (\<lambda>x y. snd y \<le> snd x) (exchange_sort xs)"
proof (induction xs rule: exchange_sort.induct)
  case (2 x ys)
  obtain z zs where z: "exchange_pass x ys = (z, zs)" by (cases "exchange_pass x ys")
  note ok = exchange_pass_ok [OF z]
  have "mset (exchange_sort zs) = mset zs" "sorted_wrt (\<lambda>x y. snd y \<le> snd x) (exchange_sort zs)"
    using 2 [OF z [symmetric]] by blast+
  moreover have "set zs \<subseteq> set (x # ys)" using ok by (metis set_mset_mset set_subset_Cons)
  moreover have "set (exchange_sort zs) = set zs" using calculation(1) by (metis set_mset_mset)
  ultimately show ?case using ok z by auto
qed simp

text \<open>The matches: every message that contains the query, scored by where.\<close>

definition match_score :: "string \<Rightarrow> message \<Rightarrow> real option" where
  "match_score q msg = map_option (\<lambda>pos. 1 / (1 + real pos)) (str_index (to_lower (msg_content msg)) (to_lower q))"

lemma find_matches_eq:
  "find_matches (to_lower q) i msgs =
     map (\<lambda>(k, msg). (k, the (match_score q msg))) (filter (\<lambda>(k, msg). match_score q msg \<noteq> None) (zip [i..<i + length msgs] msgs))"
proof (induction msgs arbitrary: i)
  case (Cons m ms)
  have "[i..<i + length (m # ms)] = i # [Suc i..<Suc i + length ms]" by (simp add: upt_rec)
  then show ?case using Cons [of "Suc i"] by (simp add: match_score_def split: option.split)
qed simp

lemma map_snd_filter: "map snd (filter (\<lambda>(k, x). P x) zs) = filter P (map snd zs)"
  by (induction zs) auto

text \<open>
  \<^verbatim>\<open>Search\<close> returns the best matches first: its result is an initial part, of the length asked
  for, of an ordering by descending score of all messages of the session that contain the query.
\<close>

theorem file_search_ranks:
  assumes "file_search cd io sid q limit m = Returns (Inr rs)"
  shows "\<exists>all found. read_all cd io sid m = Inr all \<and> rs = take (nat limit) found \<and>
    sorted_wrt (\<lambda>x y. sr_score y \<le> sr_score x) found \<and>
    mset found = mset (map (\<lambda>msg. \<lparr>sr_message = msg, sr_score = the (match_score q msg)\<rparr>)
      (filter (\<lambda>msg. match_score q msg \<noteq> None) all))"
proof -
  obtain all where all: "read_all cd io sid m = Inr all"
    using assms by (auto simp: file_search_def split: option.splits sum.splits)
  let ?ms = "exchange_sort (find_matches (to_lower q) 0 all)"
  let ?res = "\<lambda>(i, score). \<lparr>sr_message = all ! i, sr_score = score\<rparr>"
  let ?found = "map ?res ?ms"
  have rs: "rs = take (nat limit) ?found"
  proof -
    have "\<not> min limit (int (length ?ms)) < 0" "rs = map ?res (take (nat (min limit (int (length ?ms)))) ?ms)"
      using assms all by (auto simp: file_search_def Let_def split: option.splits if_splits)
    then show ?thesis by (simp add: take_map min_def)
  qed
  have sorted: "sorted_wrt (\<lambda>x y. sr_score y \<le> sr_score x) ?found"
    using exchange_sort_ok [of "find_matches (to_lower q) 0 all"] by (simp add: sorted_wrt_map case_prod_beta)
  let ?z = "zip [0..<length all] all"
  have z: "all ! k = msg" if "(k, msg) \<in> set ?z" for k msg using that by (auto simp: set_zip)
  have "mset ?found = mset (map ?res (find_matches (to_lower q) 0 all))"
    using exchange_sort_ok [of "find_matches (to_lower q) 0 all"] by simp
  also have "map ?res (find_matches (to_lower q) 0 all) =
      map (\<lambda>(k, msg). \<lparr>sr_message = msg, sr_score = the (match_score q msg)\<rparr>) (filter (\<lambda>(k, msg). match_score q msg \<noteq> None) ?z)"
    using z by (auto simp: find_matches_eq)
  also have "\<dots> = map (\<lambda>msg. \<lparr>sr_message = msg, sr_score = the (match_score q msg)\<rparr>)
      (map snd (filter (\<lambda>(k, msg). match_score q msg \<noteq> None) ?z))"
    by (simp add: case_prod_beta comp_def)
  also have "map snd (filter (\<lambda>(k, msg). match_score q msg \<noteq> None) ?z) = filter (\<lambda>msg. match_score q msg \<noteq> None) (map snd ?z)"
    by (rule map_snd_filter)
  finally show ?thesis using all rs sorted by auto
qed

theorem file_search_ranks_witness:
  "let m = work (file_append toy_codec no_faults) (file_delete no_faults)
      [(''s'', Some (toy_message 0 ''xxhello'')), (''s'', Some (toy_message 0 ''Hello''))] (open_memory ''d'' CHR ''/'' []) in
   (case file_search toy_codec no_faults ''s'' ''hello'' 1 m of Returns (Inr rs) \<Rightarrow>
      \<exists>all found. rs = take (nat 1) found \<and> sorted_wrt (\<lambda>x y. sr_score y \<le> sr_score x) found | _ \<Rightarrow> False)"
proof -
  let ?m = "work (file_append toy_codec no_faults) (file_delete no_faults)
      [(''s'', Some (toy_message 0 ''xxhello'')), (''s'', Some (toy_message 0 ''Hello''))] (open_memory ''d'' CHR ''/'' [])"
  let ?r = "file_search toy_codec no_faults ''s'' ''hello'' 1 ?m"
  have "case ?r of Returns (Inr rs) \<Rightarrow> True | _ \<Rightarrow> False" by code_simp
  then obtain rs where rs: "?r = Returns (Inr rs)" by (cases ?r) (auto split: sum.splits)
  from file_search_ranks [OF rs] show ?thesis unfolding Let_def rs by auto
qed

section \<open>Compaction\<close>

lemma summarize_new_writes:
  assumes "summarize_new cd no_faults summarize sid safeIdx all m = Returns m'"
  shows "m' = m \<or> (\<exists>cc b. m' = put_file (compressed_path m sid) b m \<and> enc_cc cd cc = Inr b \<and> cc_through_index cc = safeIdx \<and>
    (\<forall>p. read_compressed cd no_faults sid m = Inr (Some p) \<longrightarrow> cc_through_index p < safeIdx))"
proof -
  let ?prev = "case read_compressed cd no_faults sid m of Inl e \<Rightarrow> None | Inr p \<Rightarrow> p"
  let ?last = "case ?prev of None \<Rightarrow> 0 | Some p \<Rightarrow> cc_through_index p"
  let ?sum = "summarize (take (nat (safeIdx - ?last)) (drop (nat ?last) all)) ?prev"
  show ?thesis
  proof (cases "safeIdx \<le> ?last \<or> ?last < 0")
    case True
    then show ?thesis using assms by (auto simp: summarize_new_def Let_def split: if_splits)
  next
    case False
    then have c: "Returns m' = (case ?sum of
        Inr (Some cc) \<Rightarrow> Returns (write_compressed cd no_faults sid (cc\<lparr>cc_through_index := safeIdx\<rparr>) m) | _ \<Rightarrow> Returns m)"
      using assms by (simp add: summarize_new_def Let_def)
    show ?thesis
    proof (cases "\<exists>cc b. ?sum = Inr (Some cc) \<and> enc_cc cd (cc\<lparr>cc_through_index := safeIdx\<rparr>) = Inr b")
      case True
      then obtain cc b where cc: "?sum = Inr (Some cc)" "enc_cc cd (cc\<lparr>cc_through_index := safeIdx\<rparr>) = Inr b" by blast
      have "m' = put_file (compressed_path m sid) b m" using c cc by (simp add: write_compressed_def Let_def)
      moreover have "cc_through_index p < safeIdx" if "read_compressed cd no_faults sid m = Inr (Some p)" for p
        using False that by simp
      ultimately show ?thesis using cc(2) by (intro disjI2 exI [of _ "cc\<lparr>cc_through_index := safeIdx\<rparr>"]) simp
    next
      case no: False
      then show ?thesis using c by (auto simp: write_compressed_def Let_def split: sum.splits option.splits)
    qed
  qed
qed

lemma compact_outcome:
  assumes "file_compact cd no_faults sid through messages m = Returns (e, m')"
  shows "m' = m \<or> (\<exists>summarize safeIdx all. summarize_new cd no_faults summarize sid safeIdx all m = Returns m')"
  using assms by (auto simp: file_compact_def Let_def split: option.splits sum.splits if_splits go_ret.splits)

lemma read_all_compressed: "read_all cd no_faults s (put_file (compressed_path m sid) b m) = read_all cd no_faults s m"
  using compressed_not_session [of m sid s] by (auto simp: read_all_def Let_def)

text \<open>
  Compaction deletes no message: after \<^verbatim>\<open>Compact\<close> the history of every session reads as before,
  and the marker of the session never moves back, if the codec gives back the marker it was given.
\<close>

theorem file_compaction_keeps_history:
  assumes "file_compact cd no_faults sid through messages m = Returns (e, m')"
    and "\<And>cc b. enc_cc cd cc = Inr b \<Longrightarrow> dec_cc cd b = Some cc"
  shows "read_all cd no_faults sid' m' = read_all cd no_faults sid' m \<and>
    (\<forall>cc. file_compressed cd no_faults sid m = Inr (Some cc) \<longrightarrow>
      (\<exists>cc'. file_compressed cd no_faults sid m' = Inr (Some cc') \<and> cc_through_index cc \<le> cc_through_index cc'))"
proof -
  consider "m' = m" | cc b where "m' = put_file (compressed_path m sid) b m" "enc_cc cd cc = Inr b"
      "\<And>p. read_compressed cd no_faults sid m = Inr (Some p) \<Longrightarrow> cc_through_index p < cc_through_index cc"
    using compact_outcome [OF assms(1)] summarize_new_writes by metis
  then show ?thesis
  proof cases
    case (2 cc b)
    have "file_compressed cd no_faults sid m' = Inr (Some cc)"
      using assms(2) [OF 2(2)] by (simp add: 2(1) file_compressed_def read_compressed_def Let_def)
    then show ?thesis using 2(3) by (auto simp: 2(1) read_all_compressed file_compressed_def intro: less_imp_le)
  qed auto
qed

lemma toy_cc: "enc_cc toy_codec cc = Inr b \<Longrightarrow> dec_cc toy_codec b = Some cc"
  using toy_bits [of "cc_through_index cc"] by (cases cc) (auto simp: toy_codec_def split: if_splits)

definition toy_summarizer :: summarizer where
  "toy_summarizer msgs prev = Inr (Some \<lparr>cc_summary = '''', cc_hints = [], cc_through_index = 0\<rparr>)"

theorem file_compaction_keeps_history_witness:
  "let m = with_summarizer (Some toy_summarizer)
      (work (file_append toy_codec no_faults) (file_delete no_faults)
        [(''s'', Some (toy_message 0 ''a'')), (''s'', Some (toy_message 0 ''b''))] (open_memory ''d'' CHR ''/'' [])) in
   (case file_compact toy_codec no_faults ''s'' 1 None m of
      Returns (e, m') \<Rightarrow> read_all toy_codec no_faults ''s'' m' = read_all toy_codec no_faults ''s'' m \<and>
        map_sum id (map_option cc_through_index) (file_compressed toy_codec no_faults ''s'' m') = Inr (Some 1)
    | Panics p \<Rightarrow> False)"
proof -
  let ?m = "with_summarizer (Some toy_summarizer)
      (work (file_append toy_codec no_faults) (file_delete no_faults)
        [(''s'', Some (toy_message 0 ''a'')), (''s'', Some (toy_message 0 ''b''))] (open_memory ''d'' CHR ''/'' []))"
  let ?r = "file_compact toy_codec no_faults ''s'' 1 None ?m"
  have c: "case ?r of Returns (e, m') \<Rightarrow>
      map_sum id (map_option cc_through_index) (file_compressed toy_codec no_faults ''s'' m') = Inr (Some 1) | Panics p \<Rightarrow> False"
    by code_simp
  then obtain e m' where r: "?r = Returns (e, m')" by (cases ?r) auto
  from file_compaction_keeps_history [OF r toy_cc, of "''s''"] c show ?thesis unfolding Let_def r by simp
qed

section \<open>Limits of the file format\<close>

text \<open>Two sessions share a file when their ids differ only in slashes and underscores.\<close>

lemma session_files_collide: "session_path m ''a/b'' = session_path m ''a_b''"
  by (simp add: session_path_def safe_name_def)

text \<open>\<^verbatim>\<open>DeleteSession\<close> keeps the counter: the first message of the emptied session has index 2.\<close>

lemma delete_keeps_counter:
  "let m = work (file_append toy_codec no_faults) (file_delete no_faults)
      [(''s'', Some (toy_message 0 ''a'')), (''s'', None), (''s'', Some (toy_message 0 ''b''))] (open_memory ''d'' CHR ''/'' []) in
   map_sum id (map msg_index) (latest toy_codec ''s'' 9 m) = Inr [2]"
  by code_simp

text \<open>A stored line of 64 KB makes the first append after a restart fail, though \<^verbatim>\<open>Recent\<close> reads it.\<close>

lemma long_line_blocks_append:
  assumes "map_of (fm_disk m) (session_path m sid) = Some (l @ newline # rest)" "newline \<notin> set l" "count_limit \<le> int (length l)"
  shows "file_append cd no_faults sid x (restart m) = (Some (append_err too_long), restart m)"
proof -
  have t: "takeWhile (\<lambda>c. c \<noteq> newline) (l @ newline # rest) = l" using assms(2) by (subst takeWhile_append2) auto
  have "scan_lines count_limit (l @ newline # rest) = ([], True)"
    by (subst scan_lines.simps) (simp add: t assms(3))
  moreover have "map_of (fm_disk (restart m)) (session_path (restart m) sid) = Some (l @ newline # rest)"
    using assms(1) by (simp add: restart_def open_memory_def session_path_def)
  moreover have "gm_get 0 (fm_next (restart m)) sid = 0" by (simp add: restart_def open_memory_def gm_get_def)
  ultimately show ?thesis by (simp add: file_append_def seed_index_def count_lines_def Let_def scan_file_def)
qed

end
