(* ===== verification/SqliteMemory.thy ===== *)
theory SqliteMemory
  imports FileMemory
begin

text \<open>
  \<^verbatim>\<open>memory/sqlite/memory.go\<close>. Tables are lists of rows in the order of their ids and the SQL
  statements of the code are read as what they say about them; a transaction that is not committed
  leaves the database as it was. Parameters: \<^verbatim>\<open>encoding/json\<close> (\<open>row_codec\<close>), the failures of the
  statements, by name (\<open>db_err\<close>), the full-text match in rank order (\<open>fts_match\<close>), the embedder, and
  \<^verbatim>\<open>sort.Slice\<close>, which is not stable (\<open>by_score\<close>). Numbers of a vector are reals.
\<close>

section \<open>Tables\<close>

record row =
  rw_id :: int
  rw_session :: string
  rw_role :: role
  rw_content :: string
  rw_parts :: string
  rw_calls :: string
  rw_call_id :: string
  rw_reasoning :: string

record sqlite_db =
  db_rows :: "row list"
  db_next :: int
  db_fts :: "(int \<times> string) list"
  db_vectors :: "(int \<times> real list) list"
  db_compressed :: "(string \<times> string) list"

record row_codec =
  enc_parts :: "content_part list \<Rightarrow> string option"
  dec_parts :: "string \<Rightarrow> content_part list"
  enc_calls :: "tool_call list \<Rightarrow> string option"
  dec_calls :: "string \<Rightarrow> tool_call list"
  enc_summary :: "compressed_context \<Rightarrow> string option"
  dec_summary :: "string \<Rightarrow> go_err + compressed_context"

record db_env =
  db_err :: "string \<Rightarrow> go_err option"
  fts_match :: "string \<Rightarrow> (int \<times> string) list \<Rightarrow> int list"
  by_score :: "(message \<times> real) list \<Rightarrow> (message \<times> real) list"

record sqlite_memory =
  sq_embedder :: "(string \<Rightarrow> go_err + real list) option"
  sq_summarizer :: "summarizer option"
  sq_max_scan :: int
  sq_db :: sqlite_db

definition empty_db :: sqlite_db where
  "empty_db = \<lparr>db_rows = [], db_next = 1, db_fts = [], db_vectors = [], db_compressed = []\<rparr>"

text \<open>\<^verbatim>\<open>New\<close>: the migration creates the tables that are missing and keeps the others.\<close>

definition open_sqlite :: "sqlite_db \<Rightarrow> sqlite_memory" where
  "open_sqlite db = \<lparr>sq_embedder = None, sq_summarizer = None, sq_max_scan = 2000, sq_db = db\<rparr>"

definition with_embedder :: "(string \<Rightarrow> go_err + real list) option \<Rightarrow> sqlite_memory \<Rightarrow> sqlite_memory" where
  "with_embedder e m = m\<lparr>sq_embedder := e\<rparr>"

definition with_max_scan :: "int \<Rightarrow> sqlite_memory \<Rightarrow> sqlite_memory" where
  "with_max_scan n m = m\<lparr>sq_max_scan := n\<rparr>"

definition sq_fail :: "string \<Rightarrow> go_err \<Rightarrow> go_err" where
  "sq_fail what e = ErrWrap (what @ '': '') e ''''"

section \<open>Rows and messages\<close>

definition row_to_message :: "row_codec \<Rightarrow> row \<Rightarrow> message" where
  "row_to_message cd r =
     (let msg = empty_message\<lparr>msg_role := rw_role r, msg_content := rw_content r,
            msg_reasoning := rw_reasoning r, msg_tool_call_id := rw_call_id r\<rparr>;
          msg1 = (if rw_parts r \<noteq> '''' \<and> rw_parts r \<noteq> ''[]'' then msg\<lparr>msg_content_parts := dec_parts cd (rw_parts r)\<rparr> else msg)
      in if rw_calls r \<noteq> '''' \<and> rw_calls r \<noteq> ''[]'' then msg1\<lparr>msg_tool_calls := dec_calls cd (rw_calls r)\<rparr> else msg1)"

definition scan_messages :: "row_codec \<Rightarrow> row list \<Rightarrow> message list" where
  "scan_messages cd rs = map (\<lambda>r. (row_to_message cd r)\<lparr>msg_index := rw_id r\<rparr>) rs"

definition json_text :: "string option \<Rightarrow> string \<Rightarrow> string" where
  "json_text b d = (case b of Some s \<Rightarrow> s | None \<Rightarrow> d)"

definition message_row :: "row_codec \<Rightarrow> int \<Rightarrow> string \<Rightarrow> message \<Rightarrow> row" where
  "message_row cd i sid m =
     \<lparr>rw_id = i, rw_session = sid, rw_role = msg_role m, rw_content = msg_content m,
      rw_parts = json_text (enc_parts cd (msg_content_parts m)) ''[]'',
      rw_calls = json_text (enc_calls cd (msg_tool_calls m)) ''[]'',
      rw_call_id = msg_tool_call_id m, rw_reasoning = msg_reasoning m\<rparr>"

text \<open>\<^verbatim>\<open>SELECT \<dots> WHERE session_id = ?\<close>, in the order of the ids.\<close>

definition session_rows :: "string \<Rightarrow> sqlite_memory \<Rightarrow> row list" where
  "session_rows sid m = filter (\<lambda>r. rw_session r = sid) (db_rows (sq_db m))"

section \<open>The operations\<close>

definition sqlite_count :: "db_env \<Rightarrow> string \<Rightarrow> sqlite_memory \<Rightarrow> go_err + int" where
  "sqlite_count env sid m =
     (case db_err env ''count'' of
        Some e \<Rightarrow> Inl (sq_fail ''sqlite count'' e)
      | None \<Rightarrow> Inr (int (length (session_rows sid m))))"

definition insert_message :: "row_codec \<Rightarrow> string \<Rightarrow> message \<Rightarrow> sqlite_db \<Rightarrow> sqlite_db" where
  "insert_message cd sid msg db =
     db\<lparr>db_rows := db_rows db @ [message_row cd (db_next db) sid msg], db_next := db_next db + 1\<rparr>"

definition index_text :: "int \<Rightarrow> message \<Rightarrow> sqlite_db \<Rightarrow> sqlite_db" where
  "index_text i msg db = (if msg_content msg \<noteq> '''' then db\<lparr>db_fts := db_fts db @ [(i, msg_content msg)]\<rparr> else db)"

text \<open>The vector is best effort: neither the embedder nor the statement may fail the append.\<close>

definition index_vector :: "db_env \<Rightarrow> (string \<Rightarrow> go_err + real list) option \<Rightarrow> int \<Rightarrow> message \<Rightarrow> sqlite_db \<Rightarrow> sqlite_db" where
  "index_vector env emb i msg db =
     (case emb of
        None \<Rightarrow> db
      | Some f \<Rightarrow>
          if msg_content msg = '''' then db
          else case f (msg_content msg) of
              Inl e \<Rightarrow> db
            | Inr v \<Rightarrow>
                if db_err env ''vector'' \<noteq> None then db
                else db\<lparr>db_vectors := filter (\<lambda>(j, u). j \<noteq> i) (db_vectors db) @ [(i, v)]\<rparr>)"

definition sqlite_append ::
  "row_codec \<Rightarrow> db_env \<Rightarrow> string \<Rightarrow> message \<Rightarrow> sqlite_memory \<Rightarrow> go_err option \<times> sqlite_memory" where
  "sqlite_append cd env sid msg m =
     (case db_err env ''begin'' of
        Some e \<Rightarrow> (Some (sq_fail ''sqlite append'' e), m)
      | None \<Rightarrow>
          (case db_err env ''insert'' of
             Some e \<Rightarrow> (Some (sq_fail ''sqlite append'' e), m)
           | None \<Rightarrow>
               let i = db_next (sq_db m); db1 = insert_message cd sid msg (sq_db m) in
               case (if msg_content msg \<noteq> '''' then db_err env ''fts'' else None) of
                 Some e \<Rightarrow> (Some (sq_fail ''sqlite fts'' e), m)
               | None \<Rightarrow>
                   let db3 = index_vector env (sq_embedder m) i msg (index_text i msg db1) in
                   (case db_err env ''commit'' of
                      Some e \<Rightarrow> (Some (sq_fail ''sqlite append commit'' e), m)
                    | None \<Rightarrow> (None, m\<lparr>sq_db := db3\<rparr>))))"

text \<open>The deletes of \<^verbatim>\<open>DeleteSession\<close>, in the order of the statements.\<close>

definition delete_session_rows :: "string \<Rightarrow> sqlite_db \<Rightarrow> sqlite_db" where
  "delete_session_rows sid db =
     (let ids = map rw_id (filter (\<lambda>r. rw_session r = sid) (db_rows db)) in
      db\<lparr>db_fts := filter (\<lambda>(i, c). i \<notin> set ids) (db_fts db),
         db_vectors := filter (\<lambda>(i, v). i \<notin> set ids) (db_vectors db),
         db_compressed := filter (\<lambda>(s, d). s \<noteq> sid) (db_compressed db),
         db_rows := filter (\<lambda>r. rw_session r \<noteq> sid) (db_rows db)\<rparr>)"

fun first_error :: "db_env \<Rightarrow> (string \<times> string) list \<Rightarrow> go_err option" where
  "first_error env [] = None"
| "first_error env ((stmt, what) # rest) =
     (case db_err env stmt of Some e \<Rightarrow> Some (if what = '''' then e else sq_fail what e) | None \<Rightarrow> first_error env rest)"

definition sqlite_delete :: "db_env \<Rightarrow> string \<Rightarrow> sqlite_memory \<Rightarrow> go_err option \<times> sqlite_memory" where
  "sqlite_delete env sid m =
     (case first_error env [(''begin'', ''sqlite delete session''), (''delete fts'', ''sqlite delete session fts''),
         (''delete vectors'', ''sqlite delete session vectors''), (''delete compressed'', ''sqlite delete session compressed''),
         (''delete messages'', ''sqlite delete session messages''), (''commit'', '''')] of
        Some e \<Rightarrow> (Some e, m)
      | None \<Rightarrow> (None, m\<lparr>sq_db := delete_session_rows sid (sq_db m)\<rparr>))"

text \<open>\<^verbatim>\<open>ORDER BY id DESC LIMIT n\<close>, reversed: the newest rows, oldest first.\<close>

definition newest_rows :: "int \<Rightarrow> row list \<Rightarrow> row list" where
  "newest_rows n rs = rev (take (nat n) (rev rs))"

definition cut_recent :: "int \<Rightarrow> int \<Rightarrow> message list \<Rightarrow> message list" where
  "cut_recent n offset msgs0 =
     (let msgs = dropWhile (\<lambda>x. msg_role x = RoleTool) msgs0;
          msgs1 = (if 0 < offset \<and> offset < int (length msgs) then take (length msgs - nat offset) msgs
                   else if 0 < offset then [] else msgs)
      in if 0 < n \<and> n < int (length msgs1) then drop (length msgs1 - nat n) msgs1 else msgs1)"

definition sqlite_recent ::
  "row_codec \<Rightarrow> db_env \<Rightarrow> string \<Rightarrow> int \<Rightarrow> int \<Rightarrow> sqlite_memory \<Rightarrow> go_err + message list" where
  "sqlite_recent cd env sid n offset m =
     (let fetchN = (if n * 2 + offset < 20 then 20 else n * 2 + offset) in
      case db_err env ''recent'' of
        Some e \<Rightarrow> Inl (sq_fail ''sqlite recent'' e)
      | None \<Rightarrow>
          (case db_err env ''scan'' of
             Some e \<Rightarrow> Inl e
           | None \<Rightarrow> Inr (cut_recent n offset (scan_messages cd (newest_rows fetchN (session_rows sid m))))))"

section \<open>Compaction\<close>

definition sqlite_compressed ::
  "row_codec \<Rightarrow> db_env \<Rightarrow> string \<Rightarrow> sqlite_memory \<Rightarrow> go_err + compressed_context option" where
  "sqlite_compressed cd env sid m =
     (case db_err env ''compressed'' of
        Some e \<Rightarrow> Inl (sq_fail ''sqlite compressed'' e)
      | None \<Rightarrow>
          (case rev (filter (\<lambda>(s, d). s = sid) (db_compressed (sq_db m))) of
             [] \<Rightarrow> Inr None
           | (s, d) # older \<Rightarrow>
               (case dec_summary cd d of
                  Inl e \<Rightarrow> Inl (sq_fail ''sqlite compressed'' e)
                | Inr cc \<Rightarrow> Inr (Some cc))))"

definition store_compressed :: "row_codec \<Rightarrow> db_env \<Rightarrow> string \<Rightarrow> compressed_context \<Rightarrow> sqlite_memory \<Rightarrow> sqlite_memory" where
  "store_compressed cd env sid cc m =
     (if first_error env [(''begin'', ''''), (''delete compressed'', ''''), (''insert compressed'', ''''), (''commit'', '''')] \<noteq> None
      then m
      else m\<lparr>sq_db := (sq_db m)\<lparr>db_compressed :=
             filter (\<lambda>(s, d). s \<noteq> sid) (db_compressed (sq_db m)) @ [(sid, json_text (enc_summary cd cc) '''')]\<rparr>\<rparr>)"

text \<open>
  The messages to work on: those that are given when they reach far enough, otherwise the oldest
  \<open>through + 20\<close> of the table; \<open>Inl None\<close> is nothing to do.
\<close>

definition fetch_source ::
  "row_codec \<Rightarrow> db_env \<Rightarrow> string \<Rightarrow> int \<Rightarrow> sqlite_memory \<Rightarrow> go_err option + message list" where
  "fetch_source cd env sid through m =
     (case db_err env ''count'' of
        Some e \<Rightarrow> Inl (Some (sq_fail ''sqlite compact'' e))
      | None \<Rightarrow>
          let count = int (length (session_rows sid m)) in
          if count = 0 \<or> through \<le> 0 \<or> count < through then Inl None
          else case db_err env ''fetch'' of
              Some e \<Rightarrow> Inl (Some (sq_fail ''sqlite compact'' e))
            | None \<Rightarrow>
                Inr (if db_err env ''scan'' \<noteq> None then []
                     else scan_messages cd (take (nat (min (through + 20) count)) (session_rows sid m))))"

definition compact_source ::
  "row_codec \<Rightarrow> db_env \<Rightarrow> string \<Rightarrow> int \<Rightarrow> message list option \<Rightarrow> sqlite_memory \<Rightarrow> go_err option + message list" where
  "compact_source cd env sid through messages m =
     (case messages of
        None \<Rightarrow> fetch_source cd env sid through m
      | Some ms \<Rightarrow> if through \<le> int (length ms) then Inr ms else fetch_source cd env sid through m)"

definition compact_with ::
  "row_codec \<Rightarrow> db_env \<Rightarrow> summarizer \<Rightarrow> string \<Rightarrow> int \<Rightarrow> compressed_context option \<Rightarrow> int \<Rightarrow> message list \<Rightarrow> sqlite_memory
     \<Rightarrow> (go_err option \<times> sqlite_memory) go_ret" where
  "compact_with cd env summarize sid through prev lastIdx all m =
     (if all = [] \<or> int (length all) < through then Returns (None, m)
      else let safeIdx = safe_compression_boundary all through in
        if safeIdx \<le> 0 \<or> int (length all) < safeIdx \<or> safeIdx \<le> lastIdx then Returns (None, m)
        else if lastIdx < 0 then Panics ''slice bounds out of range''
        else case summarize (take (nat (safeIdx - lastIdx)) (drop (nat lastIdx) all)) prev of
            Inl e \<Rightarrow> Returns (Some e, m)
          | Inr None \<Rightarrow> Returns (None, m)
          | Inr (Some cc) \<Rightarrow> Returns (None, store_compressed cd env sid (cc\<lparr>cc_through_index := safeIdx\<rparr>) m))"

definition sqlite_compact ::
  "row_codec \<Rightarrow> db_env \<Rightarrow> string \<Rightarrow> int \<Rightarrow> message list option \<Rightarrow> sqlite_memory
     \<Rightarrow> (go_err option \<times> sqlite_memory) go_ret" where
  "sqlite_compact cd env sid through messages m =
     (case sq_summarizer m of
        None \<Rightarrow> Returns (None, m)
      | Some summarize \<Rightarrow>
          let prev = (case sqlite_compressed cd env sid m of Inl e \<Rightarrow> None | Inr p \<Rightarrow> p);
              lastIdx = (case prev of None \<Rightarrow> 0 | Some p \<Rightarrow> cc_through_index p) in
          if through \<le> lastIdx then Returns (None, m)
          else case compact_source cd env sid through messages m of
              Inl e \<Rightarrow> Returns (e, m)
            | Inr all \<Rightarrow> compact_with cd env summarize sid through prev lastIdx all m)"

section \<open>Search\<close>

definition dot :: "real list \<Rightarrow> real list \<Rightarrow> real" where
  "dot a b = sum_list (map2 (*) a b)"

definition cosine_similarity :: "real list \<Rightarrow> real list \<Rightarrow> real" where
  "cosine_similarity a b =
     (if length a \<noteq> length b \<or> length a = 0 then 0
      else if dot a a = 0 \<or> dot b b = 0 then 0
      else dot a b / (sqrt (dot a a) * sqrt (dot b b)))"

text \<open>\<^verbatim>\<open>LIMIT\<close>: a negative number is no limit.\<close>

definition limited :: "int \<Rightarrow> 'a list \<Rightarrow> 'a list" where
  "limited n xs = (if n < 0 then xs else take (nat n) xs)"

definition candidates :: "row_codec \<Rightarrow> real list \<Rightarrow> string \<Rightarrow> sqlite_memory \<Rightarrow> (message \<times> real) list" where
  "candidates cd q sid m =
     map (\<lambda>(v, r). ((row_to_message cd r)\<lparr>msg_index := rw_id r\<rparr>, cosine_similarity q v))
       (limited (sq_max_scan m)
         (rev (concat (map (\<lambda>r. map (\<lambda>(i, v). (v, r)) (filter (\<lambda>(i, v). i = rw_id r) (db_vectors (sq_db m)))) (session_rows sid m)))))"

definition vector_search ::
  "row_codec \<Rightarrow> db_env \<Rightarrow> (string \<Rightarrow> go_err + real list) \<Rightarrow> string \<Rightarrow> string \<Rightarrow> int \<Rightarrow> sqlite_memory
     \<Rightarrow> (go_err + search_result list) go_ret" where
  "vector_search cd env emb sid query limit m =
     (case emb query of
        Inl e \<Rightarrow> Returns (Inl e)
      | Inr q \<Rightarrow>
          (case db_err env ''vector query'' of
             Some e \<Rightarrow> Returns (Inl e)
           | None \<Rightarrow>
               let cs = by_score env (candidates cd q sid m); limit' = min limit (int (length cs)) in
               if limit' < 0 then Panics ''makeslice: len out of range''
               else Returns (Inr (map (\<lambda>(x, s). \<lparr>sr_message = x, sr_score = s\<rparr>) (take (nat limit') cs)))))"

definition fts_special :: "char \<Rightarrow> bool" where
  "fts_special c = (c \<in> {CHR ''*'', CHR ''('', CHR '')'', CHR ''-'', CHR ''^'', CHR ''~'', CHR ''@'', CHR '':'', CHR 0x22, CHR 0x00})"

definition fts_query :: "string \<Rightarrow> string" where
  "fts_query q = map (\<lambda>c. if fts_special c then CHR '' '' else c) q"

definition fts_search ::
  "row_codec \<Rightarrow> db_env \<Rightarrow> string \<Rightarrow> string \<Rightarrow> int \<Rightarrow> sqlite_memory \<Rightarrow> go_err + search_result list" where
  "fts_search cd env sid query limit m =
     (if trim_space (fts_query query) = '''' then Inr []
      else case db_err env ''fts query'' of
          Some e \<Rightarrow> Inl (sq_fail ''sqlite fts'' e)
        | None \<Rightarrow>
            (case db_err env ''scan'' of
               Some e \<Rightarrow> Inl e
             | None \<Rightarrow>
                 Inr (map (\<lambda>x. \<lparr>sr_message = x, sr_score = 1\<rparr>)
                   (scan_messages cd (limited limit
                     (concat (map (\<lambda>i. filter (\<lambda>r. rw_id r = i) (session_rows sid m))
                       (fts_match env (fts_query query) (db_fts (sq_db m))))))))))"

definition sqlite_search ::
  "row_codec \<Rightarrow> db_env \<Rightarrow> string \<Rightarrow> string \<Rightarrow> int \<Rightarrow> sqlite_memory \<Rightarrow> (go_err + search_result list) go_ret" where
  "sqlite_search cd env sid query limit m =
     (case sq_embedder m of
        None \<Rightarrow> Returns (fts_search cd env sid query limit m)
      | Some emb \<Rightarrow>
          (case vector_search cd env emb sid query limit m of
             Panics p \<Rightarrow> Panics p
           | Returns (Inr rs) \<Rightarrow> Returns (Inr rs)
           | Returns (Inl e) \<Rightarrow> Returns (fts_search cd env sid query limit m)))"

section \<open>The SQLite memory keeps the contract\<close>

definition sound_db :: "(string \<Rightarrow> (int \<times> string) list \<Rightarrow> int list) \<Rightarrow> ((message \<times> real) list \<Rightarrow> (message \<times> real) list) \<Rightarrow> db_env" where
  "sound_db fm srt = \<lparr>db_err = (\<lambda>_. None), fts_match = fm, by_score = srt\<rparr>"

text \<open>The invariant: ids grow, and the full-text index has the content of every row that has one.\<close>

definition text_index :: "row list \<Rightarrow> (int \<times> string) list" where
  "text_index rs = map (\<lambda>r. (rw_id r, rw_content r)) (filter (\<lambda>r. rw_content r \<noteq> '''') rs)"

definition sqlite_good :: "sqlite_memory \<Rightarrow> bool" where
  "sqlite_good m = (let db = sq_db m in
     sorted_wrt (\<lambda>a b. rw_id a < rw_id b) (db_rows db) \<and> list_all (\<lambda>r. rw_id r < db_next db) (db_rows db) \<and>
     db_fts db = text_index (db_rows db))"

definition sqlite_log :: "row_codec \<Rightarrow> string \<Rightarrow> sqlite_memory \<Rightarrow> message list" where
  "sqlite_log cd sid m = scan_messages cd (session_rows sid m)"

text \<open>What the table keeps of a message: neither the name nor the transient mark has a column.\<close>

definition row_kept :: "message \<Rightarrow> message" where
  "row_kept x = x\<lparr>msg_name := '''', msg_transient := False, msg_index := 0\<rparr>"

definition decoded :: "(string \<Rightarrow> 'a list) \<Rightarrow> string \<Rightarrow> 'a list" where
  "decoded dec s = (if s \<noteq> '''' \<and> s \<noteq> ''[]'' then dec s else [])"

definition sqlite_storable :: "row_codec \<Rightarrow> message \<Rightarrow> bool" where
  "sqlite_storable cd x =
     (decoded (dec_parts cd) (json_text (enc_parts cd (msg_content_parts x)) ''[]'') = msg_content_parts x \<and>
      decoded (dec_calls cd) (json_text (enc_calls cd (msg_tool_calls x)) ''[]'') = msg_tool_calls x)"

definition sqlite_latest :: "row_codec \<Rightarrow> db_env \<Rightarrow> string \<Rightarrow> int \<Rightarrow> sqlite_memory \<Rightarrow> go_err + message list" where
  "sqlite_latest cd env sid n m = sqlite_recent cd env sid n 0 m"

lemma sound_db_err [simp]: "db_err (sound_db fm srt) s = None"
  by (simp add: sound_db_def)

lemma row_to_message_eq:
  "row_to_message cd r = empty_message\<lparr>msg_role := rw_role r, msg_content := rw_content r, msg_reasoning := rw_reasoning r,
     msg_tool_call_id := rw_call_id r, msg_content_parts := decoded (dec_parts cd) (rw_parts r),
     msg_tool_calls := decoded (dec_calls cd) (rw_calls r)\<rparr>"
  by (simp add: row_to_message_def decoded_def empty_message_def Let_def)

lemma row_round_trip:
  "sqlite_storable cd x \<Longrightarrow> row_kept ((row_to_message cd (message_row cd i sid x))\<lparr>msg_index := j\<rparr>) = row_kept x"
  by (simp add: row_to_message_eq row_kept_def message_row_def sqlite_storable_def empty_message_def)

lemma index_vector_same:
  "db_rows (index_vector env emb i msg db) = db_rows db" "db_next (index_vector env emb i msg db) = db_next db"
  "db_fts (index_vector env emb i msg db) = db_fts db"
  by (simp_all add: index_vector_def split: option.split sum.split)

lemma append_rows:
  assumes "sqlite_append cd (sound_db fm srt) sid x m = (e, m')"
  shows "e = None" "db_rows (sq_db m') = db_rows (sq_db m) @ [message_row cd (db_next (sq_db m)) sid x]"
    "db_next (sq_db m') = db_next (sq_db m) + 1"
    "db_fts (sq_db m') = db_fts (sq_db m) @ text_index [message_row cd (db_next (sq_db m)) sid x]"
proof -
  have "sqlite_append cd (sound_db fm srt) sid x m = (None, m\<lparr>sq_db := index_vector (sound_db fm srt) (sq_embedder m) (db_next (sq_db m)) x
      (index_text (db_next (sq_db m)) x (insert_message cd sid x (sq_db m)))\<rparr>)"
    by (cases "msg_content x = ''''") (simp_all add: sqlite_append_def Let_def)
  then have m': "e = None" "m' = m\<lparr>sq_db := index_vector (sound_db fm srt) (sq_embedder m) (db_next (sq_db m)) x
      (index_text (db_next (sq_db m)) x (insert_message cd sid x (sq_db m)))\<rparr>" using assms by simp_all
  show "e = None" "db_rows (sq_db m') = db_rows (sq_db m) @ [message_row cd (db_next (sq_db m)) sid x]"
    "db_next (sq_db m') = db_next (sq_db m) + 1"
    "db_fts (sq_db m') = db_fts (sq_db m) @ text_index [message_row cd (db_next (sq_db m)) sid x]"
    by (simp_all add: m' index_vector_same index_text_def insert_message_def text_index_def message_row_def)
qed

lemma sqlite_append_ok:
  assumes g: "sqlite_good m" and x: "sqlite_storable cd x" and a: "sqlite_append cd (sound_db fm srt) sid x m = (e, m')"
  shows "e = None" "sqlite_good m'"
    "map row_kept (sqlite_log cd sid m') = map row_kept (sqlite_log cd sid m) @ [row_kept x]"
    "sid \<noteq> sid' \<Longrightarrow> sqlite_log cd sid' m' = sqlite_log cd sid' m"
proof -
  note r = append_rows [OF a]
  let ?r = "message_row cd (db_next (sq_db m)) sid x"
  have i: "rw_id ?r = db_next (sq_db m)" "rw_session ?r = sid" by (simp_all add: message_row_def)
  show "e = None" by (rule r(1))
  show "sqlite_good m'" using g i unfolding sqlite_good_def Let_def r
    by (auto simp: sorted_wrt_append list_all_iff text_index_def)
  show "map row_kept (sqlite_log cd sid m') = map row_kept (sqlite_log cd sid m) @ [row_kept x]"
    using row_round_trip [OF x] i by (simp add: sqlite_log_def scan_messages_def session_rows_def r)
  show "sid \<noteq> sid' \<Longrightarrow> sqlite_log cd sid' m' = sqlite_log cd sid' m"
    using i by (simp add: sqlite_log_def scan_messages_def session_rows_def r)
qed

lemma delete_rows:
  assumes "sqlite_delete (sound_db fm srt) sid m = (e, m')"
  shows "e = None" "m' = m\<lparr>sq_db := delete_session_rows sid (sq_db m)\<rparr>"
  using assms by (auto simp: sqlite_delete_def)

lemma sorted_ids_inj:
  "sorted_wrt (\<lambda>a b. rw_id a < rw_id b) rs \<Longrightarrow> a \<in> set rs \<Longrightarrow> b \<in> set rs \<Longrightarrow> rw_id a = rw_id b \<Longrightarrow> a = b"
  by (induction rs) auto

lemma text_index_delete:
  assumes "sorted_wrt (\<lambda>a b. rw_id a < rw_id b) rs"
  shows "filter (\<lambda>(i, c). i \<notin> set (map rw_id (filter (\<lambda>r. rw_session r = sid) rs))) (text_index rs) =
     text_index (filter (\<lambda>r. rw_session r \<noteq> sid) rs)"
proof -
  have "rw_id r \<in> rw_id ` {x \<in> set rs. rw_session x = sid} \<longleftrightarrow> rw_session r = sid" if "r \<in> set rs" for r
    using sorted_ids_inj [OF assms that] that by auto
  then have "filter (\<lambda>r. rw_content r \<noteq> '''' \<and> rw_id r \<notin> rw_id ` {x \<in> set rs. rw_session x = sid}) rs =
      filter (\<lambda>r. rw_content r \<noteq> '''' \<and> rw_session r \<noteq> sid) rs"
    by (intro filter_cong refl) auto
  then show ?thesis by (simp add: text_index_def filter_map comp_def conj_commute)
qed

lemma sqlite_delete_ok:
  assumes g: "sqlite_good m" and d: "sqlite_delete (sound_db fm srt) sid m = (e, m')"
  shows "e = None" "sqlite_good m'" "sqlite_log cd sid m' = []" "sid \<noteq> sid' \<Longrightarrow> sqlite_log cd sid' m' = sqlite_log cd sid' m"
proof -
  note m' = delete_rows [OF d]
  have rows: "db_rows (sq_db m') = filter (\<lambda>r. rw_session r \<noteq> sid) (db_rows (sq_db m))"
    "db_next (sq_db m') = db_next (sq_db m)"
    by (simp_all add: m'(2) delete_session_rows_def Let_def)
  have "db_fts (sq_db m') = text_index (db_rows (sq_db m'))"
    using text_index_delete [of "db_rows (sq_db m)" sid] g
    by (simp add: rows, simp add: m'(2) delete_session_rows_def sqlite_good_def Let_def)
  then show "sqlite_good m'" using g unfolding sqlite_good_def Let_def rows
    by (auto simp: sorted_wrt_filter list_all_iff)
  show "e = None" by (rule m'(1))
  show "sqlite_log cd sid m' = []" by (simp add: sqlite_log_def scan_messages_def session_rows_def rows)
  show "sid \<noteq> sid' \<Longrightarrow> sqlite_log cd sid' m' = sqlite_log cd sid' m"
  proof -
    assume "sid \<noteq> sid'"
    then have "filter (\<lambda>r. rw_session r \<noteq> sid \<and> rw_session r = sid') rs = filter (\<lambda>r. rw_session r = sid') rs" for rs :: "row list"
      by (intro filter_cong) auto
    then show ?thesis by (simp add: sqlite_log_def scan_messages_def session_rows_def rows)
  qed
qed

lemma newest_rows_eq: "newest_rows n rs = newest n rs"
  by (simp add: newest_rows_def newest_def take_rev)

lemma sqlite_latest_eq:
  "sqlite_latest cd (sound_db fm srt) sid n m =
     Inr (cut_recent n 0 (newest (max 20 (n * 2)) (sqlite_log cd sid m)))"
  by (simp add: sqlite_latest_def sqlite_recent_def Let_def newest_rows_eq sqlite_log_def scan_messages_def newest_map max_def)

lemma cut_recent_suffix: "0 < n \<Longrightarrow> suffix (cut_recent n 0 ms) ms \<and> int (length (cut_recent n 0 ms)) \<le> n"
proof -
  let ?d = "dropWhile (\<lambda>x. msg_role x = RoleTool) ms"
  assume n: "0 < n"
  have "suffix ?d ms" by (rule suffix_dropWhile)
  moreover have "suffix (drop (length ?d - nat n) ?d) ms" using suffix_drop suffix_order.trans \<open>suffix ?d ms\<close> by blast
  ultimately show ?thesis using n by (auto simp: cut_recent_def Let_def)
qed

interpretation sqlite_store: memory_backend sqlite_good "sqlite_log cd" row_kept "sqlite_storable cd" "(\<noteq>)"
  "sqlite_append cd (sound_db fm srt)" "sqlite_latest cd (sound_db fm srt)" "sqlite_count (sound_db fm srt)"
  "sqlite_delete (sound_db fm srt)" for cd fm srt
proof unfold_locales
  fix m n sid assume "sqlite_good m" and n: "(0::int) < n"
  show "\<exists>ms. sqlite_latest cd (sound_db fm srt) sid n m = Inr ms \<and> suffix ms (sqlite_log cd sid m) \<and> int (length ms) \<le> n"
    using cut_recent_suffix [OF n] suffix_newest suffix_order.trans unfolding sqlite_latest_eq by blast
next
  fix m sid assume "sqlite_good m"
  show "sqlite_count (sound_db fm srt) sid m = Inr (int (length (sqlite_log cd sid m)))"
    by (simp add: sqlite_count_def sqlite_log_def scan_messages_def)
qed (blast dest: sqlite_append_ok sqlite_delete_ok)+

lemma fresh_sqlite: "sqlite_good (open_sqlite empty_db)" "sqlite_log cd sid (open_sqlite empty_db) = []"
  by (simp_all add: sqlite_good_def open_sqlite_def empty_db_def Let_def text_index_def sqlite_log_def scan_messages_def session_rows_def)

lemma newest_dropWhile:
  assumes "nat n \<le> k" "newest n xs = [] \<or> \<not> P (hd (newest n xs))"
  shows "newest n (dropWhile P (drop (length xs - k) xs)) = newest n xs"
proof (cases "newest n xs = []")
  case True
  then have "length xs \<le> length xs - nat n" by (simp add: newest_def)
  then have "nat n = 0 \<or> length xs = 0" by arith
  then show ?thesis by (auto simp: newest_def)
next
  case False
  let ?d = "drop (length xs - k) xs"
  have "suffix (newest n xs) ?d"
    unfolding newest_def using assms(1) by (metis diff_le_mono2 suffix_drop drop_drop le_add_diff_inverse2)
  then obtain u where u: "?d = u @ newest n xs" by (auto simp: suffix_def)
  obtain y ys where y: "newest n xs = y # ys" "\<not> P y" using False assms(2) by (cases "newest n xs") auto
  have "suffix (newest n xs) (dropWhile P ?d)"
    unfolding u y(1) by (induction u) (auto simp: y(2) suffix_Cons intro: suffixI)
  then obtain v where v: "dropWhile P ?d = v @ newest n xs" by (auto simp: suffix_def)
  have "length (newest n xs) = nat n \<or> newest n xs = xs"
    by (cases "nat n \<le> length xs") (auto simp: newest_def)
  then show ?thesis
  proof
    assume l: "length (newest n xs) = nat n"
    then show ?thesis unfolding v by (simp add: newest_def [of n "v @ newest n xs"])
  next
    assume w: "newest n xs = xs"
    have "length (v @ newest n xs) \<le> length ?d" unfolding v [symmetric] by (rule length_dropWhile_le)
    then have "length v + length xs \<le> length xs - (length xs - k)" by (simp only: w length_append length_drop)
    moreover have "a = 0" if "a + b \<le> b - c" for a b c :: nat using that by arith
    ultimately have "length v = 0" by blast
    then have "v = []" by simp
    then show ?thesis using v w by simp
  qed
qed

text \<open>
  C18: Over any appends and deletions the SQLite memory keeps ids growing and the full-text index in
  step with the messages; \<^verbatim>\<open>Count\<close> is the number of messages since the last deletion, and \<^verbatim>\<open>Recent\<close>
  the newest end of them, all of the \<open>n\<close> asked for unless that end starts with a tool result. The
  sessions do not mix. (The name and the transient mark of a message are not kept.)
\<close>

theorem sqlite_memory_serves_history:
  assumes "fit (sqlite_storable cd) (\<noteq>) sid ops" "0 < n"
  shows "let m = work (sqlite_append cd (sound_db fm srt)) (sqlite_delete (sound_db fm srt)) ops (open_sqlite empty_db);
      hist = written row_kept sid ops [] in
    sqlite_good m \<and> sqlite_count (sound_db fm srt) sid m = Inr (int (length hist)) \<and>
    (\<exists>ms. sqlite_latest cd (sound_db fm srt) sid n m = Inr ms \<and> suffix (map row_kept ms) hist \<and> int (length ms) \<le> n \<and>
       (newest n hist \<noteq> [] \<and> msg_role (hd (newest n hist)) \<noteq> RoleTool \<longrightarrow> map row_kept ms = newest n hist))"
proof -
  let ?m = "work (sqlite_append cd (sound_db fm srt)) (sqlite_delete (sound_db fm srt)) ops (open_sqlite empty_db)"
  let ?hist = "written row_kept sid ops []" and ?log = "sqlite_log cd sid ?m"
  have w: "sqlite_good ?m" "map row_kept ?log = ?hist"
    using sqlite_store.work_log [OF fresh_sqlite(1) assms(1)] fresh_sqlite(2) by auto
  obtain ms where ms: "sqlite_latest cd (sound_db fm srt) sid n ?m = Inr ms" "suffix (map row_kept ms) ?hist" "int (length ms) \<le> n"
    using sqlite_store.work_recent_suffix [OF fresh_sqlite(1) assms(1) fresh_sqlite(2) assms(2)] by blast
  have c: "ms = cut_recent n 0 (newest (max 20 (n * 2)) ?log)" using ms(1) by (simp add: sqlite_latest_eq)
  have "map row_kept ms = newest n ?hist" if h: "newest n ?hist \<noteq> []" "msg_role (hd (newest n ?hist)) \<noteq> RoleTool"
  proof -
    have l: "newest n ?hist = map row_kept (newest n ?log)" using w(2) by (simp add: newest_map [symmetric])
    have ne: "newest n ?log \<noteq> []" using h(1) l by auto
    have "msg_role (hd (newest n ?log)) \<noteq> RoleTool" using h(2) ne by (simp add: l hd_map row_kept_def)
    moreover have "nat n \<le> nat (max 20 (n * 2))" using assms(2) by simp
    ultimately have "newest n (dropWhile (\<lambda>x. msg_role x = RoleTool) (newest (max 20 (n * 2)) ?log)) = newest n ?log"
      unfolding newest_def [of "max 20 (n * 2)"] by (intro newest_dropWhile) auto
    moreover have "cut_recent n 0 xs = newest n (dropWhile (\<lambda>x. msg_role x = RoleTool) xs)" for xs
      using assms(2) by (auto simp: cut_recent_def Let_def newest_def)
    ultimately show ?thesis using c l by simp
  qed
  then show ?thesis using w(1) ms sqlite_store.work_count [OF fresh_sqlite(1) assms(1) fresh_sqlite(2)]
    by (auto simp: Let_def)
qed

text \<open>A codec for messages without parts and calls.\<close>

definition plain_codec :: row_codec where
  "plain_codec = \<lparr>enc_parts = (\<lambda>ps. if ps = [] then Some ''null'' else None), dec_parts = (\<lambda>s. []),
     enc_calls = (\<lambda>cs. if cs = [] then Some ''null'' else None), dec_calls = (\<lambda>s. []),
     enc_summary = (\<lambda>cc. None), dec_summary = (\<lambda>s. Inl (ErrText s))\<rparr>"

definition plain_db :: db_env where
  "plain_db = sound_db (\<lambda>q entries. map fst entries) (\<lambda>cs. cs)"

theorem sqlite_memory_serves_history_witness:
  "let m = work (sqlite_append plain_codec plain_db) (sqlite_delete plain_db)
      [(''s'', Some (user_message ''a'')), (''t'', Some (user_message ''x'')), (''s'', Some (user_message ''b''))]
      (open_sqlite empty_db) in
   map_sum id (map msg_content) (sqlite_latest plain_codec plain_db ''s'' 1 m) = Inr [''b''] \<and>
   sqlite_count plain_db ''s'' m = Inr 2"
proof -
  let ?ops = "[(''s'', Some (user_message ''a'')), (''t'', Some (user_message ''x'')), (''s'', Some (user_message ''b''))]"
  have f: "fit (sqlite_storable plain_codec) (\<noteq>) ''s'' ?ops"
    by (simp add: fit_def sqlite_storable_def plain_codec_def json_text_def decoded_def user_message_def role_message_def empty_message_def)
  have w: "written row_kept ''s'' ?ops [] = [row_kept (user_message ''a''), row_kept (user_message ''b'')]" by simp
  let ?m = "work (sqlite_append plain_codec plain_db) (sqlite_delete plain_db) ?ops (open_sqlite empty_db)"
  have n: "newest 1 [row_kept (user_message ''a''), row_kept (user_message ''b'')] = [row_kept (user_message ''b'')]"
    by (simp add: newest_def)
  obtain ms where ms: "sqlite_latest plain_codec plain_db ''s'' 1 ?m = Inr ms" "map row_kept ms = [row_kept (user_message ''b'')]"
      and c: "sqlite_count plain_db ''s'' ?m = Inr 2"
    using sqlite_memory_serves_history [OF f, of 1 "\<lambda>q entries. map fst entries" "\<lambda>cs. cs"]
    unfolding Let_def w n plain_db_def [symmetric] by (auto simp: row_kept_def)
  have "map msg_content ms = map msg_content (map row_kept ms)" by (simp add: row_kept_def)
  then have "map msg_content ms = [''b'']" unfolding ms(2) by (simp add: row_kept_def)
  then show ?thesis using ms(1) c by (simp add: Let_def)
qed

section \<open>Limits of the SQLite memory\<close>

text \<open>
  The window of \<open>2n\<close> rows is cleaned before it is cut to \<open>n\<close>: the cut itself may leave a tool result
  in front, without the message that carries its call.
\<close>

lemma recent_starts_with_orphan:
  "cut_recent 1 0 [tool_message ''c'' ''r'', user_message ''q'', (role_message RoleAssistant '''')\<lparr>msg_tool_calls := tcs\<rparr>, tool_message ''c'' ''r'']
     = [tool_message ''c'' ''r'']"
  by (simp add: cut_recent_def tool_message_def user_message_def role_message_def empty_message_def)

text \<open>A run of tool results that fills the window hides the whole history.\<close>

lemma recent_hides_history:
  "list_all (\<lambda>x. msg_role x = RoleTool) w \<Longrightarrow> cut_recent n 0 w = []"
  by (induction w) (simp_all add: cut_recent_def Let_def)

text \<open>A scan limit of 0 is no rows at all, not no limit: the vector search finds nothing.\<close>

lemma max_scan_zero_finds_nothing: "candidates cd q sid (with_max_scan 0 m) = []"
  by (simp add: candidates_def with_max_scan_def limited_def)

end
