(* ===== verification/TeamMemory.thy ===== *)
theory TeamMemory
  imports Runner SqliteMemory
begin

text \<open>
  \<^verbatim>\<open>rest/team_memory.go\<close>: the memory of a member of a team on the REST server. Tool results and
  assistant messages with tool calls go to a session of the member's own, everything else to the
  shared session; both live in one store. The operations are written over those of the store, so
  that they run on every backend of the contract.
\<close>

section \<open>The operations\<close>

definition private_key :: "string \<Rightarrow> string \<Rightarrow> string" where
  "private_key agent sid = sid @ ''::'' @ agent"

definition is_private :: "message \<Rightarrow> bool" where
  "is_private x = (msg_role x = RoleTool \<or> msg_role x = RoleAssistant \<and> 0 < length (msg_tool_calls x))"

definition team_append ::
  "(string \<Rightarrow> message \<Rightarrow> 'm \<Rightarrow> go_err option \<times> 'm) \<Rightarrow> string \<Rightarrow> string \<Rightarrow> message \<Rightarrow> 'm \<Rightarrow> go_err option \<times> 'm" where
  "team_append store agent sid x m = store (if is_private x then private_key agent sid else sid) x m"

text \<open>An error of the store is dropped: its part is empty.\<close>

definition or_empty :: "go_err + 'a list \<Rightarrow> 'a list" where
  "or_empty r = (case r of Inl e \<Rightarrow> [] | Inr xs \<Rightarrow> xs)"

definition team_recent ::
  "(string \<Rightarrow> int \<Rightarrow> int \<Rightarrow> 'm \<Rightarrow> go_err + message list) \<Rightarrow> string \<Rightarrow> string \<Rightarrow> int \<Rightarrow> int \<Rightarrow> 'm \<Rightarrow> message list go_ret" where
  "team_recent rec agent sid n offset m =
     (let result = or_empty (rec sid n offset m) @ or_empty (rec (private_key agent sid) n offset m) in
      if int (length result) \<le> n then Returns result
      else if n < 0 then Panics ''slice bounds out of range''
      else Returns (drop (length result - nat n) result))"

definition private_recent ::
  "(string \<Rightarrow> int \<Rightarrow> int \<Rightarrow> 'm \<Rightarrow> go_err + message list) \<Rightarrow> string \<Rightarrow> string \<Rightarrow> int \<Rightarrow> int \<Rightarrow> 'm \<Rightarrow> go_err + message list" where
  "private_recent rec agent sid n offset m = rec (private_key agent sid) n offset m"

definition team_count :: "(string \<Rightarrow> 'm \<Rightarrow> go_err + int) \<Rightarrow> string \<Rightarrow> string \<Rightarrow> 'm \<Rightarrow> int" where
  "team_count cnt agent sid m =
     (case cnt sid m of Inl e \<Rightarrow> 0 | Inr k \<Rightarrow> k) + (case cnt (private_key agent sid) m of Inl e \<Rightarrow> 0 | Inr k \<Rightarrow> k)"

text \<open>\<^verbatim>\<open>Compact\<close> and \<^verbatim>\<open>Compressed\<close> act on the shared session, \<^verbatim>\<open>DeleteSession\<close> on the private one.\<close>

definition team_compact ::
  "(string \<Rightarrow> int \<Rightarrow> message list option \<Rightarrow> 'm \<Rightarrow> 'r) \<Rightarrow> string \<Rightarrow> int \<Rightarrow> message list option \<Rightarrow> 'm \<Rightarrow> 'r" where
  "team_compact cmp sid through messages m = cmp sid through messages m"

definition team_compressed :: "(string \<Rightarrow> 'm \<Rightarrow> 'r) \<Rightarrow> string \<Rightarrow> 'm \<Rightarrow> 'r" where
  "team_compressed cmpd sid m = cmpd sid m"

definition team_delete :: "(string \<Rightarrow> 'm \<Rightarrow> go_err option \<times> 'm) \<Rightarrow> string \<Rightarrow> string \<Rightarrow> 'm \<Rightarrow> go_err option \<times> 'm" where
  "team_delete wipe agent sid m = wipe (private_key agent sid) m"

text \<open>\<^verbatim>\<open>Search\<close>; \<open>srt\<close> is \<^verbatim>\<open>sort.Slice\<close> by descending score.\<close>

definition team_search ::
  "(search_result list \<Rightarrow> search_result list) \<Rightarrow> (string \<Rightarrow> string \<Rightarrow> int \<Rightarrow> 'm \<Rightarrow> go_err + search_result list)
     \<Rightarrow> string \<Rightarrow> string \<Rightarrow> string \<Rightarrow> int \<Rightarrow> 'm \<Rightarrow> search_result list go_ret" where
  "team_search srt search agent sid query limit m =
     (let shared = or_empty (search sid query limit m); priv = or_empty (search (private_key agent sid) query limit m) in
      if length shared + length priv = 0 then Returns []
      else let all = srt (shared @ priv) in
        if int (length all) \<le> limit then Returns all
        else if limit < 0 then Panics ''slice bounds out of range''
        else Returns (take (nat limit) all))"

section \<open>Who sees what\<close>

text \<open>The messages members append to one session, one after the other.\<close>

fun team_work ::
  "(string \<Rightarrow> message \<Rightarrow> 'm \<Rightarrow> go_err option \<times> 'm) \<Rightarrow> string \<Rightarrow> (string \<times> message) list \<Rightarrow> 'm \<Rightarrow> 'm" where
  "team_work store sid [] m = m"
| "team_work store sid ((agent, x) # ops) m = team_work store sid ops (snd (team_append store agent sid x m))"

definition team_ops :: "string \<Rightarrow> (string \<times> message) list \<Rightarrow> (string \<times> message option) list" where
  "team_ops sid ops = map (\<lambda>(agent, x). (if is_private x then private_key agent sid else sid, Some x)) ops"

definition shared_part :: "(string \<times> message) list \<Rightarrow> message list" where
  "shared_part ops = filter (\<lambda>x. \<not> is_private x) (map snd ops)"

definition private_part :: "string \<Rightarrow> (string \<times> message) list \<Rightarrow> message list" where
  "private_part agent ops = map snd (filter (\<lambda>(a, x). a = agent \<and> is_private x) ops)"

lemma team_work_eq: "team_work store sid ops m = work store wipe (team_ops sid ops) m"
  by (induction store sid ops m rule: team_work.induct) (simp_all add: team_ops_def team_append_def)

lemma private_key_inj: "private_key a sid = private_key b sid \<longleftrightarrow> a = b" "private_key a sid \<noteq> sid" "sid \<noteq> private_key a sid"
  by (simp_all add: private_key_def)

lemma written_shared: "written kept sid (team_ops sid ops) acc = acc @ map kept (shared_part ops)"
  by (induction ops arbitrary: acc) (auto simp: team_ops_def shared_part_def private_key_inj)

lemma written_private:
  "written kept (private_key agent sid) (team_ops sid ops) acc = acc @ map kept (private_part agent ops)"
proof (induction ops arbitrary: acc)
  case (Cons op ops)
  obtain a x where op: "op = (a, x)" by force
  show ?case
    using Cons.IH [of acc] Cons.IH [of "acc @ [kept x]"]
    by (cases "is_private x"; cases "a = agent") (simp_all add: op team_ops_def private_part_def private_key_inj)
qed (simp add: team_ops_def private_part_def)

context memory_backend
begin

text \<open>On every backend the shared log has the shared messages, a private log those of its member.\<close>

lemma team_logs:
  assumes g: "good m" and st: "list_all (\<lambda>(a, x). storable x) ops"
    and ap: "\<And>a. apart sid (private_key a sid) \<and> apart (private_key a sid) sid"
      "\<And>a b. a \<in> fst ` set ops \<Longrightarrow> a \<noteq> agent \<Longrightarrow> apart (private_key a sid) (private_key agent sid)"
    and e: "log sid m = []" "log (private_key agent sid) m = []"
  shows "map kept (log sid (team_work store sid ops m)) = map kept (shared_part ops)"
    and "map kept (log (private_key agent sid) (team_work store sid ops m)) = map kept (private_part agent ops)"
proof -
  have f1: "fit storable apart sid (team_ops sid ops)"
    using st ap(1) by (auto simp: fit_def team_ops_def list_all_iff)
  have "s = private_key agent sid \<or> apart s (private_key agent sid)"
    if "(s, x) \<in> set (team_ops sid ops)" for s x
    using that ap by (auto simp: team_ops_def split: if_splits) (metis fst_conv image_eqI)
  then have f2: "fit storable apart (private_key agent sid) (team_ops sid ops)"
    using st by (fastforce simp: fit_def list_all_iff team_ops_def)
  show "map kept (log sid (team_work store sid ops m)) = map kept (shared_part ops)"
    unfolding team_work_eq [of store sid ops m wipe] using work_log [OF g f1, of "[]"] e(1) by (simp add: written_shared)
  show "map kept (log (private_key agent sid) (team_work store sid ops m)) = map kept (private_part agent ops)"
    unfolding team_work_eq [of store sid ops m wipe] using work_log [OF g f2, of "[]"] e(2) by (simp add: written_private)
qed

end

text \<open>
  C32: In the SQLite memory the members of a team share the user messages and text answers of their
  session in the order they were appended, and each has its own tool calls and results to itself:
  no private message of one member is in the shared log or in the log of another, and no tool
  result at all is in the shared log.
\<close>

theorem team_memory_isolates:
  assumes "list_all (\<lambda>(a, x). sqlite_storable cd x) ops"
  shows "let m = team_work (sqlite_append cd (sound_db fm srt)) sid ops (open_sqlite empty_db) in
    map row_kept (sqlite_log cd sid m) = map row_kept (shared_part ops) \<and>
    map row_kept (sqlite_log cd (private_key agent sid) m) = map row_kept (private_part agent ops) \<and>
    RoleTool \<notin> msg_role ` set (sqlite_log cd sid m)"
proof -
  note logs = sqlite_store.team_logs [OF fresh_sqlite(1) assms, of sid agent]
  let ?m = "team_work (sqlite_append cd (sound_db fm srt)) sid ops (open_sqlite empty_db)"
  have sh: "map row_kept (sqlite_log cd sid ?m) = map row_kept (shared_part ops)"
    by (rule logs(1)) (simp_all add: private_key_inj fresh_sqlite(2))
  moreover have "map row_kept (sqlite_log cd (private_key agent sid) ?m) = map row_kept (private_part agent ops)"
    by (rule logs(2)) (simp_all add: private_key_inj fresh_sqlite(2))
  moreover have "map msg_role (sqlite_log cd sid ?m) = map msg_role (shared_part ops)"
    using arg_cong [OF sh, of "map msg_role"] by (simp add: row_kept_def o_def)
  then have "msg_role ` set (sqlite_log cd sid ?m) = msg_role ` set (shared_part ops)"
    by (metis list.set_map)
  then have "RoleTool \<notin> msg_role ` set (sqlite_log cd sid ?m)" by (auto simp: shared_part_def is_private_def)
  ultimately show ?thesis using sh by (simp add: Let_def)
qed

theorem team_memory_isolates_witness:
  "let m = team_work (sqlite_append plain_codec plain_db) ''s''
      [(''a'', user_message ''hi''), (''a'', tool_message ''c'' ''secret''), (''b'', role_message RoleAssistant ''yes'')]
      (open_sqlite empty_db) in
   map row_kept (sqlite_log plain_codec ''s'' m) = map row_kept [user_message ''hi'', role_message RoleAssistant ''yes''] \<and>
   map row_kept (sqlite_log plain_codec (private_key ''b'' ''s'') m) = [] \<and>
   RoleTool \<notin> msg_role ` set (sqlite_log plain_codec ''s'' m)"
proof -
  let ?ops = "[(''a'', user_message ''hi''), (''a'', tool_message ''c'' ''secret''), (''b'', role_message RoleAssistant ''yes'')]"
  have st: "list_all (\<lambda>(a, x). sqlite_storable plain_codec x) ?ops"
    by (simp add: sqlite_storable_def plain_codec_def json_text_def decoded_def user_message_def tool_message_def
        role_message_def empty_message_def)
  have parts: "shared_part ?ops = [user_message ''hi'', role_message RoleAssistant ''yes'']" "private_part ''b'' ?ops = []"
    by (simp_all add: shared_part_def private_part_def is_private_def tool_message_def)
  show ?thesis
    using team_memory_isolates [OF st, of "\<lambda>q entries. map fst entries" "\<lambda>cs. cs" "''s''" "''b''"]
    unfolding parts plain_db_def [symmetric] by (simp only: list.map)
qed

section \<open>Limits of the split\<close>

text \<open>
  The private messages come behind all shared ones, so a history that ends with the input just
  appended does not end with it here, and what strips it from the history does not find it.
\<close>

lemma private_hides_input:
  fixes m :: "string \<Rightarrow> message list"
  assumes "m ''s'' = [user_message ''question'']" "m (private_key ''a'' ''s'') = [tool_message ''c'' ''old result'']"
  shows "let h = [user_message ''question'', tool_message ''c'' ''old result''] in
    team_recent (\<lambda>sid n off m. Inr (m sid)) ''a'' ''s'' 10 0 m = Returns h \<and> strip_input h = h"
  using assms by (simp add: team_recent_def or_empty_def strip_input_def tool_message_def empty_message_def)

end
