(* ===== verification/TeamHandler.thy ===== *)
theory TeamHandler
  imports Approvals TeamFacts TeamMemory
begin

text \<open>
  \<^verbatim>\<open>rest/team.go\<close>: the REST handler of a team. Each session has a team of its own with copies of the
  template agents, a roster for the client, and, when there is a memory, one private log per member.
  \<open>memif name\<close> is the memory of the member \<open>name\<close> as its agent sees it, \<open>bridge sid\<close> its approver.
\<close>

section \<open>The handler and its entries\<close>

record 'v team_template =
  tt_name :: string
  tt_description :: string
  tt_agent :: "'v agent"

record 'v team_handler =
  th_agents :: "'v team_template list"
  th_model :: "'v chat_model option"

text \<open>\<^verbatim>\<open>agentInfo\<close> of this package; its type is always internal.\<close>

record roster_entry =
  ro_name :: string
  ro_description :: string

record 'v team_entry = rest_entry +
  te_team :: "'v team"
  te_roster :: "roster_entry list"
  te_mems :: "string list"

definition new_team_handler :: "'v team_template list \<Rightarrow> 'v team_handler" where
  "new_team_handler ts = \<lparr>th_agents = ts, th_model = (case ts of [] \<Rightarrow> None | t # us \<Rightarrow> ag_model (tt_agent t))\<rparr>"

definition clone_for_session :: "'v agent \<Rightarrow> 'v memory_if option \<Rightarrow> 'v approver \<Rightarrow> 'v agent" where
  "clone_for_session a mem ap = new_agent (ag_name a)
     [WithModel (ag_model a), WithMemory mem, WithTools (ag_tools a), WithInstructions (ag_instructions a),
      WithMaxTurns (ag_max_turns a), WithApprover (Some ap)]"

definition template_option :: "(string \<Rightarrow> 'v memory_if) option \<Rightarrow> 'v approver \<Rightarrow> 'v team_template \<Rightarrow> 'v team_option" where
  "template_option memif ap t =
     WithTeamAgent (tt_name t) (tt_description t)
       (clone_for_session (tt_agent t) (case memif of Some f \<Rightarrow> Some (f (tt_name t)) | None \<Rightarrow> ag_memory (tt_agent t)) ap)"

definition session_team :: "'v team_handler \<Rightarrow> (string \<Rightarrow> 'v memory_if) option \<Rightarrow> 'v approver \<Rightarrow> 'v team" where
  "session_team h memif ap =
     (fold apply_team_option (WithTeamMaxHandoffs 10 # map (template_option memif ap) (th_agents h)) empty_team)
       \<lparr>tm_router := Some first_agent_router\<rparr>"

definition new_team_entry ::
  "'v team_handler \<Rightarrow> (string \<Rightarrow> 'v memory_if) option \<Rightarrow> (string \<Rightarrow> 'v approver) \<Rightarrow> session_info \<Rightarrow> 'v team_entry" where
  "new_team_entry h memif bridge i = \<lparr>re_info = i, re_running = False, re_pending = None,
     te_team = session_team h memif (bridge (si_id i)),
     te_roster = map (\<lambda>t. \<lparr>ro_name = tt_name t, ro_description = tt_description t\<rparr>) (th_agents h),
     te_mems = (if memif = None then [] else map tt_name (th_agents h))\<rparr>"

text \<open>\<^verbatim>\<open>onDelete\<close>: the private logs of the members, as they are at that time.\<close>

definition delete_private ::
  "(string \<Rightarrow> 'm \<Rightarrow> go_err option \<times> 'm) \<Rightarrow> 'v team_entry \<Rightarrow> 'm \<Rightarrow> 'm" where
  "delete_private wipe e m = fold (\<lambda>name m. snd (team_delete wipe name (si_id (re_info e)) m)) (te_mems e) m"

definition team_env ::
  "'v team_handler \<Rightarrow> (string \<Rightarrow> 'v memory_if) option \<Rightarrow> (string \<Rightarrow> 'v approver) \<Rightarrow> ('v team_entry, 's, 'm) manager_env
     \<Rightarrow> ('v team_entry, 's, 'm) manager_env" where
  "team_env h memif bridge base = base\<lparr>sh_kind := ''team'', sh_new := new_team_entry h memif bridge, sh_info := re_info,
     sh_write := write_entry_info, sh_active := is_active, sh_window := (\<lambda>_. None), sh_on_delete := delete_private (me_delete base)\<rparr>"

interpretation team_entries: session_entries "team_env h memif bridge base" for h memif bridge base
  by unfold_locales (simp_all add: team_env_def new_team_entry_def write_entry_info_def)

interpretation team_idle: idle_entries "team_env h memif bridge base" for h memif bridge base
  by unfold_locales (simp add: team_env_def new_team_entry_def)

section \<open>Members\<close>

record add_member_body =
  am_name :: string
  am_description :: string
  am_instructions :: string

text \<open>The agent of a member that a client adds.\<close>

definition added_agent ::
  "'v team_handler \<Rightarrow> (string \<Rightarrow> 'v memory_if) option \<Rightarrow> 'v approver \<Rightarrow> add_member_body \<Rightarrow> 'v agent" where
  "added_agent h memif ap b = new_agent (am_name b)
     [WithModel (th_model h), WithMemory (map_option (\<lambda>f. f (am_name b)) memif), WithInstructions (am_instructions b),
      WithMaxTurns 3, WithApprover (Some ap)]"

text \<open>The part of \<^verbatim>\<open>handleAddAgent\<close> behind the checks, on the entry; an error leaves the roster alone.\<close>

definition entry_add ::
  "'v team_handler \<Rightarrow> (string \<Rightarrow> 'v memory_if) option \<Rightarrow> 'v approver \<Rightarrow> add_member_body \<Rightarrow> 'v team_entry \<Rightarrow> 'v
     \<Rightarrow> (go_err option \<times> 'v team_entry \<times> 'v) go_ret" where
  "entry_add h memif ap b e w =
     (case add_agent (am_name b) (am_description b) (InProcess (added_agent h memif ap b)) (te_team e) w of
        Panics p \<Rightarrow> Panics p
      | Returns (Some err, t, w1) \<Rightarrow> Returns (Some err, e\<lparr>te_team := t\<rparr>, w1)
      | Returns (None, t, w1) \<Rightarrow>
          Returns (None, e\<lparr>te_team := t,
            te_roster := te_roster e @ [\<lparr>ro_name = am_name b, ro_description = am_description b\<rparr>],
            te_mems := (if memif = None then te_mems e else te_mems e @ [am_name b])\<rparr>, w1))"

definition handle_add_agent ::
  "'v team_handler \<Rightarrow> (string \<Rightarrow> 'v memory_if) option \<Rightarrow> (string \<Rightarrow> 'v approver) \<Rightarrow> ('v team_entry, 's, 'm) manager_env
     \<Rightarrow> (nat \<Rightarrow> int) \<Rightarrow> string \<Rightarrow> add_member_body option \<Rightarrow> ('v team_entry, 's, 'm) server \<Rightarrow> 'v
     \<Rightarrow> (reply \<times> ('v team_entry, 's, 'm) server \<times> 'v) go_ret" where
  "handle_add_agent h memif bridge env clk sid body sv w =
     (case body of
        None \<Rightarrow> Returns (Reply 400 (BodyError ''name is required''), sv, w)
      | Some b \<Rightarrow>
          if am_name b = [] then Returns (Reply 400 (BodyError ''name is required''), sv, w)
          else case open_entry env clk sid sv of
            (k, sv1) \<Rightarrow>
              if th_model h = None then Returns (Reply 500 (BodyError ''no model available for new agent''), sv1, w)
              else case entry_add h memif (bridge sid) b (entry_at sv1 k) w of
                Panics p \<Rightarrow> Panics p
              | Returns (Some err, e, w1) \<Rightarrow> Returns (Reply 400 (BodyError (err_text err)), at_entry k (\<lambda>_. e) sv1, w1)
              | Returns (None, e, w1) \<Rightarrow> Returns (Reply 201 (BodyStatus ''added''), at_entry k (\<lambda>_. e) sv1, w1))"

definition entry_remove :: "string \<Rightarrow> 'v team_entry \<Rightarrow> 'v \<Rightarrow> ('v team_entry \<times> 'v) go_ret" where
  "entry_remove name e w =
     (case remove_agent name (te_team e) w of
        Panics p \<Rightarrow> Panics p
      | Returns (t, w1) \<Rightarrow> Returns (e\<lparr>te_team := t, te_roster := filter (\<lambda>a. ro_name a \<noteq> name) (te_roster e),
            te_mems := filter (\<lambda>a. a \<noteq> name) (te_mems e)\<rparr>, w1))"

text \<open>The private logs of the name are deleted, one deletion for each wrapper with it.\<close>

definition wipe_member ::
  "('v team_entry, 's, 'm) manager_env \<Rightarrow> string \<Rightarrow> string \<Rightarrow> 'v team_entry \<Rightarrow> ('v team_entry, 's, 'm) server \<Rightarrow> ('v team_entry, 's, 'm) server" where
  "wipe_member env name sid e sv =
     (let r = sv_manager sv in
      sv\<lparr>sv_manager := r\<lparr>sm_memory := map_option (\<lambda>m.
          fold (\<lambda>a m. snd (team_delete (me_delete env) a sid m)) (filter (\<lambda>a. a = name) (te_mems e)) m) (sm_memory r)\<rparr>\<rparr>)"

definition handle_remove_agent ::
  "('v team_entry, 's, 'm) manager_env \<Rightarrow> (nat \<Rightarrow> int) \<Rightarrow> string \<Rightarrow> string \<Rightarrow> ('v team_entry, 's, 'm) server \<Rightarrow> 'v
     \<Rightarrow> (reply \<times> ('v team_entry, 's, 'm) server \<times> 'v) go_ret" where
  "handle_remove_agent env clk sid name sv w =
     (if name = [] then Returns (Reply 400 (BodyError ''name query param is required''), sv, w)
      else case open_entry env clk sid sv of
        (k, sv1) \<Rightarrow>
          (case entry_remove name (entry_at sv1 k) w of
             Panics p \<Rightarrow> Panics p
           | Returns (e, w1) \<Rightarrow> Returns (Reply 204 NoBody, at_entry k (\<lambda>_. e) (wipe_member env name sid (entry_at sv1 k) sv1), w1)))"

definition handle_list_agents ::
  "('v team_entry, 's, 'm) manager_env \<Rightarrow> (nat \<Rightarrow> int) \<Rightarrow> string \<Rightarrow> ('v team_entry, 's, 'm) server
     \<Rightarrow> roster_entry list \<times> ('v team_entry, 's, 'm) server" where
  "handle_list_agents env clk sid sv = (case open_entry env clk sid sv of (k, sv1) \<Rightarrow> (te_roster (entry_at sv1 k), sv1))"

section \<open>The history of a session\<close>

text \<open>\<^verbatim>\<open>sort.Slice\<close> by the index of the messages; \<open>ord\<close> is the order it leaves among equal ones.\<close>

definition by_index :: "(message list \<Rightarrow> message list) \<Rightarrow> message list \<Rightarrow> message list" where
  "by_index ord ms = sort_key msg_index (ord ms)"

text \<open>The page of \<open>limit\<close> messages in front of the newest \<open>before\<close>.\<close>

definition page_of :: "int \<Rightarrow> int \<Rightarrow> 'a list \<Rightarrow> 'a list" where
  "page_of limit before ms =
     (let kept = (if 0 < before \<and> before < int (length ms) then take (length ms - nat before) ms
                  else if 0 < before then [] else ms)
      in if limit < int (length kept) then drop (length kept - nat limit) kept else kept)"

definition team_messages ::
  "(message list \<Rightarrow> message list) \<Rightarrow> ('v team_entry, 's, 'm) manager_env \<Rightarrow> (nat \<Rightarrow> int) \<Rightarrow> string \<Rightarrow> int option \<Rightarrow> int option
     \<Rightarrow> ('v team_entry, 's, 'm) server \<Rightarrow> reply \<times> ('v team_entry, 's, 'm) server" where
  "team_messages ord env clk sid limit before sv =
     (case sm_memory (sv_manager sv) of
        None \<Rightarrow> (Reply 200 (BodyMessages []), sv)
      | Some m \<Rightarrow>
          let lim = param_or 50 (clamp_param 1 200 limit); bef = param_or 0 (clamp_param 0 100000 before) in
          (case me_recent env sid (lim + bef) 0 m of
             Inl e \<Rightarrow> (Reply 500 (BodyError ''failed to fetch messages''), sv)
           | Inr shared \<Rightarrow>
               (case open_entry env clk sid sv of
                  (k, sv1) \<Rightarrow>
                    let priv = concat (map (\<lambda>a. or_empty (private_recent (me_recent env) a sid (lim + bef) 0 m)) (te_mems (entry_at sv1 k)))
                    in (Reply 200 (BodyMessages (page_of lim bef (by_index ord (shared @ priv)))), sv1))))"

section \<open>A chat with the team\<close>

record 'v team_job =
  tj_entry :: nat
  tj_sub :: nat
  tj_session :: "'v session"
  tj_input :: message

definition start_team_chat ::
  "('v team_entry, 's, 'm) manager_env \<Rightarrow> (nat \<Rightarrow> int) \<Rightarrow> string \<Rightarrow> string option \<Rightarrow> bool
     \<Rightarrow> ('v team_entry, 's, 'm) server \<Rightarrow> (reply + 'v team_job) \<times> ('v team_entry, 's, 'm) server" where
  "start_team_chat env clk sid body flushable sv =
     (case body of
        None \<Rightarrow> (Inl (Reply 400 (BodyError ''message is required'')), sv)
      | Some text \<Rightarrow>
          if text = [] then (Inl (Reply 400 (BodyError ''message is required'')), sv)
          else case open_entry env clk sid sv of
            (k, sv1) \<Rightarrow>
              let sv2 = begin_run k sv1 in
              if \<not> flushable then (Inl (Reply 500 (BodyError ''streaming not supported'')), sv2)
              else case subscribe False sid (sm_bus (sv_manager sv2)) of
                (sub, b) \<Rightarrow>
                  (Inr \<lparr>tj_entry = k, tj_sub = sub, tj_session = new_session sid, tj_input = user_message text\<rparr>,
                   sv2\<lparr>sv_manager := (sv_manager sv2)\<lparr>sm_bus := b\<rparr>\<rparr>))"

text \<open>Every event of the team's stream is published; then the run counts as over.\<close>

fun forward_team :: "string \<Rightarrow> team_event list \<Rightarrow> ('e, 's, 'm) server \<Rightarrow> ('e, 's, 'm) server go_ret" where
  "forward_team sid [] sv = Returns sv"
| "forward_team sid (e # es) sv =
     (let se = team_event_to_sse e in
      if se_type se = [] then forward_team sid es sv
      else case publish_event sid se sv of
        Panics p \<Rightarrow> Panics p
      | Returns sv1 \<Rightarrow> forward_team sid es sv1)"

definition run_team_chat ::
  "nat \<Rightarrow> 'w team_env \<Rightarrow> string \<Rightarrow> 'w team_world team_job \<Rightarrow> ('w team_world team_entry, 's, 'm) server \<Rightarrow> 'w team_world
     \<Rightarrow> ('w team_world team_entry, 's, 'm) server go_ret option" where
  "run_team_chat n tenv sid job sv w =
     (case team_run_stream n tenv (te_team (entry_at sv (tj_entry job))) (tj_session job) (tj_input job) w of
        None \<Rightarrow> None
      | Some (Panics p, tr) \<Rightarrow> Some (Panics p)
      | Some (Returns es, tr) \<Rightarrow>
          Some (case forward_team sid es sv of Panics p \<Rightarrow> Panics p | Returns sv1 \<Rightarrow> Returns (end_run (tj_entry job) sv1)))"

definition team_response ::
  "(sse_event \<Rightarrow> go_err + string) \<Rightarrow> (string list \<Rightarrow> go_err option) \<Rightarrow> sse_event list \<Rightarrow> bool \<times> string list" where
  "team_response enc broken es = relay chat_closes enc broken es []"

definition team_approve ::
  "('v team_entry, 's, 'm) manager_env \<Rightarrow> (nat \<Rightarrow> int) \<Rightarrow> string \<Rightarrow> (bool \<times> string) option \<Rightarrow> ('v team_entry, 's, 'm) server
     \<Rightarrow> reply \<times> ('v team_entry, 's, 'm) server" where
  "team_approve env clk sid body sv = approve_request env clk sid body sv"

text \<open>The approver of a member hands the call over to this handler.\<close>

definition team_submit :: "nat \<Rightarrow> tool_call \<Rightarrow> ('v team_entry, 's, 'm) server \<Rightarrow> (nat \<times> ('v team_entry, 's, 'm) server) go_ret" where
  "team_submit k call sv = submit_call k call sv"

section \<open>The roster is the team\<close>

lemma in_process_quiet:
  assumes "list_all (\<lambda>(n, e). is_in_process (ae_member e)) (tm_agents t)"
  shows "notify_members t w = Returns w"
proof -
  have "collect_notifications t ms = Some []" if "list_all (\<lambda>(n, e). is_in_process (ae_member e)) ms" for ms
    using that by (induction ms) (auto simp: notifiable_def is_in_process_def split: member.splits)
  then show ?thesis using assms by (simp add: notify_members_def)
qed

lemma update_all_values: "list_all P xs \<Longrightarrow> P (k, v) \<Longrightarrow> list_all P (AList.update k v xs)"
  by (induction xs) auto

lemma templates_in_process:
  "list_all (\<lambda>(n, e). is_in_process (ae_member e)) (tm_agents t) \<Longrightarrow> tm_router t = r \<Longrightarrow>
   list_all (\<lambda>(n, e). is_in_process (ae_member e)) (tm_agents (fold apply_team_option (map (template_option memif ap) ts) t)) \<and>
   tm_router (fold apply_team_option (map (template_option memif ap) ts) t) = r"
  by (induction ts arbitrary: t) (simp_all add: template_option_def update_all_values is_in_process_def)

text \<open>The team of an entry is what \<^verbatim>\<open>NewTeam\<close> returns: no member wants to be notified.\<close>

lemma session_team_new:
  "new_team (WithTeamMaxHandoffs 10 # map (template_option memif ap) (th_agents h)) w = Returns (session_team h memif ap, w)"
proof -
  let ?t = "fold apply_team_option (WithTeamMaxHandoffs 10 # map (template_option memif ap) (th_agents h)) empty_team"
  have t: "list_all (\<lambda>(n, e). is_in_process (ae_member e)) (tm_agents ?t)" "tm_router ?t = None"
    using templates_in_process [of "empty_team\<lparr>tm_max_handoffs := 10\<rparr>" None memif ap "th_agents h"]
    by (simp_all add: empty_team_def)
  have "notify_members (session_team h memif ap) w = Returns w"
    by (rule in_process_quiet) (use t(1) in \<open>simp add: session_team_def\<close>)
  then show ?thesis using t(2) by (simp add: new_team_def Let_def session_team_def)
qed

text \<open>What a client sees of the roster is what routing and prompts see of the team.\<close>

definition seen_of :: "'v team \<Rightarrow> string \<Rightarrow> roster_entry" where
  "seen_of t n = \<lparr>ro_name = n, ro_description = ae_description (the (map_of (tm_agents t) n))\<rparr>"

definition in_step :: "bool \<Rightarrow> 'v team_entry \<Rightarrow> bool" where
  "in_step wrapped e = (team_ok (te_team e) \<and> te_roster e = map (seen_of (te_team e)) (tm_order (te_team e)) \<and>
     te_mems e = (if wrapped then tm_order (te_team e) else []))"

datatype roster_change = Joins add_member_body | Leaves string

fun roster_changes ::
  "'v team_handler \<Rightarrow> (string \<Rightarrow> 'v memory_if) option \<Rightarrow> 'v approver \<Rightarrow> roster_change list \<Rightarrow> 'v team_entry \<Rightarrow> 'v
     \<Rightarrow> ('v team_entry \<times> 'v) go_ret" where
  "roster_changes h memif ap [] e w = Returns (e, w)"
| "roster_changes h memif ap (Joins b # cs) e w =
     (case entry_add h memif ap b e w of Panics p \<Rightarrow> Panics p | Returns (err, e1, w1) \<Rightarrow> roster_changes h memif ap cs e1 w1)"
| "roster_changes h memif ap (Leaves n # cs) e w =
     (case entry_remove n e w of Panics p \<Rightarrow> Panics p | Returns (e1, w1) \<Rightarrow> roster_changes h memif ap cs e1 w1)"

text \<open>The specification: an association of names with descriptions, in order of arrival.\<close>

fun change_roster :: "roster_change \<Rightarrow> roster_entry list \<Rightarrow> roster_entry list" where
  "change_roster (Joins b) rs =
     (if am_name b \<in> ro_name ` set rs then rs else rs @ [\<lparr>ro_name = am_name b, ro_description = am_description b\<rparr>])"
| "change_roster (Leaves n) rs = filter (\<lambda>r. ro_name r \<noteq> n) rs"

lemma seen_name [simp]: "ro_name (seen_of t n) = n"
  by (simp add: seen_of_def)

lemma in_step_names: "in_step b e \<Longrightarrow> ro_name ` set (te_roster e) = set (tm_order (te_team e))"
  by (simp add: in_step_def image_image)

lemma seen_after_insert:
  "name \<notin> set ns \<Longrightarrow>
   map (seen_of (t\<lparr>tm_agents := AList.update name x (tm_agents t), tm_order := o'\<rparr>)) (ns @ [name]) =
   map (seen_of t) ns @ [\<lparr>ro_name = name, ro_description = ae_description x\<rparr>]"
  by (auto simp: seen_of_def gomap_simps update_conv')

lemma seen_after_delete: "a \<noteq> n \<Longrightarrow> seen_of (t\<lparr>tm_agents := AList.delete n (tm_agents t), tm_order := o'\<rparr>) a = seen_of t a"
  by (simp add: seen_of_def delete_conv')

lemma entry_add_step:
  assumes "in_step (memif \<noteq> None) e"
  shows "\<exists>err e' w'. entry_add h memif ap b e w = Returns (err, e', w') \<and> in_step (memif \<noteq> None) e' \<and>
    te_roster e' = change_roster (Joins b) (te_roster e)"
proof (cases "am_name b \<in> set (tm_order (te_team e))")
  case True
  have ok: "team_ok (te_team e)" using assms by (simp add: in_step_def)
  show ?thesis using assms True team_ok_has [OF ok, of "am_name b"] in_step_names [OF assms]
    by (simp add: entry_add_def add_agent_def in_step_def)
next
  case False
  have ok: "team_ok (te_team e)" using assms by (simp add: in_step_def)
  let ?x = "\<lparr>ae_member = InProcess (added_agent h memif ap b), ae_internal = is_in_process (InProcess (added_agent h memif ap b)),
      ae_description = am_description b\<rparr>"
  let ?t = "(te_team e)\<lparr>tm_agents := AList.update (am_name b) ?x (tm_agents (te_team e)), tm_order := tm_order (te_team e) @ [am_name b]\<rparr>"
  have ok': "team_ok ?t" by (rule team_ok_insert [OF ok False])
  obtain w' where w': "notify_members ?t w = Returns w'" using notify_ok [OF ok'] by blast
  have "add_agent (am_name b) (am_description b) (InProcess (added_agent h memif ap b)) (te_team e) w = Returns (None, ?t, w')"
    using False team_ok_has [OF ok] w' by (simp add: add_agent_def Let_def)
  then show ?thesis
    using assms ok' False in_step_names [OF assms] seen_after_insert [OF False, where t = "te_team e" and x = ?x]
    by (simp add: entry_add_def in_step_def)
qed

lemma entry_remove_step:
  assumes "in_step wrapped e"
  shows "\<exists>e' w'. entry_remove n e w = Returns (e', w') \<and> in_step wrapped e' \<and> te_roster e' = change_roster (Leaves n) (te_roster e)"
proof (cases "map_of (tm_agents (te_team e)) n")
  case None
  have ok: "team_ok (te_team e)" using assms by (simp add: in_step_def)
  have "n \<notin> set (tm_order (te_team e))" using None team_ok_has [OF ok, of n] by (simp add: gm_has_def)
  then have "filter (\<lambda>a. a \<noteq> n) (tm_order (te_team e)) = tm_order (te_team e)" by (auto intro: filter_True)
  then show ?thesis using None assms by (simp add: entry_remove_def remove_agent_def in_step_def filter_map comp_def)
next
  case (Some x)
  have ok: "team_ok (te_team e)" using assms by (simp add: in_step_def)
  let ?t = "(te_team e)\<lparr>tm_agents := AList.delete n (tm_agents (te_team e)), tm_order := remove1 n (tm_order (te_team e))\<rparr>"
  have ok': "team_ok ?t" by (rule team_ok_delete [OF ok])
  obtain w' where w': "notify_members ?t w = Returns w'" using notify_ok [OF ok'] by blast
  have r: "remove1 n (tm_order (te_team e)) = filter (\<lambda>a. a \<noteq> n) (tm_order (te_team e))"
    using ok by (simp add: team_ok_def distinct_remove1_removeAll removeAll_filter_not_eq) (metis)
  show ?thesis using assms ok' Some w'
    by (simp add: entry_remove_def remove_agent_def in_step_def Let_def filter_map comp_def r seen_after_delete)
qed

lemma roster_changes_step:
  "in_step (memif \<noteq> None) e \<Longrightarrow>
   \<exists>e' w'. roster_changes h memif ap cs e w = Returns (e', w') \<and> in_step (memif \<noteq> None) e' \<and>
     te_roster e' = fold change_roster cs (te_roster e)"
proof (induction cs arbitrary: e w)
  case (Cons c cs)
  show ?case
  proof (cases c)
    case (Joins b)
    obtain err e1 w1 where "entry_add h memif ap b e w = Returns (err, e1, w1)" "in_step (memif \<noteq> None) e1"
        "te_roster e1 = change_roster c (te_roster e)"
      using entry_add_step [OF Cons.prems, of h ap b w] Joins by blast
    then show ?thesis using Cons.IH [of e1 w1] by (simp add: Joins)
  next
    case (Leaves n)
    obtain e1 w1 where "entry_remove n e w = Returns (e1, w1)" "in_step (memif \<noteq> None) e1"
        "te_roster e1 = change_roster c (te_roster e)"
      using entry_remove_step [OF Cons.prems, of n w] Leaves by blast
    then show ?thesis using Cons.IH [of e1 w1] by (simp add: Leaves)
  qed
qed simp

lemma templates_build:
  assumes "team_ok t" "set (map tt_name ts) \<inter> set (tm_order t) = {}" "distinct (map tt_name ts)"
  shows "let t' = fold apply_team_option (map (template_option memif ap) ts) t in
    team_ok t' \<and> tm_order t' = tm_order t @ map tt_name ts \<and>
    map (seen_of t') (tm_order t') = map (seen_of t) (tm_order t) @ map (\<lambda>x. \<lparr>ro_name = tt_name x, ro_description = tt_description x\<rparr>) ts"
  using assms
proof (induction ts arbitrary: t)
  case (Cons x ts)
  let ?t = "apply_team_option (template_option memif ap x) t"
  let ?x = "\<lparr>ae_member = InProcess (clone_for_session (tt_agent x) (case memif of Some f \<Rightarrow> Some (f (tt_name x)) | None \<Rightarrow> ag_memory (tt_agent x)) ap),
      ae_internal = True, ae_description = tt_description x\<rparr>"
  have new: "tt_name x \<notin> set (tm_order t)" using Cons.prems(2) by auto
  have teq: "?t = t\<lparr>tm_agents := AList.update (tt_name x) ?x (tm_agents t), tm_order := tm_order t @ [tt_name x]\<rparr>"
    by (simp add: template_option_def)
  have t: "team_ok ?t" "tm_order ?t = tm_order t @ [tt_name x]"
    using team_ok_insert [OF Cons.prems(1) new] by (simp_all add: template_option_def)
  have "map (seen_of ?t) (tm_order t @ [tt_name x]) = map (seen_of t) (tm_order t) @ [\<lparr>ro_name = tt_name x, ro_description = tt_description x\<rparr>]"
    unfolding teq by (rule trans [OF seen_after_insert [OF new]]) simp
  then have s: "map (seen_of ?t) (tm_order ?t) = map (seen_of t) (tm_order t) @ [\<lparr>ro_name = tt_name x, ro_description = tt_description x\<rparr>]"
    by (simp only: t(2))
  show ?case using Cons.IH [OF t(1)] Cons.prems(2,3) t(2) s by (auto simp: Let_def)
qed simp

lemma new_entry_in_step:
  assumes "distinct (map tt_name (th_agents h))"
  shows "in_step (memif \<noteq> None) (new_team_entry h memif bridge i)"
proof -
  let ?e0 = "empty_team\<lparr>tm_max_handoffs := 10\<rparr>"
  let ?t = "fold apply_team_option (map (template_option memif (bridge (si_id i))) (th_agents h)) ?e0"
  have ok: "team_ok ?e0" by (simp add: team_ok_def empty_team_def gm_ok_def gm_keys_def)
  have o: "tm_order ?e0 = []" and p: "set (map tt_name (th_agents h)) \<inter> set (tm_order ?e0) = {}" by (simp_all add: empty_team_def)
  have r: "seen_of (t\<lparr>tm_router := r\<rparr>) = seen_of t" "team_ok (t\<lparr>tm_router := r\<rparr>) = team_ok t" for t r
    by (auto simp: seen_of_def team_ok_def)
  note b = templates_build [OF ok p assms, of memif "bridge (si_id i)", unfolded Let_def o list.map append_Nil]
  have A: "team_ok ?t" and B: "tm_order ?t = map tt_name (th_agents h)"
    and C: "map (\<lambda>x. \<lparr>ro_name = tt_name x, ro_description = tt_description x\<rparr>) (th_agents h) = map (seen_of ?t) (tm_order ?t)"
    by (rule b [THEN conjunct1], rule b [THEN conjunct2, THEN conjunct1], rule b [THEN conjunct2, THEN conjunct2, symmetric])
  show ?thesis unfolding in_step_def
    by (intro conjI) (simp_all add: new_team_entry_def session_team_def r A B C del: map_eq_conv map_map)
qed

text \<open>
  C26: when the template names are distinct, adding and removing members over the API never panics,
  whatever the names: the roster a client lists is the one the requests specify, in order of
  arrival and each name once, and it shows the names and descriptions the team's routing and
  prompts see; with a memory the members are those that have a private log.
\<close>

theorem roster_in_step_with_team:
  assumes "distinct (map tt_name (th_agents h))"
  shows "\<exists>e w' infos. roster_changes h memif ap cs (new_team_entry h memif bridge i) w = Returns (e, w') \<and>
    te_roster e = fold change_roster cs (map (\<lambda>t. \<lparr>ro_name = tt_name t, ro_description = tt_description t\<rparr>) (th_agents h)) \<and>
    distinct (map ro_name (te_roster e)) \<and>
    agent_infos (te_team e) = Some infos \<and>
    te_roster e = map (\<lambda>a. \<lparr>ro_name = ai_name a, ro_description = ai_description a\<rparr>) infos \<and>
    te_mems e = (if memif = None then [] else map ro_name (te_roster e))"
proof -
  obtain e w' where e: "roster_changes h memif ap cs (new_team_entry h memif bridge i) w = Returns (e, w')"
      "in_step (memif \<noteq> None) e" "te_roster e = fold change_roster cs (te_roster (new_team_entry h memif bridge i))"
    using roster_changes_step [OF new_entry_in_step [OF assms]] by blast
  let ?t = "te_team e"
  have ok: "team_ok ?t" and r: "te_roster e = map (seen_of ?t) (tm_order ?t)" using e(2) by (simp_all add: in_step_def)
  have info: "\<lparr>ro_name = ai_name (the (info_of ?t n)), ro_description = ai_description (the (info_of ?t n))\<rparr> = seen_of ?t n"
    if "n \<in> set (tm_order ?t)" for n
    using info_of_member [OF ok that] by (auto simp: info_of_def seen_of_def)
  have names: "map ro_name (te_roster e) = tm_order ?t" by (simp add: r comp_def)
  have "te_roster e = map (\<lambda>a. \<lparr>ro_name = ai_name a, ro_description = ai_description a\<rparr>) (map (the \<circ> info_of ?t) (tm_order ?t))"
    using info by (simp add: r)
  moreover have "te_mems e = (if memif = None then [] else map ro_name (te_roster e))"
    unfolding names using e(2) by (auto simp: in_step_def)
  moreover have "distinct (map ro_name (te_roster e))" unfolding names using ok by (simp add: team_ok_def)
  ultimately show ?thesis using e(1,3) agent_infos_ok [OF ok] by (simp add: new_team_entry_def)
qed

definition two_templates :: "nat team_handler" where
  "two_templates = new_team_handler [\<lparr>tt_name = ''a'', tt_description = ''A'', tt_agent = base_agent ''a''\<rparr>,
     \<lparr>tt_name = ''b'', tt_description = ''B'', tt_agent = base_agent ''b''\<rparr>]"

definition team_info :: session_info where
  "team_info = \<lparr>si_id = ''s'', si_title = [], si_kind = ''team'', si_model = [], si_provider = [], si_created = 0, si_updated = 0\<rparr>"

theorem roster_in_step_with_team_witness:
  "\<exists>e w' infos. roster_changes two_templates None (\<lambda>c d ses w. ((True, []), w))
      [Leaves ''a'', Joins \<lparr>am_name = ''b'', am_description = [], am_instructions = []\<rparr>]
      (new_team_entry two_templates None (\<lambda>_ c d ses w. ((True, []), w)) team_info) 5 = Returns (e, w') \<and>
    te_roster e = [\<lparr>ro_name = ''b'', ro_description = ''B''\<rparr>] \<and> agent_infos (te_team e) = Some infos \<and> te_mems e = []"
proof -
  have d: "distinct (map tt_name (th_agents two_templates))" by (simp add: two_templates_def new_team_handler_def)
  have r: "fold change_roster [Leaves ''a'', Joins \<lparr>am_name = ''b'', am_description = [], am_instructions = []\<rparr>]
      (map (\<lambda>t. \<lparr>ro_name = tt_name t, ro_description = tt_description t\<rparr>) (th_agents two_templates)) =
      [\<lparr>ro_name = ''b'', ro_description = ''B''\<rparr>]"
    by (simp add: two_templates_def new_team_handler_def)
  show ?thesis using roster_in_step_with_team [OF d, of None "\<lambda>c d ses w. ((True, []), w)"
      "[Leaves ''a'', Joins \<lparr>am_name = ''b'', am_description = [], am_instructions = []\<rparr>]"
      "\<lambda>_ c d ses w. ((True, []), w)" team_info 5]
    unfolding r by auto
qed

section \<open>The pages of the history\<close>

lemma newest_in:
  fixes f :: "'a \<Rightarrow> int"
  assumes "sorted_wrt (\<lambda>x y. f x < f y) xs" "x \<in> set xs"
  shows "x \<in> set (newest n xs) \<longleftrightarrow> length (filter (\<lambda>y. f x < f y) xs) < nat n"
proof -
  obtain us vs where xs: "xs = us @ x # vs" using split_list [OF assms(2)] by blast
  have s: "\<forall>u\<in>set us. f u < f x" "\<forall>v\<in>set vs. f x < f v" using assms(1) by (auto simp: xs sorted_wrt_append)
  have f: "filter (\<lambda>y. f x < f y) xs = vs" unfolding xs using s by (simp add: filter_True) (auto simp: filter_empty_conv dest: order.asym)
  have nx: "x \<notin> set us" "x \<notin> set vs" using s by auto
  show ?thesis
  proof (cases "length vs < nat n")
    case True
    then have "newest n xs = drop (length xs - nat n) us @ x # vs" by (simp add: newest_def xs)
    then show ?thesis using True f by simp
  next
    case False
    then have "newest n xs = drop (length vs - nat n) vs" by (simp add: newest_def xs Suc_diff_le)
    then have "set (newest n xs) \<subseteq> set vs" by (simp add: set_drop_subset)
    then show ?thesis using False f nx(2) by auto
  qed
qed

lemma newest_filter:
  assumes "\<forall>x\<in>set (newest n xs). P x"
  shows "newest n (filter P xs) = newest n xs"
proof -
  let ?a = "take (length xs - nat n) xs"
  have x: "xs = ?a @ newest n xs" by (simp add: newest_def)
  have "filter P xs = filter P ?a @ newest n xs"
    using assms by (subst (1) x) (simp add: filter_True)
  moreover have "?a = [] \<or> length (newest n xs) = nat n" by (auto simp: newest_def)
  ultimately show ?thesis by (auto simp: newest_def)
qed

lemma page_newest:
  assumes "0 < limit" "0 \<le> before"
  shows "page_of limit before (newest (limit + before) xs) = page_of limit before xs"
proof (cases "int (length xs) \<le> limit + before")
  case True
  then show ?thesis by (simp add: newest_def)
next
  case False
  obtain l b where n: "limit = int l" "before = int b" using assms by (meson nonneg_int_cases less_imp_le)
  have f: "l + b < length xs" "0 < l" using False assms n by simp_all
  have y: "newest (int l + int b) xs = drop (length xs - (l + b)) xs" using f by (simp add: newest_def nat_int_add)
  show ?thesis
  proof (cases "0 < b")
    case True
    then show ?thesis using f unfolding n y page_of_def by (simp add: Let_def drop_take add.commute)
  next
    case False
    then show ?thesis using f unfolding n y page_of_def by (simp add: Let_def)
  qed
qed

text \<open>
  Each log is ordered by the index of its messages and no index occurs twice: the newest of the
  newest of each log are the newest of all.
\<close>

lemma newest_of_parts:
  fixes f :: "'a \<Rightarrow> int"
  assumes d: "distinct (map f (concat ls))" and s: "\<forall>l\<in>set ls. sorted (map f l)"
    and p: "mset (ord (concat (map (newest n) ls))) = mset (concat (map (newest n) ls))"
  shows "newest n (sort_key f (ord (concat (map (newest n) ls)))) = newest n (sort_key f (concat ls))"
proof -
  let ?all = "sort_key f (concat ls)" and ?c = "concat (map (newest n) ls)"
  let ?P = "\<lambda>x. x \<in> set ?c"
  have dl: "distinct (map f l)" if "l \<in> set ls" for l
    using d that by (induction ls) (auto simp: map_concat)
  have sl: "sorted_wrt (\<lambda>x y. f x < f y) l" if "l \<in> set ls" for l
    using s dl [OF that] that strict_sorted_iff [of "map f l"] by (simp add: sorted_wrt_map)
  have da: "distinct (map f ?all)" using d by (simp add: distinct_map)
  have sa: "sorted_wrt (\<lambda>x y. f x < f y) ?all" using da strict_sorted_iff [of "map f ?all"] sorted_sort_key [of f "concat ls"]
    by (simp add: sorted_wrt_map)
  have top: "?P x" if x: "x \<in> set (newest n ?all)" for x
  proof -
    have "x \<in> set ?all" using x by (auto simp: newest_def dest: in_set_dropD)
    then obtain l where l: "l \<in> set ls" "x \<in> set l" by auto
    have "length (filter (\<lambda>y. f x < f y) l) \<le> length (filter (\<lambda>y. f x < f y) (concat ls))"
      using l(1) by (auto simp: filter_concat length_concat intro!: member_le_sum_list)
    also have "\<dots> = length (filter (\<lambda>y. f x < f y) ?all)" by (simp add: filter_sort)
    also have "\<dots> < nat n" using newest_in [OF sa \<open>x \<in> set ?all\<close>] x by simp
    finally show ?thesis using newest_in [OF sl [OF l(1)] l(2), of n] l(1) by auto
  qed
  have sub: "subseq ?c (concat ls)"
    by (induction ls) (auto simp: newest_def intro!: list_emb_append_mono)
  have m: "mset (sort_key f (ord ?c)) = mset (filter ?P ?all)"
  proof -
    obtain N where "?c = nths (concat ls) N" using sub by (auto simp: subseq_conv_nths)
    then have "distinct ?c" using d by (simp add: distinct_map distinct_nthsI)
    moreover have "set (filter ?P (concat ls)) = set ?c" by (auto simp: newest_def dest: in_set_dropD)
    ultimately have "mset (filter ?P (concat ls)) = mset ?c"
      using d by (intro set_eq_iff_mset_eq_distinct [THEN iffD1]) (simp_all add: distinct_map)
    then show ?thesis using p by simp
  qed
  have "sort (map f (filter ?P ?all)) = map f (sort_key f (ord ?c))"
    by (rule properties_for_sort) (simp_all only: mset_map m sorted_sort_key)
  moreover have "sort (map f (filter ?P ?all)) = map f (filter ?P ?all)"
    by (rule sorted_sort_id) (simp add: sorted_filter)
  ultimately have "map f (sort_key f (ord ?c)) = map f (filter ?P ?all)" by simp
  moreover have "inj_on f (set (sort_key f (ord ?c)) \<union> set (filter ?P ?all))"
    using d mset_eq_setD [OF m] by (auto simp: distinct_map intro: inj_on_subset)
  ultimately have "sort_key f (ord ?c) = filter ?P ?all" by (rule map_inj_on)
  then show ?thesis using newest_filter [of n ?all ?P] top by simp
qed

text \<open>The logs a page of the history is taken from: the shared one and one for each wrapped member.\<close>

definition history_logs :: "(string \<Rightarrow> message list) \<Rightarrow> string \<Rightarrow> 'v team_entry \<Rightarrow> message list list" where
  "history_logs lg sid e = lg sid # map (\<lambda>a. lg (private_key a sid)) (te_mems e)"

text \<open>
  C27: when the memory returns the newest messages of a session as they are and numbers all messages
  of all sessions apart and upwards, a page of a team's history is the page of the whole merged
  history, although only the newest \<open>limit + before\<close> messages of each log are read.
\<close>

theorem team_history_pages:
  assumes "sm_memory (sv_manager sv) = Some m" "open_entry env clk sid sv = (k, sv1)"
    and "pg = param_or 50 (clamp_param 1 200 lmt)" "bef = param_or 0 (clamp_param 0 100000 bfr)"
    and "\<forall>s\<in>set (sid # map (\<lambda>a. private_key a sid) (te_mems (entry_at sv1 k))).
      me_recent env s (pg + bef) 0 m = Inr (newest (pg + bef) (lg s))"
    and "\<forall>l\<in>set (history_logs lg sid (entry_at sv1 k)). sorted (map msg_index l)"
    and "distinct (map msg_index (concat (history_logs lg sid (entry_at sv1 k))))"
    and "\<And>ms. mset (ord ms) = mset ms"
  shows "team_messages ord env clk sid lmt bfr sv =
    (Reply 200 (BodyMessages (page_of pg bef (sort_key msg_index (concat (history_logs lg sid (entry_at sv1 k)))))), sv1)"
proof -
  let ?ls = "history_logs lg sid (entry_at sv1 k)"
  have pos: "0 < pg" "0 \<le> bef" using assms(3,4)
    by (auto simp: param_or_def clamp_param_def Let_def split: option.splits)
  have read: "me_recent env sid (pg + bef) 0 m = Inr (newest (pg + bef) (lg sid))"
      "newest (pg + bef) (lg sid) @
        concat (map (\<lambda>a. or_empty (private_recent (me_recent env) a sid (pg + bef) 0 m)) (te_mems (entry_at sv1 k))) =
        concat (map (newest (pg + bef)) ?ls)"
    using assms(5) by (simp_all add: history_logs_def private_recent_def or_empty_def comp_def cong: map_cong)
  have "page_of pg bef (by_index ord (concat (map (newest (pg + bef)) ?ls))) =
      page_of pg bef (newest (pg + bef) (sort_key msg_index (ord (concat (map (newest (pg + bef)) ?ls)))))"
    unfolding by_index_def page_newest [OF pos] ..
  also have "\<dots> = page_of pg bef (newest (pg + bef) (sort_key msg_index (concat ?ls)))"
    using newest_of_parts [OF assms(7,6), of ord "pg + bef"] assms(8) by simp
  also have "\<dots> = page_of pg bef (sort_key msg_index (concat ?ls))" by (rule page_newest [OF pos])
  finally show ?thesis using assms(1,2)
    by (simp add: team_messages_def assms(3,4) [symmetric] read)
qed

definition team_db_env :: "(nat team_entry, unit, sqlite_memory) manager_env" where
  "team_db_env = team_env two_templates (Some (\<lambda>_. blank_memory)) (\<lambda>_ c d ses w. ((True, []), w))
     \<lparr>sh_kind = [], sh_new = new_team_entry two_templates None (\<lambda>_ c d ses w. ((True, []), w)), sh_info = re_info,
      sh_write = write_entry_info, sh_active = is_active, sh_window = (\<lambda>_. None), sh_on_delete = (\<lambda>_ m. m),
      st_save = (\<lambda>_ s. (None, s)), st_get = (\<lambda>_ _. Inr None), st_list = (\<lambda>_ _. Inr []), st_delete = (\<lambda>_ s. (None, s)),
      me_count = sqlite_count plain_db, me_recent = sqlite_recent plain_codec plain_db, me_delete = sqlite_delete plain_db\<rparr>"

definition three_written :: sqlite_memory where
  "three_written = fold (\<lambda>(s, x) m. snd (sqlite_append plain_codec plain_db s x m))
     [(''s'', user_message ''p''), (private_key ''b'' ''s'', user_message ''r''), (''s'', user_message ''q'')] (open_sqlite empty_db)"

definition team_server :: "(nat team_entry, unit, sqlite_memory) server" where
  "team_server = \<lparr>sv_manager = new_manager None (Some three_written) (new_bus 500), sv_channels = []\<rparr>"

theorem team_history_pages_witness:
  "case team_messages (\<lambda>ms. ms) team_db_env (\<lambda>_. 3) ''s'' (Some 1) (Some 1) team_server of
     (Reply c (BodyMessages ms), sv) \<Rightarrow> c = 200 \<and> map msg_content ms = [''r''] | _ \<Rightarrow> False"
proof -
  let ?sv = "snd (open_entry team_db_env (\<lambda>_. 3) ''s'' team_server)" and ?lg = "\<lambda>s. sqlite_log plain_codec s three_written"
  have mem: "sm_memory (sv_manager team_server) = Some three_written" by (simp add: team_server_def new_manager_def)
  have open0: "open_entry team_db_env (\<lambda>_. 3) ''s'' team_server = (0, ?sv)"
    by (rule prod_eqI) (simp_all, code_simp)
  have mems: "te_mems (entry_at ?sv 0) = [''a'', ''b'']" by code_simp
  have read: "\<forall>s\<in>set (''s'' # map (\<lambda>a. private_key a ''s'') [''a'', ''b'']).
      me_recent team_db_env s (param_or 50 (clamp_param 1 200 (Some 1)) + param_or 0 (clamp_param 0 100000 (Some 1))) 0 three_written =
      Inr (newest (param_or 50 (clamp_param 1 200 (Some 1)) + param_or 0 (clamp_param 0 100000 (Some 1))) (?lg s))"
    by code_simp
  have logs: "history_logs ?lg ''s'' (entry_at ?sv 0) = [?lg ''s'', ?lg (private_key ''a'' ''s''), ?lg (private_key ''b'' ''s'')]"
    by (simp add: history_logs_def mems)
  have idx: "map (map msg_index) (history_logs ?lg ''s'' (entry_at ?sv 0)) = [[1, 3], [], [2]]" unfolding logs by code_simp
  then have "\<forall>l\<in>set (history_logs ?lg ''s'' (entry_at ?sv 0)). sorted (map msg_index l)"
      "distinct (map msg_index (concat (history_logs ?lg ''s'' (entry_at ?sv 0))))"
    by (auto simp: logs)
  moreover have "map msg_content (page_of (param_or 50 (clamp_param 1 200 (Some 1))) (param_or 0 (clamp_param 0 100000 (Some 1)))
      (sort_key msg_index (concat (history_logs ?lg ''s'' (entry_at ?sv 0))))) = [''r'']"
    unfolding logs by code_simp
  ultimately show ?thesis
    using team_history_pages [OF mem open0 refl refl read [folded mems], of "\<lambda>ms. ms"] by simp
qed

section \<open>The response of a chat\<close>

lemma team_event_closes: "chat_closes (team_event_to_sse e) \<longleftrightarrow> is_team_end e"
  by (cases e) (simp_all add: chat_closes_def is_team_end_def sse_def sse_text_def Let_def split: option.splits)

lemma last_upto_close: "\<exists>e\<in>set es. closes e \<Longrightarrow> last (upto_close closes es) \<in> set es \<and> closes (last (upto_close closes es))"
proof (induction es)
  case (Cons e es)
  show ?case
  proof (cases "closes e")
    case False
    then have "\<exists>e\<in>set es. closes e" using Cons.prems by simp
    with Cons.IH have i: "last (upto_close closes es) \<in> set es" "closes (last (upto_close closes es))" by blast+
    have "upto_close closes es \<noteq> []" using \<open>\<exists>e\<in>set es. closes e\<close> by (auto simp: upto_close_def dropWhile_eq_Nil_conv)
    then have "last (upto_close closes (e # es)) = last (upto_close closes es)" using False by (auto simp: upto_close_def)
    then show ?thesis using i by simp
  qed (simp add: upto_close_def)
qed simp

text \<open>
  A reader that keeps up with a team's run gets, over the bus, every event of the run and every
  approval it asks for in order, and its response always ends, with the frame of the final event as
  the last one.
\<close>

theorem team_response_ends:
  assumes run: "team_run_stream n tenv t ses input w = Some (Returns es, tr)"
    and bus: "bus_ok b" "subscribe False sid b = (k, b1)"
    and sent: "filter (\<lambda>e. se_type e \<noteq> ''tool_approval'') sent = filter (\<lambda>e. se_type e \<noteq> []) (map team_event_to_sse es)"
    and enc: "\<And>e. enc e = Inr (render e)"
  shows "(\<exists>b2. pump sid k sent b1 = Returns (sent, b2)) \<and>
    team_response enc (\<lambda>_. None) sent = (True, map (\<lambda>e. frame (render e)) (upto_close chat_closes sent)) \<and>
    last (upto_close chat_closes sent) = team_event_to_sse (last es) \<and> is_team_end (last es)"
proof -
  obtain es' x where e: "es = es' @ [x]" "is_team_end x" "filter is_team_end es' = []" using team_stream_closed [OF run] by blast
  have c: "chat_closes (team_event_to_sse x)" using e(2) by (simp add: team_event_closes)
  then have "team_event_to_sse x \<in> set (filter (\<lambda>e. se_type e \<noteq> []) (map team_event_to_sse es))"
    using e(1) by (auto simp: chat_closes_def)
  then have i: "team_event_to_sse x \<in> set sent" unfolding sent [symmetric] by simp
  then have ex: "\<exists>e\<in>set sent. chat_closes e" using c by blast
  let ?l = "last (upto_close chat_closes sent)"
  have l: "?l \<in> set sent" "chat_closes ?l" using last_upto_close [OF ex] by blast+
  then have "?l \<in> set (filter (\<lambda>e. se_type e \<noteq> ''tool_approval'') sent)" by (auto simp: chat_closes_def)
  then obtain y where y: "y \<in> set es" "?l = team_event_to_sse y" unfolding sent by auto
  then have "y = x" using l(2) e(1,3) by (auto simp: team_event_closes filter_empty_conv)
  then show ?thesis
    using ex y(2) e(1,2) pump_delivers [OF subscribe_listens [OF bus], of sent] relay_total [of enc render chat_closes sent "[]", OF enc]
    by (auto simp: team_response_def)
qed

theorem team_response_ends_witness:
  "fst (team_response (\<lambda>e. Inr (se_type e)) (\<lambda>_. None) (map team_event_to_sse
     (case team_run_stream 4 relay_env relay_team (new_session ''s'') (user_message ''hi'') idle_world of
        Some (Returns es, tr) \<Rightarrow> es | _ \<Rightarrow> [])))"
proof -
  have "case team_run_stream 4 relay_env relay_team (new_session ''s'') (user_message ''hi'') idle_world of
      Some (Returns es, tr) \<Rightarrow> filter (\<lambda>e. se_type e = ''tool_approval'' \<or> se_type e = []) (map team_event_to_sse es) = [] | _ \<Rightarrow> False"
    by code_simp
  then obtain es tr where r: "team_run_stream 4 relay_env relay_team (new_session ''s'') (user_message ''hi'') idle_world = Some (Returns es, tr)"
      and q: "filter (\<lambda>e. se_type e = ''tool_approval'' \<or> se_type e = []) (map team_event_to_sse es) = []"
    by (auto split: option.splits go_ret.splits)
  obtain k b1 where s: "subscribe False ''s'' (new_bus 500 :: sse_event bus) = (k, b1)" by force
  have f: "filter (\<lambda>e. se_type e \<noteq> ''tool_approval'') (map team_event_to_sse es) = filter (\<lambda>e. se_type e \<noteq> []) (map team_event_to_sse es)"
    by (rule filter_cong [OF refl]) (use q in \<open>auto simp: filter_empty_conv\<close>)
  from team_response_ends [OF r bus_ok_new s f refl] r show ?thesis by simp
qed

end
