(* ===== verification/PlanHandler.thy ===== *)
theory PlanHandler
  imports Approvals PlanApi Agents
begin

text \<open>
  \<^verbatim>\<open>rest/plan_handler.go\<close>: the REST handler of plans. A session has a plan of its own, a current
  definition, and at most one execution it knows of: a goroutine that runs the executor, pauses when
  a step has failed or a gate is reached, and goes on when a client asks for it. The goroutines and
  the channels they wait on are in the state of the server; a goroutine is cut at the points where
  it blocks or takes the lock, so that requests may come between.
\<close>

section \<open>The handler and its entries\<close>

datatype 'w plan_runner = AgentRunner "'w agent" | OtherRunner "'w plan_agent"

record 'w plan_template =
  pt_name :: string
  pt_description :: string
  pt_runner :: "'w plan_runner"

record 'w plan_handler =
  ph_agents :: "'w plan_template list"
  ph_model :: "'w chat_model option"

record 'w plan_entry = rest_entry +
  pe_plan :: "'w plan_obj"
  pe_def :: "plan_def option"
  pe_cancel :: "nat option"
  pe_exec :: "nat option"
  pe_retry :: "nat option"

text \<open>
  What comes from outside: the runtime of the agents, the decoders of the planner's replies, the
  plan runtime with the context of the \<open>k\<close>th execution, what \<^verbatim>\<open>cancel\<close> does to it, \<^verbatim>\<open>json.Marshal\<close> on
  plans.
\<close>

record 'w plan_outside =
  px_agents :: "'w runtime"
  px_sub :: "'w sub_runner"
  px_unplan :: "string \<Rightarrow> go_err + plan_def"
  px_unsteps :: "string \<Rightarrow> go_err + step_def list"
  px_exec :: "nat \<Rightarrow> 'w plan_runtime"
  px_cancel :: "nat \<Rightarrow> 'w \<Rightarrow> 'w"
  px_enc :: "plan_def \<Rightarrow> string"

text \<open>\<^verbatim>\<open>NewLLMPlanner\<close>; without a model the call is a nil dereference.\<close>

definition llm_planner ::
  "(string \<Rightarrow> go_err + plan_def) \<Rightarrow> (string \<Rightarrow> go_err + step_def list) \<Rightarrow> 'w chat_model option \<Rightarrow> 'w planner" where
  "llm_planner unplan unsteps mdl =
     (let ask = (\<lambda>streaming goal agents history w.
            case mdl of None \<Rightarrow> (Panics nil_deref, [], w)
            | Some m \<Rightarrow> plan_with_model unplan m 3 goal agents history streaming w)
      in \<lparr>pl_plan = (\<lambda>goal agents history w. case ask False goal agents history w of (r, out, w') \<Rightarrow> (r, w')),
          pl_stream = Some (ask True),
          pl_replan = (\<lambda>inp chunked w. case mdl of None \<Rightarrow> (Panics nil_deref, [], w) | Some m \<Rightarrow> llm_replan unsteps m inp chunked w)\<rparr>)"

text \<open>\<^verbatim>\<open>RunWithPrefix\<close> and \<^verbatim>\<open>RunStreamWithPrefix\<close> of an agent, as the executor calls them.\<close>

definition runner_of :: "'w runtime \<Rightarrow> 'w sub_runner \<Rightarrow> 'w agent \<Rightarrow> 'w plan_agent" where
  "runner_of rt sub a =
     \<lparr>pa_run = (\<lambda>sid pre input w. case run_agent rt sub a (new_session sid) pre input False w of ((es, r), w') \<Rightarrow> (r, w')),
      pa_stream = (\<lambda>sid pre input w. case run_agent rt sub a (new_session sid) pre input True w of ((es, r), w') \<Rightarrow> (es, w'))\<rparr>"

definition clone_for_plan :: "'w agent \<Rightarrow> 'w memory_if option \<Rightarrow> 'w approver \<Rightarrow> 'w agent" where
  "clone_for_plan a mem ap = new_agent (ag_name a)
     [Agents.WithModel (ag_model a), WithMemory (case mem of None \<Rightarrow> ag_memory a | Some m \<Rightarrow> Some m), WithTools (ag_tools a),
      WithInstructions (ag_instructions a), WithMaxTurns (ag_max_turns a), WithApprover (Some ap)]"

definition template_agent ::
  "'w plan_outside \<Rightarrow> 'w memory_if option \<Rightarrow> 'w approver \<Rightarrow> 'w plan_template \<Rightarrow> 'w plan_option" where
  "template_agent px mem ap t =
     (case pt_runner t of
        AgentRunner a \<Rightarrow> WithAgent (pt_name t) (pt_description t) True (runner_of (px_agents px) (px_sub px) (clone_for_plan a mem ap))
      | OtherRunner r \<Rightarrow> WithAgent (pt_name t) (pt_description t) False r)"

definition session_plan :: "'w plan_outside \<Rightarrow> 'w plan_handler \<Rightarrow> 'w memory_if option \<Rightarrow> 'w approver \<Rightarrow> 'w plan_obj" where
  "session_plan px h mem ap = new_plan
     ([WithPlanner (llm_planner (px_unplan px) (px_unsteps px) (ph_model h))] @
      (case ph_model h of None \<Rightarrow> [] | Some m \<Rightarrow> [PlanApi.WithModel m]) @
      [WithMaxConcurrency 8, WithAutoReplan False] @ map (template_agent px mem ap) (ph_agents h))"

definition new_plan_entry ::
  "'w plan_outside \<Rightarrow> 'w plan_handler \<Rightarrow> 'w memory_if option \<Rightarrow> (string \<Rightarrow> 'w approver) \<Rightarrow> session_info \<Rightarrow> 'w plan_entry" where
  "new_plan_entry px h mem bridge i = \<lparr>re_info = i, re_running = False, re_pending = None,
     pe_plan = session_plan px h mem (bridge (si_id i)), pe_def = None, pe_cancel = None, pe_exec = None, pe_retry = None\<rparr>"

definition plan_hooks ::
  "'w plan_outside \<Rightarrow> 'w plan_handler \<Rightarrow> 'w memory_if option \<Rightarrow> (string \<Rightarrow> 'w approver)
     \<Rightarrow> ('w plan_entry, 's, 'm) manager_env \<Rightarrow> ('w plan_entry, 's, 'm) manager_env" where
  "plan_hooks px h mem bridge base = base\<lparr>sh_kind := ''plan'', sh_new := new_plan_entry px h mem bridge, sh_info := re_info,
     sh_write := write_entry_info, sh_active := is_active, sh_window := (\<lambda>_. None), sh_on_delete := (\<lambda>_ m. m)\<rparr>"

interpretation plan_entries: session_entries "plan_hooks px h mem bridge base" for px h mem bridge base
  by unfold_locales (simp_all add: plan_hooks_def new_plan_entry_def write_entry_info_def)

interpretation plan_idle: idle_entries "plan_hooks px h mem bridge base" for px h mem bridge base
  by unfold_locales (simp add: plan_hooks_def new_plan_entry_def)

section \<open>The server\<close>

text \<open>
  \<^verbatim>\<open>plan.RetryAction\<close>. A channel of capacity one and the senders that wait for room in it are one
  queue: its head is what the next receive takes.
\<close>

datatype resume = RetryStep string | UseDef plan_def

text \<open>A goroutine runs a round, is about to wait, waits for an action on a channel, or is over.\<close>

datatype phase = Going | Pausing | WaitsOn "nat option" | Over

record execution =
  ec_entry :: nat
  ec_sid :: string
  ec_def :: plan_def
  ec_state :: plan_state
  ec_phase :: phase

record ('w, 's, 'm) plan_server =
  pv_server :: "('w plan_entry, 's, 'm) server"
  pv_runs :: "execution list"
  pv_retries :: "resume list list"
  pv_world :: 'w

definition on_entry :: "nat \<Rightarrow> ('w plan_entry \<Rightarrow> 'w plan_entry) \<Rightarrow> ('w, 's, 'm) plan_server \<Rightarrow> ('w, 's, 'm) plan_server" where
  "on_entry k f ps = ps\<lparr>pv_server := at_entry k f (pv_server ps)\<rparr>"

definition plan_entry_at :: "('w, 's, 'm) plan_server \<Rightarrow> nat \<Rightarrow> 'w plan_entry" where
  "plan_entry_at ps k = entry_at (pv_server ps) k"

definition open_plan ::
  "('w plan_entry, 's, 'm) manager_env \<Rightarrow> (nat \<Rightarrow> int) \<Rightarrow> string \<Rightarrow> ('w, 's, 'm) plan_server \<Rightarrow> nat \<times> ('w, 's, 'm) plan_server" where
  "open_plan env clk sid ps = (case open_entry env clk sid (pv_server ps) of (k, sv) \<Rightarrow> (k, ps\<lparr>pv_server := sv\<rparr>))"

fun announce :: "string \<Rightarrow> sse_event list \<Rightarrow> ('w, 's, 'm) plan_server \<Rightarrow> ('w, 's, 'm) plan_server go_ret" where
  "announce sid [] ps = Returns ps"
| "announce sid (e # es) ps =
     (case publish_event sid e (pv_server ps) of
        Panics p \<Rightarrow> Panics p
      | Returns sv \<Rightarrow> announce sid es (ps\<lparr>pv_server := sv\<rparr>))"

text \<open>The queue of a channel.\<close>

definition queue_of :: "nat \<Rightarrow> ('w, 's, 'm) plan_server \<Rightarrow> resume list" where
  "queue_of c ps = (if c < length (pv_retries ps) then pv_retries ps ! c else [])"

definition set_run :: "nat \<Rightarrow> execution \<Rightarrow> ('w, 's, 'm) plan_server \<Rightarrow> ('w, 's, 'm) plan_server" where
  "set_run x ex ps = ps\<lparr>pv_runs := (pv_runs ps)[x := ex]\<rparr>"

section \<open>Generating and editing a plan\<close>

definition thinking :: "string \<Rightarrow> sse_event" where
  "thinking chunk = sse_text ''plan_thinking'' chunk"

text \<open>The title of the session is the goal of the plan.\<close>

definition title_from ::
  "('w plan_entry, 's, 'm) manager_env \<Rightarrow> int \<Rightarrow> int \<Rightarrow> string \<Rightarrow> plan_def \<Rightarrow> ('w, 's, 'm) plan_server \<Rightarrow> ('w, 's, 'm) plan_server" where
  "title_from env now upd sid def ps =
     (if pd_goal def = [] then ps
      else let sv = pv_server ps in
        case with_meta env now sid (\<lambda>i. i\<lparr>si_title := pd_goal def, si_updated := upd\<rparr>) (sv_manager sv) of
          (None, r) \<Rightarrow> ps\<lparr>pv_server := sv\<lparr>sv_manager := r\<rparr>\<rparr>
        | (Some i, r) \<Rightarrow> ps\<lparr>pv_server := sv\<lparr>sv_manager := sync_meta i r\<rparr>\<rparr>)"

text \<open>The events of the response are written to it; errors of the writer are dropped.\<close>

definition handle_generate ::
  "'w plan_outside \<Rightarrow> ('w plan_entry, 's, 'm) manager_env \<Rightarrow> (nat \<Rightarrow> int) \<Rightarrow> string \<Rightarrow> string option \<Rightarrow> bool
     \<Rightarrow> ('w, 's, 'm) plan_server \<Rightarrow> ((reply + sse_event list) \<times> ('w, 's, 'm) plan_server) go_ret" where
  "handle_generate px env clk sid body flushable ps =
     (case body of
        None \<Rightarrow> Returns (Inl (Reply 400 (BodyError ''goal is required'')), ps)
      | Some goal \<Rightarrow>
          if goal = [] then Returns (Inl (Reply 400 (BodyError ''goal is required'')), ps)
          else case open_plan env clk sid ps of
            (k, ps1) \<Rightarrow>
              if \<not> flushable then Returns (Inl (Reply 500 (BodyError ''streaming not supported'')), ps1)
              else case plan_stream (pe_plan (plan_entry_at ps1 k)) goal [] (pv_world ps1) of
                (Panics p, out, w) \<Rightarrow> Panics p
              | (Returns (Inl e), out, w) \<Rightarrow>
                  Returns (Inr (map thinking out @ [(sse ''plan_error'')\<lparr>se_error := err_text e\<rparr>]), ps1\<lparr>pv_world := w\<rparr>)
              | (Returns (Inr def), out, w) \<Rightarrow>
                  let ps2 = on_entry k (\<lambda>e. e\<lparr>pe_def := Some def\<rparr>) (ps1\<lparr>pv_world := w\<rparr>)
                  in Returns (Inr (map thinking out @ [sse_text ''plan_generated'' (px_enc px def)]),
                       title_from env (clk 3) (clk 4) sid def ps2))"

definition handle_get_plan ::
  "('w plan_entry, 's, 'm) manager_env \<Rightarrow> (nat \<Rightarrow> int) \<Rightarrow> string \<Rightarrow> ('w, 's, 'm) plan_server \<Rightarrow> (reply + plan_def) \<times> ('w, 's, 'm) plan_server" where
  "handle_get_plan env clk sid ps =
     (case open_plan env clk sid ps of
        (k, ps1) \<Rightarrow>
          (case pe_def (plan_entry_at ps1 k) of
             None \<Rightarrow> (Inl (Reply 404 (BodyError ''no plan generated yet'')), ps1)
           | Some def \<Rightarrow> (Inr def, ps1)))"

definition template_names :: "'w plan_handler \<Rightarrow> string set" where
  "template_names h = set (map pt_name (ph_agents h))"

definition handle_update_plan ::
  "'w plan_handler \<Rightarrow> ('w plan_entry, 's, 'm) manager_env \<Rightarrow> (nat \<Rightarrow> int) \<Rightarrow> string \<Rightarrow> plan_def option
     \<Rightarrow> ('w, 's, 'm) plan_server \<Rightarrow> (reply + plan_def) \<times> ('w, 's, 'm) plan_server" where
  "handle_update_plan h env clk sid body ps =
     (case open_plan env clk sid ps of
        (k, ps1) \<Rightarrow>
          (case body of
             None \<Rightarrow> (Inl (Reply 400 (BodyError ''invalid plan JSON'')), ps1)
           | Some def \<Rightarrow>
               (case validate def (template_names h) of
                  Some e \<Rightarrow> (Inl (Reply 400 (BodyError (err_text e))), ps1)
                | None \<Rightarrow>
                    let maxSteps = pc_max_steps default_plan_config; n = int (length (pd_steps def)) in
                    if maxSteps < n
                    then (Inl (Reply 400 (BodyError (''plan has '' @ int_str n @ '' steps, max is '' @ int_str maxSteps))), ps1)
                    else if re_running (plan_entry_at ps1 k)
                    then (Inl (Reply 409 (BodyError ''cannot modify plan while it is executing'')), ps1)
                    else (Inr def, on_entry k (\<lambda>e. e\<lparr>pe_def := Some def\<rparr>) ps1))))"

section \<open>Execution\<close>

text \<open>The two critical sections of \<^verbatim>\<open>handleExecute\<close>; other requests may come between them.\<close>

definition check_execute ::
  "('w plan_entry, 's, 'm) manager_env \<Rightarrow> (nat \<Rightarrow> int) \<Rightarrow> string \<Rightarrow> ('w, 's, 'm) plan_server
     \<Rightarrow> (reply + nat \<times> plan_def) \<times> ('w, 's, 'm) plan_server" where
  "check_execute env clk sid ps =
     (case open_plan env clk sid ps of
        (k, ps1) \<Rightarrow>
          if re_running (plan_entry_at ps1 k) then (Inl (Reply 409 (BodyError ''plan is already executing'')), ps1)
          else case pe_def (plan_entry_at ps1 k) of
              None \<Rightarrow> (Inl (Reply 400 (BodyError (''no plan to execute '' @ em_dash @ '' call /generate first''))), ps1)
            | Some def \<Rightarrow> (Inr (k, def), ps1))"

definition first_state :: "string \<Rightarrow> plan_def \<Rightarrow> plan_state" where
  "first_state sid def = \<lparr>ps_id = sid @ ''/plan'', ps_goal = pd_goal def, ps_status = PlanApproved,
     ps_steps = pd_steps def, ps_results = [], ps_replan_count = 0\<rparr>"

definition start_execute :: "string \<Rightarrow> nat \<times> plan_def \<Rightarrow> ('w, 's, 'm) plan_server \<Rightarrow> reply \<times> ('w, 's, 'm) plan_server" where
  "start_execute sid job ps =
     (case job of (k, def) \<Rightarrow>
        (Reply 202 (BodyStatus ''started''),
         (on_entry k (\<lambda>e. e\<lparr>pe_cancel := Some (length (pv_runs ps)), re_running := True\<rparr>) ps)
           \<lparr>pv_runs := pv_runs ps @ [\<lparr>ec_entry = k, ec_sid = sid, ec_def = def, ec_state = first_state sid def, ec_phase = Going\<rparr>]\<rparr>))"

text \<open>The deferred calls at the end of the goroutine.\<close>

definition finish_run :: "'w plan_outside \<Rightarrow> nat \<Rightarrow> ('w, 's, 'm) plan_server \<Rightarrow> ('w, 's, 'm) plan_server" where
  "finish_run px x ps =
     (let ex = pv_runs ps ! x in
      set_run x (ex\<lparr>ec_phase := Over\<rparr>)
        (on_entry (ec_entry ex) (\<lambda>e. e\<lparr>pe_cancel := None, re_running := False, pe_exec := None, pe_retry := None\<rparr>)
          (ps\<lparr>pv_world := px_cancel px x (pv_world ps)\<rparr>)))"

text \<open>The events up to the first one that waits for the user, and whether there is one.\<close>

fun until_pause :: "sse_event list \<Rightarrow> sse_event list \<times> bool" where
  "until_pause [] = ([], False)"
| "until_pause (e # es) =
     (if se_type e = [] then until_pause es
      else if se_type e = ''plan_waiting_retry'' then ([e], True)
      else case until_pause es of (sent, p) \<Rightarrow> (e # sent, p))"

definition run_round :: "'w plan_outside \<Rightarrow> nat \<Rightarrow> ('w, 's, 'm) plan_server \<Rightarrow> ('w, 's, 'm) plan_server go_ret" where
  "run_round px x ps =
     (let ex = pv_runs ps ! x in
      case execute_with_state (pe_plan (plan_entry_at ps (ec_entry ex))) (px_exec px x) (ec_sid ex) (ec_def ex) (ec_state ex) (pv_world ps) of
        (Panics p, y) \<Rightarrow> Panics p
      | (Returns evs, y) \<Rightarrow>
          (case until_pause (map (plan_event_to_sse (px_enc px)) evs) of
             (sent, paused) \<Rightarrow>
               let ps1 = set_run x (ex\<lparr>ec_state := xs_plan y, ec_phase := Pausing\<rparr>) (ps\<lparr>pv_world := xs_world y\<rparr>) in
               case announce (ec_sid ex) sent ps1 of
                 Panics p \<Rightarrow> Panics p
               | Returns ps2 \<Rightarrow>
                   if paused
                   then Returns ((on_entry (ec_entry ex) (\<lambda>e. e\<lparr>pe_exec := Some x, pe_retry := Some (length (pv_retries ps2))\<rparr>) ps2)
                          \<lparr>pv_retries := pv_retries ps2 @ [[]]\<rparr>)
                   else Returns (finish_run px x ps2)))"

text \<open>\<^verbatim>\<open>select\<close> evaluates the channel of the session, which may be nil.\<close>

definition enter_wait :: "nat \<Rightarrow> ('w, 's, 'm) plan_server \<Rightarrow> ('w, 's, 'm) plan_server" where
  "enter_wait x ps =
     (let ex = pv_runs ps ! x in set_run x (ex\<lparr>ec_phase := WaitsOn (pe_retry (plan_entry_at ps (ec_entry ex)))\<rparr>) ps)"

fun apply_resume :: "resume \<Rightarrow> execution \<Rightarrow> execution" where
  "apply_resume (RetryStep i) ex =
     (case map_of (ps_results (ec_state ex)) i of
        None \<Rightarrow> ex
      | Some sr \<Rightarrow>
          if srs_status sr = StepDone then ex
          else ex\<lparr>ec_state := (ec_state ex)\<lparr>ps_results :=
                 AList.update i (sr\<lparr>srs_status := StepPending, srs_error := [], srs_retries := 0\<rparr>) (ps_results (ec_state ex))\<rparr>\<rparr>)"
| "apply_resume (UseDef def) ex =
     ex\<lparr>ec_def := def, ec_state := (ec_state ex)\<lparr>ps_steps := pd_steps def, ps_replan_count := ps_replan_count (ec_state ex) + 1\<rparr>\<rparr>"

definition next_action :: "nat option \<Rightarrow> ('w, 's, 'm) plan_server \<Rightarrow> resume option" where
  "next_action c ps =
     (case c of
        None \<Rightarrow> None
      | Some j \<Rightarrow> (case queue_of j ps of [] \<Rightarrow> None | a # as \<Rightarrow> Some a))"

text \<open>The \<^verbatim>\<open>select\<close>; when both are ready it takes either (\<open>prefers\<close>), when neither is it waits.\<close>

definition resume_run :: "'w plan_outside \<Rightarrow> bool \<Rightarrow> nat \<Rightarrow> ('w, 's, 'm) plan_server \<Rightarrow> ('w, 's, 'm) plan_server go_ret" where
  "resume_run px prefers x ps =
     (let ex = pv_runs ps ! x; cancelled = (plan_runtime.rt_ctx (px_exec px x) (pv_world ps) \<noteq> None) in
      case ec_phase ex of
        WaitsOn c \<Rightarrow>
          (case (next_action c ps, c) of
             (Some a, Some j) \<Rightarrow>
               if cancelled \<and> prefers
               then (case announce (ec_sid ex) [sse ''plan_cancelled''] ps of Panics p \<Rightarrow> Panics p | Returns ps1 \<Rightarrow> Returns (finish_run px x ps1))
               else Returns (set_run x ((apply_resume a ex)\<lparr>ec_phase := Going\<rparr>)
                      (ps\<lparr>pv_retries := (pv_retries ps)[j := tl (queue_of j ps)]\<rparr>))
           | _ \<Rightarrow>
               if cancelled
               then (case announce (ec_sid ex) [sse ''plan_cancelled''] ps of Panics p \<Rightarrow> Panics p | Returns ps1 \<Rightarrow> Returns (finish_run px x ps1))
               else Returns ps)
      | _ \<Rightarrow> Returns ps)"

section \<open>Following, cancelling and resuming\<close>

definition subscribe_events ::
  "string \<Rightarrow> bool \<Rightarrow> ('w, 's, 'm) plan_server \<Rightarrow> (reply + nat) \<times> ('w, 's, 'm) plan_server" where
  "subscribe_events sid flushable ps =
     (let sv = pv_server ps in
      if \<not> exists_session sid (sv_manager sv) then (Inl (Reply 404 (BodyError ''session not found'')), ps)
      else if \<not> flushable then (Inl (Reply 500 (BodyError ''streaming not supported'')), ps)
      else case subscribe False sid (sm_bus (sv_manager sv)) of
        (k, b) \<Rightarrow> (Inr k, ps\<lparr>pv_server := sv\<lparr>sv_manager := (sv_manager sv)\<lparr>sm_bus := b\<rparr>\<rparr>\<rparr>))"

text \<open>The loop ends as well when the client has gone or the channel is closed (\<open>left\<close>).\<close>

definition events_response ::
  "(sse_event \<Rightarrow> go_err + string) \<Rightarrow> (string list \<Rightarrow> go_err option) \<Rightarrow> bool \<Rightarrow> sse_event list \<Rightarrow> bool \<times> string list" where
  "events_response enc broken left es = (case relay plan_closes enc broken es [] of (d, fr) \<Rightarrow> (d \<or> left, fr))"

definition handle_cancel ::
  "'w plan_outside \<Rightarrow> ('w plan_entry, 's, 'm) manager_env \<Rightarrow> (nat \<Rightarrow> int) \<Rightarrow> string \<Rightarrow> ('w, 's, 'm) plan_server
     \<Rightarrow> (reply \<times> ('w, 's, 'm) plan_server) go_ret" where
  "handle_cancel px env clk sid ps =
     (case open_plan env clk sid ps of
        (k, ps1) \<Rightarrow>
          (case pe_cancel (plan_entry_at ps1 k) of
             None \<Rightarrow> Returns (Reply 400 (BodyError ''no execution in progress''), ps1)
           | Some x \<Rightarrow>
               (case announce sid [sse ''plan_cancelled''] (ps1\<lparr>pv_world := px_cancel px x (pv_world ps1)\<rparr>) of
                  Panics p \<Rightarrow> Panics p
                | Returns ps2 \<Rightarrow> Returns (Reply 200 (BodyStatus ''cancelled''), ps2))))"

text \<open>A send: the answer of a request that has to wait for room in the channel is still to come.\<close>

definition send_action :: "nat \<Rightarrow> resume \<Rightarrow> reply \<Rightarrow> ('w, 's, 'm) plan_server \<Rightarrow> reply option \<times> ('w, 's, 'm) plan_server" where
  "send_action c a rep ps =
     (if queue_of c ps = [] then Some rep else None, ps\<lparr>pv_retries := (pv_retries ps)[c := queue_of c ps @ [a]]\<rparr>)"

definition is_gate :: "plan_def option \<Rightarrow> string \<Rightarrow> bool" where
  "is_gate def i = (case def of None \<Rightarrow> False | Some d \<Rightarrow> list_ex (\<lambda>s. sd_id s = i \<and> sd_gate s) (pd_steps d))"

definition handle_step_retry ::
  "('w plan_entry, 's, 'm) manager_env \<Rightarrow> (nat \<Rightarrow> int) \<Rightarrow> string \<Rightarrow> string \<Rightarrow> ('w, 's, 'm) plan_server
     \<Rightarrow> reply option \<times> ('w, 's, 'm) plan_server" where
  "handle_step_retry env clk sid i ps =
     (case open_plan env clk sid ps of
        (k, ps1) \<Rightarrow>
          let e = plan_entry_at ps1 k in
          case (pe_exec e, pe_retry e) of
            (Some x, Some c) \<Rightarrow>
              (case map_of (ps_results (ec_state (pv_runs ps1 ! x))) i of
                 None \<Rightarrow> (Some (Reply 400 (BodyError ''step not found'')), ps1)
               | Some sr \<Rightarrow>
                   if srs_status sr \<noteq> StepFailed \<and> \<not> (is_gate (pe_def e) i \<and> srs_status sr = StepDone)
                   then (Some (Reply 400 (BodyError ''step is not in a paused state'')), ps1)
                   else send_action c (RetryStep i) (Reply 200 (BodyStatus ''retrying'')) ps1)
          | _ \<Rightarrow> (Some (Reply 400 (BodyError ''plan is not waiting for retry'')), ps1))"

text \<open>
  \<^verbatim>\<open>handleReplan\<close> up to the call of the planner, and from there on. The planner's call works on the
  state of the execution, which it shares with the goroutine.
\<close>

record replan_job =
  rj_entry :: nat
  rj_sid :: string
  rj_run :: nat
  rj_chan :: nat
  rj_def :: plan_def
  rj_failed :: string
  rj_feedback :: string

fun failed_step :: "plan_state \<Rightarrow> step_def list \<Rightarrow> string" where
  "failed_step st [] = []"
| "failed_step st (s # ss) =
     (case map_of (ps_results st) (sd_id s) of
        None \<Rightarrow> failed_step st ss
      | Some sr \<Rightarrow> if srs_status sr = StepFailed then sd_id s else failed_step st ss)"

definition begin_replan ::
  "('w plan_entry, 's, 'm) manager_env \<Rightarrow> (nat \<Rightarrow> int) \<Rightarrow> string \<Rightarrow> string option \<Rightarrow> ('w, 's, 'm) plan_server
     \<Rightarrow> ((reply + replan_job) \<times> ('w, 's, 'm) plan_server) go_ret" where
  "begin_replan env clk sid body ps =
     (case body of
        None \<Rightarrow> Returns (Inl (Reply 400 (BodyError ''feedback is required'')), ps)
      | Some feedback \<Rightarrow>
          if feedback = [] then Returns (Inl (Reply 400 (BodyError ''feedback is required'')), ps)
          else case open_plan env clk sid ps of
            (k, ps1) \<Rightarrow>
              let e = plan_entry_at ps1 k in
              case (pe_exec e, pe_retry e) of
                (Some x, Some c) \<Rightarrow>
                  (case pe_def e of
                     None \<Rightarrow> Panics nil_deref
                   | Some def \<Rightarrow>
                       let i = failed_step (ec_state (pv_runs ps1 ! x)) (pd_steps def) in
                       if i = [] then Returns (Inl (Reply 400 (BodyError ''no failed step found'')), ps1)
                       else case announce sid [(sse ''replanning'')\<lparr>se_step := i\<rparr>] ps1 of
                           Panics p \<Rightarrow> Panics p
                         | Returns ps2 \<Rightarrow> Returns (Inr \<lparr>rj_entry = k, rj_sid = sid, rj_run = x, rj_chan = c, rj_def = def,
                             rj_failed = i, rj_feedback = feedback\<rparr>, ps2))
              | _ \<Rightarrow> Returns (Inl (Reply 400 (BodyError ''plan is not waiting for retry'')), ps1))"

definition finish_replan ::
  "'w plan_outside \<Rightarrow> replan_job \<Rightarrow> ('w, 's, 'm) plan_server \<Rightarrow> (reply option \<times> ('w, 's, 'm) plan_server) go_ret" where
  "finish_replan px j ps =
     (let ex = pv_runs ps ! rj_run j in
      case replan_with_feedback_stream (pe_plan (plan_entry_at ps (rj_entry j))) (rj_def j) (ec_state ex) (rj_failed j) (rj_feedback j) True (pv_world ps) of
        (Panics p, out, st, w) \<Rightarrow> Panics p
      | (Returns r, out, st, w) \<Rightarrow>
          (case announce (rj_sid j) (map thinking out) (set_run (rj_run j) (ex\<lparr>ec_state := st\<rparr>) (ps\<lparr>pv_world := w\<rparr>)) of
             Panics p \<Rightarrow> Panics p
           | Returns ps1 \<Rightarrow>
               (case r of
                  Inl e \<Rightarrow>
                    (case announce (rj_sid j) [(sse ''plan_error'')\<lparr>se_error := err_text e\<rparr>] ps1 of
                       Panics p \<Rightarrow> Panics p
                     | Returns ps2 \<Rightarrow> Returns (Some (Reply 500 (BodyError (err_text e))), ps2))
                | Inr def \<Rightarrow>
                    (case announce (rj_sid j) [sse_text ''plan_generated'' (px_enc px def)]
                       (on_entry (rj_entry j) (\<lambda>e. e\<lparr>pe_def := Some def\<rparr>) ps1) of
                       Panics p \<Rightarrow> Panics p
                     | Returns ps2 \<Rightarrow> Returns (send_action (rj_chan j) (UseDef def) (Reply 200 (BodyStatus ''replanned'')) ps2)))))"

definition handle_replan ::
  "'w plan_outside \<Rightarrow> ('w plan_entry, 's, 'm) manager_env \<Rightarrow> (nat \<Rightarrow> int) \<Rightarrow> string \<Rightarrow> string option \<Rightarrow> ('w, 's, 'm) plan_server
     \<Rightarrow> (reply option \<times> ('w, 's, 'm) plan_server) go_ret" where
  "handle_replan px env clk sid body ps =
     (case begin_replan env clk sid body ps of
        Panics p \<Rightarrow> Panics p
      | Returns (Inl rep, ps1) \<Rightarrow> Returns (Some rep, ps1)
      | Returns (Inr j, ps1) \<Rightarrow> finish_replan px j ps1)"

section \<open>Approvals\<close>

definition plan_approve ::
  "('w plan_entry, 's, 'm) manager_env \<Rightarrow> (nat \<Rightarrow> int) \<Rightarrow> string \<Rightarrow> (bool \<times> string) option \<Rightarrow> ('w, 's, 'm) plan_server
     \<Rightarrow> reply \<times> ('w, 's, 'm) plan_server" where
  "plan_approve env clk sid body ps =
     (case approve_request env clk sid body (pv_server ps) of (rep, sv) \<Rightarrow> (rep, ps\<lparr>pv_server := sv\<rparr>))"

definition plan_submit :: "nat \<Rightarrow> tool_call \<Rightarrow> ('w, 's, 'm) plan_server \<Rightarrow> (nat \<times> ('w, 's, 'm) plan_server) go_ret" where
  "plan_submit k call ps =
     (case submit_call k call (pv_server ps) of Panics p \<Rightarrow> Panics p | Returns (c, sv) \<Rightarrow> Returns (c, ps\<lparr>pv_server := sv\<rparr>))"

definition new_plan_server :: "'s option \<Rightarrow> 'm option \<Rightarrow> 'w \<Rightarrow> ('w, 's, 'm) plan_server" where
  "new_plan_server st mem w = \<lparr>pv_server = \<lparr>sv_manager = new_manager st mem (new_bus 1000), sv_channels = []\<rparr>,
     pv_runs = [], pv_retries = [], pv_world = w\<rparr>"

end
