(* ===== verification/PlanFlow.thy ===== *)
theory PlanFlow
  imports PlanHandler
begin

text \<open>
  What the REST handler of plans guarantees, whatever the order of requests and goroutine steps: steps
  that are done stay done across pauses, and a response that follows an execution ends. The invariant
  behind this (\<open>system_good\<close>) also says that the definitions stay well formed; it holds as long as a
  model that replans reuses no id of a surviving step, which the handler does not check
  (\<open>feedback_merge_unvalidated\<close> in \<open>PlanApi\<close>), and while a round is one step.
\<close>

section \<open>One round of an execution that does not replan by itself\<close>

lemma execute_batches_keeps:
  assumes "execute_batches env def tot x = (r, tot', y)" "fair_env env" "good_steps (pd_steps def)" "settled x"
    and d: "status_of x i = StepDone"
  shows "result_of y i = result_of x i"
proof (cases "pending_steps x (pd_steps def) [] = []")
  case True
  then show ?thesis using assms(1) by (simp add: execute_batches_def)
next
  case False
  let ?p = "pending_steps x (pd_steps def) []"
  have r: "run_batches env ?p (topo_sort_pending ?p) tot x = (r, tot', y)"
    using assms(1) False by (simp add: execute_batches_def Let_def)
  have "distinct (step_ids (pd_steps def))" using assms(3) by (simp add: good_steps_def)
  then have ok: "gm_ok ?p" using pending_steps_spec [OF _ gm_ok_Nil, of "pd_steps def" x] by blast
  have "i \<notin> set (map fst ?p)"
  proof
    assume "i \<in> set (map fst ?p)"
    from pending_plan(3) [OF assms(3,4) this] d show False by (auto simp: is_pending_def)
  qed
  then have "i \<notin> set (concat (topo_sort_pending ?p))" using layered_distinct [OF topo_sort_layered [OF ok]] by blast
  from touches_result [OF run_batches_only [OF assms(2), of "topo_sort_pending ?p" x ?p tot] this] r show ?thesis by simp
qed

lemma manual_round:
  assumes r: "exec_round env def tot x = (out, y)" and inv: "loop_inv env def x"
    and env: "ctx_sticky env" "fair_env env" "\<not> pc_auto_replan (ex_config env)"
  shows "(\<exists>r. out = Finished r) \<and> settled y \<and> ps_steps (xs_plan y) = pd_steps def \<and>
    (\<forall>i. status_of x i = StepDone \<longrightarrow> result_of y i = result_of x i)"
proof (cases "ex_ctx env (xs_world x)")
  case (Some e)
  then show ?thesis using r inv by (auto simp: exec_round_def loop_inv_def settled_def)
next
  case None
  let ?x0 = "reset_results (pd_steps def) x"
  obtain b u z where b: "execute_batches env def tot ?x0 = (b, u, z)" by (metis prod.exhaust)
  have good: "good_steps (pd_steps def)" using inv by (auto simp: loop_inv_def well_formed_plan_def good_steps_def Let_def)
  have s0: "settled ?x0" using inv by (simp add: loop_inv_def settled_def)
  have "settled z" using execute_batches_spec [OF b env(1,2) good s0] by blast
  moreover have "ps_steps (xs_plan z) = pd_steps def"
    using touches_plan(1) [of UNIV ?x0 z] execute_batches_touches [of ?x0 env def tot] b
      touches_plan(1) [OF reset_touches, of "pd_steps def" x] inv
    by (simp add: loop_inv_def)
  moreover have "result_of z i = result_of x i" if "status_of x i = StepDone" for i
    using execute_batches_keeps [OF b env(2) good s0, of i] that by simp
  ultimately show ?thesis using r None b env(3)
    by (cases b) (auto simp: exec_round_def after_batches_def Let_def settled_def split: if_splits)
qed

definition settled_state :: "plan_state \<Rightarrow> bool" where
  "settled_state st = (\<forall>i. srs_status (gm_get pending_result (ps_results st) i) \<in> {StepPending, StepDone, StepFailed})"

definition done_in :: "plan_state \<Rightarrow> string \<Rightarrow> bool" where
  "done_in st i = (srs_status (gm_get pending_result (ps_results st) i) = StepDone)"

lemma manual_execution:
  assumes e: "execute_with_state p rt sid def st w = (out, y)"
    and st: "well_formed_plan def (agent_names (po_infos p))" "ps_steps st = pd_steps def" "settled_state st"
    and env: "registered (plan_env p rt sid True)" "ctx_sticky (plan_env p rt sid True)" "fair_env (plan_env p rt sid True)"
      "\<not> pc_auto_replan (po_config p)"
  shows "settled_state (xs_plan y)" "ps_steps (xs_plan y) = pd_steps def"
    "done_in st i \<Longrightarrow> gm_get pending_result (ps_results (xs_plan y)) i = gm_get pending_result (ps_results st) i"
    "ps_status (xs_plan y) = PlanDone \<Longrightarrow> s \<in> set (pd_steps def) \<Longrightarrow> done_in (xs_plan y) (sd_id s)"
proof -
  let ?env = "plan_env p rt sid True" and ?x = "set_status PlanRunning \<lparr>xs_plan = st, xs_events = [], xs_world = w\<rparr>"
  obtain r z where r: "exec_loop ?env def zero_usage ?x = (r, z)" by fastforce
  have y: "y = z" using e r by (simp add: execute_with_state_def exec_plan_def)
  have inv: "loop_inv ?env def ?x" using st by (simp add: loop_inv_def plan_env_def settled_def settled_state_def)
  obtain o1 z1 where o1: "exec_round ?env def zero_usage ?x = (o1, z1)" by fastforce
  have na: "\<not> pc_auto_replan (ex_config ?env)" using env(4) by (simp add: plan_env_def)
  note m = manual_round [OF o1 inv env(2,3) na]
  then have z: "z1 = z" using r o1 by (auto simp: exec_loop.simps [of ?env def])
  show "settled_state (xs_plan y)" "ps_steps (xs_plan y) = pd_steps def"
    using m by (simp_all add: y z settled_def settled_state_def)
  show "done_in st i \<Longrightarrow> gm_get pending_result (ps_results (xs_plan y)) i = gm_get pending_result (ps_results st) i"
    using m by (simp add: y z done_in_def)
  show "ps_status (xs_plan y) = PlanDone \<Longrightarrow> s \<in> set (pd_steps def) \<Longrightarrow> done_in (xs_plan y) (sd_id s)"
    using exec_loop_done [OF inv env(1-3) r] m by (simp add: y z done_in_def)
qed

section \<open>Replanning\<close>

text \<open>Valid replacement steps that reuse no surviving id give a valid plan.\<close>

lemma merge_well_formed:
  assumes d: "well_formed_plan def A" and n: "well_formed_plan \<lparr>pd_goal = g, pd_steps = new\<rparr> A"
    and dis: "set (step_ids new) \<inter> set (step_ids (surviving_steps def i)) = {}"
  shows "well_formed_plan (merge_steps def i new) A"
proof -
  let ?s = "surviving_steps def i" and ?o = "pd_steps def"
  have sub: "set ?s \<subseteq> set ?o" by (auto simp: surviving_steps_def)
  have closed: "deps_closed ?s" unfolding deps_closed_def
  proof (intro ballI subsetI)
    fix s d' assume s: "s \<in> set ?s" "d' \<in> set (sd_depends_on s)"
    then have "d' \<notin> affected_steps def i" using affected_steps_closure [of def i] by blast
    moreover have "d' \<in> set (step_ids ?o)"
      using d s sub unfolding well_formed_plan_def Let_def deps_closed_def by blast
    ultimately show "d' \<in> set (step_ids ?s)" by (auto simp: surviving_steps_def)
  qed
  have e: "dep_edges (?s @ new) = dep_edges ?s \<union> dep_edges new" by (auto simp: dep_edges_def)
  have fs: "dep_edges ?s \<subseteq> set (step_ids ?s) \<times> set (step_ids ?s)"
    using closed by (auto simp: dep_edges_def deps_closed_def)
  have fn: "dep_edges new \<subseteq> set (step_ids new) \<times> set (step_ids new)"
    using n by (auto simp: dep_edges_def deps_closed_def well_formed_plan_def)
  have as: "acyclic (dep_edges ?s)"
    by (rule acyclic_subset [of "dep_edges ?o"]) (use d sub in \<open>auto simp: well_formed_plan_def Let_def dep_edges_def\<close>)
  have an: "acyclic (dep_edges new)" using n by (simp add: well_formed_plan_def Let_def)
  have "acyclic (dep_edges ?s \<union> dep_edges new)"
  proof (rule acyclicI, intro allI notI)
    fix a assume "(a, a) \<in> (dep_edges ?s \<union> dep_edges new)\<^sup>+"
    moreover have "(a, b) \<in> (dep_edges ?s \<union> dep_edges new)\<^sup>+ \<Longrightarrow>
        (a, b) \<in> (dep_edges ?s)\<^sup>+ \<or> (a, b) \<in> (dep_edges new)\<^sup>+" for b
    proof (induction rule: trancl_induct)
      case (step b c)
      have bs: "(a, b) \<in> (dep_edges ?s)\<^sup>+ \<Longrightarrow> b \<in> set (step_ids ?s)" using trancl_mono [OF _ fs] trancl_subset_Sigma [OF fs] by blast
      have bn: "(a, b) \<in> (dep_edges new)\<^sup>+ \<Longrightarrow> b \<in> set (step_ids new)" using trancl_subset_Sigma [OF fn] by blast
      from step.IH show ?case
      proof
        assume s: "(a, b) \<in> (dep_edges ?s)\<^sup>+"
        then have "(b, c) \<in> dep_edges ?s" using step.hyps(2) bs fn dis by blast
        then show ?thesis using s by (auto intro: trancl_into_trancl)
      next
        assume s: "(a, b) \<in> (dep_edges new)\<^sup>+"
        then have "(b, c) \<in> dep_edges new" using step.hyps(2) bn fs dis by blast
        then show ?thesis using s by (auto intro: trancl_into_trancl)
      qed
    qed auto
    ultimately show False using as an by (auto simp: acyclic_def)
  qed
  moreover have "distinct (step_ids ?s)"
    using d by (auto simp: well_formed_plan_def Let_def surviving_steps_def distinct_map intro: inj_on_subset)
  moreover have "deps_closed (?s @ new)" using closed n by (auto simp: deps_closed_def well_formed_plan_def Let_def)
  ultimately show ?thesis
    using d n dis sub unfolding well_formed_plan_def Let_def merge_steps_def e [symmetric] by auto
qed

lemma llm_replan_ok:
  assumes "llm_replan unsteps m inp chunked w = (Returns (Inr new), out, w')"
  shows "well_formed_plan \<lparr>pd_goal = ri_goal inp, pd_steps = new\<rparr> (agent_names (ri_agents inp))"
proof -
  obtain r o1 w1 where c: "model_call m chunked [role_message RoleSystem planner_system_prompt,
      role_message RoleUser (build_replan_prompt inp)] w = (r, o1, w1)" by (metis prod.exhaust)
  show ?thesis using assms c
    by (auto simp: llm_replan_def Let_def validate_None_iff validate_errors_Nil_iff
        split: go_ret.splits sum.splits option.splits)
qed

section \<open>What every entry keeps\<close>

text \<open>The entries have \<open>Q\<close>, the map names entries only, and there are at least \<open>n\<close> of them.\<close>

definition reg_ok :: "nat \<Rightarrow> ('e \<Rightarrow> bool) \<Rightarrow> ('e, 's, 'm, 'x) manager \<Rightarrow> bool" where
  "reg_ok n Q r = (n \<le> length (sm_heap r) \<and> (\<forall>e\<in>set (sm_heap r). Q e) \<and> list_all (\<lambda>(sid, k). k < length (sm_heap r)) (sm_entries r))"

lemma reg_same: "sm_heap r' = sm_heap r \<Longrightarrow> sm_entries r' = sm_entries r \<Longrightarrow> reg_ok n Q r' = reg_ok n Q r"
  by (simp add: reg_ok_def)

lemma reg_fewer:
  "reg_ok n Q r \<Longrightarrow> sm_heap r' = sm_heap r \<Longrightarrow> set (sm_entries r') \<subseteq> set (sm_entries r) \<Longrightarrow> reg_ok n Q r'"
  by (auto simp: reg_ok_def list_all_iff)

lemma reg_sync: "reg_ok n Q (sync_meta i r) = reg_ok n Q r"
  by (rule reg_same) (simp_all add: sync_meta_def split: option.splits)

lemma reg_touch: "reg_ok n Q (touch now sid r) = reg_ok n Q r"
  by (rule reg_same) (simp_all add: touch_def)

lemma reg_write: "reg_ok n Q r \<Longrightarrow> (\<And>e. Q e \<Longrightarrow> Q (f e)) \<Longrightarrow> k < length (sm_heap r) \<Longrightarrow>
    reg_ok n Q (r\<lparr>sm_heap := (sm_heap r)[k := f (sm_heap r ! k)]\<rparr>)"
  by (auto simp: reg_ok_def dest!: set_update_subset_insert [THEN subsetD])

lemma reg_lookup: "reg_ok n Q r \<Longrightarrow> map_of (sm_entries r) sid = Some k \<Longrightarrow> k < length (sm_heap r)"
  by (auto simp: reg_ok_def list_all_iff dest: map_of_SomeD)

lemma reg_add:
  assumes "reg_ok n Q r" "Q (sh_new env i)"
  shows "reg_ok n Q (add_entry env sid i r)"
proof -
  have "list_all (\<lambda>(sid, k). k < Suc (length (sm_heap r))) (sm_entries r)"
    using assms(1) by (auto simp: reg_ok_def list_all_iff)
  from update_in_range [OF this, of "length (sm_heap r)" sid] show ?thesis
    using assms by (auto simp: reg_ok_def add_entry_def)
qed

lemma reg_meta:
  assumes "reg_ok n Q r" "\<And>e f. Q e \<Longrightarrow> Q (sh_write env f e)"
  shows "reg_ok n Q (snd (with_meta env now sid f r))"
proof (cases "map_of (sm_entries r) sid")
  case (Some k)
  then show ?thesis using reg_write [OF assms(1), of "sh_write env f" k] assms(2) reg_lookup [OF assms(1) Some]
    by (simp add: with_meta_def write_info_def Let_def reg_touch)
qed (use assms in \<open>simp add: with_meta_def\<close>)

lemma reg_use:
  assumes "reg_ok n Q r" "\<And>i. Q (sh_new env i)"
  shows "reg_ok n Q (snd (get_or_create env clk sid r)) \<and>
    fst (get_or_create env clk sid r) < length (sm_heap (snd (get_or_create env clk sid r)))"
proof (cases "map_of (sm_entries r) sid")
  case (Some k)
  then show ?thesis using assms reg_lookup [OF assms(1) Some] by (simp add: get_or_create_def lookup_entry_def reg_touch) (simp add: touch_def)
next
  case None
  then show ?thesis using reg_add [OF assms(1,2)]
    by (auto simp: get_or_create_def lookup_entry_def insert_entry_def Let_def reg_sync reg_touch)
       (auto simp: sync_meta_def touch_def add_entry_def split: option.splits)
qed

lemma delete_subset: "set (AList.delete k m) \<subseteq> set m"
  by (auto simp: AList.delete_eq)

lemma reg_evict: "reg_ok n Q r \<Longrightarrow> reg_ok n Q (evict_one env now mx p r)"
  by (cases p) (auto simp: evict_one_def Let_def sync_meta_def split: option.splits
      elim!: reg_fewer dest: delete_subset [THEN subsetD])

lemma reg_call:
  assumes r: "reg_ok n Q r" and q: "\<And>i. Q (sh_new env i)" "\<And>e f. Q e \<Longrightarrow> Q (sh_write env f e)"
  shows "reg_ok n Q (do_manager_call env c r)"
proof (cases c)
  case (CallCreate now sid req)
  then show ?thesis using reg_add [OF r q(1)] by (simp add: create_session_def Let_def reg_sync)
next
  case (CallUse clk sid)
  then show ?thesis using reg_use [OF r q(1)] by simp
next
  case (CallMeta now sid f)
  then show ?thesis using reg_meta [OF r q(2)] by simp
next
  case (CallUpdate clk sid body)
  have m: "reg_ok n Q (snd (write_title env clk sid t r'))" if "reg_ok n Q r'" for t r'
    using reg_meta [OF that q(2), where now = "clk 4" and sid = sid and f = "set_title (clk 3) t"]
    by (auto simp: write_title_def reg_sync split: prod.splits option.splits)
  have "reg_ok n Q (restore_stored env clk sid r)" using r reg_use [OF r q(1)] by (simp add: restore_stored_def)
  then show ?thesis using r m by (auto simp: CallUpdate update_session_def split: option.splits)
next
  case (CallSaved i)
  then show ?thesis using r by (auto simp: finish_save_def Let_def reg_ok_def split: option.splits)
next
  case (CallDelete sid)
  then show ?thesis using delete_subset [of sid "sm_entries r"]
    by (auto simp: delete_session_def Let_def forget_entry_def intro!: reg_fewer [OF r])
next
  case (CallEvict now mx)
  have "reg_ok n Q r \<Longrightarrow> reg_ok n Q (fold (evict_one env now mx) ps r)" for ps
    by (induction ps arbitrary: r) (simp_all add: reg_evict)
  then show ?thesis using r CallEvict by (simp add: evict_idle_def)
qed (use r in \<open>simp_all add: reg_sync\<close>)

section \<open>The steps of the handler\<close>

text \<open>
  The server with the requests that are between two critical sections: executions to start, and
  replans that wait for the planner. Each step is a critical section of a request, a part of a
  goroutine between two blocking points, or a call of the session registry.
\<close>

record ('w, 's, 'm) plan_system =
  sy_ps :: "('w, 's, 'm) plan_server"
  sy_starts :: "(string \<times> nat \<times> plan_def) list"
  sy_replans :: "replan_job list"

definition take_out :: "nat \<Rightarrow> 'a list \<Rightarrow> 'a list" where
  "take_out i xs = take i xs @ drop (Suc i) xs"

inductive plan_step ::
  "'w plan_outside \<Rightarrow> 'w plan_handler \<Rightarrow> ('w plan_entry, 's, 'm) manager_env \<Rightarrow> ('w, 's, 'm) plan_system \<Rightarrow> ('w, 's, 'm) plan_system \<Rightarrow> bool"
  for px h env where
  step_registry: "plan_step px h env s (s\<lparr>sy_ps := (sy_ps s)\<lparr>pv_server := (pv_server (sy_ps s))
      \<lparr>sv_manager := do_manager_call env c (sv_manager (pv_server (sy_ps s)))\<rparr>\<rparr>\<rparr>)"
| step_generate: "handle_generate px env clk sid body fl (sy_ps s) = Returns (r, ps) \<Longrightarrow> plan_step px h env s (s\<lparr>sy_ps := ps\<rparr>)"
| step_get: "handle_get_plan env clk sid (sy_ps s) = (r, ps) \<Longrightarrow> plan_step px h env s (s\<lparr>sy_ps := ps\<rparr>)"
| step_update: "handle_update_plan h env clk sid d (sy_ps s) = (r, ps) \<Longrightarrow> plan_step px h env s (s\<lparr>sy_ps := ps\<rparr>)"
| step_refuse: "check_execute env clk sid (sy_ps s) = (Inl r, ps) \<Longrightarrow> plan_step px h env s (s\<lparr>sy_ps := ps\<rparr>)"
| step_check: "check_execute env clk sid (sy_ps s) = (Inr job, ps) \<Longrightarrow>
     plan_step px h env s (s\<lparr>sy_ps := ps, sy_starts := sy_starts s @ [(sid, job)]\<rparr>)"
| step_start: "i < length (sy_starts s) \<Longrightarrow> sy_starts s ! i = (sid, job) \<Longrightarrow> start_execute sid job (sy_ps s) = (r, ps) \<Longrightarrow>
     plan_step px h env s (s\<lparr>sy_ps := ps, sy_starts := take_out i (sy_starts s)\<rparr>)"
| step_round: "x < length (pv_runs (sy_ps s)) \<Longrightarrow> ec_phase (pv_runs (sy_ps s) ! x) = Going \<Longrightarrow>
     run_round px x (sy_ps s) = Returns ps \<Longrightarrow> plan_step px h env s (s\<lparr>sy_ps := ps\<rparr>)"
| step_wait: "x < length (pv_runs (sy_ps s)) \<Longrightarrow> ec_phase (pv_runs (sy_ps s) ! x) = Pausing \<Longrightarrow>
     plan_step px h env s (s\<lparr>sy_ps := enter_wait x (sy_ps s)\<rparr>)"
| step_resume: "x < length (pv_runs (sy_ps s)) \<Longrightarrow> ec_phase (pv_runs (sy_ps s) ! x) = WaitsOn c \<Longrightarrow>
     resume_run px prefers x (sy_ps s) = Returns ps \<Longrightarrow> plan_step px h env s (s\<lparr>sy_ps := ps\<rparr>)"
| step_cancel: "handle_cancel px env clk sid (sy_ps s) = Returns (r, ps) \<Longrightarrow> plan_step px h env s (s\<lparr>sy_ps := ps\<rparr>)"
| step_follow: "subscribe_events sid fl (sy_ps s) = (q, ps) \<Longrightarrow> plan_step px h env s (s\<lparr>sy_ps := ps\<rparr>)"
| step_retry: "handle_step_retry env clk sid i (sy_ps s) = (a, ps) \<Longrightarrow> plan_step px h env s (s\<lparr>sy_ps := ps\<rparr>)"
| step_no_replan: "begin_replan env clk sid fb (sy_ps s) = Returns (Inl r, ps) \<Longrightarrow> plan_step px h env s (s\<lparr>sy_ps := ps\<rparr>)"
| step_begin_replan: "begin_replan env clk sid fb (sy_ps s) = Returns (Inr j, ps) \<Longrightarrow>
     plan_step px h env s (s\<lparr>sy_ps := ps, sy_replans := sy_replans s @ [j]\<rparr>)"
| step_replan: "i < length (sy_replans s) \<Longrightarrow> finish_replan px (sy_replans s ! i) (sy_ps s) = Returns (a, ps) \<Longrightarrow>
     plan_step px h env s (s\<lparr>sy_ps := ps, sy_replans := take_out i (sy_replans s)\<rparr>)"
| step_approve: "plan_approve env clk sid ans (sy_ps s) = (r, ps) \<Longrightarrow> plan_step px h env s (s\<lparr>sy_ps := ps\<rparr>)"
| step_submit: "k < length (sm_heap (sv_manager (pv_server (sy_ps s)))) \<Longrightarrow> plan_submit k call (sy_ps s) = Returns (c, ps) \<Longrightarrow>
     plan_step px h env s (s\<lparr>sy_ps := ps\<rparr>)"

definition start_system :: "'s option \<Rightarrow> 'm option \<Rightarrow> 'w \<Rightarrow> ('w, 's, 'm) plan_system" where
  "start_system st mem w = \<lparr>sy_ps = new_plan_server st mem w, sy_starts = [], sy_replans = []\<rparr>"

inductive plan_reachable ::
  "'w plan_outside \<Rightarrow> 'w plan_handler \<Rightarrow> ('w plan_entry, 's, 'm) manager_env \<Rightarrow> ('w, 's, 'm) plan_system \<Rightarrow> bool"
  for px h env where
  reach_start: "plan_reachable px h env (start_system st mem w)"
| reach_step: "plan_reachable px h env s \<Longrightarrow> plan_step px h env s t \<Longrightarrow> plan_reachable px h env t"

section \<open>The invariant\<close>

text \<open>An entry with the plan of its session and, if it has one, a definition valid for the handler's agents.\<close>

definition entry_good ::
  "'w plan_outside \<Rightarrow> 'w plan_handler \<Rightarrow> 'w memory_if option \<Rightarrow> (string \<Rightarrow> 'w approver) \<Rightarrow> 'w plan_entry \<Rightarrow> bool" where
  "entry_good px h mem bridge e = ((\<exists>b. pe_plan e = session_plan px h mem (bridge b)) \<and>
     (\<forall>d. pe_def e = Some d \<longrightarrow> well_formed_plan d (template_names h)))"

definition run_good :: "nat \<Rightarrow> 'w plan_handler \<Rightarrow> execution \<Rightarrow> bool" where
  "run_good n h ex = (ec_entry ex < n \<and> well_formed_plan (ec_def ex) (template_names h) \<and>
     ps_steps (ec_state ex) = pd_steps (ec_def ex) \<and> settled_state (ec_state ex))"

fun resume_good :: "'w plan_handler \<Rightarrow> resume \<Rightarrow> bool" where
  "resume_good h (RetryStep i) = True"
| "resume_good h (UseDef d) = well_formed_plan d (template_names h)"

abbreviation plan_registry :: "('w, 's, 'm) plan_server \<Rightarrow> ('w plan_entry, 's, 'm, sse_event) manager" where
  "plan_registry ps \<equiv> sv_manager (pv_server ps)"

definition server_good ::
  "'w plan_outside \<Rightarrow> 'w plan_handler \<Rightarrow> 'w memory_if option \<Rightarrow> (string \<Rightarrow> 'w approver) \<Rightarrow> nat \<Rightarrow> ('w, 's, 'm) plan_server \<Rightarrow> bool" where
  "server_good px h mem bridge n ps = (reg_ok n (entry_good px h mem bridge) (plan_registry ps) \<and>
     list_all (run_good n h) (pv_runs ps) \<and> list_all (list_all (resume_good h)) (pv_retries ps))"

definition system_good ::
  "'w plan_outside \<Rightarrow> 'w plan_handler \<Rightarrow> 'w memory_if option \<Rightarrow> (string \<Rightarrow> 'w approver) \<Rightarrow> ('w, 's, 'm) plan_system \<Rightarrow> bool" where
  "system_good px h mem bridge s = (\<exists>n. server_good px h mem bridge n (sy_ps s) \<and>
     list_all (\<lambda>(sid, k, d). k < n \<and> well_formed_plan d (template_names h)) (sy_starts s) \<and>
     list_all (\<lambda>j. rj_entry j < n \<and> well_formed_plan (rj_def j) (template_names h)) (sy_replans s))"

text \<open>Steps keep the executions and their channels, apart from what they say.\<close>

definition same_runs :: "('w, 's, 'm) plan_server \<Rightarrow> ('w, 's, 'm) plan_server \<Rightarrow> bool" where
  "same_runs ps qs = (pv_runs qs = pv_runs ps \<and> pv_retries qs = pv_retries ps)"

lemma good_mono: "server_good px h mem bridge n ps \<Longrightarrow> n \<le> m \<Longrightarrow> m \<le> length (sm_heap (plan_registry ps)) \<Longrightarrow> server_good px h mem bridge m ps"
  by (auto simp: server_good_def reg_ok_def run_good_def list_all_iff intro: less_le_trans)

lemma good_same:
  "server_good px h mem bridge n ps \<Longrightarrow> same_runs ps qs \<Longrightarrow> reg_ok n (entry_good px h mem bridge) (plan_registry qs) \<Longrightarrow>
   server_good px h mem bridge n qs"
  by (simp add: server_good_def same_runs_def)

lemma good_announce:
  "announce sid es ps = Returns qs \<Longrightarrow> same_runs ps qs \<and> pv_world qs = pv_world ps \<and>
     sm_heap (plan_registry qs) = sm_heap (plan_registry ps) \<and> sm_entries (plan_registry qs) = sm_entries (plan_registry ps)"
proof (induction es arbitrary: ps)
  case (Cons e es)
  obtain sv where p: "publish_event sid e (pv_server ps) = Returns sv" "announce sid es (ps\<lparr>pv_server := sv\<rparr>) = Returns qs"
    using Cons.prems by (auto split: go_ret.splits)
  have "sm_heap (sv_manager sv) = sm_heap (plan_registry ps)" "sm_entries (sv_manager sv) = sm_entries (plan_registry ps)"
    using p(1) by (auto simp: publish_event_def Let_def split: go_ret.splits)
  then show ?case using Cons.IH [OF p(2)] by (simp add: same_runs_def)
qed (simp add: same_runs_def)

lemma good_announced: "announce sid es ps = Returns qs \<Longrightarrow> server_good px h mem bridge n qs = server_good px h mem bridge n ps"
  using good_announce [of sid es ps qs] reg_same [of "plan_registry qs" "plan_registry ps"]
  by (auto simp: server_good_def same_runs_def)

section \<open>The plan of a session\<close>

lemma template_options:
  "let p' = foldl apply_option p (map (template_agent px mem ap) ts) in
     po_planner p' = po_planner p \<and> po_config p' = po_config p \<and> agent_names (po_infos p') = agent_names (po_infos p) \<union> set (map pt_name ts)"
proof (induction ts arbitrary: p)
  case (Cons t ts)
  have "po_planner (apply_option p (template_agent px mem ap t)) = po_planner p"
    "po_config (apply_option p (template_agent px mem ap t)) = po_config p"
    "agent_names (po_infos (apply_option p (template_agent px mem ap t))) = agent_names (po_infos p) \<union> {pt_name t}"
    by (auto simp: template_agent_def agent_names_def split: plan_runner.splits)
  then show ?case using Cons.IH [of "apply_option p (template_agent px mem ap t)"] by (auto simp: Let_def)
qed simp

lemma session_plan_facts:
  "agent_names (po_infos (session_plan px h mem ap)) = template_names h"
  "\<not> pc_auto_replan (po_config (session_plan px h mem ap))"
  "po_planner (session_plan px h mem ap) = Some (llm_planner (px_unplan px) (px_unsteps px) (ph_model h))"
  using template_options [of _ px mem ap "ph_agents h"]
  by (auto simp: session_plan_def new_plan_def Let_def template_names_def agent_names_def split: option.splits)

lemma session_registered:
  assumes "ph_agents h \<noteq> []"
  shows "registered (plan_env (session_plan px h mem ap) rt sid b)"
proof -
  have ok: "registry_ok (session_plan px h mem ap)" by (simp add: session_plan_def registry_new_plan)
  moreover have "agent_names (po_infos (session_plan px h mem ap)) \<noteq> {}"
    using assms by (simp add: session_plan_facts template_names_def)
  then have "po_agents (session_plan px h mem ap) \<noteq> []" using ok by (auto simp: registry_ok_def)
  ultimately show ?thesis by (rule registry_registered)
qed

lemma plan_stream_ok:
  "plan_stream p goal history w = (Returns (Inr def), out, w') \<Longrightarrow> well_formed_plan def (agent_names (po_infos p)) \<and>
     int (length (pd_steps def)) \<le> pc_max_steps (po_config p)"
  using check_generated_ok [of p _ def] plan_plan_ok [of p goal history w def]
  by (auto simp: plan_stream_def split: option.splits if_splits prod.splits go_ret.splits sum.splits)

section \<open>Requests keep the invariant\<close>

lemma entry_good_new: "entry_good px h mem bridge (new_plan_entry px h mem bridge i)"
  by (auto simp: entry_good_def new_plan_entry_def)

lemma hooks_sel:
  "sh_new (plan_hooks px h mem bridge base) = new_plan_entry px h mem bridge"
  "sh_write (plan_hooks px h mem bridge base) = write_entry_info"
  by (simp_all add: plan_hooks_def)

lemma entry_good_write: "entry_good px h mem bridge e \<Longrightarrow> entry_good px h mem bridge (write_entry_info f e)"
  by (simp add: entry_good_def write_entry_info_def)

lemma entry_good_def_set: "entry_good px h mem bridge e \<Longrightarrow> well_formed_plan d (template_names h) \<Longrightarrow> entry_good px h mem bridge (e\<lparr>pe_def := Some d\<rparr>)"
  by (simp add: entry_good_def)

lemma entry_good_same: "entry_good px h mem bridge e \<Longrightarrow> pe_plan e' = pe_plan e \<Longrightarrow> pe_def e' = pe_def e \<Longrightarrow> entry_good px h mem bridge e'"
  by (simp add: entry_good_def)

lemma good_on_entry:
  assumes "server_good px h mem bridge n ps" "\<And>e. entry_good px h mem bridge e \<Longrightarrow> entry_good px h mem bridge (f e)"
  shows "server_good px h mem bridge n (on_entry k f ps)"
proof (rule good_same [OF assms(1)])
  show "same_runs ps (on_entry k f ps)" by (simp add: same_runs_def on_entry_def)
  have r: "reg_ok n (entry_good px h mem bridge) (plan_registry ps)" using assms(1) by (simp add: server_good_def)
  show "reg_ok n (entry_good px h mem bridge) (plan_registry (on_entry k f ps))"
  proof (cases "k < length (sm_heap (plan_registry ps))")
    case True
    then show ?thesis using reg_write [OF r, of f k] assms(2) by (simp add: on_entry_def at_entry_def Let_def)
  next
    case False
    then have "plan_registry (on_entry k f ps) = plan_registry ps"
      by (simp add: on_entry_def at_entry_def Let_def list_update_beyond)
    then show ?thesis using r by simp
  qed
qed

lemma good_entry_at:
  "server_good px h mem bridge n ps \<Longrightarrow> k < n \<Longrightarrow> entry_good px h mem bridge (plan_entry_at ps k)"
  by (auto simp: server_good_def reg_ok_def plan_entry_at_def entry_at_def)

lemma good_world: "server_good px h mem bridge n (ps\<lparr>pv_world := w\<rparr>) = server_good px h mem bridge n ps"
  by (simp add: server_good_def)

lemma good_open:
  assumes "server_good px h mem bridge n ps" "open_plan (plan_hooks px h mem bridge base) clk sid ps = (k, qs)"
  obtains m where "n \<le> m" "k < m" "server_good px h mem bridge m qs" "same_runs ps qs" "pv_world qs = pv_world ps"
proof -
  let ?env = "plan_hooks px h mem bridge base"
  obtain r where g: "get_or_create ?env clk sid (plan_registry ps) = (k, r)"
      and qs: "qs = ps\<lparr>pv_server := (pv_server ps)\<lparr>sv_manager := r\<rparr>\<rparr>"
    using assms(2) by (auto simp: open_plan_def open_entry_def split: prod.splits)
  have s: "same_runs ps qs" "pv_world qs = pv_world ps" by (simp_all add: qs same_runs_def)
  have "reg_ok n (entry_good px h mem bridge) (plan_registry ps)" using assms(1) by (simp add: server_good_def)
  then have "reg_ok n (entry_good px h mem bridge) (snd (get_or_create ?env clk sid (plan_registry ps))) \<and>
      fst (get_or_create ?env clk sid (plan_registry ps)) < length (sm_heap (snd (get_or_create ?env clk sid (plan_registry ps))))"
    by (rule reg_use) (simp add: hooks_sel entry_good_new)
  then have u: "reg_ok n (entry_good px h mem bridge) r" "k < length (sm_heap r)" unfolding g by simp_all
  have "server_good px h mem bridge n qs" by (rule good_same [OF assms(1) s(1)]) (simp add: qs u)
  then have "server_good px h mem bridge (length (sm_heap r)) qs"
    by (rule good_mono) (use u in \<open>simp_all add: qs reg_ok_def\<close>)
  moreover have "n \<le> length (sm_heap r)" using u(1) by (simp add: reg_ok_def)
  ultimately show thesis using that u(2) s by blast
qed

text \<open>What a request leaves behind, with at least as many entries as before.\<close>

definition kept_good ::
  "'w plan_outside \<Rightarrow> 'w plan_handler \<Rightarrow> 'w memory_if option \<Rightarrow> (string \<Rightarrow> 'w approver) \<Rightarrow> nat \<Rightarrow> ('w, 's, 'm) plan_server \<Rightarrow> bool" where
  "kept_good px h mem bridge n ps = (\<exists>m. n \<le> m \<and> server_good px h mem bridge m ps)"

lemma kept_goodI: "n \<le> m \<Longrightarrow> server_good px h mem bridge m ps \<Longrightarrow> kept_good px h mem bridge n ps"
  by (auto simp: kept_good_def)

lemma generate_good:
  assumes g: "server_good px h mem bridge n ps"
    and c: "handle_generate px (plan_hooks px h mem bridge base) clk sid body fl ps = Returns (r, qs)"
  shows "kept_good px h mem bridge n qs \<and> same_runs ps qs"
proof -
  let ?env = "plan_hooks px h mem bridge base"
  obtain k ps1 where o: "open_plan ?env clk sid ps = (k, ps1)" by fastforce
  obtain m where m: "n \<le> m" "k < m" "server_good px h mem bridge m ps1" "same_runs ps ps1" using good_open [OF g o] by blast
  have t: "server_good px h mem bridge m (title_from ?env a b sid d ps2) \<and> same_runs ps (title_from ?env a b sid d ps2)"
    if "server_good px h mem bridge m ps2" "same_runs ps ps2" for a b d ps2
  proof -
    have r: "reg_ok m (entry_good px h mem bridge) (plan_registry ps2)" using that(1) by (simp add: server_good_def)
    have "reg_ok m (entry_good px h mem bridge) (snd (with_meta ?env a sid f (plan_registry ps2)))" for f
      by (rule reg_meta [OF r]) (simp add: hooks_sel entry_good_write)
    then show ?thesis using that
      by (auto simp: title_from_def Let_def same_runs_def reg_sync server_good_def split: prod.splits option.splits)
         (metis reg_sync snd_conv)+
  qed
  have d: "server_good px h mem bridge m (on_entry k (\<lambda>e. e\<lparr>pe_def := Some d\<rparr>) (ps1\<lparr>pv_world := w\<rparr>))"
    if "plan_stream (pe_plan (plan_entry_at ps1 k)) goal [] (pv_world ps1) = (Returns (Inr d), out, w)" for d goal out w
  proof (rule good_on_entry)
    have "well_formed_plan d (template_names h)"
      using plan_stream_ok [OF that] good_entry_at [OF m(3,2)] by (auto simp: entry_good_def session_plan_facts)
    then show "entry_good px h mem bridge e \<Longrightarrow> entry_good px h mem bridge (e\<lparr>pe_def := Some d\<rparr>)" for e by (simp add: entry_good_def_set)
  qed (simp add: good_world m)
  have sr: "same_runs ps (on_entry k f (ps1\<lparr>pv_world := w\<rparr>))" for f w using m(4) by (simp add: same_runs_def on_entry_def)
  show ?thesis
  proof (cases "body = None \<or> body = Some []")
    case True
    then show ?thesis using c g by (auto simp: handle_generate_def same_runs_def intro: kept_goodI)
  next
    case False
    then obtain goal where b: "body = Some goal" "goal \<noteq> []" by auto
    obtain q out w where p: "plan_stream (pe_plan (plan_entry_at ps1 k)) goal [] (pv_world ps1) = (q, out, w)" by (metis prod.exhaust)
    show ?thesis
    proof (cases fl)
      case False
      then show ?thesis using c b o m by (auto simp: handle_generate_def intro: kept_goodI)
    next
      case True
      obtain res where res: "q = Returns res" using c b o p True by (cases q) (simp_all add: handle_generate_def)
      show ?thesis
      proof (cases res)
        case (Inl e)
        then have "qs = ps1\<lparr>pv_world := w\<rparr>" using c b o p True res by (simp add: handle_generate_def)
        then show ?thesis using m by (auto simp: good_world same_runs_def intro: kept_goodI)
      next
        case (Inr def)
        then have "qs = title_from ?env (clk 3) (clk 4) sid def (on_entry k (\<lambda>e. e\<lparr>pe_def := Some def\<rparr>) (ps1\<lparr>pv_world := w\<rparr>))"
          using c b o p True res by (simp add: handle_generate_def Let_def)
        then show ?thesis using t [OF d sr] p res Inr m(1) kept_goodI by blast
      qed
    qed
  qed
qed

text \<open>
  The world the handler runs in: there is an agent, a context stays cancelled, the schedulers
  permute, and the model does what the replan prompt demands, it reuses no id of a surviving step.
\<close>

definition plan_world_ok ::
  "'w plan_outside \<Rightarrow> 'w plan_handler \<Rightarrow> 'w memory_if option \<Rightarrow> (string \<Rightarrow> 'w approver) \<Rightarrow> bool" where
  "plan_world_ok px h mem bridge = (ph_agents h \<noteq> [] \<and>
     (\<forall>b x sid. ctx_sticky (plan_env (session_plan px h mem (bridge b)) (px_exec px x) sid True) \<and>
        fair_env (plan_env (session_plan px h mem (bridge b)) (px_exec px x) sid True)) \<and>
     (\<forall>m inp w new out w'. ph_model h = Some m \<longrightarrow> llm_replan (px_unsteps px) m inp True w = (Returns (Inr new), out, w') \<longrightarrow>
        set (step_ids new) \<inter> set (ri_surviving_ids inp) = {}))"

lemma update_good:
  assumes g: "server_good px h mem bridge n ps"
    and c: "handle_update_plan h (plan_hooks px h mem bridge base) clk sid body ps = (r, qs)"
  shows "kept_good px h mem bridge n qs \<and> same_runs ps qs"
proof -
  obtain k ps1 where o: "open_plan (plan_hooks px h mem bridge base) clk sid ps = (k, ps1)" by fastforce
  obtain m where m: "n \<le> m" "k < m" "server_good px h mem bridge m ps1" "same_runs ps ps1" using good_open [OF g o] by blast
  have d: "kept_good px h mem bridge n (on_entry k (\<lambda>e. e\<lparr>pe_def := Some d\<rparr>) ps1)" if "validate d (template_names h) = None" for d
    by (rule kept_goodI [OF m(1)], rule good_on_entry [OF m(3)]) (use that in \<open>simp add: entry_good_def_set validate_None_iff validate_errors_Nil_iff\<close>)
  have "same_runs ps (on_entry k f ps1)" for f using m(4) by (simp add: same_runs_def on_entry_def)
  then show ?thesis using c o m d kept_goodI [OF m(1,3)]
    by (auto simp: handle_update_plan_def Let_def split: option.splits if_splits)
qed

lemma get_good:
  assumes g: "server_good px h mem bridge n ps"
    and c: "handle_get_plan (plan_hooks px h mem bridge base) clk sid ps = (r, qs)"
  shows "kept_good px h mem bridge n qs \<and> same_runs ps qs"
proof -
  obtain k ps1 where o: "open_plan (plan_hooks px h mem bridge base) clk sid ps = (k, ps1)" by fastforce
  obtain m where m: "n \<le> m" "server_good px h mem bridge m ps1" "same_runs ps ps1" using good_open [OF g o] by blast
  then show ?thesis using c o by (auto simp: handle_get_plan_def split: option.splits intro: kept_goodI)
qed

lemma check_good:
  assumes g: "server_good px h mem bridge n ps"
    and c: "check_execute (plan_hooks px h mem bridge base) clk sid ps = (r, qs)"
  shows "\<exists>m\<ge>n. server_good px h mem bridge m qs \<and> same_runs ps qs \<and>
    (\<forall>k d. r = Inr (k, d) \<longrightarrow> k < m \<and> well_formed_plan d (template_names h))"
proof -
  obtain k ps1 where o: "open_plan (plan_hooks px h mem bridge base) clk sid ps = (k, ps1)" by fastforce
  obtain m where m: "n \<le> m" "k < m" "server_good px h mem bridge m ps1" "same_runs ps ps1" using good_open [OF g o] by blast
  have "qs = ps1" "r = Inr (j, d) \<Longrightarrow> j = k \<and> pe_def (plan_entry_at ps1 k) = Some d" for j d
    using c o by (auto simp: check_execute_def split: option.splits if_splits)
  then show ?thesis using m good_entry_at [OF m(3,2)] by (auto simp: entry_good_def)
qed

lemma first_settled: "settled_state (first_state sid d)"
  by (simp add: settled_state_def first_state_def gm_get_def)

lemma start_good:
  assumes g: "server_good px h mem bridge n ps" and j: "k < n" "well_formed_plan d (template_names h)"
    and c: "start_execute sid (k, d) ps = (r, qs)"
  shows "server_good px h mem bridge n qs"
proof -
  let ?e = "\<lparr>ec_entry = k, ec_sid = sid, ec_def = d, ec_state = first_state sid d, ec_phase = Going\<rparr>"
  have "run_good n h ?e" using j first_settled by (simp add: run_good_def first_state_def)
  moreover have "server_good px h mem bridge n (on_entry k (\<lambda>e. e\<lparr>pe_cancel := Some (length (pv_runs ps)), re_running := True\<rparr>) ps)"
    by (rule good_on_entry [OF g]) (simp add: entry_good_def)
  ultimately show ?thesis using c g by (auto simp: start_execute_def server_good_def on_entry_def)
qed

lemma good_set_run: "server_good px h mem bridge n ps \<Longrightarrow> run_good n h ex \<Longrightarrow> server_good px h mem bridge n (set_run x ex ps)"
  by (auto simp: server_good_def set_run_def list_all_iff dest!: set_update_subset_insert [THEN subsetD])

lemma good_run_at: "server_good px h mem bridge n ps \<Longrightarrow> x < length (pv_runs ps) \<Longrightarrow> run_good n h (pv_runs ps ! x)"
  by (auto simp: server_good_def list_all_length)

lemma run_good_phase: "run_good n h (ex\<lparr>ec_phase := p\<rparr>) = run_good n h ex"
  by (simp add: run_good_def)

lemma good_finish: "server_good px h mem bridge n ps \<Longrightarrow> x < length (pv_runs ps) \<Longrightarrow> server_good px h mem bridge n (finish_run px x ps)"
  unfolding finish_run_def Let_def
  by (intro good_set_run good_on_entry) (simp_all add: good_world run_good_phase good_run_at entry_good_def)

lemma finish_runs:
  "pv_runs (finish_run px x ps) = (pv_runs ps)[x := (pv_runs ps ! x)\<lparr>ec_phase := Over\<rparr>]" "pv_retries (finish_run px x ps) = pv_retries ps"
  by (simp_all add: finish_run_def Let_def set_run_def on_entry_def)

lemma round_good:
  assumes g: "server_good px h mem bridge n ps" and x: "x < length (pv_runs ps)" and w: "plan_world_ok px h mem bridge"
    and c: "run_round px x ps = Returns qs"
  shows "server_good px h mem bridge n qs \<and> length (pv_runs qs) = length (pv_runs ps) \<and>
    (\<forall>y < length (pv_runs ps). \<forall>i. done_in (ec_state (pv_runs ps ! y)) i \<longrightarrow>
       gm_get pending_result (ps_results (ec_state (pv_runs qs ! y))) i = gm_get pending_result (ps_results (ec_state (pv_runs ps ! y))) i) \<and>
    (ps_status (ec_state (pv_runs qs ! x)) = PlanDone \<longrightarrow>
       (\<forall>s\<in>set (pd_steps (ec_def (pv_runs qs ! x))). done_in (ec_state (pv_runs qs ! x)) (sd_id s)))"
proof -
  let ?ex = "pv_runs ps ! x" and ?p = "pe_plan (plan_entry_at ps (ec_entry (pv_runs ps ! x)))"
  have rg: "run_good n h ?ex" by (rule good_run_at [OF g x])
  then obtain b where p: "?p = session_plan px h mem (bridge b)"
    using good_entry_at [OF g, of "ec_entry ?ex"] by (auto simp: run_good_def entry_good_def)
  obtain out y where e: "execute_with_state ?p (px_exec px x) (ec_sid ?ex) (ec_def ?ex) (ec_state ?ex) (pv_world ps) = (out, y)" by fastforce
  obtain evs where out: "out = Returns evs" using c e by (cases out) (simp_all add: run_round_def Let_def)
  obtain sent paused where u: "until_pause (map (plan_event_to_sse (px_enc px)) evs) = (sent, paused)" by fastforce
  let ?ps1 = "set_run x (?ex\<lparr>ec_state := xs_plan y, ec_phase := Pausing\<rparr>) (ps\<lparr>pv_world := xs_world y\<rparr>)"
  obtain ps2 where a: "announce (ec_sid ?ex) sent ?ps1 = Returns ps2"
    using c e out u by (auto simp: run_round_def Let_def split: go_ret.splits)
  have env: "registered (plan_env ?p (px_exec px x) (ec_sid ?ex) True)" "ctx_sticky (plan_env ?p (px_exec px x) (ec_sid ?ex) True)"
      "fair_env (plan_env ?p (px_exec px x) (ec_sid ?ex) True)" "\<not> pc_auto_replan (po_config ?p)"
    using w by (simp_all add: p plan_world_ok_def session_registered session_plan_facts)
  have wf: "well_formed_plan (ec_def ?ex) (agent_names (po_infos ?p))" "ps_steps (ec_state ?ex) = pd_steps (ec_def ?ex)" "settled_state (ec_state ?ex)"
    using rg by (simp_all add: run_good_def p session_plan_facts)
  note m = manual_execution [OF e wf env]
  have "server_good px h mem bridge n ?ps1"
    by (rule good_set_run) (use g rg m(1,2) in \<open>simp_all add: good_world run_good_def\<close>)
  then have g2: "server_good px h mem bridge n ps2" using good_announced [OF a] by simp
  have r2: "pv_runs ps2 = (pv_runs ps)[x := ?ex\<lparr>ec_state := xs_plan y, ec_phase := Pausing\<rparr>]"
    using good_announce [OF a] by (simp add: same_runs_def set_run_def)
  have f: "server_good px h mem bridge n qs \<and> (\<exists>ph. pv_runs qs = (pv_runs ps)[x := ?ex\<lparr>ec_state := xs_plan y, ec_phase := ph\<rparr>])"
  proof (cases paused)
    case True
    let ?f = "\<lambda>e. e\<lparr>pe_exec := Some x, pe_retry := Some (length (pv_retries ps2))\<rparr>"
    have "server_good px h mem bridge n (on_entry (ec_entry ?ex) ?f ps2)" by (rule good_on_entry [OF g2]) (simp add: entry_good_def)
    moreover have "qs = (on_entry (ec_entry ?ex) ?f ps2)\<lparr>pv_retries := pv_retries ps2 @ [[]]\<rparr>"
      using c e out u a True by (simp add: run_round_def Let_def)
    moreover have "pv_retries (on_entry (ec_entry ?ex) ?f ps2) = pv_retries ps2" "pv_runs (on_entry (ec_entry ?ex) ?f ps2) = pv_runs ps2"
      by (simp_all add: on_entry_def)
    ultimately show ?thesis using r2 by (auto simp: server_good_def)
  next
    case False
    then have "qs = finish_run px x ps2" using c e out u a by (simp add: run_round_def Let_def)
    then show ?thesis using good_finish [OF g2, of x] x r2 by (auto simp: finish_runs)
  qed
  then obtain ph where r: "pv_runs qs = (pv_runs ps)[x := ?ex\<lparr>ec_state := xs_plan y, ec_phase := ph\<rparr>]" by blast
  show ?thesis using f x m(3,4) by (auto simp: r nth_list_update)
qed

text \<open>The results of steps that are done stay, but for those in \<open>A\<close>.\<close>

definition keeps_done :: "(nat \<times> string) set \<Rightarrow> ('w, 's, 'm) plan_server \<Rightarrow> ('w, 's, 'm) plan_server \<Rightarrow> bool" where
  "keeps_done A ps qs = (length (pv_runs ps) \<le> length (pv_runs qs) \<and>
     (\<forall>y < length (pv_runs ps). \<forall>i. (y, i) \<notin> A \<longrightarrow> done_in (ec_state (pv_runs ps ! y)) i \<longrightarrow>
       gm_get pending_result (ps_results (ec_state (pv_runs qs ! y))) i = gm_get pending_result (ps_results (ec_state (pv_runs ps ! y))) i))"

lemma keeps_same: "pv_runs qs = pv_runs ps \<Longrightarrow> keeps_done A ps qs"
  by (simp add: keeps_done_def)

lemma keeps_set:
  "x < length (pv_runs ps) \<Longrightarrow> pv_runs qs = (pv_runs ps)[x := ex] \<Longrightarrow>
   (\<And>i. (x, i) \<notin> A \<Longrightarrow> done_in (ec_state (pv_runs ps ! x)) i \<Longrightarrow>
     gm_get pending_result (ps_results (ec_state ex)) i = gm_get pending_result (ps_results (ec_state (pv_runs ps ! x))) i) \<Longrightarrow>
   keeps_done A ps qs"
  by (auto simp: keeps_done_def nth_list_update)

lemma apply_resume_good:
  assumes "run_good n h ex" "resume_good h a"
  shows "run_good n h (apply_resume a ex) \<and> (\<forall>i. done_in (ec_state ex) i \<longrightarrow>
    gm_get pending_result (ps_results (ec_state (apply_resume a ex))) i = gm_get pending_result (ps_results (ec_state ex)) i)"
proof (cases a)
  case (RetryStep j)
  show ?thesis
  proof (cases "map_of (ps_results (ec_state ex)) j")
    case (Some sr)
    then show ?thesis using assms
      by (auto simp: RetryStep run_good_def settled_state_def done_in_def gm_get_def update_conv)
  qed (use assms in \<open>simp add: RetryStep\<close>)
qed (use assms in \<open>simp add: run_good_def settled_state_def\<close>)

lemma wait_good:
  assumes "server_good px h mem bridge n ps" "x < length (pv_runs ps)"
  shows "server_good px h mem bridge n (enter_wait x ps) \<and> keeps_done A ps (enter_wait x ps)"
proof
  show "server_good px h mem bridge n (enter_wait x ps)"
    unfolding enter_wait_def Let_def by (rule good_set_run [OF assms(1)]) (simp add: run_good_phase good_run_at [OF assms])
  show "keeps_done A ps (enter_wait x ps)"
    by (rule keeps_set [OF assms(2), where ex = "(pv_runs ps ! x)\<lparr>ec_phase := WaitsOn (pe_retry (plan_entry_at ps (ec_entry (pv_runs ps ! x))))\<rparr>"])
       (simp_all add: enter_wait_def Let_def set_run_def)
qed

lemma over_good:
  assumes g: "server_good px h mem bridge n ps" and x: "x < length (pv_runs ps)" and a: "announce sid es ps = Returns ps1"
  shows "server_good px h mem bridge n (finish_run px x ps1) \<and> keeps_done A ps (finish_run px x ps1)"
proof
  have r: "pv_runs ps1 = pv_runs ps" using good_announce [OF a] by (simp add: same_runs_def)
  show "server_good px h mem bridge n (finish_run px x ps1)" using good_finish [of px h mem bridge n ps1 x] good_announced [OF a] g x r by simp
  show "keeps_done A ps (finish_run px x ps1)"
    by (rule keeps_set [OF x, where ex = "(pv_runs ps ! x)\<lparr>ec_phase := Over\<rparr>"]) (simp_all add: finish_runs r)
qed

lemma resume_step_good:
  assumes g: "server_good px h mem bridge n ps" and x: "x < length (pv_runs ps)" and ph: "ec_phase (pv_runs ps ! x) = WaitsOn c"
    and r: "resume_run px prefers x ps = Returns qs"
  shows "server_good px h mem bridge n qs \<and> keeps_done A ps qs"
proof -
  let ?ex = "pv_runs ps ! x" and ?stop = "case announce (ec_sid (pv_runs ps ! x)) [sse ''plan_cancelled''] ps of
      Panics p \<Rightarrow> Panics p | Returns ps1 \<Rightarrow> Returns (finish_run px x ps1)"
  have stop: "server_good px h mem bridge n qs \<and> keeps_done A ps qs" if "?stop = Returns qs"
    using that over_good [OF g x] by (auto simp del: announce.simps split: go_ret.splits)
  show ?thesis
  proof (cases "\<exists>a j. next_action c ps = Some a \<and> c = Some j")
    case False
    then have "?stop = Returns qs \<or> qs = ps"
      using r ph by (cases "next_action c ps"; cases c) (auto simp: resume_run_def Let_def split: if_splits)
    then show ?thesis using stop g keeps_same by blast
  next
    case True
    then obtain a j where aj: "next_action c ps = Some a" "c = Some j" by blast
    show ?thesis
    proof (cases "plan_runtime.rt_ctx (px_exec px x) (pv_world ps) \<noteq> None \<and> prefers")
      case True
      then have "?stop = Returns qs" using r ph aj by (simp add: resume_run_def Let_def)
      then show ?thesis by (rule stop)
    next
      case False
      let ?ps = "ps\<lparr>pv_retries := (pv_retries ps)[j := tl (queue_of j ps)]\<rparr>"
      have qs: "qs = set_run x ((apply_resume a ?ex)\<lparr>ec_phase := Going\<rparr>) ?ps"
        using r ph aj False by (auto simp: resume_run_def Let_def)
      have q: "queue_of j ps = a # tl (queue_of j ps)" using aj by (auto simp: next_action_def split: list.splits)
      have "list_all (list_all (resume_good h)) (pv_retries ps)" using g by (simp add: server_good_def)
      then have "list_all (resume_good h) (queue_of j ps)" by (simp add: list_all_length queue_of_def)
      then have ra: "resume_good h a" "list_all (resume_good h) (tl (queue_of j ps))"
        using q by (cases "queue_of j ps"; simp)+
      have gp: "server_good px h mem bridge n ?ps"
        using g ra(2) by (auto simp: server_good_def list_all_iff dest!: set_update_subset_insert [THEN subsetD])
      note ar = apply_resume_good [OF good_run_at [OF g x] ra(1)]
      have "server_good px h mem bridge n qs"
        unfolding qs by (rule good_set_run [OF gp]) (use ar in \<open>simp add: run_good_phase\<close>)
      moreover have "keeps_done A ps qs"
        by (rule keeps_set [OF x, where ex = "(apply_resume a ?ex)\<lparr>ec_phase := Going\<rparr>"]) (use ar in \<open>simp_all add: qs set_run_def\<close>)
      ultimately show ?thesis ..
    qed
  qed
qed

lemma good_send:
  assumes "server_good px h mem bridge n ps" "resume_good h a" "send_action c a rep ps = (r, qs)"
  shows "server_good px h mem bridge n qs \<and> pv_runs qs = pv_runs ps"
proof -
  have "list_all (resume_good h) (queue_of c ps)" using assms(1) by (auto simp: server_good_def queue_of_def list_all_length)
  then show ?thesis using assms
    by (auto simp: send_action_def server_good_def list_all_iff dest!: set_update_subset_insert [THEN subsetD])
qed

lemma cancel_good:
  assumes g: "server_good px h mem bridge n ps"
    and c: "handle_cancel px (plan_hooks px h mem bridge base) clk sid ps = Returns (r, qs)"
  shows "kept_good px h mem bridge n qs \<and> pv_runs qs = pv_runs ps"
proof -
  obtain k ps1 where o: "open_plan (plan_hooks px h mem bridge base) clk sid ps = (k, ps1)" by fastforce
  obtain m where m: "n \<le> m" "server_good px h mem bridge m ps1" "same_runs ps ps1" using good_open [OF g o] by blast
  have a: "kept_good px h mem bridge n qs \<and> pv_runs qs = pv_runs ps"
    if "announce sid es (ps1\<lparr>pv_world := w\<rparr>) = Returns qs" for es w
    using good_announced [OF that, of px h mem bridge m] good_announce [OF that] m kept_goodI [OF m(1)]
    by (simp add: good_world same_runs_def)
  show ?thesis
  proof (cases "pe_cancel (plan_entry_at ps1 k)")
    case None
    then show ?thesis using c o m kept_goodI [OF m(1,2)] by (simp add: handle_cancel_def same_runs_def)
  next
    case (Some x)
    then have "announce sid [sse ''plan_cancelled''] (ps1\<lparr>pv_world := px_cancel px x (pv_world ps1)\<rparr>) = Returns qs"
      using c o by (auto simp: handle_cancel_def simp del: announce.simps split: go_ret.splits)
    then show ?thesis by (rule a)
  qed
qed

lemma follow_good:
  "server_good px h mem bridge n ps \<Longrightarrow> subscribe_events sid fl ps = (q, qs) \<Longrightarrow> server_good px h mem bridge n qs \<and> pv_runs qs = pv_runs ps"
  by (auto simp: subscribe_events_def Let_def server_good_def reg_ok_def split: if_splits prod.splits)

lemma retry_good:
  assumes g: "server_good px h mem bridge n ps"
    and c: "handle_step_retry (plan_hooks px h mem bridge base) clk sid i ps = (r, qs)"
  shows "kept_good px h mem bridge n qs \<and> pv_runs qs = pv_runs ps"
proof -
  obtain k ps1 where o: "open_plan (plan_hooks px h mem bridge base) clk sid ps = (k, ps1)" by fastforce
  obtain m where m: "n \<le> m" "server_good px h mem bridge m ps1" "same_runs ps ps1" using good_open [OF g o] by blast
  have "qs = ps1 \<or> (\<exists>ch a rep. a = RetryStep i \<and> send_action ch a rep ps1 = (r, qs))"
    using c o by (auto simp: handle_step_retry_def Let_def split: option.splits if_splits)
  then show ?thesis
  proof (elim disjE exE conjE)
    fix ch a rep assume "a = RetryStep i" "send_action ch a rep ps1 = (r, qs)"
    with good_send [OF m(2), of a ch rep r qs] have "server_good px h mem bridge m qs \<and> pv_runs qs = pv_runs ps1" by simp
    then show ?thesis using m(3) kept_goodI [OF m(1)] by (auto simp: same_runs_def)
  qed (use m kept_goodI [OF m(1,2)] in \<open>simp add: same_runs_def\<close>)
qed

lemma begin_replan_good:
  assumes g: "server_good px h mem bridge n ps"
    and c: "begin_replan (plan_hooks px h mem bridge base) clk sid fb ps = Returns (r, qs)"
  shows "\<exists>m\<ge>n. server_good px h mem bridge m qs \<and> pv_runs qs = pv_runs ps \<and>
    (\<forall>j. r = Inr j \<longrightarrow> rj_entry j < m \<and> well_formed_plan (rj_def j) (template_names h))"
proof -
  obtain k ps1 where o: "open_plan (plan_hooks px h mem bridge base) clk sid ps = (k, ps1)" by fastforce
  obtain m where m: "n \<le> m" "k < m" "server_good px h mem bridge m ps1" "same_runs ps ps1" using good_open [OF g o] by blast
  have "(qs = ps \<or> qs = ps1) \<and> (\<exists>rep. r = Inl rep) \<or>
      (\<exists>def j es. pe_def (plan_entry_at ps1 k) = Some def \<and> r = Inr j \<and> rj_entry j = k \<and> rj_def j = def \<and> announce sid es ps1 = Returns qs)"
    using c o
    by (auto simp: begin_replan_def Let_def simp del: announce.simps split: option.splits if_splits go_ret.splits)
  then show ?thesis
  proof (elim disjE conjE exE)
    fix def j es
    assume d: "pe_def (plan_entry_at ps1 k) = Some def" "r = Inr j" "rj_entry j = k" "rj_def j = def" "announce sid es ps1 = Returns qs"
    have "well_formed_plan def (template_names h)" using good_entry_at [OF m(3,2)] d(1) by (simp add: entry_good_def)
    then show ?thesis using d m good_announced [OF d(5), of px h mem bridge m] good_announce [OF d(5)]
      by (intro exI [of _ m]) (auto simp: same_runs_def)
  qed (use g m in \<open>auto simp: same_runs_def\<close>)
qed

lemma filter_results:
  "gm_get pending_result (filter (\<lambda>(j, r). j \<notin> A) m) i = (if i \<in> A then pending_result else gm_get pending_result m i)"
  by (induction m) (auto simp: gm_get_def)

text \<open>The planner's part of a replan: the definition is valid, and only affected results go.\<close>

lemma replan_call_good:
  assumes w: "plan_world_ok px h mem bridge" and wf: "well_formed_plan def (template_names h)"
    and c: "replan_with_feedback_stream (session_plan px h mem (bridge b)) def st i fb True w0 = (Returns r, out, st', w')"
  shows "(settled_state st \<longrightarrow> settled_state st') \<and> ps_steps st' = ps_steps st \<and>
    (\<forall>j. j \<notin> affected_steps def i \<longrightarrow> gm_get pending_result (ps_results st') j = gm_get pending_result (ps_results st) j) \<and>
    (\<forall>d. r = Inr d \<longrightarrow> well_formed_plan d (template_names h))"
proof -
  let ?p = "session_plan px h mem (bridge b)" and ?pl = "llm_planner (px_unplan px) (px_unsteps px) (ph_model h)"
  let ?inp = "feedback_input ?p def st i fb"
  obtain q o1 w1 where q: "pl_replan ?pl ?inp True w0 = (q, o1, w1)" by (metis prod.exhaust)
  obtain res where res: "q = Returns res"
    using c q by (cases q) (simp_all add: replan_with_feedback_stream_def session_plan_facts)
  show ?thesis
  proof (cases res)
    case (Inl e)
    then have "r = Inl e" "st' = st" using c q res by (simp_all add: replan_with_feedback_stream_def session_plan_facts)
    then show ?thesis by simp
  next
    case (Inr new)
    then have r: "r = Inr (merge_steps def i new)"
        and st': "st' = st\<lparr>ps_results := filter (\<lambda>(j, r). j \<notin> affected_steps def i) (ps_results st)\<rparr>"
      using c q res by (simp_all add: replan_with_feedback_stream_def session_plan_facts)
    obtain m where m: "ph_model h = Some m" "llm_replan (px_unsteps px) m ?inp True w0 = (Returns (Inr new), o1, w1)"
      using q res Inr by (cases "ph_model h") (simp_all add: llm_planner_def Let_def)
    have "well_formed_plan \<lparr>pd_goal = ri_goal ?inp, pd_steps = new\<rparr> (template_names h)"
      using llm_replan_ok [OF m(2)] by (simp add: feedback_input_def session_plan_facts)
    moreover have "set (step_ids new) \<inter> set (ri_surviving_ids ?inp) = {}" using w m unfolding plan_world_ok_def by blast
    then have "set (step_ids new) \<inter> set (step_ids (surviving_steps def i)) = {}" by (simp add: feedback_input_def)
    ultimately have "well_formed_plan (merge_steps def i new) (template_names h)" by (rule merge_well_formed [OF wf])
    then show ?thesis by (simp add: r st' settled_state_def filter_results)
  qed
qed

lemma replan_good:
  assumes g: "server_good px h mem bridge n ps" and w: "plan_world_ok px h mem bridge"
    and j: "rj_entry j < n" "well_formed_plan (rj_def j) (template_names h)"
    and c: "finish_replan px j ps = Returns (a, qs)"
  shows "server_good px h mem bridge n qs \<and> keeps_done ({rj_run j} \<times> affected_steps (rj_def j) (rj_failed j)) ps qs"
proof -
  let ?x = "rj_run j" and ?A = "{rj_run j} \<times> affected_steps (rj_def j) (rj_failed j)"
  let ?ex = "pv_runs ps ! ?x"
  obtain b where p: "pe_plan (plan_entry_at ps (rj_entry j)) = session_plan px h mem (bridge b)"
    using good_entry_at [OF g j(1)] by (auto simp: entry_good_def)
  obtain q out st w1 where q: "replan_with_feedback_stream (session_plan px h mem (bridge b)) (rj_def j) (ec_state ?ex) (rj_failed j) (rj_feedback j) True (pv_world ps)
      = (q, out, st, w1)" by (metis prod.exhaust)
  obtain r where r: "q = Returns r" using c p q by (cases q) (simp_all add: finish_replan_def Let_def)
  let ?ps = "set_run ?x (?ex\<lparr>ec_state := st\<rparr>) (ps\<lparr>pv_world := w1\<rparr>)"
  obtain ps1 where a1: "announce (rj_sid j) (map thinking out) ?ps = Returns ps1"
    using c p q r by (auto simp: finish_replan_def Let_def split: go_ret.splits)
  note f = replan_call_good [OF w j(2) q [unfolded r]]
  have ps: "server_good px h mem bridge n ?ps \<and> keeps_done ?A ps ?ps"
  proof (cases "?x < length (pv_runs ps)")
    case True
    have rg: "run_good n h ?ex" by (rule good_run_at [OF g True])
    have "server_good px h mem bridge n ?ps" by (rule good_set_run) (use g f rg in \<open>simp_all add: good_world run_good_def\<close>)
    moreover have "keeps_done ?A ps ?ps"
      by (rule keeps_set [OF True, where ex = "?ex\<lparr>ec_state := st\<rparr>"]) (use f in \<open>simp_all add: set_run_def\<close>)
    ultimately show ?thesis ..
  next
    case False
    then have "?ps = ps\<lparr>pv_world := w1\<rparr>" by (simp add: set_run_def list_update_beyond)
    then show ?thesis using g by (simp add: good_world keeps_same)
  qed
  have k: "keeps_done ?A ps us" if "pv_runs us = pv_runs ?ps" for us
    using ps that by (simp add: keeps_done_def)
  have g1: "server_good px h mem bridge n ps1" "pv_runs ps1 = pv_runs ?ps"
    using ps good_announced [OF a1] good_announce [OF a1] by (simp_all add: same_runs_def)
  show ?thesis
  proof (cases r)
    case (Inl e)
    then obtain es where "announce (rj_sid j) es ps1 = Returns qs"
      using c p q r a1 by (auto simp: finish_replan_def Let_def simp del: announce.simps split: go_ret.splits)
    then show ?thesis using g1 k good_announced good_announce by (metis same_runs_def)
  next
    case (Inr d)
    let ?on = "on_entry (rj_entry j) (\<lambda>e. e\<lparr>pe_def := Some d\<rparr>) ps1"
    obtain es ps2 rep where a2: "announce (rj_sid j) es ?on = Returns ps2" "send_action (rj_chan j) (UseDef d) rep ps2 = (a, qs)"
      using Inr c p q r a1 by (auto simp: finish_replan_def Let_def simp del: announce.simps split: go_ret.splits)
    have wd: "well_formed_plan d (template_names h)" using f Inr by blast
    have "server_good px h mem bridge n ?on" by (rule good_on_entry [OF g1(1)]) (simp add: entry_good_def_set wd)
    then have "server_good px h mem bridge n ps2" using good_announced [OF a2(1)] by simp
    from good_send [OF this _ a2(2)] wd have "server_good px h mem bridge n qs" "pv_runs qs = pv_runs ps2" by simp_all
    moreover have "pv_runs ps2 = pv_runs ps1" using good_announce [OF a2(1)] by (simp add: same_runs_def on_entry_def)
    ultimately show ?thesis using k g1(2) by simp
  qed
qed

text \<open>Approvals and calls of the registry touch no execution.\<close>

lemma approve_good:
  assumes g: "server_good px h mem bridge n ps"
    and c: "plan_approve (plan_hooks px h mem bridge base) clk sid ans ps = (r, qs)"
  shows "kept_good px h mem bridge n qs \<and> pv_runs qs = pv_runs ps"
proof (cases ans)
  case None
  then show ?thesis using c g by (auto simp: plan_approve_def approve_request_def intro: kept_goodI)
next
  case (Some pr)
  obtain ok fb where pr: "pr = (ok, fb)" by fastforce
  let ?env = "plan_hooks px h mem bridge base"
  obtain k sv1 where oe: "open_entry ?env clk sid (pv_server ps) = (k, sv1)" by fastforce
  let ?ps1 = "ps\<lparr>pv_server := sv1\<rparr>" and ?sv = "at_entry k (re_pending_update (\<lambda>_. None)) sv1"
  have o: "open_plan ?env clk sid ps = (k, ?ps1)" by (simp add: open_plan_def oe)
  obtain m where m: "n \<le> m" "server_good px h mem bridge m ?ps1" using good_open [OF g o] by blast
  have g2: "server_good px h mem bridge m (on_entry k (re_pending_update (\<lambda>_. None)) ?ps1)"
    by (rule good_on_entry [OF m(2)]) (simp add: entry_good_def)
  have "\<exists>chs. qs = ps\<lparr>pv_server := ?sv\<lparr>sv_channels := chs\<rparr>\<rparr>"
  proof (cases "re_pending (entry_at sv1 k)")
    case None
    then have "qs = ps\<lparr>pv_server := ?sv\<rparr>" using c oe Some pr by (simp add: plan_approve_def approve_request_def Let_def)
    then show ?thesis by (intro exI [of _ "sv_channels ?sv"]) simp
  qed (use c oe Some pr in \<open>auto simp: plan_approve_def approve_request_def Let_def\<close>)
  then show ?thesis using g2 kept_goodI [OF m(1), of px h mem bridge qs] by (auto simp: server_good_def on_entry_def)
qed

lemma submit_good:
  assumes g: "server_good px h mem bridge n ps" and c: "plan_submit k call ps = Returns (ch, qs)"
  shows "server_good px h mem bridge n qs \<and> pv_runs qs = pv_runs ps"
proof -
  obtain sv where s: "submit_call k call (pv_server ps) = Returns (ch, sv)" "qs = ps\<lparr>pv_server := sv\<rparr>"
    using c by (auto simp: plan_submit_def split: go_ret.splits)
  let ?ps = "on_entry k (re_pending_update (\<lambda>_. Some (length (sv_channels (pv_server ps)))))
    (ps\<lparr>pv_server := (pv_server ps)\<lparr>sv_channels := sv_channels (pv_server ps) @ [[]]\<rparr>\<rparr>)"
  have "server_good px h mem bridge n (ps\<lparr>pv_server := (pv_server ps)\<lparr>sv_channels := sv_channels (pv_server ps) @ [[]]\<rparr>\<rparr>)"
    using g by (simp add: server_good_def)
  then have g1: "server_good px h mem bridge n ?ps" by (rule good_on_entry) (simp add: entry_good_def)
  obtain sid e where "publish_event sid e (pv_server ?ps) = Returns sv"
    using s(1) by (auto simp: submit_call_def Let_def on_entry_def split: go_ret.splits)
  then have "announce sid [e] ?ps = Returns (?ps\<lparr>pv_server := sv\<rparr>)" by simp
  from good_announced [OF this, of px h mem bridge n] g1 have "server_good px h mem bridge n (?ps\<lparr>pv_server := sv\<rparr>)" by simp
  then show ?thesis by (simp add: s(2) server_good_def on_entry_def)
qed

lemma registry_good:
  assumes g: "server_good px h mem bridge n ps"
  shows "server_good px h mem bridge n (ps\<lparr>pv_server := (pv_server ps)
    \<lparr>sv_manager := do_manager_call (plan_hooks px h mem bridge base) c (plan_registry ps)\<rparr>\<rparr>)"
proof -
  have "reg_ok n (entry_good px h mem bridge) (plan_registry ps)" using g by (simp add: server_good_def)
  then have "reg_ok n (entry_good px h mem bridge) (do_manager_call (plan_hooks px h mem bridge base) c (plan_registry ps))"
    by (rule reg_call) (simp_all add: hooks_sel entry_good_new entry_good_write)
  then show ?thesis using g by (simp add: server_good_def)
qed

text \<open>The exceptions of a step: what a replan under way throws away.\<close>

definition thrown :: "('w, 's, 'm) plan_system \<Rightarrow> (nat \<times> string) set" where
  "thrown s = (\<Union>j\<in>set (sy_replans s). {rj_run j} \<times> affected_steps (rj_def j) (rj_failed j))"

lemma keeps_more: "keeps_done A ps qs \<Longrightarrow> A \<subseteq> B \<Longrightarrow> keeps_done B ps qs"
  by (auto simp: keeps_done_def)

lemma set_take_out: "set (take_out i xs) \<subseteq> set xs"
  by (auto simp: take_out_def dest: in_set_takeD in_set_dropD)

lemma list_all_take_out: "list_all P xs \<Longrightarrow> list_all P (take_out i xs)"
  using set_take_out [of i xs] by (auto simp: list_all_iff)

lemma plan_step_good:
  assumes w: "plan_world_ok px h mem bridge" and good: "system_good px h mem bridge s"
    and step: "plan_step px h (plan_hooks px h mem bridge base) s t"
  shows "system_good px h mem bridge t \<and> keeps_done (thrown s) (sy_ps s) (sy_ps t)"
proof -
  obtain n where n: "server_good px h mem bridge n (sy_ps s)"
      "list_all (\<lambda>(sid, k, d). k < n \<and> well_formed_plan d (template_names h)) (sy_starts s)"
      "list_all (\<lambda>j. rj_entry j < n \<and> well_formed_plan (rj_def j) (template_names h)) (sy_replans s)"
    using good by (auto simp: system_good_def)
  have plain: ?thesis if "t = s\<lparr>sy_ps := ps\<rparr>" and k: "kept_good px h mem bridge n ps" and "pv_runs ps = pv_runs (sy_ps s)" for ps
  proof -
    obtain m where m: "n \<le> m" "server_good px h mem bridge m ps" using k by (auto simp: kept_good_def)
    have "list_all (\<lambda>(sid, k, d). k < m \<and> well_formed_plan d (template_names h)) (sy_starts s)"
        "list_all (\<lambda>j. rj_entry j < m \<and> well_formed_plan (rj_def j) (template_names h)) (sy_replans s)"
      using n(2,3) m(1) by (auto simp: list_all_iff intro: less_le_trans)
    then show ?thesis using m(2) that by (auto simp: system_good_def keeps_same)
  qed
  have exec: ?thesis if "t = s\<lparr>sy_ps := ps\<rparr>" "server_good px h mem bridge n ps" "keeps_done {} (sy_ps s) ps" for ps
    using that n(2,3) keeps_more [of "{}" "sy_ps s" ps "thrown s"] by (auto simp: system_good_def)
  have self: "kept_good px h mem bridge n ps" if "server_good px h mem bridge n ps" for ps
    using that by (auto simp: kept_good_def)
  show ?thesis using step
  proof cases
    case (step_registry c)
    show ?thesis by (rule plain [OF step_registry]) (simp_all add: self registry_good n(1))
  next
    case (step_generate clk sid body fl r ps)
    from generate_good [OF n(1) step_generate(2)] show ?thesis by (intro plain [OF step_generate(1)]) (simp_all add: same_runs_def)
  next
    case (step_get clk sid r ps)
    from get_good [OF n(1) step_get(2)] show ?thesis by (intro plain [OF step_get(1)]) (simp_all add: same_runs_def)
  next
    case (step_update clk sid d r ps)
    from update_good [OF n(1) step_update(2)] show ?thesis by (intro plain [OF step_update(1)]) (simp_all add: same_runs_def)
  next
    case (step_refuse clk sid r ps)
    from check_good [OF n(1) step_refuse(2)] show ?thesis by (intro plain [OF step_refuse(1)]) (auto simp: same_runs_def kept_good_def)
  next
    case (step_check clk sid job ps)
    obtain k d where job: "job = (k, d)" by fastforce
    obtain m where m: "n \<le> m" "server_good px h mem bridge m ps" "same_runs (sy_ps s) ps" "k < m" "well_formed_plan d (template_names h)"
      using check_good [OF n(1) step_check(2)] job by blast
    have "list_all (\<lambda>(sid, k, d). k < m \<and> well_formed_plan d (template_names h)) (sy_starts s)"
        "list_all (\<lambda>j. rj_entry j < m \<and> well_formed_plan (rj_def j) (template_names h)) (sy_replans s)"
      using n(2,3) m(1) by (auto simp: list_all_iff intro: less_le_trans)
    then show ?thesis using m step_check(1) job by (auto simp: system_good_def same_runs_def keeps_same)
  next
    case (step_start i sid job r ps)
    obtain k d where job: "job = (k, d)" by fastforce
    have kd: "k < n" "well_formed_plan d (template_names h)"
      using n(2) step_start(2,3) nth_mem [OF step_start(2)] by (auto simp: list_all_iff job)
    have "server_good px h mem bridge n ps" using start_good [OF n(1) kd] step_start(4) job by simp
    moreover have "keeps_done A (sy_ps s) ps" for A
      using step_start(4) by (auto simp: start_execute_def job keeps_done_def nth_append)
    ultimately show ?thesis using step_start(1) n(3) list_all_take_out [OF n(2), of i] unfolding system_good_def
      by (intro conjI exI [of _ n]) simp_all
  next
    case (step_round x ps)
    from round_good [OF n(1) step_round(2) w step_round(4)] show ?thesis
      by (intro exec [OF step_round(1)]) (auto simp: keeps_done_def)
  next
    case (step_wait x)
    from wait_good [OF n(1) step_wait(2)] show ?thesis by (intro exec [OF step_wait(1)]) auto
  next
    case (step_resume x c prefers ps)
    from resume_step_good [OF n(1) step_resume(2,3,4)] show ?thesis by (intro exec [OF step_resume(1)]) auto
  next
    case (step_cancel clk sid r ps)
    from cancel_good [OF n(1) step_cancel(2)] show ?thesis by (intro plain [OF step_cancel(1)]) auto
  next
    case (step_follow sid fl q ps)
    from follow_good [OF n(1) step_follow(2)] show ?thesis by (intro plain [OF step_follow(1)]) (auto intro: self)
  next
    case (step_retry clk sid i a ps)
    from retry_good [OF n(1) step_retry(2)] show ?thesis by (intro plain [OF step_retry(1)]) auto
  next
    case (step_no_replan clk sid fb r ps)
    from begin_replan_good [OF n(1) step_no_replan(2)] show ?thesis by (intro plain [OF step_no_replan(1)]) (auto simp: kept_good_def)
  next
    case (step_begin_replan clk sid fb j ps)
    obtain m where m: "n \<le> m" "server_good px h mem bridge m ps" "pv_runs ps = pv_runs (sy_ps s)"
        "rj_entry j < m" "well_formed_plan (rj_def j) (template_names h)"
      using begin_replan_good [OF n(1) step_begin_replan(2)] by blast
    have "list_all (\<lambda>(sid, k, d). k < m \<and> well_formed_plan d (template_names h)) (sy_starts s)"
        "list_all (\<lambda>j. rj_entry j < m \<and> well_formed_plan (rj_def j) (template_names h)) (sy_replans s)"
      using n(2,3) m(1) by (auto simp: list_all_iff intro: less_le_trans)
    then show ?thesis using m step_begin_replan(1) by (auto simp: system_good_def keeps_same)
  next
    case (step_replan i a ps)
    let ?j = "sy_replans s ! i"
    have j: "rj_entry ?j < n" "well_formed_plan (rj_def ?j) (template_names h)"
      using n(3) nth_mem [OF step_replan(2)] by (auto simp: list_all_iff)
    note r = replan_good [OF n(1) w j step_replan(3)]
    moreover have "{rj_run ?j} \<times> affected_steps (rj_def ?j) (rj_failed ?j) \<subseteq> thrown s"
      using nth_mem [OF step_replan(2)] by (auto simp: thrown_def)
    ultimately show ?thesis using step_replan(1) n(2) list_all_take_out [OF n(3), of i] unfolding system_good_def
      by (intro conjI exI [of _ n]) (auto intro: keeps_more)
  next
    case (step_approve clk sid ans r ps)
    from approve_good [OF n(1) step_approve(2)] show ?thesis by (intro plain [OF step_approve(1)]) auto
  next
    case (step_submit k call c ps)
    from submit_good [OF n(1) step_submit(3)] show ?thesis by (intro plain [OF step_submit(1)]) (auto intro: self)
  qed
qed

lemma start_good_system: "system_good px h mem bridge (start_system st m w)"
  by (auto simp: system_good_def start_system_def new_plan_server_def server_good_def reg_ok_def new_manager_def)

lemma reachable_good:
  assumes "plan_world_ok px h mem bridge" "plan_reachable px h (plan_hooks px h mem bridge base) s"
  shows "system_good px h mem bridge s"
  using assms(2) by (induction rule: plan_reachable.induct) (simp_all add: start_good_system plan_step_good [OF assms(1)])

section \<open>Properties\<close>

text \<open>
  C38: a step that is done keeps its result through every further step of the handler, so no retry,
  pause or resumption runs it again; only a replan under way for this execution takes results away,
  those of the failed step and of the steps that depend on it.
\<close>

theorem done_steps_stay_done:
  assumes "plan_world_ok px h mem bridge" "plan_reachable px h (plan_hooks px h mem bridge base) s"
    and "plan_step px h (plan_hooks px h mem bridge base) s t"
    and "x < length (pv_runs (sy_ps s))" "done_in (ec_state (pv_runs (sy_ps s) ! x)) i"
    and "\<forall>j\<in>set (sy_replans s). rj_run j = x \<longrightarrow> i \<notin> affected_steps (rj_def j) (rj_failed j)"
  shows "gm_get pending_result (ps_results (ec_state (pv_runs (sy_ps t) ! x))) i =
    gm_get pending_result (ps_results (ec_state (pv_runs (sy_ps s) ! x))) i"
proof -
  have "keeps_done (thrown s) (sy_ps s) (sy_ps t)"
    using plan_step_good [OF assms(1) reachable_good [OF assms(1,2)] assms(3)] by blast
  moreover have "(x, i) \<notin> thrown s" using assms(6) by (auto simp: thrown_def)
  ultimately show ?thesis using assms(4,5) by (simp add: keeps_done_def)
qed

definition demo_handler :: "unit plan_handler" where
  "demo_handler = \<lparr>ph_agents = [\<lparr>pt_name = ''w'', pt_description = [], pt_runner = OtherRunner ok_agent\<rparr>], ph_model = None\<rparr>"

definition demo_outside :: "unit plan_outside" where
  "demo_outside = \<lparr>px_agents = unit_runtime, px_sub = no_sub_runner, px_unplan = (\<lambda>s. Inl (ErrText s)),
     px_unsteps = (\<lambda>s. Inl (ErrText s)), px_exec = (\<lambda>_. ok_runtime), px_cancel = (\<lambda>_ w. w), px_enc = pd_goal\<rparr>"

definition demo_bridge :: "string \<Rightarrow> unit approver" where
  "demo_bridge sid c d ses w = ((True, []), w)"

definition demo_base :: "(unit plan_entry, unit, unit) manager_env" where
  "demo_base = \<lparr>sh_kind = [], sh_new = new_plan_entry demo_outside demo_handler None demo_bridge, sh_info = re_info,
     sh_write = write_entry_info, sh_active = is_active, sh_window = (\<lambda>_. None), sh_on_delete = (\<lambda>_ m. m),
     st_save = (\<lambda>_ s. (None, s)), st_get = (\<lambda>_ _. Inr None), st_list = (\<lambda>_ _. Inr []), st_delete = (\<lambda>_ s. (None, s)),
     me_count = (\<lambda>_ _. Inr 0), me_recent = (\<lambda>_ _ _ _. Inr []), me_delete = (\<lambda>_ m. (None, m))\<rparr>"

abbreviation demo_hooks :: "(unit plan_entry, unit, unit) manager_env" where
  "demo_hooks \<equiv> plan_hooks demo_outside demo_handler None demo_bridge demo_base"

lemma demo_world: "plan_world_ok demo_outside demo_handler None demo_bridge"
  by (simp add: plan_world_ok_def demo_handler_def ctx_sticky_def fair_env_def plan_env_def demo_outside_def ok_runtime_def)

text \<open>A plan that was edited, checked for execution and started.\<close>

definition demo_edited :: "(unit, unit, unit) plan_server" where
  "demo_edited = snd (handle_update_plan demo_handler demo_hooks (\<lambda>_. 1) ''s'' (Some chain_plan) (new_plan_server None None ()))"

definition demo_checked :: "(unit, unit, unit) plan_server" where
  "demo_checked = snd (check_execute demo_hooks (\<lambda>_. 2) ''s'' demo_edited)"

definition demo_started :: "(unit, unit, unit) plan_server" where
  "demo_started = snd (start_execute ''s'' (0, chain_plan) demo_checked)"

lemma demo_reachable:
  "plan_reachable demo_outside demo_handler demo_hooks \<lparr>sy_ps = demo_started, sy_starts = [], sy_replans = []\<rparr>"
proof -
  let ?s = "\<lambda>ps st. \<lparr>sy_ps = ps, sy_starts = st, sy_replans = []\<rparr>"
  have 0: "plan_reachable demo_outside demo_handler demo_hooks (?s (new_plan_server None None ()) [])"
    using reach_start [of demo_outside demo_handler demo_hooks None None "()"] by (simp add: start_system_def)
  have u: "handle_update_plan demo_handler demo_hooks (\<lambda>_. 1) ''s'' (Some chain_plan) (new_plan_server None None ()) =
      (fst (handle_update_plan demo_handler demo_hooks (\<lambda>_. 1) ''s'' (Some chain_plan) (new_plan_server None None ())), demo_edited)"
    by (simp add: demo_edited_def)
  have 1: "plan_reachable demo_outside demo_handler demo_hooks (?s demo_edited [])"
    using reach_step [OF 0 plan_step.step_update, of "\<lambda>_. 1" "''s''" "Some chain_plan"] u by simp
  have "fst (check_execute demo_hooks (\<lambda>_. 2) ''s'' demo_edited) = Inr (0, chain_plan)" by code_simp
  then have c: "check_execute demo_hooks (\<lambda>_. 2) ''s'' demo_edited = (Inr (0, chain_plan), demo_checked)"
    unfolding demo_checked_def by (metis prod.collapse)
  have 2: "plan_reachable demo_outside demo_handler demo_hooks (?s demo_checked [(''s'', 0, chain_plan)])"
    using reach_step [OF 1 plan_step.step_check, of "\<lambda>_. 2" "''s''" "(0, chain_plan)" demo_checked] c by simp
  show ?thesis
    using reach_step [OF 2 plan_step.step_start, of 0 "''s''" "(0, chain_plan)" "fst (start_execute ''s'' (0, chain_plan) demo_checked)" demo_started]
    by (simp add: demo_started_def take_out_def)
qed

definition demo_finished :: "(unit, unit, unit) plan_server" where
  "demo_finished = (case run_round demo_outside 0 demo_started of Returns ps \<Rightarrow> ps | Panics p \<Rightarrow> demo_started)"

lemma demo_round:
  "run_round demo_outside 0 demo_started = Returns demo_finished" "length (pv_runs demo_started) = 1"
  "ps_status (ec_state (pv_runs demo_finished ! 0)) = PlanDone" "ec_def (pv_runs demo_finished ! 0) = chain_plan"
  "length (pv_runs demo_finished) = 1"
proof -
  have "case run_round demo_outside 0 demo_started of Panics p \<Rightarrow> False
      | Returns ps \<Rightarrow> ps_status (ec_state (pv_runs ps ! 0)) = PlanDone \<and> ec_def (pv_runs ps ! 0) = chain_plan \<and> length (pv_runs ps) = 1"
    by code_simp
  then show "run_round demo_outside 0 demo_started = Returns demo_finished"
    "ps_status (ec_state (pv_runs demo_finished ! 0)) = PlanDone" "ec_def (pv_runs demo_finished ! 0) = chain_plan"
    "length (pv_runs demo_finished) = 1"
    by (simp_all add: demo_finished_def split: go_ret.splits)
  show "length (pv_runs demo_started) = 1" by code_simp
qed

theorem done_steps_stay_done_witness:
  "gm_get pending_result (ps_results (ec_state (pv_runs (snd (handle_get_plan demo_hooks (\<lambda>_. 5) ''s'' demo_finished)) ! 0))) ''a'' =
   gm_get pending_result (ps_results (ec_state (pv_runs demo_finished ! 0))) ''a''"
proof -
  let ?s = "\<lparr>sy_ps = demo_finished, sy_starts = [], sy_replans = []\<rparr> :: (unit, unit, unit) plan_system"
  have g: "ec_phase (pv_runs demo_started ! 0) = Going" by code_simp
  let ?began = "\<lparr>sy_ps = demo_started, sy_starts = [], sy_replans = []\<rparr> :: (unit, unit, unit) plan_system"
  have "plan_step demo_outside demo_handler demo_hooks ?began (?began\<lparr>sy_ps := demo_finished\<rparr>)"
    by (rule plan_step.step_round [where x = 0]) (simp_all add: demo_round g)
  from reach_step [OF demo_reachable this] have r: "plan_reachable demo_outside demo_handler demo_hooks ?s" by simp
  have t: "plan_step demo_outside demo_handler demo_hooks ?s (?s\<lparr>sy_ps := snd (handle_get_plan demo_hooks (\<lambda>_. 5) ''s'' demo_finished)\<rparr>)"
    by (rule plan_step.step_get [where clk = "\<lambda>_. 5" and sid = "''s''" and r = "fst (handle_get_plan demo_hooks (\<lambda>_. 5) ''s'' demo_finished)"]) simp
  have "done_in (ec_state (pv_runs demo_finished ! 0)) ''a''" by code_simp
  then show ?thesis using done_steps_stay_done [OF demo_world r t, of 0 "''a''"] demo_round(5) by simp
qed

text \<open>
  C39: a reader that keeps up with a round of an execution, all events of which pass through the bus,
  gets a response that ends with a final event, unless the round has paused: then the last event
  that was sent says so.
\<close>

theorem round_ends_responses:
  assumes run: "execute_with_state p rt sid def st w = (Returns evs, y)"
    and sent: "until_pause (map (plan_event_to_sse enc) evs) = (sent, paused)"
    and bus: "bus_ok b" "subscribe False sid b = (k, b1)"
    and wr: "\<And>e. wr e = Inr (render e)"
  shows "(\<exists>b2. pump sid k sent b1 = Returns (sent, b2)) \<and>
    (paused \<longrightarrow> se_type (last sent) = ''plan_waiting_retry'') \<and>
    (\<not> paused \<longrightarrow> events_response wr (\<lambda>_. None) False sent = (True, map (\<lambda>e. frame (render e)) (upto_close plan_closes sent)))"
proof -
  obtain r x where r: "exec_plan (plan_env p rt sid True) def \<lparr>xs_plan = st, xs_events = [], xs_world = w\<rparr> = (r, x)" by fastforce
  then have o: "stream_outcome (xs_events x) r = Returns evs" using run by (auto simp: execute_with_state_def)
  have e: "evs \<noteq> []" "closing (last evs)"
    using stream_outcome_closed [OF r, of "[]"] o by (simp_all add: ends_closed_def)
  have t: "se_type (plan_event_to_sse enc e) = ''plan_waiting_retry'' \<or> plan_closes (plan_event_to_sse enc e)" if "closing e" for e
    using that by (cases e) (simp_all add: plan_closes_def sse_def)
  have p: "es \<noteq> [] \<Longrightarrow> closing (last es) \<Longrightarrow> until_pause (map (plan_event_to_sse enc) es) = (out, q) \<Longrightarrow>
      out \<noteq> [] \<and> (q \<longrightarrow> se_type (last out) = ''plan_waiting_retry'') \<and> (\<not> q \<longrightarrow> (\<exists>e\<in>set out. plan_closes e))" for es out q
  proof (induction es arbitrary: out q)
    case (Cons e es)
    show ?case
    proof (cases es)
      case Nil
      then show ?thesis using Cons.prems t [of e] by (auto simp: plan_closes_def split: if_splits)
    next
      case (Cons e' es')
      obtain o2 q2 where u: "until_pause (map (plan_event_to_sse enc) es) = (o2, q2)" by fastforce
      have "closing (last es)" using Cons.prems(2) Cons by simp
      with Cons.IH [OF _ this u] Cons
      have i: "o2 \<noteq> [] \<and> (q2 \<longrightarrow> se_type (last o2) = ''plan_waiting_retry'') \<and> (\<not> q2 \<longrightarrow> (\<exists>e\<in>set o2. plan_closes e))" by simp
      show ?thesis using Cons.prems(3) u i by (auto split: if_splits)
    qed
  qed simp
  note q = p [OF e sent]
  show ?thesis
    using q pump_delivers [OF subscribe_listens [OF bus], of sent] relay_total [of wr render plan_closes sent "[]", OF wr]
    by (auto simp: events_response_def)
qed

theorem round_ends_responses_witness:
  "fst (events_response (\<lambda>e. Inr (se_type e)) (\<lambda>_. None) False
     (fst (until_pause (map (plan_event_to_sse pd_goal)
       (case fst (execute_with_state (session_plan demo_outside demo_handler None (demo_bridge [])) ok_runtime ''s'' chain_plan (first_state ''s'' chain_plan) ()) of
          Returns evs \<Rightarrow> evs | Panics p \<Rightarrow> [])))))"
proof -
  let ?x = "execute_with_state (session_plan demo_outside demo_handler None (demo_bridge [])) ok_runtime ''s'' chain_plan (first_state ''s'' chain_plan) ()"
  have "case fst ?x of Panics p \<Rightarrow> False | Returns evs \<Rightarrow> \<not> snd (until_pause (map (plan_event_to_sse pd_goal) evs))" by code_simp
  moreover obtain out y where xy: "?x = (out, y)" by fastforce
  ultimately obtain evs where o: "out = Returns evs" "\<not> snd (until_pause (map (plan_event_to_sse pd_goal) evs))"
    by (cases out) simp_all
  then have x: "?x = (Returns evs, y)" "\<not> snd (until_pause (map (plan_event_to_sse pd_goal) evs))" using xy by simp_all
  obtain sent paused where u: "until_pause (map (plan_event_to_sse pd_goal) evs) = (sent, paused)" by fastforce
  obtain k b1 where s: "subscribe False ''s'' (new_bus 1000 :: sse_event bus) = (k, b1)" by force
  show ?thesis using round_ends_responses [OF x(1) u bus_ok_new s refl] x u by simp
qed

section \<open>Limits\<close>

text \<open>
  Two requests that are both between the check and the start of an execution both start one: the
  session runs the plan twice and knows, and cancels, the second only.
\<close>

lemma plan_starts_twice:
  "case check_execute demo_hooks (\<lambda>_. 2) ''s'' demo_checked of
     (Inl r, ps) \<Rightarrow> False
   | (Inr job, ps) \<Rightarrow>
       (let qs = snd (start_execute ''s'' job (snd (start_execute ''s'' (0, chain_plan) ps)))
        in map ec_phase (pv_runs qs) = [Going, Going] \<and> map ec_entry (pv_runs qs) = [0, 0] \<and> pe_cancel (plan_entry_at qs 0) = Some 1)"
  by code_simp

text \<open>
  While the next batch runs after a gate, the gate still counts as paused: a second retry is
  answered though its action is lost, since the next pause opens a new channel, and a third request
  waits for room in the old channel, which nothing reads any more.
\<close>

definition gate_plan :: plan_def where
  "gate_plan = \<lparr>pd_goal = ''g'', pd_steps =
     [empty_step\<lparr>sd_id := ''a'', sd_agent := ''w'', sd_gate := True\<rparr>,
      empty_step\<lparr>sd_id := ''b'', sd_agent := ''w'', sd_depends_on := [''a''], sd_gate := True\<rparr>]\<rparr>"

definition gate_paused :: "(unit, unit, unit) plan_server" where
  "gate_paused =
     (let ps = snd (handle_update_plan demo_handler demo_hooks (\<lambda>_. 1) ''s'' (Some gate_plan) (new_plan_server None None ()));
          qs = snd (start_execute ''s'' (0, gate_plan) (snd (check_execute demo_hooks (\<lambda>_. 2) ''s'' ps)))
      in case run_round demo_outside 0 qs of Panics p \<Rightarrow> qs | Returns rs \<Rightarrow> enter_wait 0 rs)"

lemma gate_retry_lost:
  "let retry = (\<lambda>ps. handle_step_retry demo_hooks (\<lambda>_. 3) ''s'' ''a'' ps) in
   case resume_run demo_outside False 0 (snd (retry gate_paused)) of
     Panics p \<Rightarrow> False
   | Returns ps \<Rightarrow> map ec_phase (pv_runs ps) = [Going] \<and> fst (retry ps) = Some (Reply 200 (BodyStatus ''retrying'')) \<and>
       fst (retry (snd (retry ps))) = None \<and>
       (case run_round demo_outside 0 (snd (retry ps)) of
          Panics p \<Rightarrow> False
        | Returns qs \<Rightarrow> next_action (Some 0) qs = Some (RetryStep ''a'') \<and> pe_retry (plan_entry_at qs 0) = Some 1)"
  by code_simp

end
