(* ===== verification/AcpProtocol.thy ===== *)
theory AcpProtocol
  imports Tools
begin

text \<open>
  \<^verbatim>\<open>acp/types.go\<close>, \<^verbatim>\<open>acp/server.go\<close> and \<^verbatim>\<open>acp/client.go\<close>: the two ends of the Agent Client
  Protocol. The server turns the calls of the protocol package into calls of an \<open>agent_handler\<close>,
  the client turns its operations into calls of a connection and the notifications it gets into
  calls of an event handler. The package \<^verbatim>\<open>acp-go-sdk\<close> is foreign: its message types are the
  records \<open>sdk_...\<close> with the fields that this code sets or reads, its constructors of updates and
  its connection are arguments. A value of type \<^verbatim>\<open>any\<close> is nil or the text that \<^verbatim>\<open>%v\<close> prints.
\<close>

section \<open>Types (types.go)\<close>

type_synonym any_value = "string option"

record prompt_request =
  pq_session :: string
  pq_blocks :: "string list"

record mcp_server =
  ms_name :: string
  ms_url :: string
  ms_command :: string
  ms_args :: "string list"

record new_session_request =
  nq_cwd :: string
  nq_servers :: "mcp_server list"
  nq_dirs :: "string list"

record load_session_request =
  lq_session :: string
  lq_cwd :: string
  lq_servers :: "mcp_server list"
  lq_dirs :: "string list"

record config_opt_value =
  cv_value :: string
  cv_label :: string

record config_option =
  co_type :: string
  co_name :: string
  co_label :: string
  co_current :: string
  co_options :: "config_opt_value list"

record session_mode =
  md_id :: string
  md_name :: string
  md_description :: string

record mode_state =
  mo_modes :: "session_mode list"
  mo_current :: string

record new_session_response =
  nr_session :: string
  nr_options :: "config_option list"
  nr_modes :: "mode_state option"

record list_sessions_request =
  sq_cursor :: "string option"
  sq_cwd :: "string option"

record acp_session_info =
  ai_session :: string
  ai_cwd :: string
  ai_title :: string
  ai_updated :: string
  ai_dirs :: "string list"

record list_sessions_response =
  sr_next :: "string option"
  sr_sessions :: "acp_session_info list"

record mcp_capabilities =
  mc_acp :: bool
  mc_http :: bool
  mc_sse :: bool

record prompt_capabilities =
  pc_image :: bool
  pc_audio :: bool
  pc_context :: bool

record session_capabilities =
  sc_list :: bool
  sc_delete :: bool
  sc_resume :: bool
  sc_close :: bool

record agent_capabilities =
  ac_load :: bool
  ac_mcp :: mcp_capabilities
  ac_prompt :: prompt_capabilities
  ac_session :: session_capabilities

record init_request =
  iq_version :: int
  iq_name :: string
  iq_client_version :: string
  iq_terminal :: bool

record init_response =
  ir_version :: int
  ir_name :: string
  ir_agent_version :: string
  ir_caps :: agent_capabilities

record tool_call_event =
  te_id :: string
  te_title :: string
  te_input :: any_value
  te_status :: string
  te_output :: any_value

section \<open>Messages of the protocol package\<close>

record sdk_stdio =
  so_name :: string
  so_command :: string
  so_args :: "string list"

record sdk_mcp_server =
  sm_http :: "string option"
  sm_sse :: "string option"
  sm_stdio :: "sdk_stdio option"

record sdk_init_request =
  xq_version :: int
  xq_client :: "(string \<times> string) option"
  xq_terminal :: bool

text \<open>A capability of a session is a pointer to an empty struct: present or nil.\<close>

record sdk_session_caps =
  xs_list :: "unit option"
  xs_delete :: "unit option"
  xs_resume :: "unit option"
  xs_close :: "unit option"

record sdk_init_response =
  xr_version :: int
  xr_load :: bool
  xr_mcp :: mcp_capabilities
  xr_prompt :: prompt_capabilities
  xr_session :: sdk_session_caps
  xr_agent :: "(string \<times> string) option"

record sdk_new_session_request =
  xn_cwd :: string
  xn_servers :: "sdk_mcp_server list"
  xn_dirs :: "string list"

record ('cfg, 'mode) sdk_new_session_response =
  xn_session :: string
  xn_options :: "'cfg list"
  xn_modes :: "'mode option"

text \<open>A content block of a prompt; \<open>None\<close> is one of another kind than text.\<close>

type_synonym sdk_block = "string option"

record sdk_prompt_request =
  xp_session :: string
  xp_prompt :: "sdk_block list"

record sdk_session_info =
  xi_session :: string
  xi_cwd :: string
  xi_title :: "string option"
  xi_updated :: "string option"

record sdk_list_response =
  xl_sessions :: "sdk_session_info list"
  xl_next :: "string option"

record sdk_resume_request =
  xm_session :: string
  xm_cwd :: string
  xm_servers :: "sdk_mcp_server list"
  xm_dirs :: "string list"

datatype sdk_status = StCompleted | StInProgress | StFailed | StOther string

record sdk_tool_call =
  xt_id :: string
  xt_title :: string
  xt_status :: sdk_status
  xt_input :: any_value
  xt_output :: any_value

record sdk_tool_update =
  xu_id :: string
  xu_title :: "string option"
  xu_status :: "sdk_status option"
  xu_input :: any_value
  xu_output :: any_value

record sdk_update =
  up_message :: "sdk_block option"
  up_thought :: "sdk_block option"
  up_tool_call :: "sdk_tool_call option"
  up_tool_update :: "sdk_tool_update option"
  up_info :: "(string option \<times> any_value) option"

definition no_update :: sdk_update where
  "no_update = \<lparr>up_message = None, up_thought = None, up_tool_call = None, up_tool_update = None, up_info = None\<rparr>"

record sdk_notification =
  sn_session :: string
  sn_update :: sdk_update

section \<open>Server (server.go)\<close>

text \<open>
  The handler of the application. \<open>Inr None\<close> is a nil response without an error. \<^verbatim>\<open>OnPrompt\<close> gets a
  sender: the operation that sends one event.
\<close>

datatype agent_event =
    SendMessage string
  | SendThought string
  | SendToolCall tool_call_event
  | SendInfo string any_value

record 'w agent_handler =
  ah_initialize :: "init_request \<Rightarrow> 'w \<Rightarrow> (go_err + init_response option) \<times> 'w"
  ah_new_session :: "new_session_request \<Rightarrow> 'w \<Rightarrow> (go_err + new_session_response option) \<times> 'w"
  ah_prompt :: "prompt_request \<Rightarrow> (agent_event \<Rightarrow> 'w \<Rightarrow> go_err option \<times> 'w) \<Rightarrow> 'w \<Rightarrow> (go_err + string option) \<times> 'w"
  ah_cancel :: "string \<Rightarrow> 'w \<Rightarrow> go_err option \<times> 'w"
  ah_load :: "load_session_request \<Rightarrow> 'w \<Rightarrow> go_err option \<times> 'w"
  ah_list :: "list_sessions_request \<Rightarrow> 'w \<Rightarrow> (go_err + list_sessions_response option) \<times> 'w"
  ah_delete :: "string \<Rightarrow> 'w \<Rightarrow> go_err option \<times> 'w"
  ah_close :: "string \<Rightarrow> 'w \<Rightarrow> go_err option \<times> 'w"

text \<open>
  The foreign parts the bridge uses: \<^verbatim>\<open>UpdateAgentMessage\<close>, \<^verbatim>\<open>UpdateAgentThought\<close>,
  \<^verbatim>\<open>StartToolCall\<close> with status and input, \<^verbatim>\<open>UpdateToolCall\<close> with status and output,
  \<^verbatim>\<open>SessionUpdate\<close> of the connection (none when the connection is nil), and the conversions of
  options and modes through JSON.
\<close>

record sdk_ctors =
  mk_message :: "sdk_block \<Rightarrow> sdk_update"
  mk_thought :: "sdk_block \<Rightarrow> sdk_update"
  mk_start :: "string \<Rightarrow> string \<Rightarrow> sdk_status \<Rightarrow> any_value \<Rightarrow> sdk_update"
  mk_update :: "string \<Rightarrow> sdk_status \<Rightarrow> any_value \<Rightarrow> sdk_update"

record ('cfg, 'mode) acp_json =
  aj_enc_options :: "config_option list \<Rightarrow> string option"
  aj_dec_options :: "string \<Rightarrow> 'cfg list"
  aj_enc_modes :: "mode_state \<Rightarrow> string option"
  aj_dec_modes :: "string \<Rightarrow> 'mode"
  aj_enc_sdk_options :: "'cfg list \<Rightarrow> string option"
  aj_read_options :: "string \<Rightarrow> config_option list"
  aj_enc_sdk_modes :: "'mode \<Rightarrow> string option"
  aj_read_modes :: "string \<Rightarrow> mode_state"

record ('w, 'cfg, 'mode) acp_server =
  av_name :: string
  av_version :: string
  av_handler :: "'w agent_handler"
  av_conn :: "(sdk_notification \<Rightarrow> 'w \<Rightarrow> go_err option \<times> 'w) option"
  av_ctors :: sdk_ctors
  av_json :: "('cfg, 'mode) acp_json"

text \<open>The map of senders of the bridge, by session; the senders differ in the session id only.\<close>

type_synonym senders = "string gomap"

definition set_sender :: "string \<Rightarrow> senders \<Rightarrow> senders" where
  "set_sender sid m = AList.update sid sid m"

definition delete_sender :: "string \<Rightarrow> senders \<Rightarrow> senders" where
  "delete_sender sid m = AList.delete sid m"

definition cap_ptr :: "bool \<Rightarrow> unit option" where
  "cap_ptr ok = (if \<not> ok then None else Some ())"

definition client_info_name :: "(string \<times> string) option \<Rightarrow> string" where
  "client_info_name info = (case info of None \<Rightarrow> '''' | Some i \<Rightarrow> fst i)"

definition client_info_version :: "(string \<times> string) option \<Rightarrow> string" where
  "client_info_version info = (case info of None \<Rightarrow> '''' | Some i \<Rightarrow> snd i)"

definition with_bridge_caps :: "agent_capabilities \<Rightarrow> agent_capabilities" where
  "with_bridge_caps caps = caps\<lparr>ac_load := True, ac_session := \<lparr>sc_list = True, sc_delete = True, sc_resume = True, sc_close = True\<rparr>\<rparr>"

definition bridge_initialize :: "('w, 'cfg, 'mode) acp_server \<Rightarrow> sdk_init_request \<Rightarrow> 'w \<Rightarrow> (go_err + sdk_init_response) go_ret \<times> 'w" where
  "bridge_initialize sv q w =
     (case ah_initialize (av_handler sv) \<lparr>iq_version = xq_version q, iq_name = client_info_name (xq_client q),
          iq_client_version = client_info_version (xq_client q), iq_terminal = xq_terminal q\<rparr> w of
        (Inl e, w) \<Rightarrow> (Returns (Inl e), w)
      | (Inr None, w) \<Rightarrow> (Panics nil_deref, w)
      | (Inr (Some resp), w) \<Rightarrow>
          let caps = with_bridge_caps (ir_caps resp) in
          (Returns (Inr \<lparr>xr_version = ir_version resp, xr_load = ac_load caps, xr_mcp = ac_mcp caps, xr_prompt = ac_prompt caps,
             xr_session = \<lparr>xs_list = cap_ptr (sc_list (ac_session caps)), xs_delete = cap_ptr (sc_delete (ac_session caps)),
               xs_resume = cap_ptr (sc_resume (ac_session caps)), xs_close = cap_ptr (sc_close (ac_session caps))\<rparr>,
             xr_agent = Some (av_name sv, av_version sv)\<rparr>), w))"

definition from_sdk_mcp_server :: "sdk_mcp_server \<Rightarrow> mcp_server" where
  "from_sdk_mcp_server m =
     (let ms = \<lparr>ms_name = '''', ms_url = '''', ms_command = '''', ms_args = []\<rparr>;
          ms = (case sm_http m of None \<Rightarrow> ms | Some u \<Rightarrow> ms\<lparr>ms_url := u\<rparr>);
          ms = (case sm_sse m of None \<Rightarrow> ms | Some u \<Rightarrow> ms\<lparr>ms_url := u\<rparr>)
      in case sm_stdio m of None \<Rightarrow> ms
         | Some so \<Rightarrow> ms\<lparr>ms_name := so_name so, ms_command := so_command so, ms_args := so_args so\<rparr>)"

definition convert_config_options :: "('cfg, 'mode) acp_json \<Rightarrow> config_option list \<Rightarrow> 'cfg list" where
  "convert_config_options js opts =
     (if opts = [] then [] else case aj_enc_options js opts of None \<Rightarrow> [] | Some d \<Rightarrow> aj_dec_options js d)"

definition convert_mode_state :: "('cfg, 'mode) acp_json \<Rightarrow> mode_state option \<Rightarrow> 'mode option" where
  "convert_mode_state js m =
     (case m of None \<Rightarrow> None | Some m \<Rightarrow> (case aj_enc_modes js m of None \<Rightarrow> None | Some d \<Rightarrow> Some (aj_dec_modes js d)))"

definition bridge_new_session :: "('w, 'cfg, 'mode) acp_server \<Rightarrow> sdk_new_session_request \<Rightarrow> 'w
    \<Rightarrow> (go_err + ('cfg, 'mode) sdk_new_session_response) go_ret \<times> 'w" where
  "bridge_new_session sv q w =
     (case ah_new_session (av_handler sv) \<lparr>nq_cwd = xn_cwd q, nq_servers = map from_sdk_mcp_server (xn_servers q), nq_dirs = xn_dirs q\<rparr> w of
        (Inl e, w) \<Rightarrow> (Returns (Inl e), w)
      | (Inr None, w) \<Rightarrow> (Panics nil_deref, w)
      | (Inr (Some resp), w) \<Rightarrow>
          (Returns (Inr \<lparr>xn_session = nr_session resp, xn_options = convert_config_options (av_json sv) (nr_options resp),
             xn_modes = convert_mode_state (av_json sv) (nr_modes resp)\<rparr>), w))"

text \<open>\<^verbatim>\<open>agentSender\<close>: messages, thoughts and tool calls carry no session id, session information does.\<close>

definition tool_call_update :: "sdk_ctors \<Rightarrow> tool_call_event \<Rightarrow> sdk_update" where
  "tool_call_update c tc =
     (if te_status tc = ''completed'' then mk_update c (te_id tc) StCompleted (te_output tc)
      else if te_status tc = ''failed'' then mk_update c (te_id tc) StFailed (te_output tc)
      else mk_start c (te_id tc) (te_title tc) StInProgress (te_input tc))"

fun sender_notification :: "sdk_ctors \<Rightarrow> string \<Rightarrow> agent_event \<Rightarrow> sdk_notification" where
  "sender_notification c sid (SendMessage t) = \<lparr>sn_session = '''', sn_update = mk_message c (Some t)\<rparr>"
| "sender_notification c sid (SendThought t) = \<lparr>sn_session = '''', sn_update = mk_thought c (Some t)\<rparr>"
| "sender_notification c sid (SendToolCall tc) = \<lparr>sn_session = '''', sn_update = tool_call_update c tc\<rparr>"
| "sender_notification c sid (SendInfo title meta) =
     \<lparr>sn_session = sid, sn_update = no_update\<lparr>up_info := Some (if title \<noteq> '''' then Some title else None, meta)\<rparr>\<rparr>"

definition send_event :: "('w, 'cfg, 'mode) acp_server \<Rightarrow> string \<Rightarrow> agent_event \<Rightarrow> 'w \<Rightarrow> go_err option \<times> 'w" where
  "send_event sv sid ev w =
     (case av_conn sv of None \<Rightarrow> (None, w) | Some update \<Rightarrow> update (sender_notification (av_ctors sv) sid ev) w)"

definition block_text :: "sdk_block \<Rightarrow> string" where
  "block_text b = (case b of None \<Rightarrow> '''' | Some t \<Rightarrow> t)"

definition bridge_prompt :: "('w, 'cfg, 'mode) acp_server \<Rightarrow> sdk_prompt_request \<Rightarrow> senders \<times> 'w \<Rightarrow> (go_err + string) go_ret \<times> senders \<times> 'w" where
  "bridge_prompt sv q st =
     (let sid = xp_session q;
          senders = set_sender sid (fst st);
          (r, w) = ah_prompt (av_handler sv) \<lparr>pq_session = sid, pq_blocks = map block_text (xp_prompt q)\<rparr> (send_event sv sid) (snd st)
      in (case r of Inl e \<Rightarrow> Returns (Inl e) | Inr None \<Rightarrow> Panics nil_deref | Inr (Some reason) \<Rightarrow> Returns (Inr reason),
          delete_sender sid senders, w))"

definition bridge_cancel :: "('w, 'cfg, 'mode) acp_server \<Rightarrow> string \<Rightarrow> 'w \<Rightarrow> go_err option \<times> 'w" where
  "bridge_cancel sv sid w = ah_cancel (av_handler sv) sid w"

definition bridge_close_session :: "('w, 'cfg, 'mode) acp_server \<Rightarrow> string \<Rightarrow> senders \<times> 'w \<Rightarrow> go_err option \<times> senders \<times> 'w" where
  "bridge_close_session sv sid st =
     (let senders = delete_sender sid (fst st); (e, w) = ah_close (av_handler sv) sid (snd st) in (e, senders, w))"

definition bridge_delete_session :: "('w, 'cfg, 'mode) acp_server \<Rightarrow> string \<Rightarrow> senders \<times> 'w \<Rightarrow> go_err option \<times> senders \<times> 'w" where
  "bridge_delete_session sv sid st =
     (let senders = delete_sender sid (fst st); (e, w) = ah_delete (av_handler sv) sid (snd st) in (e, senders, w))"

definition non_empty :: "string \<Rightarrow> string option" where
  "non_empty s = (if s \<noteq> '''' then Some s else None)"

definition bridge_list_sessions :: "('w, 'cfg, 'mode) acp_server \<Rightarrow> list_sessions_request \<Rightarrow> 'w \<Rightarrow> (go_err + sdk_list_response) go_ret \<times> 'w" where
  "bridge_list_sessions sv q w =
     (case ah_list (av_handler sv) q w of
        (Inl e, w) \<Rightarrow> (Returns (Inl e), w)
      | (Inr None, w) \<Rightarrow> (Panics nil_deref, w)
      | (Inr (Some resp), w) \<Rightarrow>
          (Returns (Inr \<lparr>xl_sessions = map (\<lambda>s. \<lparr>xi_session = ai_session s, xi_cwd = ai_cwd s, xi_title = non_empty (ai_title s),
               xi_updated = non_empty (ai_updated s)\<rparr>) (sr_sessions resp), xl_next = sr_next resp\<rparr>), w))"

definition bridge_resume_session :: "('w, 'cfg, 'mode) acp_server \<Rightarrow> sdk_resume_request \<Rightarrow> 'w \<Rightarrow> go_err option \<times> 'w" where
  "bridge_resume_session sv q w =
     ah_load (av_handler sv) \<lparr>lq_session = xm_session q, lq_cwd = xm_cwd q, lq_servers = map from_sdk_mcp_server (xm_servers q),
       lq_dirs = xm_dirs q\<rparr> w"

section \<open>Client (client.go)\<close>

text \<open>
  The connection to a running agent: the requests of the protocol. A prompt delivers the
  notifications the agent sends while it works, in order, and then answers or fails.
\<close>

record ('w, 'cfg, 'mode) sdk_conn =
  xc_initialize :: "sdk_init_request \<Rightarrow> 'w \<Rightarrow> (go_err + sdk_init_response) \<times> 'w"
  xc_new_session :: "sdk_new_session_request \<Rightarrow> 'w \<Rightarrow> (go_err + ('cfg, 'mode) sdk_new_session_response) \<times> 'w"
  xc_prompt :: "sdk_prompt_request \<Rightarrow> 'w \<Rightarrow> (sdk_notification list \<times> (go_err + string)) \<times> 'w"
  xc_delete :: "string \<Rightarrow> 'w \<Rightarrow> go_err option \<times> 'w"
  xc_close :: "string \<Rightarrow> 'w \<Rightarrow> go_err option \<times> 'w"
  xc_list :: "list_sessions_request \<Rightarrow> 'w \<Rightarrow> (go_err + sdk_list_response) \<times> 'w"
  xc_resume :: "sdk_resume_request \<Rightarrow> 'w \<Rightarrow> go_err option \<times> 'w"

text \<open>
  \<^verbatim>\<open>Session\<close>: the current session id, the event handler (\<^verbatim>\<open>sessionBridge\<close>, with the state \<open>'h\<close> of
  the handler), whether the write end of stdin is open, whether the process was started and still
  runs, and what it wrote to stderr.
\<close>

datatype handler_call =
    OnAgentMessage string
  | OnAgentThought string
  | OnToolCall tool_call_event

record 'h acp_session =
  as_id :: string
  as_handler :: "(handler_call \<Rightarrow> 'h \<Rightarrow> 'h) option"
  as_stdin_open :: bool
  as_running :: bool
  as_stderr :: "string option"

text \<open>\<^verbatim>\<open>ConnectStdio\<close>: the two pipes and the start of the process can fail.\<close>

definition connect_stdio :: "go_err option \<Rightarrow> go_err option \<Rightarrow> go_err option \<Rightarrow> string \<Rightarrow> go_err + 'h acp_session" where
  "connect_stdio stdin_err stdout_err start_err command =
     (case stdin_err of Some e \<Rightarrow> Inl (ErrWrap ''acp stdin pipe: '' e '''')
      | None \<Rightarrow> (case stdout_err of Some e \<Rightarrow> Inl (ErrWrap ''acp stdout pipe: '' e '''')
      | None \<Rightarrow> (case start_err of Some e \<Rightarrow> Inl (ErrWrap (''acp start '' @ go_quote command @ '': '') e '''')
      | None \<Rightarrow> Inr \<lparr>as_id = '''', as_handler = None, as_stdin_open = True, as_running = True, as_stderr = Some ''''\<rparr>)))"

definition session_initialize :: "('w, 'cfg, 'mode) sdk_conn \<Rightarrow> init_request \<Rightarrow> 'w \<Rightarrow> (go_err + init_response) \<times> 'w" where
  "session_initialize conn q w =
     (case xc_initialize conn \<lparr>xq_version = iq_version q, xq_client = Some (iq_name q, iq_client_version q), xq_terminal = iq_terminal q\<rparr> w of
        (Inl e, w) \<Rightarrow> (Inl (ErrWrap ''acp initialize: '' e ''''), w)
      | (Inr r, w) \<Rightarrow>
          let (name, version) = (case xr_agent r of None \<Rightarrow> ('''', '''') | Some a \<Rightarrow> a) in
          (Inr \<lparr>ir_version = xr_version r, ir_name = name, ir_agent_version = version,
             ir_caps = \<lparr>ac_load = xr_load r, ac_mcp = xr_mcp r, ac_prompt = xr_prompt r,
               ac_session = \<lparr>sc_list = (xs_list (xr_session r) \<noteq> None), sc_delete = (xs_delete (xr_session r) \<noteq> None),
                 sc_resume = (xs_resume (xr_session r) \<noteq> None), sc_close = (xs_close (xr_session r) \<noteq> None)\<rparr>\<rparr>\<rparr>, w))"

definition to_sdk_mcp_server :: "mcp_server \<Rightarrow> sdk_mcp_server" where
  "to_sdk_mcp_server m =
     \<lparr>sm_http = (if ms_url m \<noteq> '''' then Some (ms_url m) else None), sm_sse = None,
      sm_stdio = (if ms_command m \<noteq> '''' then Some \<lparr>so_name = ms_name m, so_command = ms_command m, so_args = ms_args m\<rparr> else None)\<rparr>"

definition from_sdk_options :: "('cfg, 'mode) acp_json \<Rightarrow> 'cfg list \<Rightarrow> config_option list" where
  "from_sdk_options js opts =
     (if opts = [] then [] else case aj_enc_sdk_options js opts of None \<Rightarrow> [] | Some d \<Rightarrow> aj_read_options js d)"

definition from_sdk_modes :: "('cfg, 'mode) acp_json \<Rightarrow> 'mode option \<Rightarrow> mode_state option" where
  "from_sdk_modes js m =
     (case m of None \<Rightarrow> None | Some m \<Rightarrow> (case aj_enc_sdk_modes js m of None \<Rightarrow> None | Some d \<Rightarrow> Some (aj_read_modes js d)))"

definition session_new :: "('cfg, 'mode) acp_json \<Rightarrow> ('w, 'cfg, 'mode) sdk_conn \<Rightarrow> new_session_request \<Rightarrow> 'h acp_session \<times> 'w
    \<Rightarrow> (go_err + new_session_response) \<times> 'h acp_session \<times> 'w" where
  "session_new js conn q st =
     (case xc_new_session conn \<lparr>xn_cwd = nq_cwd q, xn_servers = map to_sdk_mcp_server (nq_servers q), xn_dirs = []\<rparr> (snd st) of
        (Inl e, w) \<Rightarrow> (Inl (ErrWrap ''acp new session: '' e ''''), fst st, w)
      | (Inr r, w) \<Rightarrow>
          (Inr \<lparr>nr_session = xn_session r, nr_options = from_sdk_options js (xn_options r), nr_modes = from_sdk_modes js (xn_modes r)\<rparr>,
           (fst st)\<lparr>as_id := xn_session r\<rparr>, w))"

definition set_event_handler :: "(handler_call \<Rightarrow> 'h \<Rightarrow> 'h) \<Rightarrow> 'h acp_session \<Rightarrow> 'h acp_session" where
  "set_event_handler h s = s\<lparr>as_handler := Some h\<rparr>"

text \<open>\<^verbatim>\<open>sessionBridge.SessionUpdate\<close>: the first kind of update that is present counts.\<close>

definition status_text :: "sdk_status \<Rightarrow> string" where
  "status_text s = (case s of StCompleted \<Rightarrow> ''completed'' | StInProgress \<Rightarrow> ''in_progress'' | StFailed \<Rightarrow> ''failed'' | StOther t \<Rightarrow> '''')"

definition client_event :: "sdk_update \<Rightarrow> handler_call option" where
  "client_event u =
     (case up_message u of Some b \<Rightarrow> Some (OnAgentMessage (block_text b)) | None \<Rightarrow>
      (case up_thought u of Some b \<Rightarrow> Some (OnAgentThought (block_text b)) | None \<Rightarrow>
      (case up_tool_call u of
         Some tc \<Rightarrow> Some (OnToolCall \<lparr>te_id = xt_id tc, te_title = xt_title tc, te_input = xt_input tc,
             te_status = status_text (xt_status tc), te_output = xt_output tc\<rparr>)
       | None \<Rightarrow>
      (case up_tool_update u of
         Some tu \<Rightarrow> Some (OnToolCall \<lparr>te_id = xu_id tu, te_title = (case xu_title tu of None \<Rightarrow> '''' | Some t \<Rightarrow> t), te_input = xu_input tu,
             te_status = (case xu_status tu of None \<Rightarrow> '''' | Some s \<Rightarrow> status_text s), te_output = xu_output tu\<rparr>)
       | None \<Rightarrow> None))))"

definition session_update :: "(handler_call \<Rightarrow> 'h \<Rightarrow> 'h) option \<Rightarrow> sdk_notification \<Rightarrow> 'h \<Rightarrow> 'h" where
  "session_update handler n h =
     (case handler of None \<Rightarrow> h
      | Some f \<Rightarrow> (case client_event (sn_update n) of None \<Rightarrow> h | Some c \<Rightarrow> f c h))"

definition session_prompt :: "('w, 'cfg, 'mode) sdk_conn \<Rightarrow> 'h acp_session \<Rightarrow> prompt_request \<Rightarrow> 'h \<times> 'w \<Rightarrow> (go_err + string) \<times> 'h \<times> 'w" where
  "session_prompt conn s q st =
     (let ((notes, r), w) = xc_prompt conn \<lparr>xp_session = as_id s, xp_prompt = map Some (pq_blocks q)\<rparr> (snd st);
          h = fold (session_update (as_handler s)) notes (fst st)
      in (case r of Inl e \<Rightarrow> Inl (ErrWrap ''acp prompt: '' e '''') | Inr reason \<Rightarrow> Inr reason, h, w))"

definition session_delete :: "('w, 'cfg, 'mode) sdk_conn \<Rightarrow> string \<Rightarrow> 'w \<Rightarrow> go_err option \<times> 'w" where
  "session_delete conn sid w =
     (case xc_delete conn sid w of (Some e, w) \<Rightarrow> (Some (ErrWrap ''acp delete session: '' e ''''), w) | (None, w) \<Rightarrow> (None, w))"

definition session_close :: "('w, 'cfg, 'mode) sdk_conn \<Rightarrow> 'h acp_session \<Rightarrow> 'w \<Rightarrow> go_err option \<times> 'w" where
  "session_close conn s w = (if as_id s = '''' then (None, w) else xc_close conn (as_id s) w)"

definition str_or_empty :: "string option \<Rightarrow> string" where
  "str_or_empty p = (case p of None \<Rightarrow> '''' | Some s \<Rightarrow> s)"

definition session_list :: "('w, 'cfg, 'mode) sdk_conn \<Rightarrow> list_sessions_request \<Rightarrow> 'w \<Rightarrow> (go_err + list_sessions_response) \<times> 'w" where
  "session_list conn q w =
     (case xc_list conn q w of
        (Inl e, w) \<Rightarrow> (Inl (ErrWrap ''acp list sessions: '' e ''''), w)
      | (Inr r, w) \<Rightarrow>
          (Inr \<lparr>sr_next = xl_next r, sr_sessions = map (\<lambda>i. \<lparr>ai_session = xi_session i, ai_cwd = xi_cwd i,
              ai_title = str_or_empty (xi_title i), ai_updated = str_or_empty (xi_updated i), ai_dirs = []\<rparr>) (xl_sessions r)\<rparr>, w))"

definition session_load :: "('w, 'cfg, 'mode) sdk_conn \<Rightarrow> load_session_request \<Rightarrow> 'h acp_session \<times> 'w \<Rightarrow> go_err option \<times> 'h acp_session \<times> 'w" where
  "session_load conn q st =
     (case xc_resume conn \<lparr>xm_session = lq_session q, xm_cwd = lq_cwd q, xm_servers = map to_sdk_mcp_server (lq_servers q),
          xm_dirs = lq_dirs q\<rparr> (snd st) of
        (Some e, w) \<Rightarrow> (Some (ErrWrap ''acp load session: '' e ''''), fst st, w)
      | (None, w) \<Rightarrow> (None, (fst st)\<lparr>as_id := lq_session q\<rparr>, w))"

definition session_shutdown :: "'h acp_session \<Rightarrow> 'h acp_session" where
  "session_shutdown s = s\<lparr>as_stdin_open := False, as_running := False\<rparr>"

definition session_stderr :: "'h acp_session \<Rightarrow> string" where
  "session_stderr s = str_or_empty (as_stderr s)"

text \<open>The requests of the agent to the client: permission is refused, everything else is an error.\<close>

datatype permission = PermissionCancelled

definition request_permission :: "go_err + permission" where
  "request_permission = Inr PermissionCancelled"

definition unsupported_request :: "go_err + unit" where
  "unsupported_request = Inl (ErrText ''not supported'')"

section \<open>What passes from end to end\<close>

definition ctors_ok :: "sdk_ctors \<Rightarrow> bool" where
  "ctors_ok c = ((\<forall>b. mk_message c b = no_update\<lparr>up_message := Some b\<rparr>) \<and>
     (\<forall>b. mk_thought c b = no_update\<lparr>up_thought := Some b\<rparr>) \<and>
     (\<forall>i t s v. mk_start c i t s v = no_update\<lparr>up_tool_call := Some \<lparr>xt_id = i, xt_title = t, xt_status = s, xt_input = v, xt_output = None\<rparr>\<rparr>) \<and>
     (\<forall>i s v. mk_update c i s v = no_update\<lparr>up_tool_update := Some \<lparr>xu_id = i, xu_title = None, xu_status = Some s, xu_input = None, xu_output = v\<rparr>\<rparr>))"

text \<open>What the client's handler is told of an event: the start of a call with title and input, its end with the output.\<close>

fun wire_view :: "agent_event \<Rightarrow> handler_call option" where
  "wire_view (SendMessage t) = Some (OnAgentMessage t)"
| "wire_view (SendThought t) = Some (OnAgentThought t)"
| "wire_view (SendToolCall tc) = Some (OnToolCall
     (if te_status tc \<in> {''completed'', ''failed''} then tc\<lparr>te_title := '''', te_input := None\<rparr>
      else tc\<lparr>te_status := ''in_progress'', te_output := None\<rparr>))"
| "wire_view (SendInfo t m) = None"

lemma client_sees: "ctors_ok c \<Longrightarrow> client_event (sn_update (sender_notification c sid ev)) = wire_view ev"
  by (cases ev) (auto simp: ctors_ok_def client_event_def tool_call_update_def no_update_def block_text_def status_text_def)

lemma mcp_server_roundtrip:
  "from_sdk_mcp_server (to_sdk_mcp_server m) =
     (if ms_command m = '''' then m\<lparr>ms_name := '''', ms_args := []\<rparr> else m)"
  by (simp add: from_sdk_mcp_server_def to_sdk_mcp_server_def Let_def)

lemma caps_roundtrip: "(cap_ptr b \<noteq> None) = b"
  by (simp add: cap_ptr_def)

lemma str_or_empty_non_empty: "str_or_empty (non_empty s) = s"
  by (simp add: str_or_empty_def non_empty_def)

lemma handshake:
  assumes "ah_initialize (av_handler sv) q w = (Inr (Some resp), w')"
    and "\<And>x. xc_initialize conn x w = (case bridge_initialize sv x w of (Returns r, w) \<Rightarrow> (r, w) | (Panics p, w) \<Rightarrow> (Inl (ErrText p), w))"
  shows "session_initialize conn q w = (Inr \<lparr>ir_version = ir_version resp, ir_name = av_name sv, ir_agent_version = av_version sv,
    ir_caps = with_bridge_caps (ir_caps resp)\<rparr>, w')"
  using assms(1) by (cases q) (simp add: session_initialize_def assms(2) bridge_initialize_def client_info_name_def client_info_version_def
      with_bridge_caps_def cap_ptr_def Let_def)

lemma session_list_roundtrip:
  assumes "ah_list (av_handler sv) q w = (Inr (Some resp), w')"
    and "xc_list conn q w = (case bridge_list_sessions sv q w of (Returns r, w) \<Rightarrow> (r, w) | (Panics p, w) \<Rightarrow> (Inl (ErrText p), w))"
  shows "session_list conn q w = (Inr (resp\<lparr>sr_sessions := map (\<lambda>i. i\<lparr>ai_dirs := []\<rparr>) (sr_sessions resp)\<rparr>), w')"
  using assms by (simp add: session_list_def bridge_list_sessions_def str_or_empty_non_empty comp_def)

lemma prompt_blocks_roundtrip: "map block_text (map Some bs) = bs"
  by (simp add: block_text_def comp_def)

text \<open>A new session never carries the additional directories that the caller asked for, a loaded one does.\<close>

lemma new_session_drops_dirs:
  "session_new js conn q st = session_new js conn (q\<lparr>nq_dirs := ds\<rparr>) st"
  by (simp add: session_new_def)

end
