(* ===== verification/AcpRunner.thy ===== *)
theory AcpRunner
  imports AcpProtocol Team
begin

text \<open>
  \<^verbatim>\<open>runner/acp/runner.go\<close>: a runner whose agent is an external process that speaks ACP. It keeps the
  connection, the handoff tools it offers to that process over MCP, and what the team told it last.
  The MCP server is foreign: the calls it gets are recorded in order. A Go map from tool names to
  true is the list of its keys, or none for the nil map; where the code ranges over a map the order
  is given by \<open>ord\<close>. The handler of the agent's updates sends to a channel without blocking: \<open>room n\<close>
  says whether its n-th send finds room.
\<close>

section \<open>State\<close>

datatype mcp_call = McpAdd function_def | McpRemove "string list"

text \<open>The collector of a run with the tool calls seen so far, and the events the channel has taken.\<close>

record run_handler =
  rh_text :: string
  rh_messages :: "message list"
  rh_seen :: "string list"
  rh_sends :: nat
  rh_out :: "stream_event list"

definition new_run_handler :: run_handler where
  "new_run_handler = \<lparr>rh_text = '''', rh_messages = [], rh_seen = [], rh_sends = 0, rh_out = []\<rparr>"

record 'w acp_runner =
  ar_name :: string
  ar_session :: "run_handler acp_session option"
  ar_closed :: bool
  ar_mcp :: "mcp_call list option"
  ar_listening :: bool
  ar_port :: nat
  ar_handoff :: "(string \<Rightarrow> string \<Rightarrow> 'w \<Rightarrow> 'w) option"
  ar_prompt :: string
  ar_force_final :: bool
  ar_tool_names :: "string list option"
  ar_acp_session :: string

section \<open>Start and end\<close>

definition raw_runner :: "string \<Rightarrow> 'w acp_runner" where
  "raw_runner name = \<lparr>ar_name = name, ar_session = None, ar_closed = False, ar_mcp = None, ar_listening = False, ar_port = 0,
     ar_handoff = None, ar_prompt = '''', ar_force_final = False, ar_tool_names = None, ar_acp_session = ''''\<rparr>"

text \<open>The server exists even when the listener fails.\<close>

definition start_mcp_server :: "go_err + nat \<Rightarrow> 'w acp_runner \<Rightarrow> go_err option \<times> 'w acp_runner" where
  "start_mcp_server listened r =
     (case listened of Inl e \<Rightarrow> (Some (ErrWrap ''listen: '' e ''''), r\<lparr>ar_mcp := Some []\<rparr>)
      | Inr port \<Rightarrow> (None, r\<lparr>ar_mcp := Some [], ar_listening := True, ar_port := port\<rparr>))"

definition stop_mcp_server :: "'w acp_runner \<Rightarrow> 'w acp_runner" where
  "stop_mcp_server r = r\<lparr>ar_listening := False\<rparr>"

text \<open>
  \<^verbatim>\<open>Close\<close> ends the session of the process, then the process. The result is the runner and what
  became of the connection it held.
\<close>

definition acp_close :: "('w, 'cfg, 'mode) sdk_conn \<Rightarrow> 'w acp_runner \<Rightarrow> 'w \<Rightarrow> run_handler acp_session option \<times> 'w acp_runner \<times> 'w" where
  "acp_close conn r w =
     (let s = ar_session r; r = r\<lparr>ar_closed := True, ar_session := None\<rparr>;
          (s, w) = (case s of None \<Rightarrow> (None, w) | Some s \<Rightarrow> (let (e, w) = session_close conn s w in (Some (session_shutdown s), w)))
      in (s, stop_mcp_server r, w))"

text \<open>
  What the outside does while \<^verbatim>\<open>New\<close> runs: the listener, the process and its two answers. The
  result is the runner or the error, the connection that was opened, and the runner that is left.
\<close>

record ('w, 'cfg, 'mode) acp_outside =
  ao_listen :: "go_err + nat"
  ao_connect :: "go_err + run_handler acp_session"
  ao_conn :: "('w, 'cfg, 'mode) sdk_conn"
  ao_json :: "('cfg, 'mode) acp_json"

definition new_error :: "string \<Rightarrow> string \<Rightarrow> go_err \<Rightarrow> go_err" where
  "new_error name what e = ErrWrap (''acp runner '' @ go_quote name @ what) e ''''"

definition handshake_request :: init_request where
  "handshake_request = \<lparr>iq_version = 1, iq_name = ''openagent-go'', iq_client_version = ''0.1.0'', iq_terminal = False\<rparr>"

definition handoff_session_request :: "string \<Rightarrow> nat \<Rightarrow> new_session_request" where
  "handoff_session_request name port = \<lparr>nq_cwd = ''/'', nq_servers = [\<lparr>ms_name = name @ ''-handoff'',
     ms_url = ''http://localhost:'' @ nat_str port, ms_command = '''', ms_args = []\<rparr>], nq_dirs = []\<rparr>"

definition acp_new :: "('w, 'cfg, 'mode) acp_outside \<Rightarrow> string \<Rightarrow> 'w
    \<Rightarrow> go_err option \<times> run_handler acp_session option \<times> 'w acp_runner \<times> 'w" where
  "acp_new o1 name w =
     (case start_mcp_server (ao_listen o1) (raw_runner name) of
        (Some e, r) \<Rightarrow> (Some (new_error name '': start MCP server: '' e), None, r, w)
      | (None, r) \<Rightarrow>
     (case ao_connect o1 of
        Inl e \<Rightarrow> (Some (new_error name '': connect: '' e), None, stop_mcp_server r, w)
      | Inr sess \<Rightarrow>
     (let r = r\<lparr>ar_session := Some sess\<rparr> in
      case session_initialize (ao_conn o1) handshake_request w of
        (Inl e, w) \<Rightarrow> (let (s, r, w) = acp_close (ao_conn o1) r w in (Some (new_error name '': initialize: '' e), s, r, w))
      | (Inr _, w) \<Rightarrow>
     (case session_new (ao_json o1) (ao_conn o1) (handoff_session_request name (ar_port r)) (sess, w) of
        (Inl e, sess, w) \<Rightarrow> (let (s, r, w) = acp_close (ao_conn o1) r w in (Some (new_error name '': new session: '' e), s, r, w))
      | (Inr resp, sess, w) \<Rightarrow>
          (None, Some sess, r\<lparr>ar_session := Some sess, ar_acp_session := nr_session resp\<rparr>, w)))))"

section \<open>The team\<close>

definition acp_prepare :: "(string \<Rightarrow> string \<Rightarrow> 'w \<Rightarrow> 'w) option \<Rightarrow> string \<Rightarrow> bool \<Rightarrow> 'w acp_runner \<Rightarrow> 'w acp_runner" where
  "acp_prepare rec_handoff prompt final r = r\<lparr>ar_handoff := rec_handoff, ar_prompt := prompt, ar_force_final := final\<rparr>"

definition transfer_prefix :: string where "transfer_prefix = ''transfer_to_''"

definition desired_tools :: "string \<Rightarrow> agent_info list \<Rightarrow> string list" where
  "desired_tools self members = remdups (map (\<lambda>m. transfer_prefix @ ai_name m) (filter (\<lambda>m. ai_name m \<noteq> self) members))"

definition member_descs :: "string \<Rightarrow> agent_info list \<Rightarrow> string gomap" where
  "member_descs self members = fold (\<lambda>m. AList.update (ai_name m) (ai_description m)) (filter (\<lambda>m. ai_name m \<noteq> self) members) []"

definition map_str_equal :: "string list option \<Rightarrow> string list \<Rightarrow> bool" where
  "map_str_equal a b = (let a = (case a of None \<Rightarrow> [] | Some a \<Rightarrow> a) in length a = length b \<and> list_all (\<lambda>k. k \<in> set b) a)"

definition handoff_params :: string where
  "handoff_params = ''{'' @ nl @ [tab] @ dquote @ ''type'' @ dquote @ '': '' @ dquote @ ''object'' @ dquote @ '','' @ nl @
     [tab] @ dquote @ ''properties'' @ dquote @ '': {'' @ nl @ [tab, tab] @ dquote @ ''message'' @ dquote @ '': {'' @ nl @
     [tab, tab, tab] @ dquote @ ''type'' @ dquote @ '': '' @ dquote @ ''string'' @ dquote @ '','' @ nl @
     [tab, tab, tab] @ dquote @ ''description'' @ dquote @ '': '' @ dquote @ ''What you need from the other agent. Be specific.'' @ dquote @ nl @
     [tab, tab] @ ''}'' @ nl @ [tab] @ ''},'' @ nl @ [tab] @ dquote @ ''required'' @ dquote @ '': ['' @ dquote @ ''message'' @ dquote @ '']'' @ nl @ ''}''"

definition transfer_def :: "string gomap \<Rightarrow> string \<Rightarrow> function_def" where
  "transfer_def descs toolName =
     (let target = drop (length transfer_prefix) toolName in
      \<lparr>fd_name = toolName, fd_description = ''Hand off to the '' @ target @ '' agent. '' @ gm_get '''' descs target @
         '' Include a clear message about what you need.'', fd_parameters = handoff_params, fd_end_turn = True\<rparr>)"

definition mcp_record :: "mcp_call \<Rightarrow> 'w acp_runner \<Rightarrow> 'w acp_runner" where
  "mcp_record c r = r\<lparr>ar_mcp := map_option (\<lambda>cs. cs @ [c]) (ar_mcp r)\<rparr>"

text \<open>Adding: the tool is registered first, then its name is put into the map, which panics when the map is nil.\<close>

fun add_tools :: "string gomap \<Rightarrow> string list \<Rightarrow> 'w acp_runner \<Rightarrow> unit go_ret \<times> 'w acp_runner" where
  "add_tools descs [] r = (Returns (), r)"
| "add_tools descs (n # ns) r =
     (let r = mcp_record (McpAdd (transfer_def descs n)) r in
      case ar_tool_names r of None \<Rightarrow> (Panics nil_map_panic, r)
      | Some names \<Rightarrow> add_tools descs ns (r\<lparr>ar_tool_names := Some (if n \<in> set names then names else names @ [n])\<rparr>))"

definition remove_tools :: "string list \<Rightarrow> 'w acp_runner \<Rightarrow> 'w acp_runner" where
  "remove_tools ns r =
     (if ns = [] then r
      else (mcp_record (McpRemove ns) r)\<lparr>ar_tool_names := map_option (filter (\<lambda>k. k \<notin> set ns)) (ar_tool_names r)\<rparr>)"

definition sync_tools :: "(string list \<Rightarrow> string list) \<Rightarrow> string \<Rightarrow> agent_info list \<Rightarrow> 'w acp_runner \<Rightarrow> unit go_ret \<times> 'w acp_runner" where
  "sync_tools ord self members r =
     (if ar_mcp r = None then (Returns (), r)
      else
        let desired = desired_tools self members;
            current = (case ar_tool_names r of None \<Rightarrow> [] | Some ns \<Rightarrow> ns)
        in if map_str_equal (ar_tool_names r) desired then (Returns (), r)
           else
             let toRemove = filter (\<lambda>n. n \<notin> set desired) (ord current);
                 toAdd = filter (\<lambda>n. n \<notin> set current) (ord desired)
             in add_tools (member_descs self members) toAdd (remove_tools toRemove r))"

text \<open>The handler of a transfer tool. \<open>dec\<close> reads the message from the arguments, as far as they can be read.\<close>

record tool_reply =
  tr_error :: bool
  tr_text :: string

definition transfer_call :: "(string \<Rightarrow> string) \<Rightarrow> string \<Rightarrow> string \<Rightarrow> 'w acp_runner \<Rightarrow> 'w \<Rightarrow> tool_reply \<times> 'w" where
  "transfer_call dec target args r w =
     (if ar_force_final r then (\<lparr>tr_error = True, tr_text = ''handoff blocked: this agent must produce a final answer''\<rparr>, w)
      else case ar_handoff r of
        None \<Rightarrow> (\<lparr>tr_error = True, tr_text = ''handoff not available''\<rparr>, w)
      | Some f \<Rightarrow>
          (\<lparr>tr_error = False, tr_text = ''Transferred to '' @ target @ ''.''\<rparr>,
           f target (if 0 < length args then dec args else '''') w))"

section \<open>Prompts\<close>

definition prefix_role :: "message \<Rightarrow> string" where
  "prefix_role m =
     (if msg_role m = RoleTool then (if msg_tool_call_id m \<noteq> '''' then ''tool_result ('' @ msg_tool_call_id m @ '')'' else ''tool'')
      else if msg_role m = RoleAssistant then (if 0 < length (msg_tool_calls m) then ''assistant'' else ''assistant'')
      else role_text (msg_role m))"

definition prefix_part :: "content_part \<Rightarrow> string" where
  "prefix_part p = nl @
     (if cp_type p = ''text'' then cp_text p
      else if cp_type p = ''image_url'' then (case cp_image_url p of None \<Rightarrow> '''' | Some i \<Rightarrow> ''[image: '' @ iu_url i @ '']'')
      else if cp_type p = ''input_audio'' then (case cp_input_audio p of None \<Rightarrow> '''' | Some a \<Rightarrow> ''[audio: '' @ ia_format a @ '']'')
      else ''['' @ cp_type p @ '']'')"

definition prefix_call :: "tool_call \<Rightarrow> string" where
  "prefix_call tc = nl @ ''  > tool_call: '' @ tc_name tc @ ''('' @ tc_args tc @ '')'' @
     (if tc_id tc \<noteq> '''' then '' [id: '' @ tc_id tc @ '']'' else '''')"

definition format_prefix_message :: "message \<Rightarrow> string" where
  "format_prefix_message m = ''['' @ prefix_role m @ '']'' @
     (if is_multimodal m then concat (map prefix_part (msg_content_parts m))
      else if msg_content m \<noteq> '''' then '' '' @ msg_content m else '''') @
     concat (map prefix_call (msg_tool_calls m))"

definition build_prompt_request :: "'w acp_runner \<Rightarrow> message list \<Rightarrow> message \<Rightarrow> prompt_request" where
  "build_prompt_request r pre input = \<lparr>pq_session = ar_acp_session r,
     pq_blocks = (if ar_prompt r \<noteq> '''' then [ar_prompt r] else []) @
       filter (\<lambda>t. t \<noteq> '''') (map format_prefix_message pre) @
       (if msg_content input \<noteq> '''' then [msg_content input] else [])\<rparr>"

section \<open>The handler of updates\<close>

definition send_stream_event :: "bool \<Rightarrow> (nat \<Rightarrow> bool) \<Rightarrow> stream_event \<Rightarrow> run_handler \<Rightarrow> run_handler" where
  "send_stream_event streaming room ev h =
     (if \<not> streaming then h
      else h\<lparr>rh_sends := Suc (rh_sends h), rh_out := rh_out h @ (if room (rh_sends h) then [ev] else [])\<rparr>)"

definition any_text :: "any_value \<Rightarrow> string" where
  "any_text v = (case v of None \<Rightarrow> ''<nil>'' | Some t \<Rightarrow> t)"

definition announce_message :: "tool_call_event \<Rightarrow> message" where
  "announce_message tc = empty_message\<lparr>msg_role := RoleAssistant, msg_tool_calls := [\<lparr>tc_id = te_id tc, tc_type = ''function'',
     tc_function = \<lparr>tcf_name = te_title tc, tcf_args = any_text (te_input tc)\<rparr>\<rparr>]\<rparr>"

definition announce_call :: "bool \<Rightarrow> (nat \<Rightarrow> bool) \<Rightarrow> tool_call_event \<Rightarrow> run_handler \<Rightarrow> run_handler" where
  "announce_call streaming room tc h =
     (if te_id tc \<notin> set (rh_seen h)
      then send_stream_event streaming room (StreamToolCall (announce_message tc))
             (h\<lparr>rh_seen := rh_seen h @ [te_id tc], rh_messages := rh_messages h @ [announce_message tc]\<rparr>)
      else h)"

definition finish_call :: "bool \<Rightarrow> (nat \<Rightarrow> bool) \<Rightarrow> tool_call_event \<Rightarrow> run_handler \<Rightarrow> run_handler" where
  "finish_call streaming room tc h =
     (if (te_status tc = ''completed'' \<or> te_status tc = ''failed'') \<and> te_output tc \<noteq> None
      then send_stream_event streaming room (StreamToolResult (tool_message (te_id tc) (any_text (te_output tc))))
             (h\<lparr>rh_messages := rh_messages h @ [tool_message (te_id tc) (any_text (te_output tc))]\<rparr>)
      else h)"

fun handle_update :: "bool \<Rightarrow> (nat \<Rightarrow> bool) \<Rightarrow> handler_call \<Rightarrow> run_handler \<Rightarrow> run_handler" where
  "handle_update streaming room (OnAgentMessage t) h =
     send_stream_event streaming room (StreamTextDelta t) (h\<lparr>rh_text := rh_text h @ t\<rparr>)"
| "handle_update streaming room (OnAgentThought t) h = send_stream_event streaming room (StreamTextDelta t) h"
| "handle_update streaming room (OnToolCall tc) h = finish_call streaming room tc (announce_call streaming room tc h)"

definition collector_result :: "run_handler \<Rightarrow> string \<Rightarrow> run_result" where
  "collector_result h reason = empty_run_result\<lparr>rr_final_output := rh_text h, rr_stop_reason := reason,
     rr_messages := rh_messages h, rr_turn_count := 1\<rparr>"

section \<open>Runs\<close>

definition closed_error :: "'w acp_runner \<Rightarrow> go_err" where
  "closed_error r = ErrText (''acp runner '' @ go_quote (ar_name r) @ '' is closed'')"

definition no_session_error :: "'w acp_runner \<Rightarrow> go_err" where
  "no_session_error r = ErrText (''acp runner '' @ go_quote (ar_name r) @ '' has no session'')"

text \<open>A stop reason other than \<^verbatim>\<open>end_turn\<close> is an error; none is taken for \<^verbatim>\<open>end_turn\<close>.\<close>

definition check_stop :: "run_result \<Rightarrow> go_err + run_result" where
  "check_stop res =
     (if rr_stop_reason res \<noteq> '''' \<and> rr_stop_reason res \<noteq> ''end_turn'' then Inl (ErrText (''acp agent stopped: '' @ rr_stop_reason res))
      else Inr res)"

text \<open>The prompt of both kinds of run: the answer and the handler afterwards.\<close>

definition acp_prompt :: "('w, 'cfg, 'mode) sdk_conn \<Rightarrow> bool \<Rightarrow> (nat \<Rightarrow> bool) \<Rightarrow> 'w acp_runner \<Rightarrow> run_handler acp_session
    \<Rightarrow> message list \<Rightarrow> message \<Rightarrow> 'w \<Rightarrow> (go_err + string) \<times> run_handler \<times> 'w" where
  "acp_prompt conn streaming room r sess pre input w =
     session_prompt conn (set_event_handler (handle_update streaming room) sess) (build_prompt_request r pre input) (new_run_handler, w)"

definition acp_run :: "('w, 'cfg, 'mode) sdk_conn \<Rightarrow> 'w acp_runner \<Rightarrow> message list \<Rightarrow> message \<Rightarrow> 'w \<Rightarrow> (go_err + run_result) \<times> 'w" where
  "acp_run conn r pre input w =
     (if ar_closed r then (Inl (closed_error r), w)
      else case ar_session r of
        None \<Rightarrow> (Inl (no_session_error r), w)
      | Some sess \<Rightarrow>
          (case acp_prompt conn False (\<lambda>_. False) r sess pre input w of
             (Inl e, h, w) \<Rightarrow> (Inl (ErrWrap ''acp prompt: '' e ''''), w)
           | (Inr reason, h, w) \<Rightarrow> (check_stop (collector_result h reason), w)))"

definition acp_stream :: "('w, 'cfg, 'mode) sdk_conn \<Rightarrow> (nat \<Rightarrow> bool) \<Rightarrow> 'w acp_runner \<Rightarrow> message list \<Rightarrow> message \<Rightarrow> 'w \<Rightarrow> stream_event list \<times> 'w" where
  "acp_stream conn room r pre input w =
     (if ar_closed r then ([StreamError (closed_error r)], w)
      else case ar_session r of
        None \<Rightarrow> ([StreamError (no_session_error r)], w)
      | Some sess \<Rightarrow>
          (case acp_prompt conn True room r sess pre input w of
             (Inl e, h, w) \<Rightarrow> (rh_out h @ [StreamError e], w)
           | (Inr reason, h, w) \<Rightarrow>
               (rh_out h @ [case check_stop (collector_result h reason) of Inl e \<Rightarrow> StreamError e | Inr res \<Rightarrow> StreamDone (Some res)], w)))"

section \<open>What a run collects\<close>

text \<open>The part of the handler that the run returns does not depend on the channel.\<close>

definition collected :: "run_handler \<Rightarrow> string \<times> message list \<times> string list" where
  "collected h = (rh_text h, rh_messages h, rh_seen h)"

lemma send_stream_event_sel [simp]:
  "rh_text (send_stream_event st room ev h) = rh_text h"
  "rh_messages (send_stream_event st room ev h) = rh_messages h"
  "rh_seen (send_stream_event st room ev h) = rh_seen h"
  by (simp_all add: send_stream_event_def)

lemma handle_update_collected:
  "collected h = collected h' \<Longrightarrow> collected (handle_update st room c h) = collected (handle_update st' room' c h')"
  by (cases c) (auto simp: collected_def finish_call_def announce_call_def)

lemma updates_collected:
  "collected h = collected h' \<Longrightarrow>
   collected (fold (session_update (Some (handle_update st room))) ns h) = collected (fold (session_update (Some (handle_update st' room'))) ns h')"
proof (induction ns arbitrary: h h')
  case (Cons n ns)
  have "collected (session_update (Some (handle_update st room)) n h) = collected (session_update (Some (handle_update st' room')) n h')"
    using handle_update_collected [OF Cons.prems] Cons.prems by (simp add: session_update_def split: option.split)
  from Cons.IH [OF this] show ?case by simp
qed simp

definition forwarded :: "(nat \<Rightarrow> bool) \<Rightarrow> run_handler \<Rightarrow> run_handler \<Rightarrow> bool" where
  "forwarded room h h' = (\<exists>evs. rh_out h' = rh_out h @ evs \<and> list_all (\<lambda>e. \<not> is_terminal e) evs)"

lemma forwarded_refl [simp]: "forwarded room h h"
  by (simp add: forwarded_def)

lemma forwarded_trans: "forwarded room h h1 \<Longrightarrow> forwarded room h1 h2 \<Longrightarrow> forwarded room h h2"
  by (fastforce simp: forwarded_def)

lemma send_forwarded: "\<not> is_terminal ev \<Longrightarrow> rh_out h1 = rh_out h \<Longrightarrow> forwarded room h (send_stream_event st room ev h1)"
  by (simp add: forwarded_def send_stream_event_def)

lemma handle_update_forwarded: "forwarded room h (handle_update st room c h)"
proof (cases c)
  case (OnToolCall tc)
  have "forwarded room h (announce_call st room tc h)" by (simp add: announce_call_def send_forwarded)
  moreover have "forwarded room h1 (finish_call st room tc h1)" for h1 by (simp add: finish_call_def send_forwarded)
  ultimately show ?thesis using OnToolCall by (auto intro: forwarded_trans)
qed (simp_all add: send_forwarded)

lemma updates_forwarded: "forwarded room h (fold (session_update (Some (handle_update st room))) ns h)"
proof (induction ns arbitrary: h)
  case (Cons n ns)
  have "forwarded room h (session_update (Some (handle_update st room)) n h)"
    by (simp add: session_update_def handle_update_forwarded split: option.split)
  then show ?case using Cons by (auto intro: forwarded_trans)
qed simp

text \<open>Tool results follow the message that announces their call, and no call is announced twice.\<close>

fun announced :: "message list \<Rightarrow> string list" where
  "announced [] = []"
| "announced (m # ms) = map tc_id (msg_tool_calls m) @ announced ms"

lemma announced_append [simp]: "announced (xs @ ys) = announced xs @ announced ys"
  by (induction xs) auto

definition calls_in_order :: "message list \<Rightarrow> bool" where
  "calls_in_order ms = (distinct (announced ms) \<and>
     (\<forall>i < length ms. msg_role (ms ! i) = RoleTool \<longrightarrow> msg_tool_call_id (ms ! i) \<in> set (announced (take i ms))))"

lemma calls_in_order_Nil [simp]: "calls_in_order []"
  by (simp add: calls_in_order_def)

lemma calls_in_order_snoc:
  "calls_in_order (ms @ [m]) \<longleftrightarrow> calls_in_order ms \<and> distinct (map tc_id (msg_tool_calls m)) \<and>
     set (map tc_id (msg_tool_calls m)) \<inter> set (announced ms) = {} \<and>
     (msg_role m = RoleTool \<longrightarrow> msg_tool_call_id m \<in> set (announced ms))"
  by (auto simp: calls_in_order_def nth_append less_Suc_eq)

definition handler_ok :: "run_handler \<Rightarrow> bool" where
  "handler_ok h = (calls_in_order (rh_messages h) \<and> announced (rh_messages h) = rh_seen h)"

lemma handle_update_ok: "handler_ok h \<Longrightarrow> handler_ok (handle_update st room c h)"
  by (cases c) (auto simp: handler_ok_def finish_call_def announce_call_def calls_in_order_snoc announce_message_def empty_message_def)

lemma updates_ok: "handler_ok h \<Longrightarrow> handler_ok (fold (session_update (Some (handle_update st room))) ns h)"
proof (induction ns arbitrary: h)
  case (Cons n ns)
  then show ?case by (simp add: session_update_def handle_update_ok split: option.split)
qed simp

lemma new_run_handler_ok [simp]: "handler_ok new_run_handler"
  by (simp add: handler_ok_def new_run_handler_def)

section \<open>From the agent's events to the result\<close>

text \<open>
  What an agent may report in the course of a prompt: a call is started once and then, perhaps with
  other calls in between, finished with an output.
\<close>

abbreviation finishes :: "tool_call_event \<Rightarrow> bool" where
  "finishes tc \<equiv> te_status tc \<in> {''completed'', ''failed''}"

fun reported :: "string list \<Rightarrow> agent_event list \<Rightarrow> bool" where
  "reported seen [] = True"
| "reported seen (SendToolCall tc # evs) =
     (if finishes tc then te_id tc \<in> set seen \<and> te_output tc \<noteq> None \<and> reported seen evs
      else te_id tc \<notin> set seen \<and> reported (seen @ [te_id tc]) evs)"
| "reported seen (ev # evs) = reported seen evs"

fun report_messages :: "agent_event list \<Rightarrow> message list" where
  "report_messages [] = []"
| "report_messages (SendToolCall tc # evs) =
     (if finishes tc then tool_message (te_id tc) (any_text (te_output tc)) else announce_message tc) # report_messages evs"
| "report_messages (ev # evs) = report_messages evs"

fun report_text :: "agent_event list \<Rightarrow> string" where
  "report_text [] = ''''"
| "report_text (SendMessage t # evs) = t @ report_text evs"
| "report_text (ev # evs) = report_text evs"

lemma announce_message_fields: "announce_message (tc\<lparr>te_status := s, te_output := v\<rparr>) = announce_message tc"
  by (simp add: announce_message_def)

lemma collect_report:
  assumes "ctors_ok c" "reported (rh_seen h) evs"
  shows "rh_text (fold (session_update (Some (handle_update st room))) (map (sender_notification c sid) evs) h) = rh_text h @ report_text evs \<and>
    rh_messages (fold (session_update (Some (handle_update st room))) (map (sender_notification c sid) evs) h) = rh_messages h @ report_messages evs"
  using assms(2)
proof (induction evs arbitrary: h)
  case (Cons ev evs)
  have u: "session_update (Some f) (sender_notification c sid e) g = (case wire_view e of None \<Rightarrow> g | Some k \<Rightarrow> f k g)" for f e and g :: run_handler
    by (simp add: session_update_def client_sees [OF assms(1)])
  show ?case
  proof (cases ev)
    case (SendToolCall tc)
    then show ?thesis using Cons.prems
      by (cases "finishes tc") (auto simp: u Cons.IH announce_call_def finish_call_def announce_message_def simp del: sender_notification.simps)
  qed (use Cons.prems in \<open>simp_all add: u Cons.IH del: sender_notification.simps\<close>)
qed simp

section \<open>Names of the tools\<close>

definition mcp_registered :: "mcp_call list \<Rightarrow> string set" where
  "mcp_registered cs = fold (\<lambda>c S. case c of McpAdd d \<Rightarrow> insert (fd_name d) S | McpRemove ns \<Rightarrow> S - set ns) cs {}"

lemma mcp_registered_snoc [simp]:
  "mcp_registered (cs @ [McpAdd d]) = insert (fd_name d) (mcp_registered cs)"
  "mcp_registered (cs @ [McpRemove ns]) = mcp_registered cs - set ns"
  by (simp_all add: mcp_registered_def)

definition tools_in_step :: "'w acp_runner \<Rightarrow> bool" where
  "tools_in_step r = (\<exists>cs ns. ar_mcp r = Some cs \<and> ar_tool_names r = Some ns \<and> distinct ns \<and> set ns = mcp_registered cs)"

lemma fd_name_transfer [simp]: "fd_name (transfer_def descs n) = n"
  by (simp add: transfer_def_def Let_def)

lemma add_tools_in_step:
  assumes "tools_in_step r" "add_tools descs ns r = (x, r')"
  shows "x = Returns () \<and> tools_in_step r' \<and> set (the (ar_tool_names r')) = set (the (ar_tool_names r)) \<union> set ns"
  using assms
proof (induction ns arbitrary: r)
  case (Cons n ns)
  then obtain cs names where r: "ar_mcp r = Some cs" "ar_tool_names r = Some names" "distinct names" "set names = mcp_registered cs"
    by (auto simp: tools_in_step_def)
  let ?r = "(mcp_record (McpAdd (transfer_def descs n)) r)\<lparr>ar_tool_names := Some (if n \<in> set names then names else names @ [n])\<rparr>"
  have "tools_in_step ?r" using r by (auto simp: tools_in_step_def mcp_record_def)
  from Cons.IH [OF this] Cons.prems(2) r show ?case by (auto simp: mcp_record_def)
qed simp

lemma remove_tools_in_step:
  "tools_in_step r \<Longrightarrow> tools_in_step (remove_tools ns r) \<and> set (the (ar_tool_names (remove_tools ns r))) = set (the (ar_tool_names r)) - set ns"
  by (auto simp: tools_in_step_def remove_tools_def mcp_record_def)

lemma map_str_equal_iff:
  assumes "distinct ns" "distinct b"
  shows "map_str_equal (Some ns) b \<longleftrightarrow> set ns = set b"
proof
  assume "map_str_equal (Some ns) b"
  then show "set ns = set b" using assms by (intro distinct_set_eq_length) (auto simp: map_str_equal_def list_all_iff)
next
  assume "set ns = set b"
  then show "map_str_equal (Some ns) b" using assms distinct_card [of ns] distinct_card [of b] by (simp add: map_str_equal_def list_all_iff)
qed

text \<open>With a map that is not nil the registered tools become exactly the wanted ones.\<close>

lemma sync_registers_desired:
  assumes "tools_in_step r" "\<And>l. set (ord l) = set l" "sync_tools ord self members r = (x, r')"
  shows "x = Returns () \<and> tools_in_step r' \<and> mcp_registered (the (ar_mcp r')) = set (desired_tools self members)"
proof -
  obtain cs ns where r: "ar_mcp r = Some cs" "ar_tool_names r = Some ns" "distinct ns" "set ns = mcp_registered cs"
    using assms(1) by (auto simp: tools_in_step_def)
  have reg: "set (the (ar_tool_names t)) = mcp_registered (the (ar_mcp t))" if "tools_in_step t" for t :: "'a acp_runner"
    using that by (auto simp: tools_in_step_def)
  show ?thesis
  proof (cases "map_str_equal (Some ns) (desired_tools self members)")
    case True
    moreover from True have "set ns = set (desired_tools self members)"
      using r(3) by (simp add: map_str_equal_iff desired_tools_def)
    ultimately show ?thesis using assms r by (auto simp: sync_tools_def)
  next
    case False
    let ?rm = "filter (\<lambda>n. n \<notin> set (desired_tools self members)) (ord ns)"
    note rm = remove_tools_in_step [OF assms(1), of ?rm]
    from add_tools_in_step [OF conjunct1 [OF rm]] assms(3) r False
    have "x = Returns () \<and> tools_in_step r' \<and> set (the (ar_tool_names r')) =
        set (the (ar_tool_names (remove_tools ?rm r))) \<union> set (filter (\<lambda>n. n \<notin> set ns) (ord (desired_tools self members)))"
      by (simp add: sync_tools_def Let_def)
    with rm reg [of r'] show ?thesis by (auto simp: assms(2) r)
  qed
qed

text \<open>The map is nil after \<^verbatim>\<open>New\<close>, and no operation of the runner changes that.\<close>

definition names_nil :: "'w acp_runner \<Rightarrow> bool" where
  "names_nil r = (ar_tool_names r = None \<and> ar_mcp r \<noteq> None)"

lemma add_tools_nil:
  "names_nil r \<Longrightarrow> names_nil (snd (add_tools descs ns r)) \<and> fst (add_tools descs ns r) = (if ns = [] then Returns () else Panics nil_map_panic)"
  by (cases ns) (auto simp: names_nil_def mcp_record_def)

lemma sync_tools_nil:
  assumes "names_nil r" "\<And>l. set (ord l) = set l"
  shows "names_nil (snd (sync_tools ord self members r)) \<and>
    fst (sync_tools ord self members r) = (if desired_tools self members = [] then Returns () else Panics nil_map_panic)"
proof -
  have "ord [] = []" using assms(2) [of "[]"] by simp
  moreover have "filter (\<lambda>n. n \<notin> set []) (ord (desired_tools self members)) = [] \<longleftrightarrow> desired_tools self members = []"
    using assms(2) [of "desired_tools self members"] by (simp add: filter_empty_conv) (metis set_empty)
  ultimately show ?thesis
    using assms(1) add_tools_nil [OF assms(1), of "member_descs self members" "ord (desired_tools self members)"]
    by (simp add: sync_tools_def Let_def names_nil_def map_str_equal_def remove_tools_def)
qed

lemma acp_new_nil:
  assumes "acp_new o1 name w = (None, s, r, w')"
  shows "names_nil r"
  using assms by (auto simp: acp_new_def start_mcp_server_def raw_runner_def names_nil_def Let_def split: sum.splits option.splits prod.splits)

lemma acp_close_nil: "names_nil r \<Longrightarrow> names_nil (fst (snd (acp_close conn r w)))"
  by (auto simp: acp_close_def stop_mcp_server_def names_nil_def Let_def split: option.splits prod.splits)

lemma desired_tools_Nil: "desired_tools self members = [] \<longleftrightarrow> list_all (\<lambda>m. ai_name m = self) members"
  by (auto simp: desired_tools_def list_all_iff filter_empty_conv)

text \<open>The states of a runner between its creation and the end of the program.\<close>

inductive acp_reaches :: "('w, 'cfg, 'mode) sdk_conn \<Rightarrow> 'w acp_runner \<Rightarrow> 'w acp_runner \<Rightarrow> bool" for conn r where
  reaches_refl: "acp_reaches conn r r"
| reaches_prepare: "acp_reaches conn r r1 \<Longrightarrow> acp_reaches conn r (acp_prepare rec_handoff prompt final r1)"
| reaches_close: "acp_reaches conn r r1 \<Longrightarrow> acp_reaches conn r (fst (snd (acp_close conn r1 w)))"
| reaches_sync: "acp_reaches conn r r1 \<Longrightarrow> (\<And>l. set (ord l) = set l) \<Longrightarrow> acp_reaches conn r (snd (sync_tools ord self members r1))"

lemma acp_reaches_nil: "acp_reaches conn r r1 \<Longrightarrow> names_nil r \<Longrightarrow> names_nil r1"
  by (induction rule: acp_reaches.induct) (simp_all add: sync_tools_nil acp_close_nil, simp add: names_nil_def acp_prepare_def)

section \<open>Properties\<close>

lemma acp_prompt_out:
  assumes "acp_prompt conn True room r sess pre input w = (x, h, w')"
  shows "list_all (\<lambda>e. \<not> is_terminal e) (rh_out h)"
proof -
  obtain ns where "h = fold (session_update (Some (handle_update True room))) ns new_run_handler"
    using assms by (auto simp: acp_prompt_def session_prompt_def set_event_handler_def split: prod.splits)
  then show ?thesis using updates_forwarded [of room new_run_handler True ns] by (auto simp: forwarded_def new_run_handler_def)
qed

lemma acp_prompt_collected:
  "fst (acp_prompt conn st room r sess pre input w) = fst (acp_prompt conn st' room' r sess pre input w) \<and>
   collected (fst (snd (acp_prompt conn st room r sess pre input w))) = collected (fst (snd (acp_prompt conn st' room' r sess pre input w)))"
  by (auto simp: acp_prompt_def session_prompt_def set_event_handler_def updates_collected split: prod.splits)

lemma collector_result_collected: "collected h = collected h' \<Longrightarrow> collector_result h reason = collector_result h' reason"
  by (simp add: collected_def collector_result_def)

text \<open>
  C16: a streaming run over ACP sends exactly one terminal event, as its last event, whatever the
  agent reports and whichever events the channel has no room for; the result it carries is the
  result of the plain run, so a full channel costs the display, never the result.
\<close>

theorem acp_stream_matches_run:
  "\<exists>evs t. fst (acp_stream conn room r pre input w) = evs @ [t] \<and> list_all (\<lambda>e. \<not> is_terminal e) evs \<and>
     (case fst (acp_run conn r pre input w) of Inr res \<Rightarrow> t = StreamDone (Some res) | Inl e \<Rightarrow> (\<exists>e'. t = StreamError e'))"
proof (cases "ar_closed r \<or> ar_session r = None")
  case True
  then show ?thesis by (auto simp: acp_stream_def acp_run_def)
next
  case False
  then obtain sess where s: "\<not> ar_closed r" "ar_session r = Some sess" by auto
  obtain x h w1 where p: "acp_prompt conn True room r sess pre input w = (x, h, w1)" by (metis prod_cases3)
  obtain x' h' w1' where p': "acp_prompt conn False (\<lambda>_. False) r sess pre input w = (x', h', w1')" by (metis prod_cases3)
  have c: "x' = x" "collected h = collected h'"
    using acp_prompt_collected [of conn True room r sess pre input w False "\<lambda>_. False"] by (simp_all add: p p')
  show ?thesis
    using acp_prompt_out [OF p] collector_result_collected [OF c(2)] s p p' c(1)
    by (auto simp: acp_stream_def acp_run_def split: sum.splits)
qed

text \<open>
  C17: when an agent behind this repository's ACP server answers a prompt, the runner's final output
  is the text of its messages, thoughts left out, and the messages of the result are the calls it
  started and the outputs it finished them with, in the order in which it reported them.
\<close>

theorem acp_answer_end_to_end:
  assumes "ctors_ok c" "reported [] evs" "\<not> ar_closed r" "ar_session r = Some sess"
    and "xc_prompt conn \<lparr>xp_session = as_id sess, xp_prompt = map Some (pq_blocks (build_prompt_request r pre input))\<rparr> w =
      ((map (sender_notification c sid) evs, Inr ''end_turn''), w')"
  shows "fst (acp_run conn r pre input w) = Inr (empty_run_result\<lparr>rr_final_output := report_text evs, rr_stop_reason := ''end_turn'',
    rr_messages := report_messages evs, rr_turn_count := 1\<rparr>)"
  using assms collect_report [OF assms(1), of new_run_handler evs False "\<lambda>_. False" sid]
  by (simp add: acp_run_def acp_prompt_def session_prompt_def set_event_handler_def check_stop_def collector_result_def
      new_run_handler_def empty_run_result_def)

text \<open>
  C30: whatever fails while a runner is created, the handoff server is stopped and the process is
  ended; a runner that is returned serves handoffs and holds its connection.
\<close>

theorem acp_new_cleans_up:
  "case acp_new o1 name w of
     (Some e, s, r, w') \<Rightarrow> \<not> ar_listening r \<and> ar_session r = None \<and> (case s of None \<Rightarrow> True | Some s \<Rightarrow> \<not> as_running s \<and> \<not> as_stdin_open s)
   | (None, s, r, w') \<Rightarrow> ar_listening r \<and> \<not> ar_closed r \<and> s \<noteq> None \<and> ar_session r = s"
  by (auto simp: acp_new_def start_mcp_server_def stop_mcp_server_def acp_close_def raw_runner_def session_shutdown_def Let_def
      split: sum.splits option.splits prod.splits)

text \<open>
  The map of tool names is never made, so a runner that \<^verbatim>\<open>New\<close> returned panics whenever the
  team tells it of a member other than itself, and does nothing otherwise.
\<close>

theorem acp_teammate_panics:
  assumes "acp_new o1 name w = (None, s, r, w')" "acp_reaches conn r r'" "\<forall>l. set (ord l) = set l"
  shows "fst (sync_tools ord self members r') = (if list_all (\<lambda>m. ai_name m = self) members then Returns () else Panics nil_map_panic)"
  using sync_tools_nil [OF acp_reaches_nil [OF assms(2) acp_new_nil [OF assms(1)]], of ord self members] assms(3)
  by (simp add: desired_tools_Nil)

section \<open>Witnesses\<close>

definition demo_ctors :: sdk_ctors where
  "demo_ctors = \<lparr>mk_message = (\<lambda>b. no_update\<lparr>up_message := Some b\<rparr>), mk_thought = (\<lambda>b. no_update\<lparr>up_thought := Some b\<rparr>),
     mk_start = (\<lambda>i t s v. no_update\<lparr>up_tool_call := Some \<lparr>xt_id = i, xt_title = t, xt_status = s, xt_input = v, xt_output = None\<rparr>\<rparr>),
     mk_update = (\<lambda>i s v. no_update\<lparr>up_tool_update := Some \<lparr>xu_id = i, xu_title = None, xu_status = Some s, xu_input = None, xu_output = v\<rparr>\<rparr>)\<rparr>"

lemma demo_ctors_ok: "ctors_ok demo_ctors"
  by (simp add: ctors_ok_def demo_ctors_def)

definition demo_report :: "agent_event list" where
  "demo_report = [SendMessage ''a'', SendThought ''b'',
     SendToolCall \<lparr>te_id = ''1'', te_title = ''ls'', te_input = Some ''map[]'', te_status = '''', te_output = None\<rparr>,
     SendToolCall \<lparr>te_id = ''1'', te_title = '''', te_input = None, te_status = ''completed'', te_output = Some ''ok''\<rparr>, SendMessage ''c'']"

definition demo_conn :: "(unit, unit, unit) sdk_conn" where
  "demo_conn = \<lparr>xc_initialize = (\<lambda>q w. (Inr \<lparr>xr_version = 1, xr_load = True, xr_mcp = \<lparr>mc_acp = False, mc_http = True, mc_sse = False\<rparr>,
       xr_prompt = \<lparr>pc_image = False, pc_audio = False, pc_context = False\<rparr>,
       xr_session = \<lparr>xs_list = None, xs_delete = None, xs_resume = None, xs_close = None\<rparr>, xr_agent = None\<rparr>, w)),
     xc_new_session = (\<lambda>q w. (Inr \<lparr>xn_session = ''s'', xn_options = [], xn_modes = None\<rparr>, w)),
     xc_prompt = (\<lambda>q w. ((map (sender_notification demo_ctors ''s'') demo_report, Inr ''end_turn''), w)),
     xc_delete = (\<lambda>s w. (None, w)), xc_close = (\<lambda>s w. (None, w)), xc_list = (\<lambda>q w. (Inl (ErrText ''no''), w)), xc_resume = (\<lambda>q w. (None, w))\<rparr>"

definition demo_acp_outside :: "(unit, unit, unit) acp_outside" where
  "demo_acp_outside = \<lparr>ao_listen = Inr 4711, ao_connect = connect_stdio None None None ''agent'', ao_conn = demo_conn,
     ao_json = \<lparr>aj_enc_options = (\<lambda>_. None), aj_dec_options = (\<lambda>_. []), aj_enc_modes = (\<lambda>_. None), aj_dec_modes = (\<lambda>_. ()),
       aj_enc_sdk_options = (\<lambda>_. None), aj_read_options = (\<lambda>_. []), aj_enc_sdk_modes = (\<lambda>_. None),
       aj_read_modes = (\<lambda>_. \<lparr>mo_modes = [], mo_current = ''''\<rparr>)\<rparr>\<rparr>"

definition demo_session :: "run_handler acp_session" where
  "demo_session = \<lparr>as_id = ''s'', as_handler = None, as_stdin_open = True, as_running = True, as_stderr = Some ''''\<rparr>"

definition demo_runner :: "unit acp_runner" where
  "demo_runner = (raw_runner ''calc'')\<lparr>ar_mcp := Some [], ar_listening := True, ar_port := 4711, ar_session := Some demo_session, ar_acp_session := ''s''\<rparr>"

lemma demo_new: "acp_new demo_acp_outside ''calc'' () = (None, Some demo_session, demo_runner, ())"
  by (simp add: acp_new_def demo_acp_outside_def start_mcp_server_def connect_stdio_def demo_conn_def session_initialize_def session_new_def
      demo_runner_def demo_session_def raw_runner_def handshake_request_def)

theorem acp_answer_end_to_end_witness:
  "fst (acp_run demo_conn demo_runner [] (user_message ''hi'') ()) = Inr (empty_run_result\<lparr>rr_final_output := ''ac'',
    rr_stop_reason := ''end_turn'', rr_messages := [announce_message \<lparr>te_id = ''1'', te_title = ''ls'', te_input = Some ''map[]'', te_status = '''', te_output = None\<rparr>,
      tool_message ''1'' ''ok''], rr_turn_count := 1\<rparr>)"
proof -
  have "reported [] demo_report" "report_text demo_report = ''ac''"
    "report_messages demo_report = [announce_message \<lparr>te_id = ''1'', te_title = ''ls'', te_input = Some ''map[]'', te_status = '''', te_output = None\<rparr>,
      tool_message ''1'' ''ok'']"
    by (simp_all add: demo_report_def any_text_def)
  moreover have "\<not> ar_closed demo_runner" "ar_session demo_runner = Some demo_session" by (simp_all add: demo_runner_def raw_runner_def)
  ultimately show ?thesis
    using acp_answer_end_to_end [OF demo_ctors_ok, of demo_report demo_runner demo_session demo_conn "[]" "user_message ''hi''" "()" "''s''" "()"]
    by (simp add: demo_conn_def)
qed

theorem acp_teammate_panics_witness:
  "fst (sync_tools (\<lambda>l. l) ''calc'' [\<lparr>ai_name = ''calc'', ai_description = '''', ai_internal = False\<rparr>,
     \<lparr>ai_name = ''poet'', ai_description = '''', ai_internal = True\<rparr>] demo_runner) = Panics nil_map_panic"
  using acp_teammate_panics [OF demo_new acp_reaches.reaches_refl, where ord = "\<lambda>l. l" and self = "''calc''"
     and members = "[\<lparr>ai_name = ''calc'', ai_description = '''', ai_internal = False\<rparr>, \<lparr>ai_name = ''poet'', ai_description = '''', ai_internal = True\<rparr>]"] by simp

end
