(* ===== verification/Tokenizer.thy ===== *)
theory Tokenizer
  imports Messages
begin

text \<open>
  \<^verbatim>\<open>tokenizer/tokenizer.go\<close>: counting tokens with a cache of encoders. The package \<^verbatim>\<open>tiktoken\<close> is
  foreign: it finds the encoder of a model or of a named encoding, perhaps with an error, and an
  encoder gives the number of tokens of a text, or panics. Encoders are loaded over the network, so
  whether one is found depends on the world at the time. The cache is shared by goroutines: the
  read under the read lock and the rest under the write lock are two steps.
\<close>

record ('e, 'w) tiktoken =
  tt_for_model :: "string \<Rightarrow> 'w \<Rightarrow> ('e option \<times> go_err option) \<times> 'w"
  tt_encoding :: "string \<Rightarrow> 'w \<Rightarrow> ('e option \<times> go_err option) \<times> 'w"
  tt_encode :: "'e \<Rightarrow> string \<Rightarrow> nat go_ret"

type_synonym 'e encoder_cache = "'e option gomap"
type_synonym ('e, 'w) tokenizer_state = "'e encoder_cache \<times> 'w"

definition cl100k_base :: string where "cl100k_base = ''cl100k_base''"
definition o200k_base :: string where "o200k_base = ''o200k_base''"

text \<open>The encoder that is looked up for a model that is not in the cache.\<close>

definition find_encoder :: "('e, 'w) tiktoken \<Rightarrow> string \<Rightarrow> 'w \<Rightarrow> 'e option \<times> 'w" where
  "find_encoder tt modelID w =
     (case tt_for_model tt modelID w of
        ((tke, None), w) \<Rightarrow> (tke, w)
      | ((_, Some _), w) \<Rightarrow>
          (case tt_encoding tt cl100k_base w of
             ((tke, None), w) \<Rightarrow> (tke, w)
           | ((_, Some _), w) \<Rightarrow> (case tt_encoding tt o200k_base w of ((tke, _), w) \<Rightarrow> (tke, w))))"

definition read_cache :: "string \<Rightarrow> ('e, 'w) tokenizer_state \<Rightarrow> 'e option option" where
  "read_cache modelID st = map_of (fst st) modelID"

definition fill_cache :: "('e, 'w) tiktoken \<Rightarrow> string \<Rightarrow> ('e, 'w) tokenizer_state \<Rightarrow> 'e option \<times> ('e, 'w) tokenizer_state" where
  "fill_cache tt modelID st =
     (case map_of (fst st) modelID of
        Some tke \<Rightarrow> (tke, st)
      | None \<Rightarrow> (case find_encoder tt modelID (snd st) of (tke, w) \<Rightarrow> (tke, (AList.update modelID tke (fst st), w))))"

text \<open>\<open>between\<close> is what other goroutines do to the cache, and what else happens, between the two steps.\<close>

definition for_model :: "(('e, 'w) tokenizer_state \<Rightarrow> ('e, 'w) tokenizer_state) \<Rightarrow> ('e, 'w) tiktoken \<Rightarrow> string
    \<Rightarrow> ('e, 'w) tokenizer_state \<Rightarrow> 'e option \<times> ('e, 'w) tokenizer_state" where
  "for_model between tt modelID st =
     (case read_cache modelID st of
        Some tke \<Rightarrow> (tke, st)
      | None \<Rightarrow> fill_cache tt modelID (between st))"

text \<open>The loop of \<^verbatim>\<open>heuristicCount\<close> ranges over runes; a byte that starts none is a rune above 127.\<close>

definition rune_weight :: "string \<Rightarrow> nat" where
  "rune_weight r = (if length r = 1 \<and> in_range 0 127 (hd r) then 1 else 2)"

definition heuristic_count :: "string \<Rightarrow> nat" where
  "heuristic_count s = sum_list (map rune_weight (go_runes s)) div 4 + 1"

definition encoded_count :: "('e, 'w) tiktoken \<Rightarrow> 'e option \<Rightarrow> string \<Rightarrow> nat" where
  "encoded_count tt tke s =
     (case tke of
        None \<Rightarrow> heuristic_count s
      | Some e \<Rightarrow> (case tt_encode tt e s of Panics p \<Rightarrow> heuristic_count s | Returns n \<Rightarrow> n))"

definition count_tokens :: "(('e, 'w) tokenizer_state \<Rightarrow> ('e, 'w) tokenizer_state) \<Rightarrow> ('e, 'w) tiktoken \<Rightarrow> string \<Rightarrow> string
    \<Rightarrow> ('e, 'w) tokenizer_state \<Rightarrow> nat \<times> ('e, 'w) tokenizer_state" where
  "count_tokens between tt modelID s st =
     (if s = '''' then (0, st)
      else (case for_model between tt modelID st of (tke, st) \<Rightarrow> (encoded_count tt tke s, st)))"

section \<open>Properties\<close>

text \<open>The life of a process: models are looked up, in any order, and the world changes.\<close>

inductive tokenizer_run :: "('e, 'w) tiktoken \<Rightarrow> ('e, 'w) tokenizer_state \<Rightarrow> ('e, 'w) tokenizer_state \<Rightarrow> bool" for tt where
  run_start: "tokenizer_run tt st st"
| run_fill: "tokenizer_run tt st u \<Longrightarrow> tokenizer_run tt st (snd (fill_cache tt m u))"
| run_world: "tokenizer_run tt st (c, w) \<Longrightarrow> tokenizer_run tt st (c, w')"

text \<open>An entry of the cache stays, and it is what the look-up gave in some world.\<close>

lemma fill_cache_keeps: "map_of (fst st) m = Some tke \<Longrightarrow> map_of (fst (snd (fill_cache tt m' st))) m = Some tke"
  by (auto simp: fill_cache_def update_conv split: option.splits prod.splits)

lemma fill_cache_result: "map_of (fst (snd (fill_cache tt m st))) m = Some (fst (fill_cache tt m st))"
  by (auto simp: fill_cache_def update_conv split: option.splits prod.splits)

lemma tokenizer_run_keeps: "tokenizer_run tt st u \<Longrightarrow> map_of (fst st) m = Some tke \<Longrightarrow> map_of (fst u) m = Some tke"
  by (induction rule: tokenizer_run.induct) (auto intro: fill_cache_keeps)

definition loaded_once :: "('e, 'w) tiktoken \<Rightarrow> 'e encoder_cache \<Rightarrow> bool" where
  "loaded_once tt c = (\<forall>m tke. map_of c m = Some tke \<longrightarrow> (\<exists>w. tke = fst (find_encoder tt m w)))"

lemma fill_cache_loaded: "loaded_once tt (fst st) \<Longrightarrow> loaded_once tt (fst (snd (fill_cache tt m st)))"
  by (auto simp: loaded_once_def fill_cache_def update_conv split: option.splits prod.splits if_splits) (metis fst_conv)

lemma tokenizer_run_loaded: "tokenizer_run tt st u \<Longrightarrow> loaded_once tt (fst st) \<Longrightarrow> loaded_once tt (fst u)"
  by (induction rule: tokenizer_run.induct) (auto intro: fill_cache_loaded)

text \<open>The encoder that a call gets is in the cache afterwards.\<close>

lemma for_model_cached: "map_of (fst (snd (for_model between tt m st))) m = Some (fst (for_model between tt m st))"
  by (auto simp: for_model_def read_cache_def fill_cache_result split: option.split)

lemma for_model_known: "map_of (fst st) m = Some tke \<Longrightarrow> for_model between tt m st = (tke, st)"
  by (simp add: for_model_def read_cache_def)

text \<open>What a count would be in a world, without a cache and without other goroutines.\<close>

definition plain_count :: "('e, 'w) tiktoken \<Rightarrow> string \<Rightarrow> string \<Rightarrow> 'w \<Rightarrow> nat" where
  "plain_count tt modelID s w = (if s = '''' then 0 else encoded_count tt (fst (find_encoder tt modelID w)) s)"

text \<open>
  C28: in the life of a process, whatever other goroutines look up before and during the calls and
  however the network comes and goes: all counts of a text for a model are the same number. The first
  call for the model returns what it would return without a cache at that moment (so if the encoder
  could not be loaded then, all later calls estimate too), and where loading does not depend on the
  moment every call returns what it would return without a cache. No count panics.
\<close>

theorem count_independent_of_cache:
  assumes "tokenizer_run tt ([], w0) st" "tokenizer_run tt st (between st)" "count_tokens between tt m s st = (n, st1)"
    and "tokenizer_run tt st1 st2"
  shows "fst (count_tokens between2 tt m s st2) = n \<and>
    (map_of (fst (between st)) m = None \<longrightarrow> n = plain_count tt m s (snd (between st))) \<and>
    ((\<forall>w w'. fst (find_encoder tt m w) = fst (find_encoder tt m w')) \<longrightarrow> n = plain_count tt m s w)"
proof (cases "s = ''''")
  case True
  then show ?thesis using assms(3) by (simp add: count_tokens_def plain_count_def)
next
  case False
  obtain tke where f: "for_model between tt m st = (tke, st1)" and n: "n = encoded_count tt tke s"
    using assms(3) False by (auto simp: count_tokens_def split: prod.splits)
  have "map_of (fst st2) m = Some tke"
    using tokenizer_run_keeps [OF assms(4)] for_model_cached [of between tt m st] f by simp
  then have same: "fst (count_tokens between2 tt m s st2) = n" using False n by (simp add: count_tokens_def for_model_known)
  have first: "n = plain_count tt m s (snd (between st))" if "map_of (fst (between st)) m = None"
  proof -
    have "map_of (fst st) m = None" using tokenizer_run_keeps [OF assms(2), of m] that by (cases "map_of (fst st) m") auto
    then have "tke = fst (find_encoder tt m (snd (between st)))" using f that
      by (auto simp: for_model_def read_cache_def fill_cache_def split: prod.splits)
    then show ?thesis using n False by (simp add: plain_count_def)
  qed
  have l: "loaded_once tt (fst st)" using tokenizer_run_loaded [OF assms(1)] by (simp add: loaded_once_def)
  have "loaded_once tt (fst st1)" using l fill_cache_loaded [OF tokenizer_run_loaded [OF assms(2) l], of m] f
    by (auto simp: for_model_def split: option.splits)
  then obtain v where "tke = fst (find_encoder tt m v)"
    using for_model_cached [of between tt m st] f by (auto simp: loaded_once_def)
  then have "n = plain_count tt m s w" if "\<forall>w w'. fst (find_encoder tt m w) = fst (find_encoder tt m w')"
    using that n False by (auto simp: plain_count_def) metis
  then show ?thesis using same first by blast
qed

lemma rune_weight_bound: "1 \<le> rune_weight r \<and> rune_weight r \<le> 2"
  by (simp add: rune_weight_def)

lemma sum_weights: "length rs \<le> sum_list (map rune_weight rs) \<and> sum_list (map rune_weight rs) \<le> 2 * length rs"
proof (induction rs)
  case (Cons r rs)
  then show ?case using rune_weight_bound [of r] by simp
qed simp

text \<open>The heuristic is within a quarter and a half of the number of runes: half a token for a rune that is not ASCII.\<close>

lemma heuristic_count_bounds:
  "length (go_runes s) div 4 + 1 \<le> heuristic_count s \<and> heuristic_count s \<le> length (go_runes s) div 2 + 1"
  using sum_weights [of "go_runes s"] div_le_mono [of "length (go_runes s)" "sum_list (map rune_weight (go_runes s))" 4]
  by (auto simp: heuristic_count_def)

text \<open>A failed load stays in the cache: the nil encoder is found there ever after.\<close>

lemma failed_load_is_cached:
  assumes "fst (find_encoder tt m (snd st)) = None" "map_of (fst st) m = None" "tokenizer_run tt (snd (fill_cache tt m st)) u" "s \<noteq> ''''"
  shows "fst (count_tokens between tt m s u) = heuristic_count s"
proof -
  have "map_of (fst (snd (fill_cache tt m st))) m = Some None"
    using fill_cache_result [of tt m st] assms(1,2) by (auto simp: fill_cache_def split: prod.splits)
  from tokenizer_run_keeps [OF assms(3) this] show ?thesis
    using assms(4) by (simp add: count_tokens_def for_model_known encoded_count_def)
qed

text \<open>Encoders that are found only while the network is there.\<close>

definition word_counter :: "(unit, bool) tiktoken" where
  "word_counter = \<lparr>tt_for_model = (\<lambda>m w. ((None, Some (ErrText ''unknown'')), w)),
     tt_encoding = (\<lambda>_ w. (if w then (Some (), None) else (None, Some (ErrText ''no network'')), w)),
     tt_encode = (\<lambda>_ s. Returns (length s div 3))\<rparr>"

text \<open>The network comes back after the first count: the second one still estimates.\<close>

theorem count_independent_of_cache_witness:
  "fst (count_tokens id word_counter ''llama'' ''hello'' ([(''llama'', None)], True)) = 2 \<and> plain_count word_counter ''llama'' ''hello'' False = 2 \<and>
   plain_count word_counter ''llama'' ''hello'' True = 1"
proof -
  have r: "go_runes ''hello'' = [''h'', ''e'', ''l'', ''l'', ''o'']" by code_simp
  have h: "heuristic_count ''hello'' = 2" by (simp add: heuristic_count_def r rune_weight_def in_range_def)
  have c: "count_tokens id word_counter ''llama'' ''hello'' ([], False) = (2, ([(''llama'', None)], False))"
    by (simp add: count_tokens_def for_model_def read_cache_def fill_cache_def find_encoder_def word_counter_def encoded_count_def h)
  have n: "tokenizer_run word_counter ([(''llama'', None)], False) ([(''llama'', None)], True)"
    by (rule tokenizer_run.run_world, rule tokenizer_run.run_start)
  have "tokenizer_run word_counter ([], False) (id ([], False))" by (simp add: tokenizer_run.run_start)
  from count_independent_of_cache [OF tokenizer_run.run_start this c n, of id]
  have "fst (count_tokens id word_counter ''llama'' ''hello'' ([(''llama'', None)], True)) = 2"
    "2 = plain_count word_counter ''llama'' ''hello'' False" by simp_all
  then show ?thesis by (simp add: plain_count_def find_encoder_def word_counter_def encoded_count_def)
qed

end
