(* ===== verification/OpenAi.thy ===== *)
theory OpenAi
  imports Messages
begin

text \<open>
  \<^verbatim>\<open>model/openai/openai.go\<close>, \<^verbatim>\<open>model/openai/summarizer.go\<close> and \<^verbatim>\<open>model/openai/embedder.go\<close>: the model,
  the summarizer and the embedder on top of the OpenAI client. The client package is foreign: its
  messages are the types \<open>sdk_...\<close> with the fields used here, a call of it is an argument, and \<open>status\<close>
  is the HTTP status of an error, if it is one of the API. JSON is decoded by arguments.
\<close>

section \<open>Messages to the client (openai.go)\<close>

datatype sdk_part = PartText string | PartImage string | PartZero

text \<open>A call of an assistant: id, name and arguments. A tool message: content and id.\<close>

datatype sdk_message =
    SdkSystem string
  | SdkUser string
  | SdkUserParts "sdk_part list"
  | SdkAssistant string
  | SdkAssistantCalls "(string \<times> string \<times> string) list"
  | SdkTool string string

definition image_nil_panic :: string where
  "image_nil_panic = ''runtime error: invalid memory address or nil pointer dereference''"

fun to_sdk_content_parts :: "content_part list \<Rightarrow> sdk_part list go_ret" where
  "to_sdk_content_parts [] = Returns []"
| "to_sdk_content_parts (p # ps) =
     (case (if cp_type p = ''text'' then Returns (PartText (cp_text p))
            else if cp_type p = ''image_url'' then
              (case cp_image_url p of None \<Rightarrow> Panics image_nil_panic | Some i \<Rightarrow> Returns (PartImage (iu_url i)))
            else Returns PartZero) of
        Panics m \<Rightarrow> Panics m
      | Returns x \<Rightarrow> (case to_sdk_content_parts ps of Panics m \<Rightarrow> Panics m | Returns xs \<Rightarrow> Returns (x # xs)))"

definition to_sdk_tool_call_params :: "tool_call list \<Rightarrow> (string \<times> string \<times> string) list" where
  "to_sdk_tool_call_params calls = map (\<lambda>c. (tc_id c, tc_name c, tc_args c)) calls"

definition to_sdk_message :: "message \<Rightarrow> sdk_message go_ret" where
  "to_sdk_message m =
     (case msg_role m of
        RoleSystem \<Rightarrow> Returns (SdkSystem (msg_content m))
      | RoleUser \<Rightarrow>
          if is_multimodal m
          then (case to_sdk_content_parts (msg_content_parts m) of Panics p \<Rightarrow> Panics p | Returns ps \<Rightarrow> Returns (SdkUserParts ps))
          else Returns (SdkUser (msg_content m))
      | RoleAssistant \<Rightarrow>
          if 0 < length (msg_tool_calls m) then Returns (SdkAssistantCalls (to_sdk_tool_call_params (msg_tool_calls m)))
          else Returns (SdkAssistant (msg_content m))
      | RoleTool \<Rightarrow> Returns (SdkTool (msg_content m) (msg_tool_call_id m))
      | RoleOther _ \<Rightarrow> Returns (SdkUser (msg_content m)))"

fun to_sdk_messages :: "message list \<Rightarrow> sdk_message list go_ret" where
  "to_sdk_messages [] = Returns []"
| "to_sdk_messages (m # ms) =
     (case to_sdk_message m of Panics p \<Rightarrow> Panics p
      | Returns x \<Rightarrow> (case to_sdk_messages ms of Panics p \<Rightarrow> Panics p | Returns xs \<Rightarrow> Returns (x # xs)))"

text \<open>The parameters of a tool: no schema, one that is no JSON object, or the decoded one.\<close>

datatype 'j sdk_schema = NilSchema | EmptySchema | Schema 'j

record 'j sdk_tool =
  st_name :: string
  st_description :: string
  st_parameters :: "'j sdk_schema"

definition to_sdk_tools :: "(string \<Rightarrow> go_err + 'j) \<Rightarrow> function_def list \<Rightarrow> 'j sdk_tool list" where
  "to_sdk_tools dec defs = map (\<lambda>d. \<lparr>st_name = fd_name d, st_description = fd_description d,
     st_parameters = (if 0 < length (fd_parameters d) then (case dec (fd_parameters d) of Inl _ \<Rightarrow> EmptySchema | Inr j \<Rightarrow> Schema j) else NilSchema)\<rparr>) defs"

section \<open>Requests\<close>

record openai_request = chat_request +
  oq_top_p :: "real option"
  oq_stop :: "string list"

record 'j sdk_params =
  sp_model :: string
  sp_messages :: "sdk_message list"
  sp_tools :: "'j sdk_tool list"
  sp_temperature :: "real option"
  sp_max_tokens :: "int option"
  sp_top_p :: "real option"
  sp_stop :: "string list option"

record openai_model =
  om_model :: string
  om_window :: int

definition with_context_window :: "int \<Rightarrow> openai_model \<Rightarrow> openai_model" where
  "with_context_window n m = m\<lparr>om_window := n\<rparr>"

definition build_params :: "openai_model \<Rightarrow> (string \<Rightarrow> go_err + 'j) \<Rightarrow> openai_request \<Rightarrow> 'j sdk_params go_ret" where
  "build_params m dec q =
     (case to_sdk_messages (req_messages q) of
        Panics p \<Rightarrow> Panics p
      | Returns ms \<Rightarrow> Returns \<lparr>sp_model = (if req_model q = '''' then om_model m else req_model q), sp_messages = ms,
          sp_tools = to_sdk_tools dec (req_tools q), sp_temperature = req_temperature q,
          sp_max_tokens = (if req_max_tokens q \<noteq> 0 then Some (req_max_tokens q) else None), sp_top_p = oq_top_p q,
          sp_stop = (if 0 < length (oq_stop q) then Some (oq_stop q) else None)\<rparr>)"

definition busy_status :: "(go_err \<Rightarrow> int option) \<Rightarrow> go_err \<Rightarrow> bool" where
  "busy_status status e = (case status e of None \<Rightarrow> False | Some c \<Rightarrow> c = 429 \<or> c = 503)"

definition to_retryable_error :: "(go_err \<Rightarrow> int option) \<Rightarrow> go_err \<Rightarrow> go_err" where
  "to_retryable_error status e = (if busy_status status e then Retryable e 0 else ErrWrap ''chat completion: '' e '''')"

section \<open>Answers\<close>

record sdk_call =
  sk_call_index :: int
  sk_call_id :: string
  sk_call_type :: string
  sk_call_name :: string
  sk_call_args :: string

record sdk_choice =
  sx_index :: int
  sx_content :: string
  sx_raw :: string
  sx_calls :: "sdk_call list"
  sx_finish :: string

record sdk_completion =
  sy_choices :: "sdk_choice list"
  sy_usage :: usage

text \<open>\<open>rdec\<close> decodes the raw JSON: nothing on an error, otherwise the field, which may be missing or null.\<close>

definition extract_reasoning :: "(string \<Rightarrow> string option option) \<Rightarrow> string \<Rightarrow> string" where
  "extract_reasoning rdec raw =
     (if raw = '''' then ''''
      else case rdec raw of None \<Rightarrow> '''' | Some None \<Rightarrow> '''' | Some (Some r) \<Rightarrow> if r \<noteq> '''' then r else '''')"

definition to_response :: "(string \<Rightarrow> string option option) \<Rightarrow> sdk_completion \<Rightarrow> chat_response" where
  "to_response rdec c =
     \<lparr>resp_choices = map (\<lambda>x. \<lparr>ch_index = sx_index x,
          ch_message = empty_message\<lparr>msg_role := RoleAssistant, msg_content := sx_content x, msg_reasoning := extract_reasoning rdec (sx_raw x),
            msg_tool_calls := map (\<lambda>t. \<lparr>tc_id = sk_call_id t, tc_type = sk_call_type t,
              tc_function = \<lparr>tcf_name = sk_call_name t, tcf_args = sk_call_args t\<rparr>\<rparr>) (sx_calls x)\<rparr>,
          ch_finish_reason = sx_finish x\<rparr>) (sy_choices c),
      resp_usage = (if 0 < us_total (sy_usage c) then sy_usage c else zero_usage)\<rparr>"

definition to_stream_chunk :: "(string \<Rightarrow> string option option) \<Rightarrow> sdk_completion \<Rightarrow> stream_chunk" where
  "to_stream_chunk rdec c =
     \<lparr>sc_choices = map (\<lambda>x. \<lparr>sd_content = sx_content x, sd_reasoning = extract_reasoning rdec (sx_raw x),
          sd_tool_calls = map (\<lambda>t. \<lparr>tcd_index = sk_call_index t, tcd_id = sk_call_id t, tcd_type = sk_call_type t,
            tcd_function = \<lparr>fdl_name = sk_call_name t, fdl_args = sk_call_args t\<rparr>\<rparr>) (sx_calls x),
          sd_finish_reason = sx_finish x\<rparr>) (sy_choices c),
      sc_usage = (if 0 < us_total (sy_usage c) then Some (sy_usage c) else None)\<rparr>"

definition chat_completion :: "openai_model \<Rightarrow> (go_err \<Rightarrow> int option) \<Rightarrow> (string \<Rightarrow> go_err + 'j) \<Rightarrow> (string \<Rightarrow> string option option)
    \<Rightarrow> ('j sdk_params \<Rightarrow> 'w \<Rightarrow> (go_err + sdk_completion) \<times> 'w) \<Rightarrow> openai_request \<Rightarrow> 'w \<Rightarrow> (go_err + chat_response) go_ret \<times> 'w" where
  "chat_completion m status dec rdec call q w =
     (case build_params m dec q of
        Panics p \<Rightarrow> (Panics p, w)
      | Returns ps \<Rightarrow>
          (case call ps w of
             (Inl e, w) \<Rightarrow> (Returns (Inl (to_retryable_error status e)), w)
           | (Inr c, w) \<Rightarrow> (Returns (Inr (to_response rdec c)), w)))"

section \<open>Streams\<close>

text \<open>A stream of the client: an error at once, or chunks and then perhaps an error.\<close>

record sdk_stream =
  sz_start_err :: "go_err option"
  sz_chunks :: "sdk_completion list"
  sz_err :: "go_err option"

record stream_state =
  ss_left :: "sdk_completion list"
  ss_current :: "stream_chunk option"
  ss_done :: bool
  ss_err :: "go_err option"

definition reader_start :: "sdk_stream \<Rightarrow> stream_state" where
  "reader_start s = \<lparr>ss_left = sz_chunks s, ss_current = None, ss_done = False, ss_err = sz_err s\<rparr>"

definition chat_completion_stream :: "openai_model \<Rightarrow> (go_err \<Rightarrow> int option) \<Rightarrow> (string \<Rightarrow> go_err + 'j)
    \<Rightarrow> ('j sdk_params \<Rightarrow> 'w \<Rightarrow> sdk_stream \<times> 'w) \<Rightarrow> openai_request \<Rightarrow> 'w \<Rightarrow> (go_err + stream_state) go_ret \<times> 'w" where
  "chat_completion_stream m status dec call q w =
     (case build_params m dec q of
        Panics p \<Rightarrow> (Panics p, w)
      | Returns ps \<Rightarrow>
          (let (s, w) = call ps w in
           case sz_start_err s of
             Some e \<Rightarrow> (Returns (Inl (to_retryable_error status e)), w)
           | None \<Rightarrow> (Returns (Inr (reader_start s)), w)))"

definition reader_next :: "(string \<Rightarrow> string option option) \<Rightarrow> stream_state \<Rightarrow> bool \<times> stream_state" where
  "reader_next rdec s =
     (if ss_done s then (False, s)
      else case ss_left s of
        [] \<Rightarrow> (False, s\<lparr>ss_done := True\<rparr>)
      | c # cs \<Rightarrow> (True, s\<lparr>ss_left := cs, ss_current := Some (to_stream_chunk rdec c)\<rparr>))"

definition reader_err :: "(go_err \<Rightarrow> int option) \<Rightarrow> stream_state \<Rightarrow> go_err option" where
  "reader_err status s =
     (case ss_err s of None \<Rightarrow> None
      | Some e \<Rightarrow> if busy_status status e then Some (Retryable e 0) else Some e)"

section \<open>Summarizer (summarizer.go)\<close>

definition summarizer_prompt :: string where
  "summarizer_prompt =
     ''You are a conversation summarizer. Compress the following conversation into:'' @ nl @ nl @
     ''1. A concise SUMMARY (2-4 sentences) capturing key facts, decisions, and context.'' @ nl @ ''2. 0-5 RETRIEVAL HINTS '' @
     [CHR 0xE2] @ [CHR 0x80] @ [CHR 0x94] @ '' each a short label + a search query to find the original details.'' @ nl @ nl @
     ''Respond with ONLY valid JSON (no markdown, no commentary):'' @ nl @ ''{'' @ nl @ ''  '' @ dquote @ ''summary'' @ dquote @
     '': '' @ dquote @ ''string'' @ dquote @ '','' @ nl @ ''  '' @ dquote @ ''hints'' @ dquote @ '': ['' @ nl @ ''    {'' @ dquote @
     ''description'' @ dquote @ '': '' @ dquote @ ''short label'' @ dquote @ '', '' @ dquote @ ''query'' @ dquote @ '': '' @ dquote @
     ''search terms'' @ dquote @ ''}'' @ nl @ ''  ]'' @ nl @ ''}'' @ nl @ nl @ ''Rules:'' @ nl @
     ''- Preserve user preferences, personal info, and factual claims verbatim.'' @ nl @
     ''- Hints should be specific search queries, not generic descriptions.'' @ nl @
     ''- If the conversation is trivial (greetings, chitchat), hints can be empty.''"

text \<open>\<open>hints\<close> is the JSON of the hints.\<close>

definition summarizer_incremental_prompt :: "(retrieval_hint list \<Rightarrow> string) \<Rightarrow> compressed_context \<Rightarrow> string" where
  "summarizer_incremental_prompt hints prev =
     ''You are a conversation summarizer maintaining a rolling summary.'' @ nl @ nl @ ''EXISTING SUMMARY '' @ [CHR 0xE2] @
     [CHR 0x80] @ [CHR 0x94] @ '' DO NOT remove, shorten, or rephrase ANY part of this.'' @ nl @
     ''Copy it VERBATIM into your output, then append new information below it:'' @ nl @ nl @ cc_summary prev @
     nl @ nl @ ''EXISTING RETRIEVAL HINTS '' @ [CHR 0xE2] @ [CHR 0x80] @ [CHR 0x94] @
     '' keep ALL of these, they are proven useful:'' @ nl @ hints (cc_hints prev) @
     nl @ nl @ ''Below are NEW messages that occurred after the existing summary.'' @ nl @ nl @ ''Rules '' @ [CHR 0xE2] @ [CHR 0x80] @
     [CHR 0x94] @ '' follow these EXACTLY:'' @ nl @ ''1. Start your output by copying the EXISTING SUMMARY WORD-FOR-WORD.'' @ nl @
     ''   Do not rephrase, shorten, merge, or delete anything. It is immutable truth.'' @ nl @
     ''2. After the copied text, add 1-2 sentences describing what happened in the'' @ nl @ ''   NEW messages '' @ [CHR 0xE2] @
     [CHR 0x80] @ [CHR 0x94] @ '' key decisions, facts produced, files written, errors.'' @ nl @
     ''3. The ONLY time you may remove or modify existing summary text is when a new'' @ nl @
     ''   message EXPLICITLY contradicts it (e.g. user says '' @ dquote @ ''my colour is blue'' @ dquote @ '' when'' @ nl @
     ''   the summary says cerulean). In that case, replace only the contradicted'' @ nl @ ''   sentence '' @ [CHR 0xE2] @
     [CHR 0x80] @ [CHR 0x94] @ '' leave everything else intact.'' @ nl @
     ''4. Keep ALL existing retrieval hints. Add 0-3 new ones from the new messages.'' @ nl @ nl @
     ''Respond with ONLY valid JSON (no markdown, no commentary):'' @ nl @ ''{'' @ nl @ ''  '' @ dquote @ ''summary'' @ dquote @
     '': '' @ dquote @ ''string'' @ dquote @ '','' @ nl @ ''  '' @ dquote @ ''hints'' @ dquote @ '': ['' @ nl @ ''    {'' @ dquote @
     ''description'' @ dquote @ '': '' @ dquote @ ''short label'' @ dquote @ '', '' @ dquote @ ''query'' @ dquote @ '': '' @ dquote @
     ''search terms'' @ dquote @ ''}'' @ nl @ ''  ]'' @ nl @ ''}''"

definition transcript_line :: "message \<Rightarrow> string" where
  "transcript_line m = role_text (msg_role m) @ '': '' @ msg_content m @
     concat (map (\<lambda>tc. nl @ ''  tool_call: '' @ tc_name tc @ ''('' @ tc_args tc @ '')'') (msg_tool_calls m)) @
     (if msg_role m = RoleTool then '' // tool result'' else '''') @ nl"

definition summary_params :: "string \<Rightarrow> int \<Rightarrow> (retrieval_hint list \<Rightarrow> string) \<Rightarrow> message list \<Rightarrow> compressed_context option \<Rightarrow> 'j sdk_params" where
  "summary_params modelID maxTokens hints ms prev =
     \<lparr>sp_model = modelID,
      sp_messages = [SdkSystem (case prev of None \<Rightarrow> summarizer_prompt
          | Some p \<Rightarrow> if cc_summary p \<noteq> '''' then summarizer_incremental_prompt hints p else summarizer_prompt),
        SdkUser (concat (map transcript_line ms))],
      sp_tools = [], sp_temperature = Some 0.3, sp_max_tokens = Some (if maxTokens \<le> 0 then 1024 else maxTokens), sp_top_p = None, sp_stop = None\<rparr>"

definition strip_summary :: "string \<Rightarrow> string" where
  "strip_summary s =
     (let fence = [CHR 0x60, CHR 0x60, CHR 0x60];
          s = trim_space s; s = trim_prefix s (fence @ ''json''); s = trim_prefix s fence; s = trim_suffix s fence
      in trim_space s)"

definition parse_summary_response :: "(string \<Rightarrow> go_err + compressed_context) \<Rightarrow> string \<Rightarrow> compressed_context" where
  "parse_summary_response cdec content =
     (case cdec (strip_summary content) of
        Inl _ \<Rightarrow> \<lparr>cc_summary = strip_summary content, cc_hints = [], cc_through_index = 0\<rparr>
      | Inr cc \<Rightarrow> cc)"

definition openai_summarize :: "string \<Rightarrow> int \<Rightarrow> (retrieval_hint list \<Rightarrow> string) \<Rightarrow> (string \<Rightarrow> go_err + compressed_context)
    \<Rightarrow> ('j sdk_params \<Rightarrow> 'w \<Rightarrow> (go_err + sdk_completion) \<times> 'w) \<Rightarrow> message list \<Rightarrow> compressed_context option \<Rightarrow> 'w \<Rightarrow> (go_err + compressed_context) \<times> 'w" where
  "openai_summarize modelID maxTokens hints cdec call ms prev w =
     (case call (summary_params modelID maxTokens hints ms prev) w of
        (Inl e, w) \<Rightarrow> (Inl (ErrWrap ''summarize: '' e ''''), w)
      | (Inr c, w) \<Rightarrow>
          (case sy_choices c of
             [] \<Rightarrow> (Inl (ErrText ''summarize: model returned no choices''), w)
           | x # _ \<Rightarrow> (Inr (parse_summary_response cdec (sx_content x)), w)))"

section \<open>Embedder (embedder.go)\<close>

definition embed :: "(string \<Rightarrow> 'w \<Rightarrow> (go_err + 'v list) \<times> 'w) \<Rightarrow> string \<Rightarrow> 'w \<Rightarrow> (go_err + 'v) \<times> 'w" where
  "embed call s w =
     (case call s w of
        (Inl e, w) \<Rightarrow> (Inl (ErrWrap ''embed: '' e ''''), w)
      | (Inr [], w) \<Rightarrow> (Inl (ErrText ''embed: empty response''), w)
      | (Inr (v # _), w) \<Rightarrow> (Inr v, w))"

definition dimensions :: "string \<Rightarrow> int" where
  "dimensions model =
     (if model = ''text-embedding-3-small'' then 1536
      else if model = ''text-embedding-3-large'' then 3072
      else if model = ''text-embedding-ada-002'' then 1536
      else 1536)"

section \<open>Properties\<close>

text \<open>What the loop \<^verbatim>\<open>for reader.Next() { reader.Current() }\<close> sees, with at most \<open>n\<close> rounds, and the state it leaves.\<close>

fun drain_reader :: "(string \<Rightarrow> string option option) \<Rightarrow> nat \<Rightarrow> stream_state \<Rightarrow> stream_chunk list \<times> stream_state" where
  "drain_reader rdec 0 s = ([], s)"
| "drain_reader rdec (Suc n) s =
     (case reader_next rdec s of
        (False, s) \<Rightarrow> ([], s)
      | (True, s) \<Rightarrow> (let (cs, t) = drain_reader rdec n s in (the (ss_current s) # cs, t)))"

lemma drain_reader_all:
  "length (ss_left s) < n \<Longrightarrow> \<not> ss_done s \<Longrightarrow>
   \<exists>t. drain_reader rdec n s = (map (to_stream_chunk rdec) (ss_left s), t) \<and> ss_done t \<and> ss_err t = ss_err s"
proof (induction n arbitrary: s)
  case (Suc n)
  show ?case
  proof (cases "ss_left s")
    case Nil
    then show ?thesis using Suc.prems by (simp add: reader_next_def)
  next
    case (Cons c cs)
    then show ?thesis using Suc.IH [of "s\<lparr>ss_left := cs, ss_current := Some (to_stream_chunk rdec c)\<rparr>"] Suc.prems
      by (auto simp: reader_next_def)
  qed
qed simp

text \<open>
  The reader that the model hands out is the reader of the runner's model interface: its loop
  ends, sees every chunk of the client once and in order, asks no more afterwards, and then reports
  the client's error, marked as retryable when it is a 429 or a 503.
\<close>

theorem openai_reader_refines:
  assumes "rd = \<lparr>rd_chunks = map (to_stream_chunk rdec) (sz_chunks s), rd_err = map_option (\<lambda>e. if busy_status status e then Retryable e 0 else e) (sz_err s)\<rparr>"
    and "length (sz_chunks s) < n"
  shows "\<exists>t. drain_reader rdec n (reader_start s) = (rd_chunks rd, t) \<and> reader_err status t = rd_err rd \<and> reader_next rdec t = (False, t)"
proof -
  obtain t where "drain_reader rdec n (reader_start s) = (map (to_stream_chunk rdec) (sz_chunks s), t)" "ss_done t" "ss_err t = sz_err s"
    using drain_reader_all [of "reader_start s" n rdec] assms(2) by (auto simp: reader_start_def)
  then show ?thesis by (auto simp: assms(1) reader_err_def reader_next_def split: option.split)
qed

text \<open>The calls of an answer go back to the client as they came; the text beside them does not.\<close>

lemma tool_calls_roundtrip:
  assumes "sx_calls x \<noteq> []" "resp_choices (to_response rdec c) = [r]" "sy_choices c = [x]"
  shows "to_sdk_message (ch_message r) = Returns (SdkAssistantCalls (map (\<lambda>t. (sk_call_id t, sk_call_name t, sk_call_args t)) (sx_calls x)))"
  using assms by (auto simp: to_response_def to_sdk_message_def to_sdk_tool_call_params_def)

lemma content_beside_calls_lost:
  "msg_role m = RoleAssistant \<Longrightarrow> msg_tool_calls m \<noteq> [] \<Longrightarrow> to_sdk_message (m\<lparr>msg_content := t\<rparr>) = to_sdk_message m"
  by (simp add: to_sdk_message_def)

lemma retryable_iff_busy:
  "err_as_retryable (to_retryable_error status e) \<noteq> None \<longleftrightarrow> busy_status status e \<or> err_as_retryable e \<noteq> None"
  by (simp add: to_retryable_error_def)

lemma messages_panic_iff:
  "(\<exists>p. to_sdk_messages ms = Panics p) \<longleftrightarrow>
     (\<exists>m \<in> set ms. msg_role m = RoleUser \<and> (\<exists>p \<in> set (msg_content_parts m). cp_type p = ''image_url'' \<and> cp_image_url p = None))"
proof -
  have parts: "(\<exists>p. to_sdk_content_parts ps = Panics p) \<longleftrightarrow> (\<exists>p \<in> set ps. cp_type p = ''image_url'' \<and> cp_image_url p = None)" for ps
    by (induction ps) (auto split: go_ret.splits option.splits)
  have one: "(\<exists>p. to_sdk_message m = Panics p) \<longleftrightarrow>
      msg_role m = RoleUser \<and> (\<exists>p \<in> set (msg_content_parts m). cp_type p = ''image_url'' \<and> cp_image_url p = None)" for m
    using parts [of "msg_content_parts m"] by (auto simp: to_sdk_message_def is_multimodal_def split: role.splits go_ret.splits)
  show ?thesis
  proof (induction ms)
    case (Cons m ms)
    then show ?case using one [of m] by (auto split: go_ret.splits)
  qed simp
qed

lemma strip_summary_fenced: "strip_summary ([CHR 0x60, CHR 0x60, CHR 0x60] @ ''json'' @ nl @ ''{}'' @ nl @ [CHR 0x60, CHR 0x60, CHR 0x60]) = ''{}''"
  by code_simp

theorem openai_reader_refines_witness:
  "fst (drain_reader (\<lambda>_. None) 2 (reader_start \<lparr>sz_start_err = None, sz_chunks = [\<lparr>sy_choices = [], sy_usage = zero_usage\<rparr>], sz_err = Some (ErrText ''429'')\<rparr>)) =
     [\<lparr>sc_choices = [], sc_usage = None\<rparr>]"
  using openai_reader_refines [OF refl, of "\<lparr>sz_start_err = None, sz_chunks = [\<lparr>sy_choices = [], sy_usage = zero_usage\<rparr>], sz_err = Some (ErrText ''429'')\<rparr>"
      2 "\<lambda>_. None" "\<lambda>_. Some 429"] by (auto simp: to_stream_chunk_def zero_usage_def)

end
