(* ===== verification/McpBridge.thy ===== *)
theory McpBridge
  imports Messages "HOL-Library.Multiset"
begin

text \<open>
  \<^verbatim>\<open>mcp/convert.go\<close>, \<^verbatim>\<open>mcp/server.go\<close> and \<^verbatim>\<open>mcp/client.go\<close>: tools of this library as tools of an MCP
  server, and tools of an MCP server as tools of this library. The MCP package is foreign: what a
  server is told is recorded, a client's session is a record of operations. A schema is the raw JSON
  of the definition on the server, a decoded value \<open>'j\<close> on the client; a call's arguments are \<open>'j\<close>.
\<close>

section \<open>Types\<close>

record mcp_tool =
  mt_name :: string
  mt_description :: string
  mt_schema :: string

record 'j mcp_remote_tool =
  mr_name :: string
  mr_description :: string
  mr_schema :: 'j

datatype mcp_content = McpText string | McpOther

record mcp_result =
  mu_error :: bool
  mu_content :: "mcp_content list"

section \<open>Conversion (convert.go)\<close>

definition to_mcp_tool :: "function_def \<Rightarrow> mcp_tool" where
  "to_mcp_tool d = \<lparr>mt_name = fd_name d, mt_description = fd_description d, mt_schema = fd_parameters d\<rparr>"

definition to_function_definition :: "('j \<Rightarrow> go_err + string) \<Rightarrow> 'j mcp_remote_tool \<Rightarrow> go_err + function_def" where
  "to_function_definition enc t =
     (case enc (mr_schema t) of
        Inl e \<Rightarrow> Inl (ErrWrap (''mcp: marshal tool '' @ go_quote (mr_name t) @ '' schema: '') e '''')
      | Inr p \<Rightarrow> Inr \<lparr>fd_name = mr_name t, fd_description = mr_description t, fd_parameters = p, fd_end_turn = False\<rparr>)"

section \<open>Server (server.go)\<close>

text \<open>The tools that the server was given, with the handler of each; a panic of the tool goes through.\<close>

type_synonym 'w mcp_handler = "string \<Rightarrow> 'w \<Rightarrow> mcp_result go_ret \<times> 'w"

type_synonym 'w mcp_registry = "(mcp_tool \<times> 'w mcp_handler) list"

definition tool_handler :: "'w session \<Rightarrow> 'w tool \<Rightarrow> 'w mcp_handler" where
  "tool_handler ses t args w =
     (case t_execute t ses args w of
        (Panics p, w) \<Rightarrow> (Panics p, w)
      | (Returns (out, Some e), w) \<Rightarrow> (Returns \<lparr>mu_error = True, mu_content = [McpText (err_text e)]\<rparr>, w)
      | (Returns (out, None), w) \<Rightarrow> (Returns \<lparr>mu_error = False, mu_content = [McpText out]\<rparr>, w))"

definition add_mcp_tool :: "'w session \<Rightarrow> 'w tool \<Rightarrow> 'w mcp_registry \<Rightarrow> go_err option \<times> 'w mcp_registry" where
  "add_mcp_tool ses t sv =
     (if fd_name (t_def t) = '''' then (Some (ErrText ''mcp: tool name is required''), sv)
      else (None, sv @ [(to_mcp_tool (t_def t), tool_handler ses t)]))"

fun add_mcp_tools :: "'w session \<Rightarrow> 'w tool list \<Rightarrow> 'w mcp_registry \<Rightarrow> go_err option \<times> 'w mcp_registry" where
  "add_mcp_tools ses [] sv = (None, sv)"
| "add_mcp_tools ses (t # ts) sv =
     (case add_mcp_tool ses t sv of (Some e, sv) \<Rightarrow> (Some e, sv) | (None, sv) \<Rightarrow> add_mcp_tools ses ts sv)"

definition add_tool_with_schema :: "'w session \<Rightarrow> 'w tool \<Rightarrow> string \<Rightarrow> 'w mcp_registry \<Rightarrow> go_err option \<times> 'w mcp_registry" where
  "add_tool_with_schema ses t schema sv =
     (None, sv @ [((to_mcp_tool (t_def t))\<lparr>mt_schema := schema\<rparr>, tool_handler ses t)])"

section \<open>Client (client.go)\<close>

text \<open>The operations of a connected session.\<close>

record ('w, 'j) mcp_session =
  mn_list :: "'w \<Rightarrow> (go_err + 'j mcp_remote_tool list) \<times> 'w"
  mn_call :: "string \<Rightarrow> 'j option \<Rightarrow> 'w \<Rightarrow> (go_err + mcp_result) \<times> 'w"

text \<open>A connection: stdin and the process of a stdio connection, what the process wrote to stderr.\<close>

record mcp_conn =
  mk_stdin_open :: bool
  mk_running :: bool
  mk_stderr :: "string option"

text \<open>
  \<^verbatim>\<open>ConnectStdio\<close>: pipes and start may fail; when the connection fails the process is killed and what
  it wrote to stderr is quoted. The second part of the result is the process, if one was started.
\<close>

definition mcp_connect_stdio :: "go_err option \<Rightarrow> go_err option \<Rightarrow> go_err option \<Rightarrow> go_err option \<Rightarrow> string \<Rightarrow> string
    \<Rightarrow> go_err option \<times> mcp_conn option" where
  "mcp_connect_stdio stdin_err stdout_err start_err connect_err stderr command =
     (case stdin_err of Some e \<Rightarrow> (Some (ErrWrap ''mcp stdin pipe: '' e ''''), None)
      | None \<Rightarrow> (case stdout_err of Some e \<Rightarrow> (Some (ErrWrap ''mcp stdout pipe: '' e ''''), None)
      | None \<Rightarrow> (case start_err of Some e \<Rightarrow> (Some (ErrWrap (''mcp start '' @ go_quote command @ '': '') e ''''), None)
      | None \<Rightarrow> (case connect_err of
            Some e \<Rightarrow> (Some (ErrWrap ''mcp connect stdio: '' e (if stderr \<noteq> '''' then nl @ ''stderr:'' @ nl @ stderr else '''')),
                Some \<lparr>mk_stdin_open = True, mk_running = False, mk_stderr = Some stderr\<rparr>)
          | None \<Rightarrow> (None, Some \<lparr>mk_stdin_open = True, mk_running = True, mk_stderr = Some stderr\<rparr>)))))"

definition mcp_connect_http :: "go_err option \<Rightarrow> go_err option" where
  "mcp_connect_http connect_err = map_option (\<lambda>e. ErrWrap ''mcp connect http: '' e '''') connect_err"

definition mcp_connect_transport :: "go_err option \<Rightarrow> go_err option" where
  "mcp_connect_transport connect_err = map_option (\<lambda>e. ErrWrap ''mcp connect: '' e '''') connect_err"

definition mcp_close :: "go_err option \<Rightarrow> mcp_conn \<Rightarrow> go_err option \<times> mcp_conn" where
  "mcp_close close_err c = (close_err, c\<lparr>mk_stdin_open := False, mk_running := False\<rparr>)"

definition mcp_stderr :: "mcp_conn \<Rightarrow> string" where
  "mcp_stderr c = (case mk_stderr c of None \<Rightarrow> '''' | Some s \<Rightarrow> s)"

fun extract_text_from :: "string \<Rightarrow> mcp_content list \<Rightarrow> string" where
  "extract_text_from out [] = out"
| "extract_text_from out (McpText t # cs) = extract_text_from ((if out \<noteq> '''' then out @ nl else out) @ t) cs"
| "extract_text_from out (McpOther # cs) = extract_text_from out cs"

definition extract_text :: "mcp_content list \<Rightarrow> string" where
  "extract_text cs = extract_text_from '''' cs"

definition adapter_execute :: "('w, 'j) mcp_session \<Rightarrow> (string \<Rightarrow> go_err + 'j option) \<Rightarrow> function_def \<Rightarrow> string \<Rightarrow> 'w \<Rightarrow> (string \<times> go_err option) \<times> 'w" where
  "adapter_execute s dec d args w =
     (case (if 0 < length args then dec args else Inr None) of
        Inl e \<Rightarrow> (('''', Some (ErrWrap ''mcp: unmarshal args: '' e '''')), w)
      | Inr v \<Rightarrow>
          (case mn_call s (fd_name d) v w of
             (Inl e, w) \<Rightarrow> (('''', Some (ErrWrap (''mcp call tool '' @ go_quote (fd_name d) @ '': '') e '''')), w)
           | (Inr r, w) \<Rightarrow>
               (let t = extract_text (mu_content r) in if mu_error r then ((t, Some (ErrText t)), w) else ((t, None), w))))"

definition mcp_adapter :: "('w, 'j) mcp_session \<Rightarrow> (string \<Rightarrow> go_err + 'j option) \<Rightarrow> function_def \<Rightarrow> 'w tool" where
  "mcp_adapter s dec d = \<lparr>t_def = d, t_execute = (\<lambda>ses args w. let (r, w) = adapter_execute s dec d args w in (Returns r, w)),
     t_stream = None, t_self_approve = None, t_is_agent = False\<rparr>"

fun convert_tools :: "('j \<Rightarrow> go_err + string) \<Rightarrow> 'j mcp_remote_tool list \<Rightarrow> go_err + function_def list" where
  "convert_tools enc [] = Inr []"
| "convert_tools enc (t # ts) =
     (case to_function_definition enc t of Inl e \<Rightarrow> Inl e
      | Inr d \<Rightarrow> (case convert_tools enc ts of Inl e \<Rightarrow> Inl e | Inr ds \<Rightarrow> Inr (d # ds)))"

definition mcp_tools :: "('w, 'j) mcp_session \<Rightarrow> (string \<Rightarrow> go_err + 'j option) \<Rightarrow> ('j \<Rightarrow> go_err + string) \<Rightarrow> 'w \<Rightarrow> (go_err + 'w tool list) \<times> 'w" where
  "mcp_tools s dec enc w =
     (case mn_list s w of
        (Inl e, w) \<Rightarrow> (Inl (ErrWrap ''mcp list tools: '' e ''''), w)
      | (Inr ts, w) \<Rightarrow> (map_sum id (map (mcp_adapter s dec)) (convert_tools enc ts), w))"

definition mcp_list_tools :: "('w, 'j) mcp_session \<Rightarrow> 'w \<Rightarrow> (go_err + 'j mcp_remote_tool list) \<times> 'w" where
  "mcp_list_tools s w = mn_list s w"

section \<open>A tool behind a server and a client\<close>

lemma extract_one_text [simp]: "extract_text [McpText t] = t"
  by (simp add: extract_text_def)

text \<open>What the other side sees of a definition: name, description and the decoded schema.\<close>

type_synonym 'j tool_face = "string \<times> string \<times> 'j"

definition face_of :: "(string \<Rightarrow> 'j) \<Rightarrow> function_def \<Rightarrow> 'j tool_face" where
  "face_of sch d = (fd_name d, fd_description d, sch (fd_parameters d))"

definition remote_face :: "'j mcp_remote_tool \<Rightarrow> 'j tool_face" where
  "remote_face r = (mr_name r, mr_description r, mr_schema r)"

text \<open>
  What the protocol promises of a session with a server that was given the registry \<open>sv\<close>: it lists
  the registered tools, in some order, with their schemas decoded by \<open>sch\<close>, and a call by name runs the
  handler of that name on the encoding \<open>enc\<close> of the arguments and hands its result back.
\<close>

definition mcp_serves :: "('w, 'j) mcp_session \<Rightarrow> (string \<Rightarrow> 'j) \<Rightarrow> ('j option \<Rightarrow> string) \<Rightarrow> 'w mcp_registry \<Rightarrow> bool" where
  "mcp_serves s sch enc sv \<longleftrightarrow>
     (\<forall>u. \<exists>ts. mn_list s u = (Inr ts, u) \<and>
        mset (map remote_face ts) = mset (map (\<lambda>(m, h). (mt_name m, mt_description m, sch (mt_schema m))) sv)) \<and>
     (\<forall>(m, h) \<in> set sv. \<forall>v u r u'. h (enc v) u = (Returns r, u') \<longrightarrow> mn_call s (mt_name m) v u = (Inr r, u'))"

text \<open>What JSON promises: a decoded value decodes to itself when it is encoded again (its text need not be the same).\<close>

definition json_ok :: "(string \<Rightarrow> 'j) \<Rightarrow> ('j \<Rightarrow> go_err + string) \<Rightarrow> (string \<Rightarrow> go_err + 'j option) \<Rightarrow> ('j option \<Rightarrow> string) \<Rightarrow> bool" where
  "json_ok sch encS dec enc \<longleftrightarrow> (\<forall>j. \<exists>p. encS j = Inr p \<and> sch p = j) \<and> (\<forall>v. dec (enc v) = Inr v)"

text \<open>A tool that reads nothing but the decoded value of its arguments.\<close>

definition reads_decoded :: "(string \<Rightarrow> go_err + 'j option) \<Rightarrow> 'w session \<Rightarrow> 'w tool \<Rightarrow> bool" where
  "reads_decoded dec ses t = (\<forall>x y w. dec x = dec y \<longrightarrow> t_execute t ses x w = t_execute t ses y w)"

definition mcp_answer :: "string \<times> go_err option \<Rightarrow> string \<times> go_err option" where
  "mcp_answer r = (case snd r of None \<Rightarrow> (fst r, None) | Some e \<Rightarrow> (err_text e, Some (ErrText (err_text e))))"

lemma add_mcp_tools_all:
  "add_mcp_tools ses tools sv = (None, sv') \<Longrightarrow> sv' = sv @ map (\<lambda>t. (to_mcp_tool (t_def t), tool_handler ses t)) tools"
  by (induction tools arbitrary: sv) (fastforce simp: add_mcp_tool_def split: if_splits)+

lemma convert_tools_faces:
  assumes "\<And>j. \<exists>p. encS j = Inr p \<and> sch p = j"
  shows "\<exists>ds. convert_tools encS ts = Inr ds \<and> map (face_of sch) ds = map remote_face ts \<and> (\<forall>d\<in>set ds. \<not> fd_end_turn d)"
proof (induction ts)
  case (Cons r ts)
  obtain p where p: "encS (mr_schema r) = Inr p" "sch p = mr_schema r" using assms by blast
  with Cons.IH show ?case by (auto simp: to_function_definition_def face_of_def remote_face_def)
qed simp

lemma adapter_calls:
  assumes "mn_call s (fd_name d) v u = (Inr r, u')" "(if 0 < length args then dec args else Inr None) = Inr v"
  shows "t_execute (mcp_adapter s dec d) any_session args u =
    (Returns (let t = extract_text (mu_content r) in (t, if mu_error r then Some (ErrText t) else None)), u')"
  using assms by (simp add: mcp_adapter_def adapter_execute_def Let_def del: length_greater_0_conv)

lemma handler_answer:
  assumes "t_execute t ses x u = (Returns r, u')"
  obtains q where "tool_handler ses t x u = (Returns q, u')"
    "(let t = extract_text (mu_content q) in (t, if mu_error q then Some (ErrText t) else None)) = mcp_answer r"
  using assms by (cases r; cases "snd r") (auto simp: tool_handler_def mcp_answer_def Let_def intro!: that)

lemma adapter_of_served:
  assumes "mcp_serves s sch enc sv" "(to_mcp_tool (t_def t), tool_handler ses t) \<in> set sv" "fd_name d = fd_name (t_def t)"
    and "t_execute t ses (enc v) u = (Returns r, u')" "(if 0 < length args then dec args else Inr None) = Inr v"
  shows "t_execute (mcp_adapter s dec d) any_session args u = (Returns (mcp_answer r), u')"
proof -
  obtain q where q: "tool_handler ses t (enc v) u = (Returns q, u')"
    "(let t = extract_text (mu_content q) in (t, if mu_error q then Some (ErrText t) else None)) = mcp_answer r"
    using handler_answer [OF assms(4)] .
  then have "mn_call s (fd_name d) v u = (Inr q, u')"
    using assms(1-3) by (fastforce simp: mcp_serves_def to_mcp_tool_def)
  from adapter_calls [where dec = dec, OF this assms(5)] q(2) show ?thesis by simp
qed

text \<open>
  C23: register tools with this library's MCP server and import them with its client. The import
  succeeds and gives the same tools: names, descriptions and (decoded) schemas agree. An imported tool
  called with arguments that decode to a value does to the world what the tool itself does with the same
  arguments and answers the same text; an error of the tool comes back as an error with the same text,
  and only its kind is lost. Called with empty arguments it does what the tool does with the encoding of
  no value; arguments that do not decode are refused and the server is not asked. This is for tools that
  read nothing but the decoded value of their arguments (the text is decoded and encoded again on the
  way), do not panic, and do not end the turn; the protocol and JSON do what they document.
\<close>

theorem mcp_tool_transparent:
  assumes "add_mcp_tools ses tools [] = (None, sv)" "mcp_serves s sch enc sv" "json_ok sch encS dec enc"
    and "\<forall>t\<in>set tools. reads_decoded dec ses t"
  shows "\<exists>as. mcp_tools s dec encS w = (Inr as, w) \<and>
    mset (map (face_of sch \<circ> t_def) as) = mset (map (face_of sch \<circ> t_def) tools) \<and>
    (\<forall>a\<in>set as. \<forall>t\<in>set tools. fd_name (t_def a) = fd_name (t_def t) \<longrightarrow>
       (\<forall>args v r u u' ses'. args \<noteq> '''' \<longrightarrow> dec args = Inr v \<longrightarrow> t_execute t ses args u = (Returns r, u') \<longrightarrow>
          t_execute a ses' args u = (Returns (mcp_answer r), u')) \<and>
       (\<forall>r u u' ses'. t_execute t ses (enc None) u = (Returns r, u') \<longrightarrow> t_execute a ses' '''' u = (Returns (mcp_answer r), u'))) \<and>
    (\<forall>a\<in>set as. \<forall>args e u ses'. args \<noteq> '''' \<longrightarrow> dec args = Inl e \<longrightarrow>
       t_execute a ses' args u = (Returns ('''', Some (ErrWrap ''mcp: unmarshal args: '' e '''')), u))"
proof -
  have sv: "sv = map (\<lambda>t. (to_mcp_tool (t_def t), tool_handler ses t)) tools" using add_mcp_tools_all [OF assms(1)] by simp
  obtain ts where ts: "mn_list s w = (Inr ts, w)"
    "mset (map remote_face ts) = mset (map (\<lambda>(m, h). (mt_name m, mt_description m, sch (mt_schema m))) sv)"
    using assms(2) unfolding mcp_serves_def by blast
  have "mset (map (\<lambda>(m, h). (mt_name m, mt_description m, sch (mt_schema m))) sv) = mset (map (face_of sch \<circ> t_def) tools)"
    unfolding sv by (simp add: to_mcp_tool_def face_of_def comp_def)
  note faces = ts(2) [unfolded this]
  obtain ds where ds: "convert_tools encS ts = Inr ds" "map (face_of sch) ds = map remote_face ts"
    using convert_tools_faces [of encS sch ts] assms(3) unfolding json_ok_def by blast
  let ?as = "map (mcp_adapter s dec) ds"
  have "map (face_of sch \<circ> t_def) ?as = map remote_face ts" unfolding ds(2) [symmetric] by (simp add: mcp_adapter_def)
  moreover have "t_execute (mcp_adapter s dec d) ses' args u = (Returns (mcp_answer r), u')"
    if "t \<in> set tools" "fd_name d = fd_name (t_def t)" "args \<noteq> ''''" "dec args = Inr v" "t_execute t ses args u = (Returns r, u')"
    for d t args v r u u' ses'
  proof (rule adapter_of_served [OF assms(2) _ that(2)])
    show "(to_mcp_tool (t_def t), tool_handler ses t) \<in> set sv" using that(1) by (auto simp: sv)
    have "dec (enc v) = dec args" using assms(3) that(4) by (simp add: json_ok_def)
    then show "t_execute t ses (enc v) u = (Returns r, u')" using assms(4) that(1,5) unfolding reads_decoded_def by metis
  qed (use that in simp)
  moreover have "t_execute (mcp_adapter s dec d) ses' '''' u = (Returns (mcp_answer r), u')"
    if "t \<in> set tools" "fd_name d = fd_name (t_def t)" "t_execute t ses (enc None) u = (Returns r, u')" for d t r u u' ses'
    by (rule adapter_of_served [OF assms(2) _ that(2,3)]) (use that(1) in \<open>auto simp: sv\<close>)
  moreover have "t_execute (mcp_adapter s dec d) ses' args u = (Returns ('''', Some (ErrWrap ''mcp: unmarshal args: '' e '''')), u)"
    if "args \<noteq> ''''" "dec args = Inl e" for d args e u ses'
    using that by (simp add: mcp_adapter_def adapter_execute_def)
  moreover have "mcp_tools s dec encS w = (Inr ?as, w)" using ts(1) ds(1) by (simp add: mcp_tools_def)
  moreover have "t_def (mcp_adapter s dec d) = d" for d by (simp add: mcp_adapter_def)
  ultimately show ?thesis using faces by (intro exI [of _ ?as]) auto
qed

text \<open>A definition passes through both conversions, but a tool that ends the turn no longer does.\<close>

lemma definition_roundtrip:
  assumes "enc j = Inr (fd_parameters d)"
  shows "to_function_definition enc \<lparr>mr_name = mt_name (to_mcp_tool d), mr_description = mt_description (to_mcp_tool d), mr_schema = j\<rparr> =
    Inr (d\<lparr>fd_end_turn := False\<rparr>)"
  using assms by (cases d) (simp add: to_function_definition_def to_mcp_tool_def)

text \<open>The error of a process that fails to connect leaves no process.\<close>

lemma connect_failure_kills:
  "mcp_connect_stdio a b c d stderr command = (Some e, Some p) \<Longrightarrow> \<not> mk_running p"
  by (auto simp: mcp_connect_stdio_def split: option.splits)

text \<open>Empty texts leave no line between their neighbours.\<close>

lemma empty_text_swallowed: "extract_text [McpText '''', McpText t] = t"
  by (simp add: extract_text_def)

lemma unnamed_tool_with_schema:
  "fst (add_mcp_tool ses t sv) = None \<longleftrightarrow> fd_name (t_def t) \<noteq> ''''" "fst (add_tool_with_schema ses t schema sv) = None"
  by (simp_all add: add_mcp_tool_def add_tool_with_schema_def)

text \<open>An echo whose arguments begin with a blank that does not count.\<close>

definition echo_tool :: "nat tool" where
  "echo_tool = \<lparr>t_def = \<lparr>fd_name = ''echo'', fd_description = '''', fd_parameters = '' s'', fd_end_turn = False\<rparr>,
     t_execute = (\<lambda>ses args w. (Returns (if args = '''' then ('''', Some (ErrText ''no text'')) else (''echo: '' @ tl args, None)), w + 1)),
     t_stream = None, t_self_approve = None, t_is_agent = False\<rparr>"

definition blank_dec :: "string \<Rightarrow> go_err + string option" where
  "blank_dec a = Inr (if a = '''' then None else Some (tl a))"

definition blank_enc :: "string option \<Rightarrow> string" where
  "blank_enc v = (case v of None \<Rightarrow> '''' | Some a \<Rightarrow> CHR '' '' # a)"

definition echo_session :: "(nat, string) mcp_session" where
  "echo_session = \<lparr>mn_list = (\<lambda>w. (Inr [\<lparr>mr_name = ''echo'', mr_description = '''', mr_schema = ''s''\<rparr>], w)),
     mn_call = (\<lambda>n v u. case tool_handler (new_session ''s'') echo_tool (blank_enc v) u of
        (Returns r, u) \<Rightarrow> (Inr r, u) | (Panics p, u) \<Rightarrow> (Inl (ErrText p), u))\<rparr>"

theorem mcp_tool_transparent_witness:
  "\<exists>a. mcp_tools echo_session blank_dec (\<lambda>j. Inr (CHR '' '' # j)) 0 = (Inr [a], 0) \<and> fd_name (t_def a) = ''echo'' \<and>
     t_execute a (new_session ''x'') ''-hi'' 3 = (Returns (''echo: hi'', None), 4) \<and>
     t_execute a (new_session ''x'') '''' 3 = (Returns (''no text'', Some (ErrText ''no text'')), 4)"
proof -
  let ?ses = "new_session ''s''"
  have 1: "add_mcp_tools ?ses [echo_tool] [] = (None, [(to_mcp_tool (t_def echo_tool), tool_handler ?ses echo_tool)])"
    by (simp add: add_mcp_tool_def echo_tool_def)
  have 2: "mcp_serves echo_session tl blank_enc [(to_mcp_tool (t_def echo_tool), tool_handler ?ses echo_tool)]"
    by (simp add: mcp_serves_def echo_session_def remote_face_def to_mcp_tool_def) (simp add: echo_tool_def)
  have 3: "json_ok tl (\<lambda>j. Inr (CHR '' '' # j)) blank_dec blank_enc"
    by (simp add: json_ok_def blank_dec_def blank_enc_def split: option.split)
  have 4: "\<forall>t\<in>set [echo_tool]. reads_decoded blank_dec ?ses t"
    by (simp add: reads_decoded_def blank_dec_def echo_tool_def)
  obtain as where as: "mcp_tools echo_session blank_dec (\<lambda>j. Inr (CHR '' '' # j)) 0 = (Inr as, 0)"
    and f: "mset (map (face_of tl \<circ> t_def) as) = {#face_of tl (t_def echo_tool)#}"
    and t: "\<forall>a\<in>set as. fd_name (t_def a) = ''echo'' \<longrightarrow> (\<forall>args v r u u' ses'. args \<noteq> '''' \<longrightarrow> blank_dec args = Inr v \<longrightarrow>
        t_execute echo_tool ?ses args u = (Returns r, u') \<longrightarrow> t_execute a ses' args u = (Returns (mcp_answer r), u')) \<and>
      (\<forall>r u u' ses'. t_execute echo_tool ?ses (blank_enc None) u = (Returns r, u') \<longrightarrow> t_execute a ses' '''' u = (Returns (mcp_answer r), u'))"
    using mcp_tool_transparent [OF 1 2 3 4, of 0] by (auto simp: echo_tool_def)
  obtain a where a: "as = [a]" "face_of tl (t_def a) = face_of tl (t_def echo_tool)" using f by (cases as) auto
  then have n: "fd_name (t_def a) = ''echo''" by (simp add: face_of_def echo_tool_def)
  have "t_execute echo_tool ?ses ''-hi'' 3 = (Returns (''echo: hi'', None), 4)"
    "t_execute echo_tool ?ses (blank_enc None) 3 = (Returns ('''', Some (ErrText ''no text'')), 4)" "blank_dec ''-hi'' = Inr (Some ''hi'')"
    by (simp_all add: echo_tool_def blank_enc_def blank_dec_def)
  with t n a(1) have "t_execute a (new_session ''x'') ''-hi'' 3 = (Returns (mcp_answer (''echo: hi'', None)), 4)"
    "t_execute a (new_session ''x'') '''' 3 = (Returns (mcp_answer ('''', Some (ErrText ''no text''))), 4)" by simp_all
  then show ?thesis using as a(1) n by (simp add: mcp_answer_def)
qed

end
