(* ===== verification/FileSystem.thy ===== *)
theory FileSystem
  imports Messages "HOL-Library.List_Lexorder" "HOL-Library.Char_ord"
begin

text \<open>
  The part of \<^verbatim>\<open>path/filepath\<close>, \<^verbatim>\<open>os\<close> and the file system that the file tools use, on Unix: cleaning
  of absolute paths, \<^verbatim>\<open>EvalSymlinks\<close>, and how opening a file follows symbolic links. A file system is
  an association list from the absolute path of a node, as the list of its components, to the node;
  a path without a node does not exist.
\<close>

section \<open>Paths\<close>

fun split_slash :: "string \<Rightarrow> string list" where
  "split_slash [] = ['''']"
| "split_slash (c # s) =
     (if c = CHR ''/'' then '''' # split_slash s
      else (case split_slash s of [] \<Rightarrow> [[c]] | x # xs \<Rightarrow> (c # x) # xs))"

definition path_str :: "string list \<Rightarrow> string" where
  "path_str cs = ''/'' @ str_join cs ''/''"

definition is_abs :: "string \<Rightarrow> bool" where
  "is_abs p = has_prefix p ''/''"

text \<open>\<^verbatim>\<open>filepath.Clean\<close> of an absolute path, on its components: \<open>acc\<close> is the reversed result.\<close>

fun clean_comps :: "string list \<Rightarrow> string list \<Rightarrow> string list" where
  "clean_comps acc [] = rev acc"
| "clean_comps acc (c # cs) =
     (if c = '''' \<or> c = ''.'' then clean_comps acc cs
      else if c = ''..'' then clean_comps (tl acc) cs
      else clean_comps (c # acc) cs)"

definition comps_of :: "string \<Rightarrow> string list" where
  "comps_of p = clean_comps [] (split_slash p)"

definition plain :: "string \<Rightarrow> bool" where
  "plain c = (c \<notin> {'''', ''.'', ''..''} \<and> CHR ''/'' \<notin> set c)"

abbreviation plain_path :: "string list \<Rightarrow> bool" where
  "plain_path \<equiv> list_all plain"

lemma split_slash_not_Nil [simp]: "split_slash s \<noteq> []"
  by (cases s) (auto split: list.split)

lemma split_slash_plain: "list_all (\<lambda>c. CHR ''/'' \<notin> set c) (split_slash s)"
  by (induction s) (auto split: list.split)

lemma split_slash_id: "CHR ''/'' \<notin> set c \<Longrightarrow> split_slash c = [c]"
  by (induction c) auto

lemma split_slash_append: "split_slash (a @ CHR ''/'' # b) = split_slash a @ split_slash b"
  by (induction a) (auto split: list.split)

lemma split_join: "plain_path cs \<Longrightarrow> cs \<noteq> [] \<Longrightarrow> split_slash (str_join cs ''/'') = cs"
proof (induction cs "''/''" rule: str_join.induct)
  case (3 s s' ss)
  then show ?case using split_slash_append [of s "str_join (s' # ss) ''/''"] by (simp add: plain_def split_slash_id)
qed (simp_all add: plain_def split_slash_id)

lemma clean_plain: "list_all (\<lambda>c. CHR ''/'' \<notin> set c) cs \<Longrightarrow> plain_path acc \<Longrightarrow> plain_path (clean_comps acc cs)"
proof (induction acc cs rule: clean_comps.induct)
  case (2 acc c cs)
  then show ?case by (cases acc) (auto simp: plain_def)
qed (simp add: list_all_iff)

lemma comps_of_plain [simp]: "plain_path (comps_of p)"
  by (simp add: comps_of_def clean_plain split_slash_plain)

lemma clean_plain_id: "plain_path cs \<Longrightarrow> clean_comps acc cs = rev acc @ cs"
  by (induction cs arbitrary: acc) (auto simp: plain_def)

lemma comps_of_path_str [simp]: "plain_path cs \<Longrightarrow> comps_of (path_str cs) = cs"
proof (cases "cs = []")
  case False
  assume "plain_path cs"
  with False show ?thesis by (simp add: comps_of_def path_str_def split_join clean_plain_id)
qed (simp add: comps_of_def path_str_def)

lemma path_str_inject: "plain_path a \<Longrightarrow> plain_path b \<Longrightarrow> path_str a = path_str b \<Longrightarrow> a = b"
  by (metis comps_of_path_str)

lemma path_str_prefix:
  assumes "plain_path a" "plain_path b" "has_prefix (path_str a) (path_str b @ ''/'')"
  shows "prefix b a"
proof (cases "b = []")
  case False
  obtain s where s: "path_str a = path_str b @ ''/'' @ s" using assms(3) by (auto simp: has_prefix_def prefix_def)
  then have j: "str_join a ''/'' = str_join b ''/'' @ CHR ''/'' # s" by (simp add: path_str_def)
  then have "a \<noteq> []" by auto
  with split_join [OF assms(1)] split_join [OF assms(2) False] j have "a = b @ split_slash s"
    by (metis split_slash_append)
  then show ?thesis by simp
qed simp

section \<open>Nodes\<close>

datatype fs_node = FDir | FFile string | FLink string

type_synonym file_system = "(string list \<times> fs_node) list"

definition node_at :: "file_system \<Rightarrow> string list \<Rightarrow> fs_node option" where
  "node_at fs d = map_of (([], FDir) # fs) d"

lemma node_at_root [simp]: "node_at fs [] = Some FDir"
  by (simp add: node_at_def)

text \<open>The entries of a directory, by name, as \<^verbatim>\<open>os.ReadDir\<close> returns them.\<close>

definition dir_entries :: "file_system \<Rightarrow> string list \<Rightarrow> (string \<times> fs_node) list" where
  "dir_entries fs d = sort_key fst (map (\<lambda>(p, n). (last p, n)) (filter (\<lambda>(p, n). p \<noteq> [] \<and> butlast p = d) fs))"

section \<open>Symbolic links\<close>

text \<open>
  The walk of \<^verbatim>\<open>filepath.EvalSymlinks\<close> and of the kernel: \<open>dest\<close> is resolved, \<open>todo\<close> is still to be
  walked, \<open>k\<close> links may be followed. A text after a file, be it only a slash, is an error.
\<close>

datatype resolution = Resolved "string list" | NotExist | WalkError string

function eval_links :: "file_system \<Rightarrow> nat \<Rightarrow> string list \<Rightarrow> string list \<Rightarrow> resolution" where
  "eval_links fs k dest [] = Resolved dest"
| "eval_links fs k dest (c # cs) =
     (if c = '''' \<or> c = ''.'' then eval_links fs k dest cs
      else if c = ''..'' then eval_links fs k (butlast dest) cs
      else case node_at fs (dest @ [c]) of
        None \<Rightarrow> NotExist
      | Some FDir \<Rightarrow> eval_links fs k (dest @ [c]) cs
      | Some (FFile _) \<Rightarrow> if cs \<noteq> [] then WalkError ''not a directory'' else Resolved (dest @ [c])
      | Some (FLink t) \<Rightarrow>
          if k = 0 then WalkError ''too many links''
          else eval_links fs (k - 1) (if is_abs t then [] else dest) (split_slash t @ cs))"
  by pat_completeness auto
termination
  by (relation "inv_image (less_than <*lex*> less_than) (\<lambda>(fs, k, dest, todo). (k, length todo))") auto

declare eval_links.simps [simp del]
lemmas eval_links_unfold = eval_links.simps

text \<open>A path all of whose prefixes are directories, and one that ends in a directory or a file: no link is left.\<close>

definition dirs_to :: "file_system \<Rightarrow> string list \<Rightarrow> bool" where
  "dirs_to fs d = (plain_path d \<and> (\<forall>p. prefix p d \<longrightarrow> node_at fs p = Some FDir))"

definition link_free :: "file_system \<Rightarrow> string list \<Rightarrow> bool" where
  "link_free fs d = (dirs_to fs d \<or> (\<exists>e c x. d = e @ [c] \<and> dirs_to fs e \<and> plain c \<and> node_at fs d = Some (FFile x)))"

lemma dirs_to_Nil [simp]: "dirs_to fs []"
  by (simp add: dirs_to_def)

lemma dirs_to_snoc: "dirs_to fs (d @ [c]) \<longleftrightarrow> dirs_to fs d \<and> plain c \<and> node_at fs (d @ [c]) = Some FDir"
  by (auto simp: dirs_to_def prefix_snoc)

lemma dirs_to_butlast: "dirs_to fs d \<Longrightarrow> dirs_to fs (butlast d)"
  by (cases d rule: rev_cases) (auto simp: dirs_to_snoc)

lemma dirs_to_node: "dirs_to fs d \<Longrightarrow> node_at fs d = Some FDir"
  by (simp add: dirs_to_def)

lemma link_free_plain: "link_free fs d \<Longrightarrow> plain_path d"
  by (auto simp: link_free_def dirs_to_def)

lemma eval_links_link_free:
  "eval_links fs k dest todo = Resolved d \<Longrightarrow> dirs_to fs dest \<Longrightarrow> list_all (\<lambda>c. CHR ''/'' \<notin> set c) todo \<Longrightarrow> link_free fs d"
proof (induction fs k dest todo rule: eval_links.induct)
  case (1 fs k dest)
  then show ?case by (simp add: eval_links_unfold link_free_def)
next
  case (2 fs k dest c cs)
  from "2.prems"(1) show ?case
  proof (cases "c = '''' \<or> c = ''.'' \<or> c = ''..''")
    case True
    then show ?thesis using 2 by (auto simp: eval_links_unfold(2) [of fs k dest c cs] dirs_to_butlast split: if_splits)
  next
    case False
    then have p: "plain c" using "2.prems"(3) by (simp add: plain_def)
    show ?thesis
    proof (cases "node_at fs (dest @ [c])")
      case None
      then show ?thesis using "2.prems"(1) False by (simp add: eval_links_unfold(2))
    next
      case (Some n)
      note n = Some False
      show ?thesis
      proof (cases n)
        case FDir
        then show ?thesis using "2.IH"(3) "2.prems" n p by (simp add: eval_links_unfold(2) [of fs k dest c cs] dirs_to_snoc)
      next
        case (FFile x)
        then show ?thesis using "2.prems" n p by (auto simp: eval_links_unfold(2) [of fs k dest c cs] link_free_def split: if_splits)
      next
        case (FLink t)
        then have "k \<noteq> 0" "eval_links fs (k - 1) (if is_abs t then [] else dest) (split_slash t @ cs) = Resolved d"
          using "2.prems"(1) n by (auto simp: eval_links_unfold(2) [of fs k dest c cs] split: if_splits)
        with "2.IH"(4) n FLink "2.prems"(2,3) show ?thesis by (auto simp: split_slash_plain)
      qed
    qed
  qed
qed

lemma eval_link_free:
  "link_free fs (dest @ todo) \<Longrightarrow> eval_links fs k dest todo = Resolved (dest @ todo)"
proof (induction todo arbitrary: dest)
  case (Cons c cs)
  have p: "plain c" using link_free_plain [OF Cons.prems] by simp
  then have c: "c \<noteq> ''''" "c \<noteq> ''.''" "c \<noteq> ''..''" by (auto simp: plain_def)
  have ih: "eval_links fs k (dest @ [c]) cs = Resolved (dest @ c # cs)" using Cons.IH [of "dest @ [c]"] Cons.prems by simp
  consider "node_at fs (dest @ [c]) = Some FDir" | x where "cs = []" "node_at fs (dest @ [c]) = Some (FFile x)"
  proof (cases "dirs_to fs (dest @ c # cs)")
    case True
    moreover have "prefix (dest @ [c]) (dest @ c # cs)" by simp
    ultimately have "node_at fs (dest @ [c]) = Some FDir" unfolding dirs_to_def by blast
    then show thesis by (rule that(1))
  next
    case False
    then obtain e b x where d: "dest @ c # cs = e @ [b]" "dirs_to fs e" "node_at fs (dest @ c # cs) = Some (FFile x)"
      using Cons.prems by (auto simp: link_free_def)
    show thesis
    proof (cases "cs = []")
      case True
      then show thesis using that(2) d(3) by simp
    next
      case False
      then have "prefix (dest @ [c]) e" using d(1) by (cases cs rule: rev_cases) auto
      then have "node_at fs (dest @ [c]) = Some FDir" using d(2) by (auto simp: dirs_to_def)
      then show thesis by (rule that(1))
    qed
  qed
  then show ?case
  proof cases
    case 1
    then show ?thesis using c ih by (simp add: eval_links_unfold(2))
  next
    case 2
    then show ?thesis using c by (simp add: eval_links_unfold)
  qed
qed (simp add: eval_links_unfold)

lemma eval_links_mono:
  "\<forall>m. eval_links fs k dest todo \<noteq> WalkError m \<Longrightarrow> k \<le> k' \<Longrightarrow> eval_links fs k' dest todo = eval_links fs k dest todo"
proof (induction fs k dest todo arbitrary: k' rule: eval_links.induct)
  case (2 fs k dest c cs)
  note step = eval_links_unfold(2)
  show ?case
  proof (cases "c = '''' \<or> c = ''.''")
    case True
    with "2.IH"(1) [OF True, of k'] "2.prems" show ?thesis by (simp add: step)
  next
    case a: False
    show ?thesis
    proof (cases "c = ''..''")
      case True
      with "2.IH"(2) [OF a True, of k'] "2.prems" a show ?thesis by (simp add: step)
    next
      case b: False
      show ?thesis
      proof (cases "node_at fs (dest @ [c])")
        case (Some n)
        show ?thesis
        proof (cases n)
          case FDir
          with "2.IH"(3) [OF a b Some FDir, of k'] "2.prems" a b Some show ?thesis by (simp add: step)
        next
          case (FLink t)
          have "k \<noteq> 0" using "2.prems"(1) a b Some FLink by (cases "k = 0") (auto simp: step)
          with "2.IH"(4) [OF a b Some FLink \<open>k \<noteq> 0\<close>, of "k' - 1"] "2.prems" a b Some FLink show ?thesis by (simp add: step)
        qed (use a b Some in \<open>simp add: step\<close>)
      qed (use a b in \<open>simp add: step\<close>)
    qed
  qed
qed (simp add: eval_links_unfold)

end
