(* ===== verification/FileTools.thy ===== *)
theory FileTools
  imports FileSystem
begin

text \<open>
  \<^verbatim>\<open>tool/file.go\<close>, \<^verbatim>\<open>tool/artifact.go\<close> and \<^verbatim>\<open>tool/shell.go\<close>: the tools that read, write and list
  files, the rule by which they approve their own calls, and the shell tool. A tool sees the file
  system and the permissions of an \<open>os_files\<close>. The decoding of arguments is an argument: \<open>dec\<close> with
  its error where the code looks at it, otherwise what it leaves in the struct.
\<close>

section \<open>Operating system\<close>

record os_files =
  of_fs :: file_system
  of_unreadable :: "string list \<Rightarrow> bool"
  of_unwritable :: "string list \<Rightarrow> bool"
  of_temp :: string

datatype os_cause = CauseNotExist | CausePermission | CauseOther string

fun cause_text :: "os_cause \<Rightarrow> string" where
  "cause_text CauseNotExist = ''no such file or directory''"
| "cause_text CausePermission = ''permission denied''"
| "cause_text (CauseOther t) = t"

text \<open>The kernel follows at most 40 links.\<close>

definition max_links :: nat where "max_links = 40"

definition read_file :: "os_files \<Rightarrow> string \<Rightarrow> os_cause + string" where
  "read_file os p =
     (case eval_links (of_fs os) max_links [] (comps_of p) of
        NotExist \<Rightarrow> Inl CauseNotExist
      | WalkError m \<Rightarrow> Inl (CauseOther m)
      | Resolved d \<Rightarrow>
          (case node_at (of_fs os) d of
             Some (FFile c) \<Rightarrow> if of_unreadable os d then Inl CausePermission else Inr c
           | Some FDir \<Rightarrow> Inl (CauseOther ''is a directory'')
           | _ \<Rightarrow> Inl CauseNotExist))"

text \<open>\<^verbatim>\<open>os.MkdirAll\<close>: from the resolved directory \<open>d\<close>, each missing component is made.\<close>

fun mkdir_all :: "file_system \<Rightarrow> string list \<Rightarrow> string list \<Rightarrow> os_cause + (file_system \<times> string list)" where
  "mkdir_all fs d [] = Inr (fs, d)"
| "mkdir_all fs d (c # cs) =
     (case node_at fs (d @ [c]) of
        None \<Rightarrow> mkdir_all (AList.update (d @ [c]) FDir fs) (d @ [c]) cs
      | Some FDir \<Rightarrow> mkdir_all fs (d @ [c]) cs
      | Some (FFile _) \<Rightarrow> Inl (CauseOther ''not a directory'')
      | Some (FLink t) \<Rightarrow>
          (case eval_links fs max_links d [c] of
             Resolved e \<Rightarrow> if node_at fs e = Some FDir then mkdir_all fs e cs else Inl (CauseOther ''not a directory'')
           | NotExist \<Rightarrow> Inl (CauseOther ''file exists'')
           | WalkError m \<Rightarrow> Inl (CauseOther m)))"

text \<open>
  Where \<^verbatim>\<open>os.WriteFile\<close> writes: like \<open>eval_links\<close>, but the last component may be missing, behind a
  link, too.
\<close>

function open_target :: "file_system \<Rightarrow> nat \<Rightarrow> string list \<Rightarrow> string list \<Rightarrow> resolution" where
  "open_target fs k dest [] = WalkError ''is a directory''"
| "open_target fs k dest (c # cs) =
     (if c = '''' \<or> c = ''.'' then open_target fs k dest cs
      else if c = ''..'' then open_target fs k (butlast dest) cs
      else case node_at fs (dest @ [c]) of
        None \<Rightarrow> if cs = [] then Resolved (dest @ [c]) else NotExist
      | Some FDir \<Rightarrow> open_target fs k (dest @ [c]) cs
      | Some (FFile _) \<Rightarrow> if cs \<noteq> [] then WalkError ''not a directory'' else Resolved (dest @ [c])
      | Some (FLink t) \<Rightarrow>
          if k = 0 then WalkError ''too many links''
          else open_target fs (k - 1) (if is_abs t then [] else dest) (split_slash t @ cs))"
  by pat_completeness auto
termination
  by (relation "inv_image (less_than <*lex*> less_than) (\<lambda>(fs, k, dest, todo). (k, length todo))") auto

declare open_target.simps [simp del]

definition write_file :: "os_files \<Rightarrow> file_system \<Rightarrow> string list \<Rightarrow> string \<Rightarrow> os_cause + file_system" where
  "write_file os fs p content =
     (case open_target fs max_links [] p of
        NotExist \<Rightarrow> Inl CauseNotExist
      | WalkError m \<Rightarrow> Inl (CauseOther m)
      | Resolved d \<Rightarrow> if of_unwritable os d then Inl CausePermission else Inr (AList.update d (FFile content) fs))"

section \<open>Paths of the tools (file.go, artifact.go)\<close>

definition tool_work_dir :: "string \<Rightarrow> string \<Rightarrow> string" where
  "tool_work_dir cwd workDir = path_str (comps_of (if is_abs workDir then workDir else cwd @ ''/'' @ workDir))"

definition absolute_path :: "string \<Rightarrow> string \<Rightarrow> string list" where
  "absolute_path workDir p = comps_of (if is_abs p then p else workDir @ ''/'' @ p)"

definition validate_path :: "file_system \<Rightarrow> string \<Rightarrow> string \<Rightarrow> go_err + string" where
  "validate_path fs workDir p =
     (case eval_links fs 255 [] (absolute_path workDir p) of
        Resolved d \<Rightarrow> Inr (path_str d)
      | NotExist \<Rightarrow> Inr (path_str (absolute_path workDir p))
      | WalkError m \<Rightarrow> Inl (ErrWrap ''invalid path: '' (ErrText m) ''''))"

definition is_within_workspace :: "string \<Rightarrow> string \<Rightarrow> bool" where
  "is_within_workspace workDir resolved = (resolved = workDir \<or> has_prefix resolved (workDir @ ''/''))"

definition artifact_root :: "os_files \<Rightarrow> string" where
  "artifact_root os = path_str (comps_of (of_temp os @ ''/openagent''))"

definition is_within_artifact_dir :: "os_files \<Rightarrow> string \<Rightarrow> bool" where
  "is_within_artifact_dir os resolved = (resolved = artifact_root os \<or> has_prefix resolved (artifact_root os @ ''/''))"

text \<open>\<^verbatim>\<open>CanSelfApprove\<close> of read and write, and of ls and grep, for which no path is the workspace.\<close>

definition may_use :: "os_files \<Rightarrow> string \<Rightarrow> string \<Rightarrow> bool" where
  "may_use os workDir p =
     (case validate_path (of_fs os) workDir p of
        Inl e \<Rightarrow> False
      | Inr a \<Rightarrow> is_within_workspace workDir a \<or> is_within_artifact_dir os a)"

definition self_approve_file :: "os_files \<Rightarrow> string \<Rightarrow> (string \<Rightarrow> go_err + string) \<Rightarrow> string \<Rightarrow> bool" where
  "self_approve_file os workDir dec args =
     (case dec args of Inl e \<Rightarrow> False | Inr p \<Rightarrow> if p = '''' then False else may_use os workDir p)"

definition self_approve_dir :: "os_files \<Rightarrow> string \<Rightarrow> (string \<Rightarrow> string) \<Rightarrow> string \<Rightarrow> bool" where
  "self_approve_dir os workDir peek args = (if peek args = '''' then True else may_use os workDir (peek args))"

section \<open>Definitions of the tools\<close>

definition tabs :: "nat \<Rightarrow> string" where "tabs n = replicate n (CHR 0x09)"

definition read_schema :: string where
  "read_schema =
     ''{'' @ nl @ tabs 3 @ dquote @ ''type'' @ dquote @ '': '' @ dquote @ ''object'' @ dquote @ '','' @ nl @ tabs 3 @ dquote @
     ''properties'' @ dquote @ '': {'' @ nl @ tabs 4 @ dquote @ ''path'' @ dquote @ '': {'' @ dquote @ ''type'' @ dquote @ '': '' @
     dquote @ ''string'' @ dquote @ '', '' @ dquote @ ''description'' @ dquote @ '': '' @ dquote @ ''File path'' @ dquote @ ''}'' @
     nl @ tabs 3 @ ''},'' @ nl @ tabs 3 @ dquote @ ''required'' @ dquote @ '': ['' @ dquote @ ''path'' @ dquote @ '']'' @ nl @
     tabs 2 @ ''}''"

definition write_schema :: string where
  "write_schema =
     ''{'' @ nl @ tabs 3 @ dquote @ ''type'' @ dquote @ '': '' @ dquote @ ''object'' @ dquote @ '','' @ nl @ tabs 3 @ dquote @
     ''properties'' @ dquote @ '': {'' @ nl @ tabs 4 @ dquote @ ''path'' @ dquote @ '':    {'' @ dquote @ ''type'' @ dquote @ '': '' @
     dquote @ ''string'' @ dquote @ '', '' @ dquote @ ''description'' @ dquote @ '': '' @ dquote @ ''File path'' @ dquote @ ''},'' @
     nl @ tabs 4 @ dquote @ ''content'' @ dquote @ '': {'' @ dquote @ ''type'' @ dquote @ '': '' @ dquote @ ''string'' @ dquote @
     '', '' @ dquote @ ''description'' @ dquote @ '': '' @ dquote @ ''Content to write to the file'' @ dquote @ ''}'' @ nl @ tabs 3 @
     ''},'' @ nl @ tabs 3 @ dquote @ ''required'' @ dquote @ '': ['' @ dquote @ ''path'' @ dquote @ '', '' @ dquote @ ''content'' @
     dquote @ '']'' @ nl @ tabs 2 @ ''}''"

definition ls_schema :: string where
  "ls_schema =
     ''{'' @ nl @ tabs 3 @ dquote @ ''type'' @ dquote @ '': '' @ dquote @ ''object'' @ dquote @ '','' @ nl @ tabs 3 @ dquote @
     ''properties'' @ dquote @ '': {'' @ nl @ tabs 4 @ dquote @ ''path'' @ dquote @ '': {'' @ dquote @ ''type'' @ dquote @ '': '' @
     dquote @ ''string'' @ dquote @ '', '' @ dquote @ ''description'' @ dquote @ '': '' @ dquote @ ''Directory path'' @ dquote @
     ''},'' @ nl @ tabs 3 @ ''}'' @ nl @ tabs 2 @ ''}''"

definition read_tool_def :: function_def where
  "read_tool_def = \<lparr>fd_name = ''read'', fd_description = ''Read a file from the given path.'', fd_parameters = read_schema, fd_end_turn = False\<rparr>"

definition write_tool_def :: function_def where
  "write_tool_def = \<lparr>fd_name = ''write'', fd_description = ''Write content to a file. Creates parent directories as needed.'',
     fd_parameters = write_schema, fd_end_turn = False\<rparr>"

definition ls_tool_def :: function_def where
  "ls_tool_def = \<lparr>fd_name = ''ls'', fd_description = ''List files and directories at the given path.'', fd_parameters = ls_schema, fd_end_turn = False\<rparr>"

section \<open>ReadFile\<close>

definition is_binary :: "string \<Rightarrow> bool" where
  "is_binary data = list_ex (\<lambda>c. c = CHR 0x00) (take 512 data)"

definition control_byte :: "char \<Rightarrow> bool" where
  "control_byte c = (let b = (of_char c :: nat) in b < 9 \<or> 13 < b \<and> b < 32 \<and> b \<noteq> 27)"

definition detect_type :: "string \<Rightarrow> string" where
  "detect_type data =
     (if list_ex control_byte (take 64 data) then ''binary data''
      else if 4 \<le> length (take 64 data) \<and> take 4 data = [CHR 0x7F, CHR ''E'', CHR ''L'', CHR ''F''] then ''ELF executable''
      else ''unknown binary'')"

definition max_read :: nat where "max_read = 100 * 1024"

definition read_text :: "string \<Rightarrow> string \<Rightarrow> string" where
  "read_text p data =
     (if is_binary data then ''[binary file: '' @ p @ '', '' @ nat_str (length data) @ '' bytes, type: '' @ detect_type data @ '']''
      else if max_read < length data then take max_read data @ nl @ ''... [truncated, '' @ nat_str (length data) @ '' bytes total]''
      else data)"

definition read_execute :: "os_files \<Rightarrow> string \<Rightarrow> (string \<Rightarrow> go_err + string) \<Rightarrow> string \<Rightarrow> go_err + string" where
  "read_execute os workDir dec args =
     (case dec args of
        Inl e \<Rightarrow> Inl (ErrWrap ''read: '' e '''')
      | Inr p \<Rightarrow>
          if p = '''' then Inl (ErrText ''read: path is required'')
          else (case validate_path (of_fs os) workDir p of
            Inl e \<Rightarrow> Inl e
          | Inr a \<Rightarrow>
              (case read_file os a of
                 Inr data \<Rightarrow> Inr (read_text p data)
               | Inl CauseNotExist \<Rightarrow> Inl (ErrText (''read: file not found: '' @ p))
               | Inl CausePermission \<Rightarrow> Inl (ErrText (''read: permission denied: '' @ p))
               | Inl (CauseOther m) \<Rightarrow> Inl (ErrWrap ''read: '' (ErrText (''open '' @ a @ '': '' @ m)) ''''))))"

section \<open>WriteFile\<close>

definition max_write :: nat where "max_write = 10 * 1024 * 1024"

text \<open>The size in the answer is that of the file after the write.\<close>

definition write_execute :: "os_files \<Rightarrow> string \<Rightarrow> (string \<Rightarrow> go_err + string \<times> string) \<Rightarrow> string \<Rightarrow> (go_err + string) \<times> os_files" where
  "write_execute os workDir dec args =
     (case dec args of
        Inl e \<Rightarrow> (Inl (ErrWrap ''write: '' e ''''), os)
      | Inr (p, content) \<Rightarrow>
          if p = '''' then (Inl (ErrText ''write: path is required''), os)
          else if max_write < length content
          then (Inl (ErrText (''write: content too large ('' @ nat_str (length content) @ '' bytes, max '' @ nat_str max_write @ '')'')), os)
          else (case validate_path (of_fs os) workDir p of
            Inl e \<Rightarrow> (Inl e, os)
          | Inr a \<Rightarrow>
              (case mkdir_all (of_fs os) [] (butlast (comps_of a)) of
                 Inl c \<Rightarrow> (Inl (ErrWrap ''write: '' (ErrText (''mkdir '' @ a @ '': '' @ cause_text c)) ''''), os)
               | Inr (fs, d) \<Rightarrow>
                   (case write_file os fs (comps_of a) content of
                      Inl c \<Rightarrow> (Inl (ErrWrap ''write: '' (ErrText (''open '' @ a @ '': '' @ cause_text c)) ''''), os\<lparr>of_fs := fs\<rparr>)
                    | Inr fs \<Rightarrow> (Inr (''Wrote '' @ p @ '' ('' @ nat_str (length content) @ '' bytes)''), os\<lparr>of_fs := fs\<rparr>)))))"

section \<open>ListDir\<close>

record file_entry =
  fe_name :: string
  fe_size :: nat
  fe_is_dir :: bool

fun node_size :: "fs_node \<Rightarrow> nat" where
  "node_size FDir = 4096"
| "node_size (FFile c) = length c"
| "node_size (FLink t) = length t"

definition entry_less :: "file_entry \<Rightarrow> file_entry \<Rightarrow> bool" where
  "entry_less a b = (if fe_is_dir a \<noteq> fe_is_dir b then fe_is_dir a else to_lower (fe_name a) < to_lower (fe_name b))"

definition entry_line :: "file_entry \<Rightarrow> string" where
  "entry_line f = (if fe_is_dir f then ''  '' @ fe_name f @ ''/'' @ nl else ''  '' @ fe_name f @ ''  ('' @ nat_str (fe_size f) @ '')'' @ nl)"

text \<open>\<open>srt\<close> is \<^verbatim>\<open>sort.Slice\<close>, which does not fix the order of entries that are equal for \<open>entry_less\<close>.\<close>

definition ls_execute :: "(file_entry list \<Rightarrow> file_entry list) \<Rightarrow> os_files \<Rightarrow> string \<Rightarrow> (string \<Rightarrow> string) \<Rightarrow> string \<Rightarrow> go_err + string" where
  "ls_execute srt os workDir peek args =
     (let p = peek args in
      case (case validate_path (of_fs os) workDir p of Inl e \<Rightarrow> if p = '''' then Inr workDir else Inl e | Inr a \<Rightarrow> Inr a) of
        Inl e \<Rightarrow> Inl e
      | Inr dir \<Rightarrow>
          (case eval_links (of_fs os) max_links [] (comps_of dir) of
             NotExist \<Rightarrow> Inl (ErrWrap ''ls: '' (ErrText (''open '' @ dir @ '': no such file or directory'')) '''')
           | WalkError m \<Rightarrow> Inl (ErrWrap ''ls: '' (ErrText (''open '' @ dir @ '': '' @ m)) '''')
           | Resolved d \<Rightarrow>
               if node_at (of_fs os) d \<noteq> Some FDir then Inl (ErrWrap ''ls: '' (ErrText (''readdirent '' @ dir @ '': not a directory'')) '''')
               else
                 let files = srt (map (\<lambda>(n, x). \<lparr>fe_name = n, fe_size = node_size x, fe_is_dir = (x = FDir)\<rparr>) (dir_entries (of_fs os) d))
                 in Inr ((if p \<noteq> '''' then p @ '':'' @ nl else '''') @ concat (map entry_line files) @
                      (if files = [] then ''  (empty)'' @ nl else ''''))))"

section \<open>Where the tools read and write\<close>

definition inside :: "os_files \<Rightarrow> string \<Rightarrow> string list \<Rightarrow> bool" where
  "inside os workDir d = (prefix (comps_of workDir) d \<or> prefix (comps_of (artifact_root os)) d)"

definition no_links :: "file_system \<Rightarrow> string list \<Rightarrow> bool" where
  "no_links fs d = (\<forall>q t. prefix q d \<longrightarrow> node_at fs q \<noteq> Some (FLink t))"

lemma absolute_path_plain [simp]: "plain_path (absolute_path workDir p)"
  by (simp add: absolute_path_def)

lemma validate_path_resolved:
  assumes "validate_path fs workDir p = Inr a"
  obtains d where "a = path_str d" "plain_path d"
    "eval_links fs 255 [] (absolute_path workDir p) = Resolved d \<and> link_free fs d \<or>
     eval_links fs 255 [] (absolute_path workDir p) = NotExist \<and> d = absolute_path workDir p"
proof (cases "eval_links fs 255 [] (absolute_path workDir p)")
  case (Resolved d)
  have "list_all (\<lambda>c. CHR ''/'' \<notin> set c) (absolute_path workDir p)"
    using absolute_path_plain [of workDir p] by (auto simp: plain_def list_all_iff simp del: absolute_path_plain)
  then have "link_free fs d" using eval_links_link_free [OF Resolved] by simp
  then show thesis using that [of d] Resolved assms by (simp add: validate_path_def link_free_plain)
next
  case NotExist
  then show thesis using that [of "absolute_path workDir p"] assms by (simp add: validate_path_def)
next
  case (WalkError m)
  then show thesis using assms by (simp add: validate_path_def)
qed

lemma may_use_inside:
  assumes "may_use os workDir p" "workDir = tool_work_dir cwd dir" "validate_path (of_fs os) workDir p = Inr (path_str d)" "plain_path d"
  shows "inside os workDir d"
proof -
  obtain w where w: "workDir = path_str w" "plain_path w" using assms(2) by (simp add: tool_work_dir_def)
  obtain r where r: "artifact_root os = path_str r" "plain_path r" by (simp add: artifact_root_def)
  have "path_str d = path_str w \<or> has_prefix (path_str d) (path_str w @ ''/'') \<or> path_str d = path_str r \<or> has_prefix (path_str d) (path_str r @ ''/'')"
    using assms(1,3) w(1) r(1) by (auto simp: may_use_def is_within_workspace_def is_within_artifact_dir_def)
  then have "prefix w d \<or> prefix r d"
    using path_str_prefix [OF assms(4) w(2)] path_str_prefix [OF assms(4) r(2)] path_str_inject [OF assms(4) w(2)] path_str_inject [OF assms(4) r(2)]
    by auto
  then show ?thesis by (simp add: inside_def w r)
qed

lemma node_at_update: "node_at (AList.update k v fs) q = (if q = k \<and> k \<noteq> [] then Some v else node_at fs q)"
  by (simp add: node_at_def update_conv)

lemma mkdir_all_adds_dirs:
  "mkdir_all fs d cs = Inr (fs', e) \<Longrightarrow> node_at fs' q = Some n \<Longrightarrow> n = FDir \<or> node_at fs q = Some n"
proof (induction fs d cs rule: mkdir_all.induct)
  case (2 fs d c cs)
  then show ?case by (auto simp: node_at_update split: option.splits fs_node.splits resolution.splits if_splits)
qed simp

lemma mkdir_all_no_links: "mkdir_all fs d cs = Inr (fs', e) \<Longrightarrow> no_links fs p \<Longrightarrow> no_links fs' p"
  unfolding no_links_def by (metis mkdir_all_adds_dirs fs_node.distinct(3))

lemma open_target_no_links:
  "open_target fs k dest todo = Resolved d \<Longrightarrow> plain_path todo \<Longrightarrow> no_links fs (dest @ todo) \<Longrightarrow> d = dest @ todo"
proof (induction fs k dest todo rule: open_target.induct)
  case (2 fs k dest c cs)
  have p: "c \<noteq> ''''" "c \<noteq> ''.''" "c \<noteq> ''..''" using "2.prems"(2) by (auto simp: plain_def)
  have "\<And>t. node_at fs (dest @ [c]) \<noteq> Some (FLink t)" using "2.prems"(3) by (auto simp: no_links_def)
  with 2 p show ?case by (auto simp: open_target.simps(2) [of fs k dest c cs] split: option.splits fs_node.splits if_splits)
qed (simp add: open_target.simps)

lemma link_free_no_links: "link_free fs d \<Longrightarrow> no_links fs d"
  by (auto simp: link_free_def no_links_def dirs_to_def prefix_snoc)

lemma approved_read_inside:
  assumes "workDir = tool_work_dir cwd dir" "self_approve_file os workDir dec args" "read_execute os workDir dec args = Inr out"
  shows "\<exists>p d data. dec args = Inr p \<and> inside os workDir d \<and> node_at (of_fs os) d = Some (FFile data) \<and> out = read_text p data"
proof -
  obtain p where p: "dec args = Inr p" "p \<noteq> ''''" "may_use os workDir p"
    using assms(2) by (auto simp: self_approve_file_def split: sum.splits if_splits)
  then obtain a where a: "validate_path (of_fs os) workDir p = Inr a" by (auto simp: may_use_def split: sum.splits)
  then obtain d where d: "a = path_str d" "plain_path d"
    "eval_links (of_fs os) 255 [] (absolute_path workDir p) = Resolved d \<and> link_free (of_fs os) d \<or>
     eval_links (of_fs os) 255 [] (absolute_path workDir p) = NotExist \<and> d = absolute_path workDir p" by (rule validate_path_resolved)
  obtain data where data: "read_file os (path_str d) = Inr data" "out = read_text p data"
    using assms(3) a p(1,2) by (auto simp: read_execute_def d(1) split: sum.splits os_cause.splits)
  then obtain e where e: "eval_links (of_fs os) max_links [] d = Resolved e" "node_at (of_fs os) e = Some (FFile data)"
    using d(2) by (auto simp: read_file_def split: resolution.splits option.splits fs_node.splits if_splits)
  have "e = d"
  proof (cases "link_free (of_fs os) d")
    case True
    then show ?thesis using e(1) eval_link_free [of "of_fs os" "[]" d] by simp
  next
    case False
    then show ?thesis using e(1) d(3) eval_links_mono [of "of_fs os" max_links "[]" d 255] by (auto simp: max_links_def)
  qed
  moreover have "inside os workDir d" using may_use_inside [OF p(3) assms(1)] a d(1,2) by simp
  ultimately show ?thesis using p(1) e(2) data(2) by auto
qed

text \<open>
  Whatever the links in the file system, a read that the tool approved on its own returns the
  content of a file that really lies in the workspace or in the artifact directory.
\<close>

theorem approved_read_stays_inside:
  assumes "workDir = tool_work_dir cwd dir" "self_approve_file os workDir dec args" "read_execute os workDir dec args = Inr out"
  shows "\<exists>p d data. dec args = Inr p \<and> inside os workDir d \<and> node_at (of_fs os) d = Some (FFile data) \<and> out = read_text p data"
  using assms by (rule approved_read_inside)

text \<open>
  A write that the tool approved on its own puts no file outside the workspace and the artifact
  directory, provided that the path exists already or that no symbolic link is on it.
\<close>

theorem approved_write_stays_inside:
  assumes "workDir = tool_work_dir cwd dir" "dec args = Inr (p, content)" "self_approve_file os workDir decp args" "decp args = Inr p"
    and "eval_links (of_fs os) 255 [] (absolute_path workDir p) \<noteq> NotExist \<or> no_links (of_fs os) (absolute_path workDir p)"
    and "node_at (of_fs (snd (write_execute os workDir dec args))) q = Some (FFile c)" "node_at (of_fs os) q \<noteq> Some (FFile c)"
  shows "inside os workDir q \<and> c = content"
proof -
  have p: "p \<noteq> ''''" "may_use os workDir p"
    using assms(3,4) by (auto simp: self_approve_file_def split: if_splits)
  then obtain a where a: "validate_path (of_fs os) workDir p = Inr a" by (auto simp: may_use_def split: sum.splits)
  then obtain d where d: "a = path_str d" "plain_path d"
    "eval_links (of_fs os) 255 [] (absolute_path workDir p) = Resolved d \<and> link_free (of_fs os) d \<or>
     eval_links (of_fs os) 255 [] (absolute_path workDir p) = NotExist \<and> d = absolute_path workDir p" by (rule validate_path_resolved)
  have nl: "no_links (of_fs os) d" using d(3) assms(5) link_free_no_links by auto
  obtain fs e where m: "mkdir_all (of_fs os) [] (butlast d) = Inr (fs, e)"
    using assms(2,6,7) a p(1) d(1,2) by (auto simp: write_execute_def split: sum.splits if_splits)
  note old = mkdir_all_adds_dirs [OF m, of q]
  obtain t fs' where w: "open_target fs max_links [] d = Resolved t" "fs' = AList.update t (FFile content) fs" "node_at fs' q = Some (FFile c)"
    using assms(2,6,7) a p(1) d(1,2) m old
    by (auto simp: write_execute_def write_file_def split: sum.splits if_splits resolution.splits)
  have "t = d" using open_target_no_links [OF w(1) d(2)] mkdir_all_no_links [OF m nl] by simp
  then have "q = d \<and> c = content" using w old assms(7) by (auto simp: node_at_update split: if_splits)
  moreover have "inside os workDir d" using may_use_inside [OF p(2) assms(1)] a d(1,2) by simp
  ultimately show ?thesis by simp
qed

section \<open>Writing and reading back\<close>

definition keeps_nodes :: "file_system \<Rightarrow> file_system \<Rightarrow> bool" where
  "keeps_nodes fs fs' = (\<forall>q n. node_at fs q = Some n \<longrightarrow> (case n of FFile c \<Rightarrow> \<exists>c'. node_at fs' q = Some (FFile c') | _ \<Rightarrow> node_at fs' q = Some n))"

lemma mkdir_all_keeps: "mkdir_all fs d cs = Inr (fs', e) \<Longrightarrow> node_at fs q = Some n \<Longrightarrow> node_at fs' q = Some n"
proof (induction fs d cs rule: mkdir_all.induct)
  case (2 fs d c cs)
  then show ?case
    by (cases "q = d @ [c]") (auto simp: node_at_update split: option.splits fs_node.splits resolution.splits if_splits)
qed simp

lemma open_target_node:
  "open_target fs k dest todo = Resolved t \<Longrightarrow> t \<noteq> [] \<and> (node_at fs t = None \<or> (\<exists>c. node_at fs t = Some (FFile c)))"
proof (induction fs k dest todo rule: open_target.induct)
  case (2 fs k dest c cs)
  then show ?case by (auto simp: open_target.simps(2) [of fs k dest c cs] split: option.splits fs_node.splits if_splits)
qed (simp add: open_target.simps)

text \<open>Once the file is there, resolving its path finds the place where it was written, behind links, too.\<close>

lemma open_target_then_eval:
  "open_target fs k dest todo = Resolved t \<Longrightarrow> eval_links (AList.update t (FFile content) fs) k dest todo = Resolved t"
proof (induction fs k dest todo rule: open_target.induct)
  case (2 fs k dest c cs)
  note t = open_target_node [OF "2.prems"]
  from 2 t show ?case
    by (auto simp: open_target.simps(2) [of fs k dest c cs] eval_links_unfold(1) eval_links_unfold(2) [of _ k dest c cs] node_at_update
        split: option.splits fs_node.splits if_splits)
qed (simp add: open_target.simps)

lemma eval_links_keeps:
  "eval_links fs k dest todo = Resolved d \<Longrightarrow> keeps_nodes fs fs' \<Longrightarrow> eval_links fs' k dest todo = Resolved d"
proof (induction fs k dest todo rule: eval_links.induct)
  case (2 fs k dest c cs)
  have k: "\<And>n. node_at fs (dest @ [c]) = Some n \<Longrightarrow> (case n of FFile c' \<Rightarrow> \<exists>x. node_at fs' (dest @ [c]) = Some (FFile x) | _ \<Rightarrow> node_at fs' (dest @ [c]) = Some n)"
    using "2.prems"(2) by (simp add: keeps_nodes_def)
  from 2 k show ?case
    by (auto simp: eval_links_unfold(2) [of fs k dest c cs] eval_links_unfold(2) [of fs' k dest c cs] split: option.splits fs_node.splits if_splits)
qed (simp add: eval_links_unfold)

text \<open>A successful write leaves its content at one place, where the path leads from then on, and changes no other node.\<close>

lemma write_execute_written:
  assumes "write_execute os workDir dec args = (Inr out, os')" "dec args = Inr (p, content)"
  obtains d t where "validate_path (of_fs os) workDir p = Inr (path_str d)" "plain_path d" "p \<noteq> ''''"
    "eval_links (of_fs os') max_links [] d = Resolved t" "node_at (of_fs os') t = Some (FFile content)"
    "keeps_nodes (of_fs os) (of_fs os')" "\<And>q. q \<noteq> t \<Longrightarrow> node_at (of_fs os) q \<noteq> None \<Longrightarrow> node_at (of_fs os') q = node_at (of_fs os) q"
    "os' = os\<lparr>of_fs := of_fs os'\<rparr>"
proof -
  obtain a where p: "p \<noteq> ''''" and a: "validate_path (of_fs os) workDir p = Inr a"
    using assms by (auto simp: write_execute_def split: sum.splits if_splits)
  then obtain d where d: "a = path_str d" "plain_path d" by (elim validate_path_resolved) blast
  obtain fs e t where m: "mkdir_all (of_fs os) [] (butlast d) = Inr (fs, e)" and t: "open_target fs max_links [] d = Resolved t"
    and os': "os' = os\<lparr>of_fs := AList.update t (FFile content) fs\<rparr>"
    using assms a p d by (auto simp: write_execute_def write_file_def split: sum.splits if_splits resolution.splits)
  note keep = mkdir_all_keeps [OF m] and node = open_target_node [OF t]
  have same: "\<And>q. q \<noteq> t \<Longrightarrow> node_at (of_fs os) q \<noteq> None \<Longrightarrow> node_at (of_fs os') q = node_at (of_fs os) q"
    by (auto simp: os' node_at_update keep)
  have new: "node_at (of_fs os') t = Some (FFile content)" using node by (simp add: os' node_at_update)
  have "keeps_nodes (of_fs os) (of_fs os')"
    unfolding keeps_nodes_def
  proof (intro allI impI)
    fix q n
    assume n: "node_at (of_fs os) q = Some n"
    show "case n of FFile c \<Rightarrow> \<exists>c'. node_at (of_fs os') q = Some (FFile c') | _ \<Rightarrow> node_at (of_fs os') q = Some n"
    proof (cases "q = t")
      case True
      then show ?thesis using n keep [OF n] node new by (auto split: fs_node.split)
    next
      case False
      then show ?thesis using n same [of q] by (auto split: fs_node.split)
    qed
  qed
  then show thesis using that [OF _ d(2) p _ new _ same] a d(1) open_target_then_eval [OF t] by (simp add: os')
qed

text \<open>
  C29: what the write tool wrote, the read tool reads back by the same path, whatever links are on
  it, also where the write made the directories and the file; every other file, directory and link
  is as it was.
\<close>

theorem written_file_reads_back:
  assumes "write_execute os workDir dec args = (Inr out, os')" "dec args = Inr (p, content)" "decr rargs = Inr p"
    and "of_unreadable os = (\<lambda>d. False)"
  shows "read_execute os' workDir decr rargs = Inr (read_text p content) \<and>
    (\<exists>t. node_at (of_fs os') t = Some (FFile content) \<and> (\<forall>q. q \<noteq> t \<longrightarrow> node_at (of_fs os) q \<noteq> None \<longrightarrow> node_at (of_fs os') q = node_at (of_fs os) q))"
proof -
  obtain d t where w: "validate_path (of_fs os) workDir p = Inr (path_str d)" "plain_path d" "p \<noteq> ''''"
    "eval_links (of_fs os') max_links [] d = Resolved t" "node_at (of_fs os') t = Some (FFile content)"
    "keeps_nodes (of_fs os) (of_fs os')" "\<And>q. q \<noteq> t \<Longrightarrow> node_at (of_fs os) q \<noteq> None \<Longrightarrow> node_at (of_fs os') q = node_at (of_fs os) q"
    and os': "os' = os\<lparr>of_fs := of_fs os'\<rparr>" using write_execute_written [OF assms(1,2)] by metis
  have u: "of_unreadable os' = (\<lambda>d. False)" using arg_cong [OF os', of of_unreadable] assms(4) by simp
  from w(1) obtain d' where d': "path_str d = path_str d'" "plain_path d'"
    "eval_links (of_fs os) 255 [] (absolute_path workDir p) = Resolved d' \<and> link_free (of_fs os) d' \<or>
     eval_links (of_fs os) 255 [] (absolute_path workDir p) = NotExist \<and> d' = absolute_path workDir p" by (rule validate_path_resolved)
  have dd: "d' = d" using d'(1,2) w(2) path_str_inject by metis
  obtain b where b: "validate_path (of_fs os') workDir p = Inr (path_str b)" "plain_path b" "eval_links (of_fs os') max_links [] b = Resolved t"
  proof (cases "eval_links (of_fs os) 255 [] (absolute_path workDir p) = NotExist")
    case True
    then have r: "eval_links (of_fs os') 255 [] (absolute_path workDir p) = Resolved t"
      using w(4) d'(3) dd eval_links_mono [of "of_fs os'" max_links "[]" d 255] by (auto simp: max_links_def)
    have "list_all (\<lambda>c. CHR ''/'' \<notin> set c) (absolute_path workDir p)"
      using absolute_path_plain [of workDir p] by (auto simp: plain_def list_all_iff simp del: absolute_path_plain)
    with eval_links_link_free [OF r] have "link_free (of_fs os') t" by simp
    then show thesis using that [of t] r eval_link_free [of _ "[]" t] by (simp add: validate_path_def link_free_plain)
  next
    case False
    then have "eval_links (of_fs os') 255 [] (absolute_path workDir p) = Resolved d" using d'(3) dd eval_links_keeps [OF _ w(6)] by auto
    then show thesis using that [of d] w(2,4) by (simp add: validate_path_def)
  qed
  have "read_file os' (path_str b) = Inr content" using b(2,3) w(5) u by (simp add: read_file_def)
  then have "read_execute os' workDir decr rargs = Inr (read_text p content)" using assms(3) b(1) w(3) by (simp add: read_execute_def)
  then show ?thesis using w(5,7) by blast
qed

section \<open>Where the rule fails\<close>

definition demo_files :: os_files where
  "demo_files = \<lparr>of_fs = [([''w''], FDir), ([''w'', ''a''], FFile ''hi''), ([''etc''], FDir), ([''w'', ''out''], FLink ''/etc'')],
     of_unreadable = (\<lambda>_. False), of_unwritable = (\<lambda>_. False), of_temp = ''/tmp''\<rparr>"

lemmas demo_simps = demo_files_def self_approve_file_def may_use_def validate_path_def absolute_path_def is_abs_def has_prefix_def comps_of_def
  eval_links_unfold open_target.simps node_at_def path_str_def is_within_workspace_def is_within_artifact_dir_def artifact_root_def inside_def
  read_execute_def read_file_def read_text_def is_binary_def max_read_def write_execute_def write_file_def max_write_def max_links_def tool_work_dir_def

text \<open>
  A new file behind a link to a directory is approved, because its path does not exist and so keeps
  its link, and it is written behind the link.
\<close>

lemma write_escapes_workspace:
  "self_approve_file demo_files ''/w'' (\<lambda>_. Inr ''out/x'') '''' \<and>
   node_at (of_fs (snd (write_execute demo_files ''/w'' (\<lambda>_. Inr (''out/x'', ''evil'')) ''''))) [''etc'', ''x''] = Some (FFile ''evil'') \<and>
   \<not> inside demo_files ''/w'' [''etc'', ''x'']"
  by (simp add: demo_simps)

text \<open>The bytes behind the magic number of an ELF file are small numbers, so it is called binary data.\<close>

lemma elf_is_binary_data:
  assumes "take 4 s = [CHR 0x7F, CHR ''E'', CHR ''L'', CHR ''F'']" "4 < length s" "s ! 4 \<in> {CHR 0x01, CHR 0x02}"
  shows "detect_type s = ''binary data''"
proof -
  have "s ! 4 \<in> set (take 64 s)" using assms(2) by (auto simp: in_set_conv_nth intro: exI [of _ 4])
  moreover have "control_byte (s ! 4)" using assms(3) by (auto simp: control_byte_def)
  ultimately show ?thesis by (auto simp: detect_type_def list_ex_iff)
qed

text \<open>A comma before a closing brace is no JSON.\<close>

fun trailing_comma :: "string \<Rightarrow> bool" where
  "trailing_comma [] = False"
| "trailing_comma (c # s) = (c = CHR '','' \<and> (case dropWhile is_space s of [] \<Rightarrow> False | d # _ \<Rightarrow> d = CHR ''}'') \<or> trailing_comma s)"

lemma ls_schema_no_json: "trailing_comma ls_schema \<and> \<not> trailing_comma read_schema \<and> \<not> trailing_comma write_schema"
  by code_simp

text \<open>Without a path, the answer of the tool that lists never fails on the path.\<close>

lemma ls_default_dir:
  "peek args = '''' \<Longrightarrow> self_approve_dir os workDir peek args"
  by (simp add: self_approve_dir_def)

section \<open>Shell (shell.go)\<close>

definition shell_schema :: string where
  "shell_schema =
     ''{'' @ nl @ tabs 3 @ dquote @ ''type'' @ dquote @ '': '' @ dquote @ ''object'' @ dquote @ '','' @ nl @ tabs 3 @ dquote @
     ''properties'' @ dquote @ '': {'' @ nl @ tabs 4 @ dquote @ ''command'' @ dquote @ '': {'' @ nl @ tabs 5 @ dquote @ ''type'' @
     dquote @ '': '' @ dquote @ ''string'' @ dquote @ '','' @ nl @ tabs 5 @ dquote @ ''description'' @ dquote @ '': '' @ dquote @
     ''The shell command to execute'' @ dquote @ nl @ tabs 4 @ ''},'' @ nl @ tabs 4 @ dquote @ ''description'' @ dquote @ '': {'' @
     nl @ tabs 5 @ dquote @ ''type'' @ dquote @ '': '' @ dquote @ ''string'' @ dquote @ '','' @ nl @ tabs 5 @ dquote @
     ''description'' @ dquote @ '': '' @ dquote @ ''A short description of what this command does (for audit/logging)'' @ dquote @
     nl @ tabs 4 @ ''},'' @ nl @ tabs 4 @ dquote @ ''timeout'' @ dquote @ '': {'' @ nl @ tabs 5 @ dquote @ ''type'' @ dquote @
     '': '' @ dquote @ ''integer'' @ dquote @ '','' @ nl @ tabs 5 @ dquote @ ''description'' @ dquote @ '': '' @ dquote @
     ''Timeout in milliseconds (default: 180000 = 3 minutes)'' @ dquote @ nl @ tabs 4 @ ''}'' @ nl @ tabs 3 @ ''},'' @ nl @ tabs 3 @
     dquote @ ''required'' @ dquote @ '': ['' @ dquote @ ''command'' @ dquote @ '']'' @ nl @ tabs 2 @ ''}''"

record shell_params =
  sp_command :: string
  sp_timeout :: int

record shell_result =
  sh_stdout :: string
  sh_stderr :: string
  sh_exit :: int

text \<open>
  A sandbox gets the timeout, if one is set, and the arguments of \<^verbatim>\<open>/bin/bash\<close>; it may stream.
\<close>

record 'w sandbox =
  sb_run :: "int option \<Rightarrow> string list \<Rightarrow> string \<Rightarrow> 'w \<Rightarrow> (go_err + shell_result) \<times> 'w"
  sb_stream :: "(string list \<Rightarrow> string \<Rightarrow> 'w \<Rightarrow> tool_chunk list \<times> 'w) option"

record 'w shell =
  sl_sandbox :: "'w sandbox option"
  sl_work_dir :: string
  sl_language :: string

definition shell_def :: "'w shell \<Rightarrow> function_def" where
  "shell_def t = \<lparr>fd_name = ''shell'', fd_description =
       (if sl_language t \<noteq> '''' then ''Execute a shell command in a '' @ sl_language t @ '' sandbox. CWD is the workspace root.''
        else ''Execute a shell command. The shell starts in the workspace root '' @ [CHR 0xE2, CHR 0x80, CHR 0x94] @ '' use relative paths.'') @
       (if sl_work_dir t \<noteq> '''' then '' (CWD: '' @ sl_work_dir t @ '')'' else '''') @
       (case sl_sandbox t of None \<Rightarrow> '' [UNAVAILABLE: no sandbox configured]'' | Some b \<Rightarrow> ''''),
     fd_parameters = shell_schema, fd_end_turn = False\<rparr>"

definition format_shell_result :: "shell_result \<Rightarrow> string" where
  "format_shell_result r =
     (let b = sh_stdout r;
          b = (if sh_stderr r \<noteq> '''' then b @ (if 0 < length b \<and> \<not> has_suffix b nl then nl else '''') @ sh_stderr r else b);
          b = (if sh_exit r \<noteq> 0 then b @ nl @ ''[exit code: '' @ int_str (sh_exit r) @ '']'' else b)
      in if b = '''' then ''(no output)'' else b)"

definition shell_execute :: "'w shell \<Rightarrow> (string \<Rightarrow> go_err + shell_params) \<Rightarrow> string \<Rightarrow> 'w \<Rightarrow> (go_err + string) \<times> 'w" where
  "shell_execute t dec args w =
     (case dec args of
        Inl e \<Rightarrow> (Inl (ErrWrap ''shell: '' e ''''), w)
      | Inr ps \<Rightarrow>
          if sp_command ps = '''' then (Inl (ErrText ''shell: command is required''), w)
          else (case sl_sandbox t of
            None \<Rightarrow> (Inl (ErrText ''shell: no sandbox configured''), w)
          | Some b \<Rightarrow>
              (case sb_run b (if 0 < sp_timeout ps then Some (sp_timeout ps) else None) [''-c'', sp_command ps] (sl_work_dir t) w of
                 (Inl e, w) \<Rightarrow> (Inl e, w)
               | (Inr r, w) \<Rightarrow> (Inr (format_shell_result r), w))))"

definition shell_stream :: "'w shell \<Rightarrow> (string \<Rightarrow> go_err + shell_params) \<Rightarrow> string \<Rightarrow> 'w \<Rightarrow> tool_chunk list \<times> 'w" where
  "shell_stream t dec args w =
     (case dec args of
        Inl e \<Rightarrow> ([\<lparr>tk_content = '''', tk_error = Some (ErrWrap ''shell: '' e '''')\<rparr>], w)
      | Inr ps \<Rightarrow>
          if sp_command ps = '''' then ([\<lparr>tk_content = '''', tk_error = Some (ErrText ''shell: command is required'')\<rparr>], w)
          else (case sl_sandbox t of
            None \<Rightarrow> ([\<lparr>tk_content = '''', tk_error = Some (ErrText ''shell: no sandbox configured'')\<rparr>], w)
          | Some b \<Rightarrow>
              (case sb_stream b of
                 Some run \<Rightarrow> run [''-c'', sp_command ps] (sl_work_dir t) w
               | None \<Rightarrow>
                   (case shell_execute t dec args w of
                      (Inl e, w) \<Rightarrow> ([\<lparr>tk_content = '''', tk_error = Some e\<rparr>], w)
                    | (Inr out, w) \<Rightarrow> ([\<lparr>tk_content = out, tk_error = None\<rparr>], w)))))"

lemma shell_output_not_empty: "format_shell_result r \<noteq> ''''"
  by (simp add: format_shell_result_def Let_def)

text \<open>Without a sandbox that streams, streaming gives the one answer of the plain call.\<close>

lemma shell_stream_is_execute:
  assumes "\<And>b. sl_sandbox t = Some b \<Longrightarrow> sb_stream b = None"
  shows "shell_stream t dec args w = (case shell_execute t dec args w of
      (Inl e, w) \<Rightarrow> ([\<lparr>tk_content = '''', tk_error = Some e\<rparr>], w) | (Inr out, w) \<Rightarrow> ([\<lparr>tk_content = out, tk_error = None\<rparr>], w))"
  using assms by (auto simp: shell_stream_def shell_execute_def split: sum.split option.split prod.split)

section \<open>Witnesses\<close>

theorem approved_read_stays_inside_witness:
  "\<exists>p d data. inside demo_files ''/w'' d \<and> node_at (of_fs demo_files) d = Some (FFile data) \<and> ''hi'' = read_text p data"
proof -
  have "''/w'' = tool_work_dir ''/'' ''/w''" "self_approve_file demo_files ''/w'' (\<lambda>_. Inr ''a'') ''''"
    "read_execute demo_files ''/w'' (\<lambda>_. Inr ''a'') '''' = Inr ''hi''" by (simp_all add: demo_simps)
  from approved_read_stays_inside [OF this] show ?thesis by blast
qed

theorem written_file_reads_back_witness:
  "read_execute (snd (write_execute demo_files ''/w'' (\<lambda>_. Inr (''out/new/x'', ''text'')) '''')) ''/w'' (\<lambda>_. Inr ''out/new/x'') '''' = Inr ''text'' \<and>
   (\<exists>t. node_at (of_fs (snd (write_execute demo_files ''/w'' (\<lambda>_. Inr (''out/new/x'', ''text'')) ''''))) t = Some (FFile ''text''))"
proof -
  have w: "write_execute demo_files ''/w'' (\<lambda>_. Inr (''out/new/x'', ''text'')) '''' =
      (Inr (''Wrote out/new/x ('' @ nat_str 4 @ '' bytes)''), snd (write_execute demo_files ''/w'' (\<lambda>_. Inr (''out/new/x'', ''text'')) ''''))"
    by (simp add: demo_simps) (simp add: eval_nat_numeral)
  have "of_unreadable demo_files = (\<lambda>d. False)" by (simp add: demo_files_def)
  from written_file_reads_back [where decr = "\<lambda>_. Inr ''out/new/x''" and rargs = "[]", OF w refl refl this] show ?thesis
    by (auto simp: read_text_def is_binary_def max_read_def)
qed

theorem approved_write_stays_inside_witness:
  "inside demo_files ''/w'' [''w'', ''b'']"
proof -
  have "''/w'' = tool_work_dir ''/'' ''/w''" "(\<lambda>_. Inr (''b'', ''new'')) '''' = (Inr (''b'', ''new'') :: go_err + string \<times> string)"
    "self_approve_file demo_files ''/w'' (\<lambda>_. Inr ''b'') ''''" "(\<lambda>_. Inr ''b'') '''' = (Inr ''b'' :: go_err + string)"
    "node_at (of_fs (snd (write_execute demo_files ''/w'' (\<lambda>_. Inr (''b'', ''new'')) ''''))) [''w'', ''b''] = Some (FFile ''new'')"
    "node_at (of_fs demo_files) [''w'', ''b''] \<noteq> Some (FFile ''new'')" by (simp_all add: demo_simps)
  note facts = this
  have "absolute_path ''/w'' ''b'' = [''w'', ''b'']" by code_simp
  moreover have "node_at (of_fs demo_files) [''w''] = Some FDir" "node_at (of_fs demo_files) [''w'', ''b''] = None" by code_simp+
  ultimately have "no_links (of_fs demo_files) (absolute_path ''/w'' ''b'')"
    by (auto simp: no_links_def prefix_Cons)
  then show ?thesis using approved_write_stays_inside [OF facts(1-4) _ facts(5,6)] by blast
qed

end
