(* ===== verification/GrepTool.thy ===== *)
theory GrepTool
  imports FileTools
begin

text \<open>
  \<^verbatim>\<open>tool/grep.go\<close>: the tool that searches the files of a directory. \<^verbatim>\<open>filepath.WalkDir\<close> gives the nodes
  below the directory in lexical order, each before its children, and does not follow links; the
  callback of the tool may leave out a directory or end the walk. The regular expression and the
  file pattern are predicates, \<open>stop n\<close> says whether the context is done at the n-th walk_entry.
\<close>

section \<open>WalkDir\<close>

datatype walk_cmd = WalkOn | SkipDir | SkipAll

type_synonym walk_entry = "string list \<times> fs_node"

function walk_dir :: "(walk_entry \<Rightarrow> 's \<Rightarrow> walk_cmd \<times> 's) \<Rightarrow> walk_entry list \<Rightarrow> 's \<Rightarrow> 's" where
  "walk_dir f [] st = st"
| "walk_dir f (v # vs) st =
     (case f v st of
        (WalkOn, st) \<Rightarrow> walk_dir f vs st
      | (SkipDir, st) \<Rightarrow> walk_dir f (filter (\<lambda>(q, _). \<not> prefix (fst v) q) vs) st
      | (SkipAll, st) \<Rightarrow> st)"
  by pat_completeness auto
termination
  by (relation "measure (\<lambda>(f, vs, st). length vs)") (auto simp: less_Suc_eq_le)

declare walk_dir.simps [simp del]

text \<open>The nodes of a walk: the directory itself and what is below it, unless a directory on the way cannot be read.\<close>

definition walk_nodes :: "os_files \<Rightarrow> string list \<Rightarrow> walk_entry list" where
  "walk_nodes os start =
     (case node_at (of_fs os) start of
        None \<Rightarrow> []
      | Some n \<Rightarrow> (start, n) # sort_key fst (filter (\<lambda>(q, _). strict_prefix start q \<and>
          \<not> list_ex (\<lambda>(u, _). prefix start u \<and> strict_prefix u q \<and> of_unreadable os u) (([], FDir) # of_fs os)) (of_fs os)))"

section \<open>Lines\<close>

fun split_lines :: "string \<Rightarrow> string list" where
  "split_lines [] = ['''']"
| "split_lines (c # s) =
     (if c = CHR 0x0A then '''' # split_lines s
      else (case split_lines s of [] \<Rightarrow> [[c]] | x # xs \<Rightarrow> (c # x) # xs))"

definition max_line :: nat where "max_line = 1024 * 1024"

text \<open>\<^verbatim>\<open>bufio.Scanner\<close>: a last empty line is none, a carriage return at the end is dropped, a line too long ends the scan.\<close>

definition scanner_lines :: "string \<Rightarrow> string list" where
  "scanner_lines s =
     (let ls = split_lines s; ls = (if last ls = '''' then butlast ls else ls)
      in map (\<lambda>l. trim_suffix l [CHR 0x0D]) (takeWhile (\<lambda>l. length l < max_line) ls))"

section \<open>The tool\<close>

definition grep_schema :: string where
  "grep_schema =
     ''{'' @ nl @ tabs 4 @ dquote @ ''type'' @ dquote @ '': '' @ dquote @ ''object'' @ dquote @ '','' @ nl @ tabs 4 @ dquote @
     ''properties'' @ dquote @ '': {'' @ nl @ tabs 5 @ dquote @ ''pattern'' @ dquote @ '': {'' @ nl @ tabs 6 @ dquote @ ''type'' @
     dquote @ '': '' @ dquote @ ''string'' @ dquote @ '','' @ nl @ tabs 6 @ dquote @ ''description'' @ dquote @ '': '' @ dquote @
     ''Text or regex pattern to search for (case-sensitive unless (?i) flag used)'' @ dquote @ nl @ tabs 5 @ ''},'' @ nl @ tabs 5 @
     dquote @ ''path'' @ dquote @ '': {'' @ nl @ tabs 6 @ dquote @ ''type'' @ dquote @ '': '' @ dquote @ ''string'' @ dquote @ '','' @
     nl @ tabs 6 @ dquote @ ''description'' @ dquote @ '': '' @ dquote @ ''Subdirectory to search'' @ dquote @ nl @ tabs 5 @ ''},'' @
     nl @ tabs 5 @ dquote @ ''glob'' @ dquote @ '': {'' @ nl @ tabs 6 @ dquote @ ''type'' @ dquote @ '': '' @ dquote @ ''string'' @
     dquote @ '','' @ nl @ tabs 6 @ dquote @ ''description'' @ dquote @ '': '' @ dquote @ ''File pattern filter, e.g., '' @
     [CHR 0x27] @ ''*.go'' @ [CHR 0x27] @ '' or '' @ [CHR 0x27] @ ''*.{go,md}'' @ [CHR 0x27] @ '' (default: all text files)'' @
     dquote @ nl @ tabs 5 @ ''}'' @ nl @ tabs 4 @ ''},'' @ nl @ tabs 4 @ dquote @ ''required'' @ dquote @ '': ['' @ dquote @
     ''pattern'' @ dquote @ '']'' @ nl @ tabs 3 @ ''}''"

definition grep_tool_def :: function_def where
  "grep_tool_def = \<lparr>fd_name = ''grep'', fd_description = ''Search for a pattern in workspace files. Returns matching file paths, line numbers, and content. Use for finding usages, definitions, or patterns in the codebase.'',
     fd_parameters = grep_schema, fd_end_turn = False\<rparr>"

record grep_params =
  gp_pattern :: string
  gp_path :: string
  gp_glob :: string

record grep_env =
  ge_files :: os_files
  ge_work_dir :: string
  ge_match :: "string \<Rightarrow> bool"
  ge_glob :: "string \<Rightarrow> bool"
  ge_stop :: "nat \<Rightarrow> bool"

record grep_state =
  gs_matches :: "string list"
  gs_files :: nat
  gs_truncated :: bool
  gs_visits :: nat

definition max_matches :: nat where "max_matches = 200"
definition max_file_size :: nat where "max_file_size = 1 * 1024 * 1024"
definition max_files :: nat where "max_files = 2000"

definition match_line :: "string \<Rightarrow> nat \<Rightarrow> string \<Rightarrow> string" where
  "match_line rel n l = rel @ '':'' @ nat_str n @ '': '' @ l"

text \<open>\<^verbatim>\<open>grepFile\<close>: the loop over the lines, from line \<open>n\<close>, with the matches so far.\<close>

fun grep_lines :: "(string \<Rightarrow> bool) \<Rightarrow> string \<Rightarrow> nat \<Rightarrow> nat \<Rightarrow> string list \<Rightarrow> string list \<Rightarrow> string list" where
  "grep_lines m rel remaining n acc [] = acc"
| "grep_lines m rel remaining n acc (l # ls) =
     (let n = n + 1 in
      if m l then
        (let acc = acc @ [match_line rel n l] in if remaining \<le> length acc then acc else grep_lines m rel remaining n acc ls)
      else grep_lines m rel remaining n acc ls)"

definition grep_file :: "grep_env \<Rightarrow> string list \<Rightarrow> string \<Rightarrow> nat \<Rightarrow> go_err + string list" where
  "grep_file e path rel remaining =
     (case read_file (ge_files e) (path_str path) of
        Inl c \<Rightarrow> Inl (ErrText (cause_text c))
      | Inr data \<Rightarrow> Inr (grep_lines (ge_match e) rel remaining 0 [] (scanner_lines data)))"

text \<open>\<^verbatim>\<open>filepath.Rel\<close> on cleaned absolute paths.\<close>

fun drop_common :: "string list \<Rightarrow> string list \<Rightarrow> string list \<times> string list" where
  "drop_common (a # as) (b # bs) = (if a = b then drop_common as bs else (a # as, b # bs))"
| "drop_common as bs = (as, bs)"

definition rel_path :: "string list \<Rightarrow> string list \<Rightarrow> string" where
  "rel_path base target =
     (if base = target then ''.''
      else let (ups, rest) = drop_common base target in str_join (map (\<lambda>_. ''..'') ups @ rest) ''/'')"

definition node_name :: "string list \<Rightarrow> string" where
  "node_name path = (if path = [] then ''/'' else last path)"

definition hidden_dir :: "walk_entry \<Rightarrow> bool" where
  "hidden_dir v = (snd v = FDir \<and> has_prefix (node_name (fst v)) ''.'' \<and> node_name (fst v) \<noteq> ''.'')"

definition grep_visit :: "grep_env \<Rightarrow> walk_entry \<Rightarrow> grep_state \<Rightarrow> walk_cmd \<times> grep_state" where
  "grep_visit e v st =
     (let k = gs_visits st; st = st\<lparr>gs_visits := k + 1\<rparr> in
      if ge_stop e k then (WalkOn, st)
      else if snd v = FDir then (if hidden_dir v then (SkipDir, st) else (WalkOn, st))
      else if \<not> ge_glob e (node_name (fst v)) then (WalkOn, st)
      else
        let st = st\<lparr>gs_files := gs_files st + 1\<rparr> in
        if max_files < gs_files st then (SkipAll, st\<lparr>gs_truncated := True\<rparr>)
        else if max_file_size < node_size (snd v) then (WalkOn, st)
        else (case grep_file e (fst v) (rel_path (comps_of (ge_work_dir e)) (fst v)) (max_matches - length (gs_matches st)) of
            Inl _ \<Rightarrow> (WalkOn, st)
          | Inr found \<Rightarrow>
              let st = st\<lparr>gs_matches := gs_matches st @ found\<rparr> in
              if max_matches \<le> length (gs_matches st) then (SkipAll, st\<lparr>gs_truncated := True\<rparr>) else (WalkOn, st)))"

definition grep_start :: grep_state where
  "grep_start = \<lparr>gs_matches = [], gs_files = 0, gs_truncated = False, gs_visits = 0\<rparr>"

definition grep_text :: "grep_state \<Rightarrow> string" where
  "grep_text st =
     (if gs_matches st = [] then ''No matches found.''
      else nat_str (length (gs_matches st)) @ '' matches:'' @ nl @ concat (map (\<lambda>m. m @ nl) (gs_matches st)) @
        (if gs_truncated st then ''[results truncated]'' else ''''))"

text \<open>\<open>compile\<close> is \<^verbatim>\<open>regexp.Compile\<close>, \<open>glob\<close> is \<^verbatim>\<open>filepath.Match\<close> without its error.\<close>

definition grep_execute :: "os_files \<Rightarrow> string \<Rightarrow> (nat \<Rightarrow> bool) \<Rightarrow> (string \<Rightarrow> go_err + (string \<Rightarrow> bool)) \<Rightarrow> (string \<Rightarrow> string \<Rightarrow> bool)
    \<Rightarrow> (string \<Rightarrow> go_err + grep_params) \<Rightarrow> string \<Rightarrow> go_err + string" where
  "grep_execute os workDir stop compile glob dec args =
     (case dec args of
        Inl e \<Rightarrow> Inl (ErrWrap ''grep: '' e '''')
      | Inr ps \<Rightarrow>
          if gp_pattern ps = '''' then Inl (ErrText ''grep: pattern is required'')
          else (case (case validate_path (of_fs os) workDir (gp_path ps) of
                  Inl e \<Rightarrow> if gp_path ps = '''' then Inr workDir else Inl e | Inr a \<Rightarrow> Inr a) of
              Inl e \<Rightarrow> Inl e
            | Inr dir \<Rightarrow>
                (case compile (gp_pattern ps) of
                   Inl e \<Rightarrow> Inl (ErrWrap ''grep: invalid pattern: '' e '''')
                 | Inr m \<Rightarrow>
                     let e = \<lparr>ge_files = os, ge_work_dir = workDir, ge_match = m,
                           ge_glob = (\<lambda>n. gp_glob ps = '''' \<or> glob (gp_glob ps) n), ge_stop = stop\<rparr>
                     in Inr (grep_text (walk_dir (grep_visit e) (walk_nodes os (comps_of dir)) grep_start)))))"

section \<open>What a search finds\<close>

text \<open>All matching lines of a file, with their numbers.\<close>

definition lines_found :: "grep_env \<Rightarrow> walk_entry \<Rightarrow> string list" where
  "lines_found e v =
     (case read_file (ge_files e) (path_str (fst v)) of
        Inl _ \<Rightarrow> []
      | Inr data \<Rightarrow> map (\<lambda>(i, l). match_line (rel_path (comps_of (ge_work_dir e)) (fst v)) i l)
          (filter (\<lambda>(i, l). ge_match e l) (enumerate 1 (scanner_lines data))))"

text \<open>The files that count: no hidden directory of the walk is above them, and the pattern for names fits.\<close>

definition candidate :: "grep_env \<Rightarrow> walk_entry list \<Rightarrow> walk_entry \<Rightarrow> bool" where
  "candidate e vs v = (snd v \<noteq> FDir \<and> ge_glob e (node_name (fst v)) \<and> (\<forall>h \<in> set vs. hidden_dir h \<longrightarrow> \<not> prefix (fst h) (fst v)))"

text \<open>The lines of the files of a list that are small enough to be searched.\<close>

definition lines_of :: "grep_env \<Rightarrow> walk_entry list \<Rightarrow> string list" where
  "lines_of e vs = concat (map (lines_found e) (filter (\<lambda>v. node_size (snd v) \<le> max_file_size) vs))"

lemma lines_of_simps [simp]:
  "lines_of e [] = []"
  "lines_of e (v # vs) = (if node_size (snd v) \<le> max_file_size then lines_found e v else []) @ lines_of e vs"
  by (simp_all add: lines_of_def)

lemma grep_lines_take:
  "length acc < remaining \<Longrightarrow> grep_lines m rel remaining n acc ls =
     take remaining (acc @ map (\<lambda>(i, l). match_line rel i l) (filter (\<lambda>(i, l). m l) (enumerate (Suc n) ls)))"
proof (induction m rel remaining n acc ls rule: grep_lines.induct)
  case (2 m rel remaining n acc l ls)
  have "remaining \<le> Suc (length acc) \<Longrightarrow> remaining - length acc = Suc 0" using "2.prems" by simp
  with 2 show ?case by (cases "m l"; cases "remaining \<le> Suc (length acc)") (auto simp: Let_def)
qed simp

text \<open>One step of the walk at a file that counts.\<close>

lemma visit_candidate:
  assumes "snd v \<noteq> FDir" "ge_glob e (node_name (fst v))" "\<not> ge_stop e (gs_visits st)" "length (gs_matches st) < max_matches"
  shows "grep_visit e v st =
    (if max_files \<le> gs_files st then (SkipAll, st\<lparr>gs_visits := gs_visits st + 1, gs_files := gs_files st + 1, gs_truncated := True\<rparr>)
     else
       let found = (if node_size (snd v) \<le> max_file_size then take (max_matches - length (gs_matches st)) (lines_found e v) else []);
           st' = st\<lparr>gs_visits := gs_visits st + 1, gs_files := gs_files st + 1, gs_matches := gs_matches st @ found\<rparr>
       in if max_matches \<le> length (gs_matches st) + length found then (SkipAll, st'\<lparr>gs_truncated := True\<rparr>) else (WalkOn, st'))"
proof -
  have "grep_file e (fst v) (rel_path (comps_of (ge_work_dir e)) (fst v)) (max_matches - length (gs_matches st)) =
    (case read_file (ge_files e) (path_str (fst v)) of Inl c \<Rightarrow> Inl (ErrText (cause_text c))
     | Inr data \<Rightarrow> Inr (take (max_matches - length (gs_matches st)) (lines_found e v)))"
    using assms(4) by (simp add: grep_file_def lines_found_def grep_lines_take split: sum.split)
  then show ?thesis using assms
    by (auto simp: grep_visit_def lines_found_def Let_def split: sum.split)
qed

lemma visit_other:
  assumes "snd v = FDir \<or> \<not> ge_glob e (node_name (fst v))" "\<not> ge_stop e (gs_visits st)"
  shows "grep_visit e v st = (if hidden_dir v then SkipDir else WalkOn, st\<lparr>gs_visits := gs_visits st + 1\<rparr>)"
  using assms by (auto simp: grep_visit_def hidden_dir_def Let_def)

lemma prefix_le: "prefix xs ys \<Longrightarrow> xs \<le> (ys :: 'a::linorder list)"
proof (induction xs arbitrary: ys)
  case (Cons x xs)
  then show ?case by (cases ys) auto
qed simp

text \<open>Leaving out a hidden directory leaves out what does not count.\<close>

lemma candidates_hidden:
  assumes "hidden_dir v"
  shows "filter (candidate e (v # vs)) (v # vs) =
    filter (candidate e (filter (\<lambda>(q, _). \<not> prefix (fst v) q) vs)) (filter (\<lambda>(q, _). \<not> prefix (fst v) q) vs)"
proof -
  let ?vs = "filter (\<lambda>(q, _). \<not> prefix (fst v) q) vs"
  have "candidate e (v # vs) u \<longleftrightarrow> \<not> prefix (fst v) (fst u) \<and> candidate e ?vs u" if "u \<in> set vs" for u
    using assms by (auto simp: candidate_def) (metis prefix_order.trans)
  then have "filter (candidate e (v # vs)) vs = filter (candidate e ?vs) ?vs"
    by (simp add: filter_filter case_prod_beta cong: filter_cong)
  moreover have "\<not> candidate e (v # vs) v" using assms by (simp add: candidate_def hidden_dir_def)
  ultimately show ?thesis by simp
qed

lemma candidates_plain:
  assumes "\<not> hidden_dir v" "\<forall>w\<in>set vs. \<not> prefix (fst w) (fst v)"
  shows "filter (candidate e (v # vs)) (v # vs) =
    (if snd v \<noteq> FDir \<and> ge_glob e (node_name (fst v)) then [v] else []) @ filter (candidate e vs) vs"
proof -
  have "candidate e (v # vs) v \<longleftrightarrow> snd v \<noteq> FDir \<and> ge_glob e (node_name (fst v))" using assms by (auto simp: candidate_def)
  moreover have "filter (candidate e (v # vs)) vs = filter (candidate e vs) vs"
    using assms(1) by (intro filter_cong) (auto simp: candidate_def)
  ultimately show ?thesis by simp
qed

text \<open>The whole walk, from a state below both limits.\<close>

lemma walk_finds:
  "length (gs_matches st) < max_matches \<Longrightarrow> gs_files st \<le> max_files \<Longrightarrow> \<forall>k. \<not> ge_stop e k \<Longrightarrow>
   sorted (map fst vs) \<Longrightarrow> distinct (map fst vs) \<Longrightarrow> cs = filter (candidate e vs) vs \<Longrightarrow>
   ls = lines_of e (take (max_files - gs_files st) cs) \<Longrightarrow>
   gs_matches (walk_dir (grep_visit e) vs st) = gs_matches st @ take (max_matches - length (gs_matches st)) ls \<and>
   (gs_truncated (walk_dir (grep_visit e) vs st) \<longleftrightarrow>
      gs_truncated st \<or> max_matches \<le> length (gs_matches st) + length ls \<or> max_files < gs_files st + length cs)"
proof (induction "grep_visit e" vs st arbitrary: cs ls rule: walk_dir.induct)
  case (1 st)
  then show ?case by (simp add: walk_dir.simps)
next
  case (2 v vs st)
  have run: "\<not> ge_stop e (gs_visits st)" using "2.prems"(3) by simp
  have after: "\<forall>w\<in>set vs. \<not> prefix (fst w) (fst v)"
  proof
    fix w assume "w \<in> set vs"
    then have "fst v \<le> fst w" "fst v \<noteq> fst w" using "2.prems"(4,5) by auto
    then show "\<not> prefix (fst w) (fst v)" using prefix_le [of "fst w" "fst v"] by auto
  qed
  let ?st = "st\<lparr>gs_visits := gs_visits st + 1\<rparr>"
  show ?case
  proof (cases "snd v \<noteq> FDir \<and> ge_glob e (node_name (fst v))")
    case False
    then have v: "grep_visit e v st = (if hidden_dir v then SkipDir else WalkOn, ?st)" using visit_other run by blast
    show ?thesis
    proof (cases "hidden_dir v")
      case True
      let ?vs = "filter (\<lambda>(q, _). \<not> prefix (fst v) q) vs"
      have s: "sorted (map fst ?vs)" "distinct (map fst ?vs)" using "2.prems"(4,5) by (auto simp: sorted_filter distinct_map_filter)
      have d: "(SkipDir, ?st) = grep_visit e v st" using v True by simp
      have c: "cs = filter (candidate e ?vs) ?vs" using "2.prems"(6) candidates_hidden [OF True, of e vs] by simp
      show ?thesis using "2.hyps"(2) [OF d refl, of cs ls] "2.prems"(1-3,7) s c by (simp add: walk_dir.simps flip: d)
    next
      case h: False
      have d: "(WalkOn, ?st) = grep_visit e v st" using v h by simp
      have c: "cs = filter (candidate e vs) vs" using "2.prems"(6) candidates_plain [OF h after, of e] False by simp
      show ?thesis using "2.hyps"(1) [OF d refl, of cs ls] "2.prems"(1-5,7) c by (simp add: walk_dir.simps flip: d)
    qed
  next
    case True
    then have h: "\<not> hidden_dir v" by (simp add: hidden_dir_def)
    let ?cs = "filter (candidate e vs) vs"
    have c: "cs = v # ?cs" using "2.prems"(6) candidates_plain [OF h after, of e] True by simp
    let ?found = "if node_size (snd v) \<le> max_file_size then lines_found e v else []"
    let ?took = "take (max_matches - length (gs_matches st)) ?found"
    note v = visit_candidate [OF conjunct1 [OF True] conjunct2 [OF True] run "2.prems"(1)]
    show ?thesis
    proof (cases "max_files \<le> gs_files st")
      case full: True
      then show ?thesis using v c "2.prems"(2,7) by (simp add: walk_dir.simps)
    next
      case room: False
      let ?st' = "st\<lparr>gs_visits := gs_visits st + 1, gs_files := gs_files st + 1, gs_matches := gs_matches st @ ?took\<rparr>"
      have ls: "ls = ?found @ lines_of e (take (max_files - Suc (gs_files st)) ?cs)"
        using "2.prems"(7) c room by (simp add: Suc_diff_Suc [symmetric] not_le)
      show ?thesis
      proof (cases "max_matches \<le> length (gs_matches st) + length ?found")
        case cut: True
        have "grep_visit e v st = (SkipAll, ?st'\<lparr>gs_truncated := True\<rparr>)"
          using v room cut "2.prems"(1) by (cases "node_size (snd v) \<le> max_file_size") (simp_all add: Let_def)
        then show ?thesis using cut by (auto simp: walk_dir.simps ls)
      next
        case on: False
        then have t: "?took = ?found" by simp
        have d: "(WalkOn, ?st') = grep_visit e v st" using v room on by (auto simp: Let_def)
        have "length (gs_matches ?st') < max_matches" "gs_files ?st' \<le> max_files" using on room t by auto
        from "2.hyps"(1) [OF d refl this "2.prems"(3) _ _ refl refl] "2.prems"(4,5)
        show ?thesis unfolding ls c t using on by (auto simp: walk_dir.simps simp flip: d)
      qed
    qed
  qed
qed

lemma walk_nodes_sorted:
  assumes "distinct (map fst (of_fs os))"
  shows "sorted (map fst (walk_nodes os d)) \<and> distinct (map fst (walk_nodes os d))"
proof -
  have "d \<le> q \<and> d \<noteq> q" if "strict_prefix d q" for q using that prefix_le [of d q] by (auto simp: strict_prefix_def)
  moreover have "distinct (map fst (sort_key fst (filter P (of_fs os))))" for P
    using assms by (simp add: distinct_map inj_on_def distinct_map_filter)
  ultimately show ?thesis by (auto simp: walk_nodes_def split: option.split)
qed

text \<open>
  C21: a search looks at the files of the directory whose name fits the pattern for names and that are
  not below a hidden directory, at most the first 2000 of them in lexical order, and of these at the
  ones of at most a megabyte. What it prints are their matching lines in this order, each with its
  number, cut to the first 200; the answer says that it was cut exactly if there are lines and 200 of
  them were found, or there are more than 2000 such files.
\<close>

theorem grep_reports_all:
  assumes "distinct (map fst (of_fs os))" "\<forall>k. \<not> stop k" "dec args = Inr ps" "gp_pattern ps \<noteq> ''''"
    and "validate_path (of_fs os) workDir (gp_path ps) = Inr dir" "compile (gp_pattern ps) = Inr m"
    and "e = \<lparr>ge_files = os, ge_work_dir = workDir, ge_match = m, ge_glob = (\<lambda>n. gp_glob ps = '''' \<or> glob (gp_glob ps) n), ge_stop = stop\<rparr>"
    and "vs = walk_nodes os (comps_of dir)" "cs = filter (candidate e vs) vs" "ls = lines_of e (take 2000 cs)"
  shows "grep_execute os workDir stop compile glob dec args =
    Inr (if ls = [] then ''No matches found.''
         else nat_str (length (take 200 ls)) @ '' matches:'' @ nl @ concat (map (\<lambda>l. l @ nl) (take 200 ls)) @
           (if 200 \<le> length ls \<or> 2000 < length cs then ''[results truncated]'' else ''''))"
proof -
  let ?st = "walk_dir (grep_visit e) vs grep_start"
  have "gs_matches ?st = gs_matches grep_start @ take (max_matches - length (gs_matches grep_start)) ls \<and>
     (gs_truncated ?st \<longleftrightarrow> gs_truncated grep_start \<or> max_matches \<le> length (gs_matches grep_start) + length ls \<or> max_files < gs_files grep_start + length cs)"
    using walk_nodes_sorted [OF assms(1), of "comps_of dir"] assms(2,7-10)
    by (intro walk_finds) (simp_all add: grep_start_def max_matches_def max_files_def)
  then have "gs_matches ?st = take 200 ls" "gs_truncated ?st \<longleftrightarrow> 200 \<le> length ls \<or> 2000 < length cs"
    by (simp_all add: grep_start_def max_matches_def max_files_def)
  then have "grep_text ?st = (if ls = [] then ''No matches found.''
         else nat_str (length (take 200 ls)) @ '' matches:'' @ nl @ concat (map (\<lambda>l. l @ nl) (take 200 ls)) @
           (if 200 \<le> length ls \<or> 2000 < length cs then ''[results truncated]'' else ''''))"
    by (simp only: grep_text_def) simp
  moreover have "grep_execute os workDir stop compile glob dec args = Inr (grep_text ?st)"
    using assms(3-8) by (simp add: grep_execute_def)
  ultimately show ?thesis by simp
qed

definition grep_files :: os_files where
  "grep_files = \<lparr>of_fs = [([''w''], FDir), ([''etc''], FDir), ([''etc'', ''pw''], FFile ''key''), ([''w'', ''a''], FFile (''x'' @ nl @ ''key'')), ([''w'', ''l''], FLink ''/etc/pw''),
       ([''w'', ''.h''], FDir), ([''w'', ''.h'', ''b''], FFile ''key'')],
     of_unreadable = (\<lambda>_. False), of_unwritable = (\<lambda>_. False), of_temp = ''/tmp''\<rparr>"

definition grep_demo :: "string \<Rightarrow> go_err + string" where
  "grep_demo p = grep_execute grep_files ''/w'' (\<lambda>_. False) (\<lambda>pat. Inr (\<lambda>l. l = pat)) (\<lambda>_ _. True) (\<lambda>_. Inr \<lparr>gp_pattern = ''key'', gp_path = p, gp_glob = ''''\<rparr>) ''''"

lemmas grep_simps = grep_files_def grep_demo_def grep_execute_def validate_path_def absolute_path_def is_abs_def has_prefix_def comps_of_def eval_links_unfold
  node_at_def path_str_def walk_nodes_def walk_dir.simps grep_visit_def hidden_dir_def node_name_def grep_start_def max_files_def max_file_size_def max_matches_def
  grep_file_def read_file_def max_links_def scanner_lines_def max_line_def trim_suffix_def match_line_def rel_path_def grep_text_def nl_def nat_str.simps

text \<open>A link in the workspace to a file elsewhere is opened, and its lines are reported, without approval.\<close>

lemma grep_follows_links:
  "grep_demo '''' = Inr (''2 matches:'' @ nl @ ''a:2: key'' @ nl @ ''l:1: key'' @ nl) \<and>
   self_approve_dir grep_files ''/w'' (\<lambda>_. '''') '''' \<and> \<not> inside grep_files ''/w'' [''etc'', ''pw'']"
  by (simp add: grep_simps self_approve_dir_def inside_def artifact_root_def) code_simp

text \<open>A hidden directory that is asked for by name is skipped like any other.\<close>

lemma grep_skips_hidden_target:
  "grep_demo ''.h'' = Inr ''No matches found.''"
  by (simp add: grep_simps)

text \<open>Two files with a match, one through a link; the file of the hidden directory does not count.\<close>

theorem grep_reports_all_witness:
  "grep_demo '''' = Inr (nat_str 2 @ '' matches:'' @ nl @ concat (map (\<lambda>l. l @ nl) [''a:2: key'', ''l:1: key'']))"
proof -
  have d: "distinct (map fst (of_fs grep_files))" "validate_path (of_fs grep_files) ''/w'' '''' = Inr ''/w''"
    by (simp_all add: grep_simps)
  let ?e = "\<lparr>ge_files = grep_files, ge_work_dir = ''/w'', ge_match = (\<lambda>l. l = ''key''), ge_glob = (\<lambda>n. True), ge_stop = (\<lambda>_. False)\<rparr>"
  let ?vs = "walk_nodes grep_files (comps_of ''/w'')"
  have c: "filter (candidate ?e ?vs) ?vs = [([''w'', ''a''], FFile (''x'' @ nl @ ''key'')), ([''w'', ''l''], FLink ''/etc/pw'')]"
    by (simp add: grep_simps candidate_def)
  have "lines_of ?e (take 2000 (filter (candidate ?e ?vs) ?vs)) = [''a:2: key'', ''l:1: key'']"
    unfolding c by (simp add: grep_simps lines_found_def) code_simp
  then show ?thesis unfolding grep_demo_def
    using grep_reports_all [OF d(1), of "\<lambda>_. False" "\<lambda>_. Inr \<lparr>gp_pattern = ''key'', gp_path = '''', gp_glob = ''''\<rparr>" "''''" _ "''/w''" "''/w''"
      "\<lambda>pat. Inr (\<lambda>l. l = pat)" "\<lambda>l. l = ''key''" ?e "\<lambda>_ _. True" ?vs, OF _ refl _ _ _ _ refl refl refl] d(2) c
    by (simp add: numeral_2_eq_2)
qed

end
