(* ===== verification/NativeSandbox.thy ===== *)
theory NativeSandbox
  imports GrepTool "HOL-Library.Multiset"
begin

text \<open>
  \<^verbatim>\<open>sandbox/native\<close>: running a command confined, on Linux with Bubblewrap if it is there, on macOS with Seatbelt, on
  Windows not at all. What starts a process is an argument: it gets the process and gives what it
  printed and how it ended. The tool on top is \<^verbatim>\<open>tool/shell.go\<close>.
\<close>

section \<open>Commands (sandbox.go) and processes\<close>

record sandbox_command =
  cmd_program :: string
  cmd_args :: "string list"
  cmd_env :: "string list"
  cmd_work_dir :: string
  cmd_stdin :: string

text \<open>An empty environment of the process is the one of its parent; the limit is that of the context.\<close>

record process =
  po_program :: string
  po_args :: "string list"
  po_dir :: string
  po_env :: "string list"
  po_stdin :: string
  po_limit :: "int option"

datatype run_end = Exited int | NotRun go_err

type_synonym 'w exec = "process \<Rightarrow> 'w \<Rightarrow> (string \<times> string \<times> run_end) \<times> 'w"

record native_sandbox =
  ns_work_dir :: string

definition new_native :: "(string \<Rightarrow> go_err + string) \<Rightarrow> (string \<Rightarrow> go_err option) \<Rightarrow> string \<Rightarrow> go_err + native_sandbox" where
  "new_native absp mkdir dir =
     (case absp dir of
        Inl e \<Rightarrow> Inl (ErrWrap ''native sandbox: '' e '''')
      | Inr a \<Rightarrow>
          (case mkdir a of
             Some e \<Rightarrow> Inl (ErrWrap ''native sandbox: create workspace: '' e '''')
           | None \<Rightarrow> Inr \<lparr>ns_work_dir = a\<rparr>))"

definition process_of :: "native_sandbox \<Rightarrow> int option \<Rightarrow> sandbox_command \<Rightarrow> string \<Rightarrow> string list \<Rightarrow> process" where
  "process_of s lim_ms cmd program args =
     \<lparr>po_program = program, po_args = args, po_dir = ns_work_dir s, po_env = cmd_env cmd, po_stdin = cmd_stdin cmd, po_limit = lim_ms\<rparr>"

text \<open>The end of a run: an exit status is a result, any other error is one.\<close>

definition run_result_of :: "string \<Rightarrow> string \<Rightarrow> string \<times> string \<times> run_end \<Rightarrow> go_err + shell_result" where
  "run_result_of platform note res =
     (let (out, err, en) = res in
      case en of
        Exited c \<Rightarrow> Inr \<lparr>sh_stdout = out, sh_stderr = err @ note, sh_exit = c\<rparr>
      | NotRun e \<Rightarrow> Inl (ErrWrap (''native sandbox ('' @ platform @ ''): '') e ''''))"

text \<open>Lines of both outputs, in the order \<open>merge\<close> of the two readers; the status is not looked at.\<close>

definition line_chunks :: "(string list \<Rightarrow> string list \<Rightarrow> string list) \<Rightarrow> (go_err \<Rightarrow> go_err) \<Rightarrow> string \<times> string \<times> run_end \<Rightarrow> tool_chunk list" where
  "line_chunks merge wrap res =
     (let (out, err, en) = res in
      case en of
        Exited c \<Rightarrow> map (\<lambda>l. \<lparr>tk_content = l @ nl, tk_error = None\<rparr>) (merge (scanner_lines out) (scanner_lines err))
      | NotRun e \<Rightarrow> [\<lparr>tk_content = '''', tk_error = Some (wrap e)\<rparr>])"

section \<open>Linux (native_linux.go)\<close>

definition bwrap_args :: "native_sandbox \<Rightarrow> sandbox_command \<Rightarrow> string list" where
  "bwrap_args s cmd =
     [''--unshare-all'', ''--new-session'', ''--die-with-parent'', ''--proc'', ''/proc'', ''--dev'', ''/dev'',
      ''--ro-bind'', ''/usr'', ''/usr'', ''--ro-bind'', ''/bin'', ''/bin'', ''--ro-bind'', ''/lib'', ''/lib'',
      ''--ro-bind'', ''/lib64'', ''/lib64''] @
     [''--bind'', ns_work_dir s, ''/workspace''] @
     [''--chdir'', ''/workspace''] @
     concat (map (\<lambda>e. [''--setenv'', e]) (cmd_env cmd)) @
     [''--'', cmd_program cmd] @ cmd_args cmd"

definition no_bwrap_note :: string where
  "no_bwrap_note = nl @ ''[warning: bwrap not found, running without sandbox]''"

definition unconfined_run :: "'w exec \<Rightarrow> native_sandbox \<Rightarrow> int option \<Rightarrow> sandbox_command \<Rightarrow> 'w \<Rightarrow> (go_err + shell_result) \<times> 'w" where
  "unconfined_run exec s lim_ms cmd w =
     (let (res, w) = exec (process_of s lim_ms cmd (cmd_program cmd) (cmd_args cmd)) w in
      (run_result_of ''linux, unconfined'' no_bwrap_note res, w))"

definition unconfined_stream ::
  "'w exec \<Rightarrow> (string list \<Rightarrow> string list \<Rightarrow> string list) \<Rightarrow> native_sandbox \<Rightarrow> sandbox_command \<Rightarrow> 'w \<Rightarrow> tool_chunk list \<times> 'w" where
  "unconfined_stream exec merge s cmd w =
     (let (res, w) = exec (process_of s None cmd (cmd_program cmd) (cmd_args cmd)) w in (line_chunks merge id res, w))"

text \<open>\<open>found\<close>: whether \<^verbatim>\<open>bwrap\<close> is on the path.\<close>

definition linux_run :: "'w exec \<Rightarrow> bool \<Rightarrow> native_sandbox \<Rightarrow> int option \<Rightarrow> sandbox_command \<Rightarrow> 'w \<Rightarrow> (go_err + shell_result) \<times> 'w" where
  "linux_run exec found s lim_ms cmd w =
     (if \<not> found then unconfined_run exec s lim_ms cmd w
      else let (res, w) = exec (process_of s lim_ms cmd ''bwrap'' (bwrap_args s cmd)) w in (run_result_of ''linux'' '''' res, w))"

definition linux_stream ::
  "'w exec \<Rightarrow> (string list \<Rightarrow> string list \<Rightarrow> string list) \<Rightarrow> bool \<Rightarrow> native_sandbox \<Rightarrow> sandbox_command \<Rightarrow> 'w \<Rightarrow> tool_chunk list \<times> 'w" where
  "linux_stream exec merge found s cmd w =
     (if \<not> found then unconfined_stream exec merge s cmd w
      else let (res, w) = exec (process_of s None cmd ''bwrap'' (bwrap_args s cmd)) w in
        (line_chunks merge (\<lambda>e. ErrWrap ''native sandbox (linux): '' e '''') res, w))"

section \<open>macOS (native_darwin.go)\<close>

definition seatbelt_quote :: "string \<Rightarrow> string" where
  "seatbelt_quote p = dquote @ concat (map (\<lambda>c. if [c] = dquote then CHR 0x5C # dquote else [c]) p) @ dquote"

definition read_only_paths :: "string list" where
  "read_only_paths = [''/bin'', ''/usr/bin'', ''/usr/lib'', ''/usr/libexec'', ''/System/Library'', ''/Library/Developer'',
     ''/private/var/select/sh'', ''/private/etc/shells'', ''/dev/null'', ''/dev/zero'', ''/dev/random'', ''/dev/urandom'']"

definition denied_paths :: "string list" where
  "denied_paths = [''/Users'', ''/Volumes'', ''/Applications'', ''/private/etc'', ''/private/tmp'', ''/private/var'', ''/opt'', ''/usr/local'']"

definition seatbelt_profile :: "native_sandbox \<Rightarrow> string" where
  "seatbelt_profile s =
     ''(version 1)'' @ nl @ ''(allow default)'' @ nl @ ''(deny network*)'' @ nl @
     concat (map (\<lambda>p. ''(deny file-read* file-write* (subpath '' @ seatbelt_quote p @ ''))'' @ nl) denied_paths) @
     ''(allow file-read* file-write* (subpath '' @ seatbelt_quote (ns_work_dir s) @ ''))'' @ nl @
     concat (map (\<lambda>p. ''(allow file-read* (subpath '' @ seatbelt_quote p @ ''))'' @ nl) read_only_paths)"

definition seatbelt_args :: "native_sandbox \<Rightarrow> sandbox_command \<Rightarrow> string list" where
  "seatbelt_args s cmd = [''-p'', seatbelt_profile s, ''--'', cmd_program cmd] @ cmd_args cmd"

definition darwin_run :: "'w exec \<Rightarrow> native_sandbox \<Rightarrow> int option \<Rightarrow> sandbox_command \<Rightarrow> 'w \<Rightarrow> (go_err + shell_result) \<times> 'w" where
  "darwin_run exec s lim_ms cmd w =
     (let (res, w) = exec (process_of s lim_ms cmd ''sandbox-exec'' (seatbelt_args s cmd)) w in (run_result_of ''darwin'' '''' res, w))"

definition darwin_stream ::
  "'w exec \<Rightarrow> (string list \<Rightarrow> string list \<Rightarrow> string list) \<Rightarrow> native_sandbox \<Rightarrow> sandbox_command \<Rightarrow> 'w \<Rightarrow> tool_chunk list \<times> 'w" where
  "darwin_stream exec merge s cmd w =
     (let (res, w) = exec (process_of s None cmd ''sandbox-exec'' (seatbelt_args s cmd)) w in
      (line_chunks merge (\<lambda>e. ErrWrap ''native sandbox (darwin): '' e '''') res, w))"

section \<open>Windows (native_windows.go)\<close>

definition windows_note :: string where
  "windows_note = nl @ ''[warning: windows sandbox not yet implemented, running unconfined]''"

definition windows_run :: "'w exec \<Rightarrow> native_sandbox \<Rightarrow> int option \<Rightarrow> sandbox_command \<Rightarrow> 'w \<Rightarrow> (go_err + shell_result) \<times> 'w" where
  "windows_run exec s lim_ms cmd w =
     (let (res, w) = exec (process_of s lim_ms cmd (cmd_program cmd) (cmd_args cmd)) w in (run_result_of ''windows'' windows_note res, w))"

definition windows_stream :: "'w exec \<Rightarrow> native_sandbox \<Rightarrow> sandbox_command \<Rightarrow> 'w \<Rightarrow> tool_chunk list \<times> 'w" where
  "windows_stream exec s cmd w =
     (case windows_run exec s None cmd w of
        (Inl e, w) \<Rightarrow> ([\<lparr>tk_content = '''', tk_error = Some e\<rparr>], w)
      | (Inr r, w) \<Rightarrow> ([\<lparr>tk_content = sh_stdout r @ sh_stderr r, tk_error = None\<rparr>], w))"

section \<open>The sandbox of the shell tool\<close>

definition shell_command :: "string list \<Rightarrow> string \<Rightarrow> sandbox_command" where
  "shell_command args dir = \<lparr>cmd_program = ''/bin/bash'', cmd_args = args, cmd_env = [], cmd_work_dir = dir, cmd_stdin = ''''\<rparr>"

definition linux_sandbox :: "'w exec \<Rightarrow> (string list \<Rightarrow> string list \<Rightarrow> string list) \<Rightarrow> bool \<Rightarrow> native_sandbox \<Rightarrow> 'w sandbox" where
  "linux_sandbox exec merge found s =
     \<lparr>sb_run = \<lambda>lim_ms args dir. linux_run exec found s lim_ms (shell_command args dir),
      sb_stream = Some (\<lambda>args dir. linux_stream exec merge found s (shell_command args dir))\<rparr>"

section \<open>Properties\<close>

text \<open>
  How Bubblewrap reads its arguments: options with as many operands as \<open>ar\<close> says, up to \<^verbatim>\<open>--\<close> or the
  first argument that is no option; the rest is the command.
\<close>

function read_options :: "(string \<Rightarrow> nat option) \<Rightarrow> string list \<Rightarrow> (string \<times> string list) list \<times> string list" where
  "read_options ar [] = ([], [])"
| "read_options ar (a # xs) =
     (if a = ''--'' then ([], xs)
      else case ar a of
        None \<Rightarrow> ([], a # xs)
      | Some n \<Rightarrow> (let (os, rest) = read_options ar (drop n xs) in ((a, take n xs) # os, rest)))"
  by pat_completeness auto
termination by (relation "measure (length \<circ> snd)") auto

definition documented :: "(string \<Rightarrow> nat option) \<Rightarrow> bool" where
  "documented ar \<longleftrightarrow>
     ar ''--unshare-all'' = Some 0 \<and> ar ''--new-session'' = Some 0 \<and> ar ''--die-with-parent'' = Some 0 \<and>
     ar ''--proc'' = Some 1 \<and> ar ''--dev'' = Some 1 \<and> ar ''--ro-bind'' = Some 2 \<and> ar ''--bind'' = Some 2 \<and>
     ar ''--chdir'' = Some 1 \<and> ar ''--setenv'' = Some 2"

definition fixed_options :: "native_sandbox \<Rightarrow> (string \<times> string list) list" where
  "fixed_options s =
     [(''--unshare-all'', []), (''--new-session'', []), (''--die-with-parent'', []), (''--proc'', [''/proc'']), (''--dev'', [''/dev'']),
      (''--ro-bind'', [''/usr'', ''/usr'']), (''--ro-bind'', [''/bin'', ''/bin'']), (''--ro-bind'', [''/lib'', ''/lib'']),
      (''--ro-bind'', [''/lib64'', ''/lib64'']), (''--bind'', [ns_work_dir s, ''/workspace'']), (''--chdir'', [''/workspace''])]"

lemma read_fixed:
  assumes "documented ar"
  shows "read_options ar (bwrap_args s cmd) =
    (let (os, rest) = read_options ar (concat (map (\<lambda>e. [''--setenv'', e]) (cmd_env cmd)) @ [''--'', cmd_program cmd] @ cmd_args cmd) in
     (fixed_options s @ os, rest))"
  using assms by (simp add: bwrap_args_def documented_def fixed_options_def numeral_2_eq_2 Let_def split: prod.split)

text \<open>
  What a process confines a command \<open>c\<close> to: it is Bubblewrap, which reads \<open>/bin/bash -c c\<close> as the command,
  unshares everything (the network with it), and of the binds only the workspace is writable.
\<close>

definition confines :: "(string \<Rightarrow> nat option) \<Rightarrow> native_sandbox \<Rightarrow> string \<Rightarrow> process \<Rightarrow> bool" where
  "confines ar s c p =
     (let (opts, rest) = read_options ar (po_args p) in
      po_program p = ''bwrap'' \<and> rest = [''/bin/bash'', ''-c'', c] \<and> (''--unshare-all'', []) \<in> set opts \<and>
      filter (\<lambda>(o1, os). o1 \<notin> {''--ro-bind'', ''--proc'', ''--dev'', ''--unshare-all'', ''--new-session'', ''--die-with-parent'', ''--chdir''}) opts =
        [(''--bind'', [ns_work_dir s, ''/workspace''])])"

text \<open>The process of a command of the shell tool, with and without Bubblewrap.\<close>

definition shell_process :: "bool \<Rightarrow> native_sandbox \<Rightarrow> int option \<Rightarrow> string \<Rightarrow> string \<Rightarrow> process" where
  "shell_process found s lim_ms dir c =
     (let cmd = shell_command [''-c'', c] dir in
      if found then process_of s lim_ms cmd ''bwrap'' (bwrap_args s cmd) else process_of s lim_ms cmd (cmd_program cmd) (cmd_args cmd))"

lemma shell_process_confines:
  assumes "documented ar"
  shows "if found then confines ar s c (shell_process found s lim_ms dir c)
    else po_program (shell_process found s lim_ms dir c) = ''/bin/bash'' \<and> po_args (shell_process found s lim_ms dir c) = [''-c'', c]"
proof -
  have "read_options ar (bwrap_args s (shell_command [''-c'', c] dir)) = (fixed_options s, [''/bin/bash'', ''-c'', c])"
    using read_fixed [OF assms, of s "shell_command [''-c'', c] dir"] by (simp add: shell_command_def)
  then show ?thesis
    by (simp add: confines_def shell_process_def process_of_def fixed_options_def Let_def) (simp add: shell_command_def)
qed

lemma shell_process_sel [simp]:
  "po_dir (shell_process found s lim_ms dir c) = ns_work_dir s" "po_env (shell_process found s lim_ms dir c) = []"
  "po_stdin (shell_process found s lim_ms dir c) = ''''" "po_limit (shell_process found s lim_ms dir c) = lim_ms"
  by (simp_all add: shell_process_def process_of_def shell_command_def Let_def)

lemma shell_execute_process:
  assumes "sl_sandbox t = Some (linux_sandbox exec merge found s)" "dec args = Inr ps" "sp_command ps \<noteq> ''''"
    and "exec (shell_process found s (if 0 < sp_timeout ps then Some (sp_timeout ps) else None) (sl_work_dir t) (sp_command ps)) w = ((out, err, en), w')"
  shows "shell_execute t dec args w =
    (case en of
       Exited c \<Rightarrow> Inr (format_shell_result \<lparr>sh_stdout = out, sh_stderr = err @ (if found then '''' else no_bwrap_note), sh_exit = c\<rparr>)
     | NotRun e \<Rightarrow> Inl (ErrWrap (''native sandbox ('' @ (if found then ''linux'' else ''linux, unconfined'') @ ''): '') e ''''), w')"
  using assms
  by (cases en) (simp_all add: shell_execute_def linux_sandbox_def linux_run_def unconfined_run_def shell_process_def run_result_of_def Let_def
      split: if_splits)

lemma shell_stream_process:
  assumes "sl_sandbox t = Some (linux_sandbox exec merge found s)" "dec args = Inr ps" "sp_command ps \<noteq> ''''"
    and "exec (shell_process found s None (sl_work_dir t) (sp_command ps)) w = (res, w')"
  shows "shell_stream t dec args w =
    (line_chunks merge (if found then \<lambda>e. ErrWrap ''native sandbox (linux): '' e '''' else id) res, w')"
  using assms
  by (simp add: shell_stream_def linux_sandbox_def linux_stream_def unconfined_stream_def shell_process_def Let_def split: if_splits)

text \<open>
  C20: on Linux a command of the shell tool starts one process, in the workspace and with the timeout
  of the call if it does not stream. Where Bubblewrap is installed the process is a sandbox whose only
  writable part is the workspace and which has no network, whatever the command is: Bubblewrap reads
  all of the tool's text as the command, none of it as an option. Where it is not installed the process
  is the plain shell, not confined at all; then the answer of a call that does not stream ends its
  standard error with a warning, while a call that streams gives only the lines of the command.
\<close>

theorem shell_runs_confined:
  assumes "documented ar" "sl_sandbox t = Some (linux_sandbox exec merge found s)"
    and "dec args = Inr ps" "sp_command ps \<noteq> ''''"
  shows "\<exists>p q. po_dir p = ns_work_dir s \<and> po_limit p = (if 0 < sp_timeout ps then Some (sp_timeout ps) else None) \<and> q = p\<lparr>po_limit := None\<rparr> \<and>
    (if found then confines ar s (sp_command ps) p \<and> confines ar s (sp_command ps) q
     else po_program p = ''/bin/bash'' \<and> po_args p = [''-c'', sp_command ps]) \<and>
    (\<forall>w out err en w'. exec p w = ((out, err, en), w') \<longrightarrow> snd (shell_execute t dec args w) = w' \<and>
       (\<forall>c. en = Exited c \<longrightarrow> fst (shell_execute t dec args w) =
          Inr (format_shell_result \<lparr>sh_stdout = out, sh_stderr = err @ (if found then '''' else no_bwrap_note), sh_exit = c\<rparr>))) \<and>
    (\<forall>w out err en w'. exec q w = ((out, err, en), w') \<longrightarrow> snd (shell_stream t dec args w) = w' \<and>
       (\<forall>c. en = Exited c \<longrightarrow> map tk_content (fst (shell_stream t dec args w)) = map (\<lambda>l. l @ nl) (merge (scanner_lines out) (scanner_lines err))))"
proof -
  let ?lim = "if 0 < sp_timeout ps then Some (sp_timeout ps) else None"
  let ?p = "\<lambda>lim_ms. shell_process found s lim_ms (sl_work_dir t) (sp_command ps)"
  have q: "?p None = ?p l\<lparr>po_limit := None\<rparr>" for l
    by (simp add: shell_process_def process_of_def Let_def)
  note c = shell_process_confines [OF assms(1), of found s "sp_command ps" _ "sl_work_dir t"]
  have e: "snd (shell_execute t dec args w) = w' \<and> (\<forall>c. en = Exited c \<longrightarrow> fst (shell_execute t dec args w) =
       Inr (format_shell_result \<lparr>sh_stdout = out, sh_stderr = err @ (if found then '''' else no_bwrap_note), sh_exit = c\<rparr>))"
    if "exec (?p ?lim) w = ((out, err, en), w')" for w out err en w'
    using shell_execute_process [where dec = dec and args = args, OF assms(2-4) that] by simp
  have st: "snd (shell_stream t dec args w) = w' \<and> (\<forall>c. en = Exited c \<longrightarrow>
       map tk_content (fst (shell_stream t dec args w)) = map (\<lambda>l. l @ nl) (merge (scanner_lines out) (scanner_lines err)))"
    if "exec (?p None) w = ((out, err, en), w')" for w out err en w'
    using shell_stream_process [where dec = dec and args = args, OF assms(2-4) that] by (simp add: line_chunks_def)
  have k: "if found then confines ar s (sp_command ps) (?p ?lim) \<and> confines ar s (sp_command ps) (?p None)
      else po_program (?p ?lim) = ''/bin/bash'' \<and> po_args (?p ?lim) = [''-c'', sp_command ps]"
    using c [of ?lim] c [of None] by (simp split: if_splits)
  show ?thesis
    by (rule exI [of _ "?p ?lim"], rule exI [of _ "?p None"], intro conjI allI impI)
       (use k q [of ?lim] e st in \<open>simp_all del: if_split\<close>)
qed

definition bwrap_arity :: "string \<Rightarrow> nat option" where
  "bwrap_arity o1 =
     (if o1 \<in> {''--unshare-all'', ''--new-session'', ''--die-with-parent''} then Some 0
      else if o1 \<in> {''--proc'', ''--dev'', ''--chdir''} then Some 1
      else if o1 \<in> {''--ro-bind'', ''--bind'', ''--setenv''} then Some 2 else None)"

definition demo_exec :: "process list exec" where
  "demo_exec p w = ((''ok'', '''', Exited 0), w @ [p])"

definition demo_shell :: "bool \<Rightarrow> process list shell" where
  "demo_shell found = \<lparr>sl_sandbox = Some (linux_sandbox demo_exec (@) found \<lparr>ns_work_dir = ''/w''\<rparr>), sl_work_dir = ''/w'', sl_language = ''''\<rparr>"

text \<open>The same command once with Bubblewrap, streaming, and once without it.\<close>

theorem shell_runs_confined_witness:
  "(\<exists>q. snd (shell_stream (demo_shell True) (\<lambda>_. Inr \<lparr>sp_command = ''--bind / /'', sp_timeout = 0\<rparr>) '''' []) = [q] \<and>
      confines bwrap_arity \<lparr>ns_work_dir = ''/w''\<rparr> ''--bind / /'' q) \<and>
   (\<exists>p. shell_execute (demo_shell False) (\<lambda>_. Inr \<lparr>sp_command = ''--bind / /'', sp_timeout = 5\<rparr>) '''' [] =
      (Inr (''ok'' @ nl @ no_bwrap_note), [p]) \<and> po_program p = ''/bin/bash'' \<and> po_limit p = Some 5)"
proof -
  have d: "documented bwrap_arity" by (simp add: documented_def bwrap_arity_def)
  let ?ps = "\<lambda>l. \<lparr>sp_command = ''--bind / /'', sp_timeout = l\<rparr>"
  have s: "sl_sandbox (demo_shell f) = Some (linux_sandbox demo_exec (@) f \<lparr>ns_work_dir = ''/w''\<rparr>)" for f
    by (simp add: demo_shell_def)
  from shell_runs_confined [OF d s, of "\<lambda>_. Inr (?ps 0)" "''''" "?ps 0" True]
  have "\<exists>q. snd (shell_stream (demo_shell True) (\<lambda>_. Inr (?ps 0)) '''' []) = [q] \<and> confines bwrap_arity \<lparr>ns_work_dir = ''/w''\<rparr> ''--bind / /'' q"
    by (auto simp: demo_exec_def)
  moreover from shell_runs_confined [OF d s, of "\<lambda>_. Inr (?ps 5)" "''''" "?ps 5" False]
  obtain p where p: "po_program p = ''/bin/bash''" "po_limit p = Some 5"
    "snd (shell_execute (demo_shell False) (\<lambda>_. Inr (?ps 5)) '''' []) = [p]"
    "fst (shell_execute (demo_shell False) (\<lambda>_. Inr (?ps 5)) '''' []) = Inr (format_shell_result \<lparr>sh_stdout = ''ok'', sh_stderr = no_bwrap_note, sh_exit = 0\<rparr>)"
    by (auto simp: demo_exec_def)
  moreover have "format_shell_result \<lparr>sh_stdout = ''ok'', sh_stderr = no_bwrap_note, sh_exit = 0\<rparr> = ''ok'' @ nl @ no_bwrap_note"
    by (simp add: format_shell_result_def no_bwrap_note_def nl_def has_suffix_def suffix_to_prefix Let_def)
  ultimately show ?thesis by (metis prod.collapse)
qed

text \<open>
  With an environment the separator is eaten: \<^verbatim>\<open>--setenv\<close> takes two operands and is given one, so the
  last variable takes \<^verbatim>\<open>--\<close> as its value and the program is read where options are.
\<close>

lemma env_eats_separator:
  assumes "documented ar" "cmd_env cmd = [e]"
  shows "(''--setenv'', [e, ''--'']) \<in> set (fst (read_options ar (bwrap_args s cmd))) \<and>
    snd (read_options ar (bwrap_args s cmd)) = snd (read_options ar (cmd_program cmd # cmd_args cmd))"
  using assms(1,2) by (simp add: read_fixed documented_def numeral_2_eq_2 Let_def split: prod.split)

text \<open>A stream tells nothing of the exit status, though the plain run does.\<close>

lemma stream_hides_exit: "line_chunks merge wrap (out, err, Exited c) = line_chunks merge wrap (out, err, Exited c')"
  by (simp add: line_chunks_def)

lemma stream_has_lines:
  assumes "\<And>xs ys. merge xs ys \<in> shuffles xs ys"
  shows "mset (map tk_content (line_chunks merge wrap (out, err, Exited c))) = mset (map (\<lambda>l. l @ nl) (scanner_lines out @ scanner_lines err))"
proof -
  have "mset (merge (scanner_lines out) (scanner_lines err)) = mset (scanner_lines out @ scanner_lines err)"
    using assms mset_shuffles by (metis mset_append)
  then show ?thesis by (simp add: line_chunks_def comp_def)
qed

text \<open>A backslash at the end of the path escapes the closing quote of the profile.\<close>

lemma backslash_unquoted: "seatbelt_quote [CHR 0x5C] = dquote @ [CHR 0x5C] @ dquote"
  by (simp add: seatbelt_quote_def dquote_def)

end
