(* ===== verification/ToolApproval.thy ===== *)
theory ToolApproval
  imports Tools NativeSandbox
begin

text \<open>
  The file, search and shell tools as tools of an agent, and what the approval of the runner
  (\<^verbatim>\<open>runner.go\<close>) makes of their own. The file system is a part of the world.
\<close>

section \<open>The tools of an agent\<close>

record 'w disk =
  dk_get :: "'w \<Rightarrow> os_files"
  dk_put :: "os_files \<Rightarrow> 'w \<Rightarrow> 'w"

definition tool_answer :: "go_err + string \<Rightarrow> string \<times> go_err option" where
  "tool_answer r = (case r of Inl e \<Rightarrow> ('''', Some e) | Inr out \<Rightarrow> (out, None))"

definition read_tool :: "'w disk \<Rightarrow> string \<Rightarrow> (string \<Rightarrow> go_err + string) \<Rightarrow> 'w tool" where
  "read_tool dk workDir dec =
     \<lparr>t_def = read_tool_def, t_execute = \<lambda>ses args w. (Returns (tool_answer (read_execute (dk_get dk w) workDir dec args)), w),
      t_stream = None, t_self_approve = Some (\<lambda>args w. self_approve_file (dk_get dk w) workDir dec args), t_is_agent = False\<rparr>"

text \<open>\<open>decp\<close> decodes the path alone, as the approval does.\<close>

definition write_tool :: "'w disk \<Rightarrow> string \<Rightarrow> (string \<Rightarrow> go_err + string) \<Rightarrow> (string \<Rightarrow> go_err + string \<times> string) \<Rightarrow> 'w tool" where
  "write_tool dk workDir decp dec =
     \<lparr>t_def = write_tool_def,
      t_execute = \<lambda>ses args w. (let (r, os) = write_execute (dk_get dk w) workDir dec args in (Returns (tool_answer r), dk_put dk os w)),
      t_stream = None, t_self_approve = Some (\<lambda>args w. self_approve_file (dk_get dk w) workDir decp args), t_is_agent = False\<rparr>"

definition ls_tool :: "(file_entry list \<Rightarrow> file_entry list) \<Rightarrow> 'w disk \<Rightarrow> string \<Rightarrow> (string \<Rightarrow> string) \<Rightarrow> 'w tool" where
  "ls_tool srt dk workDir peek =
     \<lparr>t_def = ls_tool_def, t_execute = \<lambda>ses args w. (Returns (tool_answer (ls_execute srt (dk_get dk w) workDir peek args)), w),
      t_stream = None, t_self_approve = Some (\<lambda>args w. self_approve_dir (dk_get dk w) workDir peek args), t_is_agent = False\<rparr>"

definition grep_tool :: "(nat \<Rightarrow> bool) \<Rightarrow> (string \<Rightarrow> go_err + (string \<Rightarrow> bool)) \<Rightarrow> (string \<Rightarrow> string \<Rightarrow> bool) \<Rightarrow> 'w disk \<Rightarrow> string
    \<Rightarrow> (string \<Rightarrow> string) \<Rightarrow> (string \<Rightarrow> go_err + grep_params) \<Rightarrow> 'w tool" where
  "grep_tool stop compile glob dk workDir peek dec =
     \<lparr>t_def = grep_tool_def, t_execute = \<lambda>ses args w. (Returns (tool_answer (grep_execute (dk_get dk w) workDir stop compile glob dec args)), w),
      t_stream = None, t_self_approve = Some (\<lambda>args w. self_approve_dir (dk_get dk w) workDir peek args), t_is_agent = False\<rparr>"

text \<open>The shell never approves itself, and it streams.\<close>

definition shell_tool :: "'w shell \<Rightarrow> (string \<Rightarrow> go_err + shell_params) \<Rightarrow> 'w tool" where
  "shell_tool t dec =
     \<lparr>t_def = shell_def t, t_execute = \<lambda>ses args w. (let (r, w) = shell_execute t dec args w in (Returns (tool_answer r), w)),
      t_stream = Some (\<lambda>ses args w. (let (cs, w) = shell_stream t dec args w in (Returns cs, w))),
      t_self_approve = None, t_is_agent = False\<rparr>"

section \<open>Approval\<close>

text \<open>With an approver that denies everything a call passes only if its tool approves it itself.\<close>

lemma passed_self_approves:
  assumes "denies ap" "approve_call ap ses call s = (None, s')" "\<not> is_transfer call"
  shows "self_approves s call \<and> s' = s"
proof -
  obtain w where w: "snd (approve_call ap ses call s) = with_world s w"
    "if passes s call then fst (approve_call ap ses call s) = None \<and> w = rs_world s
     else \<exists>m. fst (approve_call ap ses call s) = Some m \<and> refusal s call m"
    using approve_call_denied [where ses = ses and c = call and s = s, OF assms(1)] by blast
  then have "passes s call" using assms(2) by (auto split: if_splits)
  then show ?thesis using w assms(2,3) by (simp add: passes_def skips_approver_def with_world_same)
qed

text \<open>An approver, and a tool, that touch no file.\<close>

definition approver_leaves :: "'w disk \<Rightarrow> 'w approver \<Rightarrow> bool" where
  "approver_leaves dk ap = (\<forall>c def ses w. dk_get dk (snd (ap c def ses w)) = dk_get dk w)"

definition tool_leaves :: "'w disk \<Rightarrow> 'w tool \<Rightarrow> bool" where
  "tool_leaves dk t = (\<forall>ses args w. dk_get dk (snd (t_execute t ses args w)) = dk_get dk w \<and>
     (\<forall>f. t_stream t = Some f \<longrightarrow> dk_get dk (snd (f ses args w)) = dk_get dk w))"

lemma file_tools_leave [simp]:
  "tool_leaves dk (read_tool dk' workDir dec)" "tool_leaves dk (ls_tool srt dk' workDir peek)"
  "tool_leaves dk (grep_tool stop compile glob dk' workDir peek decg)"
  by (simp_all add: tool_leaves_def read_tool_def ls_tool_def grep_tool_def)

text \<open>
  The tools of an agent that could run without the approver: they have no name of a built-in tool and
  touch no file.
\<close>

definition builtin_names :: "string list" where
  "builtin_names = [''use_skill'', ''reload_skills'', ''recall_memory'', ''subagent'']"

definition unapproved_leave :: "'w disk \<Rightarrow> 'w tool list \<Rightarrow> bool" where
  "unapproved_leave dk tools = (\<forall>t\<in>set tools. t_self_approve t \<noteq> None \<or> has_prefix (fd_name (t_def t)) ''transfer_to_'' \<longrightarrow>
     fd_name (t_def t) \<notin> set builtin_names \<and> tool_leaves dk t)"

text \<open>The agent and the files of a run do not change.\<close>

definition same_files :: "'w disk \<Rightarrow> 'w run_state \<Rightarrow> 'w run_state \<Rightarrow> bool" where
  "same_files dk s t = (rs_agent t = rs_agent s \<and> dk_get dk (rs_world t) = dk_get dk (rs_world s))"

lemma same_files_refl [simp]: "same_files dk s s"
  by (simp add: same_files_def)

lemma same_files_trans: "same_files dk s t \<Longrightarrow> same_files dk t u \<Longrightarrow> same_files dk s u"
  by (simp add: same_files_def)

lemma same_files_on_world: "(\<And>w. dk_get dk (snd (f w)) = dk_get dk w) \<Longrightarrow> same_files dk s (snd (on_world f s))"
  unfolding on_world_def same_files_def by (cases "f (rs_world s)") (simp, metis snd_conv)

lemma approve_call_leaves:
  assumes "approver_leaves dk ap"
  shows "same_files dk s (snd (approve_call ap ses c s))"
proof (cases "tool_def s (tc_name c)")
  case (Some def)
  obtain ok reason t where o: "on_world (ap c def ses) s = ((ok, reason), t)" by (metis prod.exhaust)
  moreover have "same_files dk s (snd (on_world (ap c def ses) s))"
    using assms by (intro same_files_on_world) (simp add: approver_leaves_def)
  ultimately show ?thesis using Some by (cases ok) (simp_all add: approve_call_def)
qed (simp add: approve_call_def)

lemma approve_calls_leave: "approver_leaves dk ap \<Longrightarrow> same_files dk s (snd (approve_calls ap ses cs s))"
proof (induction cs arbitrary: s)
  case (Cons c cs)
  from same_files_trans [OF approve_call_leaves [OF Cons.prems] Cons.IH [OF Cons.prems]]
  show ?case by (simp add: split_beta)
qed simp

lemma find_tool_in: "find_tool ts n = Some t \<Longrightarrow> t \<in> set ts \<and> fd_name (t_def t) = n"
  by (induction ts) (auto split: if_splits)

lemma invoke_leaves:
  assumes "tool_leaves dk t"
  shows "same_files dk s (snd (invoke_tool t ses call s))"
proof (cases "t_stream t")
  case None
  then show ?thesis using assms by (simp add: invoke_tool_def tool_leaves_def same_files_on_world)
next
  case (Some f)
  obtain r u where o: "on_world (f ses (tc_args call)) s = (r, u)" by fastforce
  have "same_files dk s (snd (on_world (f ses (tc_args call)) s))"
    using assms Some by (intro same_files_on_world) (simp add: tool_leaves_def)
  then have "same_files dk s u" by (simp add: o)
  then show ?thesis using Some o by (cases r) (simp_all add: invoke_tool_def split_beta same_files_def send_all_def)
qed

lemma run_registered_leaves:
  assumes "tool_leaves dk t" "ag_hooks (rs_agent s) = None"
  shows "same_files dk s (snd (run_registered def t ses call s))"
proof -
  let ?s1 = "observe stage_tool_execute Enter (tool_detail (tc_name call)) None s"
  obtain r u where i: "invoke_tool t ses call ?s1 = (r, u)" by fastforce
  have "same_files dk ?s1 u" using invoke_leaves [OF assms(1), of ?s1 ses call] by (simp add: i)
  then have "same_files dk s u" by (simp add: same_files_def)
  then show ?thesis using assms(2) i
    by (cases r) (auto simp: run_registered_def start_hook_def end_hook_def same_files_def Let_def split_beta)
qed

text \<open>What a call of the read tool can be answered with when it runs.\<close>

definition read_reply :: "os_files \<Rightarrow> string \<Rightarrow> (string \<Rightarrow> go_err + string) \<Rightarrow> tool_call \<Rightarrow> message \<Rightarrow> bool" where
  "read_reply os workDir dec c m =
     (m = tool_message (tc_id c) (case read_execute os workDir dec (tc_args c) of Inl e \<Rightarrow> ''error: '' @ err_text e | Inr out \<Rightarrow> out))"

lemma run_read:
  assumes "tc_name c = ''read''" "find_tool (ag_tools (rs_agent s)) ''read'' = Some (read_tool dk workDir dec)" "ag_hooks (rs_agent s) = None"
    and "execute_one_tool rt sub ses c s = (r, s')"
  shows "read_reply (dk_get dk (rs_world s)) workDir dec c (recovered c r)"
  using assms
  by (auto simp: execute_one_tool_def tool_def_def run_registered_def invoke_tool_def read_tool_def start_hook_def end_hook_def
      tool_answer_def read_reply_def recovered_def on_world_def Let_def split: sum.splits)

lemma passed_tool:
  assumes "passes s c" "unapproved_leave dk (ag_tools (rs_agent s))"
  shows "\<exists>t. find_tool (ag_tools (rs_agent s)) (tc_name c) = Some t \<and> tool_leaves dk t \<and> tc_name c \<notin> set builtin_names"
proof (cases "is_transfer c")
  case True
  then have n: "tc_name c \<notin> set builtin_names" by (auto simp: is_transfer_def has_prefix_def builtin_names_def)
  then obtain t where t: "find_tool (ag_tools (rs_agent s)) (tc_name c) = Some t"
    using assms(1) by (auto simp: passes_def tool_def_def builtin_names_def split: if_splits)
  then show ?thesis using find_tool_in [OF t] assms(2) True n by (auto simp: unapproved_leave_def is_transfer_def)
next
  case False
  then have "self_approves s c" using assms(1) by (simp add: passes_def skips_approver_def)
  then obtain t where t: "find_tool (ag_tools (rs_agent s)) (tc_name c) = Some t" "t_self_approve t \<noteq> None"
    by (auto simp: self_approves_def split: option.splits)
  then show ?thesis using find_tool_in [OF t(1)] assms(2) by (auto simp: unapproved_leave_def)
qed

lemma run_passed_leaves:
  assumes "passes a c" "rs_agent a = rs_agent s" "unapproved_leave dk (ag_tools (rs_agent s))" "ag_hooks (rs_agent s) = None"
    and "execute_one_tool rt sub ses c s = (r, s')"
  shows "same_files dk s s'"
proof -
  obtain t where t: "find_tool (ag_tools (rs_agent s)) (tc_name c) = Some t" "tool_leaves dk t" "tc_name c \<notin> set builtin_names"
    using passed_tool [OF assms(1), of dk] assms(2,3) by auto
  then have "execute_one_tool rt sub ses c s = run_registered (t_def t) t ses c s"
    by (simp add: execute_one_tool_def tool_def_def builtin_names_def)
  then show ?thesis using run_registered_leaves [OF t(2) assms(4), of "t_def t" ses c] assms(5) by (metis snd_conv)
qed

text \<open>
  C19: take an agent that reads files with the read tool, whose approver denies everything, and whose
  tools that need no approver (they approve themselves, or are transfers) change no file; no hooks. Then
  a turn of any calls, in whatever order the goroutines run, changes no file, and every call of the
  read tool in it is rejected, or fails, or is answered with a file of the workspace or the artifact
  directory, through whatever symbolic links: the tool approves only such a read itself. (With a tool
  that runs unapproved and makes a symbolic link this is not so: \<open>approval_before_effects\<close>.)
\<close>

theorem denied_reads_stay_inside:
  assumes "workDir = tool_work_dir cwd dir" "fair_order rt"
    and "ag_approver (rs_agent s) = Some ap" "denies ap" "approver_leaves dk ap" "ag_hooks (rs_agent s) = None"
    and "find_tool (ag_tools (rs_agent s)) ''read'' = Some (read_tool dk workDir dec)" "unapproved_leave dk (ag_tools (rs_agent s))"
  shows "dk_get dk (rs_world (snd (execute_tools rt sub ses calls s))) = dk_get dk (rs_world s) \<and>
    (\<forall>i<length calls. tc_name (calls ! i) = ''read'' \<longrightarrow>
       (\<exists>reason. fst (execute_tools rt sub ses calls s) ! i = rejected_message (calls ! i) reason) \<or>
       (\<exists>e. fst (execute_tools rt sub ses calls s) ! i = tool_message (tc_id (calls ! i)) (''error: '' @ e)) \<or>
       (\<exists>p d data. dec (tc_args (calls ! i)) = Inr p \<and> inside (dk_get dk (rs_world s)) workDir d \<and>
          node_at (of_fs (dk_get dk (rs_world s))) d = Some (FFile data) \<and>
          fst (execute_tools rt sub ses calls s) ! i = tool_message (tc_id (calls ! i)) (read_text p data)))"
proof -
  let ?os = "dk_get dk (rs_world s)" and ?at = "\<lambda>i. at_approval ap ses calls i s"
  have at: "same_files dk s (?at i)" for i
    using approve_calls_leave [OF assms(5)] by (simp add: at_approval_def)
  obtain started slots w where st: "execute_tools rt sub ses calls s = run_calls rt sub ses calls started slots (s\<lparr>rs_world := w\<rparr>)"
    "length slots = length calls" "s\<lparr>rs_world := w\<rparr> = snd (approve_calls ap ses calls s)"
    "set started = {i. i < length calls \<and> passes (?at i) (calls ! i)}"
    and no: "\<forall>i<length calls. i \<notin> set started \<longrightarrow> refusal s (calls ! i) (fst (execute_tools rt sub ses calls s) ! i)"
    using execute_tools_denied [OF assms(3,4,2), of sub ses calls] by blast
  define Q where "Q i m = (tc_name (calls ! i) = ''read'' \<longrightarrow> read_reply ?os workDir dec (calls ! i) m)" for i m
  have "same_files dk s u' \<and> Q i (recovered (calls ! i) r)"
    if i: "i \<in> set started" and u: "same_files dk s u" and e: "execute_one_tool rt sub ses (calls ! i) u = (r, u')" for i u r u'
  proof -
    have a: "rs_agent u = rs_agent s" "dk_get dk (rs_world u) = ?os" using u by (simp_all add: same_files_def)
    have "passes (?at i) (calls ! i)" "rs_agent (?at i) = rs_agent u" using i st(4) at [of i] a(1) by (simp_all add: same_files_def)
    from run_passed_leaves [OF this _ _ e] have "same_files dk u u'" using assms(6,8) a(1) by simp
    moreover have "Q i (recovered (calls ! i) r)" unfolding Q_def using run_read [OF _ _ _ e, of dk workDir dec] assms(6,7) a by simp
    ultimately show ?thesis using same_files_trans [OF u] by blast
  qed
  moreover obtain out t where o: "execute_tools rt sub ses calls s = (out, t)" by fastforce
  moreover have "same_files dk s (s\<lparr>rs_world := w\<rparr>)" using approve_calls_leave [OF assms(5)] st(3) by simp
  ultimately have "same_files dk s t \<and> (\<forall>i\<in>set started. i \<in> set started \<or> Q i (slots ! i) \<longrightarrow> Q i (out ! i))"
    using st(1,2,4) by (intro run_calls_invariant [where Inv = "same_files dk s" and Q = Q and I = "set started" and results = slots]) auto
  moreover have "\<exists>reason. out ! i = rejected_message (calls ! i) reason"
    if "i < length calls" "tc_name (calls ! i) = ''read''" "i \<notin> set started" for i
    using no that assms(7) o by (auto simp: refusal_def tool_def_def)
  moreover have "(\<exists>e. out ! i = tool_message (tc_id (calls ! i)) (''error: '' @ e)) \<or>
      (\<exists>p d data. dec (tc_args (calls ! i)) = Inr p \<and> inside ?os workDir d \<and> node_at (of_fs ?os) d = Some (FFile data) \<and>
         out ! i = tool_message (tc_id (calls ! i)) (read_text p data))"
    if i: "i \<in> set started" "tc_name (calls ! i) = ''read''" and r: "read_reply ?os workDir dec (calls ! i) (out ! i)" for i
  proof -
    have "self_approves (?at i) (calls ! i)" using i st(4) by (auto simp: passes_def skips_approver_def is_transfer_def has_prefix_def)
    then have "self_approve_file ?os workDir dec (tc_args (calls ! i))"
      using at [of i] assms(7) i(2) by (simp add: self_approves_def same_files_def read_tool_def)
    note approved_read_inside [OF assms(1) this]
    then show ?thesis using r by (cases "read_execute ?os workDir dec (tc_args (calls ! i))") (auto simp: read_reply_def)
  qed
  ultimately show ?thesis unfolding o fst_conv snd_conv same_files_def Q_def by blast
qed

text \<open>A shell call is never let through by such an approver.\<close>

lemma denied_shell_never_runs:
  assumes "denies ap" "find_tool (ag_tools (rs_agent s)) ''shell'' = Some (shell_tool t dec)" "tc_name call = ''shell''"
  shows "fst (approve_call ap ses call s) \<noteq> None"
proof
  assume "fst (approve_call ap ses call s) = None"
  then obtain s' where "approve_call ap ses call s = (None, s')" by (metis prod.collapse)
  moreover have "\<not> is_transfer call" using assms(3) by (simp add: is_transfer_def has_prefix_def)
  ultimately have "self_approves s call" using passed_self_approves [OF assms(1)] by blast
  then show False using assms(2,3) by (simp add: self_approves_def shell_tool_def)
qed

text \<open>
  The approval looks at the file system before any call of the turn runs. A link that an approved
  call makes in between leads a read out of the workspace that was approved as one inside.
\<close>

definition later_files :: os_files where
  "later_files = demo_files\<lparr>of_fs := [([''w''], FDir), ([''w'', ''a''], FLink ''/etc/p''), ([''etc''], FDir), ([''etc'', ''p''], FFile ''secret'')]\<rparr>"

lemma approval_before_effects:
  "self_approve_file demo_files ''/w'' (\<lambda>_. Inr ''a'') '''' \<and> read_execute later_files ''/w'' (\<lambda>_. Inr ''a'') '''' = Inr ''secret''"
  by (simp add: later_files_def demo_simps)

definition demo_reader :: "os_files run_state" where
  "demo_reader = \<lparr>rs_agent = (base_agent ''a'')\<lparr>ag_tools := [read_tool \<lparr>dk_get = id, dk_put = \<lambda>os w. os\<rparr> ''/w'' (\<lambda>_. Inr ''a'')]\<rparr>,
     rs_model = \<lparr>m_chat = (\<lambda>req w. (Inl (ErrText ''no''), w)), m_stream = (\<lambda>req w. (Inr None, w)), m_context_window = 0, m_tokenizer_model = None\<rparr>,
     rs_streaming = False, rs_skills = [], rs_loaded = None, rs_builtin = [], rs_compressed = None, rs_events = [], rs_stages = [],
     rs_stored = [], rs_world = demo_files\<rparr>"

definition reading_agent :: "os_files agent" where
  "reading_agent = (base_agent ''a'')\<lparr>ag_approver := Some (\<lambda>c def ses w. ((False, ''no''), w)),
     ag_tools := [read_tool \<lparr>dk_get = id, dk_put = \<lambda>os w. os\<rparr> ''/w'' (\<lambda>a. Inr a)]\<rparr>"

definition reading_run :: "os_files run_state" where
  "reading_run = demo_reader\<lparr>rs_agent := reading_agent\<rparr>"

definition reading_runtime :: "os_files runtime" where
  "reading_runtime = \<lparr>rt_ctx = (\<lambda>w. None), rt_sleep = (\<lambda>d w. (None, w)), rt_fresh = (\<lambda>n w. (n, w)),
     rt_count = (\<lambda>m t. length t), rt_dec_name = Inr, rt_dec_query = Inr,
     rt_dec_subagent = (\<lambda>t. Inl (ErrText ''bad'')), rt_order = (\<lambda>is w. rev is), rt_score = (\<lambda>r. ''0.00'')\<rparr>"

definition two_reads :: "tool_call list" where
  "two_reads = [plain_call ''1'' ''read'' ''a'', plain_call ''2'' ''read'' ''/etc/p'']"

text \<open>One read inside, which is answered, and one outside, which is rejected.\<close>

lemma two_reads_answered:
  "fst (execute_tools reading_runtime no_sub_runner (new_session ''s'') two_reads reading_run) =
     [tool_message ''1'' ''hi'', rejected_message (plain_call ''2'' ''read'' ''/etc/p'') ''no'']"
proof -
  let ?s = "reading_run"
  have t: "find_tool (ag_tools (rs_agent ?s)) ''read'' = Some (read_tool \<lparr>dk_get = id, dk_put = \<lambda>os w. os\<rparr> ''/w'' (\<lambda>a. Inr a))"
    "ag_approver (rs_agent ?s) = Some (\<lambda>c def ses w. ((False, ''no''), w))" "ag_hooks (rs_agent ?s) = None" "rs_world ?s = demo_files"
    by (simp_all add: reading_run_def reading_agent_def base_agent_def read_tool_def read_tool_def_def demo_reader_def)
  have a: "approve_call (\<lambda>c def ses w. ((False, ''no''), w)) (new_session ''s'') (plain_call ''1'' ''read'' ''a'') ?s = (None, ?s)"
    by (simp add: approve_call_def tool_def_def plain_call_def t self_approves_def read_tool_def demo_simps)
  have b: "approve_call (\<lambda>c def ses w. ((False, ''no''), w)) (new_session ''s'') (plain_call ''2'' ''read'' ''/etc/p'') ?s =
      (Some (rejected_message (plain_call ''2'' ''read'' ''/etc/p'') ''no''), ?s)"
    by (simp add: approve_call_def tool_def_def plain_call_def t self_approves_def read_tool_def on_world_def is_transfer_def demo_simps)
  have c: "read_execute demo_files ''/w'' (\<lambda>a. Inr a) ''a'' = Inr ''hi''" by (simp add: demo_simps)
  obtain r u where e: "execute_one_tool reading_runtime no_sub_runner (new_session ''s'') (plain_call ''1'' ''read'' ''a'') ?s = (r, u)" by fastforce
  have "recovered (plain_call ''1'' ''read'' ''a'') r = tool_message ''1'' ''hi''"
    using run_read [OF _ t(1,3) e] c by (simp add: read_reply_def t(4) plain_call_def)
  then show ?thesis
    using t(2) a b e by (simp add: execute_tools_def two_reads_def reading_runtime_def verdict_slots_def approved_indices_def)
qed

theorem denied_reads_stay_inside_witness:
  "rs_world (snd (execute_tools reading_runtime no_sub_runner (new_session ''s'') two_reads reading_run)) = demo_files \<and>
   (\<exists>p d data. Inr ''a'' = (Inr p :: go_err + string) \<and> inside demo_files ''/w'' d \<and> node_at (of_fs demo_files) d = Some (FFile data) \<and> tool_message ''1'' ''hi'' = tool_message ''1'' (read_text p data))"
proof -
  let ?ap = "\<lambda>c def ses w. ((False, ''no''), w)" and ?dk = "\<lparr>dk_get = id, dk_put = \<lambda>os w. os\<rparr>"
  have 1: "''/w'' = tool_work_dir ''/'' ''/w''" by (simp add: demo_simps)
  have 2: "fair_order reading_runtime" by (simp add: fair_order_def reading_runtime_def)
  have 3: "ag_approver (rs_agent reading_run) = Some ?ap" "denies ?ap" "approver_leaves ?dk ?ap" "ag_hooks (rs_agent reading_run) = None"
    by (simp_all add: reading_run_def reading_agent_def base_agent_def denies_def approver_leaves_def)
  have 4: "find_tool (ag_tools (rs_agent reading_run)) ''read'' = Some (read_tool ?dk ''/w'' (\<lambda>a. Inr a))"
    "unapproved_leave ?dk (ag_tools (rs_agent reading_run))"
    using file_tools_leave(1) [of ?dk ?dk "''/w''" "\<lambda>a. Inr a"]
    by (simp_all add: reading_run_def reading_agent_def base_agent_def read_tool_def read_tool_def_def unapproved_leave_def builtin_names_def)
  have w: "rs_world reading_run = demo_files" by (simp add: reading_run_def demo_reader_def)
  have f: "fst (execute_tools reading_runtime no_sub_runner (new_session ''s'') two_reads reading_run) ! 0 = tool_message ''1'' ''hi''"
    by (simp add: two_reads_answered)
  note * = denied_reads_stay_inside [OF 1 2 3 4, of no_sub_runner "new_session ''s''" two_reads]
  have "tool_message ''1'' ''hi'' \<noteq> rejected_message (two_reads ! 0) reason" "tool_message ''1'' ''hi'' \<noteq> tool_message (tc_id (two_reads ! 0)) (''error: '' @ e)" for reason e
    by (auto simp: rejected_message_def dest!: arg_cong [where f = msg_content])
  then show ?thesis using conjunct1 [OF *] conjunct2 [OF *, rule_format, of 0] f w by (simp add: two_reads_def plain_call_def)
qed

end
