(* ===== verification/HookAdapters.thy ===== *)
theory HookAdapters
  imports Messages
begin

text \<open>
  \<^verbatim>\<open>MultiObserver\<close> of \<^verbatim>\<open>observer.go\<close>, and the two implementations of \<^verbatim>\<open>RunHooks\<close>:
  \<^verbatim>\<open>hooks/slog\<close> and \<^verbatim>\<open>hooks/otel\<close>. The clock, the logger and the tracer are arguments over a world \<open>'w\<close>.
\<close>

section \<open>Several observers (observer.go)\<close>

text \<open>An observer changes the world and may panic; a nil interface is \<^term>\<open>None\<close>.\<close>

type_synonym 'w observer = "stage_event \<Rightarrow> 'w \<Rightarrow> unit go_ret \<times> 'w"

fun observe_all :: "'w observer list \<Rightarrow> 'w observer" where
  "observe_all [] ev w = (Returns (), w)"
| "observe_all (ob # obs) ev w =
     (case ob ev w of (Panics p, w) \<Rightarrow> (Panics p, w) | (Returns _, w) \<Rightarrow> observe_all obs ev w)"

fun non_nil :: "'a option list \<Rightarrow> 'a list" where
  "non_nil [] = []"
| "non_nil (None # xs) = non_nil xs"
| "non_nil (Some x # xs) = x # non_nil xs"

definition multi_observer :: "'w observer option list \<Rightarrow> 'w observer option" where
  "multi_observer observers =
     (case non_nil observers of [] \<Rightarrow> None | [ob] \<Rightarrow> Some ob | obs \<Rightarrow> Some (observe_all obs))"

section \<open>Hooks that log (hooks/slog)\<close>

datatype log_value = LString string | LInt int | LDuration int

datatype slog_level = SlogDebug | SlogInfo | SlogError

record log_entry =
  le_level :: slog_level
  le_message :: string
  le_attrs :: "(string \<times> log_value) list"

text \<open>The state a start hook returns is the time; a state that is no time reads as the zero time.\<close>

record 'w slog_env =
  sg_now :: "'w \<Rightarrow> nat"
  sg_log :: "log_entry \<Rightarrow> 'w \<Rightarrow> 'w"

definition elapsed :: "'w slog_env \<Rightarrow> nat \<Rightarrow> 'w \<Rightarrow> log_value" where
  "elapsed e t0 w = LDuration (int (sg_now e w) - int t0)"

definition slog_agent_start :: "'w slog_env \<Rightarrow> chat_request \<Rightarrow> 'w \<Rightarrow> nat \<times> 'w" where
  "slog_agent_start e q w =
     (let w = sg_log e \<lparr>le_level = SlogInfo, le_message = ''agent start'',
        le_attrs = [(''model'', LString (req_model q)), (''messages'', LInt (int (length (req_messages q)))),
          (''tools'', LInt (int (length (req_tools q))))]\<rparr> w in (sg_now e w, w))"

definition slog_agent_end :: "'w slog_env \<Rightarrow> chat_request \<Rightarrow> chat_response option \<Rightarrow> go_err option \<Rightarrow> nat \<Rightarrow> 'w \<Rightarrow> 'w" where
  "slog_agent_end e q resp err t0 w =
     (let attrs = [(''model'', LString (req_model q)), (''elapsed'', elapsed e t0 w)] @
          (case resp of
             None \<Rightarrow> []
           | Some r \<Rightarrow> [(''prompt_tokens'', LInt (us_prompt (resp_usage r))), (''completion_tokens'', LInt (us_completion (resp_usage r))),
               (''total_tokens'', LInt (us_total (resp_usage r)))]) in
      case err of
        Some x \<Rightarrow> sg_log e \<lparr>le_level = SlogError, le_message = ''agent end'', le_attrs = attrs @ [(''error'', LString (err_text x))]\<rparr> w
      | None \<Rightarrow> sg_log e \<lparr>le_level = SlogInfo, le_message = ''agent end'', le_attrs = attrs\<rparr> w)"

definition slog_tool_end :: "'w slog_env \<Rightarrow> function_def \<Rightarrow> string \<Rightarrow> string \<Rightarrow> go_err option \<Rightarrow> nat \<Rightarrow> 'w \<Rightarrow> (string \<times> go_err option) \<times> 'w" where
  "slog_tool_end e tool args result err t0 w =
     (let attrs = [(''tool'', LString (fd_name tool)), (''elapsed'', elapsed e t0 w)] in
      ((result, err),
       case err of
         Some x \<Rightarrow> sg_log e \<lparr>le_level = SlogError, le_message = ''tool end'', le_attrs = attrs @ [(''error'', LString (err_text x))]\<rparr> w
       | None \<Rightarrow> sg_log e \<lparr>le_level = SlogDebug, le_message = ''tool end'', le_attrs = attrs @ [(''result_len'', LInt (int (length result)))]\<rparr> w))"

section \<open>Hooks that trace (hooks/otel)\<close>

text \<open>Starting a span gives its number; the context that holds it is thrown away.\<close>

record 'w tracer =
  tr_begin :: "string \<Rightarrow> (string \<times> log_value) list \<Rightarrow> 'w \<Rightarrow> nat \<times> 'w"
  tr_attributes :: "nat \<Rightarrow> (string \<times> log_value) list \<Rightarrow> 'w \<Rightarrow> 'w"
  tr_error_status :: "nat \<Rightarrow> string \<Rightarrow> 'w \<Rightarrow> 'w"
  tr_record_error :: "nat \<Rightarrow> string \<Rightarrow> 'w \<Rightarrow> 'w"
  tr_finish :: "nat \<Rightarrow> 'w \<Rightarrow> 'w"

definition otel_agent_start :: "'w tracer \<Rightarrow> chat_request \<Rightarrow> 'w \<Rightarrow> nat \<times> 'w" where
  "otel_agent_start t q = tr_begin t ''agent.run''
     [(''agent.model'', LString (req_model q)), (''agent.messages'', LInt (int (length (req_messages q)))),
      (''agent.tools'', LInt (int (length (req_tools q))))]"

definition span_error :: "'w tracer \<Rightarrow> nat \<Rightarrow> go_err option \<Rightarrow> 'w \<Rightarrow> 'w" where
  "span_error t spn err w =
     (case err of None \<Rightarrow> w | Some x \<Rightarrow> tr_record_error t spn (err_text x) (tr_error_status t spn (err_text x) w))"

definition otel_agent_end :: "'w tracer \<Rightarrow> chat_request \<Rightarrow> chat_response option \<Rightarrow> go_err option \<Rightarrow> nat \<Rightarrow> 'w \<Rightarrow> 'w" where
  "otel_agent_end t q resp err spn w =
     (let w = (case resp of
          None \<Rightarrow> w
        | Some r \<Rightarrow> tr_attributes t spn
            [(''agent.prompt_tokens'', LInt (us_prompt (resp_usage r))), (''agent.completion_tokens'', LInt (us_completion (resp_usage r))),
             (''agent.total_tokens'', LInt (us_total (resp_usage r)))] w) in
      tr_finish t spn (span_error t spn err w))"

definition otel_tool_start :: "'w tracer \<Rightarrow> function_def \<Rightarrow> string \<Rightarrow> 'w \<Rightarrow> nat \<times> 'w" where
  "otel_tool_start t tool args = tr_begin t (''tool.'' @ fd_name tool) [(''tool.name'', LString (fd_name tool)), (''tool.args'', LString args)]"

definition otel_tool_end :: "'w tracer \<Rightarrow> function_def \<Rightarrow> string \<Rightarrow> string \<Rightarrow> go_err option \<Rightarrow> nat \<Rightarrow> 'w \<Rightarrow> (string \<times> go_err option) \<times> 'w" where
  "otel_tool_end t tool args result err spn w =
     ((result, err),
      tr_finish t spn (tr_attributes t spn [(''tool.result_len'', LInt (int (length result)))] (span_error t spn err w)))"

text \<open>As \<^verbatim>\<open>RunHooks\<close> of an agent: a run without a request yet hands over the zero request.\<close>

definition zero_request :: chat_request where
  "zero_request = \<lparr>req_model = '''', req_messages = [], req_tools = [], req_temperature = None, req_max_tokens = 0\<rparr>"

definition slog_hooks :: "'w slog_env \<Rightarrow> 'w run_hooks" where
  "slog_hooks e =
     \<lparr>h_agent_start = slog_agent_start e,
      h_agent_end = \<lambda>q. slog_agent_end e (case q of None \<Rightarrow> zero_request | Some q \<Rightarrow> q),
      h_tool_start = \<lambda>tool args w. (sg_now e w, w),
      h_tool_end = slog_tool_end e\<rparr>"

definition otel_hooks :: "'w tracer \<Rightarrow> 'w run_hooks" where
  "otel_hooks t =
     \<lparr>h_agent_start = otel_agent_start t,
      h_agent_end = \<lambda>q. otel_agent_end t (case q of None \<Rightarrow> zero_request | Some q \<Rightarrow> q),
      h_tool_start = otel_tool_start t,
      h_tool_end = otel_tool_end t\<rparr>"

section \<open>Properties\<close>

text \<open>What \<^verbatim>\<open>MultiObserver\<close> is for: its observers one after the other, as long as none panics.\<close>

lemma multi_observer_eq:
  "(case multi_observer obs of None \<Rightarrow> (Returns (), w) | Some ob \<Rightarrow> ob ev w) = observe_all (non_nil obs) ev w"
  by (auto simp: multi_observer_def split: list.split prod.split go_ret.split)

lemma observe_all_append:
  "observe_all (xs @ ys) ev w = (case observe_all xs ev w of (Panics p, w) \<Rightarrow> (Panics p, w) | (Returns _, w) \<Rightarrow> observe_all ys ev w)"
  by (induction xs arbitrary: w) (auto split: prod.split go_ret.split)

text \<open>A panic of one observer keeps the event from those behind it.\<close>

lemma panic_skips_rest: "fst (ob ev w) = Panics p \<Longrightarrow> observe_all (ob # obs) ev w = ob ev w"
  by (auto split: prod.split)

text \<open>The hooks of both packages hand result and error of a tool on as they are.\<close>

lemma hooks_keep_results:
  "fst (h_tool_end (slog_hooks e) tool args result err st w) = (result, err)"
  "fst (h_tool_end (otel_hooks t) tool args result err st w) = (result, err)"
  by (simp_all add: slog_hooks_def otel_hooks_def slog_tool_end_def otel_tool_end_def Let_def)

end
