(* ===== verification/Tui.thy ===== *)
theory Tui
  imports Messages "HOL-Library.Word" "HOL-Library.Signed_Division"
begin

text \<open>
  \<^verbatim>\<open>cmd/tui\<close>: the terminal client. \<^verbatim>\<open>Update\<close> is a function from a message of the framework to the next
  model, the commands to start and the answer it sends to a waiting tool call. The world around it
  (commands that run, requests that wait, keys that are pressed) is a step relation. Widgets, styles
  and JSON are arguments; channels are numbered.
\<close>

section \<open>Model (model.go, approver.go)\<close>

datatype tui_state = StateIdle | StateStreaming | StateApproving

record chat_line =
  cl_role :: string
  cl_content :: string
  cl_tool :: string

record tui_request =
  aq_call :: tool_call
  aq_respond :: nat

record approve_response =
  ap_allowed :: bool
  ap_reason :: string

text \<open>The widgets: the text area with its operations, the viewport as what was set on it.\<close>

record 'ta textarea =
  ta_value :: "'ta \<Rightarrow> string"
  ta_reset :: "'ta \<Rightarrow> 'ta"
  ta_set_width :: "int \<Rightarrow> 'ta \<Rightarrow> 'ta"
  ta_update :: "string \<Rightarrow> 'ta \<Rightarrow> 'ta"

record viewport =
  vp_width :: int
  vp_height :: int
  vp_content :: string

record styles =
  st_user :: "string \<Rightarrow> string"
  st_agent :: "string \<Rightarrow> string"
  st_tool :: "string \<Rightarrow> string"
  st_error :: "string \<Rightarrow> string"
  st_help :: "string \<Rightarrow> string"
  st_modal :: "string \<Rightarrow> string"

record 'ta tui_model =
  tu_viewport :: viewport
  tu_textarea :: 'ta
  tu_messages :: "chat_line list"
  tu_stream_ch :: "nat option"
  tu_stream_buf :: string
  tu_pending :: "tui_request option"
  tu_state :: tui_state
  tu_width :: int
  tu_height :: int
  tu_err :: "go_err option"

text \<open>Commands of the framework: what \<^verbatim>\<open>Update\<close> starts.\<close>

datatype tui_cmd =
    FocusCmd | TextareaCmd | QuitCmd
  | RunAgentCmd message
  | AwaitStream "nat option"
  | ListenForApproval

datatype tui_msg =
    WindowSize int int
  | KeyPress string
  | StreamStart stream_event nat
  | StreamEvt stream_event
  | StreamEnd
  | Approve tui_request
  | ErrorMsg go_err

definition new_model :: "'ta \<Rightarrow> 'ta tui_model" where
  "new_model ta =
     \<lparr>tu_viewport = \<lparr>vp_width = 80, vp_height = 20,
        vp_content = ''Welcome! Try asking the assistant to do a calculation.'' @ nl\<rparr>,
      tu_textarea = ta, tu_messages = [], tu_stream_ch = None, tu_stream_buf = '''', tu_pending = None,
      tu_state = StateIdle, tu_width = 0, tu_height = 0, tu_err = None\<rparr>"

definition tui_init :: "tui_cmd list" where
  "tui_init = [FocusCmd, ListenForApproval]"

section \<open>View\<close>

definition agent_label :: "styles \<Rightarrow> string" where
  "agent_label st = st_agent st ([CHR 0xE2, CHR 0x96, CHR 0xB8] @ '' Assistant:'')"

definition render_line :: "styles \<Rightarrow> chat_line \<Rightarrow> string" where
  "render_line st m =
     (if cl_role m = ''user'' then st_user st ([CHR 0xE2, CHR 0x96, CHR 0xB8] @ '' You:'') @ '' '' @ cl_content m @ nl
      else if cl_role m = ''agent'' then agent_label st @ '' '' @ cl_content m @ nl
      else if cl_role m = ''tool'' then
        st_tool st (''  '' @ [CHR 0xF0, CHR 0x9F, CHR 0x94, CHR 0xA7] @ '' '' @ cl_tool m @ ''('' @ cl_content m @ '')'') @ nl
      else if cl_role m = ''error'' then st_error st ([CHR 0xE2, CHR 0x9C, CHR 0x96] @ '' '' @ cl_content m) @ nl
      else '''')"

definition modal_text :: "tool_call \<Rightarrow> string" where
  "modal_text tc = [CHR 0xE2, CHR 0x9A, CHR 0xA1] @ '' Approve: '' @ tc_name tc @ ''('' @ trim_space (tc_args tc) @ '')'' @ nl @
     ''[Y]es  [N]o''"

definition render_messages :: "styles \<Rightarrow> 'ta tui_model \<Rightarrow> string" where
  "render_messages st m =
     (let s = concat (map (render_line st) (tu_messages m)) @
          (if tu_stream_buf m = '''' then '''' else agent_label st @ '' '' @ tu_stream_buf m) @
          (case tu_pending m of None \<Rightarrow> '''' | Some r \<Rightarrow> nl @ st_modal st (modal_text (aq_call r)) @ nl) in
      if s = '''' then st_help st ''Type a message and press Enter...'' else s)"

definition update_viewport :: "styles \<Rightarrow> 'ta tui_model \<Rightarrow> 'ta tui_model" where
  "update_viewport st m = m\<lparr>tu_viewport := (tu_viewport m)\<lparr>vp_content := render_messages st m\<rparr>\<rparr>"

definition quit_hint :: string where
  "quit_hint = '' '' @ [CHR 0xE2, CHR 0x80, CHR 0xA2] @ '' ctrl+c quit''"

definition help_text :: "styles \<Rightarrow> 'ta tui_model \<Rightarrow> string" where
  "help_text st m =
     (case tu_state m of
        StateApproving \<Rightarrow> ''Y/N to approve'' @ quit_hint
      | StateStreaming \<Rightarrow> ''waiting for response...'' @ quit_hint
      | StateIdle \<Rightarrow> (case tu_err m of
            Some e \<Rightarrow> st_error st (''Error: '' @ err_text e) @ quit_hint
          | None \<Rightarrow> ''enter to send'' @ quit_hint))"

section \<open>Update\<close>

definition add_msg :: "string \<Rightarrow> string \<Rightarrow> string \<Rightarrow> 'ta tui_model \<Rightarrow> 'ta tui_model" where
  "add_msg r c t m = m\<lparr>tu_messages := tu_messages m @ [\<lparr>cl_role = r, cl_content = c, cl_tool = t\<rparr>]\<rparr>"

text \<open>The text streamed so far becomes a message of the agent, if there is any.\<close>

definition flush_buf :: "'ta tui_model \<Rightarrow> 'ta tui_model" where
  "flush_buf m =
     (if tu_stream_buf m = '''' then m else (add_msg ''agent'' (tu_stream_buf m) '''' m)\<lparr>tu_stream_buf := ''''\<rparr>)"

definition stream_update :: "(tool_call_function \<Rightarrow> string) \<Rightarrow> styles \<Rightarrow> stream_event \<Rightarrow> 'ta tui_model \<Rightarrow> 'ta tui_model" where
  "stream_update marshal st evt m =
     (case evt of
        StreamTextDelta t \<Rightarrow> update_viewport st (m\<lparr>tu_stream_buf := tu_stream_buf m @ t\<rparr>)
      | StreamToolCall msg \<Rightarrow>
          (let m1 = flush_buf m in
           case msg_tool_calls msg of
             [] \<Rightarrow> m1
           | tc # tcs \<Rightarrow> add_msg ''tool'' (marshal (tc_function tc)) (tc_name tc) m1)
      | StreamToolResult msg \<Rightarrow> add_msg ''agent'' (''  '' @ [CHR 0xE2, CHR 0x86, CHR 0x90] @ '' '' @ msg_content msg) '''' m
      | StreamDone r \<Rightarrow> update_viewport st (flush_buf m)
      | StreamError e \<Rightarrow> (add_msg ''error'' (err_text e) '''' m)\<lparr>tu_stream_buf := ''''\<rparr>
      | StreamRetrying e \<Rightarrow>
          update_viewport st (m\<lparr>tu_stream_buf := tu_stream_buf m @ nl @ ''(retrying: '' @ err_text e @ '')'' @ nl\<rparr>)
      | _ \<Rightarrow> m)"

definition handle_stream_event ::
  "(tool_call_function \<Rightarrow> string) \<Rightarrow> styles \<Rightarrow> stream_event \<Rightarrow> 'ta tui_model \<Rightarrow> 'ta tui_model \<times> tui_cmd list" where
  "handle_stream_event marshal st evt m =
     (let m1 = stream_update marshal st evt m in
      (m1, if tu_state m1 = StateStreaming then [AwaitStream (tu_stream_ch m1)] else []))"

text \<open>An answer is the channel of the request and what is sent; no pending request is a nil pointer.\<close>

type_synonym 'ta tui_result = "('ta tui_model \<times> tui_cmd list \<times> (nat \<times> approve_response) option) option"

definition respond :: "styles \<Rightarrow> bool \<Rightarrow> string \<Rightarrow> 'ta tui_model \<Rightarrow> 'ta tui_result" where
  "respond st yes why m =
     (case tu_pending m of
        None \<Rightarrow> None
      | Some r \<Rightarrow>
          Some (update_viewport st (m\<lparr>tu_pending := None, tu_state := StateStreaming\<rparr>), [AwaitStream (tu_stream_ch m)],
            Some (aq_respond r, \<lparr>ap_allowed = yes, ap_reason = why\<rparr>)))"

definition is_yes :: "string \<Rightarrow> bool" where
  "is_yes k \<longleftrightarrow> k = ''y'' \<or> k = ''Y''"

definition is_no :: "string \<Rightarrow> bool" where
  "is_no k \<longleftrightarrow> k = ''n'' \<or> k = ''N''"

definition handle_approval_key :: "styles \<Rightarrow> string \<Rightarrow> 'ta tui_model \<Rightarrow> 'ta tui_result" where
  "handle_approval_key st k m =
     (if is_yes k then respond st True ''user approved'' m
      else if is_no k then respond st False ''user denied'' m
      else Some (m, [], None))"

definition send_input :: "'ta textarea \<Rightarrow> styles \<Rightarrow> 'ta tui_model \<Rightarrow> 'ta tui_model \<times> tui_cmd list" where
  "send_input w st m =
     (let inp = trim_space (ta_value w (tu_textarea m)) in
      if inp = '''' then (m, [])
      else (update_viewport st ((add_msg ''user'' inp '''' (m\<lparr>tu_textarea := ta_reset w (tu_textarea m)\<rparr>))
              \<lparr>tu_state := StateStreaming, tu_stream_buf := '''', tu_err := None\<rparr>),
            [RunAgentCmd (user_message inp), ListenForApproval]))"

definition key_press :: "'ta textarea \<Rightarrow> styles \<Rightarrow> string \<Rightarrow> 'ta tui_model \<Rightarrow> 'ta tui_result" where
  "key_press w st k m =
     (if k = ''ctrl+c'' \<or> k = ''ctrl+d'' then Some (m, [QuitCmd], None)
      else case tu_state m of
        StateApproving \<Rightarrow> handle_approval_key st k m
      | StateStreaming \<Rightarrow> Some (m, [], None)
      | StateIdle \<Rightarrow>
          if k = ''enter'' then (let (m1, cs) = send_input w st m in Some (m1, cs, None))
          else Some (m\<lparr>tu_textarea := ta_update w k (tu_textarea m)\<rparr>, [TextareaCmd], None))"

definition tui_update ::
  "'ta textarea \<Rightarrow> styles \<Rightarrow> (tool_call_function \<Rightarrow> string) \<Rightarrow> tui_msg \<Rightarrow> 'ta tui_model \<Rightarrow> 'ta tui_result" where
  "tui_update w st marshal msg m =
     (case msg of
        WindowSize x y \<Rightarrow>
          Some (update_viewport st (m\<lparr>tu_width := x, tu_height := y,
             tu_viewport := (tu_viewport m)\<lparr>vp_width := x, vp_height := y - 4\<rparr>,
             tu_textarea := ta_set_width w (x - 2) (tu_textarea m)\<rparr>), [], None)
      | KeyPress k \<Rightarrow> key_press w st k m
      | StreamStart evt ch \<Rightarrow>
          (let (m1, cs) = handle_stream_event marshal st evt (m\<lparr>tu_stream_ch := Some ch\<rparr>) in Some (m1, cs, None))
      | StreamEvt evt \<Rightarrow> (let (m1, cs) = handle_stream_event marshal st evt m in Some (m1, cs, None))
      | StreamEnd \<Rightarrow> Some (update_viewport st (m\<lparr>tu_state := StateIdle\<rparr>), [FocusCmd], None)
      | Approve r \<Rightarrow> Some (update_viewport st (m\<lparr>tu_state := StateApproving, tu_pending := Some r\<rparr>), [], None)
      | ErrorMsg e \<Rightarrow>
          Some (update_viewport st (add_msg ''error'' (err_text e) '''' (m\<lparr>tu_err := Some e, tu_state := StateIdle\<rparr>)),
            [FocusCmd], None))"

section \<open>Tools of the client\<close>

text \<open>
  \<^verbatim>\<open>Sscanf\<close> with its format gives the two numbers and the rune it could read, zeros for what it
  could not; the rune as the bytes \<^verbatim>\<open>%c\<close> prints. Numbers are Go's 64-bit \<^verbatim>\<open>int\<close>.
\<close>

definition calculator_def :: function_def where
  "calculator_def =
     \<lparr>fd_name = ''calculator'',
      fd_description = ''Evaluate a math expression like '' @ [CHR 0x27] @ ''15+27'' @ [CHR 0x27] @ '' or '' @
        [CHR 0x27] @ ''100/3'' @ [CHR 0x27] @ ''.'',
      fd_parameters = ''{'' @ dquote @ ''type'' @ dquote @ '':'' @ dquote @ ''object'' @ dquote @ '','' @ dquote @ ''properties'' @ dquote @ '':{'' @
        dquote @ ''expression'' @ dquote @ '':{'' @ dquote @ ''type'' @ dquote @ '':'' @ dquote @ ''string'' @ dquote @ ''}},'' @
        dquote @ ''required'' @ dquote @ '':['' @ dquote @ ''expression'' @ dquote @ '']}'',
      fd_end_turn = False\<rparr>"

definition calculate :: "string \<Rightarrow> 64 word \<Rightarrow> 64 word \<Rightarrow> go_err + string" where
  "calculate op a b =
     (if op = ''+'' then Inr (int_str (sint (a + b)))
      else if op = ''-'' then Inr (int_str (sint (a - b)))
      else if op = ''*'' then Inr (int_str (sint (a * b)))
      else if op = ''/'' then
        (if b = 0 then Inl (ErrText ''division by zero'') else Inr (int_str (sint (word_of_int (sint a sdiv sint b) :: 64 word))))
      else Inl (ErrText (''unsupported operator: '' @ op)))"

definition calculator_execute ::
  "(string \<Rightarrow> string) \<Rightarrow> (string \<Rightarrow> 64 word \<times> string \<times> 64 word) \<Rightarrow> string \<Rightarrow> go_err + string" where
  "calculator_execute expression_of scan args =
     (let (a, op, b) = scan (filter (\<lambda>c. c \<noteq> CHR 0x20) (expression_of args)) in calculate op a b)"

definition echo_def :: function_def where
  "echo_def =
     \<lparr>fd_name = ''echo'', fd_description = ''Echoes the input message back.'',
      fd_parameters = ''{'' @ dquote @ ''type'' @ dquote @ '':'' @ dquote @ ''object'' @ dquote @ '','' @ dquote @ ''properties'' @ dquote @ '':{'' @
        dquote @ ''message'' @ dquote @ '':{'' @ dquote @ ''type'' @ dquote @ '':'' @ dquote @ ''string'' @ dquote @ ''}},'' @ dquote @
        ''required'' @ dquote @ '':['' @ dquote @ ''message'' @ dquote @ '']}'',
      fd_end_turn = False\<rparr>"

definition echo_execute :: "(string \<Rightarrow> string) \<Rightarrow> string \<Rightarrow> go_err + string" where
  "echo_execute message_of args = Inr (''you said: '' @ message_of args)"

section \<open>The client and its world\<close>

text \<open>
  Commands run until they give their message; a listener takes the request that waits longest. A
  tool call that asks for approval puts a request into the channel of capacity 8 and waits for the
  answer on a channel of its own.
\<close>

record 'ta tui_world =
  uw_model :: "'ta tui_model"
  uw_cmds :: "tui_cmd list"
  uw_requests :: "tui_request list"
  uw_next :: nat
  uw_answers :: "(nat \<times> approve_response) list"

record 'ta tui_env =
  ue_widget :: "'ta textarea"
  ue_styles :: styles
  ue_marshal :: "tool_call_function \<Rightarrow> string"

definition feed :: "'ta tui_env \<Rightarrow> tui_msg \<Rightarrow> 'ta tui_world \<Rightarrow> 'ta tui_world option" where
  "feed e msg w =
     map_option (\<lambda>(m, cs, a). w\<lparr>uw_model := m, uw_cmds := uw_cmds w @ cs, uw_answers := uw_answers w @ (case a of None \<Rightarrow> [] | Some x \<Rightarrow> [x])\<rparr>)
       (tui_update (ue_widget e) (ue_styles e) (ue_marshal e) msg (uw_model w))"

definition start_world :: "'ta \<Rightarrow> 'ta tui_world" where
  "start_world ta = \<lparr>uw_model = new_model ta, uw_cmds = tui_init, uw_requests = [], uw_next = 0, uw_answers = []\<rparr>"

definition drop_cmd :: "tui_cmd \<Rightarrow> 'ta tui_world \<Rightarrow> 'ta tui_world" where
  "drop_cmd c w = w\<lparr>uw_cmds := remove1 c (uw_cmds w)\<rparr>"

definition ask_approval :: "tool_call \<Rightarrow> 'ta tui_world \<Rightarrow> 'ta tui_world" where
  "ask_approval c w = w\<lparr>uw_requests := uw_requests w @ [\<lparr>aq_call = c, aq_respond = uw_next w\<rparr>], uw_next := uw_next w + 1\<rparr>"

text \<open>The messages a command may end with; a read of a nil channel never ends.\<close>

fun cmd_gives :: "tui_cmd \<Rightarrow> tui_msg \<Rightarrow> bool" where
  "cmd_gives (RunAgentCmd m) (StreamStart e ch) = True"
| "cmd_gives (RunAgentCmd m) StreamEnd = True"
| "cmd_gives (AwaitStream (Some ch)) (StreamEvt e) = True"
| "cmd_gives (AwaitStream (Some ch)) StreamEnd = True"
| "cmd_gives c msg = False"

datatype tui_act = Press string | Resize int int | Finish tui_cmd tui_msg | Listened tui_request | Silent tui_cmd | Ask tool_call

inductive tui_step :: "'ta tui_env \<Rightarrow> 'ta tui_world \<Rightarrow> tui_act \<Rightarrow> 'ta tui_world \<Rightarrow> bool" for e where
  press: "feed e (KeyPress k) w = Some w' \<Longrightarrow> tui_step e w (Press k) w'"
| resize: "feed e (WindowSize x y) w = Some w' \<Longrightarrow> tui_step e w (Resize x y) w'"
| finish: "c \<in> set (uw_cmds w) \<Longrightarrow> cmd_gives c msg \<Longrightarrow> feed e msg (drop_cmd c w) = Some w' \<Longrightarrow> tui_step e w (Finish c msg) w'"
| listened: "ListenForApproval \<in> set (uw_cmds w) \<Longrightarrow> uw_requests w = r # rs \<Longrightarrow>
    feed e (Approve r) ((drop_cmd ListenForApproval w)\<lparr>uw_requests := rs\<rparr>) = Some w' \<Longrightarrow> tui_step e w (Listened r) w'"
| silent: "c \<in> set (uw_cmds w) \<Longrightarrow> c \<in> {FocusCmd, TextareaCmd, QuitCmd} \<Longrightarrow> tui_step e w (Silent c) (drop_cmd c w)"
| ask: "length (uw_requests w) < 8 \<Longrightarrow> tui_step e w (Ask c) (ask_approval c w)"

inductive tui_reach :: "'ta tui_env \<Rightarrow> 'ta tui_world \<Rightarrow> bool" for e where
  start: "tui_reach e (start_world ta)"
| step: "tui_reach e w \<Longrightarrow> tui_step e w a w' \<Longrightarrow> tui_reach e w'"

inductive_cases tui_stepE: "tui_step e w a w'"

section \<open>Properties\<close>

lemma update_viewport_sel [simp]:
  "tu_state (update_viewport st m) = tu_state m" "tu_pending (update_viewport st m) = tu_pending m"
  "tu_messages (update_viewport st m) = tu_messages m" "tu_stream_ch (update_viewport st m) = tu_stream_ch m"
  by (simp_all add: update_viewport_def)

abbreviation user_lines :: "'ta tui_model \<Rightarrow> nat" where
  "user_lines m \<equiv> length (filter (\<lambda>l. cl_role l = ''user'') (tu_messages m))"

lemma add_msg_sel [simp]:
  "tu_state (add_msg r c t m) = tu_state m" "tu_pending (add_msg r c t m) = tu_pending m"
  "tu_stream_ch (add_msg r c t m) = tu_stream_ch m" "user_lines (add_msg r c t m) = user_lines m + (if r = ''user'' then 1 else 0)"
  by (simp_all add: add_msg_def)

lemma flush_buf_sel [simp]:
  "tu_state (flush_buf m) = tu_state m" "tu_pending (flush_buf m) = tu_pending m"
  "tu_stream_ch (flush_buf m) = tu_stream_ch m" "user_lines (flush_buf m) = user_lines m"
  by (simp_all add: flush_buf_def)

lemma stream_update_sel [simp]:
  "tu_state (stream_update f st evt m) = tu_state m" "tu_pending (stream_update f st evt m) = tu_pending m"
  "tu_stream_ch (stream_update f st evt m) = tu_stream_ch m" "user_lines (stream_update f st evt m) = user_lines m"
  by (simp_all add: stream_update_def Let_def split: stream_event.split list.split)

text \<open>What every message keeps of the model: a shown request is the only one an answer goes to.\<close>

definition pending_ids :: "'ta tui_model \<Rightarrow> nat list" where
  "pending_ids m = (case tu_pending m of None \<Rightarrow> [] | Some r \<Rightarrow> [aq_respond r])"

definition shows_pending :: "'ta tui_model \<Rightarrow> bool" where
  "shows_pending m \<longleftrightarrow> (tu_state m = StateApproving \<longrightarrow> tu_pending m \<noteq> None)"

definition answer_ok :: "tui_msg \<Rightarrow> 'ta tui_model \<Rightarrow> 'ta tui_model \<Rightarrow> (nat \<times> approve_response) option \<Rightarrow> bool" where
  "answer_ok msg m m' a \<longleftrightarrow>
     (case a of
        None \<Rightarrow> tu_pending m' = (case msg of Approve r \<Rightarrow> Some r | _ \<Rightarrow> tu_pending m)
      | Some (ch, resp) \<Rightarrow> tu_pending m' = None \<and>
          (\<exists>k r. msg = KeyPress k \<and> tu_state m = StateApproving \<and> tu_pending m = Some r \<and> ch = aq_respond r \<and>
             (is_yes k \<or> is_no k) \<and> (ap_allowed resp \<longleftrightarrow> is_yes k)))"

lemmas update_defs = tui_update_def key_press_def handle_approval_key_def respond_def send_input_def handle_stream_event_def

lemma update_ok:
  assumes "shows_pending m"
  shows "\<exists>m' cs a. tui_update w st f msg m = Some (m', cs, a) \<and> shows_pending m' \<and> answer_ok msg m m' a \<and>
    user_lines m' = user_lines m + count_list cs ListenForApproval"
  using assms
  by (cases msg)
    (auto simp: update_defs answer_ok_def shows_pending_def is_yes_def is_no_def Let_def split: tui_state.split if_splits option.split)

definition tui_inv :: "'ta tui_world \<Rightarrow> bool" where
  "tui_inv w \<longleftrightarrow>
     shows_pending (uw_model w) \<and>
     distinct (map fst (uw_answers w) @ pending_ids (uw_model w) @ map aq_respond (uw_requests w)) \<and>
     set (map fst (uw_answers w) @ pending_ids (uw_model w) @ map aq_respond (uw_requests w)) \<subseteq> {..<uw_next w} \<and>
     count_list (uw_cmds w) ListenForApproval + uw_next w = 1 + user_lines (uw_model w) + length (uw_requests w)"

lemma count_list_remove1: "x \<in> set xs \<Longrightarrow> count_list (remove1 y xs) z = count_list xs z - (if y = z \<and> y \<in> set xs then 1 else 0)"
  by (induction xs) (auto simp: count_list_0_iff Suc_diff_le count_notin)

lemma feed_defined:
  assumes "shows_pending (uw_model w)"
  shows "\<exists>w'. feed e msg w = Some w'"
  using update_ok [OF assms, of "ue_widget e" "ue_styles e" "ue_marshal e" msg] by (auto simp: feed_def)

lemma feedE:
  assumes "feed e msg w = Some w'" "shows_pending (uw_model w)"
  obtains m' cs a where "w' = w\<lparr>uw_model := m', uw_cmds := uw_cmds w @ cs, uw_answers := uw_answers w @ (case a of None \<Rightarrow> [] | Some x \<Rightarrow> [x])\<rparr>"
    "shows_pending m'" "answer_ok msg (uw_model w) m' a" "user_lines m' = user_lines (uw_model w) + count_list cs ListenForApproval"
  using assms(1) update_ok [OF assms(2), of "ue_widget e" "ue_styles e" "ue_marshal e" msg] by (auto simp: feed_def)

lemma feed_inv:
  assumes "feed e msg w = Some w'" "tui_inv w" "\<And>r. msg \<noteq> Approve r"
  shows "tui_inv w'"
proof -
  have "shows_pending (uw_model w)" using assms(2) by (simp add: tui_inv_def)
  from feedE [OF assms(1) this] obtain m' cs a where
    w': "w' = w\<lparr>uw_model := m', uw_cmds := uw_cmds w @ cs, uw_answers := uw_answers w @ (case a of None \<Rightarrow> [] | Some x \<Rightarrow> [x])\<rparr>"
    and m': "shows_pending m'" "answer_ok msg (uw_model w) m' a" "user_lines m' = user_lines (uw_model w) + count_list cs ListenForApproval" .
  have "map fst (uw_answers w') @ pending_ids m' = map fst (uw_answers w) @ pending_ids (uw_model w)"
    using m'(2) assms(3) unfolding w' by (auto simp: answer_ok_def pending_ids_def split: option.splits prod.splits tui_msg.splits)
  then show ?thesis using assms(2) m'(1,3) unfolding w' tui_inv_def append_assoc [symmetric]
    by (simp del: append_assoc)
qed

lemma drop_cmd_inv: "tui_inv w \<Longrightarrow> c \<in> set (uw_cmds w) \<Longrightarrow> c \<noteq> ListenForApproval \<Longrightarrow> tui_inv (drop_cmd c w)"
  by (simp add: tui_inv_def drop_cmd_def count_list_remove1)

lemma listened_inv:
  assumes "feed e (Approve r) ((drop_cmd ListenForApproval w)\<lparr>uw_requests := rs\<rparr>) = Some w'" (is "feed e _ ?v = _")
    and "tui_inv w" "ListenForApproval \<in> set (uw_cmds w)" "uw_requests w = r # rs"
  shows "tui_inv w'"
proof -
  have n: "0 < count_list (uw_cmds w) ListenForApproval" using assms(3) by (metis count_list_0_iff gr0I)
  have "shows_pending (uw_model ?v)" using assms(2) by (simp add: tui_inv_def drop_cmd_def)
  from feedE [OF assms(1) this] obtain m' cs a where
    w': "w' = ?v\<lparr>uw_model := m', uw_cmds := uw_cmds ?v @ cs, uw_answers := uw_answers ?v @ (case a of None \<Rightarrow> [] | Some x \<Rightarrow> [x])\<rparr>"
    and m': "shows_pending m'" "answer_ok (Approve r) (uw_model ?v) m' a" "user_lines m' = user_lines (uw_model ?v) + count_list cs ListenForApproval" .
  have "a = None" "tu_pending m' = Some r" using m'(2) by (auto simp: answer_ok_def split: option.splits)
  then show ?thesis using assms(2,3,4) m'(1,3) n unfolding w'
    by (auto simp: tui_inv_def drop_cmd_def count_list_remove1 pending_ids_def)
qed

lemma ask_inv: "tui_inv w \<Longrightarrow> tui_inv (ask_approval c w)"
  by (auto simp: tui_inv_def ask_approval_def)

lemma gives_no_approval: "cmd_gives c (Approve r) \<Longrightarrow> False"
  by (cases "(c, Approve r)" rule: cmd_gives.cases) auto

lemma gives_not_listen: "cmd_gives c msg \<Longrightarrow> c \<noteq> ListenForApproval"
  by (cases "(c, msg)" rule: cmd_gives.cases) auto

lemma step_inv: "tui_step e w a w' \<Longrightarrow> tui_inv w \<Longrightarrow> tui_inv w'"
proof (induction rule: tui_step.induct)
  case (finish c w msg w')
  then show ?case using feed_inv [OF finish.hyps(3) drop_cmd_inv] gives_no_approval gives_not_listen by blast
qed (auto intro: feed_inv listened_inv drop_cmd_inv ask_inv)

lemma reach_inv: "tui_reach e w \<Longrightarrow> tui_inv w"
proof (induction rule: tui_reach.induct)
  case (start ta)
  then show ?case by (simp add: tui_inv_def start_world_def new_model_def tui_init_def shows_pending_def pending_ids_def)
qed (rule step_inv)

lemma feed_answers:
  assumes "feed e msg w = Some w'" "tui_inv w"
  shows "uw_answers w' = uw_answers w \<or>
    (\<exists>k r resp. msg = KeyPress k \<and> tu_pending (uw_model w) = Some r \<and> uw_answers w' = uw_answers w @ [(aq_respond r, resp)] \<and>
       (is_yes k \<or> is_no k) \<and> (ap_allowed resp \<longleftrightarrow> is_yes k))"
proof -
  have "shows_pending (uw_model w)" using assms(2) by (simp add: tui_inv_def)
  from feedE [OF assms(1) this] obtain m' cs a where
    w': "w' = w\<lparr>uw_model := m', uw_cmds := uw_cmds w @ cs, uw_answers := uw_answers w @ (case a of None \<Rightarrow> [] | Some x \<Rightarrow> [x])\<rparr>"
    and a: "answer_ok msg (uw_model w) m' a" .
  show ?thesis using a unfolding w' by (auto simp: answer_ok_def split: option.splits)
qed

text \<open>
  C25: no tool call is allowed unless the user presses y while its request is shown: every answer of
  the client is one key press, goes to the request on the screen, and no request gets two; no key
  makes the client panic.
\<close>

theorem approval_needs_a_key:
  assumes "tui_reach e w" "tui_step e w a w'"
  shows "distinct (map fst (uw_answers w')) \<and> feed e msg w \<noteq> None \<and>
    (uw_answers w' = uw_answers w \<or>
     (\<exists>k r resp. a = Press k \<and> tu_pending (uw_model w) = Some r \<and> uw_answers w' = uw_answers w @ [(aq_respond r, resp)] \<and>
        k \<in> {''y'', ''Y'', ''n'', ''N''} \<and> (ap_allowed resp \<longleftrightarrow> k \<in> {''y'', ''Y''})))"
proof (intro conjI)
  have inv: "tui_inv w" "tui_inv w'" using assms reach_inv step_inv by blast+
  show "distinct (map fst (uw_answers w'))" using inv(2) by (simp add: tui_inv_def)
  show "feed e msg w \<noteq> None" using feed_defined inv(1) by (fastforce simp: tui_inv_def)
  show "uw_answers w' = uw_answers w \<or> (\<exists>k r resp. a = Press k \<and> tu_pending (uw_model w) = Some r \<and>
      uw_answers w' = uw_answers w @ [(aq_respond r, resp)] \<and> k \<in> {''y'', ''Y'', ''n'', ''N''} \<and> (ap_allowed resp \<longleftrightarrow> k \<in> {''y'', ''Y''}))"
    using assms(2)
  proof cases
    case (press k)
    then show ?thesis using feed_answers [OF press(2) inv(1)] by (auto simp: is_yes_def is_no_def)
  next
    case (resize x y)
    then show ?thesis using feed_answers [OF resize(2) inv(1)] by auto
  next
    case (finish c msg)
    then show ?thesis using feed_answers [OF finish(4) drop_cmd_inv [OF inv(1)]] gives_not_listen
      by (cases "(c, msg)" rule: cmd_gives.cases) (auto simp: drop_cmd_def)
  next
    case (listened r rs)
    then show ?thesis
      by (auto simp: feed_def tui_update_def drop_cmd_def)
  qed (auto simp: drop_cmd_def ask_approval_def)
qed

text \<open>
  The client shows at most one approval more than messages were sent: a listener is armed at the
  start and at each message, and never after an answer.
\<close>

theorem approvals_shown_bounded:
  assumes "tui_reach e w"
  shows "uw_next w - length (uw_requests w) \<le> 1 + user_lines (uw_model w)"
proof -
  have "count_list (uw_cmds w) ListenForApproval + uw_next w = 1 + user_lines (uw_model w) + length (uw_requests w)"
    using reach_inv [OF assms] by (simp add: tui_inv_def)
  then show ?thesis by linarith
qed

definition demo_tui :: "unit tui_env" where
  "demo_tui =
     \<lparr>ue_widget = \<lparr>ta_value = \<lambda>x. ''hi'', ta_reset = \<lambda>x. x, ta_set_width = \<lambda>i x. x, ta_update = \<lambda>k x. x\<rparr>,
      ue_styles = \<lparr>st_user = id, st_agent = id, st_tool = id, st_error = id, st_help = id, st_modal = id\<rparr>,
      ue_marshal = \<lambda>f. tcf_name f\<rparr>"

definition demo_asked :: "unit tui_world" where
  "demo_asked = ask_approval \<lparr>tc_id = ''c'', tc_type = ''function'', tc_function = \<lparr>tcf_name = ''echo'', tcf_args = ''''\<rparr>\<rparr> (start_world ())"

definition demo_shown :: "unit tui_world" where
  "demo_shown = the (feed demo_tui (Approve (hd (uw_requests demo_asked))) ((drop_cmd ListenForApproval demo_asked)\<lparr>uw_requests := []\<rparr>))"

definition demo_allowed :: "unit tui_world" where
  "demo_allowed = the (feed demo_tui (KeyPress ''y'') demo_shown)"

lemmas demo_defs = demo_asked_def demo_shown_def demo_allowed_def ask_approval_def start_world_def tui_init_def new_model_def drop_cmd_def

lemma demo_asked_reached: "tui_reach demo_tui demo_asked"
  unfolding demo_asked_def by (rule tui_reach.step [OF tui_reach.start tui_step.ask]) (simp add: start_world_def)

lemma demo_shown_reached: "tui_reach demo_tui demo_shown"
  by (rule tui_reach.step [OF demo_asked_reached tui_step.listened [where rs = "[]" and r = "hd (uw_requests demo_asked)"]])
    (simp_all add: demo_defs feed_def tui_update_def)

lemma demo_allowed_step: "tui_step demo_tui demo_shown (Press ''y'') demo_allowed" "uw_answers demo_allowed \<noteq> uw_answers demo_shown"
  "uw_next demo_allowed = 1" "uw_requests demo_allowed = []" "user_lines (uw_model demo_allowed) = 0"
  by (rule tui_step.press)
    (simp_all add: demo_defs feed_def tui_update_def key_press_def handle_approval_key_def respond_def is_yes_def)

theorem approval_needs_a_key_witness:
  "uw_answers demo_allowed \<noteq> [] \<and> distinct (map fst (uw_answers demo_allowed)) \<and> tui_reach demo_tui demo_shown"
  using approval_needs_a_key [OF demo_shown_reached demo_allowed_step(1)] demo_allowed_step(2) demo_shown_reached by auto

theorem approvals_shown_bounded_witness:
  "uw_next demo_allowed - length (uw_requests demo_allowed) \<le> 1 + user_lines (uw_model demo_allowed) \<and> uw_next demo_allowed = 1"
  using approvals_shown_bounded [OF tui_reach.step [OF demo_shown_reached demo_allowed_step(1)]] demo_allowed_step(3) by simp

text \<open>
  After an approval two readers wait for the same stream; the second end of the stream may come when
  the next message is on its way, and the run it starts is then read no further than its first event.
\<close>

lemma approval_doubles_readers:
  assumes "tui_inv w" "tu_state (uw_model w) = StateApproving" "AwaitStream (tu_stream_ch (uw_model w)) \<in> set (uw_cmds w)"
    and "feed e (KeyPress ''y'') w = Some w'"
  shows "1 < count_list (uw_cmds w') (AwaitStream (tu_stream_ch (uw_model w')))"
proof -
  have "0 < count_list (uw_cmds w) (AwaitStream (tu_stream_ch (uw_model w)))" using assms(3) by (metis count_list_0_iff gr0I)
  moreover obtain r where "tu_pending (uw_model w) = Some r" using assms(1,2) by (auto simp: tui_inv_def shows_pending_def)
  ultimately show ?thesis using assms(2,4)
    by (clarsimp simp: feed_def tui_update_def key_press_def handle_approval_key_def respond_def is_yes_def)
qed

lemma stale_end_abandons_run:
  assumes "tui_update w st f StreamEnd m = Some (m1, cs1, a1)" "tui_update w st f (StreamStart evt ch) m1 = Some (m2, cs2, a2)"
  shows "cs2 = []"
  using assms by (auto simp: tui_update_def handle_stream_event_def Let_def)

end
