(* ===== verification/SkillLoader.thy ===== *)
theory SkillLoader
  imports FileTools
begin

text \<open>
  \<^verbatim>\<open>skill/fs/loader.go\<close>: skills are directories with a file \<^verbatim>\<open>SKILL.md\<close> that starts with YAML
  frontmatter between two lines \<^verbatim>\<open>---\<close>. The YAML package is foreign: \<open>yaml\<close> decodes a text to the
  fields of a map, none for a nil map, a field being a text or something else with the text that
  \<^verbatim>\<open>%v\<close> prints. A slice beyond the end of a string panics.
\<close>

datatype yaml_value = YText string | YOther string

type_synonym frontmatter = "(string \<times> yaml_value) list"

definition yaml_string :: "frontmatter \<Rightarrow> string \<Rightarrow> string" where
  "yaml_string fm k = (case map_of fm k of Some (YText s) \<Rightarrow> s | _ \<Rightarrow> '''')"

definition yaml_text :: "yaml_value \<Rightarrow> string" where
  "yaml_text v = (case v of YText s \<Rightarrow> s | YOther s \<Rightarrow> s)"

definition fence_open :: string where "fence_open = ''---'' @ nl"
definition fence_end :: string where "fence_end = nl @ ''---''"
definition fence_close :: string where "fence_close = fence_end @ nl"

definition slice_panic :: string where "slice_panic = ''slice bounds out of range''"

text \<open>\<^verbatim>\<open>s[i:]\<close>\<close>

definition slice_from :: "string \<Rightarrow> nat \<Rightarrow> string go_ret" where
  "slice_from s i = (if i \<le> length s then Returns (drop i s) else Panics slice_panic)"

definition parse_text :: "(string \<Rightarrow> go_err + frontmatter option) \<Rightarrow> string \<Rightarrow> (go_err + frontmatter \<times> string) go_ret" where
  "parse_text yaml text =
     (if \<not> has_prefix text fence_open then Returns (Inl (ErrText ''no frontmatter''))
      else
        let rest = drop 4 text in
        case (case str_index rest fence_close of Some i \<Rightarrow> Some i
              | None \<Rightarrow> if has_suffix rest fence_end then Some (length rest - 4) else None) of
          None \<Rightarrow> Returns (Inl (ErrText ''unclosed frontmatter''))
        | Some idx \<Rightarrow>
            (case slice_from text (4 + idx + 5) of
               Panics p \<Rightarrow> Panics p
             | Returns body \<Rightarrow>
                 (case yaml (take idx (drop 4 text)) of
                    Inl e \<Rightarrow> Returns (Inl (ErrWrap ''invalid YAML frontmatter: '' e ''''))
                  | Inr fm \<Rightarrow> Returns (Inr ((case fm of None \<Rightarrow> [] | Some fm \<Rightarrow> fm), body)))))"

definition parse_frontmatter :: "os_files \<Rightarrow> (string \<Rightarrow> go_err + frontmatter option) \<Rightarrow> string \<Rightarrow> (go_err + frontmatter \<times> string) go_ret" where
  "parse_frontmatter os yaml path =
     (case read_file os path of
        Inl c \<Rightarrow> Returns (Inl (ErrText (''open '' @ path @ '': '' @ cause_text c)))
      | Inr data \<Rightarrow> parse_text yaml data)"

text \<open>\<^verbatim>\<open>filepath.Join\<close> of an absolute directory and a name.\<close>

definition join_path :: "string \<Rightarrow> string \<Rightarrow> string" where
  "join_path dir name = path_str (comps_of (dir @ ''/'' @ name))"

fun discover_entries :: "os_files \<Rightarrow> (string \<Rightarrow> go_err + frontmatter option) \<Rightarrow> string \<Rightarrow> (string \<times> fs_node) list \<Rightarrow> skill_info list go_ret" where
  "discover_entries os yaml dir [] = Returns []"
| "discover_entries os yaml dir ((name, n) # es) =
     (if n \<noteq> FDir then discover_entries os yaml dir es
      else
        let skillDir = join_path dir name in
        case parse_frontmatter os yaml (join_path skillDir ''SKILL.md'') of
          Panics p \<Rightarrow> Panics p
        | Returns (Inl e) \<Rightarrow> discover_entries os yaml dir es
        | Returns (Inr (fm, body)) \<Rightarrow>
            if yaml_string fm ''name'' = '''' \<or> yaml_string fm ''description'' = '''' then discover_entries os yaml dir es
            else (case discover_entries os yaml dir es of
                Panics p \<Rightarrow> Panics p
              | Returns ss \<Rightarrow> Returns (\<lparr>sk_name = yaml_string fm ''name'', sk_description = yaml_string fm ''description'',
                  sk_frontmatter = map (\<lambda>(k, v). (k, yaml_text v)) fm, sk_path = skillDir\<rparr> # ss)))"

text \<open>The directory of the loader is taken as absolute.\<close>

definition discover :: "os_files \<Rightarrow> (string \<Rightarrow> go_err + frontmatter option) \<Rightarrow> string \<Rightarrow> (go_err + skill_info list) go_ret" where
  "discover os yaml dir =
     (case eval_links (of_fs os) max_links [] (comps_of dir) of
        Resolved d \<Rightarrow>
          if node_at (of_fs os) d \<noteq> Some FDir then Returns (Inl (ErrWrap ''read skills dir: '' (ErrText (''readdirent '' @ dir @ '': not a directory'')) ''''))
          else (case discover_entries os yaml dir (dir_entries (of_fs os) d) of Panics p \<Rightarrow> Panics p | Returns ss \<Rightarrow> Returns (Inr ss))
      | NotExist \<Rightarrow> Returns (Inl (ErrWrap ''read skills dir: '' (ErrText (''open '' @ dir @ '': no such file or directory'')) ''''))
      | WalkError m \<Rightarrow> Returns (Inl (ErrWrap ''read skills dir: '' (ErrText (''open '' @ dir @ '': '' @ m)) '''')))"

definition load_skill :: "os_files \<Rightarrow> (string \<Rightarrow> go_err + frontmatter option) \<Rightarrow> skill_info \<Rightarrow> (go_err + string) go_ret" where
  "load_skill os yaml sk =
     (case parse_frontmatter os yaml (join_path (sk_path sk) ''SKILL.md'') of
        Panics p \<Rightarrow> Panics p
      | Returns (Inl e) \<Rightarrow> Returns (Inl e)
      | Returns (Inr (fm, body)) \<Rightarrow> Returns (Inr body))"

section \<open>Properties\<close>

lemma str_index_some: "str_index s p = Some i \<Longrightarrow> i + length p \<le> length s \<and> prefix p (drop i s)"
proof (induction s arbitrary: i)
  case (Cons c s)
  then show ?case by (auto split: if_splits dest: prefix_length_le)
qed (auto split: if_splits)

lemma str_index_first:
  "(\<forall>j < length y. \<not> prefix p (drop j (y @ p @ s))) \<Longrightarrow> p \<noteq> [] \<Longrightarrow> str_index (y @ p @ s) p = Some (length y)"
proof (induction y)
  case Nil
  then show ?case by (cases p) auto
next
  case (Cons c y)
  have "\<not> prefix p (c # y @ p @ s)" using Cons.prems(1) by force
  moreover have "\<forall>j < length y. \<not> prefix p (drop j (y @ p @ s))" using Cons.prems(1) by (metis Suc_less_eq append_Cons drop_Suc_Cons length_Cons)
  ultimately show ?case using Cons by simp
qed

lemma fence_lengths [simp]: "length fence_open = 4" "length fence_end = 4" "length fence_close = 5" "fence_close \<noteq> []" "fence_open \<noteq> []"
  by (simp_all add: fence_open_def fence_end_def fence_close_def nl_def)

text \<open>
  Reading a skill file panics exactly when the closing line of its frontmatter is the end of the
  file, without a newline behind it; every other file gives an error or its two parts.
\<close>

theorem frontmatter_panics_at_end:
  "(\<exists>p. parse_text yaml text = Panics p) \<longleftrightarrow>
     has_prefix text fence_open \<and> str_index (drop 4 text) fence_close = None \<and> has_suffix (drop 4 text) fence_end"
proof -
  have l: "4 \<le> length text" if "has_prefix text fence_open"
    using prefix_length_le [of fence_open "text"] that by (simp add: has_prefix_def)
  have i: "4 + i + 5 \<le> length text" if "str_index (drop 4 text) fence_close = Some i" for i
    using str_index_some [OF that] by auto
  have e: "4 \<le> length (drop 4 text)" if "has_suffix (drop 4 text) fence_end"
    using suffix_length_le [of fence_end "drop 4 text"] that by (simp add: has_suffix_def)
  show ?thesis
    using i e by (auto simp: parse_text_def Let_def slice_from_def split: option.splits sum.splits go_ret.splits if_splits)
qed

text \<open>
  A file that consists of a frontmatter between its two fences and a body is read back as these
  two parts, whatever the body is, provided that the closing fence does not occur earlier.
\<close>

theorem frontmatter_roundtrip:
  assumes "\<forall>j < length block. \<not> prefix fence_close (drop j (block @ fence_close))" "yaml block = Inr (Some fm)"
  shows "parse_text yaml (fence_open @ block @ fence_close @ body) = Returns (Inr (fm, body))"
proof -
  have "\<not> prefix fence_close (drop j (block @ fence_close @ body))" if "j < length block" for j
  proof
    assume "prefix fence_close (drop j (block @ fence_close @ body))"
    then obtain zs where "drop j (block @ fence_close @ body) = fence_close @ zs" by (auto simp: prefix_def)
    then have "take 5 (drop j (block @ fence_close @ body)) = take 5 (fence_close @ zs)" by (rule arg_cong)
    then have "take 5 (drop j (block @ fence_close @ body)) = fence_close" by simp
    moreover have "take 5 (drop j (block @ fence_close @ body)) = take 5 (drop j (block @ fence_close))" using that by simp
    ultimately have "prefix fence_close (drop j (block @ fence_close))" by (metis take_is_prefix)
    then show False using assms(1) that by blast
  qed
  then have i: "str_index (block @ fence_close @ body) fence_close = Some (length block)" by (intro str_index_first) auto
  have d: "drop 4 (fence_open @ xs) = xs" for xs using drop_append [of 4 fence_open xs] by simp
  have "slice_from (fence_open @ block @ fence_close @ body) (4 + length block + 5) = Returns body"
    by (simp add: slice_from_def add.commute [of 4])
  then show ?thesis using assms(2) i by (simp add: parse_text_def d has_prefix_def)
qed

lemma discovered_skill_loads:
  "discover_entries os yaml dir es = Returns ss \<Longrightarrow> sk \<in> set ss \<Longrightarrow>
   sk_name sk \<noteq> '''' \<and> sk_description sk \<noteq> '''' \<and> (\<exists>body. load_skill os yaml sk = Returns (Inr body))"
proof (induction es arbitrary: ss)
  case (Cons e es)
  obtain name n where e: "e = (name, n)" by fastforce
  show ?case
  proof (cases "discover_entries os yaml dir es = Returns ss")
    case True
    then show ?thesis using Cons by blast
  next
    case False
    then obtain fm body ss' where f: "parse_frontmatter os yaml (join_path (join_path dir name) ''SKILL.md'') = Returns (Inr (fm, body))"
      "yaml_string fm ''name'' \<noteq> ''''" "yaml_string fm ''description'' \<noteq> ''''" "discover_entries os yaml dir es = Returns ss'"
      "ss = \<lparr>sk_name = yaml_string fm ''name'', sk_description = yaml_string fm ''description'',
         sk_frontmatter = map (\<lambda>(k, v). (k, yaml_text v)) fm, sk_path = join_path dir name\<rparr> # ss'"
      using Cons.prems(1) by (auto simp: e Let_def split: if_splits go_ret.splits sum.splits)
    then show ?thesis using Cons by (auto simp: load_skill_def)
  qed
qed simp

text \<open>One file of this shape hides every other skill of the directory.\<close>

definition skill_files :: os_files where
  "skill_files = \<lparr>of_fs = [([''s''], FDir), ([''s'', ''a''], FDir), ([''s'', ''a'', ''SKILL.md''], FFile (fence_open @ ''n'' @ fence_close)),
       ([''s'', ''b''], FDir), ([''s'', ''b'', ''SKILL.md''], FFile (fence_open @ ''n'' @ fence_end))],
     of_unreadable = (\<lambda>_. False), of_unwritable = (\<lambda>_. False), of_temp = ''/tmp''\<rparr>"

lemma discover_panics: "\<exists>p. discover skill_files (\<lambda>_. Inr None) ''/s'' = Panics p"
proof -
  have "(case discover skill_files (\<lambda>_. Inr None) ''/s'' of Panics p \<Rightarrow> True | _ \<Rightarrow> False)" by code_simp
  then show ?thesis by (auto split: go_ret.splits)
qed

theorem frontmatter_roundtrip_witness:
  "parse_text (\<lambda>b. Inr (Some [(''name'', YText b)])) (fence_open @ ''n'' @ fence_close @ fence_close) = Returns (Inr ([(''name'', YText ''n'')], fence_close))"
  by (rule frontmatter_roundtrip) (simp_all add: fence_close_def fence_end_def nl_def)

end
