(* ===== verification/WasmPlugins.thy ===== *)
theory WasmPlugins
  imports Messages "HOL-Library.Word"
begin

unbundle bit_operations_syntax

text \<open>
  \<^verbatim>\<open>plugin/wasm\<close> and \<^verbatim>\<open>sdk/guest/guest.go\<close>: plugins that run as WASM modules. Host and guest
  exchange texts through the guest's memory: a pair of pointer and length in one 64-bit word. The
  runtime is foreign: a module is what it exports and how its memory \<open>'m\<close> is read and written. JSON
  is encoded and decoded by arguments.
\<close>

section \<open>ABI (abi.go)\<close>

record plugin_meta =
  pm_type :: string
  pm_name :: string
  pm_description :: string
  pm_parameters :: string
  pm_stage :: string
  pm_phase :: string

record stage_input =
  si_name :: string
  si_phase :: string
  si_detail :: "(string \<times> detail) list"
  si_error :: string

record stage_output =
  so_action :: string
  so_reason :: string

record tool_output =
  to_result :: string
  to_error :: string

definition plugin_type_tool :: string where "plugin_type_tool = ''tool''"
definition plugin_type_stage :: string where "plugin_type_stage = ''stage''"
definition phase_all :: string where "phase_all = ''*''"
definition action_abort :: string where "action_abort = ''abort''"

section \<open>Modules (loader.go)\<close>

text \<open>An exported function gets words and the memory, and gives words or an error.\<close>

type_synonym 'm wasm_fn = "64 word list \<Rightarrow> 'm \<Rightarrow> (go_err + 64 word list) \<times> 'm"

record 'm wasm_module =
  wm_export :: "string \<Rightarrow> 'm wasm_fn option"
  wm_read :: "32 word \<Rightarrow> 32 word \<Rightarrow> 'm \<Rightarrow> string option"
  wm_write :: "32 word \<Rightarrow> string \<Rightarrow> 'm \<Rightarrow> 'm option"

definition unpack_ptr_len :: "64 word \<Rightarrow> 32 word \<times> 32 word" where
  "unpack_ptr_len packed = (ucast (drop_bit 32 packed), ucast (packed AND 0xFFFFFFFF))"

definition bytes_len :: "string \<Rightarrow> 32 word" where
  "bytes_len s = of_nat (length s)"

definition missing_export :: "string \<Rightarrow> go_err" where
  "missing_export fn = ErrText (''plugin missing export '' @ fn)"

definition wasm_call :: "'m wasm_module \<Rightarrow> string \<Rightarrow> 32 word \<Rightarrow> 32 word \<Rightarrow> 'm \<Rightarrow> (go_err + 32 word \<times> 32 word) \<times> 'm" where
  "wasm_call md fn ptr len m =
     (case wm_export md fn of
        None \<Rightarrow> (Inl (missing_export (go_quote fn)), m)
      | Some f \<Rightarrow>
          (case f [ucast ptr, ucast len] m of
             (Inl e, m) \<Rightarrow> (Inl (ErrWrap (fn @ '': '') e ''''), m)
           | (Inr [], m) \<Rightarrow> (Inl (ErrText (fn @ '': no result'')), m)
           | (Inr (packed # _), m) \<Rightarrow> (Inr (unpack_ptr_len packed), m)))"

definition index_panic :: string where "index_panic = ''runtime error: index out of range [0] with length 0''"

text \<open>\<^verbatim>\<open>alloc\<close> does not look at the number of results.\<close>

definition wasm_alloc :: "'m wasm_module \<Rightarrow> 32 word \<Rightarrow> 'm \<Rightarrow> (go_err + 32 word) go_ret \<times> 'm" where
  "wasm_alloc md nbytes m =
     (case wm_export md ''alloc'' of
        None \<Rightarrow> (Returns (Inl (missing_export ''alloc'')), m)
      | Some f \<Rightarrow>
          (case f [ucast nbytes] m of
             (Inl e, m) \<Rightarrow> (Returns (Inl (ErrWrap ''alloc: '' e '''')), m)
           | (Inr [], m) \<Rightarrow> (Panics index_panic, m)
           | (Inr (x # _), m) \<Rightarrow> (Returns (Inr (ucast x)), m)))"

definition out_of_bounds :: "string \<Rightarrow> 32 word \<Rightarrow> 32 word \<Rightarrow> go_err" where
  "out_of_bounds what ptr len = ErrText (what @ '' out of bounds ('' @ nat_str (unat ptr) @ '', '' @ nat_str (unat len) @ '')'')"

definition metadata_json :: "'m wasm_module \<Rightarrow> 'm \<Rightarrow> (go_err + string) \<times> 'm" where
  "metadata_json md m =
     (case wm_export md ''metadata'' of
        None \<Rightarrow> (Inl (missing_export ''metadata''), m)
      | Some f \<Rightarrow>
          (case f [] m of
             (Inl e, m) \<Rightarrow> (Inl (ErrWrap ''metadata: '' e ''''), m)
           | (Inr [], m) \<Rightarrow> (Inl (ErrText ''metadata: no result''), m)
           | (Inr (packed # _), m) \<Rightarrow>
               (case wm_read md (fst (unpack_ptr_len packed)) (snd (unpack_ptr_len packed)) m of
                  None \<Rightarrow> (Inl (out_of_bounds ''metadata: read'' (fst (unpack_ptr_len packed)) (snd (unpack_ptr_len packed))), m)
                | Some s \<Rightarrow> (Inr s, m))))"

definition wasm_invoke :: "'m wasm_module \<Rightarrow> string \<Rightarrow> string \<Rightarrow> 'm \<Rightarrow> (go_err + string) go_ret \<times> 'm" where
  "wasm_invoke md fn input m =
     (case wasm_alloc md (bytes_len input) m of
        (Panics p, m) \<Rightarrow> (Panics p, m)
      | (Returns (Inl e), m) \<Rightarrow> (Returns (Inl e), m)
      | (Returns (Inr buf), m) \<Rightarrow>
          (case wm_write md buf input m of
             None \<Rightarrow> (Returns (Inl (ErrText (fn @ '': write out of bounds''))), m)
           | Some m \<Rightarrow>
               (case wasm_call md fn buf (bytes_len input) m of
                  (Inl e, m) \<Rightarrow> (Returns (Inl e), m)
                | (Inr (ptr, len), m) \<Rightarrow>
                    if len = 0 then (Returns (Inr ''''), m)
                    else (case wm_read md ptr len m of
                        None \<Rightarrow> (Returns (Inl (out_of_bounds (fn @ '': read result'') ptr len)), m)
                      | Some s \<Rightarrow> (Returns (Inr s), m)))))"

definition parse_meta :: "'m wasm_module \<Rightarrow> (string \<Rightarrow> go_err + plugin_meta) \<Rightarrow> 'm \<Rightarrow> (go_err + plugin_meta) \<times> 'm" where
  "parse_meta md dec m =
     (case metadata_json md m of
        (Inl e, m) \<Rightarrow> (Inl e, m)
      | (Inr raw, m) \<Rightarrow> ((case dec raw of Inl e \<Rightarrow> Inl (ErrWrap ''parse metadata: '' e '''') | Inr meta \<Rightarrow> Inr meta), m))"

section \<open>Tools (tool.go)\<close>

definition wasm_error :: "string \<Rightarrow> string \<Rightarrow> string \<Rightarrow> go_err \<Rightarrow> go_err" where
  "wasm_error kind name what e = ErrWrap (''wasm '' @ kind @ '' '' @ go_quote name @ '': '' @ what) e ''''"

definition wasm_tool_def :: "plugin_meta \<Rightarrow> function_def" where
  "wasm_tool_def meta = \<lparr>fd_name = pm_name meta, fd_description = pm_description meta, fd_parameters = pm_parameters meta, fd_end_turn = False\<rparr>"

definition wasm_tool_execute :: "'m wasm_module \<Rightarrow> plugin_meta \<Rightarrow> (string \<Rightarrow> go_err + string) \<Rightarrow> (string \<Rightarrow> go_err + tool_output) \<Rightarrow> string \<Rightarrow> 'm
    \<Rightarrow> (go_err + string) go_ret \<times> 'm" where
  "wasm_tool_execute md meta enc dec args m =
     (case enc args of
        Inl e \<Rightarrow> (Returns (Inl (wasm_error ''tool'' (pm_name meta) ''marshal input: '' e)), m)
      | Inr input \<Rightarrow>
          (case wasm_invoke md ''execute'' input m of
             (Panics p, m) \<Rightarrow> (Panics p, m)
           | (Returns (Inl e), m) \<Rightarrow> (Returns (Inl (wasm_error ''tool'' (pm_name meta) '''' e)), m)
           | (Returns (Inr output), m) \<Rightarrow>
               (case dec output of
                  Inl e \<Rightarrow> (Returns (Inl (wasm_error ''tool'' (pm_name meta) ''parse output: '' e)), m)
                | Inr out \<Rightarrow>
                    if to_error out \<noteq> '''' then (Returns (Inl (ErrText (''wasm tool '' @ go_quote (pm_name meta) @ '': '' @ to_error out))), m)
                    else (Returns (Inr (to_result out)), m))))"

section \<open>Stages (stage.go)\<close>

definition phase_text :: "phase \<Rightarrow> string" where
  "phase_text p = (case p of Enter \<Rightarrow> ''enter'' | Leave \<Rightarrow> ''leave'')"

definition stage_matches :: "plugin_meta \<Rightarrow> stage_event \<Rightarrow> bool" where
  "stage_matches meta ev =
     (if pm_stage meta \<noteq> '''' \<and> pm_stage meta \<noteq> phase_all \<and> pm_stage meta \<noteq> se_name ev then False
      else if pm_phase meta = '''' \<or> pm_phase meta = phase_all then True
      else pm_phase meta = phase_text (se_phase ev))"

definition stage_input_of :: "stage_event \<Rightarrow> stage_input" where
  "stage_input_of ev = \<lparr>si_name = se_name ev, si_phase = phase_text (se_phase ev), si_detail = se_detail ev,
     si_error = (case se_err ev of None \<Rightarrow> '''' | Some e \<Rightarrow> err_text e)\<rparr>"

text \<open>A plugin of a stage: its module, its metadata and its memory.\<close>

record 'm wasm_stage =
  ws_module :: "'m wasm_module"
  ws_meta :: plugin_meta
  ws_memory :: 'm

text \<open>The output and the error of the guest: an abort has both.\<close>

definition stage_invoke :: "(stage_input \<Rightarrow> go_err + string) \<Rightarrow> (string \<Rightarrow> go_err + stage_output) \<Rightarrow> stage_event \<Rightarrow> 'm wasm_stage
    \<Rightarrow> (stage_output option \<times> go_err option) go_ret \<times> 'm wasm_stage" where
  "stage_invoke enc dec ev s =
     (let name = pm_name (ws_meta s) in
      case enc (stage_input_of ev) of
        Inl e \<Rightarrow> (Returns (None, Some (wasm_error ''stage'' name ''marshal: '' e)), s)
      | Inr input \<Rightarrow>
          (case wasm_invoke (ws_module s) ''run'' input (ws_memory s) of
             (Panics p, m) \<Rightarrow> (Panics p, s\<lparr>ws_memory := m\<rparr>)
           | (Returns (Inl e), m) \<Rightarrow> (Returns (None, Some (wasm_error ''stage'' name '''' e)), s\<lparr>ws_memory := m\<rparr>)
           | (Returns (Inr output), m) \<Rightarrow>
               (case dec output of
                  Inl e \<Rightarrow> (Returns (None, Some (wasm_error ''stage'' name ''parse output: '' e)), s\<lparr>ws_memory := m\<rparr>)
                | Inr out \<Rightarrow>
                    (Returns (Some out, if so_action out = action_abort
                       then Some (ErrText (''wasm stage '' @ go_quote name @ '' aborted: '' @ so_reason out)) else None), s\<lparr>ws_memory := m\<rparr>))))"

section \<open>Manager (manager.go)\<close>

text \<open>
  The dispatch of an event: the stages afterwards and the reason that the abort callback is given,
  if it was called. \<open>has_abort\<close> says whether a callback is set.
\<close>

fun observe_stage :: "(stage_input \<Rightarrow> go_err + string) \<Rightarrow> (string \<Rightarrow> go_err + stage_output) \<Rightarrow> bool \<Rightarrow> stage_event \<Rightarrow> 'm wasm_stage list
    \<Rightarrow> string option go_ret \<times> 'm wasm_stage list" where
  "observe_stage enc dec has_abort ev [] = (Returns None, [])"
| "observe_stage enc dec has_abort ev (s # ss) =
     (if \<not> stage_matches (ws_meta s) ev then (let (r, ss) = observe_stage enc dec has_abort ev ss in (r, s # ss))
      else case stage_invoke enc dec ev s of
        (Panics p, s) \<Rightarrow> (Panics p, s # ss)
      | (Returns (out, err), s) \<Rightarrow>
          (case (err, out) of
             (Some e, Some out) \<Rightarrow>
               if so_action out = action_abort \<and> has_abort then (Returns (Some (so_reason out)), s # ss)
               else (let (r, ss) = observe_stage enc dec has_abort ev ss in (r, s # ss))
           | _ \<Rightarrow> (let (r, ss) = observe_stage enc dec has_abort ev ss in (r, s # ss))))"

record 'm plugin_manager =
  pg_dir :: string
  pg_tools :: "'m wasm_stage list"
  pg_stages :: "'m wasm_stage list"

text \<open>Reading, instantiating and asking one module for its metadata; a tool has the same parts as a stage.\<close>

definition load_one :: "(string \<Rightarrow> go_err + string) \<Rightarrow> (string \<Rightarrow> string \<Rightarrow> go_err + 'm wasm_module \<times> 'm) \<Rightarrow> (string \<Rightarrow> go_err + plugin_meta)
    \<Rightarrow> string \<Rightarrow> 'm plugin_manager \<Rightarrow> go_err option \<times> 'm plugin_manager" where
  "load_one read_bytes instantiate dec name g =
     (case read_bytes name of
        Inl e \<Rightarrow> (Some (ErrWrap ''read: '' e ''''), g)
      | Inr bytes \<Rightarrow>
          (case instantiate name bytes of
             Inl e \<Rightarrow> (Some (ErrWrap ''instantiate: '' e ''''), g)
           | Inr (md, m) \<Rightarrow>
               (case parse_meta md dec m of
                  (Inl e, m) \<Rightarrow> (Some e, g)
                | (Inr meta, m) \<Rightarrow>
                    (let p = \<lparr>ws_module = md, ws_meta = meta, ws_memory = m\<rparr> in
                     if pm_type meta = plugin_type_tool then (None, g\<lparr>pg_tools := pg_tools g @ [p]\<rparr>)
                     else if pm_type meta = plugin_type_stage then (None, g\<lparr>pg_stages := pg_stages g @ [p]\<rparr>)
                     else (Some (ErrText (''unknown plugin type '' @ go_quote (pm_type meta))), g)))))"

fun discover_plugins :: "(string \<Rightarrow> 'm plugin_manager \<Rightarrow> go_err option \<times> 'm plugin_manager) \<Rightarrow> (string \<times> bool) list \<Rightarrow> 'm plugin_manager
    \<Rightarrow> go_err option \<times> 'm plugin_manager" where
  "discover_plugins load [] g = (None, g)"
| "discover_plugins load ((name, is_dir) # es) g =
     (if is_dir \<or> \<not> has_suffix name ''.wasm'' then discover_plugins load es g
      else case load name g of
        (Some e, g) \<Rightarrow> (Some (ErrWrap (''plugin '' @ name @ '': '') e ''''), g)
      | (None, g) \<Rightarrow> discover_plugins load es g)"

text \<open>\<open>entries\<close> is the directory: nothing when it does not exist. \<open>init_err\<close> is the error of making the runtime.\<close>

definition manager_discover :: "(string \<Rightarrow> 'm plugin_manager \<Rightarrow> go_err option \<times> 'm plugin_manager) \<Rightarrow> go_err + (string \<times> bool) list option
    \<Rightarrow> go_err option \<Rightarrow> 'm plugin_manager \<Rightarrow> go_err option \<times> 'm plugin_manager" where
  "manager_discover load entries init_err g =
     (if pg_dir g = '''' then (None, g)
      else case entries of
        Inl e \<Rightarrow> (Some (ErrWrap ''plugin dir: '' e ''''), g)
      | Inr None \<Rightarrow> (None, g)
      | Inr (Some es) \<Rightarrow> (case init_err of Some e \<Rightarrow> (Some (ErrWrap ''init wazero: '' e ''''), g) | None \<Rightarrow> discover_plugins load es g))"

definition manager_has_observer :: "'m plugin_manager \<Rightarrow> bool" where
  "manager_has_observer g = (0 < length (pg_stages g))"

section \<open>Guest (guest.go)\<close>

definition pack_ptr_len :: "32 word \<Rightarrow> string \<Rightarrow> 64 word" where
  "pack_ptr_len ptr s = (if s = '''' then 0 else push_bit 32 (ucast ptr) OR of_nat (length s))"

text \<open>\<open>place\<close> puts bytes into the memory of the guest and gives their address, as the Go runtime does for a slice.\<close>

definition guest_call_handler :: "(string \<Rightarrow> 'm \<Rightarrow> 32 word \<times> 'm) \<Rightarrow> (32 word \<Rightarrow> 32 word \<Rightarrow> 'm \<Rightarrow> string option) \<Rightarrow> (string \<Rightarrow> go_err + string) option
    \<Rightarrow> 'm wasm_fn" where
  "guest_call_handler place rd handler ws m =
     (case ws of
        [ptr, len] \<Rightarrow>
          (case handler of
             None \<Rightarrow>
               (let out = ''{'' @ dquote @ ''error'' @ dquote @ '':'' @ dquote @ ''plugin not initialized'' @ dquote @ ''}''; (q, m) = place out m
                in (Inr [pack_ptr_len q out], m))
           | Some f \<Rightarrow>
               (case rd (ucast ptr) (ucast len) m of
                  None \<Rightarrow> (Inl (ErrText ''out of bounds memory access''), m)
                | Some input \<Rightarrow>
                    (let out = (case f input of Inl e \<Rightarrow> ''{'' @ dquote @ ''error'' @ dquote @ '':'' @ dquote @ err_text e @ dquote @ ''}'' | Inr out \<Rightarrow> out);
                         (q, m) = place out m
                     in (Inr [pack_ptr_len q out], m))))
      | _ \<Rightarrow> (Inl (ErrText ''wrong number of arguments''), m))"

definition guest_alloc :: "(string \<Rightarrow> 'm \<Rightarrow> 32 word \<times> 'm) \<Rightarrow> 'm wasm_fn" where
  "guest_alloc place ws m =
     (case ws of
        [nbytes] \<Rightarrow> (let (q, m) = place (replicate (unat (ucast nbytes :: 32 word)) (CHR 0x00)) m in (Inr [ucast q], m))
      | _ \<Rightarrow> (Inl (ErrText ''wrong number of arguments''), m))"

definition guest_module :: "(string \<Rightarrow> 'm \<Rightarrow> 32 word \<times> 'm) \<Rightarrow> (32 word \<Rightarrow> 32 word \<Rightarrow> 'm \<Rightarrow> string option) \<Rightarrow> (32 word \<Rightarrow> string \<Rightarrow> 'm \<Rightarrow> 'm option)
    \<Rightarrow> string \<Rightarrow> (string \<Rightarrow> go_err + string) option \<Rightarrow> 'm wasm_module" where
  "guest_module place rd wr meta handler =
     \<lparr>wm_export = (\<lambda>n. if n = ''alloc'' then Some (guest_alloc place)
          else if n = ''metadata'' then Some (\<lambda>_ m. let (q, m) = place meta m in (Inr [pack_ptr_len q meta], m))
          else if n = ''execute'' \<or> n = ''run'' then Some (guest_call_handler place rd handler) else None),
      wm_read = rd, wm_write = wr\<rparr>"

text \<open>\<^verbatim>\<open>Setup\<close>: the metadata and the handler of the guest; \<^verbatim>\<open>opts.Handler\<close> may be nil.\<close>

definition guest_setup :: "(plugin_meta \<Rightarrow> go_err + string) \<Rightarrow> plugin_meta \<Rightarrow> (string \<Rightarrow> go_err + string) option
    \<Rightarrow> string \<times> (string \<Rightarrow> go_err + string) option \<Rightarrow> (string \<times> (string \<Rightarrow> go_err + string) option) go_ret" where
  "guest_setup marshal meta handler st =
     (case snd st of
        Some _ \<Rightarrow> Panics ''guest.Setup called twice''
      | None \<Rightarrow>
          (case marshal meta of
             Inl e \<Rightarrow> Panics (''marshal metadata: '' @ err_text e)
           | Inr j \<Rightarrow> Returns (j, handler)))"

section \<open>Properties\<close>

lemma unpack_words: "unpack_ptr_len (push_bit 32 (ucast ptr) OR ucast len) = (ptr, len)"
proof -
  have m: "(0xFFFFFFFF :: 64 word) = mask 32" by (simp add: mask_eq_exp_minus_1)
  show ?thesis unfolding unpack_ptr_len_def m
    using bit_imp_le_length [of len] by (force intro!: bit_word_eqI simp: bit_simps)
qed

lemma ucast_back [simp]: "ucast (ucast x :: 64 word) = (x :: 32 word)"
  by (rule bit_word_eqI) (auto simp: bit_simps)

lemma unpack_pack:
  assumes "length s < 2 ^ 32" "s \<noteq> ''''"
  shows "unpack_ptr_len (pack_ptr_len ptr s) = (ptr, bytes_len s)"
proof -
  have "of_nat (length s) = (ucast (bytes_len s) :: 64 word)"
    using assms(1) by (simp add: word_unat_eq_iff bytes_len_def unsigned_ucast_eq unat_of_nat take_bit_nat_eq_self)
  then show ?thesis using assms(2) unpack_words [of ptr "bytes_len s"] by (simp add: pack_ptr_len_def)
qed

lemma bytes_len_0: "length s < 2 ^ 32 \<Longrightarrow> bytes_len s = 0 \<longleftrightarrow> s = ''''"
  by (auto simp: bytes_len_def word_of_nat_eq_0_iff dest: nat_dvd_not_less)

text \<open>
  C24: host and guest agree on the exchange: when the memory keeps what is placed and written, a call
  of the host gives the guest's handler the input and gets its answer, byte for byte, for every
  input and answer of less than 4 GiB, the empty ones included.
\<close>

theorem wasm_exchange:
  assumes "fn = ''execute'' \<or> fn = ''run''" "handler input = Inr out" "length input < 2 ^ 32" "length out < 2 ^ 32"
    and "place (replicate (length input) (CHR 0x00)) m = (buf, ma)" "wr buf input ma = Some mb" "rd buf (bytes_len input) mb = Some input"
    and "place out mb = (q, mc)" "out \<noteq> '''' \<longrightarrow> rd q (bytes_len out) mc = Some out"
  shows "wasm_invoke (guest_module place rd wr meta (Some handler)) fn input m = (Returns (Inr out), mc)"
proof -
  have u: "unat (bytes_len input) = length input" using assms(3) by (simp add: bytes_len_def unat_of_nat)
  have a: "wasm_alloc (guest_module place rd wr meta (Some handler)) (bytes_len input) m = (Returns (Inr buf), ma)"
    using assms(5) u by (simp add: wasm_alloc_def guest_module_def guest_alloc_def)
  have "wasm_call (guest_module place rd wr meta (Some handler)) fn buf (bytes_len input) mb = (Inr (unpack_ptr_len (pack_ptr_len q out)), mc)"
    using assms(1,2,7,8) by (auto simp: wasm_call_def guest_module_def guest_call_handler_def)
  moreover have "unpack_ptr_len (pack_ptr_len q '''') = (0, 0)" by (simp add: pack_ptr_len_def unpack_ptr_len_def)
  moreover have "wm_write (guest_module place rd wr meta (Some handler)) = wr" "wm_read (guest_module place rd wr meta (Some handler)) = rd"
    by (simp_all add: guest_module_def)
  ultimately show ?thesis
    using assms(4,6,9) a unpack_pack [OF assms(4), of q] bytes_len_0 [OF assms(4)] by (cases "out = ''''") (simp_all add: wasm_invoke_def)
qed

text \<open>After an abort with a callback no later stage sees the event; without one every matching stage does.\<close>

lemma observe_without_callback: "fst (observe_stage enc dec False ev ss) = Returns (Some reason) \<Longrightarrow> False"
  by (induction ss) (auto split: if_splits prod.splits go_ret.splits option.splits)

lemma abort_skips_the_rest:
  assumes "stage_matches (ws_meta s) ev" "stage_invoke enc dec ev s = (Returns (Some out, Some e), s')" "so_action out = action_abort"
  shows "observe_stage enc dec True ev (s # ss) = (Returns (Some (so_reason out)), s' # ss)"
  using assms by simp

text \<open>A plugin that does not load ends the discovery; those before it stay, those behind it are never tried.\<close>

lemma discover_stops:
  "load name g = (Some e, g') \<Longrightarrow> has_suffix name ''.wasm'' \<Longrightarrow>
   discover_plugins load ((name, False) # es) g = (Some (ErrWrap (''plugin '' @ name @ '': '') e ''''), g')"
  by simp

definition grow_memory :: "string \<Rightarrow> string \<Rightarrow> 32 word \<times> string" where
  "grow_memory s m = (of_nat (length m), m @ s)"

definition read_memory :: "32 word \<Rightarrow> 32 word \<Rightarrow> string \<Rightarrow> string option" where
  "read_memory p l m = (if unat p + unat l \<le> length m then Some (take (unat l) (drop (unat p) m)) else None)"

definition write_memory :: "32 word \<Rightarrow> string \<Rightarrow> string \<Rightarrow> string option" where
  "write_memory p s m = (if unat p + length s \<le> length m then Some (take (unat p) m @ s @ drop (unat p + length s) m) else None)"

theorem wasm_exchange_witness:
  "wasm_invoke (guest_module grow_memory read_memory write_memory ''{}'' (Some (\<lambda>s. Inr (s @ ''!'')))) ''run'' ''hi'' ''x'' = (Returns (Inr ''hi!''), ''xhihi!'')"
  by (rule wasm_exchange [where buf = 1 and q = 3 and ma = "[CHR ''x'', CHR 0x00, CHR 0x00]" and mb = "''xhi''"])
    (simp_all add: grow_memory_def read_memory_def write_memory_def bytes_len_def)

end
