(* ===== verification/CliHost.thy ===== *)
theory CliHost
  imports GrepTool SkillLoader WasmPlugins AcpProtocol
begin

unbundle bit_operations_syntax

text \<open>
  \<^verbatim>\<open>cmd/cli\<close>: the command line host. Its keyring (\<^verbatim>\<open>keyring/keyring.go\<close>), settings
  (\<^verbatim>\<open>config/config.go\<close>), plugins (\<^verbatim>\<open>plugin/manager.go\<close>, \<^verbatim>\<open>plugin/wasm\<close>), the start of the program
  (\<^verbatim>\<open>main.go\<close>) and the handler of its ACP server (\<^verbatim>\<open>server/agent.go\<close>). All modules live in one runtime:
  its state \<open>'m\<close> holds the memories of all of them. The system keychain, the HTTP client, JSON and the
  command line library are arguments.
\<close>

section \<open>Keyring (keyring.go)\<close>

text \<open>The in-memory store: one map from service, slash and key to the value.\<close>

type_synonym mem_store = "string gomap"

definition store_key :: "string \<Rightarrow> string \<Rightarrow> string" where
  "store_key service key = service @ ''/'' @ key"

definition store_get :: "string \<Rightarrow> string \<Rightarrow> mem_store \<Rightarrow> string" where
  "store_get service key m = (case map_of m (store_key service key) of None \<Rightarrow> '''' | Some v \<Rightarrow> v)"

definition store_delete :: "string \<Rightarrow> string \<Rightarrow> mem_store \<Rightarrow> mem_store" where
  "store_delete service key m = AList.delete (store_key service key) m"

definition store_set :: "string \<Rightarrow> string \<Rightarrow> string \<Rightarrow> mem_store \<Rightarrow> mem_store" where
  "store_set service key v m =
     (if v = '''' then AList.delete (store_key service key) m else AList.update (store_key service key) v m)"

text \<open>The system keychain answers with a value, with \<^verbatim>\<open>ErrNotFound\<close> or with another error.\<close>

datatype keychain_error = KeyNotFound | KeychainError go_err

record 'k keychain =
  kc_get :: "string \<Rightarrow> string \<Rightarrow> 'k \<Rightarrow> keychain_error + string"
  kc_set :: "string \<Rightarrow> string \<Rightarrow> string \<Rightarrow> 'k \<Rightarrow> go_err option \<times> 'k"
  kc_delete :: "string \<Rightarrow> string \<Rightarrow> 'k \<Rightarrow> keychain_error option \<times> 'k"

definition open_store :: "'k keychain \<Rightarrow> 'k \<Rightarrow> go_err option" where
  "open_store kc k = (case kc_get kc ''openagent'' ''__probe__'' k of Inl (KeychainError e) \<Rightarrow> Some e | _ \<Rightarrow> None)"

definition sys_get :: "'k keychain \<Rightarrow> string \<Rightarrow> string \<Rightarrow> 'k \<Rightarrow> go_err + string" where
  "sys_get kc service key k =
     (case kc_get kc service key k of Inr v \<Rightarrow> Inr v | Inl KeyNotFound \<Rightarrow> Inr '''' | Inl (KeychainError e) \<Rightarrow> Inl e)"

definition sys_delete :: "'k keychain \<Rightarrow> string \<Rightarrow> string \<Rightarrow> 'k \<Rightarrow> go_err option \<times> 'k" where
  "sys_delete kc service key k =
     (case kc_delete kc service key k of
        (None, k) \<Rightarrow> (None, k) | (Some KeyNotFound, k) \<Rightarrow> (None, k) | (Some (KeychainError e), k) \<Rightarrow> (Some e, k))"

definition sys_set :: "'k keychain \<Rightarrow> string \<Rightarrow> string \<Rightarrow> string \<Rightarrow> 'k \<Rightarrow> go_err option \<times> 'k" where
  "sys_set kc service key v k = (if v = '''' then sys_delete kc service key k else kc_set kc service key v k)"

text \<open>The interface \<^verbatim>\<open>Keyring\<close>; \<^verbatim>\<open>openKeyring\<close> falls back to the store in memory when the probe fails.\<close>

datatype 'k keyring = SystemKeyring "'k keychain" 'k | MemKeyring mem_store

definition open_keyring :: "'k keychain \<Rightarrow> 'k \<Rightarrow> 'k keyring" where
  "open_keyring kc k = (case open_store kc k of None \<Rightarrow> SystemKeyring kc k | Some e \<Rightarrow> MemKeyring [])"

fun keyring_get :: "string \<Rightarrow> string \<Rightarrow> 'k keyring \<Rightarrow> go_err + string" where
  "keyring_get s k (SystemKeyring kc w) = sys_get kc s k w"
| "keyring_get s k (MemKeyring m) = Inr (store_get s k m)"

fun keyring_set :: "string \<Rightarrow> string \<Rightarrow> string \<Rightarrow> 'k keyring \<Rightarrow> go_err option \<times> 'k keyring" where
  "keyring_set s k v (SystemKeyring kc w) = map_prod id (SystemKeyring kc) (sys_set kc s k v w)"
| "keyring_set s k v (MemKeyring m) = (None, MemKeyring (store_set s k v m))"

fun keyring_delete :: "string \<Rightarrow> string \<Rightarrow> 'k keyring \<Rightarrow> go_err option \<times> 'k keyring" where
  "keyring_delete s k (SystemKeyring kc w) = map_prod id (SystemKeyring kc) (sys_delete kc s k w)"
| "keyring_delete s k (MemKeyring m) = (None, MemKeyring (store_delete s k m))"

section \<open>Settings (config.go)\<close>

record provider_config =
  pc_api_key :: string
  pc_base_url :: string
  pc_models :: "string list"

text \<open>A nil map of providers is \<^term>\<open>None\<close>.\<close>

record cli_config =
  cfg_model :: string
  cfg_fast_model :: string
  cfg_provider :: "provider_config gomap option"
  cfg_port :: int
  cfg_plugins :: "string list"
  cfg_env :: "string gomap"

definition zero_config :: cli_config where
  "zero_config = \<lparr>cfg_model = '''', cfg_fast_model = '''', cfg_provider = None, cfg_port = 0, cfg_plugins = [], cfg_env = []\<rparr>"

definition config_path :: "string \<Rightarrow> go_err + string \<Rightarrow> go_err + string" where
  "config_path env home =
     (if env \<noteq> '''' then Inr env
      else case home of
        Inl e \<Rightarrow> Inl (ErrWrap ''home dir: '' e '''')
      | Inr h \<Rightarrow> Inr (join_path (join_path h ''.openagent'') ''settings.json''))"

definition default_plugins_dir :: "string \<Rightarrow> string" where
  "default_plugins_dir home = join_path (join_path home ''.openagent'') ''plugins''"

definition apply_defaults :: "string \<Rightarrow> cli_config \<Rightarrow> cli_config" where
  "apply_defaults home c =
     c\<lparr>cfg_provider := Some (case cfg_provider c of None \<Rightarrow> [] | Some p \<Rightarrow> p),
       cfg_plugins := (if cfg_plugins c = [] then [default_plugins_dir home] else cfg_plugins c),
       cfg_port := (if cfg_port c = 0 then 8080 else cfg_port c)\<rparr>"

definition load_config :: "os_files \<Rightarrow> string \<Rightarrow> (string \<Rightarrow> go_err + cli_config) \<Rightarrow> string \<Rightarrow> go_err + cli_config" where
  "load_config os home dec path =
     (case read_file os path of
        Inl CauseNotExist \<Rightarrow> Inr zero_config
      | Inl c \<Rightarrow> Inl (ErrWrap ''read settings: '' (ErrText (''open '' @ path @ '': '' @ cause_text c)) '''')
      | Inr data \<Rightarrow> (case dec data of Inl e \<Rightarrow> Inl (ErrWrap ''parse settings: '' e '''') | Inr c \<Rightarrow> Inr (apply_defaults home c)))"

section \<open>Finding plugins (plugin/manager.go)\<close>

definition file_ext :: "string \<Rightarrow> string" where
  "file_ext name = (case str_last_index name ''.'' of None \<Rightarrow> '''' | Some i \<Rightarrow> drop i name)"

definition is_wasm_entry :: "string \<times> fs_node \<Rightarrow> bool" where
  "is_wasm_entry en \<longleftrightarrow> snd en \<noteq> FDir \<and> file_ext (fst en) = ''.wasm''"

definition resolve_wasm_files :: "os_files \<Rightarrow> string \<Rightarrow> go_err + string list" where
  "resolve_wasm_files os path =
     (case eval_links (of_fs os) max_links [] (comps_of path) of
        NotExist \<Rightarrow> Inr []
      | WalkError m \<Rightarrow> Inl (ErrText (''stat '' @ path @ '': '' @ m))
      | Resolved d \<Rightarrow>
          if node_at (of_fs os) d \<noteq> Some FDir then Inr [path]
          else if of_unreadable os d then Inl (ErrText (''open '' @ path @ '': '' @ cause_text CausePermission))
          else Inr (map (\<lambda>en. join_path path (fst en)) (filter is_wasm_entry (dir_entries (of_fs os) d))))"

text \<open>
  \<^verbatim>\<open>Pipe\<close>: the settings go through \<open>load\<close> for every file; what cannot be resolved or read is left out,
  a plugin that fails ends it. The state of \<open>load\<close> is \<open>'m\<close>.
\<close>

fun pipe_files :: "os_files \<Rightarrow> (string \<Rightarrow> string \<Rightarrow> string \<Rightarrow> 'm \<Rightarrow> (go_err + string) \<times> 'm) \<Rightarrow> string list \<Rightarrow> string \<Rightarrow> 'm \<Rightarrow> (go_err + string) \<times> 'm" where
  "pipe_files os load [] settings m = (Inr settings, m)"
| "pipe_files os load (f # fs) settings m =
     (case read_file os f of
        Inl c \<Rightarrow> pipe_files os load fs settings m
      | Inr bytes \<Rightarrow>
          (let name = node_name (comps_of f) in
           case load bytes name settings m of
             (Inl e, m) \<Rightarrow> (Inl (ErrWrap (''plugin '' @ name @ '': '') e ''''), m)
           | (Inr merged, m) \<Rightarrow> pipe_files os load fs merged m))"

fun pipe :: "os_files \<Rightarrow> (string \<Rightarrow> string \<Rightarrow> string \<Rightarrow> 'm \<Rightarrow> (go_err + string) \<times> 'm) \<Rightarrow> string list \<Rightarrow> string \<Rightarrow> 'm \<Rightarrow> (go_err + string) \<times> 'm" where
  "pipe os load [] settings m = (Inr settings, m)"
| "pipe os load (p # ps) settings m =
     (case resolve_wasm_files os p of
        Inl e \<Rightarrow> pipe os load ps settings m
      | Inr files \<Rightarrow>
          (case pipe_files os load (sort files) settings m of
             (Inl e, m) \<Rightarrow> (Inl e, m)
           | (Inr s, m) \<Rightarrow> pipe os load ps s m))"

section \<open>Modules of plugins (plugin/wasm)\<close>

record cli_meta =
  cm_type :: string
  cm_name :: string
  cm_description :: string

record command_def =
  cd_name :: string
  cd_use :: string
  cd_short :: string
  cd_long :: string

fun split_comma :: "string \<Rightarrow> string list" where
  "split_comma [] = ['''']"
| "split_comma (c # s) =
     (if c = CHR '','' then '''' # split_comma s
      else (case split_comma s of [] \<Rightarrow> [[c]] | x # xs \<Rightarrow> (c # x) # xs))"

definition meta_is :: "cli_meta \<Rightarrow> string \<Rightarrow> bool" where
  "meta_is meta kind \<longleftrightarrow> (''cli:'' @ kind) \<in> set (split_comma (cm_type meta))"

definition read_packed :: "'m wasm_module \<Rightarrow> 64 word \<Rightarrow> 'm \<Rightarrow> go_err + string" where
  "read_packed md packed m =
     (let (ptr, len) = unpack_ptr_len packed in
      if ptr = 0 \<and> len = 0 then Inr ''''
      else case wm_read md ptr len m of
        None \<Rightarrow> Inl (ErrText (''read out of bounds ('' @ nat_str (unat ptr) @ '','' @ nat_str (unat len) @ '')''))
      | Some s \<Rightarrow> Inr s)"

definition no_result :: "string \<Rightarrow> go_err" where
  "no_result name = ErrText (name @ '': no result'')"

definition call_export :: "'m wasm_module \<Rightarrow> string \<Rightarrow> 'm \<Rightarrow> (go_err + string) \<times> 'm" where
  "call_export md name m =
     (case wm_export md name of
        None \<Rightarrow> (Inl (ErrText (''export '' @ go_quote name @ '' not found'')), m)
      | Some f \<Rightarrow>
          (case f [] m of
             (Inl e, m) \<Rightarrow> (Inl (ErrWrap (name @ '': '') e ''''), m)
           | (Inr [], m) \<Rightarrow> (Inl (no_result name), m)
           | (Inr (packed # _), m) \<Rightarrow> (read_packed md packed m, m)))"

definition read_cli_meta :: "(string \<Rightarrow> go_err + cli_meta) \<Rightarrow> 'm wasm_module \<Rightarrow> 'm \<Rightarrow> (go_err + cli_meta) \<times> 'm" where
  "read_cli_meta dec md m =
     (case call_export md ''metadata'' m of
        (Inl e, m) \<Rightarrow> (Inl e, m)
      | (Inr raw, m) \<Rightarrow> (case dec raw of Inl e \<Rightarrow> (Inl (ErrWrap ''parse metadata: '' e ''''), m) | Inr meta \<Rightarrow> (Inr meta, m)))"

type_synonym 'm instantiate = "string \<Rightarrow> string \<Rightarrow> 'm \<Rightarrow> (go_err + 'm wasm_module) \<times> 'm"

definition instantiate_cli :: "'m instantiate \<Rightarrow> (string \<Rightarrow> go_err + cli_meta) \<Rightarrow> string \<Rightarrow> string \<Rightarrow> 'm
    \<Rightarrow> (go_err + 'm wasm_module \<times> cli_meta) \<times> 'm" where
  "instantiate_cli inst dec bytes name m =
     (case inst bytes name m of
        (Inl e, m) \<Rightarrow> (Inl (ErrWrap ''instantiate: '' e ''''), m)
      | (Inr md, m) \<Rightarrow>
          (case read_cli_meta dec md m of
             (Inl e, m) \<Rightarrow> (Inl (ErrWrap ''metadata: '' e ''''), m)
           | (Inr meta, m) \<Rightarrow>
               if has_prefix (cm_type meta) ''cli:'' then (Inr (md, meta), m)
               else (Inl (ErrText (''plugin type '' @ go_quote (cm_type meta) @ '' does not start with '' @ go_quote ''cli:'')), m)))"

text \<open>\<^verbatim>\<open>alloc\<close>; without an error but without a result too, \<^verbatim>\<open>%w\<close> prints a nil error. A failed write is ignored.\<close>

definition alloc_for :: "string \<Rightarrow> 'm wasm_module \<Rightarrow> string \<Rightarrow> 'm \<Rightarrow> (go_err + 32 word) \<times> 'm" where
  "alloc_for what md s m =
     (case wm_export md ''alloc'' of
        None \<Rightarrow> (Inl (ErrText ''alloc not exported''), m)
      | Some f \<Rightarrow>
          (case f [of_nat (length s)] m of
             (Inl e, m) \<Rightarrow> (Inl (ErrWrap (what @ '': '') e ''''), m)
           | (Inr [], m) \<Rightarrow> (Inl (ErrText (what @ '': %!w(<nil>)'')), m)
           | (Inr (x # _), m) \<Rightarrow> (Inr (ucast x), m)))"

definition write_bytes :: "'m wasm_module \<Rightarrow> 32 word \<Rightarrow> string \<Rightarrow> 'm \<Rightarrow> 'm" where
  "write_bytes md ptr s m = (case wm_write md ptr s m of None \<Rightarrow> m | Some m' \<Rightarrow> m')"

text \<open>Calling \<open>f\<close>, named \<open>name\<close>, with the text \<open>s\<close> at \<open>ptr\<close> and reading the text it gives back.\<close>

definition call_with :: "string \<Rightarrow> 'm wasm_fn \<Rightarrow> 'm wasm_module \<Rightarrow> 32 word \<Rightarrow> string \<Rightarrow> 'm \<Rightarrow> (go_err + string) \<times> 'm" where
  "call_with name f md ptr s m =
     (case f [ucast ptr, of_nat (length s)] (write_bytes md ptr s m) of
        (Inl e, m) \<Rightarrow> (Inl (ErrWrap (name @ '': '') e ''''), m)
      | (Inr [], m) \<Rightarrow> (Inl (no_result name), m)
      | (Inr (packed # _), m) \<Rightarrow> (read_packed md packed m, m))"

definition call_init :: "'m wasm_module \<Rightarrow> string \<Rightarrow> 'm \<Rightarrow> (go_err + string) \<times> 'm" where
  "call_init md settings m =
     (case wm_export md ''init'' of
        None \<Rightarrow> (Inr settings, m)
      | Some f \<Rightarrow>
          if settings = '''' then call_export md ''init'' m
          else (case alloc_for ''alloc settings'' md settings m of
              (Inl e, m) \<Rightarrow> (Inl e, m)
            | (Inr ptr, m) \<Rightarrow> call_with ''init'' f md ptr settings m))"

text \<open>The registry of commands: the module that registered a name first.\<close>

fun store_commands :: "'m wasm_module \<Rightarrow> command_def list \<Rightarrow> 'm wasm_module gomap \<Rightarrow> 'm wasm_module gomap" where
  "store_commands md [] reg = reg"
| "store_commands md (c # cs) reg =
     store_commands md cs (case map_of reg (cd_name c) of None \<Rightarrow> AList.update (cd_name c) md reg | Some _ \<Rightarrow> reg)"

definition read_commands :: "(string \<Rightarrow> go_err + command_def list) \<Rightarrow> 'm wasm_module \<Rightarrow> 'm wasm_module gomap \<Rightarrow> 'm
    \<Rightarrow> (go_err + command_def list) \<times> 'm wasm_module gomap \<times> 'm" where
  "read_commands dec md reg m =
     (case wm_export md ''commands'' of
        None \<Rightarrow> (Inr [], reg, m)
      | Some _ \<Rightarrow>
          (case call_export md ''commands'' m of
             (Inl e, m) \<Rightarrow> (Inl (ErrWrap ''commands: '' e ''''), reg, m)
           | (Inr raw, m) \<Rightarrow>
               (case dec raw of
                  Inl e \<Rightarrow> (Inl (ErrWrap ''parse commands: '' e ''''), reg, m)
                | Inr cmds \<Rightarrow> (Inr cmds, store_commands md cmds reg, m))))"

definition run_command :: "'m wasm_module gomap \<Rightarrow> string \<Rightarrow> string \<Rightarrow> 'm \<Rightarrow> (go_err + string) \<times> 'm" where
  "run_command reg name args m =
     (case map_of reg name of
        None \<Rightarrow> (Inl (ErrText (''command '' @ go_quote name @ '' not found'')), m)
      | Some md \<Rightarrow>
          (case wm_export md (''run_'' @ name) of
             None \<Rightarrow> (Inl (ErrText (''command '' @ go_quote name @ '' has no export run_'' @ name)), m)
           | Some f \<Rightarrow>
               (case alloc_for ''alloc'' md args m of
                  (Inl e, m) \<Rightarrow> (Inl e, m)
                | (Inr ptr, m) \<Rightarrow> call_with (''run_'' @ name) f md ptr args m)))"

section \<open>Observers (plugin/wasm/observer.go)\<close>

text \<open>The result of a callback is not looked at; its error is logged.\<close>

fun broadcast :: "string \<Rightarrow> 'm wasm_module list \<Rightarrow> 'm \<Rightarrow> 'm" where
  "broadcast name [] m = m"
| "broadcast name (md # mds) m =
     broadcast name mds (case wm_export md name of None \<Rightarrow> m | Some f \<Rightarrow> snd (f [] m))"

fun broadcast_str :: "string \<Rightarrow> string \<Rightarrow> 'm wasm_module list \<Rightarrow> 'm \<Rightarrow> 'm" where
  "broadcast_str name arg [] m = m"
| "broadcast_str name arg (md # mds) m =
     broadcast_str name arg mds
       (case (wm_export md name, wm_export md ''alloc'') of
          (Some f, Some al) \<Rightarrow>
            (case al [of_nat (length arg)] m of
               (Inr (x # _), m) \<Rightarrow> snd (f [ucast (ucast x :: 32 word), of_nat (length arg)] (write_bytes md (ucast x) arg m))
             | (_, m) \<Rightarrow> m)
        | _ \<Rightarrow> m)"

definition on_startup :: "'m wasm_module list \<Rightarrow> 'm \<Rightarrow> 'm" where "on_startup = broadcast ''on_startup''"
definition on_shutdown :: "'m wasm_module list \<Rightarrow> 'm \<Rightarrow> 'm" where "on_shutdown = broadcast ''on_shutdown''"
definition on_command_start :: "string \<Rightarrow> 'm wasm_module list \<Rightarrow> 'm \<Rightarrow> 'm" where
  "on_command_start cmd = broadcast_str ''on_command_start'' cmd"
definition on_command_end :: "string \<Rightarrow> go_err option \<Rightarrow> 'm wasm_module list \<Rightarrow> 'm \<Rightarrow> 'm" where
  "on_command_end cmd err =
     broadcast_str ''on_command_end'' (case err of None \<Rightarrow> cmd | Some e \<Rightarrow> cmd @ '' error='' @ err_text e)"

section \<open>Functions of the host (plugin/wasm/host_module.go)\<close>

text \<open>They work on the memory of the calling module and on the world \<open>'w\<close> behind the interfaces.\<close>

definition host_read :: "'m wasm_module \<Rightarrow> 32 word \<Rightarrow> 32 word \<Rightarrow> 'm \<Rightarrow> string" where
  "host_read md ptr len m =
     (if ptr = 0 \<and> len = 0 then '''' else case wm_read md ptr len m of None \<Rightarrow> '''' | Some s \<Rightarrow> s)"

definition host_write :: "'m wasm_module \<Rightarrow> string \<Rightarrow> 'm \<Rightarrow> 64 word \<times> 'm" where
  "host_write md s m =
     (if s = '''' then (0, m)
      else case wm_export md ''alloc'' of
        None \<Rightarrow> (0, m)
      | Some f \<Rightarrow>
          (case f [of_nat (length s)] m of
             (Inr (x # _), m) \<Rightarrow> (push_bit 32 (ucast (ucast x :: 32 word)) OR of_nat (length s), write_bytes md (ucast x) s m)
           | (_, m) \<Rightarrow> (0, m)))"

definition host_keyring_get :: "'m wasm_module \<Rightarrow> 32 word \<Rightarrow> 32 word \<Rightarrow> 32 word \<Rightarrow> 32 word \<Rightarrow> 'm \<times> 'k keyring \<Rightarrow> 64 word \<times> 'm \<times> 'k keyring" where
  "host_keyring_get md sp sl kp kl st =
     (let (m, kr) = st;
          v = (case keyring_get (host_read md sp sl m) (host_read md kp kl m) kr of Inl e \<Rightarrow> '''' | Inr v \<Rightarrow> v);
          (r, m) = host_write md v m in (r, m, kr))"

definition host_keyring_set ::
  "'m wasm_module \<Rightarrow> 32 word \<Rightarrow> 32 word \<Rightarrow> 32 word \<Rightarrow> 32 word \<Rightarrow> 32 word \<Rightarrow> 32 word \<Rightarrow> 'm \<times> 'k keyring \<Rightarrow> 'm \<times> 'k keyring" where
  "host_keyring_set md sp sl kp kl vp vl st =
     (let (m, kr) = st in (m, snd (keyring_set (host_read md sp sl m) (host_read md kp kl m) (host_read md vp vl m) kr)))"

definition host_keyring_delete :: "'m wasm_module \<Rightarrow> 32 word \<Rightarrow> 32 word \<Rightarrow> 32 word \<Rightarrow> 32 word \<Rightarrow> 'm \<times> 'k keyring \<Rightarrow> 'm \<times> 'k keyring" where
  "host_keyring_delete md sp sl kp kl st =
     (let (m, kr) = st in (m, snd (keyring_delete (host_read md sp sl m) (host_read md kp kl m) kr)))"

text \<open>
  \<open>dec\<close> unmarshals the headers (nothing on failure), \<open>do\<close> is the HTTP client, which may panic; the
  error of the request is dropped. \<open>enc\<close> marshals status and body.
\<close>

definition host_http_request ::
  "(string \<Rightarrow> string gomap) \<Rightarrow> (int \<Rightarrow> string \<Rightarrow> string) \<Rightarrow> (string \<Rightarrow> string \<Rightarrow> string gomap \<Rightarrow> string \<Rightarrow> 'w \<Rightarrow> (int \<times> string \<times> go_err option) go_ret \<times> 'w)
     \<Rightarrow> 'm wasm_module \<Rightarrow> 32 word \<Rightarrow> 32 word \<Rightarrow> 32 word \<Rightarrow> 32 word \<Rightarrow> 32 word \<Rightarrow> 32 word \<Rightarrow> 32 word \<Rightarrow> 32 word
     \<Rightarrow> 'm \<times> 'w \<Rightarrow> 64 word go_ret \<times> 'm \<times> 'w" where
  "host_http_request dec enc transmit md mp ml up ul hp hl bp bl st =
     (let (m, w) = st;
          hraw = host_read md hp hl m;
          headers = (if hraw \<noteq> '''' then dec hraw else []) in
      case transmit (host_read md mp ml m) (host_read md up ul m) headers (host_read md bp bl m) w of
        (Panics p, w) \<Rightarrow> (Panics p, m, w)
      | (Returns (status, body, err), w) \<Rightarrow> (let (r, m) = host_write md (enc status body) m in (Returns r, m, w)))"

datatype log_level = LogInfo | LogWarn | LogError

definition log_prefix :: "log_level \<Rightarrow> string" where
  "log_prefix l = (case l of LogInfo \<Rightarrow> ''[plugin] '' | LogWarn \<Rightarrow> ''[plugin] WARN: '' | LogError \<Rightarrow> ''[plugin] ERROR: '')"

definition host_log :: "log_level \<Rightarrow> 'm wasm_module \<Rightarrow> 32 word \<Rightarrow> 32 word \<Rightarrow> 'm \<times> string list \<Rightarrow> 'm \<times> string list" where
  "host_log l md ptr len st = (let (m, out) = st in (m, out @ [log_prefix l @ host_read md ptr len m]))"

section \<open>Start of the program (main.go)\<close>

text \<open>
  \<^verbatim>\<open>defaultHTTPClient.Do\<close>: the error of \<^verbatim>\<open>NewRequest\<close> is dropped, and a request that could not be made
  is nil: the headers are set on it, and the client is given it.
\<close>

definition http_do ::
  "(string \<Rightarrow> string \<Rightarrow> string \<Rightarrow> 'r option) \<Rightarrow> ('r \<Rightarrow> string gomap \<Rightarrow> 'w \<Rightarrow> (go_err + int \<times> string) \<times> 'w) \<Rightarrow> string \<Rightarrow> string \<Rightarrow> string gomap \<Rightarrow> string \<Rightarrow> 'w
     \<Rightarrow> (int \<times> string \<times> go_err option) go_ret \<times> 'w" where
  "http_do new_request transmit method url headers body w =
     (case new_request method url body of
        None \<Rightarrow> (Panics nil_deref, w)
      | Some r \<Rightarrow>
          (case transmit r headers w of
             (Inl e, w) \<Rightarrow> (Returns (0, '''', Some e), w)
           | (Inr (status, resp), w) \<Rightarrow> (Returns (status, resp, None), w)))"

record 'm cli_state =
  cs_settings :: string
  cs_registry :: "'m wasm_module gomap"
  cs_commands :: "command_def list"
  cs_hub :: "'m wasm_module list"
  cs_mem :: 'm

record 'm cli_env =
  ce_files :: os_files
  ce_instantiate :: "'m instantiate"
  ce_meta :: "string \<Rightarrow> go_err + cli_meta"
  ce_commands :: "string \<Rightarrow> go_err + command_def list"

definition route_observers :: "cli_meta \<Rightarrow> 'm wasm_module \<Rightarrow> 'm cli_state \<Rightarrow> 'm cli_state" where
  "route_observers meta md s = (if meta_is meta ''observers'' then s\<lparr>cs_hub := cs_hub s @ [md]\<rparr> else s)"

definition route_commands :: "'m cli_env \<Rightarrow> cli_meta \<Rightarrow> 'm wasm_module \<Rightarrow> 'm cli_state \<Rightarrow> 'm cli_state" where
  "route_commands e meta md s =
     (if \<not> meta_is meta ''commands'' then route_observers meta md s
      else case read_commands (ce_commands e) md (cs_registry s) (cs_mem s) of
        (Inl err, reg, m) \<Rightarrow> s\<lparr>cs_mem := m\<rparr>
      | (Inr cmds, reg, m) \<Rightarrow>
          route_observers meta md (s\<lparr>cs_registry := reg, cs_commands := cs_commands s @ cmds, cs_mem := m\<rparr>))"

definition route_settings :: "'m cli_env \<Rightarrow> cli_meta \<Rightarrow> 'm wasm_module \<Rightarrow> 'm cli_state \<Rightarrow> 'm cli_state" where
  "route_settings e meta md s =
     (if \<not> meta_is meta ''settings'' then route_commands e meta md s
      else case call_init md (cs_settings s) (cs_mem s) of
        (Inl err, m) \<Rightarrow> s\<lparr>cs_mem := m\<rparr>
      | (Inr merged, m) \<Rightarrow> route_commands e meta md (s\<lparr>cs_settings := merged, cs_mem := m\<rparr>))"

definition load_plugin :: "'m cli_env \<Rightarrow> string \<Rightarrow> 'm cli_state \<Rightarrow> 'm cli_state" where
  "load_plugin e f s =
     (case read_file (ce_files e) f of
        Inl c \<Rightarrow> s
      | Inr bytes \<Rightarrow>
          (case instantiate_cli (ce_instantiate e) (ce_meta e) bytes f (cs_mem s) of
             (Inl err, m) \<Rightarrow> s\<lparr>cs_mem := m\<rparr>
           | (Inr (md, meta), m) \<Rightarrow> route_settings e meta md (s\<lparr>cs_mem := m\<rparr>)))"

definition load_path :: "'m cli_env \<Rightarrow> string \<Rightarrow> 'm cli_state \<Rightarrow> 'm cli_state" where
  "load_path e p s =
     (case resolve_wasm_files (ce_files e) p of Inl err \<Rightarrow> s | Inr files \<Rightarrow> fold (load_plugin e) files s)"

text \<open>
  Up to the command tree: the settings file may be missing; the plugin paths are those of the file
  as read, whatever can be decoded of it (\<open>pre\<close>). \<^term>\<open>Inl\<close> is \<^verbatim>\<open>log.Fatalf\<close>.
\<close>

definition cli_load ::
  "'m cli_env \<Rightarrow> string \<Rightarrow> go_err + string \<Rightarrow> string \<Rightarrow> (string \<Rightarrow> cli_config) \<Rightarrow> (string \<Rightarrow> go_err + cli_config) \<Rightarrow> 'm
     \<Rightarrow> string + cli_config \<times> 'm cli_state" where
  "cli_load e env home plugins pre dec m =
     (case config_path env home of
        Inl err \<Rightarrow> Inl (''config path: '' @ err_text err)
      | Inr path \<Rightarrow>
          (case read_file (ce_files e) path of
             Inl CausePermission \<Rightarrow> Inl (''read settings: open '' @ path @ '': '' @ cause_text CausePermission)
           | Inl (CauseOther t) \<Rightarrow> Inl (''read settings: open '' @ path @ '': '' @ t)
           | r \<Rightarrow>
               (let raw = (case r of Inr data \<Rightarrow> data | Inl c \<Rightarrow> '''');
                    paths = (if cfg_plugins (pre raw) \<noteq> [] then cfg_plugins (pre raw) else [plugins]);
                    s = fold (load_path e) paths \<lparr>cs_settings = raw, cs_registry = [], cs_commands = [], cs_hub = [], cs_mem = m\<rparr> in
                case dec (cs_settings s) of
                  Inl err \<Rightarrow> Inl (''parse merged settings: '' @ err_text err)
                | Inr cfg \<Rightarrow> Inr (cfg, s))))"

text \<open>\<^verbatim>\<open>wrapCmd\<close> on the tree of commands; \<open>path\<close> is the path of the command, as \<^verbatim>\<open>CommandPath\<close> gives it.\<close>

datatype 'w command =
  Command string "(string list \<Rightarrow> 'w \<Rightarrow> go_err option \<times> 'w) option" "'w command list"

definition wrap_run ::
  "(string \<Rightarrow> 'w \<Rightarrow> 'w) \<Rightarrow> (string \<Rightarrow> go_err option \<Rightarrow> 'w \<Rightarrow> 'w) \<Rightarrow> string \<Rightarrow> (string list \<Rightarrow> 'w \<Rightarrow> go_err option \<times> 'w) \<Rightarrow> string list \<Rightarrow> 'w
     \<Rightarrow> go_err option \<times> 'w" where
  "wrap_run before after path run args w = (let (err, w) = run args (before path w) in (err, after path err w))"

fun wrap_cmd :: "(string \<Rightarrow> 'w \<Rightarrow> 'w) \<Rightarrow> (string \<Rightarrow> go_err option \<Rightarrow> 'w \<Rightarrow> 'w) \<Rightarrow> string \<Rightarrow> 'w command \<Rightarrow> 'w command" where
  "wrap_cmd before after path (Command n r subs) =
     (let p = (if path = '''' then n else path @ '' '' @ n) in
      Command n (map_option (wrap_run before after p) r) (map (wrap_cmd before after p) subs))"

text \<open>The end of \<^verbatim>\<open>main\<close>: \<^verbatim>\<open>os.Exit(1)\<close> runs no deferred call, so a failure skips the shutdown.\<close>

definition cli_execute :: "'m wasm_module list \<Rightarrow> ('m \<Rightarrow> go_err option \<times> 'm) \<Rightarrow> 'm \<Rightarrow> int \<times> 'm" where
  "cli_execute hub execute m =
     (case execute (on_startup hub m) of (Some e, m) \<Rightarrow> (1, m) | (None, m) \<Rightarrow> (0, on_shutdown hub m))"

definition plugin_run :: "(string list \<Rightarrow> string) \<Rightarrow> 'm wasm_module gomap \<Rightarrow> string \<Rightarrow> string list \<Rightarrow> 'm \<times> string \<Rightarrow> go_err option \<times> 'm \<times> string" where
  "plugin_run marshal reg name args st =
     (case run_command reg name (marshal args) (fst st) of
        (Inl e, m) \<Rightarrow> (Some e, m, snd st) | (Inr out, m) \<Rightarrow> (None, m, snd st @ out))"

section \<open>Models and ACP handler (server/agent.go)\<close>

text \<open>\<open>providers\<close> is the map in the order the range gives it; \<open>upper\<close> and \<open>getenv\<close> are the library's.\<close>

definition build_models ::
  "(string \<Rightarrow> string) \<Rightarrow> (string \<Rightarrow> string) \<Rightarrow> (string \<Rightarrow> string \<Rightarrow> string \<Rightarrow> 'model) \<Rightarrow> (string \<times> provider_config) list \<Rightarrow> (string \<times> string \<times> 'model) list" where
  "build_models upper getenv new providers =
     concat (map (\<lambda>(pid, p). map (\<lambda>mid.
        (mid, pid, new (if pc_api_key p = '''' then getenv (upper pid @ ''_API_KEY'') else pc_api_key p) mid (pc_base_url p))) (pc_models p)) providers)"

definition first_model :: "(string \<times> string \<times> 'model) list \<Rightarrow> 'model option" where
  "first_model ms = (case ms of [] \<Rightarrow> None | (_, _, m) # _ \<Rightarrow> Some m)"

definition first_text :: "string list \<Rightarrow> string" where
  "first_text blocks = (case filter (\<lambda>b. b \<noteq> '''') blocks of [] \<Rightarrow> '''' | b # _ \<Rightarrow> b)"

text \<open>The events sent for an event of the run, and the answer that ends the prompt, if it does.\<close>

definition cli_events :: "stream_event \<Rightarrow> agent_event list" where
  "cli_events evt =
     (case evt of
        StreamTextDelta t \<Rightarrow> [SendMessage t]
      | StreamToolCall m \<Rightarrow>
          (case msg_tool_calls m of
             [] \<Rightarrow> []
           | tc # _ \<Rightarrow> [SendToolCall \<lparr>te_id = tc_id tc, te_title = tc_name tc, te_input = Some (''map[args:'' @ tc_args tc @ '']''),
               te_status = ''in_progress'', te_output = None\<rparr>])
      | StreamToolResult m \<Rightarrow>
          [SendToolCall \<lparr>te_id = msg_tool_call_id m, te_title = '''', te_input = None, te_status = ''completed'',
             te_output = Some (''map[result:'' @ msg_content m @ '']'')\<rparr>]
      | _ \<Rightarrow> [])"

definition cli_answer :: "stream_event \<Rightarrow> (go_err + string) option" where
  "cli_answer evt = (case evt of StreamError e \<Rightarrow> Some (Inl e) | StreamAborted e \<Rightarrow> Some (Inr ''cancelled'') | _ \<Rightarrow> None)"

fun cli_prompt_loop :: "stream_event list \<Rightarrow> agent_event list \<times> (go_err + string)" where
  "cli_prompt_loop [] = ([], Inr ''end_turn'')"
| "cli_prompt_loop (evt # evts) =
     (case cli_answer evt of
        Some r \<Rightarrow> ([], r)
      | None \<Rightarrow> (let (sent, r) = cli_prompt_loop evts in (cli_events evt @ sent, r)))"

fun send_events :: "(agent_event \<Rightarrow> 'w \<Rightarrow> go_err option \<times> 'w) \<Rightarrow> agent_event list \<Rightarrow> 'w \<Rightarrow> 'w" where
  "send_events transmit [] w = w"
| "send_events transmit (e # es) w = send_events transmit es (snd (transmit e w))"

definition cli_on_prompt ::
  "(string \<Rightarrow> message \<Rightarrow> 'w \<Rightarrow> stream_event list \<times> 'w) \<Rightarrow> prompt_request \<Rightarrow> (agent_event \<Rightarrow> 'w \<Rightarrow> go_err option \<times> 'w) \<Rightarrow> 'w \<Rightarrow> (go_err + string option) \<times> 'w" where
  "cli_on_prompt stream q transmit w =
     (let inp = first_text (pq_blocks q) in
      if inp = '''' then (Inl (ErrText ''no text in prompt''), w)
      else
        let (evts, w) = stream (pq_session q) (user_message inp) w; (sent, r) = cli_prompt_loop evts in
        (map_sum id Some r, send_events transmit sent w))"

text \<open>Every session gets the id \<^verbatim>\<open>acp_1\<close>.\<close>

definition cli_acp_handler :: "(string \<Rightarrow> message \<Rightarrow> 'w \<Rightarrow> stream_event list \<times> 'w) \<Rightarrow> 'w agent_handler" where
  "cli_acp_handler stream =
     \<lparr>ah_initialize = \<lambda>q w. (Inr (Some \<lparr>ir_version = 1, ir_name = ''openagent-acp'', ir_agent_version = ''1.0.0'',
        ir_caps = \<lparr>ac_load = False, ac_mcp = \<lparr>mc_acp = False, mc_http = False, mc_sse = False\<rparr>,
          ac_prompt = \<lparr>pc_image = False, pc_audio = False, pc_context = False\<rparr>, ac_session = \<lparr>sc_list = False, sc_delete = False, sc_resume = False, sc_close = False\<rparr>\<rparr>\<rparr>), w),
      ah_new_session = \<lambda>q w. (Inr (Some \<lparr>nr_session = ''acp_1'', nr_options = [], nr_modes = None\<rparr>), w),
      ah_prompt = cli_on_prompt stream,
      ah_cancel = \<lambda>sid w. (None, w),
      ah_load = \<lambda>q w. (None, w),
      ah_list = \<lambda>q w. (Inr (Some \<lparr>sr_next = None, sr_sessions = []\<rparr>), w),
      ah_delete = \<lambda>sid w. (None, w),
      ah_close = \<lambda>sid w. (None, w)\<rparr>"

section \<open>Properties\<close>

text \<open>What a store of secrets promises, for the services of \<open>ok\<close>: a map in which the empty text is no entry.\<close>

locale secret_store =
  fixes get :: "string \<Rightarrow> string \<Rightarrow> 's \<Rightarrow> string"
    and put :: "string \<Rightarrow> string \<Rightarrow> string \<Rightarrow> 's \<Rightarrow> 's"
    and del :: "string \<Rightarrow> string \<Rightarrow> 's \<Rightarrow> 's"
    and ok :: "string \<Rightarrow> bool"
  assumes get_put: "ok s \<Longrightarrow> ok s' \<Longrightarrow> get s k (put s' k' v st) = (if s = s' \<and> k = k' then v else get s k st)"
    and get_del: "ok s \<Longrightarrow> ok s' \<Longrightarrow> get s k (del s' k' st) = (if s = s' \<and> k = k' then '''' else get s k st)"
begin

text \<open>A call sets a value or deletes it.\<close>

definition perform :: "(string \<times> string \<times> string option) list \<Rightarrow> 's \<Rightarrow> 's" where
  "perform cs st = fold (\<lambda>(s, k, v). case v of None \<Rightarrow> del s k | Some x \<Rightarrow> put s k x) cs st"

lemma get_after_calls:
  assumes "ok s" "list_all (\<lambda>c. ok (fst c)) cs"
  shows "get s k (perform cs st) =
    fold (\<lambda>(s', k', v) old. if s = s' \<and> k = k' then (case v of None \<Rightarrow> '''' | Some x \<Rightarrow> x) else old) cs (get s k st)"
  using assms(2)
proof (induction cs arbitrary: st)
  case (Cons c cs)
  obtain a b v where c: "c = (a, b, v)" by (cases c)
  then have "ok a" "list_all (\<lambda>c. ok (fst c)) cs" using Cons.prems by simp_all
  then show ?case using Cons.IH assms(1) by (cases v) (simp_all add: c perform_def get_put get_del)
qed (simp add: perform_def)

end

definition slash_free :: "string \<Rightarrow> bool" where
  "slash_free s \<longleftrightarrow> CHR ''/'' \<notin> set s"

lemma store_key_inject: "slash_free s \<Longrightarrow> slash_free s' \<Longrightarrow> store_key s k = store_key s' k' \<longleftrightarrow> s = s' \<and> k = k'"
proof (induction s arbitrary: s')
  case Nil
  then show ?case by (cases s') (auto simp: store_key_def slash_free_def)
next
  case (Cons c s)
  then show ?case by (cases s') (auto simp: store_key_def slash_free_def)
qed

interpretation mem_secrets: secret_store store_get store_set store_delete slash_free
  by unfold_locales (auto simp: store_get_def store_set_def store_delete_def store_key_inject update_conv' delete_conv')

text \<open>The last call for a secret decides; \<open>None\<close> deletes it.\<close>

fun last_value :: "string \<Rightarrow> string \<Rightarrow> (string \<times> string \<times> string option) list \<Rightarrow> string \<Rightarrow> string" where
  "last_value s k [] old = old"
| "last_value s k ((s', k', v) # cs) old =
     last_value s k cs (if s = s' \<and> k = k' then (case v of None \<Rightarrow> '''' | Some x \<Rightarrow> x) else old)"

fun store_calls :: "(string \<times> string \<times> string option) list \<Rightarrow> mem_store \<Rightarrow> mem_store" where
  "store_calls [] m = m"
| "store_calls ((s, k, v) # cs) m = store_calls cs (case v of None \<Rightarrow> store_delete s k m | Some x \<Rightarrow> store_set s k x m)"

lemma store_calls_eq: "store_calls cs m = mem_secrets.perform cs m"
  by (induction cs m rule: store_calls.induct) (auto simp: mem_secrets.perform_def split: option.split)

lemma last_value_eq: "last_value s k cs old =
    fold (\<lambda>(s', k', v) old. if s = s' \<and> k = k' then (case v of None \<Rightarrow> '''' | Some x \<Rightarrow> x) else old) cs old"
  by (induction s k cs old rule: last_value.induct) auto

text \<open>
  The keyring in memory answers with the value set last and nothing after a delete, over any calls
  for services whose names hold no slash.
\<close>

theorem mem_store_serves_secrets:
  assumes "slash_free s" "list_all (\<lambda>c. slash_free (fst c)) cs"
  shows "store_get s k (store_calls cs []) = last_value s k cs ''''"
  using mem_secrets.get_after_calls [OF assms, of k "[]"]
  by (simp add: store_calls_eq last_value_eq store_get_def)

theorem mem_store_serves_secrets_witness:
  "store_get ''a'' ''k'' (store_calls [(''a'', ''k'', Some ''v''), (''b'', ''k'', Some ''w''), (''b'', ''k'', None)] []) = ''v''"
  by (subst mem_store_serves_secrets) (simp_all add: slash_free_def)

text \<open>With a slash in the service two secrets share one entry.\<close>

lemma keys_collide: "store_get ''a'' ''b/c'' (store_set ''a/b'' ''c'' v m) = v"
  by (simp add: store_get_def store_set_def store_key_def update_conv' delete_conv')

text \<open>A file that is not there gives settings without their defaults.\<close>

lemma missing_settings_no_defaults: "read_file os p = Inl CauseNotExist \<Longrightarrow> load_config os home dec p = Inr zero_config"
  by (simp add: load_config_def)

lemma load_path_none: "(\<And>files. resolve_wasm_files (ce_files e) p = Inr files \<Longrightarrow> files = []) \<Longrightarrow> load_path e p s = s"
  by (cases "resolve_wasm_files (ce_files e) p") (auto simp: load_path_def)

text \<open>The first start, without a settings file and without plugins: the empty settings do not parse.\<close>

lemma first_start_fails:
  assumes "config_path env home = Inr path" "read_file (ce_files e) path = Inl CauseNotExist"
    and "cfg_plugins (pre '''') = []" "resolve_wasm_files (ce_files e) plugins = Inr []" "dec '''' = Inl err"
  shows "cli_load e env home plugins pre dec m = Inl (''parse merged settings: '' @ err_text err)"
  using assms by (simp add: cli_load_def load_path_def)

text \<open>The plugin that registers a command first keeps it.\<close>

lemma first_owner_keeps_command:
  "map_of (store_commands md cs reg) n =
     (case map_of reg n of Some md' \<Rightarrow> Some md' | None \<Rightarrow> if n \<in> cd_name ` set cs then Some md else None)"
  by (induction md cs reg rule: store_commands.induct) (auto simp: update_conv' split: option.splits)

lemma failure_skips_shutdown: "execute (on_startup hub m) = (Some e, m') \<Longrightarrow> cli_execute hub execute m = (1, m')"
  by (simp add: cli_execute_def)

text \<open>The commands of a tree that can run, each with its path.\<close>

fun runs :: "string \<Rightarrow> 'w command \<Rightarrow> (string \<times> (string list \<Rightarrow> 'w \<Rightarrow> go_err option \<times> 'w)) list" where
  "runs path (Command n r subs) =
     (let p = (if path = '''' then n else path @ '' '' @ n) in
      (case r of None \<Rightarrow> [] | Some f \<Rightarrow> [(p, f)]) @ concat (map (runs p) subs))"

text \<open>Every command of the tree is wrapped, with its own path, and exactly once.\<close>

lemma runs_wrap_cmd: "runs path (wrap_cmd before after path c) = map (\<lambda>(p, f). (p, wrap_run before after p f)) (runs path c)"
proof (induction before after path c rule: wrap_cmd.induct)
  case (1 before after path n r subs)
  then show ?case
    by (simp add: Let_def map_concat comp_def split: option.split cong: map_cong)
qed

subsection \<open>ACP\<close>

definition text_sent :: "agent_event list \<Rightarrow> string" where
  "text_sent es = concat (map (\<lambda>e. case e of SendMessage t \<Rightarrow> t | _ \<Rightarrow> '''') es)"

definition deltas_of :: "stream_event list \<Rightarrow> string" where
  "deltas_of evts = concat (map (\<lambda>e. case e of StreamTextDelta t \<Rightarrow> t | _ \<Rightarrow> '''') evts)"

lemma cli_prompt_loop_prefix:
  "list_all (\<lambda>e. cli_answer e = None) evts \<Longrightarrow>
     cli_prompt_loop (evts @ rest) = (concat (map cli_events evts) @ fst (cli_prompt_loop rest), snd (cli_prompt_loop rest))"
  by (induction evts) (auto split: prod.split)

lemma not_terminal_no_answer: "\<not> is_terminal e \<Longrightarrow> cli_answer e = None"
  by (cases e) (simp_all add: cli_answer_def)

lemma text_sent_append [simp]: "text_sent (a @ b) = text_sent a @ text_sent b"
  by (simp add: text_sent_def)

lemma text_sent_events: "text_sent (concat (map cli_events evts)) = deltas_of evts"
  by (induction evts) (auto simp: deltas_of_def text_sent_def cli_events_def split: stream_event.split list.split)

text \<open>
  The ACP server of the command line reports a run as it went: the client gets all of its text,
  in order, and the end of the run decides the answer: a stop, a cancellation or its error.
\<close>

theorem cli_prompt_reports_run:
  assumes "list_all (\<lambda>e. \<not> is_terminal e) evts" "is_terminal t" "cli_prompt_loop (evts @ [t]) = (sent, r)"
  shows "text_sent sent = deltas_of evts \<and>
    r = (case t of StreamError e \<Rightarrow> Inl e | StreamAborted e \<Rightarrow> Inr ''cancelled'' | _ \<Rightarrow> Inr ''end_turn'')"
proof -
  have "list_all (\<lambda>e. cli_answer e = None) evts" using assms(1) not_terminal_no_answer by (auto simp: list_all_iff)
  from cli_prompt_loop_prefix [OF this, of "[t]"] assms(3)
  have s: "sent = concat (map cli_events evts) @ fst (cli_prompt_loop [t])" "r = snd (cli_prompt_loop [t])" by simp_all
  have "text_sent (fst (cli_prompt_loop [t])) = '''' \<and>
      snd (cli_prompt_loop [t]) = (case t of StreamError e \<Rightarrow> Inl e | StreamAborted e \<Rightarrow> Inr ''cancelled'' | _ \<Rightarrow> Inr ''end_turn'')"
    using assms(2) by (cases t) (simp_all add: cli_answer_def cli_events_def text_sent_def)
  then show ?thesis by (simp add: s text_sent_events)
qed

theorem cli_prompt_reports_run_witness:
  "\<exists>sent r. cli_prompt_loop ([StreamTextDelta ''a'', StreamTextDelta ''b''] @ [StreamDone None]) = (sent, r) \<and> text_sent sent = ''ab'' \<and> r = Inr ''end_turn''"
proof (intro exI conjI)
  let ?p = "cli_prompt_loop ([StreamTextDelta ''a'', StreamTextDelta ''b''] @ [StreamDone None])"
  show "?p = (fst ?p, snd ?p)" by simp
  note * = cli_prompt_reports_run [of "[StreamTextDelta ''a'', StreamTextDelta ''b'']" "StreamDone None" "fst ?p" "snd ?p"]
  show "text_sent (fst ?p) = ''ab''" using * by (simp add: deltas_of_def)
  show "snd ?p = Inr ''end_turn''" using * by simp
qed

end
