(* ===== verification/HttpServer.thy ===== *)
theory HttpServer
  imports ChatHandler TeamHandler PlanHandler ToolApproval CliHost
begin

text \<open>
  The HTTP side of the REST server: the routes that the three handlers register (\<^verbatim>\<open>Register\<close> in
  \<^verbatim>\<open>rest/handler.go\<close>, \<^verbatim>\<open>rest/team.go\<close> and \<^verbatim>\<open>rest/plan_handler.go\<close>), the middleware and the start of the
  server of the command line (\<^verbatim>\<open>cmd/cli/server/agent.go\<close>, the commands of \<^verbatim>\<open>cmd/cli/main.go\<close>), and what
  \<^verbatim>\<open>examples/backend/main.go\<close> adds. \<^verbatim>\<open>http.ServeMux\<close> and \<^verbatim>\<open>http.ResponseWriter\<close> are modelled from their
  documentation: a path is the list of its decoded segments, cleaned, as the mux leaves it after its
  redirections; a path that ends in a slash has an empty last segment.
\<close>

section \<open>Patterns\<close>

datatype segment = Lit string | Wild string | Rest string

record route_pattern =
  rp_method :: string
  rp_segments :: "segment list"

definition parse_segment :: "string \<Rightarrow> segment" where
  "parse_segment s =
     (if \<not> has_prefix s ''{'' then Lit s
      else if s = ''{$}'' then Lit ''''
      else let name = butlast (tl s) in if has_suffix name ''...'' then Rest (trim_suffix name ''...'') else Wild name)"

fun parse_segments :: "string list \<Rightarrow> segment list" where
  "parse_segments [] = []"
| "parse_segments [s] = [if s = '''' then Rest '''' else parse_segment s]"
| "parse_segments (s # ss) = parse_segment s # parse_segments ss"

definition parse_pattern :: "string \<Rightarrow> route_pattern" where
  "parse_pattern s = \<lparr>rp_method = takeWhile (\<lambda>c. c \<noteq> CHR '' '') s,
     rp_segments = parse_segments (tl (split_slash (tl (dropWhile (\<lambda>c. c \<noteq> CHR '' '') s))))\<rparr>"

text \<open>The values of the wildcards if the path matches; the last wildcard may take several segments.\<close>

fun seg_match :: "segment list \<Rightarrow> string list \<Rightarrow> string gomap option" where
  "seg_match [] [] = Some []"
| "seg_match (Rest n # ss) (p # ps) = Some [(n, str_join (p # ps) ''/'')]"
| "seg_match (Lit a # ss) (p # ps) = (if a = p then seg_match ss ps else None)"
| "seg_match (Wild n # ss) (p # ps) = (if p = '''' then None else map_option (Cons (n, p)) (seg_match ss ps))"
| "seg_match _ _ = None"

definition method_match :: "string \<Rightarrow> string \<Rightarrow> bool" where
  "method_match m q = (m = '''' \<or> m = q \<or> m = ''GET'' \<and> q = ''HEAD'')"

text \<open>How the requests of one pattern lie to those of another.\<close>

datatype relation = Same | Wider | Narrower | Apart | Crossing

definition both :: "relation \<Rightarrow> relation \<Rightarrow> relation" where
  "both a b =
     (if a = Apart \<or> b = Apart then Apart else if a = Same \<or> a = b then b else if b = Same then a else Crossing)"

definition method_relation :: "string \<Rightarrow> string \<Rightarrow> relation" where
  "method_relation a b =
     (if a = b then Same else if a = '''' \<or> a = ''GET'' \<and> b = ''HEAD'' then Wider
      else if b = '''' \<or> b = ''GET'' \<and> a = ''HEAD'' then Narrower else Apart)"

fun path_relation :: "segment list \<Rightarrow> segment list \<Rightarrow> relation" where
  "path_relation [] [] = Same"
| "path_relation (Rest a # ss) (Rest b # ts) = Same"
| "path_relation (Rest a # ss) (t # ts) = Wider"
| "path_relation (s # ss) (Rest b # ts) = Narrower"
| "path_relation (Wild a # ss) (Wild b # ts) = path_relation ss ts"
| "path_relation (Wild a # ss) (Lit b # ts) = both (if b = '''' then Apart else Wider) (path_relation ss ts)"
| "path_relation (Lit a # ss) (Wild b # ts) = both (if a = '''' then Apart else Narrower) (path_relation ss ts)"
| "path_relation (Lit a # ss) (Lit b # ts) = both (if a = b then Same else Apart) (path_relation ss ts)"
| "path_relation _ _ = Apart"

definition pattern_relation :: "route_pattern \<Rightarrow> route_pattern \<Rightarrow> relation" where
  "pattern_relation p q = both (method_relation (rp_method p) (rp_method q)) (path_relation (rp_segments p) (rp_segments q))"

section \<open>ServeMux\<close>

type_synonym 'h mux = "(route_pattern \<times> 'h) list"

text \<open>\<^verbatim>\<open>Handle\<close> panics if the new pattern and an old one share requests and neither is more specific.\<close>

definition mux_handle :: "string \<times> 'h \<Rightarrow> 'h mux \<Rightarrow> 'h mux go_ret" where
  "mux_handle r mx =
     (let p = parse_pattern (fst r) in
      if list_ex (\<lambda>(q, h). pattern_relation p q \<in> {Same, Crossing}) mx
      then Panics (''pattern '' @ go_quote (fst r) @ '' conflicts'') else Returns (mx @ [(p, snd r)]))"

fun mux_handle_all :: "(string \<times> 'h) list \<Rightarrow> 'h mux \<Rightarrow> 'h mux go_ret" where
  "mux_handle_all [] mx = Returns mx"
| "mux_handle_all (r # rs) mx = (case mux_handle r mx of Panics p \<Rightarrow> Panics p | Returns mx \<Rightarrow> mux_handle_all rs mx)"

datatype 'h routed = ToHandler 'h "string gomap" | MethodNotAllowed "string list" | RouteNotFound

definition matching :: "'h mux \<Rightarrow> string \<Rightarrow> string list \<Rightarrow> 'h mux" where
  "matching mx method path = filter (\<lambda>(p, h). method_match (rp_method p) method \<and> seg_match (rp_segments p) path \<noteq> None) mx"

definition dispatch :: "'h mux \<Rightarrow> string \<Rightarrow> string list \<Rightarrow> 'h routed" where
  "dispatch mx method path =
     (let ms = matching mx method path in
      case find (\<lambda>(p, h). list_all (\<lambda>(q, g). q = p \<or> pattern_relation p q = Narrower) ms) ms of
        Some (p, h) \<Rightarrow> ToHandler h (the (seg_match (rp_segments p) path))
      | None \<Rightarrow>
          (case filter (\<lambda>(p, h). seg_match (rp_segments p) path \<noteq> None) mx of
             [] \<Rightarrow> RouteNotFound
           | fits \<Rightarrow> MethodNotAllowed (map (\<lambda>(p, h). rp_method p) fits)))"

section \<open>Routes of the handlers\<close>

datatype surface = Single | TeamSurface | PlanSurface | Server

type_synonym endpoint = "surface \<times> string"

definition chat_routes :: "(string \<times> endpoint) list" where
  "chat_routes = map (map_prod id (Pair Single))
     [(''POST /sessions'', ''handleCreateSession''), (''GET /sessions'', ''handleListSessions''),
      (''GET /sessions/{id}'', ''handleGetSession''), (''PATCH /sessions/{id}'', ''handleUpdateSession''),
      (''GET /sessions/{id}/messages'', ''handleListMessages''), (''DELETE /sessions/{id}'', ''handleDeleteSession''),
      (''POST /sessions/{id}/chat'', ''handleChat''), (''POST /sessions/{id}/approve'', ''handleApprove''),
      (''GET /models'', ''handleListModels'')]"

definition team_routes :: "(string \<times> endpoint) list" where
  "team_routes = map (map_prod id (Pair TeamSurface))
     [(''POST /team/sessions'', ''handleCreateSession''), (''GET /team/sessions'', ''handleListSessions''),
      (''GET /team/sessions/{id}'', ''handleGetSession''), (''GET /team/sessions/{id}/messages'', ''handleListMessages''),
      (''PATCH /team/sessions/{id}'', ''handleUpdateSession''), (''DELETE /team/sessions/{id}'', ''handleDeleteSession''),
      (''POST /team/sessions/{id}/chat'', ''handleChat''), (''POST /team/sessions/{id}/approve'', ''handleApprove''),
      (''GET /team/sessions/{id}/agents'', ''handleListAgents''), (''POST /team/sessions/{id}/agents'', ''handleAddAgent''),
      (''DELETE /team/sessions/{id}/agents'', ''handleRemoveAgent'')]"

definition plan_routes :: "(string \<times> endpoint) list" where
  "plan_routes = map (map_prod id (Pair PlanSurface))
     [(''POST /plan/sessions'', ''handleCreateSession''), (''GET /plan/sessions'', ''handleListSessions''),
      (''GET /plan/sessions/{id}'', ''handleGetSession''), (''GET /plan/sessions/{id}/messages'', ''handlePlanMessages''),
      (''PATCH /plan/sessions/{id}'', ''handleUpdateSession''), (''DELETE /plan/sessions/{id}'', ''handleDeleteSession''),
      (''POST /plan/sessions/{id}/generate'', ''handleGenerate''), (''GET /plan/sessions/{id}/plan'', ''handleGetPlan''),
      (''PUT /plan/sessions/{id}/plan'', ''handleUpdatePlan''), (''POST /plan/sessions/{id}/execute'', ''handleExecute''),
      (''GET /plan/sessions/{id}/events'', ''handleEvents''), (''POST /plan/sessions/{id}/cancel'', ''handleCancel''),
      (''POST /plan/sessions/{id}/steps/{stepID}/retry'', ''handleStepRetry''),
      (''POST /plan/sessions/{id}/replan'', ''handleReplan''), (''POST /plan/sessions/{id}/approve'', ''handleApprove'')]"

definition health_route :: "string \<times> endpoint" where
  "health_route = (''GET /health'', (Server, ''health''))"

text \<open>A server with all three handlers, as \<^verbatim>\<open>examples/backend\<close> registers them.\<close>

definition all_routes :: "(string \<times> endpoint) list" where
  "all_routes = health_route # chat_routes @ team_routes @ plan_routes"

section \<open>Requests and responses\<close>

record http_request =
  hq_method :: string
  hq_path :: "string list"
  hq_values :: "string gomap"

text \<open>
  A \<^verbatim>\<open>ResponseWriter\<close>: the header map, the status and the headers once they are sent, the body, and the
  codes of the calls of \<^verbatim>\<open>WriteHeader\<close>, of which only the first has an effect.
\<close>

record http_writer =
  hw_header :: "string gomap"
  hw_status :: "int option"
  hw_sent :: "string gomap"
  hw_body :: string
  hw_calls :: "int list"

definition new_writer :: http_writer where
  "new_writer = \<lparr>hw_header = [], hw_status = None, hw_sent = [], hw_body = '''', hw_calls = []\<rparr>"

definition set_header :: "string \<Rightarrow> string \<Rightarrow> http_writer \<Rightarrow> http_writer" where
  "set_header k v w = w\<lparr>hw_header := AList.update k v (hw_header w)\<rparr>"

definition send_header :: "int \<Rightarrow> http_writer \<Rightarrow> http_writer" where
  "send_header code w = (case hw_status w of None \<Rightarrow> w\<lparr>hw_status := Some code, hw_sent := hw_header w\<rparr> | Some c \<Rightarrow> w)"

definition write_header :: "int \<Rightarrow> http_writer \<Rightarrow> http_writer" where
  "write_header code w = (send_header code w)\<lparr>hw_calls := hw_calls w @ [code]\<rparr>"

definition body_allowed :: "int \<Rightarrow> bool" where
  "body_allowed code = (\<not> (100 \<le> code \<and> code \<le> 199) \<and> code \<noteq> 204 \<and> code \<noteq> 304)"

definition write_text :: "string \<Rightarrow> http_writer \<Rightarrow> http_writer" where
  "write_text t w =
     (let w = send_header 200 w in
      if body_allowed (the (hw_status w)) then w\<lparr>hw_body := hw_body w @ t\<rparr> else w)"

text \<open>\<^verbatim>\<open>http.Error\<close>.\<close>

definition http_error :: "string \<Rightarrow> int \<Rightarrow> http_writer \<Rightarrow> http_writer" where
  "http_error t code w =
     write_text (t @ nl) (write_header code
       (set_header ''X-Content-Type-Options'' ''nosniff'' (set_header ''Content-Type'' ''text/plain; charset=utf-8''
         (w\<lparr>hw_header := AList.delete ''Content-Length'' (hw_header w)\<rparr>))))"

text \<open>The status that the client sees: without a call it is 200 when the handler returns.\<close>

definition final_status :: "http_writer \<Rightarrow> int" where
  "final_status w = (case hw_status w of None \<Rightarrow> 200 | Some c \<Rightarrow> c)"

type_synonym 'w http_handler = "http_request \<Rightarrow> http_writer \<times> 'w \<Rightarrow> unit go_ret \<times> http_writer \<times> 'w"

text \<open>The mux as a handler: \<open>call\<close> runs a registered handler, \<open>allow\<close> writes the list of methods.\<close>

definition serve_mux :: "(string list \<Rightarrow> string) \<Rightarrow> ('h \<Rightarrow> 'w http_handler) \<Rightarrow> 'h mux \<Rightarrow> 'w http_handler" where
  "serve_mux allow call mx rq st =
     (case dispatch mx (hq_method rq) (hq_path rq) of
        ToHandler h vs \<Rightarrow> call h (rq\<lparr>hq_values := vs\<rparr>) st
      | MethodNotAllowed ms \<Rightarrow>
          (Returns (), http_error ''Method Not Allowed'' 405 (set_header ''Allow'' (allow ms) (fst st)), snd st)
      | RouteNotFound \<Rightarrow> (Returns (), http_error ''404 page not found'' 404 (fst st), snd st))"

section \<open>Middleware (server/agent.go, examples/backend/main.go)\<close>

definition cors_headers :: "(string \<times> string) list" where
  "cors_headers = [(''Access-Control-Allow-Origin'', ''*''), (''Access-Control-Allow-Methods'', ''GET, POST, PUT, PATCH, DELETE, OPTIONS''),
     (''Access-Control-Allow-Headers'', ''Content-Type, Authorization'')]"

definition cors_with :: "(string \<times> string) list \<Rightarrow> 'w http_handler \<Rightarrow> 'w http_handler" where
  "cors_with hs next rq st =
     (let w = fold (\<lambda>(k, v). set_header k v) hs (fst st) in
      if hq_method rq = ''OPTIONS'' then (Returns (), write_header 204 w, snd st) else next rq (w, snd st))"

definition cors_middleware :: "'w http_handler \<Rightarrow> 'w http_handler" where
  "cors_middleware = cors_with cors_headers"

definition internal_error :: string where
  "internal_error = ''{'' @ dquote @ ''error'' @ dquote @ '':'' @ dquote @ ''internal server error'' @ dquote @ ''}''"

text \<open>The deferred function runs after a panic, whatever has been written. \<open>lg\<close> logs, \<open>trace\<close> prints the value of a panic.\<close>

definition recovery_middleware :: "(string \<Rightarrow> 'w \<Rightarrow> 'w) \<Rightarrow> (string \<Rightarrow> string) \<Rightarrow> 'w http_handler \<Rightarrow> 'w http_handler" where
  "recovery_middleware lg trace next rq st =
     (case next rq st of
        (Panics p, w, u) \<Rightarrow>
          (Returns (), http_error internal_error 500 w, lg (''PANIC '' @ hq_method rq @ '' '' @ path_str (hq_path rq) @ '': '' @ trace p) u)
      | r \<Rightarrow> r)"

definition with_middleware :: "(string \<Rightarrow> 'w \<Rightarrow> 'w) \<Rightarrow> 'w http_handler \<Rightarrow> 'w http_handler" where
  "with_middleware lg next = recovery_middleware lg id (cors_middleware next)"

text \<open>
  The logging of the example: its writer keeps the code of the last call of \<^verbatim>\<open>WriteHeader\<close>, and 200
  before the first. A panic passes through without a line. \<open>took\<close> is the time the request took.
\<close>

definition logged_status :: "http_writer \<Rightarrow> int" where
  "logged_status w = (if hw_calls w = [] then 200 else last (hw_calls w))"

definition logging_middleware :: "(string \<Rightarrow> 'w \<Rightarrow> 'w) \<Rightarrow> ('w \<Rightarrow> string) \<Rightarrow> 'w http_handler \<Rightarrow> 'w http_handler" where
  "logging_middleware lg took next rq st =
     (case next rq st of
        (Returns x, w, u) \<Rightarrow>
          (Returns x, w, lg (hq_method rq @ '' '' @ path_str (hq_path rq) @ '' '' @ arrow_sign @ '' '' @ int_str (logged_status w) @
             '' ('' @ took u @ '')'') u)
      | r \<Rightarrow> r)"

text \<open>The middleware of the example; its CORS headers expose the content type, too.\<close>

definition backend_cors :: "'w http_handler \<Rightarrow> 'w http_handler" where
  "backend_cors = cors_with (cors_headers @ [(''Access-Control-Expose-Headers'', ''Content-Type'')])"

definition backend_handler :: "(string \<Rightarrow> 'w \<Rightarrow> 'w) \<Rightarrow> (string \<Rightarrow> string) \<Rightarrow> ('w \<Rightarrow> string) \<Rightarrow> 'w http_handler \<Rightarrow> 'w http_handler" where
  "backend_handler lg stack took mx =
     recovery_middleware lg (\<lambda>p. p @ nl @ stack p) (logging_middleware lg took (backend_cors mx))"

section \<open>Start of the server (server/agent.go)\<close>

text \<open>
  What the server needs from outside; \<open>se_mkdir\<close> makes the directory of a file, \<open>se_tool\<close> makes the tool
  of a name in the sandbox and the working directory.
\<close>

record ('w, 's) server_env =
  se_cwd :: string
  se_mkdir :: "string \<Rightarrow> 'w \<Rightarrow> 'w"
  se_open_memory :: "string \<Rightarrow> 'w \<Rightarrow> (go_err + 'w memory_if) \<times> 'w"
  se_open_store :: "'w \<Rightarrow> (go_err + 's) \<times> 'w"
  se_close_memory :: "'w \<Rightarrow> 'w"
  se_close_store :: "'w \<Rightarrow> 'w"
  se_sandbox :: "string \<Rightarrow> 'w \<Rightarrow> (go_err + native_sandbox) \<times> 'w"
  se_tool :: "native_sandbox \<Rightarrow> string \<Rightarrow> string \<Rightarrow> 'w tool"
  se_log :: "string \<Rightarrow> 'w \<Rightarrow> 'w"

text \<open>\<^verbatim>\<open>filepath.Clean\<close> of a relative path, on its components.\<close>

fun clean_relative :: "string list \<Rightarrow> string list \<Rightarrow> string list" where
  "clean_relative acc [] = rev acc"
| "clean_relative acc (c # cs) =
     (if c = '''' \<or> c = ''.'' then clean_relative acc cs
      else if c = ''..'' \<and> acc \<noteq> [] \<and> hd acc \<noteq> ''..'' then clean_relative (tl acc) cs
      else clean_relative (c # acc) cs)"

text \<open>Beside the settings file; the error of \<^verbatim>\<open>config.Path\<close> is dropped and leaves the empty path.\<close>

definition memory_path :: "go_err + string \<Rightarrow> string" where
  "memory_path cfg =
     (let p = (case cfg of Inl e \<Rightarrow> '''' | Inr p \<Rightarrow> p); cs = butlast (split_slash p) @ [''data'', ''memory.db''] in
      if is_abs p then path_str (clean_comps [] cs) else str_join (clean_relative [] cs) ''/'')"

definition build_memory :: "('w, 's) server_env \<Rightarrow> string \<Rightarrow> 'w \<Rightarrow> (go_err + 'w memory_if \<times> 's) \<times> 'w" where
  "build_memory env path w =
     (case se_open_memory env path (se_mkdir env path w) of
        (Inl e, w) \<Rightarrow> (Inl (ErrWrap ''memory: '' e ''''), w)
      | (Inr mem, w) \<Rightarrow>
          (case se_open_store env w of
             (Inl e, w) \<Rightarrow> (Inl (ErrWrap ''session store: '' e ''''), se_close_memory env w)
           | (Inr st, w) \<Rightarrow> (Inr (mem, st), w)))"

definition build_tools :: "(string \<Rightarrow> 'w tool) \<Rightarrow> string list \<Rightarrow> 'w tool list" where
  "build_tools mk enabled = map mk (filter (\<lambda>n. n \<in> set enabled) [''shell'', ''read'', ''write'', ''ls'', ''grep''])"

definition no_models_warning :: string where
  "no_models_warning = ''WARNING: no models configured '' @ [CHR 0xE2, CHR 0x80, CHR 0x94] @ '' server will start but chat will fail''"

definition assistant :: "'w chat_model option \<Rightarrow> 'w memory_if \<Rightarrow> 'w tool list \<Rightarrow> 'w agent" where
  "assistant primary mem tools = new_agent ''assistant''
     [agent_option.WithModel primary, WithMemory (Some mem), WithInstructions ''You are a helpful assistant.'', WithTools tools, WithMaxTurns 10]"

text \<open>\<open>infos\<close> are the models that \<open>build_models\<close> gives; the store and the memory are closed at the end.\<close>

definition server_run ::
  "('w, 's) server_env \<Rightarrow> go_err + string \<Rightarrow> (string \<times> string \<times> 'w chat_model) list \<Rightarrow> bool
     \<Rightarrow> ('w agent \<Rightarrow> 'w \<Rightarrow> go_err option \<times> 'w) \<Rightarrow> ('w agent \<Rightarrow> 's \<Rightarrow> 'w \<Rightarrow> go_err option \<times> 'w) \<Rightarrow> 'w \<Rightarrow> go_err option \<times> 'w" where
  "server_run env cfg infos acp serve_acp serve_rest w =
     (case build_memory env (memory_path cfg) w of
        (Inl e, w) \<Rightarrow> (Some e, w)
      | (Inr (mem, st), w) \<Rightarrow>
          (let w = (if first_model infos = None then se_log env no_models_warning w else w);
               (sb, w) = se_sandbox env (se_cwd env) w;
               tools = (case sb of Inl e \<Rightarrow> [] | Inr sb \<Rightarrow> build_tools (se_tool env sb (se_cwd env)) [''shell'', ''read'', ''write'', ''ls'', ''grep'']);
               w = (case sb of Inl e \<Rightarrow> se_log env (''WARNING: sandbox unavailable: '' @ err_text e) w | Inr sb \<Rightarrow> w);
               agent = assistant (first_model infos) mem tools;
               (r, w) = (if acp then serve_acp agent w else serve_rest agent st w) in
           (r, se_close_memory env (se_close_store env w))))"

text \<open>
  \<^verbatim>\<open>runREST\<close>: \<open>call\<close> runs an endpoint of the handler, \<open>listen\<close> is \<^verbatim>\<open>ListenAndServe\<close> with the shutdown
  that the context triggers. The janitor of the sessions is left out.
\<close>

definition server_closed :: go_err where "server_closed = ErrText ''http: Server closed''"

definition health_answer :: "http_writer \<Rightarrow> http_writer" where
  "health_answer w = write_text (''{'' @ dquote @ ''status'' @ dquote @ '':'' @ dquote @ ''ok'' @ dquote @ ''}'') (set_header ''Content-Type'' ''application/json'' w)"

definition cli_routes :: "(string \<times> endpoint) list" where
  "cli_routes = chat_routes @ [health_route]"

definition rest_handler :: "'w agent \<Rightarrow> (string \<times> string \<times> 'w chat_model) list \<Rightarrow> 'w chat_handler" where
  "rest_handler agent infos = fold (\<lambda>(mid, provider, m). register_model mid m provider) infos (new_chat_handler agent)"

definition run_rest ::
  "(string \<Rightarrow> 'w \<Rightarrow> 'w) \<Rightarrow> (string list \<Rightarrow> string) \<Rightarrow> ('w chat_handler \<Rightarrow> string \<Rightarrow> 'w http_handler) \<Rightarrow> (string \<Rightarrow> 'w http_handler \<Rightarrow> 'w \<Rightarrow> go_err option \<times> 'w)
     \<Rightarrow> int \<Rightarrow> (string \<times> string \<times> 'w chat_model) list \<Rightarrow> 'w agent \<Rightarrow> 'w \<Rightarrow> go_err option go_ret \<times> 'w" where
  "run_rest lg allow call listen port infos agent w =
     (let h = rest_handler agent infos;
          handle = (\<lambda>ep rq st. if ep = snd health_route then (Returns (), health_answer (fst st), snd st) else call h (snd ep) rq st) in
      case mux_handle_all cli_routes [] of
        Panics p \<Rightarrow> (Panics p, w)
      | Returns mx \<Rightarrow>
          (let addr = '':'' @ int_str port;
               (err, w) = listen addr (with_middleware lg (serve_mux allow handle mx)) (lg (''REST server listening on http://localhost'' @ addr) w) in
           (Returns (if err = Some server_closed then None else err), w)))"

text \<open>\<^verbatim>\<open>runACP\<close>: the server runs on a context of its own, so the signals that the command catches do not end it.\<close>

definition run_acp :: "(string \<Rightarrow> 'w \<Rightarrow> 'w) \<Rightarrow> ('w agent_handler \<Rightarrow> 'w \<Rightarrow> go_err option \<times> 'w) \<Rightarrow> (string \<Rightarrow> message \<Rightarrow> 'w \<Rightarrow> stream_event list \<times> 'w) \<Rightarrow> 'w
    \<Rightarrow> go_err option \<times> 'w" where
  "run_acp lg serve stream w = serve (cli_acp_handler stream) (lg ''ACP server starting on stdio'' w)"

section \<open>Commands (main.go)\<close>

text \<open>The port of the command line goes before that of the settings, if it is positive.\<close>

definition serve_config :: "int \<Rightarrow> cli_config \<Rightarrow> cli_config" where
  "serve_config p cfg = (if 0 < p then cfg\<lparr>cfg_port := p\<rparr> else cfg)"

text \<open>Every command of the keyring opens it anew.\<close>

definition keyring_set_cmd :: "'k keychain \<Rightarrow> 'k \<Rightarrow> string \<Rightarrow> string \<Rightarrow> go_err option \<times> 'k keyring" where
  "keyring_set_cmd kc k key v = keyring_set ''openagent'' key v (open_keyring kc k)"

definition keyring_get_cmd :: "'k keychain \<Rightarrow> 'k \<Rightarrow> string \<Rightarrow> go_err + string" where
  "keyring_get_cmd kc k key =
     (case keyring_get ''openagent'' key (open_keyring kc k) of
        Inl e \<Rightarrow> Inl (ErrWrap ''keyring get: '' e '''')
      | Inr v \<Rightarrow> Inr ((if v = '''' then ''(not found)'' else v) @ nl))"

definition keyring_delete_cmd :: "'k keychain \<Rightarrow> 'k \<Rightarrow> string \<Rightarrow> go_err option \<times> 'k keyring" where
  "keyring_delete_cmd kc k key = (None, snd (keyring_delete ''openagent'' key (open_keyring kc k)))"

text \<open>The tree of commands: those of the plugins, then the own ones.\<close>

definition cli_root ::
  "'w command list \<Rightarrow> (string list \<Rightarrow> 'w \<Rightarrow> go_err option \<times> 'w) \<Rightarrow> (string \<Rightarrow> string list \<Rightarrow> 'w \<Rightarrow> go_err option \<times> 'w) \<Rightarrow> 'w command" where
  "cli_root plugins serve ring = Command ''openagent-cli'' None
     (plugins @ [Command ''serve'' (Some serve) [],
        Command ''keyring'' None (map (\<lambda>n. Command n (Some (ring n)) []) [''set'', ''get'', ''delete''])])"

section \<open>Tools of the example's agents (examples/backend/main.go)\<close>

definition tools_without :: "'w tool list \<Rightarrow> string list \<Rightarrow> 'w tool list" where
  "tools_without all names = filter (\<lambda>t. fd_name (t_def t) \<notin> set names) all"

definition read_only_tools :: "'w tool list \<Rightarrow> 'w tool list" where
  "read_only_tools all = tools_without all [''shell'', ''write'']"

section \<open>Routing\<close>

definition mux_of :: "(string \<times> 'h) list \<Rightarrow> 'h mux" where
  "mux_of rs = map (\<lambda>(s, h). (parse_pattern s, h)) rs"

















section \<open>What the middleware and the start guarantee\<close>

text \<open>A request is always answered, a panic never leaves the server, and a preflight request reaches no handler.\<close>

lemma middleware_returns: "fst (with_middleware lg next rq st) = Returns ()"
  by (auto simp: with_middleware_def recovery_middleware_def split: prod.splits go_ret.splits)

lemma preflight_answered:
  "hq_method rq = ''OPTIONS'' \<Longrightarrow> with_middleware lg next rq (new_writer, u) = with_middleware lg other rq (new_writer, u) \<and>
    final_status (fst (snd (with_middleware lg next rq (new_writer, u)))) = 204"
  by (simp add: with_middleware_def recovery_middleware_def cors_middleware_def cors_with_def cors_headers_def set_header_def
      new_writer_def write_header_def send_header_def final_status_def)

text \<open>
  A panic before the answer has begun gives the status 500 and the error, typed as plain text. Once
  it has begun, its status stays, and the error is added to its body.
\<close>

lemma panic_before_answer:
  assumes "cors_middleware next rq st = (Panics p, w, u)" "hw_status w = None"
  shows "\<exists>w'. with_middleware lg next rq st = (Returns (), w', lg (''PANIC '' @ hq_method rq @ '' '' @ path_str (hq_path rq) @ '': '' @ p) u) \<and>
    final_status w' = 500 \<and> hw_body w' = hw_body w @ internal_error @ nl \<and> map_of (hw_sent w') ''Content-Type'' = Some ''text/plain; charset=utf-8''"
  using assms by (simp add: with_middleware_def recovery_middleware_def http_error_def write_header_def send_header_def write_text_def
      set_header_def final_status_def body_allowed_def update_conv)

lemma panic_within_answer:
  assumes "cors_middleware next rq st = (Panics p, w, u)" "hw_status w = Some 200"
  shows "\<exists>w' u'. with_middleware lg next rq st = (Returns (), w', u') \<and> final_status w' = 200 \<and> hw_body w' = hw_body w @ internal_error @ nl"
  using assms by (simp add: with_middleware_def recovery_middleware_def http_error_def write_header_def send_header_def write_text_def
      set_header_def final_status_def body_allowed_def)

text \<open>The log of the example shows the last code, not the one that was sent, and no line for a panic.\<close>

lemma logged_status_differs:
  "final_status (http_error ''late'' 500 (write_text ''x'' new_writer)) = 200 \<and>
   logged_status (http_error ''late'' 500 (write_text ''x'' new_writer)) = 500"
  by (simp add: http_error_def write_text_def write_header_def send_header_def set_header_def new_writer_def final_status_def logged_status_def
      body_allowed_def)

lemma panic_not_logged: "next rq st = (Panics p, w, u) \<Longrightarrow> logging_middleware lg took next rq st = (Panics p, w, u)"
  by (simp add: logging_middleware_def)

text \<open>
  The pages of the frontend are registered under two patterns for the same requests: with a frontend
  the example panics when it starts.
\<close>

lemma frontend_panics:
  "case mux_handle_all (all_routes @ [(''GET /'', (Server, ''index'')), (''GET /{path...}'', (Server, ''file''))]) [] of
     Panics p \<Rightarrow> True | Returns mx \<Rightarrow> False"
  by code_simp

text \<open>The server of the command line registers, and its routes are apart like those of all handlers.\<close>

lemma cli_routes_registered: "mux_handle_all cli_routes [] = Returns (mux_of cli_routes)"
  by code_simp

text \<open>When the store cannot be opened the memory is closed again; otherwise both are closed at the end.\<close>

lemma failed_store_closes_memory:
  assumes "se_open_memory env (memory_path cfg) (se_mkdir env (memory_path cfg) w) = (Inr mem, w1)" "se_open_store env w1 = (Inl e, w2)"
  shows "server_run env cfg infos acp serve_acp serve_rest w = (Some (ErrWrap ''session store: '' e ''''), se_close_memory env w2)"
  using assms by (simp add: server_run_def build_memory_def)

lemma server_closes_stores:
  assumes "build_memory env (memory_path cfg) w = (Inr b, w1)"
  shows "\<exists>w2. snd (server_run env cfg infos acp serve_acp serve_rest w) = se_close_memory env (se_close_store env w2)"
  using assms by (cases b) (auto simp: server_run_def Let_def split: prod.splits)

text \<open>Without a system keychain a credential is gone when the command that stores it ends.\<close>

lemma fallback_keyring_forgets: "open_store kc k = Some e \<Longrightarrow> keyring_get_cmd kc k key = Inr (''(not found)'' @ nl)"
  by (simp add: keyring_get_cmd_def open_keyring_def store_get_def)

text \<open>The reviewer and the analyst of the example get neither the shell nor the write tool.\<close>

lemma read_only_tools_read: "fd_name ` t_def ` set (read_only_tools all) \<inter> {''shell'', ''write''} = {}"
  by (auto simp: read_only_tools_def tools_without_def)

end
