(* ===== verification/IacServer.thy ===== *)
theory IacServer
  imports Agents McpBridge FileTools SkillLoader ToolApproval
begin

text \<open>
  \<^verbatim>\<open>cmd/iac-mcp/main.go\<close> and the tools it uses from \<^verbatim>\<open>examples/iac/tools/terraform.go\<close>: agents for
  infrastructure as code, offered as tools of an MCP server. \<^verbatim>\<open>terraform-exec\<close> is foreign: the record
  \<open>terraform\<close> holds the calls that the code makes. The handle that the tools share is a part of the
  world, as are the files.
\<close>

section \<open>Plans of Terraform\<close>

text \<open>A change of a resource may lack its actions, a variable its value (nil pointers); a value is its printed form.\<close>

record tf_change =
  tf_address :: string
  tf_type :: string
  tf_actions :: "string list option"

record tf_plan =
  tf_changes :: "tf_change list"
  tf_variables :: "(string \<times> string option) list"

record 'w terraform =
  tx_ready :: "'w \<Rightarrow> bool"
  tx_new :: "string \<Rightarrow> 'w \<Rightarrow> go_err option \<times> 'w"
  tx_init :: "'w \<Rightarrow> go_err option \<times> 'w"
  tx_plan :: "'w \<Rightarrow> (go_err + bool) \<times> 'w"
  tx_show :: "'w \<Rightarrow> (go_err + tf_plan option) \<times> 'w"
  tx_apply :: "'w \<Rightarrow> go_err option \<times> 'w"
  tx_output :: "'w \<Rightarrow> (go_err + string) \<times> 'w"
  tx_destroy :: "'w \<Rightarrow> go_err option \<times> 'w"

text \<open>
  The tool: \<open>tx_new\<close> makes the handle of a directory and, if that succeeds, makes \<open>tx_ready\<close> true;
  \<open>tx_output\<close> gives the outputs as indented JSON.
\<close>

record 'w terraform_tool =
  tt_work_dir :: string
  tt_dry :: bool
  tt_tf :: "'w terraform"
  tt_disk :: "'w disk"

definition tf_dir :: "'w terraform_tool \<Rightarrow> string" where
  "tf_dir t = join_path (tt_work_dir t) ''terraform''"

definition ensure_tf :: "'w terraform_tool \<Rightarrow> 'w \<Rightarrow> go_err option \<times> 'w" where
  "ensure_tf t w =
     (if tx_ready (tt_tf t) w then (None, w)
      else case tx_new (tt_tf t) (tf_dir t) w of
        (Some e, w) \<Rightarrow> (Some (ErrWrap ''terraform not found: '' e ''''), w)
      | (None, w) \<Rightarrow> (None, w))"

section \<open>Formatting of a plan\<close>

text \<open>How often an action occurs in the changes.\<close>

definition count_action :: "string \<Rightarrow> string list list \<Rightarrow> nat" where
  "count_action a cs = length (filter (\<lambda>b. b = a) (concat cs))"

definition count_line :: "string \<Rightarrow> string \<Rightarrow> nat \<Rightarrow> string" where
  "count_line sign what n = (if 0 < n then ''  '' @ sign @ '' '' @ nat_str n @ '' '' @ what @ nl else '''')"

definition change_line :: "tf_change \<Rightarrow> string list \<Rightarrow> string" where
  "change_line c acts =
     (if acts = [''no-op''] then ''''
      else ''  ['' @ str_join acts ''/'' @ ''] '' @ tf_address c @ '' ('' @ tf_type c @ '')'' @ nl)"

definition variable_lines :: "(string \<times> string option) list \<Rightarrow> string go_ret" where
  "variable_lines vs =
     (if vs = [] then Returns ''''
      else if list_ex (\<lambda>(k, v). v = None) vs then Panics nil_deref
      else Returns (nl @ ''Variables:'' @ nl @ concat (map (\<lambda>(k, v). ''  '' @ k @ '' = '' @ the v @ nl) vs)))"

text \<open>The variables come in the order in which the range gives them. Reading the actions of a nil change panics.\<close>

definition format_plan :: "tf_plan option \<Rightarrow> string go_ret" where
  "format_plan plan =
     (case plan of
        None \<Rightarrow> Returns ''''
      | Some p \<Rightarrow>
          if tf_changes p = [] then Returns (''No resource changes.'' @ nl)
          else if list_ex (\<lambda>c. tf_actions c = None) (tf_changes p) then Panics nil_deref
          else
            let acts = map (\<lambda>c. the (tf_actions c)) (tf_changes p) in
            case variable_lines (tf_variables p) of
              Panics q \<Rightarrow> Panics q
            | Returns vars \<Rightarrow> Returns
                (count_line ''+'' ''to create'' (count_action ''create'' acts) @
                 count_line ''~'' ''to update'' (count_action ''update'' acts) @
                 count_line ''-'' ''to delete'' (count_action ''delete'' acts) @
                 count_line [CHR 0xC2, CHR 0xB7] ''unchanged'' (count_action ''no-op'' acts) @
                 nl @ ''Resource details:'' @ nl @
                 concat (map (\<lambda>c. change_line c (the (tf_actions c))) (tf_changes p)) @ vars))"

section \<open>Dry runs\<close>

text \<open>\<^verbatim>\<open>filepath.Glob\<close> of the pattern \<^verbatim>\<open>dir/*.tf\<close>: the names it finds; \<open>expand\<close> globs a directory that is a pattern itself.\<close>

definition has_meta :: "string \<Rightarrow> bool" where
  "has_meta p = list_ex (\<lambda>c. c \<in> {CHR ''*'', CHR ''?'', CHR ''['', CHR 0x5C}) p"

definition tf_names :: "os_files \<Rightarrow> string \<Rightarrow> string list" where
  "tf_names os dir =
     (case eval_links (of_fs os) max_links [] (comps_of dir) of
        Resolved d \<Rightarrow>
          if node_at (of_fs os) d = Some FDir then filter (\<lambda>n. has_suffix n ''.tf'') (map fst (dir_entries (of_fs os) d)) else []
      | _ \<Rightarrow> [])"

definition glob_tf :: "(string \<Rightarrow> string list) \<Rightarrow> os_files \<Rightarrow> string \<Rightarrow> string list" where
  "glob_tf expand os dir = concat (map (tf_names os) (if has_meta dir then expand dir else [dir]))"

definition simulated_plan :: "(string \<Rightarrow> string list) \<Rightarrow> 'w terraform_tool \<Rightarrow> 'w \<Rightarrow> string" where
  "simulated_plan expand t w =
     (let files = glob_tf expand (dk_get (tt_disk t) w) (tf_dir t) in
      if files = [] then ''[DRY RUN] No .tf files found.'' @ nl
      else ''[DRY RUN] '' @ nat_str (length files) @ '' .tf files.'' @ nl @ nl @ ''Plan: 3 to add, 0 to change, 0 to destroy.'' @ nl @ nl @
        ''Resources:'' @ nl @
        concat (map (\<lambda>f. ''  + '' @ trim_suffix f ''.tf'' @ nl) (filter (\<lambda>f. f \<noteq> ''provider.tf'') files)))"

definition simulated_output :: string where
  "simulated_output =
     ''{'' @ nl @ ''  '' @ dquote @ ''web_server_public_ip'' @ dquote @ '': {'' @ dquote @ ''value'' @ dquote @ '': '' @ dquote @
     ''123.60.xxx.xxx'' @ dquote @ ''},'' @ nl @ ''  '' @ dquote @ ''rds_private_ip'' @ dquote @ '': {'' @ dquote @ ''value'' @
     dquote @ '': '' @ dquote @ ''192.168.1.xxx'' @ dquote @ ''},'' @ nl @ ''  '' @ dquote @ ''rds_port'' @ dquote @ '': {'' @
     dquote @ ''value'' @ dquote @ '': 5432},'' @ nl @ ''  '' @ dquote @ ''obs_bucket_domain'' @ dquote @ '': {'' @ dquote @
     ''value'' @ dquote @ '': '' @ dquote @ ''myapp-assets.obs.cn-north-4.myhuaweicloud.com'' @ dquote @ ''}'' @ nl @ ''}'' @ nl @
     ''[DRY RUN] These are simulated outputs.''"

section \<open>Operations of the tool\<close>

text \<open>A call of Terraform after the handle is there; \<open>answer\<close> is the answer of a success.\<close>

definition tf_call :: "'w terraform_tool \<Rightarrow> ('w \<Rightarrow> go_err option \<times> 'w) \<Rightarrow> string \<Rightarrow> string \<Rightarrow> 'w \<Rightarrow> (go_err + string) \<times> 'w" where
  "tf_call t go what answer w =
     (case ensure_tf t w of
        (Some e, w) \<Rightarrow> (Inl e, w)
      | (None, w) \<Rightarrow>
          (case go w of
             (Some e, w) \<Rightarrow> (Inl (ErrWrap (''terraform '' @ what @ '': '') e ''''), w)
           | (None, w) \<Rightarrow> (Inr answer, w)))"

definition terraform_init :: "'w terraform_tool \<Rightarrow> 'w \<Rightarrow> (go_err + string) \<times> 'w" where
  "terraform_init t w =
     (if tt_dry t then (Inr (''[DRY RUN] terraform init '' @ [CHR 0xE2] @ [CHR 0x80] @ [CHR 0x94] @
     '' would download providers and initialize working directory''), w)
      else tf_call t (tx_init (tt_tf t)) ''init'' (''Terraform has been successfully initialized.'') w)"

definition terraform_apply :: "'w terraform_tool \<Rightarrow> 'w \<Rightarrow> (go_err + string) \<times> 'w" where
  "terraform_apply t w =
     (if tt_dry t then (Inr (''[DRY RUN] terraform apply '' @ [CHR 0xE2] @ [CHR 0x80] @ [CHR 0x94] @ '' would create/modify cloud resources per the plan''), w)
      else tf_call t (tx_apply (tt_tf t)) ''apply'' (''Apply complete. Run terraform_output to get endpoints.'') w)"

definition terraform_destroy :: "'w terraform_tool \<Rightarrow> 'w \<Rightarrow> (go_err + string) \<times> 'w" where
  "terraform_destroy t w =
     (if tt_dry t then (Inr (''[DRY RUN] terraform destroy '' @ [CHR 0xE2] @ [CHR 0x80] @ [CHR 0x94] @ '' would destroy all resources''), w)
      else tf_call t (tx_destroy (tt_tf t)) ''destroy'' (''Destroy complete. All resources removed.'') w)"

definition terraform_output :: "'w terraform_tool \<Rightarrow> 'w \<Rightarrow> (go_err + string) \<times> 'w" where
  "terraform_output t w =
     (if tt_dry t then (Inr simulated_output, w)
      else case ensure_tf t w of
        (Some e, w) \<Rightarrow> (Inl e, w)
      | (None, w) \<Rightarrow>
          (case tx_output (tt_tf t) w of
             (Inl e, w) \<Rightarrow> (Inl (ErrWrap ''terraform output: '' e ''''), w)
           | (Inr out, w) \<Rightarrow> (Inr out, w)))"

definition terraform_plan :: "(string \<Rightarrow> string list) \<Rightarrow> 'w terraform_tool \<Rightarrow> 'w \<Rightarrow> (go_err + string) go_ret \<times> 'w" where
  "terraform_plan expand t w =
     (if tt_dry t then (Returns (Inr (simulated_plan expand t w)), w)
      else case ensure_tf t w of
        (Some e, w) \<Rightarrow> (Returns (Inl e), w)
      | (None, w) \<Rightarrow>
          (case tx_plan (tt_tf t) w of
             (Inl e, w) \<Rightarrow> (Returns (Inl (ErrWrap ''terraform plan: '' e '''')), w)
           | (Inr changes, w) \<Rightarrow>
               (let head = (if \<not> changes then ''No changes. Your infrastructure matches the configuration.'' @ nl
                            else ''Plan: changes detected.'' @ nl @ nl) in
                case tx_show (tt_tf t) w of
                  (Inl e, w) \<Rightarrow> (Returns (Inr (head @ ''(structured plan details unavailable)'' @ nl)), w)
                | (Inr plan, w) \<Rightarrow>
                    (case format_plan plan of Panics p \<Rightarrow> Panics p | Returns s \<Rightarrow> Returns (Inr (head @ s)), w))))"

text \<open>The rule that the tool has for its own approval; the tools below do not expose it.\<close>

definition tf_self_approve :: "string \<Rightarrow> bool" where
  "tf_self_approve name = (name \<in> {''terraform_init'', ''terraform_plan'', ''terraform_output''})"

section \<open>The tools of an agent\<close>

definition empty_schema :: string where
  "empty_schema = ''{'' @ dquote @ ''type'' @ dquote @ '':'' @ dquote @ ''object'' @ dquote @ '','' @ dquote @ ''properties'' @ dquote @ '':{},'' @
     dquote @ ''required'' @ dquote @ '':[]}''"

definition tf_init_def :: function_def where
  "tf_init_def = \<lparr>fd_name = ''terraform_init'', fd_description = ''Initialize a Terraform working directory. Downloads providers and modules. Run this before any other terraform commands.'',
     fd_parameters = empty_schema, fd_end_turn = False\<rparr>"

definition tf_plan_def :: function_def where
  "tf_plan_def = \<lparr>fd_name = ''terraform_plan'', fd_description = ''Generate a Terraform execution plan. Shows what resources will be created, modified, or destroyed. Safe to run '' @
     [CHR 0xE2] @ [CHR 0x80] @ [CHR 0x94] @ '' no changes are applied.'',
     fd_parameters = empty_schema, fd_end_turn = False\<rparr>"

definition tf_apply_def :: function_def where
  "tf_apply_def = \<lparr>fd_name = ''terraform_apply'', fd_description = 
     ''Apply the Terraform execution plan. This CREATES or MODIFIES real cloud resources. Requires approval. Use only after reviewing terraform_plan output.'',
     fd_parameters = empty_schema, fd_end_turn = False\<rparr>"

definition tf_output_def :: function_def where
  "tf_output_def = \<lparr>fd_name = ''terraform_output'', fd_description = ''Get outputs from the applied Terraform state (e.g., public IPs, connection strings).'',
     fd_parameters = empty_schema, fd_end_turn = False\<rparr>"

definition tf_destroy_def :: function_def where
  "tf_destroy_def = \<lparr>fd_name = ''terraform_destroy'', fd_description = ''Destroy all resources managed by this Terraform configuration. DESTRUCTIVE '' @ [CHR 0xE2] @ [CHR 0x80] @ [CHR 0x94] @
     '' requires approval.'',
     fd_parameters = empty_schema, fd_end_turn = False\<rparr>"

definition tf_tool :: "function_def \<Rightarrow> ('w \<Rightarrow> (go_err + string) go_ret \<times> 'w) \<Rightarrow> 'w tool" where
  "tf_tool def go =
     \<lparr>t_def = def,
      t_execute = \<lambda>ses args w. (case go w of (Panics p, w) \<Rightarrow> (Panics p, w) | (Returns r, w) \<Rightarrow> (Returns (tool_answer r), w)),
      t_stream = None, t_self_approve = None, t_is_agent = False\<rparr>"

definition as_tools :: "(string \<Rightarrow> string list) \<Rightarrow> 'w terraform_tool \<Rightarrow> 'w tool list" where
  "as_tools expand t =
     [tf_tool tf_init_def (\<lambda>w. map_prod Returns id (terraform_init t w)),
      tf_tool tf_plan_def (terraform_plan expand t),
      tf_tool tf_apply_def (\<lambda>w. map_prod Returns id (terraform_apply t w)),
      tf_tool tf_output_def (\<lambda>w. map_prod Returns id (terraform_output t w)),
      tf_tool tf_destroy_def (\<lambda>w. map_prod Returns id (terraform_destroy t w))]"

section \<open>Agents of the server (cmd/iac-mcp/main.go)\<close>

text \<open>The texts of the agents.\<close>

definition iac_intent_parse_description :: string where
  "iac_intent_parse_description =
     
     ''Analyze a deployment goal (natural language or GitHub URL) to infer application runtime, database, cache, storage, CDN, and HTTPS requirements. Takes a goal string; returns a JSON ApplicationProfile with fields: runtime, database, cache, storage, cdn (bool), https (bool), gpu (bool), container, traffic.''"

definition iac_intent_parse_instructions :: string where
  "iac_intent_parse_instructions =
     ''You are an Application Intent Parser. Analyze the deployment request and output a JSON ApplicationProfile.'' @ nl @ nl @
     ''## Inference Rules'' @ nl @ ''- WordPress / blog '' @ [CHR 0xE2] @ [CHR 0x86] @ [CHR 0x92] @
     '' runtime=php, database=mysql, cache=redis, storage=obs, cdn=true, https=true'' @ nl @ ''- Node.js / React '' @ [CHR 0xE2] @
     [CHR 0x86] @ [CHR 0x92] @ '' runtime=nodejs'' @ nl @ ''- Spring Boot / Java '' @ [CHR 0xE2] @ [CHR 0x86] @ [CHR 0x92] @
     '' runtime=java, database=postgres, cache=redis'' @ nl @ ''- '' @ dquote @ ''production'' @ dquote @ '' / '' @ dquote @
     [CHR 0xE9] @ [CHR 0xAB] @ [CHR 0x98] @ [CHR 0xE5] @ [CHR 0x8F] @ [CHR 0xAF] @ [CHR 0xE7] @ [CHR 0x94] @ [CHR 0xA8] @ dquote @
     '' '' @ [CHR 0xE2] @ [CHR 0x86] @ [CHR 0x92] @ '' traffic=high'' @ nl @ ''- '' @ dquote @ ''Docker'' @ dquote @ '' / '' @
     dquote @ ''K8s'' @ dquote @ '' '' @ [CHR 0xE2] @ [CHR 0x86] @ [CHR 0x92] @ '' container=docker or k8s'' @ nl @ nl @
     ''Output ONLY the JSON object. No markdown, no explanation.''"

definition iac_architecture_design_description :: string where
  "iac_architecture_design_description =
     
     ''Design cloud architecture from an ApplicationProfile JSON. Uses pricing and deployment pattern skills. Produces 3 options (A/B/C) with resource lists and monthly cost estimates in RMB. The caller should present all 3 to the user.''"

definition iac_architecture_design_instructions :: string where
  "iac_architecture_design_instructions =
     ''You are a Cloud Architect. Given an ApplicationProfile JSON, design 3 options:'' @ nl @ ''- '' @ [CHR 0xE6] @ [CHR 0x96] @
     [CHR 0xB9] @ [CHR 0xE6] @ [CHR 0xA1] @ [CHR 0x88] @ ''A ('' @ [CHR 0xE6] @ [CHR 0x9C] @ [CHR 0x80] @ [CHR 0xE4] @ [CHR 0xBD] @
     [CHR 0x8E] @ [CHR 0xE6] @ [CHR 0x88] @ [CHR 0x90] @ [CHR 0xE6] @ [CHR 0x9C] @ [CHR 0xAC] @
     ''): Minimum. Smallest flavors, no HA.'' @ nl @ ''- '' @ [CHR 0xE6] @ [CHR 0x96] @ [CHR 0xB9] @ [CHR 0xE6] @ [CHR 0xA1] @
     [CHR 0x88] @ ''B ('' @ [CHR 0xE6] @ [CHR 0x8E] @ [CHR 0xA8] @ [CHR 0xE8] @ [CHR 0x8D] @ [CHR 0x90] @
     ''): Balanced cost/reliability. Standard production.'' @ nl @ ''- '' @ [CHR 0xE6] @ [CHR 0x96] @ [CHR 0xB9] @ [CHR 0xE6] @
     [CHR 0xA1] @ [CHR 0x88] @ ''C ('' @ [CHR 0xE9] @ [CHR 0xAB] @ [CHR 0x98] @ [CHR 0xE5] @ [CHR 0x8F] @ [CHR 0xAF] @ [CHR 0xE7] @
     [CHR 0x94] @ [CHR 0xA8] @ ''): Multi-AZ HA for high traffic.'' @ nl @ nl @ ''Load use_skill('' @ dquote @
     ''deployment-patterns'' @ dquote @ '') for pricing and patterns. Output ONLY a JSON array.''"

definition iac_generate_terraform_description :: string where
  "iac_generate_terraform_description =
     
     ''Generate Terraform .tf files from a chosen architecture plan. Reads module templates from disk, fills template variables with concrete values, and writes the resulting .tf files to the terraform/ directory. Takes the selected architecture option description as input. After writing, runs terraform_init to verify.''"

definition iac_generate_terraform_instructions :: string where
  "iac_generate_terraform_instructions =
     
     ''Read templates/*.tf.tmpl with read_file. Replace all {{ .Name }}, {{ .Flavor }}, etc. placeholders with concrete values from the architecture plan. Write results to terraform/<name>.tf. Run terraform_init to verify.''"

definition iac_review_plan_description :: string where
  "iac_review_plan_description =
     
     ''Review Terraform configurations: run terraform init and plan, then produce a human-readable summary of what resources will be created, estimated monthly cost, risk assessment, and approve/reject recommendation. Safe '' @
     [CHR 0xE2] @ [CHR 0x80] @ [CHR 0x94] @ '' no changes are applied.''"

definition iac_review_plan_instructions :: string where
  "iac_review_plan_instructions =
     
     ''Run terraform_init then terraform_plan. Produce: Resources to Create (list), Estimated Monthly Cost, Risk Assessment, Recommendation (Approve/Reject).''"

definition iac_apply_description :: string where
  "iac_apply_description =
     ''Apply an approved Terraform plan. Creates real cloud resources '' @ [CHR 0xE2] @ [CHR 0x80] @ [CHR 0x94] @
     '' this is DESTRUCTIVE. Only call after the user has reviewed the plan output and explicitly approved.''"

definition iac_apply_instructions :: string where
  "iac_apply_instructions =
     ''Run terraform_apply. Report results: what was created, endpoints, next steps. NEVER apply without explicit approval.''"

definition iac_monitor_description :: string where
  "iac_monitor_description =
     
     ''Post-deployment monitoring. Run terraform output to get connection endpoints, report health status for each resource, and suggest cost/security/performance optimizations.''"

definition iac_monitor_instructions :: string where
  "iac_monitor_instructions =
     ''Run terraform_output. Report endpoints and health status: '' @ [CHR 0xE2] @ [CHR 0x9C] @ [CHR 0x85] @ '' operational, '' @
     [CHR 0xE2] @ [CHR 0x9A] @ [CHR 0xA0] @ [CHR 0xEF] @ [CHR 0xB8] @ [CHR 0x8F] @ '' degraded, '' @ [CHR 0xE2] @ [CHR 0x9D] @
     [CHR 0x8C] @ '' failed. Suggest optimizations with estimated savings.''"

text \<open>The agents in order, by name; the description an entry has is that of its agent.\<close>

definition build_iac_agents :: "'w chat_model \<Rightarrow> 'w tool list \<Rightarrow> 'w tool list \<Rightarrow> 'w skill_loader option \<Rightarrow> 'w agent list" where
  "build_iac_agents mdl tfT file_tools skills =
     [new_agent ''iac_intent_parse''
        [agent_option.WithModel (Some mdl), WithDescription iac_intent_parse_description,
         WithInstructions iac_intent_parse_instructions, WithMaxTurns 1],
      new_agent ''iac_architecture_design''
        [agent_option.WithModel (Some mdl), WithDescription iac_architecture_design_description,
         WithSkillLoader skills, WithInstructions iac_architecture_design_instructions, WithMaxTurns 3],
      new_agent ''iac_generate_terraform''
        [agent_option.WithModel (Some mdl), WithDescription iac_generate_terraform_description,
         WithSkillLoader skills, WithTools (tfT ! 0 # file_tools), WithInstructions iac_generate_terraform_instructions, WithMaxTurns 5],
      new_agent ''iac_review_plan''
        [agent_option.WithModel (Some mdl), WithDescription iac_review_plan_description,
         WithTools [tfT ! 0, tfT ! 1], WithInstructions iac_review_plan_instructions, WithMaxTurns 3],
      new_agent ''iac_apply''
        [agent_option.WithModel (Some mdl), WithDescription iac_apply_description,
         WithTools [tfT ! 2], WithInstructions iac_apply_instructions, WithMaxTurns 2],
      new_agent ''iac_monitor''
        [agent_option.WithModel (Some mdl), WithDescription iac_monitor_description,
         WithTools [tfT ! 3], WithInstructions iac_monitor_instructions, WithMaxTurns 2]]"

text \<open>A tool with another description; what else the tool can do is hidden behind it.\<close>

definition desc_override :: "'w tool \<Rightarrow> string \<Rightarrow> 'w tool" where
  "desc_override t d =
     \<lparr>t_def = (t_def t)\<lparr>fd_description := d\<rparr>, t_execute = t_execute t, t_stream = None, t_self_approve = None, t_is_agent = False\<rparr>"

definition served_tool :: "'w runtime \<Rightarrow> 'w sub_runner \<Rightarrow> (string \<Rightarrow> go_err + string) \<Rightarrow> bool \<Rightarrow> 'w agent \<Rightarrow> 'w tool" where
  "served_tool rt sub dec dry a =
     desc_override (as_tool rt sub dec a) (if dry then ag_description a @ '' [DRY RUN]'' else ag_description a)"

text \<open>The errors of \<^verbatim>\<open>AddTool\<close> are dropped.\<close>

definition serve_agents :: "'w runtime \<Rightarrow> 'w sub_runner \<Rightarrow> (string \<Rightarrow> go_err + string) \<Rightarrow> 'w session \<Rightarrow> bool \<Rightarrow> 'w agent list \<Rightarrow> 'w mcp_registry" where
  "serve_agents rt sub dec ses dry as = fold (\<lambda>a sv. snd (add_mcp_tool ses (served_tool rt sub dec dry a) sv)) as []"

section \<open>Start (cmd/iac-mcp/main.go)\<close>

record iac_settings =
  is_api_key :: string
  is_model :: string
  is_base_url :: string
  is_dry :: bool
  is_workspace :: string

text \<open>The environment; without a key the program exits. \<open>home\<close> is the home directory, empty if there is none.\<close>

definition iac_settings :: "(string \<Rightarrow> string) \<Rightarrow> string \<Rightarrow> string + iac_settings" where
  "iac_settings getenv home =
     (if getenv ''OPENAGENT_API_KEY'' = '''' then Inl ''OPENAGENT_API_KEY not set''
      else Inr \<lparr>is_api_key = getenv ''OPENAGENT_API_KEY'',
        is_model = (if getenv ''OPENAGENT_MODEL'' = '''' then ''claude-sonnet-5'' else getenv ''OPENAGENT_MODEL''),
        is_base_url = (if getenv ''OPENAGENT_BASE_URL'' = '''' then ''https://api.anthropic.com/v1'' else getenv ''OPENAGENT_BASE_URL''),
        is_dry = (getenv ''DRY_RUN'' \<noteq> ''false''),
        is_workspace = (if getenv ''IAC_WORKSPACE'' = '''' then join_path home ''.openagent/iac/workspace'' else getenv ''IAC_WORKSPACE'')\<rparr>)"

text \<open>\<^verbatim>\<open>os.MkdirAll\<close> and \<^verbatim>\<open>os.WriteFile\<close> with their errors dropped.\<close>

definition make_dir :: "string \<Rightarrow> os_files \<Rightarrow> os_files" where
  "make_dir p os = (case mkdir_all (of_fs os) [] (comps_of p) of Inl c \<Rightarrow> os | Inr (fs, d) \<Rightarrow> os\<lparr>of_fs := fs\<rparr>)"

definition put_text :: "string \<Rightarrow> string \<Rightarrow> os_files \<Rightarrow> os_files" where
  "put_text p t os = (case write_file os (of_fs os) (comps_of p) t of Inl c \<Rightarrow> os | Inr fs \<Rightarrow> os\<lparr>of_fs := fs\<rparr>)"

text \<open>\<open>templates\<close> and \<open>skills\<close> are the embedded files: the templates by name, the text of each skill if it has one.\<close>

definition extract_templates :: "(string \<times> string) list \<Rightarrow> string \<Rightarrow> os_files \<Rightarrow> os_files" where
  "extract_templates templates workspace os =
     (let dir = join_path workspace ''templates'' in
      fold (\<lambda>(n, t). put_text (join_path dir n) t) templates (make_dir dir os))"

definition extract_skills :: "(string \<times> string option) list \<Rightarrow> string \<Rightarrow> os_files \<Rightarrow> os_files \<times> string" where
  "extract_skills skills workspace os =
     (let dir = join_path workspace ''skills'' in
      (fold (\<lambda>(n, t) os. case t of None \<Rightarrow> os
           | Some t \<Rightarrow> put_text (join_path (join_path dir n) ''SKILL.md'') t (make_dir (join_path dir n) os)) skills os, dir))"

definition ensure_dir :: "'w terraform_tool \<Rightarrow> os_files \<Rightarrow> os_files" where
  "ensure_dir t = make_dir (tf_dir t)"

text \<open>
  The registry of the server when it starts, and the files. \<open>sandboxed\<close> tells whether a sandbox could
  be made, \<open>files\<close> are the file tools of the workspace, \<open>loader\<close> is the skill loader of a directory.
\<close>

definition iac_start ::
  "'w runtime \<Rightarrow> 'w sub_runner \<Rightarrow> (string \<Rightarrow> go_err + string) \<Rightarrow> 'w session \<Rightarrow> (string \<Rightarrow> string list) \<Rightarrow> 'w terraform \<Rightarrow> 'w disk
     \<Rightarrow> (string \<times> string) list \<Rightarrow> (string \<times> string option) list \<Rightarrow> bool \<Rightarrow> (string \<Rightarrow> 'w tool list) \<Rightarrow> (string \<Rightarrow> 'w skill_loader) \<Rightarrow> 'w chat_model
     \<Rightarrow> iac_settings \<Rightarrow> 'w \<Rightarrow> 'w mcp_registry \<times> 'w" where
  "iac_start rt sub dec ses expand tf dk templates skills sandboxed files loader mdl s w =
     (let ws = is_workspace s;
          (os, dir) = extract_skills skills ws (extract_templates templates ws (make_dir ws (dk_get dk w)));
          t = \<lparr>tt_work_dir = ws, tt_dry = is_dry s, tt_tf = tf, tt_disk = dk\<rparr>;
          agents = build_iac_agents mdl (as_tools expand t) (if sandboxed then files ws else [])
                     (if dir = '''' then None else Some (loader dir)) in
      (serve_agents rt sub dec ses (is_dry s) agents, dk_put dk (ensure_dir t os) w))"

section \<open>Properties\<close>

text \<open>In a dry run no tool of Terraform changes anything or fails.\<close>

lemma dry_run_changes_nothing:
  assumes "tt_dry t" "tool \<in> set (as_tools expand t)"
  shows "\<exists>out. t_execute tool ses args w = (Returns (out, None), w)"
  using assms by (auto simp: as_tools_def tf_tool_def terraform_init_def terraform_plan_def terraform_apply_def terraform_output_def
      terraform_destroy_def tool_answer_def)

text \<open>Which agent has which tool: one applies, none destroys, and none asks an approver.\<close>

lemma tools_of_agents:
  "map (\<lambda>a. (ag_name a, map (\<lambda>t. fd_name (t_def t)) (ag_tools a))) (build_iac_agents mdl (as_tools expand t) files skills) =
     [(''iac_intent_parse'', []), (''iac_architecture_design'', []),
      (''iac_generate_terraform'', ''terraform_init'' # map (\<lambda>t. fd_name (t_def t)) files),
      (''iac_review_plan'', [''terraform_init'', ''terraform_plan'']), (''iac_apply'', [''terraform_apply'']), (''iac_monitor'', [''terraform_output''])]"
  by (simp add: build_iac_agents_def new_agent_def base_agent_def as_tools_def tf_tool_def tf_init_def_def tf_plan_def_def tf_apply_def_def tf_output_def_def)

lemma agents_ask_nobody: "a \<in> set (build_iac_agents mdl tfT files skills) \<Longrightarrow> ag_approver a = None"
  by (auto simp: build_iac_agents_def new_agent_def base_agent_def)

text \<open>All of them are offered, in order, whatever the tools do.\<close>

lemma serve_agents_all:
  "list_all (\<lambda>a. ag_name a \<noteq> '''') as \<Longrightarrow> map (\<lambda>(m, h). mt_name m) (serve_agents rt sub dec ses dry as) = map ag_name as"
proof -
  have name: "fd_name (t_def (as_tool rt sub dec a)) = ag_name a" for a
    by (simp add: as_tool_def sub_agent_tool_def sub_tool_def_def delegate_of_def Let_def)
  let ?f = "\<lambda>a sv. snd (add_mcp_tool ses (served_tool rt sub dec dry a) sv)"
  have "list_all (\<lambda>a. ag_name a \<noteq> '''') as \<Longrightarrow>
      map (\<lambda>(m, h). mt_name m) (fold ?f as sv) = map (\<lambda>(m, h). mt_name m) sv @ map ag_name as" for sv
    by (induction as arbitrary: sv) (simp_all add: add_mcp_tool_def served_tool_def desc_override_def to_mcp_tool_def name)
  then show "list_all (\<lambda>a. ag_name a \<noteq> '''') as \<Longrightarrow> map (\<lambda>(m, h). mt_name m) (serve_agents rt sub dec ses dry as) = map ag_name as"
    by (simp add: serve_agents_def)
qed

text \<open>The rule of self-approval is lost in the wrappers.\<close>

lemma wrappers_hide_approval: "tool \<in> set (as_tools expand t) \<Longrightarrow> t_self_approve tool = None \<and> tf_self_approve ''terraform_plan''"
  by (auto simp: as_tools_def tf_tool_def tf_self_approve_def)

end
