(* ===== verification/Spec2Isabelle.thy ===== *)
theory Spec2Isabelle
  imports PlanApi TeamFacts EventBus LlmGuard ChatHandler TeamHandler PlanFlow AcpRunner
    Tokenizer OpenAi McpBridge ToolApproval HookAdapters Tui CliHost HttpServer IacServer
begin

text \<open>
  Verification of openagent-go, a Go library for LLM agents: the agent loop, teams of agents,
  plan execution, the memory backends, the event bus, the LLM guard, the REST server that offers
  agents, teams and plans over HTTP, the bridges to other programs (ACP, MCP, OpenAI, WASM plugins),
  the tools with their sandbox, and the terminal and command line programs. All file names are under
  \<^verbatim>\<open>src/\<close>.

  \<^bold>\<open>The program and how its parts interact.\<close> An agent (\<^verbatim>\<open>agent.go\<close>, \<^verbatim>\<open>options.go\<close>) is a model with
  tools, a memory, guards, an approver, hooks, an observer and a skill loader. A runner (\<^verbatim>\<open>runner.go\<close>)
  executes one agent: it stores the input, reads the history from the memory, lets the guards see
  the input, builds a prompt, calls the model with retries, executes the tool calls of the answer
  concurrently, screens and stores the results, and goes on until the model answers without calls,
  a tool ends the turn, or the turns are used up. Agents nest: as tools (\<^verbatim>\<open>AsTool\<close>), through the
  built-in sub-agent tool, in a team (\<^verbatim>\<open>team.go\<close>), where a router (\<^verbatim>\<open>router.go\<close>) picks the first member
  and members hand over to each other, and as the agents of the steps of a plan (\<^verbatim>\<open>plan/\<close>), which
  is validated, executed in batches by its dependencies and replanned on failure. The memory
  backends (\<^verbatim>\<open>memory/file\<close>, \<^verbatim>\<open>memory/sqlite\<close>) and the LLM guard (\<^verbatim>\<open>guard/llm\<close>) are providers of
  interfaces the runner uses; the event bus (\<^verbatim>\<open>eventbus/\<close>) carries events to subscribers. The REST
  server (\<^verbatim>\<open>rest/\<close>) keeps a registry of sessions with a cache, and its handlers turn a request into a
  run of an agent, a team or a plan whose events they write as server-sent events. Around these
  parts stand the adapters: a model that calls OpenAI (\<^verbatim>\<open>model/openai\<close>), tools that read, write, search
  and run commands (\<^verbatim>\<open>tool/\<close>) in a sandbox (\<^verbatim>\<open>sandbox/native\<close>), skills read from files (\<^verbatim>\<open>skill/fs\<close>),
  tools from and for MCP (\<^verbatim>\<open>mcp/\<close>), agents served and run over ACP (\<^verbatim>\<open>acp/\<close>, \<^verbatim>\<open>runner/acp\<close>), plugins in
  WebAssembly (\<^verbatim>\<open>plugin/wasm\<close>, \<^verbatim>\<open>sdk/guest\<close>), hooks that log and trace (\<^verbatim>\<open>hooks/\<close>), and three programs
  (\<^verbatim>\<open>cmd/tui\<close>, \<^verbatim>\<open>cmd/cli\<close>, \<^verbatim>\<open>cmd/iac-mcp\<close>).

  \<^bold>\<open>Conventions.\<close> A Go struct is a record, an enumeration or event type a datatype, an error a value
  of \<open>go_err\<close>, \<open>(T, error)\<close> the sum \<open>go_err + T\<close>, a panic the constructor \<open>Panics\<close> of \<open>go_ret\<close>. A Go
  map is an association list with distinct keys (\<open>gomap\<close>); where the code ranges over a map or lets
  goroutines race, the order is a parameter and the theorems hold for every order. Strings are byte
  lists (UTF-8). A Go \<^verbatim>\<open>int\<close> is an \<open>int\<close>: no count of the modelled code comes near 64 bits, except
  the index counter of the file memory, which wraps (\<open>wrap64\<close>); the window \<open>2 * n + offset\<close> that the SQLite
  memory reads would wrap for requests of \<open>2 ^ 62\<close> messages. Foreign code (models, tools, guards,
  the tokenizer, \<^verbatim>\<open>encoding/json\<close>, the clock, the context) is a function argument that threads an
  opaque world \<open>'w\<close>; what a theorem needs of it is a named hypothesis, and the theorem's witness
  instantiates it.

  \<^bold>\<open>Shared.\<close> \<open>Base\<close>: maps, strings, runes, errors. \<open>Messages\<close>: \<^verbatim>\<open>message.go\<close>, \<^verbatim>\<open>model.go\<close>, \<^verbatim>\<open>tool.go\<close>,
  \<^verbatim>\<open>session.go\<close>, \<^verbatim>\<open>memory.go\<close>, \<^verbatim>\<open>prompt.go\<close>, \<^verbatim>\<open>guard.go\<close>, \<^verbatim>\<open>hooks.go\<close>, \<^verbatim>\<open>skill.go\<close>, the types and
  interfaces all parts share.

  \<^bold>\<open>Plans.\<close> \<open>PlanTypes\<close> (\<^verbatim>\<open>plan/types.go\<close>), \<open>PlanValidate\<close> (\<^verbatim>\<open>plan/validate.go\<close>: Kahn's algorithm against
  a relational notion of a well-formed acyclic plan), \<open>PlanDag\<close> (batches and affected steps of
  \<^verbatim>\<open>plan/executor.go\<close> against layers and the transitive closure), \<open>PlanContext\<close> (prompts and truncation),
  \<open>Planner\<close> (\<^verbatim>\<open>plan/planner.go\<close>), \<open>PlanExecutor\<close> and \<open>PlanExec\<close> (the executor, its events and its
  invariants: done means all steps done, no step before its dependencies, attempts and replans
  bounded), \<open>PlanApi\<close> (\<^verbatim>\<open>plan/plan.go\<close>).

  \<^bold>\<open>One agent.\<close> \<open>RunTypes\<close> (the runner's state), \<open>Tokens\<close> (token budget, compaction cut, last-resort
  trimming), \<open>Streaming\<close> (assembly of a streamed answer, retries), \<open>Tools\<close> (approval, execution in an
  arbitrary fair order, built-in tools), \<open>Prompts\<close>, \<open>Runner\<close> (\<^verbatim>\<open>run\<close>), \<open>RunFacts\<close> (what holds of every
  run: one terminal event, every call answered, what the memory is given, what the guards keep out,
  the turn count). The relations \<open>quiet\<close>, \<open>hush\<close>, \<open>grows\<close> and \<open>goes\<close> say what a step may change and
  compose along the run. \<open>Agents\<close>: entry points, goal mode, agents as tools.

  \<^bold>\<open>Teams.\<close> \<open>Router\<close>, \<open>Team\<close> (membership and context), \<open>TeamRun\<close> (\<^verbatim>\<open>teamRunner\<close>), \<open>TeamFacts\<close> (the chain
  is a path, runs end, the stream closes).

  \<^bold>\<open>Providers.\<close> \<open>EventBus\<close>: the calls in sequence refine the list of published events, and an
  \<open>inductive\<close> relation interleaves them at their critical sections. \<open>MemoryContract\<close>: the locale
  \<open>memory_backend\<close>, the contract of \<^verbatim>\<open>Memory\<close> with a client's lemmas, and \<open>exact_memory\<close>, which extends
  it; \<open>FileMemory\<close> interprets \<open>exact_memory\<close>, \<open>SqliteMemory\<close> interprets \<open>memory_backend\<close> only, because
  its \<^verbatim>\<open>Recent\<close> may return less than it is asked for. \<open>TeamMemory\<close> (\<^verbatim>\<open>rest/team_memory.go\<close>) splits a
  session over any of them. \<open>SessionStore\<close>: the locale \<open>session_store\<close>, interpreted on the file and the
  SQLite store of session metadata (\<^verbatim>\<open>rest/sessionstore/\<close>). \<open>LlmGuard\<close>: the judge and its verdicts.

  \<^bold>\<open>REST server.\<close> \<open>SessionManager\<close> (\<^verbatim>\<open>rest/session_manager.go\<close>): a heap of sessions, a bounded cache
  of references into it and the store behind it; creation, loading, eviction and deletion, with an
  invariant that relates cache and store. \<open>SseEvents\<close> (\<^verbatim>\<open>rest/sse.go\<close>, \<^verbatim>\<open>rest/types.go\<close>): the frames of
  a response and when it has ended. \<open>Approvals\<close> (\<^verbatim>\<open>rest/handler.go\<close>): pending tool calls and their
  one answer. \<open>ChatHandler\<close> (\<^verbatim>\<open>rest/handler.go\<close>) and \<open>TeamHandler\<close> (\<^verbatim>\<open>rest/team.go\<close>): the requests on
  sessions and on teams; a response ends with exactly one closing frame, the roster that is listed is
  the membership of the team, pages of the history are windows of the stored messages.
  \<open>PlanHandler\<close> (\<^verbatim>\<open>rest/plan_handler.go\<close>): the registry of plan entries (an interpretation of the
  session registry), the requests that generate, edit, execute, pause, retry and read a plan, and the
  goroutine of an execution. \<open>PlanFlow\<close> interleaves them: \<open>plan_step\<close> is an \<open>inductive\<close> relation
  with one rule per critical section, \<open>plan_reachable\<close> its reachable states, and \<open>system_good\<close> the
  invariant proved by rule induction. Its hypothesis \<open>plan_world_ok\<close> says that the handler has agents,
  that a cancelled context stays cancelled, that the scheduler permutes a batch and that a model that
  replans reuses no id of a step that survives. A round of the executor, up to its next pause or end,
  is one step, and the channel of retry requests with the senders blocked on it is one queue.

  \<^bold>\<open>ACP.\<close> \<open>AcpProtocol\<close> (\<^verbatim>\<open>acp/\<close>): the server's bridge from requests to an agent's handler and back to
  notifications, and the client's session with its event handler. \<open>AcpRunner\<close> (\<^verbatim>\<open>runner/acp/runner.go\<close>):
  an external agent as a runner, its handoff server, prompts, and the state its updates build up; a
  streaming run ends with one terminal event and has the result of the plain run, and what a server
  sends arrives in the result of the runner at the other end.

  \<^bold>\<open>Tools.\<close> \<open>FileSystem\<close>: Unix paths and a tree of files, directories and symbolic links with the walk
  of \<^verbatim>\<open>EvalSymlinks\<close>, which ends because every link uses up a bound. \<open>FileTools\<close> (\<^verbatim>\<open>tool/file.go\<close>,
  \<^verbatim>\<open>tool/artifact.go\<close>, \<^verbatim>\<open>tool/shell.go\<close>) and \<open>GrepTool\<close> (\<^verbatim>\<open>tool/grep.go\<close>): a read that approves itself
  stays inside the workspace (a write or a search may leave it, see the lemmas), what is written is read
  back through any links, and a search reports the matching lines, up to its limits and nothing else.
  \<open>NativeSandbox\<close> (\<^verbatim>\<open>sandbox/native\<close>): the processes started on each platform, with and without Bubblewrap,
  whose reading of its arguments is a parameter with its documented arities. \<open>SkillLoader\<close>
  (\<^verbatim>\<open>skill/fs/loader.go\<close>). \<open>ToolApproval\<close> joins the tools with the approval of the runner: a whole turn of
  an agent whose approver denies everything.

  \<^bold>\<open>Adapters.\<close> \<open>OpenAi\<close> (\<^verbatim>\<open>model/openai\<close>): messages, answers, the stream reader, summarizer, embedder.
  \<open>McpBridge\<close> (\<^verbatim>\<open>mcp/\<close>): a tool behind a server and a client does what the tool
  does, if it reads only the decoded value of its arguments. \<open>Tokenizer\<close> (\<^verbatim>\<open>tokenizer/tokenizer.go\<close>): the
  shared cache; a model keeps the encoder, or the lack of one, that its first count in the process found,
  so the runner's \<open>rt_count\<close> is a plain function. \<open>WasmPlugins\<close>
  (\<^verbatim>\<open>plugin/wasm\<close>, \<^verbatim>\<open>sdk/guest\<close>): host and guest over 32-bit pointers and lengths packed into one
  64-bit word. \<open>HookAdapters\<close> (\<^verbatim>\<open>observer.go\<close>, \<^verbatim>\<open>hooks/\<close>).

  \<^bold>\<open>Programs.\<close> \<open>Tui\<close> (\<^verbatim>\<open>cmd/tui\<close>): \<^verbatim>\<open>Update\<close> as a function, the commands and requests around it as the
  \<open>inductive\<close> relation \<open>tui_step\<close>. \<open>CliHost\<close> (\<^verbatim>\<open>cmd/cli\<close>): keyrings (the locale \<open>secret_store\<close>,
  interpreted on the store in memory), settings, plugins with commands and observers, the start of
  the program and the handler of its ACP server. \<open>HttpServer\<close> (\<^verbatim>\<open>cmd/cli/server/agent.go\<close>, \<^verbatim>\<open>cmd/cli/main.go\<close>,
  \<^verbatim>\<open>examples/backend/main.go\<close>): patterns and dispatch of \<^verbatim>\<open>ServeMux\<close> as documented, the routes of the three
  handlers (every request reaches the one handler whose pattern it fits), the middleware, the start of the
  server with its memory and tools, and the commands. \<open>IacServer\<close> (\<^verbatim>\<open>cmd/iac-mcp/main.go\<close>,
  \<^verbatim>\<open>examples/iac/tools/terraform.go\<close>): the tools on Terraform and the agents that are offered over MCP.

  \<^bold>\<open>Bounds and fuel.\<close> The turn loop of \<^verbatim>\<open>run\<close> counts to its limit. The retry loops count attempts. The
  replan loop of a plan has a measure (its limit on replans). The loop of a team has fuel, and
  \<open>team_run_ends\<close> shows that one more than the limit on handoffs is enough when the router vetoes
  nothing; with vetoes the code itself has no bound. \<open>nested_run\<close> has a depth for agents that call
  agents; the theorems on runs hold for every runner of sub-agents, so for every depth.

  \<^bold>\<open>Not modelled.\<close> Back-pressure of channels (a stream is the list of its events), cancellation other
  than at the points where the code asks the context, data races on unprotected fields (listed as
  findings), time stamps, Unicode case folding, floating point (reals instead). The protocol packages,
  the OpenAI client, the WASM runtime, regular expressions, YAML, the widgets of the terminal, the
  system keychain and the processes of the operating system are foreign and arguments. Of the examples
  only the parts named above are modelled; the others put modelled parts together. Proofs about whole
  programs stop at the interfaces: \<open>plan_reachable\<close>, for one, takes a round of an execution as one step, so
  what a request does to the shared state during a round is told by findings, not by theorems.
\<close>

end
